(* ===== verification/Prelude.thy ===== *)
theory Prelude
  imports Main "HOL-Library.Word" "HOL-Library.FSet" "HOL-Library.Finite_Map"
begin

text \<open>
  Shared vocabulary of the development: machine integers and identifiers at their Rust
  width, checked arithmetic, the \<open>Result\<close> combinators that the \<open>?\<close> operator and the
  \<open>for\<close> loops of the source translate to, and the generic lemmas on results, finite sets
  and finite maps that the component theories use through the collections declared here.

  Conventions used throughout:
  \<^item> \<open>BTreeSet\<close> is \<open>'a fset\<close> and \<open>BTreeMap\<close> is \<open>('k, 'v) fmap\<close>, both finite by type; an
    iteration visits the keys in ascending order (\<open>keys_in_order\<close>);
  \<^item> a fixed-size byte array that the code compares and tests against zero (\<open>[u8; 16]\<close>,
    \<open>[u8; 32]\<close>) is the word with these bytes in big-endian order, so that the derived
    lexicographic \<open>Ord\<close> is the order of the words and the all-zero array is \<open>0\<close>;
  \<^item> \<open>usize\<close> is \<open>nat\<close> with the 64-bit bound written out where the code checks it.
\<close>

named_theorems result_simps \<open>equations of the result combinators\<close>
named_theorems checked_simps \<open>characteristic equations of checked arithmetic\<close>
named_theorems card_simps \<open>cardinalities of updated finite sets and maps\<close>

subsection \<open>Machine integers and identifiers\<close>

type_synonym u8 = "8 word"
type_synonym u16 = "16 word"
type_synonym u32 = "32 word"
type_synonym u64 = "64 word"
type_synonym i64 = "64 word"
type_synonym usize = nat
type_synonym id16 = "128 word"
type_synonym digest32 = "256 word"
type_synonym utf8 = "8 word list"

definition checked_add :: "'a::len word \<Rightarrow> 'a word \<Rightarrow> 'a word option" where
  "checked_add a b = (if unat a + unat b < 2 ^ LENGTH('a) then Some (a + b) else None)"

definition usize_checked_add :: "usize \<Rightarrow> usize \<Rightarrow> usize option" where
  "usize_checked_add a b = (if a + b < 2 ^ 64 then Some (a + b) else None)"

text \<open>A signed 64-bit integer that is compared and added as a number is an \<open>int\<close> in its range.\<close>

definition i64_checked :: "int \<Rightarrow> int option" where
  "i64_checked n = (if - (2 ^ 63) \<le> n \<and> n < 2 ^ 63 then Some n else None)"

definition usize_checked_mul :: "usize \<Rightarrow> usize \<Rightarrow> usize option" where
  "usize_checked_mul a b = (if a * b < 2 ^ 64 then Some (a * b) else None)"

lemma unat_of_nat_eq: "n < 2 ^ LENGTH('a) \<Longrightarrow> unat (of_nat n :: 'a::len word) = n"
  by (simp add: unat_of_nat)

lemma unat_u64_less: "unat (x :: u64) < 2 ^ 64"
  using unsigned_less [of x, where ?'a = nat] by simp

lemma checked_add_Some_iff [checked_simps]:
  "checked_add a b = Some c \<longleftrightarrow> unat c = unat a + unat b"
proof
  assume "checked_add a b = Some c"
  then show "unat c = unat a + unat b"
    by (auto simp: checked_add_def unat_word_ariths split: if_splits)
next
  assume c: "unat c = unat a + unat b"
  then have bound: "unat a + unat b < 2 ^ LENGTH('a)"
    by (metis unsigned_less)
  then have "unat (a + b) = unat c"
    using c by (simp add: unat_word_ariths)
  then have "a + b = c" by (simp only: word_unat_eq_iff)
  with bound show "checked_add a b = Some c" by (simp add: checked_add_def)
qed

lemma checked_add_one_Some [checked_simps]:
  "checked_add a 1 = Some c \<longleftrightarrow> unat c = Suc (unat (a :: 'a::len word))"
  by (simp add: checked_add_Some_iff)

lemma unat_max_word: "unat (- 1 :: 'a::len word) = 2 ^ LENGTH('a) - 1"
  by (simp add: unsigned_minus_1_eq_mask mask_eq_exp_minus_1)

lemma checked_add_one_None [checked_simps]:
  "checked_add a 1 = None \<longleftrightarrow> a = (- 1 :: 'a::len word)"
proof -
  have "unat a + 1 < 2 ^ LENGTH('a) \<longleftrightarrow> a \<noteq> - 1"
  proof
    assume lt: "unat a + 1 < 2 ^ LENGTH('a)"
    show "a \<noteq> - 1"
    proof
      assume "a = - 1"
      then have "unat a = 2 ^ LENGTH('a) - 1" by (simp add: unat_max_word)
      with lt show False by simp
    qed
  next
    assume "a \<noteq> - 1"
    moreover have "unat a < 2 ^ LENGTH('a)" by (rule unsigned_less)
    moreover have "unat (- 1 :: 'a word) = 2 ^ LENGTH('a) - 1" by (rule unat_max_word)
    ultimately have "unat a \<noteq> 2 ^ LENGTH('a) - 1" by (metis word_unat_eq_iff)
    with \<open>unat a < 2 ^ LENGTH('a)\<close> show "unat a + 1 < 2 ^ LENGTH('a)" by linarith
  qed
  then show ?thesis by (simp add: checked_add_def)
qed

lemma checked_add_one_mono: "checked_add a 1 = Some c \<Longrightarrow> a < (c :: 'a::len word)"
  by (simp add: checked_add_one_Some word_less_nat_alt)

lemma checked_add_one_pos: "checked_add a 1 = Some c \<Longrightarrow> c \<noteq> (0 :: 'a::len word)"
  by (auto simp: checked_add_one_Some)

subsection \<open>Big-endian bytes\<close>

text \<open>\<open>to_be_bytes\<close> of an integer, and the byte array of an identifier.\<close>

definition to_be_bytes :: "'a::len word \<Rightarrow> u8 list" where
  "to_be_bytes x = map (\<lambda>i. ucast (drop_bit (8 * i) x)) (rev [0..<LENGTH('a) div 8])"

lemma length_to_be_bytes [simp]: "length (to_be_bytes (x :: 'a::len word)) = LENGTH('a) div 8"
  by (simp add: to_be_bytes_def)

lemma to_be_bytes_byte:
  fixes x y :: "'a::len word"
  assumes "to_be_bytes x = to_be_bytes y" and "i < LENGTH('a) div 8"
  shows "(ucast (drop_bit (8 * i) x) :: u8) = ucast (drop_bit (8 * i) y)"
  using assms by (auto simp: to_be_bytes_def)

lemma to_be_bytes_inject:
  fixes x y :: "'a::len word"
  assumes eq: "to_be_bytes x = to_be_bytes y" and "8 dvd LENGTH('a)"
  shows "x = y"
proof (rule bit_eqI)
  fix n assume "possible_bit TYPE('a word) n"
  then have n: "n < LENGTH('a)" by (simp add: possible_bit_word)
  with \<open>8 dvd LENGTH('a)\<close> have "n div 8 < LENGTH('a) div 8" by (auto elim!: dvdE)
  then have "(ucast (drop_bit (8 * (n div 8)) x) :: u8) = ucast (drop_bit (8 * (n div 8)) y)"
    by (rule to_be_bytes_byte [OF eq])
  then have "bit (ucast (drop_bit (8 * (n div 8)) x) :: u8) (n mod 8) =
      bit (ucast (drop_bit (8 * (n div 8)) y) :: u8) (n mod 8)" by simp
  then show "bit x n = bit y n"
    by (simp add: bit_ucast_iff bit_drop_bit_eq possible_bit_word)
qed

text \<open>\<open>from_be_bytes\<close>; the two are inverse on arrays of the width of the type.\<close>

definition from_be_bytes :: "u8 list \<Rightarrow> 'a::len word" where
  "from_be_bytes bs = foldl (\<lambda>acc b. or (push_bit 8 acc) (ucast b)) 0 bs"

lemma bit_from_be_bytes:
  "bit (from_be_bytes bs :: 'a::len word) n \<longleftrightarrow>
     n < LENGTH('a) \<and> n div 8 < length bs \<and> bit (rev bs ! (n div 8)) (n mod 8)"
proof (induction bs arbitrary: n rule: rev_induct)
  case Nil
  then show ?case by (simp add: from_be_bytes_def)
next
  case (snoc b bs)
  have step: "from_be_bytes (bs @ [b]) = (or (push_bit 8 (from_be_bytes bs)) (ucast b) :: 'a word)"
    by (simp add: from_be_bytes_def)
  show ?case
  proof (cases "n < 8")
    case True
    then show ?thesis by (auto simp: step bit_simps)
  next
    case False
    then have "n div 8 = Suc ((n - 8) div 8)" "n mod 8 = (n - 8) mod 8"
      by (simp_all add: le_div_geq le_mod_geq)
    moreover have "\<not> bit b n" using False bit_imp_le_length [of b n] by auto
    ultimately show ?thesis using False snoc [of "n - 8"] by (auto simp: step bit_simps)
  qed
qed

lemma from_be_bytes_inverse:
  fixes x :: "'a::len word"
  assumes "8 dvd LENGTH('a)" shows "from_be_bytes (to_be_bytes x) = x"
proof (rule bit_word_eqI)
  fix n assume n: "n < LENGTH('a)"
  with assms have "n div 8 < LENGTH('a) div 8" by (auto elim!: dvdE)
  with n show "bit (from_be_bytes (to_be_bytes x) :: 'a word) n = bit x n"
    by (simp add: bit_from_be_bytes to_be_bytes_def rev_map [symmetric] bit_simps)
qed

lemma to_be_bytes_inverse:
  assumes "length bs = LENGTH('a) div 8"
  shows "to_be_bytes (from_be_bytes bs :: 'a::len word) = bs"
proof (rule nth_equalityI)
  fix i assume "i < length (to_be_bytes (from_be_bytes bs :: 'a word))"
  then have i: "i < length bs" using assms by simp
  show "to_be_bytes (from_be_bytes bs :: 'a word) ! i = bs ! i"
  proof (rule bit_word_eqI)
    fix n assume n: "n < LENGTH(8)"
    define j where "j = length bs - Suc i"
    have j: "j < length bs" "rev bs ! j = bs ! i" using i by (auto simp: j_def rev_nth)
    have "8 * j + n < LENGTH('a)" using j(1) n assms by (simp add: less_mult_imp_div_less)
    with j n i assms show "bit (to_be_bytes (from_be_bytes bs :: 'a word) ! i) n = bit (bs ! i) n"
      by (simp add: to_be_bytes_def rev_map [symmetric] rev_nth j_def bit_simps bit_from_be_bytes)
  qed
qed (simp add: assms)

subsection \<open>Results\<close>

text \<open>\<open>Result<T, E>\<close> is \<open>'e + 't\<close>; \<open>tryE r k\<close> is \<open>let x = r?; k x\<close>.\<close>

definition tryE :: "'e + 'a \<Rightarrow> ('a \<Rightarrow> 'e + 'b) \<Rightarrow> 'e + 'b" where
  "tryE r k = (case r of Inl e \<Rightarrow> Inl e | Inr x \<Rightarrow> k x)"

definition ok_or :: "'e \<Rightarrow> 'a option \<Rightarrow> 'e + 'a" where
  "ok_or e v = (case v of None \<Rightarrow> Inl e | Some x \<Rightarrow> Inr x)"

definition map_err :: "('e \<Rightarrow> 'f) \<Rightarrow> 'e + 'a \<Rightarrow> 'f + 'a" where
  "map_err f r = (case r of Inl e \<Rightarrow> Inl (f e) | Inr x \<Rightarrow> Inr x)"

text \<open>
  A loop whose body only checks (\<open>for x in xs { body(x)?; }\<close>), and one that also carries
  mutable state (\<open>for x in xs { s = body(x, s)?; }\<close>).
\<close>

primrec forE :: "('a \<Rightarrow> 'e + unit) \<Rightarrow> 'a list \<Rightarrow> 'e + unit" where
  "forE f [] = Inr ()"
| "forE f (x # xs) = tryE (f x) (\<lambda>_. forE f xs)"

primrec foldE :: "('a \<Rightarrow> 's \<Rightarrow> 'e + 's) \<Rightarrow> 'a list \<Rightarrow> 's \<Rightarrow> 'e + 's" where
  "foldE f [] s = Inr s"
| "foldE f (x # xs) s = tryE (f x s) (foldE f xs)"

text \<open>A loop that pushes one result per element (\<open>for x in xs { out.push(f(x)?); }\<close>).\<close>

primrec mapE :: "('a \<Rightarrow> 'e + 'b) \<Rightarrow> 'a list \<Rightarrow> 'e + 'b list" where
  "mapE f [] = Inr []"
| "mapE f (x # xs) = tryE (f x) (\<lambda>y. tryE (mapE f xs) (\<lambda>ys. Inr (y # ys)))"

lemma foldE_cong [fundef_cong]:
  "xs = ys \<Longrightarrow> s = t \<Longrightarrow> (\<And>x s. x \<in> set ys \<Longrightarrow> f x s = g x s) \<Longrightarrow> foldE f xs s = foldE g ys t"
  by (induction ys arbitrary: xs s t) (auto simp: tryE_def split: sum.splits)

lemma tryE_cong [fundef_cong]:
  "r = r' \<Longrightarrow> (\<And>x. r' = Inr x \<Longrightarrow> k x = k' x) \<Longrightarrow> tryE r k = tryE r' k'"
  by (auto simp: tryE_def split: sum.splits)

lemma tryE_simps [simp, result_simps]:
  "tryE (Inl e) k = Inl e"
  "tryE (Inr x) k = k x"
  by (simp_all add: tryE_def)

lemma tryE_Inr_iff [simp, result_simps]:
  "tryE r k = Inr y \<longleftrightarrow> (\<exists>x. r = Inr x \<and> k x = Inr y)"
  by (cases r) auto

lemma tryE_Inl_iff:
  "tryE r k = Inl e \<longleftrightarrow> r = Inl e \<or> (\<exists>x. r = Inr x \<and> k x = Inl e)"
  by (cases r) auto

lemma ok_or_simps [simp, result_simps]:
  "ok_or e None = Inl e"
  "ok_or e (Some x) = Inr x"
  by (simp_all add: ok_or_def)

lemma ok_or_iff [simp, result_simps]:
  "ok_or e v = Inr x \<longleftrightarrow> v = Some x"
  "ok_or e v = Inl e' \<longleftrightarrow> v = None \<and> e' = e"
  by (auto simp: ok_or_def split: option.splits)

lemma map_err_iff [simp, result_simps]:
  "map_err f r = Inr x \<longleftrightarrow> r = Inr x"
  "map_err f r = Inl e \<longleftrightarrow> (\<exists>e'. r = Inl e' \<and> e = f e')"
  by (auto simp: map_err_def split: sum.splits)

lemma if_Inl_iff [simp, result_simps]:
  "(if b then Inl e else r) = Inr x \<longleftrightarrow> \<not> b \<and> r = Inr x"
  by simp

lemma forE_Inr_iff [simp, result_simps]:
  "forE f xs = Inr u \<longleftrightarrow> (\<forall>x \<in> set xs. f x = Inr ())"
  by (induction xs) auto

lemma forE_Inl: "forE f xs = Inl e \<Longrightarrow> \<exists>x \<in> set xs. f x = Inl e"
  by (induction xs) (auto simp: tryE_Inl_iff)

lemma mapE_Inr_iff: "mapE f xs = Inr ys \<longleftrightarrow> list_all2 (\<lambda>x y. f x = Inr y) xs ys"
  by (induction xs arbitrary: ys) (auto simp: list_all2_Cons1)

lemma result_cases_unit: "(\<exists>e. r = Inl e) \<or> r = Inr ()" for r :: "'e + unit"
  by (cases r) auto

text \<open>
  A method that builds a candidate, may fail at any point, and writes \<open>*self = candidate\<close>
  only as its last action.
\<close>

definition commit_candidate :: "'s \<Rightarrow> 'e + 's \<times> 'a \<Rightarrow> 's \<times> ('e + 'a)" where
  "commit_candidate s r = (case r of Inl e \<Rightarrow> (s, Inl e) | Inr (s', x) \<Rightarrow> (s', Inr x))"

lemma commit_candidate_simps [simp, result_simps]:
  "commit_candidate s (Inl e) = (s, Inl e)"
  "commit_candidate s (Inr (s', x)) = (s', Inr x)"
  by (simp_all add: commit_candidate_def)

lemma commit_candidate_Inr_iff [simp, result_simps]:
  "commit_candidate s r = (s', Inr x) \<longleftrightarrow> r = Inr (s', x)"
  by (cases r) (auto simp: commit_candidate_def)

lemma commit_candidate_Inl_iff [simp, result_simps]:
  "commit_candidate s r = (s', Inl e) \<longleftrightarrow> r = Inl e \<and> s' = s"
  by (cases r) (auto simp: commit_candidate_def)

lemma fst_commit_candidate:
  "fst (commit_candidate s r) = (case r of Inl e \<Rightarrow> s | Inr (s', x) \<Rightarrow> s')"
  by (auto simp: commit_candidate_def split: sum.splits)

subsection \<open>Finite sets and maps\<close>

definition keys_in_order :: "('k::linorder, 'v) fmap \<Rightarrow> 'k list" where
  "keys_in_order m = sorted_list_of_fset (fmdom m)"

definition entries_in_order :: "('k::linorder, 'v) fmap \<Rightarrow> ('k \<times> 'v) list" where
  "entries_in_order m =
     concat (map (\<lambda>k. case fmlookup m k of None \<Rightarrow> [] | Some v \<Rightarrow> [(k, v)]) (keys_in_order m))"

definition fmap_len :: "('k, 'v) fmap \<Rightarrow> usize" where
  "fmap_len m = fcard (fmdom m)"

lemma set_keys_in_order [simp]: "set (keys_in_order m) = fset (fmdom m)"
  by (simp add: keys_in_order_def)

lemma set_entries_in_order [simp]:
  "set (entries_in_order m) = {(k, v). fmlookup m k = Some v}"
  by (force simp: entries_in_order_def fmlookup_dom_iff split: option.splits)

lemma entries_in_order_map:
  "entries_in_order m = map (\<lambda>k. (k, the (fmlookup m k))) (keys_in_order m)"
proof -
  have "concat (map (\<lambda>k. case fmlookup m k of None \<Rightarrow> [] | Some v \<Rightarrow> [(k, v)]) ks) =
      map (\<lambda>k. (k, the (fmlookup m k))) ks" if "set ks \<subseteq> fset (fmdom m)" for ks
    using that by (induction ks) (auto simp: fmlookup_dom_iff)
  then show ?thesis by (simp add: entries_in_order_def)
qed

lemma distinct_entries_in_order [simp]: "distinct (entries_in_order m)"
  by (simp add: entries_in_order_map distinct_map inj_on_def keys_in_order_def
      sorted_list_of_fset.rep_eq)

lemma length_filter_entries:
  "length (filter P (entries_in_order m)) = card {(k, v). fmlookup m k = Some v \<and> P (k, v)}"
proof -
  have "length (filter P (entries_in_order m)) = card (set (filter P (entries_in_order m)))"
    by (metis distinct_card distinct_entries_in_order distinct_filter)
  also have "set (filter P (entries_in_order m)) = {(k, v). fmlookup m k = Some v \<and> P (k, v)}"
    by auto
  finally show ?thesis .
qed

lemma fmap_len_upd_le: "fmap_len (fmupd k v m) \<le> Suc (fmap_len m)"
  by (simp add: fmap_len_def fcard.rep_eq card_insert_le_m1)

lemma fcard_finsert_new [card_simps]: "x |\<notin>| A \<Longrightarrow> fcard (finsert x A) = Suc (fcard A)"
  by (rule fcard_finsert_disjoint)

lemma fcard_finsert_old [card_simps]: "x |\<in>| A \<Longrightarrow> fcard (finsert x A) = fcard A"
  by (simp add: finsert_absorb)

lemma fmap_len_upd_new [card_simps]:
  "fmlookup m k = None \<Longrightarrow> fmap_len (fmupd k v m) = Suc (fmap_len m)"
  by (simp add: fmap_len_def fcard_finsert_disjoint fmdom_notI)

lemma fmap_len_upd_old [card_simps]:
  "fmlookup m k = Some w \<Longrightarrow> fmap_len (fmupd k v m) = fmap_len m"
  by (simp add: fmap_len_def finsert_absorb fmdomI)

lemma fmap_len_empty [simp]: "fmap_len fmempty = 0"
  by (simp add: fmap_len_def)

lemma ffilter_finsert:
  "ffilter P (finsert x A) = (if P x then finsert x (ffilter P A) else ffilter P A)"
  by auto

lemma fcard_ffilter_le: "fcard (ffilter P A) \<le> fcard A"
  by (rule fcard_mono) auto

lemma fmap_len_drop_le: "fmap_len (fmdrop k m) \<le> fmap_len m"
  by (simp add: fmap_len_def) (rule fcard_mono, auto)

subsection \<open>Equality by membership\<close>

lemma option_eqI:
  assumes "\<And>x. a = Some x \<longleftrightarrow> b = Some x"
  shows "a = b"
proof (cases b)
  case None
  then show ?thesis using assms [of "the a"] by (cases a) simp_all
next
  case (Some y)
  then show ?thesis using assms [of y] by simp
qed

lemma fmap_eqI:
  assumes "\<And>k v. fmlookup m k = Some v \<longleftrightarrow> fmlookup m' k = Some v"
  shows "m = m'"
  by (rule fmap_ext, rule option_eqI, rule assms)

lemma foldE_append: "foldE f (xs @ ys) s = tryE (foldE f xs s) (foldE f ys)"
  by (induction xs arbitrary: s) (auto simp: tryE_def split: sum.splits)

end
