(* ===== verification/Contracts.thy ===== *)
theory Contracts
  imports Prelude
begin

text \<open>
  The shared domain vocabulary of \<open>crates/trnm-contracts/src/lib.rs\<close>: stable error codes,
  retry classes, the domain error, the byte identifiers, the fail-closed counters and the
  protocol version. The \<open>byte_id!\<close> types are the words \<open>id16\<close> and \<open>digest32\<close> of the
  prelude, the \<open>counter!\<close> types are \<open>u64\<close>.
\<close>

datatype StableCode =
    InvalidArgument | NotFound | AlreadyExists | PermissionDenied | ResourceExhausted
  | FailedPrecondition | Aborted | OutOfRange | Unimplemented | Internal | Unavailable
  | DataLoss | Unauthenticated

datatype RetryClass = Never | SafeImmediate | SafeBackoff | ResyncRequired

record DomainError =
  de_code :: StableCode
  de_reason :: string
  de_retry :: RetryClass

fun StableCode_repr :: "StableCode \<Rightarrow> u16" where
  "StableCode_repr InvalidArgument = 3"
| "StableCode_repr NotFound = 5"
| "StableCode_repr AlreadyExists = 6"
| "StableCode_repr PermissionDenied = 7"
| "StableCode_repr ResourceExhausted = 8"
| "StableCode_repr FailedPrecondition = 9"
| "StableCode_repr Aborted = 10"
| "StableCode_repr OutOfRange = 11"
| "StableCode_repr Unimplemented = 12"
| "StableCode_repr Internal = 13"
| "StableCode_repr Unavailable = 14"
| "StableCode_repr DataLoss = 15"
| "StableCode_repr Unauthenticated = 16"

fun StableCode_as_str :: "StableCode \<Rightarrow> string" where
  "StableCode_as_str InvalidArgument = ''invalid_argument''"
| "StableCode_as_str NotFound = ''not_found''"
| "StableCode_as_str AlreadyExists = ''already_exists''"
| "StableCode_as_str PermissionDenied = ''permission_denied''"
| "StableCode_as_str ResourceExhausted = ''resource_exhausted''"
| "StableCode_as_str FailedPrecondition = ''failed_precondition''"
| "StableCode_as_str Aborted = ''aborted''"
| "StableCode_as_str OutOfRange = ''out_of_range''"
| "StableCode_as_str Unimplemented = ''unimplemented''"
| "StableCode_as_str Internal = ''internal''"
| "StableCode_as_str Unavailable = ''unavailable''"
| "StableCode_as_str DataLoss = ''data_loss''"
| "StableCode_as_str Unauthenticated = ''unauthenticated''"

definition domain_error :: "StableCode \<Rightarrow> string \<Rightarrow> RetryClass \<Rightarrow> DomainError" where
  "domain_error code reason retry = \<lparr>de_code = code, de_reason = reason, de_retry = retry\<rparr>"

definition DomainError_display :: "DomainError \<Rightarrow> string" where
  "DomainError_display e = StableCode_as_str (de_code e) @ '':'' @ de_reason e"

lemma domain_error_sel [simp]:
  "de_code (domain_error c r t) = c"
  "de_reason (domain_error c r t) = r"
  "de_retry (domain_error c r t) = t"
  by (simp_all add: domain_error_def)

lemma domain_error_eq_iff [simp]:
  "domain_error c r t = domain_error c' r' t' \<longleftrightarrow> c = c' \<and> r = r' \<and> t = t'"
  by (simp add: domain_error_def)

subsection \<open>Identifiers, counters, versions\<close>

text \<open>
  \<open>byte_id!\<close>: the array of a word's bytes, most significant first, and the all-zero test
  the source makes byte by byte.
\<close>

definition id_is_zero :: "'a::len word \<Rightarrow> bool" where
  "id_is_zero x = list_all (\<lambda>byte. byte = 0) (to_be_bytes x)"

definition checked_next :: "u64 \<Rightarrow> DomainError + u64" where
  "checked_next x =
     ok_or (domain_error OutOfRange ''counter_overflow'' Never) (checked_add x 1)"

record ProtocolVersion =
  pv_major :: u16
  pv_minor :: u16

lemma to_be_bytes_zero: "to_be_bytes (0 :: 'a::len word) = replicate (LENGTH('a) div 8) 0"
  by (simp add: to_be_bytes_def map_replicate_const)

lemma id_is_zero_eq: "8 dvd LENGTH('a) \<Longrightarrow> id_is_zero x \<longleftrightarrow> x = (0 :: 'a::len word)"
proof
  assume dvd: "8 dvd LENGTH('a)" and "id_is_zero x"
  then have "to_be_bytes x = replicate (LENGTH('a) div 8) 0"
    by (intro replicate_eqI) (auto simp: id_is_zero_def list_all_iff)
  then have "to_be_bytes x = to_be_bytes (0 :: 'a word)" by (simp add: to_be_bytes_zero)
  then show "x = 0" using dvd by (rule to_be_bytes_inject)
qed (simp add: id_is_zero_def to_be_bytes_zero list_all_iff)

lemma id_is_zero_iff [simp]:
  "id_is_zero (i :: id16) \<longleftrightarrow> i = 0"
  "id_is_zero (d :: digest32) \<longleftrightarrow> d = 0"
  by (simp_all add: id_is_zero_eq)

lemma checked_next_Inr [checked_simps]:
  "checked_next x = Inr y \<longleftrightarrow> unat y = Suc (unat x)"
  by (simp add: checked_next_def checked_add_one_Some)

lemma checked_next_Inl [checked_simps]:
  "checked_next x = Inl e \<longleftrightarrow>
     x = - 1 \<and> e = domain_error OutOfRange ''counter_overflow'' Never"
  by (auto simp: checked_next_def checked_add_one_None)

lemma checked_next_total: "x \<noteq> - 1 \<Longrightarrow> checked_next x = Inr (x + 1)"
proof -
  assume "x \<noteq> - 1"
  then obtain y where y: "checked_add x 1 = Some y"
    using checked_add_one_None [of x] by (cases "checked_add x 1") auto
  then have "y = x + 1" by (simp add: checked_add_def split: if_splits)
  with y show ?thesis by (simp add: checked_next_def)
qed

end
