(* ===== verification/Machine.thy ===== *)
theory Machine
  imports Prelude
begin

text \<open>
  The interfaces the components share, as locales. A component is a state type with
  operations; \<open>state_machine\<close> says that every operation keeps an invariant and lifts it to
  runs; \<open>monotone_machine\<close> says that every operation moves the state up a preorder (a
  revocation stays, a terminal record stays, a counter never goes back); \<open>receipt_machine\<close>
  is the contract of the idempotent command handlers: a command that succeeds leaves a
  receipt under its key, no later operation removes or changes a receipt, and a command
  whose receipt is present is answered from the receipt without a change of state.
  Every locale is interpreted on the model of each component that provides it.
\<close>

subsection \<open>Runs and invariants\<close>

locale state_machine =
  fixes step :: "'op \<Rightarrow> 's \<Rightarrow> 's"
    and inv :: "'s \<Rightarrow> bool"
  assumes step_inv: "inv s \<Longrightarrow> inv (step x s)"
begin

lemma run_inv: "inv s \<Longrightarrow> inv (fold step xs s)"
  by (induction xs arbitrary: s) (auto intro: step_inv)

end

locale monotone_machine = state_machine step inv
  for step :: "'op \<Rightarrow> 's \<Rightarrow> 's" and inv :: "'s \<Rightarrow> bool" +
  fixes below :: "'s \<Rightarrow> 's \<Rightarrow> bool"
  assumes below_refl: "below s s"
    and below_trans: "below s t \<Longrightarrow> below t u \<Longrightarrow> below s u"
    and step_below: "inv s \<Longrightarrow> below s (step x s)"
begin

lemma run_below: "inv s \<Longrightarrow> below s (fold step xs s)"
proof (induction xs arbitrary: s)
  case Nil
  show ?case by (simp add: below_refl)
next
  case (Cons x xs)
  have "below s (step x s)" using Cons.prems by (rule step_below)
  moreover have "below (step x s) (fold step xs (step x s))"
    using Cons.prems by (intro Cons.IH step_inv)
  ultimately show ?case by (auto intro: below_trans)
qed

lemma prefix_below:
  assumes "inv s"
  shows "below (fold step xs s) (fold step (xs @ ys) s)"
  using run_below [OF run_inv [OF assms]] by simp

end

subsection \<open>Idempotent command handlers\<close>

locale receipt_machine = state_machine step inv
  for step :: "'op \<Rightarrow> 's \<Rightarrow> 's" and inv :: "'s \<Rightarrow> bool" +
  fixes receipt_of :: "'s \<Rightarrow> 'k \<Rightarrow> 'r option"
    and exec :: "'c \<Rightarrow> 's \<Rightarrow> 's \<times> ('e + 'r)"
    and key :: "'c \<Rightarrow> 'k"
  assumes receipt_stable:
      "inv s \<Longrightarrow> receipt_of s k = Some r \<Longrightarrow> receipt_of (step x s) k = Some r"
    and exec_inv: "inv s \<Longrightarrow> inv (fst (exec c s))"
    and exec_stores: "inv s \<Longrightarrow> exec c s = (s', Inr r) \<Longrightarrow> receipt_of s' (key c) = Some r"
    and exec_replays:
      "inv s \<Longrightarrow> exec c s = (s', Inr r) \<Longrightarrow> receipt_of t (key c) = Some r \<Longrightarrow>
        exec c t = (t, Inr r)"
begin

lemma run_receipt:
  "inv s \<Longrightarrow> receipt_of s k = Some r \<Longrightarrow> receipt_of (fold step xs s) k = Some r"
  by (induction xs arbitrary: s) (auto intro: step_inv receipt_stable)

text \<open>
  Exactly once: after any number of further operations the same command returns the same
  receipt and changes nothing.
\<close>

lemma exactly_once:
  assumes "inv s" and "exec c s = (s', Inr r)"
  shows "exec c (fold step xs s') = (fold step xs s', Inr r)"
proof -
  have "inv s'" using exec_inv [OF assms(1), of c] assms(2) by simp
  moreover have "receipt_of s' (key c) = Some r" using assms by (rule exec_stores)
  ultimately have "receipt_of (fold step xs s') (key c) = Some r" by (rule run_receipt)
  with assms show ?thesis by (rule exec_replays)
qed

end

end
