(* ===== verification/Session_Family.thy ===== *)
theory Session_Family
  imports Contracts Machine
begin

text \<open>
  Refresh-token families (\<open>crates/trnm-session-core/src/lib.rs\<close>). A family has one active
  refresh token and remembers every token it consumed; presenting a consumed token revokes
  the whole family. Operations return the family beside the result, because a failing
  \<open>rotate\<close> may change the status.
\<close>

subsection \<open>State\<close>

datatype RevocationReason = Logout | Administrator | CredentialReset | RefreshReplay

datatype FamilyStatus = Active | Revoked RevocationReason

record RotationReceipt =
  rr_previous_generation :: u64
  rr_current_generation :: u64
  rr_active_token :: id16

record RefreshFamily =
  rf_family_id :: id16
  rf_generation :: u64
  rf_active_token :: id16
  rf_consumed_tokens :: "id16 fset"
  rf_status :: FamilyStatus

subsection \<open>Operations\<close>

definition family_new :: "id16 \<Rightarrow> id16 \<Rightarrow> DomainError + RefreshFamily" where
  "family_new fid token =
     (if id_is_zero fid \<or> id_is_zero token
      then Inl (domain_error InvalidArgument ''zero_session_family_or_token'' Never)
      else Inr \<lparr>rf_family_id = fid, rf_generation = 0, rf_active_token = token,
                rf_consumed_tokens = {||}, rf_status = Active\<rparr>)"

definition require_active :: "RefreshFamily \<Rightarrow> DomainError + unit" where
  "require_active f = (case rf_status f of
       Active \<Rightarrow> Inr ()
     | Revoked _ \<Rightarrow> Inl (domain_error Unauthenticated ''session_family_revoked'' Never))"

definition verify_active :: "RefreshFamily \<Rightarrow> id16 \<Rightarrow> DomainError + unit" where
  "verify_active f token =
     tryE (require_active f) (\<lambda>_.
       if token \<noteq> rf_active_token f
       then Inl (domain_error Unauthenticated ''refresh_token_not_active'' Never)
       else Inr ())"

definition rotate :: "RefreshFamily \<Rightarrow> id16 \<Rightarrow> id16 \<Rightarrow>
    RefreshFamily \<times> (DomainError + RotationReceipt)" where
  "rotate f presented replacement =
     (case require_active f of
        Inl e \<Rightarrow> (f, Inl e)
      | Inr _ \<Rightarrow>
        if id_is_zero presented \<or> id_is_zero replacement
        then (f, Inl (domain_error InvalidArgument ''zero_refresh_token'' Never))
        else if presented |\<in>| rf_consumed_tokens f
        then (f\<lparr>rf_status := Revoked RefreshReplay\<rparr>,
              Inl (domain_error Unauthenticated ''refresh_replay_detected'' Never))
        else if presented \<noteq> rf_active_token f
        then (f, Inl (domain_error Unauthenticated ''refresh_token_unknown'' Never))
        else if replacement = rf_active_token f \<or> replacement |\<in>| rf_consumed_tokens f
        then (f, Inl (domain_error AlreadyExists ''replacement_refresh_token_reused'' Never))
        else (case checked_next (rf_generation f) of
            Inl e \<Rightarrow> (f, Inl e)
          | Inr current \<Rightarrow>
              (f\<lparr>rf_consumed_tokens := finsert (rf_active_token f) (rf_consumed_tokens f),
                 rf_active_token := replacement,
                 rf_generation := current\<rparr>,
               Inr \<lparr>rr_previous_generation = rf_generation f,
                    rr_current_generation = current,
                    rr_active_token = replacement\<rparr>)))"

definition revoke :: "RefreshFamily \<Rightarrow> RevocationReason \<Rightarrow> RefreshFamily" where
  "revoke f reason = f\<lparr>rf_status := Revoked reason\<rparr>"

text \<open>The mutating operations as one step function, for runs.\<close>

datatype SessionOp = Rotate id16 id16 | Revoke RevocationReason

fun session_step :: "SessionOp \<Rightarrow> RefreshFamily \<Rightarrow> RefreshFamily" where
  "session_step (Rotate presented replacement) f = fst (rotate f presented replacement)"
| "session_step (Revoke reason) f = revoke f reason"

subsection \<open>Invariant\<close>

text \<open>
  What every family built by \<open>family_new\<close> and the operations satisfies: the active token is
  neither zero nor consumed, no consumed token is zero, and the generation counts the
  consumed tokens.
\<close>

definition family_inv :: "RefreshFamily \<Rightarrow> bool" where
  "family_inv f \<longleftrightarrow>
     rf_family_id f \<noteq> 0 \<and> rf_active_token f \<noteq> 0 \<and> 0 |\<notin>| rf_consumed_tokens f \<and>
     rf_active_token f |\<notin>| rf_consumed_tokens f \<and> unat (rf_generation f) = fcard (rf_consumed_tokens f)"

lemma require_active_iff [simp]:
  "require_active f = Inr u \<longleftrightarrow> rf_status f = Active"
  "require_active f = Inl e \<longleftrightarrow>
     rf_status f \<noteq> Active \<and> e = domain_error Unauthenticated ''session_family_revoked'' Never"
  by (auto simp: require_active_def split: FamilyStatus.splits)

lemma verify_active_iff: "verify_active f t = Inr () \<longleftrightarrow> rf_status f = Active \<and> t = rf_active_token f"
  by (auto simp: verify_active_def)

lemma rotate_Inr_iff:
  "rotate f p r = (f', Inr receipt) \<longleftrightarrow>
     rf_status f = Active \<and> p \<noteq> 0 \<and> r \<noteq> 0 \<and> p |\<notin>| rf_consumed_tokens f \<and> p = rf_active_token f \<and>
     r \<noteq> rf_active_token f \<and> r |\<notin>| rf_consumed_tokens f \<and>
     (\<exists>g. checked_next (rf_generation f) = Inr g \<and>
        f' = f\<lparr>rf_consumed_tokens := finsert (rf_active_token f) (rf_consumed_tokens f),
               rf_active_token := r, rf_generation := g\<rparr> \<and>
        receipt = \<lparr>rr_previous_generation = rf_generation f, rr_current_generation = g,
                   rr_active_token = r\<rparr>)"
  by (auto simp: rotate_def split: sum.splits if_splits)

text \<open>A rejected rotation changes nothing, except that a replay revokes the family.\<close>

lemma rotate_Inl_state:
  "rotate f p r = (f', Inl e) \<Longrightarrow>
     f' = f \<or>
     f' = f\<lparr>rf_status := Revoked RefreshReplay\<rparr> \<and> rf_status f = Active \<and> p |\<in>| rf_consumed_tokens f \<and>
     e = domain_error Unauthenticated ''refresh_replay_detected'' Never"
  by (auto simp: rotate_def split: sum.splits if_splits)

lemma family_new_inv: "family_new fid t = Inr f \<Longrightarrow> family_inv f"
  by (auto simp: family_new_def family_inv_def split: if_splits)

lemma rotate_cases [case_names rejected replay rotated]:
  assumes "rotate f p r = (f', res)"
  obtains (rejected) e where "res = Inl e" "f' = f"
  | (replay) "res = Inl (domain_error Unauthenticated ''refresh_replay_detected'' Never)"
      "f' = f\<lparr>rf_status := Revoked RefreshReplay\<rparr>" "rf_status f = Active"
      "p |\<in>| rf_consumed_tokens f"
  | (rotated) receipt where "res = Inr receipt" "rotate f p r = (f', Inr receipt)"
  using assms by (cases res) (auto dest: rotate_Inl_state)

lemma rotate_inv:
  assumes "family_inv f" and "rotate f p r = (f', res)"
  shows "family_inv f'"
  using assms(2)
proof (cases rule: rotate_cases)
  case (rotated receipt)
  with assms(1) show ?thesis
    by (auto simp: rotate_Inr_iff family_inv_def checked_simps card_simps)
qed (use assms in \<open>simp_all add: family_inv_def\<close>)

lemma session_step_inv: "family_inv f \<Longrightarrow> family_inv (session_step x f)"
proof (cases x)
  case (Rotate p r)
  assume "family_inv f"
  with Rotate show ?thesis
    using rotate_inv [of f p r] by (cases "rotate f p r") simp
qed (simp add: revoke_def family_inv_def)

subsection \<open>What an operation may do to a family\<close>

text \<open>
  The order in which families evolve: the identity stays, consumed tokens stay consumed, the
  active token of before is still active or consumed, and a revoked family is frozen except
  for the reason of its revocation.
\<close>

definition family_below :: "RefreshFamily \<Rightarrow> RefreshFamily \<Rightarrow> bool" where
  "family_below f f' \<longleftrightarrow>
     rf_family_id f' = rf_family_id f \<and>
     rf_generation f \<le> rf_generation f' \<and>
     rf_consumed_tokens f |\<subseteq>| rf_consumed_tokens f' \<and>
     rf_active_token f \<in> insert (rf_active_token f') (fset (rf_consumed_tokens f')) \<and>
     (rf_status f \<noteq> Active \<longrightarrow> rf_status f' \<noteq> Active \<and> f' = f\<lparr>rf_status := rf_status f'\<rparr>)"

lemma family_below_refl: "family_below f f"
  by (simp add: family_below_def)

lemma family_below_trans:
  assumes "family_below f g" and "family_below g h"
  shows "family_below f h"
proof -
  have "rf_status f \<noteq> Active \<longrightarrow> h = f\<lparr>rf_status := rf_status h\<rparr>"
  proof
    assume "rf_status f \<noteq> Active"
    then have "rf_status g \<noteq> Active" and "g = f\<lparr>rf_status := rf_status g\<rparr>"
      using assms(1) by (simp_all add: family_below_def)
    moreover from this have "h = g\<lparr>rf_status := rf_status h\<rparr>"
      using assms(2) by (simp add: family_below_def)
    ultimately show "h = f\<lparr>rf_status := rf_status h\<rparr>"
      by (metis RefreshFamily.fold_congs(5) RefreshFamily.update_convs(5) RefreshFamily.surjective)
  qed
  with assms show ?thesis by (auto simp: family_below_def)
qed

lemma checked_next_le: "checked_next x = Inr y \<Longrightarrow> x \<le> y"
  by (simp add: checked_simps word_le_nat_alt)

lemma rotate_below:
  assumes "rotate f p r = (f', res)"
  shows "family_below f f'"
  using assms
proof (cases rule: rotate_cases)
  case (rotated receipt)
  then show ?thesis
    by (auto simp: rotate_Inr_iff family_below_def checked_next_le)
qed (simp_all add: family_below_def)

lemma revoke_below: "family_below f (revoke f reason)"
  by (simp add: family_below_def revoke_def)

lemma session_step_below: "family_below f (session_step x f)"
proof (cases x)
  case (Rotate p r)
  then show ?thesis using rotate_below [of f p r] by (cases "rotate f p r") simp
qed (simp add: revoke_below)

interpretation session: monotone_machine session_step family_inv family_below
  by unfold_locales
    (blast intro: session_step_inv family_below_refl family_below_trans session_step_below)+

subsection \<open>Properties\<close>

lemma rotated_token_consumed:
  "rotate f t r = (f', Inr receipt) \<Longrightarrow>
     rf_family_id f' = rf_family_id f \<and> t |\<in>| rf_consumed_tokens f' \<and> t \<noteq> 0"
  by (auto simp: rotate_Inr_iff)

lemma rotate_consumed:
  "t |\<in>| rf_consumed_tokens g \<Longrightarrow> t \<noteq> 0 \<Longrightarrow> r \<noteq> 0 \<Longrightarrow> rf_status g = Active \<Longrightarrow>
     rotate g t r = (g\<lparr>rf_status := Revoked RefreshReplay\<rparr>,
       Inl (domain_error Unauthenticated ''refresh_replay_detected'' Never))"
  by (auto simp: rotate_def require_active_def)

lemma rotate_revoked:
  "rf_status g \<noteq> Active \<Longrightarrow>
     rotate g t r = (g, Inl (domain_error Unauthenticated ''session_family_revoked'' Never))"
  by (auto simp: rotate_def require_active_def split: FamilyStatus.splits)

text \<open>
  C5: A refresh token is good for one rotation. After a token was rotated out, in every later
  state of the family it neither verifies nor rotates again; presenting it to a family that
  is still active (with a non-zero replacement) reports a replay and revokes the family
  without touching its tokens.
\<close>

theorem session_token_single_use:
  assumes "family_inv f" and "rotate f t r = (f', Inr receipt)"
    and "g = fold session_step xs f'"
  shows "(\<exists>e. verify_active g t = Inl e) \<and> (\<exists>g' e. rotate g t r' = (g', Inl e)) \<and>
    (rf_status g = Active \<and> r' \<noteq> 0 \<longrightarrow>
      rotate g t r' = (g\<lparr>rf_status := Revoked RefreshReplay\<rparr>,
        Inl (domain_error Unauthenticated ''refresh_replay_detected'' Never)))"
proof -
  have inv': "family_inv f'"
    using session.step_inv [OF assms(1), of "Rotate t r"] assms(2) by simp
  then have inv: "family_inv g" and below: "family_below f' g"
    using session.run_inv session.run_below assms(3) by blast+
  have consumed: "t |\<in>| rf_consumed_tokens g" and "t \<noteq> 0"
    using rotated_token_consumed [OF assms(2)] below by (auto simp: family_below_def)
  then have "t \<noteq> rf_active_token g" using inv by (auto simp: family_inv_def)
  then have "verify_active g t \<noteq> Inr ()" by (simp add: verify_active_iff)
  moreover have "\<exists>g' e. rotate g t r' = (g', Inl e)"
    using consumed by (metis old.sum.exhaust prod.collapse rotate_Inr_iff)
  ultimately show ?thesis
    using consumed \<open>t \<noteq> 0\<close> rotate_consumed result_cases_unit [of "verify_active g t"] by blast
qed

text \<open>
  Revocation is terminal: once a family is revoked, no sequence of rotations and
  revocations makes any token verify or rotate again, and its tokens and generation stay
  what they were.
\<close>

theorem session_revocation_terminal:
  assumes "family_inv f" and "rf_status f \<noteq> Active" and "g = fold session_step xs f"
  shows "verify_active g t = Inl (domain_error Unauthenticated ''session_family_revoked'' Never) \<and>
    rotate g t r = (g, Inl (domain_error Unauthenticated ''session_family_revoked'' Never)) \<and>
    g = f\<lparr>rf_status := rf_status g\<rparr>"
proof -
  have "family_below f g" using session.run_below [OF assms(1)] assms(3) by simp
  with assms(2) have "rf_status g \<noteq> Active" and "g = f\<lparr>rf_status := rf_status g\<rparr>"
    by (simp_all add: family_below_def)
  moreover from this have "require_active g =
      Inl (domain_error Unauthenticated ''session_family_revoked'' Never)" by simp
  ultimately show ?thesis by (metis rotate_revoked tryE_simps(1) verify_active_def)
qed

text \<open>
  In every family that was created by \<open>new\<close> and evolved by any operations, the generation
  is exactly the number of consumed tokens (so it never wrapped), the active token is
  non-zero and not among the consumed ones, and the family identity is unchanged.
\<close>

theorem session_family_invariant:
  assumes "family_new fid t = Inr f" and "g = fold session_step xs f"
  shows "unat (rf_generation g) = fcard (rf_consumed_tokens g) \<and>
    rf_active_token g \<noteq> 0 \<and> rf_active_token g |\<notin>| rf_consumed_tokens g \<and>
    rf_family_id g = fid"
proof -
  have inv: "family_inv f" using assms(1) by (rule family_new_inv)
  have "family_inv g" "family_below f g"
    using session.run_inv [OF inv] session.run_below [OF inv] assms(2) by simp_all
  moreover have "rf_family_id f = fid" using assms(1) by (auto simp: family_new_def split: if_splits)
  ultimately show ?thesis by (simp add: family_inv_def family_below_def)
qed

subsection \<open>Witnesses\<close>

definition wit_family :: RefreshFamily where
  "wit_family = \<lparr>rf_family_id = 1, rf_generation = 0, rf_active_token = 2,
     rf_consumed_tokens = {||}, rf_status = Active\<rparr>"

lemma wit_family_new: "family_new 1 2 = Inr wit_family"
  by (simp add: family_new_def wit_family_def)

lemma wit_family_inv: "family_inv wit_family"
  using wit_family_new by (rule family_new_inv)

lemma wit_rotate: "\<exists>f r. rotate wit_family 2 3 = (f, Inr r) \<and> rf_status f = Active"
  by (simp add: rotate_def require_active_def wit_family_def checked_next_def checked_add_def)

theorem session_token_single_use_witness:
  "\<exists>f r. rotate wit_family 2 3 = (f, Inr r) \<and>
     rotate f 2 4 = (f\<lparr>rf_status := Revoked RefreshReplay\<rparr>,
       Inl (domain_error Unauthenticated ''refresh_replay_detected'' Never))"
proof -
  obtain f r where f: "rotate wit_family 2 3 = (f, Inr r)" and "rf_status f = Active"
    using wit_rotate by blast
  with session_token_single_use [OF wit_family_inv f, of f "[]" 4] show ?thesis by auto
qed

theorem session_revocation_terminal_witness:
  "verify_active (fold session_step [Rotate 2 3, Revoke Administrator] (revoke wit_family Logout)) 2
     = Inl (domain_error Unauthenticated ''session_family_revoked'' Never)"
proof -
  have "family_inv (revoke wit_family Logout)"
    using session.step_inv [OF wit_family_inv, of "Revoke Logout"] by simp
  moreover have "rf_status (revoke wit_family Logout) \<noteq> Active" by (simp add: revoke_def)
  ultimately show ?thesis using session_revocation_terminal by blast
qed

theorem session_family_invariant_witness:
  "unat (rf_generation (fold session_step [Rotate 2 3] wit_family)) =
     fcard (rf_consumed_tokens (fold session_step [Rotate 2 3] wit_family))"
  using session_family_invariant [OF wit_family_new refl] by blast

end
