(* ===== verification/Authority_Match.thy ===== *)
theory Authority_Match
  imports Contracts Machine
begin

text \<open>
  Match authority (\<open>crates/trnm-authority-core/src/lib.rs\<close>): commands are prepared against
  the current version and authority generation, and committed at most once under their
  command identity; a takeover advances the generation and fences everything prepared
  before it.
\<close>

subsection \<open>Data and state\<close>

record CommandEnvelope =
  ce_command_id :: id16
  ce_participant_id :: id16
  ce_participant_sequence :: u64
  ce_expected_version :: u64
  ce_authority_generation :: u64
  ce_fingerprint :: digest32

record PendingCommand =
  pc_envelope :: CommandEnvelope
  pc_base_version :: u64
  pc_base_generation :: u64

record CommandReceipt =
  cr_command_id :: id16
  cr_participant_id :: id16
  cr_participant_sequence :: u64
  cr_fingerprint :: digest32
  cr_base_version :: u64
  cr_committed_version :: u64
  cr_authority_generation :: u64
  cr_result_digest :: digest32

datatype PrepareOutcome = Ready PendingCommand | Replay CommandReceipt

record MatchState =
  ms_version :: u64
  ms_generation :: u64
  ms_participant_sequences :: "(id16, u64) fmap"
  ms_receipts :: "(id16, CommandReceipt) fmap"

definition match_new :: "u64 \<Rightarrow> MatchState" where
  "match_new generation =
     \<lparr>ms_version = 0, ms_generation = generation,
      ms_participant_sequences = fmempty, ms_receipts = fmempty\<rparr>"

definition match_receipt :: "MatchState \<Rightarrow> id16 \<Rightarrow> CommandReceipt option" where
  "match_receipt s command_id = fmlookup (ms_receipts s) command_id"

subsection \<open>Operations\<close>

definition reject_zero_identity :: "CommandEnvelope \<Rightarrow> DomainError + unit" where
  "reject_zero_identity e =
     (if id_is_zero (ce_command_id e) \<or> id_is_zero (ce_participant_id e) \<or>
         id_is_zero (ce_fingerprint e)
      then Inl (domain_error InvalidArgument ''zero_identity_or_fingerprint'' Never)
      else Inr ())"

text \<open>\<open>participant_sequences.get(id).copied().unwrap_or_default()\<close>\<close>

definition current_sequence :: "MatchState \<Rightarrow> id16 \<Rightarrow> u64" where
  "current_sequence s p = (case fmlookup (ms_participant_sequences s) p of
       None \<Rightarrow> 0 | Some n \<Rightarrow> n)"

definition prepare :: "MatchState \<Rightarrow> CommandEnvelope \<Rightarrow> DomainError + PrepareOutcome" where
  "prepare s e =
     tryE (reject_zero_identity e) (\<lambda>_.
     case match_receipt s (ce_command_id e) of
       Some r \<Rightarrow>
         if cr_fingerprint r = ce_fingerprint e \<and>
            cr_participant_id r = ce_participant_id e \<and>
            cr_participant_sequence r = ce_participant_sequence e \<and>
            cr_base_version r = ce_expected_version e
         then Inr (Replay r)
         else Inl (domain_error AlreadyExists ''command_id_conflict'' Never)
     | None \<Rightarrow>
         if ce_authority_generation e \<noteq> ms_generation s
         then Inl (domain_error Aborted ''stale_authority_generation'' ResyncRequired)
         else if ce_expected_version e \<noteq> ms_version s
         then Inl (domain_error Aborted ''stale_match_version'' ResyncRequired)
         else tryE (checked_next (current_sequence s (ce_participant_id e))) (\<lambda>expected.
           if ce_participant_sequence e \<noteq> expected
           then Inl (domain_error FailedPrecondition ''participant_sequence_mismatch''
                       ResyncRequired)
           else Inr (Ready \<lparr>pc_envelope = e, pc_base_version = ms_version s,
                            pc_base_generation = ms_generation s\<rparr>)))"

definition commit :: "MatchState \<Rightarrow> PendingCommand \<Rightarrow> digest32 \<Rightarrow>
    MatchState \<times> (DomainError + CommandReceipt)" where
  "commit s p digest =
     (let e = pc_envelope p in
      case match_receipt s (ce_command_id e) of
        Some r \<Rightarrow>
          if cr_fingerprint r = ce_fingerprint e \<and>
             cr_participant_id r = ce_participant_id e \<and>
             cr_participant_sequence r = ce_participant_sequence e \<and>
             cr_base_version r = pc_base_version p \<and>
             cr_result_digest r = digest
          then (s, Inr r)
          else (s, Inl (domain_error AlreadyExists ''command_commit_conflict'' Never))
      | None \<Rightarrow>
          commit_candidate s
            (if pc_base_generation p \<noteq> ms_generation s
             then Inl (domain_error Aborted ''stale_pending_generation'' ResyncRequired)
             else if pc_base_version p \<noteq> ms_version s
             then Inl (domain_error Aborted ''stale_pending_version'' ResyncRequired)
             else tryE (checked_next (current_sequence s (ce_participant_id e))) (\<lambda>next.
               if next \<noteq> ce_participant_sequence e
               then Inl (domain_error Aborted ''stale_pending_participant_sequence''
                           ResyncRequired)
               else tryE (checked_next (ms_version s)) (\<lambda>committed.
                 let r = \<lparr>cr_command_id = ce_command_id e,
                          cr_participant_id = ce_participant_id e,
                          cr_participant_sequence = ce_participant_sequence e,
                          cr_fingerprint = ce_fingerprint e,
                          cr_base_version = pc_base_version p,
                          cr_committed_version = committed,
                          cr_authority_generation = ms_generation s,
                          cr_result_digest = digest\<rparr>
                 in Inr (s\<lparr>ms_version := committed,
                           ms_participant_sequences :=
                             fmupd (ce_participant_id e) (ce_participant_sequence e)
                               (ms_participant_sequences s),
                           ms_receipts := fmupd (ce_command_id e) r (ms_receipts s)\<rparr>, r)))))"

definition takeover :: "MatchState \<Rightarrow> u64 \<Rightarrow> MatchState \<times> (DomainError + u64)" where
  "takeover s expected_generation =
     commit_candidate s
       (if expected_generation \<noteq> ms_generation s
        then Inl (domain_error Aborted ''takeover_generation_conflict'' ResyncRequired)
        else tryE (checked_next (ms_generation s)) (\<lambda>g. Inr (s\<lparr>ms_generation := g\<rparr>, g)))"

datatype MatchOp = Commit PendingCommand digest32 | Takeover u64

fun match_step :: "MatchOp \<Rightarrow> MatchState \<Rightarrow> MatchState" where
  "match_step (Commit p digest) s = fst (commit s p digest)"
| "match_step (Takeover g) s = fst (takeover s g)"

subsection \<open>Abstract specification: a log of receipts\<close>

text \<open>
  The state of a match is a log: the receipts in commit order, whose \<open>n\<close>-th entry carried
  the match from version \<open>n\<close> to version \<open>n + 1\<close>, together with the current generation.
  Everything else in \<open>MatchState\<close> is derived from it.
\<close>

definition log_sequence :: "CommandReceipt list \<Rightarrow> id16 \<Rightarrow> nat" where
  "log_sequence log p = length (filter (\<lambda>r. cr_participant_id r = p) log)"

definition match_rel :: "MatchState \<Rightarrow> CommandReceipt list \<Rightarrow> bool" where
  "match_rel s log \<longleftrightarrow>
     unat (ms_version s) = length log \<and>
     (\<forall>p. unat (current_sequence s p) = log_sequence log p) \<and>
     distinct (map cr_command_id log) \<and>
     (\<forall>c. match_receipt s c = map_of (map (\<lambda>r. (cr_command_id r, r)) log) c) \<and>
     (\<forall>n < length log. unat (cr_base_version (log ! n)) = n \<and>
        unat (cr_committed_version (log ! n)) = Suc n \<and>
        unat (cr_participant_sequence (log ! n)) =
          Suc (log_sequence (take n log) (cr_participant_id (log ! n))))"

definition match_inv :: "MatchState \<Rightarrow> bool" where
  "match_inv s \<longleftrightarrow> (\<exists>log. match_rel s log)"

lemma match_new_rel: "match_rel (match_new g) []"
  by (simp add: match_rel_def match_new_def match_receipt_def current_sequence_def
    log_sequence_def)

text \<open>A successful commit either replays a receipt or appends one to the log.\<close>

lemma commit_Inr_cases:
  assumes "commit s p d = (s', Inr r)"
  obtains (replay) "s' = s" "match_receipt s (ce_command_id (pc_envelope p)) = Some r"
      "cr_fingerprint r = ce_fingerprint (pc_envelope p)"
      "cr_participant_id r = ce_participant_id (pc_envelope p)"
      "cr_participant_sequence r = ce_participant_sequence (pc_envelope p)"
      "cr_base_version r = pc_base_version p" "cr_result_digest r = d"
  | (append) "match_receipt s (ce_command_id (pc_envelope p)) = None"
      "pc_base_generation p = ms_generation s" "pc_base_version p = ms_version s"
      "checked_next (current_sequence s (ce_participant_id (pc_envelope p))) =
         Inr (ce_participant_sequence (pc_envelope p))"
      "checked_next (ms_version s) = Inr (cr_committed_version r)"
      "cr_command_id r = ce_command_id (pc_envelope p)"
      "cr_participant_id r = ce_participant_id (pc_envelope p)"
      "cr_participant_sequence r = ce_participant_sequence (pc_envelope p)"
      "cr_fingerprint r = ce_fingerprint (pc_envelope p)"
      "cr_base_version r = pc_base_version p"
      "cr_authority_generation r = ms_generation s"
      "cr_result_digest r = d"
      "s' = s\<lparr>ms_version := cr_committed_version r,
              ms_participant_sequences := fmupd (cr_participant_id r) (cr_participant_sequence r)
                (ms_participant_sequences s),
              ms_receipts := fmupd (cr_command_id r) r (ms_receipts s)\<rparr>"
  using assms
  by (cases "match_receipt s (ce_command_id (pc_envelope p))")
    (auto simp: commit_def Let_def split: if_splits)

lemma commit_Inl_state: "commit s p d = (s', Inl e) \<Longrightarrow> s' = s"
  by (auto simp: commit_def Let_def split: option.splits if_splits)

lemma log_sequence_snoc:
  "log_sequence (log @ [r]) p = log_sequence log p + (if cr_participant_id r = p then 1 else 0)"
  by (simp add: log_sequence_def)

lemma map_of_snoc_distinct:
  "k \<notin> fst ` set xs \<Longrightarrow> map_of (xs @ [(k, v)]) = (map_of xs)(k \<mapsto> v)"
  by (induction xs) (auto simp: fun_eq_iff)

text \<open>Refinement: a fresh commit on the state is an append on the log.\<close>

lemma match_rel_append:
  assumes rel: "match_rel s log"
    and new: "match_receipt s (cr_command_id r) = None"
    and base: "cr_base_version r = ms_version s"
    and sequence: "checked_next (current_sequence s (cr_participant_id r)) =
      Inr (cr_participant_sequence r)"
    and version: "checked_next (ms_version s) = Inr (cr_committed_version r)"
  shows "match_rel (s\<lparr>ms_version := cr_committed_version r,
      ms_participant_sequences := fmupd (cr_participant_id r) (cr_participant_sequence r)
        (ms_participant_sequences s),
      ms_receipts := fmupd (cr_command_id r) r (ms_receipts s)\<rparr>) (log @ [r])"
proof -
  have "cr_command_id r \<notin> set (map cr_command_id log)"
  proof -
    from rel new have "map_of (map (\<lambda>r. (cr_command_id r, r)) log) (cr_command_id r) = None"
      by (simp add: match_rel_def)
    then show ?thesis by (force simp: map_of_eq_None_iff)
  qed
  moreover from this have "map_of (map (\<lambda>r. (cr_command_id r, r)) (log @ [r])) =
      (map_of (map (\<lambda>r. (cr_command_id r, r)) log))(cr_command_id r \<mapsto> r)"
    by (subst map_append, simp only: list.map, intro map_of_snoc_distinct) force
  ultimately show ?thesis
    using rel base sequence version
    by (auto simp: match_rel_def checked_simps log_sequence_snoc nth_append less_Suc_eq
      match_receipt_def current_sequence_def)
qed

lemma commit_refines:
  assumes "match_rel s log" and "commit s p d = (s', Inr r)"
  shows "match_rel s' log \<and> r \<in> set log \<and> s' = s \<or> match_rel s' (log @ [r])"
  using assms(2)
proof (cases rule: commit_Inr_cases)
  case replay
  then have "map_of (map (\<lambda>r. (cr_command_id r, r)) log) (ce_command_id (pc_envelope p)) = Some r"
    using assms(1) by (simp add: match_rel_def)
  then have "r \<in> set log" by (auto dest: map_of_SomeD)
  with replay assms(1) show ?thesis by simp
next
  case append
  have "match_rel s' (log @ [r])"
    unfolding \<open>s' = _\<close> using assms(1)
    by (rule match_rel_append) (simp_all add: append(1-12))
  then show ?thesis ..
qed

lemma takeover_refines: "match_rel s log \<Longrightarrow> match_rel (fst (takeover s g)) log"
  by (auto simp: takeover_def match_rel_def match_receipt_def current_sequence_def
    fst_commit_candidate split: sum.splits)

lemma commit_state_cases:
  "fst (commit s p d) = s \<or> (\<exists>r. commit s p d = (fst (commit s p d), Inr r))"
proof (cases "snd (commit s p d)")
  case (Inl e)
  then have "commit s p d = (fst (commit s p d), Inl e)" by (simp add: prod_eq_iff)
  then show ?thesis using commit_Inl_state by blast
qed (auto simp: prod_eq_iff)

lemma match_step_refines:
  assumes "match_rel s log"
  shows "\<exists>log'. match_rel (match_step x s) (log @ log')"
proof (cases x)
  case (Commit p d)
  show ?thesis
  proof (cases "fst (commit s p d) = s")
    case True
    with Commit assms have "match_rel (match_step x s) (log @ [])" by simp
    then show ?thesis ..
  next
    case False
    then obtain r where r: "commit s p d = (fst (commit s p d), Inr r)"
      using commit_state_cases by blast
    from commit_refines [OF assms r] False show ?thesis
      unfolding Commit by auto
  qed
next
  case (Takeover g)
  with takeover_refines [OF assms, of g] have "match_rel (match_step x s) (log @ [])" by simp
  then show ?thesis ..
qed

subsection \<open>The contracts provided\<close>

definition match_below :: "MatchState \<Rightarrow> MatchState \<Rightarrow> bool" where
  "match_below s t \<longleftrightarrow>
     ms_version s \<le> ms_version t \<and> ms_generation s \<le> ms_generation t \<and>
     (\<forall>k r. match_receipt s k = Some r \<longrightarrow> match_receipt t k = Some r)"

lemma checked_next_less: "checked_next x = Inr y \<Longrightarrow> x < y"
  by (simp add: checked_simps word_less_nat_alt)

lemma commit_below: "match_below s (fst (commit s p d))"
proof (cases "fst (commit s p d) = s")
  case False
  then obtain r where "commit s p d = (fst (commit s p d), Inr r)"
    using commit_state_cases by blast
  then show ?thesis
    by (cases rule: commit_Inr_cases)
      (auto simp: match_below_def match_receipt_def less_imp_le dest: checked_next_less)
qed (simp add: match_below_def)

lemma takeover_below: "match_below s (fst (takeover s g))"
  by (auto simp: takeover_def match_below_def match_receipt_def fst_commit_candidate
    dest: checked_next_less split: sum.splits)

lemma match_step_below: "match_below s (match_step x s)"
  by (cases x) (simp_all add: commit_below takeover_below)

lemma match_step_inv: "match_inv s \<Longrightarrow> match_inv (match_step x s)"
  using match_step_refines unfolding match_inv_def by blast

lemma match_below_refl: "match_below s s"
  by (simp add: match_below_def)

lemma match_below_trans: "match_below s t \<Longrightarrow> match_below t u \<Longrightarrow> match_below s u"
  by (auto simp: match_below_def)

interpretation authority: monotone_machine match_step match_inv match_below
  by unfold_locales
    (blast intro: match_step_inv match_below_refl match_below_trans match_step_below)+

definition commit_command :: "PendingCommand \<times> digest32 \<Rightarrow> MatchState \<Rightarrow>
    MatchState \<times> (DomainError + CommandReceipt)" where
  "commit_command c s = commit s (fst c) (snd c)"

definition commit_key :: "PendingCommand \<times> digest32 \<Rightarrow> id16" where
  "commit_key c = ce_command_id (pc_envelope (fst c))"

lemma commit_stores:
  "commit s p d = (s', Inr r) \<Longrightarrow> match_receipt s' (ce_command_id (pc_envelope p)) = Some r"
  by (erule commit_Inr_cases) (auto simp: match_receipt_def)

lemma commit_receipt_fields:
  assumes "commit s p d = (s', Inr r)"
  shows "cr_fingerprint r = ce_fingerprint (pc_envelope p)"
    and "cr_participant_id r = ce_participant_id (pc_envelope p)"
    and "cr_participant_sequence r = ce_participant_sequence (pc_envelope p)"
    and "cr_base_version r = pc_base_version p" and "cr_result_digest r = d"
  by (rule commit_Inr_cases [OF assms]; simp)+

lemma commit_replays:
  "commit s p d = (s', Inr r) \<Longrightarrow>
     match_receipt t (ce_command_id (pc_envelope p)) = Some r \<Longrightarrow> commit t p d = (t, Inr r)"
  by (simp add: commit_def Let_def commit_receipt_fields)

interpretation authority_receipts:
  receipt_machine match_step match_inv match_receipt commit_command commit_key
proof (unfold_locales, goal_cases)
  case (1 s k r x)
  then show ?case using match_step_below [of s x] by (simp add: match_below_def)
next
  case (2 s c)
  then show ?case using match_step_inv [of s "Commit (fst c) (snd c)"]
    by (simp add: commit_command_def)
next
  case (3 s c s' r)
  then show ?case by (simp add: commit_command_def commit_key_def commit_stores)
next
  case (4 s c s' r t)
  then show ?case by (simp add: commit_command_def commit_key_def commit_replays)
qed

text \<open>What \<open>prepare\<close> promises when it hands out a pending command.\<close>

lemma prepare_Ready_iff:
  "prepare s e = Inr (Ready p) \<longleftrightarrow>
     ce_command_id e \<noteq> 0 \<and> ce_participant_id e \<noteq> 0 \<and> ce_fingerprint e \<noteq> 0 \<and>
     match_receipt s (ce_command_id e) = None \<and>
     ce_authority_generation e = ms_generation s \<and> ce_expected_version e = ms_version s \<and>
     checked_next (current_sequence s (ce_participant_id e)) = Inr (ce_participant_sequence e) \<and>
     p = \<lparr>pc_envelope = e, pc_base_version = ms_version s, pc_base_generation = ms_generation s\<rparr>"
  by (auto simp: prepare_def reject_zero_identity_def split: option.splits if_splits)

lemma prepare_replays:
  assumes "prepare s\<^sub>0 e = Inr (Ready p)" and "commit s p d = (s', Inr r)"
    and "match_receipt t (ce_command_id e) = Some r"
  shows "prepare t e = Inr (Replay r)"
proof -
  from assms(1) have "ce_command_id e \<noteq> 0" "ce_participant_id e \<noteq> 0" "ce_fingerprint e \<noteq> 0"
    and "pc_envelope p = e" and "pc_base_version p = ce_expected_version e"
    by (auto simp: prepare_Ready_iff)
  with assms(3) commit_receipt_fields [OF assms(2)] show ?thesis
    by (simp add: prepare_def reject_zero_identity_def)
qed

lemma commit_stale_generation:
  "pc_base_generation p \<noteq> ms_generation t \<Longrightarrow>
     fst (commit t p d) = t \<and>
     (match_receipt t (ce_command_id (pc_envelope p)) = None \<longrightarrow>
       snd (commit t p d) =
         Inl (domain_error Aborted ''stale_pending_generation'' ResyncRequired))"
  by (auto simp: commit_def Let_def split: option.splits)

lemma commit_stale_version:
  "pc_base_version p \<noteq> ms_version t \<Longrightarrow> pc_base_generation p = ms_generation t \<Longrightarrow>
     match_receipt t (ce_command_id (pc_envelope p)) = None \<Longrightarrow>
     commit t p d = (t, Inl (domain_error Aborted ''stale_pending_version'' ResyncRequired))"
  by (simp add: commit_def Let_def)

subsection \<open>Properties\<close>

text \<open>
  C1: After any history, the state of a match is exactly a log of committed commands: version
  and participant sequences are derived from it, receipts are its entries, and its
  \<open>n\<close>-th entry carried version \<open>n\<close> to \<open>n + 1\<close> as the next command of its participant.
  Any continuation of the history only appends to the log.
\<close>

theorem authority_log_refinement:
  "\<exists>log log'. match_rel (fold match_step xs (match_new g)) log \<and>
     match_rel (fold match_step (xs @ ys) (match_new g)) (log @ log')"
proof -
  have extend: "\<exists>log'. match_rel (fold match_step zs s) (log @ log')"
    if "match_rel s log" for zs s log
    using that
  proof (induction zs arbitrary: s log)
    case Nil
    then have "match_rel (fold match_step [] s) (log @ [])" by simp
    then show ?case ..
  next
    case (Cons z zs)
    from match_step_refines [OF Cons.prems] obtain l1
      where "match_rel (match_step z s) (log @ l1)" ..
    from Cons.IH [OF this] obtain l2
      where "match_rel (fold match_step (z # zs) s) (log @ l1 @ l2)" by auto
    then show ?case ..
  qed
  from extend [OF match_new_rel, of xs g] obtain log
    where log: "match_rel (fold match_step xs (match_new g)) log" by auto
  from extend [OF log, of ys] log show ?thesis by auto
qed

text \<open>
  C2: A command that was prepared and committed takes effect exactly once: whatever happens to
  the match afterwards (other commits, takeovers), preparing the same envelope again answers
  with its receipt, and committing the pending command again returns the same receipt and
  leaves the state alone.
\<close>

theorem authority_exactly_once:
  assumes "prepare s\<^sub>0 e = Inr (Ready p)" and "match_inv s" and "commit s p d = (s', Inr r)"
  shows "prepare (fold match_step xs s') e = Inr (Replay r) \<and>
    commit (fold match_step xs s') p d = (fold match_step xs s', Inr r)"
proof -
  have inv': "match_inv s'"
    using authority.step_inv [OF assms(2), of "Commit p d"] assms(3) by simp
  have envelope: "pc_envelope p = e" using assms(1) by (auto simp: prepare_Ready_iff)
  have "match_receipt (fold match_step xs s') (ce_command_id e) = Some r"
    using authority_receipts.run_receipt [OF inv' commit_stores [OF assms(3)]]
    by (simp add: envelope)
  with prepare_replays [OF assms(1,3)] commit_replays [OF assms(3)] envelope
  show ?thesis by simp
qed

text \<open>
  A takeover fences every command prepared before it: no commit of such a command changes
  the state in any later history, and where its identity has no receipt the answer is
  \<open>stale_pending_generation\<close>.
\<close>

theorem authority_takeover_fences:
  assumes "match_inv s" and "prepare s e = Inr (Ready p)" and "takeover s g = (s', Inr g')"
  shows "fst (commit (fold match_step xs s') p d) = fold match_step xs s' \<and>
    (match_receipt (fold match_step xs s') (ce_command_id e) = None \<longrightarrow>
      snd (commit (fold match_step xs s') p d) =
        Inl (domain_error Aborted ''stale_pending_generation'' ResyncRequired))"
proof -
  have inv': "match_inv s'"
    using authority.step_inv [OF assms(1), of "Takeover g"] assms(3) by simp
  have "ms_generation s < ms_generation s'"
    using assms(3) by (auto simp: takeover_def checked_next_less)
  also have "ms_generation s' \<le> ms_generation (fold match_step xs s')"
    using authority.run_below [OF inv'] by (simp add: match_below_def)
  finally have "pc_base_generation p \<noteq> ms_generation (fold match_step xs s')"
    using assms(2) by (auto simp: prepare_Ready_iff)
  with assms(2) commit_stale_generation show ?thesis by (auto simp: prepare_Ready_iff)
qed

text \<open>
  Optimistic concurrency: of two different commands prepared on the same state, the first
  one commits (unless the version counter is exhausted), advances the version by one, and
  the second is then rejected without a change of state.
\<close>

theorem authority_first_commit_wins:
  assumes "prepare s e = Inr (Ready p)" and "prepare s e' = Inr (Ready p')"
    and "ce_command_id e \<noteq> ce_command_id e'" and "ms_version s \<noteq> - 1"
  shows "\<exists>s' r. commit s p d = (s', Inr r) \<and> ms_version s' = ms_version s + 1 \<and>
    commit s' p' d' = (s', Inl (domain_error Aborted ''stale_pending_version'' ResyncRequired))"
proof -
  have succ: "checked_next (ms_version s) = Inr (ms_version s + 1)"
    by (rule checked_next_total) (rule assms(4))
  obtain s' r where commit: "commit s p d = (s', Inr r)"
    using assms(1) succ by (auto simp: prepare_Ready_iff commit_def Let_def)
  have none: "match_receipt s (ce_command_id e) = None"
    and envelope: "pc_envelope p = e" "pc_envelope p' = e'"
    and base: "pc_base_generation p' = ms_generation s" "pc_base_version p' = ms_version s"
    using assms(1,2) by (auto simp: prepare_Ready_iff)
  from commit have s': "ms_version s' = ms_version s + 1 \<and> ms_generation s' = ms_generation s \<and>
      match_receipt s' (ce_command_id e') = match_receipt s (ce_command_id e')"
    by (cases rule: commit_Inr_cases)
      (use none envelope succ assms(3) in \<open>auto simp: match_receipt_def\<close>)
  moreover have "match_receipt s (ce_command_id e') = None"
    using assms(2) by (auto simp: prepare_Ready_iff)
  moreover have "ms_version s \<noteq> ms_version s + 1" by simp
  ultimately have "commit s' p' d' =
      (s', Inl (domain_error Aborted ''stale_pending_version'' ResyncRequired))"
    using base envelope by (intro commit_stale_version) simp_all
  with commit s' show ?thesis by blast
qed

subsection \<open>Witnesses\<close>

definition wit_envelope :: "id16 \<Rightarrow> CommandEnvelope" where
  "wit_envelope c = \<lparr>ce_command_id = c, ce_participant_id = 5, ce_participant_sequence = 1,
     ce_expected_version = 0, ce_authority_generation = 1, ce_fingerprint = 9\<rparr>"

definition wit_pending :: "id16 \<Rightarrow> PendingCommand" where
  "wit_pending c = \<lparr>pc_envelope = wit_envelope c, pc_base_version = 0, pc_base_generation = 1\<rparr>"

lemma wit_prepare: "c \<noteq> 0 \<Longrightarrow> prepare (match_new 1) (wit_envelope c) = Inr (Ready (wit_pending c))"
  by (simp add: prepare_Ready_iff wit_envelope_def wit_pending_def match_new_def
    match_receipt_def current_sequence_def checked_simps)

lemma wit_commit: "\<exists>s' r. commit (match_new 1) (wit_pending 7) 3 = (s', Inr r)"
  by (simp add: commit_def wit_envelope_def wit_pending_def match_new_def match_receipt_def
    current_sequence_def checked_next_def checked_add_def Let_def)

lemma wit_takeover: "\<exists>s' g. takeover (match_new 1) 1 = (s', Inr g)"
  by (simp add: takeover_def match_new_def checked_next_def checked_add_def)

lemma match_new_inv: "match_inv (match_new g)"
  unfolding match_inv_def using match_new_rel by blast

theorem authority_exactly_once_witness:
  "\<exists>s' r. commit (match_new 1) (wit_pending 7) 3 = (s', Inr r) \<and>
     prepare (fold match_step [Takeover 1] s') (wit_envelope 7) = Inr (Replay r)"
proof -
  obtain s' r where c: "commit (match_new 1) (wit_pending 7) 3 = (s', Inr r)"
    using wit_commit by blast
  have "prepare (fold match_step [Takeover 1] s') (wit_envelope 7) = Inr (Replay r)"
    using authority_exactly_once [OF wit_prepare match_new_inv c, of "[Takeover 1]"] by simp
  with c show ?thesis by blast
qed

theorem authority_takeover_fences_witness:
  "\<exists>s' g. takeover (match_new 1) 1 = (s', Inr g) \<and> fst (commit s' (wit_pending 7) 3) = s'"
proof -
  obtain s' g where t: "takeover (match_new 1) 1 = (s', Inr g)" using wit_takeover by blast
  have "fst (commit s' (wit_pending 7) 3) = s'"
    using authority_takeover_fences [OF match_new_inv wit_prepare t, of 7 "[]" 3] by simp
  with t show ?thesis by blast
qed

theorem authority_first_commit_wins_witness:
  "\<exists>s' r. commit (match_new 1) (wit_pending 7) 3 = (s', Inr r) \<and>
     commit s' (wit_pending 8) 4 =
       (s', Inl (domain_error Aborted ''stale_pending_version'' ResyncRequired))"
  using authority_first_commit_wins [OF wit_prepare wit_prepare, of 7 8 3 4]
  by (auto simp: wit_envelope_def match_new_def)

end
