(* ===== verification/Persistence_Outbox.thy ===== *)
theory Persistence_Outbox
  imports Contracts Machine "HOL-Library.Product_Lexorder"
begin

text \<open>
  The transaction and outbox state model of \<open>crates/trnm-persistence-core/src/lib.rs\<close>:
  commands are prepared against an entity head, committed atomically with their events and
  outbox intents, and the intents are leased to workers, applied, retried or dead-lettered
  under lease generations.
\<close>

subsection \<open>Constants and errors\<close>

definition MAX_EVENTS :: usize where "MAX_EVENTS = 64"
definition MAX_INTENTS :: usize where "MAX_INTENTS = 64"
definition MAX_ATTEMPTS :: u64 where "MAX_ATTEMPTS = 32"

definition OUTBOX_ATTEMPT_LIMIT_REASON :: digest32 where
  "OUTBOX_ATTEMPT_LIMIT_REASON =
     0x885ba9487abaaa8d5dc1e549beae458abd43bb3bb664c8637a404f7cb383fedb"

definition pers_invalid :: "string \<Rightarrow> DomainError" where
  "pers_invalid reason = domain_error InvalidArgument reason Never"

definition entity_not_found :: DomainError where
  "entity_not_found = domain_error NotFound ''entity_not_found'' Never"

definition outbox_not_found :: DomainError where
  "outbox_not_found = domain_error NotFound ''outbox_intent_not_found'' Never"

definition pers_overflow :: DomainError where
  "pers_overflow = domain_error OutOfRange ''counter_overflow'' Never"

definition stale_prepare :: DomainError where
  "stale_prepare = domain_error Aborted ''prepared_commit_stale'' ResyncRequired"

definition generation_mismatch :: DomainError where
  "generation_mismatch = domain_error Aborted ''authority_generation_mismatch'' ResyncRequired"

definition nonzero :: "bool \<Rightarrow> string \<Rightarrow> DomainError + unit" where
  "nonzero zero reason = (if zero then Inl (pers_invalid reason) else Inr ())"

subsection \<open>Data and state\<close>

datatype IntentKind = Broadcast | SearchIndex | Notification | ExternalEffect | Completion

record EventInput =
  ei_id :: id16
  ei_payload :: digest32

record OutboxInput =
  oi_id :: id16
  oi_kind :: IntentKind
  oi_payload :: digest32

record CommandIntent =
  ci_entity :: id16
  ci_command :: id16
  ci_fingerprint :: digest32
  ci_expected_revision :: u64
  ci_authority_generation :: u64
  ci_next_state :: digest32
  ci_events :: "EventInput list"
  ci_outbox :: "OutboxInput list"

record PreparedCommit =
  pr_intent :: CommandIntent
  pr_next_revision :: u64
  pr_first_sequence :: "u64 option"
  pr_last_sequence :: u64

record EntityHead =
  eh_revision :: u64
  eh_last_sequence :: u64
  eh_authority_generation :: u64
  eh_state :: digest32

record Receipt =
  re_entity :: id16
  re_command :: id16
  re_fingerprint :: digest32
  re_revision :: u64
  re_state :: digest32
  re_first_sequence :: "u64 option"
  re_last_sequence :: u64
  re_event_count :: usize
  re_outbox :: "id16 list"

datatype PersistPrepareOutcome = Prepared PreparedCommit | Duplicate Receipt

datatype OutboxState =
    Pending
  | Leased (leased_owner: id16) (leased_generation: u64)
  | Applied digest32
  | DeadLetter digest32

record OutboxRecord =
  or_id :: id16
  or_entity :: id16
  or_command :: id16
  or_kind :: IntentKind
  or_payload :: digest32
  or_attempt :: u64
  or_lease_generation :: u64
  or_state :: OutboxState

record DurableState =
  ds_entities :: "(id16, EntityHead) fmap"
  ds_commands :: "(id16 \<times> id16, Receipt) fmap"
  ds_events :: "(id16 \<times> u64, id16 \<times> digest32 \<times> id16) fmap"
  ds_outbox :: "(id16, OutboxRecord) fmap"

definition durable_default :: DurableState where
  "durable_default = \<lparr>ds_entities = fmempty, ds_commands = fmempty, ds_events = fmempty,
     ds_outbox = fmempty\<rparr>"

subsection \<open>Validation and fences\<close>

definition validate_event :: "EventInput \<Rightarrow> id16 fset \<Rightarrow> DomainError + id16 fset" where
  "validate_event item seen =
     (if id_is_zero (ei_id item) \<or> id_is_zero (ei_payload item) \<or> ei_id item |\<in>| seen
      then Inl (pers_invalid ''invalid_or_duplicate_event'')
      else Inr (finsert (ei_id item) seen))"

definition validate_outbox_item :: "OutboxInput \<Rightarrow> id16 fset \<Rightarrow> DomainError + id16 fset" where
  "validate_outbox_item item seen =
     (if id_is_zero (oi_id item) \<or> id_is_zero (oi_payload item) \<or> oi_id item |\<in>| seen
      then Inl (pers_invalid ''invalid_or_duplicate_outbox_intent'')
      else Inr (finsert (oi_id item) seen))"

definition validate_intent :: "CommandIntent \<Rightarrow> DomainError + unit" where
  "validate_intent i =
     tryE (nonzero (id_is_zero (ci_entity i)) ''invalid_entity_id'') (\<lambda>_.
     tryE (nonzero (id_is_zero (ci_command i)) ''invalid_command_id'') (\<lambda>_.
     if ci_authority_generation i = 0 \<or> id_is_zero (ci_fingerprint i) \<or>
        id_is_zero (ci_next_state i)
     then Inl (pers_invalid ''invalid_command_intent'')
     else if length (ci_events i) > MAX_EVENTS \<or> length (ci_outbox i) > MAX_INTENTS
     then Inl (domain_error ResourceExhausted ''commit_batch_limit_exceeded'' Never)
     else tryE (foldE validate_event (ci_events i) {||}) (\<lambda>_.
          tryE (foldE validate_outbox_item (ci_outbox i) {||}) (\<lambda>_. Inr ()))))"

definition fence :: "EntityHead \<Rightarrow> u64 \<Rightarrow> u64 \<Rightarrow> DomainError + unit" where
  "fence head revision generation =
     (if eh_authority_generation head \<noteq> generation then Inl generation_mismatch
      else if eh_revision head \<noteq> revision
      then Inl (domain_error Aborted ''entity_revision_mismatch'' ResyncRequired)
      else Inr ())"

definition lease_fence :: "OutboxRecord \<Rightarrow> id16 \<Rightarrow> u64 \<Rightarrow> DomainError + unit" where
  "lease_fence record owner generation =
     (if or_state record = Leased owner generation then Inr ()
      else Inl (domain_error Aborted ''outbox_lease_mismatch'' SafeBackoff))"

subsection \<open>Entities and commands\<close>

definition bootstrap :: "DurableState \<Rightarrow> id16 \<Rightarrow> u64 \<Rightarrow> digest32 \<Rightarrow>
    DurableState \<times> (DomainError + EntityHead)" where
  "bootstrap s entity authority_generation state =
     commit_candidate s
       (tryE (nonzero (id_is_zero entity) ''invalid_entity_id'') (\<lambda>_.
        if authority_generation = 0 \<or> id_is_zero state
        then Inl (pers_invalid ''invalid_entity_bootstrap'')
        else if fmlookup (ds_entities s) entity \<noteq> None
        then Inl (domain_error AlreadyExists ''entity_already_exists'' Never)
        else
          let head = \<lparr>eh_revision = 0, eh_last_sequence = 0,
                      eh_authority_generation = authority_generation, eh_state = state\<rparr>
          in Inr (s\<lparr>ds_entities := fmupd entity head (ds_entities s)\<rparr>, head)))"

definition head :: "DurableState \<Rightarrow> id16 \<Rightarrow> EntityHead option" where
  "head s entity = fmlookup (ds_entities s) entity"

definition outbox :: "DurableState \<Rightarrow> id16 \<Rightarrow> OutboxRecord option" where
  "outbox s i = fmlookup (ds_outbox s) i"

text \<open>\<open>events.range((entity, 0)..=(entity, u64::MAX)).count()\<close>, in the order of the pairs.\<close>

definition event_count :: "DurableState \<Rightarrow> id16 \<Rightarrow> usize" where
  "event_count s entity =
     fcard (ffilter (\<lambda>k. (entity, 0) \<le> k \<and> k \<le> (entity, - 1)) (fmdom (ds_events s)))"

definition persist_prepare :: "DurableState \<Rightarrow> CommandIntent \<Rightarrow>
    DomainError + PersistPrepareOutcome" where
  "persist_prepare s i =
     tryE (validate_intent i) (\<lambda>_.
     case fmlookup (ds_commands s) (ci_entity i, ci_command i) of
       Some r \<Rightarrow>
         if re_fingerprint r = ci_fingerprint i then Inr (Duplicate r)
         else Inl (domain_error AlreadyExists ''command_id_conflict'' Never)
     | None \<Rightarrow>
         tryE (ok_or entity_not_found (fmlookup (ds_entities s) (ci_entity i))) (\<lambda>h.
         tryE (fence h (ci_expected_revision i) (ci_authority_generation i)) (\<lambda>_.
         if list_ex (\<lambda>item. fmlookup (ds_outbox s) (oi_id item) \<noteq> None) (ci_outbox i)
         then Inl (domain_error AlreadyExists ''outbox_intent_already_exists'' Never)
         else
           tryE (ok_or pers_overflow (checked_add (eh_revision h) 1)) (\<lambda>next_revision.
           let event_count = (of_nat (length (ci_events i)) :: u64) in
           tryE (ok_or pers_overflow (checked_add (eh_last_sequence h) event_count))
             (\<lambda>last_sequence.
           tryE (if event_count = 0 then Inr None
                 else tryE (ok_or pers_overflow (checked_add (eh_last_sequence h) 1))
                        (\<lambda>q. Inr (Some q))) (\<lambda>first_sequence.
           Inr (Prepared \<lparr>pr_intent = i, pr_next_revision = next_revision,
                          pr_first_sequence = first_sequence,
                          pr_last_sequence = last_sequence\<rparr>)))))))"

text \<open>
  The two loops of \<open>commit\<close>: events are inserted under consecutive sequence numbers, outbox
  inputs become pending records.
\<close>

definition insert_event :: "id16 \<Rightarrow> id16 \<Rightarrow> EventInput \<Rightarrow>
    (id16 \<times> u64, id16 \<times> digest32 \<times> id16) fmap \<times> u64 \<Rightarrow>
    DomainError + (id16 \<times> u64, id16 \<times> digest32 \<times> id16) fmap \<times> u64" where
  "insert_event entity command event st =
     (let (events, sequence) = st in
      tryE (ok_or pers_overflow (checked_add sequence 1)) (\<lambda>sequence'.
      if fmlookup events (entity, sequence') \<noteq> None
      then Inl (domain_error DataLoss ''event_sequence_collision'' Never)
      else Inr (fmupd (entity, sequence') (ei_id event, ei_payload event, command) events,
                sequence')))"

definition new_outbox_record :: "id16 \<Rightarrow> id16 \<Rightarrow> OutboxInput \<Rightarrow> OutboxRecord" where
  "new_outbox_record entity command item =
     \<lparr>or_id = oi_id item, or_entity = entity, or_command = command, or_kind = oi_kind item,
      or_payload = oi_payload item, or_attempt = 0, or_lease_generation = 0,
      or_state = Pending\<rparr>"

definition insert_outbox :: "id16 \<Rightarrow> id16 \<Rightarrow> OutboxInput \<Rightarrow>
    (id16, OutboxRecord) fmap \<times> id16 list \<Rightarrow>
    DomainError + (id16, OutboxRecord) fmap \<times> id16 list" where
  "insert_outbox entity command item st =
     (let (outbox, ids) = st in
      if fmlookup outbox (oi_id item) \<noteq> None
      then Inl (domain_error AlreadyExists ''outbox_intent_already_exists'' Never)
      else Inr (fmupd (oi_id item) (new_outbox_record entity command item) outbox,
                ids @ [oi_id item]))"

definition persist_commit :: "DurableState \<Rightarrow> PreparedCommit \<Rightarrow>
    DurableState \<times> (DomainError + Receipt)" where
  "persist_commit s p =
     (let i = pr_intent p in
      case fmlookup (ds_commands s) (ci_entity i, ci_command i) of
        Some r \<Rightarrow>
          if re_fingerprint r = ci_fingerprint i then (s, Inr r)
          else (s, Inl (domain_error AlreadyExists ''command_id_conflict'' Never))
      | None \<Rightarrow>
          commit_candidate s
           (tryE (ok_or entity_not_found (fmlookup (ds_entities s) (ci_entity i))) (\<lambda>h.
            tryE (fence h (ci_expected_revision i) (ci_authority_generation i)) (\<lambda>_.
            tryE (ok_or pers_overflow (checked_add (eh_revision h) 1)) (\<lambda>next_revision.
            if next_revision \<noteq> pr_next_revision p then Inl stale_prepare
            else if list_ex (\<lambda>item. fmlookup (ds_outbox s) (oi_id item) \<noteq> None) (ci_outbox i)
            then Inl (domain_error AlreadyExists ''outbox_intent_already_exists'' Never)
            else
              tryE (foldE (insert_event (ci_entity i) (ci_command i)) (ci_events i)
                      (ds_events s, eh_last_sequence h)) (\<lambda>(events, sequence).
              if sequence \<noteq> pr_last_sequence p then Inl stale_prepare
              else
                tryE (foldE (insert_outbox (ci_entity i) (ci_command i)) (ci_outbox i)
                        (ds_outbox s, [])) (\<lambda>(outbox, outbox_ids).
                let r = \<lparr>re_entity = ci_entity i, re_command = ci_command i,
                         re_fingerprint = ci_fingerprint i,
                         re_revision = pr_next_revision p, re_state = ci_next_state i,
                         re_first_sequence = pr_first_sequence p,
                         re_last_sequence = pr_last_sequence p,
                         re_event_count = length (ci_events i), re_outbox = outbox_ids\<rparr>
                in Inr (s\<lparr>ds_entities := fmupd (ci_entity i)
                             \<lparr>eh_revision = re_revision r,
                              eh_last_sequence = re_last_sequence r,
                              eh_authority_generation = ci_authority_generation i,
                              eh_state = re_state r\<rparr> (ds_entities s),
                          ds_commands := fmupd (ci_entity i, ci_command i) r (ds_commands s),
                          ds_events := events,
                          ds_outbox := outbox\<rparr>, r))))))))"

definition persist_takeover :: "DurableState \<Rightarrow> id16 \<Rightarrow> u64 \<Rightarrow>
    DurableState \<times> (DomainError + EntityHead)" where
  "persist_takeover s entity expected_generation =
     commit_candidate s
       (tryE (ok_or entity_not_found (fmlookup (ds_entities s) entity)) (\<lambda>h.
        if eh_authority_generation h \<noteq> expected_generation then Inl generation_mismatch
        else tryE (ok_or pers_overflow (checked_add (eh_authority_generation h) 1)) (\<lambda>g.
          let h' = h\<lparr>eh_authority_generation := g\<rparr>
          in Inr (s\<lparr>ds_entities := fmupd entity h' (ds_entities s)\<rparr>, h'))))"

subsection \<open>Outbox workers\<close>

definition put_record :: "DurableState \<Rightarrow> id16 \<Rightarrow> OutboxRecord \<Rightarrow>
    DurableState \<times> OutboxRecord" where
  "put_record s i r = (s\<lparr>ds_outbox := fmupd i r (ds_outbox s)\<rparr>, r)"

definition lease :: "DurableState \<Rightarrow> id16 \<Rightarrow> id16 \<Rightarrow>
    DurableState \<times> (DomainError + OutboxRecord)" where
  "lease s i owner =
     commit_candidate s
       (tryE (nonzero (id_is_zero owner) ''invalid_outbox_owner'') (\<lambda>_.
        tryE (ok_or outbox_not_found (fmlookup (ds_outbox s) i)) (\<lambda>r.
        if or_state r \<noteq> Pending
        then Inl (domain_error FailedPrecondition ''outbox_not_pending'' SafeBackoff)
        else tryE (ok_or pers_overflow (checked_add (or_lease_generation r) 1)) (\<lambda>g.
          Inr (put_record s i (r\<lparr>or_lease_generation := g, or_state := Leased owner g\<rparr>))))))"

definition apply_intent :: "DurableState \<Rightarrow> id16 \<Rightarrow> id16 \<Rightarrow> u64 \<Rightarrow> digest32 \<Rightarrow>
    DurableState \<times> (DomainError + OutboxRecord)" where
  "apply_intent s i owner generation receipt =
     commit_candidate s
       (if id_is_zero receipt then Inl (pers_invalid ''invalid_outbox_receipt'')
        else tryE (ok_or outbox_not_found (fmlookup (ds_outbox s) i)) (\<lambda>r.
          case or_state r of
            Applied current \<Rightarrow>
              if current = receipt then Inr (s, r)
              else Inl (domain_error DataLoss ''outbox_receipt_mismatch'' Never)
          | _ \<Rightarrow> tryE (lease_fence r owner generation) (\<lambda>_.
              Inr (put_record s i (r\<lparr>or_state := Applied receipt\<rparr>)))))"

definition retry :: "DurableState \<Rightarrow> id16 \<Rightarrow> id16 \<Rightarrow> u64 \<Rightarrow>
    DurableState \<times> (DomainError + OutboxRecord)" where
  "retry s i owner generation =
     commit_candidate s
       (tryE (ok_or outbox_not_found (fmlookup (ds_outbox s) i)) (\<lambda>r.
        tryE (lease_fence r owner generation) (\<lambda>_.
        if or_attempt r \<ge> MAX_ATTEMPTS
        then Inr (put_record s i (r\<lparr>or_state := DeadLetter OUTBOX_ATTEMPT_LIMIT_REASON\<rparr>))
        else tryE (ok_or pers_overflow (checked_add (or_attempt r) 1)) (\<lambda>a.
          Inr (put_record s i (r\<lparr>or_attempt := a, or_state := Pending\<rparr>))))))"

definition dead_letter :: "DurableState \<Rightarrow> id16 \<Rightarrow> id16 \<Rightarrow> u64 \<Rightarrow> digest32 \<Rightarrow>
    DurableState \<times> (DomainError + OutboxRecord)" where
  "dead_letter s i owner generation reason =
     commit_candidate s
       (if id_is_zero reason then Inl (pers_invalid ''invalid_dead_letter_reason'')
        else tryE (ok_or outbox_not_found (fmlookup (ds_outbox s) i)) (\<lambda>r.
          tryE (lease_fence r owner generation) (\<lambda>_.
            Inr (put_record s i (r\<lparr>or_state := DeadLetter reason\<rparr>)))))"

datatype PersistOp =
    OpBootstrap id16 u64 digest32
  | OpCommit PreparedCommit
  | OpTakeover id16 u64
  | OpLease id16 id16
  | OpApply id16 id16 u64 digest32
  | OpRetry id16 id16 u64
  | OpDeadLetter id16 id16 u64 digest32

fun persist_step :: "PersistOp \<Rightarrow> DurableState \<Rightarrow> DurableState" where
  "persist_step (OpBootstrap e g d) s = fst (bootstrap s e g d)"
| "persist_step (OpCommit p) s = fst (persist_commit s p)"
| "persist_step (OpTakeover e g) s = fst (persist_takeover s e g)"
| "persist_step (OpLease i w) s = fst (lease s i w)"
| "persist_step (OpApply i w g d) s = fst (apply_intent s i w g d)"
| "persist_step (OpRetry i w g) s = fst (retry s i w g)"
| "persist_step (OpDeadLetter i w g d) s = fst (dead_letter s i w g d)"

end
