(* ===== verification/Persistence_Proofs.thy ===== *)
theory Persistence_Proofs
  imports Persistence_Outbox
begin

text \<open>
  The invariant of the durable state of \<open>Persistence_Outbox\<close> and its preservation, the
  life cycle of an outbox record as a step relation that every operation refines, and the
  properties of commits and workers.
\<close>

subsection \<open>Invariant\<close>

text \<open>
  How the two counters of an outbox record are tied to its state: a pending record was leased
  exactly as often as it was retried, every other record once more.
\<close>

definition record_inv :: "OutboxRecord \<Rightarrow> bool" where
  "record_inv r \<longleftrightarrow>
     unat (or_attempt r) \<le> 32 \<and>
     (case or_state r of
        Pending \<Rightarrow> unat (or_lease_generation r) = unat (or_attempt r)
      | Leased _ g \<Rightarrow> g = or_lease_generation r \<and>
          unat (or_lease_generation r) = Suc (unat (or_attempt r))
      | Applied _ \<Rightarrow> unat (or_lease_generation r) = Suc (unat (or_attempt r))
      | DeadLetter _ \<Rightarrow> unat (or_lease_generation r) = Suc (unat (or_attempt r)))"

definition events_inv :: "DurableState \<Rightarrow> bool" where
  "events_inv s \<longleftrightarrow>
     (\<forall>e q. fmlookup (ds_events s) (e, q) \<noteq> None \<longleftrightarrow>
        (\<exists>h. fmlookup (ds_entities s) e = Some h \<and>
           0 < unat q \<and> unat q \<le> unat (eh_last_sequence h))) \<and>
     (\<forall>e q i d c. fmlookup (ds_events s) (e, q) = Some (i, d, c) \<longrightarrow>
        fmlookup (ds_commands s) (e, c) \<noteq> None)"

definition entity_commands :: "DurableState \<Rightarrow> id16 \<Rightarrow> (id16 \<times> id16) fset" where
  "entity_commands s e = ffilter (\<lambda>k. fst k = e) (fmdom (ds_commands s))"

definition commands_inv :: "DurableState \<Rightarrow> bool" where
  "commands_inv s \<longleftrightarrow>
     (\<forall>e h. fmlookup (ds_entities s) e = Some h \<longrightarrow>
        unat (eh_revision h) = fcard (entity_commands s e)) \<and>
     (\<forall>e c r. fmlookup (ds_commands s) (e, c) = Some r \<longrightarrow>
        re_entity r = e \<and> re_command r = c \<and>
        (\<exists>h. fmlookup (ds_entities s) e = Some h \<and>
          0 < unat (re_revision r) \<and> unat (re_revision r) \<le> unat (eh_revision h))) \<and>
     (\<forall>e c c' r r'. fmlookup (ds_commands s) (e, c) = Some r \<and>
        fmlookup (ds_commands s) (e, c') = Some r' \<and> re_revision r = re_revision r' \<longrightarrow> c = c')"

definition outbox_inv :: "DurableState \<Rightarrow> bool" where
  "outbox_inv s \<longleftrightarrow>
     (\<forall>i r. fmlookup (ds_outbox s) i = Some r \<longrightarrow>
        or_id r = i \<and> record_inv r \<and>
        (\<exists>rc. fmlookup (ds_commands s) (or_entity r, or_command r) = Some rc \<and>
           i \<in> set (re_outbox rc))) \<and>
     (\<forall>k rc i. fmlookup (ds_commands s) k = Some rc \<and> i \<in> set (re_outbox rc) \<longrightarrow>
        (\<exists>r. fmlookup (ds_outbox s) i = Some r \<and> (or_entity r, or_command r) = k))"

definition durable_inv :: "DurableState \<Rightarrow> bool" where
  "durable_inv s \<longleftrightarrow> events_inv s \<and> commands_inv s \<and> outbox_inv s"

lemma durable_default_inv: "durable_inv durable_default"
  by (simp add: durable_inv_def events_inv_def commands_inv_def outbox_inv_def
    durable_default_def)

subsection \<open>The loops of a commit\<close>

lemma insert_event_Inr:
  "insert_event e c ev (m, q) = Inr (m', q') \<longleftrightarrow>
     unat q' = Suc (unat q) \<and> fmlookup m (e, q') = None \<and>
     m' = fmupd (e, q') (ei_id ev, ei_payload ev, c) m"
  by (auto simp: insert_event_def checked_simps simp del: not_None_eq)

lemma insert_events_Inr:
  assumes "foldE (insert_event e c) evs (m, q) = Inr (m', q')"
  shows "unat q' = unat q + length evs \<and>
    (\<forall>k. fmlookup m' k =
      (if fst k = e \<and> unat q < unat (snd k) \<and> unat (snd k) \<le> unat q'
       then let ev = evs ! (unat (snd k) - Suc (unat q)) in Some (ei_id ev, ei_payload ev, c)
       else fmlookup m k))"
  using assms
proof (induction evs arbitrary: m q)
  case Nil
  then show ?case by auto
next
  case (Cons ev evs)
  from Cons.prems obtain m1 q1 where step: "insert_event e c ev (m, q) = Inr (m1, q1)"
    and rest: "foldE (insert_event e c) evs (m1, q1) = Inr (m', q')"
    by auto
  from step have q1: "unat q1 = Suc (unat q)"
    and m1: "m1 = fmupd (e, q1) (ei_id ev, ei_payload ev, c) m"
    by (simp_all add: insert_event_Inr)
  from Cons.IH [OF rest] have IH: "unat q' = unat q1 + length evs"
    "\<And>k. fmlookup m' k =
      (if fst k = e \<and> unat q1 < unat (snd k) \<and> unat (snd k) \<le> unat q'
       then let ev = evs ! (unat (snd k) - Suc (unat q1)) in Some (ei_id ev, ei_payload ev, c)
       else fmlookup m1 k)"
    by blast+
  have "fmlookup m' k =
      (if fst k = e \<and> unat q < unat (snd k) \<and> unat (snd k) \<le> unat q'
       then let ev = (ev # evs) ! (unat (snd k) - Suc (unat q))
            in Some (ei_id ev, ei_payload ev, c)
       else fmlookup m k)" for k
  proof (cases "snd k = q1")
    case True
    then show ?thesis using IH q1 m1 by (cases k) auto
  next
    case False
    then have "unat (snd k) \<noteq> Suc (unat q)" using q1 by (metis word_unat_eq_iff)
    then show ?thesis using IH q1 m1 False by (cases k) (auto simp: nth_Cons' Let_def)
  qed
  with IH(1) q1 show ?case by simp
qed

lemma insert_events_total:
  assumes "unat q + length evs < 2 ^ 64"
    and "\<And>q'. unat q < unat q' \<Longrightarrow> fmlookup m (e, q') = None"
  shows "\<exists>m' q'. foldE (insert_event e c) evs (m, q) = Inr (m', q')"
  using assms
proof (induction evs arbitrary: m q)
  case (Cons ev evs)
  from Cons.prems(1) obtain q1 where q1: "checked_add q 1 = Some q1"
    by (auto simp: checked_add_def)
  then have "unat q1 = Suc (unat q)" by (simp add: checked_simps)
  with Cons.prems have "insert_event e c ev (m, q) =
      Inr (fmupd (e, q1) (ei_id ev, ei_payload ev, c) m, q1)"
    by (simp add: insert_event_Inr)
  moreover have "\<exists>m' q'. foldE (insert_event e c) evs
      (fmupd (e, q1) (ei_id ev, ei_payload ev, c) m, q1) = Inr (m', q')"
    using Cons.prems \<open>unat q1 = Suc (unat q)\<close> by (intro Cons.IH) auto
  ultimately show ?case by simp
qed simp

lemma insert_outbox_Inr:
  "insert_outbox e c item (m, ids) = Inr (m', ids') \<longleftrightarrow>
     fmlookup m (oi_id item) = None \<and> ids' = ids @ [oi_id item] \<and>
     m' = fmupd (oi_id item) (new_outbox_record e c item) m"
  by (auto simp: insert_outbox_def)

lemma insert_outbox_all_Inr:
  assumes "foldE (insert_outbox e c) items (m, ids) = Inr (m', ids')"
  shows "ids' = ids @ map oi_id items \<and> distinct (map oi_id items) \<and>
    (\<forall>i \<in> set (map oi_id items). fmlookup m i = None) \<and>
    (\<forall>i. fmlookup m' i =
       (case map_of (map (\<lambda>x. (oi_id x, new_outbox_record e c x)) items) i of
          None \<Rightarrow> fmlookup m i | Some r \<Rightarrow> Some r))"
  using assms
proof (induction items arbitrary: m ids)
  case (Cons item items)
  from Cons.prems have new: "fmlookup m (oi_id item) = None"
    and rest: "foldE (insert_outbox e c) items
      (fmupd (oi_id item) (new_outbox_record e c item) m, ids @ [oi_id item]) = Inr (m', ids')"
    by (auto simp: insert_outbox_Inr)
  let ?recs = "map_of (map (\<lambda>x. (oi_id x, new_outbox_record e c x)) items)"
  have IH: "ids' = (ids @ [oi_id item]) @ map oi_id items"
      "distinct (map oi_id items)"
      "\<And>i. i \<in> set (map oi_id items) \<Longrightarrow>
         fmlookup (fmupd (oi_id item) (new_outbox_record e c item) m) i = None"
      "\<And>i. fmlookup m' i = (case ?recs i of
         None \<Rightarrow> fmlookup (fmupd (oi_id item) (new_outbox_record e c item) m) i | Some r \<Rightarrow> Some r)"
    using Cons.IH [OF rest] by blast+
  from IH(3) [of "oi_id item"] have fresh: "oi_id item \<notin> set (map oi_id items)" by auto
  then have "?recs (oi_id item) = None" by (auto simp: map_of_eq_None_iff)
  with IH(4) have "fmlookup m' i = (case map_of (map (\<lambda>x. (oi_id x, new_outbox_record e c x))
      (item # items)) i of None \<Rightarrow> fmlookup m i | Some r \<Rightarrow> Some r)" for i
    by (cases "?recs i") auto
  moreover have "fmlookup m i = None" if "i \<in> set (map oi_id (item # items))" for i
    using that new fresh IH(3) [of i] by (auto split: if_splits)
  ultimately show ?case using IH(1,2) fresh by simp
qed simp

lemma insert_outbox_all_total:
  assumes "distinct (map oi_id items)" and "\<And>x. x \<in> set items \<Longrightarrow> fmlookup m (oi_id x) = None"
  shows "\<exists>m' ids'. foldE (insert_outbox e c) items (m, ids) = Inr (m', ids')"
  using assms
proof (induction items arbitrary: m ids)
  case (Cons item items)
  then have "insert_outbox e c item (m, ids) =
      Inr (fmupd (oi_id item) (new_outbox_record e c item) m, ids @ [oi_id item])"
    by (simp add: insert_outbox_Inr)
  moreover have "\<exists>m' ids'. foldE (insert_outbox e c) items
      (fmupd (oi_id item) (new_outbox_record e c item) m, ids @ [oi_id item]) = Inr (m', ids')"
    using Cons.prems by (intro Cons.IH) auto
  ultimately show ?case by simp
qed simp

lemma validate_outbox_distinct:
  "foldE validate_outbox_item items seen = Inr seen' \<Longrightarrow>
     distinct (map oi_id items) \<and> fset seen \<inter> oi_id ` set items = {}"
proof (induction items arbitrary: seen)
  case (Cons item items)
  then show ?case by (auto simp: validate_outbox_item_def dest!: Cons.IH split: if_splits)
qed simp

subsection \<open>Commits\<close>

text \<open>A successful commit answers from a receipt or performs the whole transaction.\<close>

lemma persist_commit_Inr_cases:
  assumes "persist_commit s p = (s', Inr r)"
  obtains (replay) "s' = s"
      "fmlookup (ds_commands s) (ci_entity (pr_intent p), ci_command (pr_intent p)) = Some r"
      "re_fingerprint r = ci_fingerprint (pr_intent p)"
  | (fresh) i h events outbox where "i = pr_intent p"
      "fmlookup (ds_commands s) (ci_entity i, ci_command i) = None"
      "fmlookup (ds_entities s) (ci_entity i) = Some h"
      "eh_authority_generation h = ci_authority_generation i"
      "eh_revision h = ci_expected_revision i"
      "unat (pr_next_revision p) = Suc (unat (eh_revision h))"
      "foldE (insert_event (ci_entity i) (ci_command i)) (ci_events i)
         (ds_events s, eh_last_sequence h) = Inr (events, pr_last_sequence p)"
      "foldE (insert_outbox (ci_entity i) (ci_command i)) (ci_outbox i)
         (ds_outbox s, []) = Inr (outbox, re_outbox r)"
      "re_entity r = ci_entity i" "re_command r = ci_command i"
      "re_fingerprint r = ci_fingerprint i"
      "re_revision r = pr_next_revision p" "re_state r = ci_next_state i"
      "re_last_sequence r = pr_last_sequence p" "re_event_count r = length (ci_events i)"
      "s' = s\<lparr>ds_entities := fmupd (ci_entity i)
               \<lparr>eh_revision = pr_next_revision p, eh_last_sequence = pr_last_sequence p,
                eh_authority_generation = ci_authority_generation i,
                eh_state = ci_next_state i\<rparr> (ds_entities s),
             ds_commands := fmupd (ci_entity i, ci_command i) r (ds_commands s),
             ds_events := events, ds_outbox := outbox\<rparr>"
  using assms
  by (cases "fmlookup (ds_commands s) (ci_entity (pr_intent p), ci_command (pr_intent p))")
    (auto simp: persist_commit_def Let_def fence_def checked_simps split: if_splits)

lemma persist_commit_Inl_state: "persist_commit s p = (s', Inl e) \<Longrightarrow> s' = s"
  by (auto simp: persist_commit_def Let_def split: option.splits if_splits)

lemma fcard_entity_commands_new:
  "fmlookup (ds_commands s) (e, c) = None \<Longrightarrow>
     fcard (entity_commands (s\<lparr>ds_commands := fmupd (e, c) r (ds_commands s)\<rparr>) e) =
       Suc (fcard (entity_commands s e))"
  by (simp add: entity_commands_def ffilter_finsert fcard_finsert_disjoint fmdom_notI)

lemma entity_commands_other:
  "e' \<noteq> e \<Longrightarrow>
     entity_commands (s\<lparr>ds_commands := fmupd (e, c) r (ds_commands s)\<rparr>) e' = entity_commands s e'"
  by (auto simp: entity_commands_def)

lemma entity_commands_frame [simp]:
  "entity_commands (s\<lparr>ds_entities := x\<rparr>) e = entity_commands s e"
  "entity_commands (s\<lparr>ds_events := y\<rparr>) e = entity_commands s e"
  "entity_commands (s\<lparr>ds_outbox := z\<rparr>) e = entity_commands s e"
  by (simp_all add: entity_commands_def)

lemma entity_commands_cong:
  "ds_commands t = ds_commands s \<Longrightarrow> entity_commands t e = entity_commands s e"
  by (simp add: entity_commands_def)

text \<open>The effect of a fresh commit on the parts of the state.\<close>

lemma commit_events_inv:
  assumes inv: "events_inv s"
    and h: "fmlookup (ds_entities s) e = Some h"
    and loop: "foldE (insert_event e c) evs (ds_events s, eh_last_sequence h) = Inr (events, q)"
    and entities: "ds_entities t = fmupd e h' (ds_entities s)" and "eh_last_sequence h' = q"
    and commands: "ds_commands t = fmupd (e, c) r (ds_commands s)" and "ds_events t = events"
  shows "events_inv t"
proof -
  from insert_events_Inr [OF loop]
  have q: "unat q = unat (eh_last_sequence h) + length evs"
    and ev: "\<And>k. fmlookup events k =
      (if fst k = e \<and> unat (eh_last_sequence h) < unat (snd k) \<and> unat (snd k) \<le> unat q
       then let ev = evs ! (unat (snd k) - Suc (unat (eh_last_sequence h)))
            in Some (ei_id ev, ei_payload ev, c)
       else fmlookup (ds_events s) k)"
    by blast+
  have "fmlookup events (e', n) \<noteq> None \<longleftrightarrow>
      (\<exists>h. fmlookup (ds_entities t) e' = Some h \<and>
         0 < unat n \<and> unat n \<le> unat (eh_last_sequence h))" for e' n
  proof (cases "e' = e")
    case True
    from inv have "fmlookup (ds_events s) (e, n) \<noteq> None \<longleftrightarrow>
        (\<exists>h. fmlookup (ds_entities s) e = Some h \<and>
           0 < unat n \<and> unat n \<le> unat (eh_last_sequence h))"
      unfolding events_inv_def by blast
    then have "fmlookup (ds_events s) (e, n) \<noteq> None \<longleftrightarrow>
        0 < unat n \<and> unat n \<le> unat (eh_last_sequence h)"
      by (simp add: h del: not_None_eq)
    then have "fmlookup events (e, n) \<noteq> None \<longleftrightarrow> 0 < unat n \<and> unat n \<le> unat q"
      using q ev [of "(e, n)"]
      by (cases "unat (eh_last_sequence h) < unat n \<and> unat n \<le> unat q")
        (auto simp: Let_def simp del: not_None_eq)
    with True entities \<open>eh_last_sequence h' = q\<close> show ?thesis by simp
  next
    case False
    from inv have "fmlookup (ds_events s) (e', n) \<noteq> None \<longleftrightarrow>
        (\<exists>h. fmlookup (ds_entities s) e' = Some h \<and>
           0 < unat n \<and> unat n \<le> unat (eh_last_sequence h))"
      unfolding events_inv_def by blast
    with False show ?thesis by (simp add: ev entities del: not_None_eq)
  qed
  moreover have "fmlookup (ds_commands t) (e', c') \<noteq> None"
    if "fmlookup events (e', n) = Some (i, d, c')" for e' n i d c'
  proof (cases "e' = e \<and> unat (eh_last_sequence h) < unat n \<and> unat n \<le> unat q")
    case True
    with that show ?thesis by (simp add: ev Let_def commands)
  next
    case False
    with that have "fmlookup (ds_events s) (e', n) = Some (i, d, c')" by (auto simp: ev)
    with inv have "fmlookup (ds_commands s) (e', c') \<noteq> None" unfolding events_inv_def by blast
    then show ?thesis by (simp add: commands)
  qed
  ultimately show ?thesis unfolding events_inv_def \<open>ds_events t = events\<close> by blast
qed

lemma commit_commands_inv:
  assumes inv: "commands_inv s"
    and new: "fmlookup (ds_commands s) (e, c) = None"
    and h: "fmlookup (ds_entities s) e = Some h"
    and h': "unat (eh_revision h') = Suc (unat (eh_revision h))"
    and r: "re_entity r = e" "re_command r = c" "re_revision r = eh_revision h'"
    and entities: "ds_entities t = fmupd e h' (ds_entities s)"
    and commands: "ds_commands t = fmupd (e, c) r (ds_commands s)"
  shows "commands_inv t"
proof -
  have t: "entity_commands t e' =
      entity_commands (s\<lparr>ds_commands := fmupd (e, c) r (ds_commands s)\<rparr>) e'" for e'
    by (rule entity_commands_cong) (simp add: commands)
  have count: "unat (eh_revision k) = fcard (entity_commands t e')"
    if "fmlookup (ds_entities t) e' = Some k" for e' k
    using that inv h h' new
    by (cases "e' = e")
      (auto simp: t entities fcard_entity_commands_new entity_commands_other commands_inv_def)
  have bound: "unat (re_revision rc) \<le> unat (eh_revision h)"
    if "fmlookup (ds_commands s) (e, c') = Some rc" for c' rc
    using inv h that unfolding commands_inv_def by fastforce
  have keys: "re_entity rc = e' \<and> re_command rc = c' \<and>
      (\<exists>h. fmlookup (ds_entities t) e' = Some h \<and>
        0 < unat (re_revision rc) \<and> unat (re_revision rc) \<le> unat (eh_revision h))"
    if "fmlookup (ds_commands t) (e', c') = Some rc" for e' c' rc
  proof (cases "(e', c') = (e, c)")
    case True
    with that r h' show ?thesis by (simp add: commands entities)
  next
    case False
    with that have old: "fmlookup (ds_commands s) (e', c') = Some rc" by (auto simp: commands)
    with inv obtain k where "re_entity rc = e'" "re_command rc = c'"
      "fmlookup (ds_entities s) e' = Some k"
      "0 < unat (re_revision rc)" "unat (re_revision rc) \<le> unat (eh_revision k)"
      unfolding commands_inv_def by blast
    with bound [of c' rc] old h' show ?thesis by (auto simp: entities)
  qed
  have "c1 = c2" if "fmlookup (ds_commands t) (e', c1) = Some r1"
    "fmlookup (ds_commands t) (e', c2) = Some r2" "re_revision r1 = re_revision r2"
    for e' c1 c2 r1 r2
  proof -
    have fresh: "re_revision rc \<noteq> re_revision r"
      if "fmlookup (ds_commands s) (e, c') = Some rc" for c' rc
      using bound [OF that] h' r by auto
    have old: "fmlookup (ds_commands s) (e', c') = Some rc"
      if "fmlookup (ds_commands t) (e', c') = Some rc" "(e', c') \<noteq> (e, c)" for c' rc
      using that by (auto simp: commands)
    have isnew: "rc = r" if "fmlookup (ds_commands t) (e, c) = Some rc" for rc
      using that by (simp add: commands)
    consider "(e', c1) = (e, c)" "(e', c2) = (e, c)"
      | "(e', c1) = (e, c)" "(e', c2) \<noteq> (e, c)" | "(e', c1) \<noteq> (e, c)" "(e', c2) = (e, c)"
      | "(e', c1) \<noteq> (e, c)" "(e', c2) \<noteq> (e, c)" by blast
    then show ?thesis
    proof cases
      case 4
      with that old inv show ?thesis unfolding commands_inv_def by blast
    qed (use that old isnew fresh in auto)
  qed
  with count keys show ?thesis unfolding commands_inv_def by blast
qed

lemma new_outbox_record_sel [simp]:
  "or_id (new_outbox_record e c x) = oi_id x"
  "or_entity (new_outbox_record e c x) = e"
  "or_command (new_outbox_record e c x) = c"
  "or_state (new_outbox_record e c x) = Pending"
  "or_attempt (new_outbox_record e c x) = 0"
  "or_lease_generation (new_outbox_record e c x) = 0"
  by (simp_all add: new_outbox_record_def)

lemma new_outbox_record_inv: "record_inv (new_outbox_record e c x)"
  by (simp add: record_inv_def)

lemma commit_outbox_inv:
  assumes inv: "outbox_inv s"
    and new: "fmlookup (ds_commands s) (e, c) = None"
    and loop: "foldE (insert_outbox e c) items (ds_outbox s, []) = Inr (ob, re_outbox r)"
    and commands: "ds_commands t = fmupd (e, c) r (ds_commands s)"
    and outbox: "ds_outbox t = ob"
  shows "outbox_inv t"
proof -
  let ?new = "map_of (map (\<lambda>x. (oi_id x, new_outbox_record e c x)) items)"
  from insert_outbox_all_Inr [OF loop] have ids: "re_outbox r = map oi_id items"
    and fresh: "\<And>i. i \<in> oi_id ` set items \<Longrightarrow> fmlookup (ds_outbox s) i = None"
    and ob: "\<And>i. fmlookup ob i =
      (case ?new i of None \<Rightarrow> fmlookup (ds_outbox s) i | Some r \<Rightarrow> Some r)"
    by auto
  have new_cases: "\<exists>x \<in> set items. oi_id x = i \<and> rec = new_outbox_record e c x"
    if "?new i = Some rec" for i rec
    using map_of_SomeD [OF that] by auto
  have new_None: "?new i = None \<longleftrightarrow> i \<notin> oi_id ` set items" for i
    by (force simp: map_of_eq_None_iff)
  have old: "k \<noteq> (e, c)" if "fmlookup (ds_commands s) k = Some rc" for k rc
    using that new by auto
  have "or_id rec = i \<and> record_inv rec \<and>
      (\<exists>rc. fmlookup (ds_commands t) (or_entity rec, or_command rec) = Some rc \<and>
         i \<in> set (re_outbox rc))" if "fmlookup ob i = Some rec" for i rec
  proof (cases "?new i")
    case None
    with that have "fmlookup (ds_outbox s) i = Some rec" by (simp add: ob)
    with inv obtain rc where "or_id rec = i" "record_inv rec"
      "fmlookup (ds_commands s) (or_entity rec, or_command rec) = Some rc"
      "i \<in> set (re_outbox rc)"
      unfolding outbox_inv_def by blast
    with old show ?thesis by (auto simp: commands)
  next
    case (Some rec')
    with that have "?new i = Some rec" by (simp add: ob)
    from new_cases [OF this] show ?thesis
      by (auto simp: commands ids new_outbox_record_inv)
  qed
  moreover have "\<exists>rec. fmlookup ob i = Some rec \<and> (or_entity rec, or_command rec) = k"
    if "fmlookup (ds_commands t) k = Some rc" "i \<in> set (re_outbox rc)" for k rc i
  proof (cases "k = (e, c)")
    case True
    with that have "rc = r" by (simp add: commands)
    with that(2) ids have "i \<in> oi_id ` set items" by simp
    then obtain rec where "?new i = Some rec" using new_None [of i] by (cases "?new i") auto
    with new_cases [OF this] True show ?thesis by (auto simp: ob)
  next
    case False
    with that have "fmlookup (ds_commands s) k = Some rc" by (simp add: commands)
    with inv that(2) obtain rec where rec: "fmlookup (ds_outbox s) i = Some rec"
      "(or_entity rec, or_command rec) = k" unfolding outbox_inv_def by blast
    then have "?new i = None" using fresh new_None by force
    with rec show ?thesis by (simp add: ob)
  qed
  ultimately show ?thesis unfolding outbox_inv_def outbox by blast
qed

lemma persist_commit_inv:
  assumes "durable_inv s" and "persist_commit s p = (s', res)"
  shows "durable_inv s'"
proof (cases res)
  case (Inl e)
  with assms persist_commit_Inl_state show ?thesis by blast
next
  case (Inr r)
  with assms(2) have "persist_commit s p = (s', Inr r)" by simp
  then show ?thesis
  proof (cases rule: persist_commit_Inr_cases)
    case replay
    with assms(1) show ?thesis by simp
  next
    case (fresh i h events outbox)
    have s: "events_inv s" "commands_inv s" "outbox_inv s"
      using assms(1) by (simp_all add: durable_inv_def)
    let ?h = "\<lparr>eh_revision = pr_next_revision p, eh_last_sequence = pr_last_sequence p,
      eh_authority_generation = ci_authority_generation i, eh_state = ci_next_state i\<rparr>"
    have "events_inv s'"
      by (rule commit_events_inv [OF s(1) fresh(3,7), where h' = ?h]) (simp_all add: fresh(16))
    moreover have "commands_inv s'"
      by (rule commit_commands_inv [OF s(2) fresh(2,3), where h' = ?h]) (simp_all add: fresh)
    moreover have "outbox_inv s'"
      by (rule commit_outbox_inv [OF s(3) fresh(2,8)]) (simp_all add: fresh(16))
    ultimately show ?thesis by (simp add: durable_inv_def)
  qed
qed

subsection \<open>Entities\<close>

lemma bootstrap_cases:
  assumes "bootstrap s e g d = (s', res)"
  obtains (rejected) err where "res = Inl err" "s' = s"
  | (created) h where "res = Inr h" "fmlookup (ds_entities s) e = None" "e \<noteq> 0" "g \<noteq> 0"
      "eh_revision h = 0" "eh_last_sequence h = 0" "eh_authority_generation h = g"
      "s' = s\<lparr>ds_entities := fmupd e h (ds_entities s)\<rparr>"
  using assms by (cases res) (auto simp: bootstrap_def Let_def nonzero_def split: if_splits)

lemma persist_takeover_cases:
  assumes "persist_takeover s e g = (s', res)"
  obtains (rejected) err where "res = Inl err" "s' = s"
  | (taken) h h' where "res = Inr h'" "fmlookup (ds_entities s) e = Some h"
      "eh_authority_generation h = g"
      "unat (eh_authority_generation h') = Suc (unat (eh_authority_generation h))"
      "h' = h\<lparr>eh_authority_generation := eh_authority_generation h'\<rparr>"
      "s' = s\<lparr>ds_entities := fmupd e h' (ds_entities s)\<rparr>"
  using assms
  by (cases res) (auto simp: persist_takeover_def Let_def checked_simps split: if_splits)

lemma bootstrap_inv:
  assumes inv: "durable_inv s" and "bootstrap s e g d = (s', res)"
  shows "durable_inv s'"
  using assms(2)
proof (cases rule: bootstrap_cases)
  case (created h)
  have none: "fmlookup (ds_commands s) (e, c) = None" for c
    using inv created(2) unfolding durable_inv_def commands_inv_def
    by (metis option.distinct(1) option.exhaust)
  then have "entity_commands s e = {||}"
    by (auto simp: entity_commands_def fmlookup_dom_iff)
  with inv created(2,5,6) none show ?thesis
    by (auto simp: durable_inv_def events_inv_def commands_inv_def outbox_inv_def created(8)
      entity_commands_cong [of "s\<lparr>ds_entities := _\<rparr>" s])
qed (use inv in simp)

lemma outbox_inv_cong:
  "ds_commands t = ds_commands s \<Longrightarrow> ds_outbox t = ds_outbox s \<Longrightarrow>
     outbox_inv t \<longleftrightarrow> outbox_inv s"
  by (simp add: outbox_inv_def)

lemma events_inv_head:
  assumes inv: "events_inv s" and h: "fmlookup (ds_entities s) e = Some h"
    and same: "eh_last_sequence h' = eh_last_sequence h"
    and t: "ds_entities t = fmupd e h' (ds_entities s)" "ds_events t = ds_events s"
      "ds_commands t = ds_commands s"
  shows "events_inv t"
proof -
  have "fmlookup (ds_events s) (e', q) \<noteq> None \<longleftrightarrow>
      (\<exists>k. fmlookup (ds_entities t) e' = Some k \<and>
        0 < unat q \<and> unat q \<le> unat (eh_last_sequence k))" for e' q
  proof -
    have "fmlookup (ds_events s) (e', q) \<noteq> None \<longleftrightarrow>
        (\<exists>k. fmlookup (ds_entities s) e' = Some k \<and>
          0 < unat q \<and> unat q \<le> unat (eh_last_sequence k))"
      using inv unfolding events_inv_def by blast
    with h same show ?thesis by (cases "e' = e") (simp_all add: t del: not_None_eq)
  qed
  with inv show ?thesis unfolding events_inv_def t by blast
qed

lemma commands_inv_head:
  assumes inv: "commands_inv s" and h: "fmlookup (ds_entities s) e = Some h"
    and same: "eh_revision h' = eh_revision h"
    and t: "ds_entities t = fmupd e h' (ds_entities s)" "ds_commands t = ds_commands s"
  shows "commands_inv t"
proof -
  have "re_entity r = e' \<and> re_command r = c \<and>
      (\<exists>k. fmlookup (ds_entities t) e' = Some k \<and>
        0 < unat (re_revision r) \<and> unat (re_revision r) \<le> unat (eh_revision k))"
    if "fmlookup (ds_commands s) (e', c) = Some r" for e' c r
  proof -
    from inv that have "re_entity r = e' \<and> re_command r = c \<and>
      (\<exists>k. fmlookup (ds_entities s) e' = Some k \<and>
        0 < unat (re_revision r) \<and> unat (re_revision r) \<le> unat (eh_revision k))"
      unfolding commands_inv_def by blast
    with h same show ?thesis by (cases "e' = e") (auto simp: t)
  qed
  moreover have "unat (eh_revision k) = fcard (entity_commands t e')"
    if "fmlookup (ds_entities t) e' = Some k" for e' k
    using that inv h same entity_commands_cong [OF t(2)]
    unfolding commands_inv_def by (cases "e' = e") (auto simp: t(1))
  ultimately show ?thesis
    using inv unfolding commands_inv_def t(2) by blast
qed

lemma persist_takeover_inv:
  assumes inv: "durable_inv s" and "persist_takeover s e g = (s', res)"
  shows "durable_inv s'"
  using assms(2)
proof (cases rule: persist_takeover_cases)
  case (taken h h')
  have same: "eh_revision h' = eh_revision h" "eh_last_sequence h' = eh_last_sequence h"
    by (subst taken(5); simp)+
  from inv have "events_inv s'" "commands_inv s'"
    using events_inv_head [OF _ taken(2) same(2), of s'] commands_inv_head [OF _ taken(2) same(1), of s']
    by (simp_all add: durable_inv_def taken(6))
  moreover have "outbox_inv s'"
    using inv outbox_inv_cong [of s' s] by (simp add: durable_inv_def taken(6))
  ultimately show ?thesis by (simp add: durable_inv_def)
qed (use inv in simp)

subsection \<open>Life cycle of an outbox record\<close>

text \<open>
  The abstract machine a record goes through: a pending record is leased under the next lease
  generation; a leased one is applied, returned to pending with one more attempt, or buried,
  by the caller or because its attempts are exhausted.
\<close>

inductive outbox_step :: "OutboxRecord \<Rightarrow> OutboxRecord \<Rightarrow> bool" where
  lease: "or_state r = Pending \<Longrightarrow> owner \<noteq> 0 \<Longrightarrow>
     unat g = Suc (unat (or_lease_generation r)) \<Longrightarrow>
     outbox_step r (r\<lparr>or_lease_generation := g, or_state := Leased owner g\<rparr>)"
| applied: "or_state r = Leased owner g \<Longrightarrow> receipt \<noteq> 0 \<Longrightarrow>
     outbox_step r (r\<lparr>or_state := Applied receipt\<rparr>)"
| retried: "or_state r = Leased owner g \<Longrightarrow> unat (or_attempt r) < 32 \<Longrightarrow>
     unat a = Suc (unat (or_attempt r)) \<Longrightarrow>
     outbox_step r (r\<lparr>or_attempt := a, or_state := Pending\<rparr>)"
| exhausted: "or_state r = Leased owner g \<Longrightarrow> 32 \<le> unat (or_attempt r) \<Longrightarrow>
     outbox_step r (r\<lparr>or_state := DeadLetter OUTBOX_ATTEMPT_LIMIT_REASON\<rparr>)"
| buried: "or_state r = Leased owner g \<Longrightarrow> reason \<noteq> 0 \<Longrightarrow>
     outbox_step r (r\<lparr>or_state := DeadLetter reason\<rparr>)"

inductive_cases outbox_stepE: "outbox_step r r'"

lemma outbox_step_frame:
  "outbox_step r r' \<Longrightarrow>
     or_id r' = or_id r \<and> or_entity r' = or_entity r \<and> or_command r' = or_command r \<and>
     or_kind r' = or_kind r \<and> or_payload r' = or_payload r"
  by (erule outbox_stepE) simp_all

lemma outbox_step_record_inv: "outbox_step r r' \<Longrightarrow> record_inv r \<Longrightarrow> record_inv r'"
  by (erule outbox_stepE) (simp_all add: record_inv_def)

text \<open>
  One form for the effect of the four worker operations: nothing, or one abstract step of one
  stored record.
\<close>

definition record_moves :: "DurableState \<Rightarrow> id16 \<Rightarrow> DurableState \<Rightarrow> bool" where
  "record_moves s i s' \<longleftrightarrow> s' = s \<or>
     (\<exists>r r'. fmlookup (ds_outbox s) i = Some r \<and> outbox_step r r' \<and>
        s' = s\<lparr>ds_outbox := fmupd i r' (ds_outbox s)\<rparr>)"

lemma lease_fence_iff [simp]:
  "lease_fence r w g = Inr u \<longleftrightarrow> or_state r = Leased w g"
  by (simp add: lease_fence_def)

lemma MAX_ATTEMPTS_le_iff: "MAX_ATTEMPTS \<le> a \<longleftrightarrow> 32 \<le> unat a"
  by (simp add: MAX_ATTEMPTS_def word_le_nat_alt)

lemma lease_Inr_iff:
  "lease s i w = (s', Inr r') \<longleftrightarrow>
     (\<exists>r g. fmlookup (ds_outbox s) i = Some r \<and> w \<noteq> 0 \<and> or_state r = Pending \<and>
        unat g = Suc (unat (or_lease_generation r)) \<and>
        r' = r\<lparr>or_lease_generation := g, or_state := Leased w g\<rparr> \<and>
        s' = s\<lparr>ds_outbox := fmupd i r' (ds_outbox s)\<rparr>)"
  by (cases "fmlookup (ds_outbox s) i")
    (auto simp: lease_def nonzero_def put_record_def checked_simps)

lemma apply_Inr_iff:
  "apply_intent s i w g d = (s', Inr r') \<longleftrightarrow>
     d \<noteq> 0 \<and> (\<exists>r. fmlookup (ds_outbox s) i = Some r \<and>
       (or_state r = Applied d \<and> s' = s \<and> r' = r \<or>
        or_state r = Leased w g \<and> r' = r\<lparr>or_state := Applied d\<rparr> \<and>
        s' = s\<lparr>ds_outbox := fmupd i r' (ds_outbox s)\<rparr>))"
proof (cases "fmlookup (ds_outbox s) i")
  case (Some r)
  then show ?thesis
    by (cases "or_state r") (auto simp: apply_intent_def put_record_def lease_fence_def)
qed (simp add: apply_intent_def)

lemma retry_Inr_iff:
  "retry s i w g = (s', Inr r') \<longleftrightarrow>
     (\<exists>r. fmlookup (ds_outbox s) i = Some r \<and> or_state r = Leased w g \<and>
        (32 \<le> unat (or_attempt r) \<and> r' = r\<lparr>or_state := DeadLetter OUTBOX_ATTEMPT_LIMIT_REASON\<rparr> \<or>
         unat (or_attempt r) < 32 \<and>
         (\<exists>a. unat a = Suc (unat (or_attempt r)) \<and>
            r' = r\<lparr>or_attempt := a, or_state := Pending\<rparr>)) \<and>
        s' = s\<lparr>ds_outbox := fmupd i r' (ds_outbox s)\<rparr>)"
proof (cases "fmlookup (ds_outbox s) i")
  case (Some r)
  then show ?thesis
    by (cases "32 \<le> unat (or_attempt r)")
      (auto simp: retry_def put_record_def MAX_ATTEMPTS_le_iff checked_simps)
qed (simp add: retry_def)

lemma dead_letter_Inr_iff:
  "dead_letter s i w g d = (s', Inr r') \<longleftrightarrow>
     d \<noteq> 0 \<and> (\<exists>r. fmlookup (ds_outbox s) i = Some r \<and> or_state r = Leased w g \<and>
       r' = r\<lparr>or_state := DeadLetter d\<rparr> \<and>
       s' = s\<lparr>ds_outbox := fmupd i r' (ds_outbox s)\<rparr>)"
  by (cases "fmlookup (ds_outbox s) i") (auto simp: dead_letter_def put_record_def)

lemmas worker_Inr_iff = lease_Inr_iff apply_Inr_iff retry_Inr_iff dead_letter_Inr_iff

lemma worker_Inl_state:
  "lease s i w = (s', Inl e) \<Longrightarrow> s' = s"
  "apply_intent s i w g d = (s', Inl e) \<Longrightarrow> s' = s"
  "retry s i w g = (s', Inl e) \<Longrightarrow> s' = s"
  "dead_letter s i w g d = (s', Inl e) \<Longrightarrow> s' = s"
  by (simp_all add: lease_def apply_intent_def retry_def dead_letter_def)

lemma lease_moves: "lease s i w = (s', res) \<Longrightarrow> record_moves s i s'"
  by (cases res) (auto simp: record_moves_def lease_Inr_iff dest: worker_Inl_state
    intro!: outbox_step.lease)

lemma apply_moves: "apply_intent s i w g d = (s', res) \<Longrightarrow> record_moves s i s'"
  by (cases res) (auto simp: record_moves_def apply_Inr_iff dest: worker_Inl_state
    intro!: outbox_step.applied)

lemma retry_moves: "retry s i w g = (s', res) \<Longrightarrow> record_moves s i s'"
  by (cases res) (auto simp: record_moves_def retry_Inr_iff dest: worker_Inl_state
    intro!: outbox_step.retried outbox_step.exhausted)

lemma dead_letter_moves: "dead_letter s i w g d = (s', res) \<Longrightarrow> record_moves s i s'"
  by (cases res) (auto simp: record_moves_def dead_letter_Inr_iff dest: worker_Inl_state
    intro!: outbox_step.buried)

lemma outbox_inv_move:
  assumes inv: "outbox_inv s" and r: "fmlookup (ds_outbox s) i = Some r"
    and step: "outbox_step r r'"
    and t: "ds_outbox t = fmupd i r' (ds_outbox s)" "ds_commands t = ds_commands s"
  shows "outbox_inv t"
proof -
  have frame: "or_id r' = or_id r" "or_entity r' = or_entity r" "or_command r' = or_command r"
    using outbox_step_frame [OF step] by simp_all
  obtain rc where rc: "or_id r = i" "record_inv r"
    "fmlookup (ds_commands s) (or_entity r, or_command r) = Some rc" "i \<in> set (re_outbox rc)"
    using inv r unfolding outbox_inv_def by blast
  have "record_inv r'" using outbox_step_record_inv [OF step rc(2)] .
  then have new: "or_id r' = i \<and> record_inv r' \<and>
      (\<exists>rc. fmlookup (ds_commands s) (or_entity r', or_command r') = Some rc \<and>
         i \<in> set (re_outbox rc))"
    using rc frame by auto
  have "or_id x = j \<and> record_inv x \<and>
      (\<exists>rc. fmlookup (ds_commands s) (or_entity x, or_command x) = Some rc \<and>
         j \<in> set (re_outbox rc))" if "fmlookup (ds_outbox t) j = Some x" for j x
  proof (cases "j = i")
    case True
    with that new show ?thesis by (simp add: t)
  next
    case False
    with that have "fmlookup (ds_outbox s) j = Some x" by (simp add: t)
    with inv show ?thesis unfolding outbox_inv_def by blast
  qed
  moreover have "\<exists>x. fmlookup (ds_outbox t) j = Some x \<and> (or_entity x, or_command x) = k"
    if "fmlookup (ds_commands s) k = Some rc" "j \<in> set (re_outbox rc)" for k rc j
  proof -
    from inv that obtain x where "fmlookup (ds_outbox s) j = Some x" "(or_entity x, or_command x) = k"
      unfolding outbox_inv_def by blast
    with r frame show ?thesis by (cases "j = i") (auto simp: t)
  qed
  ultimately show ?thesis unfolding outbox_inv_def t(2) by blast
qed

lemma record_moves_inv:
  assumes inv: "durable_inv s" and "record_moves s i s'"
  shows "durable_inv s'"
proof (cases "s' = s")
  case False
  then obtain r r' where r: "fmlookup (ds_outbox s) i = Some r" and step: "outbox_step r r'"
    and s': "s' = s\<lparr>ds_outbox := fmupd i r' (ds_outbox s)\<rparr>"
    using assms(2) by (auto simp: record_moves_def)
  from inv have "events_inv s'" "commands_inv s'"
    by (simp_all add: durable_inv_def events_inv_def commands_inv_def s')
  moreover have "outbox_inv s'"
    using inv outbox_inv_move [OF _ r step, of s'] by (simp add: durable_inv_def s')
  ultimately show ?thesis by (simp add: durable_inv_def)
qed (use inv in simp)

subsection \<open>All operations\<close>

lemmas worker_moves =
  lease_moves [OF surjective_pairing] apply_moves [OF surjective_pairing]
  retry_moves [OF surjective_pairing] dead_letter_moves [OF surjective_pairing]

lemma persist_step_inv:
  assumes inv: "durable_inv s"
  shows "durable_inv (persist_step x s)"
  by (cases x)
    (simp_all add: bootstrap_inv [OF inv surjective_pairing]
      persist_commit_inv [OF inv surjective_pairing]
      persist_takeover_inv [OF inv surjective_pairing]
      worker_moves [THEN record_moves_inv [OF inv]])

text \<open>
  How the durable state may evolve: heads only advance, receipts and events are immutable,
  and an outbox record moves along its life cycle.
\<close>

definition durable_below :: "DurableState \<Rightarrow> DurableState \<Rightarrow> bool" where
  "durable_below s t \<longleftrightarrow>
     (\<forall>e h. fmlookup (ds_entities s) e = Some h \<longrightarrow>
        (\<exists>h'. fmlookup (ds_entities t) e = Some h' \<and>
          eh_authority_generation h \<le> eh_authority_generation h')) \<and>
     (\<forall>k r. fmlookup (ds_commands s) k = Some r \<longrightarrow> fmlookup (ds_commands t) k = Some r) \<and>
     (\<forall>k v. fmlookup (ds_events s) k = Some v \<longrightarrow> fmlookup (ds_events t) k = Some v) \<and>
     (\<forall>i r. fmlookup (ds_outbox s) i = Some r \<longrightarrow>
        (\<exists>r'. fmlookup (ds_outbox t) i = Some r' \<and> outbox_step\<^sup>*\<^sup>* r r'))"

lemma durable_below_refl: "durable_below s s"
  by (auto simp: durable_below_def)

lemma durable_below_trans:
  assumes "durable_below s t" and "durable_below t u"
  shows "durable_below s u"
proof -
  have "\<exists>h'. fmlookup (ds_entities u) e = Some h' \<and>
      eh_authority_generation h \<le> eh_authority_generation h'"
    if "fmlookup (ds_entities s) e = Some h" for e h
    using that assms unfolding durable_below_def by (meson order_trans)
  moreover have "\<exists>r'. fmlookup (ds_outbox u) i = Some r' \<and> outbox_step\<^sup>*\<^sup>* r r'"
    if "fmlookup (ds_outbox s) i = Some r" for i r
    using that assms unfolding durable_below_def by (meson rtranclp_trans)
  ultimately show ?thesis using assms unfolding durable_below_def by blast
qed

lemma persist_commit_keeps_records:
  assumes "persist_commit s p = (s', res)" and r: "fmlookup (ds_outbox s) j = Some x"
  shows "fmlookup (ds_outbox s') j = Some x"
proof (cases res)
  case (Inl e)
  with assms persist_commit_Inl_state show ?thesis by blast
next
  case (Inr rc)
  with assms(1) have "persist_commit s p = (s', Inr rc)" by simp
  then show ?thesis
  proof (cases rule: persist_commit_Inr_cases)
    case (fresh i h events ob)
    from insert_outbox_all_Inr [OF fresh(8)] r have "j \<notin> set (map oi_id (ci_outbox i))"
      by (metis option.distinct(1))
    then have "map_of (map (\<lambda>x. (oi_id x, new_outbox_record (ci_entity i) (ci_command i) x))
        (ci_outbox i)) j = None"
      by (force simp: map_of_eq_None_iff)
    with insert_outbox_all_Inr [OF fresh(8)] r show ?thesis by (simp add: fresh(16))
  qed (use r in simp)
qed

lemma persist_commit_below:
  assumes inv: "durable_inv s" and "persist_commit s p = (s', res)"
  shows "durable_below s s'"
proof (cases res)
  case (Inl e)
  with assms persist_commit_Inl_state durable_below_refl show ?thesis by blast
next
  case (Inr r)
  with assms(2) have "persist_commit s p = (s', Inr r)" by simp
  then show ?thesis
  proof (cases rule: persist_commit_Inr_cases)
    case (fresh i h events ob)
    have "fmlookup events k = Some v" if "fmlookup (ds_events s) k = Some v" for k v
    proof (cases "fst k = ci_entity i")
      case True
      have "fmlookup (ds_events s) (ci_entity i, snd k) \<noteq> None"
        using that True by (metis option.distinct(1) prod.collapse)
      then have "unat (snd k) \<le> unat (eh_last_sequence h)"
        using inv fresh(3) unfolding durable_inv_def events_inv_def by (metis option.inject)
      with that spec [OF conjunct2 [OF insert_events_Inr [OF fresh(7)]], of k] show ?thesis
        by simp
    next
      case False
      with that spec [OF conjunct2 [OF insert_events_Inr [OF fresh(7)]], of k] show ?thesis
        by simp
    qed
    moreover have "fmlookup ob j = Some x" if "fmlookup (ds_outbox s) j = Some x" for j x
      using persist_commit_keeps_records [OF assms(2) that] fresh(16) by simp
    ultimately show ?thesis
      using fresh(2,3,4) by (auto simp: durable_below_def fresh(16))
  qed (simp add: durable_below_refl)
qed

lemma bootstrap_below: "bootstrap s e g d = (s', res) \<Longrightarrow> durable_below s s'"
  by (erule bootstrap_cases) (auto simp: durable_below_def)

lemma persist_takeover_below:
  assumes "persist_takeover s e g = (s', res)"
  shows "durable_below s s'"
  using assms
proof (cases rule: persist_takeover_cases)
  case (taken h h')
  then have "eh_authority_generation h \<le> eh_authority_generation h'"
    by (simp add: word_le_nat_alt)
  with taken(2,6) show ?thesis by (auto simp: durable_below_def)
qed (simp add: durable_below_refl)

lemma record_moves_below: "record_moves s i s' \<Longrightarrow> durable_below s s'"
  by (auto simp: record_moves_def durable_below_def)

lemma persist_step_below:
  assumes inv: "durable_inv s"
  shows "durable_below s (persist_step x s)"
  by (cases x)
    (simp_all add: bootstrap_below [OF surjective_pairing]
      persist_commit_below [OF inv surjective_pairing]
      persist_takeover_below [OF surjective_pairing]
      worker_moves [THEN record_moves_below])

interpretation durable: monotone_machine persist_step durable_inv durable_below
  by unfold_locales
    (blast intro: persist_step_inv durable_below_refl durable_below_trans persist_step_below)+

definition persist_receipt :: "DurableState \<Rightarrow> id16 \<times> id16 \<Rightarrow> Receipt option" where
  "persist_receipt s k = fmlookup (ds_commands s) k"

definition persist_key :: "PreparedCommit \<Rightarrow> id16 \<times> id16" where
  "persist_key p = (ci_entity (pr_intent p), ci_command (pr_intent p))"

lemma persist_commit_stores:
  "persist_commit s p = (s', Inr r) \<Longrightarrow>
     persist_receipt s' (persist_key p) = Some r \<and> re_fingerprint r = ci_fingerprint (pr_intent p)"
  by (erule persist_commit_Inr_cases) (auto simp: persist_receipt_def persist_key_def)

lemma persist_commit_replays:
  "persist_receipt t (persist_key p) = Some r \<Longrightarrow>
     re_fingerprint r = ci_fingerprint (pr_intent p) \<Longrightarrow> persist_commit t p = (t, Inr r)"
  by (simp add: persist_receipt_def persist_key_def persist_commit_def Let_def)

interpretation durable_receipts:
  receipt_machine persist_step durable_inv persist_receipt "\<lambda>p s. persist_commit s p" persist_key
proof (unfold_locales, goal_cases)
  case (1 s k r x)
  then show ?case
    using persist_step_below [of s x] unfolding durable_below_def persist_receipt_def by blast
next
  case (2 s c)
  then show ?case using persist_step_inv [of s "OpCommit c"] by simp
next
  case (3 s c s' r)
  then show ?case using persist_commit_stores by blast
next
  case (4 s c s' r t)
  then show ?case using persist_commit_stores persist_commit_replays by blast
qed

subsection \<open>Prepared commits\<close>

lemma unat_of_nat_small: "n \<le> 64 \<Longrightarrow> unat (of_nat n :: u64) = n"
  by (rule unat_of_nat_eq) simp

lemma prepare_Prepared:
  assumes "persist_prepare s i = Inr (Prepared p)"
  obtains h where "fmlookup (ds_commands s) (ci_entity i, ci_command i) = None"
    and "fmlookup (ds_entities s) (ci_entity i) = Some h"
    and "fence h (ci_expected_revision i) (ci_authority_generation i) = Inr ()"
    and "\<not> list_ex (\<lambda>x. fmlookup (ds_outbox s) (oi_id x) \<noteq> None) (ci_outbox i)"
    and "distinct (map oi_id (ci_outbox i))" and "pr_intent p = i"
    and "unat (pr_next_revision p) = Suc (unat (eh_revision h))"
    and "unat (pr_last_sequence p) = unat (eh_last_sequence h) + length (ci_events i)"
proof -
  have valid: "validate_intent i = Inr ()" using assms by (auto simp: persist_prepare_def)
  then have "length (ci_events i) \<le> 64"
    by (auto simp: validate_intent_def MAX_EVENTS_def nonzero_def)
  then have len: "unat (of_nat (length (ci_events i)) :: u64) = length (ci_events i)"
    by (rule unat_of_nat_small)
  have "distinct (map oi_id (ci_outbox i))"
    using valid validate_outbox_distinct by (auto simp: validate_intent_def)
  then show ?thesis
    using assms that
    by (cases "fmlookup (ds_commands s) (ci_entity i, ci_command i)")
      (auto simp: persist_prepare_def Let_def checked_simps len split: if_splits)
qed

text \<open>On the state it was prepared on, a commit always succeeds.\<close>

lemma prepared_commit_succeeds:
  assumes inv: "durable_inv s" and "persist_prepare s i = Inr (Prepared p)"
  shows "\<exists>s' r. persist_commit s p = (s', Inr r)"
proof -
  obtain h where none: "fmlookup (ds_commands s) (ci_entity i, ci_command i) = None"
    and h: "fmlookup (ds_entities s) (ci_entity i) = Some h"
    and fence: "fence h (ci_expected_revision i) (ci_authority_generation i) = Inr ()"
    and new: "\<not> list_ex (\<lambda>x. fmlookup (ds_outbox s) (oi_id x) \<noteq> None) (ci_outbox i)"
    and dist: "distinct (map oi_id (ci_outbox i))" and p: "pr_intent p = i"
    and rev: "unat (pr_next_revision p) = Suc (unat (eh_revision h))"
    and last: "unat (pr_last_sequence p) = unat (eh_last_sequence h) + length (ci_events i)"
    by (rule prepare_Prepared [OF assms(2)])
  have "unat (eh_last_sequence h) + length (ci_events i) < 2 ^ 64"
    using last unat_u64_less [of "pr_last_sequence p"] by simp
  moreover have "fmlookup (ds_events s) (ci_entity i, q) = None"
    if "unat (eh_last_sequence h) < unat q" for q
    using inv h that unfolding durable_inv_def events_inv_def by (metis leD option.inject)
  ultimately obtain events q where events:
      "foldE (insert_event (ci_entity i) (ci_command i)) (ci_events i)
         (ds_events s, eh_last_sequence h) = Inr (events, q)"
    using insert_events_total by blast
  then have "unat q = unat (pr_last_sequence p)" using insert_events_Inr last by simp
  then have q: "q = pr_last_sequence p" by (simp only: word_unat_eq_iff)
  have "fmlookup (ds_outbox s) (oi_id x) = None" if "x \<in> set (ci_outbox i)" for x
    using new that by (auto simp: list_ex_iff)
  from insert_outbox_all_total [OF dist this] obtain ob ids where ob:
      "foldE (insert_outbox (ci_entity i) (ci_command i)) (ci_outbox i) (ds_outbox s, [])
         = Inr (ob, ids)"
    by blast
  have "checked_add (eh_revision h) 1 = Some (pr_next_revision p)"
    by (simp add: checked_simps rev)
  with none h fence new p events q ob show ?thesis
    by (simp add: persist_commit_def Let_def)
qed

subsection \<open>Properties\<close>

text \<open>
  What \<open>prepare\<close> accepts, \<open>commit\<close> performs: on an unchanged consistent state the commit
  of a prepared command cannot fail; it advances the revision by one, stores the \<open>n\<close>-th
  event under the \<open>n\<close>-th free sequence number, records exactly the requested outbox intents
  as pending, and keeps the authority generation.
\<close>

theorem persist_prepare_commit:
  assumes inv: "durable_inv s" and prep: "persist_prepare s i = Inr (Prepared p)"
  shows "\<exists>s' r h h'. persist_commit s p = (s', Inr r) \<and>
    head s (ci_entity i) = Some h \<and> head s' (ci_entity i) = Some h' \<and>
    unat (eh_revision h') = Suc (unat (eh_revision h)) \<and>
    unat (eh_last_sequence h') = unat (eh_last_sequence h) + length (ci_events i) \<and>
    eh_authority_generation h' = eh_authority_generation h \<and> eh_state h' = ci_next_state i \<and>
    (\<forall>q. unat (eh_last_sequence h) < unat q \<and> unat q \<le> unat (eh_last_sequence h') \<longrightarrow>
       fmlookup (ds_events s') (ci_entity i, q) =
         (let ev = ci_events i ! (unat q - Suc (unat (eh_last_sequence h)))
          in Some (ei_id ev, ei_payload ev, ci_command i))) \<and>
    re_outbox r = map oi_id (ci_outbox i) \<and>
    (\<forall>x \<in> set (ci_outbox i).
       outbox s' (oi_id x) = Some (new_outbox_record (ci_entity i) (ci_command i) x))"
proof -
  obtain s' r where commit: "persist_commit s p = (s', Inr r)"
    using prepared_commit_succeeds [OF assms] by blast
  obtain h0 where none: "fmlookup (ds_commands s) (ci_entity i, ci_command i) = None"
    and p: "pr_intent p = i" and h0: "fmlookup (ds_entities s) (ci_entity i) = Some h0"
    and last: "unat (pr_last_sequence p) = unat (eh_last_sequence h0) + length (ci_events i)"
    by (rule prepare_Prepared [OF prep])
  from commit show ?thesis
  proof (cases rule: persist_commit_Inr_cases)
    case replay
    with none p show ?thesis by simp
  next
    case (fresh j h events ob)
    have j: "j = i" and hh: "h = h0" using fresh p h0 by simp_all
    have "outbox s' (oi_id x) = Some (new_outbox_record (ci_entity i) (ci_command i) x)"
      if "x \<in> set (ci_outbox i)" for x
    proof -
      have "distinct (map fst (map (\<lambda>x. (oi_id x, new_outbox_record (ci_entity i) (ci_command i) x))
          (ci_outbox i)))"
        using insert_outbox_all_Inr [OF fresh(8)] j by (simp add: comp_def)
      then have "map_of (map (\<lambda>x. (oi_id x, new_outbox_record (ci_entity i) (ci_command i) x))
          (ci_outbox i)) (oi_id x) = Some (new_outbox_record (ci_entity i) (ci_command i) x)"
        using that by (intro map_of_is_SomeI) auto
      then show ?thesis
        using insert_outbox_all_Inr [OF fresh(8)] j by (simp add: outbox_def fresh(16))
    qed
    moreover have "re_outbox r = map oi_id (ci_outbox i)"
      using insert_outbox_all_Inr [OF fresh(8)] j by simp
    moreover have "fmlookup (ds_events s') (ci_entity i, q) =
        (let ev = ci_events i ! (unat q - Suc (unat (eh_last_sequence h)))
         in Some (ei_id ev, ei_payload ev, ci_command i))"
      if "unat (eh_last_sequence h) < unat q" "unat q \<le> unat (pr_last_sequence p)" for q
      using that spec [OF conjunct2 [OF insert_events_Inr [OF fresh(7)]], of "(ci_entity i, q)"] j
      by (simp add: fresh(16))
    ultimately show ?thesis
      using commit fresh(3,4,6) j hh last by (auto simp: head_def fresh(16))
  qed
qed

text \<open>
  C4: A committed command takes effect exactly once: in every later state, committing it again
  returns the same receipt and changes nothing, and preparing the same intent answers with
  that receipt.
\<close>

theorem persist_exactly_once:
  assumes inv: "durable_inv s" and prep: "persist_prepare s\<^sub>0 i = Inr (Prepared p)"
    and commit: "persist_commit s p = (s', Inr r)" and t: "t = fold persist_step xs s'"
  shows "persist_commit t p = (t, Inr r) \<and> persist_prepare t i = Inr (Duplicate r)"
proof -
  have inv': "durable_inv s'" using persist_commit_inv [OF inv commit] .
  have p: "pr_intent p = i" by (rule prepare_Prepared [OF prep])
  have stored: "persist_receipt t (persist_key p) = Some r"
    and finger: "re_fingerprint r = ci_fingerprint i"
    using durable_receipts.run_receipt [OF inv'] persist_commit_stores [OF commit] t p by auto
  have "validate_intent i = Inr ()" using prep by (auto simp: persist_prepare_def)
  with stored finger p have "persist_prepare t i = Inr (Duplicate r)"
    by (simp add: persist_prepare_def persist_receipt_def persist_key_def)
  then show ?thesis
    using durable_receipts.exactly_once [OF inv commit, of xs] t by simp
qed

lemma range_entity: "(e, 0) \<le> k \<and> k \<le> (e, - 1) \<longleftrightarrow> fst k = e" for k :: "id16 \<times> u64"
  by (cases k) (auto simp: less_eq_prod_def word_order.extremum)

text \<open>
  After any history the event log of every entity is contiguous: the events stored for
  it are exactly the sequence numbers \<open>1\<close> to \<open>last_sequence\<close>, so \<open>event_count\<close> equals
  \<open>last_sequence\<close>, and the revision equals the number of committed commands.
\<close>

theorem persist_log_contiguous:
  assumes t: "t = fold persist_step xs durable_default" and h: "head t e = Some h"
  shows "event_count t e = unat (eh_last_sequence h) \<and>
    (\<forall>q. fmlookup (ds_events t) (e, q) \<noteq> None \<longleftrightarrow>
       0 < unat q \<and> unat q \<le> unat (eh_last_sequence h)) \<and>
    unat (eh_revision h) = fcard (ffilter (\<lambda>k. fst k = e) (fmdom (ds_commands t)))"
proof -
  have inv: "durable_inv t" using durable.run_inv [OF durable_default_inv] t by simp
  have h': "fmlookup (ds_entities t) e = Some h" using h by (simp add: head_def)
  have log: "fmlookup (ds_events t) (e, q) \<noteq> None \<longleftrightarrow>
      0 < unat q \<and> unat q \<le> unat (eh_last_sequence h)" for q
  proof -
    have "fmlookup (ds_events t) (e, q) \<noteq> None \<longleftrightarrow>
        (\<exists>h. fmlookup (ds_entities t) e = Some h \<and>
           0 < unat q \<and> unat q \<le> unat (eh_last_sequence h))"
      using inv unfolding durable_inv_def events_inv_def by blast
    then show ?thesis by (simp add: h' del: not_None_eq)
  qed
  have "fset (ffilter (\<lambda>k. (e, 0) \<le> k \<and> k \<le> (e, - 1)) (fmdom (ds_events t))) =
      (\<lambda>n. (e, of_nat n)) ` {1..unat (eh_last_sequence h)}" (is "?L = ?R")
  proof (intro equalityI subsetI)
    fix k assume "k \<in> ?L"
    then have "fst k = e" and "fmlookup (ds_events t) k \<noteq> None"
      by (auto simp: range_entity fmlookup_dom_iff)
    then have "0 < unat (snd k) \<and> unat (snd k) \<le> unat (eh_last_sequence h)"
      using log [of "snd k"] by (cases k) simp
    then show "k \<in> ?R"
      using \<open>fst k = e\<close> by (cases k) (auto intro!: image_eqI [of _ _ "unat (snd k)"])
  next
    fix k assume "k \<in> ?R"
    then obtain n where n: "1 \<le> n" "n \<le> unat (eh_last_sequence h)" "k = (e, of_nat n)" by auto
    then have "unat (of_nat n :: u64) = n"
      using unat_u64_less [of "eh_last_sequence h"] by (intro unat_of_nat_eq) simp
    with n log [of "of_nat n"] show "k \<in> ?L"
      by (auto simp: range_entity fmlookup_dom_iff)
  qed
  moreover have "inj_on (\<lambda>n. (e, of_nat n :: u64)) {1..unat (eh_last_sequence h)}"
  proof (rule inj_onI)
    fix m n assume m: "m \<in> {1..unat (eh_last_sequence h)}" and n: "n \<in> {1..unat (eh_last_sequence h)}"
      and eq: "(e, of_nat m :: u64) = (e, of_nat n)"
    have "unat (of_nat k :: u64) = k" if "k \<in> {1..unat (eh_last_sequence h)}" for k
      using that unat_u64_less [of "eh_last_sequence h"] by (intro unat_of_nat_eq) simp
    from this [OF m] this [OF n] eq show "m = n" by (metis prod.inject)
  qed
  ultimately have "event_count t e = card {1..unat (eh_last_sequence h)}"
    unfolding event_count_def fcard.rep_eq by (simp only: card_image)
  then have "event_count t e = unat (eh_last_sequence h)" by simp
  moreover have "unat (eh_revision h) = fcard (entity_commands t e)"
    using inv h' by (simp add: durable_inv_def commands_inv_def)
  ultimately show ?thesis using log by (simp add: entity_commands_def)
qed

lemma bootstrap_outbox: "bootstrap s e g d = (s', res) \<Longrightarrow> ds_outbox s' = ds_outbox s"
  by (erule bootstrap_cases) simp_all

lemma takeover_outbox: "persist_takeover s e g = (s', res) \<Longrightarrow> ds_outbox s' = ds_outbox s"
  by (erule persist_takeover_cases) simp_all

text \<open>
  C16: Every operation refines the life cycle of outbox records: no record disappears, records
  never change their identity, entity, command, kind or payload, and each record either
  stays or makes one step of the abstract machine (leased, applied, retried, buried).
\<close>

theorem outbox_refines_lifecycle:
  assumes inv: "durable_inv s" and r: "outbox s i = Some r"
  shows "\<exists>r'. outbox (persist_step x s) i = Some r' \<and> (r' = r \<or> outbox_step r r') \<and>
    or_id r' = or_id r \<and> or_entity r' = or_entity r \<and> or_command r' = or_command r \<and>
    or_kind r' = or_kind r \<and> or_payload r' = or_payload r"
proof -
  have moved: "\<exists>r'. outbox s' i = Some r' \<and> (r' = r \<or> outbox_step r r')"
    if "record_moves s j s'" for j s'
    using that r by (auto simp: record_moves_def outbox_def)
  have "\<exists>r'. outbox (persist_step x s) i = Some r' \<and> (r' = r \<or> outbox_step r r')"
  proof (cases x)
    case (OpBootstrap e g d)
    have "ds_outbox (fst (bootstrap s e g d)) = ds_outbox s"
      by (rule bootstrap_outbox [OF surjective_pairing])
    with OpBootstrap r show ?thesis by (simp add: outbox_def)
  next
    case (OpTakeover e g)
    have "ds_outbox (fst (persist_takeover s e g)) = ds_outbox s"
      by (rule takeover_outbox [OF surjective_pairing])
    with OpTakeover r show ?thesis by (simp add: outbox_def)
  next
    case (OpCommit p)
    have "outbox (fst (persist_commit s p)) i = Some r"
      using persist_commit_keeps_records [OF surjective_pairing] r by (simp add: outbox_def)
    with OpCommit show ?thesis by simp
  qed (simp_all add: worker_moves [THEN moved])
  then show ?thesis using outbox_step_frame by blast
qed

text \<open>
  The counters of outbox records are bounded: in every reachable state a record was
  retried at most 32 times and leased at most 33 times, so leasing it never fails on a
  counter overflow.
\<close>

theorem outbox_attempts_bounded:
  assumes t: "t = fold persist_step xs durable_default" and r: "outbox t i = Some r"
  shows "unat (or_attempt r) \<le> 32 \<and> unat (or_lease_generation r) \<le> 33 \<and>
    snd (lease t i w) \<noteq> Inl pers_overflow"
proof -
  have "durable_inv t" using durable.run_inv [OF durable_default_inv] t by simp
  then have rec: "record_inv r"
    using r unfolding durable_inv_def outbox_inv_def outbox_def by blast
  then have bounds: "unat (or_attempt r) \<le> 32" "unat (or_lease_generation r) \<le> 33"
    by (auto simp: record_inv_def split: OutboxState.splits)
  then have "or_lease_generation r \<noteq> - 1"
    by (auto simp: unat_max_word)
  then have "checked_add (or_lease_generation r) 1 \<noteq> None" by (simp add: checked_add_one_None)
  then have "snd (lease t i w) \<noteq> Inl pers_overflow"
    using r by (auto simp: lease_def outbox_def nonzero_def pers_overflow_def pers_invalid_def
      put_record_def)
  with bounds show ?thesis by simp
qed

text \<open>A lease generation that was given up is never leased again.\<close>

definition released :: "u64 \<Rightarrow> OutboxRecord \<Rightarrow> bool" where
  "released g r \<longleftrightarrow> unat g \<le> unat (or_lease_generation r) \<and> (\<forall>w. or_state r \<noteq> Leased w g)"

lemma outbox_step_released: "outbox_step r r' \<Longrightarrow> released g r \<Longrightarrow> released g r'"
  by (erule outbox_stepE) (auto simp: released_def)

lemma outbox_steps_released: "outbox_step\<^sup>*\<^sup>* r r' \<Longrightarrow> released g r \<Longrightarrow> released g r'"
  by (induction rule: rtranclp_induct) (auto intro: outbox_step_released)

lemma released_fenced:
  assumes "fmlookup (ds_outbox t) i = Some r" and "released g r"
  shows "fst (apply_intent t i w g d) = t" and "\<exists>e. retry t i w g = (t, Inl e)"
    and "\<exists>e. dead_letter t i w g d = (t, Inl e)"
proof -
  have fence: "lease_fence r w g \<noteq> Inr ()"
    using assms(2) by (auto simp: released_def)
  then obtain e where e: "lease_fence r w g = Inl e" by (cases "lease_fence r w g") auto
  show "fst (apply_intent t i w g d) = t"
    by (cases "or_state r") (simp_all add: apply_intent_def assms(1) e)
  show "\<exists>e. retry t i w g = (t, Inl e)" by (simp add: retry_def assms(1) e)
  show "\<exists>e. dead_letter t i w g d = (t, Inl e)" by (simp add: dead_letter_def assms(1) e)
qed

text \<open>
  Stale workers are fenced: once a lease was given back by \<open>retry\<close>, its generation stays
  invalid for good. In every later state neither \<open>apply\<close>, \<open>retry\<close> nor \<open>dead_letter\<close> with that
  generation changes anything, whoever presents it.
\<close>

theorem outbox_stale_lease_fenced:
  assumes inv: "durable_inv s" and ret: "retry s i w g = (s', Inr r)"
    and t: "t = fold persist_step xs s'"
  shows "fst (apply_intent t i w' g d) = t \<and> (\<exists>e. retry t i w' g = (t, Inl e)) \<and>
    (\<exists>e. dead_letter t i w' g d = (t, Inl e))"
proof -
  obtain r0 where r0: "fmlookup (ds_outbox s) i = Some r0" "or_state r0 = Leased w g"
    and r: "or_lease_generation r = or_lease_generation r0" "\<And>w. or_state r \<noteq> Leased w g"
    and s': "s' = s\<lparr>ds_outbox := fmupd i r (ds_outbox s)\<rparr>"
    using ret by (auto simp: retry_Inr_iff)
  have "record_inv r0"
    using inv r0(1) unfolding durable_inv_def outbox_inv_def by blast
  then have "released g r" using r0(2) r by (simp add: record_inv_def released_def)
  have inv': "durable_inv s'"
    using record_moves_inv [OF inv retry_moves [OF ret]] .
  have "fmlookup (ds_outbox s') i = Some r" by (simp add: s')
  then obtain r' where "fmlookup (ds_outbox t) i = Some r'" "outbox_step\<^sup>*\<^sup>* r r'"
    using durable.run_below [OF inv', of xs] unfolding durable_below_def t by blast
  with \<open>released g r\<close> show ?thesis
    by (intro conjI) (blast intro: outbox_steps_released released_fenced)+
qed

text \<open>
  Applied is final and idempotent: after \<open>apply\<close> succeeded, in every later state the
  record is unchanged, applying the same receipt again succeeds without a change whatever
  lease is presented, another receipt is reported as a mismatch, and the record can not be
  leased again.
\<close>

theorem outbox_applied_final:
  assumes inv: "durable_inv s" and app: "apply_intent s i w g d = (s', Inr r)"
    and t: "t = fold persist_step xs s'"
  shows "outbox t i = Some r \<and> apply_intent t i w' g' d = (t, Inr r) \<and>
    (d' \<noteq> 0 \<and> d' \<noteq> d \<longrightarrow> apply_intent t i w' g' d' =
       (t, Inl (domain_error DataLoss ''outbox_receipt_mismatch'' Never))) \<and>
    (\<exists>e. lease t i w' = (t, Inl e))"
proof -
  have r: "fmlookup (ds_outbox s') i = Some r" "or_state r = Applied d" and "d \<noteq> 0"
    using app by (auto simp: apply_Inr_iff)
  have final: "r' = r" if "outbox_step\<^sup>*\<^sup>* r r'" for r'
    using that
  proof (induction rule: rtranclp_induct)
    case (step y z)
    then show ?case using r(2) by (auto elim: outbox_stepE)
  qed simp
  have inv': "durable_inv s'"
    using record_moves_inv [OF inv apply_moves [OF app]] .
  then obtain r' where "fmlookup (ds_outbox t) i = Some r'" "outbox_step\<^sup>*\<^sup>* r r'"
    using durable.run_below [OF inv', of xs] r(1) unfolding durable_below_def t by blast
  with final have tr: "fmlookup (ds_outbox t) i = Some r" by blast
  have "\<exists>e. lease t i w' = (t, Inl e)"
    by (cases "w' = 0") (simp_all add: lease_def nonzero_def tr r(2))
  then show ?thesis
    using tr r(2) \<open>d \<noteq> 0\<close> by (simp add: outbox_def apply_intent_def)
qed

subsection \<open>Failing deliveries end\<close>

text \<open>A worker that leases the intent, fails to deliver it and gives it back.\<close>

definition fail_once :: "id16 \<Rightarrow> id16 \<Rightarrow> DurableState \<Rightarrow> DurableState" where
  "fail_once i w s = (case lease s i w of
       (s1, Inl e) \<Rightarrow> s1
     | (s1, Inr r) \<Rightarrow> fst (retry s1 i w (or_lease_generation r)))"

lemma fail_once_pending:
  assumes "fmlookup (ds_outbox s) i = Some r" and "or_state r = Pending" and "w \<noteq> 0"
    and "unat (or_lease_generation r) < 2 ^ 64 - 1"
  obtains r' where "fmlookup (ds_outbox (fail_once i w s)) i = Some r'"
    and "unat (or_lease_generation r') = Suc (unat (or_lease_generation r))"
    and "32 \<le> unat (or_attempt r) \<longrightarrow> or_attempt r' = or_attempt r \<and>
      or_state r' = DeadLetter OUTBOX_ATTEMPT_LIMIT_REASON"
    and "unat (or_attempt r) < 32 \<longrightarrow>
      unat (or_attempt r') = Suc (unat (or_attempt r)) \<and> or_state r' = Pending"
proof -
  obtain g where g: "checked_add (or_lease_generation r) 1 = Some g"
    using assms(4) by (simp add: checked_add_def)
  then have ug: "unat g = Suc (unat (or_lease_generation r))" by (simp add: checked_simps)
  let ?l = "r\<lparr>or_lease_generation := g, or_state := Leased w g\<rparr>"
  let ?s1 = "s\<lparr>ds_outbox := fmupd i ?l (ds_outbox s)\<rparr>"
  have leased: "lease s i w = (?s1, Inr ?l)"
    using assms by (simp add: lease_def nonzero_def put_record_def g)
  have once: "fail_once i w s = fst (retry ?s1 i w g)"
    by (simp add: fail_once_def leased)
  show thesis
  proof (cases "32 \<le> unat (or_attempt r)")
    case True
    let ?r = "?l\<lparr>or_state := DeadLetter OUTBOX_ATTEMPT_LIMIT_REASON\<rparr>"
    have "retry ?s1 i w g = (?s1\<lparr>ds_outbox := fmupd i ?r (ds_outbox ?s1)\<rparr>, Inr ?r)"
      using True by (simp add: retry_Inr_iff)
    then show ?thesis using that [of ?r] True ug by (simp add: once)
  next
    case False
    then obtain a where a: "checked_add (or_attempt r) 1 = Some a"
      by (simp add: checked_add_def)
    then have ua: "unat a = Suc (unat (or_attempt r))" by (simp add: checked_simps)
    let ?r = "?l\<lparr>or_attempt := a, or_state := Pending\<rparr>"
    have "retry ?s1 i w g = (?s1\<lparr>ds_outbox := fmupd i ?r (ds_outbox ?s1)\<rparr>, Inr ?r)"
      using a False
      by (simp add: retry_def put_record_def MAX_ATTEMPTS_le_iff lease_fence_def)
    then show ?thesis using that [of ?r] False ug ua by (simp add: once)
  qed
qed

lemma fail_pending_cycles:
  assumes "fmlookup (ds_outbox s) i = Some r" and "or_state r = Pending" and "w \<noteq> 0"
    and "unat (or_lease_generation r) = unat (or_attempt r)"
    and "unat (or_attempt r) + n \<le> 32"
  shows "\<exists>r'. fmlookup (ds_outbox ((fail_once i w ^^ n) s)) i = Some r' \<and>
    or_state r' = Pending \<and> unat (or_attempt r') = unat (or_attempt r) + n \<and>
    unat (or_lease_generation r') = unat (or_attempt r')"
  using assms(5)
proof (induction n)
  case 0
  with assms show ?case by simp
next
  case (Suc n)
  then obtain r' where r': "fmlookup (ds_outbox ((fail_once i w ^^ n) s)) i = Some r'"
    "or_state r' = Pending" "unat (or_attempt r') = unat (or_attempt r) + n"
    "unat (or_lease_generation r') = unat (or_attempt r')"
    by auto
  have "unat (or_lease_generation r') < 2 ^ 64 - 1" using r'(3,4) Suc.prems by simp
  from fail_once_pending [OF r'(1,2) assms(3) this] obtain r''
    where "fmlookup (ds_outbox (fail_once i w ((fail_once i w ^^ n) s))) i = Some r''"
      "unat (or_lease_generation r'') = Suc (unat (or_lease_generation r'))"
      "unat (or_attempt r') < 32 \<longrightarrow>
        unat (or_attempt r'') = Suc (unat (or_attempt r')) \<and> or_state r'' = Pending"
    by metis
  with r' Suc.prems show ?case by simp
qed

text \<open>
  Delivery ends: a pending intent that every worker fails to deliver is back in
  \<open>Pending\<close> after each failure until its attempts are used up, and the failure after
  attempt 32 moves it to the dead letters with the fixed attempt-limit reason.
\<close>

theorem outbox_failures_end:
  assumes inv: "durable_inv s" and r: "outbox s i = Some r" and "or_state r = Pending"
    and "w \<noteq> 0"
  shows "(\<forall>n \<le> 32 - unat (or_attempt r). \<exists>r'. outbox ((fail_once i w ^^ n) s) i = Some r' \<and>
      or_state r' = Pending \<and> unat (or_attempt r') = unat (or_attempt r) + n) \<and>
    (\<exists>r'. outbox ((fail_once i w ^^ (33 - unat (or_attempt r))) s) i = Some r' \<and>
      or_state r' = DeadLetter OUTBOX_ATTEMPT_LIMIT_REASON)"
proof -
  have r': "fmlookup (ds_outbox s) i = Some r" using r by (simp add: outbox_def)
  with inv have "record_inv r" unfolding durable_inv_def outbox_inv_def by blast
  with assms(3) have att: "unat (or_attempt r) \<le> 32"
    and gen: "unat (or_lease_generation r) = unat (or_attempt r)"
    by (simp_all add: record_inv_def)
  have cycles: "\<exists>r'. fmlookup (ds_outbox ((fail_once i w ^^ n) s)) i = Some r' \<and>
      or_state r' = Pending \<and> unat (or_attempt r') = unat (or_attempt r) + n \<and>
      unat (or_lease_generation r') = unat (or_attempt r')"
    if "n \<le> 32 - unat (or_attempt r)" for n
    using fail_pending_cycles [OF r' assms(3,4) gen, of n] that att by simp
  from cycles [of "32 - unat (or_attempt r)"] att obtain q
    where q: "fmlookup (ds_outbox ((fail_once i w ^^ (32 - unat (or_attempt r))) s)) i = Some q"
      "or_state q = Pending" "unat (or_attempt q) = 32" "unat (or_lease_generation q) = 32"
    by auto
  have "unat (or_lease_generation q) < 2 ^ 64 - 1" using q(4) by simp
  from fail_once_pending [OF q(1,2) assms(4) this] obtain q' where
    "fmlookup (ds_outbox (fail_once i w ((fail_once i w ^^ (32 - unat (or_attempt r))) s))) i
       = Some q'" "or_state q' = DeadLetter OUTBOX_ATTEMPT_LIMIT_REASON"
    using q(3) by (metis order_refl)
  moreover have "33 - unat (or_attempt r) = Suc (32 - unat (or_attempt r))" using att by simp
  ultimately have "\<exists>r'. outbox ((fail_once i w ^^ (33 - unat (or_attempt r))) s) i = Some r' \<and>
      or_state r' = DeadLetter OUTBOX_ATTEMPT_LIMIT_REASON"
    by (simp add: outbox_def)
  with cycles show ?thesis unfolding outbox_def by blast
qed

subsection \<open>Witnesses\<close>

definition wit_intent :: CommandIntent where
  "wit_intent = \<lparr>ci_entity = 1, ci_command = 2, ci_fingerprint = 3, ci_expected_revision = 0,
     ci_authority_generation = 1, ci_next_state = 5,
     ci_events = [\<lparr>ei_id = 6, ei_payload = 7\<rparr>, \<lparr>ei_id = 8, ei_payload = 9\<rparr>],
     ci_outbox = [\<lparr>oi_id = 10, oi_kind = Broadcast, oi_payload = 11\<rparr>]\<rparr>"

definition wit_prepared :: PreparedCommit where
  "wit_prepared = \<lparr>pr_intent = wit_intent, pr_next_revision = 1, pr_first_sequence = Some 1,
     pr_last_sequence = 2\<rparr>"

text \<open>Bootstrapped; committed; leased by worker 4.\<close>

definition wit_s0 :: DurableState where
  "wit_s0 = fold persist_step [OpBootstrap 1 1 4] durable_default"

definition wit_s1 :: DurableState where
  "wit_s1 = fold persist_step [OpBootstrap 1 1 4, OpCommit wit_prepared] durable_default"

definition wit_s2 :: DurableState where
  "wit_s2 = fold persist_step [OpBootstrap 1 1 4, OpCommit wit_prepared, OpLease 10 4]
     durable_default"

lemma wit_inv: "durable_inv wit_s0" "durable_inv wit_s1" "durable_inv wit_s2"
  unfolding wit_s0_def wit_s1_def wit_s2_def
  by (rule durable.run_inv [OF durable_default_inv])+

lemma wit_s0_eval: "ds_entities wit_s0 = fmupd 1 \<lparr>eh_revision = 0, eh_last_sequence = 0,
    eh_authority_generation = 1, eh_state = 4\<rparr> fmempty"
  "ds_commands wit_s0 = fmempty" "ds_events wit_s0 = fmempty" "ds_outbox wit_s0 = fmempty"
  by (simp_all add: wit_s0_def bootstrap_def nonzero_def durable_default_def Let_def)

lemma wit_prepare_persist: "persist_prepare wit_s0 wit_intent = Inr (Prepared wit_prepared)"
  by (simp add: persist_prepare_def validate_intent_def nonzero_def wit_intent_def
    MAX_EVENTS_def MAX_INTENTS_def validate_event_def validate_outbox_item_def wit_s0_eval
    fence_def checked_add_def wit_prepared_def)

theorem persist_prepare_commit_witness:
  "\<exists>s' r. persist_commit wit_s0 wit_prepared = (s', Inr r) \<and>
     outbox s' 10 = Some (new_outbox_record 1 2 \<lparr>oi_id = 10, oi_kind = Broadcast, oi_payload = 11\<rparr>)"
  using persist_prepare_commit [OF wit_inv(1) wit_prepare_persist]
  by (auto simp: wit_intent_def)

theorem persist_exactly_once_witness:
  "\<exists>s' r. persist_commit wit_s0 wit_prepared = (s', Inr r) \<and>
     persist_prepare (fold persist_step [OpTakeover 1 1] s') wit_intent = Inr (Duplicate r)"
proof -
  obtain s' r where c: "persist_commit wit_s0 wit_prepared = (s', Inr r)"
    using prepared_commit_succeeds [OF wit_inv(1) wit_prepare_persist] by blast
  with persist_exactly_once [OF wit_inv(1) wit_prepare_persist c refl, of "[OpTakeover 1 1]"]
  show ?thesis by blast
qed

lemma wit_s1_eval:
  "ds_outbox wit_s1 = fmupd 10 (new_outbox_record 1 2
     \<lparr>oi_id = 10, oi_kind = Broadcast, oi_payload = 11\<rparr>) fmempty"
  "ds_entities wit_s1 = fmupd 1 \<lparr>eh_revision = 1, eh_last_sequence = 2,
     eh_authority_generation = 1, eh_state = 5\<rparr> (ds_entities wit_s0)"
proof -
  have s1: "wit_s1 = fst (persist_commit wit_s0 wit_prepared)"
    by (simp add: wit_s1_def wit_s0_def)
  show "ds_outbox wit_s1 = fmupd 10 (new_outbox_record 1 2
      \<lparr>oi_id = 10, oi_kind = Broadcast, oi_payload = 11\<rparr>) fmempty"
    "ds_entities wit_s1 = fmupd 1 \<lparr>eh_revision = 1, eh_last_sequence = 2,
      eh_authority_generation = 1, eh_state = 5\<rparr> (ds_entities wit_s0)"
    by (simp_all add: s1 persist_commit_def wit_s0_eval wit_prepared_def wit_intent_def fence_def
      checked_add_def insert_event_def insert_outbox_def Let_def)
qed

theorem persist_log_contiguous_witness: "event_count wit_s1 1 = 2"
proof -
  have "head wit_s1 1 = Some \<lparr>eh_revision = 1, eh_last_sequence = 2,
      eh_authority_generation = 1, eh_state = 5\<rparr>"
    by (simp add: head_def wit_s1_eval)
  from persist_log_contiguous [OF wit_s1_def this] show ?thesis by simp
qed

lemma wit_s1_pending: "outbox wit_s1 10 = Some (new_outbox_record 1 2
    \<lparr>oi_id = 10, oi_kind = Broadcast, oi_payload = 11\<rparr>)"
  by (simp add: outbox_def wit_s1_eval)

theorem outbox_refines_lifecycle_witness:
  "\<exists>r'. outbox (persist_step (OpLease 10 4) wit_s1) 10 = Some r' \<and> or_command r' = 2"
  using outbox_refines_lifecycle [OF wit_inv(2) wit_s1_pending, of "OpLease 10 4"] by auto

theorem outbox_attempts_bounded_witness: "snd (lease wit_s1 10 4) \<noteq> Inl pers_overflow"
  using outbox_attempts_bounded [OF wit_s1_def wit_s1_pending] by blast

lemma wit_s2_leased:
  "fmlookup (ds_outbox wit_s2) 10 = Some ((new_outbox_record 1 2
     \<lparr>oi_id = 10, oi_kind = Broadcast, oi_payload = 11\<rparr>)
       \<lparr>or_lease_generation := 1, or_state := Leased 4 1\<rparr>)"
proof -
  have s2: "wit_s2 = fst (lease wit_s1 10 4)" by (simp add: wit_s2_def wit_s1_def)
  show ?thesis
    by (simp add: s2 lease_def nonzero_def wit_s1_eval put_record_def checked_add_def)
qed

theorem outbox_stale_lease_fenced_witness:
  "\<exists>s' r. retry wit_s2 10 4 1 = (s', Inr r) \<and>
     fst (apply_intent (fold persist_step [OpLease 10 4] s') 10 4 1 9) =
       fold persist_step [OpLease 10 4] s'"
proof -
  obtain s' r where r: "retry wit_s2 10 4 1 = (s', Inr r)"
    by (simp add: retry_def wit_s2_leased put_record_def MAX_ATTEMPTS_def checked_add_def)
  with outbox_stale_lease_fenced [OF wit_inv(3) r refl] show ?thesis by blast
qed

theorem outbox_applied_final_witness:
  "\<exists>s' r. apply_intent wit_s2 10 4 1 9 = (s', Inr r) \<and>
     apply_intent (fold persist_step [OpRetry 10 4 1] s') 10 7 7 9 =
       (fold persist_step [OpRetry 10 4 1] s', Inr r)"
proof -
  obtain s' r where r: "apply_intent wit_s2 10 4 1 9 = (s', Inr r)"
    by (simp add: apply_intent_def wit_s2_leased put_record_def lease_fence_def)
  with outbox_applied_final [OF wit_inv(3) r refl] show ?thesis by blast
qed

theorem outbox_failures_end_witness:
  "\<exists>r'. outbox ((fail_once 10 4 ^^ 33) wit_s1) 10 = Some r' \<and>
     or_state r' = DeadLetter OUTBOX_ATTEMPT_LIMIT_REASON"
  using outbox_failures_end [OF wit_inv(2) wit_s1_pending, of 4] by simp

end
