(* ===== verification/Rust_Text.thy ===== *)
theory Rust_Text
  imports Prelude
begin

text \<open>
  Rust text as the domain crates use it. A \<open>char\<close> is a Unicode scalar value, a \<open>String\<close> is
  the list of its scalar values; \<open>str::len\<close> is the number of bytes of the UTF-8 form. The
  classifications are those of the standard library: \<open>char::is_control\<close> is the general
  category Cc and \<open>char::is_whitespace\<close> the property White_Space, both of which Unicode
  keeps fixed.
\<close>

type_synonym rchar = u32
type_synonym rstring = "rchar list"

definition char_len_utf8 :: "rchar \<Rightarrow> usize" where
  "char_len_utf8 c = (if c < 0x80 then 1 else if c < 0x800 then 2 else if c < 0x10000 then 3 else 4)"

definition str_len :: "rstring \<Rightarrow> usize" where
  "str_len s = sum_list (map char_len_utf8 s)"

definition char_is_control :: "rchar \<Rightarrow> bool" where
  "char_is_control c \<longleftrightarrow> c < 0x20 \<or> 0x7F \<le> c \<and> c < 0xA0"

definition char_is_whitespace :: "rchar \<Rightarrow> bool" where
  "char_is_whitespace c \<longleftrightarrow>
     0x09 \<le> c \<and> c \<le> 0x0D \<or> c = 0x20 \<or> c = 0x85 \<or> c = 0xA0 \<or> c = 0x1680 \<or>
     0x2000 \<le> c \<and> c \<le> 0x200A \<or> c = 0x2028 \<or> c = 0x2029 \<or> c = 0x202F \<or> c = 0x205F \<or>
     c = 0x3000"

definition str_trim :: "rstring \<Rightarrow> rstring" where
  "str_trim s = rev (dropWhile char_is_whitespace (rev (dropWhile char_is_whitespace s)))"

text \<open>A byte string literal \<open>b"..."\<close>, and \<open>u8::is_ascii_digit\<close>, \<open>u8::is_ascii_lowercase\<close>.\<close>

definition bytes_of :: "string \<Rightarrow> u8 list" where
  "bytes_of s = map of_char s"

definition is_ascii_digit :: "'a::len word \<Rightarrow> bool" where
  "is_ascii_digit c \<longleftrightarrow> 48 \<le> c \<and> c \<le> 57"

definition is_ascii_lowercase :: "'a::len word \<Rightarrow> bool" where
  "is_ascii_lowercase c \<longleftrightarrow> 97 \<le> c \<and> c \<le> 122"

definition is_ascii_uppercase :: "'a::len word \<Rightarrow> bool" where
  "is_ascii_uppercase c \<longleftrightarrow> 65 \<le> c \<and> c \<le> 90"

definition is_ascii_alphanumeric :: "'a::len word \<Rightarrow> bool" where
  "is_ascii_alphanumeric c \<longleftrightarrow> is_ascii_uppercase c \<or> is_ascii_lowercase c \<or> is_ascii_digit c"

lemma char_len_pos [simp]: "0 < char_len_utf8 c"
  by (simp add: char_len_utf8_def)

lemma str_len_Nil [simp]: "str_len [] = 0"
  by (simp add: str_len_def)

lemma str_len_eq_0 [simp]: "str_len s = 0 \<longleftrightarrow> s = []"
  by (cases s) (simp_all add: str_len_def)

text \<open>A property of bytes holds if it evaluates to true on each of the 256.\<close>

lemma all_u8I:
  assumes "list_all P (map of_nat [0..<256])" shows "P (b :: u8)"
proof -
  have "b \<in> set (map of_nat [0..<256])"
    using unsigned_less [of b, where ?'a = nat] by (auto intro!: image_eqI [of _ _ "unat b"])
  with assms show ?thesis by (auto simp add: list_all_iff simp del: set_upt)
qed

text \<open>Bytes are equal when their eight bits are.\<close>

lemma u8_eqI:
  assumes "bit x 0 = bit y 0" "bit x 1 = bit y 1" "bit x 2 = bit y 2" "bit x 3 = bit y 3"
    "bit x 4 = bit y 4" "bit x 5 = bit y 5" "bit x 6 = bit y 6" "bit x 7 = bit y 7"
  shows "x = (y :: u8)"
proof (rule bit_word_eqI)
  fix n assume "n < LENGTH(8)"
  then have "n = 0 \<or> n = 1 \<or> n = 2 \<or> n = 3 \<or> n = 4 \<or> n = 5 \<or> n = 6 \<or> n = 7" by auto
  with assms show "bit x n = bit y n" by blast
qed

end
