(* ===== verification/Social_Types.thy ===== *)
theory Social_Types
  imports Rust_Text "HOL-Library.Product_Lexorder"
begin

text \<open>
  The data of \<open>crates/trnm-social-core\<close> (\<open>src/parts/00\<close> to \<open>08\<close> and \<open>18_helpers.rs\<close>): error
  values, bounded identifiers and payloads, configuration limits, relationships, groups,
  messages, notifications, receipts, outbox intents and the registry that holds them.
  A newtype is the type it wraps together with its constructor function, the only way the
  code builds one. \<open>UserPair\<close> and \<open>OutboxIntentId\<close> are keys of ordered collections and
  carry the derived lexicographic order.
\<close>

subsection \<open>Constants and errors\<close>

definition MAX_GROUP_NAME_BYTES :: usize where "MAX_GROUP_NAME_BYTES = 256"
definition MAX_MESSAGE_BYTES :: usize where "MAX_MESSAGE_BYTES = 16384"
definition MAX_NOTIFICATION_TEXT_BYTES :: usize where "MAX_NOTIFICATION_TEXT_BYTES = 16384"
definition MAX_PAGE_SIZE :: usize where "MAX_PAGE_SIZE = 1000"
definition HARD_MAX_USERS :: usize where "HARD_MAX_USERS = 1000000"
definition HARD_MAX_RELATIONSHIPS_PER_USER :: usize where
  "HARD_MAX_RELATIONSHIPS_PER_USER = 100000"
definition HARD_MAX_GROUPS :: usize where "HARD_MAX_GROUPS = 1000000"
definition HARD_MAX_GROUP_MEMBERS :: usize where "HARD_MAX_GROUP_MEMBERS = 100000"
definition HARD_MAX_MESSAGES_PER_GROUP :: usize where "HARD_MAX_MESSAGES_PER_GROUP = 1000000"
definition HARD_MAX_NOTIFICATIONS_PER_USER :: usize where
  "HARD_MAX_NOTIFICATIONS_PER_USER = 1000000"
definition HARD_MAX_RECEIPTS :: usize where "HARD_MAX_RECEIPTS = 4000000"
definition HARD_MAX_OUTBOX_INTENTS :: usize where "HARD_MAX_OUTBOX_INTENTS = 8000000"

datatype SocialErrorCode =
    InvalidArgument | NotFound | AlreadyExists | FailedPrecondition | PermissionDenied
  | ResourceExhausted | Conflict | OutOfRange | DataLoss

record SocialError =
  se_code :: SocialErrorCode
  se_reason :: string

definition social_error :: "SocialErrorCode \<Rightarrow> string \<Rightarrow> SocialError" where
  "social_error code reason = \<lparr>se_code = code, se_reason = reason\<rparr>"

definition social_invariant_error :: SocialError where
  "social_invariant_error = social_error DataLoss ''social_invariant_violation''"

lemma social_error_simps [simp]:
  "se_code (social_error c r) = c"
  "se_reason (social_error c r) = r"
  "social_error c r = social_error c' r' \<longleftrightarrow> c = c' \<and> r = r'"
  by (simp_all add: social_error_def)

lemma social_invariant_error_code [simp]: "se_code social_invariant_error = DataLoss"
  by (simp add: social_invariant_error_def)

text \<open>\<open>bounded_id!\<close>: the constructor of every identifier type rejects the zero array.\<close>

definition bounded_id_new :: "string \<Rightarrow> 'a::len word \<Rightarrow> SocialError + 'a word" where
  "bounded_id_new zero_reason bytes =
     (if list_all (\<lambda>b. b = 0) (to_be_bytes bytes)
      then Inl (social_error InvalidArgument zero_reason) else Inr bytes)"

subsection \<open>Payloads\<close>

type_synonym GroupName = rstring
type_synonym MessageBody = "u8 list"
type_synonym NotificationText = rstring

definition GroupName_new :: "rstring \<Rightarrow> SocialError + GroupName" where
  "GroupName_new v =
     (if v = [] \<or> MAX_GROUP_NAME_BYTES < str_len v \<or> str_trim v \<noteq> v \<or> list_ex char_is_control v
      then Inl (social_error InvalidArgument ''group_name_invalid'') else Inr v)"

definition MessageBody_new :: "u8 list \<Rightarrow> SocialError + MessageBody" where
  "MessageBody_new v =
     (if v = [] \<or> MAX_MESSAGE_BYTES < length v
      then Inl (social_error InvalidArgument ''message_body_invalid'') else Inr v)"

definition NotificationText_new :: "rstring \<Rightarrow> SocialError + NotificationText" where
  "NotificationText_new v =
     (if v = [] \<or> MAX_NOTIFICATION_TEXT_BYTES < str_len v \<or> list_ex char_is_control v
      then Inl (social_error InvalidArgument ''notification_text_invalid'') else Inr v)"

subsection \<open>Configuration\<close>

record SocialLimits =
  max_users :: usize
  max_relationships_per_user :: usize
  max_groups :: usize
  max_group_members :: usize
  max_messages_per_group :: usize
  max_message_bytes :: usize
  max_notifications_per_user :: usize
  max_notification_text_bytes :: usize
  max_receipts :: usize
  max_outbox_intents :: usize

definition SocialLimits_default :: SocialLimits where
  "SocialLimits_default = \<lparr>
     max_users = 100000, max_relationships_per_user = 10000, max_groups = 100000,
     max_group_members = 10000, max_messages_per_group = 100000, max_message_bytes = 4096,
     max_notifications_per_user = 100000, max_notification_text_bytes = 4096,
     max_receipts = 1000000, max_outbox_intents = 2000000\<rparr>"

record SocialConfig =
  sc_limits :: SocialLimits

definition validate_limit :: "usize \<Rightarrow> usize \<Rightarrow> string \<Rightarrow> SocialError + unit" where
  "validate_limit v maximum reason =
     (if v = 0 \<or> maximum < v then Inl (social_error InvalidArgument reason) else Inr ())"

definition SocialConfig_new :: "SocialLimits \<Rightarrow> SocialError + SocialConfig" where
  "SocialConfig_new l =
     tryE (validate_limit (max_users l) HARD_MAX_USERS ''user_capacity_invalid'') (\<lambda>_.
     tryE (validate_limit (max_relationships_per_user l) HARD_MAX_RELATIONSHIPS_PER_USER
             ''relationship_capacity_invalid'') (\<lambda>_.
     tryE (validate_limit (max_groups l) HARD_MAX_GROUPS ''group_capacity_invalid'') (\<lambda>_.
     tryE (validate_limit (max_group_members l) HARD_MAX_GROUP_MEMBERS
             ''group_member_capacity_invalid'') (\<lambda>_.
     tryE (validate_limit (max_messages_per_group l) HARD_MAX_MESSAGES_PER_GROUP
             ''message_capacity_invalid'') (\<lambda>_.
     tryE (validate_limit (max_message_bytes l) MAX_MESSAGE_BYTES
             ''message_byte_limit_invalid'') (\<lambda>_.
     tryE (validate_limit (max_notifications_per_user l) HARD_MAX_NOTIFICATIONS_PER_USER
             ''notification_capacity_invalid'') (\<lambda>_.
     tryE (validate_limit (max_notification_text_bytes l) MAX_NOTIFICATION_TEXT_BYTES
             ''notification_text_limit_invalid'') (\<lambda>_.
     tryE (validate_limit (max_receipts l) HARD_MAX_RECEIPTS
             ''receipt_capacity_invalid'') (\<lambda>_.
     tryE (validate_limit (max_outbox_intents l) HARD_MAX_OUTBOX_INTENTS
             ''outbox_capacity_invalid'') (\<lambda>_.
     Inr \<lparr>sc_limits = l\<rparr>))))))))))"

subsection \<open>Relationships\<close>

datatype RelationshipView =
    NoRelation | OutgoingRequest | IncomingRequest | Friends | BlockedBySelf
  | BlockedByOther | MutuallyBlocked

datatype UserPair = UserPair (pair_low: id16) (pair_high: id16)

instantiation UserPair :: linorder
begin

definition less_eq_UserPair :: "UserPair \<Rightarrow> UserPair \<Rightarrow> bool" where
  "less_eq_UserPair p q \<longleftrightarrow>
     (pair_low p, pair_high p) \<le> (pair_low q, pair_high q)"

definition less_UserPair :: "UserPair \<Rightarrow> UserPair \<Rightarrow> bool" where
  "less_UserPair p q \<longleftrightarrow> (pair_low p, pair_high p) < (pair_low q, pair_high q)"

instance
proof
  fix p q r :: UserPair
  show "p < q \<longleftrightarrow> p \<le> q \<and> \<not> q \<le> p"
    by (simp only: less_UserPair_def less_eq_UserPair_def less_le_not_le)
  show "p \<le> p" by (simp only: less_eq_UserPair_def order_refl)
  show "p \<le> q \<Longrightarrow> q \<le> r \<Longrightarrow> p \<le> r"
    unfolding less_eq_UserPair_def by (rule order_trans)
  show "p \<le> q \<Longrightarrow> q \<le> p \<Longrightarrow> p = q"
    unfolding less_eq_UserPair_def using order_antisym by (metis UserPair.expand Pair_inject)
  show "p \<le> q \<or> q \<le> p" by (simp only: less_eq_UserPair_def linear)
qed

end

definition UserPair_new :: "id16 \<Rightarrow> id16 \<Rightarrow> SocialError + UserPair" where
  "UserPair_new first second =
     (if first = second
      then Inl (social_error InvalidArgument ''self_relationship_forbidden'')
      else Inr (if first < second then UserPair first second else UserPair second first))"

definition pair_other :: "UserPair \<Rightarrow> id16 \<Rightarrow> id16 option" where
  "pair_other p account =
     (if account = pair_low p then Some (pair_high p)
      else if account = pair_high p then Some (pair_low p)
      else None)"

record FriendCursor =
  fc_owner :: id16
  fc_after :: id16

definition FriendCursor_new :: "id16 \<Rightarrow> id16 \<Rightarrow> SocialError + FriendCursor" where
  "FriendCursor_new owner after =
     tryE (UserPair_new owner after) (\<lambda>_. Inr \<lparr>fc_owner = owner, fc_after = after\<rparr>)"

record FriendPage =
  fp_items :: "id16 list"
  fp_next :: "FriendCursor option"

subsection \<open>Groups\<close>

datatype GroupJoinMode = OpenMode | AdminApproval | ClosedMode

datatype GroupRole = Superadmin | Admin | Member

fun role_rank :: "GroupRole \<Rightarrow> u8" where
  "role_rank Member = 1"
| "role_rank Admin = 2"
| "role_rank Superadmin = 3"

record CreateGroupRequest =
  cg_group :: id16
  cg_creator :: id16
  cg_name :: GroupName
  cg_join_mode :: GroupJoinMode
  cg_max_members :: usize

record GroupRecord =
  gr_id :: id16
  gr_name :: GroupName
  gr_join_mode :: GroupJoinMode
  gr_max_members :: usize
  gr_revision :: u64
  gr_members :: "(id16, GroupRole) fmap"
  gr_join_requests :: "id16 fset"
  gr_banned :: "id16 fset"
  gr_next_message_sequence :: u64

definition group_role :: "GroupRecord \<Rightarrow> id16 \<Rightarrow> GroupRole option" where
  "group_role g account = fmlookup (gr_members g) account"

definition group_member_count :: "GroupRecord \<Rightarrow> usize" where
  "group_member_count g = fmap_len (gr_members g)"

definition has_join_request :: "GroupRecord \<Rightarrow> id16 \<Rightarrow> bool" where
  "has_join_request g account \<longleftrightarrow> account |\<in>| gr_join_requests g"

definition is_banned :: "GroupRecord \<Rightarrow> id16 \<Rightarrow> bool" where
  "is_banned g account \<longleftrightarrow> account |\<in>| gr_banned g"

definition group_members :: "GroupRecord \<Rightarrow> (id16 \<times> GroupRole) list" where
  "group_members g = entries_in_order (gr_members g)"

subsection \<open>Messages\<close>

record SendGroupMessageRequest =
  sm_group :: id16
  sm_sender :: id16
  sm_message :: id16
  sm_body :: MessageBody

record ChatMessage =
  cm_id :: id16
  cm_group :: id16
  cm_sender :: id16
  cm_sequence :: u64
  cm_body :: MessageBody

record MessageCursor =
  mc_group :: id16
  mc_sequence :: u64

record MessagePage =
  mp_items :: "ChatMessage list"
  mp_next :: "MessageCursor option"

subsection \<open>Notifications\<close>

datatype NotificationKind =
    N_FriendRequest | N_FriendAccepted | N_GroupJoinRequested | N_GroupJoinAccepted
  | N_GroupRoleChanged | N_ChatMention | N_Custom u16

record CreateNotificationRequest =
  cn_sender :: "id16 option"
  cn_recipient :: id16
  cn_notification :: id16
  cn_kind :: NotificationKind
  cn_subject :: NotificationText
  cn_content :: NotificationText

record NotificationRecord =
  nr_id :: id16
  nr_sender :: "id16 option"
  nr_recipient :: id16
  nr_kind :: NotificationKind
  nr_subject :: NotificationText
  nr_content :: NotificationText
  nr_sequence :: u64
  nr_read :: bool

record NotificationCursor =
  nc_recipient :: id16
  nc_sequence :: u64

record NotificationPage =
  np_items :: "NotificationRecord list"
  np_next :: "NotificationCursor option"

subsection \<open>Receipts and outbox intents\<close>

datatype ReceiptOutcome =
    FriendRequestSent | FriendRequestAccepted | FriendRemoved | UserBlocked | UserUnblocked
  | GroupCreated | GroupJoined | GroupJoinRequested | GroupJoinApproved | GroupRoleChanged
  | GroupLeft | GroupMemberBanned | GroupMemberUnbanned | ChatMessageSent
  | NotificationCreated | NotificationMarkedRead | NotificationDeleted

record SocialReceipt =
  sr_command :: id16
  sr_fingerprint :: digest32
  sr_actor :: id16
  sr_revision :: u64
  sr_outcome :: ReceiptOutcome
  sr_outbox_count :: u16

datatype OutboxIntentId = OutboxIntentId (oid_command: id16) (oid_ordinal: u16)

instantiation OutboxIntentId :: linorder
begin

definition less_eq_OutboxIntentId :: "OutboxIntentId \<Rightarrow> OutboxIntentId \<Rightarrow> bool" where
  "less_eq_OutboxIntentId p q \<longleftrightarrow>
     (oid_command p, oid_ordinal p) \<le> (oid_command q, oid_ordinal q)"

definition less_OutboxIntentId :: "OutboxIntentId \<Rightarrow> OutboxIntentId \<Rightarrow> bool" where
  "less_OutboxIntentId p q \<longleftrightarrow>
     (oid_command p, oid_ordinal p) < (oid_command q, oid_ordinal q)"

instance
proof
  fix p q r :: OutboxIntentId
  show "p < q \<longleftrightarrow> p \<le> q \<and> \<not> q \<le> p"
    by (simp only: less_OutboxIntentId_def less_eq_OutboxIntentId_def less_le_not_le)
  show "p \<le> p" by (simp only: less_eq_OutboxIntentId_def order_refl)
  show "p \<le> q \<Longrightarrow> q \<le> r \<Longrightarrow> p \<le> r"
    unfolding less_eq_OutboxIntentId_def by (rule order_trans)
  show "p \<le> q \<Longrightarrow> q \<le> p \<Longrightarrow> p = q"
    unfolding less_eq_OutboxIntentId_def
    using order_antisym by (metis OutboxIntentId.expand Pair_inject)
  show "p \<le> q \<or> q \<le> p" by (simp only: less_eq_OutboxIntentId_def linear)
qed

end

datatype OutboxIntentKind =
    K_FriendRequest | K_FriendAccepted | K_GroupJoinRequested | K_GroupJoinAccepted
  | K_GroupRoleChanged | K_ChatMessage | K_NotificationDelivery

text \<open>
  The arguments are the fields of the source's variants, in their order:
  requester, target; accepter, requester; group, requester; group, actor, member; group,
  actor, member, role; group, message, sender, sequence, body; sender, recipient,
  notification, kind, subject, content, sequence.
\<close>

datatype OutboxIntentPayload =
    FriendRequest id16 id16
  | FriendAccepted id16 id16
  | GroupJoinRequest id16 id16
  | GroupJoinAccepted id16 id16 id16
  | GroupRoleChange id16 id16 id16 GroupRole
  | ChatMessageSend id16 id16 id16 u64 MessageBody
  | NotificationDelivery "id16 option" id16 id16 NotificationKind NotificationText
      NotificationText u64

fun payload_kind :: "OutboxIntentPayload \<Rightarrow> OutboxIntentKind" where
  "payload_kind (FriendRequest _ _) = K_FriendRequest"
| "payload_kind (FriendAccepted _ _) = K_FriendAccepted"
| "payload_kind (GroupJoinRequest _ _) = K_GroupJoinRequested"
| "payload_kind (GroupJoinAccepted _ _ _) = K_GroupJoinAccepted"
| "payload_kind (GroupRoleChange _ _ _ _) = K_GroupRoleChanged"
| "payload_kind (ChatMessageSend _ _ _ _ _) = K_ChatMessage"
| "payload_kind (NotificationDelivery _ _ _ _ _ _ _) = K_NotificationDelivery"

fun payload_recipient :: "OutboxIntentPayload \<Rightarrow> id16 option" where
  "payload_recipient (FriendRequest requester target) = Some target"
| "payload_recipient (FriendAccepted accepter requester) = Some requester"
| "payload_recipient (GroupJoinRequest _ _) = None"
| "payload_recipient (ChatMessageSend _ _ _ _ _) = None"
| "payload_recipient (GroupJoinAccepted _ actor member) = Some member"
| "payload_recipient (GroupRoleChange _ actor member role) = Some member"
| "payload_recipient (NotificationDelivery _ recipient _ _ _ _ _) = Some recipient"

fun matches_receipt :: "OutboxIntentPayload \<Rightarrow> SocialReceipt \<Rightarrow> bool" where
  "matches_receipt (FriendRequest requester _) r \<longleftrightarrow>
     sr_outcome r = FriendRequestSent \<and> sr_actor r = requester"
| "matches_receipt (FriendAccepted accepter _) r \<longleftrightarrow>
     sr_outcome r = FriendRequestAccepted \<and> sr_actor r = accepter"
| "matches_receipt (GroupJoinRequest _ requester) r \<longleftrightarrow>
     sr_outcome r = GroupJoinRequested \<and> sr_actor r = requester"
| "matches_receipt (GroupJoinAccepted _ actor member) r \<longleftrightarrow>
     sr_outcome r \<in> {GroupJoined, GroupJoinApproved} \<and> sr_actor r = actor \<and>
     (sr_outcome r \<noteq> GroupJoined \<or> actor = member)"
| "matches_receipt (GroupRoleChange _ actor _ _) r \<longleftrightarrow>
     sr_outcome r = GroupRoleChanged \<and> sr_actor r = actor"
| "matches_receipt (ChatMessageSend _ _ sender _ _) r \<longleftrightarrow>
     sr_outcome r = ChatMessageSent \<and> sr_actor r = sender"
| "matches_receipt (NotificationDelivery sender recipient _ _ _ _ _) r \<longleftrightarrow>
     sr_outcome r = NotificationCreated \<and>
     sr_actor r = (case sender of None \<Rightarrow> recipient | Some x \<Rightarrow> x)"

record OutboxIntent =
  oi_intent_id :: OutboxIntentId
  oi_intent_payload :: OutboxIntentPayload

record CommandCompletion =
  cc_command :: id16
  cc_fingerprint :: digest32
  cc_actor :: id16
  cc_revision :: u64
  cc_outcome :: ReceiptOutcome
  cc_intents :: "OutboxIntentPayload list"

subsection \<open>The registry\<close>

record SocialRegistry =
  s_config :: SocialConfig
  s_revision :: u64
  s_users :: "id16 fset"
  s_friendships :: "UserPair fset"
  s_friend_requests :: "(id16 \<times> id16) fset"
  s_blocks :: "(id16 \<times> id16) fset"
  s_groups :: "(id16, GroupRecord) fmap"
  s_messages :: "(id16, ChatMessage list) fmap"
  s_notifications :: "(id16, (id16, NotificationRecord) fmap) fmap"
  s_receipts :: "(id16, SocialReceipt) fmap"
  s_outbox :: "(OutboxIntentId, OutboxIntent) fmap"

abbreviation s_limits :: "SocialRegistry \<Rightarrow> SocialLimits" where
  "s_limits s \<equiv> sc_limits (s_config s)"

subsection \<open>Helpers\<close>

definition validate_page_limit :: "usize \<Rightarrow> SocialError + unit" where
  "validate_page_limit limit =
     (if limit = 0 \<or> MAX_PAGE_SIZE < limit
      then Inl (social_error InvalidArgument ''page_limit_invalid'') else Inr ())"

definition next_revision :: "u64 \<Rightarrow> string \<Rightarrow> SocialError + u64" where
  "next_revision v reason = ok_or (social_error OutOfRange reason) (checked_add v 1)"

definition require_group_role ::
    "GroupRecord \<Rightarrow> id16 \<Rightarrow> GroupRole \<Rightarrow> SocialError + GroupRole" where
  "require_group_role g actor minimum =
     tryE (ok_or (social_error PermissionDenied ''group_actor_not_member'')
            (fmlookup (gr_members g) actor)) (\<lambda>role.
     if role_rank role < role_rank minimum
     then Inl (social_error PermissionDenied ''group_role_insufficient'')
     else Inr role)"

definition superadmin_count :: "GroupRecord \<Rightarrow> usize" where
  "superadmin_count g =
     length (filter (\<lambda>(_, role). role = Superadmin) (entries_in_order (gr_members g)))"

end
