(* ===== verification/Social_Registry.thy ===== *)
theory Social_Registry
  imports Social_Types
begin

text \<open>
  The operations of \<open>SocialRegistry\<close> (\<open>crates/trnm-social-core/src/parts/10\<close> to \<open>17\<close>), in the
  order of the source. A command first asks \<open>existing_receipt\<close> whether it was executed
  before, then runs its guards on \<open>self\<close>, builds a candidate copy, and finishes with
  \<open>finish_command\<close>, which records the receipt and the outbox intents and validates the whole
  candidate; only then is the candidate written back. \<open>with_receipt\<close> and \<open>commit_candidate\<close>
  are these two frames, so a failing command returns the registry it was given.
\<close>

subsection \<open>Registry, users\<close>

definition social_new :: "SocialConfig \<Rightarrow> SocialRegistry" where
  "social_new config = \<lparr>
     s_config = config, s_revision = 0, s_users = {||}, s_friendships = {||},
     s_friend_requests = {||}, s_blocks = {||}, s_groups = fmempty, s_messages = fmempty,
     s_notifications = fmempty, s_receipts = fmempty, s_outbox = fmempty\<rparr>"

definition ensure_known_user :: "SocialRegistry \<Rightarrow> id16 \<Rightarrow> SocialError + unit" where
  "ensure_known_user s account =
     (if account |\<notin>| s_users s then Inl (social_error NotFound ''social_user_not_registered'')
      else Inr ())"

definition relationship_peers :: "SocialRegistry \<Rightarrow> id16 \<Rightarrow> id16 fset" where
  "relationship_peers s account =
     (let directed = \<lambda>(from, to) peers.
            if from = account then finsert to peers
            else if to = account then finsert from peers
            else peers;
          peers = fold (\<lambda>pair peers. case pair_other pair account of
                     Some other \<Rightarrow> finsert other peers | None \<Rightarrow> peers)
                   (sorted_list_of_fset (s_friendships s)) {||};
          peers = fold directed (sorted_list_of_fset (s_friend_requests s)) peers
      in fold directed (sorted_list_of_fset (s_blocks s)) peers)"

definition has_relationship_pair :: "SocialRegistry \<Rightarrow> id16 \<Rightarrow> id16 \<Rightarrow> bool" where
  "has_relationship_pair s first second \<longleftrightarrow>
     (let pair = if first < second then UserPair first second else UserPair second first
      in pair |\<in>| s_friendships s
         \<or> (first, second) |\<in>| s_friend_requests s
         \<or> (second, first) |\<in>| s_friend_requests s
         \<or> (first, second) |\<in>| s_blocks s
         \<or> (second, first) |\<in>| s_blocks s)"

definition ensure_relationship_capacity ::
    "SocialRegistry \<Rightarrow> id16 \<Rightarrow> id16 \<Rightarrow> SocialError + unit" where
  "ensure_relationship_capacity s first second =
     (if has_relationship_pair s first second then Inr ()
      else if max_relationships_per_user (s_limits s) \<le> fcard (relationship_peers s first)
            \<or> max_relationships_per_user (s_limits s) \<le> fcard (relationship_peers s second)
      then Inl (social_error ResourceExhausted ''relationship_capacity_exhausted'')
      else Inr ())"

subsection \<open>The runtime invariant check\<close>

abbreviation inv_err :: "SocialError + 'a" where
  "inv_err \<equiv> Inl social_invariant_error"

definition check_inv :: "bool \<Rightarrow> SocialError + unit" where
  "check_inv violated = (if violated then inv_err else Inr ())"

abbreviation known_or_inv :: "SocialRegistry \<Rightarrow> id16 \<Rightarrow> SocialError + unit" where
  "known_or_inv s account \<equiv> map_err (\<lambda>_. social_invariant_error) (ensure_known_user s account)"

fun validate_payload_refs ::
    "SocialRegistry \<Rightarrow> SocialReceipt \<Rightarrow> OutboxIntentPayload \<Rightarrow> SocialError + unit" where
  "validate_payload_refs s receipt (FriendRequest requester target) =
     tryE (known_or_inv s requester) (\<lambda>_.
     tryE (known_or_inv s target) (\<lambda>_.
     tryE (map_err (\<lambda>_. social_invariant_error) (UserPair_new requester target)) (\<lambda>_. Inr ())))"
| "validate_payload_refs s receipt (FriendAccepted accepter requester) =
     tryE (known_or_inv s accepter) (\<lambda>_.
     tryE (known_or_inv s requester) (\<lambda>_.
     tryE (map_err (\<lambda>_. social_invariant_error) (UserPair_new accepter requester)) (\<lambda>_. Inr ())))"
| "validate_payload_refs s receipt (GroupJoinRequest grp requester) =
     tryE (known_or_inv s requester) (\<lambda>_. check_inv (grp |\<notin>| fmdom (s_groups s)))"
| "validate_payload_refs s receipt (GroupJoinAccepted grp actor member) =
     tryE (known_or_inv s actor) (\<lambda>_.
     tryE (known_or_inv s member) (\<lambda>_. check_inv (grp |\<notin>| fmdom (s_groups s))))"
| "validate_payload_refs s receipt (GroupRoleChange grp actor member role) =
     tryE (known_or_inv s actor) (\<lambda>_.
     tryE (known_or_inv s member) (\<lambda>_. check_inv (grp |\<notin>| fmdom (s_groups s))))"
| "validate_payload_refs s receipt (ChatMessageSend grp message sender sequence body) =
     tryE (known_or_inv s sender) (\<lambda>_.
     tryE (check_inv (sequence = 0 \<or> body = [] \<or> max_message_bytes (s_limits s) < length body))
       (\<lambda>_.
     tryE (ok_or social_invariant_error
            (case fmlookup (s_messages s) grp of
               None \<Rightarrow> None
             | Some messages \<Rightarrow> find (\<lambda>item. cm_id item = message) messages)) (\<lambda>stored.
     check_inv (cm_group stored \<noteq> grp \<or> cm_sender stored \<noteq> sender
                \<or> cm_sequence stored \<noteq> sequence \<or> cm_body stored \<noteq> body))))"
| "validate_payload_refs s receipt
       (NotificationDelivery sender recipient notification kind subject content sequence) =
     tryE (known_or_inv s recipient) (\<lambda>_.
     tryE (case sender of Some sender \<Rightarrow> known_or_inv s sender | None \<Rightarrow> Inr ()) (\<lambda>_.
     check_inv (sequence \<noteq> sr_revision receipt \<or> subject = [] \<or> content = []
       \<or> max_notification_text_bytes (s_limits s) < str_len subject
       \<or> max_notification_text_bytes (s_limits s) < str_len content)))"

definition validate_outbox_payload ::
    "SocialRegistry \<Rightarrow> OutboxIntentPayload \<Rightarrow> SocialReceipt \<Rightarrow> SocialError + unit" where
  "validate_outbox_payload s payload receipt =
     (if \<not> matches_receipt payload receipt then inv_err
      else validate_payload_refs s receipt payload)"

definition validate_sizes :: "SocialRegistry \<Rightarrow> SocialError + unit" where
  "validate_sizes s = check_inv
     (max_users (s_limits s) < fcard (s_users s)
      \<or> max_groups (s_limits s) < fmap_len (s_groups s)
      \<or> max_receipts (s_limits s) < fmap_len (s_receipts s)
      \<or> max_outbox_intents (s_limits s) < fmap_len (s_outbox s))"

definition validate_friendship :: "SocialRegistry \<Rightarrow> UserPair \<Rightarrow> SocialError + unit" where
  "validate_friendship s pair = check_inv
     (pair_low pair |\<notin>| s_users s
      \<or> pair_high pair |\<notin>| s_users s
      \<or> (pair_low pair, pair_high pair) |\<in>| s_friend_requests s
      \<or> (pair_high pair, pair_low pair) |\<in>| s_friend_requests s
      \<or> (pair_low pair, pair_high pair) |\<in>| s_blocks s
      \<or> (pair_high pair, pair_low pair) |\<in>| s_blocks s)"

definition validate_friend_request ::
    "SocialRegistry \<Rightarrow> id16 \<times> id16 \<Rightarrow> SocialError + unit" where
  "validate_friend_request s = (\<lambda>(from, to).
     tryE (map_err (\<lambda>_. social_invariant_error) (UserPair_new from to)) (\<lambda>pair.
     check_inv (from |\<notin>| s_users s
      \<or> to |\<notin>| s_users s
      \<or> pair |\<in>| s_friendships s
      \<or> (from, to) |\<in>| s_blocks s
      \<or> (to, from) |\<in>| s_blocks s
      \<or> (to, from) |\<in>| s_friend_requests s)))"

definition validate_block :: "SocialRegistry \<Rightarrow> id16 \<times> id16 \<Rightarrow> SocialError + unit" where
  "validate_block s = (\<lambda>(from, to).
     tryE (map_err (\<lambda>_. social_invariant_error) (UserPair_new from to)) (\<lambda>pair.
     check_inv (from |\<notin>| s_users s
      \<or> to |\<notin>| s_users s
      \<or> pair |\<in>| s_friendships s
      \<or> (from, to) |\<in>| s_friend_requests s
      \<or> (to, from) |\<in>| s_friend_requests s)))"

definition validate_peers :: "SocialRegistry \<Rightarrow> id16 \<Rightarrow> SocialError + unit" where
  "validate_peers s account = check_inv
     (max_relationships_per_user (s_limits s) < fcard (relationship_peers s account))"

definition validate_message ::
    "SocialRegistry \<Rightarrow> id16 \<Rightarrow> ChatMessage \<Rightarrow> u64 \<times> id16 fset \<Rightarrow> SocialError + u64 \<times> id16 fset" where
  "validate_message s group_id message = (\<lambda>(expected_sequence, message_ids).
     if cm_group message \<noteq> group_id
        \<or> cm_sender message |\<notin>| s_users s
        \<or> cm_sequence message \<noteq> expected_sequence
        \<or> cm_body message = []
        \<or> max_message_bytes (s_limits s) < length (cm_body message)
        \<or> cm_id message |\<in>| message_ids
     then inv_err
     else tryE (next_revision expected_sequence ''message_sequence_overflow'') (\<lambda>next_sequence.
          Inr (next_sequence, finsert (cm_id message) message_ids)))"

definition validate_group_messages ::
    "SocialRegistry \<Rightarrow> id16 \<Rightarrow> GroupRecord \<Rightarrow> SocialError + unit" where
  "validate_group_messages s group_id g =
     tryE (ok_or social_invariant_error (fmlookup (s_messages s) group_id)) (\<lambda>messages.
     tryE (check_inv (max_messages_per_group (s_limits s) < length messages)) (\<lambda>_.
     tryE (foldE (validate_message s group_id) messages (1, {||})) (\<lambda>(expected_sequence, _).
     check_inv (gr_next_message_sequence g \<noteq> expected_sequence))))"

definition validate_group_fields ::
    "SocialRegistry \<Rightarrow> id16 \<Rightarrow> GroupRecord \<Rightarrow> SocialError + unit" where
  "validate_group_fields s group_id g = check_inv
     (gr_id g \<noteq> group_id
      \<or> gr_max_members g = 0
      \<or> max_group_members (s_limits s) < gr_max_members g
      \<or> fmap_len (gr_members g) = 0
      \<or> gr_max_members g < fmap_len (gr_members g)
      \<or> superadmin_count g = 0
      \<or> gr_next_message_sequence g = 0)"

definition validate_group :: "SocialRegistry \<Rightarrow> id16 \<times> GroupRecord \<Rightarrow> SocialError + unit" where
  "validate_group s = (\<lambda>(group_id, g).
     tryE (validate_group_fields s group_id g) (\<lambda>_.
     tryE (forE (\<lambda>account. check_inv
             (account |\<notin>| s_users s \<or> account |\<in>| gr_join_requests g \<or> account |\<in>| gr_banned g))
            (keys_in_order (gr_members g))) (\<lambda>_.
     tryE (forE (\<lambda>account. check_inv (account |\<notin>| s_users s \<or> account |\<in>| gr_banned g))
            (sorted_list_of_fset (gr_join_requests g))) (\<lambda>_.
     tryE (forE (\<lambda>account. check_inv (account |\<notin>| s_users s))
            (sorted_list_of_fset (gr_banned g))) (\<lambda>_.
     validate_group_messages s group_id g)))))"

definition validate_notification ::
    "SocialRegistry \<Rightarrow> id16 \<Rightarrow> id16 \<times> NotificationRecord \<Rightarrow> SocialError + unit" where
  "validate_notification s recipient = (\<lambda>(notification_id, record). check_inv
     (nr_id record \<noteq> notification_id
      \<or> nr_recipient record \<noteq> recipient
      \<or> nr_sequence record = 0
      \<or> s_revision s < nr_sequence record
      \<or> nr_subject record = []
      \<or> nr_content record = []
      \<or> max_notification_text_bytes (s_limits s) < str_len (nr_subject record)
      \<or> max_notification_text_bytes (s_limits s) < str_len (nr_content record)
      \<or> (case nr_sender record of None \<Rightarrow> False | Some sender \<Rightarrow> sender |\<notin>| s_users s)))"

definition validate_notifications ::
    "SocialRegistry \<Rightarrow> id16 \<times> (id16, NotificationRecord) fmap \<Rightarrow> SocialError + unit" where
  "validate_notifications s = (\<lambda>(recipient, records).
     tryE (check_inv (recipient |\<notin>| s_users s
             \<or> max_notifications_per_user (s_limits s) < fmap_len records)) (\<lambda>_.
     forE (validate_notification s recipient) (entries_in_order records)))"

definition intents_of :: "(OutboxIntentId, OutboxIntent) fmap \<Rightarrow> id16 \<Rightarrow> OutboxIntent list" where
  "intents_of ob command =
     filter (\<lambda>intent. oid_command (oi_intent_id intent) = command) (map snd (entries_in_order ob))"

definition validate_receipt :: "SocialRegistry \<Rightarrow> id16 \<times> SocialReceipt \<Rightarrow> SocialError + unit" where
  "validate_receipt s = (\<lambda>(command, receipt).
     tryE (check_inv (sr_command receipt \<noteq> command
             \<or> sr_actor receipt |\<notin>| s_users s
             \<or> sr_revision receipt = 0
             \<or> s_revision s < sr_revision receipt)) (\<lambda>_.
     check_inv (length (intents_of (s_outbox s) command) \<noteq> unat (sr_outbox_count receipt))))"

definition validate_outbox_entry ::
    "SocialRegistry \<Rightarrow> OutboxIntentId \<times> OutboxIntent \<Rightarrow> SocialError + unit" where
  "validate_outbox_entry s = (\<lambda>(id, intent).
     tryE (ok_or social_invariant_error (fmlookup (s_receipts s) (oid_command id))) (\<lambda>receipt.
     tryE (check_inv (oi_intent_id intent \<noteq> id \<or> oid_ordinal id = 0)) (\<lambda>_.
     validate_outbox_payload s (oi_intent_payload intent) receipt)))"

definition validate_invariants :: "SocialRegistry \<Rightarrow> SocialError + unit" where
  "validate_invariants s =
     tryE (validate_sizes s) (\<lambda>_.
     tryE (forE (validate_friendship s) (sorted_list_of_fset (s_friendships s))) (\<lambda>_.
     tryE (forE (validate_friend_request s) (sorted_list_of_fset (s_friend_requests s))) (\<lambda>_.
     tryE (forE (validate_block s) (sorted_list_of_fset (s_blocks s))) (\<lambda>_.
     tryE (forE (validate_peers s) (sorted_list_of_fset (s_users s))) (\<lambda>_.
     tryE (forE (validate_group s) (entries_in_order (s_groups s))) (\<lambda>_.
     tryE (check_inv (list_ex (\<lambda>g. g |\<notin>| fmdom (s_groups s)) (keys_in_order (s_messages s))))
       (\<lambda>_.
     tryE (forE (validate_notifications s) (entries_in_order (s_notifications s))) (\<lambda>_.
     tryE (forE (validate_receipt s) (entries_in_order (s_receipts s))) (\<lambda>_.
     forE (validate_outbox_entry s) (entries_in_order (s_outbox s)))))))))))"

subsection \<open>Receipts and the command frame\<close>

definition social_receipt :: "SocialRegistry \<Rightarrow> id16 \<Rightarrow> SocialReceipt option" where
  "social_receipt s command = fmlookup (s_receipts s) command"

definition outbox_intents :: "SocialRegistry \<Rightarrow> OutboxIntent list" where
  "outbox_intents s = map snd (entries_in_order (s_outbox s))"

definition next_command_revision :: "SocialRegistry \<Rightarrow> SocialError + u64" where
  "next_command_revision s = next_revision (s_revision s) ''social_revision_overflow''"

definition existing_receipt ::
    "SocialRegistry \<Rightarrow> id16 \<Rightarrow> digest32 \<Rightarrow> id16 \<Rightarrow> ReceiptOutcome list \<Rightarrow>
      SocialError + SocialReceipt option" where
  "existing_receipt s command fingerprint actor allowed =
     (case fmlookup (s_receipts s) command of
        None \<Rightarrow> Inr None
      | Some receipt \<Rightarrow>
          if sr_fingerprint receipt \<noteq> fingerprint
          then Inl (social_error Conflict ''social_command_fingerprint_mismatch'')
          else if sr_actor receipt \<noteq> actor
          then Inl (social_error Conflict ''social_command_actor_mismatch'')
          else if sr_outcome receipt \<notin> set allowed
          then Inl (social_error Conflict ''social_command_operation_mismatch'')
          else Inr (Some receipt))"

definition u16_try_from :: "usize \<Rightarrow> SocialError + u16" where
  "u16_try_from n = (if n < 2 ^ 16 then Inr (of_nat n)
     else Inl (social_error OutOfRange ''outbox_ordinal_overflow''))"

definition insert_intent ::
    "id16 \<Rightarrow> usize \<times> OutboxIntentPayload \<Rightarrow> (OutboxIntentId, OutboxIntent) fmap \<Rightarrow>
      SocialError + (OutboxIntentId, OutboxIntent) fmap" where
  "insert_intent command = (\<lambda>(index, payload) ob.
     tryE (u16_try_from (index + 1)) (\<lambda>ordinal.
     let id = OutboxIntentId command ordinal
     in Inr (fmupd id \<lparr>oi_intent_id = id, oi_intent_payload = payload\<rparr> ob)))"

definition finish_command ::
    "SocialRegistry \<Rightarrow> SocialRegistry \<Rightarrow> CommandCompletion \<Rightarrow>
      SocialError + SocialRegistry \<times> SocialReceipt" where
  "finish_command s candidate c =
     (if max_receipts (s_limits s) \<le> fmap_len (s_receipts s)
      then Inl (social_error ResourceExhausted ''receipt_capacity_exhausted'')
      else tryE (ok_or (social_error OutOfRange ''outbox_capacity_overflow'')
                  (usize_checked_add (fmap_len (s_outbox s)) (length (cc_intents c))))
        (\<lambda>projected_outbox.
      if max_outbox_intents (s_limits s) < projected_outbox
      then Inl (social_error ResourceExhausted ''outbox_capacity_exhausted'')
      else tryE (u16_try_from (length (cc_intents c))) (\<lambda>outbox_count.
      let receipt = \<lparr>sr_command = cc_command c, sr_fingerprint = cc_fingerprint c,
            sr_actor = cc_actor c, sr_revision = cc_revision c, sr_outcome = cc_outcome c,
            sr_outbox_count = outbox_count\<rparr>
      in tryE (foldE (insert_intent (cc_command c)) (enumerate 0 (cc_intents c))
                 (s_outbox candidate)) (\<lambda>ob.
      let candidate = candidate\<lparr>s_revision := cc_revision c,
            s_receipts := fmupd (cc_command c) receipt (s_receipts candidate),
            s_outbox := ob\<rparr>
      in tryE (validate_invariants candidate) (\<lambda>_. Inr (candidate, receipt))))))"

text \<open>\<open>if let Some(receipt) = self.existing_receipt(..)? { return Ok(receipt) }\<close>\<close>

definition with_receipt ::
    "SocialRegistry \<Rightarrow> SocialError + SocialReceipt option \<Rightarrow>
      SocialRegistry \<times> (SocialError + SocialReceipt) \<Rightarrow>
      SocialRegistry \<times> (SocialError + SocialReceipt)" where
  "with_receipt s existing body =
     (case existing of Inl e \<Rightarrow> (s, Inl e)
      | Inr (Some receipt) \<Rightarrow> (s, Inr receipt)
      | Inr None \<Rightarrow> body)"

definition register_user :: "SocialRegistry \<Rightarrow> id16 \<Rightarrow> SocialRegistry \<times> (SocialError + bool)" where
  "register_user s account =
     (if account |\<in>| s_users s then (s, Inr False)
      else if max_users (s_limits s) \<le> fcard (s_users s)
      then (s, Inl (social_error ResourceExhausted ''user_capacity_exhausted''))
      else commit_candidate s
        (let candidate = s\<lparr>s_users := finsert account (s_users s)\<rparr>
         in tryE (validate_invariants candidate) (\<lambda>_. Inr (candidate, True))))"

subsection \<open>Friend requests\<close>

definition relationship :: "SocialRegistry \<Rightarrow> id16 \<Rightarrow> id16 \<Rightarrow> SocialError + RelationshipView" where
  "relationship s actor other =
     tryE (ensure_known_user s actor) (\<lambda>_.
     tryE (ensure_known_user s other) (\<lambda>_.
     tryE (UserPair_new actor other) (\<lambda>pair.
     let actor_blocks = (actor, other) |\<in>| s_blocks s;
         other_blocks = (other, actor) |\<in>| s_blocks s
     in if actor_blocks \<and> other_blocks then Inr MutuallyBlocked
        else if actor_blocks then Inr BlockedBySelf
        else if other_blocks then Inr BlockedByOther
        else if pair |\<in>| s_friendships s then Inr Friends
        else if (actor, other) |\<in>| s_friend_requests s then Inr OutgoingRequest
        else if (other, actor) |\<in>| s_friend_requests s then Inr IncomingRequest
        else Inr NoRelation)))"

definition request_allowed :: "RelationshipView \<Rightarrow> SocialError + unit" where
  "request_allowed view = (case view of
     NoRelation \<Rightarrow> Inr ()
   | IncomingRequest \<Rightarrow> Inl (social_error FailedPrecondition ''inverse_friend_request_pending'')
   | OutgoingRequest \<Rightarrow> Inl (social_error AlreadyExists ''friend_request_exists'')
   | Friends \<Rightarrow> Inl (social_error AlreadyExists ''friendship_exists'')
   | BlockedBySelf \<Rightarrow> Inl (social_error PermissionDenied ''relationship_blocked'')
   | BlockedByOther \<Rightarrow> Inl (social_error PermissionDenied ''relationship_blocked'')
   | MutuallyBlocked \<Rightarrow> Inl (social_error PermissionDenied ''relationship_blocked''))"

definition send_friend_request ::
    "SocialRegistry \<Rightarrow> id16 \<Rightarrow> digest32 \<Rightarrow> id16 \<Rightarrow> id16 \<Rightarrow>
      SocialRegistry \<times> (SocialError + SocialReceipt)" where
  "send_friend_request s command fingerprint actor target =
     with_receipt s (existing_receipt s command fingerprint actor [FriendRequestSent])
     (commit_candidate s (
       tryE (ensure_known_user s actor) (\<lambda>_.
       tryE (ensure_known_user s target) (\<lambda>_.
       tryE (UserPair_new actor target) (\<lambda>pair.
       tryE (relationship s actor target) (\<lambda>view.
       tryE (request_allowed view) (\<lambda>_.
       tryE (ensure_relationship_capacity s actor target) (\<lambda>_.
       tryE (next_command_revision s) (\<lambda>revision.
       let candidate =
             s\<lparr>s_friend_requests := finsert (actor, target) (s_friend_requests s)\<rparr>
       in finish_command s candidate
            \<lparr>cc_command = command, cc_fingerprint = fingerprint, cc_actor = actor,
             cc_revision = revision, cc_outcome = FriendRequestSent,
             cc_intents = [FriendRequest actor target]\<rparr>)))))))))"

definition accept_friend_request ::
    "SocialRegistry \<Rightarrow> id16 \<Rightarrow> digest32 \<Rightarrow> id16 \<Rightarrow> id16 \<Rightarrow>
      SocialRegistry \<times> (SocialError + SocialReceipt)" where
  "accept_friend_request s command fingerprint actor requester =
     with_receipt s (existing_receipt s command fingerprint actor [FriendRequestAccepted])
     (commit_candidate s (
       tryE (ensure_known_user s actor) (\<lambda>_.
       tryE (ensure_known_user s requester) (\<lambda>_.
       tryE (UserPair_new actor requester) (\<lambda>pair.
       if (actor, requester) |\<in>| s_blocks s \<or> (requester, actor) |\<in>| s_blocks s
       then Inl (social_error PermissionDenied ''relationship_blocked'')
       else if (requester, actor) |\<notin>| s_friend_requests s
       then Inl (social_error NotFound ''friend_request_not_found'')
       else tryE (next_command_revision s) (\<lambda>revision.
       let candidate =
             s\<lparr>s_friend_requests := s_friend_requests s |-| {|(requester, actor)|},
               s_friendships := finsert pair (s_friendships s)\<rparr>
       in finish_command s candidate
            \<lparr>cc_command = command, cc_fingerprint = fingerprint, cc_actor = actor,
             cc_revision = revision, cc_outcome = FriendRequestAccepted,
             cc_intents = [FriendAccepted actor requester]\<rparr>))))))"

subsection \<open>The friend graph\<close>

definition remove_friend ::
    "SocialRegistry \<Rightarrow> id16 \<Rightarrow> digest32 \<Rightarrow> id16 \<Rightarrow> id16 \<Rightarrow>
      SocialRegistry \<times> (SocialError + SocialReceipt)" where
  "remove_friend s command fingerprint actor target =
     with_receipt s (existing_receipt s command fingerprint actor [FriendRemoved])
     (commit_candidate s (
       tryE (ensure_known_user s actor) (\<lambda>_.
       tryE (ensure_known_user s target) (\<lambda>_.
       tryE (UserPair_new actor target) (\<lambda>pair.
       if pair |\<notin>| s_friendships s
       then Inl (social_error NotFound ''friendship_not_found'')
       else tryE (next_command_revision s) (\<lambda>revision.
       let candidate = s\<lparr>s_friendships := s_friendships s |-| {|pair|}\<rparr>
       in finish_command s candidate
            \<lparr>cc_command = command, cc_fingerprint = fingerprint, cc_actor = actor,
             cc_revision = revision, cc_outcome = FriendRemoved, cc_intents = []\<rparr>))))))"

definition block_user ::
    "SocialRegistry \<Rightarrow> id16 \<Rightarrow> digest32 \<Rightarrow> id16 \<Rightarrow> id16 \<Rightarrow>
      SocialRegistry \<times> (SocialError + SocialReceipt)" where
  "block_user s command fingerprint actor target =
     with_receipt s (existing_receipt s command fingerprint actor [UserBlocked])
     (commit_candidate s (
       tryE (ensure_known_user s actor) (\<lambda>_.
       tryE (ensure_known_user s target) (\<lambda>_.
       tryE (UserPair_new actor target) (\<lambda>pair.
       if (actor, target) |\<in>| s_blocks s
       then Inl (social_error AlreadyExists ''block_exists'')
       else tryE (ensure_relationship_capacity s actor target) (\<lambda>_.
       tryE (next_command_revision s) (\<lambda>revision.
       let candidate =
             s\<lparr>s_friendships := s_friendships s |-| {|pair|},
               s_friend_requests :=
                 s_friend_requests s |-| {|(actor, target)|} |-| {|(target, actor)|},
               s_blocks := finsert (actor, target) (s_blocks s)\<rparr>
       in finish_command s candidate
            \<lparr>cc_command = command, cc_fingerprint = fingerprint, cc_actor = actor,
             cc_revision = revision, cc_outcome = UserBlocked, cc_intents = []\<rparr>)))))))"

definition unblock_user ::
    "SocialRegistry \<Rightarrow> id16 \<Rightarrow> digest32 \<Rightarrow> id16 \<Rightarrow> id16 \<Rightarrow>
      SocialRegistry \<times> (SocialError + SocialReceipt)" where
  "unblock_user s command fingerprint actor target =
     with_receipt s (existing_receipt s command fingerprint actor [UserUnblocked])
     (commit_candidate s (
       tryE (ensure_known_user s actor) (\<lambda>_.
       tryE (ensure_known_user s target) (\<lambda>_.
       tryE (UserPair_new actor target) (\<lambda>_.
       if (actor, target) |\<notin>| s_blocks s
       then Inl (social_error NotFound ''block_not_found'')
       else tryE (next_command_revision s) (\<lambda>revision.
       let candidate = s\<lparr>s_blocks := s_blocks s |-| {|(actor, target)|}\<rparr>
       in finish_command s candidate
            \<lparr>cc_command = command, cc_fingerprint = fingerprint, cc_actor = actor,
             cc_revision = revision, cc_outcome = UserUnblocked, cc_intents = []\<rparr>))))))"

definition list_friends ::
    "SocialRegistry \<Rightarrow> id16 \<Rightarrow> FriendCursor option \<Rightarrow> usize \<Rightarrow> SocialError + FriendPage" where
  "list_friends s owner cursor limit =
     tryE (ensure_known_user s owner) (\<lambda>_.
     tryE (validate_page_limit limit) (\<lambda>_.
     tryE (case cursor of
             Some c \<Rightarrow> if fc_owner c \<noteq> owner
               then Inl (social_error InvalidArgument ''friend_cursor_owner_mismatch'')
               else Inr (Some (fc_after c))
           | None \<Rightarrow> Inr None) (\<lambda>after.
     let found = filter (\<lambda>account. case after of None \<Rightarrow> True | Some minimum \<Rightarrow> minimum < account)
           (List.map_filter (\<lambda>pair. pair_other pair owner)
             (sorted_list_of_fset (s_friendships s)));
         found = sort found;
         has_more = limit < length found;
         items = take limit found
     in Inr \<lparr>fp_items = items,
             fp_next = (if has_more \<and> items \<noteq> []
               then Some \<lparr>fc_owner = owner, fc_after = last items\<rparr> else None)\<rparr>)))"

end
