(* ===== verification/Social_Commands.thy ===== *)
theory Social_Commands
  imports Social_Registry
begin

text \<open>
  The group, message and notification operations of \<open>SocialRegistry\<close>
  (\<open>crates/trnm-social-core/src/parts/12\<close> to \<open>15\<close>), and the datatype of all its commands with
  the dispatch \<open>social_exec\<close>, over which the properties of the registry are stated.
\<close>

definition get_group :: "SocialRegistry \<Rightarrow> id16 \<Rightarrow> SocialError + GroupRecord" where
  "get_group s group_id =
     ok_or (social_error NotFound ''group_not_found'') (fmlookup (s_groups s) group_id)"

text \<open>
  \<open>candidate.groups.get_mut(&group_id).ok_or_else(invariant_error)?\<close> followed by updates of
  the borrowed record.
\<close>

definition with_group ::
    "SocialRegistry \<Rightarrow> id16 \<Rightarrow> (GroupRecord \<Rightarrow> GroupRecord) \<Rightarrow> SocialError + SocialRegistry" where
  "with_group candidate group_id update =
     tryE (ok_or social_invariant_error (fmlookup (s_groups candidate) group_id)) (\<lambda>g.
     Inr (candidate\<lparr>s_groups := fmupd group_id (update g) (s_groups candidate)\<rparr>))"

subsection \<open>Creating and joining groups\<close>

definition create_group ::
    "SocialRegistry \<Rightarrow> id16 \<Rightarrow> digest32 \<Rightarrow> CreateGroupRequest \<Rightarrow>
      SocialRegistry \<times> (SocialError + SocialReceipt)" where
  "create_group s command fingerprint request =
     with_receipt s (existing_receipt s command fingerprint (cg_creator request) [GroupCreated])
     (commit_candidate s (
       tryE (ensure_known_user s (cg_creator request)) (\<lambda>_.
       if max_groups (s_limits s) \<le> fmap_len (s_groups s)
       then Inl (social_error ResourceExhausted ''group_capacity_exhausted'')
       else if cg_group request |\<in>| fmdom (s_groups s)
       then Inl (social_error AlreadyExists ''group_exists'')
       else if cg_max_members request = 0
             \<or> max_group_members (s_limits s) < cg_max_members request
       then Inl (social_error InvalidArgument ''group_max_members_invalid'')
       else tryE (next_command_revision s) (\<lambda>revision.
       let g = \<lparr>gr_id = cg_group request, gr_name = cg_name request,
                gr_join_mode = cg_join_mode request, gr_max_members = cg_max_members request,
                gr_revision = 1, gr_members = fmupd (cg_creator request) Superadmin fmempty,
                gr_join_requests = {||}, gr_banned = {||}, gr_next_message_sequence = 1\<rparr>;
           candidate = s\<lparr>s_groups := fmupd (cg_group request) g (s_groups s),
                         s_messages := fmupd (cg_group request) [] (s_messages s)\<rparr>
       in finish_command s candidate
            \<lparr>cc_command = command, cc_fingerprint = fingerprint, cc_actor = cg_creator request,
             cc_revision = revision, cc_outcome = GroupCreated, cc_intents = []\<rparr>))))"

definition join_group ::
    "SocialRegistry \<Rightarrow> id16 \<Rightarrow> digest32 \<Rightarrow> id16 \<Rightarrow> id16 \<Rightarrow>
      SocialRegistry \<times> (SocialError + SocialReceipt)" where
  "join_group s command fingerprint group_id actor =
     with_receipt s
       (existing_receipt s command fingerprint actor [GroupJoined, GroupJoinRequested])
     (commit_candidate s (
       tryE (ensure_known_user s actor) (\<lambda>_.
       tryE (get_group s group_id) (\<lambda>g.
       if actor |\<in>| fmdom (gr_members g)
       then Inl (social_error AlreadyExists ''group_member_exists'')
       else if actor |\<in>| gr_join_requests g
       then Inl (social_error AlreadyExists ''group_join_request_exists'')
       else if actor |\<in>| gr_banned g
       then Inl (social_error PermissionDenied ''group_member_banned'')
       else if gr_join_mode g = ClosedMode
       then Inl (social_error PermissionDenied ''group_closed'')
       else if gr_join_mode g = OpenMode \<and> gr_max_members g \<le> fmap_len (gr_members g)
       then Inl (social_error ResourceExhausted ''group_member_capacity_exhausted'')
       else tryE (next_revision (gr_revision g) ''group_revision_overflow'') (\<lambda>group_revision.
       tryE (next_command_revision s) (\<lambda>revision.
       tryE (ok_or social_invariant_error (fmlookup (s_groups s) group_id)) (\<lambda>candidate_group.
       tryE (case gr_join_mode candidate_group of
               OpenMode \<Rightarrow> Inr
                 (candidate_group\<lparr>gr_members := fmupd actor Member (gr_members candidate_group)\<rparr>,
                  GroupJoined, [GroupJoinAccepted group_id actor actor])
             | AdminApproval \<Rightarrow> Inr
                 (candidate_group\<lparr>gr_join_requests :=
                    finsert actor (gr_join_requests candidate_group)\<rparr>,
                  GroupJoinRequested, [GroupJoinRequest group_id actor])
             | ClosedMode \<Rightarrow> inv_err) (\<lambda>(candidate_group, outcome, intents).
       let candidate = s\<lparr>s_groups := fmupd group_id
             (candidate_group\<lparr>gr_revision := group_revision\<rparr>) (s_groups s)\<rparr>
       in finish_command s candidate
            \<lparr>cc_command = command, cc_fingerprint = fingerprint, cc_actor = actor,
             cc_revision = revision, cc_outcome = outcome, cc_intents = intents\<rparr>))))))))"

definition approve_group_join ::
    "SocialRegistry \<Rightarrow> id16 \<Rightarrow> digest32 \<Rightarrow> id16 \<Rightarrow> id16 \<Rightarrow> id16 \<Rightarrow>
      SocialRegistry \<times> (SocialError + SocialReceipt)" where
  "approve_group_join s command fingerprint group_id actor target =
     with_receipt s (existing_receipt s command fingerprint actor [GroupJoinApproved])
     (commit_candidate s (
       tryE (ensure_known_user s actor) (\<lambda>_.
       tryE (ensure_known_user s target) (\<lambda>_.
       tryE (get_group s group_id) (\<lambda>g.
       tryE (require_group_role g actor Admin) (\<lambda>_.
       if target |\<notin>| gr_join_requests g
       then Inl (social_error NotFound ''group_join_request_not_found'')
       else if gr_max_members g \<le> fmap_len (gr_members g)
       then Inl (social_error ResourceExhausted ''group_member_capacity_exhausted'')
       else tryE (next_revision (gr_revision g) ''group_revision_overflow'') (\<lambda>group_revision.
       tryE (next_command_revision s) (\<lambda>revision.
       tryE (with_group s group_id (\<lambda>cg. cg\<lparr>
               gr_join_requests := gr_join_requests cg |-| {|target|},
               gr_members := fmupd target Member (gr_members cg),
               gr_revision := group_revision\<rparr>)) (\<lambda>candidate.
       finish_command s candidate
         \<lparr>cc_command = command, cc_fingerprint = fingerprint, cc_actor = actor,
          cc_revision = revision, cc_outcome = GroupJoinApproved,
          cc_intents = [GroupJoinAccepted group_id actor target]\<rparr>)))))))))"

subsection \<open>Group administration\<close>

definition change_group_role ::
    "SocialRegistry \<Rightarrow> id16 \<Rightarrow> digest32 \<Rightarrow> id16 \<Rightarrow> id16 \<Rightarrow> id16 \<Rightarrow> GroupRole \<Rightarrow>
      SocialRegistry \<times> (SocialError + SocialReceipt)" where
  "change_group_role s command fingerprint group_id actor target role =
     with_receipt s (existing_receipt s command fingerprint actor [GroupRoleChanged])
     (commit_candidate s (
       tryE (ensure_known_user s actor) (\<lambda>_.
       tryE (ensure_known_user s target) (\<lambda>_.
       tryE (get_group s group_id) (\<lambda>g.
       tryE (require_group_role g actor Superadmin) (\<lambda>_.
       tryE (ok_or (social_error NotFound ''group_member_not_found'')
              (fmlookup (gr_members g) target)) (\<lambda>current.
       if current = role then Inl (social_error AlreadyExists ''group_role_unchanged'')
       else if current = Superadmin \<and> role \<noteq> Superadmin \<and> superadmin_count g = 1
       then Inl (social_error FailedPrecondition ''last_superadmin_cannot_be_demoted'')
       else tryE (next_revision (gr_revision g) ''group_revision_overflow'') (\<lambda>group_revision.
       tryE (next_command_revision s) (\<lambda>revision.
       tryE (with_group s group_id (\<lambda>cg. cg\<lparr>
               gr_members := fmupd target role (gr_members cg),
               gr_revision := group_revision\<rparr>)) (\<lambda>candidate.
       finish_command s candidate
         \<lparr>cc_command = command, cc_fingerprint = fingerprint, cc_actor = actor,
          cc_revision = revision, cc_outcome = GroupRoleChanged,
          cc_intents = [GroupRoleChange group_id actor target role]\<rparr>))))))))))"

definition leave_group ::
    "SocialRegistry \<Rightarrow> id16 \<Rightarrow> digest32 \<Rightarrow> id16 \<Rightarrow> id16 \<Rightarrow>
      SocialRegistry \<times> (SocialError + SocialReceipt)" where
  "leave_group s command fingerprint group_id actor =
     with_receipt s (existing_receipt s command fingerprint actor [GroupLeft])
     (commit_candidate s (
       tryE (ensure_known_user s actor) (\<lambda>_.
       tryE (get_group s group_id) (\<lambda>g.
       tryE (ok_or (social_error NotFound ''group_member_not_found'')
              (fmlookup (gr_members g) actor)) (\<lambda>role.
       if role = Superadmin \<and> superadmin_count g = 1
       then Inl (social_error FailedPrecondition ''last_superadmin_cannot_leave'')
       else tryE (next_revision (gr_revision g) ''group_revision_overflow'') (\<lambda>group_revision.
       tryE (next_command_revision s) (\<lambda>revision.
       tryE (with_group s group_id (\<lambda>cg. cg\<lparr>
               gr_members := fmdrop actor (gr_members cg),
               gr_revision := group_revision\<rparr>)) (\<lambda>candidate.
       finish_command s candidate
         \<lparr>cc_command = command, cc_fingerprint = fingerprint, cc_actor = actor,
          cc_revision = revision, cc_outcome = GroupLeft, cc_intents = []\<rparr>))))))))"

definition ban_group_member ::
    "SocialRegistry \<Rightarrow> id16 \<Rightarrow> digest32 \<Rightarrow> id16 \<Rightarrow> id16 \<Rightarrow> id16 \<Rightarrow>
      SocialRegistry \<times> (SocialError + SocialReceipt)" where
  "ban_group_member s command fingerprint group_id actor target =
     with_receipt s (existing_receipt s command fingerprint actor [GroupMemberBanned])
     (commit_candidate s (
       tryE (ensure_known_user s actor) (\<lambda>_.
       tryE (ensure_known_user s target) (\<lambda>_.
       if actor = target then Inl (social_error InvalidArgument ''group_self_ban_forbidden'')
       else tryE (get_group s group_id) (\<lambda>g.
       tryE (require_group_role g actor Admin) (\<lambda>actor_role.
       if target |\<in>| gr_banned g then Inl (social_error AlreadyExists ''group_ban_exists'')
       else tryE (case fmlookup (gr_members g) target of
               Some target_role \<Rightarrow>
                 if target_role = Superadmin \<or> role_rank actor_role \<le> role_rank target_role
                 then Inl (social_error PermissionDenied ''group_role_cannot_ban_target'')
                 else Inr ()
             | None \<Rightarrow>
                 if target |\<notin>| gr_join_requests g
                 then Inl (social_error NotFound ''group_member_or_request_not_found'')
                 else Inr ()) (\<lambda>_.
       tryE (next_revision (gr_revision g) ''group_revision_overflow'') (\<lambda>group_revision.
       tryE (next_command_revision s) (\<lambda>revision.
       tryE (with_group s group_id (\<lambda>cg. cg\<lparr>
               gr_members := fmdrop target (gr_members cg),
               gr_join_requests := gr_join_requests cg |-| {|target|},
               gr_banned := finsert target (gr_banned cg),
               gr_revision := group_revision\<rparr>)) (\<lambda>candidate.
       finish_command s candidate
         \<lparr>cc_command = command, cc_fingerprint = fingerprint, cc_actor = actor,
          cc_revision = revision, cc_outcome = GroupMemberBanned, cc_intents = []\<rparr>))))))))))"

definition unban_group_member ::
    "SocialRegistry \<Rightarrow> id16 \<Rightarrow> digest32 \<Rightarrow> id16 \<Rightarrow> id16 \<Rightarrow> id16 \<Rightarrow>
      SocialRegistry \<times> (SocialError + SocialReceipt)" where
  "unban_group_member s command fingerprint group_id actor target =
     with_receipt s (existing_receipt s command fingerprint actor [GroupMemberUnbanned])
     (commit_candidate s (
       tryE (ensure_known_user s actor) (\<lambda>_.
       tryE (ensure_known_user s target) (\<lambda>_.
       tryE (get_group s group_id) (\<lambda>g.
       tryE (require_group_role g actor Admin) (\<lambda>_.
       if target |\<notin>| gr_banned g
       then Inl (social_error NotFound ''group_ban_not_found'')
       else tryE (next_revision (gr_revision g) ''group_revision_overflow'') (\<lambda>group_revision.
       tryE (next_command_revision s) (\<lambda>revision.
       tryE (with_group s group_id (\<lambda>cg. cg\<lparr>
               gr_banned := gr_banned cg |-| {|target|},
               gr_revision := group_revision\<rparr>)) (\<lambda>candidate.
       finish_command s candidate
         \<lparr>cc_command = command, cc_fingerprint = fingerprint, cc_actor = actor,
          cc_revision = revision, cc_outcome = GroupMemberUnbanned, cc_intents = []\<rparr>)))))))))"

definition social_group :: "SocialRegistry \<Rightarrow> id16 \<Rightarrow> GroupRecord option" where
  "social_group s g = fmlookup (s_groups s) g"

subsection \<open>Group messages\<close>

definition send_group_message ::
    "SocialRegistry \<Rightarrow> id16 \<Rightarrow> digest32 \<Rightarrow> SendGroupMessageRequest \<Rightarrow>
      SocialRegistry \<times> (SocialError + SocialReceipt)" where
  "send_group_message s command fingerprint request =
     with_receipt s (existing_receipt s command fingerprint (sm_sender request) [ChatMessageSent])
     (commit_candidate s (
       tryE (ensure_known_user s (sm_sender request)) (\<lambda>_.
       tryE (get_group s (sm_group request)) (\<lambda>g.
       if sm_sender request |\<notin>| fmdom (gr_members g)
       then Inl (social_error PermissionDenied ''group_message_sender_not_member'')
       else if max_message_bytes (s_limits s) < length (sm_body request)
       then Inl (social_error InvalidArgument ''message_body_exceeds_profile_limit'')
       else tryE (ok_or social_invariant_error (fmlookup (s_messages s) (sm_group request)))
         (\<lambda>current_messages.
       if max_messages_per_group (s_limits s) \<le> length current_messages
       then Inl (social_error ResourceExhausted ''group_message_capacity_exhausted'')
       else if list_ex (\<lambda>message. cm_id message = sm_message request) current_messages
       then Inl (social_error AlreadyExists ''message_id_exists'')
       else let sequence = gr_next_message_sequence g
       in tryE (next_revision sequence ''message_sequence_overflow'') (\<lambda>next_sequence.
       tryE (next_command_revision s) (\<lambda>revision.
       let message = \<lparr>cm_id = sm_message request, cm_group = sm_group request,
             cm_sender = sm_sender request, cm_sequence = sequence, cm_body = sm_body request\<rparr>
       in tryE (ok_or social_invariant_error (fmlookup (s_messages s) (sm_group request)))
         (\<lambda>messages.
       let candidate = s\<lparr>s_messages :=
             fmupd (sm_group request) (messages @ [message]) (s_messages s)\<rparr>
       in tryE (with_group candidate (sm_group request)
               (\<lambda>cg. cg\<lparr>gr_next_message_sequence := next_sequence\<rparr>)) (\<lambda>candidate.
       finish_command s candidate
         \<lparr>cc_command = command, cc_fingerprint = fingerprint, cc_actor = sm_sender request,
          cc_revision = revision, cc_outcome = ChatMessageSent,
          cc_intents = [ChatMessageSend (sm_group request) (sm_message request)
            (sm_sender request) sequence (sm_body request)]\<rparr>)))))))))"

definition list_group_messages ::
    "SocialRegistry \<Rightarrow> id16 \<Rightarrow> MessageCursor option \<Rightarrow> usize \<Rightarrow> SocialError + MessagePage" where
  "list_group_messages s group_id cursor limit =
     tryE (validate_page_limit limit) (\<lambda>_.
     tryE (get_group s group_id) (\<lambda>g.
     tryE (case cursor of
             Some c \<Rightarrow>
               if mc_group c \<noteq> group_id
               then Inl (social_error InvalidArgument ''message_cursor_group_mismatch'')
               else if gr_next_message_sequence g \<le> mc_sequence c
               then Inl (social_error InvalidArgument ''message_cursor_ahead'')
               else Inr (mc_sequence c)
           | None \<Rightarrow> Inr 0) (\<lambda>after.
     tryE (ok_or social_invariant_error (fmlookup (s_messages s) group_id)) (\<lambda>messages.
     let found = filter (\<lambda>message. after < cm_sequence message) messages;
         has_more = limit < length found;
         items = take limit found
     in Inr \<lparr>mp_items = items,
             mp_next = (if has_more \<and> items \<noteq> []
               then Some \<lparr>mc_group = group_id, mc_sequence = cm_sequence (last items)\<rparr>
               else None)\<rparr>))))"

subsection \<open>Notifications\<close>

definition notifications_of ::
    "SocialRegistry \<Rightarrow> id16 \<Rightarrow> (id16, NotificationRecord) fmap" where
  "notifications_of s recipient =
     (case fmlookup (s_notifications s) recipient of None \<Rightarrow> fmempty | Some records \<Rightarrow> records)"

definition create_notification ::
    "SocialRegistry \<Rightarrow> id16 \<Rightarrow> digest32 \<Rightarrow> CreateNotificationRequest \<Rightarrow>
      SocialRegistry \<times> (SocialError + SocialReceipt)" where
  "create_notification s command fingerprint request =
     (let actor = (case cn_sender request of None \<Rightarrow> cn_recipient request | Some x \<Rightarrow> x)
      in with_receipt s (existing_receipt s command fingerprint actor [NotificationCreated])
     (commit_candidate s (
       tryE (ensure_known_user s (cn_recipient request)) (\<lambda>_.
       tryE (case cn_sender request of Some sender \<Rightarrow> ensure_known_user s sender | None \<Rightarrow> Inr ())
         (\<lambda>_.
       if max_notification_text_bytes (s_limits s) < str_len (cn_subject request)
          \<or> max_notification_text_bytes (s_limits s) < str_len (cn_content request)
       then Inl (social_error InvalidArgument ''notification_text_exceeds_profile_limit'')
       else let records = notifications_of s (cn_recipient request)
       in if cn_notification request |\<in>| fmdom records
       then Inl (social_error AlreadyExists ''notification_id_exists'')
       else if max_notifications_per_user (s_limits s) \<le> fmap_len records
       then Inl (social_error ResourceExhausted ''notification_capacity_exhausted'')
       else tryE (next_command_revision s) (\<lambda>revision.
       let record = \<lparr>nr_id = cn_notification request, nr_sender = cn_sender request,
             nr_recipient = cn_recipient request, nr_kind = cn_kind request,
             nr_subject = cn_subject request, nr_content = cn_content request,
             nr_sequence = revision, nr_read = False\<rparr>;
           candidate = s\<lparr>s_notifications := fmupd (cn_recipient request)
             (fmupd (cn_notification request) record records) (s_notifications s)\<rparr>
       in finish_command s candidate
            \<lparr>cc_command = command, cc_fingerprint = fingerprint, cc_actor = actor,
             cc_revision = revision, cc_outcome = NotificationCreated,
             cc_intents = [NotificationDelivery (cn_sender request) (cn_recipient request)
               (cn_notification request) (cn_kind request) (cn_subject request)
               (cn_content request) revision]\<rparr>))))))"

definition get_notification :: "SocialRegistry \<Rightarrow> id16 \<Rightarrow> id16 \<Rightarrow> NotificationRecord option" where
  "get_notification s recipient notification =
     (case fmlookup (s_notifications s) recipient of
        None \<Rightarrow> None
      | Some records \<Rightarrow> fmlookup records notification)"

definition mark_notification_read ::
    "SocialRegistry \<Rightarrow> id16 \<Rightarrow> digest32 \<Rightarrow> id16 \<Rightarrow> id16 \<Rightarrow>
      SocialRegistry \<times> (SocialError + SocialReceipt)" where
  "mark_notification_read s command fingerprint recipient notification =
     with_receipt s (existing_receipt s command fingerprint recipient [NotificationMarkedRead])
     (commit_candidate s (
       tryE (ensure_known_user s recipient) (\<lambda>_.
       if get_notification s recipient notification = None
       then Inl (social_error NotFound ''notification_not_found'')
       else tryE (next_command_revision s) (\<lambda>revision.
       tryE (ok_or social_invariant_error (get_notification s recipient notification)) (\<lambda>record.
       let candidate = s\<lparr>s_notifications := fmupd recipient
             (fmupd notification (record\<lparr>nr_read := True\<rparr>) (notifications_of s recipient))
             (s_notifications s)\<rparr>
       in finish_command s candidate
            \<lparr>cc_command = command, cc_fingerprint = fingerprint, cc_actor = recipient,
             cc_revision = revision, cc_outcome = NotificationMarkedRead,
             cc_intents = []\<rparr>)))))"

definition delete_notification ::
    "SocialRegistry \<Rightarrow> id16 \<Rightarrow> digest32 \<Rightarrow> id16 \<Rightarrow> id16 \<Rightarrow>
      SocialRegistry \<times> (SocialError + SocialReceipt)" where
  "delete_notification s command fingerprint recipient notification =
     with_receipt s (existing_receipt s command fingerprint recipient [NotificationDeleted])
     (commit_candidate s (
       tryE (ensure_known_user s recipient) (\<lambda>_.
       if get_notification s recipient notification = None
       then Inl (social_error NotFound ''notification_not_found'')
       else tryE (next_command_revision s) (\<lambda>revision.
       tryE (ok_or social_invariant_error (fmlookup (s_notifications s) recipient)) (\<lambda>records.
       let records = fmdrop notification records;
           candidate = s\<lparr>s_notifications :=
             (if fmap_len records = 0 then fmdrop recipient (s_notifications s)
              else fmupd recipient records (s_notifications s))\<rparr>
       in finish_command s candidate
            \<lparr>cc_command = command, cc_fingerprint = fingerprint, cc_actor = recipient,
             cc_revision = revision, cc_outcome = NotificationDeleted,
             cc_intents = []\<rparr>)))))"

definition list_notifications ::
    "SocialRegistry \<Rightarrow> id16 \<Rightarrow> NotificationCursor option \<Rightarrow> usize \<Rightarrow>
      SocialError + NotificationPage" where
  "list_notifications s recipient cursor limit =
     tryE (ensure_known_user s recipient) (\<lambda>_.
     tryE (validate_page_limit limit) (\<lambda>_.
     tryE (case cursor of
             Some c \<Rightarrow>
               if nc_recipient c \<noteq> recipient
               then Inl (social_error InvalidArgument ''notification_cursor_recipient_mismatch'')
               else if s_revision s < nc_sequence c
               then Inl (social_error InvalidArgument ''notification_cursor_ahead'')
               else Inr (nc_sequence c)
           | None \<Rightarrow> Inr 0) (\<lambda>after.
     let found = filter (\<lambda>record. after < nr_sequence record)
           (map snd (entries_in_order (notifications_of s recipient)));
         found = sort_key (\<lambda>record. (nr_sequence record, nr_id record)) found;
         has_more = limit < length found;
         items = take limit found
     in Inr \<lparr>np_items = items,
             np_next = (if has_more \<and> items \<noteq> []
               then Some \<lparr>nc_recipient = recipient, nc_sequence = nr_sequence (last items)\<rparr>
               else None)\<rparr>)))"

subsection \<open>Commands\<close>

text \<open>
  One constructor per mutating operation that leaves a receipt, with its arguments. An
  envelope carries the command identity and the fingerprint of the request.
\<close>

datatype SocialCommand =
    SendFriendRequest id16 id16
  | AcceptFriendRequest id16 id16
  | RemoveFriend id16 id16
  | BlockUser id16 id16
  | UnblockUser id16 id16
  | CreateGroup CreateGroupRequest
  | JoinGroup id16 id16
  | ApproveGroupJoin id16 id16 id16
  | ChangeGroupRole id16 id16 id16 GroupRole
  | LeaveGroup id16 id16
  | BanGroupMember id16 id16 id16
  | UnbanGroupMember id16 id16 id16
  | SendGroupMessage SendGroupMessageRequest
  | CreateNotification CreateNotificationRequest
  | MarkNotificationRead id16 id16
  | DeleteNotification id16 id16

record SocialEnvelope =
  env_command :: id16
  env_fingerprint :: digest32
  env_request :: SocialCommand

definition social_exec ::
    "SocialEnvelope \<Rightarrow> SocialRegistry \<Rightarrow> SocialRegistry \<times> (SocialError + SocialReceipt)" where
  "social_exec e s = (let c = env_command e; f = env_fingerprint e in
     case env_request e of
       SendFriendRequest actor target \<Rightarrow> send_friend_request s c f actor target
     | AcceptFriendRequest actor requester \<Rightarrow> accept_friend_request s c f actor requester
     | RemoveFriend actor target \<Rightarrow> remove_friend s c f actor target
     | BlockUser actor target \<Rightarrow> block_user s c f actor target
     | UnblockUser actor target \<Rightarrow> unblock_user s c f actor target
     | CreateGroup request \<Rightarrow> create_group s c f request
     | JoinGroup g actor \<Rightarrow> join_group s c f g actor
     | ApproveGroupJoin g actor target \<Rightarrow> approve_group_join s c f g actor target
     | ChangeGroupRole g actor target role \<Rightarrow> change_group_role s c f g actor target role
     | LeaveGroup g actor \<Rightarrow> leave_group s c f g actor
     | BanGroupMember g actor target \<Rightarrow> ban_group_member s c f g actor target
     | UnbanGroupMember g actor target \<Rightarrow> unban_group_member s c f g actor target
     | SendGroupMessage request \<Rightarrow> send_group_message s c f request
     | CreateNotification request \<Rightarrow> create_notification s c f request
     | MarkNotificationRead recipient n \<Rightarrow> mark_notification_read s c f recipient n
     | DeleteNotification recipient n \<Rightarrow> delete_notification s c f recipient n)"

text \<open>
  Arguments the newtypes guarantee: message bodies and notification texts come out of their
  constructors.
\<close>

fun request_wf :: "SocialCommand \<Rightarrow> bool" where
  "request_wf (SendGroupMessage r) \<longleftrightarrow> MessageBody_new (sm_body r) = Inr (sm_body r)"
| "request_wf (CreateNotification r) \<longleftrightarrow>
     NotificationText_new (cn_subject r) = Inr (cn_subject r) \<and>
     NotificationText_new (cn_content r) = Inr (cn_content r)"
| "request_wf _ \<longleftrightarrow> True"

datatype SocialOp = RegisterUser id16 | Execute SocialEnvelope

fun social_step :: "SocialOp \<Rightarrow> SocialRegistry \<Rightarrow> SocialRegistry" where
  "social_step (RegisterUser account) s = fst (register_user s account)"
| "social_step (Execute e) s = fst (social_exec e s)"

fun op_wf :: "SocialOp \<Rightarrow> bool" where
  "op_wf (RegisterUser _) \<longleftrightarrow> True"
| "op_wf (Execute e) \<longleftrightarrow> request_wf (env_request e)"

end
