(* ===== verification/Social_Invariant.thy ===== *)
theory Social_Invariant
  imports Social_Commands
begin

text \<open>
  What the runtime check \<open>validate_invariants\<close> of the social registry establishes, as
  predicates over the parts of the registry: relationships (\<open>rel_ok\<close>), groups with their
  messages (\<open>groups_ok\<close>), notifications (\<open>notifs_ok\<close>), receipts (\<open>receipts_ok\<close>) and outbox
  (\<open>outbox_ok\<close>). The main lemma \<open>validate_iff\<close> says that on a registry whose user pairs are
  ordered the check succeeds exactly when all of them hold.
\<close>

named_theorems social_simps \<open>elementary equations of the social registry\<close>

subsection \<open>Elementary checks\<close>

lemma check_inv_Inr [simp, social_simps]: "check_inv b = Inr u \<longleftrightarrow> \<not> b"
  by (simp add: check_inv_def)

lemma known_Inr [simp, social_simps]: "ensure_known_user s a = Inr u \<longleftrightarrow> a |\<in>| s_users s"
  by (simp add: ensure_known_user_def)

definition pair_of :: "id16 \<Rightarrow> id16 \<Rightarrow> UserPair" where
  "pair_of a b = (if a < b then UserPair a b else UserPair b a)"

lemma UserPair_new_Inr [simp, social_simps]:
  "UserPair_new a b = Inr p \<longleftrightarrow> a \<noteq> b \<and> p = pair_of a b"
  by (auto simp: UserPair_new_def pair_of_def)

lemma pair_of_sym: "pair_of a b = pair_of b a"
  by (auto simp: pair_of_def)

lemma pair_of_ordered: "a \<noteq> b \<Longrightarrow> pair_low (pair_of a b) < pair_high (pair_of a b)"
  by (auto simp: pair_of_def)

lemma pair_of_cases: "{pair_low (pair_of a b), pair_high (pair_of a b)} = {a, b}"
  by (auto simp: pair_of_def)

lemma pair_of_sel: "pair_low p < pair_high p \<Longrightarrow> pair_of (pair_low p) (pair_high p) = p"
  by (simp add: pair_of_def)

lemma pair_of_eq_iff: "a \<noteq> b \<Longrightarrow> pair_of a b = pair_of c d \<longleftrightarrow> {a, b} = {c, d}"
  by (auto simp: pair_of_def doubleton_eq_iff split: if_splits)

lemma pair_other_iff:
  "pair_low p < pair_high p \<Longrightarrow> pair_other p a = Some x \<longleftrightarrow> a \<noteq> x \<and> p = pair_of a x"
  by (cases p) (auto simp: pair_other_def pair_of_def)

definition linked ::
    "UserPair fset \<Rightarrow> (id16 \<times> id16) fset \<Rightarrow> (id16 \<times> id16) fset \<Rightarrow> id16 \<Rightarrow> id16 \<Rightarrow> bool" where
  "linked fs fr bl a x \<longleftrightarrow> a \<noteq> x \<and> pair_of a x |\<in>| fs \<or> (a, x) |\<in>| fr \<or> (x, a) |\<in>| fr
     \<or> (a, x) |\<in>| bl \<or> (x, a) |\<in>| bl"

abbreviation ordered_pairs :: "UserPair fset \<Rightarrow> bool" where
  "ordered_pairs fs \<equiv> \<forall>p. p |\<in>| fs \<longrightarrow> pair_low p < pair_high p"

lemma fset_fold_collect:
  "fset (fold (\<lambda>x A. case f x of Some y \<Rightarrow> finsert y A | None \<Rightarrow> A) xs A) =
     fset A \<union> {y. \<exists>x \<in> set xs. f x = Some y}"
  by (induction xs arbitrary: A) (auto split: option.splits)

lemma fset_fold_directed:
  "fset (fold (\<lambda>(from, to) peers. if from = a then finsert to peers
       else if to = a then finsert from peers else peers) xs A) =
     fset A \<union> {x. (a, x) \<in> set xs \<or> (x, a) \<in> set xs}"
  by (induction xs arbitrary: A) (auto split: prod.splits if_splits)

lemma fset_relationship_peers:
  assumes "ordered_pairs (s_friendships s)"
  shows "fset (relationship_peers s a) =
    {x. linked (s_friendships s) (s_friend_requests s) (s_blocks s) a x}"
proof -
  have "(\<exists>p \<in> fset (s_friendships s). pair_other p a = Some x) \<longleftrightarrow>
      a \<noteq> x \<and> pair_of a x |\<in>| s_friendships s" for x
    using assms pair_other_iff by (metis pair_of_ordered)
  then show ?thesis
    by (auto simp: relationship_peers_def Let_def fset_fold_collect fset_fold_directed linked_def)
qed

lemma has_pair_linked:
  "first \<noteq> second \<Longrightarrow> has_relationship_pair s first second \<longleftrightarrow>
     linked (s_friendships s) (s_friend_requests s) (s_blocks s) first second"
  by (auto simp: has_relationship_pair_def linked_def pair_of_def Let_def)

lemma linked_sym: "linked fs fr bl a x \<longleftrightarrow> linked fs fr bl x a"
  by (auto simp: linked_def pair_of_sym)

subsection \<open>The parts of the invariant\<close>

definition rel_ok :: "SocialLimits \<Rightarrow> id16 fset \<Rightarrow> UserPair fset \<Rightarrow> (id16 \<times> id16) fset \<Rightarrow>
    (id16 \<times> id16) fset \<Rightarrow> bool" where
  "rel_ok l us fs fr bl \<longleftrightarrow>
     (\<forall>p. p |\<in>| fs \<longrightarrow> pair_low p < pair_high p \<and> pair_low p |\<in>| us \<and> pair_high p |\<in>| us) \<and>
     (\<forall>a b. (a, b) |\<in>| fr \<longrightarrow> a \<noteq> b \<and> a |\<in>| us \<and> b |\<in>| us \<and> pair_of a b |\<notin>| fs \<and>
        (b, a) |\<notin>| fr \<and> (a, b) |\<notin>| bl \<and> (b, a) |\<notin>| bl) \<and>
     (\<forall>a b. (a, b) |\<in>| bl \<longrightarrow> a \<noteq> b \<and> a |\<in>| us \<and> b |\<in>| us \<and> pair_of a b |\<notin>| fs) \<and>
     (\<forall>a. a |\<in>| us \<longrightarrow> card {x. linked fs fr bl a x} \<le> max_relationships_per_user l)"

definition members_ok :: "SocialLimits \<Rightarrow> id16 fset \<Rightarrow> GroupRecord \<Rightarrow> bool" where
  "members_ok l us g \<longleftrightarrow>
     gr_max_members g \<noteq> 0 \<and> gr_max_members g \<le> max_group_members l \<and>
     fmap_len (gr_members g) \<le> gr_max_members g \<and>
     (\<exists>a. fmlookup (gr_members g) a = Some Superadmin) \<and>
     (\<forall>a. a |\<in>| fmdom (gr_members g) \<longrightarrow>
        a |\<in>| us \<and> a |\<notin>| gr_join_requests g \<and> a |\<notin>| gr_banned g) \<and>
     (\<forall>a. a |\<in>| gr_join_requests g \<longrightarrow> a |\<in>| us \<and> a |\<notin>| gr_banned g) \<and>
     (\<forall>a. a |\<in>| gr_banned g \<longrightarrow> a |\<in>| us)"

definition message_ok :: "SocialLimits \<Rightarrow> id16 fset \<Rightarrow> id16 \<Rightarrow> ChatMessage \<Rightarrow> bool" where
  "message_ok l us gid m \<longleftrightarrow> cm_group m = gid \<and> cm_sender m |\<in>| us \<and> cm_body m \<noteq> [] \<and>
     length (cm_body m) \<le> max_message_bytes l"

definition messages_ok :: "SocialLimits \<Rightarrow> id16 fset \<Rightarrow> id16 \<Rightarrow> ChatMessage list \<Rightarrow> bool" where
  "messages_ok l us gid ms \<longleftrightarrow> length ms \<le> max_messages_per_group l \<and>
     (\<forall>m \<in> set ms. message_ok l us gid m) \<and> distinct (map cm_id ms) \<and>
     map (\<lambda>m. unat (cm_sequence m)) ms = [1..<Suc (length ms)]"

definition groups_ok :: "SocialLimits \<Rightarrow> id16 fset \<Rightarrow> (id16, GroupRecord) fmap \<Rightarrow>
    (id16, ChatMessage list) fmap \<Rightarrow> bool" where
  "groups_ok l us gs msgs \<longleftrightarrow> fmdom msgs |\<subseteq>| fmdom gs \<and>
     (\<forall>gid g. fmlookup gs gid = Some g \<longrightarrow> gr_id g = gid \<and> members_ok l us g \<and>
        (\<exists>ms. fmlookup msgs gid = Some ms \<and> messages_ok l us gid ms \<and>
           unat (gr_next_message_sequence g) = Suc (length ms)))"

definition notif_ok ::
    "SocialLimits \<Rightarrow> id16 fset \<Rightarrow> u64 \<Rightarrow> id16 \<Rightarrow> id16 \<Rightarrow> NotificationRecord \<Rightarrow> bool" where
  "notif_ok l us rv rcp nid r \<longleftrightarrow> nr_id r = nid \<and> nr_recipient r = rcp \<and>
     nr_sequence r \<noteq> 0 \<and> nr_sequence r \<le> rv \<and> nr_subject r \<noteq> [] \<and> nr_content r \<noteq> [] \<and>
     str_len (nr_subject r) \<le> max_notification_text_bytes l \<and>
     str_len (nr_content r) \<le> max_notification_text_bytes l \<and>
     (\<forall>x. nr_sender r = Some x \<longrightarrow> x |\<in>| us)"

definition notifs_ok :: "SocialLimits \<Rightarrow> id16 fset \<Rightarrow> u64 \<Rightarrow>
    (id16, (id16, NotificationRecord) fmap) fmap \<Rightarrow> bool" where
  "notifs_ok l us rv ns \<longleftrightarrow> (\<forall>rcp rs. fmlookup ns rcp = Some rs \<longrightarrow>
     rcp |\<in>| us \<and> fmap_len rs \<le> max_notifications_per_user l \<and>
     (\<forall>nid r. fmlookup rs nid = Some r \<longrightarrow> notif_ok l us rv rcp nid r))"

definition receipts_ok :: "id16 fset \<Rightarrow> u64 \<Rightarrow> (id16, SocialReceipt) fmap \<Rightarrow>
    (OutboxIntentId, OutboxIntent) fmap \<Rightarrow> bool" where
  "receipts_ok us rv rs ob \<longleftrightarrow> (\<forall>c r. fmlookup rs c = Some r \<longrightarrow>
     sr_command r = c \<and> sr_actor r |\<in>| us \<and> sr_revision r \<noteq> 0 \<and> sr_revision r \<le> rv \<and>
     length (intents_of ob c) = unat (sr_outbox_count r))"

fun refs_ok :: "SocialLimits \<Rightarrow> id16 fset \<Rightarrow> (id16, GroupRecord) fmap \<Rightarrow>
    (id16, ChatMessage list) fmap \<Rightarrow> u64 \<Rightarrow> OutboxIntentPayload \<Rightarrow> bool" where
  "refs_ok l us gs msgs rv (FriendRequest a b) \<longleftrightarrow> a |\<in>| us \<and> b |\<in>| us \<and> a \<noteq> b"
| "refs_ok l us gs msgs rv (FriendAccepted a b) \<longleftrightarrow> a |\<in>| us \<and> b |\<in>| us \<and> a \<noteq> b"
| "refs_ok l us gs msgs rv (GroupJoinRequest g a) \<longleftrightarrow> a |\<in>| us \<and> g |\<in>| fmdom gs"
| "refs_ok l us gs msgs rv (GroupJoinAccepted g a m) \<longleftrightarrow> a |\<in>| us \<and> m |\<in>| us \<and> g |\<in>| fmdom gs"
| "refs_ok l us gs msgs rv (GroupRoleChange g a m r) \<longleftrightarrow> a |\<in>| us \<and> m |\<in>| us \<and> g |\<in>| fmdom gs"
| "refs_ok l us gs msgs rv (ChatMessageSend g m a q b) \<longleftrightarrow> a |\<in>| us \<and> q \<noteq> 0 \<and> b \<noteq> [] \<and>
     length b \<le> max_message_bytes l \<and>
     (\<exists>ms x. fmlookup msgs g = Some ms \<and> find (\<lambda>item. cm_id item = m) ms = Some x \<and>
        cm_group x = g \<and> cm_sender x = a \<and> cm_sequence x = q \<and> cm_body x = b)"
| "refs_ok l us gs msgs rv (NotificationDelivery a b n k t c q) \<longleftrightarrow> b |\<in>| us \<and>
     (\<forall>x. a = Some x \<longrightarrow> x |\<in>| us) \<and> q = rv \<and> t \<noteq> [] \<and> c \<noteq> [] \<and>
     str_len t \<le> max_notification_text_bytes l \<and> str_len c \<le> max_notification_text_bytes l"

definition payload_ok :: "SocialLimits \<Rightarrow> id16 fset \<Rightarrow> (id16, GroupRecord) fmap \<Rightarrow>
    (id16, ChatMessage list) fmap \<Rightarrow> SocialReceipt \<Rightarrow> OutboxIntentPayload \<Rightarrow> bool" where
  "payload_ok l us gs msgs r p \<longleftrightarrow> matches_receipt p r \<and> refs_ok l us gs msgs (sr_revision r) p"

definition outbox_ok :: "SocialLimits \<Rightarrow> id16 fset \<Rightarrow> (id16, GroupRecord) fmap \<Rightarrow>
    (id16, ChatMessage list) fmap \<Rightarrow> (id16, SocialReceipt) fmap \<Rightarrow>
    (OutboxIntentId, OutboxIntent) fmap \<Rightarrow> bool" where
  "outbox_ok l us gs msgs rs ob \<longleftrightarrow> (\<forall>i x. fmlookup ob i = Some x \<longrightarrow>
     oi_intent_id x = i \<and> oid_ordinal i \<noteq> 0 \<and>
     (\<exists>r. fmlookup rs (oid_command i) = Some r \<and>
        payload_ok l us gs msgs r (oi_intent_payload x)))"

definition sizes_ok :: "SocialRegistry \<Rightarrow> bool" where
  "sizes_ok s \<longleftrightarrow> fcard (s_users s) \<le> max_users (s_limits s) \<and>
     fmap_len (s_groups s) \<le> max_groups (s_limits s) \<and>
     fmap_len (s_receipts s) \<le> max_receipts (s_limits s) \<and>
     fmap_len (s_outbox s) \<le> max_outbox_intents (s_limits s)"

definition registry_ok :: "SocialRegistry \<Rightarrow> bool" where
  "registry_ok s \<longleftrightarrow> sizes_ok s \<and>
     rel_ok (s_limits s) (s_users s) (s_friendships s) (s_friend_requests s) (s_blocks s) \<and>
     groups_ok (s_limits s) (s_users s) (s_groups s) (s_messages s) \<and>
     notifs_ok (s_limits s) (s_users s) (s_revision s) (s_notifications s) \<and>
     receipts_ok (s_users s) (s_revision s) (s_receipts s) (s_outbox s) \<and>
     outbox_ok (s_limits s) (s_users s) (s_groups s) (s_messages s) (s_receipts s) (s_outbox s)"

subsection \<open>The check establishes each part\<close>

lemma validate_sizes_iff: "validate_sizes s = Inr () \<longleftrightarrow> sizes_ok s"
  by (auto simp: validate_sizes_def sizes_ok_def)

lemma validate_relations_iff:
  assumes "ordered_pairs (s_friendships s)"
  shows "(\<forall>p. p |\<in>| s_friendships s \<longrightarrow> validate_friendship s p = Inr ()) \<and>
     (\<forall>p. p |\<in>| s_friend_requests s \<longrightarrow> validate_friend_request s p = Inr ()) \<and>
     (\<forall>p. p |\<in>| s_blocks s \<longrightarrow> validate_block s p = Inr ()) \<and>
     (\<forall>a. a |\<in>| s_users s \<longrightarrow> validate_peers s a = Inr ()) \<longleftrightarrow>
     rel_ok (s_limits s) (s_users s) (s_friendships s) (s_friend_requests s) (s_blocks s)"
    (is "?A \<and> ?B \<and> ?C \<and> ?D \<longleftrightarrow> _")
proof -
  have peers: "?D \<longleftrightarrow> (\<forall>a. a |\<in>| s_users s \<longrightarrow>
      card {x. linked (s_friendships s) (s_friend_requests s) (s_blocks s) a x}
        \<le> max_relationships_per_user (s_limits s))"
    by (simp add: validate_peers_def fcard.rep_eq fset_relationship_peers [OF assms] not_less)
  show ?thesis
  proof
    assume *: "?A \<and> ?B \<and> ?C \<and> ?D"
    have fs: "pair_low p |\<in>| s_users s \<and> pair_high p |\<in>| s_users s"
      if "p |\<in>| s_friendships s" for p
      using * that by (simp add: validate_friendship_def)
    have fr: "a \<noteq> b \<and> a |\<in>| s_users s \<and> b |\<in>| s_users s \<and> pair_of a b |\<notin>| s_friendships s \<and>
        (b, a) |\<notin>| s_friend_requests s \<and> (a, b) |\<notin>| s_blocks s \<and> (b, a) |\<notin>| s_blocks s"
      if "(a, b) |\<in>| s_friend_requests s" for a b
    proof -
      have "validate_friend_request s (a, b) = Inr ()" using * that by blast
      then show ?thesis by (simp add: validate_friend_request_def)
    qed
    have bl: "a \<noteq> b \<and> a |\<in>| s_users s \<and> b |\<in>| s_users s \<and> pair_of a b |\<notin>| s_friendships s"
      if "(a, b) |\<in>| s_blocks s" for a b
    proof -
      have "validate_block s (a, b) = Inr ()" using * that by blast
      then show ?thesis by (simp add: validate_block_def)
    qed
    show "rel_ok (s_limits s) (s_users s) (s_friendships s) (s_friend_requests s) (s_blocks s)"
      unfolding rel_ok_def
    proof (intro conjI allI impI)
      show "pair_low p < pair_high p" if "p |\<in>| s_friendships s" for p using assms that by blast
      show "card {x. linked (s_friendships s) (s_friend_requests s) (s_blocks s) a x}
          \<le> max_relationships_per_user (s_limits s)" if "a |\<in>| s_users s" for a
        using * peers that by blast
    qed (use fs fr bl in blast)+
  next
    assume R: "rel_ok (s_limits s) (s_users s) (s_friendships s) (s_friend_requests s) (s_blocks s)"
    have fr: "a \<noteq> b \<and> pair_of a b |\<notin>| s_friendships s \<and> (b, a) |\<notin>| s_friend_requests s \<and>
        (a, b) |\<notin>| s_blocks s \<and> (b, a) |\<notin>| s_blocks s"
      if "(a, b) |\<in>| s_friend_requests s" for a b
      using R that unfolding rel_ok_def by blast
    have bl: "pair_of a b |\<notin>| s_friendships s" if "(a, b) |\<in>| s_blocks s" for a b
      using R that unfolding rel_ok_def by blast
    have us: "p |\<in>| s_friendships s \<Longrightarrow> pair_low p |\<in>| s_users s \<and> pair_high p |\<in>| s_users s" for p
      using R unfolding rel_ok_def by blast
    have fr': "a |\<in>| s_users s \<and> b |\<in>| s_users s" if "(a, b) |\<in>| s_friend_requests s" for a b
      using R that unfolding rel_ok_def by blast
    have bl': "a \<noteq> b \<and> a |\<in>| s_users s \<and> b |\<in>| s_users s \<and> (a, b) |\<notin>| s_friend_requests s \<and>
        (b, a) |\<notin>| s_friend_requests s" if "(a, b) |\<in>| s_blocks s" for a b
      using R that unfolding rel_ok_def by blast
    have ?A
    proof (intro allI impI)
      fix p assume p: "p |\<in>| s_friendships s"
      then have "pair_of (pair_low p) (pair_high p) = p"
        "pair_of (pair_high p) (pair_low p) = p"
        using assms pair_of_sel pair_of_sym by metis+
      with p have "(pair_low p, pair_high p) |\<notin>| s_friend_requests s"
        "(pair_high p, pair_low p) |\<notin>| s_friend_requests s"
        "(pair_low p, pair_high p) |\<notin>| s_blocks s" "(pair_high p, pair_low p) |\<notin>| s_blocks s"
        using fr bl by metis+
      with us [OF p] show "validate_friendship s p = Inr ()"
        by (simp add: validate_friendship_def)
    qed
    moreover have ?B
      using fr fr' by (simp add: validate_friend_request_def split_paired_All)
    moreover have ?C
      using bl bl' by (simp add: validate_block_def split_paired_All)
    moreover have ?D using R peers unfolding rel_ok_def by blast
    ultimately show "?A \<and> ?B \<and> ?C \<and> ?D" by blast
  qed
qed

lemma superadmin_count_pos:
  "0 < superadmin_count g \<longleftrightarrow> (\<exists>a. fmlookup (gr_members g) a = Some Superadmin)"
proof -
  have "0 < superadmin_count g \<longleftrightarrow>
      (\<exists>x \<in> set (entries_in_order (gr_members g)). snd x = Superadmin)"
    by (simp add: superadmin_count_def filter_empty_conv split_def)
  then show ?thesis by auto
qed

lemma validate_message_fold:
  "foldE (validate_message s gid) ms (q, ids) = Inr (e, ids') \<longleftrightarrow>
     (\<forall>m \<in> set ms. message_ok (s_limits s) (s_users s) gid m) \<and>
     distinct (map cm_id ms) \<and> cm_id ` set ms \<inter> fset ids = {} \<and>
     map (\<lambda>m. unat (cm_sequence m)) ms = [unat q..<unat q + length ms] \<and>
     unat e = unat q + length ms \<and> ids' = ids |\<union>| fset_of_list (map cm_id ms)"
proof (induction ms arbitrary: q ids)
  case Nil
  then show ?case by (auto simp: word_unat_eq_iff)
next
  case (Cons m ms)
  have upt: "[unat q..<unat q + length (m # ms)] = unat q # [Suc (unat q)..<Suc (unat q) + length ms]"
    using upt_conv_Cons [of "unat q" "unat q + length (m # ms)"] by simp
  show ?case
  proof (cases "validate_message s gid m (q, ids)")
    case (Inl err)
    then have "\<not> (message_ok (s_limits s) (s_users s) gid m \<and> cm_id m |\<notin>| ids \<and>
        unat (cm_sequence m) = unat q \<and> unat e = unat q + length (m # ms))"
      using unsigned_less [of e, where ?'a = nat]
      by (auto simp: validate_message_def message_ok_def next_revision_def tryE_Inl_iff
          checked_add_one_None unat_max_word word_unat_eq_iff split: if_splits)
    with Inl show ?thesis unfolding upt by auto
  next
    case (Inr p)
    then obtain q' where p: "p = (q', finsert (cm_id m) ids)" and q': "unat q' = Suc (unat q)"
      and ok: "message_ok (s_limits s) (s_users s) gid m" "cm_id m |\<notin>| ids"
        "cm_sequence m = q"
      by (auto simp: validate_message_def message_ok_def next_revision_def checked_add_one_Some
          split: if_splits)
    show ?thesis
      unfolding foldE.simps Inr tryE_simps p Cons.IH upt q' using ok by auto
  qed
qed

lemma validate_group_messages_iff:
  "validate_group_messages s gid g = Inr () \<longleftrightarrow>
     (\<exists>ms. fmlookup (s_messages s) gid = Some ms \<and>
        messages_ok (s_limits s) (s_users s) gid ms \<and>
        unat (gr_next_message_sequence g) = Suc (length ms))"
  by (auto simp: validate_group_messages_def messages_ok_def validate_message_fold
      word_unat_eq_iff split_paired_Ex)

lemma validate_group_fields_iff:
  assumes "unat (gr_next_message_sequence g) = Suc n"
  shows "validate_group_fields s gid g = Inr () \<longleftrightarrow> gr_id g = gid \<and>
     gr_max_members g \<noteq> 0 \<and> gr_max_members g \<le> max_group_members (s_limits s) \<and>
     fmap_len (gr_members g) \<le> gr_max_members g \<and>
     (\<exists>a. fmlookup (gr_members g) a = Some Superadmin)"
proof -
  have "gr_next_message_sequence g \<noteq> 0" using assms by auto
  moreover have "fmap_len (gr_members g) \<noteq> 0" if "0 < superadmin_count g"
    using that unfolding superadmin_count_pos fmap_len_def fcard_0_eq by (auto dest: fmdomI)
  ultimately show ?thesis
    unfolding superadmin_count_pos [symmetric] validate_group_fields_def by auto
qed

lemma validate_group_iff:
  assumes "fmdom (s_messages s) |\<subseteq>| fmdom (s_groups s)"
  shows "(\<forall>gid g. fmlookup (s_groups s) gid = Some g \<longrightarrow> validate_group s (gid, g) = Inr ()) \<longleftrightarrow>
     groups_ok (s_limits s) (s_users s) (s_groups s) (s_messages s)"
proof -
  have "validate_group s (gid, g) = Inr () \<longleftrightarrow> gr_id g = gid \<and>
      members_ok (s_limits s) (s_users s) g \<and>
      (\<exists>ms. fmlookup (s_messages s) gid = Some ms \<and>
        messages_ok (s_limits s) (s_users s) gid ms \<and>
        unat (gr_next_message_sequence g) = Suc (length ms))" for gid g
  proof (cases "validate_group_messages s gid g = Inr ()")
    case True
    then obtain n where "unat (gr_next_message_sequence g) = Suc n"
      by (auto simp: validate_group_messages_iff)
    from validate_group_fields_iff [OF this] True show ?thesis
      unfolding validate_group_messages_iff members_ok_def validate_group_def
      by (simp add: validate_group_messages_iff) blast
  next
    case False
    then show ?thesis by (simp add: validate_group_def validate_group_messages_iff) blast
  qed
  with assms show ?thesis unfolding groups_ok_def by simp
qed

lemma validate_notifications_iff:
  "(\<forall>rcp rs. fmlookup (s_notifications s) rcp = Some rs \<longrightarrow>
      validate_notifications s (rcp, rs) = Inr ()) \<longleftrightarrow>
     notifs_ok (s_limits s) (s_users s) (s_revision s) (s_notifications s)"
proof -
  have "validate_notification s rcp (nid, r) = Inr () \<longleftrightarrow>
      notif_ok (s_limits s) (s_users s) (s_revision s) rcp nid r" for rcp nid r
    by (auto simp: validate_notification_def notif_ok_def not_less split: option.splits)
  then show ?thesis
    by (auto simp: notifs_ok_def validate_notifications_def not_less)
qed

lemma validate_receipt_iff:
  "(\<forall>c r. fmlookup (s_receipts s) c = Some r \<longrightarrow> validate_receipt s (c, r) = Inr ()) \<longleftrightarrow>
     receipts_ok (s_users s) (s_revision s) (s_receipts s) (s_outbox s)"
  by (auto simp: receipts_ok_def validate_receipt_def not_less)

lemma validate_refs_iff:
  "validate_payload_refs s r p = Inr () \<longleftrightarrow>
     refs_ok (s_limits s) (s_users s) (s_groups s) (s_messages s) (sr_revision r) p"
  by (cases p) (auto simp: not_less split: option.splits)

lemma validate_outbox_iff:
  "(\<forall>i x. fmlookup (s_outbox s) i = Some x \<longrightarrow> validate_outbox_entry s (i, x) = Inr ()) \<longleftrightarrow>
     outbox_ok (s_limits s) (s_users s) (s_groups s) (s_messages s) (s_receipts s) (s_outbox s)"
  by (auto simp: outbox_ok_def validate_outbox_entry_def validate_outbox_payload_def
      payload_ok_def validate_refs_iff)

theorem validate_iff:
  assumes "ordered_pairs (s_friendships s)"
  shows "validate_invariants s = Inr () \<longleftrightarrow> registry_ok s"
proof -
  have keys: "\<not> list_ex (\<lambda>g. g |\<notin>| fmdom (s_groups s)) (keys_in_order (s_messages s)) \<longleftrightarrow>
      fmdom (s_messages s) |\<subseteq>| fmdom (s_groups s)"
    by (auto simp: list_ex_iff)
  have sub: "groups_ok l us gs ms \<Longrightarrow> fmdom ms |\<subseteq>| fmdom gs" for l us gs ms
    unfolding groups_ok_def by blast
  have "validate_invariants s = Inr () \<longleftrightarrow>
      validate_sizes s = Inr () \<and>
      ((\<forall>p. p |\<in>| s_friendships s \<longrightarrow> validate_friendship s p = Inr ()) \<and>
       (\<forall>p. p |\<in>| s_friend_requests s \<longrightarrow> validate_friend_request s p = Inr ()) \<and>
       (\<forall>p. p |\<in>| s_blocks s \<longrightarrow> validate_block s p = Inr ()) \<and>
       (\<forall>a. a |\<in>| s_users s \<longrightarrow> validate_peers s a = Inr ())) \<and>
      (fmdom (s_messages s) |\<subseteq>| fmdom (s_groups s) \<and>
       (\<forall>gid g. fmlookup (s_groups s) gid = Some g \<longrightarrow> validate_group s (gid, g) = Inr ())) \<and>
      (\<forall>rcp rs. fmlookup (s_notifications s) rcp = Some rs \<longrightarrow>
        validate_notifications s (rcp, rs) = Inr ()) \<and>
      (\<forall>c r. fmlookup (s_receipts s) c = Some r \<longrightarrow> validate_receipt s (c, r) = Inr ()) \<and>
      (\<forall>i x. fmlookup (s_outbox s) i = Some x \<longrightarrow> validate_outbox_entry s (i, x) = Inr ())"
    unfolding validate_invariants_def using keys by auto
  then show ?thesis
    using validate_group_iff [of s] sub
    unfolding registry_ok_def validate_sizes_iff validate_relations_iff [OF assms]
      validate_notifications_iff validate_receipt_iff validate_outbox_iff
    by blast
qed

end
