(* ===== verification/Social_Frame.thy ===== *)
theory Social_Frame
  imports Social_Invariant
begin

text \<open>
  The invariant of reachable registries and the frame every command shares. \<open>social_inv\<close> adds
  to the runtime-checked \<open>registry_ok\<close> what only holds because of how the operations build
  their candidates: one receipt per revision, intents numbered from one without gaps, and
  distinct notification sequences. \<open>finish_command\<close> is analysed once: on a candidate that
  satisfies \<open>plan_frame\<close> a success keeps \<open>social_inv\<close>, and if it also satisfies \<open>plan_valid\<close>
  only the two capacity guards can fail, never the validation of the candidate.
\<close>

subsection \<open>Reachable registries\<close>

definition intents_numbered :: "(id16, SocialReceipt) fmap \<Rightarrow>
    (OutboxIntentId, OutboxIntent) fmap \<Rightarrow> bool" where
  "intents_numbered rs ob \<longleftrightarrow> (\<forall>c r ord. fmlookup rs c = Some r \<longrightarrow>
     (OutboxIntentId c ord |\<in>| fmdom ob \<longleftrightarrow>
       1 \<le> unat ord \<and> unat ord \<le> unat (sr_outbox_count r)))"

definition receipts_distinct :: "(id16, SocialReceipt) fmap \<Rightarrow> bool" where
  "receipts_distinct rs \<longleftrightarrow> (\<forall>c d r q. fmlookup rs c = Some r \<longrightarrow> fmlookup rs d = Some q \<longrightarrow>
     sr_revision r = sr_revision q \<longrightarrow> c = d)"

definition notifs_distinct :: "(id16, (id16, NotificationRecord) fmap) fmap \<Rightarrow> bool" where
  "notifs_distinct ns \<longleftrightarrow> (\<forall>rcp rs m n x y. fmlookup ns rcp = Some rs \<longrightarrow>
     fmlookup rs m = Some x \<longrightarrow> fmlookup rs n = Some y \<longrightarrow> nr_sequence x = nr_sequence y \<longrightarrow> m = n)"

definition social_inv :: "SocialRegistry \<Rightarrow> bool" where
  "social_inv s \<longleftrightarrow> registry_ok s \<and> fmap_len (s_receipts s) = unat (s_revision s) \<and>
     receipts_distinct (s_receipts s) \<and> intents_numbered (s_receipts s) (s_outbox s) \<and>
     notifs_distinct (s_notifications s)"

lemma social_inv_parts:
  assumes "social_inv s"
  shows "sizes_ok s"
    and "rel_ok (s_limits s) (s_users s) (s_friendships s) (s_friend_requests s) (s_blocks s)"
    and "groups_ok (s_limits s) (s_users s) (s_groups s) (s_messages s)"
    and "notifs_ok (s_limits s) (s_users s) (s_revision s) (s_notifications s)"
    and "receipts_ok (s_users s) (s_revision s) (s_receipts s) (s_outbox s)"
    and "outbox_ok (s_limits s) (s_users s) (s_groups s) (s_messages s) (s_receipts s) (s_outbox s)"
    and "fmap_len (s_receipts s) = unat (s_revision s)"
    and "receipts_distinct (s_receipts s)"
    and "intents_numbered (s_receipts s) (s_outbox s)"
    and "notifs_distinct (s_notifications s)"
  using assms by (simp_all add: social_inv_def registry_ok_def)

lemma rel_ok_ordered: "rel_ok l us fs fr bl \<Longrightarrow> ordered_pairs fs"
  unfolding rel_ok_def by blast

lemma social_inv_validates: "social_inv s \<Longrightarrow> validate_invariants s = Inr ()"
  using validate_iff [OF rel_ok_ordered [OF social_inv_parts(2)]] by (simp add: social_inv_def)

lemma social_inv_new: "social_inv (social_new config)"
proof -
  have "rel_ok l {||} {||} {||} {||}" for l by (simp add: rel_ok_def)
  moreover have "groups_ok l us fmempty fmempty" for l us by (simp add: groups_ok_def)
  ultimately show ?thesis
    by (simp add: social_inv_def registry_ok_def social_new_def sizes_ok_def notifs_ok_def
        receipts_ok_def outbox_ok_def receipts_distinct_def intents_numbered_def
        notifs_distinct_def fcard_fempty)
qed

subsection \<open>Intents\<close>

lemma fold_insert_intent:
  assumes "k + length xs < 2 ^ 16"
  shows "\<exists>ob'. foldE (insert_intent c) (enumerate k xs) ob = Inr ob' \<and>
    (\<forall>i. fmlookup ob' i =
      (if oid_command i = c \<and> k < unat (oid_ordinal i) \<and> unat (oid_ordinal i) \<le> k + length xs
       then Some \<lparr>oi_intent_id = i, oi_intent_payload = xs ! (unat (oid_ordinal i) - Suc k)\<rparr>
       else fmlookup ob i)) \<and>
    fmap_len ob' \<le> fmap_len ob + length xs"
  using assms
proof (induction xs arbitrary: k ob)
  case Nil
  then show ?case by auto
next
  case (Cons x xs)
  let ?id = "OutboxIntentId c (of_nat (Suc k))"
  let ?ob = "fmupd ?id \<lparr>oi_intent_id = ?id, oi_intent_payload = x\<rparr> ob"
  have u: "unat (of_nat (Suc k) :: u16) = Suc k"
    using Cons.prems unat_of_nat_eq [of "Suc k", where ?'a = 16] by simp
  have step: "insert_intent c (k, x) ob = Inr ?ob"
    using Cons.prems by (simp add: insert_intent_def u16_try_from_def Let_def)
  from Cons.IH [of "Suc k" ?ob] Cons.prems obtain ob' where ob':
    "foldE (insert_intent c) (enumerate (Suc k) xs) ?ob = Inr ob'"
    "\<And>i. fmlookup ob' i =
      (if oid_command i = c \<and> Suc k < unat (oid_ordinal i) \<and>
          unat (oid_ordinal i) \<le> Suc k + length xs
       then Some \<lparr>oi_intent_id = i, oi_intent_payload = xs ! (unat (oid_ordinal i) - Suc (Suc k))\<rparr>
       else fmlookup ?ob i)"
    "fmap_len ob' \<le> fmap_len ?ob + length xs"
    by auto
  have "fmlookup ob' i =
      (if oid_command i = c \<and> k < unat (oid_ordinal i) \<and>
          unat (oid_ordinal i) \<le> k + length (x # xs)
       then Some \<lparr>oi_intent_id = i, oi_intent_payload = (x # xs) ! (unat (oid_ordinal i) - Suc k)\<rparr>
       else fmlookup ob i)" for i
  proof (cases "unat (oid_ordinal i) = Suc k \<and> oid_command i = c")
    case True
    then have "oid_ordinal i = of_nat (Suc k)" using u by (simp only: word_unat_eq_iff)
    then have "i = ?id" using True by (cases i) simp
    with ob'(2) [of i] True show ?thesis by simp
  next
    case False
    then have "i \<noteq> ?id" using u by auto
    have "unat (oid_ordinal i) - Suc k = Suc (unat (oid_ordinal i) - Suc (Suc k))"
      if "Suc k < unat (oid_ordinal i)" using that by simp
    with ob'(2) [of i] False \<open>i \<noteq> ?id\<close> show ?thesis by auto
  qed
  moreover have "fmap_len ob' \<le> fmap_len ob + length (x # xs)"
    using ob'(3) fmap_len_upd_le [of ?id _ ob] by (simp add: le_trans)
  ultimately show ?case using ob'(1) step by auto
qed

lemma intents_of_card:
  assumes "\<And>i x. fmlookup ob i = Some x \<Longrightarrow> oi_intent_id x = i"
  shows "length (intents_of ob c) = card {i. i |\<in>| fmdom ob \<and> oid_command i = c}"
proof -
  have "length (intents_of ob c) =
      card {(i, x). fmlookup ob i = Some x \<and> oid_command (oi_intent_id x) = c}"
    using length_filter_entries [of "\<lambda>p. oid_command (oi_intent_id (snd p)) = c" ob]
    by (simp add: intents_of_def filter_map o_def split_def)
  also have "\<dots> = card {i. i |\<in>| fmdom ob \<and> oid_command i = c}"
    by (rule bij_betw_same_card [of fst])
      (use assms in \<open>auto simp: bij_betw_def inj_on_def fmlookup_dom_iff image_iff\<close>)
  finally show ?thesis .
qed

lemma card_ordinals:
  assumes "n < 2 ^ 16"
  shows "card {i. oid_command i = c \<and> 0 < unat (oid_ordinal i) \<and> unat (oid_ordinal i) \<le> n} = n"
proof -
  have "bij_betw (\<lambda>i. unat (oid_ordinal i))
      {i. oid_command i = c \<and> 0 < unat (oid_ordinal i) \<and> unat (oid_ordinal i) \<le> n} {1..n}"
  proof (rule bij_betw_byWitness [where f' = "\<lambda>k. OutboxIntentId c (of_nat k)"])
    show "\<forall>k \<in> {1..n}. unat (oid_ordinal (OutboxIntentId c (of_nat k))) = k"
      using assms by (auto simp: unat_of_nat_eq)
    show "(\<lambda>k. OutboxIntentId c (of_nat k)) ` {1..n} \<subseteq>
        {i. oid_command i = c \<and> 0 < unat (oid_ordinal i) \<and> unat (oid_ordinal i) \<le> n}"
      using assms by (auto simp: unat_of_nat_eq)
  qed auto
  then show ?thesis by (simp add: bij_betw_same_card)
qed

subsection \<open>Finishing a command\<close>

definition completion_receipt :: "CommandCompletion \<Rightarrow> SocialReceipt" where
  "completion_receipt k = \<lparr>sr_command = cc_command k, sr_fingerprint = cc_fingerprint k,
     sr_actor = cc_actor k, sr_revision = cc_revision k, sr_outcome = cc_outcome k,
     sr_outbox_count = of_nat (length (cc_intents k))\<rparr>"

definition capacity_error :: "SocialError \<Rightarrow> bool" where
  "capacity_error e \<longleftrightarrow> se_code e = ResourceExhausted \<or> se_code e = OutOfRange"

definition plan_frame :: "SocialRegistry \<Rightarrow> SocialRegistry \<Rightarrow> CommandCompletion \<Rightarrow> bool" where
  "plan_frame s c k \<longleftrightarrow> s_config c = s_config s \<and> s_users c = s_users s \<and>
     s_receipts c = s_receipts s \<and> s_outbox c = s_outbox s \<and>
     ordered_pairs (s_friendships c) \<and> notifs_distinct (s_notifications c) \<and>
     unat (cc_revision k) = Suc (unat (s_revision s)) \<and>
     fmlookup (s_receipts s) (cc_command k) = None \<and> length (cc_intents k) < 2 ^ 16"

definition plan_valid :: "SocialRegistry \<Rightarrow> SocialRegistry \<Rightarrow> CommandCompletion \<Rightarrow> bool" where
  "plan_valid s c k \<longleftrightarrow> fmap_len (s_groups c) \<le> max_groups (s_limits s) \<and>
     rel_ok (s_limits s) (s_users s) (s_friendships c) (s_friend_requests c) (s_blocks c) \<and>
     groups_ok (s_limits s) (s_users s) (s_groups c) (s_messages c) \<and>
     notifs_ok (s_limits s) (s_users s) (cc_revision k) (s_notifications c) \<and>
     (\<forall>rv p. refs_ok (s_limits s) (s_users s) (s_groups s) (s_messages s) rv p \<longrightarrow>
        refs_ok (s_limits s) (s_users s) (s_groups c) (s_messages c) rv p) \<and>
     cc_actor k |\<in>| s_users s \<and>
     (\<forall>p \<in> set (cc_intents k). payload_ok (s_limits s) (s_users s) (s_groups c) (s_messages c)
        (completion_receipt k) p)"

text \<open>What a finished candidate looks like.\<close>

definition finished_as ::
    "SocialRegistry \<Rightarrow> CommandCompletion \<Rightarrow> SocialRegistry \<Rightarrow> bool" where
  "finished_as c k t \<longleftrightarrow> (\<exists>ob. t = c\<lparr>s_revision := cc_revision k,
     s_receipts := fmupd (cc_command k) (completion_receipt k) (s_receipts c), s_outbox := ob\<rparr> \<and>
     (\<forall>i. fmlookup ob i =
        (if oid_command i = cc_command k \<and> 0 < unat (oid_ordinal i) \<and>
            unat (oid_ordinal i) \<le> length (cc_intents k)
         then Some \<lparr>oi_intent_id = i,
           oi_intent_payload = cc_intents k ! (unat (oid_ordinal i) - 1)\<rparr>
         else fmlookup (s_outbox c) i)) \<and>
     fmap_len ob \<le> fmap_len (s_outbox c) + length (cc_intents k))"

definition has_room :: "SocialRegistry \<Rightarrow> CommandCompletion \<Rightarrow> bool" where
  "has_room s k \<longleftrightarrow> fmap_len (s_receipts s) < max_receipts (s_limits s) \<and>
     fmap_len (s_outbox s) + length (cc_intents k) < 2 ^ 64 \<and>
     fmap_len (s_outbox s) + length (cc_intents k) \<le> max_outbox_intents (s_limits s)"

lemma finish_command_cases:
  assumes "length (cc_intents k) < 2 ^ 16"
  obtains (capacity) e where "finish_command s c k = Inl e" "capacity_error e" "\<not> has_room s k"
  | (checked) t where "finished_as c k t"
      "finish_command s c k =
         tryE (validate_invariants t) (\<lambda>_. Inr (t, completion_receipt k))"
      "has_room s k"
proof (cases "max_receipts (s_limits s) \<le> fmap_len (s_receipts s)")
  case True
  then have "finish_command s c k = Inl (social_error ResourceExhausted ''receipt_capacity_exhausted'')"
    by (simp add: finish_command_def)
  then show thesis
    by (rule capacity) (use True in \<open>simp_all add: capacity_error_def has_room_def\<close>)
next
  case notfull: False
  show thesis
  proof (cases "usize_checked_add (fmap_len (s_outbox s)) (length (cc_intents k))")
    case None
    with notfull have
      "finish_command s c k = Inl (social_error OutOfRange ''outbox_capacity_overflow'')"
      by (simp add: finish_command_def)
    then show thesis
      by (rule capacity) (use None in \<open>simp_all add: capacity_error_def has_room_def
        usize_checked_add_def split: if_splits\<close>)
  next
    case (Some n)
    then have n: "n = fmap_len (s_outbox s) + length (cc_intents k)"
      by (simp add: usize_checked_add_def split: if_splits)
    show thesis
    proof (cases "max_outbox_intents (s_limits s) < n")
      case True
      with notfull Some have
        "finish_command s c k = Inl (social_error ResourceExhausted ''outbox_capacity_exhausted'')"
        by (simp add: finish_command_def)
      then show thesis
      by (rule capacity) (use True n in \<open>simp_all add: capacity_error_def has_room_def
        usize_checked_add_def split: if_splits\<close>)
    next
      case False
      from fold_insert_intent [of 0 "cc_intents k" "cc_command k" "s_outbox c"] assms
      obtain ob where ob:
        "foldE (insert_intent (cc_command k)) (enumerate 0 (cc_intents k)) (s_outbox c) = Inr ob"
        "\<forall>i. fmlookup ob i =
          (if oid_command i = cc_command k \<and> 0 < unat (oid_ordinal i) \<and>
              unat (oid_ordinal i) \<le> length (cc_intents k)
           then Some \<lparr>oi_intent_id = i,
             oi_intent_payload = cc_intents k ! (unat (oid_ordinal i) - 1)\<rparr>
           else fmlookup (s_outbox c) i)"
        "fmap_len ob \<le> fmap_len (s_outbox c) + length (cc_intents k)"
        by auto
      let ?t = "c\<lparr>s_revision := cc_revision k,
        s_receipts := fmupd (cc_command k) (completion_receipt k) (s_receipts c), s_outbox := ob\<rparr>"
      show thesis
      proof (rule checked)
        show "finished_as c k ?t" unfolding finished_as_def using ob(2,3) by blast
        show "finish_command s c k =
            tryE (validate_invariants ?t) (\<lambda>_. Inr (?t, completion_receipt k))"
          using notfull Some False ob(1) assms
          by (simp add: finish_command_def u16_try_from_def completion_receipt_def Let_def)
        show "has_room s k"
          using notfull False n Some
          by (simp add: has_room_def usize_checked_add_def split: if_splits)
      qed
    qed
  qed
qed

lemma finished_fields:
  assumes "finished_as c k t"
  shows "s_config t = s_config c" "s_users t = s_users c" "s_friendships t = s_friendships c"
    "s_friend_requests t = s_friend_requests c" "s_blocks t = s_blocks c"
    "s_groups t = s_groups c" "s_messages t = s_messages c"
    "s_notifications t = s_notifications c" "s_revision t = cc_revision k"
    "s_receipts t = fmupd (cc_command k) (completion_receipt k) (s_receipts c)"
  using assms by (auto simp: finished_as_def)

lemma finished_outbox:
  assumes "finished_as c k t"
  shows "fmlookup (s_outbox t) i =
      (if oid_command i = cc_command k \<and> 0 < unat (oid_ordinal i) \<and>
          unat (oid_ordinal i) \<le> length (cc_intents k)
       then Some \<lparr>oi_intent_id = i,
         oi_intent_payload = cc_intents k ! (unat (oid_ordinal i) - 1)\<rparr>
       else fmlookup (s_outbox c) i)"
    and "fmap_len (s_outbox t) \<le> fmap_len (s_outbox c) + length (cc_intents k)"
  using assms by (auto simp: finished_as_def)

lemma finish_command_Inr:
  assumes "finish_command s c k = Inr (t, r)" and "length (cc_intents k) < 2 ^ 16"
  shows "finished_as c k t" "r = completion_receipt k" "validate_invariants t = Inr ()"
proof -
  have "finished_as c k t \<and> r = completion_receipt k \<and> validate_invariants t = Inr ()"
  proof (cases rule: finish_command_cases [OF assms(2), of s c])
    case (1 e)
    then show ?thesis using assms(1) by simp
  next
    case (2 u)
    with assms(1) have "u = t" "r = completion_receipt k" "validate_invariants u = Inr ()"
      by auto
    with 2 show ?thesis by simp
  qed
  then show "finished_as c k t" "r = completion_receipt k" "validate_invariants t = Inr ()"
    by simp_all
qed

subsection \<open>The invariant across a finished command\<close>

lemma no_intents_without_receipt:
  assumes "social_inv s" and "fmlookup (s_receipts s) c = None"
  shows "fmlookup (s_outbox s) i = None \<or> oid_command i \<noteq> c"
  using social_inv_parts(6) [OF assms(1)] assms(2) unfolding outbox_ok_def by fastforce

lemma finished_extras:
  assumes inv: "social_inv s" and frame: "plan_frame s c k" and fin: "finished_as c k t"
  shows "fmap_len (s_receipts t) = unat (s_revision t)" "receipts_distinct (s_receipts t)"
    "intents_numbered (s_receipts t) (s_outbox t)" "notifs_distinct (s_notifications t)"
proof -
  have rs: "s_receipts t = fmupd (cc_command k) (completion_receipt k) (s_receipts s)"
    and rv: "s_revision t = cc_revision k" "unat (cc_revision k) = Suc (unat (s_revision s))"
    and fresh: "fmlookup (s_receipts s) (cc_command k) = None"
    and len: "length (cc_intents k) < 2 ^ 16"
    using frame finished_fields [OF fin] by (simp_all add: plan_frame_def)
  show "fmap_len (s_receipts t) = unat (s_revision t)"
    using social_inv_parts(7) [OF inv] by (simp add: rs rv fmap_len_upd_new [OF fresh])
  have old: "sr_revision r \<noteq> cc_revision k" if "fmlookup (s_receipts s) d = Some r" for d r
  proof -
    have "unat (sr_revision r) \<le> unat (s_revision s)"
      using social_inv_parts(5) [OF inv] that unfolding receipts_ok_def word_le_nat_alt by blast
    with rv(2) show ?thesis by auto
  qed
  with social_inv_parts(8) [OF inv] show "receipts_distinct (s_receipts t)"
    unfolding receipts_distinct_def rs
    by (metis (no_types, lifting) SocialReceipt.select_convs(4) completion_receipt_def
        fmupd_lookup option.inject)
  show "notifs_distinct (s_notifications t)"
    using frame finished_fields [OF fin] by (simp add: plan_frame_def)
  show "intents_numbered (s_receipts t) (s_outbox t)"
    unfolding intents_numbered_def
  proof (intro allI impI)
    fix d r ord assume r: "fmlookup (s_receipts t) d = Some r"
    have ob: "s_outbox c = s_outbox s" using frame by (simp add: plan_frame_def)
    show "OutboxIntentId d ord |\<in>| fmdom (s_outbox t) \<longleftrightarrow>
        1 \<le> unat ord \<and> unat ord \<le> unat (sr_outbox_count r)"
    proof (cases "d = cc_command k")
      case True
      then have "unat (sr_outbox_count r) = length (cc_intents k)"
        using r len unat_of_nat_eq [of "length (cc_intents k)", where ?'a = 16]
        by (auto simp: rs completion_receipt_def)
      moreover have "fmlookup (s_outbox s) (OutboxIntentId d ord) = None"
        using no_intents_without_receipt [OF inv fresh, of "OutboxIntentId d ord"] True by simp
      ultimately show ?thesis
        using True by (auto simp: fmlookup_dom_iff finished_outbox(1) [OF fin] ob)
    next
      case False
      then have "fmlookup (s_receipts s) d = Some r" using r by (simp add: rs)
      moreover have "OutboxIntentId d ord |\<in>| fmdom (s_outbox t) \<longleftrightarrow>
          OutboxIntentId d ord |\<in>| fmdom (s_outbox s)"
        using False by (simp add: fmlookup_dom_iff finished_outbox(1) [OF fin] ob)
      ultimately show ?thesis
        using social_inv_parts(9) [OF inv] unfolding intents_numbered_def by blast
    qed
  qed
qed

lemma finish_command_inv:
  assumes "social_inv s" and "plan_frame s c k" and "finish_command s c k = Inr (t, r)"
  shows "social_inv t"
proof -
  have len: "length (cc_intents k) < 2 ^ 16" using assms(2) by (simp add: plan_frame_def)
  note fin = finish_command_Inr [OF assms(3) len]
  have "ordered_pairs (s_friendships t)"
    using assms(2) finished_fields(3) [OF fin(1)] by (simp add: plan_frame_def)
  then have "registry_ok t" using fin(3) validate_iff by blast
  then show ?thesis
    using finished_extras [OF assms(1,2) fin(1)] by (simp add: social_inv_def)
qed

lemma finished_receipts_ok:
  assumes inv: "social_inv s" and frame: "plan_frame s c k" and fin: "finished_as c k t"
    and actor: "cc_actor k |\<in>| s_users s"
  shows "receipts_ok (s_users t) (s_revision t) (s_receipts t) (s_outbox t)"
proof -
  have rs: "s_receipts t = fmupd (cc_command k) (completion_receipt k) (s_receipts s)"
    and rv: "s_revision t = cc_revision k" "unat (cc_revision k) = Suc (unat (s_revision s))"
    and us: "s_users t = s_users s" and ob: "s_outbox c = s_outbox s"
    and fresh: "fmlookup (s_receipts s) (cc_command k) = None"
    and len: "length (cc_intents k) < 2 ^ 16"
    using frame finished_fields [OF fin] by (simp_all add: plan_frame_def)
  have id_s: "oi_intent_id x = i" if "fmlookup (s_outbox s) i = Some x" for i x
    using social_inv_parts(6) [OF inv] that unfolding outbox_ok_def by blast
  have id_t: "oi_intent_id x = i" if "fmlookup (s_outbox t) i = Some x" for i x
    using that id_s by (auto simp: finished_outbox(1) [OF fin] ob split: if_splits)
  have count: "length (intents_of (s_outbox t) d) =
      (if d = cc_command k then length (cc_intents k) else length (intents_of (s_outbox s) d))" for d
  proof (cases "d = cc_command k")
    case True
    have "i |\<in>| fmdom (s_outbox t) \<and> oid_command i = d \<longleftrightarrow>
        oid_command i = d \<and> 0 < unat (oid_ordinal i) \<and> unat (oid_ordinal i) \<le> length (cc_intents k)"
      for i
      using no_intents_without_receipt [OF inv fresh, of i] True
      by (auto simp: fmlookup_dom_iff finished_outbox(1) [OF fin] ob)
    then show ?thesis
      using True card_ordinals [OF len] by (simp add: intents_of_card [OF id_t])
  next
    case False
    then have "i |\<in>| fmdom (s_outbox t) \<and> oid_command i = d \<longleftrightarrow>
        i |\<in>| fmdom (s_outbox s) \<and> oid_command i = d" for i
      by (auto simp: fmlookup_dom_iff finished_outbox(1) [OF fin] ob)
    then show ?thesis
      using False by (simp add: intents_of_card [OF id_t] intents_of_card [OF id_s])
  qed
  show ?thesis
    unfolding receipts_ok_def
  proof (intro allI impI)
    fix d r assume r: "fmlookup (s_receipts t) d = Some r"
    show "sr_command r = d \<and> sr_actor r |\<in>| s_users t \<and> sr_revision r \<noteq> 0 \<and>
        sr_revision r \<le> s_revision t \<and>
        length (intents_of (s_outbox t) d) = unat (sr_outbox_count r)"
    proof (cases "d = cc_command k")
      case True
      then have r': "r = completion_receipt k" using r by (simp add: rs)
      have "cc_revision k \<noteq> 0" using rv(2) by auto
      then show ?thesis
        using True actor len
        by (simp add: r' completion_receipt_def us rv(1) count unat_of_nat_eq)
    next
      case False
      then have "fmlookup (s_receipts s) d = Some r" using r by (simp add: rs)
      then have "sr_command r = d \<and> sr_actor r |\<in>| s_users s \<and> sr_revision r \<noteq> 0 \<and>
          sr_revision r \<le> s_revision s \<and>
          length (intents_of (s_outbox s) d) = unat (sr_outbox_count r)"
        using social_inv_parts(5) [OF inv] unfolding receipts_ok_def by blast
      moreover have "s_revision s \<le> cc_revision k" using rv(2) by (simp add: word_le_nat_alt)
      ultimately show ?thesis using False by (auto simp: us rv(1) count)
    qed
  qed
qed

lemma finished_outbox_ok:
  assumes inv: "social_inv s" and frame: "plan_frame s c k" and valid: "plan_valid s c k"
    and fin: "finished_as c k t"
  shows "outbox_ok (s_limits t) (s_users t) (s_groups t) (s_messages t) (s_receipts t) (s_outbox t)"
  unfolding outbox_ok_def
proof (intro allI impI)
  have same: "s_receipts t = fmupd (cc_command k) (completion_receipt k) (s_receipts s)"
    "s_users t = s_users s" "s_outbox c = s_outbox s" "s_config t = s_config s"
    "s_groups t = s_groups c" "s_messages t = s_messages c"
    and fresh: "fmlookup (s_receipts s) (cc_command k) = None"
    using frame finished_fields [OF fin] by (simp_all add: plan_frame_def)
  fix i x assume x: "fmlookup (s_outbox t) i = Some x"
  show "oi_intent_id x = i \<and> oid_ordinal i \<noteq> 0 \<and>
      (\<exists>r. fmlookup (s_receipts t) (oid_command i) = Some r \<and>
        payload_ok (s_limits t) (s_users t) (s_groups t) (s_messages t) r (oi_intent_payload x))"
  proof (cases "oid_command i = cc_command k \<and> 0 < unat (oid_ordinal i) \<and>
      unat (oid_ordinal i) \<le> length (cc_intents k)")
    case True
    with x have x': "x = \<lparr>oi_intent_id = i,
        oi_intent_payload = cc_intents k ! (unat (oid_ordinal i) - 1)\<rparr>"
      by (simp add: finished_outbox(1) [OF fin])
    have "cc_intents k ! (unat (oid_ordinal i) - 1) \<in> set (cc_intents k)"
      using True by (intro nth_mem) linarith
    with valid have "payload_ok (s_limits s) (s_users s) (s_groups c) (s_messages c)
        (completion_receipt k) (cc_intents k ! (unat (oid_ordinal i) - 1))"
      unfolding plan_valid_def by blast
    moreover have "oid_ordinal i \<noteq> 0" using True by auto
    ultimately show ?thesis using True by (simp add: x' same)
  next
    case False
    with x have x': "fmlookup (s_outbox s) i = Some x"
      by (simp add: finished_outbox(1) [OF fin] same split: if_splits)
    with social_inv_parts(6) [OF inv] obtain r where "oi_intent_id x = i" "oid_ordinal i \<noteq> 0"
      and r: "fmlookup (s_receipts s) (oid_command i) = Some r"
        "payload_ok (s_limits s) (s_users s) (s_groups s) (s_messages s) r (oi_intent_payload x)"
      unfolding outbox_ok_def by blast
    moreover have "payload_ok (s_limits s) (s_users s) (s_groups c) (s_messages c) r
        (oi_intent_payload x)"
      using r(2) valid unfolding payload_ok_def plan_valid_def by blast
    moreover have "oid_command i \<noteq> cc_command k" using r(1) fresh by auto
    ultimately show ?thesis by (simp add: same)
  qed
qed

lemma finish_command_total:
  assumes inv: "social_inv s" and frame: "plan_frame s c k" and valid: "plan_valid s c k"
  obtains (capacity) e where "finish_command s c k = Inl e" "capacity_error e"
  | (finished) t where "finish_command s c k = Inr (t, completion_receipt k)" "finished_as c k t"
      "social_inv t"
proof -
  have len: "length (cc_intents k) < 2 ^ 16" using frame by (simp add: plan_frame_def)
  show thesis
  proof (cases rule: finish_command_cases [OF len, of s c])
    case (1 e)
    then show thesis by (intro capacity)
  next
    case (2 t)
    note f = finished_fields [OF 2(1)]
    have same: "s_config c = s_config s" "s_users c = s_users s" "s_outbox c = s_outbox s"
      "s_receipts c = s_receipts s" "fmlookup (s_receipts s) (cc_command k) = None"
      using frame by (simp_all add: plan_frame_def)
    have "sizes_ok t"
      using social_inv_parts(1) [OF inv] valid 2(3) finished_outbox(2) [OF 2(1)]
      by (simp add: sizes_ok_def f same plan_valid_def fmap_len_upd_new has_room_def)
    then have "registry_ok t"
      using valid finished_receipts_ok [OF inv frame 2(1)] finished_outbox_ok [OF inv frame valid 2(1)]
      unfolding registry_ok_def plan_valid_def by (simp add: f same)
    moreover have "ordered_pairs (s_friendships t)"
      using frame by (simp add: f plan_frame_def)
    ultimately have "validate_invariants t = Inr ()" using validate_iff by blast
    then have "finish_command s c k = Inr (t, completion_receipt k)" by (simp add: 2(2))
    then show thesis using 2(1) finish_command_inv [OF inv frame] by (intro finished) blast+
  qed
qed

end
