(* ===== verification/Social_Proofs.thy ===== *)
theory Social_Proofs
  imports Social_Frame Machine
begin

text \<open>
  Every command of the social registry is sound: on a registry that satisfies \<open>social_inv\<close>
  its guards either answer with an ordinary error or lead to a candidate for which
  \<open>finish_command\<close> keeps the invariant and, for well-formed requests, cannot fail the
  validation. The proofs follow the guards of each command with the rules \<open>sound_intros\<close>;
  what is left is that the candidate is a valid plan, which three lemmas establish for the
  three kinds of changes: relationships, one group record, notifications.
\<close>

subsection \<open>Sound command bodies\<close>

definition sound :: "SocialRegistry \<Rightarrow> id16 \<Rightarrow> digest32 \<Rightarrow> id16 \<Rightarrow> ReceiptOutcome list \<Rightarrow> bool \<Rightarrow>
    SocialError + SocialRegistry \<times> SocialReceipt \<Rightarrow> bool" where
  "sound s command fingerprint actor allowed w body \<longleftrightarrow>
     (\<exists>e. body = Inl e \<and> se_code e \<noteq> DataLoss) \<or>
     (\<exists>c k. body = finish_command s c k \<and> plan_frame s c k \<and> (w \<longrightarrow> plan_valid s c k) \<and>
        cc_command k = command \<and> cc_fingerprint k = fingerprint \<and> cc_actor k = actor \<and>
        cc_outcome k \<in> set allowed)"

definition ordinary :: "SocialError + 'a \<Rightarrow> bool" where
  "ordinary r \<longleftrightarrow> (\<forall>e. r = Inl e \<longrightarrow> se_code e \<noteq> DataLoss)"

named_theorems sound_intros \<open>rules that follow the guards of a command\<close>
named_theorems ordinary_intros \<open>guards that fail with ordinary errors only\<close>

lemma sound_error [sound_intros]:
  "code \<noteq> DataLoss \<Longrightarrow> sound s c f a os w (Inl (social_error code reason))"
  by (simp add: sound_def)

lemma sound_if [sound_intros]:
  "(b \<Longrightarrow> sound s c f a os w r) \<Longrightarrow> (\<not> b \<Longrightarrow> sound s c f a os w r') \<Longrightarrow>
     sound s c f a os w (if b then r else r')"
  by simp

lemma sound_tryE [sound_intros]:
  "ordinary r \<Longrightarrow> (\<And>x. r = Inr x \<Longrightarrow> sound s c f a os w (k x)) \<Longrightarrow> sound s c f a os w (tryE r k)"
  by (cases r) (auto simp: ordinary_def sound_def)

lemma sound_finish:
  assumes "plan_frame s c k" and "w \<Longrightarrow> plan_valid s c k" and "cc_outcome k \<in> set os"
    and "cc_command k = i" and "cc_fingerprint k = f" and "cc_actor k = a"
  shows "sound s i f a os w (finish_command s c k)"
  using assms unfolding sound_def by blast

lemma ordinary_guards [ordinary_intros, simp]:
  "ordinary (ensure_known_user s a)"
  "ordinary (UserPair_new a b)"
  "ordinary (next_command_revision s)"
  "ordinary (next_revision v reason)"
  "ordinary (get_group s g)"
  "ordinary (require_group_role gr a r)"
  "ordinary (ensure_relationship_capacity s a b)"
  "ordinary (request_allowed view)"
  "ordinary (Inr x)"
  "code \<noteq> DataLoss \<Longrightarrow> ordinary (Inl (social_error code reason))"
  "code \<noteq> DataLoss \<Longrightarrow> ordinary (ok_or (social_error code reason) opt)"
  by (auto simp: ordinary_def ensure_known_user_def UserPair_new_def next_command_revision_def
      next_revision_def get_group_def require_group_role_def ensure_relationship_capacity_def
      request_allowed_def tryE_Inl_iff split: if_splits RelationshipView.splits)

lemma ordinary_relationship [ordinary_intros, simp]: "ordinary (relationship s a b)"
  using ordinary_guards(1) [of s a] ordinary_guards(1) [of s b] ordinary_guards(2) [of a b]
  unfolding ordinary_def relationship_def Let_def
  by (auto simp: tryE_Inl_iff split: if_splits)

lemma ordinary_Inr_known: "r = Inr x \<Longrightarrow> ordinary r"
  by (simp add: ordinary_def)

lemma next_command_revision_Inr:
  "next_command_revision s = Inr v \<longleftrightarrow> unat v = Suc (unat (s_revision s))"
  by (simp add: next_command_revision_def next_revision_def checked_add_one_Some)

lemma relationship_none_iff:
  "relationship s a b = Inr NoRelation \<longleftrightarrow> a |\<in>| s_users s \<and> b |\<in>| s_users s \<and> a \<noteq> b \<and>
     (a, b) |\<notin>| s_blocks s \<and> (b, a) |\<notin>| s_blocks s \<and> pair_of a b |\<notin>| s_friendships s \<and>
     (a, b) |\<notin>| s_friend_requests s \<and> (b, a) |\<notin>| s_friend_requests s"
  by (auto simp: relationship_def Let_def)

lemma request_allowed_Inr [simp]: "request_allowed v = Inr u \<longleftrightarrow> v = NoRelation"
  by (cases v) (simp_all add: request_allowed_def)

subsection \<open>Valid plans\<close>

lemma notifs_ok_mono:
  "notifs_ok l us rv ns \<Longrightarrow> unat rv \<le> unat rv' \<Longrightarrow> notifs_ok l us rv' ns"
  unfolding notifs_ok_def notif_ok_def word_le_nat_alt by (meson le_trans)

definition fresh_completion :: "SocialRegistry \<Rightarrow> CommandCompletion \<Rightarrow> bool" where
  "fresh_completion s k \<longleftrightarrow> unat (cc_revision k) = Suc (unat (s_revision s)) \<and>
     fmlookup (s_receipts s) (cc_command k) = None \<and> length (cc_intents k) < 2 ^ 16 \<and>
     cc_actor k |\<in>| s_users s"

text \<open>A candidate that differs from the registry only in its relationships.\<close>

lemma plan_relations:
  assumes inv: "social_inv s" and k: "fresh_completion s k"
    and c: "c = s\<lparr>s_friendships := fs, s_friend_requests := fr, s_blocks := bl\<rparr>"
    and rel: "rel_ok (s_limits s) (s_users s) fs fr bl"
    and p: "\<forall>p \<in> set (cc_intents k). payload_ok (s_limits s) (s_users s) (s_groups s)
      (s_messages s) (completion_receipt k) p"
  shows "plan_frame s c k \<and> plan_valid s c k"
proof
  show "plan_frame s c k"
    using k rel_ok_ordered [OF rel] social_inv_parts(10) [OF inv]
    by (simp add: plan_frame_def c fresh_completion_def)
  have "notifs_ok (s_limits s) (s_users s) (cc_revision k) (s_notifications s)"
    using k by (intro notifs_ok_mono [OF social_inv_parts(4) [OF inv]])
      (simp add: fresh_completion_def)
  then show "plan_valid s c k"
    using k rel p social_inv_parts(1,3) [OF inv]
    by (simp add: plan_valid_def c sizes_ok_def fresh_completion_def)
qed

lemma rel_okD:
  assumes "rel_ok l us fs fr bl"
  shows "p |\<in>| fs \<Longrightarrow> pair_low p < pair_high p \<and> pair_low p |\<in>| us \<and> pair_high p |\<in>| us"
    and "(a, b) |\<in>| fr \<Longrightarrow> a \<noteq> b \<and> a |\<in>| us \<and> b |\<in>| us \<and> pair_of a b |\<notin>| fs \<and>
      (b, a) |\<notin>| fr \<and> (a, b) |\<notin>| bl \<and> (b, a) |\<notin>| bl"
    and "(a, b) |\<in>| bl \<Longrightarrow> a \<noteq> b \<and> a |\<in>| us \<and> b |\<in>| us \<and> pair_of a b |\<notin>| fs"
    and "a |\<in>| us \<Longrightarrow> card {x. linked fs fr bl a x} \<le> max_relationships_per_user l"
  using assms unfolding rel_ok_def by blast+

lemma rel_okI:
  assumes "\<And>p. p |\<in>| fs \<Longrightarrow> pair_low p < pair_high p \<and> pair_low p |\<in>| us \<and> pair_high p |\<in>| us"
    and "\<And>a b. (a, b) |\<in>| fr \<Longrightarrow> a \<noteq> b \<and> a |\<in>| us \<and> b |\<in>| us \<and> pair_of a b |\<notin>| fs \<and>
      (b, a) |\<notin>| fr \<and> (a, b) |\<notin>| bl \<and> (b, a) |\<notin>| bl"
    and "\<And>a b. (a, b) |\<in>| bl \<Longrightarrow> a \<noteq> b \<and> a |\<in>| us \<and> b |\<in>| us \<and> pair_of a b |\<notin>| fs"
    and "\<And>a. a |\<in>| us \<Longrightarrow> card {x. linked fs fr bl a x} \<le> max_relationships_per_user l"
  shows "rel_ok l us fs fr bl"
  using assms unfolding rel_ok_def by blast

lemma pair_of_member: "pair_of a b = p \<Longrightarrow> a = pair_low p \<or> a = pair_high p"
  by (auto simp: pair_of_def)

lemma linked_user:
  assumes "rel_ok l us fs fr bl" and "linked fs fr bl a x"
  shows "x |\<in>| us"
proof -
  have "pair_of a x |\<in>| fs \<Longrightarrow> x |\<in>| us"
    using rel_okD(1) [OF assms(1), of "pair_of a x"] pair_of_member [of x a "pair_of a x"]
    by (auto simp: pair_of_sym [of a x])
  with assms(2) show ?thesis
    unfolding linked_def using rel_okD(2,3) [OF assms(1)] by blast
qed

lemma finite_linked: "rel_ok l us fs fr bl \<Longrightarrow> finite {x. linked fs fr bl a x}"
  by (rule finite_subset [of _ "fset us"]) (auto dest: linked_user)

lemma peers_bound:
  assumes rel: "rel_ok l us fs fr bl" and "a |\<in>| us"
    and linked: "\<And>x. linked fs' fr' bl' a x \<Longrightarrow>
      linked fs fr bl a x \<or> a = u \<and> x = v \<or> a = v \<and> x = u"
    and cap: "linked fs fr bl u v \<or> card {x. linked fs fr bl u x} < max_relationships_per_user l \<and>
      card {x. linked fs fr bl v x} < max_relationships_per_user l"
  shows "card {x. linked fs' fr' bl' a x} \<le> max_relationships_per_user l"
proof (cases "linked fs fr bl u v \<or> a \<noteq> u \<and> a \<noteq> v")
  case True
  then have "{x. linked fs' fr' bl' a x} \<subseteq> {x. linked fs fr bl a x}"
    using linked linked_sym by blast
  from card_mono [OF finite_linked [OF rel] this] show ?thesis
    using rel \<open>a |\<in>| us\<close> unfolding rel_ok_def by (meson le_trans)
next
  case False
  define w where "w = (if a = u then v else u)"
  have "{x. linked fs' fr' bl' a x} \<subseteq> insert w {x. linked fs fr bl a x}"
    using linked False by (auto simp: w_def)
  then have "card {x. linked fs' fr' bl' a x} \<le> card (insert w {x. linked fs fr bl a x})"
    by (intro card_mono) (simp_all add: finite_linked [OF rel])
  also have "\<dots> \<le> Suc (card {x. linked fs fr bl a x})"
    by (simp add: card_insert_if finite_linked [OF rel])
  also have "\<dots> \<le> max_relationships_per_user l" using cap False by auto
  finally show ?thesis .
qed

lemma capacity_linked:
  assumes "social_inv s" and "first \<noteq> second"
    and "ensure_relationship_capacity s first second = Inr ()"
  shows "linked (s_friendships s) (s_friend_requests s) (s_blocks s) first second \<or>
    card {x. linked (s_friendships s) (s_friend_requests s) (s_blocks s) first x}
      < max_relationships_per_user (s_limits s) \<and>
    card {x. linked (s_friendships s) (s_friend_requests s) (s_blocks s) second x}
      < max_relationships_per_user (s_limits s)"
  using assms(3)
  by (auto simp: ensure_relationship_capacity_def has_pair_linked [OF assms(2)] fcard.rep_eq
      fset_relationship_peers [OF rel_ok_ordered [OF social_inv_parts(2) [OF assms(1)]]]
      split: if_splits)

subsection \<open>Relationships\<close>

lemma rel_request:
  assumes rel: "rel_ok l us fs fr bl" and "a \<noteq> b" "a |\<in>| us" "b |\<in>| us"
    and "(a, b) |\<notin>| bl" "(b, a) |\<notin>| bl" "pair_of a b |\<notin>| fs" "(b, a) |\<notin>| fr"
    and cap: "linked fs fr bl a b \<or> card {x. linked fs fr bl a x} < max_relationships_per_user l \<and>
      card {x. linked fs fr bl b x} < max_relationships_per_user l"
  shows "rel_ok l us fs (finsert (a, b) fr) bl"
proof -
  have "card {x. linked fs (finsert (a, b) fr) bl c x} \<le> max_relationships_per_user l"
    if "c |\<in>| us" for c
    by (rule peers_bound [OF rel that _ cap]) (auto simp: linked_def)
  with assms show ?thesis unfolding rel_ok_def by auto
qed

lemma pair_of_eqD: "pair_of c d = pair_of a b \<Longrightarrow> (c, d) = (a, b) \<or> (c, d) = (b, a)"
  by (auto simp: pair_of_def split: if_splits)

lemma rel_accept:
  assumes rel: "rel_ok l us fs fr bl" and ba: "(b, a) |\<in>| fr"
  shows "rel_ok l us (finsert (pair_of a b) fs) (fr |-| {|(b, a)|}) bl"
proof (rule rel_okI)
  let ?fs = "finsert (pair_of a b) fs" and ?fr = "fr |-| {|(b, a)|}"
  note ab = rel_okD(2) [OF rel ba]
  show "pair_low p < pair_high p \<and> pair_low p |\<in>| us \<and> pair_high p |\<in>| us" if "p |\<in>| ?fs" for p
  proof (cases "p = pair_of a b")
    case True
    with ab show ?thesis by (auto simp: pair_of_def)
  next
    case False
    with that show ?thesis using rel_okD(1) [OF rel] by simp
  qed
  show "c \<noteq> d \<and> c |\<in>| us \<and> d |\<in>| us \<and> pair_of c d |\<notin>| ?fs \<and> (d, c) |\<notin>| ?fr \<and>
      (c, d) |\<notin>| bl \<and> (d, c) |\<notin>| bl" if cd: "(c, d) |\<in>| ?fr" for c d
  proof -
    have "(c, d) |\<in>| fr" "(c, d) \<noteq> (b, a)" using cd by auto
    moreover have "(c, d) \<noteq> (a, b)" using \<open>(c, d) |\<in>| fr\<close> ab by blast
    ultimately show ?thesis
      using rel_okD(2) [OF rel, of c d] pair_of_eqD [of c d a b] by auto
  qed
  show "c \<noteq> d \<and> c |\<in>| us \<and> d |\<in>| us \<and> pair_of c d |\<notin>| ?fs" if cd: "(c, d) |\<in>| bl" for c d
    using rel_okD(3) [OF rel cd] pair_of_eqD [of c d a b] ab cd by auto
  show "card {x. linked ?fs ?fr bl c x} \<le> max_relationships_per_user l" if "c |\<in>| us" for c
  proof (rule peers_bound [OF rel that, where u = a and v = b])
    have lab: "linked fs fr bl a b" "linked fs fr bl b a" using ba by (simp_all add: linked_def)
    then show "linked fs fr bl a b \<or> card {x. linked fs fr bl a x} < max_relationships_per_user l \<and>
        card {x. linked fs fr bl b x} < max_relationships_per_user l" by blast
    show "linked fs fr bl c x \<or> c = a \<and> x = b \<or> c = b \<and> x = a" if "linked ?fs ?fr bl c x" for x
      using that pair_of_eqD [of c x a b] unfolding linked_def by auto
  qed
qed

lemma rel_fewer:
  assumes rel: "rel_ok l us fs fr bl" and "fs' |\<subseteq>| fs" "fr' |\<subseteq>| fr" "bl' |\<subseteq>| bl"
  shows "rel_ok l us fs' fr' bl'"
proof -
  have "card {x. linked fs' fr' bl' a x} \<le> card {x. linked fs fr bl a x}" for a
    by (rule card_mono [OF finite_linked [OF rel]]) (use assms in \<open>auto simp: linked_def\<close>)
  with rel have "\<forall>a. a |\<in>| us \<longrightarrow> card {x. linked fs' fr' bl' a x} \<le> max_relationships_per_user l"
    unfolding rel_ok_def by (meson le_trans)
  with assms show ?thesis unfolding rel_ok_def by (intro conjI) blast+
qed

lemma rel_block:
  assumes rel: "rel_ok l us fs fr bl" and ab: "a \<noteq> b" "a |\<in>| us" "b |\<in>| us"
    and cap: "linked fs fr bl a b \<or> card {x. linked fs fr bl a x} < max_relationships_per_user l \<and>
      card {x. linked fs fr bl b x} < max_relationships_per_user l"
  shows "rel_ok l us (fs |-| {|pair_of a b|}) (fr |-| {|(a, b)|} |-| {|(b, a)|})
    (finsert (a, b) bl)"
proof -
  let ?fs = "fs |-| {|pair_of a b|}" and ?fr = "fr |-| {|(a, b)|} |-| {|(b, a)|}"
  have base: "rel_ok l us ?fs ?fr bl" by (rule rel_fewer [OF rel]) auto
  have card: "card {x. linked ?fs ?fr (finsert (a, b) bl) c x} \<le> max_relationships_per_user l"
    if "c |\<in>| us" for c
    by (rule peers_bound [OF rel that _ cap])
      (unfold linked_def finsert_iff fminus_iff prod.inject, blast)
  show ?thesis
  proof (rule rel_okI)
    show "c \<noteq> d \<and> c |\<in>| us \<and> d |\<in>| us \<and> pair_of c d |\<notin>| ?fs \<and> (d, c) |\<notin>| ?fr \<and>
        (c, d) |\<notin>| finsert (a, b) bl \<and> (d, c) |\<notin>| finsert (a, b) bl"
      if "(c, d) |\<in>| ?fr" for c d
      using rel_okD(2) [OF base that] that by auto
    show "c \<noteq> d \<and> c |\<in>| us \<and> d |\<in>| us \<and> pair_of c d |\<notin>| ?fs"
      if "(c, d) |\<in>| finsert (a, b) bl" for c d
      using rel_okD(3) [OF base, of c d] that ab by auto
  qed (use rel_okD(1) [OF base] card in auto)
qed


subsection \<open>Sound relationship commands\<close>

definition sound_command :: "SocialRegistry \<Rightarrow> id16 \<Rightarrow> digest32 \<Rightarrow> id16 \<Rightarrow> ReceiptOutcome list \<Rightarrow>
    bool \<Rightarrow> SocialRegistry \<times> (SocialError + SocialReceipt) \<Rightarrow> bool" where
  "sound_command s command fingerprint actor allowed w res \<longleftrightarrow>
     (\<exists>body. res = with_receipt s (existing_receipt s command fingerprint actor allowed)
        (commit_candidate s body) \<and>
        (fmlookup (s_receipts s) command = None \<longrightarrow>
           sound s command fingerprint actor allowed w body))"

lemma sound_commandI:
  "(fmlookup (s_receipts s) c = None \<Longrightarrow> sound s c f a os w body) \<Longrightarrow>
     sound_command s c f a os w (with_receipt s (existing_receipt s c f a os)
       (commit_candidate s body))"
  unfolding sound_command_def by (intro exI [of _ body] conjI refl impI) simp

lemma sound_plan:
  assumes "plan_frame s c k \<and> plan_valid s c k" and "cc_outcome k \<in> set os"
    and "cc_command k = i" and "cc_fingerprint k = f" and "cc_actor k = a"
  shows "sound s i f a os w (finish_command s c k)"
  using assms by (intro sound_finish) auto

lemma completion_receipt_sel [simp]:
  "sr_command (completion_receipt k) = cc_command k"
  "sr_fingerprint (completion_receipt k) = cc_fingerprint k"
  "sr_actor (completion_receipt k) = cc_actor k"
  "sr_revision (completion_receipt k) = cc_revision k"
  "sr_outcome (completion_receipt k) = cc_outcome k"
  by (simp_all add: completion_receipt_def)

lemma sound_send_friend_request:
  assumes inv: "social_inv s"
  shows "sound_command s command f actor [FriendRequestSent] w
    (send_friend_request s command f actor target)"
proof -
  have key: "sound s command f actor [FriendRequestSent] w (finish_command s
      (s\<lparr>s_friend_requests := finsert (actor, target) (s_friend_requests s)\<rparr>)
      \<lparr>cc_command = command, cc_fingerprint = f, cc_actor = actor, cc_revision = rv,
       cc_outcome = FriendRequestSent, cc_intents = [FriendRequest actor target]\<rparr>)"
    if "fmlookup (s_receipts s) command = None" "relationship s actor target = Inr NoRelation"
      "ensure_relationship_capacity s actor target = Inr ()" "next_command_revision s = Inr rv"
    for rv
  proof (rule sound_plan, rule plan_relations [OF inv])
    show "rel_ok (s_limits s) (s_users s) (s_friendships s)
        (finsert (actor, target) (s_friend_requests s)) (s_blocks s)"
      using that(2) capacity_linked [OF inv _ that(3)]
      by (intro rel_request [OF social_inv_parts(2) [OF inv]]) (simp_all add: relationship_none_iff)
  qed (use that in \<open>auto simp: fresh_completion_def next_command_revision_Inr
      relationship_none_iff payload_ok_def\<close>)
  show ?thesis
    unfolding send_friend_request_def Let_def
    by (rule sound_commandI, intro sound_intros) (auto intro: key)
qed

lemma sound_accept_friend_request:
  assumes inv: "social_inv s"
  shows "sound_command s command f actor [FriendRequestAccepted] w
    (accept_friend_request s command f actor requester)"
proof -
  have key: "sound s command f actor [FriendRequestAccepted] w (finish_command s
      (s\<lparr>s_friend_requests := s_friend_requests s |-| {|(requester, actor)|},
         s_friendships := finsert (pair_of actor requester) (s_friendships s)\<rparr>)
      \<lparr>cc_command = command, cc_fingerprint = f, cc_actor = actor, cc_revision = rv,
       cc_outcome = FriendRequestAccepted, cc_intents = [FriendAccepted actor requester]\<rparr>)"
    if "fmlookup (s_receipts s) command = None" "(requester, actor) |\<in>| s_friend_requests s"
      "next_command_revision s = Inr rv" for rv
  proof (rule sound_plan, rule plan_relations [OF inv])
    show "rel_ok (s_limits s) (s_users s) (finsert (pair_of actor requester) (s_friendships s))
        (s_friend_requests s |-| {|(requester, actor)|}) (s_blocks s)"
      by (rule rel_accept [OF social_inv_parts(2) [OF inv] that(2)])
  qed (use that rel_okD(2) [OF social_inv_parts(2) [OF inv] that(2)] in
    \<open>auto simp: fresh_completion_def next_command_revision_Inr payload_ok_def\<close>)
  show ?thesis
    unfolding accept_friend_request_def Let_def
    by (rule sound_commandI, intro sound_intros) (auto intro: key)
qed

lemma sound_remove_friend:
  assumes inv: "social_inv s"
  shows "sound_command s command f actor [FriendRemoved] w (remove_friend s command f actor target)"
proof -
  have key: "sound s command f actor [FriendRemoved] w (finish_command s
      (s\<lparr>s_friendships := s_friendships s |-| {|p|}\<rparr>)
      \<lparr>cc_command = command, cc_fingerprint = f, cc_actor = actor, cc_revision = rv,
       cc_outcome = FriendRemoved, cc_intents = []\<rparr>)"
    if "fmlookup (s_receipts s) command = None" "actor |\<in>| s_users s"
      "next_command_revision s = Inr rv" for rv p
  proof (rule sound_plan, rule plan_relations [OF inv])
    show "rel_ok (s_limits s) (s_users s) (s_friendships s |-| {|p|}) (s_friend_requests s)
        (s_blocks s)"
      by (rule rel_fewer [OF social_inv_parts(2) [OF inv]]) auto
  qed (use that in \<open>auto simp: fresh_completion_def next_command_revision_Inr\<close>)
  show ?thesis
    unfolding remove_friend_def Let_def
    by (rule sound_commandI, intro sound_intros) (auto intro: key)
qed

lemma sound_block_user:
  assumes inv: "social_inv s"
  shows "sound_command s command f actor [UserBlocked] w (block_user s command f actor target)"
proof -
  have key: "sound s command f actor [UserBlocked] w (finish_command s
      (s\<lparr>s_friendships := s_friendships s |-| {|pair_of actor target|},
         s_friend_requests := s_friend_requests s |-| {|(actor, target)|} |-| {|(target, actor)|},
         s_blocks := finsert (actor, target) (s_blocks s)\<rparr>)
      \<lparr>cc_command = command, cc_fingerprint = f, cc_actor = actor, cc_revision = rv,
       cc_outcome = UserBlocked, cc_intents = []\<rparr>)"
    if "fmlookup (s_receipts s) command = None" "actor |\<in>| s_users s" "target |\<in>| s_users s"
      "actor \<noteq> target" "ensure_relationship_capacity s actor target = Inr ()"
      "next_command_revision s = Inr rv" for rv
  proof (rule sound_plan, rule plan_relations [OF inv])
    show "rel_ok (s_limits s) (s_users s) (s_friendships s |-| {|pair_of actor target|})
        (s_friend_requests s |-| {|(actor, target)|} |-| {|(target, actor)|})
        (finsert (actor, target) (s_blocks s))"
      by (rule rel_block [OF social_inv_parts(2) [OF inv] that(4,2,3)
            capacity_linked [OF inv that(4,5)]])
  qed (use that in \<open>auto simp: fresh_completion_def next_command_revision_Inr\<close>)
  show ?thesis
    unfolding block_user_def Let_def
    by (rule sound_commandI, intro sound_intros) (auto intro: key)
qed

lemma sound_unblock_user:
  assumes inv: "social_inv s"
  shows "sound_command s command f actor [UserUnblocked] w (unblock_user s command f actor target)"
proof -
  have key: "sound s command f actor [UserUnblocked] w (finish_command s
      (s\<lparr>s_blocks := s_blocks s |-| {|(actor, target)|}\<rparr>)
      \<lparr>cc_command = command, cc_fingerprint = f, cc_actor = actor, cc_revision = rv,
       cc_outcome = UserUnblocked, cc_intents = []\<rparr>)"
    if "fmlookup (s_receipts s) command = None" "actor |\<in>| s_users s"
      "next_command_revision s = Inr rv" for rv
  proof (rule sound_plan, rule plan_relations [OF inv])
    show "rel_ok (s_limits s) (s_users s) (s_friendships s) (s_friend_requests s)
        (s_blocks s |-| {|(actor, target)|})"
      by (rule rel_fewer [OF social_inv_parts(2) [OF inv]]) auto
  qed (use that in \<open>auto simp: fresh_completion_def next_command_revision_Inr\<close>)
  show ?thesis
    unfolding unblock_user_def Let_def
    by (rule sound_commandI, intro sound_intros) (auto intro: key)
qed


subsection \<open>Groups\<close>

lemma refs_ok_groups:
  "fmdom gs' = fmdom gs \<Longrightarrow> refs_ok l us gs' msgs rv p \<longleftrightarrow> refs_ok l us gs msgs rv p"
  by (cases p) auto

lemma group_okD:
  assumes "social_inv s" and "fmlookup (s_groups s) gid = Some g"
  shows "gr_id g = gid" "members_ok (s_limits s) (s_users s) g"
    and "\<exists>ms. fmlookup (s_messages s) gid = Some ms \<and>
      messages_ok (s_limits s) (s_users s) gid ms \<and>
      unat (gr_next_message_sequence g) = Suc (length ms)"
  using social_inv_parts(3) [OF assms(1)] assms(2) unfolding groups_ok_def by blast+

lemma members_okD:
  assumes "members_ok l us g"
  shows "gr_max_members g \<noteq> 0" "gr_max_members g \<le> max_group_members l"
    and "fmap_len (gr_members g) \<le> gr_max_members g"
    and "\<exists>a. fmlookup (gr_members g) a = Some Superadmin"
    and "fmlookup (gr_members g) a = Some r \<Longrightarrow>
      a |\<in>| us \<and> a |\<notin>| gr_join_requests g \<and> a |\<notin>| gr_banned g"
    and "a |\<in>| gr_join_requests g \<Longrightarrow> a |\<in>| us \<and> a |\<notin>| gr_banned g"
    and "a |\<in>| gr_banned g \<Longrightarrow> a |\<in>| us"
  using assms fmdomI [of "gr_members g" a r] unfolding members_ok_def by blast+

text \<open>A candidate that replaces one group record.\<close>

lemma plan_group:
  assumes inv: "social_inv s" and k: "fresh_completion s k"
    and g: "fmlookup (s_groups s) gid = Some g"
    and c: "c = s\<lparr>s_groups := fmupd gid g' (s_groups s)\<rparr>"
    and g': "gr_id g' = gr_id g" "gr_next_message_sequence g' = gr_next_message_sequence g"
    and ok: "members_ok (s_limits s) (s_users s) g'"
    and p: "\<forall>p \<in> set (cc_intents k). payload_ok (s_limits s) (s_users s) (s_groups s)
      (s_messages s) (completion_receipt k) p"
  shows "plan_frame s c k \<and> plan_valid s c k"
proof
  have dom: "fmdom (fmupd gid g' (s_groups s)) = fmdom (s_groups s)"
    using fmdomI [OF g] by (simp add: finsert_absorb)
  have refs: "refs_ok l us (fmupd gid g' (s_groups s)) ms rv p \<longleftrightarrow>
      refs_ok l us (s_groups s) ms rv p" for l us ms rv p
    by (rule refs_ok_groups [OF dom])
  show "plan_frame s c k"
    using k rel_ok_ordered [OF social_inv_parts(2) [OF inv]] social_inv_parts(10) [OF inv]
    by (simp add: plan_frame_def c fresh_completion_def)
  have "notifs_ok (s_limits s) (s_users s) (cc_revision k) (s_notifications s)"
    using k by (intro notifs_ok_mono [OF social_inv_parts(4) [OF inv]])
      (simp add: fresh_completion_def)
  moreover have "groups_ok (s_limits s) (s_users s) (fmupd gid g' (s_groups s)) (s_messages s)"
    using social_inv_parts(3) [OF inv] ok g' group_okD [OF inv g]
    unfolding groups_ok_def dom by simp
  moreover have "fmap_len (fmupd gid g' (s_groups s)) \<le> max_groups (s_limits s)"
    using social_inv_parts(1) [OF inv] by (simp add: fmap_len_upd_old [OF g] sizes_ok_def)
  moreover have "payload_ok (s_limits s) (s_users s) (fmupd gid g' (s_groups s)) (s_messages s)
      (completion_receipt k) q" if "q \<in> set (cc_intents k)" for q
    using p that by (simp add: payload_ok_def refs)
  ultimately show "plan_valid s c k"
    using k social_inv_parts(2) [OF inv]
    by (simp add: plan_valid_def c fresh_completion_def refs)
qed

lemma superadmin_card:
  "superadmin_count g = card {a. fmlookup (gr_members g) a = Some Superadmin}"
proof -
  have "superadmin_count g = card {(a, r). fmlookup (gr_members g) a = Some r \<and> r = Superadmin}"
    using length_filter_entries [of "\<lambda>(a, r). r = Superadmin" "gr_members g"]
    by (simp add: superadmin_count_def split_def)
  also have "\<dots> = card {a. fmlookup (gr_members g) a = Some Superadmin}"
    by (rule bij_betw_same_card [of fst]) (auto simp: bij_betw_def inj_on_def image_iff)
  finally show ?thesis .
qed

lemma other_superadmin:
  assumes "members_ok l us g" and "fmlookup (gr_members g) a = Some r"
    and "\<not> (r = Superadmin \<and> superadmin_count g = 1)"
  obtains b where "b \<noteq> a" "fmlookup (gr_members g) b = Some Superadmin"
proof (cases "r = Superadmin")
  case True
  with assms have "card {b. fmlookup (gr_members g) b = Some Superadmin} \<noteq> 1"
    by (simp add: superadmin_card)
  then have "{b. fmlookup (gr_members g) b = Some Superadmin} \<noteq> {a}" by auto
  with True assms(2) that show thesis by blast
next
  case False
  with members_okD(4) [OF assms(1)] assms(2) that show thesis by force
qed

lemma fmap_len_upd_member:
  "fmap_len m < n \<or> fmlookup m k \<noteq> None \<and> fmap_len m \<le> n \<Longrightarrow> fmap_len (fmupd k v m) \<le> n"
  using fmap_len_upd_le [of k v m] fmap_len_upd_old [of m k _ v] by fastforce

lemma fminus_subset [simp]: "(A |-| B) |\<subseteq>| A"
  by auto

text \<open>The changes of a record's membership that keep \<open>members_ok\<close>.\<close>

lemma members_add:
  assumes ok: "members_ok l us g" and a: "a |\<in>| us" "fmlookup (gr_members g) a = None"
    "a |\<notin>| gr_banned g" and "fmap_len (gr_members g) < gr_max_members g"
    and "gr_members g' = fmupd a Member (gr_members g)"
    and "gr_join_requests g' |\<subseteq>| gr_join_requests g" "a |\<notin>| gr_join_requests g'"
    and "gr_banned g' = gr_banned g" "gr_max_members g' = gr_max_members g"
  shows "members_ok l us g'"
proof -
  obtain b where "fmlookup (gr_members g) b = Some Superadmin" using members_okD(4) [OF ok] by blast
  moreover from this a have "b \<noteq> a" by auto
  ultimately have b: "\<exists>b. fmlookup (gr_members g') b = Some Superadmin"
    unfolding assms(6) by (intro exI [of _ b]) simp
  show ?thesis
    unfolding members_ok_def
    by (intro conjI b) (use assms in \<open>auto simp: members_ok_def fmap_len_upd_new\<close>)
qed

lemma members_request:
  assumes "members_ok l us g" and "a |\<in>| us" "fmlookup (gr_members g) a = None"
    "a |\<notin>| gr_banned g"
    and "gr_members g' = gr_members g" "gr_join_requests g' = finsert a (gr_join_requests g)"
    and "gr_banned g' = gr_banned g" "gr_max_members g' = gr_max_members g"
  shows "members_ok l us g'"
  using assms unfolding members_ok_def by (auto simp: fmlookup_dom_iff)

lemma members_role:
  assumes ok: "members_ok l us g" and a: "fmlookup (gr_members g) a = Some r"
    and last: "\<not> (r = Superadmin \<and> r' \<noteq> Superadmin \<and> superadmin_count g = 1)"
    and g': "gr_members g' = fmupd a r' (gr_members g)" "gr_join_requests g' = gr_join_requests g"
      "gr_banned g' = gr_banned g" "gr_max_members g' = gr_max_members g"
  shows "members_ok l us g'"
proof -
  have "\<exists>b. fmlookup (fmupd a r' (gr_members g)) b = Some Superadmin"
  proof (cases "r' = Superadmin")
    case False
    with last obtain b where "b \<noteq> a" "fmlookup (gr_members g) b = Some Superadmin"
      using other_superadmin [OF ok a] by blast
    then show ?thesis by auto
  qed auto
  moreover have "finsert a (fmdom (gr_members g)) = fmdom (gr_members g)"
    using fmdomI [OF a] by (simp add: finsert_absorb)
  ultimately show ?thesis
    using ok unfolding members_ok_def g' by (simp add: fmap_len_upd_old [OF a])
qed

lemma members_drop:
  assumes ok: "members_ok l us g" and b: "b \<noteq> a" "fmlookup (gr_members g) b = Some Superadmin"
    and g': "gr_members g' = fmdrop a (gr_members g)" "gr_max_members g' = gr_max_members g"
      "gr_join_requests g' |\<subseteq>| gr_join_requests g"
    and banned: "gr_banned g' = gr_banned g \<or>
      gr_banned g' = finsert a (gr_banned g) \<and> a |\<notin>| gr_join_requests g' \<and> a |\<in>| us"
  shows "members_ok l us g'"
proof -
  have "\<exists>b. fmlookup (gr_members g') b = Some Superadmin" using b by (auto simp: g')
  moreover have "fmap_len (gr_members g') \<le> gr_max_members g'"
    using le_trans [OF fmap_len_drop_le members_okD(3) [OF ok]] by (simp add: g')
  ultimately show ?thesis using ok banned g'(3) unfolding members_ok_def g'(1,2) by auto
qed

lemma members_unban:
  assumes "members_ok l us g" and "gr_members g' = gr_members g"
    "gr_join_requests g' = gr_join_requests g" "gr_banned g' |\<subseteq>| gr_banned g"
    "gr_max_members g' = gr_max_members g"
  shows "members_ok l us g'"
  using assms unfolding members_ok_def by auto

lemma get_group_Inr [simp]: "get_group s gid = Inr g \<longleftrightarrow> fmlookup (s_groups s) gid = Some g"
  by (simp add: get_group_def)

lemma require_group_role_Inr:
  "require_group_role g a m = Inr r \<longleftrightarrow>
     fmlookup (gr_members g) a = Some r \<and> role_rank m \<le> role_rank r"
  by (auto simp: require_group_role_def not_less)

lemma with_group_known:
  "fmlookup (s_groups s) gid = Some g \<Longrightarrow>
     with_group s gid upd = Inr (s\<lparr>s_groups := fmupd gid (upd g) (s_groups s)\<rparr>)"
  by (simp add: with_group_def)


subsection \<open>Sound group commands\<close>

lemma sound_create_group:
  assumes inv: "social_inv s"
  shows "sound_command s command f (cg_creator request) [GroupCreated] w
    (create_group s command f request)"
proof -
  define g where "g = \<lparr>gr_id = cg_group request, gr_name = cg_name request,
    gr_join_mode = cg_join_mode request, gr_max_members = cg_max_members request,
    gr_revision = 1, gr_members = fmupd (cg_creator request) Superadmin fmempty,
    gr_join_requests = {||}, gr_banned = {||}, gr_next_message_sequence = 1\<rparr>"
  define gs where "gs = fmupd (cg_group request) g (s_groups s)"
  define ms where "ms = fmupd (cg_group request) [] (s_messages s)"
  have key: "sound s command f (cg_creator request) [GroupCreated] w (finish_command s
      (s\<lparr>s_groups := gs, s_messages := ms\<rparr>)
      \<lparr>cc_command = command, cc_fingerprint = f, cc_actor = cg_creator request, cc_revision = rv,
       cc_outcome = GroupCreated, cc_intents = []\<rparr>)" (is "sound _ _ _ _ _ _ (finish_command s ?c ?k)")
    if fresh: "fmlookup (s_receipts s) command = None" "cg_creator request |\<in>| s_users s"
      "next_command_revision s = Inr rv" and max: "0 < cg_max_members request"
      "cg_max_members request \<le> max_group_members (s_limits s)"
      and new: "cg_group request |\<notin>| fmdom (s_groups s)"
      and room: "fmap_len (s_groups s) < max_groups (s_limits s)" for rv
  proof (rule sound_plan)
    have sub: "fmdom (s_messages s) |\<subseteq>| fmdom (s_groups s)"
      using social_inv_parts(3) [OF inv] unfolding groups_ok_def by blast
    have "fmlookup (s_messages s) (cg_group request) = None"
      using sub new by (auto simp: fmdom_notD)
    then have refs: "refs_ok l us (s_groups s) (s_messages s) v p \<longrightarrow> refs_ok l us gs ms v p"
      for l us v p
      unfolding gs_def ms_def by (cases p) auto
    have "members_ok (s_limits s) (s_users s) g"
      using max that(2) by (auto simp: members_ok_def g_def fmap_len_upd_new)
    moreover have "messages_ok (s_limits s) (s_users s) (cg_group request) []"
      by (simp add: messages_ok_def)
    ultimately have "groups_ok (s_limits s) (s_users s) gs ms"
      using social_inv_parts(3) [OF inv] sub
      unfolding groups_ok_def gs_def ms_def by (auto simp: g_def)
    moreover have "notifs_ok (s_limits s) (s_users s) rv (s_notifications s)"
      using fresh(3) by (intro notifs_ok_mono [OF social_inv_parts(4) [OF inv]])
        (simp add: next_command_revision_Inr)
    moreover have "fmap_len gs \<le> max_groups (s_limits s)"
      using room fmap_len_upd_le [of "cg_group request" g "s_groups s"] by (simp add: gs_def)
    ultimately have "plan_valid s ?c ?k"
      using social_inv_parts(2) [OF inv] fresh refs by (simp add: plan_valid_def)
    moreover have "plan_frame s ?c ?k"
      using fresh rel_ok_ordered [OF social_inv_parts(2) [OF inv]] social_inv_parts(10) [OF inv]
      by (simp add: plan_frame_def next_command_revision_Inr)
    ultimately show "plan_frame s ?c ?k \<and> plan_valid s ?c ?k" by (rule conjI [rotated])
  qed simp_all
  show ?thesis
    unfolding create_group_def Let_def g_def [symmetric] gs_def [symmetric] ms_def [symmetric]
    by (rule sound_commandI, intro sound_intros) (auto intro: key)
qed

lemma sound_group_change:
  assumes inv: "social_inv s" and g: "fmlookup (s_groups s) gid = Some g"
    and g': "gr_id g' = gr_id g" "gr_next_message_sequence g' = gr_next_message_sequence g"
    and ok: "members_ok (s_limits s) (s_users s) g'"
    and k: "fmlookup (s_receipts s) command = None" "actor |\<in>| s_users s"
      "next_command_revision s = Inr rv" "outcome \<in> set os" "length intents < 2 ^ 16"
    and p: "\<And>p r. p \<in> set intents \<Longrightarrow> sr_actor r = actor \<Longrightarrow> sr_outcome r = outcome \<Longrightarrow>
      payload_ok (s_limits s) (s_users s) (s_groups s) (s_messages s) r p"
  shows "sound s command f actor os w (finish_command s
    (s\<lparr>s_groups := fmupd gid g' (s_groups s)\<rparr>)
    \<lparr>cc_command = command, cc_fingerprint = f, cc_actor = actor, cc_revision = rv,
     cc_outcome = outcome, cc_intents = intents\<rparr>)"
proof (rule sound_plan, rule plan_group [OF inv _ g refl g' ok])
qed (use k p in \<open>auto simp: fresh_completion_def next_command_revision_Inr\<close>)

lemma sound_join_group:
  assumes inv: "social_inv s"
  shows "sound_command s command f actor [GroupJoined, GroupJoinRequested] w
    (join_group s command f gid actor)"
proof -
  let ?sound = "sound s command f actor [GroupJoined, GroupJoinRequested] w"
  have key: "?sound (tryE (case gr_join_mode g of
        OpenMode \<Rightarrow> Inr (g\<lparr>gr_members := fmupd actor Member (gr_members g)\<rparr>,
          GroupJoined, [GroupJoinAccepted gid actor actor])
      | AdminApproval \<Rightarrow> Inr (g\<lparr>gr_join_requests := finsert actor (gr_join_requests g)\<rparr>,
          GroupJoinRequested, [GroupJoinRequest gid actor])
      | ClosedMode \<Rightarrow> inv_err) (\<lambda>(g', outcome, intents).
      finish_command s
        (s\<lparr>s_groups := fmupd gid (g'\<lparr>gr_revision := v\<rparr>) (s_groups s)\<rparr>)
        \<lparr>cc_command = command, cc_fingerprint = f, cc_actor = actor,
         cc_revision = rv, cc_outcome = outcome, cc_intents = intents\<rparr>))"
    if g: "fmlookup (s_groups s) gid = Some g"
      and fresh: "fmlookup (s_receipts s) command = None" "actor |\<in>| s_users s"
        "next_command_revision s = Inr rv"
      and out: "actor |\<notin>| fmdom (gr_members g)" "actor |\<notin>| gr_join_requests g"
        "actor |\<notin>| gr_banned g" "gr_join_mode g \<noteq> ClosedMode"
        "gr_join_mode g = OpenMode \<longrightarrow> fmap_len (gr_members g) < gr_max_members g" for g v rv
  proof -
    note ok = group_okD(2) [OF inv g]
    have none: "fmlookup (gr_members g) actor = None" using out(1) by (rule fmdom_notD)
    have dom: "gid |\<in>| fmdom (s_groups s)" using g by (rule fmdomI)
    show ?thesis
    proof (cases "gr_join_mode g")
      case OpenMode
      have "?sound (finish_command s (s\<lparr>s_groups := fmupd gid
            (g\<lparr>gr_members := fmupd actor Member (gr_members g), gr_revision := v\<rparr>) (s_groups s)\<rparr>)
          \<lparr>cc_command = command, cc_fingerprint = f, cc_actor = actor, cc_revision = rv,
           cc_outcome = GroupJoined, cc_intents = [GroupJoinAccepted gid actor actor]\<rparr>)"
        by (rule sound_group_change [OF inv g])
          (use members_add [OF ok fresh(2) none out(3)] OpenMode out fresh dom in
            \<open>simp_all add: payload_ok_def\<close>)
      with OpenMode show ?thesis by simp
    next
      case AdminApproval
      have "?sound (finish_command s (s\<lparr>s_groups := fmupd gid
            (g\<lparr>gr_join_requests := finsert actor (gr_join_requests g), gr_revision := v\<rparr>)
            (s_groups s)\<rparr>)
          \<lparr>cc_command = command, cc_fingerprint = f, cc_actor = actor, cc_revision = rv,
           cc_outcome = GroupJoinRequested, cc_intents = [GroupJoinRequest gid actor]\<rparr>)"
        by (rule sound_group_change [OF inv g])
          (use members_request [OF ok fresh(2) none out(3)] fresh dom in
            \<open>simp_all add: payload_ok_def\<close>)
      with AdminApproval show ?thesis by simp
    qed (use out in simp)
  qed
  show ?thesis
    unfolding join_group_def Let_def
    by (rule sound_commandI, rule sound_tryE, simp, rule sound_tryE, simp)
      (auto intro!: sound_if sound_error sound_tryE [OF ordinary_guards(4)]
        sound_tryE [OF ordinary_guards(3)] key simp: not_le)
qed


lemma sound_approve_group_join:
  assumes inv: "social_inv s"
  shows "sound_command s command f actor [GroupJoinApproved] w
    (approve_group_join s command f gid actor target)"
proof -
  have key: "sound s command f actor [GroupJoinApproved] w (finish_command s
      (s\<lparr>s_groups := fmupd gid (g\<lparr>gr_join_requests := gr_join_requests g |-| {|target|},
         gr_members := fmupd target Member (gr_members g), gr_revision := v\<rparr>) (s_groups s)\<rparr>)
      \<lparr>cc_command = command, cc_fingerprint = f, cc_actor = actor, cc_revision = rv,
       cc_outcome = GroupJoinApproved, cc_intents = [GroupJoinAccepted gid actor target]\<rparr>)"
    if g: "fmlookup (s_groups s) gid = Some g"
      and fresh: "fmlookup (s_receipts s) command = None" "actor |\<in>| s_users s"
        "next_command_revision s = Inr rv"
      and t: "target |\<in>| s_users s" "target |\<in>| gr_join_requests g"
        "fmap_len (gr_members g) < gr_max_members g" for g v rv
  proof -
    note ok = group_okD(2) [OF inv g]
    have "fmlookup (gr_members g) target = None" "target |\<notin>| gr_banned g"
      using members_okD(5,6) [OF ok, of target] t(2) by (cases "fmlookup (gr_members g) target", auto)
    note add = members_add [OF ok t(1) this t(3)]
    show ?thesis
      by (rule sound_group_change [OF inv g])
        (use add fmdomI [OF g] fresh t(1) in \<open>auto simp: payload_ok_def\<close>)
  qed
  show ?thesis
    unfolding approve_group_join_def Let_def
    by (rule sound_commandI, intro sound_intros)
      (auto intro!: key simp: with_group_known require_group_role_Inr ordinary_Inr_known not_le)
qed

lemma sound_change_group_role:
  assumes inv: "social_inv s"
  shows "sound_command s command f actor [GroupRoleChanged] w
    (change_group_role s command f gid actor target role)"
proof -
  have key: "sound s command f actor [GroupRoleChanged] w (finish_command s
      (s\<lparr>s_groups := fmupd gid (g\<lparr>gr_members := fmupd target role (gr_members g),
         gr_revision := v\<rparr>) (s_groups s)\<rparr>)
      \<lparr>cc_command = command, cc_fingerprint = f, cc_actor = actor, cc_revision = rv,
       cc_outcome = GroupRoleChanged, cc_intents = [GroupRoleChange gid actor target role]\<rparr>)"
    if g: "fmlookup (s_groups s) gid = Some g"
      and fresh: "fmlookup (s_receipts s) command = None" "actor |\<in>| s_users s"
        "next_command_revision s = Inr rv"
      and t: "target |\<in>| s_users s" "fmlookup (gr_members g) target \<noteq> None"
        "\<not> (fmlookup (gr_members g) target = Some Superadmin \<and> role \<noteq> Superadmin \<and>
          superadmin_count g = 1)" for g v rv role
  proof -
    obtain r where "fmlookup (gr_members g) target = Some r" using t(2) by blast
    note role = members_role [OF group_okD(2) [OF inv g] this, of role]
    have last: "\<not> (r = Superadmin \<and> role \<noteq> Superadmin \<and> superadmin_count g = 1)"
      using t(3) \<open>fmlookup (gr_members g) target = Some r\<close> by simp
    note role = role [OF last]
    show ?thesis
      by (rule sound_group_change [OF inv g])
        (use role fmdomI [OF g] fresh t(1) in \<open>auto simp: payload_ok_def\<close>)
  qed
  show ?thesis
    unfolding change_group_role_def Let_def
    by (rule sound_commandI, intro sound_intros)
      (auto intro!: key simp: with_group_known require_group_role_Inr ordinary_Inr_known)
qed

lemma sound_leave_group:
  assumes inv: "social_inv s"
  shows "sound_command s command f actor [GroupLeft] w (leave_group s command f gid actor)"
proof -
  have key: "sound s command f actor [GroupLeft] w (finish_command s
      (s\<lparr>s_groups := fmupd gid (g\<lparr>gr_members := fmdrop actor (gr_members g),
         gr_revision := v\<rparr>) (s_groups s)\<rparr>)
      \<lparr>cc_command = command, cc_fingerprint = f, cc_actor = actor, cc_revision = rv,
       cc_outcome = GroupLeft, cc_intents = []\<rparr>)"
    if g: "fmlookup (s_groups s) gid = Some g"
      and fresh: "fmlookup (s_receipts s) command = None" "actor |\<in>| s_users s"
        "next_command_revision s = Inr rv"
      and t: "fmlookup (gr_members g) actor = Some role"
        "\<not> (role = Superadmin \<and> superadmin_count g = 1)" for g v rv role
  proof -
    note ok = group_okD(2) [OF inv g]
    obtain b where b: "b \<noteq> actor" "fmlookup (gr_members g) b = Some Superadmin"
      using other_superadmin [OF ok t] by blast
    show ?thesis
      by (rule sound_group_change [OF inv g])
        (use members_drop [OF ok b] fresh in auto)
  qed
  show ?thesis
    unfolding leave_group_def Let_def
    by (rule sound_commandI, intro sound_intros)
      (auto intro!: key simp: with_group_known require_group_role_Inr ordinary_Inr_known)
qed

lemma sound_ban_group_member:
  assumes inv: "social_inv s"
  shows "sound_command s command f actor [GroupMemberBanned] w
    (ban_group_member s command f gid actor target)"
proof -
  have key: "sound s command f actor [GroupMemberBanned] w (finish_command s
      (s\<lparr>s_groups := fmupd gid (g\<lparr>gr_members := fmdrop target (gr_members g),
         gr_join_requests := gr_join_requests g |-| {|target|},
         gr_banned := finsert target (gr_banned g), gr_revision := v\<rparr>) (s_groups s)\<rparr>)
      \<lparr>cc_command = command, cc_fingerprint = f, cc_actor = actor, cc_revision = rv,
       cc_outcome = GroupMemberBanned, cc_intents = []\<rparr>)"
    if g: "fmlookup (s_groups s) gid = Some g"
      and fresh: "fmlookup (s_receipts s) command = None" "actor |\<in>| s_users s"
        "next_command_revision s = Inr rv"
      and t: "target |\<in>| s_users s" "fmlookup (gr_members g) target \<noteq> Some Superadmin" for g v rv
  proof -
    note ok = group_okD(2) [OF inv g]
    obtain b where b: "b \<noteq> target" "fmlookup (gr_members g) b = Some Superadmin"
      using members_okD(4) [OF ok] t(2) by force
    show ?thesis
      by (rule sound_group_change [OF inv g])
        (use members_drop [OF ok b] fresh t(1) in auto)
  qed
  show ?thesis
    unfolding ban_group_member_def Let_def
    by (rule sound_commandI, intro sound_intros)
      (auto intro!: key simp: with_group_known ordinary_Inr_known
        split: option.splits if_splits)
qed

lemma sound_unban_group_member:
  assumes inv: "social_inv s"
  shows "sound_command s command f actor [GroupMemberUnbanned] w
    (unban_group_member s command f gid actor target)"
proof -
  have key: "sound s command f actor [GroupMemberUnbanned] w (finish_command s
      (s\<lparr>s_groups := fmupd gid (g\<lparr>gr_banned := gr_banned g |-| {|target|},
         gr_revision := v\<rparr>) (s_groups s)\<rparr>)
      \<lparr>cc_command = command, cc_fingerprint = f, cc_actor = actor, cc_revision = rv,
       cc_outcome = GroupMemberUnbanned, cc_intents = []\<rparr>)"
    if g: "fmlookup (s_groups s) gid = Some g"
      and fresh: "fmlookup (s_receipts s) command = None" "actor |\<in>| s_users s"
        "next_command_revision s = Inr rv" for g v rv
    by (rule sound_group_change [OF inv g])
      (use members_unban [OF group_okD(2) [OF inv g]] fresh in auto)
  show ?thesis
    unfolding unban_group_member_def Let_def
    by (rule sound_commandI, intro sound_intros)
      (auto intro!: key simp: with_group_known require_group_role_Inr ordinary_Inr_known)
qed


subsection \<open>Sound message and notification commands\<close>

lemma find_append_Some: "find P xs = Some y \<Longrightarrow> find P (xs @ ys) = Some y"
  by (induction xs) auto

lemma find_append_None: "\<not> list_ex P xs \<Longrightarrow> P y \<Longrightarrow> find P (xs @ [y]) = Some y"
  by (induction xs) auto

lemma messages_ok_snoc:
  assumes "messages_ok l us gid ms" and "length ms < max_messages_per_group l"
    and "message_ok l us gid m" and "unat (cm_sequence m) = Suc (length ms)"
    and "\<not> list_ex (\<lambda>x. cm_id x = cm_id m) ms"
  shows "messages_ok l us gid (ms @ [m])"
  using assms by (auto simp: messages_ok_def list_ex_iff)

lemma refs_ok_append:
  assumes "fmlookup msgs gid = Some ms"
    and "refs_ok l us gs msgs rv p" and "fmdom gs' = fmdom gs"
  shows "refs_ok l us gs' (fmupd gid (ms @ [m]) msgs) rv p"
  using assms by (cases p) (auto simp: find_append_Some)

lemma sound_send_group_message:
  assumes inv: "social_inv s" and w: "w \<longrightarrow> sm_body request \<noteq> []"
  shows "sound_command s command f (sm_sender request) [ChatMessageSent] w
    (send_group_message s command f request)"
proof -
  let ?gid = "sm_group request"
  have key: "sound s command f (sm_sender request) [ChatMessageSent] w (finish_command s
      (s\<lparr>s_messages := fmupd ?gid (ms @ [\<lparr>cm_id = sm_message request, cm_group = ?gid,
           cm_sender = sm_sender request, cm_sequence = gr_next_message_sequence g,
           cm_body = sm_body request\<rparr>]) (s_messages s),
         s_groups := fmupd ?gid (g\<lparr>gr_next_message_sequence := nq\<rparr>) (s_groups s)\<rparr>)
      \<lparr>cc_command = command, cc_fingerprint = f, cc_actor = sm_sender request, cc_revision = rv,
       cc_outcome = ChatMessageSent, cc_intents = [ChatMessageSend ?gid (sm_message request)
         (sm_sender request) (gr_next_message_sequence g) (sm_body request)]\<rparr>)"
    (is "sound _ _ _ _ _ _ (finish_command s ?c ?k)")
    if g: "fmlookup (s_groups s) ?gid = Some g" and ms: "fmlookup (s_messages s) ?gid = Some ms"
      and fresh: "fmlookup (s_receipts s) command = None" "sm_sender request |\<in>| s_users s"
        "next_command_revision s = Inr rv"
      and room: "length (sm_body request) \<le> max_message_bytes (s_limits s)"
        "length ms < max_messages_per_group (s_limits s)"
      and new: "\<not> list_ex (\<lambda>message. cm_id message = sm_message request) ms"
      and nq: "next_revision (gr_next_message_sequence g) ''message_sequence_overflow'' = Inr nq"
    for g ms nq rv
  proof (rule sound_finish)
    let ?m = "\<lparr>cm_id = sm_message request, cm_group = ?gid, cm_sender = sm_sender request,
      cm_sequence = gr_next_message_sequence g, cm_body = sm_body request\<rparr>"
    let ?g = "g\<lparr>gr_next_message_sequence := nq\<rparr>"
    show "plan_frame s ?c ?k"
      using fresh rel_ok_ordered [OF social_inv_parts(2) [OF inv]] social_inv_parts(10) [OF inv]
      by (simp add: plan_frame_def next_command_revision_Inr)
    assume w
    with w have body: "sm_body request \<noteq> []" by blast
    note gok = group_okD [OF inv g]
    have msok: "messages_ok (s_limits s) (s_users s) ?gid ms"
      and seq: "unat (gr_next_message_sequence g) = Suc (length ms)"
      using gok(3) ms by auto
    have nq': "unat nq = Suc (Suc (length ms))"
      using nq seq by (simp add: next_revision_def checked_add_one_Some)
    have dom: "fmdom (fmupd ?gid ?g (s_groups s)) = fmdom (s_groups s)"
      using fmdomI [OF g] by (simp add: finsert_absorb)
    have snoc: "messages_ok (s_limits s) (s_users s) ?gid (ms @ [?m])"
      using fresh room new seq body by (intro messages_ok_snoc [OF msok]) (simp_all add: message_ok_def)
    have mem: "members_ok (s_limits s) (s_users s) ?g"
      using gok(2) by (simp add: members_ok_def)
    have "groups_ok (s_limits s) (s_users s) (s_groups ?c) (s_messages ?c)"
      using social_inv_parts(3) [OF inv] mem snoc gok(1) nq' fmdomI [OF g]
      unfolding groups_ok_def by (simp add: dom) blast
    moreover have "notifs_ok (s_limits s) (s_users s) rv (s_notifications s)"
      using fresh(3) by (intro notifs_ok_mono [OF social_inv_parts(4) [OF inv]])
        (simp add: next_command_revision_Inr)
    moreover have "fmap_len (s_groups ?c) \<le> max_groups (s_limits s)"
      using social_inv_parts(1) [OF inv] by (simp add: fmap_len_upd_old [OF g] sizes_ok_def)
    moreover have "refs_ok l us (s_groups ?c) (s_messages ?c) v p"
      if "refs_ok l us (s_groups s) (s_messages s) v p" for l us v p
      using refs_ok_append [OF ms that dom] by simp
    moreover have "gr_next_message_sequence g \<noteq> 0" using seq by auto
    then have "payload_ok (s_limits s) (s_users s) (s_groups ?c) (s_messages ?c)
        (completion_receipt ?k) (ChatMessageSend ?gid (sm_message request) (sm_sender request)
          (gr_next_message_sequence g) (sm_body request))"
      using fresh(2) room body find_append_None [OF new, of ?m] by (simp add: payload_ok_def)
    ultimately show "plan_valid s ?c ?k"
      using social_inv_parts(2) [OF inv] fresh by (simp add: plan_valid_def)
  qed simp_all
  show ?thesis
    unfolding send_group_message_def Let_def
    by (rule sound_commandI, intro sound_intros)
      (auto intro!: key simp: with_group_def ordinary_Inr_known not_le dest: group_okD(3) [OF inv])
qed

lemma notifs_ok_update:
  assumes "notifs_ok l us rv ns" and "rcp |\<in>| us" and "fmap_len rs \<le> max_notifications_per_user l"
    and "\<And>nid r. fmlookup rs nid = Some r \<Longrightarrow> notif_ok l us rv rcp nid r"
  shows "notifs_ok l us rv (fmupd rcp rs ns)"
  using assms unfolding notifs_ok_def by auto

lemma notifs_distinct_update:
  assumes "notifs_distinct ns"
    and "\<And>m n x y. fmlookup rs m = Some x \<Longrightarrow> fmlookup rs n = Some y \<Longrightarrow>
      nr_sequence x = nr_sequence y \<Longrightarrow> m = n"
  shows "notifs_distinct (fmupd rcp rs ns)"
  using assms unfolding notifs_distinct_def by auto

lemma notifications_of_ok:
  assumes "social_inv s"
  shows "fmlookup (notifications_of s rcp) nid = Some r \<Longrightarrow>
      notif_ok (s_limits s) (s_users s) (s_revision s) rcp nid r"
    and "fmap_len (notifications_of s rcp) \<le> max_notifications_per_user (s_limits s)"
    and "fmlookup (notifications_of s rcp) m = Some x \<Longrightarrow>
      fmlookup (notifications_of s rcp) n = Some y \<Longrightarrow> nr_sequence x = nr_sequence y \<Longrightarrow> m = n"
proof -
  show "fmlookup (notifications_of s rcp) nid = Some r \<Longrightarrow>
      notif_ok (s_limits s) (s_users s) (s_revision s) rcp nid r"
    using social_inv_parts(4) [OF assms]
    by (cases "fmlookup (s_notifications s) rcp") (auto simp: notifications_of_def notifs_ok_def)
  show "fmap_len (notifications_of s rcp) \<le> max_notifications_per_user (s_limits s)"
    using social_inv_parts(4) [OF assms]
    by (cases "fmlookup (s_notifications s) rcp") (auto simp: notifications_of_def notifs_ok_def)
  assume "fmlookup (notifications_of s rcp) m = Some x"
    "fmlookup (notifications_of s rcp) n = Some y" "nr_sequence x = nr_sequence y"
  moreover from this(1) obtain rs where "fmlookup (s_notifications s) rcp = Some rs"
    by (cases "fmlookup (s_notifications s) rcp") (auto simp: notifications_of_def)
  ultimately show "m = n"
    using social_inv_parts(10) [OF assms] unfolding notifs_distinct_def notifications_of_def
    by fastforce
qed

lemma notif_ok_mono:
  "notif_ok l us rv rcp nid r \<Longrightarrow> unat rv \<le> unat rv' \<Longrightarrow> notif_ok l us rv' rcp nid r"
  unfolding notif_ok_def word_le_nat_alt by (meson le_trans)

text \<open>A candidate that differs from the registry only in its notifications.\<close>

lemma plan_notifications:
  assumes inv: "social_inv s" and k: "fresh_completion s k"
    and c: "c = s\<lparr>s_notifications := ns\<rparr>" and d: "notifs_distinct ns"
    and ok: "w \<Longrightarrow> notifs_ok (s_limits s) (s_users s) (cc_revision k) ns"
    and p: "w \<Longrightarrow> \<forall>p \<in> set (cc_intents k). payload_ok (s_limits s) (s_users s) (s_groups s)
      (s_messages s) (completion_receipt k) p"
  shows "plan_frame s c k" and "w \<Longrightarrow> plan_valid s c k"
proof -
  show "plan_frame s c k"
    using k d rel_ok_ordered [OF social_inv_parts(2) [OF inv]]
    by (simp add: plan_frame_def c fresh_completion_def)
  show "plan_valid s c k" if w
    using ok [OF that] p [OF that] k social_inv_parts(1,2,3) [OF inv]
    by (simp add: plan_valid_def c sizes_ok_def fresh_completion_def)
qed

lemma sound_create_notification:
  assumes inv: "social_inv s" and w: "w \<longrightarrow> cn_subject request \<noteq> [] \<and> cn_content request \<noteq> []"
  shows "sound_command s command f
    (case cn_sender request of None \<Rightarrow> cn_recipient request | Some x \<Rightarrow> x) [NotificationCreated] w
    (create_notification s command f request)"
proof -
  let ?rcp = "cn_recipient request" and ?n = "cn_notification request"
  let ?actor = "case cn_sender request of None \<Rightarrow> ?rcp | Some x \<Rightarrow> x"
  have key: "sound s command f ?actor [NotificationCreated] w (finish_command s
      (s\<lparr>s_notifications := fmupd ?rcp (fmupd ?n
           \<lparr>nr_id = ?n, nr_sender = cn_sender request, nr_recipient = ?rcp,
            nr_kind = cn_kind request, nr_subject = cn_subject request,
            nr_content = cn_content request, nr_sequence = rv, nr_read = False\<rparr>
           (notifications_of s ?rcp)) (s_notifications s)\<rparr>)
      \<lparr>cc_command = command, cc_fingerprint = f, cc_actor = ?actor, cc_revision = rv,
       cc_outcome = NotificationCreated, cc_intents = [NotificationDelivery (cn_sender request)
         ?rcp ?n (cn_kind request) (cn_subject request) (cn_content request) rv]\<rparr>)"
    (is "sound _ _ _ _ _ _ (finish_command s ?c ?k)")
    if fresh: "fmlookup (s_receipts s) command = None" "next_command_revision s = Inr rv"
      and us: "?rcp |\<in>| s_users s" "\<forall>x. cn_sender request = Some x \<longrightarrow> x |\<in>| s_users s"
      and room: "str_len (cn_subject request) \<le> max_notification_text_bytes (s_limits s)"
        "str_len (cn_content request) \<le> max_notification_text_bytes (s_limits s)"
        "fmap_len (notifications_of s ?rcp) < max_notifications_per_user (s_limits s)"
      and new: "?n |\<notin>| fmdom (notifications_of s ?rcp)" for rv
  proof -
    let ?r = "\<lparr>nr_id = ?n, nr_sender = cn_sender request, nr_recipient = ?rcp,
      nr_kind = cn_kind request, nr_subject = cn_subject request,
      nr_content = cn_content request, nr_sequence = rv, nr_read = False\<rparr>"
    let ?rs = "fmupd ?n ?r (notifications_of s ?rcp)"
    have rv: "unat rv = Suc (unat (s_revision s))" using fresh(2) by (simp add: next_command_revision_Inr)
    then have "rv \<noteq> 0" by auto
    have actor: "?actor |\<in>| s_users s" using us by (auto split: option.split)
    have none: "fmlookup (notifications_of s ?rcp) ?n = None" using new by (rule fmdom_notD)
    have old: "nr_sequence r \<noteq> rv" if "fmlookup (notifications_of s ?rcp) nid = Some r" for nid r
      using notifications_of_ok(1) [OF inv that] rv by (auto simp: notif_ok_def word_le_nat_alt)
    have d: "notifs_distinct (fmupd ?rcp ?rs (s_notifications s))"
    proof (rule notifs_distinct_update [OF social_inv_parts(10) [OF inv]])
      show "m = n" if "fmlookup ?rs m = Some x" "fmlookup ?rs n = Some y"
        "nr_sequence x = nr_sequence y" for m n x y
        using that old [of m x] old [of n y] notifications_of_ok(3) [OF inv, of ?rcp m x n y]
        by (auto split: if_splits)
    qed
    have ok: "notifs_ok (s_limits s) (s_users s) rv (fmupd ?rcp ?rs (s_notifications s))" if w
    proof (rule notifs_ok_update [OF notifs_ok_mono [OF social_inv_parts(4) [OF inv]] us(1)])
      show "fmap_len ?rs \<le> max_notifications_per_user (s_limits s)"
        using room(3) by (simp add: fmap_len_upd_new [OF none])
      show "notif_ok (s_limits s) (s_users s) rv ?rcp nid r" if "fmlookup ?rs nid = Some r" for nid r
        using that us room w \<open>w\<close> \<open>rv \<noteq> 0\<close> rv notif_ok_mono [OF notifications_of_ok(1) [OF inv]]
        by (auto simp: notif_ok_def [of _ _ _ _ _ ?r] split: if_splits)
    qed (simp add: rv)
    have k: "fresh_completion s ?k"
      using fresh actor by (simp add: fresh_completion_def next_command_revision_Inr)
    have p: "\<forall>p \<in> set (cc_intents ?k). payload_ok (s_limits s) (s_users s) (s_groups s)
        (s_messages s) (completion_receipt ?k) p" if w
      using w that us room by (simp add: payload_ok_def)
    note plan = plan_notifications [OF inv k refl d, of w]
    show ?thesis
      by (rule sound_finish) (use plan ok p in \<open>simp_all\<close>)
  qed
  have sender: "ordinary (case cn_sender request of None \<Rightarrow> Inr () | Some x \<Rightarrow> ensure_known_user s x)"
    by (simp split: option.split)
  have senderD: "\<forall>x. cn_sender request = Some x \<longrightarrow> x |\<in>| s_users s"
    if "(case cn_sender request of None \<Rightarrow> Inr () | Some x \<Rightarrow> ensure_known_user s x) = Inr u" for u
    using that by (auto split: option.splits)
  show ?thesis
    unfolding create_notification_def Let_def
    by (rule sound_commandI, intro sound_intros)
      (use sender in \<open>auto intro!: key dest!: senderD simp: not_le\<close>)
qed

lemma get_notification_iff:
  "get_notification s rcp n = Some r \<longleftrightarrow> fmlookup (notifications_of s rcp) n = Some r"
  by (simp add: get_notification_def notifications_of_def split: option.split)

lemma sound_mark_notification_read:
  assumes inv: "social_inv s"
  shows "sound_command s command f rcp [NotificationMarkedRead] w
    (mark_notification_read s command f rcp n)"
proof -
  have key: "sound s command f rcp [NotificationMarkedRead] w (finish_command s
      (s\<lparr>s_notifications := fmupd rcp (fmupd n (r\<lparr>nr_read := True\<rparr>) (notifications_of s rcp))
         (s_notifications s)\<rparr>)
      \<lparr>cc_command = command, cc_fingerprint = f, cc_actor = rcp, cc_revision = rv,
       cc_outcome = NotificationMarkedRead, cc_intents = []\<rparr>)"
    (is "sound _ _ _ _ _ _ (finish_command s ?c ?k)")
    if fresh: "fmlookup (s_receipts s) command = None" "rcp |\<in>| s_users s"
        "next_command_revision s = Inr rv" and r: "get_notification s rcp n = Some r" for r rv
  proof -
    let ?rs = "fmupd n (r\<lparr>nr_read := True\<rparr>) (notifications_of s rcp)"
    have rv: "unat rv = Suc (unat (s_revision s))" using fresh by (simp add: next_command_revision_Inr)
    have r': "fmlookup (notifications_of s rcp) n = Some r" using r by (simp add: get_notification_iff)
    have d: "notifs_distinct (fmupd rcp ?rs (s_notifications s))"
      by (rule notifs_distinct_update [OF social_inv_parts(10) [OF inv]])
        (use r' notifications_of_ok(3) [OF inv] in \<open>auto split: if_splits\<close>)
    have ok: "notifs_ok (s_limits s) (s_users s) rv (fmupd rcp ?rs (s_notifications s))"
    proof (rule notifs_ok_update [OF notifs_ok_mono [OF social_inv_parts(4) [OF inv]] fresh(2)])
      show "fmap_len ?rs \<le> max_notifications_per_user (s_limits s)"
        using notifications_of_ok(2) [OF inv] by (simp add: fmap_len_upd_old [OF r'])
      have "notif_ok (s_limits s) (s_users s) rv rcp n (r\<lparr>nr_read := True\<rparr>)"
        using notif_ok_mono [OF notifications_of_ok(1) [OF inv r'], of rv] rv
        by (simp add: notif_ok_def)
      then show "notif_ok (s_limits s) (s_users s) rv rcp nid q" if "fmlookup ?rs nid = Some q" for nid q
        using that rv notif_ok_mono [OF notifications_of_ok(1) [OF inv]]
        by (auto split: if_splits)
    qed (simp add: rv)
    have k: "fresh_completion s ?k"
      using fresh by (simp add: fresh_completion_def next_command_revision_Inr)
    note plan = plan_notifications [OF inv k refl d, of w]
    show ?thesis
      by (rule sound_finish) (use plan ok in simp_all)
  qed
  show ?thesis
    unfolding mark_notification_read_def Let_def
    by (rule sound_commandI, intro sound_intros) (auto intro!: key simp: ordinary_Inr_known)
qed

lemma sound_delete_notification:
  assumes inv: "social_inv s"
  shows "sound_command s command f rcp [NotificationDeleted] w
    (delete_notification s command f rcp n)"
proof -
  have key: "sound s command f rcp [NotificationDeleted] w (finish_command s
      (s\<lparr>s_notifications := (if fmap_len (fmdrop n rs) = 0 then fmdrop rcp (s_notifications s)
         else fmupd rcp (fmdrop n rs) (s_notifications s))\<rparr>)
      \<lparr>cc_command = command, cc_fingerprint = f, cc_actor = rcp, cc_revision = rv,
       cc_outcome = NotificationDeleted, cc_intents = []\<rparr>)"
    (is "sound _ _ _ _ _ _ (finish_command s (s\<lparr>s_notifications := ?ns\<rparr>) ?k)")
    if fresh: "fmlookup (s_receipts s) command = None" "rcp |\<in>| s_users s"
        "next_command_revision s = Inr rv"
      and rs: "fmlookup (s_notifications s) rcp = Some rs" for rs rv
  proof -
    have of: "notifications_of s rcp = rs" using rs by (simp add: notifications_of_def)
    have rv: "unat rv = Suc (unat (s_revision s))" using fresh by (simp add: next_command_revision_Inr)
    have "notifs_distinct (fmupd rcp (fmdrop n rs) (s_notifications s))"
      by (rule notifs_distinct_update [OF social_inv_parts(10) [OF inv]])
        (use notifications_of_ok(3) [OF inv, of rcp, unfolded of] in \<open>auto split: if_splits\<close>)
    moreover have "notifs_distinct (fmdrop rcp (s_notifications s))"
      using social_inv_parts(10) [OF inv] unfolding notifs_distinct_def by auto
    ultimately have d: "notifs_distinct ?ns" by simp
    note old = notifs_ok_mono [OF social_inv_parts(4) [OF inv], of rv]
    have "notifs_ok (s_limits s) (s_users s) rv (fmupd rcp (fmdrop n rs) (s_notifications s))"
    proof (rule notifs_ok_update [OF old fresh(2)])
      show "fmap_len (fmdrop n rs) \<le> max_notifications_per_user (s_limits s)"
        using le_trans [OF fmap_len_drop_le notifications_of_ok(2) [OF inv, of rcp, unfolded of]] .
      show "notif_ok (s_limits s) (s_users s) rv rcp nid q" if "fmlookup (fmdrop n rs) nid = Some q"
        for nid q
        using that rv notif_ok_mono [OF notifications_of_ok(1) [OF inv, of rcp, unfolded of], of nid q rv]
        by (auto split: if_splits)
    qed (simp add: rv)
    moreover have "notifs_ok (s_limits s) (s_users s) rv (fmdrop rcp (s_notifications s))"
      using old rv unfolding notifs_ok_def by auto
    ultimately have ok: "notifs_ok (s_limits s) (s_users s) rv ?ns" by simp
    have k: "fresh_completion s ?k"
      using fresh by (simp add: fresh_completion_def next_command_revision_Inr)
    note plan = plan_notifications [OF inv k refl d, of w]
    show ?thesis
      by (rule sound_finish) (use plan ok in simp_all)
  qed
  show ?thesis
    unfolding delete_notification_def Let_def
    by (rule sound_commandI, intro sound_intros)
      (auto intro!: key simp: ordinary_Inr_known get_notification_def split del: if_split
        split: option.splits)
qed

end
