(* ===== verification/Social_Effects.thy ===== *)
theory Social_Effects
  imports Social_Proofs
begin

text \<open>
  The social registry as a state machine. \<open>effect\<close> is an inductive step relation with one or
  two rules per command: the guards that matter and the candidate the command builds. A
  command that is executed for the first time and succeeds makes exactly such a step, and
  \<open>finish_command\<close> adds its receipt and intents (\<open>exec_cases\<close>). The machine is then an
  instance of the interfaces of theory \<open>Machine\<close>.
\<close>

subsection \<open>Who issues a command and what it may answer\<close>

fun cmd_actor :: "SocialCommand \<Rightarrow> id16" where
  "cmd_actor (SendFriendRequest a b) = a"
| "cmd_actor (AcceptFriendRequest a b) = a"
| "cmd_actor (RemoveFriend a b) = a"
| "cmd_actor (BlockUser a b) = a"
| "cmd_actor (UnblockUser a b) = a"
| "cmd_actor (CreateGroup r) = cg_creator r"
| "cmd_actor (JoinGroup g a) = a"
| "cmd_actor (ApproveGroupJoin g a b) = a"
| "cmd_actor (ChangeGroupRole g a b r) = a"
| "cmd_actor (LeaveGroup g a) = a"
| "cmd_actor (BanGroupMember g a b) = a"
| "cmd_actor (UnbanGroupMember g a b) = a"
| "cmd_actor (SendGroupMessage r) = sm_sender r"
| "cmd_actor (CreateNotification r) =
     (case cn_sender r of None \<Rightarrow> cn_recipient r | Some x \<Rightarrow> x)"
| "cmd_actor (MarkNotificationRead a n) = a"
| "cmd_actor (DeleteNotification a n) = a"

fun cmd_outcomes :: "SocialCommand \<Rightarrow> ReceiptOutcome list" where
  "cmd_outcomes (SendFriendRequest a b) = [FriendRequestSent]"
| "cmd_outcomes (AcceptFriendRequest a b) = [FriendRequestAccepted]"
| "cmd_outcomes (RemoveFriend a b) = [FriendRemoved]"
| "cmd_outcomes (BlockUser a b) = [UserBlocked]"
| "cmd_outcomes (UnblockUser a b) = [UserUnblocked]"
| "cmd_outcomes (CreateGroup r) = [GroupCreated]"
| "cmd_outcomes (JoinGroup g a) = [GroupJoined, GroupJoinRequested]"
| "cmd_outcomes (ApproveGroupJoin g a b) = [GroupJoinApproved]"
| "cmd_outcomes (ChangeGroupRole g a b r) = [GroupRoleChanged]"
| "cmd_outcomes (LeaveGroup g a) = [GroupLeft]"
| "cmd_outcomes (BanGroupMember g a b) = [GroupMemberBanned]"
| "cmd_outcomes (UnbanGroupMember g a b) = [GroupMemberUnbanned]"
| "cmd_outcomes (SendGroupMessage r) = [ChatMessageSent]"
| "cmd_outcomes (CreateNotification r) = [NotificationCreated]"
| "cmd_outcomes (MarkNotificationRead a n) = [NotificationMarkedRead]"
| "cmd_outcomes (DeleteNotification a n) = [NotificationDeleted]"

lemma exec_sound:
  assumes "social_inv s"
  shows "sound_command s (env_command e) (env_fingerprint e) (cmd_actor (env_request e))
    (cmd_outcomes (env_request e)) (request_wf (env_request e)) (social_exec e s)"
proof (cases "env_request e")
  case (SendGroupMessage r)
  have "request_wf (SendGroupMessage r) \<longrightarrow> sm_body r \<noteq> []"
    by (simp add: MessageBody_new_def)
  from sound_send_group_message [OF assms this] SendGroupMessage show ?thesis
    by (simp add: social_exec_def Let_def)
next
  case (CreateNotification r)
  have "request_wf (CreateNotification r) \<longrightarrow> cn_subject r \<noteq> [] \<and> cn_content r \<noteq> []"
    by (simp add: NotificationText_new_def)
  from sound_create_notification [OF assms this] CreateNotification show ?thesis
    by (simp add: social_exec_def Let_def)
qed (use assms in \<open>simp_all add: social_exec_def Let_def sound_send_friend_request
    sound_accept_friend_request sound_remove_friend sound_block_user sound_unblock_user
    sound_create_group sound_join_group sound_approve_group_join sound_change_group_role
    sound_leave_group sound_ban_group_member sound_unban_group_member
    sound_mark_notification_read sound_delete_notification\<close>)

subsection \<open>Steps\<close>

inductive effect :: "SocialCommand \<Rightarrow> SocialRegistry \<Rightarrow> SocialRegistry \<Rightarrow> bool" where
  eff_send: "relationship s a b = Inr NoRelation \<Longrightarrow>
    effect (SendFriendRequest a b) s
      (s\<lparr>s_friend_requests := finsert (a, b) (s_friend_requests s)\<rparr>)"
| eff_accept: "(b, a) |\<in>| s_friend_requests s \<Longrightarrow> (a, b) |\<notin>| s_blocks s \<Longrightarrow> (b, a) |\<notin>| s_blocks s \<Longrightarrow>
    effect (AcceptFriendRequest a b) s
      (s\<lparr>s_friend_requests := s_friend_requests s |-| {|(b, a)|},
         s_friendships := finsert (pair_of a b) (s_friendships s)\<rparr>)"
| eff_remove: "pair_of a b |\<in>| s_friendships s \<Longrightarrow>
    effect (RemoveFriend a b) s (s\<lparr>s_friendships := s_friendships s |-| {|pair_of a b|}\<rparr>)"
| eff_block: "(a, b) |\<notin>| s_blocks s \<Longrightarrow> a \<noteq> b \<Longrightarrow>
    effect (BlockUser a b) s
      (s\<lparr>s_friendships := s_friendships s |-| {|pair_of a b|},
         s_friend_requests := s_friend_requests s |-| {|(a, b)|} |-| {|(b, a)|},
         s_blocks := finsert (a, b) (s_blocks s)\<rparr>)"
| eff_unblock: "(a, b) |\<in>| s_blocks s \<Longrightarrow>
    effect (UnblockUser a b) s (s\<lparr>s_blocks := s_blocks s |-| {|(a, b)|}\<rparr>)"
| eff_create: "cg_group r |\<notin>| fmdom (s_groups s) \<Longrightarrow>
    effect (CreateGroup r) s
      (s\<lparr>s_groups := fmupd (cg_group r) \<lparr>gr_id = cg_group r, gr_name = cg_name r,
           gr_join_mode = cg_join_mode r, gr_max_members = cg_max_members r, gr_revision = 1,
           gr_members = fmupd (cg_creator r) Superadmin fmempty, gr_join_requests = {||},
           gr_banned = {||}, gr_next_message_sequence = 1\<rparr> (s_groups s),
         s_messages := fmupd (cg_group r) [] (s_messages s)\<rparr>)"
| eff_join: "fmlookup (s_groups s) gid = Some g \<Longrightarrow> gr_join_mode g = OpenMode \<Longrightarrow>
    a |\<notin>| gr_banned g \<Longrightarrow> fmlookup (gr_members g) a = None \<Longrightarrow>
    effect (JoinGroup gid a) s
      (s\<lparr>s_groups := fmupd gid (g\<lparr>gr_members := fmupd a Member (gr_members g),
           gr_revision := v\<rparr>) (s_groups s)\<rparr>)"
| eff_ask: "fmlookup (s_groups s) gid = Some g \<Longrightarrow> gr_join_mode g = AdminApproval \<Longrightarrow>
    a |\<notin>| gr_banned g \<Longrightarrow> fmlookup (gr_members g) a = None \<Longrightarrow>
    effect (JoinGroup gid a) s
      (s\<lparr>s_groups := fmupd gid (g\<lparr>gr_join_requests := finsert a (gr_join_requests g),
           gr_revision := v\<rparr>) (s_groups s)\<rparr>)"
| eff_approve: "fmlookup (s_groups s) gid = Some g \<Longrightarrow> fmlookup (gr_members g) a = Some r \<Longrightarrow>
    role_rank Admin \<le> role_rank r \<Longrightarrow> b |\<in>| gr_join_requests g \<Longrightarrow>
    effect (ApproveGroupJoin gid a b) s
      (s\<lparr>s_groups := fmupd gid (g\<lparr>gr_join_requests := gr_join_requests g |-| {|b|},
           gr_members := fmupd b Member (gr_members g), gr_revision := v\<rparr>) (s_groups s)\<rparr>)"
| eff_role: "fmlookup (s_groups s) gid = Some g \<Longrightarrow> fmlookup (gr_members g) a = Some Superadmin \<Longrightarrow>
    fmlookup (gr_members g) b = Some q \<Longrightarrow>
    effect (ChangeGroupRole gid a b r) s
      (s\<lparr>s_groups := fmupd gid (g\<lparr>gr_members := fmupd b r (gr_members g),
           gr_revision := v\<rparr>) (s_groups s)\<rparr>)"
| eff_leave: "fmlookup (s_groups s) gid = Some g \<Longrightarrow> fmlookup (gr_members g) a = Some r \<Longrightarrow>
    effect (LeaveGroup gid a) s
      (s\<lparr>s_groups := fmupd gid (g\<lparr>gr_members := fmdrop a (gr_members g),
           gr_revision := v\<rparr>) (s_groups s)\<rparr>)"
| eff_ban: "fmlookup (s_groups s) gid = Some g \<Longrightarrow> fmlookup (gr_members g) a = Some r \<Longrightarrow>
    role_rank Admin \<le> role_rank r \<Longrightarrow> a \<noteq> b \<Longrightarrow>
    (\<And>q. fmlookup (gr_members g) b = Some q \<Longrightarrow> role_rank q < role_rank r) \<Longrightarrow>
    effect (BanGroupMember gid a b) s
      (s\<lparr>s_groups := fmupd gid (g\<lparr>gr_members := fmdrop b (gr_members g),
           gr_join_requests := gr_join_requests g |-| {|b|},
           gr_banned := finsert b (gr_banned g), gr_revision := v\<rparr>) (s_groups s)\<rparr>)"
| eff_unban: "fmlookup (s_groups s) gid = Some g \<Longrightarrow> fmlookup (gr_members g) a = Some r \<Longrightarrow>
    role_rank Admin \<le> role_rank r \<Longrightarrow>
    effect (UnbanGroupMember gid a b) s
      (s\<lparr>s_groups := fmupd gid (g\<lparr>gr_banned := gr_banned g |-| {|b|},
           gr_revision := v\<rparr>) (s_groups s)\<rparr>)"
| eff_message: "fmlookup (s_groups s) (sm_group r) = Some g \<Longrightarrow>
    fmlookup (gr_members g) (sm_sender r) \<noteq> None \<Longrightarrow>
    fmlookup (s_messages s) (sm_group r) = Some ms \<Longrightarrow>
    effect (SendGroupMessage r) s
      (s\<lparr>s_messages := fmupd (sm_group r) (ms @ [\<lparr>cm_id = sm_message r, cm_group = sm_group r,
           cm_sender = sm_sender r, cm_sequence = gr_next_message_sequence g,
           cm_body = sm_body r\<rparr>]) (s_messages s),
         s_groups := fmupd (sm_group r) (g\<lparr>gr_next_message_sequence := nq\<rparr>) (s_groups s)\<rparr>)"
| eff_notify: "effect (CreateNotification r) s
      (s\<lparr>s_notifications := fmupd (cn_recipient r) (fmupd (cn_notification r)
           \<lparr>nr_id = cn_notification r, nr_sender = cn_sender r, nr_recipient = cn_recipient r,
            nr_kind = cn_kind r, nr_subject = cn_subject r, nr_content = cn_content r,
            nr_sequence = rv, nr_read = False\<rparr> (notifications_of s (cn_recipient r)))
           (s_notifications s)\<rparr>)"
| eff_read: "get_notification s a n = Some x \<Longrightarrow>
    effect (MarkNotificationRead a n) s
      (s\<lparr>s_notifications := fmupd a (fmupd n (x\<lparr>nr_read := True\<rparr>) (notifications_of s a))
           (s_notifications s)\<rparr>)"
| eff_delete: "fmlookup (s_notifications s) a = Some rs \<Longrightarrow>
    effect (DeleteNotification a n) s
      (s\<lparr>s_notifications := (if fmap_len (fmdrop n rs) = 0 then fmdrop a (s_notifications s)
           else fmupd a (fmdrop n rs) (s_notifications s))\<rparr>)"

inductive_cases effect_relations:
  "effect (SendFriendRequest a b) s c" "effect (AcceptFriendRequest a b) s c"
  "effect (RemoveFriend a b) s c" "effect (BlockUser a b) s c" "effect (UnblockUser a b) s c"

lemma fresh_existing:
  "fmlookup (s_receipts s) c = None \<Longrightarrow> existing_receipt s c f a os = Inr None"
  by (simp add: existing_receipt_def)

lemma with_receipt_fresh [simp]: "with_receipt s (Inr None) b = b"
  by (simp add: with_receipt_def)

lemmas exec_eval = social_exec_def Let_def fresh_existing with_group_known
  require_group_role_Inr

lemma finish_command_success:
  assumes "finish_command s c k = Inr (t, r)"
  shows "finished_as c k t" "r = completion_receipt k" "validate_invariants t = Inr ()"
proof -
  have "length (cc_intents k) < 2 ^ 16"
    using assms by (auto simp: finish_command_def u16_try_from_def Let_def split: if_splits)
  from finish_command_Inr [OF assms this]
  show "finished_as c k t" "r = completion_receipt k" "validate_invariants t = Inr ()" .
qed

definition makes_step :: "SocialRegistry \<Rightarrow> SocialCommand \<Rightarrow> SocialRegistry \<times> SocialReceipt \<Rightarrow> bool" where
  "makes_step s cmd res \<longleftrightarrow> (\<exists>c k. effect cmd s c \<and> finish_command s c k = Inr res)"

lemma makes_stepI: "finish_command s c k = Inr res \<Longrightarrow> effect cmd s c \<Longrightarrow> makes_step s cmd res"
  unfolding makes_step_def by (intro exI conjI)

lemma exec_makes_step_relations:
  assumes "fmlookup (s_receipts s) (env_command e) = None" and "social_exec e s = (t, Inr r)"
    and "env_request e \<in> {SendFriendRequest a b, AcceptFriendRequest a b, RemoveFriend a b,
      BlockUser a b, UnblockUser a b}"
  shows "makes_step s (env_request e) (t, r)"
  by (insert assms)
    (auto simp: exec_eval send_friend_request_def accept_friend_request_def remove_friend_def
      block_user_def unblock_user_def;
    erule makes_stepI; rule effect.intros;
    (assumption | auto simp: not_less simp del: role_rank.simps))

lemma tryE_with_group [simp]:
  "tryE (with_group s gid upd) k = Inr y \<longleftrightarrow>
     (\<exists>g. fmlookup (s_groups s) gid = Some g \<and>
        k (s\<lparr>s_groups := fmupd gid (upd g) (s_groups s)\<rparr>) = Inr y)"
  by (cases "fmlookup (s_groups s) gid") (simp_all add: with_group_def)

declare tryE_Inr_iff [simp del]

lemmas guard_simps = tryE_Inr_iff [of "ensure_known_user s a" for s a]
  tryE_Inr_iff [of "get_group s g" for s g] tryE_Inr_iff [of "require_group_role g a m" for g a m]
  tryE_Inr_iff [of "next_revision v m" for v m] tryE_Inr_iff [of "next_command_revision s" for s]
  tryE_Inr_iff [of "ok_or e v" for e v]

lemma exec_makes_step_groups:
  assumes "fmlookup (s_receipts s) (env_command e) = None" and "social_exec e s = (t, Inr r)"
    and "env_request e \<in> {CreateGroup req, ApproveGroupJoin gid a b, LeaveGroup gid a,
      UnbanGroupMember gid a b}"
  shows "makes_step s (env_request e) (t, r)"
  by (insert assms)
    (auto simp: exec_eval create_group_def approve_group_join_def leave_group_def
      unban_group_member_def guard_simps simp del: role_rank.simps;
    erule makes_stepI; rule effect.intros;
    (assumption | auto simp: not_less simp del: role_rank.simps))

lemma exec_makes_step_role:
  assumes "fmlookup (s_receipts s) (env_command e) = None" and "social_exec e s = (t, Inr r)"
    and e: "env_request e = ChangeGroupRole gid a b q"
  shows "makes_step s (env_request e) (t, r)"
proof -
  have top: "role_rank Superadmin \<le> role_rank x \<longleftrightarrow> x = Superadmin" for x
    by (cases x) (simp_all add: word_le_nat_alt)
  show ?thesis
    by (insert assms)
      (auto simp: exec_eval change_group_role_def guard_simps top simp del: role_rank.simps;
    erule makes_stepI; rule effect.intros;
    (assumption | auto simp: not_less simp del: role_rank.simps))
qed

lemma exec_makes_step_ban:
  assumes "fmlookup (s_receipts s) (env_command e) = None" and "social_exec e s = (t, Inr r)"
    and e: "env_request e = BanGroupMember gid a b"
  shows "makes_step s (env_request e) (t, r)"
  by (insert assms)
    (auto simp: exec_eval ban_group_member_def tryE_Inr_iff not_le simp del: role_rank.simps
      split: option.splits if_splits;
    erule makes_stepI; rule effect.intros;
    (assumption | auto simp: not_less simp del: role_rank.simps))

lemma exec_makes_step_join:
  assumes "fmlookup (s_receipts s) (env_command e) = None" and "social_exec e s = (t, Inr r)"
    and e: "env_request e = JoinGroup gid a"
  shows "makes_step s (env_request e) (t, r)"
proof -
  from assms obtain g v rv where g: "fmlookup (s_groups s) gid = Some g"
    "a |\<notin>| fmdom (gr_members g)" "a |\<notin>| gr_banned g"
    and fin: "tryE (case gr_join_mode g of
        OpenMode \<Rightarrow> Inr (g\<lparr>gr_members := fmupd a Member (gr_members g)\<rparr>,
          GroupJoined, [GroupJoinAccepted gid a a])
      | AdminApproval \<Rightarrow> Inr (g\<lparr>gr_join_requests := finsert a (gr_join_requests g)\<rparr>,
          GroupJoinRequested, [GroupJoinRequest gid a])
      | ClosedMode \<Rightarrow> inv_err) (\<lambda>(g', outcome, intents).
      finish_command s
        (s\<lparr>s_groups := fmupd gid (g'\<lparr>gr_revision := v\<rparr>) (s_groups s)\<rparr>)
        \<lparr>cc_command = env_command e, cc_fingerprint = env_fingerprint e, cc_actor = a,
         cc_revision = rv, cc_outcome = outcome, cc_intents = intents\<rparr>) = Inr (t, r)"
    by (auto simp: exec_eval join_group_def guard_simps split del: if_split)
  note none = fmdom_notD [OF g(2)]
  show ?thesis
  proof (cases "gr_join_mode g")
    case OpenMode
    with fin show ?thesis unfolding e
      by (auto intro: makes_stepI eff_join [OF g(1) OpenMode g(3) none])
  next
    case AdminApproval
    with fin show ?thesis unfolding e
      by (auto intro: makes_stepI eff_ask [OF g(1) AdminApproval g(3) none])
  qed (use fin in simp)
qed

lemma exec_makes_step_message:
  assumes "fmlookup (s_receipts s) (env_command e) = None" and "social_exec e s = (t, Inr r)"
    and e: "env_request e = SendGroupMessage req"
  shows "makes_step s (env_request e) (t, r)"
  by (insert assms)
    (auto simp: exec_eval send_group_message_def guard_simps fmlookup_dom_iff;
    erule makes_stepI; rule effect.intros;
    (assumption | auto simp: not_less simp del: role_rank.simps))

lemma exec_makes_step_notifications:
  assumes "fmlookup (s_receipts s) (env_command e) = None" and "social_exec e s = (t, Inr r)"
    and e: "env_request e \<in> {CreateNotification req, MarkNotificationRead a n,
      DeleteNotification a n}"
  shows "makes_step s (env_request e) (t, r)"
  by (insert assms)
    (auto simp: exec_eval create_notification_def mark_notification_read_def
      delete_notification_def tryE_Inr_iff split del: if_split;
    erule makes_stepI; rule effect.intros;
    (assumption | auto simp: not_less simp del: role_rank.simps))

lemma exec_makes_step:
  assumes "fmlookup (s_receipts s) (env_command e) = None" and "social_exec e s = (t, Inr r)"
  shows "makes_step s (env_request e) (t, r)"
  using exec_makes_step_relations [OF assms] exec_makes_step_groups [OF assms]
    exec_makes_step_role [OF assms] exec_makes_step_ban [OF assms] exec_makes_step_join [OF assms]
    exec_makes_step_message [OF assms] exec_makes_step_notifications [OF assms]
  by (cases "env_request e") simp_all


lemma effect_frame:
  "effect cmd s c \<Longrightarrow> s_config c = s_config s \<and> s_users c = s_users s \<and>
     s_receipts c = s_receipts s \<and> s_outbox c = s_outbox s"
  by (induction rule: effect.induct) simp_all

subsection \<open>The cases of an execution\<close>

lemma exec_shape:
  "\<exists>body. social_exec e s = with_receipt s (existing_receipt s (env_command e) (env_fingerprint e)
     (cmd_actor (env_request e)) (cmd_outcomes (env_request e))) (commit_candidate s body)"
  by (cases "env_request e")
    (simp_all add: social_exec_def Let_def send_friend_request_def accept_friend_request_def
      remove_friend_def block_user_def unblock_user_def create_group_def join_group_def
      approve_group_join_def change_group_role_def leave_group_def ban_group_member_def
      unban_group_member_def send_group_message_def create_notification_def
      mark_notification_read_def delete_notification_def, blast+)

definition receipt_answers :: "SocialReceipt \<Rightarrow> SocialEnvelope \<Rightarrow> bool" where
  "receipt_answers r e \<longleftrightarrow> sr_fingerprint r = env_fingerprint e \<and>
     sr_actor r = cmd_actor (env_request e) \<and> sr_outcome r \<in> set (cmd_outcomes (env_request e))"

lemma exec_answered:
  assumes "fmlookup (s_receipts s) (env_command e) = Some r"
  shows "receipt_answers r e \<Longrightarrow> social_exec e s = (s, Inr r)"
    and "\<not> receipt_answers r e \<Longrightarrow>
      \<exists>err. social_exec e s = (s, Inl err) \<and> se_code err = Conflict"
  using assms exec_shape [of e s]
  by (auto simp: existing_receipt_def receipt_answers_def with_receipt_def split: if_splits)

lemma exec_cases:
  assumes inv: "social_inv s"
  obtains (answered) r where "fmlookup (s_receipts s) (env_command e) = Some r"
      "receipt_answers r e" "social_exec e s = (s, Inr r)"
  | (conflict) r err where "fmlookup (s_receipts s) (env_command e) = Some r"
      "\<not> receipt_answers r e" "social_exec e s = (s, Inl err)" "se_code err = Conflict"
  | (rejected) err where "fmlookup (s_receipts s) (env_command e) = None"
      "social_exec e s = (s, Inl err)" "request_wf (env_request e) \<Longrightarrow> se_code err \<noteq> DataLoss"
  | (stepped) c k t where "fmlookup (s_receipts s) (env_command e) = None"
      "social_exec e s = (t, Inr (completion_receipt k))" "effect (env_request e) s c"
      "finished_as c k t" "social_inv t" "cc_command k = env_command e"
      "receipt_answers (completion_receipt k) e"
proof (cases "fmlookup (s_receipts s) (env_command e)")
  case (Some r)
  then show thesis
    using exec_answered [OF Some] answered conflict by (cases "receipt_answers r e") blast+
next
  case None
  from exec_sound [OF inv, of e] None obtain body
    where body: "social_exec e s = commit_candidate s body"
    and snd: "sound s (env_command e) (env_fingerprint e) (cmd_actor (env_request e))
      (cmd_outcomes (env_request e)) (request_wf (env_request e)) body"
    unfolding sound_command_def by (auto simp: fresh_existing)
  show thesis
  proof (cases body)
    case (Inl err)
    have "se_code err \<noteq> DataLoss" if w: "request_wf (env_request e)"
    proof -
      from snd Inl consider "se_code err \<noteq> DataLoss"
        | c k where "finish_command s c k = Inl err" "plan_frame s c k" "plan_valid s c k"
        using w unfolding sound_def by force
      then show ?thesis
      proof cases
        case 2
        from finish_command_total [OF inv 2(2,3)] 2(1) have "capacity_error err" by auto
        then show ?thesis by (auto simp: capacity_error_def)
      qed
    qed
    with None Inl body show thesis by (intro rejected) simp_all
  next
    case (Inr p)
    obtain t r where p: "p = (t, r)" by (cases p)
    with Inr body have ex: "social_exec e s = (t, Inr r)" by simp
    from snd Inr p obtain c' k' where k': "finish_command s c' k' = Inr (t, r)"
      "plan_frame s c' k'" "cc_command k' = env_command e" "cc_fingerprint k' = env_fingerprint e"
      "cc_actor k' = cmd_actor (env_request e)" "cc_outcome k' \<in> set (cmd_outcomes (env_request e))"
      unfolding sound_def by auto
    from exec_makes_step [OF None ex] obtain c k where
      c: "effect (env_request e) s c" "finish_command s c k = Inr (t, r)"
      unfolding makes_step_def by blast
    have r: "r = completion_receipt k" "r = completion_receipt k'"
      using finish_command_success(2) [OF c(2)] finish_command_success(2) [OF k'(1)] by simp_all
    have ans: "receipt_answers r e" using k'(4-6) unfolding r(2) receipt_answers_def by simp
    have "cc_command k = cc_command k'" using r by (metis completion_receipt_sel(1))
    with None ex c(1) finish_command_success(1) [OF c(2)] finish_command_inv [OF inv k'(2,1)]
      ans k'(3) show thesis
      unfolding r(1) by (intro stepped) simp_all
  qed
qed

subsection \<open>Registering users\<close>

lemma rel_ok_users:
  assumes rel: "rel_ok l us fs fr bl" and sub: "us |\<subseteq>| us'"
  shows "rel_ok l us' fs fr bl"
proof (rule rel_okI)
  show "card {x. linked fs fr bl a x} \<le> max_relationships_per_user l" for a
  proof (cases "a |\<in>| us")
    case False
    then have "{x. linked fs fr bl a x} = {}"
      using linked_user [OF rel] linked_sym by blast
    then show ?thesis by simp
  qed (rule rel_okD(4) [OF rel])
qed (use rel_okD(1-3) [OF rel] sub in blast)+

lemma registry_ok_user:
  assumes "registry_ok s" and "fcard (s_users s) < max_users (s_limits s)"
    and "account |\<notin>| s_users s"
  shows "registry_ok (s\<lparr>s_users := finsert account (s_users s)\<rparr>)"
proof -
  let ?us = "finsert account (s_users s)"
  have sub: "s_users s |\<subseteq>| ?us" by auto
  have mem: "members_ok l ?us g" if "members_ok l (s_users s) g" for l g
    using that unfolding members_ok_def by auto
  have msg: "messages_ok l ?us gid ms" if "messages_ok l (s_users s) gid ms" for l gid ms
    using that unfolding messages_ok_def message_ok_def by auto
  have refs: "refs_ok l ?us gs ms v p" if "refs_ok l (s_users s) gs ms v p" for l gs ms v p
    using that by (cases p) auto
  have "groups_ok l ?us gs ms" if "groups_ok l (s_users s) gs ms" for l gs ms
    using that mem msg unfolding groups_ok_def by blast
  moreover have "notifs_ok l ?us v ns" if "notifs_ok l (s_users s) v ns" for l v ns
    using that unfolding notifs_ok_def notif_ok_def by auto
  moreover have "receipts_ok ?us v rs ob" if "receipts_ok (s_users s) v rs ob" for v rs ob
    using that unfolding receipts_ok_def by auto
  moreover have "outbox_ok l ?us gs ms rs ob" if "outbox_ok l (s_users s) gs ms rs ob" for l gs ms rs ob
    using that refs unfolding outbox_ok_def payload_ok_def by metis
  moreover have "sizes_ok (s\<lparr>s_users := ?us\<rparr>)"
    using assms by (simp add: registry_ok_def sizes_ok_def fcard_finsert_new)
  ultimately show ?thesis
    using assms(1) rel_ok_users [OF _ sub] unfolding registry_ok_def by simp
qed

lemma register_user_cases:
  assumes inv: "social_inv s"
  obtains (known) "account |\<in>| s_users s" "register_user s account = (s, Inr False)"
  | (full) err where "register_user s account = (s, Inl err)" "se_code err = ResourceExhausted"
      "max_users (s_limits s) \<le> fcard (s_users s)"
  | (added) "account |\<notin>| s_users s"
      "register_user s account = (s\<lparr>s_users := finsert account (s_users s)\<rparr>, Inr True)"
      "social_inv (s\<lparr>s_users := finsert account (s_users s)\<rparr>)"
proof -
  consider "account |\<in>| s_users s"
    | "account |\<notin>| s_users s" "max_users (s_limits s) \<le> fcard (s_users s)"
    | "account |\<notin>| s_users s" "fcard (s_users s) < max_users (s_limits s)"
    by fastforce
  then show thesis
  proof cases
    case 1
    then show thesis by (intro known) (simp_all add: register_user_def)
  next
    case 2
    then have "register_user s account =
        (s, Inl (social_error ResourceExhausted ''user_capacity_exhausted''))"
      by (simp add: register_user_def)
    then show thesis by (rule full) (use 2 in simp_all)
  next
    case 3
    let ?t = "s\<lparr>s_users := finsert account (s_users s)\<rparr>"
    have "registry_ok ?t"
      using inv 3 registry_ok_user unfolding social_inv_def by blast
    then have "social_inv ?t" using inv by (simp add: social_inv_def)
    with social_inv_validates [OF this] 3 show thesis
      by (intro added) (simp_all add: register_user_def Let_def)
  qed
qed

subsection \<open>The interfaces the registry provides\<close>

lemma exec_inv: "social_inv s \<Longrightarrow> social_inv (fst (social_exec e s))"
  by (cases rule: exec_cases [of s e]) simp_all

lemma step_inv:
  assumes inv: "social_inv s"
  shows "social_inv (social_step x s)"
proof (cases x)
  case (RegisterUser account)
  show ?thesis
    by (cases rule: register_user_cases [OF inv, of account])
      (simp_all add: RegisterUser inv)
next
  case (Execute e)
  then show ?thesis using exec_inv [OF inv] by simp
qed

definition social_below :: "SocialRegistry \<Rightarrow> SocialRegistry \<Rightarrow> bool" where
  "social_below s t \<longleftrightarrow> s_users s |\<subseteq>| s_users t \<and>
     (\<forall>c r. fmlookup (s_receipts s) c = Some r \<longrightarrow> fmlookup (s_receipts t) c = Some r) \<and>
     (\<forall>i x. fmlookup (s_outbox s) i = Some x \<longrightarrow> fmlookup (s_outbox t) i = Some x) \<and>
     (\<forall>gid g. fmlookup (s_groups s) gid = Some g \<longrightarrow>
        (\<exists>g'. fmlookup (s_groups t) gid = Some g' \<and> gr_name g' = gr_name g \<and>
           gr_join_mode g' = gr_join_mode g \<and> gr_max_members g' = gr_max_members g)) \<and>
     (\<forall>gid ms. fmlookup (s_messages s) gid = Some ms \<longrightarrow>
        (\<exists>new. fmlookup (s_messages t) gid = Some (ms @ new)))"

lemma effect_groups_kept:
  "effect cmd s c \<Longrightarrow> fmlookup (s_groups s) gid = Some g \<Longrightarrow>
     \<exists>g'. fmlookup (s_groups c) gid = Some g' \<and> gr_name g' = gr_name g \<and>
       gr_join_mode g' = gr_join_mode g \<and> gr_max_members g' = gr_max_members g"
  by (induction rule: effect.induct) (auto dest: fmdomI)

lemma effect_messages_kept:
  assumes "effect cmd s c" and "fmlookup (s_messages s) gid = Some ms"
    and "fmdom (s_messages s) |\<subseteq>| fmdom (s_groups s)"
  shows "\<exists>new. fmlookup (s_messages c) gid = Some (ms @ new)"
  using assms
proof (induction rule: effect.induct)
  case (eff_create r s)
  then have "gid \<noteq> cg_group r" by (auto dest: fmdomI)
  with eff_create show ?case by simp
qed auto

lemma exec_below:
  assumes inv: "social_inv s"
  shows "social_below s (fst (social_exec e s))"
proof (cases rule: exec_cases [OF inv, of e])
  case (4 c k t)
  note fin = finished_fields [OF 4(4)] and frame = effect_frame [OF 4(3)]
  have sub: "fmdom (s_messages s) |\<subseteq>| fmdom (s_groups s)"
    using social_inv_parts(3) [OF inv] unfolding groups_ok_def by blast
  have "fmlookup (s_outbox t) i = Some x" if "fmlookup (s_outbox s) i = Some x" for i x
    using that no_intents_without_receipt [OF inv 4(1), of i] frame 4(6)
    by (simp add: finished_outbox(1) [OF 4(4)])
  moreover have "fmlookup (s_receipts t) d = Some r" if "fmlookup (s_receipts s) d = Some r" for d r
    using that 4(1,6) by (auto simp: fin frame)
  ultimately show ?thesis
    using effect_groups_kept [OF 4(3)] effect_messages_kept [OF 4(3) _ sub]
    by (simp add: social_below_def 4(2) fin frame)
qed (auto simp: social_below_def)

lemma social_below_trans: "social_below s t \<Longrightarrow> social_below t u \<Longrightarrow> social_below s u"
  unfolding social_below_def by (intro conjI allI impI) (blast, blast, blast, metis, metis append_assoc)

lemma social_below_refl: "social_below s s"
  by (auto simp: social_below_def)

lemma step_below:
  assumes inv: "social_inv s"
  shows "social_below s (social_step x s)"
proof (cases x)
  case (RegisterUser account)
  show ?thesis
    by (cases rule: register_user_cases [OF inv, of account])
      (auto simp: RegisterUser social_below_def)
next
  case (Execute e)
  then show ?thesis using exec_below [OF inv] by simp
qed

interpretation social: monotone_machine social_step social_inv social_below
  by unfold_locales (blast intro: step_inv step_below social_below_refl social_below_trans)+

interpretation social_receipts: receipt_machine social_step social_inv social_receipt social_exec
    env_command
proof unfold_locales
  fix s x k r
  assume "social_inv s" "social_receipt s k = Some r"
  then show "social_receipt (social_step x s) k = Some r"
    using step_below unfolding social_below_def social_receipt_def by blast
next
  fix s e
  assume "social_inv s"
  then show "social_inv (fst (social_exec e s))" by (rule exec_inv)
next
  fix s e s' r
  assume inv: "social_inv s" and "social_exec e s = (s', Inr r)"
  then show "social_receipt s' (env_command e) = Some r"
    by (cases rule: exec_cases [OF inv, of e])
      (auto simp: social_receipt_def finished_fields)
next
  fix s e s' r t
  assume inv: "social_inv s" and ex: "social_exec e s = (s', Inr r)"
    and t: "social_receipt t (env_command e) = Some r"
  have "receipt_answers r e" by (cases rule: exec_cases [OF inv, of e]) (use ex in auto)
  with t show "social_exec e t = (t, Inr r)"
    unfolding social_receipt_def by (intro exec_answered(1))
qed

lemma reachable_inv: "social_inv (fold social_step xs (social_new config))"
  by (rule social.run_inv [OF social_inv_new])

end
