(* ===== verification/Paging.thy ===== *)
theory Paging
  imports Prelude
begin

text \<open>
  Cursor pagination, as the listing operations offer it: a page holds at most \<open>limit\<close> items
  and, when more follow, a cursor from which the next request continues. \<open>drain\<close> is the
  client that follows the cursors. \<open>cursor_pages\<close> is the contract that makes it see every
  item once and in order; \<open>keyed_pages\<close> is how the code meets it: the items are strictly
  ordered by a key and the cursor is the key of the last item of the page.
\<close>

primrec drain ::
    "('c option \<Rightarrow> 'e + 'a list \<times> 'c option) \<Rightarrow> nat \<Rightarrow> 'c option \<Rightarrow> 'a list option" where
  "drain page 0 c = None"
| "drain page (Suc n) c = (case page c of
     Inl _ \<Rightarrow> None
   | Inr (xs, nxt) \<Rightarrow> (case nxt of
       None \<Rightarrow> Some xs
     | Some c' \<Rightarrow> map_option (append xs) (drain page n (Some c'))))"

locale cursor_pages =
  fixes page :: "'q \<Rightarrow> 'c option \<Rightarrow> 'e + 'a list \<times> 'c option"
    and limit :: "'q \<Rightarrow> nat"
    and valid :: "'q \<Rightarrow> 'c option \<Rightarrow> bool"
    and rest :: "'q \<Rightarrow> 'c option \<Rightarrow> 'a list"
  assumes limit_pos: "valid q c \<Longrightarrow> 0 < limit q"
    and last_page: "valid q c \<Longrightarrow> length (rest q c) \<le> limit q \<Longrightarrow> page q c = Inr (rest q c, None)"
    and next_page: "valid q c \<Longrightarrow> limit q < length (rest q c) \<Longrightarrow>
      \<exists>c'. page q c = Inr (take (limit q) (rest q c), Some c') \<and> valid q (Some c') \<and>
        rest q (Some c') = drop (limit q) (rest q c)"
begin

lemma drain_complete:
  "valid q c \<Longrightarrow> length (rest q c) < n \<Longrightarrow> drain (page q) n c = Some (rest q c)"
proof (induction n arbitrary: c)
  case (Suc n)
  show ?case
  proof (cases "length (rest q c) \<le> limit q")
    case True
    with last_page [OF Suc.prems(1)] show ?thesis by simp
  next
    case False
    with next_page [OF Suc.prems(1)] obtain c' where
      c': "page q c = Inr (take (limit q) (rest q c), Some c')" "valid q (Some c')"
        "rest q (Some c') = drop (limit q) (rest q c)" by auto
    have "length (rest q (Some c')) < n"
      using c'(3) Suc.prems(2) False limit_pos [OF Suc.prems(1)] by simp
    from Suc.IH [OF c'(2) this] show ?thesis using c' by simp
  qed
qed simp

end

lemma sorted_wrt_filter_after:
  assumes "sorted_wrt (\<lambda>x y. f x < f y) xs" and "0 < l" and "l < length xs"
  shows "filter (\<lambda>x. f (last (take l xs)) < (f x :: 'k::linorder)) xs = drop l xs"
proof -
  define k where "k = f (last (take l xs))"
  have last: "last (take l xs) = xs ! (l - 1)"
    using assms by (subst last_conv_nth) auto
  have lo: "\<not> k < f x" if "x \<in> set (take l xs)" for x
  proof -
    from that obtain i where i: "i < l" "x = xs ! i" using assms by (auto simp: in_set_conv_nth)
    then have "i = l - 1 \<or> i < l - 1 \<and> l - 1 < length xs" using assms by linarith
    then have "i = l - 1 \<or> f x < k"
      using i sorted_wrt_nth_less [OF assms(1), of i "l - 1"] assms by (auto simp: k_def last)
    then show ?thesis using i by (auto simp: k_def last)
  qed
  have hi: "k < f x" if "x \<in> set (drop l xs)" for x
  proof -
    from that obtain i where i: "i < length xs - l" "x = xs ! (l + i)"
      by (auto simp: in_set_conv_nth)
    then show ?thesis
      using sorted_wrt_nth_less [OF assms(1), of "l - 1" "l + i"] assms by (simp add: k_def last)
  qed
  have "filter (\<lambda>x. k < f x) (take l xs @ drop l xs) = drop l xs"
    unfolding filter_append using lo hi
    by (simp add: filter_True filter_False del: append_take_drop_id)
  then show ?thesis by (simp add: k_def)
qed

locale keyed_pages =
  fixes page :: "'q \<Rightarrow> 'c option \<Rightarrow> 'e + 'a list \<times> 'c option"
    and limit :: "'q \<Rightarrow> nat"
    and valid :: "'q \<Rightarrow> 'c option \<Rightarrow> bool"
    and items :: "'q \<Rightarrow> 'a list"
    and key :: "'a \<Rightarrow> 'k::linorder"
    and after :: "'c option \<Rightarrow> 'k option"
    and cursor :: "'q \<Rightarrow> 'k \<Rightarrow> 'c"
  assumes limit_positive: "valid q c \<Longrightarrow> 0 < limit q"
    and items_sorted: "valid q c \<Longrightarrow> sorted_wrt (\<lambda>x y. key x < key y) (items q)"
    and page_items: "valid q c \<Longrightarrow>
      found = filter (\<lambda>x. case after c of None \<Rightarrow> True | Some k \<Rightarrow> k < key x) (items q) \<Longrightarrow>
      page q c = Inr (take (limit q) found,
        if limit q < length found
        then Some (cursor q (key (last (take (limit q) found)))) else None)"
    and cursor_valid: "valid q c \<Longrightarrow> x \<in> set (items q) \<Longrightarrow> valid q (Some (cursor q (key x)))"
    and after_cursor: "after (Some (cursor q k)) = Some k"
begin

definition rest :: "'q \<Rightarrow> 'c option \<Rightarrow> 'a list" where
  "rest q c = filter (\<lambda>x. case after c of None \<Rightarrow> True | Some k \<Rightarrow> k < key x) (items q)"

lemma rest_next:
  assumes "valid q c" and "limit q < length (rest q c)"
  defines "x \<equiv> last (take (limit q) (rest q c))"
  shows "x \<in> set (items q)" "rest q (Some (cursor q (key x))) = drop (limit q) (rest q c)"
proof -
  have "x \<in> set (rest q c)"
    unfolding x_def using limit_positive [OF assms(1)] assms(2)
    by (metis in_set_takeD last_in_set length_greater_0_conv less_trans take_eq_Nil2
        length_0_conv not_less_iff_gr_or_eq)
  then show "x \<in> set (items q)" by (simp add: rest_def)
  have sorted: "sorted_wrt (\<lambda>x y. key x < key y) (rest q c)"
    unfolding rest_def by (rule sorted_wrt_filter [OF items_sorted [OF assms(1)]])
  have "filter (\<lambda>y. key x < key y) (rest q c) = drop (limit q) (rest q c)"
    unfolding x_def
    by (rule sorted_wrt_filter_after [OF sorted limit_positive [OF assms(1)] assms(2)])
  moreover have "filter (\<lambda>y. key x < key y) (rest q c) = filter (\<lambda>y. key x < key y) (items q)"
    using \<open>x \<in> set (rest q c)\<close>
    by (auto simp: rest_def intro!: filter_cong split: option.splits dest: less_trans)
  ultimately show "rest q (Some (cursor q (key x))) = drop (limit q) (rest q c)"
    by (simp add: rest_def [of q "Some (cursor q (key x))"] after_cursor)
qed

end

sublocale keyed_pages \<subseteq> cursor_pages page limit valid rest
proof
  fix q c
  assume v: "valid q c"
  then show "0 < limit q" by (rule limit_positive)
  note page = page_items [OF v refl, folded rest_def]
  show "page q c = Inr (rest q c, None)" if "length (rest q c) \<le> limit q"
    using that by (simp add: page)
  show "\<exists>c'. page q c = Inr (take (limit q) (rest q c), Some c') \<and> valid q (Some c') \<and>
      rest q (Some c') = drop (limit q) (rest q c)" if "limit q < length (rest q c)"
    using that rest_next [OF v that] cursor_valid [OF v] page by auto
qed

end
