(* ===== verification/Social_Properties.thy ===== *)
theory Social_Properties
  imports Social_Effects Paging
begin

text \<open>
  The properties of the social registry: its guards are complete, commands are executed once,
  the receipts form a log, friendships need consent, blocks hold, groups stay governed and
  their roles change only with authority, and the three listings page through everything.
  All are stated over registries reachable from \<open>social_new\<close> by registrations and commands.
\<close>

subsection \<open>Stepping a registry\<close>

lemma step_cases:
  assumes inv: "social_inv s"
  obtains (same) "social_step x s = s"
  | (registered) a where "x = RegisterUser a" "a |\<notin>| s_users s"
      "social_step x s = s\<lparr>s_users := finsert a (s_users s)\<rparr>"
  | (executed) e c k where "x = Execute e" "fmlookup (s_receipts s) (env_command e) = None"
      "effect (env_request e) s c" "finished_as c k (social_step x s)"
      "receipt_answers (completion_receipt k) e"
proof (cases x)
  case (RegisterUser a)
  show thesis
    by (cases rule: register_user_cases [OF inv, of a])
      (use RegisterUser same registered in simp_all)
next
  case (Execute e)
  show thesis
    by (cases rule: exec_cases [OF inv, of e]) (use Execute same executed in simp_all)
qed

text \<open>
  C3: The guards of the social registry are complete. In every reachable registry the runtime
  invariant check succeeds; a well-formed command either succeeds, leaves a registry that
  passes the check and stores its receipt, or fails without any change, and never because
  the validation of its candidate failed (\<open>DataLoss\<close>). Registering a user fails only when the
  user capacity is exhausted.
\<close>

theorem social_guards_complete:
  assumes s: "s = fold social_step ops (social_new config)" and e: "request_wf (env_request e)"
  shows "validate_invariants s = Inr () \<and>
    (case social_exec e s of
       (t, Inr r) \<Rightarrow> validate_invariants t = Inr () \<and> social_receipt t (env_command e) = Some r
     | (t, Inl err) \<Rightarrow> t = s \<and> se_code err \<noteq> DataLoss) \<and>
    (case register_user s a of
       (t, Inr new) \<Rightarrow> validate_invariants t = Inr () \<and> (new \<longleftrightarrow> a |\<notin>| s_users s)
     | (t, Inl err) \<Rightarrow> t = s \<and> se_code err = ResourceExhausted)"
proof (intro conjI)
  have inv: "social_inv s" unfolding s by (rule reachable_inv)
  then show "validate_invariants s = Inr ()" by (rule social_inv_validates)
  show "case social_exec e s of
       (t, Inr r) \<Rightarrow> validate_invariants t = Inr () \<and> social_receipt t (env_command e) = Some r
     | (t, Inl err) \<Rightarrow> t = s \<and> se_code err \<noteq> DataLoss"
    by (cases rule: exec_cases [OF inv, of e])
      (simp_all add: e social_inv_validates inv social_receipt_def finished_fields)
  show "case register_user s a of
       (t, Inr new) \<Rightarrow> validate_invariants t = Inr () \<and> (new \<longleftrightarrow> a |\<notin>| s_users s)
     | (t, Inl err) \<Rightarrow> t = s \<and> se_code err = ResourceExhausted"
    by (cases rule: register_user_cases [OF inv, of a]) (simp_all add: social_inv_validates inv)
qed

text \<open>
  A social command takes effect exactly once: after it succeeded, in every later registry
  the same envelope returns the same receipt and changes nothing, and any envelope that
  reuses its identity for another fingerprint, actor or operation is a \<open>Conflict\<close>.
\<close>

theorem social_exactly_once:
  assumes s: "s = fold social_step ops (social_new config)"
    and ex: "social_exec e s = (s', Inr r)" and t: "t = fold social_step xs s'"
  shows "social_exec e t = (t, Inr r) \<and>
    (env_command e' = env_command e \<and> \<not> receipt_answers r e' \<longrightarrow>
       (\<exists>err. social_exec e' t = (t, Inl err) \<and> se_code err = Conflict))"
proof -
  have inv: "social_inv s" unfolding s by (rule reachable_inv)
  have "social_inv s'" using exec_inv [OF inv, of e] ex by simp
  then have "social_receipt t (env_command e) = Some r"
    unfolding t using social_receipts.exec_stores [OF inv ex] by (rule social_receipts.run_receipt)
  then have "\<exists>err. social_exec e' t = (t, Inl err) \<and> se_code err = Conflict"
    if "env_command e' = env_command e" "\<not> receipt_answers r e'"
    using that by (intro exec_answered(2)) (simp_all add: social_receipt_def)
  moreover have "social_exec e t = (t, Inr r)"
    unfolding t by (rule social_receipts.exactly_once [OF inv ex])
  ultimately show ?thesis by blast
qed

text \<open>
  The receipts are a complete log of a registry: they carry the revisions 1 to the
  current revision, each exactly once, and the outbox holds for each receipt exactly the
  intents numbered 1 to its \<open>outbox_count\<close>, and no others.
\<close>

theorem social_receipt_log:
  fixes config ops
  defines "s \<equiv> fold social_step ops (social_new config)"
  shows "bij_betw (\<lambda>c. unat (sr_revision (the (social_receipt s c))))
      {c. social_receipt s c \<noteq> None} {1..unat (s_revision s)} \<and>
    (\<forall>c ord. fmlookup (s_outbox s) (OutboxIntentId c ord) \<noteq> None \<longleftrightarrow>
       (\<exists>r. social_receipt s c = Some r \<and> 1 \<le> unat ord \<and> unat ord \<le> unat (sr_outbox_count r)))"
proof
  have inv: "social_inv s" unfolding s_def by (rule reachable_inv)
  let ?f = "\<lambda>c. unat (sr_revision (the (social_receipt s c)))"
  have dom: "{c. social_receipt s c \<noteq> None} = fset (fmdom (s_receipts s))"
    by (auto simp: social_receipt_def fmlookup_dom_iff)
  have inj: "inj_on ?f (fset (fmdom (s_receipts s)))"
  proof (rule inj_onI)
    fix c d assume "c \<in> fset (fmdom (s_receipts s))" "d \<in> fset (fmdom (s_receipts s))"
    then obtain r q where rq: "fmlookup (s_receipts s) c = Some r" "fmlookup (s_receipts s) d = Some q"
      by (auto simp: fmlookup_dom_iff)
    moreover assume "?f c = ?f d"
    ultimately have "sr_revision r = sr_revision q"
      by (simp add: social_receipt_def word_unat_eq_iff)
    with rq show "c = d" using social_inv_parts(8) [OF inv] unfolding receipts_distinct_def by blast
  qed
  have "1 \<le> unat (sr_revision r) \<and> unat (sr_revision r) \<le> unat (s_revision s)"
    if "fmlookup (s_receipts s) c = Some r" for c r
  proof -
    have "sr_revision r \<noteq> 0 \<and> sr_revision r \<le> s_revision s"
      using social_inv_parts(5) [OF inv] that unfolding receipts_ok_def by blast
    then show ?thesis by (auto simp: word_le_nat_alt Suc_le_eq unat_gt_0)
  qed
  then have sub: "?f ` fset (fmdom (s_receipts s)) \<subseteq> {1..unat (s_revision s)}"
    by (auto simp: social_receipt_def fmlookup_dom_iff)
  have "card (?f ` fset (fmdom (s_receipts s))) = card {1..unat (s_revision s)}"
    using social_inv_parts(7) [OF inv]
    by (simp add: card_image [OF inj] fmap_len_def fcard.rep_eq)
  from card_subset_eq [OF _ sub this]
  show "bij_betw ?f {c. social_receipt s c \<noteq> None} {1..unat (s_revision s)}"
    unfolding dom bij_betw_def using inj by simp
  have some: "\<exists>r. fmlookup (s_receipts s) c = Some r"
    if "OutboxIntentId c ord |\<in>| fmdom (s_outbox s)" for c ord
    using social_inv_parts(6) [OF inv] that unfolding outbox_ok_def
    by (fastforce simp: fmlookup_dom_iff)
  show "\<forall>c ord. fmlookup (s_outbox s) (OutboxIntentId c ord) \<noteq> None \<longleftrightarrow>
       (\<exists>r. social_receipt s c = Some r \<and> 1 \<le> unat ord \<and> unat ord \<le> unat (sr_outbox_count r))"
  proof (intro allI)
    fix c ord
    have "fmlookup (s_outbox s) (OutboxIntentId c ord) \<noteq> None \<longleftrightarrow>
        OutboxIntentId c ord |\<in>| fmdom (s_outbox s)" by (simp add: fmlookup_dom_iff)
    then show "fmlookup (s_outbox s) (OutboxIntentId c ord) \<noteq> None \<longleftrightarrow>
       (\<exists>r. social_receipt s c = Some r \<and> 1 \<le> unat ord \<and> unat ord \<le> unat (sr_outbox_count r))"
      using some [of c ord] social_inv_parts(9) [OF inv]
      unfolding intents_numbered_def social_receipt_def by blast
  qed
qed

subsection \<open>Relationships\<close>

fun mirror :: "RelationshipView \<Rightarrow> RelationshipView" where
  "mirror OutgoingRequest = IncomingRequest"
| "mirror IncomingRequest = OutgoingRequest"
| "mirror BlockedBySelf = BlockedByOther"
| "mirror BlockedByOther = BlockedBySelf"
| "mirror v = v"

lemma relationship_eval:
  assumes "social_inv s"
  shows "relationship s a b = Inr Friends \<longleftrightarrow>
      a |\<in>| s_users s \<and> b |\<in>| s_users s \<and> a \<noteq> b \<and> pair_of a b |\<in>| s_friendships s"
    and "relationship s a b = Inr OutgoingRequest \<longleftrightarrow> (a, b) |\<in>| s_friend_requests s"
    and "relationship s a b = Inr IncomingRequest \<longleftrightarrow> (b, a) |\<in>| s_friend_requests s"
    and "relationship s a b = Inr BlockedBySelf \<or> relationship s a b = Inr MutuallyBlocked \<longleftrightarrow>
      (a, b) |\<in>| s_blocks s"
proof -
  note rel = social_inv_parts(2) [OF assms]
  have fr: "(a, b) |\<in>| s_friend_requests s \<Longrightarrow> a \<noteq> b \<and> a |\<in>| s_users s \<and> b |\<in>| s_users s \<and>
      pair_of a b |\<notin>| s_friendships s \<and> (b, a) |\<notin>| s_friend_requests s \<and>
      (a, b) |\<notin>| s_blocks s \<and> (b, a) |\<notin>| s_blocks s" for a b
    by (rule rel_okD(2) [OF rel])
  have bl: "(a, b) |\<in>| s_blocks s \<Longrightarrow> a \<noteq> b \<and> a |\<in>| s_users s \<and> b |\<in>| s_users s \<and>
      pair_of a b |\<notin>| s_friendships s" for a b
    by (rule rel_okD(3) [OF rel])
  note facts = fr [of a b] fr [of b a] bl [of a b] bl [of b a] pair_of_sym [of a b]
  show "relationship s a b = Inr Friends \<longleftrightarrow>
      a |\<in>| s_users s \<and> b |\<in>| s_users s \<and> a \<noteq> b \<and> pair_of a b |\<in>| s_friendships s"
    and "relationship s a b = Inr OutgoingRequest \<longleftrightarrow> (a, b) |\<in>| s_friend_requests s"
    and "relationship s a b = Inr IncomingRequest \<longleftrightarrow> (b, a) |\<in>| s_friend_requests s"
    and "relationship s a b = Inr BlockedBySelf \<or> relationship s a b = Inr MutuallyBlocked \<longleftrightarrow>
      (a, b) |\<in>| s_blocks s"
    using facts by (auto simp: relationship_def Let_def split: if_splits)
qed

text \<open>
  A relationship looks the same from both sides: what one account sees is the mirror
  image of what the other sees (outgoing against incoming requests, blocking against being
  blocked), errors included.
\<close>

theorem relationship_mirrored:
  "relationship (fold social_step ops (social_new config)) b a =
     (case relationship (fold social_step ops (social_new config)) a b of
        Inl err \<Rightarrow> Inl err | Inr view \<Rightarrow> Inr (mirror view))"
proof -
  define s where "s = fold social_step ops (social_new config)"
  have inv: "social_inv s" unfolding s_def by (rule reachable_inv)
  have "(a, b) |\<in>| s_friend_requests s \<Longrightarrow> (b, a) |\<notin>| s_friend_requests s"
    using rel_okD(2) [OF social_inv_parts(2) [OF inv]] by blast
  then show ?thesis
    unfolding s_def [symmetric]
    by (auto simp: relationship_def Let_def ensure_known_user_def UserPair_new_def
        split: if_splits)
qed

text \<open>
  C17: Friendships need consent: two accounts become friends in a step only when one of them
  accepts, and the other one had asked and the request was pending.
\<close>

theorem social_friendship_consent:
  assumes s: "s = fold social_step ops (social_new config)" and t: "t = social_step x s"
    and new: "relationship t a b = Inr Friends" and old: "relationship s a b \<noteq> Inr Friends"
  shows "\<exists>e. x = Execute e \<and>
    (env_request e = AcceptFriendRequest a b \<and> relationship s a b = Inr IncomingRequest \<or>
     env_request e = AcceptFriendRequest b a \<and> relationship s a b = Inr OutgoingRequest)"
proof -
  have inv: "social_inv s" unfolding s by (rule reachable_inv)
  have inv': "social_inv t" unfolding t using inv by (rule step_inv)
  have ab: "a \<noteq> b" "a |\<in>| s_users t" "b |\<in>| s_users t" "pair_of a b |\<in>| s_friendships t"
    using new by (auto simp: relationship_eval(1) [OF inv'])
  have not_s: "pair_of a b |\<notin>| s_friendships s"
  proof
    assume p: "pair_of a b |\<in>| s_friendships s"
    then have "a |\<in>| s_users s" "b |\<in>| s_users s"
      using rel_okD(1) [OF social_inv_parts(2) [OF inv] p] by (auto simp: pair_of_def split: if_splits)
    with p ab(1) old show False by (simp add: relationship_eval(1) [OF inv])
  qed
  show ?thesis
  proof (cases rule: step_cases [OF inv, of x])
    case 1
    with ab not_s show ?thesis by (simp add: t)
  next
    case (2 u)
    with ab not_s show ?thesis by (simp add: t)
  next
    case (3 e c k)
    have "pair_of a b |\<in>| s_friendships c"
      using ab(4) by (simp add: t finished_fields [OF 3(4)])
    from 3(3) this not_s ab(1)
    have "env_request e = AcceptFriendRequest a b \<and> (b, a) |\<in>| s_friend_requests s \<or>
        env_request e = AcceptFriendRequest b a \<and> (a, b) |\<in>| s_friend_requests s"
      by (cases rule: effect.cases) (auto dest!: pair_of_eqD)
    then show ?thesis
      using 3(1) by (auto simp: relationship_eval(2,3) [OF inv])
  qed
qed


lemma effect_block_kept:
  assumes "effect cmd s c" and "(a, b) |\<in>| s_blocks s" and "cmd \<noteq> UnblockUser a b"
  shows "(a, b) |\<in>| s_blocks c"
  using assms by (cases rule: effect.cases) auto

lemma step_block_kept:
  assumes inv: "social_inv s" and "(a, b) |\<in>| s_blocks s"
    and "\<And>e. x = Execute e \<Longrightarrow> env_request e \<noteq> UnblockUser a b"
  shows "(a, b) |\<in>| s_blocks (social_step x s)"
proof (cases rule: step_cases [OF inv, of x])
  case (3 e c k)
  then show ?thesis
    using effect_block_kept [OF 3(3) assms(2)] assms(3) by (simp add: finished_fields)
qed (use assms(2) in simp_all)

lemma run_block_kept:
  "social_inv s \<Longrightarrow> (a, b) |\<in>| s_blocks s \<Longrightarrow>
     (\<And>e. Execute e \<in> set xs \<Longrightarrow> env_request e \<noteq> UnblockUser a b) \<Longrightarrow>
     (a, b) |\<in>| s_blocks (fold social_step xs s)"
proof (induction xs arbitrary: s)
  case (Cons x xs)
  have "(a, b) |\<in>| s_blocks (social_step x s)"
    using Cons.prems(3) by (intro step_block_kept [OF Cons.prems(1,2)]) simp
  then show ?case using Cons.IH [OF step_inv [OF Cons.prems(1)]] Cons.prems(3) by simp
qed simp

text \<open>
  A block holds until its author lifts it: while the history contains no unblocking by
  \<open>a\<close> of \<open>b\<close>, the two see each other as blocked, so they are neither friends nor requesting,
  and a new request or acceptance between them is refused with \<open>PermissionDenied\<close>.
\<close>

theorem social_block_holds:
  assumes s: "s = fold social_step ops (social_new config)"
    and blocked: "relationship s a b = Inr BlockedBySelf \<or> relationship s a b = Inr MutuallyBlocked"
    and xs: "\<And>e. Execute e \<in> set xs \<Longrightarrow> env_request e \<noteq> UnblockUser a b"
    and t: "t = fold social_step xs s" and fresh: "social_receipt t command = None"
  shows "(relationship t a b = Inr BlockedBySelf \<or> relationship t a b = Inr MutuallyBlocked) \<and>
    send_friend_request t command f a b =
      (t, Inl (social_error PermissionDenied ''relationship_blocked'')) \<and>
    send_friend_request t command f b a =
      (t, Inl (social_error PermissionDenied ''relationship_blocked'')) \<and>
    accept_friend_request t command f a b =
      (t, Inl (social_error PermissionDenied ''relationship_blocked'')) \<and>
    accept_friend_request t command f b a =
      (t, Inl (social_error PermissionDenied ''relationship_blocked''))"
proof -
  have inv: "social_inv s" unfolding s by (rule reachable_inv)
  have inv': "social_inv t" unfolding t by (rule social.run_inv [OF inv])
  have bl: "(a, b) |\<in>| s_blocks t"
    unfolding t using blocked xs by (intro run_block_kept [OF inv]) (simp_all add: relationship_eval(4) [OF inv])
  then have users: "a \<noteq> b" "a |\<in>| s_users t" "b |\<in>| s_users t"
    using rel_okD(3) [OF social_inv_parts(2) [OF inv']] by blast+
  have fresh': "fmlookup (s_receipts t) command = None" using fresh by (simp add: social_receipt_def)
  have views: "relationship t a b = Inr BlockedBySelf \<or> relationship t a b = Inr MutuallyBlocked"
    using bl relationship_eval(4) [OF inv', of a b] by blast
  have views': "relationship t b a = Inr BlockedByOther \<or> relationship t b a = Inr MutuallyBlocked"
    using bl users by (auto simp: relationship_def Let_def)
  have known: "ensure_known_user t a = Inr ()" "ensure_known_user t b = Inr ()"
    "UserPair_new a b = Inr (pair_of a b)" "UserPair_new b a = Inr (pair_of b a)"
    using users by simp_all
  have refused: "tryE (relationship t a b) (\<lambda>view. tryE (request_allowed view) rest) =
      Inl (social_error PermissionDenied ''relationship_blocked'')"
    "tryE (relationship t b a) (\<lambda>view. tryE (request_allowed view) rest) =
      Inl (social_error PermissionDenied ''relationship_blocked'')"
    for rest :: "unit \<Rightarrow> SocialError + SocialRegistry \<times> SocialReceipt"
    using views views' by (auto simp: request_allowed_def)
  show ?thesis
    by (intro conjI views) (simp_all add: send_friend_request_def accept_friend_request_def
        fresh_existing [OF fresh'] known refused bl)
qed

subsection \<open>Groups\<close>

text \<open>
  Groups stay governed: every group of a reachable registry has a superadmin, has between
  one and \<open>max_members\<close> members, and no account is at once a member, a requester or banned;
  all of them are registered users.
\<close>

theorem social_groups_governed:
  assumes s: "s = fold social_step ops (social_new config)" and g: "social_group s gid = Some g"
  shows "(\<exists>a. group_role g a = Some Superadmin) \<and> 1 \<le> group_member_count g \<and>
    group_member_count g \<le> gr_max_members g \<and>
    gr_max_members g \<le> max_group_members (s_limits s) \<and>
    \<not> (group_role g a \<noteq> None \<and> has_join_request g a) \<and>
    \<not> (group_role g a \<noteq> None \<and> is_banned g a) \<and> \<not> (has_join_request g a \<and> is_banned g a) \<and>
    (a |\<notin>| s_users s \<longrightarrow> group_role g a = None \<and> \<not> has_join_request g a \<and> \<not> is_banned g a)"
proof -
  have inv: "social_inv s" unfolding s by (rule reachable_inv)
  from g have "fmlookup (s_groups s) gid = Some g" by (simp add: social_group_def)
  note ok = group_okD(2) [OF inv this]
  obtain b where b: "fmlookup (gr_members g) b = Some Superadmin" using members_okD(4) [OF ok] by blast
  then have "fmap_len (gr_members g) \<noteq> 0"
    by (auto simp: fmap_len_def fcard_0_eq dest: fmdomI)
  moreover have "group_role g a = Some r \<Longrightarrow>
      a |\<in>| s_users s \<and> a |\<notin>| gr_join_requests g \<and> a |\<notin>| gr_banned g" for r
    using members_okD(5) [OF ok] by (simp add: group_role_def)
  ultimately show ?thesis
    using b members_okD(2,3,6,7) [OF ok]
    by (cases "group_role g a")
      (auto simp: group_role_def group_member_count_def has_join_request_def is_banned_def)
qed

definition role_change_justified ::
    "GroupRecord \<Rightarrow> GroupRecord \<Rightarrow> id16 \<Rightarrow> id16 \<Rightarrow> SocialCommand \<Rightarrow> bool" where
  "role_change_justified g g' gid b cmd \<longleftrightarrow>
     cmd = JoinGroup gid b \<and> gr_join_mode g = OpenMode \<and> \<not> is_banned g b \<and>
       group_role g' b = Some Member \<or>
     cmd = LeaveGroup gid b \<and> group_role g' b = None \<or>
     (\<exists>a q. group_role g a = Some q \<and>
       (cmd = ApproveGroupJoin gid a b \<and> role_rank Admin \<le> role_rank q \<and>
          has_join_request g b \<and> group_role g' b = Some Member \<or>
        cmd = BanGroupMember gid a b \<and> role_rank Admin \<le> role_rank q \<and> is_banned g' b \<and>
          group_role g' b = None \<and>
          (case group_role g b of None \<Rightarrow> False | Some p \<Rightarrow> role_rank p < role_rank q) \<or>
        (\<exists>r. cmd = ChangeGroupRole gid a b r \<and> q = Superadmin \<and> group_role g b \<noteq> None \<and>
           group_role g' b = Some r)))"

text \<open>
  Roles change only with authority: when a step changes the role of an account in a group,
  it executed a command that entitles to it. The account joined an open group from which
  it is not banned, or left; or an admin approved its pending request; or a member of
  strictly higher rank banned it; or a superadmin set its role.
\<close>

theorem social_role_authority:
  assumes s: "s = fold social_step ops (social_new config)" and t: "t = social_step x s"
    and g: "social_group s gid = Some g" and g': "social_group t gid = Some g'"
    and changed: "group_role g' b \<noteq> group_role g b"
  shows "\<exists>e. x = Execute e \<and> role_change_justified g g' gid b (env_request e)"
proof -
  have inv: "social_inv s" unfolding s by (rule reachable_inv)
  show ?thesis
  proof (cases rule: step_cases [OF inv, of x])
    case (3 e c k)
    have c: "fmlookup (s_groups c) gid = Some g'" "fmlookup (s_groups s) gid = Some g"
      using g g' by (simp_all add: social_group_def t finished_fields [OF 3(4)])
    from 3(3) have "role_change_justified g g' gid b (env_request e)"
    proof (cases rule: effect.cases)
      case (eff_ban gid' h a r b' v)
      then have same: "gid' = gid" "h = g" "b' = b"
        using c changed by (auto simp: group_role_def split: if_splits)
      with eff_ban c changed obtain p where "fmlookup (gr_members g) b = Some p"
        by (cases "fmlookup (gr_members g) b") (auto simp: group_role_def)
      moreover from this eff_ban same have "role_rank p < role_rank r" by blast
      ultimately show ?thesis
        using eff_ban(1-6) c same unfolding role_change_justified_def
        by (intro disjI2 exI [of _ a] exI [of _ r])
          (auto simp: group_role_def is_banned_def simp del: role_rank.simps)
    qed (use c changed in \<open>auto simp: role_change_justified_def group_role_def
        has_join_request_def is_banned_def simp del: role_rank.simps split: if_splits
        dest: fmdomI\<close>)
    then show ?thesis using 3(1) by blast
  qed (use g g' changed in \<open>simp_all add: t social_group_def\<close>)
qed

text \<open>
  History is append-only: along any run of the registry receipts and outbox intents are
  never changed or removed, groups keep their name, mode and capacity, and the message list
  of a group only grows at its end.
\<close>

theorem social_history_append_only:
  assumes s: "s = fold social_step ops (social_new config)" and t: "t = fold social_step xs s"
  shows "(social_receipt s c = Some r \<longrightarrow> social_receipt t c = Some r) \<and>
    (fmlookup (s_outbox s) i = Some x \<longrightarrow> fmlookup (s_outbox t) i = Some x) \<and>
    (\<forall>g. social_group s gid = Some g \<longrightarrow> (\<exists>g'. social_group t gid = Some g' \<and>
       gr_name g' = gr_name g \<and> gr_join_mode g' = gr_join_mode g \<and>
       gr_max_members g' = gr_max_members g)) \<and>
    (fmlookup (s_messages s) gid = Some ms \<longrightarrow>
       (\<exists>new. fmlookup (s_messages t) gid = Some (ms @ new)))"
proof -
  have "social_below s t"
    unfolding t by (rule social.run_below) (simp add: s reachable_inv)
  then show ?thesis unfolding social_below_def social_receipt_def social_group_def by blast
qed


subsection \<open>Listings\<close>

text \<open>The three listings as pages of items and a cursor.\<close>

definition message_page :: "SocialRegistry \<times> id16 \<times> usize \<Rightarrow> MessageCursor option \<Rightarrow>
    SocialError + ChatMessage list \<times> MessageCursor option" where
  "message_page = (\<lambda>(s, gid, limit) cursor. case list_group_messages s gid cursor limit of
     Inl e \<Rightarrow> Inl e | Inr p \<Rightarrow> Inr (mp_items p, mp_next p))"

definition friend_page :: "SocialRegistry \<times> id16 \<times> usize \<Rightarrow> FriendCursor option \<Rightarrow>
    SocialError + id16 list \<times> FriendCursor option" where
  "friend_page = (\<lambda>(s, owner, limit) cursor. case list_friends s owner cursor limit of
     Inl e \<Rightarrow> Inl e | Inr p \<Rightarrow> Inr (fp_items p, fp_next p))"

definition notification_page :: "SocialRegistry \<times> id16 \<times> usize \<Rightarrow> NotificationCursor option \<Rightarrow>
    SocialError + NotificationRecord list \<times> NotificationCursor option" where
  "notification_page = (\<lambda>(s, rcp, limit) cursor. case list_notifications s rcp cursor limit of
     Inl e \<Rightarrow> Inl e | Inr p \<Rightarrow> Inr (np_items p, np_next p))"

definition page_limit_ok :: "usize \<Rightarrow> bool" where
  "page_limit_ok l \<longleftrightarrow> 1 \<le> l \<and> l \<le> 1000"

lemma validate_page_limit_iff: "validate_page_limit l = Inr u \<longleftrightarrow> page_limit_ok l"
  by (auto simp: validate_page_limit_def page_limit_ok_def MAX_PAGE_SIZE_def)

definition friends_of :: "SocialRegistry \<Rightarrow> id16 \<Rightarrow> id16 list" where
  "friends_of s a = sort (List.map_filter (\<lambda>pair. pair_other pair a)
     (sorted_list_of_fset (s_friendships s)))"

definition messages_of :: "SocialRegistry \<Rightarrow> id16 \<Rightarrow> ChatMessage list" where
  "messages_of s gid = (case fmlookup (s_messages s) gid of None \<Rightarrow> [] | Some ms \<Rightarrow> ms)"

definition inbox_of :: "SocialRegistry \<Rightarrow> id16 \<Rightarrow> NotificationRecord list" where
  "inbox_of s rcp = sort_key (\<lambda>r. (nr_sequence r, nr_id r))
     (map snd (entries_in_order (notifications_of s rcp)))"

lemma sort_key_Nil_iff [simp]: "sort_key f xs = [] \<longleftrightarrow> xs = []"
  by (metis length_0_conv length_sort)

text \<open>Messages: the sequence numbers of a group are its positions.\<close>

lemma sorted_wrt_of_map:
  "sorted_wrt (<) (map f xs) \<Longrightarrow> sorted_wrt (\<lambda>x y. f x < f y) xs"
  by (simp add: sorted_wrt_map)

lemma messages_sorted:
  assumes "messages_ok l us gid ms"
  shows "sorted_wrt (\<lambda>x y. cm_sequence x < cm_sequence y) ms"
proof -
  have "sorted_wrt (<) (map (\<lambda>m. unat (cm_sequence m)) ms)"
    using assms by (simp add: messages_ok_def del: upt_Suc)
  then show ?thesis by (simp add: sorted_wrt_map word_less_nat_alt)
qed

definition message_request :: "SocialRegistry \<times> id16 \<times> usize \<Rightarrow> MessageCursor option \<Rightarrow> bool" where
  "message_request = (\<lambda>(s, gid, limit) cursor. social_inv s \<and> page_limit_ok limit \<and>
     (\<exists>g. social_group s gid = Some g \<and> (case cursor of None \<Rightarrow> True
        | Some c \<Rightarrow> mc_group c = gid \<and> mc_sequence c < gr_next_message_sequence g)))"

interpretation message_pages: keyed_pages message_page "\<lambda>(s, gid, limit). limit" message_request
  "\<lambda>(s, gid, limit). messages_of s gid" cm_sequence
  "\<lambda>c. Some (case c of None \<Rightarrow> 0 | Some x \<Rightarrow> mc_sequence x)"
  "\<lambda>(s, gid, limit) q. \<lparr>mc_group = gid, mc_sequence = q\<rparr>"
proof
  fix q c assume v: "message_request q c"
  obtain s gid l where q: "q = (s, gid, l)" by (cases q)
  from v obtain g where inv: "social_inv s" and l: "page_limit_ok l"
    and g: "fmlookup (s_groups s) gid = Some g"
    and c: "case c of None \<Rightarrow> True
      | Some c \<Rightarrow> mc_group c = gid \<and> mc_sequence c < gr_next_message_sequence g"
    by (auto simp: q message_request_def social_group_def)
  from group_okD(3) [OF inv g] obtain ms where ms: "fmlookup (s_messages s) gid = Some ms"
    and ok: "messages_ok (s_limits s) (s_users s) gid ms"
    and len: "unat (gr_next_message_sequence g) = Suc (length ms)" by blast
  show "0 < (case q of (s, gid, limit) \<Rightarrow> limit)" using l by (simp add: q page_limit_ok_def)
  show "sorted_wrt (\<lambda>x y. cm_sequence x < cm_sequence y) (case q of (s, gid, limit) \<Rightarrow> messages_of s gid)"
    using messages_sorted [OF ok] by (simp add: q messages_of_def ms)
  show "message_page q c = Inr (take (case q of (s, gid, limit) \<Rightarrow> limit) found,
      if (case q of (s, gid, limit) \<Rightarrow> limit) < length found
      then Some ((case q of (s, gid, limit) \<Rightarrow> \<lambda>q. \<lparr>mc_group = gid, mc_sequence = q\<rparr>)
        (cm_sequence (last (take (case q of (s, gid, limit) \<Rightarrow> limit) found)))) else None)"
    if "found = filter (\<lambda>x. case Some (case c of None \<Rightarrow> 0 | Some x \<Rightarrow> mc_sequence x) of
        None \<Rightarrow> True | Some k \<Rightarrow> k < cm_sequence x) (case q of (s, gid, limit) \<Rightarrow> messages_of s gid)"
    for found
  proof -
    have f: "found = filter (\<lambda>m. (case c of None \<Rightarrow> 0 | Some x \<Rightarrow> mc_sequence x) < cm_sequence m) ms"
      using that by (simp add: q messages_of_def ms)
    have k: "validate_page_limit l = Inr ()" "get_group s gid = Inr g"
      using l g by (simp_all add: validate_page_limit_iff)
    show ?thesis
      using ms c l by (cases c)
        (auto simp: message_page_def q list_group_messages_def f k page_limit_ok_def Let_def
          simp del: length_filter_map)
  qed
  show "message_request q (Some ((case q of (s, gid, limit) \<Rightarrow>
      \<lambda>q. \<lparr>mc_group = gid, mc_sequence = q\<rparr>) (cm_sequence x)))"
    if "x \<in> set (case q of (s, gid, limit) \<Rightarrow> messages_of s gid)" for x
  proof -
    have "x \<in> set ms" using that by (simp add: q messages_of_def ms)
    then have "unat (cm_sequence x) \<in> set (map (\<lambda>m. unat (cm_sequence m)) ms)" by simp
    then have "unat (cm_sequence x) \<in> set [1..<Suc (length ms)]"
      using ok unfolding messages_ok_def by metis
    then have "unat (cm_sequence x) < unat (gr_next_message_sequence g)"
      by (auto simp: len)
    then show ?thesis
      using inv l g by (simp add: q message_request_def social_group_def word_less_nat_alt)
  qed
qed (simp split: prod.split)


text \<open>
  Paging through a group's messages is complete: a client that starts without a cursor
  and follows the cursors receives every message of the group exactly once, in the order
  in which they were sent, whatever page size it chose.
\<close>

theorem message_pages_complete:
  assumes s: "s = fold social_step ops (social_new config)" and g: "social_group s gid = Some g"
    and l: "1 \<le> l" "l \<le> 1000" and n: "length (messages_of s gid) < n"
  shows "drain (message_page (s, gid, l)) n None = Some (messages_of s gid) \<and>
    map (\<lambda>m. unat (cm_sequence m)) (messages_of s gid) = [1..<unat (gr_next_message_sequence g)]"
proof -
  have inv: "social_inv s" unfolding s by (rule reachable_inv)
  have g': "fmlookup (s_groups s) gid = Some g" using g by (simp add: social_group_def)
  from group_okD(3) [OF inv g'] obtain ms where ms: "fmlookup (s_messages s) gid = Some ms"
    and ok: "messages_ok (s_limits s) (s_users s) gid ms"
    and len: "unat (gr_next_message_sequence g) = Suc (length ms)" by blast
  have seq: "map (\<lambda>m. unat (cm_sequence m)) ms = [1..<Suc (length ms)]"
    using ok by (simp add: messages_ok_def)
  have valid: "message_request (s, gid, l) None"
    using inv g l by (simp add: message_request_def page_limit_ok_def)
  have "0 < cm_sequence m" if "m \<in> set ms" for m
  proof -
    have "unat (cm_sequence m) \<in> set (map (\<lambda>m. unat (cm_sequence m)) ms)" using that by simp
    then show ?thesis unfolding seq by (auto simp: word_less_nat_alt)
  qed
  then have rest: "message_pages.rest (s, gid, l) None = messages_of s gid"
    using ms by (simp add: message_pages.rest_def filter_id_conv messages_of_def [of s gid])
  have "drain (message_page (s, gid, l)) n None = Some (messages_of s gid)"
    using message_pages.drain_complete [OF valid, of n] n by (simp add: rest)
  then show ?thesis using seq len by (simp add: messages_of_def ms)
qed

text \<open>Friends: the friends of an account in ascending order.\<close>

lemma set_map_filter_iff: "y \<in> set (List.map_filter f xs) \<longleftrightarrow> (\<exists>x \<in> set xs. f x = Some y)"
  by (induction xs) (auto simp: map_filter_simps split: option.splits)

lemma map_filter_pair_other:
  assumes "\<And>p. p \<in> set ps \<Longrightarrow> pair_low p < pair_high p" and "distinct ps"
  shows "distinct (List.map_filter (\<lambda>p. pair_other p a) ps)"
  using assms
proof (induction ps)
  case (Cons p ps)
  show ?case
  proof (cases "pair_other p a")
    case (Some x)
    have "x \<notin> set (List.map_filter (\<lambda>p. pair_other p a) ps)"
    proof
      assume "x \<in> set (List.map_filter (\<lambda>p. pair_other p a) ps)"
      then obtain r where r: "r \<in> set ps" "pair_other r a = Some x"
        by (auto simp: set_map_filter_iff)
      with Some Cons.prems have "r = p" using pair_other_iff by (metis list.set_intros)
      with r Cons.prems(2) show False by simp
    qed
    with Some Cons show ?thesis by (simp add: map_filter_simps)
  qed (use Cons in \<open>simp add: map_filter_simps\<close>)
qed (simp add: map_filter_simps)

lemma friends_of_spec:
  assumes inv: "social_inv s"
  shows "sorted_wrt (<) (friends_of s a)"
    and "set (friends_of s a) = {b. relationship s a b = Inr Friends}"
proof -
  note ord = rel_okD(1) [OF social_inv_parts(2) [OF inv]]
  have "distinct (List.map_filter (\<lambda>p. pair_other p a) (sorted_list_of_fset (s_friendships s)))"
    using ord by (intro map_filter_pair_other) (simp_all add: sorted_list_of_fset.rep_eq)
  then show "sorted_wrt (<) (friends_of s a)"
    by (simp add: friends_of_def strict_sorted_iff)
  have "pair_of a b |\<in>| s_friendships s \<and> a \<noteq> b \<longleftrightarrow>
      (\<exists>p. p |\<in>| s_friendships s \<and> pair_other p a = Some b)" for b
    using ord pair_other_iff by (metis pair_of_ordered)
  moreover have "pair_of a b |\<in>| s_friendships s \<and> a \<noteq> b \<Longrightarrow> a |\<in>| s_users s \<and> b |\<in>| s_users s" for b
    using ord [of "pair_of a b"] by (auto simp: pair_of_def split: if_splits)
  moreover have "b \<in> set (friends_of s a) \<longleftrightarrow>
      (\<exists>p. p |\<in>| s_friendships s \<and> pair_other p a = Some b)" for b
    by (auto simp: friends_of_def set_map_filter_iff)
  ultimately show "set (friends_of s a) = {b. relationship s a b = Inr Friends}"
    unfolding relationship_eval(1) [OF inv] by blast
qed

definition friend_request_ok :: "SocialRegistry \<times> id16 \<times> usize \<Rightarrow> FriendCursor option \<Rightarrow> bool" where
  "friend_request_ok = (\<lambda>(s, owner, limit) cursor. social_inv s \<and> page_limit_ok limit \<and>
     owner |\<in>| s_users s \<and> (case cursor of None \<Rightarrow> True | Some c \<Rightarrow> fc_owner c = owner))"

interpretation friend_pages: keyed_pages friend_page "\<lambda>(s, owner, limit). limit" friend_request_ok
  "\<lambda>(s, owner, limit). friends_of s owner" "\<lambda>x. x" "map_option fc_after"
  "\<lambda>(s, owner, limit) x. \<lparr>fc_owner = owner, fc_after = x\<rparr>"
proof
  fix q c assume v: "friend_request_ok q c"
  obtain s a l where q: "q = (s, a, l)" by (cases q)
  from v have inv: "social_inv s" and l: "page_limit_ok l" and a: "a |\<in>| s_users s"
    and c: "case c of None \<Rightarrow> True | Some c \<Rightarrow> fc_owner c = a"
    by (simp_all add: q friend_request_ok_def)
  show "0 < (case q of (s, owner, limit) \<Rightarrow> limit)" using l by (simp add: q page_limit_ok_def)
  show "sorted_wrt (<) (case q of (s, owner, limit) \<Rightarrow> friends_of s owner)"
    using friends_of_spec(1) [OF inv] by (simp add: q)
  show "friend_page q c = Inr (take (case q of (s, owner, limit) \<Rightarrow> limit) found,
      if (case q of (s, owner, limit) \<Rightarrow> limit) < length found
      then Some ((case q of (s, owner, limit) \<Rightarrow> \<lambda>x. \<lparr>fc_owner = owner, fc_after = x\<rparr>)
        (last (take (case q of (s, owner, limit) \<Rightarrow> limit) found))) else None)"
    if "found = filter (\<lambda>x. case map_option fc_after c of None \<Rightarrow> True | Some k \<Rightarrow> k < x)
      (case q of (s, owner, limit) \<Rightarrow> friends_of s owner)" for found
  proof -
    have f: "found = sort (filter (\<lambda>x. case map_option fc_after c of None \<Rightarrow> True | Some k \<Rightarrow> k < x)
        (List.map_filter (\<lambda>p. pair_other p a) (sorted_list_of_fset (s_friendships s))))"
      using that by (simp add: q friends_of_def filter_sort)
    have k: "validate_page_limit l = Inr ()" "ensure_known_user s a = Inr ()"
      using l a by (simp_all add: validate_page_limit_iff)
    show ?thesis
      using c l by (cases c)
        (auto simp: friend_page_def q list_friends_def f k page_limit_ok_def Let_def
          simp del: length_filter_map)
  qed
  show "friend_request_ok q (Some ((case q of (s, owner, limit) \<Rightarrow>
      \<lambda>x. \<lparr>fc_owner = owner, fc_after = x\<rparr>) x))" for x
    using inv l a by (simp add: q friend_request_ok_def)
qed (simp split: prod.split)

text \<open>
  Paging through an account's friends is complete: following the cursors yields every
  friend exactly once in ascending order, and the friends listed are exactly the accounts
  whose relationship is \<open>Friends\<close>.
\<close>

theorem friend_pages_complete:
  assumes s: "s = fold social_step ops (social_new config)" and a: "a |\<in>| s_users s"
    and l: "1 \<le> l" "l \<le> 1000" and n: "length (friends_of s a) < n"
  shows "drain (friend_page (s, a, l)) n None = Some (friends_of s a) \<and>
    sorted_wrt (<) (friends_of s a) \<and>
    set (friends_of s a) = {b. relationship s a b = Inr Friends}"
proof -
  have inv: "social_inv s" unfolding s by (rule reachable_inv)
  have valid: "friend_request_ok (s, a, l) None"
    using inv a l by (simp add: friend_request_ok_def page_limit_ok_def)
  have rest: "friend_pages.rest (s, a, l) None = friends_of s a"
    by (simp add: friend_pages.rest_def)
  show ?thesis
    using friend_pages.drain_complete [OF valid, of n] n friends_of_spec [OF inv]
    by (simp add: rest)
qed

text \<open>Notifications: ordered by their sequence, which is unique per recipient.\<close>

lemma inbox_sorted:
  assumes inv: "social_inv s"
  shows "sorted_wrt (\<lambda>x y. nr_sequence x < nr_sequence y) (inbox_of s rcp)"
proof -
  let ?rs = "notifications_of s rcp" and ?k = "\<lambda>r. (nr_sequence r, nr_id r)"
  have ids: "fmlookup ?rs n = Some r \<Longrightarrow> nr_id r = n" for n r
    using notifications_of_ok(1) [OF inv] by (simp add: notif_ok_def)
  have inj: "inj_on nr_sequence (snd ` set (entries_in_order ?rs))"
    by (rule inj_onI) (use notifications_of_ok(3) [OF inv] in force)
  have "fst x = nr_id (snd x)" if "x \<in> set (entries_in_order ?rs)" for x
    using that ids by (auto simp: case_prod_beta)
  then have "inj_on snd (set (entries_in_order ?rs))"
    by (intro inj_onI) (metis prod.expand)
  then have "distinct (map snd (entries_in_order ?rs))" by (simp add: distinct_map)
  with inj have d: "distinct (map nr_sequence (inbox_of s rcp))"
    by (simp add: inbox_of_def distinct_map)
  have "sorted_wrt (\<lambda>x y. ?k x \<le> ?k y) (inbox_of s rcp)"
    using sorted_sort_key [of ?k "map snd (entries_in_order ?rs)"]
    by (simp add: inbox_of_def sorted_map)
  then have "sorted_wrt (\<lambda>x y. nr_sequence x \<le> nr_sequence y) (inbox_of s rcp)"
    by (rule sorted_wrt_mono_rel [rotated]) auto
  then have "sorted (map nr_sequence (inbox_of s rcp))" by (simp add: sorted_map)
  with d have "sorted_wrt (<) (map nr_sequence (inbox_of s rcp))" by (simp add: strict_sorted_iff)
  then show ?thesis by (simp add: sorted_wrt_map)
qed

lemma inbox_entry:
  "x \<in> set (inbox_of s rcp) \<longleftrightarrow> (\<exists>n. fmlookup (notifications_of s rcp) n = Some x)"
  by (force simp: inbox_of_def)

definition inbox_request :: "SocialRegistry \<times> id16 \<times> usize \<Rightarrow> NotificationCursor option \<Rightarrow> bool" where
  "inbox_request = (\<lambda>(s, rcp, limit) cursor. social_inv s \<and> page_limit_ok limit \<and>
     rcp |\<in>| s_users s \<and> (case cursor of None \<Rightarrow> True
       | Some c \<Rightarrow> nc_recipient c = rcp \<and> nc_sequence c \<le> s_revision s))"

interpretation notification_pages: keyed_pages notification_page "\<lambda>(s, rcp, limit). limit"
  inbox_request "\<lambda>(s, rcp, limit). inbox_of s rcp" nr_sequence
  "\<lambda>c. Some (case c of None \<Rightarrow> 0 | Some x \<Rightarrow> nc_sequence x)"
  "\<lambda>(s, rcp, limit) q. \<lparr>nc_recipient = rcp, nc_sequence = q\<rparr>"
proof
  fix q c assume v: "inbox_request q c"
  obtain s a l where q: "q = (s, a, l)" by (cases q)
  from v have inv: "social_inv s" and l: "page_limit_ok l" and a: "a |\<in>| s_users s"
    and c: "case c of None \<Rightarrow> True | Some c \<Rightarrow> nc_recipient c = a \<and> nc_sequence c \<le> s_revision s"
    by (simp_all add: q inbox_request_def)
  show "0 < (case q of (s, rcp, limit) \<Rightarrow> limit)" using l by (simp add: q page_limit_ok_def)
  show "sorted_wrt (\<lambda>x y. nr_sequence x < nr_sequence y) (case q of (s, rcp, limit) \<Rightarrow> inbox_of s rcp)"
    using inbox_sorted [OF inv] by (simp add: q)
  show "notification_page q c = Inr (take (case q of (s, rcp, limit) \<Rightarrow> limit) found,
      if (case q of (s, rcp, limit) \<Rightarrow> limit) < length found
      then Some ((case q of (s, rcp, limit) \<Rightarrow> \<lambda>q. \<lparr>nc_recipient = rcp, nc_sequence = q\<rparr>)
        (nr_sequence (last (take (case q of (s, rcp, limit) \<Rightarrow> limit) found)))) else None)"
    if "found = filter (\<lambda>x. case Some (case c of None \<Rightarrow> 0 | Some x \<Rightarrow> nc_sequence x) of
        None \<Rightarrow> True | Some k \<Rightarrow> k < nr_sequence x) (case q of (s, rcp, limit) \<Rightarrow> inbox_of s rcp)"
    for found
  proof -
    have f: "found = sort_key (\<lambda>r. (nr_sequence r, nr_id r))
        (filter (\<lambda>x. (case c of None \<Rightarrow> 0 | Some x \<Rightarrow> nc_sequence x) < nr_sequence x)
          (map snd (entries_in_order (notifications_of s a))))"
      using that by (simp add: q inbox_of_def filter_sort)
    have k: "validate_page_limit l = Inr ()" "ensure_known_user s a = Inr ()"
      using l a by (simp_all add: validate_page_limit_iff)
    show ?thesis
      using c l by (cases c)
        (auto simp: notification_page_def q list_notifications_def f k page_limit_ok_def Let_def
          simp del: length_filter_map)
  qed
  show "inbox_request q (Some ((case q of (s, rcp, limit) \<Rightarrow>
      \<lambda>q. \<lparr>nc_recipient = rcp, nc_sequence = q\<rparr>) (nr_sequence x)))"
    if "x \<in> set (case q of (s, rcp, limit) \<Rightarrow> inbox_of s rcp)" for x
    using inv l a that notifications_of_ok(1) [OF inv]
    by (auto simp: q inbox_request_def inbox_entry notif_ok_def)
qed (simp split: prod.split)

text \<open>
  Paging through an inbox is complete: following the cursors yields every notification
  of the recipient exactly once, strictly ordered by sequence. This rests on the sequences
  of an inbox being unique, which the runtime check does not test but every history keeps.
\<close>

theorem notification_pages_complete:
  assumes s: "s = fold social_step ops (social_new config)" and a: "a |\<in>| s_users s"
    and l: "1 \<le> l" "l \<le> 1000" and n: "length (inbox_of s a) < n"
  shows "drain (notification_page (s, a, l)) n None = Some (inbox_of s a) \<and>
    sorted_wrt (\<lambda>x y. nr_sequence x < nr_sequence y) (inbox_of s a) \<and>
    set (inbox_of s a) = {r. \<exists>n. get_notification s a n = Some r}"
proof -
  have inv: "social_inv s" unfolding s by (rule reachable_inv)
  have valid: "inbox_request (s, a, l) None"
    using inv a l by (simp add: inbox_request_def page_limit_ok_def)
  have "nr_sequence x \<noteq> 0" if "x \<in> set (inbox_of s a)" for x
    using that notifications_of_ok(1) [OF inv] by (auto simp: inbox_entry notif_ok_def)
  then have rest: "notification_pages.rest (s, a, l) None = inbox_of s a"
    by (simp add: notification_pages.rest_def word_gt_0)
  show ?thesis
    using notification_pages.drain_complete [OF valid, of n] n inbox_sorted [OF inv]
    by (auto simp: rest inbox_entry get_notification_iff)
qed

text \<open>
  A configuration is accepted exactly when every limit lies between one and its hard
  bound; the default limits are accepted.
\<close>

theorem social_config_limits:
  "((\<exists>c. SocialConfig_new l = Inr c) \<longleftrightarrow>
     list_all (\<lambda>(v, bound). 1 \<le> v \<and> v \<le> bound)
       [(max_users l, 1000000), (max_relationships_per_user l, 100000), (max_groups l, 1000000),
        (max_group_members l, 100000), (max_messages_per_group l, 1000000),
        (max_message_bytes l, 16384), (max_notifications_per_user l, 1000000),
        (max_notification_text_bytes l, 16384), (max_receipts l, 4000000),
        (max_outbox_intents l, 8000000)]) \<and>
   SocialConfig_new SocialLimits_default = Inr \<lparr>sc_limits = SocialLimits_default\<rparr>"
proof
  have limit: "validate_limit v b r = Inr u \<longleftrightarrow> 1 \<le> v \<and> v \<le> b" for v b r u
    by (auto simp: validate_limit_def)
  note bounds = HARD_MAX_USERS_def HARD_MAX_RELATIONSHIPS_PER_USER_def HARD_MAX_GROUPS_def
    HARD_MAX_GROUP_MEMBERS_def HARD_MAX_MESSAGES_PER_GROUP_def MAX_MESSAGE_BYTES_def
    HARD_MAX_NOTIFICATIONS_PER_USER_def MAX_NOTIFICATION_TEXT_BYTES_def HARD_MAX_RECEIPTS_def
    HARD_MAX_OUTBOX_INTENTS_def
  show "(\<exists>c. SocialConfig_new l = Inr c) \<longleftrightarrow>
     list_all (\<lambda>(v, bound). 1 \<le> v \<and> v \<le> bound)
       [(max_users l, 1000000), (max_relationships_per_user l, 100000), (max_groups l, 1000000),
        (max_group_members l, 100000), (max_messages_per_group l, 1000000),
        (max_message_bytes l, 16384), (max_notifications_per_user l, 1000000),
        (max_notification_text_bytes l, 16384), (max_receipts l, 4000000),
        (max_outbox_intents l, 8000000)]"
    unfolding SocialConfig_new_def bounds tryE_Inr_iff limit by auto
  show "SocialConfig_new SocialLimits_default = Inr \<lparr>sc_limits = SocialLimits_default\<rparr>"
    by (simp add: SocialConfig_new_def SocialLimits_default_def validate_limit_def bounds)
qed

end
