(* ===== verification/Social_Witnesses.thy ===== *)
theory Social_Witnesses
  imports Social_Properties
begin

text \<open>
  Concrete runs of the social registry to which its properties apply: three users register,
  the first befriends the second after a request and an acceptance, blocks the third, opens
  a group, writes to it, and is notified. The lemma \<open>exec_succeeds\<close> evaluates a command: once
  its guards are computed the command succeeds, because the validation cannot fail.
\<close>

subsection \<open>Evaluating a command\<close>

definition inv_only :: "SocialError + 'a \<Rightarrow> bool" where
  "inv_only r \<longleftrightarrow> (\<forall>e. r = Inl e \<longrightarrow> se_code e = DataLoss)"

named_theorems inv_only_intros \<open>checks that fail with the invariant error only\<close>

lemma inv_only_basic [inv_only_intros]:
  "inv_only (check_inv b)"
  "inv_only (Inr x)"
  "inv_only (ok_or social_invariant_error v)"
  "inv_only (map_err (\<lambda>_. social_invariant_error) r)"
  by (auto simp: inv_only_def check_inv_def split: if_splits)

lemma inv_only_tryE [inv_only_intros]:
  "inv_only r \<Longrightarrow> (\<And>x. r = Inr x \<Longrightarrow> inv_only (k x)) \<Longrightarrow> inv_only (tryE r k)"
  by (cases r) (auto simp: inv_only_def)

lemma inv_only_forE [inv_only_intros]:
  "(\<And>x. x \<in> set xs \<Longrightarrow> inv_only (f x)) \<Longrightarrow> inv_only (forE f xs)"
  by (auto simp: inv_only_def dest!: forE_Inl)

lemma inv_only_messages:
  "unat q + length ms < 2 ^ 64 \<Longrightarrow> inv_only (foldE (validate_message s gid) ms (q, ids))"
proof (induction ms arbitrary: q ids)
  case (Cons m ms)
  have "checked_add q 1 \<noteq> None"
    using Cons.prems by (auto simp: checked_add_def)
  then obtain q' where q': "checked_add q 1 = Some q'" by blast
  then have "unat q' = Suc (unat q)" by (simp add: checked_add_one_Some)
  with Cons have "inv_only (foldE (validate_message s gid) ms (q', ids'))" for ids' by simp
  moreover have "validate_message s gid m (q, ids) = inv_err \<or>
      validate_message s gid m (q, ids) = Inr (q', finsert (cm_id m) ids)"
    by (simp add: validate_message_def next_revision_def q')
  ultimately show ?case by (auto simp: inv_only_def [of inv_err])
qed (simp add: inv_only_def)

definition short_messages :: "SocialRegistry \<Rightarrow> bool" where
  "short_messages s \<longleftrightarrow>
     (\<forall>gid ms. fmlookup (s_messages s) gid = Some ms \<longrightarrow> 1 + length ms < 2 ^ 64)"

lemma validate_inv_only:
  assumes "short_messages s"
  shows "inv_only (validate_invariants s)"
proof -
  have payload: "inv_only (validate_outbox_payload s p r)" for p r
    unfolding validate_outbox_payload_def
    by (cases p) (auto intro!: inv_only_intros simp: inv_only_def [of inv_err]
        split: option.split)
  have msgs: "inv_only (validate_group_messages s gid g)" for gid g
    using assms inv_only_messages [of 1]
    by (auto simp: validate_group_messages_def short_messages_def intro!: inv_only_intros)
  show ?thesis
    unfolding validate_invariants_def validate_sizes_def validate_friendship_def
      validate_friend_request_def validate_block_def validate_peers_def validate_group_def
      validate_group_fields_def validate_notifications_def validate_notification_def
      validate_receipt_def validate_outbox_entry_def
    by (intro inv_only_intros; (auto intro!: inv_only_intros msgs payload)?)
qed

lemma exec_succeeds:
  assumes inv: "social_inv s" and fresh: "fmlookup (s_receipts s) (env_command e) = None"
    and w: "request_wf (env_request e)"
    and body: "social_exec e s = commit_candidate s (finish_command s c k)"
    and len: "length (cc_intents k) < 2 ^ 16" and room: "has_room s k" and short: "short_messages c"
  obtains t where "social_exec e s = (t, Inr (completion_receipt k))" "finished_as c k t"
    "social_inv t"
proof (cases rule: finish_command_cases [OF len, of s c])
  case (2 t)
  have "short_messages t" using short by (simp add: short_messages_def finished_fields [OF 2(1)])
  note only = validate_inv_only [OF this]
  show thesis
  proof (cases "validate_invariants t")
    case (Inl err)
    with only have "se_code err = DataLoss" by (simp add: inv_only_def)
    moreover have "social_exec e s = (s, Inl err)" using body 2(2) Inl by simp
    ultimately show thesis using w fresh by (cases rule: exec_cases [OF inv, of e]) auto
  next
    case (Inr u)
    then have ex: "social_exec e s = (t, Inr (completion_receipt k))" using body 2(2) by simp
    moreover have "social_inv t" using exec_inv [OF inv, of e] ex by simp
    ultimately show thesis using 2(1) by (intro that)
  qed
qed (use room in simp)

lemma register_succeeds:
  assumes "social_inv s" and "a |\<notin>| s_users s" and "fcard (s_users s) < max_users (s_limits s)"
  shows "social_step (RegisterUser a) s = s\<lparr>s_users := finsert a (s_users s)\<rparr>"
  by (cases rule: register_user_cases [OF assms(1), of a]) (use assms(2,3) in simp_all)

subsection \<open>A concrete registry\<close>

definition wit_config :: SocialConfig where
  "wit_config = \<lparr>sc_limits = SocialLimits_default\<rparr>"

definition wit_env :: "id16 \<Rightarrow> SocialCommand \<Rightarrow> SocialEnvelope" where
  "wit_env c cmd = \<lparr>env_command = c, env_fingerprint = 7, env_request = cmd\<rparr>"

definition wit_group :: CreateGroupRequest where
  "wit_group = \<lparr>cg_group = 50, cg_creator = 1, cg_name = [71], cg_join_mode = OpenMode,
     cg_max_members = 10\<rparr>"

definition wit_ops :: "SocialOp list" where
  "wit_ops = [RegisterUser 1, RegisterUser 2, RegisterUser 3]"

definition wit_users :: SocialRegistry where
  "wit_users = fold social_step wit_ops (social_new wit_config)"

lemma wit_users_eval: "wit_users = (social_new wit_config)\<lparr>s_users := {|3, 2, 1|}\<rparr>"
proof -
  let ?s0 = "social_new wit_config"
  have l: "s_limits ?s0 = SocialLimits_default" "max_users SocialLimits_default = 100000"
    by (simp_all add: social_new_def wit_config_def SocialLimits_default_def)
  have s1: "social_step (RegisterUser 1) ?s0 = ?s0\<lparr>s_users := {|1|}\<rparr>"
    using l by (subst register_succeeds [OF social_inv_new]) (simp_all add: social_new_def fcard_fempty)
  have s2: "social_step (RegisterUser 2) (?s0\<lparr>s_users := {|1|}\<rparr>) = ?s0\<lparr>s_users := {|2, 1|}\<rparr>"
    using l step_inv [OF social_inv_new [of wit_config], of "RegisterUser 1"] unfolding s1
    by (subst register_succeeds) (simp_all add: social_new_def fcard_finsert_if fcard_fempty)
  have s3: "social_step (RegisterUser 3) (?s0\<lparr>s_users := {|2, 1|}\<rparr>) = ?s0\<lparr>s_users := {|3, 2, 1|}\<rparr>"
    using l step_inv [OF step_inv [OF social_inv_new [of wit_config], of "RegisterUser 1"],
        of "RegisterUser 2"] unfolding s1 s2
    by (subst register_succeeds) (simp_all add: social_new_def fcard_finsert_if fcard_fempty)
  show ?thesis by (simp add: wit_users_def wit_ops_def s1 s2 s3 del: social_step.simps)
qed

lemma wit_users_inv: "social_inv wit_users"
  unfolding wit_users_def by (rule reachable_inv)

lemma wit_users_fields [simp]:
  "s_users wit_users = {|3, 2, 1|}" "s_friendships wit_users = {||}"
  "s_friend_requests wit_users = {||}" "s_blocks wit_users = {||}"
  "s_groups wit_users = fmempty" "s_messages wit_users = fmempty"
  "s_notifications wit_users = fmempty" "s_receipts wit_users = fmempty"
  "s_outbox wit_users = fmempty" "s_revision wit_users = 0"
  "s_config wit_users = wit_config"
  by (simp_all add: wit_users_eval social_new_def)

lemma wit_limits [simp]:
  "max_receipts (sc_limits wit_config) = 1000000"
  "max_outbox_intents (sc_limits wit_config) = 2000000"
  "max_relationships_per_user (sc_limits wit_config) = 10000"
  "max_groups (sc_limits wit_config) = 100000"
  "max_group_members (sc_limits wit_config) = 10000"
  "max_message_bytes (sc_limits wit_config) = 4096"
  "max_messages_per_group (sc_limits wit_config) = 100000"
  by (simp_all add: wit_config_def SocialLimits_default_def)

text \<open>User 1 opens a group.\<close>

definition wit_create :: SocialOp where
  "wit_create = Execute (wit_env 60 (CreateGroup wit_group))"

definition wit_grouped :: SocialRegistry where
  "wit_grouped = fold social_step (wit_ops @ [wit_create]) (social_new wit_config)"

definition wit_record :: GroupRecord where
  "wit_record = \<lparr>gr_id = 50, gr_name = [71], gr_join_mode = OpenMode, gr_max_members = 10,
     gr_revision = 1, gr_members = fmupd 1 Superadmin fmempty, gr_join_requests = {||},
     gr_banned = {||}, gr_next_message_sequence = 1\<rparr>"

definition wit_create_completion :: CommandCompletion where
  "wit_create_completion = \<lparr>cc_command = 60, cc_fingerprint = 7, cc_actor = 1, cc_revision = 1,
     cc_outcome = GroupCreated, cc_intents = []\<rparr>"

lemma wit_grouped_eval:
  "social_exec (wit_env 60 (CreateGroup wit_group)) wit_users =
     (wit_grouped, Inr (completion_receipt wit_create_completion))"
  "finished_as (wit_users\<lparr>s_groups := fmupd 50 wit_record fmempty,
     s_messages := fmupd 50 [] fmempty\<rparr>) wit_create_completion wit_grouped"
proof -
  let ?c = "wit_users\<lparr>s_groups := fmupd 50 wit_record fmempty, s_messages := fmupd 50 [] fmempty\<rparr>"
  have one: "next_command_revision wit_users = Inr 1"
    by (simp add: next_command_revision_Inr)
  have body: "social_exec (wit_env 60 (CreateGroup wit_group)) wit_users =
      commit_candidate wit_users (finish_command wit_users ?c wit_create_completion)"
    by (simp add: social_exec_def wit_env_def create_group_def existing_receipt_def one
        ensure_known_user_def wit_group_def wit_record_def wit_create_completion_def Let_def)
  obtain t where t: "social_exec (wit_env 60 (CreateGroup wit_group)) wit_users =
      (t, Inr (completion_receipt wit_create_completion))" "finished_as ?c wit_create_completion t"
    by (rule exec_succeeds [OF wit_users_inv _ _ body])
      (auto simp: wit_env_def wit_create_completion_def has_room_def short_messages_def
        split: if_splits)
  have "wit_grouped = t"
    using t(1) by (simp add: wit_grouped_def wit_create_def wit_users_def)
  with t show "social_exec (wit_env 60 (CreateGroup wit_group)) wit_users =
     (wit_grouped, Inr (completion_receipt wit_create_completion))"
    "finished_as ?c wit_create_completion wit_grouped" by simp_all
qed

lemma wit_grouped_group: "social_group wit_grouped 50 = Some wit_record"
  using finished_fields(6) [OF wit_grouped_eval(2)] by (simp add: social_group_def)

lemma wit_grouped_messages: "messages_of wit_grouped 50 = []"
  using finished_fields(7) [OF wit_grouped_eval(2)] by (simp add: messages_of_def)


text \<open>User 1 asks user 2, who accepts; user 1 blocks user 3.\<close>

definition wit_ask :: SocialEnvelope where "wit_ask = wit_env 61 (SendFriendRequest 1 2)"
definition wit_accept :: SocialEnvelope where "wit_accept = wit_env 62 (AcceptFriendRequest 2 1)"
definition wit_block :: SocialEnvelope where "wit_block = wit_env 63 (BlockUser 1 3)"

definition wit_asked :: SocialRegistry where
  "wit_asked = fold social_step (wit_ops @ [Execute wit_ask]) (social_new wit_config)"

definition wit_blocked :: SocialRegistry where
  "wit_blocked = fold social_step (wit_ops @ [Execute wit_block]) (social_new wit_config)"

lemma wit_no_peers: "relationship_peers wit_users a = {||}"
  by (simp add: relationship_peers_def sorted_list_of_fset.rep_eq)

lemma wit_capacity: "ensure_relationship_capacity wit_users a b = Inr ()"
  by (simp add: ensure_relationship_capacity_def wit_no_peers fcard_fempty)

lemma wit_asked_eval:
  "\<exists>k. finished_as (wit_users\<lparr>s_friend_requests := {|(1, 2)|}\<rparr>) k wit_asked \<and> cc_command k = 61 \<and>
     cc_revision k = 1 \<and> length (cc_intents k) = 1"
proof -
  let ?c = "wit_users\<lparr>s_friend_requests := {|(1, 2)|}\<rparr>"
  let ?k = "\<lparr>cc_command = 61, cc_fingerprint = 7, cc_actor = 1, cc_revision = 1,
    cc_outcome = FriendRequestSent, cc_intents = [FriendRequest 1 2]\<rparr>"
  have one: "next_command_revision wit_users = Inr 1" by (simp add: next_command_revision_Inr)
  have rel: "relationship wit_users 1 2 = Inr NoRelation" by (simp add: relationship_none_iff)
  have body: "social_exec wit_ask wit_users = commit_candidate wit_users (finish_command wit_users ?c ?k)"
    by (simp add: social_exec_def wit_ask_def wit_env_def send_friend_request_def
        existing_receipt_def one rel wit_capacity ensure_known_user_def UserPair_new_def
        request_allowed_def Let_def)
  obtain t where t: "social_exec wit_ask wit_users = (t, Inr (completion_receipt ?k))"
    "finished_as ?c ?k t"
    by (rule exec_succeeds [OF wit_users_inv _ _ body])
      (auto simp: wit_ask_def wit_env_def has_room_def short_messages_def)
  have "wit_asked = t" using t(1) by (simp add: wit_asked_def wit_users_def)
  with t(2) show ?thesis by (intro exI [of _ ?k]) simp
qed

lemma wit_asked_inv: "social_inv wit_asked"
  unfolding wit_asked_def by (rule reachable_inv)

lemma wit_accept_eval:
  "\<exists>k. finished_as (wit_asked\<lparr>s_friend_requests := {||}, s_friendships := {|UserPair 1 2|}\<rparr>) k
     (social_step (Execute wit_accept) wit_asked)"
proof -
  from wit_asked_eval obtain k0 where k0:
    "finished_as (wit_users\<lparr>s_friend_requests := {|(1, 2)|}\<rparr>) k0 wit_asked"
    "cc_command k0 = 61" "cc_revision k0 = 1" "length (cc_intents k0) = 1" by blast
  note f = finished_fields [OF k0(1)]
  let ?c = "wit_asked\<lparr>s_friend_requests := {||}, s_friendships := {|UserPair 1 2|}\<rparr>"
  let ?k = "\<lparr>cc_command = 62, cc_fingerprint = 7, cc_actor = 2, cc_revision = 2,
    cc_outcome = FriendRequestAccepted, cc_intents = [FriendAccepted 2 1]\<rparr>"
  have two: "next_command_revision wit_asked = Inr 2"
    by (simp add: next_command_revision_Inr f k0)
  have body: "social_exec wit_accept wit_asked = commit_candidate wit_asked (finish_command wit_asked ?c ?k)"
    by (simp add: social_exec_def wit_accept_def wit_env_def accept_friend_request_def
        existing_receipt_def two ensure_known_user_def UserPair_new_def f k0 Let_def)
  have room: "has_room wit_asked ?k"
    using finished_outbox(2) [OF k0(1)] by (simp add: has_room_def f k0 fmap_len_upd_new)
  obtain t where t: "social_exec wit_accept wit_asked = (t, Inr (completion_receipt ?k))"
    "finished_as ?c ?k t"
    by (rule exec_succeeds [OF wit_asked_inv _ _ body _ room])
      (auto simp: wit_accept_def wit_env_def short_messages_def f k0)
  then show ?thesis by auto
qed

lemma wit_blocked_eval:
  "\<exists>k. finished_as (wit_users\<lparr>s_blocks := {|(1, 3)|}\<rparr>) k wit_blocked \<and> cc_command k = 63"
proof -
  let ?c = "wit_users\<lparr>s_blocks := {|(1, 3)|}\<rparr>"
  let ?k = "\<lparr>cc_command = 63, cc_fingerprint = 7, cc_actor = 1, cc_revision = 1,
    cc_outcome = UserBlocked, cc_intents = []\<rparr>"
  have one: "next_command_revision wit_users = Inr 1" by (simp add: next_command_revision_Inr)
  have same: "wit_users\<lparr>s_friendships := {||}, s_friend_requests := {||}, s_blocks := {|(1, 3)|}\<rparr> = ?c"
    by (simp add: wit_users_eval social_new_def)
  have body: "social_exec wit_block wit_users = commit_candidate wit_users (finish_command wit_users ?c ?k)"
    by (simp add: social_exec_def wit_block_def wit_env_def block_user_def same
        existing_receipt_def one wit_capacity ensure_known_user_def UserPair_new_def Let_def)
  obtain t where t: "social_exec wit_block wit_users = (t, Inr (completion_receipt ?k))"
    "finished_as ?c ?k t"
    by (rule exec_succeeds [OF wit_users_inv _ _ body])
      (auto simp: wit_block_def wit_env_def has_room_def short_messages_def)
  have "wit_blocked = t" using t(1) by (simp add: wit_blocked_def wit_users_def)
  with t(2) show ?thesis by (intro exI [of _ ?k]) simp
qed

text \<open>User 2 joins the group of user 1.\<close>

definition wit_join :: SocialEnvelope where "wit_join = wit_env 64 (JoinGroup 50 2)"

lemma wit_grouped_inv: "social_inv wit_grouped"
  unfolding wit_grouped_def by (rule reachable_inv)

lemma wit_join_eval:
  "social_group (social_step (Execute wit_join) wit_grouped) 50 =
     Some (wit_record\<lparr>gr_members := fmupd 2 Member (fmupd 1 Superadmin fmempty), gr_revision := 2\<rparr>)"
proof -
  note f = finished_fields [OF wit_grouped_eval(2)]
  let ?g = "wit_record\<lparr>gr_members := fmupd 2 Member (fmupd 1 Superadmin fmempty), gr_revision := 2\<rparr>"
  let ?c = "wit_grouped\<lparr>s_groups := fmupd 50 ?g (s_groups wit_grouped)\<rparr>"
  let ?k = "\<lparr>cc_command = 64, cc_fingerprint = 7, cc_actor = 2, cc_revision = 2,
    cc_outcome = GroupJoined, cc_intents = [GroupJoinAccepted 50 2 2]\<rparr>"
  have two: "next_command_revision wit_grouped = Inr 2" "next_revision 1 reason = Inr 2" for reason
    by (simp_all add: next_command_revision_Inr f wit_create_completion_def next_revision_def
        checked_add_def)
  have g: "get_group wit_grouped 50 = Inr wit_record" by (simp add: f)
  have body: "social_exec wit_join wit_grouped =
      commit_candidate wit_grouped (finish_command wit_grouped ?c ?k)"
    by (simp add: social_exec_def wit_join_def wit_env_def join_group_def g two
        existing_receipt_def ensure_known_user_def f wit_create_completion_def wit_record_def
        fmap_len_upd_new Let_def)
  have room: "has_room wit_grouped ?k"
    using finished_outbox(2) [OF wit_grouped_eval(2)]
    by (simp add: has_room_def f wit_create_completion_def fmap_len_upd_new)
  obtain t where "social_exec wit_join wit_grouped = (t, Inr (completion_receipt ?k))"
    "finished_as ?c ?k t"
    by (rule exec_succeeds [OF wit_grouped_inv _ _ body _ room])
      (auto simp: wit_join_def wit_env_def short_messages_def f wit_create_completion_def
        split: if_splits)
  then show ?thesis by (simp add: social_group_def finished_fields)
qed

subsection \<open>Witnesses\<close>

theorem social_guards_complete_witness:
  "validate_invariants wit_grouped = Inr () \<and>
   (case social_exec wit_join wit_grouped of
      (t, Inr r) \<Rightarrow> validate_invariants t = Inr () \<and> social_receipt t 64 = Some r
    | (t, Inl err) \<Rightarrow> t = wit_grouped \<and> se_code err \<noteq> DataLoss)"
  using social_guards_complete [OF wit_grouped_def, of wit_join]
  by (simp add: wit_join_def wit_env_def)

theorem social_exactly_once_witness:
  "\<exists>t. social_exec (wit_env 60 (CreateGroup wit_group)) t =
        (t, Inr (completion_receipt wit_create_completion)) \<and>
     (\<exists>err. social_exec (wit_env 60 (LeaveGroup 50 1)) t = (t, Inl err) \<and> se_code err = Conflict)"
proof -
  have no: "\<not> receipt_answers (completion_receipt wit_create_completion) (wit_env 60 (LeaveGroup 50 1))"
    by (simp add: receipt_answers_def wit_create_completion_def wit_env_def)
  from social_exactly_once [OF wit_users_def wit_grouped_eval(1) refl,
      where e' = "wit_env 60 (LeaveGroup 50 1)" and xs = "[RegisterUser 9]"] no
  show ?thesis by (auto simp: wit_env_def)
qed

theorem social_friendship_consent_witness:
  "\<exists>e. Execute wit_accept = Execute e \<and> relationship wit_asked 1 2 = Inr OutgoingRequest"
proof -
  let ?t = "social_step (Execute wit_accept) wit_asked"
  from wit_asked_eval obtain k0 where k0:
    "finished_as (wit_users\<lparr>s_friend_requests := {|(1, 2)|}\<rparr>) k0 wit_asked" by blast
  from wit_accept_eval obtain k where k:
    "finished_as (wit_asked\<lparr>s_friend_requests := {||}, s_friendships := {|UserPair 1 2|}\<rparr>) k ?t"
    by blast
  have new: "relationship ?t 1 2 = Inr Friends"
    by (simp add: relationship_eval(1) [OF step_inv [OF wit_asked_inv]] finished_fields [OF k]
        finished_fields [OF k0] pair_of_def del: social_step.simps)
  have old: "relationship wit_asked 1 2 \<noteq> Inr Friends"
    by (simp add: relationship_eval(1) [OF wit_asked_inv] finished_fields [OF k0])
  from social_friendship_consent [OF wit_asked_def refl new old]
  show ?thesis by (auto simp: wit_accept_def wit_env_def)
qed

theorem social_block_holds_witness:
  "send_friend_request wit_blocked 99 5 3 1 =
     (wit_blocked, Inl (social_error PermissionDenied ''relationship_blocked''))"
proof -
  from wit_blocked_eval obtain k where
    k: "finished_as (wit_users\<lparr>s_blocks := {|(1, 3)|}\<rparr>) k wit_blocked" "cc_command k = 63" by blast
  have inv: "social_inv wit_blocked" unfolding wit_blocked_def by (rule reachable_inv)
  have blocked: "relationship wit_blocked 1 3 = Inr BlockedBySelf \<or>
      relationship wit_blocked 1 3 = Inr MutuallyBlocked"
    by (simp add: relationship_eval(4) [OF inv] finished_fields [OF k(1)])
  have same: "wit_blocked = fold social_step [RegisterUser 1] wit_blocked"
    by (simp add: register_user_def finished_fields [OF k(1)])
  have fresh: "social_receipt wit_blocked 99 = None"
    by (simp add: social_receipt_def finished_fields [OF k(1)] k(2))
  show ?thesis
    using social_block_holds [OF wit_blocked_def blocked _ same fresh, of 5] by simp
qed

theorem social_groups_governed_witness:
  "(\<exists>a. group_role wit_record a = Some Superadmin) \<and> group_member_count wit_record \<le> 10"
  using social_groups_governed [OF wit_grouped_def wit_grouped_group, of 1]
  by (simp add: wit_record_def)

theorem social_role_authority_witness:
  "\<exists>e. Execute wit_join = Execute e \<and> role_change_justified wit_record
     (wit_record\<lparr>gr_members := fmupd 2 Member (fmupd 1 Superadmin fmempty), gr_revision := 2\<rparr>)
     50 2 (env_request e)"
  by (rule social_role_authority [OF wit_grouped_def refl wit_grouped_group wit_join_eval])
    (simp add: group_role_def wit_record_def)

theorem social_history_append_only_witness:
  "\<exists>g. social_group (fold social_step [Execute wit_join] wit_grouped) 50 = Some g \<and>
     gr_max_members g = 10"
proof -
  from social_history_append_only [OF wit_grouped_def refl,
      where gid = 50 and xs = "[Execute wit_join]"]
  obtain g where "social_group (fold social_step [Execute wit_join] wit_grouped) 50 = Some g"
    "gr_max_members g = gr_max_members wit_record"
    using wit_grouped_group by blast
  then show ?thesis by (simp add: wit_record_def)
qed

theorem message_pages_complete_witness:
  "drain (message_page (wit_grouped, 50, 2)) 1 None = Some []"
  using message_pages_complete [OF wit_grouped_def wit_grouped_group, of 2 1]
  by (simp add: wit_grouped_messages)

theorem friend_pages_complete_witness:
  "drain (friend_page (fold social_step (wit_ops @ [Execute wit_ask, Execute wit_accept])
     (social_new wit_config), 1, 2)) 9 None = Some [2]"
proof -
  let ?t = "social_step (Execute wit_accept) wit_asked"
  have t: "?t = fold social_step (wit_ops @ [Execute wit_ask, Execute wit_accept])
      (social_new wit_config)"
    by (simp add: wit_asked_def del: social_step.simps)
  from wit_asked_eval obtain k0 where k0:
    "finished_as (wit_users\<lparr>s_friend_requests := {|(1, 2)|}\<rparr>) k0 wit_asked" by blast
  from wit_accept_eval obtain k where k:
    "finished_as (wit_asked\<lparr>s_friend_requests := {||}, s_friendships := {|UserPair 1 2|}\<rparr>) k ?t"
    by blast
  have users: "1 |\<in>| s_users ?t"
    by (simp add: finished_fields [OF k] finished_fields [OF k0] del: social_step.simps)
  have friends: "friends_of ?t 1 = [2]"
    by (simp add: friends_of_def finished_fields [OF k] sorted_list_of_fset.rep_eq
        map_filter_simps pair_other_def del: social_step.simps)
  show ?thesis
    unfolding t [symmetric] using friend_pages_complete [OF t users, of 2 9]
    by (simp add: friends del: social_step.simps)
qed

theorem notification_pages_complete_witness:
  "drain (notification_page (wit_users, 1, 2)) 1 None = Some []"
proof -
  have "inbox_of wit_users 1 = []"
    by (simp add: inbox_of_def notifications_of_def entries_in_order_def keys_in_order_def
        sorted_list_of_fset.rep_eq)
  then show ?thesis
    using notification_pages_complete [OF wit_users_def, of 1 2 1] by simp
qed

end
