(* ===== verification/Base64url.thy ===== *)
theory Base64url
  imports Rust_Text
begin

unbundle bit_operations_syntax

text \<open>
  Unpadded base64url, \<open>crates/trnm-token-jwt-adapter/src/base64url.rs\<close>. A \<open>String\<close> that the
  encoder builds from the alphabet and a \<open>&str\<close> that the decoder only reads through
  \<open>as_bytes\<close> are their bytes. The arithmetic is that of the source, on \<open>u32\<close> groups and \<open>u8\<close>
  remainders; the loop over \<open>chunks_exact\<close> and the remainder after it are one recursion. The
  capacity arithmetic cannot overflow: a slice has at most \<open>2 ^ 63 - 1\<close> bytes.
\<close>

datatype Base64UrlError =
    InvalidCharacter usize u8
  | InvalidLength
  | NonCanonicalTrailingBits
  | DecodedLengthExceeded usize

definition ALPHABET :: "u8 list" where
  "ALPHABET =
     bytes_of ''ABCDEFGHIJKLMNOPQRSTUVWXYZabcdefghijklmnopqrstuvwxyz0123456789-_''"

text \<open>\<open>ALPHABET[((value >> shift) & 0x3f) as usize]\<close>\<close>

definition sextet :: "nat \<Rightarrow> u32 \<Rightarrow> u8" where
  "sextet shift value = ALPHABET ! unat (drop_bit shift value AND 0x3f)"

fun base64url_encode :: "u8 list \<Rightarrow> u8 list" where
  "base64url_encode (a # b # c # rest) =
     (let value = push_bit 16 (ucast a) OR push_bit 8 (ucast b) OR ucast c
      in sextet 18 value # sextet 12 value # sextet 6 value # sextet 0 value #
         base64url_encode rest)"
| "base64url_encode [a, b] =
     (let value = push_bit 16 (ucast a) OR push_bit 8 (ucast b)
      in [sextet 18 value, sextet 12 value, sextet 6 value])"
| "base64url_encode [a] =
     (let value = push_bit 16 (ucast a) in [sextet 18 value, sextet 12 value])"
| "base64url_encode [] = []"

definition decode_byte :: "usize \<Rightarrow> u8 \<Rightarrow> Base64UrlError + u8" where
  "decode_byte index byte =
     (if 65 \<le> byte \<and> byte \<le> 90 then Inr (byte - 65)
      else if 97 \<le> byte \<and> byte \<le> 122 then Inr (byte - 97 + 26)
      else if 48 \<le> byte \<and> byte \<le> 57 then Inr (byte - 48 + 52)
      else if byte = 45 then Inr 62
      else if byte = 95 then Inr 63
      else Inl (InvalidCharacter index byte))"

fun decode_chunks :: "u8 list \<Rightarrow> Base64UrlError + u8 list" where
  "decode_chunks (a # b # c # d # rest) =
     (let value = push_bit 18 (ucast a) OR push_bit 12 (ucast b) OR push_bit 6 (ucast c) OR
                  ucast d :: u32
      in tryE (decode_chunks rest) (\<lambda>output.
         Inr (ucast (drop_bit 16 value AND 0xff) # ucast (drop_bit 8 value AND 0xff) #
              ucast (value AND 0xff) # output)))"
| "decode_chunks [a, b, c] =
     (if c AND 0x03 \<noteq> 0 then Inl NonCanonicalTrailingBits
      else Inr [push_bit 2 a OR drop_bit 4 b, push_bit 4 b OR drop_bit 2 c])"
| "decode_chunks [a, b] =
     (if b AND 0x0f \<noteq> 0 then Inl NonCanonicalTrailingBits
      else Inr [push_bit 2 a OR drop_bit 4 b])"
| "decode_chunks [a] = Inl InvalidLength"
| "decode_chunks [] = Inr []"

definition decoded_length :: "usize \<Rightarrow> usize" where
  "decoded_length n = n div 4 * 3 + (if n mod 4 = 0 then 0 else if n mod 4 = 2 then 1 else 2)"

definition base64url_decode :: "u8 list \<Rightarrow> usize \<Rightarrow> Base64UrlError + u8 list" where
  "base64url_decode bytes max_decoded_len =
     (if length bytes mod 4 = 1 then Inl InvalidLength
      else if max_decoded_len < decoded_length (length bytes)
      then Inl (DecodedLengthExceeded max_decoded_len)
      else tryE (mapE (\<lambda>(index, byte). decode_byte index byte) (enumerate 0 bytes)) decode_chunks)"

subsection \<open>The alphabet\<close>

lemma length_ALPHABET: "length ALPHABET = 64"
  by (simp add: ALPHABET_def bytes_of_def)

lemma alphabet_inverse: "v < 64 \<Longrightarrow> decode_byte i (ALPHABET ! unat v) = Inr v"
proof -
  have "list_all (\<lambda>n. decode_byte i (ALPHABET ! n) = Inr (of_nat n)) [0..<64]"
    by code_simp
  moreover assume "v < 64"
  then have "unat v < 64" by (simp add: word_less_nat_alt)
  ultimately show ?thesis by (simp add: list_all_iff)
qed

lemma decode_byte_inj: "decode_byte i b = Inr v \<Longrightarrow> decode_byte i b' = Inr v \<Longrightarrow> b = b'"
  by (simp add: decode_byte_def split: if_splits; unat_arith)

lemma decode_byte_less: "decode_byte i b = Inr v \<Longrightarrow> v < 64"
  by (simp add: decode_byte_def split: if_splits; unat_arith)

lemma decode_byte_iff: "decode_byte i b = Inr v \<longleftrightarrow> v < 64 \<and> b = ALPHABET ! unat v"
  using decode_byte_inj decode_byte_less alphabet_inverse by blast

subsection \<open>Groups of bytes and groups of sextets\<close>

lemma mask_lits: "(0x3f :: 'a::len word) = mask 6" "(0xff :: 'a::len word) = mask 8"
    "(0x0f :: 'a::len word) = mask 4" "(0x03 :: 'a::len word) = mask 2"
  by (simp_all add: mask_eq_exp_minus_1)

lemma bit_beyond [simp]: "8 \<le> n \<Longrightarrow> \<not> bit (b :: u8) n"
  using bit_imp_le_length [of b n] by auto

lemma bit_small:
  assumes "v < 64" shows "\<not> bit v 6" "\<not> bit (v :: u8) 7"
proof -
  from assms have "unat v < 64" by (simp add: word_less_nat_alt)
  then have "\<not> bit (unat v) 6" "\<not> bit (unat v) 7" by (simp_all add: bit_iff_odd)
  then show "\<not> bit v 6" "\<not> bit v 7" by (simp_all add: bit_unsigned_iff)
qed

definition sextet_value :: "nat \<Rightarrow> u32 \<Rightarrow> u8" where
  "sextet_value shift value = ucast (drop_bit shift value AND 0x3f)"

lemma sextet_value_less: "sextet_value k v < 64"
proof -
  have "sextet_value k v = take_bit 6 (sextet_value k v)"
    by (rule u8_eqI) (simp_all add: sextet_value_def mask_lits bit_simps)
  then have "unat (sextet_value k v) = take_bit 6 (unat (sextet_value k v))"
    by (metis unsigned_take_bit_eq)
  also have "\<dots> < 2 ^ 6" by (rule take_bit_nat_less_exp)
  finally show ?thesis by (simp add: word_less_nat_alt)
qed

lemma sextet_eq: "sextet k v = ALPHABET ! unat (sextet_value k v)"
proof -
  have "ucast (sextet_value k v) = drop_bit k v AND 0x3f"
    by (rule bit_word_eqI) (auto simp: sextet_value_def mask_lits bit_simps)
  then have "unat (drop_bit k v AND 0x3f) = unat (ucast (sextet_value k v) :: u32)" by simp
  also have "\<dots> = unat (sextet_value k v)" 
    using sextet_value_less [of k v] by (simp add: unsigned_ucast_eq take_bit_eq_mod word_less_nat_alt)
  finally show ?thesis by (simp add: sextet_def)
qed

lemma bytes_of_sextets:
  fixes a b c :: u8
  defines "v \<equiv> push_bit 16 (ucast a) OR push_bit 8 (ucast b) OR ucast c :: u32"
  defines "w \<equiv> push_bit 18 (ucast (sextet_value 18 v)) OR
     push_bit 12 (ucast (sextet_value 12 v)) OR
     push_bit 6 (ucast (sextet_value 6 v)) OR ucast (sextet_value 0 v) :: u32"
  shows "ucast (drop_bit 16 w AND 0xff) = a" "ucast (drop_bit 8 w AND 0xff) = b"
    "ucast (w AND 0xff) = c"
  unfolding v_def w_def mask_lits sextet_value_def
  by (rule u8_eqI; simp add: bit_simps)+

lemma bytes_of_sextets2:
  fixes a b :: u8
  defines "v \<equiv> push_bit 16 (ucast a) OR push_bit 8 (ucast b) :: u32"
  shows "push_bit 2 (sextet_value 18 v) OR drop_bit 4 (sextet_value 12 v) = a"
    "push_bit 4 (sextet_value 12 v) OR drop_bit 2 (sextet_value 6 v) = b"
    "sextet_value 6 v AND 0x03 = 0"
  unfolding v_def sextet_value_def mask_lits
  by (rule u8_eqI; simp add: bit_simps)+

lemma bytes_of_sextets1:
  fixes a :: u8
  defines "v \<equiv> push_bit 16 (ucast a) :: u32"
  shows "push_bit 2 (sextet_value 18 v) OR drop_bit 4 (sextet_value 12 v) = a"
    "sextet_value 12 v AND 0x0f = 0"
  unfolding v_def sextet_value_def mask_lits
  by (rule u8_eqI; simp add: bit_simps)+

lemma sextets_of_bytes:
  fixes a b c d :: u8
  assumes less: "a < 64" "b < 64" "c < 64" "d < 64"
  defines "w \<equiv> push_bit 18 (ucast a) OR push_bit 12 (ucast b) OR push_bit 6 (ucast c) OR
     ucast d :: u32"
  defines "v \<equiv> push_bit 16 (ucast (ucast (drop_bit 16 w AND 0xff) :: u8)) OR
     push_bit 8 (ucast (ucast (drop_bit 8 w AND 0xff) :: u8)) OR
     ucast (ucast (w AND 0xff) :: u8) :: u32"
  shows "sextet_value 18 v = a" "sextet_value 12 v = b" "sextet_value 6 v = c"
    "sextet_value 0 v = d"
  unfolding v_def w_def mask_lits sextet_value_def
  by (rule u8_eqI; simp add: bit_simps less [THEN bit_small(1)] less [THEN bit_small(2)])+

lemma sextets_of_bytes2:
  fixes a b c :: u8
  assumes less: "a < 64" "b < 64" "c < 64" and c: "c AND 0x03 = 0"
  defines "v \<equiv> push_bit 16 (ucast (push_bit 2 a OR drop_bit 4 b)) OR
     push_bit 8 (ucast (push_bit 4 b OR drop_bit 2 c)) :: u32"
  shows "sextet_value 18 v = a" "sextet_value 12 v = b" "sextet_value 6 v = c"
proof -
  have "\<not> bit (c AND 0x03) 0" "\<not> bit (c AND 0x03) 1" using c by simp_all
  then have "\<not> bit c 0" "\<not> bit c (Suc 0)" by (simp_all add: mask_lits bit_simps)
  then show "sextet_value 18 v = a" "sextet_value 12 v = b" "sextet_value 6 v = c"
    unfolding v_def sextet_value_def mask_lits
    by (auto intro!: u8_eqI simp add: bit_simps less [THEN bit_small(1)] less [THEN bit_small(2)])
qed

lemma sextets_of_bytes1:
  fixes a b :: u8
  assumes less: "a < 64" "b < 64" and b: "b AND 0x0f = 0"
  defines "v \<equiv> push_bit 16 (ucast (push_bit 2 a OR drop_bit 4 b)) :: u32"
  shows "sextet_value 18 v = a" "sextet_value 12 v = b"
proof -
  have "\<not> bit (b AND 0x0f) 0" "\<not> bit (b AND 0x0f) 1" "\<not> bit (b AND 0x0f) 2"
    "\<not> bit (b AND 0x0f) 3" using b by simp_all
  then have "\<not> bit b 0" "\<not> bit b (Suc 0)" "\<not> bit b 2" "\<not> bit b 3"
    by (simp_all add: mask_lits bit_simps)
  then show "sextet_value 18 v = a" "sextet_value 12 v = b"
    unfolding v_def sextet_value_def mask_lits
    by (auto intro!: u8_eqI simp add: bit_simps less [THEN bit_small(1)] less [THEN bit_small(2)])
qed

subsection \<open>Encoding and decoding are inverse\<close>

text \<open>The encoder as values below 64, which the alphabet then renders.\<close>

fun encode_values :: "u8 list \<Rightarrow> u8 list" where
  "encode_values (a # b # c # rest) =
     (let v = push_bit 16 (ucast a) OR push_bit 8 (ucast b) OR ucast c
      in sextet_value 18 v # sextet_value 12 v # sextet_value 6 v # sextet_value 0 v #
         encode_values rest)"
| "encode_values [a, b] =
     (let v = push_bit 16 (ucast a) OR push_bit 8 (ucast b)
      in [sextet_value 18 v, sextet_value 12 v, sextet_value 6 v])"
| "encode_values [a] =
     (let v = push_bit 16 (ucast a) in [sextet_value 18 v, sextet_value 12 v])"
| "encode_values [] = []"

lemma encode_render: "base64url_encode bs = map (\<lambda>v. ALPHABET ! unat v) (encode_values bs)"
  by (induction bs rule: encode_values.induct) (simp_all add: sextet_eq Let_def)

lemma encode_values_less: "list_all (\<lambda>v. v < 64) (encode_values bs)"
  by (induction bs rule: encode_values.induct) (simp_all add: sextet_value_less Let_def)

lemma length_encode_values:
  "length (encode_values bs) mod 4 \<noteq> 1 \<and>
   decoded_length (length (encode_values bs)) = length bs"
  by (induction bs rule: encode_values.induct) (auto simp: decoded_length_def Let_def split: if_splits)

lemma decode_encode_values: "decode_chunks (encode_values bs) = Inr bs"
  by (induction bs rule: encode_values.induct)
    (simp_all add: Let_def bytes_of_sextets bytes_of_sextets2 bytes_of_sextets1
      del: drop_bit_or push_bit_or)

lemma encode_decode_values:
  "decode_chunks vs = Inr bs \<Longrightarrow> list_all (\<lambda>v. v < 64) vs \<Longrightarrow> encode_values bs = vs"
proof (induction vs arbitrary: bs rule: decode_chunks.induct)
  case (1 a b c d rest)
  then show ?case by (auto simp: Let_def sextets_of_bytes simp del: drop_bit_or push_bit_or)
next
  case (2 a b c)
  then show ?case by (auto simp: Let_def sextets_of_bytes2 simp del: push_bit_or split: if_splits)
next
  case (3 a b)
  then show ?case by (auto simp: Let_def sextets_of_bytes1 simp del: push_bit_or split: if_splits)
qed simp_all

lemma decode_bytes_iff:
  "mapE (\<lambda>(index, byte). decode_byte index byte) (enumerate n bytes) = Inr vs \<longleftrightarrow>
     list_all (\<lambda>v. v < 64) vs \<and> bytes = map (\<lambda>v. ALPHABET ! unat v) vs"
  by (induction bytes arbitrary: n vs) (auto simp: decode_byte_iff list_all_iff Cons_eq_map_conv)

text \<open>
  Unpadded base64url is a bijection between byte strings and the texts the decoder accepts:
  decoding with a limit yields the bytes \<open>bs\<close> exactly when the text is the encoding of \<open>bs\<close>
  and \<open>bs\<close> fits the limit. So encoding round-trips, and no second text decodes to \<open>bs\<close>.
\<close>

theorem base64url_roundtrip:
  "base64url_decode text limit = Inr bs \<longleftrightarrow> text = base64url_encode bs \<and> length bs \<le> limit"
proof
  assume "base64url_decode text limit = Inr bs"
  then obtain vs where len: "length text mod 4 \<noteq> 1" "decoded_length (length text) \<le> limit"
    and vs: "list_all (\<lambda>v. v < 64) vs" "text = map (\<lambda>v. ALPHABET ! unat v) vs"
    and chunks: "decode_chunks vs = Inr bs"
    by (auto simp: base64url_decode_def decode_bytes_iff split: if_splits)
  have "encode_values bs = vs" by (rule encode_decode_values [OF chunks vs(1)])
  with vs(2) len(2) length_encode_values [of bs]
  show "text = base64url_encode bs \<and> length bs \<le> limit" by (simp add: encode_render)
next
  assume "text = base64url_encode bs \<and> length bs \<le> limit"
  then show "base64url_decode text limit = Inr bs"
    using length_encode_values [of bs] encode_values_less [of bs] decode_encode_values [of bs]
    by (auto simp: base64url_decode_def decode_bytes_iff encode_render)
qed

end
