(* ===== verification/Canonical.thy ===== *)
theory Canonical
  imports Contracts Rust_Text "HOL-Library.List_Lexorder" "HOL-Library.Multiset"
begin

text \<open>
  The canonical binary encoding of \<open>crates/trnm-canonical-core/src/lib.rs\<close>: values, objects
  with sorted keys, frames, and the bounded encoder as a function on its state. A \<open>String\<close>
  is its UTF-8 bytes, the only view of it the code takes; the order of byte slices is the
  lexicographic order of lists. A \<open>CanonicalObject\<close> is its list of entries.
\<close>

subsection \<open>Values and limits\<close>

definition MAGIC :: "u8 list" where "MAGIC = bytes_of ''TRNMCAN1''"
definition MAX_DOMAIN_BYTES :: usize where "MAX_DOMAIN_BYTES = 64"
definition TAG_NULL :: u8 where "TAG_NULL = 0"
definition TAG_FALSE :: u8 where "TAG_FALSE = 1"
definition TAG_TRUE :: u8 where "TAG_TRUE = 2"
definition TAG_I64 :: u8 where "TAG_I64 = 3"
definition TAG_STRING :: u8 where "TAG_STRING = 4"
definition TAG_BYTES :: u8 where "TAG_BYTES = 5"
definition TAG_ARRAY :: u8 where "TAG_ARRAY = 6"
definition TAG_OBJECT :: u8 where "TAG_OBJECT = 7"

lemmas tag_defs = TAG_NULL_def TAG_FALSE_def TAG_TRUE_def TAG_I64_def TAG_STRING_def
  TAG_BYTES_def TAG_ARRAY_def TAG_OBJECT_def

record CanonicalLimits =
  cl_max_depth :: usize
  cl_max_nodes :: usize
  cl_max_output_bytes :: usize
  cl_max_string_bytes :: usize
  cl_max_collection_items :: usize

definition CanonicalLimits_default :: CanonicalLimits where
  "CanonicalLimits_default =
     \<lparr>cl_max_depth = 32, cl_max_nodes = 4096, cl_max_output_bytes = 1024 * 1024,
      cl_max_string_bytes = 64 * 1024, cl_max_collection_items = 4096\<rparr>"

datatype CanonicalValue =
    CNull
  | CBool bool
  | CI64 i64
  | CString utf8
  | CBytes "u8 list"
  | CArray "CanonicalValue list"
  | CObject "(utf8 \<times> CanonicalValue) list"

definition can_invalid :: "string \<Rightarrow> DomainError" where
  "can_invalid reason = domain_error InvalidArgument reason Never"

definition can_exhausted :: "string \<Rightarrow> DomainError" where
  "can_exhausted reason = domain_error ResourceExhausted reason Never"

definition can_overflow :: DomainError where
  "can_overflow = domain_error OutOfRange ''canonical_counter_overflow'' Never"

text \<open>\<open>entries.sort_by(..)\<close> is stable; \<open>windows(2).any(..)\<close> compares neighbours.\<close>

definition CanonicalObject_new ::
    "(utf8 \<times> CanonicalValue) list \<Rightarrow> DomainError + (utf8 \<times> CanonicalValue) list" where
  "CanonicalObject_new entries =
     (let entries = sort_key fst entries
      in if \<not> distinct_adj (map fst entries)
         then Inl (can_invalid ''duplicate_canonical_object_key'')
         else Inr entries)"

definition canonical_object ::
    "(utf8 \<times> CanonicalValue) list \<Rightarrow> DomainError + CanonicalValue" where
  "canonical_object entries = tryE (CanonicalObject_new entries) (\<lambda>e. Inr (CObject e))"

record CanonicalFrame =
  cf_domain :: utf8
  cf_version :: ProtocolVersion
  cf_value :: CanonicalValue

subsection \<open>Validation\<close>

definition validate_domain :: "utf8 \<Rightarrow> DomainError + unit" where
  "validate_domain domain =
     (if domain = [] \<or> MAX_DOMAIN_BYTES < length domain
      then Inl (can_invalid ''invalid_canonical_domain_length'')
      else if \<not> is_ascii_alphanumeric (hd domain)
         \<or> \<not> is_ascii_alphanumeric (last domain)
         \<or> list_ex (\<lambda>(x, y). x = 46 \<and> y = 46) (zip domain (tl domain))
         \<or> \<not> list_all (\<lambda>byte. is_ascii_lowercase byte \<or> is_ascii_digit byte
                          \<or> byte = 46 \<or> byte = 95 \<or> byte = 45) domain
      then Inl (can_invalid ''invalid_canonical_domain'')
      else Inr ())"

definition CanonicalFrame_new ::
    "utf8 \<Rightarrow> ProtocolVersion \<Rightarrow> CanonicalValue \<Rightarrow> DomainError + CanonicalFrame" where
  "CanonicalFrame_new domain version v =
     tryE (validate_domain domain) (\<lambda>_.
     if pv_major version = 0 then Inl (can_invalid ''canonical_protocol_major_zero'')
     else Inr \<lparr>cf_domain = domain, cf_version = version, cf_value = v\<rparr>)"

definition validate_limits :: "CanonicalLimits \<Rightarrow> DomainError + unit" where
  "validate_limits limits =
     (if cl_max_nodes limits = 0
         \<or> cl_max_output_bytes limits < length MAGIC + 8
         \<or> cl_max_string_bytes limits = 0
         \<or> cl_max_collection_items limits = 0
      then Inl (can_invalid ''invalid_canonical_limits'')
      else Inr ())"

definition validate_string :: "utf8 \<Rightarrow> CanonicalLimits \<Rightarrow> DomainError + unit" where
  "validate_string str limits =
     (if cl_max_string_bytes limits < length str
      then Inl (can_exhausted ''canonical_string_limit_exceeded'') else Inr ())"

definition validate_key :: "utf8 \<Rightarrow> CanonicalLimits \<Rightarrow> DomainError + unit" where
  "validate_key key limits =
     (if key = [] \<or> cl_max_string_bytes limits < length key
      then Inl (can_invalid ''invalid_canonical_object_key'') else Inr ())"

definition validate_collection_len :: "usize \<Rightarrow> CanonicalLimits \<Rightarrow> DomainError + unit" where
  "validate_collection_len n limits =
     (if cl_max_collection_items limits < n
      then Inl (can_exhausted ''canonical_collection_limit_exceeded'') else Inr ())"

subsection \<open>The encoder\<close>

record Encoder =
  en_limits :: CanonicalLimits
  en_nodes :: usize
  en_output :: "u8 list"

definition ensure_capacity :: "Encoder \<Rightarrow> usize \<Rightarrow> DomainError + unit" where
  "ensure_capacity enc additional =
     tryE (ok_or can_overflow (usize_checked_add (length (en_output enc)) additional)) (\<lambda>next.
     if cl_max_output_bytes (en_limits enc) < next
     then Inl (can_exhausted ''canonical_output_limit_exceeded'') else Inr ())"

definition en_extend :: "u8 list \<Rightarrow> Encoder \<Rightarrow> DomainError + Encoder" where
  "en_extend bytes enc =
     tryE (ensure_capacity enc (length bytes)) (\<lambda>_.
     Inr (enc\<lparr>en_output := en_output enc @ bytes\<rparr>))"

definition en_push :: "u8 \<Rightarrow> Encoder \<Rightarrow> DomainError + Encoder" where
  "en_push byte enc =
     tryE (ensure_capacity enc 1) (\<lambda>_. Inr (enc\<lparr>en_output := en_output enc @ [byte]\<rparr>))"

definition write_raw_u16 :: "u16 \<Rightarrow> Encoder \<Rightarrow> DomainError + Encoder" where
  "write_raw_u16 n = en_extend (to_be_bytes n)"

definition write_u16 :: "usize \<Rightarrow> Encoder \<Rightarrow> DomainError + Encoder" where
  "write_u16 n enc =
     (if n < 2 ^ 16 then write_raw_u16 (of_nat n) enc
      else Inl (can_exhausted ''canonical_u16_length_exceeded''))"

definition write_u32 :: "usize \<Rightarrow> Encoder \<Rightarrow> DomainError + Encoder" where
  "write_u32 n enc =
     (if n < 2 ^ 32 then en_extend (to_be_bytes (of_nat n :: u32)) enc
      else Inl (can_exhausted ''canonical_u32_length_exceeded''))"

text \<open>The tests and the count that precede every node.\<close>

definition enter_node :: "usize \<Rightarrow> Encoder \<Rightarrow> DomainError + Encoder" where
  "enter_node depth enc =
     (if cl_max_depth (en_limits enc) < depth
      then Inl (can_exhausted ''canonical_depth_limit_exceeded'')
      else tryE (ok_or can_overflow (usize_checked_add (en_nodes enc) 1)) (\<lambda>nodes.
      if cl_max_nodes (en_limits enc) < nodes
      then Inl (can_exhausted ''canonical_node_limit_exceeded'')
      else Inr (enc\<lparr>en_nodes := nodes\<rparr>)))"

fun write_value :: "usize \<Rightarrow> CanonicalValue \<Rightarrow> Encoder \<Rightarrow> DomainError + Encoder" where
  "write_value depth CNull enc = tryE (enter_node depth enc) (en_push TAG_NULL)"
| "write_value depth (CBool b) enc =
     tryE (enter_node depth enc) (en_push (if b then TAG_TRUE else TAG_FALSE))"
| "write_value depth (CI64 number) enc =
     tryE (enter_node depth enc) (\<lambda>enc.
     tryE (en_push TAG_I64 enc) (en_extend (to_be_bytes number)))"
| "write_value depth (CString str) enc =
     tryE (enter_node depth enc) (\<lambda>enc.
     tryE (validate_string str (en_limits enc)) (\<lambda>_.
     tryE (en_push TAG_STRING enc) (\<lambda>enc.
     tryE (write_u32 (length str) enc) (en_extend str))))"
| "write_value depth (CBytes bytes) enc =
     tryE (enter_node depth enc) (\<lambda>enc.
     if cl_max_string_bytes (en_limits enc) < length bytes
     then Inl (can_exhausted ''canonical_bytes_limit_exceeded'')
     else tryE (en_push TAG_BYTES enc) (\<lambda>enc.
          tryE (write_u32 (length bytes) enc) (en_extend bytes)))"
| "write_value depth (CArray values) enc =
     tryE (enter_node depth enc) (\<lambda>enc.
     tryE (validate_collection_len (length values) (en_limits enc)) (\<lambda>_.
     tryE (en_push TAG_ARRAY enc) (\<lambda>enc.
     tryE (write_u32 (length values) enc) (\<lambda>enc.
     tryE (ok_or can_overflow (usize_checked_add depth 1)) (\<lambda>child_depth.
     foldE (\<lambda>child. write_value child_depth child) values enc)))))"
| "write_value depth (CObject entries) enc =
     tryE (enter_node depth enc) (\<lambda>enc.
     tryE (validate_collection_len (length entries) (en_limits enc)) (\<lambda>_.
     tryE (en_push TAG_OBJECT enc) (\<lambda>enc.
     tryE (write_u32 (length entries) enc) (\<lambda>enc.
     tryE (ok_or can_overflow (usize_checked_add depth 1)) (\<lambda>child_depth.
     foldE (\<lambda>(key, child) enc.
       tryE (validate_key key (en_limits enc)) (\<lambda>_.
       tryE (write_u32 (length key) enc) (\<lambda>enc.
       tryE (en_extend key enc) (\<lambda>enc.
       write_value child_depth child enc)))) entries enc)))))"

definition encode_canonical :: "CanonicalFrame \<Rightarrow> CanonicalLimits \<Rightarrow> DomainError + u8 list" where
  "encode_canonical frame limits =
     tryE (validate_limits limits) (\<lambda>_.
     tryE (en_extend MAGIC \<lparr>en_limits = limits, en_nodes = 0, en_output = []\<rparr>) (\<lambda>enc.
     tryE (write_u16 (length (cf_domain frame)) enc) (\<lambda>enc.
     tryE (en_extend (cf_domain frame) enc) (\<lambda>enc.
     tryE (write_raw_u16 (pv_major (cf_version frame)) enc) (\<lambda>enc.
     tryE (write_raw_u16 (pv_minor (cf_version frame)) enc) (\<lambda>enc.
     tryE (write_value 0 (cf_value frame) enc) (\<lambda>enc.
     Inr (en_output enc))))))))"

subsection \<open>What the encoder writes\<close>

text \<open>The bytes of a value and of a frame, without limits or state.\<close>

definition u32_bytes :: "usize \<Rightarrow> u8 list" where
  "u32_bytes n = to_be_bytes (of_nat n :: u32)"

fun value_bytes :: "CanonicalValue \<Rightarrow> u8 list" where
  "value_bytes CNull = [TAG_NULL]"
| "value_bytes (CBool b) = [if b then TAG_TRUE else TAG_FALSE]"
| "value_bytes (CI64 n) = TAG_I64 # to_be_bytes n"
| "value_bytes (CString str) = TAG_STRING # u32_bytes (length str) @ str"
| "value_bytes (CBytes bytes) = TAG_BYTES # u32_bytes (length bytes) @ bytes"
| "value_bytes (CArray vs) = TAG_ARRAY # u32_bytes (length vs) @ concat (map value_bytes vs)"
| "value_bytes (CObject es) = TAG_OBJECT # u32_bytes (length es) @
     concat (map (\<lambda>(key, v). u32_bytes (length key) @ key @ value_bytes v) es)"

definition frame_bytes :: "CanonicalFrame \<Rightarrow> u8 list" where
  "frame_bytes f = MAGIC @ to_be_bytes (of_nat (length (cf_domain f)) :: u16) @ cf_domain f @
     to_be_bytes (pv_major (cf_version f)) @ to_be_bytes (pv_minor (cf_version f)) @
     value_bytes (cf_value f)"

text \<open>Every length of the value fits the field it is written to.\<close>

fun lengths_fit :: "CanonicalValue \<Rightarrow> bool" where
  "lengths_fit (CString str) \<longleftrightarrow> length str < 2 ^ 32"
| "lengths_fit (CBytes bytes) \<longleftrightarrow> length bytes < 2 ^ 32"
| "lengths_fit (CArray vs) \<longleftrightarrow> length vs < 2 ^ 32 \<and> list_all lengths_fit vs"
| "lengths_fit (CObject es) \<longleftrightarrow> length es < 2 ^ 32 \<and>
     list_all (\<lambda>(key, v). length key < 2 ^ 32 \<and> lengths_fit v) es"
| "lengths_fit _ \<longleftrightarrow> True"

definition appends :: "Encoder \<Rightarrow> u8 list \<Rightarrow> Encoder \<Rightarrow> bool" where
  "appends enc bs enc' \<longleftrightarrow> en_limits enc' = en_limits enc \<and> en_output enc' = en_output enc @ bs \<and>
     (length (en_output enc) \<le> cl_max_output_bytes (en_limits enc) \<longrightarrow>
        length (en_output enc') \<le> cl_max_output_bytes (en_limits enc))"

lemma appends_trans:
  "appends enc bs enc' \<Longrightarrow> appends enc' bs' enc'' \<Longrightarrow> appends enc (bs @ bs') enc''"
  by (auto simp: appends_def)

lemma ensure_capacity_Inr:
  "ensure_capacity enc n = Inr u \<Longrightarrow>
     length (en_output enc) + n \<le> cl_max_output_bytes (en_limits enc)"
  by (auto simp: ensure_capacity_def usize_checked_add_def split: if_splits)

lemma en_extend_appends: "en_extend bs enc = Inr enc' \<Longrightarrow> appends enc bs enc'"
  by (auto simp: en_extend_def appends_def dest!: ensure_capacity_Inr)

lemma en_push_appends: "en_push b enc = Inr enc' \<Longrightarrow> appends enc [b] enc'"
  by (auto simp: en_push_def appends_def dest!: ensure_capacity_Inr)

lemma write_u32_appends:
  "write_u32 n enc = Inr enc' \<Longrightarrow> appends enc (u32_bytes n) enc' \<and> n < 2 ^ 32"
  by (auto simp: write_u32_def u32_bytes_def split: if_splits dest: en_extend_appends)

lemma write_u16_appends:
  "write_u16 n enc = Inr enc' \<Longrightarrow> appends enc (to_be_bytes (of_nat n :: u16)) enc' \<and> n < 2 ^ 16"
  by (auto simp: write_u16_def write_raw_u16_def split: if_splits dest: en_extend_appends)

lemma enter_node_appends: "enter_node d enc = Inr enc' \<Longrightarrow> appends enc [] enc'"
  by (auto simp: enter_node_def appends_def split: if_splits)

lemma foldE_appends:
  assumes "\<And>x enc enc'. x \<in> set xs \<Longrightarrow> f x enc = Inr enc' \<Longrightarrow> appends enc (g x) enc' \<and> P x"
    and "foldE f xs enc = Inr enc'"
  shows "appends enc (concat (map g xs)) enc' \<and> list_all P xs"
  using assms
proof (induction xs arbitrary: enc)
  case (Cons x xs)
  then obtain m where "f x enc = Inr m" "foldE f xs m = Inr enc'" by auto
  with Cons have "appends enc (g x) m" "P x" "appends m (concat (map g xs)) enc'" "list_all P xs"
    by (metis list.set_intros)+
  then show ?case using appends_trans by auto
qed (simp add: appends_def)

lemmas step_appends = en_extend_appends en_push_appends write_u32_appends enter_node_appends

lemma write_value_appends:
  "write_value d v enc = Inr enc' \<Longrightarrow> appends enc (value_bytes v) enc' \<and> lengths_fit v"
proof (induction d v enc arbitrary: enc' rule: write_value.induct)
  case (6 d vs enc)
  then obtain e1 e2 e3 cd where e: "enter_node d enc = Inr e1" "en_push TAG_ARRAY e1 = Inr e2"
      "write_u32 (length vs) e2 = Inr e3" "foldE (write_value cd) vs e3 = Inr enc'"
    and u: "validate_collection_len (length vs) (en_limits e1) = Inr ()"
      "usize_checked_add d 1 = Some cd"
    by auto
  have "appends e3 (concat (map value_bytes vs)) enc' \<and> list_all lengths_fit vs"
    using e(4) 6(1) [OF e(1) u(1) e(2,3)] u(2) by (intro foldE_appends) auto
  then show ?case
    using step_appends(4) [OF e(1)] step_appends(2) [OF e(2)] step_appends(3) [OF e(3)]
    by (auto simp: appends_def)
next
  case (7 d es enc)
  let ?f = "\<lambda>cd (key, child) enc. tryE (validate_key key (en_limits enc)) (\<lambda>_.
       tryE (write_u32 (length key) enc) (\<lambda>enc.
       tryE (en_extend key enc) (\<lambda>enc. write_value cd child enc)))"
  obtain e1 e2 e3 cd where e: "enter_node d enc = Inr e1" "en_push TAG_OBJECT e1 = Inr e2"
      "write_u32 (length es) e2 = Inr e3" "foldE (?f cd) es e3 = Inr enc'"
    and u: "validate_collection_len (length es) (en_limits e1) = Inr ()"
      "usize_checked_add d 1 = Some cd"
    using 7(2) by auto
  have "appends e3 (concat (map (\<lambda>(key, v). u32_bytes (length key) @ key @ value_bytes v) es)) enc'
      \<and> list_all (\<lambda>(key, v). length key < 2 ^ 32 \<and> lengths_fit v) es"
  proof (rule foldE_appends [OF _ e(4)])
    fix x m m' assume x: "x \<in> set es" "?f cd x m = Inr m'"
    obtain key v where kv: "x = (key, v)" by force
    with x obtain m1 m2 where m: "write_u32 (length key) m = Inr m1" "en_extend key m1 = Inr m2"
        "write_value cd v m2 = Inr m'" "validate_key key (en_limits m) = Inr ()"
      by auto
    have "appends m2 (value_bytes v) m' \<and> lengths_fit v"
      using 7(1) [OF e(1) u(1) e(2,3) _ x(1) _ m(4,1,2,3)] u(2) kv by auto
    with step_appends(3) [OF m(1)] step_appends(1) [OF m(2)]
    show "appends m (case x of (key, v) \<Rightarrow> u32_bytes (length key) @ key @ value_bytes v) m' \<and>
        (case x of (key, v) \<Rightarrow> length key < 2 ^ 32 \<and> lengths_fit v)"
      by (auto simp: kv appends_def)
  qed
  then show ?case
    using step_appends(4) [OF e(1)] step_appends(2) [OF e(2)] step_appends(3) [OF e(3)]
    by (auto simp: appends_def)
qed (auto simp: appends_def split: if_splits dest!: step_appends)

lemma encode_canonical_Inr:
  assumes "encode_canonical f limits = Inr bs"
  shows "bs = frame_bytes f \<and> length bs \<le> cl_max_output_bytes limits \<and>
    length (cf_domain f) < 2 ^ 16 \<and> lengths_fit (cf_value f)"
  using assms
  by (auto simp: encode_canonical_def frame_bytes_def write_raw_u16_def appends_def MAGIC_def bytes_of_def
    dest!: en_extend_appends write_u16_appends write_value_appends)

subsection \<open>The bytes determine the frame\<close>

lemma u32_bytes_length [simp]: "length (u32_bytes n) = 4"
  by (simp add: u32_bytes_def)

lemma u32_bytes_inject:
  assumes "u32_bytes m = u32_bytes n" "m < 2 ^ 32" "n < 2 ^ 32" shows "m = n"
proof -
  have "(of_nat m :: u32) = of_nat n"
    using assms(1) by (intro to_be_bytes_inject) (simp_all add: u32_bytes_def)
  then have "unat (of_nat m :: u32) = unat (of_nat n :: u32)" by simp
  with assms(2,3) show ?thesis by (simp add: unat_of_nat_eq)
qed

lemma u32_bytes_eq_iff:
  "m < 4294967296 \<Longrightarrow> n < 4294967296 \<Longrightarrow> u32_bytes m = u32_bytes n \<longleftrightarrow> m = n"
  using u32_bytes_inject by auto

text \<open>A list of items whose encodings are self-delimiting is determined by its length.\<close>

lemma items_prefix_free:
  assumes "\<And>x y r s. x \<in> set xs \<Longrightarrow> P y \<Longrightarrow> g x @ r = g y @ s \<Longrightarrow> x = y \<and> r = s"
    and "length xs = length ys" "list_all P ys" "concat (map g xs) @ r = concat (map g ys) @ s"
  shows "xs = ys \<and> r = s"
  using assms
proof (induction xs arbitrary: ys)
  case (Cons x xs)
  then obtain y ys' where ys: "ys = y # ys'" by (cases ys) auto
  with Cons.prems(4) have "g x @ concat (map g xs) @ r = g y @ concat (map g ys') @ s" by simp
  with Cons.prems(1) [of x y] Cons.prems(3) ys
  have "x = y" "concat (map g xs) @ r = concat (map g ys') @ s" by auto
  with Cons.IH [of ys'] Cons.prems ys show ?case by auto
qed simp

lemma delimited:
  assumes "u32_bytes m @ r = u32_bytes n @ s" "m < 2 ^ 32" "n < 2 ^ 32"
  shows "m = n \<and> r = s"
  using assms u32_bytes_inject by (auto simp: append_eq_append_conv)

lemma delimited_bytes:
  assumes "u32_bytes (length x) @ x @ r = u32_bytes (length y) @ y @ s"
    "length x < 2 ^ 32" "length y < 2 ^ 32"
  shows "x = y \<and> r = s"
  using delimited [OF assms] by (auto simp: append_eq_append_conv)

lemma value_prefix_free:
  "value_bytes v @ r = value_bytes w @ s \<Longrightarrow> lengths_fit v \<Longrightarrow> lengths_fit w \<Longrightarrow> v = w \<and> r = s"
proof (induction v arbitrary: w r s rule: value_bytes.induct)
  case (3 n)
  then show ?case by (cases w) (auto simp: tag_defs append_eq_append_conv dest!: to_be_bytes_inject split: if_splits)
next
  case (4 string)
  then show ?case by (cases w) (auto simp: tag_defs u32_bytes_eq_iff split: if_splits)
next
  case (5 bytes)
  then show ?case by (cases w) (auto simp: tag_defs u32_bytes_eq_iff split: if_splits)
next
  case (6 vs)
  then obtain ws where w: "w = CArray ws" by (cases w) (auto simp: tag_defs split: if_splits)
  with 6 have "length vs = length ws \<and>
      concat (map value_bytes vs) @ r = concat (map value_bytes ws) @ s"
    by (intro delimited) simp_all
  then have "vs = ws \<and> r = s"
    using 6 w by (intro items_prefix_free [where g = value_bytes and P = lengths_fit])
      (auto simp: list_all_iff)
  with w show ?case by simp
next
  case (7 es)
  let ?g = "\<lambda>(key, v). u32_bytes (length key) @ key @ value_bytes v"
  let ?P = "\<lambda>(key, v). length key < 2 ^ 32 \<and> lengths_fit v"
  from 7 obtain ws where w: "w = CObject ws" by (cases w) (auto simp: tag_defs split: if_splits)
  with 7 have len: "length es = length ws \<and> concat (map ?g es) @ r = concat (map ?g ws) @ s"
    by (intro delimited) simp_all
  have "es = ws \<and> r = s"
  proof (rule items_prefix_free [where g = ?g and P = ?P])
    fix x y r s assume x: "x \<in> set es" and y: "?P y" and eq: "?g x @ r = ?g y @ s"
    obtain k v l u where kv: "x = (k, v)" "y = (l, u)" by force
    have fit: "length k < 2 ^ 32" "lengths_fit v" using 7(3) x kv by (auto simp: list_all_iff)
    have "k = l \<and> value_bytes v @ r = value_bytes u @ s"
      using eq fit y kv by (intro delimited_bytes) simp_all
    moreover have "lengths_fit u" using y kv by simp
    ultimately show "x = y \<and> r = s"
      using 7(1) [OF x kv(1) [symmetric], of r u s] fit(2) kv by simp
  qed (use len 7(4) w in simp_all)
  with w show ?case by simp
next
  case 1
  then show ?case by (cases w) (auto simp: tag_defs split: if_splits)
next
  case (2 b)
  then show ?case by (cases w) (auto simp: tag_defs split: if_splits)
qed

text \<open>
  C18: The canonical encoding is injective and bounded: bytes that the encoder produces for a
  frame, under any limits, respect the output limit and are produced for no other frame,
  under no limits.
\<close>

theorem canonical_encoding_injective:
  assumes "encode_canonical f limits = Inr bs"
  shows "length bs \<le> cl_max_output_bytes limits \<and>
    (\<forall>g limits'. encode_canonical g limits' = Inr bs \<longrightarrow> g = f)"
proof (intro conjI allI impI)
  note f = encode_canonical_Inr [OF assms]
  show "length bs \<le> cl_max_output_bytes limits" using f by blast
  fix g limits' assume "encode_canonical g limits' = Inr bs"
  note g = encode_canonical_Inr [OF this]
  have eq: "frame_bytes g = frame_bytes f" using f g by simp
  then have "(of_nat (length (cf_domain g)) :: u16) = of_nat (length (cf_domain f))"
    by (intro to_be_bytes_inject) (simp_all add: frame_bytes_def)
  then have "unat (of_nat (length (cf_domain g)) :: u16) = unat (of_nat (length (cf_domain f)) :: u16)"
    by simp
  then have "length (cf_domain g) = length (cf_domain f)" using f g by (simp add: unat_of_nat_eq)
  with eq have "cf_domain g = cf_domain f" "pv_major (cf_version g) = pv_major (cf_version f)"
      "pv_minor (cf_version g) = pv_minor (cf_version f)"
      and "value_bytes (cf_value g) = value_bytes (cf_value f)"
    by (auto simp: frame_bytes_def append_eq_append_conv intro!: to_be_bytes_inject)
  moreover from this have "cf_value g = cf_value f"
    using value_prefix_free [of "cf_value g" "[]" "cf_value f" "[]"] f g by simp
  ultimately show "g = f" by simp
qed

subsection \<open>Objects have one canonical form\<close>

lemma sorted_distinct_adj: "sorted xs \<Longrightarrow> distinct_adj xs \<longleftrightarrow> sorted_wrt (<) xs"
  for xs :: "'a::linorder list"
proof (induction xs rule: induct_list012)
  case (3 x y zs)
  then show ?case by (auto intro: order.strict_trans simp: order_less_le dest: order.trans)
qed simp_all

lemma canonical_object_iff:
  "canonical_object es = Inr v \<longleftrightarrow>
     (\<exists>entries. v = CObject entries \<and> mset entries = mset es \<and> sorted_wrt (<) (map fst entries))"
proof -
  have "sort_key fst es = entries" if "mset entries = mset es" "sorted_wrt (<) (map fst entries)"
    for entries
  proof (rule sort_key_inj_key_eq)
    show "mset es = mset entries" using that(1) by simp
    have "inj_on fst (set entries)" using that(2) by (simp add: strict_sorted_iff distinct_map)
    then show "inj_on fst (set es)" using mset_eq_setD [OF that(1)] by simp
    show "sorted (map fst entries)" using that(2) by (simp add: strict_sorted_iff)
  qed
  moreover have "sorted_wrt (<) (map fst (sort_key fst es)) \<longleftrightarrow> distinct_adj (map fst (sort_key fst es))"
    by (simp add: sorted_distinct_adj)
  ultimately show ?thesis
    by (auto simp: canonical_object_def CanonicalObject_new_def Let_def)
qed

text \<open>
  An object has one canonical form: entries build an object exactly when no key occurs
  twice; the object holds the same entries in strictly ascending byte order of the keys, and
  is the same, as is the error, in whatever order the entries are given.
\<close>

theorem canonical_object_order:
  "(canonical_object es = Inr v \<longleftrightarrow>
     (\<exists>entries. v = CObject entries \<and> mset entries = mset es \<and> sorted_wrt (<) (map fst entries))) \<and>
   ((\<exists>v. canonical_object es = Inr v) \<longleftrightarrow> distinct (map fst es)) \<and>
   (mset es' = mset es \<longrightarrow> canonical_object es' = canonical_object es)"
proof (intro conjI impI)
  have ok: "(\<exists>v. canonical_object es = Inr v) \<longleftrightarrow> distinct (map fst es)" for es
  proof
    assume "\<exists>v. canonical_object es = Inr v"
    then obtain entries where "mset entries = mset es" "distinct (map fst entries)"
      by (auto simp: canonical_object_iff strict_sorted_iff)
    then show "distinct (map fst es)" by (metis mset_eq_imp_distinct_iff mset_map)
  next
    assume "distinct (map fst es)"
    then have "distinct (map fst (sort_key fst es))" by (metis mset_eq_imp_distinct_iff mset_map mset_sort)
    then have "sorted_wrt (<) (map fst (sort_key fst es))" by (simp add: strict_sorted_iff)
    then show "\<exists>v. canonical_object es = Inr v" 
      unfolding canonical_object_iff by (intro exI [of _ "CObject (sort_key fst es)"]
        exI [of _ "sort_key fst es"] conjI refl) simp_all
  qed
  then show "(\<exists>v. canonical_object es = Inr v) \<longleftrightarrow> distinct (map fst es)" .
  show "canonical_object es = Inr v \<longleftrightarrow>
     (\<exists>entries. v = CObject entries \<and> mset entries = mset es \<and> sorted_wrt (<) (map fst entries))"
    by (rule canonical_object_iff)
  assume same: "mset es' = mset es"
  show "canonical_object es' = canonical_object es"
  proof (cases "canonical_object es")
    case (Inr v)
    with same have "canonical_object es' = Inr v"
      using canonical_object_iff [of es v] canonical_object_iff [of es' v] by simp
    with Inr show ?thesis by simp
  next
    case (Inl e)
    then have "canonical_object es' \<noteq> Inr w" for w
      using same canonical_object_iff [of es w] canonical_object_iff [of es' w] by auto
    then obtain e' where "canonical_object es' = Inl e'" by (cases "canonical_object es'") auto
    with Inl show ?thesis
      by (auto simp: canonical_object_def CanonicalObject_new_def Let_def split: if_splits)
  qed
qed

subsection \<open>Witnesses\<close>

definition wit_frame :: CanonicalFrame where
  "wit_frame = \<lparr>cf_domain = bytes_of ''doc'', cf_version = \<lparr>pv_major = 1, pv_minor = 0\<rparr>,
     cf_value = CObject [(bytes_of ''a'', CArray [CBool True, CNull]), (bytes_of ''b'', CI64 7)]\<rparr>"

definition wit_limits :: CanonicalLimits where
  "wit_limits = \<lparr>cl_max_depth = 3, cl_max_nodes = 8, cl_max_output_bytes = 100,
     cl_max_string_bytes = 8, cl_max_collection_items = 4\<rparr>"

lemmas encoder_defs = encode_canonical_def validate_limits_def en_extend_def en_push_def
  ensure_capacity_def usize_checked_add_def write_u16_def write_raw_u16_def write_u32_def
  enter_node_def validate_string_def validate_key_def validate_collection_len_def

lemma wit_frame_encodes: "encode_canonical wit_frame wit_limits = Inr (frame_bytes wit_frame)"
  by (simp add: encoder_defs wit_limits_def wit_frame_def frame_bytes_def u32_bytes_def MAGIC_def
    bytes_of_def)

theorem canonical_encoding_injective_witness: "length (frame_bytes wit_frame) \<le> 100"
  using canonical_encoding_injective [OF wit_frame_encodes] by (simp add: wit_limits_def)

theorem canonical_object_order_witness:
  "canonical_object [(bytes_of ''b'', CNull), (bytes_of ''a'', CBool True)] =
   canonical_object [(bytes_of ''a'', CBool True), (bytes_of ''b'', CNull)]"
  using canonical_object_order [of "[(bytes_of ''a'', CBool True), (bytes_of ''b'', CNull)]" CNull
    "[(bytes_of ''b'', CNull), (bytes_of ''a'', CBool True)]"] by simp

end
