(* ===== verification/Utf8.thy ===== *)
theory Utf8
  imports Rust_Text
begin

unbundle bit_operations_syntax

text \<open>
  UTF-8 as the standard library has it: \<open>String::as_bytes\<close> of a list of scalar values, and
  the test of \<open>str::from_utf8\<close>, which accepts the well-formed byte sequences of the Unicode
  standard (table 3-7) and nothing else.
\<close>

definition is_scalar :: "rchar \<Rightarrow> bool" where
  "is_scalar c \<longleftrightarrow> c < 0xD800 \<or> 0xE000 \<le> c \<and> c \<le> 0x10FFFF"

definition char_bytes :: "rchar \<Rightarrow> u8 list" where
  "char_bytes c =
     (if c < 0x80 then [ucast c]
      else if c < 0x800 then [0xC0 OR ucast (drop_bit 6 c), 0x80 OR ucast (c AND 0x3F)]
      else if c < 0x10000
      then [0xE0 OR ucast (drop_bit 12 c), 0x80 OR ucast (drop_bit 6 c AND 0x3F),
            0x80 OR ucast (c AND 0x3F)]
      else [0xF0 OR ucast (drop_bit 18 c), 0x80 OR ucast (drop_bit 12 c AND 0x3F),
            0x80 OR ucast (drop_bit 6 c AND 0x3F), 0x80 OR ucast (c AND 0x3F)])"

definition str_bytes :: "rstring \<Rightarrow> u8 list" where
  "str_bytes s = concat (map char_bytes s)"

definition is_continuation :: "u8 \<Rightarrow> bool" where
  "is_continuation b \<longleftrightarrow> 0x80 \<le> b \<and> b \<le> 0xBF"

fun valid_utf8 :: "u8 list \<Rightarrow> bool" where
  "valid_utf8 [] = True"
| "valid_utf8 (a # rest) =
     (if a < 0x80 then valid_utf8 rest
      else if 0xC2 \<le> a \<and> a \<le> 0xDF then
        (case rest of b # rest' \<Rightarrow> is_continuation b \<and> valid_utf8 rest' | _ \<Rightarrow> False)
      else if 0xE0 \<le> a \<and> a \<le> 0xEF then
        (case rest of b # c # rest' \<Rightarrow>
            is_continuation b \<and> (a = 0xE0 \<longrightarrow> 0xA0 \<le> b) \<and> (a = 0xED \<longrightarrow> b \<le> 0x9F) \<and>
            is_continuation c \<and> valid_utf8 rest'
         | _ \<Rightarrow> False)
      else if 0xF0 \<le> a \<and> a \<le> 0xF4 then
        (case rest of b # c # d # rest' \<Rightarrow>
            is_continuation b \<and> (a = 0xF0 \<longrightarrow> 0x90 \<le> b) \<and> (a = 0xF4 \<longrightarrow> b \<le> 0x8F) \<and>
            is_continuation c \<and> is_continuation d \<and> valid_utf8 rest'
         | _ \<Rightarrow> False)
      else False)"

lemma length_char_bytes [simp]: "length (char_bytes c) = char_len_utf8 c"
  by (simp add: char_bytes_def char_len_utf8_def)

lemma length_str_bytes: "length (str_bytes s) = str_len s"
  by (simp add: str_bytes_def str_len_def length_concat comp_def)

lemma valid_utf8_ascii: "list_all (\<lambda>b. b < 0x80) bs \<Longrightarrow> valid_utf8 bs"
  by (induction bs) auto

end
