(* ===== verification/Wire.thy ===== *)
theory Wire
  imports Utf8
begin

unbundle bit_operations_syntax

text \<open>
  The realtime wire format of \<open>crates/trnm-realtime-wire/src/lib.rs\<close>: WebSocket frames and the
  two protobuf envelopes. The decoders of the source walk an input slice with a cursor; here a
  reader takes the bytes from the cursor on and returns the rest, so the bounds tests of
  \<open>input.get(..)\<close> are tests for the end of the list. A slice has at most \<open>2 ^ 63 - 1\<close> bytes, so
  the additions to a cursor cannot overflow, and \<open>usize::try_from\<close> of a \<open>u64\<close> cannot fail.
\<close>

subsection \<open>Frames\<close>

definition MAX_PAYLOAD_BYTES :: usize where "MAX_PAYLOAD_BYTES = 128 * 1024"
definition MAX_ENVELOPE_BODY_BYTES :: usize where
  "MAX_ENVELOPE_BODY_BYTES = MAX_PAYLOAD_BYTES - 16"

datatype Opcode = Text | Binary | Close | Ping | Pong

datatype FrameError =
    Incomplete
  | ReservedBitsSet
  | FragmentationUnsupported
  | UnsupportedOpcode u8
  | ClientFrameNotMasked
  | PayloadLengthNonCanonical
  | PayloadTooLarge u64
  | ControlPayloadTooLarge
  | InvalidTextUtf8
  | InvalidClosePayload
  | InvalidCloseCode u16
  | InvalidCloseReason
  | EncodingOpcodeMismatch

fun opcode_repr :: "Opcode \<Rightarrow> u8" where
  "opcode_repr Text = 0x1"
| "opcode_repr Binary = 0x2"
| "opcode_repr Close = 0x8"
| "opcode_repr Ping = 0x9"
| "opcode_repr Pong = 0xa"

definition opcode_parse :: "u8 \<Rightarrow> FrameError + Opcode" where
  "opcode_parse v =
     (if v = 0x1 then Inr Text
      else if v = 0x2 then Inr Binary
      else if v = 0x8 then Inr Close
      else if v = 0x9 then Inr Ping
      else if v = 0xa then Inr Pong
      else if v = 0x0 then Inl FragmentationUnsupported
      else Inl (UnsupportedOpcode v))"

fun is_control :: "Opcode \<Rightarrow> bool" where
  "is_control Close = True"
| "is_control Ping = True"
| "is_control Pong = True"
| "is_control _ = False"

datatype RealtimeEncoding = Json | Protobuf

fun expected_opcode :: "RealtimeEncoding \<Rightarrow> Opcode" where
  "expected_opcode Json = Text"
| "expected_opcode Protobuf = Binary"

record ClientFrame =
  fr_opcode :: Opcode
  fr_payload :: "u8 list"

record CloseFrame =
  clo_code :: "u16 option"
  clo_reason :: utf8

definition validate_data_frame :: "RealtimeEncoding \<Rightarrow> ClientFrame \<Rightarrow> FrameError + unit" where
  "validate_data_frame enc frame =
     (if fr_opcode frame \<noteq> expected_opcode enc then Inl EncodingOpcodeMismatch else Inr ())"

definition valid_close_code :: "u16 \<Rightarrow> bool" where
  "valid_close_code code \<longleftrightarrow> 1000 \<le> code \<and> code \<le> 1003 \<or> 1007 \<le> code \<and> code \<le> 1014 \<or>
     3000 \<le> code \<and> code \<le> 4999"

definition frame_close :: "ClientFrame \<Rightarrow> FrameError + CloseFrame option" where
  "frame_close frame =
     (if fr_opcode frame \<noteq> Close then Inr None
      else if fr_payload frame = [] then Inr (Some \<lparr>clo_code = None, clo_reason = []\<rparr>)
      else if length (fr_payload frame) = 1 then Inl InvalidClosePayload
      else let code = from_be_bytes (take 2 (fr_payload frame)) in
        if \<not> valid_close_code code then Inl (InvalidCloseCode code)
        else if \<not> valid_utf8 (drop 2 (fr_payload frame)) then Inl InvalidCloseReason
        else Inr (Some \<lparr>clo_code = Some code, clo_reason = drop 2 (fr_payload frame)\<rparr>))"

text \<open>The length field: its value and the number of bytes up to its end.\<close>

definition payload_length :: "u8 list \<Rightarrow> FrameError + u64 \<times> usize" where
  "payload_length input =
     (let indicator = input ! 1 AND 0x7f in
      if indicator \<le> 125 then Inr (ucast indicator, 2)
      else if indicator = 126 then
        (if length input < 4 then Inl Incomplete
         else let value = ucast (from_be_bytes [input ! 2, input ! 3] :: u16) :: u64 in
           if value < 126 then Inl PayloadLengthNonCanonical else Inr (value, 4))
      else
        (if length input < 10 then Inl Incomplete
         else if input ! 2 AND 0x80 \<noteq> 0 then Inl (PayloadTooLarge (- 1))
         else let value = from_be_bytes (take 8 (drop 2 input)) in
           if value \<le> 0xffff then Inl PayloadLengthNonCanonical else Inr (value, 10)))"

definition unmask :: "u8 list \<Rightarrow> u8 list \<Rightarrow> u8 list" where
  "unmask key payload = map (\<lambda>(index, byte). byte XOR key ! (index mod 4)) (enumerate 0 payload)"

definition decode_client_frame :: "u8 list \<Rightarrow> FrameError + ClientFrame \<times> usize" where
  "decode_client_frame input =
     (if length input < 2 then Inl Incomplete
      else let first = input ! 0; second = input ! 1 in
      if first AND 0x70 \<noteq> 0 then Inl ReservedBitsSet
      else if first AND 0x80 = 0 then Inl FragmentationUnsupported
      else tryE (opcode_parse (first AND 0x0f)) (\<lambda>opcode.
      if second AND 0x80 = 0 then Inl ClientFrameNotMasked
      else tryE (payload_length input) (\<lambda>(size, header_length).
      if is_control opcode \<and> 125 < size then Inl ControlPayloadTooLarge
      else if of_nat MAX_PAYLOAD_BYTES < size then Inl (PayloadTooLarge size)
      else let mask_end = header_length + 4; frame_end = mask_end + unat size in
      if length input < frame_end then Inl Incomplete
      else let key = take 4 (drop header_length input);
               payload = unmask key (take (unat size) (drop mask_end input)) in
      if opcode = Text \<and> \<not> valid_utf8 payload then Inl InvalidTextUtf8
      else let frame = \<lparr>fr_opcode = opcode, fr_payload = payload\<rparr> in
      if opcode = Close
      then tryE (frame_close frame) (\<lambda>_. Inr (frame, frame_end))
      else Inr (frame, frame_end))))"

definition encode_server_frame :: "Opcode \<Rightarrow> u8 list \<Rightarrow> FrameError + u8 list" where
  "encode_server_frame opcode payload =
     (if MAX_PAYLOAD_BYTES < length payload
      then Inl (PayloadTooLarge (of_nat (length payload)))
      else if is_control opcode \<and> 125 < length payload then Inl ControlPayloadTooLarge
      else if opcode = Text \<and> \<not> valid_utf8 payload then Inl InvalidTextUtf8
      else Inr ([0x80 OR opcode_repr opcode] @
        (if length payload \<le> 125 then [of_nat (length payload)]
         else if length payload \<le> 65535
         then [126] @ to_be_bytes (of_nat (length payload) :: u16)
         else [127] @ to_be_bytes (of_nat (length payload) :: u64)) @
        payload))"

subsection \<open>Varints\<close>

datatype ProtobufError =
    PbIncomplete
  | InvalidFieldKey
  | InvalidWireType u32 u8
  | UnknownField u32
  | DuplicateField u32
  | NonCanonicalVarint
  | VarintOverflow
  | LengthOverflow
  | PbPayloadTooLarge usize
  | MissingField u32
  | InvalidUtf8 u32
  | InvalidStatus u64

lemma drop_bit_7_less: "0x80 \<le> v \<Longrightarrow> unat (drop_bit 7 v) < unat (v :: u64)"
  by (simp add: drop_bit_eq_div unat_div word_le_nat_alt)

function varint_length :: "u64 \<Rightarrow> usize" where
  "varint_length v = (if 0x80 \<le> v then varint_length (drop_bit 7 v) + 1 else 1)"
  by auto
termination by (relation "measure unat") (simp_all add: drop_bit_7_less)

function write_varint :: "u64 \<Rightarrow> u8 list" where
  "write_varint v =
     (if 0x80 \<le> v then (ucast v AND 0x7f OR 0x80) # write_varint (drop_bit 7 v) else [ucast v])"
  by auto
termination by (relation "measure unat") (simp_all add: drop_bit_7_less)

declare varint_length.simps [simp del] write_varint.simps [simp del]

fun read_varint_from :: "nat \<Rightarrow> u64 \<Rightarrow> u8 list \<Rightarrow> ProtobufError + u64 \<times> u8 list" where
  "read_varint_from index acc input =
     (if 10 \<le> index then Inl VarintOverflow
      else case input of
        [] \<Rightarrow> Inl PbIncomplete
      | byte # rest \<Rightarrow>
          if index = 9 \<and> 1 < byte then Inl VarintOverflow
          else let acc = acc OR push_bit (index * 7) (ucast (byte AND 0x7f)) in
            if byte AND 0x80 = 0
            then if index + 1 \<noteq> varint_length acc then Inl NonCanonicalVarint
                 else Inr (acc, rest)
            else read_varint_from (index + 1) acc rest)"

declare read_varint_from.simps [simp del]

definition read_varint :: "u8 list \<Rightarrow> ProtobufError + u64 \<times> u8 list" where
  "read_varint input = read_varint_from 0 0 input"

subsection \<open>Protobuf envelopes\<close>

record AuthorityCommandEnvelope =
  ac_json_request :: "u8 list"

record AuthorityResponseEnvelope =
  ar_status :: u16
  ar_json_body :: "u8 list"

definition validate_json_bytes :: "u32 \<Rightarrow> u8 list \<Rightarrow> ProtobufError + unit" where
  "validate_json_bytes field v =
     (if v = [] \<or> MAX_ENVELOPE_BODY_BYTES < length v then Inl (PbPayloadTooLarge (length v))
      else if \<not> valid_utf8 v then Inl (InvalidUtf8 field)
      else Inr ())"

definition read_key :: "u8 list \<Rightarrow> ProtobufError + (u32 \<times> u8) \<times> u8 list" where
  "read_key input =
     tryE (read_varint input) (\<lambda>(key, rest).
     if 0xffffffff < drop_bit 3 key then Inl InvalidFieldKey
     else let field = ucast (drop_bit 3 key); wire_type = ucast (key AND 0x07) in
       if field = 0 then Inl InvalidFieldKey else Inr ((field, wire_type), rest))"

definition read_length_delimited :: "u8 list \<Rightarrow> ProtobufError + u8 list \<times> u8 list" where
  "read_length_delimited input =
     tryE (read_varint input) (\<lambda>(len, rest).
     if MAX_ENVELOPE_BODY_BYTES < unat len then Inl (PbPayloadTooLarge (unat len))
     else if length rest < unat len then Inl PbIncomplete
     else Inr (take (unat len) rest, drop (unat len) rest))"

definition encode_authority_command :: "u8 list \<Rightarrow> ProtobufError + u8 list" where
  "encode_authority_command json_request =
     tryE (validate_json_bytes 1 json_request) (\<lambda>_.
     Inr ([0x0a] @ write_varint (of_nat (length json_request)) @ json_request))"

definition encode_authority_response :: "u16 \<Rightarrow> u8 list \<Rightarrow> ProtobufError + u8 list" where
  "encode_authority_response status json_body =
     (if \<not> (100 \<le> status \<and> status \<le> 599) then Inl (InvalidStatus (ucast status))
      else tryE (validate_json_bytes 2 json_body) (\<lambda>_.
      Inr ([0x08] @ write_varint (ucast status) @
           [0x12] @ write_varint (of_nat (length json_body)) @ json_body)))"

text \<open>
  One turn of the \<open>while cursor < input.len()\<close> loop of each decoder, on the fields found so
  far; the loop runs while bytes are left. A turn that does not fail consumes at least its
  key, so the loops terminate.
\<close>

definition command_field ::
    "u8 list option \<Rightarrow> u8 list \<Rightarrow> ProtobufError + u8 list option \<times> u8 list" where
  "command_field json_request input =
     tryE (read_key input) (\<lambda>((field, wire_type), rest).
     if field = 1 \<and> wire_type = 2 then
       (if json_request \<noteq> None then Inl (DuplicateField 1)
        else tryE (read_length_delimited rest) (\<lambda>(v, rest).
             tryE (validate_json_bytes 1 v) (\<lambda>_. Inr (Some v, rest))))
     else if field = 1 then Inl (InvalidWireType 1 wire_type)
     else Inl (UnknownField field))"

definition response_field ::
    "u16 option \<times> u8 list option \<Rightarrow> u8 list \<Rightarrow>
      ProtobufError + (u16 option \<times> u8 list option) \<times> u8 list" where
  "response_field = (\<lambda>(status, json_body) input.
     tryE (read_key input) (\<lambda>((field, wire_type), rest).
     if field = 1 \<and> wire_type = 0 then
       (if status \<noteq> None then Inl (DuplicateField 1)
        else tryE (read_varint rest) (\<lambda>(raw, rest).
             if \<not> (100 \<le> raw \<and> raw \<le> 599) then Inl (InvalidStatus raw)
             else Inr ((Some (ucast raw), json_body), rest)))
     else if field = 1 then Inl (InvalidWireType 1 wire_type)
     else if field = 2 \<and> wire_type = 2 then
       (if json_body \<noteq> None then Inl (DuplicateField 2)
        else tryE (read_length_delimited rest) (\<lambda>(v, rest).
             tryE (validate_json_bytes 2 v) (\<lambda>_. Inr ((status, Some v), rest))))
     else if field = 2 then Inl (InvalidWireType 2 wire_type)
     else Inl (UnknownField field)))"

lemma read_varint_from_shorter:
  "read_varint_from i acc input = Inr (v, rest) \<Longrightarrow> length rest < length input"
proof (induction i acc input rule: read_varint_from.induct)
  case (1 i acc input)
  then show ?case
    by (subst (asm) (2) read_varint_from.simps)
      (fastforce simp: Let_def split: if_splits list.splits)
qed

lemma read_key_shorter: "read_key input = Inr (k, rest) \<Longrightarrow> length rest < length input"
  by (auto simp: read_key_def read_varint_def Let_def split: if_splits
    dest!: read_varint_from_shorter)

lemma read_length_delimited_shorter:
  "read_length_delimited input = Inr (v, rest) \<Longrightarrow> length rest < length input"
  by (auto simp: read_length_delimited_def read_varint_def split: if_splits
    dest!: read_varint_from_shorter)

lemma command_field_shorter:
  "command_field found input = Inr (found', rest) \<Longrightarrow> length rest < length input"
  by (fastforce simp: command_field_def split: if_splits
    dest!: read_key_shorter read_length_delimited_shorter)

lemma response_field_shorter:
  "response_field found input = Inr (found', rest) \<Longrightarrow> length rest < length input"
  by (cases found) (fastforce simp: response_field_def read_varint_def split: if_splits
    dest!: read_key_shorter read_length_delimited_shorter read_varint_from_shorter)

function command_fields :: "u8 list option \<Rightarrow> u8 list \<Rightarrow> ProtobufError + u8 list option" where
  "command_fields found input =
     (if input = [] then Inr found
      else tryE (command_field found input) (\<lambda>(found, rest). command_fields found rest))"
  by auto
termination by (relation "measure (\<lambda>(found, input). length input)")
  (auto dest: command_field_shorter)

function response_fields ::
    "u16 option \<times> u8 list option \<Rightarrow> u8 list \<Rightarrow> ProtobufError + u16 option \<times> u8 list option" where
  "response_fields found input =
     (if input = [] then Inr found
      else tryE (response_field found input) (\<lambda>(found, rest). response_fields found rest))"
  by auto
termination by (relation "measure (\<lambda>(found, input). length input)")
  (auto dest: response_field_shorter)

declare command_fields.simps [simp del] response_fields.simps [simp del]

definition decode_authority_command :: "u8 list \<Rightarrow> ProtobufError + AuthorityCommandEnvelope" where
  "decode_authority_command input =
     tryE (command_fields None input) (\<lambda>json_request.
     tryE (ok_or (MissingField 1) json_request) (\<lambda>json_request.
     Inr \<lparr>ac_json_request = json_request\<rparr>))"

definition decode_authority_response :: "u8 list \<Rightarrow> ProtobufError + AuthorityResponseEnvelope" where
  "decode_authority_response input =
     tryE (response_fields (None, None) input) (\<lambda>(status, json_body).
     tryE (ok_or (MissingField 1) status) (\<lambda>status.
     tryE (ok_or (MissingField 2) json_body) (\<lambda>json_body.
     Inr \<lparr>ar_status = status, ar_json_body = json_body\<rparr>)))"

end
