(* ===== verification/Wire_Proofs.thy ===== *)
theory Wire_Proofs
  imports Wire
begin

text \<open>
  Correctness of the wire format: varints are read back by the reader, which accepts no
  other form of a number; the decoders of envelopes and client frames accept exactly what
  the encoders write.
\<close>

subsection \<open>Varints\<close>

lemma ge_0x80_iff: "0x80 \<le> v \<longleftrightarrow> drop_bit 7 v \<noteq> 0" for v :: u64
proof -
  have "drop_bit 7 v = 0 \<longleftrightarrow> unat v div 128 = 0"
    by (simp add: drop_bit_eq_div unat_eq_0 [symmetric] unat_div)
  then show ?thesis by (auto simp: word_le_nat_alt)
qed

lemma varint_length_gt: "k < varint_length v \<longleftrightarrow> k = 0 \<or> drop_bit (k * 7) v \<noteq> 0"
proof (induction k arbitrary: v)
  case (Suc k)
  define w where "w = drop_bit (k * 7) (drop_bit 7 v)"
  have "drop_bit (Suc k * 7) v = w" by (simp add: w_def add.commute)
  moreover have "drop_bit 7 v = 0 \<Longrightarrow> w = 0" and "k = 0 \<Longrightarrow> w = drop_bit 7 v" by (simp_all add: w_def)
  moreover have "Suc k < varint_length v \<longleftrightarrow> 0x80 \<le> v \<and> k < varint_length (drop_bit 7 v)"
    by (simp add: varint_length.simps [of v])
  moreover have "k < varint_length (drop_bit 7 v) \<longleftrightarrow> k = 0 \<or> w \<noteq> 0"
    using Suc [of "drop_bit 7 v"] by (simp only: w_def)
  ultimately show ?case using ge_0x80_iff [of v] by auto
qed (subst varint_length.simps, simp)

lemma mask_lits7: "(0x7f :: 'a::len word) = mask 7"
  by (simp add: mask_eq_exp_minus_1)

lemma bit_0x80: "bit (0x80 :: u8) n \<longleftrightarrow> n = 7" "bit (0x80 :: int) n \<longleftrightarrow> n = 7"
proof -
  have "(0x80 :: u8) = push_bit 7 1" "(0x80 :: int) = push_bit 7 1" by simp_all
  then show "bit (0x80 :: u8) n \<longleftrightarrow> n = 7" "bit (0x80 :: int) n \<longleftrightarrow> n = 7"
    by (simp_all only: bit_simps) auto
qed

lemma and_0x80: "b AND 0x80 = 0 \<longleftrightarrow> \<not> bit b 7" for b :: u8
proof
  assume "b AND 0x80 = 0"
  then have "\<not> bit (b AND 0x80) 7" by simp
  then show "\<not> bit b 7" by (simp only: bit_and_iff bit_0x80) simp
next
  assume "\<not> bit b 7"
  then show "b AND 0x80 = 0" by (auto intro!: bit_word_eqI simp only: bit_and_iff bit_0x80 bit_0_eq)
qed

lemma acc_step:
  "take_bit (i * 7) v OR push_bit (i * 7) (ucast (ucast (drop_bit (i * 7) v) AND 0x7f :: u8)) =
     take_bit (Suc i * 7) (v :: u64)"
  by (rule bit_word_eqI) (auto simp: bit_simps mask_lits7)


lemma drop_63: "drop_bit 63 v \<le> 1" "drop_bit 63 v < 0x80" for v :: u64
proof -
  have "unat (drop_bit 63 v) \<le> 1"
    using unat_u64_less [of v] by (simp add: drop_bit_eq_div unat_div less_mult_imp_div_less)
  then show "drop_bit 63 v \<le> 1" "drop_bit 63 v < 0x80"
    by (simp_all add: word_le_nat_alt word_less_nat_alt)
qed

lemma small_byte:
  fixes w :: u64 assumes "w < 0x80"
  shows "\<not> bit (ucast w :: u8) 7" "ucast (ucast w AND 0x7f :: u8) = w" "w \<le> 1 \<Longrightarrow> \<not> 1 < (ucast w :: u8)"
proof -
  have "drop_bit 7 w = 0" using assms ge_0x80_iff [of w] by auto
  then have high: "\<not> bit w n" if "7 \<le> n" for n
  proof -
    have "bit w n = bit (drop_bit 7 w) (n - 7)" using that by (simp add: bit_drop_bit_eq)
    with \<open>drop_bit 7 w = 0\<close> show ?thesis by simp
  qed
  then show "\<not> bit (ucast w :: u8) 7" by (simp add: bit_simps)
  show "ucast (ucast w AND 0x7f :: u8) = w"
  proof (rule bit_word_eqI)
    fix n show "bit (ucast (ucast w AND 0x7f :: u8) :: u64) n = bit w n" if "n < LENGTH(64)"
      using that high [of n] by (cases "n < 7") (auto simp: bit_simps mask_lits7)
  qed
  assume "w \<le> 1"
  then have "unat w \<le> 1" by (simp add: word_le_nat_alt)
  then show "\<not> 1 < (ucast w :: u8)" 
    by (simp add: word_less_nat_alt unsigned_ucast_eq take_bit_eq_mod)
qed

lemma read_write_from:
  assumes "i \<le> 9" and "i = 0 \<or> drop_bit (i * 7) v \<noteq> 0"
  shows "read_varint_from i (take_bit (i * 7) v) (write_varint (drop_bit (i * 7) v) @ rest) =
    Inr (v, rest)"
  using assms
proof (induction "9 - i" arbitrary: i)
  case 0
  then have i: "i = 9" by simp
  let ?w = "drop_bit 63 v"
  have small: "?w < 0x80" "?w \<le> 1" by (rule drop_63)+
  have "varint_length v = 10"
    using 0 i varint_length_gt [of 9 v] varint_length_gt [of 10 v] drop_63(2) by simp
  moreover have "take_bit 63 v OR push_bit 63 (ucast (ucast ?w AND 0x7f :: u8)) = v"
    using acc_step [of 9 v] take_bit_word_beyond_length_eq [of 70 v] by simp
  ultimately show ?case
    using small small_byte [OF small(1)]
    by (simp add: i read_varint_from.simps write_varint.simps [of ?w] and_0x80 not_le)
next
  case (Suc k)
  let ?w = "drop_bit (i * 7) v"
  show ?case
  proof (cases "0x80 \<le> ?w")
    case True
    then have "drop_bit (Suc i * 7) v \<noteq> 0" by (simp add: ge_0x80_iff add.commute)
    with Suc have IH: "read_varint_from (Suc i) (take_bit (Suc i * 7) v)
        (write_varint (drop_bit (Suc i * 7) v) @ rest) = Inr (v, rest)"
      by (intro Suc.hyps(1)) auto
    have "write_varint ?w = (ucast ?w AND 0x7f OR 0x80) # write_varint (drop_bit (Suc i * 7) v)"
      using True by (simp add: write_varint.simps [of ?w] add.commute)
    moreover have "bit (ucast ?w AND 0x7f OR 0x80 :: u8) 7"
      by (simp only: bit_or_iff bit_0x80) simp
    moreover have "(ucast ?w AND 0x7f OR 0x80) AND 0x7f = (ucast ?w AND 0x7f :: u8)"
      by (rule bit_word_eqI) (auto simp: bit_simps mask_lits7 bit_0x80)
    moreover have "\<not> 10 \<le> i" "i \<noteq> 9" using Suc.hyps(2) by simp_all
    ultimately show ?thesis
      using IH acc_step [of i v]
      by (simp add: read_varint_from.simps [of i] and_0x80 Let_def)
  next
    case False
    then have small: "?w < 0x80" by simp
    have "drop_bit (Suc i * 7) v = 0" using False by (simp add: ge_0x80_iff add.commute)
    then have "varint_length v = Suc i"
      using Suc.prems varint_length_gt [of i v] varint_length_gt [of "Suc i" v] by auto
    moreover have "take_bit (i * 7) v OR push_bit (i * 7) (ucast (ucast ?w AND 0x7f :: u8)) = v"
      unfolding small_byte(2) [OF small]
    proof (rule bit_word_eqI)
      fix n show "bit (take_bit (i * 7) v OR push_bit (i * 7) ?w) n = bit v n" if "n < LENGTH(64)"
        using that by (cases "n < i * 7") (auto simp: bit_simps)
    qed
    ultimately show ?thesis
      using Suc.hyps(2) False small_byte(1) [OF small]
      by (simp add: read_varint_from.simps [of i] write_varint.simps [of ?w] and_0x80 Let_def)
  qed
qed

lemma read_write_varint: "read_varint (write_varint v @ rest) = Inr (v, rest)"
  using read_write_from [of 0 v rest] by (simp add: read_varint_def)

lemma u8_le_1: "\<not> 1 < b \<Longrightarrow> bit b n \<Longrightarrow> n = 0" for b :: u8
proof -
  assume "\<not> 1 < b" "bit b n"
  then have "unat b \<le> 1" "bit (unat b) n" by (simp_all add: word_less_nat_alt bit_unsigned_iff)
  then have "unat b = 1" by (cases "unat b") auto
  with \<open>bit (unat b) n\<close> show "n = 0" by (simp add: bit_Suc_0_iff)
qed

lemma write_read_from:
  "read_varint_from i acc input = Inr (v, rest) \<Longrightarrow> take_bit (i * 7) acc = acc \<Longrightarrow>
     take_bit (i * 7) v = acc \<and> i < varint_length v \<and>
     input = write_varint (drop_bit (i * 7) v) @ rest"
proof (induction i acc input rule: read_varint_from.induct)
  case (1 i acc input)
  obtain byte tl where input: "input = byte # tl" and i: "i < 10" "i = 9 \<longrightarrow> \<not> 1 < byte"
    using 1(2) by (auto simp: read_varint_from.simps [of i] split: if_splits list.splits)
  define acc' where "acc' = acc OR push_bit (i * 7) (ucast (byte AND 0x7f))"
  have acc: "\<not> bit acc n" if "i * 7 \<le> n" for n
    using that 1(3) by (metis bit_take_bit_iff not_less)
  have low: "take_bit (i * 7) acc' = acc"
    using acc by (intro bit_word_eqI) (auto simp: acc'_def bit_simps not_less)
  have mid: "bit acc' (i * 7 + n) \<longleftrightarrow> bit byte n \<and> i * 7 + n < 64" if "n < 7" for n
    using that acc [of "i * 7 + n"] by (auto simp: acc'_def bit_simps mask_lits7)
  have inside: "take_bit (Suc i * 7) acc' = acc'"
    using acc by (intro bit_word_eqI) (auto simp: acc'_def bit_simps mask_lits7 not_less)
  note step = 1(2) [unfolded input read_varint_from.simps [of i], simplified, folded acc'_def]
  show ?case
  proof (cases "bit byte 7")
    case True
    with step i have rec: "read_varint_from (Suc i) acc' tl = Inr (v, rest)"
      by (auto simp: and_0x80 acc'_def split: if_splits)
    have IH: "take_bit (Suc i * 7) v = acc'" "Suc i < varint_length v"
        "tl = write_varint (drop_bit (Suc i * 7) v) @ rest"
      using 1(1) [OF _ input _ acc'_def] i True rec inside by (auto simp: and_0x80)
    let ?w = "drop_bit (i * 7) v"
    have "drop_bit (Suc i * 7) v \<noteq> 0" using IH(2) varint_length_gt [of "Suc i" v] by simp
    then have "0x80 \<le> ?w" by (simp add: ge_0x80_iff add.commute)
    then have "write_varint ?w = (ucast ?w AND 0x7f OR 0x80) # write_varint (drop_bit (Suc i * 7) v)"
      by (simp add: write_varint.simps [of ?w] add.commute)
    moreover have "ucast ?w AND 0x7f OR 0x80 = byte"
    proof (rule bit_word_eqI)
      fix n assume n: "n < LENGTH(8)"
      show "bit (ucast ?w AND 0x7f OR 0x80 :: u8) n = bit byte n"
      proof (cases "n < 7")
        case True
        have "bit v (i * 7 + n) = bit (take_bit (Suc i * 7) v) (i * 7 + n)"
          using True by (simp add: bit_take_bit_iff)
        then have "bit v (i * 7 + n) = (bit byte n \<and> i * 7 + n < 64)"
          using mid [OF True] IH(1) by simp
        moreover have "i * 7 + n < 64" using i \<open>bit byte 7\<close> True u8_le_1 [of byte] by force
        ultimately show ?thesis using True by (simp add: bit_simps mask_lits7 bit_0x80 add.commute)
      next
        case False
        with n have "n = 7" by simp
        with \<open>bit byte 7\<close> show ?thesis by (simp only: bit_or_iff bit_0x80) simp
      qed
    qed
    moreover have "take_bit (i * 7) v = acc"
    proof -
      have "take_bit (i * 7) v = take_bit (i * 7) (take_bit (Suc i * 7) v)"
        by (simp add: take_bit_take_bit min_def)
      then show ?thesis by (simp only: IH(1) low)
    qed
    ultimately show ?thesis using IH input by simp
  next
    case False
    with step i have v: "v = acc'" "rest = tl" "varint_length v = Suc i"
      by (auto simp: and_0x80 acc'_def Let_def split: if_splits)
    have high: "\<not> bit byte n" if "7 \<le> n" for n
      using that False bit_imp_le_length [of byte n] by (cases "n = 7") auto
    have "drop_bit (i * 7) v = ucast byte"
    proof (rule bit_word_eqI)
      fix n assume n: "n < LENGTH(64)"
      show "bit (drop_bit (i * 7) v) n = bit (ucast byte :: u64) n"
      proof (cases "n < 7")
        case True
        have "bit byte n \<Longrightarrow> i * 7 + n < 64" using i True u8_le_1 [of byte] by (cases "i = 9") auto
        with mid [OF True] n show ?thesis by (auto simp: v(1) bit_simps add.commute)
      next
        case False
        then have "\<not> bit acc' (i * 7 + n)"
          using acc [of "i * 7 + n"] by (auto simp: acc'_def bit_simps mask_lits7)
        with False high [of n] n show ?thesis by (simp add: v(1) bit_simps add.commute)
      qed
    qed
    moreover have "(ucast byte :: u64) < 0x80"
    proof -
      have "drop_bit 7 (ucast byte :: u64) = 0"
        using high by (intro bit_word_eqI) (simp add: bit_simps)
      then show ?thesis using ge_0x80_iff [of "ucast byte"] by auto
    qed
    moreover have "ucast (ucast byte :: u64) = byte" by (rule bit_word_eqI) (simp add: bit_simps)
    ultimately have "write_varint (drop_bit (i * 7) v) = [byte]"
      by (simp add: write_varint.simps [of "ucast byte"] not_le [symmetric])
    with v low input show ?thesis by simp
  qed
qed

lemma read_varint_iff: "read_varint input = Inr (v, rest) \<longleftrightarrow> input = write_varint v @ rest"
  using write_read_from [of 0 0 input v rest] read_write_varint
  by (auto simp: read_varint_def)

subsection \<open>Envelopes\<close>

definition field_key :: "u32 \<Rightarrow> u8 \<Rightarrow> u64" where
  "field_key field wire_type = push_bit 3 (ucast field) OR ucast wire_type"

lemma bit_less_exp:
  assumes "unat d < 2 ^ k" "k \<le> m" shows "\<not> bit (d :: 'a::len word) m"
proof -
  have "unat d < 2 ^ m" using assms by (meson less_le_trans one_le_numeral power_increasing)
  then have "\<not> bit (unat d) m" by (simp add: bit_iff_odd)
  then show ?thesis by (simp add: bit_unsigned_iff)
qed

lemma field_key_split:
  assumes "drop_bit 3 key \<le> 0xffffffff"
  shows "field_key (ucast (drop_bit 3 key)) (ucast (key AND 0x07)) = key"
proof (rule bit_word_eqI)
  have "unat (drop_bit 3 key) < 2 ^ 32" using assms by (simp add: word_le_nat_alt)
  then have high: "\<not> bit key (3 + m)" if "32 \<le> m" for m
    using bit_less_exp [OF _ that] by (fastforce simp: bit_drop_bit_eq)
  have seven: "(0x07 :: u64) = mask 3" by (simp add: mask_eq_exp_minus_1)
  fix n assume n: "n < LENGTH(64)"
  show "bit (field_key (ucast (drop_bit 3 key)) (ucast (key AND 0x07))) n = bit key n"
    using n high [of "n - 3"] unfolding field_key_def seven
    by (cases "n < 3"; cases "n < 35") (auto simp: bit_simps)
qed

lemma split_field_key:
  assumes "wire < 8"
  shows "ucast (drop_bit 3 (field_key field wire)) = field"
    "drop_bit 3 (field_key field wire) \<le> 0xffffffff"
    "ucast (field_key field wire AND 0x07) = wire"
proof -
  have seven: "(0x07 :: u64) = mask 3" by (simp add: mask_eq_exp_minus_1)
  have low: "\<not> bit wire m" if "3 \<le> m" for m
    using assms that by (intro bit_less_exp [where k = 3]) (simp_all add: word_less_nat_alt)
  have drop: "drop_bit 3 (field_key field wire) = ucast field"
    using low by (intro bit_word_eqI) (fastforce simp: field_key_def bit_simps dest: bit_imp_le_length)
  have "unat (ucast field :: u64) \<le> 4294967295"
    using unsigned_less [of field, where ?'a = nat]
    by (simp add: unsigned_ucast_eq take_bit_eq_mod)
  then show "drop_bit 3 (field_key field wire) \<le> 0xffffffff"
    by (simp add: drop word_le_nat_alt)
  show "ucast (drop_bit 3 (field_key field wire)) = field"
    unfolding drop by (rule bit_word_eqI) (simp add: bit_simps)
  show "ucast (field_key field wire AND 0x07) = wire"
  proof (rule bit_word_eqI)
    fix n show "bit (ucast (field_key field wire AND 0x07) :: u8) n = bit wire n" if "n < LENGTH(8)"
      unfolding seven using that low [of n] by (cases "n < 3") (auto simp: field_key_def bit_simps)
  qed
qed

lemma wire_type_less: "ucast (key AND 0x07 :: u64) < (8 :: u8)"
proof -
  have seven: "(0x07 :: u64) = mask 3" by (simp add: mask_eq_exp_minus_1)
  have "ucast (key AND 0x07) = take_bit 3 (ucast (key AND 0x07) :: u8)"
    unfolding seven by (rule bit_word_eqI) (auto simp: bit_simps)
  then have "unat (ucast (key AND 0x07) :: u8) = take_bit 3 (unat (ucast (key AND 0x07) :: u8))"
    by (metis unsigned_take_bit_eq)
  also have "\<dots> < 2 ^ 3" by (rule take_bit_nat_less_exp)
  finally show ?thesis by (simp add: word_less_nat_alt)
qed

lemma read_key_iff:
  "read_key input = Inr ((field, wire), rest) \<longleftrightarrow>
     field \<noteq> 0 \<and> wire < 8 \<and> input = write_varint (field_key field wire) @ rest"
proof
  assume "read_key input = Inr ((field, wire), rest)"
  then obtain key where key: "input = write_varint key @ rest" "drop_bit 3 key \<le> 0xffffffff"
      "field = ucast (drop_bit 3 key)" "wire = ucast (key AND 0x07)" "field \<noteq> 0"
    by (auto simp: read_key_def read_varint_iff Let_def not_less split: if_splits)
  then show "field \<noteq> 0 \<and> wire < 8 \<and> input = write_varint (field_key field wire) @ rest"
    by (simp only: wire_type_less field_key_split simp_thms)
next
  assume *: "field \<noteq> 0 \<and> wire < 8 \<and> input = write_varint (field_key field wire) @ rest"
  then have "read_varint input = Inr (field_key field wire, rest)" by (simp add: read_varint_iff)
  with * split_field_key [of wire field] show "read_key input = Inr ((field, wire), rest)"
    by (simp add: read_key_def Let_def not_less)
qed

lemma field_keys:
  "write_varint (field_key 1 2) = [0x0a]" "write_varint (field_key 1 0) = [0x08]"
  "write_varint (field_key 2 2) = [0x12]"
  by (simp_all add: field_key_def write_varint.simps [of 10] write_varint.simps [of 8]
    write_varint.simps [of 18])

lemma read_length_delimited_iff:
  "read_length_delimited input = Inr (v, rest) \<longleftrightarrow>
     length v \<le> MAX_ENVELOPE_BODY_BYTES \<and> input = write_varint (of_nat (length v)) @ v @ rest"
proof
  assume "read_length_delimited input = Inr (v, rest)"
  then obtain len tl where len: "input = write_varint len @ tl" "unat len \<le> MAX_ENVELOPE_BODY_BYTES"
      "unat len \<le> length tl" "v = take (unat len) tl" "rest = drop (unat len) tl"
    by (auto simp: read_length_delimited_def read_varint_iff not_less split: if_splits)
  then have "length v = unat len" by simp
  with len show "length v \<le> MAX_ENVELOPE_BODY_BYTES \<and>
      input = write_varint (of_nat (length v)) @ v @ rest" by simp
next
  assume *: "length v \<le> MAX_ENVELOPE_BODY_BYTES \<and>
      input = write_varint (of_nat (length v)) @ v @ rest"
  then have "unat (of_nat (length v) :: u64) = length v"
    by (intro unat_of_nat_eq) (simp add: MAX_ENVELOPE_BODY_BYTES_def MAX_PAYLOAD_BYTES_def)
  with * show "read_length_delimited input = Inr (v, rest)"
    by (simp add: read_length_delimited_def read_write_varint)
qed

lemma json_max: "validate_json_bytes f v = Inr () \<Longrightarrow> length v \<le> MAX_ENVELOPE_BODY_BYTES"
  by (auto simp: validate_json_bytes_def split: if_splits)

definition bytes_field :: "u8 \<Rightarrow> u8 list \<Rightarrow> u8 list" where
  "bytes_field key v = key # write_varint (of_nat (length v)) @ v"

lemma read_bytes_iff:
  "(\<exists>tl. rest = tl \<and> read_length_delimited tl = Inr (v, rest') \<and> validate_json_bytes f v = Inr ()) \<longleftrightarrow>
     validate_json_bytes f v = Inr () \<and> rest = write_varint (of_nat (length v)) @ v @ rest'"
  using json_max [of f v] by (auto simp: read_length_delimited_iff)

lemma command_field_iff:
  "command_field found input = Inr (found', rest) \<longleftrightarrow>
     (\<exists>v. found = None \<and> found' = Some v \<and> validate_json_bytes 1 v = Inr () \<and>
          input = bytes_field 0x0a v @ rest)"
proof -
  have "command_field found input = Inr (found', rest) \<longleftrightarrow>
      (\<exists>tl v. read_key input = Inr ((1, 2), tl) \<and> found = None \<and> found' = Some v \<and>
         read_length_delimited tl = Inr (v, rest) \<and> validate_json_bytes 1 v = Inr ())"
    by (auto simp: command_field_def split: if_splits)
  then show ?thesis
    using json_max [of 1] by (auto simp: read_key_iff field_keys read_length_delimited_iff bytes_field_def)
qed

lemma response_field_iff:
  "response_field (status, body) input = Inr (found, rest) \<longleftrightarrow>
     (\<exists>raw. status = None \<and> found = (Some (ucast raw), body) \<and> 100 \<le> raw \<and> raw \<le> 599 \<and>
        input = [0x08] @ write_varint raw @ rest) \<or>
     (\<exists>v. body = None \<and> found = (status, Some v) \<and> validate_json_bytes 2 v = Inr () \<and>
        input = bytes_field 0x12 v @ rest)"
proof -
  have "response_field (status, body) input = Inr (found, rest) \<longleftrightarrow>
      (\<exists>tl raw. read_key input = Inr ((1, 0), tl) \<and> status = None \<and>
         found = (Some (ucast raw), body) \<and> read_varint tl = Inr (raw, rest) \<and>
         100 \<le> raw \<and> raw \<le> 599) \<or>
      (\<exists>tl v. read_key input = Inr ((2, 2), tl) \<and> body = None \<and> found = (status, Some v) \<and>
         read_length_delimited tl = Inr (v, rest) \<and> validate_json_bytes 2 v = Inr ())"
    by (cases "read_key input") (auto simp: response_field_def split: if_splits)
  then show ?thesis
    using json_max [of 2]
    by (auto simp: read_key_iff read_varint_iff field_keys read_length_delimited_iff bytes_field_def)
qed

lemma bytes_field_not_Nil [simp]: "bytes_field k v \<noteq> []" "[] \<noteq> bytes_field k v"
  by (simp_all add: bytes_field_def)

text \<open>What the field readers do on the encoded fields.\<close>

lemma command_field_step:
  "validate_json_bytes 1 v = Inr () \<Longrightarrow>
     command_field None (bytes_field 0x0a v @ rest) = Inr (Some v, rest)"
  by (simp add: command_field_iff)

lemma status_field_step:
  "100 \<le> raw \<Longrightarrow> raw \<le> 599 \<Longrightarrow>
     response_field (None, body) (0x08 # write_varint raw @ rest) = Inr ((Some (ucast raw), body), rest)"
  by (auto simp: response_field_iff)

lemma body_field_step:
  "validate_json_bytes 2 v = Inr () \<Longrightarrow>
     response_field (status, None) (bytes_field 0x12 v @ rest) = Inr ((status, Some v), rest)"
  by (auto simp: response_field_iff)

lemmas field_steps = command_field_step status_field_step body_field_step
lemmas field_steps_last = field_steps [where rest = "[]", simplified]

lemma command_fields_Some: "command_fields (Some v) input = Inr found \<longleftrightarrow> input = [] \<and> found = Some v"
  by (subst command_fields.simps) (auto simp: command_field_iff)

lemma command_fields_None:
  "command_fields None input = Inr (Some v) \<longleftrightarrow>
     validate_json_bytes 1 v = Inr () \<and> input = bytes_field 0x0a v" (is "?l \<longleftrightarrow> ?r")
proof
  assume ?l then show ?r
    by (subst (asm) command_fields.simps)
      (auto simp: command_field_iff command_fields_Some split: if_splits)
next
  assume ?r then show ?l
    by (subst command_fields.simps) (auto simp: field_steps_last command_fields_Some)
qed

lemma response_fields_full:
  "response_fields (Some s, Some v) input = Inr found \<longleftrightarrow> input = [] \<and> found = (Some s, Some v)"
  by (subst response_fields.simps) (auto simp: response_field_iff)

lemma response_fields_status:
  "response_fields (Some s, None) input = Inr (Some t, Some v) \<longleftrightarrow>
     t = s \<and> validate_json_bytes 2 v = Inr () \<and> input = bytes_field 0x12 v" (is "?l \<longleftrightarrow> ?r")
proof
  assume ?l then show ?r
    by (subst (asm) response_fields.simps)
      (auto simp: response_field_iff response_fields_full split: if_splits)
next
  assume ?r then show ?l
    by (subst response_fields.simps) (auto simp: field_steps_last response_fields_full)
qed

lemma response_fields_body:
  "response_fields (None, Some w) input = Inr (Some t, Some v) \<longleftrightarrow>
     v = w \<and> (\<exists>raw. t = ucast raw \<and> 100 \<le> raw \<and> raw \<le> 599 \<and> input = [0x08] @ write_varint raw)"
  (is "?l \<longleftrightarrow> ?r")
proof
  assume ?l then show ?r
    by (subst (asm) response_fields.simps)
      (auto simp: response_field_iff response_fields_full split: if_splits)
next
  assume ?r then show ?l
    by (subst response_fields.simps) (auto simp: field_steps_last response_fields_full)
qed

lemma response_fields_None:
  "response_fields (None, None) input = Inr (Some t, Some v) \<longleftrightarrow>
     validate_json_bytes 2 v = Inr () \<and>
     (\<exists>raw. t = ucast raw \<and> 100 \<le> raw \<and> raw \<le> 599 \<and>
        (input = [0x08] @ write_varint raw @ bytes_field 0x12 v \<or>
         input = bytes_field 0x12 v @ [0x08] @ write_varint raw))" (is "?l \<longleftrightarrow> ?r")
proof
  assume ?l
  then have "input \<noteq> []" by (subst (asm) response_fields.simps) (auto split: if_splits)
  with \<open>?l\<close> obtain found rest where f: "response_field (None, None) input = Inr (found, rest)"
      "response_fields found rest = Inr (Some t, Some v)"
    by (subst (asm) response_fields.simps) (auto split: if_splits)
  then show ?r
    by (auto simp: response_field_iff response_fields_status response_fields_body)
next
  assume ?r then show ?l
    by (subst response_fields.simps)
      (auto simp: field_steps response_fields_status response_fields_body)
qed

lemma status_word:
  "(\<exists>raw :: u64. t = ucast raw \<and> 100 \<le> raw \<and> raw \<le> 599 \<and> P raw) \<longleftrightarrow>
     100 \<le> (t :: u16) \<and> t \<le> 599 \<and> P (ucast t)"
proof
  assume "\<exists>raw :: u64. t = ucast raw \<and> 100 \<le> raw \<and> raw \<le> 599 \<and> P raw"
  then obtain raw :: u64 where raw: "t = ucast raw" "100 \<le> raw" "raw \<le> 599" "P raw" by blast
  have "unat t = unat raw"
    using raw(3) by (simp add: raw(1) unsigned_ucast_eq take_bit_eq_mod word_le_nat_alt)
  then have "ucast t = raw" "100 \<le> t" "t \<le> 599"
    using raw(2,3) by (simp_all add: word_unat_eq_iff word_le_nat_alt unsigned_ucast_eq take_bit_eq_mod)
  with raw(4) show "100 \<le> t \<and> t \<le> 599 \<and> P (ucast t)" by simp
next
  assume *: "100 \<le> t \<and> t \<le> 599 \<and> P (ucast t)"
  then have "100 \<le> (ucast t :: u64)" "(ucast t :: u64) \<le> 599"
    by (simp_all add: word_le_nat_alt unsigned_ucast_eq take_bit_eq_mod)
  moreover have "t = ucast (ucast t :: u64)" by (rule bit_word_eqI) (simp add: bit_simps)
  ultimately show "\<exists>raw :: u64. t = ucast raw \<and> 100 \<le> raw \<and> raw \<le> 599 \<and> P raw"
    using * by blast
qed

text \<open>
  C20: The envelopes round-trip, and their decoders accept nothing else: a command decodes to a
  request exactly when its bytes are the encoding of the request, a response decodes to a
  status and a body exactly when its bytes are the encoding's two fields, in either order.
\<close>

theorem envelopes_roundtrip:
  "(decode_authority_command input = Inr \<lparr>ac_json_request = request\<rparr> \<longleftrightarrow>
     encode_authority_command request = Inr input) \<and>
   (decode_authority_response input = Inr \<lparr>ar_status = status, ar_json_body = body\<rparr> \<longleftrightarrow>
     (\<exists>s b. encode_authority_response status body = Inr (s @ b) \<and>
        s = [0x08] @ write_varint (ucast status) \<and> (input = s @ b \<or> input = b @ s)))"
proof (intro conjI)
  show "decode_authority_command input = Inr \<lparr>ac_json_request = request\<rparr> \<longleftrightarrow>
      encode_authority_command request = Inr input"
    by (auto simp: decode_authority_command_def encode_authority_command_def command_fields_None
      bytes_field_def)
  have "decode_authority_response input = Inr \<lparr>ar_status = status, ar_json_body = body\<rparr> \<longleftrightarrow>
      response_fields (None, None) input = Inr (Some status, Some body)"
    by (auto simp: decode_authority_response_def)
  also have "\<dots> \<longleftrightarrow> 100 \<le> status \<and> status \<le> 599 \<and> validate_json_bytes 2 body = Inr () \<and>
      (input = [0x08] @ write_varint (ucast status) @ bytes_field 0x12 body \<or>
       input = bytes_field 0x12 body @ [0x08] @ write_varint (ucast status))"
    unfolding response_fields_None status_word by blast
  also have "\<dots> \<longleftrightarrow> (\<exists>s b. encode_authority_response status body = Inr (s @ b) \<and>
        s = [0x08] @ write_varint (ucast status) \<and> (input = s @ b \<or> input = b @ s))"
    by (auto simp: encode_authority_response_def bytes_field_def)
  finally show "decode_authority_response input = Inr \<lparr>ar_status = status, ar_json_body = body\<rparr> \<longleftrightarrow>
      (\<exists>s b. encode_authority_response status body = Inr (s @ b) \<and>
        s = [0x08] @ write_varint (ucast status) \<and> (input = s @ b \<or> input = b @ s))" .
qed

subsection \<open>Frames\<close>

lemma unmask_unmask: "unmask key (unmask key payload) = payload"
  by (rule nth_equalityI) (simp_all add: unmask_def nth_enumerate_eq xor.assoc)

lemma length_unmask [simp]: "length (unmask key payload) = length payload"
  by (simp add: unmask_def)

definition first_ok :: "u8 \<Rightarrow> Opcode \<Rightarrow> bool" where
  "first_ok first opcode \<longleftrightarrow> first AND 0x70 = 0 \<and> first AND 0x80 \<noteq> 0 \<and>
     opcode_parse (first AND 0x0f) = Inr opcode"

lemma opcode_parse_iff: "opcode_parse v = Inr opcode \<longleftrightarrow> v = opcode_repr opcode"
  by (cases opcode) (auto simp: opcode_parse_def)

lemma first_byte_split:
  assumes "b AND 0x70 = 0" "b AND 0x80 \<noteq> 0" shows "0x80 OR (b AND 0x0f) = (b :: u8)"
proof -
  have "\<not> bit (b AND 0x70) 4" "\<not> bit (b AND 0x70) 5" "\<not> bit (b AND 0x70) 6"
    by (simp_all add: assms(1))
  then have "\<not> bit b 4" "\<not> bit b 5" "\<not> bit b 6" by (simp_all add: bit_and_iff)
  moreover have "(0x0f :: u8) = mask 4" by (simp add: mask_eq_exp_minus_1)
  ultimately show ?thesis
    using assms(2) by (intro u8_eqI) (simp_all add: and_0x80 bit_simps bit_0x80)
qed

lemma first_byte_iff: "first_ok b opcode \<longleftrightarrow> b = 0x80 OR opcode_repr opcode"
proof
  assume "first_ok b opcode"
  then show "b = 0x80 OR opcode_repr opcode"
    using first_byte_split [of b] by (simp add: first_ok_def opcode_parse_iff)
next
  assume "b = 0x80 OR opcode_repr opcode"
  then show "first_ok b opcode"
    by (cases opcode) (simp_all add: first_ok_def opcode_parse_def)
qed

lemma masked_byte: "b AND 0x80 \<noteq> 0 \<Longrightarrow> (b AND 0x7f) OR 0x80 = (b :: u8)"
  by (rule u8_eqI) (simp_all add: and_0x80 bit_simps mask_lits7 bit_0x80)

lemma indicator_byte:
  assumes "v \<le> 127" shows "(v OR 0x80) AND 0x7f = (v :: u8)" "(v OR 0x80) AND 0x80 \<noteq> 0"
proof -
  have "\<not> bit v 7" using assms by (intro bit_less_exp [where k = 7]) (simp_all add: word_le_nat_alt)
  then show "(v OR 0x80) AND 0x7f = v" "(v OR 0x80) AND 0x80 \<noteq> 0"
    by (auto intro!: u8_eqI simp: and_0x80 bit_simps mask_lits7 bit_0x80)
qed

definition length_field :: "usize \<Rightarrow> u8 list" where
  "length_field n =
     (if n \<le> 125 then [of_nat n]
      else if n \<le> 65535 then 126 # to_be_bytes (of_nat n :: u16)
      else 127 # to_be_bytes (of_nat n :: u64))"

definition sendable :: "Opcode \<Rightarrow> u8 list \<Rightarrow> bool" where
  "sendable opcode payload \<longleftrightarrow> length payload \<le> MAX_PAYLOAD_BYTES \<and>
     (is_control opcode \<longrightarrow> length payload \<le> 125) \<and> (opcode = Text \<longrightarrow> valid_utf8 payload)"

lemma encode_server_frame_iff:
  "encode_server_frame opcode payload = Inr bs \<longleftrightarrow> sendable opcode payload \<and>
     bs = (0x80 OR opcode_repr opcode) # length_field (length payload) @ payload"
  by (auto simp: encode_server_frame_def sendable_def length_field_def not_less)

definition set_mask_bit :: "u8 list \<Rightarrow> u8 list" where
  "set_mask_bit header = header[1 := header ! 1 OR 0x80]"

lemma payload_length_encode:
  assumes "n < 2 ^ 63"
  shows "payload_length (set_mask_bit (b # length_field n) @ zs) =
    Inr (of_nat n, Suc (length (length_field n)))"
proof -
  consider "n \<le> 125" | "125 < n" "n \<le> 65535" | "65535 < n" by linarith
  then show ?thesis
  proof cases
    case 1
    then have "(of_nat n :: u8) \<le> 125" by (simp add: word_le_nat_alt unat_of_nat_eq)
    moreover from this have "(of_nat n :: u8) \<le> 127" by (simp add: word_le_nat_alt)
    moreover have "ucast (of_nat n :: u8) = (of_nat n :: u64)"
      using 1 by (simp add: word_unat_eq_iff unsigned_ucast_eq take_bit_eq_mod unat_of_nat_eq)
    ultimately show ?thesis
      using 1 by (simp add: payload_length_def length_field_def set_mask_bit_def indicator_byte)
  next
    case 2
    obtain x y where xy: "to_be_bytes (of_nat n :: u16) = [x, y]"
      using length_to_be_bytes [of "of_nat n :: u16"]
      by (auto simp: length_Suc_conv numeral_2_eq_2 simp del: length_to_be_bytes)
    have "ucast (from_be_bytes [x, y] :: u16) = (of_nat n :: u64)"
      using 2 by (simp add: xy [symmetric] from_be_bytes_inverse word_unat_eq_iff unsigned_ucast_eq
        take_bit_eq_mod unat_of_nat_eq)
    moreover have "\<not> (of_nat n :: u64) < 126" using 2 by (simp add: word_less_nat_alt unat_of_nat_eq)
    ultimately show ?thesis
      using 2 by (simp add: payload_length_def length_field_def set_mask_bit_def indicator_byte xy)
  next
    case 3
    let ?be = "to_be_bytes (of_nat n :: u64)"
    have "\<not> bit (of_nat n :: u64) 63"
      using assms by (intro bit_less_exp [where k = 63]) (simp_all add: unat_of_nat_eq)
    then have "hd ?be AND 0x80 = 0" by (simp add: to_be_bytes_def and_0x80 hd_map hd_rev bit_simps)
    moreover have "\<not> (of_nat n :: u64) \<le> 0xffff"
      using 3 assms by (simp add: word_le_nat_alt unat_of_nat_eq)
    moreover have "(?be @ zs) ! 0 = hd ?be"
      by (cases ?be) (use length_to_be_bytes [of "of_nat n :: u64"] in auto)
    ultimately show ?thesis
      using 3 from_be_bytes_inverse [of "of_nat n :: u64"]
      by (simp add: payload_length_def length_field_def set_mask_bit_def indicator_byte)
  qed
qed

lemma payload_length_decode:
  assumes "payload_length input = Inr (sz, h)" "2 \<le> length input" "input ! 1 AND 0x80 \<noteq> 0"
  shows "h = Suc (length (length_field (unat sz))) \<and>
    (\<exists>zs. input = set_mask_bit (input ! 0 # length_field (unat sz)) @ zs)"
proof -
  obtain a b zs where input: "input = a # b # zs" using assms(2) by (cases input; cases "tl input") auto
  define v where "v = b AND 0x7f"
  have b: "b = v OR 0x80" using masked_byte [of b] assms(3) by (simp add: v_def input)
  have "unat v < 128"
    using take_bit_nat_less_exp [of 7 "unat b"]
    by (simp add: v_def mask_lits7 take_bit_eq_mask [symmetric] unsigned_take_bit_eq)
  then consider "v \<le> 125" | "v = 126" | "v = 127"
    by (simp add: word_le_nat_alt word_unat_eq_iff) linarith
  then show ?thesis
  proof cases
    case 1
    then have "sz = ucast v" "h = 2"
      using assms(1) by (auto simp: payload_length_def input v_def Let_def)
    moreover have "unat (ucast v :: u64) = unat v"
      using \<open>unat v < 128\<close> by (simp add: unsigned_ucast_eq take_bit_eq_mod)
    ultimately show ?thesis
      using 1 by (auto simp: length_field_def set_mask_bit_def input b word_le_nat_alt)
  next
    case 2
    then obtain x y zs' where zs: "zs = x # y # zs'"
      using assms(1) by (cases zs; cases "tl zs") (auto simp: payload_length_def input v_def Let_def)
    have res: "sz = ucast (from_be_bytes [x, y] :: u16)" "\<not> sz < 126" "h = 4"
      using assms(1) 2 by (auto simp: payload_length_def input zs v_def Let_def split: if_splits)
    have u16: "unat (from_be_bytes [x, y] :: u16) < 2 ^ 16"
      using unsigned_less [of "from_be_bytes [x, y] :: u16", where ?'a = nat] by simp
    then have "unat sz = unat (from_be_bytes [x, y] :: u16)"
      by (simp add: res(1) unsigned_ucast_eq take_bit_eq_mod)
    moreover note u16
    moreover have "125 < unat sz" using res(2) by (simp add: word_less_nat_alt)
    moreover have "to_be_bytes (from_be_bytes [x, y] :: u16) = [x, y]" by (rule to_be_bytes_inverse) simp
    ultimately show ?thesis
      using res(3) by (auto simp: length_field_def set_mask_bit_def input zs b 2)
  next
    case 3
    let ?be = "take 8 zs"
    have res: "8 \<le> length zs" "sz = from_be_bytes ?be" "\<not> sz \<le> 0xffff" "h = 10"
      using assms(1) 3 by (auto simp: payload_length_def input v_def Let_def split: if_splits)
    have "to_be_bytes sz = ?be" unfolding res(2) using res(1) by (intro to_be_bytes_inverse) simp
    moreover have "65535 < unat sz" using res(3) by (simp add: word_le_nat_alt)
    ultimately show ?thesis
      using res(1,4) append_take_drop_id [of 8 zs]
      by (auto simp: length_field_def set_mask_bit_def input b 3 intro: exI [of _ "drop 8 zs"])
  qed
qed

text \<open>
  C19: The frame decoder accepts exactly the masked forms of what the server encoder writes: it
  yields a frame and the number of bytes consumed precisely when the input starts with the
  encoder's header for this frame with the mask bit set, a four-byte key and the payload
  masked with it, and a close frame carries a valid code and reason.
\<close>

theorem client_frames_roundtrip:
  "decode_client_frame input = Inr (f, n) \<longleftrightarrow>
     (\<exists>header key rest.
        encode_server_frame (fr_opcode f) (fr_payload f) = Inr (header @ fr_payload f) \<and>
        length key = 4 \<and>
        input = header[1 := header ! 1 OR 0x80] @ key @ unmask key (fr_payload f) @ rest \<and>
        n = length header + 4 + length (fr_payload f)) \<and>
     (\<exists>close. frame_close f = Inr close)"
proof
  assume dec: "decode_client_frame input = Inr (f, n)"
  then obtain sz h where first: "first_ok (input ! 0) (fr_opcode f)"
      and len: "2 \<le> length input" and masked: "input ! 1 AND 0x80 \<noteq> 0"
      and pl: "payload_length input = Inr (sz, h)"
      and bounds: "is_control (fr_opcode f) \<longrightarrow> \<not> 125 < sz" "\<not> of_nat MAX_PAYLOAD_BYTES < sz"
      and fits: "h + 4 + unat sz \<le> length input" "n = h + 4 + unat sz"
      and payload: "fr_payload f = unmask (take 4 (drop h input)) (take (unat sz) (drop (h + 4) input))"
      and utf: "fr_opcode f = Text \<longrightarrow> valid_utf8 (fr_payload f)"
      and close: "\<exists>c. frame_close f = Inr c"
    by (auto simp: decode_client_frame_def first_ok_def Let_def not_less frame_close_def [of f]
      split: if_splits)
  define b where "b = input ! 0"
  let ?header = "b # length_field (unat sz)" and ?p = "fr_payload f"
  obtain zs where h: "h = length ?header" and input: "input = set_mask_bit ?header @ zs"
    using payload_length_decode [OF pl len masked] unfolding b_def [symmetric] by auto
  let ?key = "take 4 zs" and ?body = "take (unat sz) (drop 4 zs)"
  have zs: "4 + unat sz \<le> length zs" using fits(1) by (simp add: h input set_mask_bit_def)
  have dh: "drop h input = zs" by (simp add: h input set_mask_bit_def)
  have "drop (h + 4) input = drop 4 (drop h input)" by (simp only: drop_drop add.commute)
  with dh have p: "?p = unmask ?key ?body" using payload by simp
  then have size: "length ?p = unat sz" using zs by simp
  have "unat sz \<le> MAX_PAYLOAD_BYTES"
    using bounds(2) by (simp add: MAX_PAYLOAD_BYTES_def word_less_nat_alt)
  then have "sendable (fr_opcode f) ?p"
    using bounds(1) utf by (simp add: sendable_def size word_less_nat_alt not_less)
  then have "encode_server_frame (fr_opcode f) ?p = Inr (?header @ ?p)"
    using first by (simp add: encode_server_frame_iff size first_byte_iff b_def)
  moreover have "input = ?header[1 := ?header ! 1 OR 0x80] @ ?key @ unmask ?key ?p @
      drop (4 + unat sz) zs"
    using append_take_drop_id [of 4 zs] append_take_drop_id [of "unat sz" "drop 4 zs"]
    by (subst input) (simp add: set_mask_bit_def p unmask_unmask add.commute)
  moreover have "length ?key = 4" using zs by simp
  moreover have "n = length ?header + 4 + length ?p" using fits(2) by (simp add: h size)
  ultimately show "(\<exists>header key rest.
        encode_server_frame (fr_opcode f) (fr_payload f) = Inr (header @ fr_payload f) \<and>
        length key = 4 \<and>
        input = header[1 := header ! 1 OR 0x80] @ key @ unmask key (fr_payload f) @ rest \<and>
        n = length header + 4 + length (fr_payload f)) \<and>
     (\<exists>close. frame_close f = Inr close)"
    using close by blast
next
  let ?p = "fr_payload f" and ?op = "fr_opcode f"
  assume "(\<exists>header key rest.
        encode_server_frame ?op ?p = Inr (header @ ?p) \<and> length key = 4 \<and>
        input = header[1 := header ! 1 OR 0x80] @ key @ unmask key ?p @ rest \<and>
        n = length header + 4 + length ?p) \<and> (\<exists>close. frame_close f = Inr close)"
  then obtain header key rest close where enc: "encode_server_frame ?op ?p = Inr (header @ ?p)"
      and key: "length key = 4" and input: "input = set_mask_bit header @ key @ unmask key ?p @ rest"
      and n: "n = length header + 4 + length ?p" and close: "frame_close f = Inr close"
    by (auto simp: set_mask_bit_def)
  then have ok: "sendable ?op ?p" and header: "header = (0x80 OR opcode_repr ?op) # length_field (length ?p)"
    by (simp_all add: encode_server_frame_iff)
  have small: "length ?p \<le> 131072" using ok by (simp add: sendable_def MAX_PAYLOAD_BYTES_def)
  then have unat: "unat (of_nat (length ?p) :: u64) = length ?p" by (simp add: unat_of_nat_eq)
  have ne: "length_field (length ?p) \<noteq> []" by (simp add: length_field_def)
  have "first_ok (input ! 0) ?op" by (simp add: first_byte_iff input header set_mask_bit_def)
  moreover have "input ! 1 AND 0x80 \<noteq> 0"
    using ne by (simp add: input header set_mask_bit_def and_0x80 nth_append bit_simps bit_0x80)
  moreover have "payload_length input = Inr (of_nat (length ?p), length header)"
    using small payload_length_encode [of "length ?p"] by (simp add: input header)
  moreover have "length (set_mask_bit header) = length header" by (simp add: set_mask_bit_def)
  moreover have "2 \<le> length input" using key by (simp add: input)
  moreover have "frame_close \<lparr>fr_opcode = Close, fr_payload = ?p\<rparr> = Inr close" if "?op = Close"
  proof -
    have "\<lparr>fr_opcode = Close, fr_payload = ?p\<rparr> = f" using that by simp
    with close show ?thesis by simp
  qed
  ultimately show "decode_client_frame input = Inr (f, n)"
    using ok key n unat
    by (auto simp: decode_client_frame_def first_ok_def Let_def input sendable_def unmask_unmask
      word_less_nat_alt MAX_PAYLOAD_BYTES_def)
qed

end
