(* ===== verification/Query.thy ===== *)
theory Query
  imports Contracts Utf8
begin

text \<open>
  The query language of \<open>crates/trnm-query-core\<close>: limits and syntax trees (\<open>lib.rs\<close>), lexer
  (\<open>lexer.rs\<close>) and parser (\<open>parser.rs\<close>). Characters and tokens are read from lists: where
  the source keeps a vector and an index, a function here takes the rest of the list from
  the index on and returns the rest it leaves. \<open>parse::<f64>\<close> is the grammar the standard
  library documents for it.
\<close>

subsection \<open>Syntax trees\<close>

record QueryLimits =
  max_query_bytes :: usize
  max_token_bytes :: usize
  max_tokens :: usize
  max_clauses :: usize

definition QueryLimits_default :: QueryLimits where
  "QueryLimits_default = \<lparr>max_query_bytes = 4096, max_token_bytes = 1024, max_tokens = 256,
     max_clauses = 64\<rparr>"

datatype Occur = Should | Must | MustNot
datatype TermKind = Match | Wildcard | Regexp
datatype Comparison = GreaterThan | GreaterThanOrEqual | LessThan | LessThanOrEqual

datatype Expression =
    Term "rstring option" rstring TermKind
  | Phrase "rstring option" rstring
  | NumberExact "rstring option" rstring
  | Fuzzy "rstring option" rstring rstring
  | NumericRange rstring Comparison rstring
  | DateRange rstring Comparison rstring

record Clause =
  cl_occur :: Occur
  cl_expression :: Expression
  cl_boost :: "rstring option"

datatype Query = MatchAll | MatchNone | Boolean "Clause list"

fun clause_count :: "Query \<Rightarrow> usize" where
  "clause_count (Boolean clauses) = length clauses"
| "clause_count _ = 0"

definition syntax_error :: DomainError where
  "syntax_error = domain_error InvalidArgument ''invalid_query_syntax'' Never"

definition query_invalid :: "string \<Rightarrow> DomainError" where
  "query_invalid reason = domain_error InvalidArgument reason Never"

definition query_exhausted :: "string \<Rightarrow> DomainError" where
  "query_exhausted reason = domain_error ResourceExhausted reason Never"

subsection \<open>Lexer\<close>

abbreviation SPACE :: rchar where "SPACE \<equiv> 32"
abbreviation QUOTE :: rchar where "QUOTE \<equiv> 34"
abbreviation STAR :: rchar where "STAR \<equiv> 42"
abbreviation PLUS :: rchar where "PLUS \<equiv> 43"
abbreviation MINUS :: rchar where "MINUS \<equiv> 45"
abbreviation DOT :: rchar where "DOT \<equiv> 46"
abbreviation SLASH :: rchar where "SLASH \<equiv> 47"
abbreviation COLON :: rchar where "COLON \<equiv> 58"
abbreviation LESS :: rchar where "LESS \<equiv> 60"
abbreviation EQUAL :: rchar where "EQUAL \<equiv> 61"
abbreviation GREATER :: rchar where "GREATER \<equiv> 62"
abbreviation QUESTION :: rchar where "QUESTION \<equiv> 63"
abbreviation BACKSLASH :: rchar where "BACKSLASH \<equiv> 92"
abbreviation CARET :: rchar where "CARET \<equiv> 94"
abbreviation TILDE :: rchar where "TILDE \<equiv> 126"

definition RESERVED_CHARS :: rstring where
  "RESERVED_CHARS = map of_char (''+-=&|><!(){}[]^'' @ [CHR 0x22] @ ''~*?:'' @ [CHR 0x5C] @ ''/ '')"

datatype Token =
    TString rstring | TPhrase rstring | TNumber rstring
  | TPlus | TMinus | TColon | TGreater | TLess | TEqual
  | TTilde rstring | TBoost rstring

definition unescape :: "rchar \<Rightarrow> rstring" where
  "unescape c = (if c \<in> set RESERVED_CHARS then [c] else [BACKSLASH, c])"

definition push_checked :: "QueryLimits \<Rightarrow> rstring \<Rightarrow> rstring \<Rightarrow> DomainError + rstring" where
  "push_checked limits destination v =
     (if max_token_bytes limits < str_len destination + str_len v
      then Inl (query_exhausted ''query_token_too_large'')
      else Inr (destination @ v))"

definition push_char_checked :: "QueryLimits \<Rightarrow> rstring \<Rightarrow> rchar \<Rightarrow> DomainError + rstring" where
  "push_char_checked limits destination c =
     (if max_token_bytes limits < str_len destination + char_len_utf8 c
      then Inl (query_exhausted ''query_token_too_large'')
      else Inr (destination @ [c]))"

fun read_phrase ::
    "QueryLimits \<Rightarrow> rstring \<Rightarrow> bool \<Rightarrow> rstring \<Rightarrow> DomainError + rstring \<times> rstring" where
  "read_phrase limits v escaped [] = Inl (query_invalid ''unterminated_query_quote'')"
| "read_phrase limits v escaped (c # cs) =
     (if escaped then
        tryE (push_checked limits v (unescape c)) (\<lambda>v. read_phrase limits v False cs)
      else if c = BACKSLASH then read_phrase limits v True cs
      else if c = QUOTE then Inr (v, cs)
      else tryE (push_char_checked limits v c) (\<lambda>v. read_phrase limits v False cs))"

definition default_suffix :: "rstring \<Rightarrow> rstring" where
  "default_suffix v = (if v = [] then [49] else v)"

fun read_suffix :: "QueryLimits \<Rightarrow> rstring \<Rightarrow> rstring \<Rightarrow> DomainError + rstring \<times> rstring" where
  "read_suffix limits v [] = Inr (default_suffix v, [])"
| "read_suffix limits v (c # cs) =
     (if c = SPACE then Inr (default_suffix v, cs)
      else if c = BACKSLASH then
        (case cs of
           escaped # rest \<Rightarrow>
             tryE (push_checked limits v (unescape escaped)) (\<lambda>v. read_suffix limits v rest)
         | [] \<Rightarrow> Inr (default_suffix v, []))
      else tryE (push_char_checked limits v c) (\<lambda>v. read_suffix limits v cs))"

definition ends_word :: "rchar \<Rightarrow> bool" where
  "ends_word c \<longleftrightarrow> c = SPACE \<or> c = COLON \<or> c = CARET \<or> c = TILDE"

fun read_word ::
    "QueryLimits \<Rightarrow> rstring \<Rightarrow> bool \<Rightarrow> bool \<Rightarrow> rstring \<Rightarrow> DomainError + (rstring \<times> bool) \<times> rstring" where
  "read_word limits v numeric seen_dot [] = Inr ((v, numeric), [])"
| "read_word limits v numeric seen_dot (c # cs) =
     (if ends_word c then Inr ((v, numeric), c # cs)
      else if c = BACKSLASH then
        (case cs of
           escaped # rest \<Rightarrow>
             tryE (push_checked limits v (unescape escaped)) (\<lambda>v.
             read_word limits v False seen_dot rest)
         | [] \<Rightarrow> Inr ((v, numeric), c # cs))
      else tryE (push_char_checked limits v c) (\<lambda>v.
        if numeric then
          if is_ascii_digit c then read_word limits v True seen_dot cs
          else if c = DOT \<and> \<not> seen_dot then read_word limits v True True cs
          else read_word limits v False seen_dot cs
        else read_word limits v False seen_dot cs))"

fun read_string_continuation ::
    "QueryLimits \<Rightarrow> rstring \<Rightarrow> rstring \<Rightarrow> DomainError + rstring \<times> rstring" where
  "read_string_continuation limits v [] = Inr (v, [])"
| "read_string_continuation limits v (c # cs) =
     (if ends_word c then Inr (v, c # cs)
      else if c = BACKSLASH then
        (case cs of
           escaped # rest \<Rightarrow>
             tryE (push_checked limits v (unescape escaped)) (\<lambda>v.
             read_string_continuation limits v rest)
         | [] \<Rightarrow> Inr (v, c # cs))
      else tryE (push_char_checked limits v c) (\<lambda>v. read_string_continuation limits v cs))"

text \<open>The \<open>match\<close> on the first character of a token; the character is not white space.\<close>

definition lex_token :: "QueryLimits \<Rightarrow> rchar \<Rightarrow> rstring \<Rightarrow> DomainError + Token \<times> rstring" where
  "lex_token limits c cs =
     (if c = QUOTE then tryE (read_phrase limits [] False cs) (\<lambda>(v, rest). Inr (TPhrase v, rest))
      else if c = PLUS then Inr (TPlus, cs)
      else if c = MINUS then Inr (TMinus, cs)
      else if c = COLON then Inr (TColon, cs)
      else if c = GREATER then Inr (TGreater, cs)
      else if c = LESS then Inr (TLess, cs)
      else if c = EQUAL then Inr (TEqual, cs)
      else if c = CARET then tryE (read_suffix limits [] cs) (\<lambda>(v, rest). Inr (TBoost v, rest))
      else if c = TILDE then tryE (read_suffix limits [] cs) (\<lambda>(v, rest). Inr (TTilde v, rest))
      else if c = BACKSLASH then
        (case cs of
           [] \<Rightarrow> Inl (query_invalid ''dangling_query_escape'')
         | escaped # cs' \<Rightarrow>
             tryE (read_string_continuation limits (unescape escaped) cs') (\<lambda>(v, rest).
             Inr (TString v, rest)))
      else if is_ascii_digit c then
        tryE (read_word limits [] True False (c # cs)) (\<lambda>((v, numeric), rest).
        Inr (if numeric then TNumber v else TString v, rest))
      else tryE (read_word limits [] False False (c # cs)) (\<lambda>((v, _), rest).
        Inr (TString v, rest)))"

lemma read_phrase_shorter:
  "read_phrase limits v escaped cs = Inr (w, rest) \<Longrightarrow> length rest < length cs"
  by (induction limits v escaped cs rule: read_phrase.induct)
    (fastforce split: if_splits)+

lemma read_suffix_shorter: "read_suffix limits v cs = Inr (w, rest) \<Longrightarrow> length rest \<le> length cs"
  by (induction limits v cs rule: read_suffix.induct)
    (fastforce split: if_splits list.splits)+

lemma read_word_shorter:
  "read_word limits v n d cs = Inr (w, rest) \<Longrightarrow> length rest \<le> length cs"
  by (induction limits v n d cs rule: read_word.induct)
    (fastforce split: if_splits list.splits)+

lemma read_string_continuation_shorter:
  "read_string_continuation limits v cs = Inr (w, rest) \<Longrightarrow> length rest \<le> length cs"
  by (induction limits v cs rule: read_string_continuation.induct)
    (fastforce split: if_splits list.splits)+

lemma read_word_consumes:
  "read_word limits v n d (c # cs) = Inr (w, rest) \<Longrightarrow> \<not> ends_word c \<Longrightarrow> c \<noteq> BACKSLASH \<Longrightarrow>
     length rest \<le> length cs"
  by (auto split: if_splits dest!: read_word_shorter)

lemma lex_token_shorter:
  assumes "lex_token limits c cs = Inr (t, rest)" "\<not> char_is_whitespace c"
  shows "length rest \<le> length cs"
proof -
  have space: "c \<noteq> SPACE" using assms(2) by (auto simp: char_is_whitespace_def)
  have word: "length rest \<le> length cs"
    if "read_word limits [] numeric False (c # cs) = Inr (w, rest)"
      "c \<noteq> COLON" "c \<noteq> CARET" "c \<noteq> TILDE" "c \<noteq> BACKSLASH" for numeric w
    using that space by (intro read_word_consumes [OF that(1)]) (simp_all add: ends_word_def)
  show ?thesis
    using assms(1) unfolding lex_token_def
    by (simp only: split: if_split_asm list.splits;
      (elim tryE_Inr_iff [THEN iffD1, THEN exE])?;
      fastforce simp del: read_word.simps dest: word read_phrase_shorter read_suffix_shorter
        read_string_continuation_shorter)
qed

function lex_from :: "QueryLimits \<Rightarrow> Token list \<Rightarrow> rstring \<Rightarrow> DomainError + Token list" where
  "lex_from limits tokens [] = Inr tokens"
| "lex_from limits tokens (c # cs) =
     (if char_is_whitespace c then lex_from limits tokens cs
      else tryE (lex_token limits c cs) (\<lambda>(token, rest).
        let tokens = tokens @ [token]
        in if max_tokens limits < length tokens
           then Inl (query_exhausted ''query_token_limit_exceeded'')
           else lex_from limits tokens rest))"
  by pat_completeness auto
termination
  by (relation "measure (\<lambda>(limits, tokens, cs). length cs)")
    (auto dest: lex_token_shorter)

definition lex :: "rstring \<Rightarrow> QueryLimits \<Rightarrow> DomainError + Token list" where
  "lex input limits = lex_from limits [] input"

subsection \<open>Numbers and dates\<close>

text \<open>
  \<open>value.parse::<f64>()\<close> succeeds on an optional sign followed by \<open>inf\<close>, \<open>infinity\<close> or \<open>nan\<close>
  in any case, or by digits with at most one point and at least one digit, and an optional
  exponent.
\<close>

definition to_ascii_lowercase :: "rchar \<Rightarrow> rchar" where
  "to_ascii_lowercase c = (if is_ascii_uppercase c then c + 32 else c)"

definition is_exponent :: "rstring \<Rightarrow> bool" where
  "is_exponent s = (case s of [] \<Rightarrow> True
     | e # digits \<Rightarrow> to_ascii_lowercase e = 101 \<and>
         (let digits = (case digits of c # ds \<Rightarrow> if c = PLUS \<or> c = MINUS then ds else digits
                        | [] \<Rightarrow> [])
          in digits \<noteq> [] \<and> list_all is_ascii_digit digits))"

definition is_unsigned_number :: "rstring \<Rightarrow> bool" where
  "is_unsigned_number s =
     (let whole = takeWhile is_ascii_digit s; rest = dropWhile is_ascii_digit s in
      case rest of
        c # cs \<Rightarrow>
          if c = DOT
          then (whole \<noteq> [] \<or> takeWhile is_ascii_digit cs \<noteq> []) \<and>
               is_exponent (dropWhile is_ascii_digit cs)
          else whole \<noteq> [] \<and> is_exponent rest
      | [] \<Rightarrow> whole \<noteq> [])"

definition parses_as_f64 :: "rstring \<Rightarrow> bool" where
  "parses_as_f64 s =
     (let body = (case s of c # cs \<Rightarrow> if c = PLUS \<or> c = MINUS then cs else s | [] \<Rightarrow> []) in
      map to_ascii_lowercase body \<in> {map of_char ''inf'', map of_char ''infinity'', map of_char ''nan''}
      \<or> is_unsigned_number body)"

definition validate_float :: "rstring \<Rightarrow> string \<Rightarrow> DomainError + unit" where
  "validate_float v reason =
     (if \<not> parses_as_f64 v then Inl (query_invalid reason) else Inr ())"

definition invalid_date :: DomainError where
  "invalid_date = query_invalid ''invalid_query_date''"

definition byte_at :: "u8 list \<Rightarrow> usize \<Rightarrow> u8 option" where
  "byte_at bytes i = (if i < length bytes then Some (bytes ! i) else None)"

definition decimal :: "u8 list \<Rightarrow> usize \<Rightarrow> usize \<Rightarrow> DomainError + u32" where
  "decimal bytes start end =
     (if length bytes < end then Inl invalid_date
      else let slice = take (end - start) (drop start bytes)
      in if \<not> list_all is_ascii_digit slice then Inl invalid_date
         else Inr (foldl (\<lambda>v digit. v * 10 + ucast (digit - 48)) 0 slice))"

definition is_leap_year :: "u32 \<Rightarrow> bool" where
  "is_leap_year year \<longleftrightarrow> year mod 4 = 0 \<and> (year mod 100 \<noteq> 0 \<or> year mod 400 = 0)"

definition days_in_month :: "u32 \<Rightarrow> u32 \<Rightarrow> u32" where
  "days_in_month year month =
     (if month \<in> {1, 3, 5, 7, 8, 10, 12} then 31
      else if month \<in> {4, 6, 9, 11} then 30
      else if month = 2 then if is_leap_year year then 29 else 28
      else 0)"

text \<open>The part after the seconds: an optional fraction and a zone.\<close>

definition after_fraction :: "u8 list \<Rightarrow> DomainError + usize" where
  "after_fraction bytes =
     (if byte_at bytes 19 = Some 46
      then let digits = length (takeWhile is_ascii_digit (drop 20 bytes))
           in if digits = 0 then Inl invalid_date else Inr (20 + digits)
      else Inr 19)"

definition validate_zone :: "u8 list \<Rightarrow> usize \<Rightarrow> DomainError + unit" where
  "validate_zone bytes index =
     (if byte_at bytes index = Some 90 \<and> index + 1 = length bytes then Inr ()
      else if (byte_at bytes index = Some 43 \<or> byte_at bytes index = Some 45)
              \<and> index + 6 = length bytes
      then if byte_at bytes (index + 3) \<noteq> Some 58 then Inl invalid_date
        else tryE (decimal bytes (index + 1) (index + 3)) (\<lambda>offset_hour.
             tryE (decimal bytes (index + 4) (index + 6)) (\<lambda>offset_minute.
             if offset_hour \<le> 23 \<and> offset_minute \<le> 59 then Inr () else Inl invalid_date))
      else Inl invalid_date)"

definition validate_rfc3339 :: "rstring \<Rightarrow> DomainError + unit" where
  "validate_rfc3339 v =
     (let bytes = str_bytes v in
      if length bytes < 20
         \<or> byte_at bytes 4 \<noteq> Some 45
         \<or> byte_at bytes 7 \<noteq> Some 45
         \<or> byte_at bytes 10 \<noteq> Some 84
         \<or> byte_at bytes 13 \<noteq> Some 58
         \<or> byte_at bytes 16 \<noteq> Some 58
      then Inl invalid_date
      else tryE (decimal bytes 0 4) (\<lambda>year.
      tryE (decimal bytes 5 7) (\<lambda>month.
      tryE (decimal bytes 8 10) (\<lambda>day.
      tryE (decimal bytes 11 13) (\<lambda>hour.
      tryE (decimal bytes 14 16) (\<lambda>minute.
      tryE (decimal bytes 17 19) (\<lambda>second.
      if \<not> (1 \<le> month \<and> month \<le> 12) \<or> 23 < hour \<or> 59 < minute \<or> 59 < second
         \<or> day = 0 \<or> days_in_month year month < day
      then Inl invalid_date
      else tryE (after_fraction bytes) (validate_zone bytes))))))))"

subsection \<open>Parser\<close>

definition parse_term :: "rstring option \<Rightarrow> rstring \<Rightarrow> DomainError + Expression" where
  "parse_term field v =
     (if v \<noteq> [] \<and> hd v = SLASH \<and> last v = SLASH
      then if str_len v < 2 then Inl (query_invalid ''invalid_query_regexp'')
           else Inr (Term field v Regexp)
      else if STAR \<in> set v \<or> QUESTION \<in> set v then Inr (Term field v Wildcard)
      else Inr (Term field v Match))"

fun negated_number ::
    "(rstring \<Rightarrow> Expression) \<Rightarrow> Token list \<Rightarrow> DomainError + Expression \<times> Token list" where
  "negated_number build (TNumber v # ts) =
     tryE (validate_float (MINUS # v) ''invalid_query_number'') (\<lambda>_. Inr (build (MINUS # v), ts))"
| "negated_number build _ = Inl syntax_error"

definition parse_range ::
    "rstring \<Rightarrow> bool \<Rightarrow> Token list \<Rightarrow> DomainError + Expression \<times> Token list" where
  "parse_range field is_greater tokens =
     (let inclusive = (case tokens of TEqual # _ \<Rightarrow> True | _ \<Rightarrow> False);
          tokens = (if inclusive then tl tokens else tokens);
          comparison = (if is_greater then if inclusive then GreaterThanOrEqual else GreaterThan
                        else if inclusive then LessThanOrEqual else LessThan)
      in case tokens of
        TNumber v # ts \<Rightarrow>
          tryE (validate_float v ''invalid_query_number'') (\<lambda>_.
          Inr (NumericRange field comparison v, ts))
      | TMinus # ts \<Rightarrow> negated_number (NumericRange field comparison) ts
      | TPhrase v # ts \<Rightarrow>
          tryE (validate_rfc3339 v) (\<lambda>_. Inr (DateRange field comparison v, ts))
      | _ \<Rightarrow> Inl syntax_error)"

text \<open>A string token has been taken: a fuzzy term if a tilde follows, a plain term otherwise.\<close>

definition parse_string_value ::
    "rstring option \<Rightarrow> rstring \<Rightarrow> Token list \<Rightarrow> DomainError + Expression \<times> Token list" where
  "parse_string_value field v tokens =
     (case tokens of
        TTilde fuzziness # ts \<Rightarrow>
          tryE (validate_float fuzziness ''invalid_query_fuzziness'') (\<lambda>_.
          Inr (Fuzzy field v fuzziness, ts))
      | _ \<Rightarrow> tryE (parse_term field v) (\<lambda>e. Inr (e, tokens)))"

definition parse_field_expression ::
    "rstring \<Rightarrow> Token list \<Rightarrow> DomainError + Expression \<times> Token list" where
  "parse_field_expression field tokens =
     (case tokens of
        TString v # ts \<Rightarrow> parse_string_value (Some field) v ts
      | TNumber v # ts \<Rightarrow>
          tryE (validate_float v ''invalid_query_number'') (\<lambda>_.
          Inr (NumberExact (Some field) v, ts))
      | TMinus # ts \<Rightarrow> negated_number (NumberExact (Some field)) ts
      | TPhrase v # ts \<Rightarrow> Inr (Phrase (Some field) v, ts)
      | TGreater # ts \<Rightarrow> parse_range field True ts
      | TLess # ts \<Rightarrow> parse_range field False ts
      | _ \<Rightarrow> Inl syntax_error)"

definition parse_expression :: "Token list \<Rightarrow> DomainError + Expression \<times> Token list" where
  "parse_expression tokens =
     (case tokens of
        TString v # ts \<Rightarrow>
          (case ts of
             TColon # ts' \<Rightarrow> parse_field_expression v ts'
           | _ \<Rightarrow> parse_string_value None v ts)
      | TNumber v # ts \<Rightarrow>
          tryE (validate_float v ''invalid_query_number'') (\<lambda>_. Inr (NumberExact None v, ts))
      | TPhrase v # ts \<Rightarrow> Inr (Phrase None v, ts)
      | _ \<Rightarrow> Inl syntax_error)"

text \<open>The two optional parts of a clause: the sign before it and the boost after it.\<close>

definition parse_occur :: "Token list \<Rightarrow> Occur \<times> Token list" where
  "parse_occur tokens = (case tokens of
     TPlus # ts \<Rightarrow> (Must, ts) | TMinus # ts \<Rightarrow> (MustNot, ts) | _ \<Rightarrow> (Should, tokens))"

definition parse_boost :: "Token list \<Rightarrow> DomainError + rstring option \<times> Token list" where
  "parse_boost tokens = (case tokens of
     TBoost v # ts \<Rightarrow>
       tryE (validate_float v ''invalid_query_boost'') (\<lambda>_. Inr (Some v, ts))
   | _ \<Rightarrow> Inr (None, tokens))"

definition parse_clause :: "Token list \<Rightarrow> DomainError + Clause \<times> Token list" where
  "parse_clause tokens =
     (let (occur, tokens) = parse_occur tokens
      in tryE (parse_expression tokens) (\<lambda>(expression, tokens).
         tryE (parse_boost tokens) (\<lambda>(boost, tokens).
         Inr (\<lparr>cl_occur = occur, cl_expression = expression, cl_boost = boost\<rparr>, tokens))))"

lemma negated_number_shorter:
  "negated_number build ts = Inr (e, rest) \<Longrightarrow> length rest < length ts"
  by (induction build ts rule: negated_number.induct) auto

lemma parse_range_shorter:
  "parse_range field g ts = Inr (e, rest) \<Longrightarrow> length rest < length ts"
  by (auto simp: parse_range_def Let_def split: list.splits Token.splits
    dest!: negated_number_shorter)

lemma parse_string_value_shorter:
  "parse_string_value field v ts = Inr (e, rest) \<Longrightarrow> length rest \<le> length ts"
  by (auto simp: parse_string_value_def split: list.splits Token.splits)

lemma parse_field_expression_shorter:
  "parse_field_expression field ts = Inr (e, rest) \<Longrightarrow> length rest < length ts"
  by (auto simp: parse_field_expression_def split: list.splits Token.splits
    dest!: negated_number_shorter parse_range_shorter parse_string_value_shorter)

lemma parse_expression_shorter:
  "parse_expression ts = Inr (e, rest) \<Longrightarrow> length rest < length ts"
  by (auto simp: parse_expression_def split: list.splits Token.splits
    dest!: parse_field_expression_shorter parse_string_value_shorter)

lemma parse_occur_shorter: "parse_occur ts = (k, rest) \<Longrightarrow> length rest \<le> length ts"
  by (auto simp: parse_occur_def split: list.splits Token.splits)

lemma parse_boost_shorter: "parse_boost ts = Inr (b, rest) \<Longrightarrow> length rest \<le> length ts"
  by (auto simp: parse_boost_def split: list.splits Token.splits)

lemma parse_clause_shorter: "parse_clause ts = Inr (c, rest) \<Longrightarrow> length rest < length ts"
  by (fastforce simp: parse_clause_def split: prod.splits
    dest!: parse_occur_shorter parse_expression_shorter parse_boost_shorter)

function parse_clauses :: "QueryLimits \<Rightarrow> Clause list \<Rightarrow> Token list \<Rightarrow> DomainError + Query" where
  "parse_clauses limits clauses tokens =
     (if tokens = [] then Inr (Boolean clauses)
      else if max_clauses limits \<le> length clauses
      then Inl (query_exhausted ''query_clause_limit_exceeded'')
      else tryE (parse_clause tokens) (\<lambda>(clause, rest).
           parse_clauses limits (clauses @ [clause]) rest))"
  by pat_completeness auto
termination
  by (relation "measure (\<lambda>(limits, clauses, tokens). length tokens)")
    (auto dest: parse_clause_shorter)

declare parse_clauses.simps [simp del]

definition parse_query :: "rstring \<Rightarrow> QueryLimits \<Rightarrow> DomainError + Query" where
  "parse_query input limits =
     (if max_query_bytes limits < str_len input then Inl (query_exhausted ''query_too_large'')
      else if input = [] then Inr MatchNone
      else if input = [STAR] then Inr MatchAll
      else tryE (lex input limits) (\<lambda>tokens.
        if tokens = [] then Inl syntax_error else parse_clauses limits [] tokens))"

end
