(* ===== verification/Query_Proofs.thy ===== *)
theory Query_Proofs
  imports Query
begin

text \<open>
  Correctness of the query language. A clause is printed as tokens, a token as text; the
  parser inverts the first, the lexer the second. Conversely the parser accepts nothing but
  printed clauses, and every number, date and pattern kind in what it returns is valid.
\<close>

subsection \<open>Printing\<close>

fun number_tokens :: "rstring \<Rightarrow> Token list" where
  "number_tokens (c # cs) = (if c = MINUS then [TMinus, TNumber cs] else [TNumber (c # cs)])"
| "number_tokens [] = [TNumber []]"

fun field_tokens :: "rstring option \<Rightarrow> Token list" where
  "field_tokens None = []"
| "field_tokens (Some f) = [TString f, TColon]"

fun comparison_tokens :: "Comparison \<Rightarrow> Token list" where
  "comparison_tokens GreaterThan = [TGreater]"
| "comparison_tokens GreaterThanOrEqual = [TGreater, TEqual]"
| "comparison_tokens LessThan = [TLess]"
| "comparison_tokens LessThanOrEqual = [TLess, TEqual]"

fun expression_tokens :: "Expression \<Rightarrow> Token list" where
  "expression_tokens (Term f v k) = field_tokens f @ [TString v]"
| "expression_tokens (Phrase f v) = field_tokens f @ [TPhrase v]"
| "expression_tokens (NumberExact f v) = field_tokens f @ number_tokens v"
| "expression_tokens (Fuzzy f v z) = field_tokens f @ [TString v, TTilde z]"
| "expression_tokens (NumericRange f c v) =
     field_tokens (Some f) @ comparison_tokens c @ number_tokens v"
| "expression_tokens (DateRange f c v) = field_tokens (Some f) @ comparison_tokens c @ [TPhrase v]"

fun occur_tokens :: "Occur \<Rightarrow> Token list" where
  "occur_tokens Should = []"
| "occur_tokens Must = [TPlus]"
| "occur_tokens MustNot = [TMinus]"

definition clause_tokens :: "Clause \<Rightarrow> Token list" where
  "clause_tokens c = occur_tokens (cl_occur c) @ expression_tokens (cl_expression c) @
     (case cl_boost c of None \<Rightarrow> [] | Some b \<Rightarrow> [TBoost b])"

text \<open>What makes an expression valid: pattern kind, numbers and dates fit their texts.\<close>

fun expression_valid :: "Expression \<Rightarrow> bool" where
  "expression_valid (Term f v k) \<longleftrightarrow> parse_term f v = Inr (Term f v k)"
| "expression_valid (Phrase f v) \<longleftrightarrow> True"
| "expression_valid (NumberExact f v) \<longleftrightarrow> parses_as_f64 v \<and> (f = None \<longrightarrow> hd v \<noteq> MINUS)"
| "expression_valid (Fuzzy f v z) \<longleftrightarrow> parses_as_f64 z"
| "expression_valid (NumericRange f c v) \<longleftrightarrow> parses_as_f64 v"
| "expression_valid (DateRange f c v) \<longleftrightarrow> validate_rfc3339 v = Inr ()"

definition clause_valid :: "Clause \<Rightarrow> bool" where
  "clause_valid c \<longleftrightarrow> expression_valid (cl_expression c) \<and>
     (case cl_boost c of None \<Rightarrow> True | Some b \<Rightarrow> parses_as_f64 b)"

subsection \<open>The parser inverts the printer\<close>

lemma validate_float_iff [simp]: "validate_float v reason = Inr u \<longleftrightarrow> parses_as_f64 v"
  by (simp add: validate_float_def)

lemma f64_not_Nil [simp]: "\<not> parses_as_f64 []"
  by (simp add: parses_as_f64_def is_unsigned_number_def)

text \<open>What may follow an expression, and what may follow a clause.\<close>

fun ends_expression :: "Token list \<Rightarrow> bool" where
  "ends_expression (TColon # ts) \<longleftrightarrow> False"
| "ends_expression (TTilde z # ts) \<longleftrightarrow> False"
| "ends_expression ts \<longleftrightarrow> True"

fun ends_clause :: "Token list \<Rightarrow> bool" where
  "ends_clause (TBoost b # ts) \<longleftrightarrow> False"
| "ends_clause ts \<longleftrightarrow> ends_expression ts"

lemma ends_clause_expression: "ends_clause ts \<Longrightarrow> ends_expression ts"
  by (cases ts rule: ends_clause.cases) auto

lemma parse_string_value_print:
  "ends_expression rest \<Longrightarrow> parse_term f v = Inr (Term f v k) \<Longrightarrow>
     parse_string_value f v rest = Inr (Term f v k, rest)"
  by (cases rest rule: ends_expression.cases) (auto simp: parse_string_value_def)

lemma parse_string_value_fuzzy:
  "parses_as_f64 z \<Longrightarrow> parse_string_value f v (TTilde z # rest) = Inr (Fuzzy f v z, rest)"
  by (simp add: parse_string_value_def validate_float_def)

lemma parse_expression_print:
  assumes "expression_valid e" "ends_expression rest"
  shows "parse_expression (expression_tokens e @ rest) = Inr (e, rest)"
proof (cases e)
  case (Term f v k)
  have "parse_expression (TString v # rest) = parse_string_value None v rest"
    using assms(2) by (cases rest rule: ends_expression.cases) (simp_all add: parse_expression_def)
  with Term assms show ?thesis
    by (cases f) (simp_all add: parse_string_value_print parse_expression_def [of "TString x # TColon # ts" for x ts]
      parse_field_expression_def)
next
  case (NumberExact f v)
  then obtain c cs where "v = c # cs" using assms(1) by (cases v) auto
  with NumberExact assms show ?thesis
    by (cases f) (auto simp: parse_expression_def parse_field_expression_def validate_float_def)
next
  case (Fuzzy f v z)
  with assms show ?thesis
    by (cases f) (simp_all add: parse_expression_def parse_field_expression_def parse_string_value_fuzzy)
next
  case (NumericRange f c v)
  then obtain d ds where "v = d # ds" using assms(1) by (cases v) auto
  with NumericRange assms show ?thesis
    by (cases c) (auto simp: parse_expression_def parse_field_expression_def parse_range_def
      validate_float_def)
next
  case (DateRange f c v)
  with assms show ?thesis
    by (cases c) (auto simp: parse_expression_def parse_field_expression_def parse_range_def)
next
  case (Phrase f v)
  then show ?thesis
    by (cases f) (auto simp: parse_expression_def parse_field_expression_def)
qed

lemma parse_occur_print:
  assumes "expression_valid e"
  shows "parse_occur (occur_tokens k @ expression_tokens e @ rest) = (k, expression_tokens e @ rest)"
proof (cases k)
  case Should
  have "parse_occur (expression_tokens e @ rest) = (Should, expression_tokens e @ rest)"
    using assms
  proof (cases e)
    case (NumberExact f v)
    then show ?thesis using assms by (cases f; cases v) (auto simp: parse_occur_def)
  next
    case (Term f v x)
    then show ?thesis by (cases f) (auto simp: parse_occur_def)
  next
    case (Phrase f v)
    then show ?thesis by (cases f) (auto simp: parse_occur_def)
  next
    case (Fuzzy f v x)
    then show ?thesis by (cases f) (auto simp: parse_occur_def)
  qed (auto simp: parse_occur_def)
  with Should show ?thesis by simp
qed (simp_all add: parse_occur_def)

lemma parse_clause_print:
  assumes "clause_valid c" "ends_clause rest"
  shows "parse_clause (clause_tokens c @ rest) = Inr (c, rest)"
proof (cases "cl_boost c")
  case None
  have "parse_boost rest = Inr (None, rest)"
    using assms(2) by (cases rest rule: ends_clause.cases) (simp_all add: parse_boost_def)
  with None assms show ?thesis
    using parse_expression_print [of "cl_expression c" rest] ends_clause_expression [of rest]
    by (simp add: parse_clause_def clause_tokens_def clause_valid_def parse_occur_print)
next
  case (Some b)
  with assms show ?thesis
    using parse_expression_print [of "cl_expression c" "TBoost b # rest"]
    by (simp add: parse_clause_def clause_tokens_def clause_valid_def parse_occur_print
      parse_boost_def validate_float_def)
qed

abbreviation query_tokens :: "Clause list \<Rightarrow> Token list" where
  "query_tokens cs \<equiv> concat (map clause_tokens cs)"

lemma number_tokens_start: "\<exists>t ts. number_tokens v = t # ts \<and> (t = TMinus \<or> (\<exists>w. t = TNumber w))"
  by (cases v) auto

lemma clause_tokens_start: "clause_tokens c \<noteq> [] \<and> ends_clause (clause_tokens c @ rest)"
proof -
  have "expression_tokens e \<noteq> [] \<and> ends_clause (expression_tokens e @ rest)" for e rest
  proof (cases e)
    case (NumberExact f v)
    then show ?thesis using number_tokens_start [of v] by (cases f) auto
  next
    case (Term f v x)
    then show ?thesis by (cases f) auto
  next
    case (Phrase f v)
    then show ?thesis by (cases f) auto
  next
    case (Fuzzy f v x)
    then show ?thesis by (cases f) auto
  qed auto
  then show ?thesis by (cases "cl_occur c") (auto simp: clause_tokens_def)
qed

lemma parse_clauses_print:
  assumes "list_all clause_valid cs" "length done + length cs \<le> max_clauses limits"
  shows "parse_clauses limits done (query_tokens cs) = Inr (Boolean (done @ cs))"
  using assms
proof (induction cs arbitrary: "done")
  case Nil
  then show ?case by (simp add: parse_clauses.simps)
next
  case (Cons c cs)
  have "ends_clause (query_tokens cs)"
    using clause_tokens_start by (cases cs) auto
  with Cons have "parse_clause (clause_tokens c @ query_tokens cs) = Inr (c, query_tokens cs)"
    by (intro parse_clause_print) simp_all
  with Cons clause_tokens_start [of c] show ?case
    by (subst parse_clauses.simps) simp
qed

subsection \<open>The parser accepts printed clauses only\<close>

fun token_wf :: "Token \<Rightarrow> bool" where
  "token_wf (TNumber v) \<longleftrightarrow> v \<noteq> [] \<and> hd v \<noteq> MINUS"
| "token_wf _ \<longleftrightarrow> True"

lemma number_tokens_wf [simp]: "v \<noteq> [] \<Longrightarrow> hd v \<noteq> MINUS \<Longrightarrow> number_tokens v = [TNumber v]"
  by (cases v) auto

lemma negated_number_sound:
  "negated_number build ts = Inr (e, rest) \<Longrightarrow>
     \<exists>v. ts = TNumber v # rest \<and> e = build (MINUS # v) \<and> parses_as_f64 (MINUS # v)"
  by (induction build ts rule: negated_number.induct) auto

lemma parse_term_sound: "parse_term f v = Inr e \<Longrightarrow> \<exists>k. e = Term f v k \<and> parse_term f v = Inr (Term f v k)"
  by (auto simp: parse_term_def split: if_splits)

lemma parse_string_value_sound:
  assumes "parse_string_value f v ts = Inr (e, rest)"
  shows "field_tokens f @ TString v # ts = expression_tokens e @ rest \<and> expression_valid e"
proof (cases "\<exists>z ts'. ts = TTilde z # ts'")
  case True
  with assms show ?thesis by (auto simp: parse_string_value_def)
next
  case False
  then have "parse_string_value f v ts = tryE (parse_term f v) (\<lambda>e. Inr (e, ts))"
    by (cases ts rule: ends_expression.cases) (auto simp: parse_string_value_def)
  with assms parse_term_sound show ?thesis by fastforce
qed

lemma parse_range_value_sound:
  assumes "(case ts of
        TNumber v # ts \<Rightarrow>
          tryE (validate_float v ''invalid_query_number'') (\<lambda>_. Inr (NumericRange f c v, ts))
      | TMinus # ts \<Rightarrow> negated_number (NumericRange f c) ts
      | TPhrase v # ts \<Rightarrow> tryE (validate_rfc3339 v) (\<lambda>_. Inr (DateRange f c v, ts))
      | _ \<Rightarrow> Inl syntax_error) = Inr (e, rest)" "list_all token_wf ts"
  shows "field_tokens (Some f) @ comparison_tokens c @ ts = expression_tokens e @ rest \<and>
    expression_valid e"
  using assms by (auto split: list.splits Token.splits dest!: negated_number_sound)

lemma parse_range_sound:
  assumes "parse_range f g ts = Inr (e, rest)" "list_all token_wf ts"
  shows "field_tokens (Some f) @ (if g then TGreater else TLess) # ts = expression_tokens e @ rest \<and>
    expression_valid e"
proof (cases "\<exists>ts'. ts = TEqual # ts'")
  case True
  then obtain ts' where ts: "ts = TEqual # ts'" by blast
  with assms parse_range_value_sound [where ts = ts' and f = f and e = e and rest = rest and
      c = "if g then GreaterThanOrEqual else LessThanOrEqual"]
  show ?thesis by (cases g) (simp_all add: parse_range_def)
next
  case False
  then have "(case ts of TEqual # _ \<Rightarrow> True | _ \<Rightarrow> False) = False"
    by (auto split: list.splits Token.splits)
  with assms parse_range_value_sound [where ts = ts and f = f and e = e and rest = rest and
      c = "if g then GreaterThan else LessThan"]
  show ?thesis by (cases g) (simp_all add: parse_range_def)
qed

lemma parse_field_expression_sound:
  assumes "parse_field_expression f ts = Inr (e, rest)" "list_all token_wf ts"
  shows "field_tokens (Some f) @ ts = expression_tokens e @ rest \<and> expression_valid e"
proof (cases ts)
  case Nil
  with assms show ?thesis by (simp add: parse_field_expression_def)
next
  case (Cons t ts')
  with assms show ?thesis
    using parse_string_value_sound [where f = "Some f" and ts = ts' and e = e and rest = rest]
      parse_range_sound [where f = f and g = True and ts = ts' and e = e and rest = rest]
      parse_range_sound [where f = f and g = False and ts = ts' and e = e and rest = rest]
    by (cases t) (auto simp: parse_field_expression_def dest!: negated_number_sound)
qed

lemma parse_expression_sound:
  assumes "parse_expression ts = Inr (e, rest)" "list_all token_wf ts"
  shows "ts = expression_tokens e @ rest \<and> expression_valid e"
proof (cases ts)
  case Nil
  with assms show ?thesis by (simp add: parse_expression_def)
next
  case (Cons t ts')
  show ?thesis
  proof (cases t)
    case (TString v)
    show ?thesis
    proof (cases "\<exists>us. ts' = TColon # us")
      case True
      with Cons TString assms show ?thesis
        using parse_field_expression_sound [of v _ e rest] by (auto simp: parse_expression_def)
    next
      case False
      then have "parse_expression ts = parse_string_value None v ts'"
        by (cases ts' rule: ends_expression.cases) (auto simp: parse_expression_def Cons TString)
      with Cons TString assms show ?thesis using parse_string_value_sound [of None v ts' e rest] by simp
    qed
  qed (use Cons assms in \<open>auto simp: parse_expression_def\<close>)
qed

lemma parse_occur_sound: "parse_occur ts = (k, rest) \<Longrightarrow> ts = occur_tokens k @ rest"
  by (auto simp: parse_occur_def split: list.splits Token.splits)

lemma parse_boost_sound:
  "parse_boost ts = Inr (b, rest) \<Longrightarrow>
     ts = (case b of None \<Rightarrow> [] | Some v \<Rightarrow> [TBoost v]) @ rest \<and>
     (case b of None \<Rightarrow> True | Some v \<Rightarrow> parses_as_f64 v)"
  by (auto simp: parse_boost_def split: list.splits Token.splits)

lemma parse_clause_sound:
  assumes "parse_clause ts = Inr (c, rest)" "list_all token_wf ts"
  shows "ts = clause_tokens c @ rest \<and> clause_valid c"
proof -
  obtain k ts1 where k: "parse_occur ts = (k, ts1)" by force
  with assms obtain e ts2 b where e: "parse_expression ts1 = Inr (e, ts2)"
      and b: "parse_boost ts2 = Inr (b, rest)"
      and c: "c = \<lparr>cl_occur = k, cl_expression = e, cl_boost = b\<rparr>"
    by (auto simp: parse_clause_def)
  have "ts = occur_tokens k @ ts1" by (rule parse_occur_sound [OF k])
  moreover from this assms(2) have "ts1 = expression_tokens e @ ts2 \<and> expression_valid e"
    by (intro parse_expression_sound [OF e]) simp
  ultimately show ?thesis
    using parse_boost_sound [OF b] by (simp add: c clause_tokens_def clause_valid_def)
qed

lemma parse_clauses_sound:
  "parse_clauses limits done ts = Inr q \<Longrightarrow> list_all token_wf ts \<Longrightarrow>
     \<exists>cs. q = Boolean (done @ cs) \<and> ts = query_tokens cs \<and> list_all clause_valid cs \<and>
       (cs = [] \<or> length done + length cs \<le> max_clauses limits)"
proof (induction limits "done" ts rule: parse_clauses.induct)
  case (1 limits ds ts)
  show ?case
  proof (cases "ts = []")
    case True
    with 1(2) show ?thesis by (intro exI [of _ "[]"]) (simp add: parse_clauses.simps)
  next
    case False
    with 1(2) obtain c rest where c: "parse_clause ts = Inr (c, rest)"
        and room: "length ds < max_clauses limits"
        and rec: "parse_clauses limits (ds @ [c]) rest = Inr q"
      by (subst (asm) parse_clauses.simps) (auto split: if_splits)
    have ts: "ts = clause_tokens c @ rest" "clause_valid c"
      using parse_clause_sound [OF c 1(3)] by auto
    have "list_all token_wf rest" using 1(3) ts(1) by simp
    then obtain cs where "q = Boolean ((ds @ [c]) @ cs)" "rest = query_tokens cs"
        "list_all clause_valid cs" "cs = [] \<or> length (ds @ [c]) + length cs \<le> max_clauses limits"
      using 1(1) [OF False _ c refl rec] room by auto
    with ts room show ?thesis by (intro exI [of _ "c # cs"]) auto
  qed
qed

subsection \<open>What the lexer produces\<close>

lemma str_len_append [simp]: "str_len (v @ w) = str_len v + str_len w"
  by (simp add: str_len_def)

lemma str_len_Cons [simp]: "str_len (c # v) = char_len_utf8 c + str_len v"
  by (simp add: str_len_def)

lemma push_checked_Inr:
  "push_checked limits v u = Inr w \<longleftrightarrow> w = v @ u \<and> str_len v + str_len u \<le> max_token_bytes limits"
  by (auto simp: push_checked_def)

lemma push_char_checked_Inr:
  "push_char_checked limits v c = Inr w \<longleftrightarrow>
     w = v @ [c] \<and> str_len v + char_len_utf8 c \<le> max_token_bytes limits"
  by (auto simp: push_char_checked_def)

lemmas push_Inr = push_checked_Inr push_char_checked_Inr

fun token_text :: "Token \<Rightarrow> rstring" where
  "token_text (TString v) = v"
| "token_text (TPhrase v) = v"
| "token_text (TNumber v) = v"
| "token_text (TTilde v) = v"
| "token_text (TBoost v) = v"
| "token_text _ = []"

lemma read_phrase_bound:
  "read_phrase limits v x cs = Inr (w, rest) \<Longrightarrow>
     str_len w \<le> max (str_len v) (max_token_bytes limits)"
  by (induction limits v x cs rule: read_phrase.induct) (fastforce simp: push_Inr split: if_splits)+

lemma default_suffix_bound: "str_len (default_suffix v) \<le> max (str_len v) 1"
  by (simp add: default_suffix_def char_len_utf8_def)

lemma read_suffix_bound:
  "read_suffix limits v cs = Inr (w, rest) \<Longrightarrow>
     str_len w \<le> max (max (str_len v) 1) (max_token_bytes limits)"
proof (induction limits v cs rule: read_suffix.induct)
  case (2 limits v c cs)
  then show ?case using default_suffix_bound [of v]
    by (fastforce simp: push_Inr split: if_splits list.splits)
next
  case (1 limits v)
  then show ?case using default_suffix_bound [of v] by auto
qed

lemma read_word_bound:
  "read_word limits v n d cs = Inr ((w, b), rest) \<Longrightarrow>
     str_len w \<le> max (str_len v) (max_token_bytes limits) \<and> (\<exists>u. w = v @ u)"
  by (induction limits v n d cs rule: read_word.induct)
    (fastforce simp: push_Inr split: if_splits list.splits)+

lemma read_string_continuation_bound:
  "read_string_continuation limits v cs = Inr (w, rest) \<Longrightarrow>
     str_len w \<le> max (str_len v) (max_token_bytes limits)"
  by (induction limits v cs rule: read_string_continuation.induct)
    (fastforce simp: push_Inr split: if_splits list.splits)+

lemma unescape_bound: "str_len (unescape c) \<le> 5"
  by (simp add: unescape_def char_len_utf8_def)

lemma read_escaped_bound:
  "read_string_continuation limits (unescape c) cs = Inr (w, rest) \<Longrightarrow>
     str_len w \<le> max 5 (max_token_bytes limits)"
  using read_string_continuation_bound [of limits "unescape c" cs w rest] unescape_bound [of c]
  by linarith

lemma read_number_start:
  assumes "read_word limits [] True False (c # cs) = Inr ((w, b), rest)" "is_ascii_digit c"
  shows "w \<noteq> [] \<and> hd w \<noteq> MINUS"
proof -
  have "\<not> ends_word c" "c \<noteq> BACKSLASH" "c \<noteq> MINUS"
    using assms(2) by (auto simp: is_ascii_digit_def ends_word_def)
  with assms obtain v where "push_char_checked limits [] c = Inr v"
      "read_word limits v True False cs = Inr ((w, b), rest)"
    by auto
  with read_word_bound [of limits v True False cs w b rest] \<open>c \<noteq> MINUS\<close>
  show ?thesis by (auto simp: push_Inr)
qed

lemma lex_token_sound:
  assumes "lex_token limits c cs = Inr (t, rest)"
  shows "token_wf t \<and> str_len (token_text t) \<le> max 5 (max_token_bytes limits)"
  using assms unfolding lex_token_def
  by (simp only: split: if_split_asm list.splits;
    (fastforce simp del: read_word.simps dest: read_number_start read_word_bound read_phrase_bound
      read_suffix_bound read_escaped_bound)?)

lemma lex_from_sound:
  "lex_from limits tokens cs = Inr ts \<Longrightarrow> length tokens \<le> max_tokens limits \<Longrightarrow>
     list_all (\<lambda>t. token_wf t \<and> str_len (token_text t) \<le> max 5 (max_token_bytes limits)) tokens \<Longrightarrow>
     length ts \<le> max_tokens limits \<and>
     list_all (\<lambda>t. token_wf t \<and> str_len (token_text t) \<le> max 5 (max_token_bytes limits)) ts"
proof (induction limits tokens cs rule: lex_from.induct)
  case (2 limits tokens c cs)
  show ?case
  proof (cases "char_is_whitespace c")
    case True
    with 2 show ?thesis by simp
  next
    case False
    with 2(3) obtain t rest where t: "lex_token limits c cs = Inr (t, rest)"
        "length (tokens @ [t]) \<le> max_tokens limits" "lex_from limits (tokens @ [t]) rest = Inr ts"
      by (auto simp: Let_def split: if_splits)
    with 2(2) [OF False t(1) refl refl] 2(5) lex_token_sound [OF t(1)] show ?thesis by simp
  qed
qed simp

text \<open>
  What the parser returns is what the input says, valid and within the limits. A boolean
  query has between one and \<open>max_clauses\<close> clauses; its printed clauses are exactly the tokens
  of the input, at most \<open>max_tokens\<close>, none longer than the token limit (or five bytes, where
  the limit is smaller); every number parses as a float, every date of a range is a date,
  every term has the kind its text shows. \<open>MatchNone\<close> is the empty input only, \<open>MatchAll\<close> the
  single star.
\<close>

theorem query_parse_sound:
  assumes "parse_query input limits = Inr q"
  shows "str_len input \<le> max_query_bytes limits \<and>
    (case q of MatchNone \<Rightarrow> input = [] | MatchAll \<Rightarrow> input = [STAR]
     | Boolean cs \<Rightarrow> cs \<noteq> [] \<and> length cs \<le> max_clauses limits \<and> list_all clause_valid cs \<and>
         lex input limits = Inr (query_tokens cs) \<and>
         length (query_tokens cs) \<le> max_tokens limits \<and>
         list_all (\<lambda>t. str_len (token_text t) \<le> max 5 (max_token_bytes limits)) (query_tokens cs))"
proof -
  have len: "str_len input \<le> max_query_bytes limits"
    using assms by (auto simp: parse_query_def split: if_splits)
  consider "input = []" | "input = [STAR]" | "input \<noteq> []" "input \<noteq> [STAR]" by blast
  then show ?thesis
  proof cases
    case 3
    with assms obtain ts where ts: "lex input limits = Inr ts" "ts \<noteq> []"
        "parse_clauses limits [] ts = Inr q"
      by (auto simp: parse_query_def split: if_splits)
    have lexed: "length ts \<le> max_tokens limits"
        "list_all (\<lambda>t. token_wf t \<and> str_len (token_text t) \<le> max 5 (max_token_bytes limits)) ts"
      using lex_from_sound [of limits "[]" input ts] ts(1) by (simp_all add: lex_def)
    have "list_all token_wf ts" using lexed(2) by (auto simp: list_all_iff)
    with parse_clauses_sound [OF ts(3)] obtain cs where cs: "q = Boolean cs" "ts = query_tokens cs"
        "list_all clause_valid cs" "cs = [] \<or> length cs \<le> max_clauses limits"
      by auto
    moreover have "list_all (\<lambda>t. str_len (token_text t) \<le> max 5 (max_token_bytes limits)) ts"
      using lexed(2) by (auto simp: list_all_iff)
    ultimately show ?thesis using len ts lexed(1) by auto
  qed (use assms len in \<open>auto simp: parse_query_def\<close>)
qed

subsection \<open>The lexer inverts the printer\<close>

definition escape :: "rstring \<Rightarrow> rstring" where
  "escape v = concat (map (\<lambda>c. if c \<in> set RESERVED_CHARS then [BACKSLASH, c] else [c]) v)"

definition number_text :: "rstring \<Rightarrow> bool" where
  "number_text v \<longleftrightarrow> v \<noteq> [] \<and> is_ascii_digit (hd v) \<and>
     list_all (\<lambda>c. is_ascii_digit c \<or> c = DOT) v \<and> length (filter (\<lambda>c. c = DOT) v) \<le> 1"

text \<open>A token that has a text, and its text, followed by a space.\<close>

fun printable :: "QueryLimits \<Rightarrow> Token \<Rightarrow> bool" where
  "printable limits (TString v) \<longleftrightarrow> v \<noteq> [] \<and> str_len v \<le> max_token_bytes limits \<and>
     (hd v \<in> set RESERVED_CHARS \<or> \<not> char_is_whitespace (hd v) \<and> \<not> is_ascii_digit (hd v))"
| "printable limits (TPhrase v) \<longleftrightarrow> str_len v \<le> max_token_bytes limits"
| "printable limits (TNumber v) \<longleftrightarrow> number_text v \<and> str_len v \<le> max_token_bytes limits"
| "printable limits (TTilde v) \<longleftrightarrow> v \<noteq> [] \<and> str_len v \<le> max_token_bytes limits"
| "printable limits (TBoost v) \<longleftrightarrow> v \<noteq> [] \<and> str_len v \<le> max_token_bytes limits"
| "printable limits _ \<longleftrightarrow> True"

fun print_token :: "Token \<Rightarrow> rstring" where
  "print_token (TString v) = escape v"
| "print_token (TPhrase v) = QUOTE # escape v @ [QUOTE]"
| "print_token (TNumber v) = v"
| "print_token TPlus = [PLUS]"
| "print_token TMinus = [MINUS]"
| "print_token TColon = [COLON]"
| "print_token TGreater = [GREATER]"
| "print_token TLess = [LESS]"
| "print_token TEqual = [EQUAL]"
| "print_token (TTilde v) = TILDE # escape v"
| "print_token (TBoost v) = CARET # escape v"

definition print_query :: "Clause list \<Rightarrow> rstring" where
  "print_query cs = concat (map (\<lambda>t. print_token t @ [SPACE]) (query_tokens cs))"

lemma reserved: "c \<in> set RESERVED_CHARS \<longleftrightarrow> c \<in> {SPACE, 33, QUOTE, 38, 40, 41, STAR, PLUS, MINUS, SLASH,
    COLON, LESS, EQUAL, GREATER, QUESTION, 91, BACKSLASH, 93, CARET, 123, 124, 125, TILDE}"
  by (auto simp: RESERVED_CHARS_def)

lemma escape_Nil [simp]: "escape [] = []"
  by (simp add: escape_def)

lemma escape_Cons:
  "escape (c # v) = (if c \<in> set RESERVED_CHARS then BACKSLASH # c # escape v else c # escape v)"
  by (simp add: escape_def)

lemma read_string_continuation_print:
  "str_len w + str_len v \<le> max_token_bytes limits \<Longrightarrow>
     read_string_continuation limits w (escape v @ SPACE # zs) = Inr (w @ v, SPACE # zs)"
  by (induction v arbitrary: w)
    (auto simp: escape_Cons ends_word_def push_checked_def push_char_checked_def unescape_def reserved)

lemma read_word_print:
  "str_len w + str_len v \<le> max_token_bytes limits \<Longrightarrow>
     read_word limits w False d (escape v @ SPACE # zs) = Inr ((w @ v, False), SPACE # zs)"
  by (induction v arbitrary: w)
    (auto simp: escape_Cons ends_word_def push_checked_def push_char_checked_def unescape_def reserved)

lemma read_suffix_print:
  "str_len w + str_len v \<le> max_token_bytes limits \<Longrightarrow>
     read_suffix limits w (escape v @ SPACE # zs) = Inr (default_suffix (w @ v), zs)"
  by (induction v arbitrary: w)
    (auto simp: escape_Cons push_checked_def push_char_checked_def unescape_def reserved)

lemma read_phrase_print:
  "str_len w + str_len v \<le> max_token_bytes limits \<Longrightarrow>
     read_phrase limits w False (escape v @ QUOTE # zs) = Inr (w @ v, zs)"
  by (induction v arbitrary: w)
    (auto simp: escape_Cons push_checked_def push_char_checked_def unescape_def reserved)

lemma read_number_print:
  "str_len w + str_len v \<le> max_token_bytes limits \<Longrightarrow>
     list_all (\<lambda>c. is_ascii_digit c \<or> c = DOT) v \<Longrightarrow>
     length (filter (\<lambda>c. c = DOT) v) \<le> (if d then 0 else 1) \<Longrightarrow>
     read_word limits w True d (v @ SPACE # zs) = Inr ((w @ v, True), SPACE # zs)"
proof (induction v arbitrary: w d)
  case (Cons c v)
  then have "\<not> ends_word c" "c \<noteq> BACKSLASH" by (auto simp: ends_word_def is_ascii_digit_def)
  with Cons show ?case
    by (auto simp: push_char_checked_def is_ascii_digit_def split: if_splits)
qed (simp add: ends_word_def)

lemma print_token_start:
  assumes "printable limits t"
  obtains c cs where "print_token t = c # cs" "\<not> char_is_whitespace c"
proof (cases t)
  case (TString v)
  then obtain d u where v: "v = d # u" using assms by (cases v) auto
  show ?thesis
  proof (cases "d \<in> set RESERVED_CHARS")
    case True
    with TString v that [of BACKSLASH "d # escape u"] show ?thesis
      by (simp add: escape_Cons char_is_whitespace_def)
  next
    case False
    with TString v assms that [of d "escape u"] show ?thesis by (simp add: escape_Cons)
  qed
next
  case (TNumber v)
  then obtain d u where v: "v = d # u" "is_ascii_digit d"
    using assms by (cases v) (auto simp: number_text_def)
  then have "\<not> char_is_whitespace d"
    by (simp add: is_ascii_digit_def char_is_whitespace_def) unat_arith
  with TNumber v that show ?thesis by simp
qed (use that in \<open>auto simp: char_is_whitespace_def\<close>)

lemma lex_token_print:
  assumes "printable limits t" "print_token t = c # cs"
  shows "\<exists>rest. lex_token limits c (cs @ SPACE # zs) = Inr (t, rest) \<and> (rest = zs \<or> rest = SPACE # zs)"
proof (cases t)
  case (TString v)
  then obtain d u where v: "v = d # u" using assms by (cases v) auto
  show ?thesis
  proof (cases "d \<in> set RESERVED_CHARS")
    case True
    with TString v assms have "c = BACKSLASH" "cs = d # escape u" by (simp_all add: escape_Cons)
    with True TString v assms show ?thesis
      using read_string_continuation_print [of "[d]" u limits zs]
      by (simp add: lex_token_def unescape_def)
  next
    case False
    with TString v assms have c: "c = d" "cs = escape u" by (simp_all add: escape_Cons)
    have "read_word limits [] False False (c # cs @ SPACE # zs) = Inr ((v, False), SPACE # zs)"
      using read_word_print [of "[]" v limits False zs] TString v assms False c
      by (simp add: escape_Cons del: read_word.simps)
    moreover have "\<not> is_ascii_digit c" using False TString v assms c by simp
    moreover have "c \<noteq> QUOTE" "c \<noteq> PLUS" "c \<noteq> MINUS" "c \<noteq> COLON" "c \<noteq> GREATER" "c \<noteq> LESS"
        "c \<noteq> EQUAL" "c \<noteq> CARET" "c \<noteq> TILDE" "c \<noteq> BACKSLASH"
      using False c by (auto simp: reserved)
    ultimately show ?thesis using TString by (simp add: lex_token_def del: read_word.simps)
  qed
next
  case (TNumber v)
  then have v: "c # cs = v" "number_text v" "is_ascii_digit c"
    using assms by (auto simp: number_text_def)
  then have "read_word limits [] True False (c # cs @ SPACE # zs) = Inr ((v, True), SPACE # zs)"
    using read_number_print [of "[]" v limits False zs] TNumber assms
    by (auto simp: number_text_def simp del: read_word.simps)
  moreover have "c \<noteq> QUOTE" "c \<noteq> PLUS" "c \<noteq> MINUS" "c \<noteq> COLON" "c \<noteq> GREATER" "c \<noteq> LESS"
      "c \<noteq> EQUAL" "c \<noteq> CARET" "c \<noteq> TILDE" "c \<noteq> BACKSLASH"
    using v(3) by (auto simp: is_ascii_digit_def)
  ultimately show ?thesis using TNumber v(3) by (simp add: lex_token_def del: read_word.simps)
next
  case (TPhrase v)
  with assms show ?thesis
    using read_phrase_print [of "[]" v limits "SPACE # zs"] by (auto simp: lex_token_def)
next
  case (TTilde v)
  with assms show ?thesis
    using read_suffix_print [of "[]" v limits zs] by (auto simp: lex_token_def default_suffix_def)
next
  case (TBoost v)
  with assms show ?thesis
    using read_suffix_print [of "[]" v limits zs] by (auto simp: lex_token_def default_suffix_def)
qed (use assms in \<open>auto simp: lex_token_def\<close>)

lemma lex_print:
  "list_all (printable limits) ts \<Longrightarrow> length tokens + length ts \<le> max_tokens limits \<Longrightarrow>
     lex_from limits tokens (concat (map (\<lambda>t. print_token t @ [SPACE]) ts)) = Inr (tokens @ ts)"
proof (induction ts arbitrary: tokens)
  case (Cons t ts)
  let ?zs = "concat (map (\<lambda>t. print_token t @ [SPACE]) ts)"
  obtain c cs where c: "print_token t = c # cs" "\<not> char_is_whitespace c"
    using print_token_start Cons.prems(1) by (metis list.pred_inject(2))
  then obtain rest where rest: "lex_token limits c (cs @ SPACE # ?zs) = Inr (t, rest)"
      "rest = ?zs \<or> rest = SPACE # ?zs"
    using lex_token_print [of limits t c cs ?zs] Cons.prems(1) by auto
  have "char_is_whitespace SPACE" by (simp add: char_is_whitespace_def)
  with rest(2) Cons have "lex_from limits (tokens @ [t]) rest = Inr ((tokens @ [t]) @ ts)" by auto
  with rest(1) c Cons.prems(2) show ?case by (simp add: Let_def)
qed simp

text \<open>
  C21: Queries round-trip: a boolean query whose clauses are valid, whose tokens have a text and
  which fits the limits is parsed back from its printed form.
\<close>

theorem query_roundtrip:
  assumes "cs \<noteq> []" and "list_all clause_valid cs" and "list_all (printable limits) (query_tokens cs)"
    and "length cs \<le> max_clauses limits" and "length (query_tokens cs) \<le> max_tokens limits"
    and "str_len (print_query cs) \<le> max_query_bytes limits"
  shows "parse_query (print_query cs) limits = Inr (Boolean cs)"
proof -
  have ne: "query_tokens cs \<noteq> []"
    using assms(1) clause_tokens_start by (cases cs) auto
  then obtain t ts where t: "query_tokens cs = t # ts" by (cases "query_tokens cs") auto
  then have "print_token t \<noteq> []"
    using assms(3) print_token_start [of limits t] by (metis list.distinct(1) list.pred_inject(2))
  then have "print_query cs \<noteq> []" "print_query cs \<noteq> [STAR]"
    by (auto simp: print_query_def t append_eq_Cons_conv)
  moreover have "lex (print_query cs) limits = Inr (query_tokens cs)"
    using lex_print [OF assms(3), of "[]"] assms(5) by (simp add: lex_def print_query_def)
  moreover have "parse_clauses limits [] (query_tokens cs) = Inr (Boolean cs)"
    using parse_clauses_print [OF assms(2), of "[]" limits] assms(4) by simp
  ultimately show ?thesis
    using assms(6) ne by (simp add: parse_query_def)
qed

subsection \<open>Witnesses\<close>

text \<open>\<open>+name:a\:b^2 -"x y" level:>=-1.5\<close>\<close>

definition wit_clauses :: "Clause list" where
  "wit_clauses =
    [\<lparr>cl_occur = Must, cl_expression = Term (Some (map of_char ''name'')) (map of_char ''a:b'') Match,
      cl_boost = Some (map of_char ''2'')\<rparr>,
     \<lparr>cl_occur = MustNot, cl_expression = Phrase None (map of_char ''x y''), cl_boost = None\<rparr>,
     \<lparr>cl_occur = Should, cl_expression =
        NumericRange (map of_char ''level'') GreaterThanOrEqual (map of_char ''-1.5''),
      cl_boost = None\<rparr>]"

lemma wit_clauses_ok:
  "list_all clause_valid wit_clauses"
  "list_all (printable QueryLimits_default) (query_tokens wit_clauses)"
  "length (query_tokens wit_clauses) = 13" "length wit_clauses = 3" "wit_clauses \<noteq> []"
  "str_len (print_query wit_clauses) \<le> 4096"
  by (simp_all add: wit_clauses_def clause_valid_def clause_tokens_def parse_term_def
    parses_as_f64_def is_unsigned_number_def is_exponent_def is_ascii_digit_def Let_def
    QueryLimits_default_def char_is_whitespace_def number_text_def reserved char_len_utf8_def
    print_query_def escape_Cons)

theorem query_roundtrip_witness:
  "parse_query (print_query wit_clauses) QueryLimits_default = Inr (Boolean wit_clauses)"
  using wit_clauses_ok by (intro query_roundtrip) (simp_all add: QueryLimits_default_def)

theorem query_parse_sound_witness: "lex [STAR, STAR] QueryLimits_default = Inr [TString [STAR, STAR]]"
proof -
  have "parse_query [STAR, STAR] QueryLimits_default =
      Inr (Boolean [\<lparr>cl_occur = Should, cl_expression = Term None [STAR, STAR] Wildcard,
        cl_boost = None\<rparr>])"
    by (simp add: parse_query_def QueryLimits_default_def lex_def lex_token_def char_is_whitespace_def
      is_ascii_digit_def ends_word_def push_char_checked_def char_len_utf8_def parse_clauses.simps
      parse_clause_def parse_occur_def parse_expression_def parse_string_value_def parse_term_def
      parse_boost_def Let_def)
  from query_parse_sound [OF this] show ?thesis by (simp add: clause_tokens_def)
qed

text \<open>
  The token limit does not hold for a token that starts with an escape: its first character
  is taken over unchecked.
\<close>

lemma leading_escape_unchecked:
  "lex [BACKSLASH, 97] \<lparr>max_query_bytes = 4096, max_token_bytes = 1, max_tokens = 1, max_clauses = 1\<rparr> =
     Inr [TString [BACKSLASH, 97]] \<and> str_len [BACKSLASH, 97] = 2"
  by (simp add: lex_def lex_token_def char_is_whitespace_def is_ascii_digit_def unescape_def reserved
    char_len_utf8_def)

end
