(* ===== verification/Presence_Types.thy ===== *)
theory Presence_Types
  imports Rust_Text "HOL-Library.List_Lexorder" "HOL-Library.Product_Lexorder"
begin

text \<open>
  The data of \<open>crates/trnm-presence-router-v2\<close> (\<open>src/types.rs\<close>, \<open>src/router/delta.rs\<close>,
  \<open>src/router/error.rs\<close>): bounded identifiers, positive generations, streams, presence
  requests and records, deltas and errors. A newtype is the type it wraps together with its
  constructor function. \<open>ConnectionRef\<close>, \<open>StreamKey\<close> and \<open>PresenceKey\<close> are keys of ordered
  maps and carry the derived lexicographic order of their fields; strings are ordered by
  scalar values, which is the byte order of their UTF-8 forms.
\<close>

subsection \<open>Bounded text\<close>

definition MAX_CONNECTION_ID_BYTES :: usize where "MAX_CONNECTION_ID_BYTES = 128"
definition MAX_NODE_ID_BYTES :: usize where "MAX_NODE_ID_BYTES = 128"
definition MAX_USER_ID_BYTES :: usize where "MAX_USER_ID_BYTES = 128"
definition MAX_SESSION_ID_BYTES :: usize where "MAX_SESSION_ID_BYTES = 128"
definition MAX_USERNAME_BYTES :: usize where "MAX_USERNAME_BYTES = 256"
definition MAX_STATUS_BYTES :: usize where "MAX_STATUS_BYTES = 512"
definition MAX_STREAM_LABEL_BYTES :: usize where "MAX_STREAM_LABEL_BYTES = 256"

datatype ValidationError =
    VEmpty string
  | VTooLong string usize usize
  | VControlCharacter string
  | VZeroGeneration
  | VInvalidStreamMode

definition presence_validate_text ::
    "string \<Rightarrow> rstring \<Rightarrow> usize \<Rightarrow> bool \<Rightarrow> ValidationError + unit" where
  "presence_validate_text field str limit allow_empty =
     (if \<not> allow_empty \<and> str = [] then Inl (VEmpty field)
      else if limit < str_len str then Inl (VTooLong field limit (str_len str))
      else if list_ex char_is_control str then Inl (VControlCharacter field)
      else Inr ())"

text \<open>\<open>bounded_identifier!\<close>: the constructor each identifier type is generated with.\<close>

definition bounded_identifier_new :: "string \<Rightarrow> usize \<Rightarrow> rstring \<Rightarrow> ValidationError + rstring" where
  "bounded_identifier_new field limit str =
     tryE (presence_validate_text field str limit False) (\<lambda>_. Inr str)"

definition ConnectionId_new :: "rstring \<Rightarrow> ValidationError + rstring" where
  "ConnectionId_new = bounded_identifier_new ''connection_id'' MAX_CONNECTION_ID_BYTES"

definition NodeId_new :: "rstring \<Rightarrow> ValidationError + rstring" where
  "NodeId_new = bounded_identifier_new ''node_id'' MAX_NODE_ID_BYTES"

definition UserId_new :: "rstring \<Rightarrow> ValidationError + rstring" where
  "UserId_new = bounded_identifier_new ''user_id'' MAX_USER_ID_BYTES"

definition SessionId_new :: "rstring \<Rightarrow> ValidationError + rstring" where
  "SessionId_new = bounded_identifier_new ''session_id'' MAX_SESSION_ID_BYTES"

definition Username_new :: "rstring \<Rightarrow> ValidationError + rstring" where
  "Username_new = bounded_identifier_new ''username'' MAX_USERNAME_BYTES"

definition ConnectionGeneration_new :: "u64 \<Rightarrow> ValidationError + u64" where
  "ConnectionGeneration_new v = (if v = 0 then Inl VZeroGeneration else Inr v)"

definition PresenceStatus_new :: "rstring \<Rightarrow> ValidationError + rstring" where
  "PresenceStatus_new str =
     tryE (presence_validate_text ''status'' str MAX_STATUS_BYTES True) (\<lambda>_. Inr str)"

lemma presence_validate_text_iff:
  "presence_validate_text field s limit allow_empty = Inr u \<longleftrightarrow>
     (allow_empty \<or> s \<noteq> []) \<and> str_len s \<le> limit \<and> \<not> list_ex char_is_control s"
  by (auto simp: presence_validate_text_def)

subsection \<open>Streams, connections, keys\<close>

datatype StreamKey = StreamKey
  (sk_mode: u8) (sk_subject: id16) (sk_subcontext: id16) (sk_label: rstring)

definition StreamKey_new :: "u8 \<Rightarrow> id16 \<Rightarrow> id16 \<Rightarrow> rstring \<Rightarrow> ValidationError + StreamKey" where
  "StreamKey_new mode subject subcontext label =
     (if mode = 0 then Inl VInvalidStreamMode
      else tryE (presence_validate_text ''stream.label'' label MAX_STREAM_LABEL_BYTES True) (\<lambda>_.
        Inr (StreamKey mode subject subcontext label)))"

datatype ConnectionRef = ConnectionRef (cr_node_id: rstring) (cr_connection_id: rstring)

datatype PresenceKey = PresenceKey (pk_connection: ConnectionRef) (pk_stream: StreamKey)

definition stream_tuple :: "StreamKey \<Rightarrow> u8 \<times> id16 \<times> id16 \<times> rstring" where
  "stream_tuple k = (sk_mode k, sk_subject k, sk_subcontext k, sk_label k)"

lemma stream_tuple_inject: "stream_tuple x = stream_tuple y \<longleftrightarrow> x = y"
  by (auto simp: stream_tuple_def intro: StreamKey.expand)

instantiation StreamKey :: linorder
begin

definition less_eq_StreamKey :: "StreamKey \<Rightarrow> StreamKey \<Rightarrow> bool" where
  "less_eq_StreamKey p q \<longleftrightarrow> stream_tuple p \<le> stream_tuple q"

definition less_StreamKey :: "StreamKey \<Rightarrow> StreamKey \<Rightarrow> bool" where
  "less_StreamKey p q \<longleftrightarrow> stream_tuple p < stream_tuple q"

instance
  by standard (auto simp: less_eq_StreamKey_def less_StreamKey_def stream_tuple_inject
      intro: order_trans dest: order_antisym)

end

definition connection_tuple :: "ConnectionRef \<Rightarrow> rstring \<times> rstring" where
  "connection_tuple c = (cr_node_id c, cr_connection_id c)"

lemma connection_tuple_inject: "connection_tuple x = connection_tuple y \<longleftrightarrow> x = y"
  by (auto simp: connection_tuple_def intro: ConnectionRef.expand)

instantiation ConnectionRef :: linorder
begin

definition less_eq_ConnectionRef :: "ConnectionRef \<Rightarrow> ConnectionRef \<Rightarrow> bool" where
  "less_eq_ConnectionRef p q \<longleftrightarrow> connection_tuple p \<le> connection_tuple q"

definition less_ConnectionRef :: "ConnectionRef \<Rightarrow> ConnectionRef \<Rightarrow> bool" where
  "less_ConnectionRef p q \<longleftrightarrow> connection_tuple p < connection_tuple q"

instance
  by standard (auto simp: less_eq_ConnectionRef_def less_ConnectionRef_def connection_tuple_inject
      intro: order_trans dest: order_antisym)

end

definition key_tuple :: "PresenceKey \<Rightarrow> ConnectionRef \<times> StreamKey" where
  "key_tuple k = (pk_connection k, pk_stream k)"

lemma key_tuple_inject: "key_tuple x = key_tuple y \<longleftrightarrow> x = y"
  by (auto simp: key_tuple_def intro: PresenceKey.expand)

instantiation PresenceKey :: linorder
begin

definition less_eq_PresenceKey :: "PresenceKey \<Rightarrow> PresenceKey \<Rightarrow> bool" where
  "less_eq_PresenceKey p q \<longleftrightarrow> key_tuple p \<le> key_tuple q"

definition less_PresenceKey :: "PresenceKey \<Rightarrow> PresenceKey \<Rightarrow> bool" where
  "less_PresenceKey p q \<longleftrightarrow> key_tuple p < key_tuple q"

instance
  by standard (auto simp: less_eq_PresenceKey_def less_PresenceKey_def key_tuple_inject
      intro: order_trans dest: order_antisym)

end

subsection \<open>Requests, records, deltas and errors\<close>

record PresenceIdentity =
  pi_user_id :: rstring
  pi_session_id :: rstring
  pi_username :: rstring

record JoinPresenceRequest =
  jp_connection :: ConnectionRef
  jp_generation :: u64
  jp_stream :: StreamKey
  jp_identity :: PresenceIdentity
  jp_status :: rstring
  jp_hidden :: bool

record UpdatePresenceRequest =
  up_connection :: ConnectionRef
  up_generation :: u64
  up_stream :: StreamKey
  up_status :: rstring
  up_hidden :: bool

record LeavePresenceRequest =
  lp_connection :: ConnectionRef
  lp_generation :: u64
  lp_stream :: StreamKey

record RemoveConnectionRequest =
  rc_connection :: ConnectionRef
  rc_generation :: u64

datatype SnapshotVisibility = PublicOnly | IncludeHidden

record PresenceRecord =
  pc_connection :: ConnectionRef
  pc_generation :: u64
  pc_stream :: StreamKey
  pc_identity :: PresenceIdentity
  pc_status :: rstring
  pc_hidden :: bool

datatype MutationDisposition = MutApplied | MutIdempotent

record PresenceDelta =
  pd_disposition :: MutationDisposition
  pd_revision :: "u64 option"
  pd_joins :: "PresenceRecord list"
  pd_updates :: "PresenceRecord list"
  pd_leaves :: "PresenceRecord list"
  pd_hidden_changes :: usize

definition delta_idempotent :: PresenceDelta where
  "delta_idempotent = \<lparr>pd_disposition = MutIdempotent, pd_revision = None, pd_joins = [],
     pd_updates = [], pd_leaves = [], pd_hidden_changes = 0\<rparr>"

definition delta_applied ::
    "u64 \<Rightarrow> PresenceRecord list \<Rightarrow> PresenceRecord list \<Rightarrow> PresenceRecord list \<Rightarrow> usize \<Rightarrow> PresenceDelta" where
  "delta_applied revision joins updates leaves hidden_changes =
     \<lparr>pd_disposition = MutApplied, pd_revision = Some revision, pd_joins = joins,
      pd_updates = updates, pd_leaves = leaves, pd_hidden_changes = hidden_changes\<rparr>"

datatype PresenceError =
    GenerationNotEstablished ConnectionRef u64
  | StaleGeneration ConnectionRef u64 u64
  | GenerationAhead ConnectionRef u64 u64
  | IdentityConflict ConnectionRef PresenceIdentity PresenceIdentity
  | PresenceNotJoined ConnectionRef StreamKey
  | PresenceRevisionExhausted
  | PresenceInvariantViolation string

end
