(* ===== verification/Presence_Router.thy ===== *)
theory Presence_Router
  imports Presence_Types Machine
begin

text \<open>
  The presence router (\<open>crates/trnm-presence-router-v2/src/router/state.rs\<close>): for every
  connection the highest generation seen and the identity bound to it, and the presence
  records that this generation joined, by connection and stream. Operations return the
  router beside the result, an error may in principle leave it half changed; that it does
  not is proved. The \<open>debug_assert!\<close> calls of the source are not part of a release build
  and not modelled.
\<close>

subsection \<open>State\<close>

record ConnectionState =
  cs_generation :: u64
  cs_identity :: PresenceIdentity

record PresenceRouter =
  pr_revision :: u64
  pr_connections :: "(ConnectionRef, ConnectionState) fmap"
  pr_entries :: "(PresenceKey, PresenceRecord) fmap"

definition router_new :: PresenceRouter where
  "router_new = \<lparr>pr_revision = 0, pr_connections = fmempty, pr_entries = fmempty\<rparr>"

definition router_entry_count :: "PresenceRouter \<Rightarrow> usize" where
  "router_entry_count r = fmap_len (pr_entries r)"

definition router_connection_count :: "PresenceRouter \<Rightarrow> usize" where
  "router_connection_count r = fmap_len (pr_connections r)"

definition established_generation :: "PresenceRouter \<Rightarrow> ConnectionRef \<Rightarrow> u64 option" where
  "established_generation r c = map_option cs_generation (fmlookup (pr_connections r) c)"

definition established_identity :: "PresenceRouter \<Rightarrow> ConnectionRef \<Rightarrow> PresenceIdentity option" where
  "established_identity r c = map_option cs_identity (fmlookup (pr_connections r) c)"

subsection \<open>Checks and lookups\<close>

definition router_next_revision :: "PresenceRouter \<Rightarrow> PresenceError + u64" where
  "router_next_revision r = ok_or PresenceRevisionExhausted (checked_add (pr_revision r) 1)"

definition require_exact_generation ::
    "PresenceRouter \<Rightarrow> ConnectionRef \<Rightarrow> u64 \<Rightarrow> PresenceError + unit" where
  "require_exact_generation r c received =
     (case fmlookup (pr_connections r) c of
        None \<Rightarrow> Inl (GenerationNotEstablished c received)
      | Some st \<Rightarrow>
          if received < cs_generation st
          then Inl (StaleGeneration c (cs_generation st) received)
          else if received > cs_generation st
          then Inl (GenerationAhead c (cs_generation st) received)
          else Inr ())"

definition require_record_invariants ::
    "PresenceRouter \<Rightarrow> PresenceKey \<Rightarrow> PresenceRecord \<Rightarrow> PresenceError + unit" where
  "require_record_invariants r key record =
     (if pk_connection key \<noteq> pc_connection record \<or> pk_stream key \<noteq> pc_stream record
      then Inl (PresenceInvariantViolation ''presence key differs from stored record'')
      else (case fmlookup (pr_connections r) (pc_connection record) of
          None \<Rightarrow> Inl (PresenceInvariantViolation ''stored record has no connection high-water state'')
        | Some st \<Rightarrow>
            if cs_generation st \<noteq> pc_generation record
            then Inl (PresenceInvariantViolation
              ''stored record generation differs from high-water generation'')
            else if cs_identity st \<noteq> pc_identity record
            then Inl (PresenceInvariantViolation
              ''record identity differs from generation-bound identity'')
            else Inr ()))"

definition records_for_connection ::
    "PresenceRouter \<Rightarrow> ConnectionRef \<Rightarrow> PresenceError + PresenceRecord list" where
  "records_for_connection r c =
     foldE (\<lambda>(key, record) records.
         if pk_connection key \<noteq> c then Inr records
         else tryE (require_record_invariants r key record) (\<lambda>_. Inr (records @ [record])))
       (entries_in_order (pr_entries r)) []"

definition keys_for_connection :: "PresenceRouter \<Rightarrow> ConnectionRef \<Rightarrow> PresenceKey list" where
  "keys_for_connection r c = filter (\<lambda>key. pk_connection key = c) (keys_in_order (pr_entries r))"

definition entry_count_for_connection :: "PresenceRouter \<Rightarrow> ConnectionRef \<Rightarrow> PresenceError + usize" where
  "entry_count_for_connection r c = tryE (records_for_connection r c) (\<lambda>rs. Inr (length rs))"

definition router_verify :: "PresenceRouter \<Rightarrow> PresenceError + unit" where
  "router_verify r =
     forE (\<lambda>(key, record). require_record_invariants r key record) (entries_in_order (pr_entries r))"

subsection \<open>Operations\<close>

text \<open>
  The lists of joins, updates and leaves that an operation pushes to, and the counter of
  changes to hidden records.
\<close>

type_synonym changes =
  "PresenceRecord list \<times> PresenceRecord list \<times> PresenceRecord list \<times> usize"

definition usize_saturating_add :: "usize \<Rightarrow> usize \<Rightarrow> usize" where
  "usize_saturating_add a b = min (a + b) (2 ^ 64 - 1)"

fun classify_visibility_change :: "PresenceRecord \<Rightarrow> PresenceRecord \<Rightarrow> changes \<Rightarrow> changes" where
  "classify_visibility_change old new (joins, updates, leaves, hidden_changes) =
     (case (pc_hidden old, pc_hidden new) of
        (False, False) \<Rightarrow> (joins, updates @ [new], leaves, hidden_changes)
      | (False, True) \<Rightarrow> (joins, updates, leaves @ [old], hidden_changes)
      | (True, False) \<Rightarrow> (joins @ [new], updates, leaves, hidden_changes)
      | (True, True) \<Rightarrow> (joins, updates, leaves, usize_saturating_add hidden_changes 1))"

definition push_join :: "PresenceRecord \<Rightarrow> changes \<Rightarrow> changes" where
  "push_join record ch = (case ch of (joins, updates, leaves, hidden_changes) \<Rightarrow>
     if pc_hidden record then (joins, updates, leaves, usize_saturating_add hidden_changes 1)
     else (joins @ [record], updates, leaves, hidden_changes))"

text \<open>
  The loops that remove the entries of a connection: each removed entry is a leave if it was
  visible, a key without an entry ends the loop with an error.
\<close>

primrec retire_entries :: "string \<Rightarrow> PresenceKey list \<Rightarrow> PresenceRouter \<Rightarrow> PresenceRecord list \<Rightarrow> usize \<Rightarrow>
    PresenceRouter \<times> (PresenceError + PresenceRecord list \<times> usize)" where
  "retire_entries msg [] r leaves hidden_changes = (r, Inr (leaves, hidden_changes))"
| "retire_entries msg (key # keys) r leaves hidden_changes =
     (case fmlookup (pr_entries r) key of
        None \<Rightarrow> (r, Inl (PresenceInvariantViolation msg))
      | Some removed \<Rightarrow>
          let r' = r\<lparr>pr_entries := fmdrop key (pr_entries r)\<rparr> in
          if pc_hidden removed
          then retire_entries msg keys r' leaves (usize_saturating_add hidden_changes 1)
          else retire_entries msg keys r' (leaves @ [removed]) hidden_changes)"

definition join_fence :: "PresenceRouter \<Rightarrow> JoinPresenceRequest \<Rightarrow> PresenceError + unit" where
  "join_fence r q =
     (case fmlookup (pr_connections r) (jp_connection q) of
        None \<Rightarrow> Inr ()
      | Some st \<Rightarrow>
          if jp_generation q < cs_generation st
          then Inl (StaleGeneration (jp_connection q) (cs_generation st) (jp_generation q))
          else if jp_generation q = cs_generation st \<and> jp_identity q \<noteq> cs_identity st
          then Inl (IdentityConflict (jp_connection q) (cs_identity st) (jp_identity q))
          else Inr ())"

definition generation_advance :: "PresenceRouter \<Rightarrow> ConnectionRef \<Rightarrow> u64 \<Rightarrow> bool" where
  "generation_advance r c g =
     (case established_generation r c of None \<Rightarrow> True | Some current \<Rightarrow> g > current)"

definition join_record :: "JoinPresenceRequest \<Rightarrow> PresenceRecord" where
  "join_record q = \<lparr>pc_connection = jp_connection q, pc_generation = jp_generation q,
     pc_stream = jp_stream q, pc_identity = jp_identity q, pc_status = jp_status q,
     pc_hidden = jp_hidden q\<rparr>"

definition join_idempotent :: "PresenceRouter \<Rightarrow> PresenceKey \<Rightarrow> JoinPresenceRequest \<Rightarrow> PresenceError + bool" where
  "join_idempotent r key q =
     (case fmlookup (pr_entries r) key of
        None \<Rightarrow> Inr False
      | Some existing \<Rightarrow> tryE (require_record_invariants r key existing) (\<lambda>_.
          Inr (pc_status existing = jp_status q \<and> pc_hidden existing = jp_hidden q)))"

text \<open>
  The end of a join, once everything is validated: \<open>r\<close> is the router with the old generation
  already retired, \<open>ch\<close> the changes so far.
\<close>

definition join_apply ::
    "PresenceRouter \<Rightarrow> PresenceKey \<Rightarrow> PresenceRecord \<Rightarrow> bool \<Rightarrow> u64 \<Rightarrow> changes \<Rightarrow> PresenceRouter \<times> PresenceDelta" where
  "join_apply r key record advance next_revision ch =
     (let (joins, updates, leaves, hidden_changes) =
        (if advance then push_join record ch
         else (case fmlookup (pr_entries r) key of
             Some existing \<Rightarrow> classify_visibility_change existing record ch
           | None \<Rightarrow> push_join record ch))
      in (r\<lparr>pr_entries := fmupd key record (pr_entries r), pr_revision := next_revision\<rparr>,
          delta_applied next_revision joins updates leaves hidden_changes))"

definition router_join ::
    "JoinPresenceRequest \<Rightarrow> PresenceRouter \<Rightarrow> PresenceRouter \<times> (PresenceError + PresenceDelta)" where
  "router_join q r =
     (let key = PresenceKey (jp_connection q) (jp_stream q);
          advance = generation_advance r (jp_connection q) (jp_generation q) in
      case tryE (join_fence r q) (\<lambda>_. if advance then Inr False else join_idempotent r key q) of
        Inl e \<Rightarrow> (r, Inl e)
      | Inr True \<Rightarrow> (r, Inr delta_idempotent)
      | Inr False \<Rightarrow>
        (case tryE (if advance then records_for_connection r (jp_connection q) else Inr []) (\<lambda>retired.
              tryE (router_next_revision r) (\<lambda>next_revision. Inr (retired, next_revision))) of
           Inl e \<Rightarrow> (r, Inl e)
         | Inr (retired, next_revision) \<Rightarrow>
           if advance
           then (case retire_entries ''entry disappeared during generation advance''
                    (map (\<lambda>rec. PresenceKey (pc_connection rec) (pc_stream rec)) retired) r [] 0 of
               (r', Inl e) \<Rightarrow> (r', Inl e)
             | (r', Inr (leaves, hidden_changes)) \<Rightarrow>
                 apsnd Inr (join_apply
                   (r'\<lparr>pr_connections := fmupd (jp_connection q)
                        \<lparr>cs_generation = jp_generation q, cs_identity = jp_identity q\<rparr>
                        (pr_connections r')\<rparr>)
                   key (join_record q) True next_revision ([], [], leaves, hidden_changes)))
           else apsnd Inr (join_apply r key (join_record q) False next_revision ([], [], [], 0))))"

definition router_update ::
    "UpdatePresenceRequest \<Rightarrow> PresenceRouter \<Rightarrow> PresenceRouter \<times> (PresenceError + PresenceDelta)" where
  "router_update q r =
     (let key = PresenceKey (up_connection q) (up_stream q) in
      commit_candidate r
       (tryE (require_exact_generation r (up_connection q) (up_generation q)) (\<lambda>_.
        tryE (ok_or (PresenceNotJoined (up_connection q) (up_stream q)) (fmlookup (pr_entries r) key))
          (\<lambda>existing.
        tryE (require_record_invariants r key existing) (\<lambda>_.
        if pc_status existing = up_status q \<and> pc_hidden existing = up_hidden q
        then Inr (r, delta_idempotent)
        else tryE (router_next_revision r) (\<lambda>next_revision.
          let record = existing\<lparr>pc_status := up_status q, pc_hidden := up_hidden q\<rparr>;
              (joins, updates, leaves, hidden_changes) =
                classify_visibility_change existing record ([], [], [], 0)
          in Inr (r\<lparr>pr_entries := fmupd key record (pr_entries r), pr_revision := next_revision\<rparr>,
                  delta_applied next_revision joins updates leaves hidden_changes)))))))"

definition router_leave ::
    "LeavePresenceRequest \<Rightarrow> PresenceRouter \<Rightarrow> PresenceRouter \<times> (PresenceError + PresenceDelta)" where
  "router_leave q r =
     (let key = PresenceKey (lp_connection q) (lp_stream q) in
      commit_candidate r
       (tryE (require_exact_generation r (lp_connection q) (lp_generation q)) (\<lambda>_.
        case fmlookup (pr_entries r) key of
          None \<Rightarrow> Inr (r, delta_idempotent)
        | Some existing \<Rightarrow>
          tryE (require_record_invariants r key existing) (\<lambda>_.
          tryE (router_next_revision r) (\<lambda>next_revision.
          let r' = r\<lparr>pr_entries := fmdrop key (pr_entries r), pr_revision := next_revision\<rparr> in
          if pc_hidden existing then Inr (r', delta_applied next_revision [] [] [] 1)
          else Inr (r', delta_applied next_revision [] [] [existing] 0))))))"

definition router_remove_connection ::
    "RemoveConnectionRequest \<Rightarrow> PresenceRouter \<Rightarrow> PresenceRouter \<times> (PresenceError + PresenceDelta)" where
  "router_remove_connection q r =
     (case require_exact_generation r (rc_connection q) (rc_generation q) of
        Inl e \<Rightarrow> (r, Inl e)
      | Inr _ \<Rightarrow>
        let keys = keys_for_connection r (rc_connection q) in
        if keys = [] then (r, Inr delta_idempotent)
        else (case router_next_revision r of
            Inl e \<Rightarrow> (r, Inl e)
          | Inr next_revision \<Rightarrow>
            (case retire_entries ''entry disappeared during connection removal'' keys r [] 0 of
               (r', Inl e) \<Rightarrow> (r', Inl e)
             | (r', Inr (leaves, hidden_changes)) \<Rightarrow>
                 (r'\<lparr>pr_revision := next_revision\<rparr>,
                  Inr (delta_applied next_revision [] [] leaves hidden_changes)))))"

definition router_snapshot ::
    "PresenceRouter \<Rightarrow> StreamKey \<Rightarrow> SnapshotVisibility \<Rightarrow> PresenceError + PresenceRecord list" where
  "router_snapshot r stream visibility =
     tryE (router_verify r) (\<lambda>_.
       Inr (sort_key
         (\<lambda>rec. (pi_session_id (pc_identity rec), cr_node_id (pc_connection rec),
                 cr_connection_id (pc_connection rec)))
         (filter (\<lambda>rec. pc_stream rec = stream \<and> (visibility = IncludeHidden \<or> \<not> pc_hidden rec))
           (map snd (entries_in_order (pr_entries r))))))"

text \<open>The operations that change the router, as one.\<close>

datatype RouterOp =
    RouterJoin JoinPresenceRequest
  | RouterUpdate UpdatePresenceRequest
  | RouterLeave LeavePresenceRequest
  | RouterRemove RemoveConnectionRequest

fun router_exec :: "RouterOp \<Rightarrow> PresenceRouter \<Rightarrow> PresenceRouter \<times> (PresenceError + PresenceDelta)" where
  "router_exec (RouterJoin q) r = router_join q r"
| "router_exec (RouterUpdate q) r = router_update q r"
| "router_exec (RouterLeave q) r = router_leave q r"
| "router_exec (RouterRemove q) r = router_remove_connection q r"

definition router_step :: "RouterOp \<Rightarrow> PresenceRouter \<Rightarrow> PresenceRouter" where
  "router_step x r = fst (router_exec x r)"

end
