(* ===== verification/Session_Routes.thy ===== *)
theory Session_Routes
  imports Presence_Router Contracts
begin

text \<open>
  The session registry (\<open>crates/trnm-presence-router-v2/src/session_registry.rs\<close>): it binds
  the connections of the presence router to session generations, keeps per session the
  highest revoked generation, enforces the capacities and hands over to a new namespace when
  it is quiescent. Every mutation builds a candidate, checks it with \<open>verify_invariants\<close> and
  only then replaces the registry. The verifier of checkpoints and rollover proofs is a trait
  object, here its two methods are arguments.
\<close>

subsection \<open>Limits\<close>

definition MAX_CONNECTIONS_PER_SESSION :: usize where "MAX_CONNECTIONS_PER_SESSION = 1024"
definition MAX_ACTIVE_CONNECTIONS :: usize where "MAX_ACTIVE_CONNECTIONS = 65536"
definition MAX_TRACKED_CONNECTIONS :: usize where "MAX_TRACKED_CONNECTIONS = 131072"
definition MAX_TRACKED_SESSIONS :: usize where "MAX_TRACKED_SESSIONS = 131072"
definition MAX_REVOCATION_HIGH_WATERS :: usize where "MAX_REVOCATION_HIGH_WATERS = 131072"
definition MAX_PRESENCE_ENTRIES :: usize where "MAX_PRESENCE_ENTRIES = 262144"
definition DEFAULT_MAX_ACTIVE_CONNECTIONS :: usize where "DEFAULT_MAX_ACTIVE_CONNECTIONS = 16384"
definition DEFAULT_MAX_TRACKED_CONNECTIONS :: usize where "DEFAULT_MAX_TRACKED_CONNECTIONS = 32768"
definition DEFAULT_MAX_TRACKED_SESSIONS :: usize where "DEFAULT_MAX_TRACKED_SESSIONS = 32768"
definition DEFAULT_MAX_REVOCATION_HIGH_WATERS :: usize where
  "DEFAULT_MAX_REVOCATION_HIGH_WATERS = 32768"
definition DEFAULT_MAX_PRESENCE_ENTRIES :: usize where "DEFAULT_MAX_PRESENCE_ENTRIES = 65536"

record SessionRouteLimits =
  rl_connections_per_session :: usize
  rl_active_connections :: usize
  rl_tracked_connections :: usize
  rl_tracked_sessions :: usize
  rl_revocation_high_waters :: usize
  rl_presence_entries :: usize

datatype SessionRouteError =
    InvalidSessionGeneration
  | InvalidNamespace
  | NamespaceMismatch u64 u64
  | NamespaceNotAdvanced u64 u64
  | ZeroRolloverDigest string
  | RolloverRequiresQuiescence
  | RolloverProofMismatch
  | RolloverVerificationFailed
  | CheckpointVerificationFailed
  | InvalidLimit string usize usize
  | RouteResourceExhausted string usize
  | SessionBindingMissing ConnectionRef
  | SessionRevoked rstring u64 u64
  | StaleSessionGeneration ConnectionRef u64 u64
  | SessionGenerationAhead ConnectionRef u64 u64
  | SessionBindingConflict ConnectionRef rstring rstring
  | RouteRevisionExhausted
  | RouteInvariantViolation string
  | PresenceFailed PresenceError

definition route_validate_limit :: "string \<Rightarrow> usize \<Rightarrow> usize \<Rightarrow> SessionRouteError + unit" where
  "route_validate_limit resource v maximum =
     (if v = 0 \<or> v > maximum then Inl (InvalidLimit resource v maximum) else Inr ())"

definition SessionRouteLimits_new ::
    "usize \<Rightarrow> usize \<Rightarrow> usize \<Rightarrow> usize \<Rightarrow> usize \<Rightarrow> usize \<Rightarrow> SessionRouteError + SessionRouteLimits" where
  "SessionRouteLimits_new per_session active tracked sessions high_waters entries =
     tryE (route_validate_limit ''connections_per_session'' per_session MAX_CONNECTIONS_PER_SESSION) (\<lambda>_.
     tryE (route_validate_limit ''active_connections'' active MAX_ACTIVE_CONNECTIONS) (\<lambda>_.
     tryE (route_validate_limit ''tracked_connections'' tracked MAX_TRACKED_CONNECTIONS) (\<lambda>_.
     tryE (route_validate_limit ''tracked_sessions'' sessions MAX_TRACKED_SESSIONS) (\<lambda>_.
     tryE (route_validate_limit ''revocation_high_waters'' high_waters MAX_REVOCATION_HIGH_WATERS) (\<lambda>_.
     tryE (route_validate_limit ''presence_entries'' entries MAX_PRESENCE_ENTRIES) (\<lambda>_.
     if per_session > active
     then Inl (InvalidLimit ''connections_per_session'' per_session active)
     else if high_waters > sessions
     then Inl (InvalidLimit ''revocation_high_waters'' high_waters sessions)
     else Inr \<lparr>rl_connections_per_session = per_session, rl_active_connections = active,
               rl_tracked_connections = tracked, rl_tracked_sessions = sessions,
               rl_revocation_high_waters = high_waters, rl_presence_entries = entries\<rparr>))))))"

definition SessionRouteLimits_default :: SessionRouteLimits where
  "SessionRouteLimits_default =
     \<lparr>rl_connections_per_session = MAX_CONNECTIONS_PER_SESSION,
      rl_active_connections = DEFAULT_MAX_ACTIVE_CONNECTIONS,
      rl_tracked_connections = DEFAULT_MAX_TRACKED_CONNECTIONS,
      rl_tracked_sessions = DEFAULT_MAX_TRACKED_SESSIONS,
      rl_revocation_high_waters = DEFAULT_MAX_REVOCATION_HIGH_WATERS,
      rl_presence_entries = DEFAULT_MAX_PRESENCE_ENTRIES\<rparr>"

definition require_nonzero_rollover_digest :: "string \<Rightarrow> digest32 \<Rightarrow> SessionRouteError + unit" where
  "require_nonzero_rollover_digest field digest =
     (if id_is_zero digest then Inl (ZeroRolloverDigest field) else Inr ())"

definition SessionRouteGeneration_new :: "u64 \<Rightarrow> SessionRouteError + u64" where
  "SessionRouteGeneration_new v = (if v = 0 then Inl InvalidSessionGeneration else Inr v)"

definition SessionRouteNamespace_new :: "u64 \<Rightarrow> SessionRouteError + u64" where
  "SessionRouteNamespace_new v = (if v = 0 then Inl InvalidNamespace else Inr v)"

subsection \<open>Requests, proofs, checkpoints\<close>

record SessionRouteRolloverProof =
  rp_retired_namespace :: u64
  rp_next_namespace :: u64
  rp_registry_revision :: u64
  rp_router_revision :: u64
  rp_tracked_connections :: usize
  rp_tracked_sessions :: usize
  rp_revocation_high_waters :: usize
  rp_checkpoint_digest :: digest32
  rp_producer_barrier_digest :: digest32

record SessionRouteCheckpoint =
  cp_retired_namespace :: u64
  cp_active_namespace :: u64
  cp_registry_revision :: u64
  cp_retired_router_revision :: u64
  cp_retired_tracked_connections :: usize
  cp_retired_tracked_sessions :: usize
  cp_retired_revocation_high_waters :: usize
  cp_checkpoint_digest :: digest32
  cp_producer_barrier_digest :: digest32

record SessionJoinRequest =
  sj_namespace :: u64
  sj_presence :: JoinPresenceRequest
  sj_session_generation :: u64

record SessionUpdateRequest =
  su_namespace :: u64
  su_presence :: UpdatePresenceRequest
  su_session_id :: rstring
  su_session_generation :: u64

record SessionLeaveRequest =
  sl_namespace :: u64
  sl_presence :: LeavePresenceRequest
  sl_session_id :: rstring
  sl_session_generation :: u64

record SessionRemoveConnectionRequest =
  sx_namespace :: u64
  sx_presence :: RemoveConnectionRequest
  sx_session_id :: rstring
  sx_session_generation :: u64

record SessionRevocationRequest =
  sv_namespace :: u64
  sv_session_id :: rstring
  sv_through_generation :: u64

record SessionMutationDelta =
  md_disposition :: MutationDisposition
  md_registry_revision :: "u64 option"
  md_presence :: PresenceDelta

record SessionRevocationDelta =
  vd_disposition :: MutationDisposition
  vd_registry_revision :: "u64 option"
  vd_revoked_through :: u64
  vd_removed_connections :: usize
  vd_leaves :: "PresenceRecord list"
  vd_hidden_changes :: usize

record SessionBinding =
  bd_session_id :: rstring
  bd_session_generation :: u64
  bd_connection_generation :: u64

subsection \<open>The registry\<close>

record SessionRouteRegistry =
  rg_limits :: SessionRouteLimits
  rg_namespace :: u64
  rg_revision :: u64
  rg_checkpoint :: "SessionRouteCheckpoint option"
  rg_router :: PresenceRouter
  rg_bindings :: "(ConnectionRef, SessionBinding) fmap"
  rg_connections_by_session :: "(rstring, ConnectionRef fset) fmap"
  rg_revoked_through :: "(rstring, u64) fmap"

definition with_limits :: "SessionRouteLimits \<Rightarrow> SessionRouteRegistry" where
  "with_limits limits = \<lparr>rg_limits = limits, rg_namespace = 1, rg_revision = 0,
     rg_checkpoint = None, rg_router = router_new, rg_bindings = fmempty,
     rg_connections_by_session = fmempty, rg_revoked_through = fmempty\<rparr>"

definition from_checkpoint ::
    "SessionRouteLimits \<Rightarrow> SessionRouteCheckpoint \<Rightarrow> (SessionRouteCheckpoint \<Rightarrow> bool) \<Rightarrow>
     SessionRouteError + SessionRouteRegistry" where
  "from_checkpoint limits checkpoint verify_checkpoint =
     (if cp_active_namespace checkpoint \<le> cp_retired_namespace checkpoint
      then Inl (NamespaceNotAdvanced (cp_retired_namespace checkpoint) (cp_active_namespace checkpoint))
      else
        tryE (require_nonzero_rollover_digest ''checkpoint_digest'' (cp_checkpoint_digest checkpoint)) (\<lambda>_.
        tryE (require_nonzero_rollover_digest ''producer_barrier_digest''
                (cp_producer_barrier_digest checkpoint)) (\<lambda>_.
        if \<not> verify_checkpoint checkpoint then Inl CheckpointVerificationFailed
        else Inr \<lparr>rg_limits = limits, rg_namespace = cp_active_namespace checkpoint,
                  rg_revision = cp_registry_revision checkpoint, rg_checkpoint = Some checkpoint,
                  rg_router = router_new, rg_bindings = fmempty,
                  rg_connections_by_session = fmempty, rg_revoked_through = fmempty\<rparr>)))"

definition tracked_connection_count :: "SessionRouteRegistry \<Rightarrow> usize" where
  "tracked_connection_count s = router_connection_count (rg_router s)"

definition tracked_session_count :: "SessionRouteRegistry \<Rightarrow> usize" where
  "tracked_session_count s = fmap_len (rg_revoked_through s) +
     fcard (ffilter (\<lambda>sid. sid |\<notin>| fmdom (rg_revoked_through s)) (fmdom (rg_connections_by_session s)))"

definition revocation_high_water_count :: "SessionRouteRegistry \<Rightarrow> usize" where
  "revocation_high_water_count s = fmap_len (rg_revoked_through s)"

definition active_connections_for_session :: "SessionRouteRegistry \<Rightarrow> rstring \<Rightarrow> usize" where
  "active_connections_for_session s sid =
     (case fmlookup (rg_connections_by_session s) sid of None \<Rightarrow> 0 | Some cs \<Rightarrow> fcard cs)"

definition route_violation :: "string \<Rightarrow> SessionRouteError + 'a" where
  "route_violation msg = Inl (RouteInvariantViolation msg)"

subsection \<open>Self-check\<close>

definition checkpoint_binds :: "SessionRouteRegistry \<Rightarrow> SessionRouteCheckpoint \<Rightarrow> bool" where
  "checkpoint_binds s cp \<longleftrightarrow>
     \<not> (cp_active_namespace cp \<noteq> rg_namespace s \<or>
        cp_active_namespace cp \<le> cp_retired_namespace cp \<or>
        cp_registry_revision cp > rg_revision s \<or>
        id_is_zero (cp_checkpoint_digest cp) \<or> id_is_zero (cp_producer_barrier_digest cp))"

definition verify_binding ::
    "SessionRouteRegistry \<Rightarrow> ConnectionRef \<times> SessionBinding \<Rightarrow> SessionRouteError + unit" where
  "verify_binding s cb = (case cb of (c, b) \<Rightarrow>
     if established_generation (rg_router s) c \<noteq> Some (bd_connection_generation b)
     then route_violation ''binding generation differs from presence high-water generation''
     else tryE (ok_or (RouteInvariantViolation ''bound connection has no presence identity'')
                 (established_identity (rg_router s) c)) (\<lambda>identity.
       if pi_session_id identity \<noteq> bd_session_id b
       then route_violation ''binding session differs from presence identity''
       else if \<not> (case fmlookup (rg_connections_by_session s) (bd_session_id b) of
                    None \<Rightarrow> False | Some cs \<Rightarrow> c |\<in>| cs)
       then route_violation ''connection binding is absent from session index''
       else if (case fmlookup (rg_revoked_through s) (bd_session_id b) of
                  None \<Rightarrow> False | Some g \<Rightarrow> g \<ge> bd_session_generation b)
       then route_violation ''active connection is at or below session revocation high-water''
       else Inr ()))"

definition verify_session ::
    "SessionRouteRegistry \<Rightarrow> rstring \<times> ConnectionRef fset \<Rightarrow> SessionRouteError + unit" where
  "verify_session s sc = (case sc of (sid, cs) \<Rightarrow>
     if cs = {||} then route_violation ''session index contains an empty connection set''
     else if fcard cs > rl_connections_per_session (rg_limits s)
     then route_violation ''session index exceeds the configured connection limit''
     else forE (\<lambda>c. tryE (ok_or (RouteInvariantViolation ''session index references an absent binding'')
                          (fmlookup (rg_bindings s) c)) (\<lambda>b.
            if bd_session_id b \<noteq> sid
            then route_violation ''session index points to a different session binding''
            else Inr ())) (sorted_list_of_fset cs))"

definition registry_verify :: "SessionRouteRegistry \<Rightarrow> SessionRouteError + unit" where
  "registry_verify s =
     tryE (map_err PresenceFailed (router_verify (rg_router s))) (\<lambda>_.
     if (case rg_checkpoint s of None \<Rightarrow> False | Some cp \<Rightarrow> \<not> checkpoint_binds s cp)
     then route_violation ''checkpoint does not bind active namespace''
     else if fmap_len (rg_bindings s) > rl_active_connections (rg_limits s)
     then route_violation ''active connection count exceeds configured capacity''
     else if router_connection_count (rg_router s) > rl_tracked_connections (rg_limits s)
     then route_violation ''tracked connection count exceeds configured capacity''
     else if router_entry_count (rg_router s) > rl_presence_entries (rg_limits s)
     then route_violation ''presence entry count exceeds configured capacity''
     else if fmap_len (rg_revoked_through s) > rl_revocation_high_waters (rg_limits s)
     then route_violation ''revocation high-water count exceeds configured capacity''
     else if tracked_session_count s > rl_tracked_sessions (rg_limits s)
     then route_violation ''tracked session count exceeds configured capacity''
     else tryE (forE (verify_binding s) (entries_in_order (rg_bindings s))) (\<lambda>_.
       forE (verify_session s) (entries_in_order (rg_connections_by_session s))))"

subsection \<open>Fences and capacities\<close>

definition require_namespace :: "SessionRouteRegistry \<Rightarrow> u64 \<Rightarrow> SessionRouteError + unit" where
  "require_namespace s received =
     (if received \<noteq> rg_namespace s then Inl (NamespaceMismatch (rg_namespace s) received) else Inr ())"

definition registry_next_revision :: "SessionRouteRegistry \<Rightarrow> SessionRouteError + u64" where
  "registry_next_revision s = ok_or RouteRevisionExhausted (checked_add (rg_revision s) 1)"

definition require_exact_binding ::
    "SessionRouteRegistry \<Rightarrow> ConnectionRef \<Rightarrow> u64 \<Rightarrow> rstring \<Rightarrow> u64 \<Rightarrow> SessionRouteError + unit" where
  "require_exact_binding s c cg sid sg =
     tryE (ok_or (SessionBindingMissing c) (fmlookup (rg_bindings s) c)) (\<lambda>b.
     if cg < bd_connection_generation b
     then Inl (PresenceFailed (StaleGeneration c (bd_connection_generation b) cg))
     else if cg > bd_connection_generation b
     then Inl (PresenceFailed (GenerationAhead c (bd_connection_generation b) cg))
     else if bd_session_id b \<noteq> sid
     then Inl (SessionBindingConflict c (bd_session_id b) sid)
     else if sg < bd_session_generation b
     then Inl (StaleSessionGeneration c (bd_session_generation b) sg)
     else if sg > bd_session_generation b
     then Inl (SessionGenerationAhead c (bd_session_generation b) sg)
     else Inr ())"

definition validate_join_binding ::
    "SessionRouteRegistry \<Rightarrow> ConnectionRef \<Rightarrow> u64 \<Rightarrow> rstring \<Rightarrow> u64 \<Rightarrow> SessionRouteError + unit" where
  "validate_join_binding s c cg sid sg =
     tryE (case fmlookup (rg_revoked_through s) sid of
             None \<Rightarrow> Inr ()
           | Some revoked_through \<Rightarrow>
               if sg \<le> revoked_through then Inl (SessionRevoked sid revoked_through sg) else Inr ())
     (\<lambda>_. case fmlookup (rg_bindings s) c of
        None \<Rightarrow> Inr ()
      | Some b \<Rightarrow>
          if cg < bd_connection_generation b
          then Inl (PresenceFailed (StaleGeneration c (bd_connection_generation b) cg))
          else if cg > bd_connection_generation b then Inr ()
          else if bd_session_id b \<noteq> sid
          then Inl (SessionBindingConflict c (bd_session_id b) sid)
          else if sg < bd_session_generation b
          then Inl (StaleSessionGeneration c (bd_session_generation b) sg)
          else Inr ())"

definition session_tracked :: "SessionRouteRegistry \<Rightarrow> rstring \<Rightarrow> bool" where
  "session_tracked s sid \<longleftrightarrow>
     sid |\<in>| fmdom (rg_connections_by_session s) \<or> sid |\<in>| fmdom (rg_revoked_through s)"

definition exclusively_replaced :: "SessionRouteRegistry \<Rightarrow> ConnectionRef \<Rightarrow> rstring \<Rightarrow> SessionBinding \<Rightarrow> bool" where
  "exclusively_replaced s c sid previous \<longleftrightarrow>
     bd_session_id previous \<noteq> sid \<and>
     bd_session_id previous |\<notin>| fmdom (rg_revoked_through s) \<and>
     (case fmlookup (rg_connections_by_session s) (bd_session_id previous) of
        None \<Rightarrow> False | Some cs \<Rightarrow> fcard cs = 1 \<and> c |\<in>| cs)"

definition projected_tracked_session_count ::
    "SessionRouteRegistry \<Rightarrow> ConnectionRef \<Rightarrow> rstring \<Rightarrow> bool \<Rightarrow> SessionRouteError + usize" where
  "projected_tracked_session_count s c sid advance =
     tryE (ok_or (RouteInvariantViolation ''tracked session projection overflow'')
       (usize_checked_add (tracked_session_count s) (of_bool (\<not> session_tracked s sid)))) (\<lambda>projected.
     if \<not> advance then Inr projected
     else (case fmlookup (rg_bindings s) c of
         None \<Rightarrow> Inr projected
       | Some previous \<Rightarrow>
           if exclusively_replaced s c sid previous
           then if projected = 0
             then route_violation ''tracked session replacement projection underflow''
             else Inr (projected - 1)
           else Inr projected))"

definition require_tracked_session_capacity :: "SessionRouteRegistry \<Rightarrow> rstring \<Rightarrow> SessionRouteError + unit" where
  "require_tracked_session_capacity s sid =
     (if \<not> session_tracked s sid \<and> tracked_session_count s \<ge> rl_tracked_sessions (rg_limits s)
      then Inl (RouteResourceExhausted ''tracked_sessions'' (rl_tracked_sessions (rg_limits s)))
      else Inr ())"

definition require_session_capacity ::
    "SessionRouteRegistry \<Rightarrow> ConnectionRef \<Rightarrow> rstring \<Rightarrow> SessionRouteError + unit" where
  "require_session_capacity s c sid =
     (case fmlookup (rg_connections_by_session s) sid of
        None \<Rightarrow> Inr ()
      | Some cs \<Rightarrow>
          if c |\<notin>| cs \<and> fcard cs \<ge> rl_connections_per_session (rg_limits s)
          then Inl (RouteResourceExhausted ''connections_per_session''
                      (rl_connections_per_session (rg_limits s)))
          else Inr ())"

definition require_presence_capacity ::
    "SessionRouteRegistry \<Rightarrow> JoinPresenceRequest \<Rightarrow> bool \<Rightarrow> SessionRouteError + unit" where
  "require_presence_capacity s q advance =
     tryE (if advance \<and> established_generation (rg_router s) (jp_connection q) \<noteq> None
           then map_err PresenceFailed (entry_count_for_connection (rg_router s) (jp_connection q))
           else Inr 0) (\<lambda>retired_entries.
     tryE (if advance then Inr False
           else tryE (map_err PresenceFailed (router_snapshot (rg_router s) (jp_stream q) IncludeHidden))
             (\<lambda>rs. Inr (list_ex (\<lambda>rec. pc_connection rec = jp_connection q \<and>
                                       pc_generation rec = jp_generation q) rs))) (\<lambda>already_joined.
     tryE (ok_or (RouteInvariantViolation ''presence entry projection overflow or underflow'')
       (if router_entry_count (rg_router s) < retired_entries then None
        else usize_checked_add (router_entry_count (rg_router s) - retired_entries)
               (of_bool (\<not> already_joined)))) (\<lambda>projected.
     if projected > rl_presence_entries (rg_limits s)
     then Inl (RouteResourceExhausted ''presence_entries'' (rl_presence_entries (rg_limits s)))
     else Inr ())))"

definition require_join_capacity :: "SessionRouteRegistry \<Rightarrow> SessionJoinRequest \<Rightarrow> SessionRouteError + unit" where
  "require_join_capacity s q =
     (let p = sj_presence q; c = jp_connection p; sid = pi_session_id (jp_identity p);
          advance = generation_advance (rg_router s) c (jp_generation p) in
     tryE (ok_or (RouteInvariantViolation ''active connection projection overflow'')
       (usize_checked_add (fmap_len (rg_bindings s)) (of_bool (c |\<notin>| fmdom (rg_bindings s))))) (\<lambda>active.
     if active > rl_active_connections (rg_limits s)
     then Inl (RouteResourceExhausted ''active_connections'' (rl_active_connections (rg_limits s)))
     else
     tryE (ok_or (RouteInvariantViolation ''tracked connection projection overflow'')
       (usize_checked_add (router_connection_count (rg_router s))
         (of_bool (established_generation (rg_router s) c = None)))) (\<lambda>tracked.
     if tracked > rl_tracked_connections (rg_limits s)
     then Inl (RouteResourceExhausted ''tracked_connections'' (rl_tracked_connections (rg_limits s)))
     else
     tryE (projected_tracked_session_count s c sid advance) (\<lambda>sessions.
     if sessions > rl_tracked_sessions (rg_limits s)
     then Inl (RouteResourceExhausted ''tracked_sessions'' (rl_tracked_sessions (rg_limits s)))
     else
     tryE (require_session_capacity s c sid) (\<lambda>_. require_presence_capacity s p advance)))))"

subsection \<open>Operations\<close>

definition insert_binding :: "ConnectionRef \<Rightarrow> SessionBinding \<Rightarrow> SessionRouteRegistry \<Rightarrow> SessionRouteRegistry" where
  "insert_binding c b s =
     (let cs = (case fmlookup (rg_connections_by_session s) (bd_session_id b) of
                  None \<Rightarrow> {||} | Some cs \<Rightarrow> cs)
      in s\<lparr>rg_connections_by_session :=
             fmupd (bd_session_id b) (finsert c cs) (rg_connections_by_session s),
           rg_bindings := fmupd c b (rg_bindings s)\<rparr>)"

definition remove_binding ::
    "ConnectionRef \<Rightarrow> SessionRouteRegistry \<Rightarrow> SessionRouteRegistry \<times> SessionBinding option" where
  "remove_binding c s =
     (case fmlookup (rg_bindings s) c of
        None \<Rightarrow> (s, None)
      | Some b \<Rightarrow>
        (let s' = s\<lparr>rg_bindings := fmdrop c (rg_bindings s)\<rparr>; idx = rg_connections_by_session s in
         (case fmlookup idx (bd_session_id b) of
            None \<Rightarrow> (s', Some b)
          | Some cs \<Rightarrow>
              let cs' = cs |-| {|c|} in
              (s'\<lparr>rg_connections_by_session :=
                   (if cs' = {||} then fmdrop (bd_session_id b) idx
                    else fmupd (bd_session_id b) cs' idx)\<rparr>, Some b))))"

text \<open>The end of a mutation: a changed candidate is numbered, checked and committed.\<close>

definition finish_mutation ::
    "SessionRouteRegistry \<Rightarrow> SessionRouteRegistry \<Rightarrow> bool \<Rightarrow> PresenceDelta \<Rightarrow>
     SessionRouteError + SessionRouteRegistry \<times> SessionMutationDelta" where
  "finish_mutation s candidate applied presence =
     (if applied
      then tryE (registry_next_revision s) (\<lambda>revision.
        let candidate' = candidate\<lparr>rg_revision := revision\<rparr> in
        tryE (registry_verify candidate') (\<lambda>_.
          Inr (candidate', \<lparr>md_disposition = MutApplied, md_registry_revision = Some revision,
                            md_presence = presence\<rparr>)))
      else Inr (s, \<lparr>md_disposition = MutIdempotent, md_registry_revision = None,
                    md_presence = presence\<rparr>))"

definition registry_join ::
    "SessionJoinRequest \<Rightarrow> SessionRouteRegistry \<Rightarrow>
     SessionRouteRegistry \<times> (SessionRouteError + SessionMutationDelta)" where
  "registry_join q s =
     (let p = sj_presence q; c = jp_connection p; sid = pi_session_id (jp_identity p) in
      commit_candidate s
       (tryE (registry_verify s) (\<lambda>_.
        tryE (require_namespace s (sj_namespace q)) (\<lambda>_.
        tryE (validate_join_binding s c (jp_generation p) sid (sj_session_generation q)) (\<lambda>_.
        tryE (require_join_capacity s q) (\<lambda>_.
        let next_binding = \<lparr>bd_session_id = sid, bd_session_generation = sj_session_generation q,
                            bd_connection_generation = jp_generation p\<rparr>;
            binding_changed = (fmlookup (rg_bindings s) c \<noteq> Some next_binding) in
        (case router_join p (rg_router s) of
           (_, Inl e) \<Rightarrow> Inl (PresenceFailed e)
         | (r', Inr presence) \<Rightarrow>
             let candidate = s\<lparr>rg_router := r'\<rparr> in
             finish_mutation s
               (if binding_changed
                then insert_binding c next_binding (fst (remove_binding c candidate)) else candidate)
               (binding_changed \<or> pd_disposition presence = MutApplied) presence)))))))"

definition mutate_fenced_presence ::
    "ConnectionRef \<Rightarrow> u64 \<Rightarrow> rstring \<Rightarrow> u64 \<Rightarrow> bool \<Rightarrow>
     (PresenceRouter \<Rightarrow> PresenceRouter \<times> (PresenceError + PresenceDelta)) \<Rightarrow> SessionRouteRegistry \<Rightarrow>
     SessionRouteError + SessionRouteRegistry \<times> SessionMutationDelta" where
  "mutate_fenced_presence c cg sid sg unbind mutation s =
     tryE (registry_verify s) (\<lambda>_.
     tryE (require_exact_binding s c cg sid sg) (\<lambda>_.
     (case mutation (rg_router s) of
        (_, Inl e) \<Rightarrow> Inl (PresenceFailed e)
      | (r', Inr presence) \<Rightarrow>
          let (candidate, removed) =
            (if unbind then remove_binding c (s\<lparr>rg_router := r'\<rparr>) else (s\<lparr>rg_router := r'\<rparr>, None))
          in finish_mutation s candidate
               (removed \<noteq> None \<or> pd_disposition presence = MutApplied) presence)))"

definition registry_update ::
    "SessionUpdateRequest \<Rightarrow> SessionRouteRegistry \<Rightarrow>
     SessionRouteRegistry \<times> (SessionRouteError + SessionMutationDelta)" where
  "registry_update q s =
     commit_candidate s
      (tryE (require_namespace s (su_namespace q)) (\<lambda>_.
       mutate_fenced_presence (up_connection (su_presence q)) (up_generation (su_presence q))
         (su_session_id q) (su_session_generation q) False (router_update (su_presence q)) s))"

definition registry_leave ::
    "SessionLeaveRequest \<Rightarrow> SessionRouteRegistry \<Rightarrow>
     SessionRouteRegistry \<times> (SessionRouteError + SessionMutationDelta)" where
  "registry_leave q s =
     commit_candidate s
      (tryE (require_namespace s (sl_namespace q)) (\<lambda>_.
       mutate_fenced_presence (lp_connection (sl_presence q)) (lp_generation (sl_presence q))
         (sl_session_id q) (sl_session_generation q) False (router_leave (sl_presence q)) s))"

definition registry_remove_connection ::
    "SessionRemoveConnectionRequest \<Rightarrow> SessionRouteRegistry \<Rightarrow>
     SessionRouteRegistry \<times> (SessionRouteError + SessionMutationDelta)" where
  "registry_remove_connection q s =
     commit_candidate s
      (tryE (require_namespace s (sx_namespace q)) (\<lambda>_.
       mutate_fenced_presence (rc_connection (sx_presence q)) (rc_generation (sx_presence q))
         (sx_session_id q) (sx_session_generation q) True
         (router_remove_connection (sx_presence q)) s))"

text \<open>One turn of the loop over the connections of a revoked session.\<close>

type_synonym revocation_acc = "SessionRouteRegistry \<times> usize \<times> PresenceRecord list \<times> usize"

fun revoke_connection :: "u64 \<Rightarrow> ConnectionRef \<Rightarrow> revocation_acc \<Rightarrow> SessionRouteError + revocation_acc" where
  "revoke_connection through c (candidate, removed_connections, leaves, hidden_changes) =
     tryE (ok_or (RouteInvariantViolation ''session index references an absent connection binding'')
             (fmlookup (rg_bindings candidate) c)) (\<lambda>b.
     if bd_session_generation b > through
     then Inr (candidate, removed_connections, leaves, hidden_changes)
     else (case router_remove_connection
              \<lparr>rc_connection = c, rc_generation = bd_connection_generation b\<rparr> (rg_router candidate) of
         (_, Inl e) \<Rightarrow> Inl (PresenceFailed e)
       | (r', Inr d) \<Rightarrow>
           Inr (fst (remove_binding c (candidate\<lparr>rg_router := r'\<rparr>)),
                usize_saturating_add removed_connections 1, leaves @ pd_leaves d,
                usize_saturating_add hidden_changes (pd_hidden_changes d))))"

definition already_revoked :: "SessionRouteRegistry \<Rightarrow> rstring \<Rightarrow> u64 \<Rightarrow> u64 option" where
  "already_revoked s sid through =
     (case fmlookup (rg_revoked_through s) sid of
        None \<Rightarrow> None | Some current \<Rightarrow> if current \<ge> through then Some current else None)"

definition revoke_apply ::
    "rstring \<Rightarrow> u64 \<Rightarrow> SessionRouteRegistry \<Rightarrow>
     SessionRouteError + SessionRouteRegistry \<times> SessionRevocationDelta" where
  "revoke_apply sid through s =
     (let connections = (case fmlookup (rg_connections_by_session s) sid of
                           None \<Rightarrow> {||} | Some cs \<Rightarrow> cs) in
      tryE (foldE (revoke_connection through) (sorted_list_of_fset connections) (s, 0, [], 0))
        (\<lambda>(candidate, removed_connections, leaves, hidden_changes).
      tryE (registry_next_revision s) (\<lambda>revision.
      let candidate' = candidate
            \<lparr>rg_revoked_through := fmupd sid through (rg_revoked_through candidate),
             rg_revision := revision\<rparr> in
      tryE (registry_verify candidate') (\<lambda>_.
      Inr (candidate', \<lparr>vd_disposition = MutApplied, vd_registry_revision = Some revision,
                       vd_revoked_through = through,
                       vd_removed_connections = removed_connections, vd_leaves = leaves,
                       vd_hidden_changes = hidden_changes\<rparr>)))))"

definition revoke_session ::
    "SessionRevocationRequest \<Rightarrow> SessionRouteRegistry \<Rightarrow>
     SessionRouteRegistry \<times> (SessionRouteError + SessionRevocationDelta)" where
  "revoke_session q s =
     (let sid = sv_session_id q; through = sv_through_generation q in
      commit_candidate s
       (tryE (registry_verify s) (\<lambda>_.
        tryE (require_namespace s (sv_namespace q)) (\<lambda>_.
        (case already_revoked s sid through of
          Some current \<Rightarrow>
            Inr (s, \<lparr>vd_disposition = MutIdempotent, vd_registry_revision = None,
                     vd_revoked_through = current, vd_removed_connections = 0, vd_leaves = [],
                     vd_hidden_changes = 0\<rparr>)
        | None \<Rightarrow>
          tryE (require_tracked_session_capacity s sid) (\<lambda>_.
          if sid |\<notin>| fmdom (rg_revoked_through s) \<and>
             fmap_len (rg_revoked_through s) \<ge> rl_revocation_high_waters (rg_limits s)
          then Inl (RouteResourceExhausted ''revocation_high_waters''
                      (rl_revocation_high_waters (rg_limits s)))
          else revoke_apply sid through s))))))"

definition propose_rollover ::
    "SessionRouteRegistry \<Rightarrow> u64 \<Rightarrow> digest32 \<Rightarrow> digest32 \<Rightarrow>
     SessionRouteError + SessionRouteRolloverProof" where
  "propose_rollover s next_namespace checkpoint_digest producer_barrier_digest =
     tryE (registry_verify s) (\<lambda>_.
     if next_namespace \<le> rg_namespace s
     then Inl (NamespaceNotAdvanced (rg_namespace s) next_namespace)
     else
     tryE (require_nonzero_rollover_digest ''checkpoint_digest'' checkpoint_digest) (\<lambda>_.
     tryE (require_nonzero_rollover_digest ''producer_barrier_digest'' producer_barrier_digest) (\<lambda>_.
     Inr \<lparr>rp_retired_namespace = rg_namespace s, rp_next_namespace = next_namespace,
          rp_registry_revision = rg_revision s, rp_router_revision = pr_revision (rg_router s),
          rp_tracked_connections = tracked_connection_count s,
          rp_tracked_sessions = tracked_session_count s,
          rp_revocation_high_waters = revocation_high_water_count s,
          rp_checkpoint_digest = checkpoint_digest,
          rp_producer_barrier_digest = producer_barrier_digest\<rparr>)))"

definition rollover_checkpoint :: "SessionRouteRolloverProof \<Rightarrow> u64 \<Rightarrow> SessionRouteCheckpoint" where
  "rollover_checkpoint proof_rec next_revision =
     \<lparr>cp_retired_namespace = rp_retired_namespace proof_rec,
      cp_active_namespace = rp_next_namespace proof_rec,
      cp_registry_revision = next_revision,
      cp_retired_router_revision = rp_router_revision proof_rec,
      cp_retired_tracked_connections = rp_tracked_connections proof_rec,
      cp_retired_tracked_sessions = rp_tracked_sessions proof_rec,
      cp_retired_revocation_high_waters = rp_revocation_high_waters proof_rec,
      cp_checkpoint_digest = rp_checkpoint_digest proof_rec,
      cp_producer_barrier_digest = rp_producer_barrier_digest proof_rec\<rparr>"

text \<open>
  The rollover changes the registry in place before its last self-check, so that a failing
  check would leave the changed registry behind.
\<close>

definition rollover_namespace ::
    "SessionRouteRolloverProof \<Rightarrow> (SessionRouteRolloverProof \<Rightarrow> bool) \<Rightarrow> SessionRouteRegistry \<Rightarrow>
     SessionRouteRegistry \<times> (SessionRouteError + SessionRouteCheckpoint)" where
  "rollover_namespace proof_rec verify_rollover s =
     (case tryE (registry_verify s) (\<lambda>_.
        if rg_bindings s \<noteq> fmempty \<or> rg_connections_by_session s \<noteq> fmempty \<or>
           router_entry_count (rg_router s) \<noteq> 0
        then Inl RolloverRequiresQuiescence
        else tryE (propose_rollover s (rp_next_namespace proof_rec) (rp_checkpoint_digest proof_rec)
                    (rp_producer_barrier_digest proof_rec)) (\<lambda>expected.
          if proof_rec \<noteq> expected then Inl RolloverProofMismatch
          else if \<not> verify_rollover proof_rec then Inl RolloverVerificationFailed
          else registry_next_revision s)) of
        Inl e \<Rightarrow> (s, Inl e)
      | Inr next_revision \<Rightarrow>
          let checkpoint = rollover_checkpoint proof_rec next_revision;
              s' = s\<lparr>rg_namespace := rp_next_namespace proof_rec, rg_revision := next_revision,
                     rg_checkpoint := Some checkpoint, rg_router := router_new,
                     rg_revoked_through := fmempty\<rparr>
          in (s', tryE (registry_verify s') (\<lambda>_. Inr checkpoint)))"

definition registry_snapshot ::
    "SessionRouteRegistry \<Rightarrow> StreamKey \<Rightarrow> SnapshotVisibility \<Rightarrow> SessionRouteError + PresenceRecord list" where
  "registry_snapshot s stream visibility =
     tryE (registry_verify s) (\<lambda>_.
       map_err PresenceFailed (router_snapshot (rg_router s) stream visibility))"

text \<open>The operations that change the registry, as one.\<close>

datatype RegistryOp =
    RegistryJoin SessionJoinRequest
  | RegistryUpdate SessionUpdateRequest
  | RegistryLeave SessionLeaveRequest
  | RegistryRemove SessionRemoveConnectionRequest
  | RegistryRevoke SessionRevocationRequest
  | RegistryRollover SessionRouteRolloverProof

datatype RegistryReply =
    MutationReply SessionMutationDelta
  | RevocationReply SessionRevocationDelta
  | CheckpointReply SessionRouteCheckpoint

definition map_ok :: "('a \<Rightarrow> 'b) \<Rightarrow> 'e + 'a \<Rightarrow> 'e + 'b" where
  "map_ok f res = tryE res (\<lambda>x. Inr (f x))"

fun registry_exec :: "(SessionRouteRolloverProof \<Rightarrow> bool) \<Rightarrow> RegistryOp \<Rightarrow> SessionRouteRegistry \<Rightarrow>
    SessionRouteRegistry \<times> (SessionRouteError + RegistryReply)" where
  "registry_exec vr (RegistryJoin q) s = apsnd (map_ok MutationReply) (registry_join q s)"
| "registry_exec vr (RegistryUpdate q) s = apsnd (map_ok MutationReply) (registry_update q s)"
| "registry_exec vr (RegistryLeave q) s = apsnd (map_ok MutationReply) (registry_leave q s)"
| "registry_exec vr (RegistryRemove q) s =
     apsnd (map_ok MutationReply) (registry_remove_connection q s)"
| "registry_exec vr (RegistryRevoke q) s = apsnd (map_ok RevocationReply) (revoke_session q s)"
| "registry_exec vr (RegistryRollover p) s =
     apsnd (map_ok CheckpointReply) (rollover_namespace p vr s)"

definition registry_step :: "(SessionRouteRolloverProof \<Rightarrow> bool) \<Rightarrow> RegistryOp \<Rightarrow>
    SessionRouteRegistry \<Rightarrow> SessionRouteRegistry" where
  "registry_step vr x s = fst (registry_exec vr x s)"

end
