(* ===== verification/Presence_Router_Proofs.thy ===== *)
theory Presence_Router_Proofs
  imports Presence_Router
begin

text \<open>
  Correctness of the presence router: its invariant and that every operation keeps it, the
  exact effect of each operation, and the contract of the deltas: a subscriber that applies
  the deltas holds the public view of the router.
\<close>

subsection \<open>Invariant\<close>

definition key_of :: "PresenceRecord \<Rightarrow> PresenceKey" where
  "key_of rec = PresenceKey (pc_connection rec) (pc_stream rec)"

definition router_ok :: "PresenceRouter \<Rightarrow> bool" where
  "router_ok r \<longleftrightarrow> (\<forall>k rec. fmlookup (pr_entries r) k = Some rec \<longrightarrow>
     k = key_of rec \<and>
     fmlookup (pr_connections r) (pc_connection rec) =
       Some \<lparr>cs_generation = pc_generation rec, cs_identity = pc_identity rec\<rparr>)"

definition presence_internal :: "PresenceError \<Rightarrow> bool" where
  "presence_internal e = (case e of PresenceInvariantViolation _ \<Rightarrow> True | _ \<Rightarrow> False)"

lemma presence_internal_simps [simp]:
  "\<not> presence_internal (GenerationNotEstablished c g)"
  "\<not> presence_internal (StaleGeneration c g h)"
  "\<not> presence_internal (GenerationAhead c g h)"
  "\<not> presence_internal (IdentityConflict c i j)"
  "\<not> presence_internal (PresenceNotJoined c s)"
  "\<not> presence_internal PresenceRevisionExhausted"
  "presence_internal (PresenceInvariantViolation m)"
  by (simp_all add: presence_internal_def)

lemma pk_key_of [simp]: "pk_connection (key_of rec) = pc_connection rec"
  by (simp add: key_of_def)

lemma require_record_invariants_iff:
  "require_record_invariants r k rec = Inr u \<longleftrightarrow>
     k = key_of rec \<and> fmlookup (pr_connections r) (pc_connection rec) =
       Some \<lparr>cs_generation = pc_generation rec, cs_identity = pc_identity rec\<rparr>"
  by (cases k; cases "fmlookup (pr_connections r) (pc_connection rec)")
    (auto simp: require_record_invariants_def key_of_def)

lemma router_verify_iff: "router_verify r = Inr u \<longleftrightarrow> router_ok r"
  by (auto simp: router_verify_def router_ok_def require_record_invariants_iff split: prod.splits)

lemma router_okD:
  assumes "router_ok r" and "fmlookup (pr_entries r) k = Some rec"
  shows "require_record_invariants r k rec = Inr ()" "k = key_of rec"
    "fmlookup (pr_connections r) (pk_connection k) =
       Some \<lparr>cs_generation = pc_generation rec, cs_identity = pc_identity rec\<rparr>"
  using assms by (auto simp: router_ok_def require_record_invariants_iff) (metis pk_key_of)

lemma router_new_ok [simp]: "router_ok router_new"
  by (simp add: router_ok_def router_new_def)

subsection \<open>The loops over a connection's entries\<close>

lemma foldE_push_filter:
  "(\<And>x. x \<in> set xs \<Longrightarrow> P x \<Longrightarrow> check x = Inr ()) \<Longrightarrow>
   foldE (\<lambda>x acc. if \<not> P x then Inr acc else tryE (check x) (\<lambda>_. Inr (acc @ [f x]))) xs acc =
     Inr (acc @ map f (filter P xs))"
  by (induction xs arbitrary: acc) auto

lemma records_for_connection_eq:
  assumes "router_ok r"
  shows "records_for_connection r c =
    Inr (map snd (filter (\<lambda>kv. pk_connection (fst kv) = c) (entries_in_order (pr_entries r))))"
proof -
  have "foldE (\<lambda>x acc. if \<not> pk_connection (fst x) = c then Inr acc
        else tryE (require_record_invariants r (fst x) (snd x)) (\<lambda>_. Inr (acc @ [snd x])))
      (entries_in_order (pr_entries r)) [] =
    Inr ([] @ map snd (filter (\<lambda>kv. pk_connection (fst kv) = c) (entries_in_order (pr_entries r))))"
    by (rule foldE_push_filter) (auto intro: router_okD [OF assms])
  then show ?thesis by (simp add: records_for_connection_def case_prod_unfold)
qed

lemma set_keys_for_connection:
  "set (keys_for_connection r c) = {k. pk_connection k = c \<and> fmlookup (pr_entries r) k \<noteq> None}"
  by (auto simp: keys_for_connection_def fmlookup_dom_iff)

lemma distinct_keys_for_connection: "distinct (keys_for_connection r c)"
  by (simp add: keys_for_connection_def keys_in_order_def sorted_list_of_fset.rep_eq)

lemma retired_keys:
  assumes "router_ok r"
  shows "map (key_of \<circ> snd) (filter (\<lambda>kv. pk_connection (fst kv) = c) (entries_in_order (pr_entries r))) =
    keys_for_connection r c"
proof -
  have "key_of (the (fmlookup (pr_entries r) k)) = k" if "k \<in> set (keys_in_order (pr_entries r))" for k
    using that router_okD(2) [OF assms] by (auto simp: fmlookup_dom_iff)
  then show ?thesis
    by (auto simp: keys_for_connection_def entries_in_order_map filter_map comp_def
        intro!: map_idI)
qed

lemma entry_count_for_connection_eq:
  "router_ok r \<Longrightarrow> entry_count_for_connection r c = Inr (length (keys_for_connection r c))"
  by (simp add: entry_count_for_connection_def records_for_connection_eq
      retired_keys [symmetric])

lemma fmdrop_set_insert_drop: "fmdrop_set (insert k K) m = fmdrop_set K (fmdrop k m)"
  by (intro fmap_ext) auto

lemma retire_entries_eq:
  assumes "distinct keys" and "\<And>k. k \<in> set keys \<Longrightarrow> fmlookup (pr_entries r) k \<noteq> None"
  shows "\<exists>h'. retire_entries msg keys r ls h =
    (r\<lparr>pr_entries := fmdrop_set (set keys) (pr_entries r)\<rparr>,
     Inr (ls @ filter (\<lambda>rec. \<not> pc_hidden rec) (map (\<lambda>k. the (fmlookup (pr_entries r) k)) keys), h'))"
  using assms
proof (induction keys arbitrary: r ls h)
  case (Cons k keys)
  obtain rec where rec: "fmlookup (pr_entries r) k = Some rec" using Cons.prems(2) [of k] by auto
  define r' where "r' = r\<lparr>pr_entries := fmdrop k (pr_entries r)\<rparr>"
  have old: "map (\<lambda>k. the (fmlookup (pr_entries r') k)) keys = map (\<lambda>k. the (fmlookup (pr_entries r) k)) keys"
    using Cons.prems(1) by (auto simp: r'_def)
  have "fmlookup (pr_entries r') ka \<noteq> None" if "ka \<in> set keys" for ka
    using that Cons.prems(1) Cons.prems(2) [of ka] by (auto simp: r'_def)
  with Cons.prems(1) have rest: "\<exists>h'. retire_entries msg keys r' ls0 h0 =
      (r'\<lparr>pr_entries := fmdrop_set (set keys) (pr_entries r')\<rparr>,
       Inr (ls0 @ filter (\<lambda>rec. \<not> pc_hidden rec) (map (\<lambda>k. the (fmlookup (pr_entries r) k)) keys), h'))"
    for ls0 h0 unfolding old [symmetric] by (intro Cons.IH) simp_all
  have state: "r'\<lparr>pr_entries := fmdrop_set (set keys) (pr_entries r')\<rparr> =
      r\<lparr>pr_entries := fmdrop_set (set (k # keys)) (pr_entries r)\<rparr>"
    by (simp add: r'_def fmdrop_set_insert_drop)
  show ?case
    using rec rest [of ls "usize_saturating_add h 1"] rest [of "ls @ [rec]" h]
    by (simp add: r'_def [symmetric] Let_def state)
qed simp

definition without_connection :: "ConnectionRef \<Rightarrow> (PresenceKey, PresenceRecord) fmap \<Rightarrow>
    (PresenceKey, PresenceRecord) fmap" where
  "without_connection c m = fmfilter (\<lambda>k. pk_connection k \<noteq> c) m"

lemma fmlookup_without [simp]:
  "fmlookup (without_connection c m) k = (if pk_connection k = c then None else fmlookup m k)"
  by (simp add: without_connection_def)

definition visible_of :: "PresenceRouter \<Rightarrow> ConnectionRef \<Rightarrow> PresenceRecord list" where
  "visible_of r c = filter (\<lambda>rec. \<not> pc_hidden rec)
     (map (\<lambda>k. the (fmlookup (pr_entries r) k)) (keys_for_connection r c))"

lemma retire_connection:
  "\<exists>h. retire_entries msg (keys_for_connection r c) r [] 0 =
     (r\<lparr>pr_entries := without_connection c (pr_entries r)\<rparr>, Inr (visible_of r c, h))"
proof -
  have "fmdrop_set (set (keys_for_connection r c)) (pr_entries r) = without_connection c (pr_entries r)"
    by (intro fmap_ext) (auto simp: set_keys_for_connection)
  with retire_entries_eq [of "keys_for_connection r c" r msg "[]" 0] show ?thesis
    by (auto simp: visible_of_def distinct_keys_for_connection set_keys_for_connection)
qed

lemma set_visible_of:
  "set (visible_of r c) =
     {rec. \<exists>k. pk_connection k = c \<and> fmlookup (pr_entries r) k = Some rec \<and> \<not> pc_hidden rec}"
  by (force simp: visible_of_def set_keys_for_connection)

subsection \<open>The public view\<close>

text \<open>
  What a subscriber sees: the records that are not hidden. \<open>apply_delta\<close> is the subscriber's
  side: the leaves are dropped, then the updates and the joins are stored.
\<close>

type_synonym view = "PresenceKey \<Rightarrow> PresenceRecord option"

definition public_view :: "PresenceRouter \<Rightarrow> view" where
  "public_view r k = (case fmlookup (pr_entries r) k of
     None \<Rightarrow> None | Some rec \<Rightarrow> if pc_hidden rec then None else Some rec)"

definition apply_changes ::
    "PresenceRecord list \<Rightarrow> PresenceRecord list \<Rightarrow> PresenceRecord list \<Rightarrow> view \<Rightarrow> view" where
  "apply_changes joins updates leaves v =
     fold (\<lambda>rec v. v(key_of rec \<mapsto> rec)) (updates @ joins)
       (fold (\<lambda>rec v. v(key_of rec := None)) leaves v)"

definition apply_delta :: "PresenceDelta \<Rightarrow> view \<Rightarrow> view" where
  "apply_delta d = apply_changes (pd_joins d) (pd_updates d) (pd_leaves d)"

lemma apply_delta_simps [simp]:
  "apply_delta delta_idempotent v = v"
  "apply_delta (delta_applied n js us ls h) = apply_changes js us ls"
  by (simp_all add: apply_delta_def apply_changes_def delta_idempotent_def delta_applied_def)

lemma delta_simps [simp]:
  "pd_disposition delta_idempotent = MutIdempotent"
  "pd_revision delta_idempotent = None"
  "pd_leaves delta_idempotent = []"
  "pd_disposition (delta_applied n js us ls h) = MutApplied"
  "pd_revision (delta_applied n js us ls h) = Some n"
  "pd_leaves (delta_applied n js us ls h) = ls"
  by (simp_all add: delta_idempotent_def delta_applied_def)

lemma fold_drop_view:
  "fold (\<lambda>rec v. v(key_of rec := None)) ls v = (\<lambda>k. if k \<in> key_of ` set ls then None else v k)"
  by (induction ls arbitrary: v) auto

lemma public_view_without:
  assumes "router_ok r"
  shows "(\<lambda>k. if k \<in> key_of ` set (visible_of r c) then None else public_view r k) =
    (\<lambda>k. if pk_connection k = c then None else public_view r k)"
proof
  fix k
  have "k \<in> key_of ` set (visible_of r c) \<longleftrightarrow> pk_connection k = c \<and> public_view r k \<noteq> None"
    using router_okD(2) [OF assms]
    by (force simp: set_visible_of public_view_def split: option.splits if_splits)
  then show "(if k \<in> key_of ` set (visible_of r c) then None else public_view r k) =
      (if pk_connection k = c then None else public_view r k)" by auto
qed

lemma public_view_upd:
  "pr_entries r' = fmupd k rec (pr_entries r) \<Longrightarrow>
   public_view r' = (public_view r)(k := if pc_hidden rec then None else Some rec)"
  by (auto simp: public_view_def fun_eq_iff)

lemma public_view_drop:
  "pr_entries r' = fmdrop k (pr_entries r) \<Longrightarrow> public_view r' = (public_view r)(k := None)"
  by (auto simp: public_view_def fun_eq_iff)

lemma public_view_without_connection:
  "pr_entries r' = without_connection c (pr_entries r) \<Longrightarrow>
   public_view r' = (\<lambda>k. if pk_connection k = c then None else public_view r k)"
  by (auto simp: public_view_def fun_eq_iff)

text \<open>The two ways a changed record reaches the lists of a delta.\<close>

lemma push_join_view:
  assumes "push_join rec ([], [], ls, h) = (js, us, ls', h')"
    and "v (key_of rec) = None \<or> key_of rec \<in> key_of ` set ls"
  shows "apply_changes js us ls' v =
    (apply_changes [] [] ls v)(key_of rec := if pc_hidden rec then None else Some rec)"
  using assms by (auto simp: push_join_def apply_changes_def fold_drop_view fun_eq_iff
      split: if_splits)

lemma classify_view:
  assumes "classify_visibility_change old rec ([], [], [], 0) = (js, us, ls, h)"
    and "v (key_of rec) = (if pc_hidden old then None else Some old)" and "key_of old = key_of rec"
  shows "apply_changes js us ls v = v(key_of rec := if pc_hidden rec then None else Some rec)"
  using assms by (cases "pc_hidden old"; cases "pc_hidden rec")
    (auto simp: apply_changes_def fun_eq_iff)

subsection \<open>The effect of the operations\<close>

lemma require_exact_generation_iff:
  "require_exact_generation r c g = Inr u \<longleftrightarrow> established_generation r c = Some g"
  by (auto simp: require_exact_generation_def established_generation_def split: option.splits)

lemma require_exact_generation_error:
  "require_exact_generation r c g = Inl e \<Longrightarrow> \<not> presence_internal e"
  by (auto simp: require_exact_generation_def split: option.splits if_splits)

lemma router_next_revision_iff [simp]:
  "router_next_revision r = Inr n \<longleftrightarrow> checked_add (pr_revision r) 1 = Some n"
  "router_next_revision r = Inl e \<longleftrightarrow> checked_add (pr_revision r) 1 = None \<and> e = PresenceRevisionExhausted"
  by (auto simp: router_next_revision_def)

text \<open>What an operation that returns a delta has done to the router.\<close>

definition delta_effect :: "PresenceRouter \<Rightarrow> PresenceRouter \<Rightarrow> PresenceDelta \<Rightarrow> bool" where
  "delta_effect r r' d \<longleftrightarrow>
     public_view r' = apply_delta d (public_view r) \<and>
     (case pd_disposition d of
        MutIdempotent \<Rightarrow> r' = r \<and> pd_revision d = None \<and> pd_leaves d = []
      | MutApplied \<Rightarrow> pd_revision d = Some (pr_revision r') \<and>
          checked_add (pr_revision r) 1 = Some (pr_revision r'))"

lemma delta_effect_idempotent [simp]: "delta_effect r r delta_idempotent"
  by (simp add: delta_effect_def)

lemma delta_effect_applied:
  assumes "checked_add (pr_revision r) 1 = Some (pr_revision r')" "n = pr_revision r'"
    and "public_view r' = apply_changes js us ls (public_view r)"
  shows "delta_effect r r' (delta_applied n js us ls h)"
  using assms by (simp add: delta_effect_def)

lemma join_fence_error: "join_fence r q = Inl e \<Longrightarrow> \<not> presence_internal e"
  by (auto simp: join_fence_def split: option.splits if_splits)

lemma join_fence_advance:
  "join_fence r q = Inr u \<Longrightarrow> \<not> generation_advance r (jp_connection q) (jp_generation q) \<Longrightarrow>
   fmlookup (pr_connections r) (jp_connection q) =
     Some \<lparr>cs_generation = jp_generation q, cs_identity = jp_identity q\<rparr>"
  by (auto simp: join_fence_def generation_advance_def established_generation_def
      split: option.splits if_splits)

definition joined_entries :: "PresenceRouter \<Rightarrow> JoinPresenceRequest \<Rightarrow>
    (PresenceKey, PresenceRecord) fmap" where
  "joined_entries r q = fmupd (key_of (join_record q)) (join_record q)
     (if generation_advance r (jp_connection q) (jp_generation q)
      then without_connection (jp_connection q) (pr_entries r) else pr_entries r)"

definition joined_connections :: "PresenceRouter \<Rightarrow> JoinPresenceRequest \<Rightarrow>
    (ConnectionRef, ConnectionState) fmap" where
  "joined_connections r q = fmupd (jp_connection q)
     \<lparr>cs_generation = jp_generation q, cs_identity = jp_identity q\<rparr> (pr_connections r)"

lemma key_join_record [simp]: "key_of (join_record q) = PresenceKey (jp_connection q) (jp_stream q)"
  by (simp add: key_of_def join_record_def)

lemma join_record_simps [simp]:
  "pc_connection (join_record q) = jp_connection q"
  "pc_generation (join_record q) = jp_generation q"
  "pc_identity (join_record q) = jp_identity q"
  "pc_hidden (join_record q) = jp_hidden q"
  by (simp_all add: join_record_def)

lemma join_apply_advance:
  fixes r :: PresenceRouter and q :: JoinPresenceRequest and conns and h
  defines "c \<equiv> jp_connection q"
  defines "s \<equiv> r\<lparr>pr_entries := without_connection c (pr_entries r), pr_connections := conns\<rparr>"
  assumes ok: "router_ok r" and n: "checked_add (pr_revision r) 1 = Some n"
    and res: "join_apply s (key_of (join_record q)) (join_record q) True n
        ([], [], visible_of r c, h) = (r', d)"
  shows "r' = s\<lparr>pr_entries := fmupd (key_of (join_record q)) (join_record q) (pr_entries s),
      pr_revision := n\<rparr>" (is ?r')
    and "delta_effect r r' d" "pd_disposition d = MutApplied"
proof -
  obtain js us ls h' where ch: "push_join (join_record q) ([], [], visible_of r c, h) = (js, us, ls, h')"
    by (metis prod_cases4)
  with res have r': ?r' and d: "d = delta_applied n js us ls h'"
    by (simp_all add: join_apply_def)
  show ?r' by (rule r')
  show "pd_disposition d = MutApplied" by (simp add: d)
  have "public_view s = (\<lambda>k. if pk_connection k = c then None else public_view r k)"
    by (rule public_view_without_connection) (simp add: s_def)
  then have "apply_changes [] [] (visible_of r c) (public_view r) = public_view s"
    by (simp add: apply_changes_def fold_drop_view public_view_without [OF ok])
  moreover have "public_view r (key_of (join_record q)) = None \<or>
      key_of (join_record q) \<in> key_of ` set (visible_of r c)"
    using fun_cong [OF public_view_without [OF ok, of c], of "key_of (join_record q)"]
    by (auto simp: c_def split: if_splits)
  ultimately have "apply_changes js us ls (public_view r) =
      (public_view s)(key_of (join_record q) := if jp_hidden q then None else Some (join_record q))"
    using push_join_view [OF ch, of "public_view r"] by simp
  also have "\<dots> = public_view r'"
    using public_view_upd [of r' "key_of (join_record q)" "join_record q" s] by (simp add: r')
  finally have "public_view r' = apply_changes js us ls (public_view r)" ..
  then show "delta_effect r r' d" unfolding d by (intro delta_effect_applied) (simp_all add: n r')
qed

lemma join_apply_keep:
  fixes r :: PresenceRouter and q :: JoinPresenceRequest
  assumes ok: "router_ok r" and n: "checked_add (pr_revision r) 1 = Some n"
    and res: "join_apply r (key_of (join_record q)) (join_record q) False n ([], [], [], 0) = (r', d)"
  shows "r' = r\<lparr>pr_entries := fmupd (key_of (join_record q)) (join_record q) (pr_entries r),
      pr_revision := n\<rparr>" (is ?r')
    and "delta_effect r r' d" "pd_disposition d = MutApplied"
proof -
  define k where "k = key_of (join_record q)"
  obtain js us ls h' where ch: "(case fmlookup (pr_entries r) k of
       Some existing \<Rightarrow> classify_visibility_change existing (join_record q) ([], [], [], 0)
     | None \<Rightarrow> push_join (join_record q) ([], [], [], 0)) = (js, us, ls, h')"
    by (metis prod_cases4)
  with res have r': ?r' and d: "d = delta_applied n js us ls h'"
    by (auto simp: join_apply_def k_def)
  show ?r' by (rule r')
  show "pd_disposition d = MutApplied" by (simp add: d)
  have "apply_changes js us ls (public_view r) =
      (public_view r)(k := if jp_hidden q then None else Some (join_record q))"
  proof (cases "fmlookup (pr_entries r) k")
    case None
    with ch have "push_join (join_record q) ([], [], [], 0) = (js, us, ls, h')" by simp
    from push_join_view [OF this, of "public_view r"] None show ?thesis
      by (simp add: public_view_def k_def apply_changes_def)
  next
    case (Some old)
    with ch have "classify_visibility_change old (join_record q) ([], [], [], 0) = (js, us, ls, h')"
      by simp
    from classify_view [OF this, of "public_view r"] Some router_okD(2) [OF ok Some, symmetric] show ?thesis
      by (simp add: public_view_def k_def)
  qed
  also have "\<dots> = public_view r'"
    using public_view_upd [of r' k "join_record q" r] by (simp add: r' k_def)
  finally have "public_view r' = apply_changes js us ls (public_view r)" ..
  then show "delta_effect r r' d" unfolding d by (intro delta_effect_applied) (simp_all add: n r')
qed

lemma router_join_cases [case_names rejected idempotent applied]:
  assumes ok: "router_ok r" and op: "router_join q r = (r', res)"
  obtains (rejected) e where "res = Inl e" "r' = r" "\<not> presence_internal e"
  | (idempotent) "res = Inr delta_idempotent" "r' = r" "join_fence r q = Inr ()"
      "\<not> generation_advance r (jp_connection q) (jp_generation q)"
  | (applied) n d where "res = Inr d" "pd_disposition d = MutApplied"
      "r' = r\<lparr>pr_entries := joined_entries r q, pr_connections := joined_connections r q,
              pr_revision := n\<rparr>" "join_fence r q = Inr ()"
      "checked_add (pr_revision r) 1 = Some n" "delta_effect r r' d"
proof -
  define k where "k = key_of (join_record q)"
  define c where "c = jp_connection q"
  have k: "PresenceKey c (jp_stream q) = k" by (simp add: k_def c_def)
  show thesis
  proof (cases "join_fence r q")
    case (Inl e)
    with op show thesis by (intro rejected) (auto simp: router_join_def join_fence_error)
  next
    case fence: (Inr u)
    show thesis
    proof (cases "generation_advance r c (jp_generation q)")
      case True
      obtain h where h: "retire_entries ''entry disappeared during generation advance''
          (keys_for_connection r c) r [] 0 =
          (r\<lparr>pr_entries := without_connection c (pr_entries r)\<rparr>, Inr (visible_of r c, h))"
        using retire_connection by blast
      have keys: "map (\<lambda>x. PresenceKey (pc_connection (snd x)) (pc_stream (snd x)))
          (filter (\<lambda>kv. pk_connection (fst kv) = c) (entries_in_order (pr_entries r))) =
          keys_for_connection r c"
        using retired_keys [OF ok, of c] by (simp add: comp_def key_of_def)
      show thesis
      proof (cases "checked_add (pr_revision r) 1")
        case None
        with op fence True show thesis
          by (intro rejected) (auto simp: router_join_def c_def records_for_connection_eq [OF ok]
              router_next_revision_def)
      next
        case (Some n)
        then have rev: "router_next_revision r = Inr n" by simp
        let ?s = "r\<lparr>pr_entries := without_connection c (pr_entries r),
            pr_connections := joined_connections r q\<rparr>"
        have "router_join q r =
            apsnd Inr (join_apply ?s k (join_record q) True n ([], [], visible_of r c, h))"
          using fence True h
          by (simp add: router_join_def c_def [symmetric] records_for_connection_eq [OF ok] rev
              comp_def keys k joined_connections_def)
        with op obtain d where d:
          "join_apply ?s k (join_record q) True n ([], [], visible_of r c, h) = (r', d)" "res = Inr d"
          by (cases "join_apply ?s k (join_record q) True n ([], [], visible_of r c, h)") simp
        note eff = join_apply_advance [OF ok Some d(1) [unfolded c_def k_def]]
        show thesis
          using d(2) eff fence Some True
          by (intro applied) (auto simp: joined_entries_def c_def)
      qed
    next
      case False
      note conn = join_fence_advance [OF fence False [unfolded c_def]]
      have conns: "joined_connections r q = pr_connections r"
        by (intro fmap_ext) (auto simp: joined_connections_def conn)
      obtain b where b: "join_idempotent r k q = Inr b"
        using router_okD(1) [OF ok]
        by (cases "fmlookup (pr_entries r) k") (auto simp: join_idempotent_def)
      show thesis
      proof (cases b)
        case True
        with op fence False b show thesis
          by (intro idempotent) (auto simp: router_join_def c_def [symmetric] k)
      next
        case nb: False
        show thesis
        proof (cases "checked_add (pr_revision r) 1")
          case None
          with op fence False b nb show thesis
            by (intro rejected) (auto simp: router_join_def c_def [symmetric] k router_next_revision_def)
        next
          case (Some n)
          then have rev: "router_next_revision r = Inr n" by simp
          have "router_join q r = apsnd Inr (join_apply r k (join_record q) False n ([], [], [], 0))"
            using fence False b nb by (simp add: router_join_def c_def [symmetric] rev k)
          with op obtain d where d:
            "join_apply r k (join_record q) False n ([], [], [], 0) = (r', d)" "res = Inr d"
            by (cases "join_apply r k (join_record q) False n ([], [], [], 0)") simp
          note eff = join_apply_keep [OF ok Some d(1) [unfolded k_def]]
          show thesis
            using d(2) eff fence Some False
            by (intro applied) (auto simp: joined_entries_def conns c_def)
        qed
      qed
    qed
  qed
qed

lemma router_update_cases [case_names rejected idempotent applied]:
  assumes ok: "router_ok r" and op: "router_update q r = (r', res)"
  obtains (rejected) e where "res = Inl e" "r' = r" "\<not> presence_internal e"
  | (idempotent) "res = Inr delta_idempotent" "r' = r"
  | (applied) n d k old where "res = Inr d" "pd_disposition d = MutApplied"
      "fmlookup (pr_entries r) k = Some old" "k = PresenceKey (up_connection q) (up_stream q)"
      "r' = r\<lparr>pr_entries := fmupd k (old\<lparr>pc_status := up_status q, pc_hidden := up_hidden q\<rparr>)
              (pr_entries r), pr_revision := n\<rparr>"
      "checked_add (pr_revision r) 1 = Some n" "delta_effect r r' d"
proof (cases res)
  case (Inl e)
  with op have "r' = r" "\<not> presence_internal e"
    by (auto simp: router_update_def Let_def tryE_Inl_iff router_okD(1) [OF ok]
        require_exact_generation_error case_prod_unfold split: if_splits)
  with Inl show thesis by (rule rejected)
next
  case (Inr d)
  define k where "k = PresenceKey (up_connection q) (up_stream q)"
  from op Inr obtain old where old: "fmlookup (pr_entries r) k = Some old"
    and gen: "require_exact_generation r (up_connection q) (up_generation q) = Inr ()"
    by (auto simp: router_update_def Let_def k_def)
  define new where "new = old\<lparr>pc_status := up_status q, pc_hidden := up_hidden q\<rparr>"
  have key: "key_of old = k" "key_of new = k"
    using router_okD(2) [OF ok old] by (simp_all add: new_def key_of_def)
  show thesis
  proof (cases "pc_status old = up_status q \<and> pc_hidden old = up_hidden q")
    case True
    with op Inr old gen show thesis
      by (intro idempotent) (auto simp: router_update_def Let_def k_def [symmetric] router_okD(1) [OF ok])
  next
    case False
    obtain js us ls h where ch: "classify_visibility_change old new ([], [], [], 0) = (js, us, ls, h)"
      by (metis prod_cases4)
    obtain n where n: "checked_add (pr_revision r) 1 = Some n"
      and r': "r' = r\<lparr>pr_entries := fmupd k new (pr_entries r), pr_revision := n\<rparr>"
      and d: "d = delta_applied n js us ls h"
      using op Inr old gen False ch
      by (auto simp: router_update_def Let_def k_def [symmetric] new_def [symmetric]
          router_okD(1) [OF ok] simp del: classify_visibility_change.simps)
    have "apply_changes js us ls (public_view r) =
        (public_view r)(key_of new := if pc_hidden new then None else Some new)"
      using ch by (rule classify_view) (simp_all add: key public_view_def old)
    also have "\<dots> = public_view r'" using public_view_upd [of r' k new r] by (simp add: r' key)
    finally have "delta_effect r r' d"
      unfolding d by (intro delta_effect_applied) (simp_all add: n r')
    with Inr old r' n show thesis by (intro applied) (auto simp: k_def new_def d)
  qed
qed

lemma router_leave_cases [case_names rejected idempotent applied]:
  assumes ok: "router_ok r" and op: "router_leave q r = (r', res)"
  obtains (rejected) e where "res = Inl e" "r' = r" "\<not> presence_internal e"
  | (idempotent) "res = Inr delta_idempotent" "r' = r"
  | (applied) n d k where "res = Inr d" "pd_disposition d = MutApplied"
      "fmlookup (pr_entries r) k \<noteq> None" "k = PresenceKey (lp_connection q) (lp_stream q)"
      "r' = r\<lparr>pr_entries := fmdrop k (pr_entries r), pr_revision := n\<rparr>"
      "checked_add (pr_revision r) 1 = Some n" "delta_effect r r' d"
proof (cases res)
  case (Inl e)
  with op have "r' = r" "\<not> presence_internal e"
    by (auto simp: router_leave_def Let_def tryE_Inl_iff router_okD(1) [OF ok]
        require_exact_generation_error split: if_splits option.splits)
  with Inl show thesis by (rule rejected)
next
  case (Inr d)
  define k where "k = PresenceKey (lp_connection q) (lp_stream q)"
  from op Inr have gen: "require_exact_generation r (lp_connection q) (lp_generation q) = Inr ()"
    by (auto simp: router_leave_def Let_def)
  show thesis
  proof (cases "fmlookup (pr_entries r) k")
    case None
    with op Inr gen show thesis
      by (intro idempotent) (auto simp: router_leave_def Let_def k_def [symmetric])
  next
    case (Some old)
    obtain n where n: "checked_add (pr_revision r) 1 = Some n"
      and r': "r' = r\<lparr>pr_entries := fmdrop k (pr_entries r), pr_revision := n\<rparr>"
      and d: "d = (if pc_hidden old then delta_applied n [] [] [] 1
                   else delta_applied n [] [] [old] 0)"
      using op Inr gen Some
      by (auto simp: router_leave_def Let_def k_def [symmetric] router_okD(1) [OF ok]
          split: if_splits)
    have "public_view r' = apply_changes [] [] (if pc_hidden old then [] else [old]) (public_view r)"
      using public_view_drop [of r' k r] router_okD(2) [OF ok Some, symmetric] Some
      by (auto simp: r' apply_changes_def public_view_def fun_eq_iff)
    then have "delta_effect r r' d"
      unfolding d by (auto intro!: delta_effect_applied simp: n r')
    with Inr Some r' n show thesis
      by (intro applied) (auto simp: k_def d)
  qed
qed

lemma router_remove_cases [case_names rejected idempotent applied]:
  assumes ok: "router_ok r" and op: "router_remove_connection q r = (r', res)"
  obtains (rejected) e where "res = Inl e" "r' = r" "\<not> presence_internal e"
  | (idempotent) "res = Inr delta_idempotent" "r' = r"
      "established_generation r (rc_connection q) = Some (rc_generation q)"
      "without_connection (rc_connection q) (pr_entries r) = pr_entries r"
  | (applied) n d where "res = Inr d" "pd_disposition d = MutApplied"
      "established_generation r (rc_connection q) = Some (rc_generation q)"
      "r' = r\<lparr>pr_entries := without_connection (rc_connection q) (pr_entries r), pr_revision := n\<rparr>"
      "checked_add (pr_revision r) 1 = Some n" "delta_effect r r' d"
proof -
  define c where "c = rc_connection q"
  show thesis
  proof (cases "require_exact_generation r c (rc_generation q)")
    case (Inl e)
    with op show thesis
      by (intro rejected) (auto simp: router_remove_connection_def c_def require_exact_generation_error)
  next
    case gen: (Inr u)
    then have est: "established_generation r c = Some (rc_generation q)"
      by (simp add: require_exact_generation_iff)
    show thesis
    proof (cases "keys_for_connection r c = []")
      case True
      then have "pk_connection k = c \<Longrightarrow> fmlookup (pr_entries r) k = None" for k
        using set_keys_for_connection [of r c] by auto
      then have "without_connection c (pr_entries r) = pr_entries r"
        by (intro fmap_ext) auto
      with op gen est True show thesis
        by (intro idempotent) (auto simp: router_remove_connection_def c_def [symmetric])
    next
      case False
      show thesis
      proof (cases "checked_add (pr_revision r) 1")
        case None
        with op gen False show thesis
          by (intro rejected) (auto simp: router_remove_connection_def c_def [symmetric]
              router_next_revision_def)
      next
        case (Some n)
        then have rev: "router_next_revision r = Inr n" by simp
        obtain h where h: "retire_entries ''entry disappeared during connection removal''
            (keys_for_connection r c) r [] 0 =
            (r\<lparr>pr_entries := without_connection c (pr_entries r)\<rparr>, Inr (visible_of r c, h))"
          using retire_connection by blast
        have r': "r' = r\<lparr>pr_entries := without_connection c (pr_entries r), pr_revision := n\<rparr>"
          and d: "res = Inr (delta_applied n [] [] (visible_of r c) h)"
          using op gen False h
          by (auto simp: router_remove_connection_def c_def [symmetric] rev)
        have "public_view r' = (\<lambda>k. if pk_connection k = c then None else public_view r k)"
          by (rule public_view_without_connection) (simp add: r')
        then have "public_view r' = apply_changes [] [] (visible_of r c) (public_view r)"
          by (simp add: apply_changes_def fold_drop_view public_view_without [OF ok])
        then have "delta_effect r r' (delta_applied n [] [] (visible_of r c) h)"
          by (intro delta_effect_applied) (simp_all add: Some r')
        with d est r' Some show thesis by (intro applied) (auto simp: c_def)
      qed
    qed
  qed
qed

subsection \<open>The operations keep the invariant\<close>

lemma joined_ok:
  assumes ok: "router_ok r" and fence: "join_fence r q = Inr u"
    and "pr_entries r' = joined_entries r q" "pr_connections r' = joined_connections r q"
  shows "router_ok r'"
  unfolding router_ok_def
proof (intro allI impI)
  fix k rec assume k: "fmlookup (pr_entries r') k = Some rec"
  show "k = key_of rec \<and> fmlookup (pr_connections r') (pc_connection rec) =
      Some \<lparr>cs_generation = pc_generation rec, cs_identity = pc_identity rec\<rparr>"
  proof (cases "k = key_of (join_record q)")
    case True
    with k have "rec = join_record q" by (simp add: assms(3) joined_entries_def)
    then show ?thesis by (simp add: True assms(4) joined_connections_def)
  next
    case False
    with k have old: "fmlookup (pr_entries r) k = Some rec"
      and keep: "generation_advance r (jp_connection q) (jp_generation q) \<Longrightarrow> pk_connection k \<noteq> jp_connection q"
      by (auto simp: assms(3) joined_entries_def split: if_splits)
    note D = router_okD [OF ok old]
    show ?thesis
    proof (cases "pk_connection k = jp_connection q")
      case True
      with keep have "\<not> generation_advance r (jp_connection q) (jp_generation q)" by blast
      from join_fence_advance [OF fence this] D True show ?thesis
        by (auto simp: assms(4) joined_connections_def)
    next
      case False
      with D show ?thesis by (auto simp: assms(4) joined_connections_def)
    qed
  qed
qed

lemma sub_ok:
  assumes "router_ok r" and "pr_connections r' = pr_connections r"
    and "\<And>k rec. fmlookup (pr_entries r') k = Some rec \<Longrightarrow> fmlookup (pr_entries r) k = Some rec"
  shows "router_ok r'"
  using assms unfolding router_ok_def by metis

lemma updated_ok:
  assumes ok: "router_ok r" and old: "fmlookup (pr_entries r) k = Some old"
  shows "router_ok (r\<lparr>pr_entries := fmupd k (old\<lparr>pc_status := t, pc_hidden := b\<rparr>) (pr_entries r),
    pr_revision := n\<rparr>)"
  using ok router_okD [OF ok old] unfolding router_ok_def by (auto simp: key_of_def)

lemma router_exec_ok: "router_ok r \<Longrightarrow> router_exec x r = (r', res) \<Longrightarrow> router_ok r'"
proof (cases x)
  case (RouterJoin q)
  assume ok: "router_ok r" and op: "router_exec x r = (r', res)"
  from op RouterJoin have "router_join q r = (r', res)" by simp
  with ok show ?thesis by (cases rule: router_join_cases) (auto intro: joined_ok [OF ok] simp: ok)
next
  case (RouterUpdate q)
  assume ok: "router_ok r" and op: "router_exec x r = (r', res)"
  from op RouterUpdate have "router_update q r = (r', res)" by simp
  with ok show ?thesis by (cases rule: router_update_cases) (auto intro: updated_ok [OF ok] simp: ok)
next
  case (RouterLeave q)
  assume ok: "router_ok r" and op: "router_exec x r = (r', res)"
  from op RouterLeave have "router_leave q r = (r', res)" by simp
  with ok show ?thesis
    by (cases rule: router_leave_cases) (auto intro: sub_ok [OF ok] simp: ok split: if_splits)
next
  case (RouterRemove q)
  assume ok: "router_ok r" and op: "router_exec x r = (r', res)"
  from op RouterRemove have "router_remove_connection q r = (r', res)" by simp
  with ok show ?thesis
    by (cases rule: router_remove_cases) (auto intro: sub_ok [OF ok] simp: ok split: if_splits)
qed

lemma router_exec_effect:
  assumes "router_ok r" and "router_exec x r = (r', res)"
  shows "case res of Inl e \<Rightarrow> r' = r \<and> \<not> presence_internal e | Inr d \<Rightarrow> delta_effect r r' d"
proof (cases x)
  case (RouterJoin q)
  from assms RouterJoin have "router_join q r = (r', res)" by simp
  with assms(1) show ?thesis by (cases rule: router_join_cases) simp_all
next
  case (RouterUpdate q)
  from assms RouterUpdate have "router_update q r = (r', res)" by simp
  with assms(1) show ?thesis by (cases rule: router_update_cases) simp_all
next
  case (RouterLeave q)
  from assms RouterLeave have "router_leave q r = (r', res)" by simp
  with assms(1) show ?thesis by (cases rule: router_leave_cases) simp_all
next
  case (RouterRemove q)
  from assms RouterRemove have "router_remove_connection q r = (r', res)" by simp
  with assms(1) show ?thesis by (cases rule: router_remove_cases) simp_all
qed

interpretation presence_router: state_machine router_step router_ok
proof
  fix r x assume "router_ok r"
  then show "router_ok (router_step x r)"
    by (cases "router_exec x r") (auto simp: router_step_def dest: router_exec_ok)
qed

subsection \<open>The stream of deltas\<close>

lemma router_stepI: "router_exec x r = (r', res) \<Longrightarrow> router_step x r = r'"
  by (simp add: router_step_def)

primrec router_deltas :: "RouterOp list \<Rightarrow> PresenceRouter \<Rightarrow> PresenceDelta list" where
  "router_deltas [] r = []"
| "router_deltas (x # xs) r = (case router_exec x r of
     (r', Inl _) \<Rightarrow> router_deltas xs r'
   | (r', Inr d) \<Rightarrow> d # router_deltas xs r')"

lemma router_deltas_view:
  assumes "router_ok r"
  shows "public_view (fold router_step xs r) = fold apply_delta (router_deltas xs r) (public_view r)"
  using assms
proof (induction xs arbitrary: r)
  case (Cons x xs)
  obtain r' res where op: "router_exec x r = (r', res)" by (cases "router_exec x r")
  from Cons.IH [OF router_exec_ok [OF Cons.prems op]] router_exec_effect [OF Cons.prems op]
  show ?case by (auto simp: op router_stepI [OF op] delta_effect_def split: sum.splits)
qed simp

lemma router_deltas_revisions:
  assumes "router_ok r"
  shows "unat (pr_revision r) \<le> unat (pr_revision (fold router_step xs r)) \<and>
    map pd_revision (filter (\<lambda>d. pd_disposition d = MutApplied) (router_deltas xs r)) =
      map (\<lambda>i. Some (of_nat i)) [Suc (unat (pr_revision r))..<Suc (unat (pr_revision (fold router_step xs r)))]"
  using assms
proof (induction xs arbitrary: r)
  case (Cons x xs)
  obtain r' res where op: "router_exec x r = (r', res)" by (cases "router_exec x r")
  note IH = Cons.IH [OF router_exec_ok [OF Cons.prems op]]
  note eff = router_exec_effect [OF Cons.prems op]
  show ?case
  proof (cases res)
    case (Inl e)
    with IH eff op show ?thesis by (simp add: router_step_def)
  next
    case (Inr d)
    show ?thesis
    proof (cases "pd_disposition d")
      case MutIdempotent
      with Inr IH eff show ?thesis
        by (simp add: op router_stepI [OF op] delta_effect_def del: upt_Suc)
    next
      case MutApplied
      with Inr eff have d: "pd_revision d = Some (pr_revision r')"
        "unat (pr_revision r') = Suc (unat (pr_revision r))"
        by (simp_all add: delta_effect_def checked_add_one_Some)
      have "(of_nat (Suc (unat (pr_revision r))) :: u64) = pr_revision r'"
        unfolding d(2) [symmetric] by simp
      with Inr IH d MutApplied show ?thesis
        by (subst upt_conv_Cons) (simp_all add: op router_stepI [OF op] del: of_nat_Suc upt_Suc)
    qed
  qed
qed simp

lemma public_snapshot:
  assumes "router_ok r"
  shows "\<exists>rs. router_snapshot r stream PublicOnly = Inr rs \<and> distinct rs \<and>
    set rs = {rec. pc_stream rec = stream \<and> public_view r (key_of rec) = Some rec}"
proof -
  let ?rs = "sort_key (\<lambda>rec. (pi_session_id (pc_identity rec), cr_node_id (pc_connection rec),
      cr_connection_id (pc_connection rec)))
    (filter (\<lambda>rec. pc_stream rec = stream \<and> \<not> pc_hidden rec) (map snd (entries_in_order (pr_entries r))))"
  have "router_snapshot r stream PublicOnly = Inr ?rs"
    using assms router_verify_iff [of r "()"] by (simp add: router_snapshot_def)
  moreover have "inj_on snd (set (entries_in_order (pr_entries r)))"
    using router_okD(2) [OF assms] by (auto intro!: inj_onI) metis
  then have "distinct ?rs" by (simp add: distinct_map)
  moreover have "(\<exists>k. fmlookup (pr_entries r) k = Some rec) \<longleftrightarrow> fmlookup (pr_entries r) (key_of rec) = Some rec"
    for rec using router_okD(2) [OF assms] by metis
  moreover have "public_view r (key_of rec) = Some rec \<longleftrightarrow>
      fmlookup (pr_entries r) (key_of rec) = Some rec \<and> \<not> pc_hidden rec" for rec
    by (auto simp: public_view_def split: option.splits)
  ultimately have "set ?rs = {rec. pc_stream rec = stream \<and> public_view r (key_of rec) = Some rec}"
    by (auto simp: image_Collect)
  moreover note \<open>distinct ?rs\<close> \<open>router_snapshot r stream PublicOnly = Inr ?rs\<close>
  ultimately show ?thesis by blast
qed

text \<open>
  C22: The presence deltas are complete and gapless: a subscriber that starts from nothing and
  applies every delta the router returned, over any sequence of joins, updates, leaves and
  removals, failed ones included, holds exactly the router's visible records, which are also
  what a snapshot of each stream lists, without repetition; and the revisions of the applied
  deltas are 1, 2, 3 and so on up to the router's revision.
\<close>

theorem presence_deltas_track_view:
  "let r = fold router_step xs router_new; ds = router_deltas xs router_new;
       v = fold apply_delta ds Map.empty in
     public_view r = v \<and>
     (\<exists>rs. router_snapshot r stream PublicOnly = Inr rs \<and> distinct rs \<and>
        set rs = {rec. pc_stream rec = stream \<and> v (key_of rec) = Some rec}) \<and>
     map pd_revision (filter (\<lambda>d. pd_disposition d = MutApplied) ds) =
       map (\<lambda>i. Some (of_nat i)) [1..<Suc (unat (pr_revision r))]"
proof -
  have start: "public_view router_new = Map.empty"
    by (simp add: public_view_def router_new_def fun_eq_iff)
  have "pr_revision router_new = 0" by (simp add: router_new_def)
  then show ?thesis
    using router_deltas_view [OF router_new_ok, of xs] router_deltas_revisions [OF router_new_ok, of xs]
      public_snapshot [OF presence_router.run_inv [OF router_new_ok, of xs], of stream]
    by (simp add: Let_def start del: of_nat_Suc upt_Suc)
qed

end
