(* ===== verification/Session_Routes_Proofs.thy ===== *)
theory Session_Routes_Proofs
  imports Session_Routes Presence_Router_Proofs
begin

text \<open>
  Correctness of the session registry: the self-check that guards every commit never fails,
  and a revoked session generation never gets a connection again in its namespace. The
  session index is shown to be a function of the bindings, so that the invariant and the
  capacities are stated over the bindings alone.
\<close>

subsection \<open>The session index\<close>

definition conns_of :: "(ConnectionRef, SessionBinding) fmap \<Rightarrow> rstring \<Rightarrow> ConnectionRef set" where
  "conns_of bs sid = {c. \<exists>b. fmlookup bs c = Some b \<and> bd_session_id b = sid}"

definition live_sessions :: "(ConnectionRef, SessionBinding) fmap \<Rightarrow> rstring set" where
  "live_sessions bs = {sid. conns_of bs sid \<noteq> {}}"

definition index_ok :: "SessionRouteRegistry \<Rightarrow> bool" where
  "index_ok s \<longleftrightarrow> (\<forall>sid. conns_of (rg_bindings s) sid =
     (case fmlookup (rg_connections_by_session s) sid of None \<Rightarrow> {} | Some cs \<Rightarrow> fset cs) \<and>
     fmlookup (rg_connections_by_session s) sid \<noteq> Some {||})"

lemma finite_conns_of [simp]: "finite (conns_of bs sid)"
  by (rule finite_subset [of _ "fset (fmdom bs)"]) (auto simp: conns_of_def fmlookup_dom_iff)

lemma live_sessions_image: "live_sessions bs = bd_session_id ` fset (fmran bs)"
  by (fastforce simp: live_sessions_def conns_of_def fmlookup_ran_iff intro: fmranI)

lemma finite_live_sessions [simp]: "finite (live_sessions bs)"
  by (simp add: live_sessions_image)

lemma index_okD:
  assumes "index_ok s"
  shows "fmlookup (rg_connections_by_session s) sid = Some cs \<longleftrightarrow>
      cs \<noteq> {||} \<and> fset cs = conns_of (rg_bindings s) sid"
    "fmlookup (rg_connections_by_session s) sid = None \<longleftrightarrow> conns_of (rg_bindings s) sid = {}"
    "sid |\<in>| fmdom (rg_connections_by_session s) \<longleftrightarrow> sid \<in> live_sessions (rg_bindings s)"
proof -
  have *: "conns_of (rg_bindings s) sid =
     (case fmlookup (rg_connections_by_session s) sid of None \<Rightarrow> {} | Some cs \<Rightarrow> fset cs)"
    "fmlookup (rg_connections_by_session s) sid \<noteq> Some {||}"
    using assms by (simp_all add: index_ok_def)
  show "fmlookup (rg_connections_by_session s) sid = Some cs \<longleftrightarrow>
      cs \<noteq> {||} \<and> fset cs = conns_of (rg_bindings s) sid"
    using * by (cases "fmlookup (rg_connections_by_session s) sid") (auto simp: fset_inject)
  show none: "fmlookup (rg_connections_by_session s) sid = None \<longleftrightarrow> conns_of (rg_bindings s) sid = {}"
    using * by (cases "fmlookup (rg_connections_by_session s) sid") (auto simp: bot_fset.rep_eq fset_inject [symmetric])
  then show "sid |\<in>| fmdom (rg_connections_by_session s) \<longleftrightarrow> sid \<in> live_sessions (rg_bindings s)"
    by (auto simp: live_sessions_def fmlookup_dom_iff)
qed

lemma index_ok_alt:
  "index_ok s \<longleftrightarrow>
     (\<forall>c b. fmlookup (rg_bindings s) c = Some b \<longrightarrow>
        (\<exists>cs. fmlookup (rg_connections_by_session s) (bd_session_id b) = Some cs \<and> c |\<in>| cs)) \<and>
     (\<forall>sid cs. fmlookup (rg_connections_by_session s) sid = Some cs \<longrightarrow> cs \<noteq> {||} \<and>
        (\<forall>c. c |\<in>| cs \<longrightarrow> (\<exists>b. fmlookup (rg_bindings s) c = Some b \<and> bd_session_id b = sid)))"
  (is "_ \<longleftrightarrow> ?A \<and> ?B")
proof
  assume ok: "index_ok s"
  have ?A
  proof (intro allI impI)
    fix c b assume "fmlookup (rg_bindings s) c = Some b"
    then have "c \<in> conns_of (rg_bindings s) (bd_session_id b)" by (simp add: conns_of_def)
    then show "\<exists>cs. fmlookup (rg_connections_by_session s) (bd_session_id b) = Some cs \<and> c |\<in>| cs"
      using ok unfolding index_ok_def
      by (cases "fmlookup (rg_connections_by_session s) (bd_session_id b)") auto
  qed
  moreover have ?B
    using index_okD(1) [OF ok] by (auto simp: conns_of_def)
  ultimately show "?A \<and> ?B" ..
next
  assume *: "?A \<and> ?B"
  show "index_ok s"
    unfolding index_ok_def
  proof
    fix sid
    show "conns_of (rg_bindings s) sid =
       (case fmlookup (rg_connections_by_session s) sid of None \<Rightarrow> {} | Some cs \<Rightarrow> fset cs) \<and>
       fmlookup (rg_connections_by_session s) sid \<noteq> Some {||}"
      using * by (cases "fmlookup (rg_connections_by_session s) sid") (fastforce simp: conns_of_def)+
  qed
qed

lemma card_Un_Diff: "finite A \<Longrightarrow> finite B \<Longrightarrow> card (A \<union> B) = card A + card (B - A)"
  using card_Un_disjoint [of A "B - A"] by auto

lemma tracked_session_count_eq:
  assumes "index_ok s"
  shows "tracked_session_count s =
    card (fset (fmdom (rg_revoked_through s)) \<union> live_sessions (rg_bindings s))"
proof -
  have "fset (ffilter (\<lambda>sid. sid |\<notin>| fmdom (rg_revoked_through s)) (fmdom (rg_connections_by_session s))) =
      live_sessions (rg_bindings s) - fset (fmdom (rg_revoked_through s))"
    using index_okD(3) [OF assms] by auto
  moreover have "card (fset (fmdom (rg_revoked_through s)) \<union> live_sessions (rg_bindings s)) =
      card (fset (fmdom (rg_revoked_through s))) +
      card (live_sessions (rg_bindings s) - fset (fmdom (rg_revoked_through s)))"
    by (rule card_Un_Diff) simp_all
  ultimately show ?thesis
    by (simp only: tracked_session_count_def fmap_len_def fcard.rep_eq)
qed

lemma session_tracked_iff:
  "index_ok s \<Longrightarrow> session_tracked s sid \<longleftrightarrow>
     sid \<in> fset (fmdom (rg_revoked_through s)) \<union> live_sessions (rg_bindings s)"
  by (auto simp: session_tracked_def index_okD(3))

lemma remove_binding_fields [simp]:
  "rg_limits (fst (remove_binding c s)) = rg_limits s"
  "rg_namespace (fst (remove_binding c s)) = rg_namespace s"
  "rg_revision (fst (remove_binding c s)) = rg_revision s"
  "rg_checkpoint (fst (remove_binding c s)) = rg_checkpoint s"
  "rg_router (fst (remove_binding c s)) = rg_router s"
  "rg_revoked_through (fst (remove_binding c s)) = rg_revoked_through s"
  by (simp_all add: remove_binding_def Let_def split: option.split)

lemma insert_binding_fields [simp]:
  "rg_limits (insert_binding c b s) = rg_limits s"
  "rg_namespace (insert_binding c b s) = rg_namespace s"
  "rg_revision (insert_binding c b s) = rg_revision s"
  "rg_checkpoint (insert_binding c b s) = rg_checkpoint s"
  "rg_router (insert_binding c b s) = rg_router s"
  "rg_revoked_through (insert_binding c b s) = rg_revoked_through s"
  by (simp_all add: insert_binding_def Let_def)

lemma remove_binding_index:
  assumes "index_ok s"
  shows "index_ok (fst (remove_binding c s))"
    "rg_bindings (fst (remove_binding c s)) = fmdrop c (rg_bindings s)"
    "snd (remove_binding c s) = fmlookup (rg_bindings s) c"
proof -
  let ?t = "fst (remove_binding c s)"
  show bs: "rg_bindings ?t = fmdrop c (rg_bindings s)"
  proof (cases "fmlookup (rg_bindings s) c")
    case None
    then have "fmdrop c (rg_bindings s) = rg_bindings s" by (intro fmap_ext) auto
    with None show ?thesis by (simp add: remove_binding_def)
  qed (simp add: remove_binding_def Let_def split: option.split)
  show "snd (remove_binding c s) = fmlookup (rg_bindings s) c"
    by (simp add: remove_binding_def Let_def split: option.split)
  show "index_ok ?t"
  proof (cases "fmlookup (rg_bindings s) c")
    case None
    with assms show ?thesis by (simp add: remove_binding_def)
  next
    case (Some b)
    then have "c \<in> conns_of (rg_bindings s) (bd_session_id b)" by (simp add: conns_of_def)
    then obtain cs where cs: "fmlookup (rg_connections_by_session s) (bd_session_id b) = Some cs" "c |\<in>| cs"
      using assms by (fastforce simp: index_ok_def split: option.splits)
    have idx: "rg_connections_by_session ?t =
        (if cs |-| {|c|} = {||} then fmdrop (bd_session_id b) (rg_connections_by_session s)
         else fmupd (bd_session_id b) (cs |-| {|c|}) (rg_connections_by_session s))"
      using Some cs by (simp add: remove_binding_def Let_def)
    have conns: "conns_of (rg_bindings ?t) sid = conns_of (rg_bindings s) sid - {c}" for sid
      by (auto simp: bs conns_of_def)
    have other: "c \<notin> conns_of (rg_bindings s) sid" if "sid \<noteq> bd_session_id b" for sid
      using Some that by (auto simp: conns_of_def)
    show ?thesis
      unfolding index_ok_def
    proof
      fix sid
      show "conns_of (rg_bindings ?t) sid =
         (case fmlookup (rg_connections_by_session ?t) sid of None \<Rightarrow> {} | Some cs \<Rightarrow> fset cs) \<and>
         fmlookup (rg_connections_by_session ?t) sid \<noteq> Some {||}"
      proof (cases "sid = bd_session_id b")
        case True
        have "conns_of (rg_bindings s) sid = fset cs" using assms cs True by (simp add: index_ok_def)
        with True show ?thesis
          unfolding conns idx by (auto simp: fset_inject [symmetric])
      next
        case False
        with assms other [OF False] show ?thesis
          unfolding conns idx by (simp add: index_ok_def)
      qed
    qed
  qed
qed

lemma insert_binding_index:
  assumes "index_ok s" and "fmlookup (rg_bindings s) c = None"
  shows "index_ok (insert_binding c b s)"
    "rg_bindings (insert_binding c b s) = fmupd c b (rg_bindings s)"
proof -
  show bs: "rg_bindings (insert_binding c b s) = fmupd c b (rg_bindings s)"
    by (simp add: insert_binding_def Let_def)
  have conns: "conns_of (rg_bindings (insert_binding c b s)) sid =
      (if sid = bd_session_id b then insert c (conns_of (rg_bindings s) sid)
       else conns_of (rg_bindings s) sid)" for sid
    using assms(2) by (auto simp: bs conns_of_def)
  show "index_ok (insert_binding c b s)"
    unfolding index_ok_def
  proof
    fix sid
    show "conns_of (rg_bindings (insert_binding c b s)) sid =
       (case fmlookup (rg_connections_by_session (insert_binding c b s)) sid of None \<Rightarrow> {} | Some cs \<Rightarrow> fset cs) \<and>
       fmlookup (rg_connections_by_session (insert_binding c b s)) sid \<noteq> Some {||}"
      unfolding conns using assms(1)
      by (cases "fmlookup (rg_connections_by_session s) (bd_session_id b)")
        (auto simp: index_ok_def insert_binding_def Let_def)
  qed
qed

subsection \<open>The invariant\<close>

definition capacity_ok :: "SessionRouteRegistry \<Rightarrow> bool" where
  "capacity_ok s \<longleftrightarrow>
     fmap_len (rg_bindings s) \<le> rl_active_connections (rg_limits s) \<and>
     router_connection_count (rg_router s) \<le> rl_tracked_connections (rg_limits s) \<and>
     router_entry_count (rg_router s) \<le> rl_presence_entries (rg_limits s) \<and>
     fmap_len (rg_revoked_through s) \<le> rl_revocation_high_waters (rg_limits s) \<and>
     card (fset (fmdom (rg_revoked_through s)) \<union> live_sessions (rg_bindings s))
       \<le> rl_tracked_sessions (rg_limits s) \<and>
     (\<forall>sid. card (conns_of (rg_bindings s) sid) \<le> rl_connections_per_session (rg_limits s))"

definition bindings_ok :: "SessionRouteRegistry \<Rightarrow> bool" where
  "bindings_ok s \<longleftrightarrow> (\<forall>c b. fmlookup (rg_bindings s) c = Some b \<longrightarrow>
     (\<exists>st. fmlookup (pr_connections (rg_router s)) c = Some st \<and>
        cs_generation st = bd_connection_generation b \<and>
        pi_session_id (cs_identity st) = bd_session_id b) \<and>
     (\<forall>g. fmlookup (rg_revoked_through s) (bd_session_id b) = Some g \<longrightarrow> g < bd_session_generation b))"

definition checkpoint_ok :: "SessionRouteRegistry \<Rightarrow> bool" where
  "checkpoint_ok s \<longleftrightarrow> (\<forall>cp. rg_checkpoint s = Some cp \<longrightarrow> checkpoint_binds s cp)"

definition registry_ok :: "SessionRouteRegistry \<Rightarrow> bool" where
  "registry_ok s \<longleftrightarrow> router_ok (rg_router s) \<and> checkpoint_ok s \<and> index_ok s \<and> bindings_ok s \<and> capacity_ok s"

lemma registry_okD:
  assumes "registry_ok s"
  shows "router_ok (rg_router s)" "checkpoint_ok s" "index_ok s" "bindings_ok s" "capacity_ok s"
  using assms by (simp_all add: registry_ok_def)

lemma verify_binding_iff:
  "verify_binding s (c, b) = Inr () \<longleftrightarrow>
     (\<exists>st. fmlookup (pr_connections (rg_router s)) c = Some st \<and>
        cs_generation st = bd_connection_generation b \<and>
        pi_session_id (cs_identity st) = bd_session_id b) \<and>
     (\<forall>g. fmlookup (rg_revoked_through s) (bd_session_id b) = Some g \<longrightarrow> g < bd_session_generation b) \<and>
     (\<exists>cs. fmlookup (rg_connections_by_session s) (bd_session_id b) = Some cs \<and> c |\<in>| cs)"
  by (cases "fmlookup (pr_connections (rg_router s)) c";
      cases "fmlookup (rg_connections_by_session s) (bd_session_id b)";
      cases "fmlookup (rg_revoked_through s) (bd_session_id b)")
    (auto simp: verify_binding_def established_generation_def established_identity_def
      route_violation_def)

lemma verify_session_iff:
  "verify_session s (sid, cs) = Inr () \<longleftrightarrow>
     cs \<noteq> {||} \<and> fcard cs \<le> rl_connections_per_session (rg_limits s) \<and>
     (\<forall>c. c |\<in>| cs \<longrightarrow> (\<exists>b. fmlookup (rg_bindings s) c = Some b \<and> bd_session_id b = sid))"
  by (auto simp: verify_session_def route_violation_def)

lemma conns_capacity:
  assumes "index_ok s"
  shows "(\<forall>sid cs. fmlookup (rg_connections_by_session s) sid = Some cs \<longrightarrow> fcard cs \<le> n) \<longleftrightarrow>
    (\<forall>sid. card (conns_of (rg_bindings s) sid) \<le> n)"
proof
  assume *: "\<forall>sid cs. fmlookup (rg_connections_by_session s) sid = Some cs \<longrightarrow> fcard cs \<le> n"
  show "\<forall>sid. card (conns_of (rg_bindings s) sid) \<le> n"
  proof
    fix sid
    from assms * show "card (conns_of (rg_bindings s) sid) \<le> n"
      by (cases "fmlookup (rg_connections_by_session s) sid") (auto simp: index_ok_def fcard.rep_eq)
  qed
next
  assume *: "\<forall>sid. card (conns_of (rg_bindings s) sid) \<le> n"
  show "\<forall>sid cs. fmlookup (rg_connections_by_session s) sid = Some cs \<longrightarrow> fcard cs \<le> n"
    using * index_okD(1) [OF assms] by (auto simp: fcard.rep_eq)
qed

lemma registry_verify_iff: "registry_verify s = Inr u \<longleftrightarrow> registry_ok s"
proof -
  have bind: "forE (verify_binding s) (entries_in_order (rg_bindings s)) = Inr () \<and>
      forE (verify_session s) (entries_in_order (rg_connections_by_session s)) = Inr () \<longleftrightarrow>
      bindings_ok s \<and> index_ok s \<and>
      (\<forall>sid cs. fmlookup (rg_connections_by_session s) sid = Some cs \<longrightarrow>
         fcard cs \<le> rl_connections_per_session (rg_limits s))"
    unfolding index_ok_alt bindings_ok_def forE_Inr_iff set_entries_in_order
    by (simp only: Ball_def mem_Collect_eq split_paired_All case_prod_conv verify_binding_iff
        verify_session_iff) blast
  have cp: "(case rg_checkpoint s of None \<Rightarrow> False | Some cp \<Rightarrow> \<not> checkpoint_binds s cp) \<longleftrightarrow> \<not> checkpoint_ok s"
    by (auto simp: checkpoint_ok_def split: option.splits)
  have "registry_verify s = Inr u \<longleftrightarrow>
      router_ok (rg_router s) \<and> checkpoint_ok s \<and>
      fmap_len (rg_bindings s) \<le> rl_active_connections (rg_limits s) \<and>
      router_connection_count (rg_router s) \<le> rl_tracked_connections (rg_limits s) \<and>
      router_entry_count (rg_router s) \<le> rl_presence_entries (rg_limits s) \<and>
      fmap_len (rg_revoked_through s) \<le> rl_revocation_high_waters (rg_limits s) \<and>
      tracked_session_count s \<le> rl_tracked_sessions (rg_limits s) \<and>
      (forE (verify_binding s) (entries_in_order (rg_bindings s)) = Inr () \<and>
       forE (verify_session s) (entries_in_order (rg_connections_by_session s)) = Inr ())"
    unfolding registry_verify_def cp
    by (simp add: route_violation_def router_verify_iff not_less del: forE_Inr_iff)
  also have "\<dots> \<longleftrightarrow> registry_ok s"
    unfolding bind using conns_capacity [of s] tracked_session_count_eq [of s]
    by (auto simp: registry_ok_def capacity_ok_def)
  finally show ?thesis .
qed

subsection \<open>Errors and the end of a mutation\<close>

definition route_internal :: "SessionRouteError \<Rightarrow> bool" where
  "route_internal e = (case e of
     RouteInvariantViolation _ \<Rightarrow> True | PresenceFailed p \<Rightarrow> presence_internal p | _ \<Rightarrow> False)"

lemma route_internal_simps [simp]:
  "\<not> route_internal (NamespaceMismatch n k)"
  "\<not> route_internal (NamespaceNotAdvanced n k)"
  "\<not> route_internal (ZeroRolloverDigest f)"
  "\<not> route_internal RolloverRequiresQuiescence"
  "\<not> route_internal RolloverProofMismatch"
  "\<not> route_internal RolloverVerificationFailed"
  "\<not> route_internal (RouteResourceExhausted f l)"
  "\<not> route_internal (SessionBindingMissing c)"
  "\<not> route_internal (SessionRevoked sid g h)"
  "\<not> route_internal (StaleSessionGeneration c g h)"
  "\<not> route_internal (SessionGenerationAhead c g h)"
  "\<not> route_internal (SessionBindingConflict c sid sid')"
  "\<not> route_internal RouteRevisionExhausted"
  "route_internal (RouteInvariantViolation m)"
  "route_internal (PresenceFailed p) = presence_internal p"
  by (simp_all add: route_internal_def)

definition limits_ok :: "SessionRouteLimits \<Rightarrow> bool" where
  "limits_ok l \<longleftrightarrow> rl_active_connections l < 2 ^ 63 \<and> rl_tracked_connections l < 2 ^ 63 \<and>
     rl_tracked_sessions l < 2 ^ 63 \<and> rl_presence_entries l < 2 ^ 63 \<and>
     0 < rl_connections_per_session l"

lemma limits_new_ok: "SessionRouteLimits_new a b c d e f = Inr l \<Longrightarrow> limits_ok l"
  by (auto simp: SessionRouteLimits_new_def route_validate_limit_def limits_ok_def
      MAX_ACTIVE_CONNECTIONS_def MAX_TRACKED_CONNECTIONS_def MAX_TRACKED_SESSIONS_def
      MAX_PRESENCE_ENTRIES_def split: if_splits)

lemma registry_next_revision_iff [simp]:
  "registry_next_revision s = Inr n \<longleftrightarrow> checked_add (rg_revision s) 1 = Some n"
  "registry_next_revision s = Inl e \<longleftrightarrow>
     checked_add (rg_revision s) 1 = None \<and> e = RouteRevisionExhausted"
  by (auto simp: registry_next_revision_def)

lemma registry_verify_ok: "registry_ok s \<Longrightarrow> registry_verify s = Inr ()"
  by (simp add: registry_verify_iff)

text \<open>
  A changed candidate may carry a later revision: the checkpoint, the only part of the
  invariant that mentions the revision, stays bound.
\<close>

lemma registry_ok_revision:
  assumes "registry_ok s" and "checked_add (rg_revision s) 1 = Some n"
    and "registry_ok (t\<lparr>rg_revision := rg_revision s\<rparr>)"
  shows "registry_ok (t\<lparr>rg_revision := n\<rparr>)"
proof -
  have "rg_revision s < n" using assms(2) by (rule checked_add_one_mono)
  then have "checkpoint_ok (t\<lparr>rg_revision := n\<rparr>)"
    using registry_okD(2) [OF assms(3)] by (fastforce simp: checkpoint_ok_def checkpoint_binds_def)
  moreover have "index_ok (t\<lparr>rg_revision := n\<rparr>)" "bindings_ok (t\<lparr>rg_revision := n\<rparr>)"
      "capacity_ok (t\<lparr>rg_revision := n\<rparr>)" "router_ok (rg_router t)"
    using registry_okD [OF assms(3)] by (simp_all add: index_ok_def bindings_ok_def capacity_ok_def)
  ultimately show ?thesis by (simp add: registry_ok_def)
qed

lemma finish_mutation_cases [case_names exhausted unchanged changed]:
  assumes ok: "registry_ok s" and t: "registry_ok t" "rg_revision t = rg_revision s"
    and op: "finish_mutation s t applied presence = res"
  obtains (exhausted) "res = Inl RouteRevisionExhausted"
  | (unchanged) d where "res = Inr (s, d)" "\<not> applied" "md_presence d = presence"
      "md_registry_revision d = None"
  | (changed) n d where "res = Inr (t\<lparr>rg_revision := n\<rparr>, d)" "applied"
      "checked_add (rg_revision s) 1 = Some n" "registry_ok (t\<lparr>rg_revision := n\<rparr>)"
      "md_presence d = presence" "md_registry_revision d = Some n"
proof (cases applied)
  case False
  with op show thesis by (intro unchanged) (auto simp: finish_mutation_def)
next
  case True
  show thesis
  proof (cases "checked_add (rg_revision s) 1")
    case None
    with op True show thesis
      by (intro exhausted) (auto simp: finish_mutation_def registry_next_revision_def)
  next
    case (Some n)
    then have next_rev: "registry_next_revision s = Inr n" by simp
    have "registry_ok (t\<lparr>rg_revision := n\<rparr>)"
      using ok Some by (rule registry_ok_revision) (simp add: t flip: t(2))
    with op True Some show thesis
      by (intro changed) (auto simp: finish_mutation_def next_rev registry_verify_ok)
  qed
qed

subsection \<open>Operations that only take away\<close>

definition shrinks :: "SessionRouteRegistry \<Rightarrow> SessionRouteRegistry \<Rightarrow> bool" where
  "shrinks s t \<longleftrightarrow>
     rg_limits t = rg_limits s \<and> rg_namespace t = rg_namespace s \<and> rg_revision t = rg_revision s \<and>
     rg_checkpoint t = rg_checkpoint s \<and> rg_revoked_through t = rg_revoked_through s \<and>
     pr_connections (rg_router t) = pr_connections (rg_router s) \<and> router_ok (rg_router t) \<and>
     router_entry_count (rg_router t) \<le> router_entry_count (rg_router s) \<and> index_ok t \<and>
     (\<forall>c b. fmlookup (rg_bindings t) c = Some b \<longrightarrow> fmlookup (rg_bindings s) c = Some b)"

lemma shrinks_refl: "registry_ok s \<Longrightarrow> shrinks s s"
  by (simp add: shrinks_def registry_ok_def)

lemma shrinks_trans: "shrinks s t \<Longrightarrow> shrinks t u \<Longrightarrow> shrinks s u"
  by (auto simp: shrinks_def)

lemma sub_conns: "(\<forall>c b. fmlookup bt c = Some b \<longrightarrow> fmlookup bs c = Some b) \<Longrightarrow>
    conns_of bt sid \<subseteq> conns_of bs sid"
  by (auto simp: conns_of_def)

lemma sub_live: "(\<forall>c b. fmlookup bt c = Some b \<longrightarrow> fmlookup bs c = Some b) \<Longrightarrow>
    live_sessions bt \<subseteq> live_sessions bs"
  by (simp add: live_sessions_def conns_of_def) blast

lemma sub_len:
  assumes "\<forall>c b. fmlookup bt c = Some b \<longrightarrow> fmlookup bs c = Some b"
  shows "fmap_len bt \<le> fmap_len bs"
  unfolding fmap_len_def by (rule fcard_mono) (use assms in \<open>auto simp: fmlookup_dom_iff\<close>)

lemma shrinks_ok:
  assumes ok: "registry_ok s" and sub: "shrinks s t"
  shows "registry_ok t"
proof -
  note S = sub [unfolded shrinks_def]
  have bs: "\<forall>c b. fmlookup (rg_bindings t) c = Some b \<longrightarrow> fmlookup (rg_bindings s) c = Some b"
    using S by blast
  have "capacity_ok t"
  proof -
    have cap: "capacity_ok s" using ok by (rule registry_okD)
    have "card (fset (fmdom (rg_revoked_through t)) \<union> live_sessions (rg_bindings t)) \<le>
        card (fset (fmdom (rg_revoked_through s)) \<union> live_sessions (rg_bindings s))"
      by (rule card_mono) (use S sub_live [OF bs] in auto)
    moreover have "card (conns_of (rg_bindings t) sid) \<le> card (conns_of (rg_bindings s) sid)" for sid
      using sub_conns [OF bs] by (rule card_mono [rotated]) simp
    moreover have "fmap_len (rg_bindings t) \<le> fmap_len (rg_bindings s)" using bs by (rule sub_len)
    ultimately show ?thesis
      using cap S by (fastforce simp: capacity_ok_def router_connection_count_def intro: order_trans)
  qed
  moreover have "bindings_ok t"
    using registry_okD(4) [OF ok] S unfolding bindings_ok_def by metis
  moreover have "checkpoint_ok t"
    using registry_okD(2) [OF ok] S by (simp add: checkpoint_ok_def checkpoint_binds_def)
  ultimately show ?thesis using S by (simp add: registry_ok_def)
qed

lemma remove_binding_shrinks:
  assumes ok: "registry_ok s" and r: "router_ok r'" "pr_connections r' = pr_connections (rg_router s)"
    "router_entry_count r' \<le> router_entry_count (rg_router s)"
  shows "shrinks s (fst (remove_binding c (s\<lparr>rg_router := r'\<rparr>)))"
    "shrinks s (s\<lparr>rg_router := r'\<rparr>)"
proof -
  have idx: "index_ok (s\<lparr>rg_router := r'\<rparr>)"
    using registry_okD(3) [OF ok] by (simp add: index_ok_def)
  then show "shrinks s (s\<lparr>rg_router := r'\<rparr>)" using r by (simp add: shrinks_def)
  note R = remove_binding_index [OF idx, of c]
  show "shrinks s (fst (remove_binding c (s\<lparr>rg_router := r'\<rparr>)))"
    using R(1,2) r by (simp add: shrinks_def)
qed

text \<open>What moves forward in a namespace: revocations and connection generations.\<close>

definition registry_below :: "SessionRouteRegistry \<Rightarrow> SessionRouteRegistry \<Rightarrow> bool" where
  "registry_below s t \<longleftrightarrow>
     rg_namespace s \<le> rg_namespace t \<and> rg_revision s \<le> rg_revision t \<and>
     (rg_namespace s = rg_namespace t \<longrightarrow>
       (\<forall>sid g. fmlookup (rg_revoked_through s) sid = Some g \<longrightarrow>
          (\<exists>h. fmlookup (rg_revoked_through t) sid = Some h \<and> g \<le> h)) \<and>
       (\<forall>c g. established_generation (rg_router s) c = Some g \<longrightarrow>
          (\<exists>h. established_generation (rg_router t) c = Some h \<and> g \<le> h)))"

lemma registry_below_refl [simp]: "registry_below s s"
  by (auto simp: registry_below_def)

lemma registry_below_trans:
  assumes "registry_below s t" "registry_below t u"
  shows "registry_below s u"
proof -
  have "rg_namespace s = rg_namespace t \<and> rg_namespace t = rg_namespace u"
    if "rg_namespace s = rg_namespace u"
    using assms that by (auto simp: registry_below_def)
  then show ?thesis
    using assms unfolding registry_below_def by (meson order_trans)
qed

lemma shrinks_below:
  assumes "shrinks s t" "checked_add (rg_revision s) 1 = Some n"
  shows "registry_below s (t\<lparr>rg_revision := n\<rparr>)"
  using assms checked_add_one_mono [OF assms(2)]
  by (auto simp: shrinks_def registry_below_def established_generation_def)

lemma router_update_frame:
  assumes ok: "router_ok r" and op: "router_update q r = (r', Inr d)"
  shows "pr_connections r' = pr_connections r \<and> router_ok r' \<and>
    router_entry_count r' \<le> router_entry_count r \<and> (pd_disposition d = MutIdempotent \<longrightarrow> r' = r)"
proof -
  have "router_ok r'" using router_exec_ok [of r "RouterUpdate q"] ok op by simp
  with ok op show ?thesis
    by (cases rule: router_update_cases)
      (auto simp: router_entry_count_def fmap_len_upd_old)
qed

lemma router_leave_frame:
  assumes ok: "router_ok r" and op: "router_leave q r = (r', Inr d)"
  shows "pr_connections r' = pr_connections r \<and> router_ok r' \<and>
    router_entry_count r' \<le> router_entry_count r \<and> (pd_disposition d = MutIdempotent \<longrightarrow> r' = r)"
proof -
  have "router_ok r'" using router_exec_ok [of r "RouterLeave q"] ok op by simp
  with ok op show ?thesis
    by (cases rule: router_leave_cases)
      (auto simp: router_entry_count_def intro!: sub_len split: if_splits)
qed

lemma router_remove_frame:
  assumes ok: "router_ok r" and op: "router_remove_connection q r = (r', Inr d)"
  shows "pr_connections r' = pr_connections r \<and> router_ok r' \<and>
    router_entry_count r' \<le> router_entry_count r \<and> (pd_disposition d = MutIdempotent \<longrightarrow> r' = r)"
proof -
  have "router_ok r'" using router_exec_ok [of r "RouterRemove q"] ok op by simp
  with ok op show ?thesis
    by (cases rule: router_remove_cases)
      (auto simp: router_entry_count_def intro!: sub_len split: if_splits)
qed

lemma require_exact_binding_error:
  "require_exact_binding s c cg sid sg = Inl e \<Longrightarrow> \<not> route_internal e"
  by (auto simp: require_exact_binding_def tryE_Inl_iff split: if_splits)

lemma require_namespace_iff [simp]:
  "require_namespace s n = Inr u \<longleftrightarrow> n = rg_namespace s"
  "require_namespace s n = Inl e \<longleftrightarrow> n \<noteq> rg_namespace s \<and> e = NamespaceMismatch (rg_namespace s) n"
  by (auto simp: require_namespace_def)

lemma require_namespace_same [simp]: "require_namespace s (rg_namespace s) = Inr ()"
  by simp

lemma fenced_cases [case_names rejected committed]:
  assumes ok: "registry_ok s"
    and frame: "\<And>r' d. mutation (rg_router s) = (r', Inr d) \<Longrightarrow>
      pr_connections r' = pr_connections (rg_router s) \<and> router_ok r' \<and>
      router_entry_count r' \<le> router_entry_count (rg_router s)"
    and error: "\<And>r' e. mutation (rg_router s) = (r', Inl e) \<Longrightarrow> \<not> presence_internal e"
    and op: "mutate_fenced_presence c cg sid sg unbind mutation s = res"
  obtains (rejected) e where "res = Inl e" "\<not> route_internal e"
  | (committed) t d where "res = Inr (t, d)" "registry_ok t" "registry_below s t"
      "rg_limits t = rg_limits s"
proof (cases "require_exact_binding s c cg sid sg")
  case (Inl e)
  with ok op show thesis
    by (intro rejected [of e])
      (auto simp: mutate_fenced_presence_def registry_verify_ok require_exact_binding_error)
next
  case exact: (Inr u)
  obtain r' mres where m: "mutation (rg_router s) = (r', mres)" by (cases "mutation (rg_router s)")
  show thesis
  proof (cases mres)
    case (Inl e)
    with ok op exact m error show thesis
      by (intro rejected [of "PresenceFailed e"])
        (auto simp: mutate_fenced_presence_def registry_verify_ok)
  next
    case (Inr d)
    note F = frame [OF m [unfolded Inr]]
    define t where "t = (if unbind then fst (remove_binding c (s\<lparr>rg_router := r'\<rparr>)) else s\<lparr>rg_router := r'\<rparr>)"
    have sub: "shrinks s t"
      using F remove_binding_shrinks [OF ok, of r'] by (simp add: t_def)
    have fin: "finish_mutation s t
        ((if unbind then snd (remove_binding c (s\<lparr>rg_router := r'\<rparr>)) else None) \<noteq> None \<or>
          pd_disposition d = MutApplied) d = res"
      using op ok exact m Inr
      by (simp add: mutate_fenced_presence_def registry_verify_ok t_def case_prod_unfold Let_def split: if_splits)
    have rev: "rg_revision t = rg_revision s" using sub by (simp add: shrinks_def)
    from ok shrinks_ok [OF ok sub] rev fin show thesis
    proof (cases rule: finish_mutation_cases)
      case exhausted
      then show thesis by (intro rejected [of RouteRevisionExhausted]) simp_all
    next
      case (unchanged d')
      with ok show thesis by (intro committed [of s d']) simp_all
    next
      case (changed n d')
      have "rg_limits (t\<lparr>rg_revision := n\<rparr>) = rg_limits s" using sub by (simp add: shrinks_def)
      with changed shrinks_below [OF sub changed(3)] show thesis by (intro committed)
    qed
  qed
qed

lemma fenced_op:
  assumes "registry_ok s"
    and "\<And>r' d. mutation (rg_router s) = (r', Inr d) \<Longrightarrow>
      pr_connections r' = pr_connections (rg_router s) \<and> router_ok r' \<and>
      router_entry_count r' \<le> router_entry_count (rg_router s)"
    and "\<And>r' e. mutation (rg_router s) = (r', Inl e) \<Longrightarrow> \<not> presence_internal e"
    and op: "commit_candidate s (tryE (require_namespace s ns)
      (\<lambda>_. mutate_fenced_presence c cg sid sg unbind mutation s)) = (s', res)"
  shows "registry_ok s' \<and> registry_below s s' \<and> rg_limits s' = rg_limits s \<and>
    (\<forall>e. res = Inl e \<longrightarrow> s' = s \<and> \<not> route_internal e)"
proof (cases "ns = rg_namespace s")
  case True
  then have ns: "require_namespace s ns = Inr ()" by simp
  show ?thesis
  proof (rule fenced_cases [where s = s and mutation = mutation and c = c and cg = cg and sid = sid
        and sg = sg and unbind = unbind, OF assms(1,2,3) refl])
    fix e assume "mutate_fenced_presence c cg sid sg unbind mutation s = Inl e" "\<not> route_internal e"
    with op ns assms(1) show ?thesis by auto
  next
    fix t d
    assume "mutate_fenced_presence c cg sid sg unbind mutation s = Inr (t, d)"
      "registry_ok t" "registry_below s t" "rg_limits t = rg_limits s"
    with op ns show ?thesis by auto
  qed
next
  case False
  with assms(1) op have "s' = s" "res = Inl (NamespaceMismatch (rg_namespace s) ns)"
    by (auto simp: require_namespace_def)
  with assms(1) show ?thesis by simp
qed

lemma router_error_internal:
  "router_ok r \<Longrightarrow> router_exec x r = (r', Inl e) \<Longrightarrow> \<not> presence_internal e"
  using router_exec_effect [of r x r' "Inl e"] by simp

lemma registry_update_op:
  assumes ok: "registry_ok s" and op: "registry_update q s = (s', res)"
  shows "registry_ok s' \<and> registry_below s s' \<and> rg_limits s' = rg_limits s \<and>
    (\<forall>e. res = Inl e \<longrightarrow> s' = s \<and> \<not> route_internal e)"
  by (rule fenced_op [OF ok _ _ op [unfolded registry_update_def]])
    (use router_update_frame [OF registry_okD(1) [OF ok]]
      router_error_internal [OF registry_okD(1) [OF ok], of "RouterUpdate (su_presence q)"] in auto)

lemma registry_leave_op:
  assumes ok: "registry_ok s" and op: "registry_leave q s = (s', res)"
  shows "registry_ok s' \<and> registry_below s s' \<and> rg_limits s' = rg_limits s \<and>
    (\<forall>e. res = Inl e \<longrightarrow> s' = s \<and> \<not> route_internal e)"
  by (rule fenced_op [OF ok _ _ op [unfolded registry_leave_def]])
    (use router_leave_frame [OF registry_okD(1) [OF ok]]
      router_error_internal [OF registry_okD(1) [OF ok], of "RouterLeave (sl_presence q)"] in auto)

lemma registry_remove_op:
  assumes ok: "registry_ok s" and op: "registry_remove_connection q s = (s', res)"
  shows "registry_ok s' \<and> registry_below s s' \<and> rg_limits s' = rg_limits s \<and>
    (\<forall>e. res = Inl e \<longrightarrow> s' = s \<and> \<not> route_internal e)"
  by (rule fenced_op [OF ok _ _ op [unfolded registry_remove_connection_def]])
    (use router_remove_frame [OF registry_okD(1) [OF ok]]
      router_error_internal [OF registry_okD(1) [OF ok], of "RouterRemove (sx_presence q)"] in auto)

subsection \<open>Revocation\<close>

lemma revoke_connection_cases:
  assumes ok: "registry_ok s" and bound: "fmlookup (rg_bindings s) c = Some b"
    and op: "revoke_connection through c (s, n, ls, h) = res"
  shows "(\<exists>e. res = Inl e \<and> \<not> route_internal e) \<or>
    (\<exists>t n' ls' h'. res = Inr (t, n', ls', h') \<and> shrinks s t \<and>
       (\<forall>c'. fmlookup (rg_bindings t) c' =
          (if c' = c \<and> bd_session_generation b \<le> through then None else fmlookup (rg_bindings s) c')))"
proof (cases "bd_session_generation b > through")
  case True
  with op bound shrinks_refl [OF ok] show ?thesis by auto
next
  case False
  let ?q = "\<lparr>rc_connection = c, rc_generation = bd_connection_generation b\<rparr>"
  obtain r' rres where r: "router_remove_connection ?q (rg_router s) = (r', rres)"
    by (cases "router_remove_connection ?q (rg_router s)")
  show ?thesis
  proof (cases rres)
    case (Inl e)
    with r router_error_internal [OF registry_okD(1) [OF ok], of "RouterRemove ?q"]
    have "\<not> presence_internal e" by simp
    with op bound False r Inl show ?thesis by auto
  next
    case (Inr d)
    note F = router_remove_frame [OF registry_okD(1) [OF ok] r [unfolded Inr]]
    have idx: "index_ok (s\<lparr>rg_router := r'\<rparr>)"
      using registry_okD(3) [OF ok] by (simp add: index_ok_def)
    have "shrinks s (fst (remove_binding c (s\<lparr>rg_router := r'\<rparr>)))"
      using F by (intro remove_binding_shrinks [OF ok]) auto
    with op bound False r Inr remove_binding_index(2) [OF idx, of c] show ?thesis by auto
  qed
qed

lemma revoke_connections_loop:
  assumes "registry_ok s" and "distinct cs"
    and "\<And>c. c \<in> set cs \<Longrightarrow> fmlookup (rg_bindings s) c \<noteq> None"
  shows "(\<exists>e. foldE (revoke_connection through) cs (s, n, ls, h) = Inl e \<and> \<not> route_internal e) \<or>
    (\<exists>t n' ls' h'. foldE (revoke_connection through) cs (s, n, ls, h) = Inr (t, n', ls', h') \<and>
       shrinks s t \<and>
       (\<forall>c b. fmlookup (rg_bindings t) c = Some b \<longrightarrow> fmlookup (rg_bindings s) c = Some b \<and>
          \<not> (c \<in> set cs \<and> bd_session_generation b \<le> through)))"
  using assms
proof (induction cs arbitrary: s n ls h)
  case Nil
  then show ?case using shrinks_refl by auto
next
  case (Cons c cs)
  obtain b where b: "fmlookup (rg_bindings s) c = Some b" using Cons.prems(3) [of c] by auto
  from revoke_connection_cases [OF Cons.prems(1) b refl]
  consider (err) e where "revoke_connection through c (s, n, ls, h) = Inl e" "\<not> route_internal e"
    | (go) t n' ls' h' where "revoke_connection through c (s, n, ls, h) = Inr (t, n', ls', h')"
        "shrinks s t"
        "\<And>c'. fmlookup (rg_bindings t) c' =
          (if c' = c \<and> bd_session_generation b \<le> through then None else fmlookup (rg_bindings s) c')"
    by metis
  then show ?case
  proof cases
    case err
    then show ?thesis by (simp del: revoke_connection.simps)
  next
    case go
    have "registry_ok t" using Cons.prems(1) go(2) by (rule shrinks_ok)
    moreover have "\<And>c'. c' \<in> set cs \<Longrightarrow> fmlookup (rg_bindings t) c' \<noteq> None"
      using Cons.prems(2,3) by (auto simp: go(3))
    ultimately have IH: "(\<exists>e. foldE (revoke_connection through) cs (t, n', ls', h') = Inl e \<and> \<not> route_internal e) \<or>
      (\<exists>u n'' ls'' h''. foldE (revoke_connection through) cs (t, n', ls', h') = Inr (u, n'', ls'', h'') \<and>
         shrinks t u \<and>
         (\<forall>c b. fmlookup (rg_bindings u) c = Some b \<longrightarrow> fmlookup (rg_bindings t) c = Some b \<and>
            \<not> (c \<in> set cs \<and> bd_session_generation b \<le> through)))"
      using Cons.prems(2) by (intro Cons.IH) simp_all
    then show ?thesis
    proof (elim disjE exE conjE)
      fix u n'' ls'' h''
      assume u: "foldE (revoke_connection through) cs (t, n', ls', h') = Inr (u, n'', ls'', h'')"
        "shrinks t u" "\<forall>c b. fmlookup (rg_bindings u) c = Some b \<longrightarrow>
            fmlookup (rg_bindings t) c = Some b \<and>
            \<not> (c \<in> set cs \<and> bd_session_generation b \<le> through)"
      have "\<forall>c' b'. fmlookup (rg_bindings u) c' = Some b' \<longrightarrow> fmlookup (rg_bindings s) c' = Some b' \<and>
          \<not> (c' \<in> set (c # cs) \<and> bd_session_generation b' \<le> through)"
      proof (intro allI impI)
        fix c' b' assume "fmlookup (rg_bindings u) c' = Some b'"
        with u(3) have "fmlookup (rg_bindings t) c' = Some b'"
          "\<not> (c' \<in> set cs \<and> bd_session_generation b' \<le> through)" by blast+
        with go(3) [of c'] b show "fmlookup (rg_bindings s) c' = Some b' \<and>
            \<not> (c' \<in> set (c # cs) \<and> bd_session_generation b' \<le> through)"
          by (auto split: if_splits)
      qed
      moreover have "shrinks s u" using go(2) u(2) by (rule shrinks_trans)
      ultimately show ?thesis using u(1) go(1) by (auto simp del: revoke_connection.simps)
    next
      fix e assume "foldE (revoke_connection through) cs (t, n', ls', h') = Inl e" "\<not> route_internal e"
      with go(1) show ?thesis by (simp del: revoke_connection.simps)
    qed
  qed
qed

lemma finite_dom_live [simp]: "finite (fset (fmdom m) \<union> live_sessions bs)"
  by simp

lemma revoked_ok:
  assumes ok: "registry_ok s" and sub: "shrinks s t"
    and fence: "\<And>c b. fmlookup (rg_bindings t) c = Some b \<Longrightarrow> bd_session_id b = sid \<Longrightarrow>
      through < bd_session_generation b"
    and tracked: "require_tracked_session_capacity s sid = Inr ()"
    and high: "sid |\<notin>| fmdom (rg_revoked_through s) \<Longrightarrow>
      fmap_len (rg_revoked_through s) < rl_revocation_high_waters (rg_limits s)"
  shows "registry_ok (t\<lparr>rg_revoked_through := fmupd sid through (rg_revoked_through t)\<rparr>)"
    (is "registry_ok ?u")
proof -
  have t: "registry_ok t" using ok sub by (rule shrinks_ok)
  have same: "rg_revoked_through t = rg_revoked_through s" "rg_limits t = rg_limits s"
    using sub by (simp_all add: shrinks_def)
  have "bindings_ok ?u"
    using registry_okD(4) [OF t] fence by (auto simp: bindings_ok_def)
  moreover have "index_ok ?u" "checkpoint_ok ?u"
    using registry_okD(2,3) [OF t] by (simp_all add: index_ok_def checkpoint_ok_def checkpoint_binds_def)
  moreover have "capacity_ok ?u"
  proof -
    have cap: "capacity_ok t" "capacity_ok s" using t ok by (simp_all add: registry_okD)
    have "fmap_len (rg_revoked_through ?u) \<le> rl_revocation_high_waters (rg_limits s)"
    proof (cases "fmlookup (rg_revoked_through s) sid")
      case None
      then show ?thesis using high by (simp add: same fmap_len_upd_new fmdom_notI Suc_leI)
    next
      case (Some g)
      then show ?thesis using cap(2) by (simp add: same fmap_len_upd_old capacity_ok_def)
    qed
    moreover have "card (fset (fmdom (rg_revoked_through ?u)) \<union> live_sessions (rg_bindings ?u)) \<le>
        rl_tracked_sessions (rg_limits s)"
    proof -
      let ?S = "fset (fmdom (rg_revoked_through s)) \<union> live_sessions (rg_bindings s)"
      have "fset (fmdom (rg_revoked_through ?u)) \<union> live_sessions (rg_bindings ?u) \<subseteq> insert sid ?S"
        using sub_live [of "rg_bindings t" "rg_bindings s"] sub by (auto simp: same shrinks_def)
      then have "card (fset (fmdom (rg_revoked_through ?u)) \<union> live_sessions (rg_bindings ?u)) \<le>
          card (insert sid ?S)"
        by (rule card_mono [rotated]) simp
      also have "\<dots> \<le> rl_tracked_sessions (rg_limits s)"
      proof (cases "sid \<in> ?S")
        case True
        then have "insert sid ?S = ?S" by blast
        with cap(2) show ?thesis by (simp add: capacity_ok_def)
      next
        case False
        then have "card (insert sid ?S) = Suc (card ?S)" by (intro card_insert_disjoint) simp_all
        with tracked False show ?thesis
          by (simp add: require_tracked_session_capacity_def session_tracked_iff [OF registry_okD(3) [OF ok]]
              tracked_session_count_eq [OF registry_okD(3) [OF ok]] split: if_splits)
      qed
      finally show ?thesis .
    qed
    ultimately show ?thesis using cap(1) by (simp add: capacity_ok_def same)
  qed
  ultimately show ?thesis using registry_okD(1) [OF t] by (simp add: registry_ok_def)
qed

lemma revoke_apply_cases [case_names rejected committed]:
  assumes ok: "registry_ok s" and op: "revoke_apply sid through s = res"
    and tracked: "require_tracked_session_capacity s sid = Inr ()"
    and high: "sid |\<notin>| fmdom (rg_revoked_through s) \<Longrightarrow>
      fmap_len (rg_revoked_through s) < rl_revocation_high_waters (rg_limits s)"
    and below: "\<And>g. fmlookup (rg_revoked_through s) sid = Some g \<Longrightarrow> g < through"
  obtains (rejected) e where "res = Inl e" "\<not> route_internal e"
  | (committed) t d where "res = Inr (t, d)" "registry_ok t" "registry_below s t"
      "rg_limits t = rg_limits s" "rg_namespace t = rg_namespace s"
      "fmlookup (rg_revoked_through t) sid = Some through"
proof -
  define cs where "cs = (case fmlookup (rg_connections_by_session s) sid of None \<Rightarrow> {||} | Some cs \<Rightarrow> cs)"
  have cs: "fset cs = conns_of (rg_bindings s) sid"
    using registry_okD(3) [OF ok] by (auto simp: index_ok_def cs_def split: option.splits)
  have "c \<in> set (sorted_list_of_fset cs) \<Longrightarrow> fmlookup (rg_bindings s) c \<noteq> None" for c
    using cs by (auto simp: conns_of_def)
  then have "(\<exists>e. foldE (revoke_connection through) (sorted_list_of_fset cs) (s, 0, [], 0) = Inl e \<and> \<not> route_internal e) \<or>
    (\<exists>t n' ls' h'. foldE (revoke_connection through) (sorted_list_of_fset cs) (s, 0, [], 0) = Inr (t, n', ls', h') \<and>
       shrinks s t \<and>
       (\<forall>c b. fmlookup (rg_bindings t) c = Some b \<longrightarrow> fmlookup (rg_bindings s) c = Some b \<and>
          \<not> (c \<in> set (sorted_list_of_fset cs) \<and> bd_session_generation b \<le> through)))"
    using ok by (intro revoke_connections_loop) (simp_all add: sorted_list_of_fset.rep_eq)
  then consider (err) e where
      "foldE (revoke_connection through) (sorted_list_of_fset cs) (s, 0, [], 0) = Inl e" "\<not> route_internal e"
    | (go) t n' ls' h' where
      "foldE (revoke_connection through) (sorted_list_of_fset cs) (s, 0, [], 0) = Inr (t, n', ls', h')"
      "shrinks s t"
      "\<And>c b. fmlookup (rg_bindings t) c = Some b \<Longrightarrow> fmlookup (rg_bindings s) c = Some b \<and>
          \<not> (c |\<in>| cs \<and> bd_session_generation b \<le> through)"
    by auto
  then show thesis
  proof cases
    case err
    with op show thesis by (intro rejected [of e]) (auto simp: revoke_apply_def cs_def)
  next
    case go
    define u where "u = t\<lparr>rg_revoked_through := fmupd sid through (rg_revoked_through t)\<rparr>"
    have "through < bd_session_generation b"
      if "fmlookup (rg_bindings t) c = Some b" "bd_session_id b = sid" for c b
    proof -
      have "c |\<in>| cs" using go(3) [OF that(1)] that(2) cs by (auto simp: conns_of_def)
      with go(3) [OF that(1)] show ?thesis by auto
    qed
    then have u: "registry_ok u"
      unfolding u_def using ok go(2) tracked high by (intro revoked_ok) auto
    have same: "rg_revision t = rg_revision s" "rg_limits t = rg_limits s"
        "rg_namespace t = rg_namespace s" "rg_revoked_through t = rg_revoked_through s"
        "pr_connections (rg_router t) = pr_connections (rg_router s)"
      using go(2) by (simp_all add: shrinks_def)
    show thesis
    proof (cases "checked_add (rg_revision s) 1")
      case None
      with op go(1) show thesis
        by (intro rejected [of RouteRevisionExhausted])
          (auto simp: revoke_apply_def cs_def [symmetric] registry_next_revision_def)
    next
      case (Some n)
      then have next_rev: "registry_next_revision s = Inr n" by simp
      have un: "registry_ok (u\<lparr>rg_revision := n\<rparr>)"
        using ok Some by (rule registry_ok_revision) (use u in \<open>simp add: u_def flip: same(1)\<close>)
      have upd: "t\<lparr>rg_revoked_through := fmupd sid through (rg_revoked_through t), rg_revision := n\<rparr> =
          u\<lparr>rg_revision := n\<rparr>" by (simp add: u_def)
      obtain d where "res = Inr (u\<lparr>rg_revision := n\<rparr>, d)"
        using op go(1) un by (auto simp: revoke_apply_def cs_def [symmetric] next_rev Let_def upd registry_verify_ok)
      moreover have "registry_below s (u\<lparr>rg_revision := n\<rparr>)"
        using checked_add_one_mono [OF Some] below same
        by (auto simp: registry_below_def u_def established_generation_def less_imp_le)
      ultimately show thesis
          using un same by (intro committed [of "u\<lparr>rg_revision := n\<rparr>" d]) (simp_all add: u_def)
    qed
  qed
qed

lemma revoke_session_op:
  assumes ok: "registry_ok s" and op: "revoke_session q s = (s', res)"
  shows "registry_ok s' \<and> registry_below s s' \<and> rg_limits s' = rg_limits s \<and>
    (\<forall>e. res = Inl e \<longrightarrow> s' = s \<and> \<not> route_internal e) \<and>
    (\<forall>d. res = Inr d \<longrightarrow> rg_namespace s' = sv_namespace q \<and> rg_namespace s' = rg_namespace s \<and>
       (\<exists>h. fmlookup (rg_revoked_through s') (sv_session_id q) = Some h \<and> sv_through_generation q \<le> h))"
proof (cases "sv_namespace q = rg_namespace s")
  case False
  with op ok have "s' = s" "res = Inl (NamespaceMismatch (rg_namespace s) (sv_namespace q))"
    by (auto simp: revoke_session_def Let_def require_namespace_def registry_verify_ok)
  with ok show ?thesis by simp
next
  case ns: True
  then have ns': "require_namespace s (sv_namespace q) = Inr ()"
      "require_namespace s (rg_namespace s) = Inr ()" by simp_all
  let ?sid = "sv_session_id q" and ?g = "sv_through_generation q"
  show ?thesis
  proof (cases "already_revoked s ?sid ?g")
    case (Some current)
    then have "fmlookup (rg_revoked_through s) ?sid = Some current" "?g \<le> current"
      by (auto simp: already_revoked_def split: option.splits if_splits)
    with op ok ns' ns Some show ?thesis
      by (auto simp: revoke_session_def Let_def registry_verify_ok)
  next
    case None
    then have below: "fmlookup (rg_revoked_through s) ?sid = Some g \<Longrightarrow> g < ?g" for g
      by (auto simp: already_revoked_def split: option.splits if_splits)
    show ?thesis
    proof (cases "require_tracked_session_capacity s ?sid = Inr () \<and>
        (?sid |\<notin>| fmdom (rg_revoked_through s) \<longrightarrow>
         fmap_len (rg_revoked_through s) < rl_revocation_high_waters (rg_limits s))")
      case False
      with op ok ns' None have "s' = s \<and> (\<exists>e. res = Inl e \<and> \<not> route_internal e)"
        by (auto simp: revoke_session_def Let_def registry_verify_ok
            require_tracked_session_capacity_def split: if_splits)
      with ok show ?thesis by auto
    next
      case True
      then have eq: "revoke_session q s = commit_candidate s (revoke_apply ?sid ?g s)"
        using ok ns' None by (auto simp: revoke_session_def Let_def registry_verify_ok)
      have high: "?sid |\<notin>| fmdom (rg_revoked_through s) \<Longrightarrow>
          fmap_len (rg_revoked_through s) < rl_revocation_high_waters (rg_limits s)"
        using True by blast
      show ?thesis
      proof (rule revoke_apply_cases [OF ok refl conjunct1 [OF True] high below])
        fix e assume "revoke_apply ?sid ?g s = Inl e" "\<not> route_internal e"
        with op eq ok show ?thesis by auto
      next
        fix t d
        assume "revoke_apply ?sid ?g s = Inr (t, d)" "registry_ok t" "registry_below s t"
          "rg_limits t = rg_limits s" "rg_namespace t = rg_namespace s"
          "fmlookup (rg_revoked_through t) ?sid = Some ?g"
        with op eq ns show ?thesis by auto
      qed
    qed
  qed
qed

end
