(* ===== verification/Session_Routes_Properties.thy ===== *)
theory Session_Routes_Properties
  imports Session_Routes_Proofs
begin

text \<open>
  The remaining operations of the session registry, joins and the rollover of the namespace,
  and the properties of the whole: the self-checks never fire over any run, and a revoked
  session generation stays out of its namespace.
\<close>

subsection \<open>Joins\<close>

lemma usize_add_bool:
  "a < 2 ^ 63 \<Longrightarrow> usize_checked_add a (of_bool P) = Some (a + of_bool P)"
  by (simp add: usize_checked_add_def)

lemma fmap_len_keys: "fmap_len m = length (keys_in_order m)"
  by (simp add: fmap_len_def keys_in_order_def fcard.rep_eq sorted_list_of_fset.rep_eq)

lemma fmap_len_fmfilter: "fmap_len (fmfilter P m) = length (filter P (keys_in_order m))"
proof -
  have "distinct (filter P (keys_in_order m))"
    by (simp add: keys_in_order_def sorted_list_of_fset.rep_eq)
  then have "length (filter P (keys_in_order m)) = card (set (filter P (keys_in_order m)))"
    by (simp only: distinct_card)
  also have "set (filter P (keys_in_order m)) = fset (fmdom (fmfilter P m))" by auto
  finally show ?thesis by (simp add: fmap_len_def fcard.rep_eq)
qed

lemma retired_count:
  "length (keys_for_connection r c) + fmap_len (without_connection c (pr_entries r)) =
     router_entry_count r"
  using sum_length_filter_compl [of "\<lambda>k. pk_connection k = c" "keys_in_order (pr_entries r)"]
    fmap_len_fmfilter [of "\<lambda>k. pk_connection k \<noteq> c" "pr_entries r"]
  by (simp add: keys_for_connection_def without_connection_def
      router_entry_count_def fmap_len_keys [of "pr_entries r"])

lemma not_established_no_keys:
  assumes "router_ok r" and "established_generation r c = None"
  shows "keys_for_connection r c = []"
proof (rule ccontr)
  assume "keys_for_connection r c \<noteq> []"
  then obtain k rec where "pk_connection k = c" "fmlookup (pr_entries r) k = Some rec"
    using hd_in_set [of "keys_for_connection r c"] by (auto simp: set_keys_for_connection)
  from router_okD(3) [OF assms(1) this(2)] this assms(2) show False
    by (simp add: established_generation_def)
qed

lemma snapshot_all:
  "router_ok r \<Longrightarrow> \<exists>rs. router_snapshot r stream IncludeHidden = Inr rs \<and>
     (\<forall>rec \<in> set rs. fmlookup (pr_entries r) (key_of rec) = Some rec \<and> pc_stream rec = stream)"
  using router_verify_iff [of r "()"] router_okD(2) [of r]
  by (auto simp: router_snapshot_def)

text \<open>The presence capacity a join projects is at least what the router then holds.\<close>

lemma presence_capacity:
  fixes s :: SessionRouteRegistry and q :: JoinPresenceRequest
  defines "r \<equiv> rg_router s"
  defines "adv \<equiv> generation_advance r (jp_connection q) (jp_generation q)"
  assumes ok: "registry_ok s" and lim: "limits_ok (rg_limits s)"
  shows "require_presence_capacity s q adv = Inl e \<Longrightarrow> \<not> route_internal e"
    "require_presence_capacity s q adv = Inr u \<Longrightarrow>
      fmap_len (joined_entries r q) \<le> rl_presence_entries (rg_limits s)"
proof -
  have rok: "router_ok r" using ok by (simp add: r_def registry_ok_def)
  have small: "router_entry_count r < 2 ^ 63"
    using registry_okD(5) [OF ok] lim by (auto simp: capacity_ok_def limits_ok_def r_def)
  obtain rs where rs: "router_snapshot r (jp_stream q) IncludeHidden = Inr rs"
    "\<And>rec. rec \<in> set rs \<Longrightarrow> fmlookup (pr_entries r) (key_of rec) = Some rec \<and> pc_stream rec = jp_stream q"
    using snapshot_all [OF rok] by metis
  define joined where "joined = (\<not> adv \<and> list_ex (\<lambda>rec. pc_connection rec = jp_connection q \<and>
      pc_generation rec = jp_generation q) rs)"
  define retired where "retired = (if adv then length (keys_for_connection r (jp_connection q)) else 0)"
  have le: "retired \<le> router_entry_count r"
    using retired_count [of r "jp_connection q"] by (simp add: retired_def)
  have req: "require_presence_capacity s q adv =
      (if router_entry_count r - retired + of_bool (\<not> joined) > rl_presence_entries (rg_limits s)
       then Inl (RouteResourceExhausted ''presence_entries'' (rl_presence_entries (rg_limits s)))
       else Inr ())"
  proof -
    have "usize_checked_add (router_entry_count r - retired) (of_bool (\<not> joined)) =
        Some (router_entry_count r - retired + of_bool (\<not> joined))"
      using small by (intro usize_add_bool) simp
    moreover have "(if adv \<and> established_generation r (jp_connection q) \<noteq> None
           then map_err PresenceFailed (entry_count_for_connection r (jp_connection q))
           else Inr 0) = Inr retired"
      using not_established_no_keys [OF rok, of "jp_connection q"]
      by (auto simp: retired_def entry_count_for_connection_eq [OF rok] map_err_def)
    moreover have "(if adv then Inr False
           else tryE (map_err PresenceFailed (router_snapshot r (jp_stream q) IncludeHidden))
             (\<lambda>rs. Inr (list_ex (\<lambda>rec. pc_connection rec = jp_connection q \<and>
                                       pc_generation rec = jp_generation q) rs))) = Inr joined"
      by (auto simp: joined_def rs(1) map_err_def)
    ultimately show ?thesis
      using le unfolding require_presence_capacity_def r_def [symmetric] by simp
  qed
  show "require_presence_capacity s q adv = Inl e \<Longrightarrow> \<not> route_internal e"
    by (auto simp: req split: if_splits)
  assume "require_presence_capacity s q adv = Inr u"
  then have proj: "router_entry_count r - retired + of_bool (\<not> joined) \<le> rl_presence_entries (rg_limits s)"
    by (simp add: req split: if_splits)
  have "fmap_len (joined_entries r q) \<le> router_entry_count r - retired + of_bool (\<not> joined)"
  proof (cases adv)
    case True
    have "fmlookup (without_connection (jp_connection q) (pr_entries r)) (key_of (join_record q)) = None"
      by simp
    from fmap_len_upd_new [OF this] show ?thesis
      using True retired_count [of r "jp_connection q"]
      by (simp add: joined_entries_def adv_def [symmetric] retired_def joined_def)
  next
    case False
    show ?thesis
    proof (cases joined)
      case True
      then obtain rec where rec: "rec \<in> set rs" "pc_connection rec = jp_connection q"
        by (auto simp: joined_def list_ex_iff)
      with rs(2) [OF rec(1)] have "fmlookup (pr_entries r) (key_of (join_record q)) = Some rec"
        by (auto simp: key_of_def join_record_def)
      from fmap_len_upd_old [OF this] True False show ?thesis
        by (simp add: joined_entries_def adv_def [symmetric] retired_def router_entry_count_def)
    next
      case nj: False
      with False fmap_len_upd_le show ?thesis
        by (simp add: joined_entries_def adv_def [symmetric] retired_def router_entry_count_def)
    qed
  qed
  with proj show "fmap_len (joined_entries r q) \<le> rl_presence_entries (rg_limits s)" by simp
qed

lemma validate_join_binding_iff:
  assumes "validate_join_binding s c cg sid sg = Inr u"
  shows "fmlookup (rg_revoked_through s) sid = Some g \<Longrightarrow> g < sg"
    "fmlookup (rg_bindings s) c = Some b \<Longrightarrow>
      bd_connection_generation b < cg \<or> bd_connection_generation b = cg \<and> bd_session_id b = sid"
  using assms by (auto simp: validate_join_binding_def split: option.splits if_splits)

lemma validate_join_binding_error:
  "validate_join_binding s c cg sid sg = Inl e \<Longrightarrow> \<not> route_internal e"
  by (auto simp: validate_join_binding_def tryE_Inl_iff split: option.splits if_splits)

text \<open>The sessions that are tracked after connection \<open>c\<close> moved to session \<open>sid\<close>.\<close>

lemma live_sessions_upd:
  "live_sessions (fmupd c b bs) = insert (bd_session_id b) (live_sessions (fmdrop c bs))"
  by (auto simp: live_sessions_def conns_of_def split: if_splits)

lemma live_sessions_drop_sub: "live_sessions (fmdrop c bs) \<subseteq> live_sessions bs"
  by (rule sub_live) auto

lemma conns_of_drop: "conns_of (fmdrop c bs) sid = conns_of bs sid - {c}"
  by (auto simp: conns_of_def)

lemma projected_sessions:
  assumes ok: "registry_ok s" and lim: "limits_ok (rg_limits s)"
  defines "S \<equiv> fset (fmdom (rg_revoked_through s)) \<union> live_sessions (rg_bindings s)"
  shows "projected_tracked_session_count s c sid adv = Inl e \<Longrightarrow> \<not> route_internal e"
    "projected_tracked_session_count s c sid adv = Inr n \<Longrightarrow> bd_session_id nb = sid \<Longrightarrow>
      card (fset (fmdom (rg_revoked_through s)) \<union> live_sessions (fmupd c nb (rg_bindings s))) \<le> n"
proof -
  note idx = registry_okD(3) [OF ok]
  have count: "tracked_session_count s = card S"
    unfolding S_def by (rule tracked_session_count_eq [OF idx])
  have tracked: "session_tracked s sid \<longleftrightarrow> sid \<in> S" for sid
    unfolding S_def by (rule session_tracked_iff [OF idx])
  have fin: "finite S" by (simp add: S_def)
  have "card S < 2 ^ 63"
    using registry_okD(5) [OF ok] lim by (auto simp: capacity_ok_def limits_ok_def S_def)
  then have add: "usize_checked_add (card S) (of_bool (\<not> session_tracked s sid)) = Some (card (insert sid S))"
    using usize_add_bool [of "card S" "sid \<notin> S"] fin
    by (cases "sid \<in> S") (simp_all add: tracked insert_absorb)
  have excl: "bd_session_id b \<in> S \<and> bd_session_id b \<noteq> sid \<and>
      bd_session_id b \<notin> fset (fmdom (rg_revoked_through s)) \<union> live_sessions (fmdrop c (rg_bindings s))"
    if "exclusively_replaced s c sid b" "fmlookup (rg_bindings s) c = Some b" for b
  proof -
    from that(1) obtain cs where cs: "fmlookup (rg_connections_by_session s) (bd_session_id b) = Some cs"
        "fcard cs = 1" "c |\<in>| cs" "bd_session_id b \<noteq> sid"
        "bd_session_id b |\<notin>| fmdom (rg_revoked_through s)"
      by (auto simp: exclusively_replaced_def split: option.splits)
    have "fset cs = conns_of (rg_bindings s) (bd_session_id b)" using idx cs(1) by (simp add: index_okD)
    moreover from cs(2,3) have "fset cs = {c}"
      by (auto simp: fcard.rep_eq card_1_singleton_iff)
    ultimately have "conns_of (rg_bindings s) (bd_session_id b) = {c}" by simp
    with cs show ?thesis by (auto simp: S_def live_sessions_def conns_of_drop)
  qed
  have pos: "0 < card (insert sid S)" using fin by (simp add: card_gt_0_iff)
  have res: "projected_tracked_session_count s c sid adv =
      Inr (case fmlookup (rg_bindings s) c of
             None \<Rightarrow> card (insert sid S)
           | Some b \<Rightarrow> if adv \<and> exclusively_replaced s c sid b then card (insert sid S) - 1
                       else card (insert sid S))"
    using pos by (simp add: projected_tracked_session_count_def count add split: option.split)
  then show "projected_tracked_session_count s c sid adv = Inl e \<Longrightarrow> \<not> route_internal e" by simp
  assume n: "projected_tracked_session_count s c sid adv = Inr n" and nb: "bd_session_id nb = sid"
  let ?T = "fset (fmdom (rg_revoked_through s)) \<union> live_sessions (fmupd c nb (rg_bindings s))"
  have T: "?T = insert sid (fset (fmdom (rg_revoked_through s)) \<union> live_sessions (fmdrop c (rg_bindings s)))"
    by (simp add: live_sessions_upd nb)
  then have sub: "?T \<subseteq> insert sid S" using live_sessions_drop_sub by (auto simp: S_def)
  show "card ?T \<le> n"
  proof (cases "\<exists>b. fmlookup (rg_bindings s) c = Some b \<and> adv \<and> exclusively_replaced s c sid b")
    case True
    then obtain b where b: "fmlookup (rg_bindings s) c = Some b" "adv" "exclusively_replaced s c sid b"
      by blast
    from excl [OF b(3,1)] have "?T \<subseteq> insert sid S - {bd_session_id b}" using sub T by blast
    then have "card ?T \<le> card (insert sid S - {bd_session_id b})" using fin by (intro card_mono) auto
    also have "\<dots> = card (insert sid S) - 1" using excl [OF b(3,1)] fin by (subst card_Diff_singleton) auto
    also have "\<dots> = n" using n [unfolded res] b by simp
    finally show ?thesis .
  next
    case False
    then have "n = card (insert sid S)" using n by (auto simp: res split: option.splits)
    then show ?thesis using fin sub by (auto intro: card_mono)
  qed
qed

lemma join_capacity:
  fixes s :: SessionRouteRegistry and q :: SessionJoinRequest
  defines "p \<equiv> sj_presence q"
  defines "c \<equiv> jp_connection p"
  assumes ok: "registry_ok s" and lim: "limits_ok (rg_limits s)"
  shows "require_join_capacity s q = Inl e \<Longrightarrow> \<not> route_internal e"
    "require_join_capacity s q = Inr u \<Longrightarrow>
      fmap_len (fmupd c nb (rg_bindings s)) \<le> rl_active_connections (rg_limits s) \<and>
      fmap_len (joined_connections (rg_router s) p) \<le> rl_tracked_connections (rg_limits s) \<and>
      fmap_len (joined_entries (rg_router s) p) \<le> rl_presence_entries (rg_limits s)"
    "require_join_capacity s q = Inr u \<Longrightarrow> bd_session_id nb = pi_session_id (jp_identity p) \<Longrightarrow>
      card (fset (fmdom (rg_revoked_through s)) \<union> live_sessions (fmupd c nb (rg_bindings s)))
        \<le> rl_tracked_sessions (rg_limits s) \<and>
      card (insert c (conns_of (rg_bindings s) (pi_session_id (jp_identity p))))
        \<le> rl_connections_per_session (rg_limits s)"
proof -
  define sid where "sid = pi_session_id (jp_identity p)"
  define adv where "adv = generation_advance (rg_router s) c (jp_generation p)"
  have cap: "capacity_ok s" using ok by (rule registry_okD)
  have add: "usize_checked_add (fmap_len (rg_bindings s)) (of_bool P) = Some (fmap_len (rg_bindings s) + of_bool P)"
    "usize_checked_add (router_connection_count (rg_router s)) (of_bool P) =
      Some (router_connection_count (rg_router s) + of_bool P)" for P
    by (rule usize_add_bool, use cap lim in \<open>simp add: capacity_ok_def limits_ok_def\<close>)+
  note pres = presence_capacity [OF ok lim, of p, folded c_def, folded adv_def]
  note proj = projected_sessions [OF ok lim, of c sid adv]
  have req: "require_join_capacity s q =
     (if fmap_len (rg_bindings s) + of_bool (c |\<notin>| fmdom (rg_bindings s)) > rl_active_connections (rg_limits s)
      then Inl (RouteResourceExhausted ''active_connections'' (rl_active_connections (rg_limits s)))
      else if router_connection_count (rg_router s) + of_bool (established_generation (rg_router s) c = None)
         > rl_tracked_connections (rg_limits s)
      then Inl (RouteResourceExhausted ''tracked_connections'' (rl_tracked_connections (rg_limits s)))
      else tryE (projected_tracked_session_count s c sid adv) (\<lambda>sessions.
        if sessions > rl_tracked_sessions (rg_limits s)
        then Inl (RouteResourceExhausted ''tracked_sessions'' (rl_tracked_sessions (rg_limits s)))
        else tryE (require_session_capacity s c sid) (\<lambda>_. require_presence_capacity s p adv)))"
    unfolding require_join_capacity_def Let_def p_def [symmetric] c_def [symmetric] sid_def [symmetric]
      adv_def [symmetric] add by (simp only: ok_or_simps tryE_simps)
  show "require_join_capacity s q = Inl e \<Longrightarrow> \<not> route_internal e"
    using pres(1) proj(1)
    by (auto simp: req tryE_Inl_iff require_session_capacity_def split: if_splits option.splits)
  assume "require_join_capacity s q = Inr u"
  then obtain sessions where R:
    "fmap_len (rg_bindings s) + of_bool (c |\<notin>| fmdom (rg_bindings s)) \<le> rl_active_connections (rg_limits s)"
    "router_connection_count (rg_router s) + of_bool (established_generation (rg_router s) c = None)
       \<le> rl_tracked_connections (rg_limits s)"
    "projected_tracked_session_count s c sid adv = Inr sessions"
    "sessions \<le> rl_tracked_sessions (rg_limits s)" "require_session_capacity s c sid = Inr ()"
    "require_presence_capacity s p adv = Inr u"
    by (auto simp: req not_less split: if_splits)
  have "fmap_len (fmupd c nb (rg_bindings s)) \<le> rl_active_connections (rg_limits s)"
    using R(1) by (cases "fmlookup (rg_bindings s) c")
      (auto simp: fmap_len_upd_new fmap_len_upd_old fmdom_notI fmdomI)
  moreover have "fmap_len (joined_connections (rg_router s) p) \<le> rl_tracked_connections (rg_limits s)"
    using R(2) by (cases "fmlookup (pr_connections (rg_router s)) c")
      (auto simp: joined_connections_def c_def [symmetric] router_connection_count_def
        established_generation_def fmap_len_upd_new fmap_len_upd_old)
  ultimately show "fmap_len (fmupd c nb (rg_bindings s)) \<le> rl_active_connections (rg_limits s) \<and>
      fmap_len (joined_connections (rg_router s) p) \<le> rl_tracked_connections (rg_limits s) \<and>
      fmap_len (joined_entries (rg_router s) p) \<le> rl_presence_entries (rg_limits s)"
    using pres(2) [OF R(6)] by blast
  assume nb: "bd_session_id nb = pi_session_id (jp_identity p)"
  have "card (insert c (conns_of (rg_bindings s) sid)) \<le> rl_connections_per_session (rg_limits s)"
  proof (cases "fmlookup (rg_connections_by_session s) sid")
    case None
    then have "conns_of (rg_bindings s) sid = {}" using registry_okD(3) [OF ok] by (simp add: index_okD)
    with lim show ?thesis by (simp add: limits_ok_def)
  next
    case (Some cs)
    then have cs: "conns_of (rg_bindings s) sid = fset cs"
      using registry_okD(3) [OF ok] by (simp add: index_okD)
    show ?thesis
    proof (cases "c |\<in>| cs")
      case True
      then have "insert c (fset cs) = fset cs" by blast
      with cap cs show ?thesis by (metis capacity_ok_def)
    next
      case False
      with R(5) Some cs show ?thesis
        by (auto simp: require_session_capacity_def fcard.rep_eq split: if_splits)
    qed
  qed
  with proj(2) [OF R(3), of nb] R(4) nb
  show "card (fset (fmdom (rg_revoked_through s)) \<union> live_sessions (fmupd c nb (rg_bindings s)))
        \<le> rl_tracked_sessions (rg_limits s) \<and>
      card (insert c (conns_of (rg_bindings s) (pi_session_id (jp_identity p))))
        \<le> rl_connections_per_session (rg_limits s)"
    by (auto simp: sid_def)
qed

lemma router_join_frame:
  assumes ok: "router_ok r" and op: "router_join p r = (r', Inr d)"
  shows "router_ok r'" "join_fence r p = Inr ()" "pr_connections r' = joined_connections r p"
    "r' = r \<or> pr_entries r' = joined_entries r p" "pd_disposition d = MutIdempotent \<Longrightarrow> r' = r"
proof -
  show "router_ok r'" using router_exec_ok [of r "RouterJoin p"] ok op by simp
  have "join_fence r p = Inr () \<and> pr_connections r' = joined_connections r p \<and>
      (r' = r \<or> pr_entries r' = joined_entries r p) \<and> (pd_disposition d = MutIdempotent \<longrightarrow> r' = r)"
    using ok op
  proof (cases rule: router_join_cases)
    case idempotent
    have "joined_connections r p = pr_connections r"
      using join_fence_advance [OF idempotent(3,4)]
      by (intro fmap_ext) (auto simp: joined_connections_def)
    with idempotent show ?thesis by simp
  qed auto
  then show "join_fence r p = Inr ()" "pr_connections r' = joined_connections r p"
    "r' = r \<or> pr_entries r' = joined_entries r p" "pd_disposition d = MutIdempotent \<Longrightarrow> r' = r"
    by blast+
qed

text \<open>The candidate of a join, before its revision is set.\<close>

definition join_binding :: "SessionJoinRequest \<Rightarrow> SessionBinding" where
  "join_binding q = \<lparr>bd_session_id = pi_session_id (jp_identity (sj_presence q)),
     bd_session_generation = sj_session_generation q,
     bd_connection_generation = jp_generation (sj_presence q)\<rparr>"

definition join_candidate ::
    "SessionJoinRequest \<Rightarrow> SessionRouteRegistry \<Rightarrow> PresenceRouter \<Rightarrow> SessionRouteRegistry" where
  "join_candidate q s r' = (let c = jp_connection (sj_presence q) in
     if fmlookup (rg_bindings s) c \<noteq> Some (join_binding q)
     then insert_binding c (join_binding q) (fst (remove_binding c (s\<lparr>rg_router := r'\<rparr>)))
     else s\<lparr>rg_router := r'\<rparr>)"

lemma join_candidate_ok:
  fixes s :: SessionRouteRegistry and q :: SessionJoinRequest and r' :: PresenceRouter
  defines "p \<equiv> sj_presence q" and "t \<equiv> join_candidate q s r'" and "nb \<equiv> join_binding q"
  defines "c \<equiv> jp_connection p"
  assumes ok: "registry_ok s" and lim: "limits_ok (rg_limits s)"
    and valid: "validate_join_binding s c (jp_generation p) (pi_session_id (jp_identity p))
      (sj_session_generation q) = Inr ()"
    and cap: "require_join_capacity s q = Inr ()"
    and join: "router_join p (rg_router s) = (r', Inr d)"
  shows "registry_ok t" "rg_revision t = rg_revision s" "rg_namespace t = rg_namespace s"
    "rg_limits t = rg_limits s" "rg_router t = r'" "rg_revoked_through t = rg_revoked_through s"
    "fmlookup (rg_bindings t) c = Some nb"
proof -
  have t: "t = (if fmlookup (rg_bindings s) c \<noteq> Some nb
      then insert_binding c nb (fst (remove_binding c (s\<lparr>rg_router := r'\<rparr>))) else s\<lparr>rg_router := r'\<rparr>)"
    by (simp add: t_def join_candidate_def Let_def c_def p_def nb_def)
  note F = router_join_frame [OF registry_okD(1) [OF ok] join]
  have "router_entry_count r' \<le> rl_presence_entries (rg_limits s)"
    using F(4) join_capacity(2) [OF ok lim cap] registry_okD(5) [OF ok]
    by (auto simp: capacity_ok_def router_entry_count_def p_def)
  note r' = F(1,3) this
  have idx: "index_ok (s\<lparr>rg_router := r'\<rparr>)" using registry_okD(3) [OF ok] by (simp add: index_ok_def)
  note R = remove_binding_index [OF idx, of c]
  have "fmlookup (rg_bindings (fst (remove_binding c (s\<lparr>rg_router := r'\<rparr>)))) c = None" by (simp add: R)
  note I = insert_binding_index [OF R(1) this, of nb]
  have idx_t: "index_ok t" using I(1) idx by (simp add: t)
  have bs: "rg_bindings t = fmupd c nb (rg_bindings s)"
  proof (cases "fmlookup (rg_bindings s) c = Some nb")
    case True
    then show ?thesis by (auto simp: t intro!: fmap_ext)
  next
    case False
    then show ?thesis using I(2) by (auto simp: t R(2) intro!: fmap_ext)
  qed
  then show "fmlookup (rg_bindings t) c = Some nb" by simp
  show same: "rg_revision t = rg_revision s" "rg_namespace t = rg_namespace s"
    "rg_limits t = rg_limits s" "rg_router t = r'" "rg_revoked_through t = rg_revoked_through s"
    by (simp_all add: t)
  have cp: "rg_checkpoint t = rg_checkpoint s" by (simp add: t)
  note V = validate_join_binding_iff [OF valid]
  have "bindings_ok t"
    unfolding bindings_ok_def
  proof (intro allI impI)
    fix c' b assume b: "fmlookup (rg_bindings t) c' = Some b"
    show "(\<exists>st. fmlookup (pr_connections (rg_router t)) c' = Some st \<and>
          cs_generation st = bd_connection_generation b \<and>
          pi_session_id (cs_identity st) = bd_session_id b) \<and>
       (\<forall>g. fmlookup (rg_revoked_through t) (bd_session_id b) = Some g \<longrightarrow> g < bd_session_generation b)"
    proof (cases "c' = c")
      case True
      with b have "b = nb" by (simp add: bs)
      with True V(1) show ?thesis by (auto simp: same r' joined_connections_def c_def nb_def join_binding_def p_def)
    next
      case False
      with b have "fmlookup (rg_bindings s) c' = Some b" by (simp add: bs)
      with False registry_okD(4) [OF ok] show ?thesis
        by (auto simp: bindings_ok_def same r' joined_connections_def c_def [symmetric])
    qed
  qed
  moreover have "capacity_ok t"
  proof -
    note C = join_capacity(2) [OF ok lim cap, of nb, folded p_def, folded c_def]
      join_capacity(3) [OF ok lim cap, of nb, folded p_def, folded c_def]
    have "card (conns_of (rg_bindings t) sid) \<le> rl_connections_per_session (rg_limits s)" for sid
    proof (cases "sid = bd_session_id nb")
      case True
      then have "conns_of (rg_bindings t) sid \<subseteq> insert c (conns_of (rg_bindings s) sid)"
        by (auto simp: bs conns_of_def split: if_splits)
      then have "card (conns_of (rg_bindings t) sid) \<le> card (insert c (conns_of (rg_bindings s) sid))"
        by (rule card_mono [rotated]) simp
      with C(2) True show ?thesis by (simp add: nb_def join_binding_def p_def)
    next
      case False
      then have "conns_of (rg_bindings t) sid \<subseteq> conns_of (rg_bindings s) sid"
        by (auto simp: bs conns_of_def split: if_splits)
      then have "card (conns_of (rg_bindings t) sid) \<le> card (conns_of (rg_bindings s) sid)"
        by (rule card_mono [rotated]) simp
      with registry_okD(5) [OF ok] show ?thesis by (metis capacity_ok_def order_trans)
    qed
    with C registry_okD(5) [OF ok] show ?thesis
      by (simp add: capacity_ok_def same bs r' router_connection_count_def nb_def join_binding_def p_def)
  qed
  moreover have "checkpoint_ok t"
    using registry_okD(2) [OF ok] by (simp add: checkpoint_ok_def checkpoint_binds_def same cp)
  ultimately show "registry_ok t" using idx_t r'(1) by (simp add: registry_ok_def same)
qed

lemma joined_generations:
  assumes "join_fence r q = Inr u" "pr_connections r' = joined_connections r q"
    and "established_generation r c = Some g"
  shows "\<exists>h. established_generation r' c = Some h \<and> g \<le> h"
  using assms by (auto simp: established_generation_def joined_connections_def join_fence_def
      split: option.splits if_splits)

lemma join_below:
  assumes t: "rg_namespace t = rg_namespace s" "rg_router t = r'"
      "rg_revoked_through t = rg_revoked_through s" "checked_add (rg_revision s) 1 = Some n"
    and join: "router_ok (rg_router s)" "router_join p (rg_router s) = (r', Inr d)"
  shows "registry_below s (t\<lparr>rg_revision := n\<rparr>)"
  using t checked_add_one_mono [OF t(4)] joined_generations [OF router_join_frame(2,3) [OF join]]
  by (auto simp: registry_below_def)

lemma registry_join_op:
  assumes ok: "registry_ok s" and lim: "limits_ok (rg_limits s)" and op: "registry_join q s = (s', res)"
  shows "registry_ok s' \<and> registry_below s s' \<and> rg_limits s' = rg_limits s \<and>
    (\<forall>e. res = Inl e \<longrightarrow> s' = s \<and> \<not> route_internal e) \<and>
    (\<forall>d. res = Inr d \<longrightarrow> sj_namespace q = rg_namespace s \<and>
       (\<forall>g. fmlookup (rg_revoked_through s) (pi_session_id (jp_identity (sj_presence q))) = Some g \<longrightarrow>
          g < sj_session_generation q))"
proof -
  let ?p = "sj_presence q"
  let ?valid = "validate_join_binding s (jp_connection ?p) (jp_generation ?p)
    (pi_session_id (jp_identity ?p)) (sj_session_generation q)"
  have rejected: ?thesis if "res = Inl e" "s' = s" "\<not> route_internal e" for e
    using that ok by simp
  note D = registry_join_def Let_def registry_verify_ok [OF ok]
  consider (ns) "sj_namespace q \<noteq> rg_namespace s"
    | (valid) e where "sj_namespace q = rg_namespace s" "?valid = Inl e"
    | (cap) e where "sj_namespace q = rg_namespace s" "?valid = Inr ()" "require_join_capacity s q = Inl e"
    | (go) "sj_namespace q = rg_namespace s" "?valid = Inr ()" "require_join_capacity s q = Inr ()"
    using result_cases_unit [of ?valid] result_cases_unit [of "require_join_capacity s q"] by blast
  then show ?thesis
  proof cases
    case ns
    with op show ?thesis by (intro rejected) (auto simp: D require_namespace_def)
  next
    case (valid e)
    with op validate_join_binding_error [OF valid(2)] show ?thesis
      by (intro rejected [of e]) (auto simp: D)
  next
    case (cap e)
    with op join_capacity(1) [OF ok lim cap(3)] show ?thesis
      by (intro rejected [of e]) (auto simp: D)
  next
    case go
    obtain r' rres where r: "router_join ?p (rg_router s) = (r', rres)"
      by (cases "router_join ?p (rg_router s)")
    show ?thesis
    proof (cases rres)
      case (Inl e)
      with op go r router_error_internal [of "rg_router s" "RouterJoin ?p" r' e] registry_okD(1) [OF ok]
      show ?thesis by (intro rejected [of "PresenceFailed e"]) (auto simp: D)
    next
      case (Inr d)
      note join = r [unfolded Inr]
      note T = join_candidate_ok [OF ok lim go(2,3) join]
      have "registry_join q s = commit_candidate s (finish_mutation s (join_candidate q s r')
          (fmlookup (rg_bindings s) (jp_connection ?p) \<noteq> Some (join_binding q) \<or>
           pd_disposition d = MutApplied) d)"
        using go join by (simp add: D join_candidate_def join_binding_def)
      with op have fin: "commit_candidate s (finish_mutation s (join_candidate q s r')
          (fmlookup (rg_bindings s) (jp_connection ?p) \<noteq> Some (join_binding q) \<or>
           pd_disposition d = MutApplied) d) = (s', res)" by simp
      have fence: "\<forall>g. fmlookup (rg_revoked_through s) (pi_session_id (jp_identity ?p)) = Some g \<longrightarrow>
          g < sj_session_generation q" using validate_join_binding_iff(1) [OF go(2)] by blast
      show ?thesis
      proof (rule finish_mutation_cases [OF ok T(1,2) refl])
        assume "finish_mutation s (join_candidate q s r')
          (fmlookup (rg_bindings s) (jp_connection ?p) \<noteq> Some (join_binding q) \<or>
           pd_disposition d = MutApplied) d = Inl RouteRevisionExhausted"
        with fin show ?thesis by (intro rejected [of RouteRevisionExhausted]) auto
      next
        fix d'
        assume "finish_mutation s (join_candidate q s r')
          (fmlookup (rg_bindings s) (jp_connection ?p) \<noteq> Some (join_binding q) \<or>
           pd_disposition d = MutApplied) d = Inr (s, d')"
        with fin ok go(1) fence show ?thesis by auto
      next
        fix n d'
        assume c: "finish_mutation s (join_candidate q s r')
            (fmlookup (rg_bindings s) (jp_connection ?p) \<noteq> Some (join_binding q) \<or>
             pd_disposition d = MutApplied) d = Inr (join_candidate q s r'\<lparr>rg_revision := n\<rparr>, d')"
          "checked_add (rg_revision s) 1 = Some n"
          "registry_ok (join_candidate q s r'\<lparr>rg_revision := n\<rparr>)"
        with fin have "s' = join_candidate q s r'\<lparr>rg_revision := n\<rparr>" "res = Inr d'" by auto
        with c(3) join_below [OF T(3,5,6) c(2) registry_okD(1) [OF ok] join] T(4) go(1) fence
        show ?thesis by simp
      qed
    qed
  qed
qed

subsection \<open>Rollover\<close>

lemma propose_rollover_error: "registry_ok s \<Longrightarrow> propose_rollover s n d b = Inl e \<Longrightarrow> \<not> route_internal e"
  by (auto simp: propose_rollover_def registry_verify_ok require_nonzero_rollover_digest_def
      split: if_splits)

lemma propose_rollover_Inr:
  "propose_rollover s n d b = Inr pf \<Longrightarrow>
     rp_retired_namespace pf = rg_namespace s \<and> rg_namespace s < n \<and> d \<noteq> 0 \<and> b \<noteq> 0"
  by (auto simp: propose_rollover_def require_nonzero_rollover_digest_def split: if_splits)

lemma rollover_op:
  assumes ok: "registry_ok s" and op: "rollover_namespace pf vr s = (s', res)"
  shows "registry_ok s' \<and> registry_below s s' \<and> rg_limits s' = rg_limits s \<and>
    (\<forall>e. res = Inl e \<longrightarrow> s' = s \<and> \<not> route_internal e)"
proof -
  define guard where "guard = (if rg_bindings s \<noteq> fmempty \<or> rg_connections_by_session s \<noteq> fmempty \<or>
           router_entry_count (rg_router s) \<noteq> 0
        then Inl RolloverRequiresQuiescence
        else tryE (propose_rollover s (rp_next_namespace pf) (rp_checkpoint_digest pf)
                    (rp_producer_barrier_digest pf)) (\<lambda>expected.
          if pf \<noteq> expected then Inl RolloverProofMismatch
          else if \<not> vr pf then Inl RolloverVerificationFailed
          else registry_next_revision s))"
  have eq: "rollover_namespace pf vr s = (case guard of
        Inl e \<Rightarrow> (s, Inl e)
      | Inr next_revision \<Rightarrow>
          let checkpoint = rollover_checkpoint pf next_revision;
              s' = s\<lparr>rg_namespace := rp_next_namespace pf, rg_revision := next_revision,
                     rg_checkpoint := Some checkpoint, rg_router := router_new,
                     rg_revoked_through := fmempty\<rparr>
          in (s', tryE (registry_verify s') (\<lambda>_. Inr checkpoint)))"
    by (simp only: rollover_namespace_def registry_verify_ok [OF ok] tryE_simps guard_def)
  show ?thesis
  proof (cases guard)
    case (Inl e)
    then have "\<not> route_internal e"
      using propose_rollover_error [OF ok]
      by (auto simp: guard_def tryE_Inl_iff split: if_splits)
    with op ok Inl show ?thesis by (auto simp: eq)
  next
    case (Inr n)
    define t where "t = s\<lparr>rg_namespace := rp_next_namespace pf, rg_revision := n,
        rg_checkpoint := Some (rollover_checkpoint pf n), rg_router := router_new,
        rg_revoked_through := fmempty\<rparr>"
    from Inr have "propose_rollover s (rp_next_namespace pf) (rp_checkpoint_digest pf)
        (rp_producer_barrier_digest pf) = Inr pf" by (auto simp: guard_def split: if_splits)
    note P = propose_rollover_Inr [OF this]
    from Inr P have G: "rg_bindings s = fmempty" "rg_connections_by_session s = fmempty"
        "rp_retired_namespace pf = rg_namespace s" "rg_namespace s < rp_next_namespace pf"
        "rp_checkpoint_digest pf \<noteq> 0" "rp_producer_barrier_digest pf \<noteq> 0"
        "checked_add (rg_revision s) 1 = Some n"
      by (simp_all add: guard_def split: if_splits)
    have "registry_ok t"
      using G by (simp add: t_def registry_ok_def checkpoint_ok_def checkpoint_binds_def
          rollover_checkpoint_def index_ok_def conns_of_def bindings_ok_def capacity_ok_def
          router_connection_count_def router_entry_count_def router_new_def live_sessions_def
          router_ok_def)
    moreover from this op Inr have "s' = t" "res = Inr (rollover_checkpoint pf n)"
      by (auto simp: eq Let_def t_def registry_verify_ok)
    moreover have "registry_below s t"
      using G(4) checked_add_one_mono [OF G(7)] by (auto simp: registry_below_def t_def)
    ultimately show ?thesis by (simp add: t_def)
  qed
qed

subsection \<open>Every operation, and runs\<close>

lemma map_ok_iff [simp]:
  "map_ok f res = Inl e \<longleftrightarrow> res = Inl e"
  "map_ok f res = Inr y \<longleftrightarrow> (\<exists>x. res = Inr x \<and> y = f x)"
  by (cases res; auto simp: map_ok_def)+

lemma map_ok_result:
  assumes "apsnd (map_ok f) m = (s', res)"
  obtains r where "m = (s', r)" "\<And>e. res = Inl e \<longleftrightarrow> r = Inl e"
  using assms by (cases m) auto

lemma registry_exec_op:
  assumes ok: "registry_ok s" and lim: "limits_ok (rg_limits s)" and op: "registry_exec vr x s = (s', res)"
  shows "registry_ok s' \<and> registry_below s s' \<and> rg_limits s' = rg_limits s \<and>
    (\<forall>e. res = Inl e \<longrightarrow> s' = s \<and> \<not> route_internal e)"
proof (cases x)
  case (RegistryJoin q)
  from op [unfolded RegistryJoin registry_exec.simps] show ?thesis
    by (rule map_ok_result) (use registry_join_op [OF ok lim] in \<open>simp\<close>)
next
  case (RegistryUpdate q)
  from op [unfolded RegistryUpdate registry_exec.simps] show ?thesis
    by (rule map_ok_result) (use registry_update_op [OF ok] in \<open>simp\<close>)
next
  case (RegistryLeave q)
  from op [unfolded RegistryLeave registry_exec.simps] show ?thesis
    by (rule map_ok_result) (use registry_leave_op [OF ok] in \<open>simp\<close>)
next
  case (RegistryRemove q)
  from op [unfolded RegistryRemove registry_exec.simps] show ?thesis
    by (rule map_ok_result) (use registry_remove_op [OF ok] in \<open>simp\<close>)
next
  case (RegistryRevoke q)
  from op [unfolded RegistryRevoke registry_exec.simps] show ?thesis
    by (rule map_ok_result) (use revoke_session_op [OF ok] in \<open>simp\<close>)
next
  case (RegistryRollover p)
  from op [unfolded RegistryRollover registry_exec.simps] show ?thesis
    by (rule map_ok_result) (use rollover_op [OF ok] in \<open>simp\<close>)
qed

definition registry_inv :: "SessionRouteRegistry \<Rightarrow> bool" where
  "registry_inv s \<longleftrightarrow> registry_ok s \<and> limits_ok (rg_limits s)"

interpretation session_routes: monotone_machine "registry_step vr" registry_inv registry_below
proof
  fix s x assume "registry_inv s"
  then have s: "registry_ok s" "limits_ok (rg_limits s)" by (simp_all add: registry_inv_def)
  obtain s' res where op: "registry_exec vr x s = (s', res)" by (cases "registry_exec vr x s")
  show "registry_inv (registry_step vr x s)" "registry_below s (registry_step vr x s)"
    using registry_exec_op [OF s op] s(2) by (simp_all add: registry_inv_def registry_step_def op)
qed (auto intro: registry_below_trans)

lemma with_limits_ok: "registry_ok (with_limits limits)"
  by (simp add: registry_ok_def with_limits_def checkpoint_ok_def index_ok_def conns_of_def
      bindings_ok_def capacity_ok_def router_connection_count_def router_entry_count_def
      router_new_def live_sessions_def router_ok_def)

lemma with_limits_inv: "SessionRouteLimits_new a b c d e f = Inr limits \<Longrightarrow> registry_inv (with_limits limits)"
  using with_limits_ok [of limits] limits_new_ok [of a b c d e f limits]
  by (simp add: registry_inv_def with_limits_def)

lemma from_checkpoint_inv:
  assumes "from_checkpoint limits cp vc = Inr s" "SessionRouteLimits_new a b c d e f = Inr limits"
  shows "registry_inv s"
proof -
  have s: "s = with_limits limits\<lparr>rg_namespace := cp_active_namespace cp,
      rg_revision := cp_registry_revision cp, rg_checkpoint := Some cp\<rparr>"
    and cp: "cp_retired_namespace cp < cp_active_namespace cp" "cp_checkpoint_digest cp \<noteq> 0"
      "cp_producer_barrier_digest cp \<noteq> 0"
    using assms(1) by (auto simp: from_checkpoint_def with_limits_def
        require_nonzero_rollover_digest_def split: if_splits)
  show ?thesis
    using limits_new_ok [OF assms(2)] cp
    by (simp add: s with_limits_def registry_inv_def registry_ok_def checkpoint_ok_def
        checkpoint_binds_def index_ok_def conns_of_def bindings_ok_def capacity_ok_def
        router_connection_count_def router_entry_count_def router_new_def live_sessions_def
        router_ok_def)
qed

text \<open>
  C23: The self-checks of the session registry never fire: from a fresh registry with accepted
  limits or one restored from a checkpoint, after any operations, the next operation leaves a
  registry that passes \<open>verify_invariants\<close>, and if it fails it has changed nothing and its
  error is a refusal of the request or an exhausted revision, not a violated invariant of
  the registry or of the presence router.
\<close>

theorem registry_self_checks_hold:
  assumes "SessionRouteLimits_new a b c d e f = Inr limits"
    and "s0 = with_limits limits \<or> from_checkpoint limits cp vc = Inr s0"
    and "registry_exec vr x (fold (registry_step vr) xs s0) = (s', res)"
  shows "registry_verify s' = Inr () \<and>
    (\<forall>err. res = Inl err \<longrightarrow> s' = fold (registry_step vr) xs s0 \<and> \<not> route_internal err)"
proof -
  have "registry_inv s0" using assms(1,2) with_limits_inv from_checkpoint_inv by blast
  then have "registry_inv (fold (registry_step vr) xs s0)" by (rule session_routes.run_inv)
  then show ?thesis
    using registry_exec_op [OF _ _ assms(3)] by (auto simp: registry_inv_def registry_verify_ok)
qed

definition example_join :: "u64 \<Rightarrow> SessionJoinRequest" where
  "example_join g = \<lparr>sj_namespace = 1, sj_presence = \<lparr>jp_connection = ConnectionRef [110] [99],
     jp_generation = 1, jp_stream = StreamKey 1 0 0 [], jp_identity = \<lparr>pi_user_id = [117],
     pi_session_id = [115], pi_username = [117]\<rparr>, jp_status = [], jp_hidden = False\<rparr>,
     sj_session_generation = g\<rparr>"

definition example_limits :: SessionRouteLimits where
  "example_limits = \<lparr>rl_connections_per_session = 1, rl_active_connections = 1,
     rl_tracked_connections = 1, rl_tracked_sessions = 1, rl_revocation_high_waters = 1,
     rl_presence_entries = 1\<rparr>"

lemma example_limits_new: "SessionRouteLimits_new 1 1 1 1 1 1 = Inr example_limits"
  by (simp add: SessionRouteLimits_new_def route_validate_limit_def example_limits_def
      MAX_CONNECTIONS_PER_SESSION_def MAX_ACTIVE_CONNECTIONS_def MAX_TRACKED_CONNECTIONS_def
      MAX_TRACKED_SESSIONS_def MAX_REVOCATION_HIGH_WATERS_def MAX_PRESENCE_ENTRIES_def)

lemma registry_self_checks_hold_witness:
  "registry_verify (fst (registry_exec (\<lambda>_. True) (RegistryJoin (example_join 1))
     (with_limits example_limits))) = Inr ()"
proof -
  let ?x = "registry_exec (\<lambda>_. True) (RegistryJoin (example_join 1))"
  have "?x (fold (registry_step (\<lambda>_. True)) [] (with_limits example_limits)) =
      (fst (?x (with_limits example_limits)), snd (?x (with_limits example_limits)))"
    by (simp del: registry_exec.simps)
  from registry_self_checks_hold [OF example_limits_new disjI1 [OF refl] this]
  show ?thesis by (rule conjunct1)
qed

text \<open>
  C24: A revoked session generation stays out: once a revocation of a session through a
  generation has been answered in a namespace, then after any further operations no
  connection is bound to that session at or below the generation while the namespace lasts,
  and every request of that namespace to join at or below it, however late and from whatever
  connection, is refused and changes nothing.
\<close>

theorem revoked_generation_stays_out:
  fixes ys :: "RegistryOp list"
  assumes "SessionRouteLimits_new a b c d e f = Inr limits"
    and "revoke_session q (fold (registry_step vr) xs (with_limits limits)) = (s', Inr reply)"
    and "sj_namespace j = sv_namespace q"
    and "pi_session_id (jp_identity (sj_presence j)) = sv_session_id q"
    and "sj_session_generation j \<le> sv_through_generation q"
  defines "t \<equiv> fold (registry_step vr) ys s'"
  shows "(\<exists>err. registry_join j t = (t, Inl err)) \<and>
    (rg_namespace t = sv_namespace q \<longrightarrow>
      (\<forall>conn bd. fmlookup (rg_bindings t) conn = Some bd \<longrightarrow> bd_session_id bd = sv_session_id q \<longrightarrow>
         sv_through_generation q < bd_session_generation bd))"
proof -
  have inv: "registry_inv (fold (registry_step vr) xs (with_limits limits))"
    using with_limits_inv [OF assms(1)] by (rule session_routes.run_inv)
  then have lim0: "limits_ok (rg_limits (fold (registry_step vr) xs (with_limits limits)))"
    by (simp add: registry_inv_def)
  note R = revoke_session_op [OF _ assms(2)]
  have s': "registry_inv s'" "rg_namespace s' = sv_namespace q"
    "\<exists>h. fmlookup (rg_revoked_through s') (sv_session_id q) = Some h \<and> sv_through_generation q \<le> h"
    using R inv lim0 by (simp_all add: registry_inv_def)
  have t: "registry_inv t" "registry_below s' t"
    unfolding t_def using s'(1) by (rule session_routes.run_inv, rule session_routes.run_below)
  then have ok: "registry_ok t" "limits_ok (rg_limits t)" by (simp_all add: registry_inv_def)
  have high: "\<exists>h. fmlookup (rg_revoked_through t) (sv_session_id q) = Some h \<and> sv_through_generation q \<le> h"
    if "rg_namespace t = sv_namespace q"
    using t(2) s'(2,3) that unfolding registry_below_def by (metis order_trans)
  obtain u res where j: "registry_join j t = (u, res)" by (cases "registry_join j t")
  note J = registry_join_op [OF ok j]
  have "\<exists>err. registry_join j t = (t, Inl err)"
  proof (cases res)
    case (Inl err)
    with J j show ?thesis by auto
  next
    case (Inr r)
    with J have "sj_namespace j = rg_namespace t"
      "\<And>g. fmlookup (rg_revoked_through t) (sv_session_id q) = Some g \<Longrightarrow> g < sj_session_generation j"
      by (simp_all add: assms(4))
    with high assms(3,5) show ?thesis by (metis leD order_trans)
  qed
  moreover have "sv_through_generation q < bd_session_generation bd"
    if ns: "rg_namespace t = sv_namespace q" and bd: "fmlookup (rg_bindings t) conn = Some bd"
      "bd_session_id bd = sv_session_id q" for conn bd
  proof -
    obtain h where "fmlookup (rg_revoked_through t) (sv_session_id q) = Some h" "sv_through_generation q \<le> h"
      using high [OF ns] by blast
    with registry_okD(4) [OF ok(1)] bd show ?thesis
      unfolding bindings_ok_def by (metis order_le_less_trans)
  qed
  ultimately show ?thesis by blast
qed

definition example_revocation :: SessionRevocationRequest where
  "example_revocation = \<lparr>sv_namespace = 1, sv_session_id = [115], sv_through_generation = 3\<rparr>"

lemma example_revocation_run:
  "\<exists>s' reply. revoke_session example_revocation (with_limits example_limits) = (s', Inr reply)"
proof -
  let ?s = "with_limits example_limits"
  let ?t = "?s\<lparr>rg_revoked_through := fmupd [115] 3 fmempty, rg_revision := 1\<rparr>"
  have verify: "registry_verify ?s = Inr ()" by (simp add: registry_verify_ok with_limits_ok)
  have "registry_ok ?t"
    using with_limits_ok [of example_limits]
    by (simp add: registry_ok_def with_limits_def example_limits_def checkpoint_ok_def index_ok_def
        bindings_ok_def capacity_ok_def live_sessions_def conns_of_def fmap_len_upd_new)
  then have "registry_verify ?t = Inr ()" by (simp add: registry_verify_ok)
  moreover have "registry_next_revision ?s = Inr 1"
    by (simp add: with_limits_def registry_next_revision_def checked_add_def)
  ultimately have "\<exists>reply. revoke_apply [115] 3 ?s = Inr (?t, reply)"
    by (simp add: revoke_apply_def with_limits_def sorted_list_of_fset.rep_eq)
  moreover have "rg_revoked_through ?s = fmempty" "rg_namespace ?s = 1" "tracked_session_count ?s = 0"
      "rl_tracked_sessions (rg_limits ?s) = 1" "rl_revocation_high_waters (rg_limits ?s) = 1"
    by (simp_all add: with_limits_def example_limits_def tracked_session_count_def fcard.rep_eq)
  ultimately show ?thesis
    by (auto simp: revoke_session_def verify example_revocation_def Let_def require_namespace_def
        already_revoked_def require_tracked_session_capacity_def)
qed

lemma revoked_generation_stays_out_witness:
  "\<exists>s' reply. revoke_session example_revocation (with_limits example_limits) = (s', Inr reply) \<and>
     (\<exists>err. registry_join (example_join 2) s' = (s', Inl err))"
proof -
  obtain s' reply where run:
    "revoke_session example_revocation (with_limits example_limits) = (s', Inr reply)"
    using example_revocation_run by blast
  then have "revoke_session example_revocation
      (fold (registry_step (\<lambda>_. True)) [] (with_limits example_limits)) = (s', Inr reply)" by simp
  from revoked_generation_stays_out [OF example_limits_new this, of "example_join 2" "[]"]
  have "\<exists>err. registry_join (example_join 2) s' = (s', Inl err)"
    by (simp add: example_join_def example_revocation_def)
  with run show ?thesis by blast
qed

end
