(* ===== verification/Reconnect_Journal.thy ===== *)
theory Reconnect_Journal
  imports Contracts
begin

text \<open>
  The reconnect journal (\<open>crates/trnm-presence-router-v2/src/reconnect_cursor.rs\<close>): a bounded
  window over the events of a stream, and cursors that bind the journal's identity and carry
  the tag of the transport's authenticator. The authenticator is a trait; its \<open>tag\<close> method is
  an argument. The contiguity check of the source adds one to a \<open>u64\<close>, here with wrap-around;
  the sequence of a retained event is never the maximum, so the overflow is not reachable.
\<close>

subsection \<open>Data\<close>

definition MAX_RECONNECT_JOURNAL_CAPACITY :: usize where "MAX_RECONNECT_JOURNAL_CAPACITY = 65536"

datatype ReconnectJournalError =
    ZeroCapacity
  | CapacityTooLarge usize usize
  | ZeroIdentifier string
  | ZeroDigest string
  | SequenceExhausted
  | CursorIdentityMismatch
  | CursorAuthenticationFailed
  | AuthenticatorReturnedZeroTag
  | CursorAhead u64 u64
  | CursorExpired u64 u64
  | JournalInvariantViolation string

record ReconnectIdentity =
  ri_journal_id :: id16
  ri_stream_id :: digest32
  ri_session_generation :: u64
  ri_producer_epoch :: u64

record ReconnectCursor =
  rk_identity :: ReconnectIdentity
  rk_sequence :: u64
  rk_tag :: digest32

record ReconnectEvent =
  rv_sequence :: u64
  rv_digest :: digest32

record ReconnectJournalConfig =
  jc_capacity :: usize
  jc_identity :: ReconnectIdentity

record ReconnectJournal =
  rj_config :: ReconnectJournalConfig
  rj_next_sequence :: u64
  rj_events :: "ReconnectEvent list"

definition require_nonzero :: "string \<Rightarrow> 'a::len word \<Rightarrow> ReconnectJournalError + unit" where
  "require_nonzero field v = (if id_is_zero v then Inl (ZeroDigest field) else Inr ())"

definition ReconnectJournalId_new :: "id16 \<Rightarrow> ReconnectJournalError + id16" where
  "ReconnectJournalId_new v = tryE (require_nonzero ''journal_id'' v) (\<lambda>_. Inr v)"

definition ReconnectStreamId_new :: "digest32 \<Rightarrow> ReconnectJournalError + digest32" where
  "ReconnectStreamId_new v = tryE (require_nonzero ''stream_id'' v) (\<lambda>_. Inr v)"

definition ReconnectSessionGeneration_new :: "u64 \<Rightarrow> ReconnectJournalError + u64" where
  "ReconnectSessionGeneration_new v =
     (if v = 0 then Inl (ZeroIdentifier ''session_generation'') else Inr v)"

definition ReconnectProducerEpoch_new :: "u64 \<Rightarrow> ReconnectJournalError + u64" where
  "ReconnectProducerEpoch_new v =
     (if v = 0 then Inl (ZeroIdentifier ''producer_epoch'') else Inr v)"

text \<open>The comparison of tags: the exclusive or of every byte pair, collected with or.\<close>

definition constant_time_eq :: "digest32 \<Rightarrow> digest32 \<Rightarrow> bool" where
  "constant_time_eq left right \<longleftrightarrow>
     foldl (\<lambda>difference (l, r). or difference (xor l r)) (0 :: u8)
       (zip (to_be_bytes left) (to_be_bytes right)) = 0"

subsection \<open>The journal\<close>

definition journal_new :: "ReconnectJournalConfig \<Rightarrow> ReconnectJournalError + ReconnectJournal" where
  "journal_new config =
     (if jc_capacity config = 0 then Inl ZeroCapacity
      else if jc_capacity config > MAX_RECONNECT_JOURNAL_CAPACITY
      then Inl (CapacityTooLarge (jc_capacity config) MAX_RECONNECT_JOURNAL_CAPACITY)
      else Inr \<lparr>rj_config = config, rj_next_sequence = 1, rj_events = []\<rparr>)"

definition latest_sequence :: "ReconnectJournal \<Rightarrow> u64" where
  "latest_sequence j = (if rj_next_sequence j = 0 then 0 else rj_next_sequence j - 1)"

definition oldest_sequence :: "ReconnectJournal \<Rightarrow> u64 option" where
  "oldest_sequence j = (case rj_events j of [] \<Rightarrow> None | e # _ \<Rightarrow> Some (rv_sequence e))"

definition verify_event ::
    "ReconnectEvent \<Rightarrow> u64 option \<Rightarrow> ReconnectJournalError + u64 option" where
  "verify_event event previous =
     (if id_is_zero (rv_digest event)
      then Inl (JournalInvariantViolation ''retained event has zero digest'')
      else if (case previous of None \<Rightarrow> False | Some sequence \<Rightarrow> rv_sequence event \<noteq> sequence + 1)
      then Inl (JournalInvariantViolation ''retained event sequences are not contiguous'')
      else Inr (Some (rv_sequence event)))"

definition journal_verify :: "ReconnectJournal \<Rightarrow> ReconnectJournalError + unit" where
  "journal_verify j =
     (if jc_capacity (rj_config j) = 0 \<or> jc_capacity (rj_config j) > MAX_RECONNECT_JOURNAL_CAPACITY
      then Inl (JournalInvariantViolation ''capacity is outside the validated range'')
      else if length (rj_events j) > jc_capacity (rj_config j)
      then Inl (JournalInvariantViolation ''retained event count exceeds capacity'')
      else tryE (foldE verify_event (rj_events j) None) (\<lambda>previous.
        case previous of
          Some final \<Rightarrow>
            if final \<noteq> latest_sequence j
            then Inl (JournalInvariantViolation
              ''last retained sequence differs from producer high-water mark'')
            else Inr ()
        | None \<Rightarrow>
            if latest_sequence j \<noteq> 0
            then Inl (JournalInvariantViolation ''empty journal has a nonzero high-water mark'')
            else Inr ()))"

text \<open>An append changes the journal in place before its last self-check.\<close>

definition journal_append ::
    "digest32 \<Rightarrow> ReconnectJournal \<Rightarrow> ReconnectJournal \<times> (ReconnectJournalError + ReconnectEvent)" where
  "journal_append digest j =
     (case tryE (require_nonzero ''event_digest'' digest) (\<lambda>_.
           tryE (journal_verify j) (\<lambda>_.
           ok_or SequenceExhausted (checked_add (rj_next_sequence j) 1))) of
        Inl e \<Rightarrow> (j, Inl e)
      | Inr nxt \<Rightarrow>
          let kept = (if length (rj_events j) = jc_capacity (rj_config j)
                      then tl (rj_events j) else rj_events j);
              event = \<lparr>rv_sequence = rj_next_sequence j, rv_digest = digest\<rparr>;
              j' = j\<lparr>rj_events := kept @ [event], rj_next_sequence := nxt\<rparr>
          in (j', tryE (journal_verify j') (\<lambda>_. Inr event)))"

definition issue_cursor ::
    "ReconnectJournal \<Rightarrow> u64 \<Rightarrow> (ReconnectIdentity \<Rightarrow> u64 \<Rightarrow> digest32) \<Rightarrow>
     ReconnectJournalError + ReconnectCursor" where
  "issue_cursor j sequence tag =
     tryE (journal_verify j) (\<lambda>_.
     if sequence > latest_sequence j then Inl (CursorAhead sequence (latest_sequence j))
     else let t = tag (jc_identity (rj_config j)) sequence in
       if id_is_zero t then Inl AuthenticatorReturnedZeroTag
       else Inr \<lparr>rk_identity = jc_identity (rj_config j), rk_sequence = sequence, rk_tag = t\<rparr>)"

definition before_first_cursor ::
    "ReconnectJournal \<Rightarrow> (ReconnectIdentity \<Rightarrow> u64 \<Rightarrow> digest32) \<Rightarrow>
     ReconnectJournalError + ReconnectCursor" where
  "before_first_cursor j tag = issue_cursor j 0 tag"

definition latest_cursor ::
    "ReconnectJournal \<Rightarrow> (ReconnectIdentity \<Rightarrow> u64 \<Rightarrow> digest32) \<Rightarrow>
     ReconnectJournalError + ReconnectCursor" where
  "latest_cursor j tag = issue_cursor j (latest_sequence j) tag"

definition replay_after ::
    "ReconnectJournal \<Rightarrow> ReconnectCursor \<Rightarrow> (ReconnectIdentity \<Rightarrow> u64 \<Rightarrow> digest32) \<Rightarrow>
     ReconnectJournalError + ReconnectEvent list" where
  "replay_after j cursor tag =
     tryE (journal_verify j) (\<lambda>_.
     if rk_identity cursor \<noteq> jc_identity (rj_config j) then Inl CursorIdentityMismatch
     else let expected_tag = tag (rk_identity cursor) (rk_sequence cursor) in
     if id_is_zero expected_tag \<or> \<not> constant_time_eq expected_tag (rk_tag cursor)
     then Inl CursorAuthenticationFailed
     else if rk_sequence cursor > latest_sequence j
     then Inl (CursorAhead (rk_sequence cursor) (latest_sequence j))
     else if rj_events j = [] \<or> rk_sequence cursor = latest_sequence j then Inr []
     else
       tryE (ok_or SequenceExhausted (checked_add (rk_sequence cursor) 1)) (\<lambda>requested_next.
       tryE (ok_or (JournalInvariantViolation ''non-empty replay has no oldest event'')
               (oldest_sequence j)) (\<lambda>oldest.
       if requested_next < oldest then Inl (CursorExpired requested_next oldest)
       else Inr (filter (\<lambda>event. rv_sequence event > rk_sequence cursor) (rj_events j)))))"

subsection \<open>The complete log\<close>

text \<open>
  The specification is the whole log: the events of the digests \<open>ds\<close> are numbered from one,
  the journal retains the last \<open>capacity\<close> of them.
\<close>

definition log_events :: "digest32 list \<Rightarrow> ReconnectEvent list" where
  "log_events ds = map (\<lambda>i. \<lparr>rv_sequence = of_nat (Suc i), rv_digest = ds ! i\<rparr>) [0..<length ds]"

definition journal_of :: "ReconnectJournalConfig \<Rightarrow> digest32 list \<Rightarrow> ReconnectJournal" where
  "journal_of cfg ds = \<lparr>rj_config = cfg, rj_next_sequence = of_nat (Suc (length ds)),
     rj_events = drop (length ds - jc_capacity cfg) (log_events ds)\<rparr>"

lemma length_log_events [simp]: "length (log_events ds) = length ds"
  by (simp add: log_events_def)

lemma log_events_Nil [simp]: "log_events [] = []"
  by (simp add: log_events_def)

lemma log_events_snoc:
  "log_events (ds @ [d]) = log_events ds @ [\<lparr>rv_sequence = of_nat (Suc (length ds)), rv_digest = d\<rparr>]"
  by (simp add: log_events_def nth_append del: of_nat_Suc)

lemma constant_time_eq_iff: "constant_time_eq l r \<longleftrightarrow> l = r"
proof -
  have or_zero: "or a b = 0 \<longleftrightarrow> a = 0 \<and> b = 0" for a b :: u8
    by (auto simp: bit_eq_iff bit_simps)
  have xor_zero: "xor a b = 0 \<longleftrightarrow> a = b" for a b :: u8
    by (auto simp: bit_eq_iff bit_simps)
  have "foldl (\<lambda>d (a, b). or d (xor a b)) d0 ps = 0 \<longleftrightarrow> d0 = 0 \<and> (\<forall>(a, b) \<in> set ps. a = b)"
    for d0 :: u8 and ps
    by (induction ps arbitrary: d0) (auto simp: or_zero xor_zero)
  then have "constant_time_eq l r \<longleftrightarrow> (\<forall>(a, b) \<in> set (zip (to_be_bytes l) (to_be_bytes r)). a = b)"
    by (simp add: constant_time_eq_def)
  also have "\<dots> \<longleftrightarrow> to_be_bytes l = to_be_bytes r"
    by (auto simp: set_zip list_eq_iff_nth_eq)
  also have "\<dots> \<longleftrightarrow> l = r" by (auto intro: to_be_bytes_inject)
  finally show ?thesis .
qed

definition valid_log :: "ReconnectJournalConfig \<Rightarrow> digest32 list \<Rightarrow> bool" where
  "valid_log cfg ds \<longleftrightarrow> 0 < jc_capacity cfg \<and> jc_capacity cfg \<le> MAX_RECONNECT_JOURNAL_CAPACITY \<and>
     0 \<notin> set ds \<and> length ds + 1 < 2 ^ 64"

lemma verify_window:
  assumes "0 \<notin> set ds"
  shows "foldE verify_event (drop k (log_events ds)) None =
    Inr (if k < length ds then Some (of_nat (length ds)) else None)"
  using assms
proof (induction ds rule: rev_induct)
  case Nil
  then show ?case by (simp add: log_events_def)
next
  case (snoc d ds)
  have app: "foldE f (xs @ [x]) s = tryE (foldE f xs s) (f x)"
    for f :: "'b \<Rightarrow> 'c \<Rightarrow> 'd + 'c" and xs x s
    by (induction xs arbitrary: s) (auto simp: tryE_def split: sum.split)
  from snoc show ?case
    by (cases "k \<le> length ds") (auto simp: log_events_snoc app verify_event_def less_Suc_eq_le)
qed

lemma of_nat_Suc_nonzero: "Suc n < 2 ^ 64 \<Longrightarrow> (of_nat (Suc n) :: u64) \<noteq> 0"
  by (simp add: word_unat_eq_iff unat_of_nat del: of_nat_Suc)

lemma latest_journal_of: "length ds + 1 < 2 ^ 64 \<Longrightarrow> latest_sequence (journal_of cfg ds) = of_nat (length ds)"
  using of_nat_Suc_nonzero [of "length ds"] by (simp add: latest_sequence_def journal_of_def)

lemma journal_of_simps [simp]:
  "rj_config (journal_of cfg ds) = cfg"
  "rj_events (journal_of cfg ds) = drop (length ds - jc_capacity cfg) (log_events ds)"
  "rj_next_sequence (journal_of cfg ds) = of_nat (Suc (length ds))"
  by (simp_all add: journal_of_def del: of_nat_Suc)

lemma journal_of_verify: "valid_log cfg ds \<Longrightarrow> journal_verify (journal_of cfg ds) = Inr ()"
  by (cases "ds = []") (auto simp: journal_verify_def valid_log_def verify_window latest_journal_of)

lemma journal_append_of:
  assumes "valid_log cfg (ds @ [d])"
  shows "journal_append d (journal_of cfg ds) =
    (journal_of cfg (ds @ [d]), Inr \<lparr>rv_sequence = of_nat (Suc (length ds)), rv_digest = d\<rparr>)"
proof -
  have "valid_log cfg ds" using assms by (simp add: valid_log_def)
  then have v: "journal_verify (journal_of cfg ds) = Inr ()" by (rule journal_of_verify)
  have "unat (of_nat (Suc (length ds)) :: u64) = Suc (length ds)"
    using assms by (intro unat_of_nat_eq) (simp add: valid_log_def)
  then have add: "checked_add (rj_next_sequence (journal_of cfg ds)) 1 = Some (of_nat (Suc (Suc (length ds))))"
    using assms by (simp add: checked_add_one_Some valid_log_def unat_of_nat_eq del: of_nat_Suc)
  let ?j = "journal_of cfg ds"
  have "(if length (rj_events ?j) = jc_capacity (rj_config ?j) then tl (rj_events ?j) else rj_events ?j) @
      [\<lparr>rv_sequence = rj_next_sequence ?j, rv_digest = d\<rparr>] = rj_events (journal_of cfg (ds @ [d]))"
    using assms
    by (auto simp: log_events_snoc valid_log_def tl_drop drop_Suc Suc_diff_le simp del: of_nat_Suc)
  then have "?j\<lparr>rj_events := (if length (rj_events ?j) = jc_capacity (rj_config ?j) then tl (rj_events ?j)
        else rj_events ?j) @ [\<lparr>rv_sequence = rj_next_sequence ?j, rv_digest = d\<rparr>],
      rj_next_sequence := of_nat (Suc (Suc (length ds)))\<rparr> = journal_of cfg (ds @ [d])"
    by (simp add: journal_of_def del: of_nat_Suc)
  note step = this
  have "d \<noteq> 0" using assms by (auto simp: valid_log_def)
  then have guard: "tryE (require_nonzero ''event_digest'' d) (\<lambda>_. tryE (journal_verify ?j) (\<lambda>_.
      ok_or SequenceExhausted (checked_add (rj_next_sequence ?j) 1))) = Inr (of_nat (Suc (Suc (length ds))))"
    by (simp add: v add [unfolded journal_of_simps] require_nonzero_def del: of_nat_Suc)
  show ?thesis
    unfolding journal_append_def guard sum.case Let_def step journal_of_verify [OF assms] by simp
qed

lemma of_nat_less_u64:
  "a < 2 ^ 64 \<Longrightarrow> b < 2 ^ 64 \<Longrightarrow> (of_nat a :: u64) < of_nat b \<longleftrightarrow> a < b"
  by (simp add: word_less_nat_alt unat_of_nat_eq)

lemma of_nat_eq_u64:
  "a < 2 ^ 64 \<Longrightarrow> b < 2 ^ 64 \<Longrightarrow> (of_nat a :: u64) = of_nat b \<longleftrightarrow> a = b"
  by (simp add: word_unat_eq_iff unat_of_nat_eq)

lemma filter_upt_ge: "k \<le> n \<Longrightarrow> n \<le> m \<Longrightarrow> filter (\<lambda>i. n \<le> i) [k..<m] = [n..<m]"
proof -
  assume "k \<le> n" "n \<le> m"
  then have "[k..<m] = [k..<n] @ [n..<m]" using upt_add_eq_append [of k n "m - n"] by simp
  then show ?thesis by (simp add: filter_True filter_False)
qed

lemma events_after:
  assumes "k \<le> n" "n \<le> length ds" "length ds + 1 < 2 ^ 64"
  shows "filter (\<lambda>e. rv_sequence e > of_nat n) (drop k (log_events ds)) = drop n (log_events ds)"
proof -
  have "filter (\<lambda>e. rv_sequence e > of_nat n) (drop k (log_events ds)) =
      map (\<lambda>i. \<lparr>rv_sequence = of_nat (Suc i), rv_digest = ds ! i\<rparr>)
        (filter (\<lambda>i. (of_nat n :: u64) < of_nat (Suc i)) [k..<length ds])"
    by (simp add: log_events_def drop_map filter_map comp_def del: of_nat_Suc)
  also have "filter (\<lambda>i. (of_nat n :: u64) < of_nat (Suc i)) [k..<length ds] =
      filter (\<lambda>i. n \<le> i) [k..<length ds]"
    using assms by (intro filter_cong) (auto simp: of_nat_less_u64 simp del: of_nat_Suc)
  also have "\<dots> = [n..<length ds]" using assms by (intro filter_upt_ge)
  finally show ?thesis by (simp add: log_events_def drop_map del: of_nat_Suc)
qed

lemma oldest_journal_of:
  assumes "valid_log cfg ds" "ds \<noteq> []"
  shows "oldest_sequence (journal_of cfg ds) = Some (of_nat (Suc (length ds - jc_capacity cfg)))"
proof -
  let ?k = "length ds - jc_capacity cfg"
  have "?k < length ds" using assms by (simp add: valid_log_def)
  then have "drop ?k (log_events ds) = (log_events ds ! ?k) # drop (Suc ?k) (log_events ds)"
    by (intro Cons_nth_drop_Suc [symmetric]) simp
  with \<open>?k < length ds\<close> show ?thesis
    by (simp add: oldest_sequence_def del: of_nat_Suc) (simp add: log_events_def del: of_nat_Suc)
qed

lemma replay_journal_of:
  assumes log: "valid_log cfg ds" and n: "n \<le> length ds"
    and cursor: "rk_identity cursor = jc_identity cfg" "rk_sequence cursor = of_nat n"
      "tag (jc_identity cfg) (of_nat n) = rk_tag cursor" "rk_tag cursor \<noteq> 0"
  shows "replay_after (journal_of cfg ds) cursor tag =
    (if n < length ds - jc_capacity cfg
     then Inl (CursorExpired (of_nat (Suc n)) (of_nat (Suc (length ds - jc_capacity cfg))))
     else Inr (drop n (log_events ds)))"
proof -
  have len: "length ds + 1 < 2 ^ 64" using log by (simp add: valid_log_def)
  have latest: "latest_sequence (journal_of cfg ds) = of_nat (length ds)" using len by (rule latest_journal_of)
  have cmp: "\<not> of_nat n > (of_nat (length ds) :: u64)" "(of_nat n :: u64) = of_nat (length ds) \<longleftrightarrow> n = length ds"
    using n len by (simp_all add: of_nat_less_u64 of_nat_eq_u64)
  have base: "replay_after (journal_of cfg ds) cursor tag =
      (if rj_events (journal_of cfg ds) = [] \<or> n = length ds then Inr [] else
       tryE (ok_or SequenceExhausted (checked_add (of_nat n) 1)) (\<lambda>requested_next.
       tryE (ok_or (JournalInvariantViolation ''non-empty replay has no oldest event'')
               (oldest_sequence (journal_of cfg ds))) (\<lambda>oldest.
       if requested_next < oldest then Inl (CursorExpired requested_next oldest)
       else Inr (filter (\<lambda>event. rv_sequence event > of_nat n) (rj_events (journal_of cfg ds))))))"
    unfolding replay_after_def cursor(1,2) using cursor(3,4) cmp
    by (simp add: journal_of_verify [OF log] constant_time_eq_iff latest)
  show ?thesis
  proof (cases "n = length ds")
    case True
    then show ?thesis by (simp add: base)
  next
    case False
    then have lt: "n < length ds" using n by simp
    then have "ds \<noteq> []" by auto
    have ne: "rj_events (journal_of cfg ds) \<noteq> []" using lt log by (auto simp: valid_log_def)
    have add: "checked_add (of_nat n) 1 = Some (of_nat (Suc n) :: u64)"
      using lt len by (simp add: checked_add_one_Some unat_of_nat_eq del: of_nat_Suc)
    have "(of_nat (Suc n) :: u64) < of_nat (Suc (length ds - jc_capacity cfg)) \<longleftrightarrow>
        n < length ds - jc_capacity cfg"
      using lt len by (subst of_nat_less_u64) auto
    with False ne add oldest_journal_of [OF log \<open>ds \<noteq> []\<close>] events_after [OF _ n len]
    show ?thesis by (simp add: base del: of_nat_Suc)
  qed
qed

lemma journal_run:
  assumes "journal_new cfg = Inr j" "0 \<notin> set ds" "length ds + 1 < 2 ^ 64"
  shows "valid_log cfg ds" "fold (\<lambda>d j. fst (journal_append d j)) ds j = journal_of cfg ds"
proof -
  have cap: "0 < jc_capacity cfg" "jc_capacity cfg \<le> MAX_RECONNECT_JOURNAL_CAPACITY"
    and j: "j = journal_of cfg []"
    using assms(1) by (auto simp: journal_new_def journal_of_def split: if_splits)
  then show log: "valid_log cfg ds" using assms by (simp add: valid_log_def)
  show "fold (\<lambda>d j. fst (journal_append d j)) ds j = journal_of cfg ds"
    using assms(2,3)
  proof (induction ds rule: rev_induct)
    case Nil
    then show ?case by (simp add: j)
  next
    case (snoc d ds)
    then have "valid_log cfg (ds @ [d])" using cap by (simp add: valid_log_def)
    with snoc show ?case by (simp add: journal_append_of)
  qed
qed

text \<open>
  C25: Reconnecting loses and repeats nothing: after the events \<open>ds\<close> were appended to a new
  journal, an issued cursor at any position \<open>n\<close> replays, after any further events \<open>es\<close>, exactly
  the events after position \<open>n\<close> of the whole log, in order; or it is refused as expired, which
  happens precisely when the next event it needs is no longer among the last \<open>capacity\<close>.
\<close>

theorem reconnect_replays_the_log:
  fixes es :: "digest32 list"
  assumes "journal_new cfg = Inr j0" and "0 \<notin> set (ds @ es)" and "length (ds @ es) + 1 < 2 ^ 64"
    and "n \<le> length ds"
  defines "append_all \<equiv> \<lambda>xs j. fold (\<lambda>d j. fst (journal_append d j)) xs j"
  assumes "issue_cursor (append_all ds j0) (of_nat n) tag = Inr cursor"
  shows "replay_after (append_all (ds @ es) j0) cursor tag =
    (if n + jc_capacity cfg < length (ds @ es)
     then Inl (CursorExpired (of_nat (Suc n)) (of_nat (Suc (length (ds @ es) - jc_capacity cfg))))
     else Inr (drop n (log_events (ds @ es))))"
proof -
  have run: "append_all ds j0 = journal_of cfg ds" "append_all (ds @ es) j0 = journal_of cfg (ds @ es)"
    and log: "valid_log cfg (ds @ es)"
    using journal_run [OF assms(1), of ds] journal_run [OF assms(1), of "ds @ es"] assms(2,3)
    unfolding append_all_def by simp_all
  have "rk_identity cursor = jc_identity cfg" "rk_sequence cursor = of_nat n"
    "tag (jc_identity cfg) (of_nat n) = rk_tag cursor" "rk_tag cursor \<noteq> 0"
    using assms(6) by (auto simp: run issue_cursor_def Let_def split: if_splits)
  moreover have "n \<le> length (ds @ es)" using assms(4) by simp
  ultimately show ?thesis using replay_journal_of [OF log, of n cursor tag]
    by (simp add: run less_diff_conv del: of_nat_Suc)
qed

definition example_journal_config :: ReconnectJournalConfig where
  "example_journal_config = \<lparr>jc_capacity = 1, jc_identity = \<lparr>ri_journal_id = 1, ri_stream_id = 1,
     ri_session_generation = 1, ri_producer_epoch = 1\<rparr>\<rparr>"

theorem reconnect_replays_the_log_witness:
  "\<exists>j0 cursor. journal_new example_journal_config = Inr j0 \<and>
     issue_cursor (fst (journal_append 5 j0)) 1 (\<lambda>_ _. 9) = Inr cursor \<and>
     replay_after (fst (journal_append 7 (fst (journal_append 5 j0)))) cursor (\<lambda>_ _. 9) =
       Inr [\<lparr>rv_sequence = 2, rv_digest = 7\<rparr>]"
proof -
  let ?cfg = example_journal_config
  obtain j0 where j0: "journal_new ?cfg = Inr j0"
    by (simp add: journal_new_def example_journal_config_def MAX_RECONNECT_JOURNAL_CAPACITY_def)
  note run = journal_run [OF j0, of "[5]"]
  have "issue_cursor (fst (journal_append 5 j0)) 1 (\<lambda>_ _. 9) =
      Inr \<lparr>rk_identity = jc_identity ?cfg, rk_sequence = 1, rk_tag = 9\<rparr>"
    using run journal_of_verify [of ?cfg "[5]"] latest_journal_of [of "[5]" ?cfg]
    by (simp add: issue_cursor_def Let_def)
  moreover from this reconnect_replays_the_log [OF j0, of "[5]" "[7]" 1 "\<lambda>_ _. 9"]
  have "replay_after (fst (journal_append 7 (fst (journal_append 5 j0))))
      \<lparr>rk_identity = jc_identity ?cfg, rk_sequence = 1, rk_tag = 9\<rparr> (\<lambda>_ _. 9) =
      Inr (drop 1 (log_events [5, 7]))"
    by (simp add: example_journal_config_def)
  moreover have "drop 1 (log_events [5, 7]) = [\<lparr>rv_sequence = 2, rv_digest = 7\<rparr>]"
    by (simp add: log_events_def upt_rec)
  ultimately show ?thesis using j0 by auto
qed

end
