(* ===== verification/Disconnect_Journal.thy ===== *)
theory Disconnect_Journal
  imports Contracts Machine
begin

text \<open>
  The disconnect-effect journal (\<open>crates/trnm-presence-router-v2/src/disconnect_journal.rs\<close>):
  intents to close a socket are leased to workers and dispatched; once a dispatch may have
  reached the transport, only verified evidence moves the intent on. Every intent reserves a
  budget of verifier receipts when it is admitted. The outcome verifier is a trait and an
  argument. A \<open>LeaseToken\<close> is the lease generation it was made from. Failing operations
  change nothing, which \<open>commit_candidate\<close> makes explicit.
\<close>

subsection \<open>Constants and errors\<close>

definition MAX_DISCONNECT_ACTIVE_RECORDS :: usize where "MAX_DISCONNECT_ACTIVE_RECORDS = 65536"
definition MAX_DISCONNECT_TOMBSTONES :: usize where "MAX_DISCONNECT_TOMBSTONES = 262144"
definition MAX_DISCONNECT_ATTEMPTS :: u32 where "MAX_DISCONNECT_ATTEMPTS = 1024"
definition DISCONNECT_VERIFIER_RECEIPTS_PER_ATTEMPT :: usize where
  "DISCONNECT_VERIFIER_RECEIPTS_PER_ATTEMPT = 2"
definition MAX_DISCONNECT_VERIFIER_RECEIPTS :: usize where "MAX_DISCONNECT_VERIFIER_RECEIPTS = 262144"

datatype DisconnectJournalError =
    InvalidCapacity
  | DCapacityTooLarge string usize usize
  | AttemptLimitTooLarge u32 u32
  | DZeroIdentifier string
  | DZeroDigest string
  | ActiveCapacityExceeded usize
  | TombstoneCapacityExceeded usize
  | UnknownIntent u64
  | ArchivedIntent u64
  | ConflictingIntent u64
  | NotPending u64
  | LeaseMismatch u64
  | NotDispatched u64
  | AmbiguousCompletionRequiresReconciliation u64
  | OutcomeBindingMismatch u64
  | OutcomeVerificationFailed u64
  | OutcomeMismatch u64
  | OutcomeReceiptReused u64 u64
  | VerifierReceiptReused u64 u64
  | VerifierReceiptBudgetOverflow
  | VerifierReceiptCapacityExceeded usize
  | VerifierReceiptReservationMissing u64
  | DisconnectInvariantViolation string
  | Terminal u64
  | NotTerminal u64
  | LeaseGenerationExhausted
  | AttemptExhausted
  | NonIncreasingJournalEpoch u64 u64
  | ActiveRecordsPreventEpochAdvance usize

definition disconnect_require_nonzero :: "string \<Rightarrow> 'a::len word \<Rightarrow> DisconnectJournalError + unit" where
  "disconnect_require_nonzero field v = (if id_is_zero v then Inl (DZeroDigest field) else Inr ())"

definition DisconnectJournalId_new :: "id16 \<Rightarrow> DisconnectJournalError + id16" where
  "DisconnectJournalId_new v = tryE (disconnect_require_nonzero ''journal_id'' v) (\<lambda>_. Inr v)"

definition DisconnectJournalEpoch_new :: "u64 \<Rightarrow> DisconnectJournalError + u64" where
  "DisconnectJournalEpoch_new v = (if v = 0 then Inl (DZeroIdentifier ''journal_epoch'') else Inr v)"

definition DisconnectIntentId_new :: "u64 \<Rightarrow> DisconnectJournalError + u64" where
  "DisconnectIntentId_new v = (if v = 0 then Inl (DZeroIdentifier ''intent_id'') else Inr v)"

definition WorkerId_new :: "u64 \<Rightarrow> DisconnectJournalError + u64" where
  "WorkerId_new v = (if v = 0 then Inl (DZeroIdentifier ''worker_id'') else Inr v)"

subsection \<open>Data\<close>

record DisconnectOperation =
  do_socket_generation :: u64
  do_operation_digest :: digest32

definition operation_validate :: "DisconnectOperation \<Rightarrow> DisconnectJournalError + DisconnectOperation" where
  "operation_validate x =
     (if do_socket_generation x = 0 then Inl (DZeroIdentifier ''socket_generation'')
      else tryE (disconnect_require_nonzero ''operation_digest'' (do_operation_digest x)) (\<lambda>_. Inr x))"

record DisconnectDispatchBinding =
  db_journal_id :: id16
  db_journal_epoch :: u64
  db_intent_id :: u64
  db_operation :: DisconnectOperation
  db_attempt :: u32
  db_worker :: u64
  db_lease_token :: u64
  db_endpoint_digest :: digest32

datatype DisconnectOutcomeKind = KApplied | KDefinitelyNotApplied | KRejected | KUnknown

record DisconnectOutcomeEvidence =
  ev_binding :: DisconnectDispatchBinding
  ev_kind :: DisconnectOutcomeKind
  ev_outcome_digest :: digest32
  ev_verifier_receipt_digest :: digest32

definition evidence_validate ::
    "DisconnectOutcomeEvidence \<Rightarrow> DisconnectJournalError + DisconnectOutcomeEvidence" where
  "evidence_validate ev =
     tryE (disconnect_require_nonzero ''outcome_digest'' (ev_outcome_digest ev)) (\<lambda>_.
     tryE (disconnect_require_nonzero ''verifier_receipt_digest'' (ev_verifier_receipt_digest ev)) (\<lambda>_.
     Inr ev))"

record DisconnectUnknownEvidence =
  ue_outcome_digest :: digest32
  ue_verifier_receipt_digest :: digest32

datatype DisconnectState =
    DPending
  | DLeased u64 u64
  | DDispatched DisconnectDispatchBinding
  | DIndeterminate DisconnectDispatchBinding "DisconnectUnknownEvidence option"
  | DApplied DisconnectDispatchBinding digest32 digest32
  | DRejected DisconnectDispatchBinding digest32 digest32
  | DDeadLetter digest32

record DisconnectRecord =
  dr_id :: u64
  dr_operation :: DisconnectOperation
  dr_attempt :: u32
  dr_lease_generation :: u64
  dr_state :: DisconnectState

record DisconnectArchiveTombstone =
  dt_journal_id :: id16
  dt_journal_epoch :: u64
  dt_id :: u64
  dt_operation :: DisconnectOperation
  dt_terminal_digest :: digest32
  dt_archive_digest :: digest32

record DisconnectJournalConfig =
  dc_journal_id :: id16
  dc_epoch :: u64
  dc_active_capacity :: usize
  dc_tombstone_capacity :: usize
  dc_max_attempts :: u32

datatype RetryDisposition = RetryPending | RetryDeadLettered

datatype ReconciliationDisposition =
    ReconciledApplied | ReconciledPending | ReconciledRejected | ReconciledIndeterminate
  | ReconciledDeadLettered

definition verifier_receipts_per_intent :: "DisconnectJournalConfig \<Rightarrow> DisconnectJournalError + usize" where
  "verifier_receipts_per_intent c =
     ok_or VerifierReceiptBudgetOverflow
       (usize_checked_mul (unat (dc_max_attempts c)) DISCONNECT_VERIFIER_RECEIPTS_PER_ATTEMPT)"

definition config_receipt_capacity :: "DisconnectJournalConfig \<Rightarrow> DisconnectJournalError + usize" where
  "config_receipt_capacity c =
     tryE (verifier_receipts_per_intent c) (\<lambda>n.
       ok_or VerifierReceiptBudgetOverflow (usize_checked_mul (dc_tombstone_capacity c) n))"

definition disconnect_config_validate ::
    "DisconnectJournalConfig \<Rightarrow> DisconnectJournalError + DisconnectJournalConfig" where
  "disconnect_config_validate c =
     (if dc_active_capacity c = 0 \<or> dc_tombstone_capacity c = 0 \<or> dc_max_attempts c = 0
      then Inl InvalidCapacity
      else if dc_active_capacity c > MAX_DISCONNECT_ACTIVE_RECORDS
      then Inl (DCapacityTooLarge ''active_capacity'' (dc_active_capacity c) MAX_DISCONNECT_ACTIVE_RECORDS)
      else if dc_tombstone_capacity c > MAX_DISCONNECT_TOMBSTONES
      then Inl (DCapacityTooLarge ''tombstone_capacity'' (dc_tombstone_capacity c) MAX_DISCONNECT_TOMBSTONES)
      else if dc_max_attempts c > MAX_DISCONNECT_ATTEMPTS
      then Inl (AttemptLimitTooLarge (dc_max_attempts c) MAX_DISCONNECT_ATTEMPTS)
      else tryE (config_receipt_capacity c) (\<lambda>capacity.
        if capacity > MAX_DISCONNECT_VERIFIER_RECEIPTS
        then Inl (DCapacityTooLarge ''verifier_receipt_capacity'' capacity MAX_DISCONNECT_VERIFIER_RECEIPTS)
        else Inr c))"

subsection \<open>The journal\<close>

record DisconnectJournal =
  dj_config :: DisconnectJournalConfig
  dj_records :: "(u64, DisconnectRecord) fmap"
  dj_tombstones :: "(u64, DisconnectArchiveTombstone) fmap"
  dj_outcome_receipt_owners :: "(digest32, u64) fmap"
  dj_verifier_receipt_owners :: "(digest32, u64) fmap"
  dj_reservations :: "(u64, usize) fmap"
  dj_verifier_receipt_capacity :: usize
  dj_last_epoch_checkpoint :: "digest32 option"

definition disconnect_new :: "DisconnectJournalConfig \<Rightarrow> DisconnectJournalError + DisconnectJournal" where
  "disconnect_new config =
     tryE (disconnect_config_validate config) (\<lambda>config.
     tryE (config_receipt_capacity config) (\<lambda>capacity.
     Inr \<lparr>dj_config = config, dj_records = fmempty, dj_tombstones = fmempty,
          dj_outcome_receipt_owners = fmempty, dj_verifier_receipt_owners = fmempty,
          dj_reservations = fmempty, dj_verifier_receipt_capacity = capacity,
          dj_last_epoch_checkpoint = None\<rparr>))"

definition verifier_receipt_reserved :: "DisconnectJournal \<Rightarrow> usize" where
  "verifier_receipt_reserved j = sum_list (map snd (entries_in_order (dj_reservations j)))"

definition disconnect_require :: "DisconnectJournal \<Rightarrow> u64 \<Rightarrow> DisconnectJournalError + DisconnectRecord" where
  "disconnect_require j i =
     (case fmlookup (dj_records j) i of
        Some rec \<Rightarrow> Inr rec
      | None \<Rightarrow> if i |\<in>| fmdom (dj_tombstones j) then Inl (ArchivedIntent i) else Inl (UnknownIntent i))"

definition require_fence ::
    "DisconnectJournal \<Rightarrow> u64 \<Rightarrow> u64 \<Rightarrow> u64 \<Rightarrow> DisconnectJournalError + DisconnectRecord" where
  "require_fence j i worker token =
     tryE (disconnect_require j i) (\<lambda>current.
     case dr_state current of
       DLeased owner lease \<Rightarrow>
         if owner = worker \<and> lease = token then Inr current else Inl (LeaseMismatch i)
     | DApplied _ _ _ \<Rightarrow> Inl (Terminal i)
     | DRejected _ _ _ \<Rightarrow> Inl (Terminal i)
     | DDeadLetter _ \<Rightarrow> Inl (Terminal i)
     | DDispatched _ \<Rightarrow> Inl (AmbiguousCompletionRequiresReconciliation i)
     | DIndeterminate _ _ \<Rightarrow> Inl (AmbiguousCompletionRequiresReconciliation i)
     | DPending \<Rightarrow> Inl (LeaseMismatch i))"

definition sum_values :: "usize list \<Rightarrow> usize option" where
  "sum_values vs = foldl (\<lambda>total v. case total of None \<Rightarrow> None | Some t \<Rightarrow> usize_checked_add t v)
     (Some 0) vs"

definition require_new_receipt_reservation :: "DisconnectJournal \<Rightarrow> DisconnectJournalError + usize" where
  "require_new_receipt_reservation j =
     tryE (verifier_receipts_per_intent (dj_config j)) (\<lambda>reservation.
     tryE (ok_or VerifierReceiptBudgetOverflow
             (sum_values (map snd (entries_in_order (dj_reservations j))))) (\<lambda>reserved.
     tryE (ok_or VerifierReceiptBudgetOverflow
             (case usize_checked_add (fmap_len (dj_verifier_receipt_owners j)) reserved of
                None \<Rightarrow> None | Some used \<Rightarrow> usize_checked_add used reservation)) (\<lambda>projected.
     if projected > dj_verifier_receipt_capacity j
     then Inl (VerifierReceiptCapacityExceeded (dj_verifier_receipt_capacity j))
     else Inr reservation)))"

definition consume_receipt_reservation ::
    "u64 \<Rightarrow> DisconnectJournal \<Rightarrow> DisconnectJournalError + DisconnectJournal" where
  "consume_receipt_reservation i j =
     tryE (ok_or (VerifierReceiptReservationMissing i) (fmlookup (dj_reservations j) i)) (\<lambda>remaining.
     if remaining = 0
     then Inl (VerifierReceiptCapacityExceeded (dj_verifier_receipt_capacity j))
     else Inr (j\<lparr>dj_reservations := fmupd i (remaining - 1) (dj_reservations j)\<rparr>))"

definition require_unique_outcome_receipt ::
    "DisconnectJournal \<Rightarrow> u64 \<Rightarrow> digest32 \<Rightarrow> DisconnectJournalError + unit" where
  "require_unique_outcome_receipt j i receipt =
     (case fmlookup (dj_outcome_receipt_owners j) receipt of
        Some owner \<Rightarrow> if owner \<noteq> i then Inl (OutcomeReceiptReused owner i) else Inr ()
      | None \<Rightarrow> Inr ())"

definition require_unique_verifier_receipt ::
    "DisconnectJournal \<Rightarrow> u64 \<Rightarrow> digest32 \<Rightarrow> DisconnectJournalError + unit" where
  "require_unique_verifier_receipt j i receipt =
     (case fmlookup (dj_verifier_receipt_owners j) receipt of
        Some owner \<Rightarrow> Inl (VerifierReceiptReused owner i)
      | None \<Rightarrow> Inr ())"

subsection \<open>Operations\<close>

definition disconnect_insert ::
    "u64 \<Rightarrow> DisconnectOperation \<Rightarrow> DisconnectJournal \<Rightarrow>
     DisconnectJournal \<times> (DisconnectJournalError + DisconnectRecord)" where
  "disconnect_insert i operation j =
     commit_candidate j
      (tryE (operation_validate operation) (\<lambda>operation.
       case fmlookup (dj_records j) i of
         Some existing \<Rightarrow>
           if dr_operation existing = operation then Inr (j, existing) else Inl (ConflictingIntent i)
       | None \<Rightarrow>
         if i |\<in>| fmdom (dj_tombstones j) then Inl (ArchivedIntent i)
         else if min (fmap_len (dj_records j) + fmap_len (dj_tombstones j)) (2 ^ 64 - 1)
                \<ge> dc_tombstone_capacity (dj_config j)
         then Inl (TombstoneCapacityExceeded (dc_tombstone_capacity (dj_config j)))
         else tryE (require_new_receipt_reservation j) (\<lambda>reservation.
           if fmap_len (dj_records j) \<ge> dc_active_capacity (dj_config j)
           then Inl (ActiveCapacityExceeded (dc_active_capacity (dj_config j)))
           else let record = \<lparr>dr_id = i, dr_operation = operation, dr_attempt = 0,
                              dr_lease_generation = 0, dr_state = DPending\<rparr> in
             Inr (j\<lparr>dj_records := fmupd i record (dj_records j),
                    dj_reservations := fmupd i reservation (dj_reservations j)\<rparr>, record))))"

definition lease_guard :: "u64 \<Rightarrow> DisconnectState \<Rightarrow> DisconnectJournalError + unit" where
  "lease_guard i st = (case st of
       DPending \<Rightarrow> Inr ()
     | DApplied _ _ _ \<Rightarrow> Inl (Terminal i)
     | DRejected _ _ _ \<Rightarrow> Inl (Terminal i)
     | DDeadLetter _ \<Rightarrow> Inl (Terminal i)
     | DDispatched _ \<Rightarrow> Inl (AmbiguousCompletionRequiresReconciliation i)
     | DIndeterminate _ _ \<Rightarrow> Inl (AmbiguousCompletionRequiresReconciliation i)
     | DLeased _ _ \<Rightarrow> Inl (NotPending i))"

definition disconnect_lease ::
    "u64 \<Rightarrow> u64 \<Rightarrow> DisconnectJournal \<Rightarrow>
     DisconnectJournal \<times> (DisconnectJournalError + DisconnectRecord)" where
  "disconnect_lease i worker j =
     commit_candidate j
      (tryE (disconnect_require j i) (\<lambda>current.
       tryE (lease_guard i (dr_state current)) (\<lambda>_.
       tryE (ok_or LeaseGenerationExhausted (checked_add (dr_lease_generation current) 1)) (\<lambda>lease_generation.
       tryE (ok_or AttemptExhausted (checked_add (dr_attempt current) 1)) (\<lambda>attempt.
       let record = current\<lparr>dr_lease_generation := lease_generation, dr_attempt := attempt,
                            dr_state := DLeased worker lease_generation\<rparr> in
       Inr (j\<lparr>dj_records := fmupd i record (dj_records j)\<rparr>, record))))))"

definition mark_dispatched ::
    "u64 \<Rightarrow> u64 \<Rightarrow> u64 \<Rightarrow> digest32 \<Rightarrow> DisconnectJournal \<Rightarrow>
     DisconnectJournal \<times> (DisconnectJournalError + DisconnectRecord)" where
  "mark_dispatched i worker token endpoint_digest j =
     commit_candidate j
      (tryE (disconnect_require_nonzero ''endpoint_digest'' endpoint_digest) (\<lambda>_.
       tryE (require_fence j i worker token) (\<lambda>current.
       let binding = \<lparr>db_journal_id = dc_journal_id (dj_config j),
                      db_journal_epoch = dc_epoch (dj_config j), db_intent_id = i,
                      db_operation = dr_operation current, db_attempt = dr_attempt current,
                      db_worker = worker, db_lease_token = token,
                      db_endpoint_digest = endpoint_digest\<rparr>;
           record = current\<lparr>dr_state := DDispatched binding\<rparr> in
       Inr (j\<lparr>dj_records := fmupd i record (dj_records j)\<rparr>, record))))"

definition mark_transport_lost ::
    "u64 \<Rightarrow> u64 \<Rightarrow> u64 \<Rightarrow> DisconnectJournal \<Rightarrow>
     DisconnectJournal \<times> (DisconnectJournalError + DisconnectRecord)" where
  "mark_transport_lost i worker token j =
     commit_candidate j
      (tryE (disconnect_require j i) (\<lambda>current.
       case dr_state current of
         DDispatched binding \<Rightarrow>
           if db_worker binding = worker \<and> db_lease_token binding = token
           then let record = current\<lparr>dr_state := DIndeterminate binding None\<rparr> in
             Inr (j\<lparr>dj_records := fmupd i record (dj_records j)\<rparr>, record)
           else Inl (NotDispatched i)
       | DIndeterminate binding _ \<Rightarrow>
           if db_worker binding = worker \<and> db_lease_token binding = token
           then Inr (j, current) else Inl (NotDispatched i)
       | DApplied _ _ _ \<Rightarrow> Inl (Terminal i)
       | DRejected _ _ _ \<Rightarrow> Inl (Terminal i)
       | DDeadLetter _ \<Rightarrow> Inl (Terminal i)
       | DPending \<Rightarrow> Inl (NotDispatched i)
       | DLeased _ _ \<Rightarrow> Inl (NotDispatched i)))"

definition retry_guard :: "u64 \<Rightarrow> DisconnectState \<Rightarrow> DisconnectJournalError + unit" where
  "retry_guard i st = (case st of
       DDispatched _ \<Rightarrow> Inl (AmbiguousCompletionRequiresReconciliation i)
     | DIndeterminate _ _ \<Rightarrow> Inl (AmbiguousCompletionRequiresReconciliation i)
     | DApplied _ _ _ \<Rightarrow> Inl (Terminal i)
     | DRejected _ _ _ \<Rightarrow> Inl (Terminal i)
     | DDeadLetter _ \<Rightarrow> Inl (Terminal i)
     | DPending \<Rightarrow> Inr ()
     | DLeased _ _ \<Rightarrow> Inr ())"

definition retry_before_dispatch ::
    "u64 \<Rightarrow> u64 \<Rightarrow> u64 \<Rightarrow> digest32 \<Rightarrow> DisconnectJournal \<Rightarrow>
     DisconnectJournal \<times> (DisconnectJournalError + DisconnectRecord \<times> RetryDisposition)" where
  "retry_before_dispatch i worker token terminal_reason j =
     commit_candidate j
      (tryE (disconnect_require_nonzero ''terminal_reason'' terminal_reason) (\<lambda>_.
       tryE (disconnect_require j i) (\<lambda>current.
       tryE (retry_guard i (dr_state current)) (\<lambda>_.
       tryE (require_fence j i worker token) (\<lambda>current.
       let (st, disposition) =
             (if dr_attempt current \<ge> dc_max_attempts (dj_config j)
              then (DDeadLetter terminal_reason, RetryDeadLettered) else (DPending, RetryPending));
           record = current\<lparr>dr_state := st\<rparr> in
       Inr (j\<lparr>dj_records := fmupd i record (dj_records j)\<rparr>, (record, disposition)))))))"

definition terminal_replay ::
    "DisconnectRecord \<Rightarrow> DisconnectOutcomeEvidence \<Rightarrow>
     DisconnectJournalError + (DisconnectRecord \<times> ReconciliationDisposition) option" where
  "terminal_replay current ev = (case dr_state current of
       DApplied binding receipt verifier_receipt \<Rightarrow>
         if ev_kind ev = KApplied \<and> ev_binding ev = binding \<and> ev_outcome_digest ev = receipt \<and>
            ev_verifier_receipt_digest ev = verifier_receipt
         then Inr (Some (current, ReconciledApplied)) else Inl (OutcomeMismatch (dr_id current))
     | DRejected binding reason verifier_receipt \<Rightarrow>
         if ev_kind ev = KRejected \<and> ev_binding ev = binding \<and> ev_outcome_digest ev = reason \<and>
            ev_verifier_receipt_digest ev = verifier_receipt
         then Inr (Some (current, ReconciledRejected)) else Inl (OutcomeMismatch (dr_id current))
     | DDeadLetter _ \<Rightarrow> Inl (Terminal (dr_id current))
     | DPending \<Rightarrow> Inr None
     | DLeased _ _ \<Rightarrow> Inr None
     | DDispatched _ \<Rightarrow> Inr None
     | DIndeterminate _ _ \<Rightarrow> Inr None)"

text \<open>
  The dispatch an outcome must belong to. The source marks the terminal states unreachable
  here with a panic, which the last case stands for; that it is not reached is proved.
\<close>

definition expected_binding ::
    "u64 \<Rightarrow> DisconnectState \<Rightarrow> DisconnectJournalError + DisconnectDispatchBinding" where
  "expected_binding i st = (case st of
       DDispatched binding \<Rightarrow> Inr binding
     | DIndeterminate binding _ \<Rightarrow> Inr binding
     | DPending \<Rightarrow> Inl (NotDispatched i)
     | DLeased _ _ \<Rightarrow> Inl (NotDispatched i)
     | _ \<Rightarrow> Inl (DisconnectInvariantViolation ''terminal replay handled above''))"

definition unknown_replay ::
    "u64 \<Rightarrow> DisconnectRecord \<Rightarrow> DisconnectOutcomeEvidence \<Rightarrow>
     DisconnectJournalError + (DisconnectRecord \<times> ReconciliationDisposition) option" where
  "unknown_replay i current ev = (case dr_state current of
       DIndeterminate _ (Some previous) \<Rightarrow>
         if ev_kind ev = KUnknown
         then if ue_outcome_digest previous = ev_outcome_digest ev \<and>
                 ue_verifier_receipt_digest previous = ev_verifier_receipt_digest ev
           then Inr (Some (current, ReconciledIndeterminate)) else Inl (OutcomeMismatch i)
         else if ue_verifier_receipt_digest previous = ev_verifier_receipt_digest ev
         then Inl (OutcomeMismatch i) else Inr None
     | _ \<Rightarrow> Inr None)"

definition reconcile_outcome ::
    "DisconnectJournal \<Rightarrow> u64 \<Rightarrow> DisconnectRecord \<Rightarrow> DisconnectDispatchBinding \<Rightarrow>
     DisconnectOutcomeEvidence \<Rightarrow> DisconnectJournalError + DisconnectState \<times> ReconciliationDisposition" where
  "reconcile_outcome j i current binding ev = (case ev_kind ev of
       KApplied \<Rightarrow> tryE (require_unique_outcome_receipt j i (ev_outcome_digest ev)) (\<lambda>_.
         Inr (DApplied binding (ev_outcome_digest ev) (ev_verifier_receipt_digest ev), ReconciledApplied))
     | KDefinitelyNotApplied \<Rightarrow>
         if dr_attempt current \<ge> dc_max_attempts (dj_config j)
         then Inr (DDeadLetter (ev_outcome_digest ev), ReconciledDeadLettered)
         else Inr (DPending, ReconciledPending)
     | KRejected \<Rightarrow>
         Inr (DRejected binding (ev_outcome_digest ev) (ev_verifier_receipt_digest ev), ReconciledRejected)
     | KUnknown \<Rightarrow>
         Inr (DIndeterminate binding (Some \<lparr>ue_outcome_digest = ev_outcome_digest ev,
                ue_verifier_receipt_digest = ev_verifier_receipt_digest ev\<rparr>), ReconciledIndeterminate))"

definition reconcile_apply ::
    "u64 \<Rightarrow> DisconnectRecord \<Rightarrow> DisconnectDispatchBinding \<Rightarrow> DisconnectOutcomeEvidence \<Rightarrow> DisconnectJournal \<Rightarrow>
     DisconnectJournalError + DisconnectJournal \<times> DisconnectRecord \<times> ReconciliationDisposition" where
  "reconcile_apply i current binding ev j =
     tryE (require_unique_verifier_receipt j i (ev_verifier_receipt_digest ev)) (\<lambda>_.
     tryE (reconcile_outcome j i current binding ev) (\<lambda>(st, disposition).
     tryE (consume_receipt_reservation i j) (\<lambda>j'.
     let record = current\<lparr>dr_state := st\<rparr> in
     Inr (j'\<lparr>dj_verifier_receipt_owners :=
               fmupd (ev_verifier_receipt_digest ev) i (dj_verifier_receipt_owners j'),
             dj_outcome_receipt_owners :=
               (if ev_kind ev = KApplied
                then fmupd (ev_outcome_digest ev) i (dj_outcome_receipt_owners j')
                else dj_outcome_receipt_owners j'),
             dj_records := fmupd i record (dj_records j')\<rparr>, (record, disposition)))))"

definition reconcile ::
    "u64 \<Rightarrow> DisconnectOutcomeEvidence \<Rightarrow> (DisconnectOutcomeEvidence \<Rightarrow> bool) \<Rightarrow> DisconnectJournal \<Rightarrow>
     DisconnectJournal \<times> (DisconnectJournalError + DisconnectRecord \<times> ReconciliationDisposition)" where
  "reconcile i ev verify j =
     commit_candidate j
      (tryE (evidence_validate ev) (\<lambda>ev.
       tryE (disconnect_require j i) (\<lambda>current.
       tryE (terminal_replay current ev) (\<lambda>replayed. case replayed of
         Some res \<Rightarrow> Inr (j, res)
       | None \<Rightarrow>
         tryE (expected_binding i (dr_state current)) (\<lambda>binding.
         if ev_binding ev \<noteq> binding \<or> db_intent_id (ev_binding ev) \<noteq> i
         then Inl (OutcomeBindingMismatch i)
         else tryE (unknown_replay i current ev) (\<lambda>seen. case seen of
           Some res \<Rightarrow> Inr (j, res)
         | None \<Rightarrow>
           if \<not> verify ev then Inl (OutcomeVerificationFailed i)
           else reconcile_apply i current binding ev j))))))"

definition terminal_digest :: "u64 \<Rightarrow> DisconnectState \<Rightarrow> DisconnectJournalError + digest32" where
  "terminal_digest i st = (case st of
       DApplied _ receipt _ \<Rightarrow> Inr receipt
     | DRejected _ reason _ \<Rightarrow> Inr reason
     | DDeadLetter reason \<Rightarrow> Inr reason
     | _ \<Rightarrow> Inl (NotTerminal i))"

definition archive_terminal ::
    "u64 \<Rightarrow> digest32 \<Rightarrow> DisconnectJournal \<Rightarrow>
     DisconnectJournal \<times> (DisconnectJournalError + DisconnectArchiveTombstone)" where
  "archive_terminal i archive_digest j =
     commit_candidate j
      (tryE (disconnect_require_nonzero ''archive_digest'' archive_digest) (\<lambda>_.
       if fmap_len (dj_tombstones j) \<ge> dc_tombstone_capacity (dj_config j)
       then Inl (TombstoneCapacityExceeded (dc_tombstone_capacity (dj_config j)))
       else tryE (disconnect_require j i) (\<lambda>current.
       tryE (terminal_digest i (dr_state current)) (\<lambda>digest.
       if i |\<notin>| fmdom (dj_reservations j) then Inl (VerifierReceiptReservationMissing i)
       else let tombstone = \<lparr>dt_journal_id = dc_journal_id (dj_config j),
                  dt_journal_epoch = dc_epoch (dj_config j), dt_id = i,
                  dt_operation = dr_operation current, dt_terminal_digest = digest,
                  dt_archive_digest = archive_digest\<rparr> in
         Inr (j\<lparr>dj_records := fmdrop i (dj_records j),
                dj_reservations := fmdrop i (dj_reservations j),
                dj_tombstones := fmupd i tombstone (dj_tombstones j)\<rparr>, tombstone)))))"

definition advance_epoch ::
    "u64 \<Rightarrow> digest32 \<Rightarrow> DisconnectJournal \<Rightarrow> DisconnectJournal \<times> (DisconnectJournalError + unit)" where
  "advance_epoch next_epoch checkpoint_digest j =
     commit_candidate j
      (tryE (disconnect_require_nonzero ''checkpoint_digest'' checkpoint_digest) (\<lambda>_.
       if dj_records j \<noteq> fmempty
       then Inl (ActiveRecordsPreventEpochAdvance (fmap_len (dj_records j)))
       else if dj_reservations j \<noteq> fmempty
       then Inl (DisconnectInvariantViolation ''receipt reservations remain without active records'')
       else if next_epoch \<le> dc_epoch (dj_config j)
       then Inl (NonIncreasingJournalEpoch (dc_epoch (dj_config j)) next_epoch)
       else Inr (j\<lparr>dj_config := (dj_config j)\<lparr>dc_epoch := next_epoch\<rparr>, dj_tombstones := fmempty,
                   dj_outcome_receipt_owners := fmempty, dj_verifier_receipt_owners := fmempty,
                   dj_reservations := fmempty, dj_last_epoch_checkpoint := Some checkpoint_digest\<rparr>, ())))"

text \<open>The operations that change the journal, as one.\<close>

datatype DisconnectOp =
    OpInsert u64 DisconnectOperation
  | OpLease u64 u64
  | OpDispatch u64 u64 u64 digest32
  | OpLost u64 u64 u64
  | OpRetry u64 u64 u64 digest32
  | OpReconcile u64 DisconnectOutcomeEvidence
  | OpArchive u64 digest32
  | OpAdvance u64 digest32

definition drop_value :: "'s \<times> ('e + 'a) \<Rightarrow> 's \<times> ('e + unit)" where
  "drop_value r = (fst r, tryE (snd r) (\<lambda>_. Inr ()))"

fun disconnect_exec :: "(DisconnectOutcomeEvidence \<Rightarrow> bool) \<Rightarrow> DisconnectOp \<Rightarrow> DisconnectJournal \<Rightarrow>
    DisconnectJournal \<times> (DisconnectJournalError + unit)" where
  "disconnect_exec verify (OpInsert i operation) j = drop_value (disconnect_insert i operation j)"
| "disconnect_exec verify (OpLease i worker) j = drop_value (disconnect_lease i worker j)"
| "disconnect_exec verify (OpDispatch i worker token endpoint) j =
     drop_value (mark_dispatched i worker token endpoint j)"
| "disconnect_exec verify (OpLost i worker token) j = drop_value (mark_transport_lost i worker token j)"
| "disconnect_exec verify (OpRetry i worker token reason) j =
     drop_value (retry_before_dispatch i worker token reason j)"
| "disconnect_exec verify (OpReconcile i ev) j = drop_value (reconcile i ev verify j)"
| "disconnect_exec verify (OpArchive i digest) j = drop_value (archive_terminal i digest j)"
| "disconnect_exec verify (OpAdvance epoch digest) j = drop_value (advance_epoch epoch digest j)"

definition disconnect_step :: "(DisconnectOutcomeEvidence \<Rightarrow> bool) \<Rightarrow> DisconnectOp \<Rightarrow>
    DisconnectJournal \<Rightarrow> DisconnectJournal" where
  "disconnect_step verify x j = fst (disconnect_exec verify x j)"

end
