(* ===== verification/Disconnect_Proofs.thy ===== *)
theory Disconnect_Proofs
  imports Disconnect_Journal
begin

text \<open>
  Correctness of the disconnect journal. Each operation is shown to refuse, to repeat an
  earlier answer, to admit or archive an intent, to start a new epoch, or to move one record
  along \<open>intent_step\<close>, the life of a single intent. On that rest the budget of verifier
  receipts and the rule that a dispatched intent is not dispatched again without verified
  evidence that the first dispatch had no effect.
\<close>

subsection \<open>The life of an intent\<close>

definition dispatch_of :: "DisconnectState \<Rightarrow> DisconnectDispatchBinding option" where
  "dispatch_of st = (case st of
       DDispatched b \<Rightarrow> Some b | DIndeterminate b _ \<Rightarrow> Some b | _ \<Rightarrow> None)"

definition is_terminal :: "DisconnectState \<Rightarrow> bool" where
  "is_terminal st = (case st of
       DApplied _ _ _ \<Rightarrow> True | DRejected _ _ _ \<Rightarrow> True | DDeadLetter _ \<Rightarrow> True | _ \<Rightarrow> False)"

inductive intent_step ::
    "DisconnectJournalConfig \<Rightarrow> u64 \<Rightarrow> DisconnectRecord \<Rightarrow> DisconnectOutcomeEvidence option \<Rightarrow>
     DisconnectRecord \<Rightarrow> bool"
  for cfg :: DisconnectJournalConfig and i :: u64 where
  leased: "dr_state r = DPending \<Longrightarrow> checked_add (dr_lease_generation r) 1 = Some g \<Longrightarrow>
    checked_add (dr_attempt r) 1 = Some a \<Longrightarrow>
    intent_step cfg i r None
      (r\<lparr>dr_lease_generation := g, dr_attempt := a, dr_state := DLeased worker g\<rparr>)"
| dispatched: "dr_state r = DLeased worker token \<Longrightarrow>
    b = \<lparr>db_journal_id = dc_journal_id cfg, db_journal_epoch = dc_epoch cfg, db_intent_id = i,
         db_operation = dr_operation r, db_attempt = dr_attempt r, db_worker = worker,
         db_lease_token = token, db_endpoint_digest = endpoint\<rparr> \<Longrightarrow>
    intent_step cfg i r None (r\<lparr>dr_state := DDispatched b\<rparr>)"
| lost: "dr_state r = DDispatched b \<Longrightarrow> intent_step cfg i r None (r\<lparr>dr_state := DIndeterminate b None\<rparr>)"
| retried: "dr_state r = DLeased worker token \<Longrightarrow> dr_attempt r < dc_max_attempts cfg \<Longrightarrow>
    intent_step cfg i r None (r\<lparr>dr_state := DPending\<rparr>)"
| given_up: "dr_state r = DLeased worker token \<Longrightarrow> dc_max_attempts cfg \<le> dr_attempt r \<Longrightarrow>
    intent_step cfg i r None (r\<lparr>dr_state := DDeadLetter reason\<rparr>)"
| applied: "dispatch_of (dr_state r) = Some (ev_binding ev) \<Longrightarrow> ev_kind ev = KApplied \<Longrightarrow>
    intent_step cfg i r (Some ev) (r\<lparr>dr_state :=
      DApplied (ev_binding ev) (ev_outcome_digest ev) (ev_verifier_receipt_digest ev)\<rparr>)"
| not_applied: "dispatch_of (dr_state r) = Some (ev_binding ev) \<Longrightarrow>
    ev_kind ev = KDefinitelyNotApplied \<Longrightarrow> dr_attempt r < dc_max_attempts cfg \<Longrightarrow>
    intent_step cfg i r (Some ev) (r\<lparr>dr_state := DPending\<rparr>)"
| dead_lettered: "dispatch_of (dr_state r) = Some (ev_binding ev) \<Longrightarrow>
    ev_kind ev = KDefinitelyNotApplied \<Longrightarrow> dc_max_attempts cfg \<le> dr_attempt r \<Longrightarrow>
    intent_step cfg i r (Some ev) (r\<lparr>dr_state := DDeadLetter (ev_outcome_digest ev)\<rparr>)"
| rejected: "dispatch_of (dr_state r) = Some (ev_binding ev) \<Longrightarrow> ev_kind ev = KRejected \<Longrightarrow>
    intent_step cfg i r (Some ev) (r\<lparr>dr_state :=
      DRejected (ev_binding ev) (ev_outcome_digest ev) (ev_verifier_receipt_digest ev)\<rparr>)"
| unknown: "dr_state r = DDispatched (ev_binding ev) \<or> dr_state r = DIndeterminate (ev_binding ev) None \<Longrightarrow>
    ev_kind ev = KUnknown \<Longrightarrow>
    intent_step cfg i r (Some ev) (r\<lparr>dr_state := DIndeterminate (ev_binding ev)
      (Some \<lparr>ue_outcome_digest = ev_outcome_digest ev,
             ue_verifier_receipt_digest = ev_verifier_receipt_digest ev\<rparr>)\<rparr>)"

inductive_cases intent_stepE: "intent_step cfg i r lab r'"

lemma intent_step_frame:
  "intent_step cfg i r lab r' \<Longrightarrow> dr_id r' = dr_id r \<and> dr_operation r' = dr_operation r"
  by (erule intent_step.cases) auto

lemma terminal_no_step: "is_terminal (dr_state r) \<Longrightarrow> \<not> intent_step cfg i r lab r'"
  by (auto simp: is_terminal_def dispatch_of_def elim!: intent_stepE split: DisconnectState.splits)

text \<open>
  From a dispatched record, every step stays with the dispatch or ends it for good, except
  evidence that the dispatch was not applied.
\<close>

lemma dispatched_step:
  assumes "intent_step cfg i r lab r'" and "dispatch_of (dr_state r) = Some b"
  shows "dispatch_of (dr_state r') = Some b \<or> is_terminal (dr_state r') \<or>
    (\<exists>ev. lab = Some ev \<and> ev_kind ev = KDefinitelyNotApplied \<and> ev_binding ev = b)"
  using assms
  by (cases rule: intent_step.cases) (auto simp: dispatch_of_def is_terminal_def)

subsection \<open>What an operation does\<close>

lemma disconnect_require_iff:
  "disconnect_require j i = Inr r \<longleftrightarrow> fmlookup (dj_records j) i = Some r"
  by (auto simp: disconnect_require_def split: option.splits if_splits)

lemma disconnect_require_Inl:
  "disconnect_require j i = Inl e \<Longrightarrow> e = ArchivedIntent i \<or> e = UnknownIntent i"
  by (auto simp: disconnect_require_def split: option.splits if_splits)

lemma require_fence_iff:
  "require_fence j i worker token = Inr r \<longleftrightarrow>
     fmlookup (dj_records j) i = Some r \<and> dr_state r = DLeased worker token"
proof
  assume a: "require_fence j i worker token = Inr r"
  then obtain x where "fmlookup (dj_records j) i = Some x"
    by (auto simp: require_fence_def disconnect_require_iff)
  with a show "fmlookup (dj_records j) i = Some r \<and> dr_state r = DLeased worker token"
    by (cases "dr_state x") (auto simp: require_fence_def disconnect_require_def split: if_splits)
qed (simp add: require_fence_def disconnect_require_def)

lemma operation_validate_Inr: "operation_validate x = Inr y \<Longrightarrow> y = x"
  by (auto simp: operation_validate_def split: if_splits)

lemma evidence_validate_Inr: "evidence_validate x = Inr y \<Longrightarrow> y = x"
  by (auto simp: evidence_validate_def)

lemma lease_guard_iff: "lease_guard i st = Inr u \<longleftrightarrow> st = DPending"
  by (auto simp: lease_guard_def split: DisconnectState.splits)

definition reconciled :: "DisconnectJournal \<Rightarrow> u64 \<Rightarrow> DisconnectOutcomeEvidence \<Rightarrow> usize \<Rightarrow> DisconnectRecord \<Rightarrow>
    DisconnectJournal" where
  "reconciled j i ev n r = j\<lparr>dj_reservations := fmupd i n (dj_reservations j),
     dj_verifier_receipt_owners :=
       fmupd (ev_verifier_receipt_digest ev) i (dj_verifier_receipt_owners j),
     dj_outcome_receipt_owners :=
       (if ev_kind ev = KApplied then fmupd (ev_outcome_digest ev) i (dj_outcome_receipt_owners j)
        else dj_outcome_receipt_owners j),
     dj_records := fmupd i r (dj_records j)\<rparr>"

lemma reconcile_apply_Inr:
  assumes "reconcile_apply i r b ev j = Inr (j', out)"
    and "dispatch_of (dr_state r) = Some (ev_binding ev)" "b = ev_binding ev"
    and "unknown_replay i r ev = Inr None"
  obtains r' n where "intent_step (dj_config j) i r (Some ev) r'"
    "fmlookup (dj_verifier_receipt_owners j) (ev_verifier_receipt_digest ev) = None"
    "fmlookup (dj_reservations j) i = Some (Suc n)" "j' = reconciled j i ev n r'"
proof -
  obtain st disp n where R:
    "fmlookup (dj_verifier_receipt_owners j) (ev_verifier_receipt_digest ev) = None"
    "reconcile_outcome j i r b ev = Inr (st, disp)"
    "fmlookup (dj_reservations j) i = Some (Suc n)"
    "j' = reconciled j i ev n (r\<lparr>dr_state := st\<rparr>)"
    using assms(1)
    by (auto simp: reconcile_apply_def require_unique_verifier_receipt_def
        consume_receipt_reservation_def reconciled_def Let_def gr0_conv_Suc
        split: option.splits if_splits)
  have known: "ev_kind ev = KUnknown \<Longrightarrow>
      dr_state r = DDispatched (ev_binding ev) \<or> dr_state r = DIndeterminate (ev_binding ev) None"
    using assms(2,4)
    by (auto simp: unknown_replay_def dispatch_of_def split: DisconnectState.splits option.splits if_splits)
  have "intent_step (dj_config j) i r (Some ev) (r\<lparr>dr_state := st\<rparr>)"
    using R(2) assms(2,3) known
    by (auto simp: reconcile_outcome_def not_le split: DisconnectOutcomeKind.splits if_splits
        intro: intent_step.intros)
  with R show thesis by (intro that)
qed

lemma drop_value_cases:
  assumes "drop_value (commit_candidate j m) = (j', res)"
  obtains (err) e where "m = Inl e" "j' = j" "res = Inl e"
  | (ok) x where "m = Inr (j', x)" "res = Inr ()"
  using assms by (cases m) (auto simp: drop_value_def)

lemma disconnect_exec_cases [consumes 1, case_names rejected same inserted stepped evidenced archived advanced]:
  assumes op: "disconnect_exec verify x j = (j', res)"
  obtains (rejected) e where "res = Inl e" "j' = j"
  | (same) "res = Inr ()" "j' = j"
  | (inserted) i operation n where "res = Inr ()" "x = OpInsert i operation"
      "fmlookup (dj_records j) i = None" "i |\<notin>| fmdom (dj_tombstones j)"
      "require_new_receipt_reservation j = Inr n"
      "j' = j\<lparr>dj_records := fmupd i \<lparr>dr_id = i, dr_operation = operation, dr_attempt = 0,
                dr_lease_generation = 0, dr_state = DPending\<rparr> (dj_records j),
              dj_reservations := fmupd i n (dj_reservations j)\<rparr>"
  | (stepped) i r r' where "res = Inr ()" "fmlookup (dj_records j) i = Some r"
      "intent_step (dj_config j) i r None r'" "j' = j\<lparr>dj_records := fmupd i r' (dj_records j)\<rparr>"
  | (evidenced) i ev r r' n where "res = Inr ()" "x = OpReconcile i ev" "verify ev"
      "fmlookup (dj_records j) i = Some r" "intent_step (dj_config j) i r (Some ev) r'"
      "fmlookup (dj_verifier_receipt_owners j) (ev_verifier_receipt_digest ev) = None"
      "fmlookup (dj_reservations j) i = Some (Suc n)" "j' = reconciled j i ev n r'"
  | (archived) i r t where "res = Inr ()" "fmlookup (dj_records j) i = Some r"
      "is_terminal (dr_state r)"
      "j' = j\<lparr>dj_records := fmdrop i (dj_records j), dj_reservations := fmdrop i (dj_reservations j),
              dj_tombstones := fmupd i t (dj_tombstones j)\<rparr>"
  | (advanced) epoch d where "res = Inr ()" "x = OpAdvance epoch d" "dj_records j = fmempty"
      "dc_epoch (dj_config j) < epoch"
      "j' = j\<lparr>dj_config := (dj_config j)\<lparr>dc_epoch := epoch\<rparr>, dj_tombstones := fmempty,
              dj_outcome_receipt_owners := fmempty, dj_verifier_receipt_owners := fmempty,
              dj_reservations := fmempty, dj_last_epoch_checkpoint := Some d\<rparr>"
proof (cases x)
  case (OpInsert i operation)
  from op [unfolded OpInsert disconnect_exec.simps disconnect_insert_def] show thesis
  proof (cases rule: drop_value_cases)
    case (ok y)
    from ok(1) show thesis
    proof (cases "fmlookup (dj_records j) i")
      case None
      with ok(1) obtain n where "i |\<notin>| fmdom (dj_tombstones j)" "require_new_receipt_reservation j = Inr n"
        "j' = j\<lparr>dj_records := fmupd i \<lparr>dr_id = i, dr_operation = operation, dr_attempt = 0,
                dr_lease_generation = 0, dr_state = DPending\<rparr> (dj_records j),
              dj_reservations := fmupd i n (dj_reservations j)\<rparr>"
        by (auto simp: Let_def dest!: operation_validate_Inr split: if_splits)
      then show thesis by (rule inserted [OF ok(2) OpInsert None])
    next
      case (Some r)
      with ok show thesis by (intro same) (auto split: if_splits)
    qed
  qed (rule rejected)
next
  case (OpLease i worker)
  from op [unfolded OpLease disconnect_exec.simps disconnect_lease_def] show thesis
  proof (cases rule: drop_value_cases)
    case (ok y)
    then obtain r g a where r: "fmlookup (dj_records j) i = Some r" "dr_state r = DPending"
      "checked_add (dr_lease_generation r) 1 = Some g" "checked_add (dr_attempt r) 1 = Some a"
      "j' = j\<lparr>dj_records := fmupd i (r\<lparr>dr_lease_generation := g, dr_attempt := a,
        dr_state := DLeased worker g\<rparr>) (dj_records j)\<rparr>"
      by (auto simp: disconnect_require_iff lease_guard_iff Let_def)
    show thesis by (rule stepped [OF ok(2) r(1) leased [OF r(2,3,4)] r(5)])
  qed (rule rejected)
next
  case (OpDispatch i worker token endpoint)
  from op [unfolded OpDispatch disconnect_exec.simps mark_dispatched_def] show thesis
  proof (cases rule: drop_value_cases)
    case (ok y)
    then obtain r where r: "fmlookup (dj_records j) i = Some r" "dr_state r = DLeased worker token"
      "j' = j\<lparr>dj_records := fmupd i (r\<lparr>dr_state := DDispatched
        \<lparr>db_journal_id = dc_journal_id (dj_config j), db_journal_epoch = dc_epoch (dj_config j),
         db_intent_id = i, db_operation = dr_operation r, db_attempt = dr_attempt r,
         db_worker = worker, db_lease_token = token, db_endpoint_digest = endpoint\<rparr>\<rparr>) (dj_records j)\<rparr>"
      by (auto simp: require_fence_iff Let_def)
    show thesis by (rule stepped [OF ok(2) r(1) dispatched [OF r(2) refl] r(3)])
  qed (rule rejected)
next
  case (OpLost i worker token)
  from op [unfolded OpLost disconnect_exec.simps mark_transport_lost_def] show thesis
  proof (cases rule: drop_value_cases)
    case (ok y)
    then obtain r where r: "fmlookup (dj_records j) i = Some r" by (auto simp: disconnect_require_iff)
    show thesis
    proof (cases "dr_state r")
      case (DDispatched b)
      then have "j' = j\<lparr>dj_records := fmupd i (r\<lparr>dr_state := DIndeterminate b None\<rparr>) (dj_records j)\<rparr>"
        using ok(1) r by (auto simp: disconnect_require_def Let_def split: if_splits)
      then show thesis by (rule stepped [OF ok(2) r lost [OF DDispatched]])
    qed (use ok r in \<open>auto simp: disconnect_require_def split: if_splits intro: same\<close>)
  qed (rule rejected)
next
  case (OpRetry i worker token reason)
  from op [unfolded OpRetry disconnect_exec.simps retry_before_dispatch_def] show thesis
  proof (cases rule: drop_value_cases)
    case (ok y)
    then obtain r where r: "fmlookup (dj_records j) i = Some r" "dr_state r = DLeased worker token"
      "j' = j\<lparr>dj_records := fmupd i (r\<lparr>dr_state :=
        (if dr_attempt r \<ge> dc_max_attempts (dj_config j) then DDeadLetter reason else DPending)\<rparr>) (dj_records j)\<rparr>"
      by (auto simp: require_fence_iff Let_def split: if_splits)
    then show thesis
      by (cases "dc_max_attempts (dj_config j) \<le> dr_attempt r")
        (auto intro: stepped [OF ok(2) r(1) given_up [OF r(2)]] stepped [OF ok(2) r(1) retried [OF r(2)]]
          simp: not_le)
  qed (rule rejected)
next
  case (OpReconcile i ev)
  from op [unfolded OpReconcile disconnect_exec.simps reconcile_def] show thesis
  proof (cases rule: drop_value_cases)
    case (ok y)
    then obtain r replayed where r: "fmlookup (dj_records j) i = Some r"
      "terminal_replay r ev = Inr replayed" "evidence_validate ev = Inr ev"
      by (auto simp: disconnect_require_iff dest: evidence_validate_Inr)
    show thesis
    proof (cases replayed)
      case (Some out)
      with ok r show thesis by (intro same) (auto simp: disconnect_require_def)
    next
      case None
      with ok(1) r obtain seen where b: "expected_binding i (dr_state r) = Inr (ev_binding ev)"
        "unknown_replay i r ev = Inr seen"
        by (auto simp: disconnect_require_def split: if_splits)
      then have d: "dispatch_of (dr_state r) = Some (ev_binding ev)"
        by (auto simp: expected_binding_def dispatch_of_def split: DisconnectState.splits)
      show thesis
      proof (cases seen)
        case (Some out)
        with ok r None b show thesis by (intro same) (auto simp: disconnect_require_def split: if_splits)
      next
        case seen: None
        with ok(1) r None b have v: "verify ev" "reconcile_apply i r (ev_binding ev) ev j = Inr (j', y)"
          by (auto simp: disconnect_require_def split: if_splits)
        obtain r' n where "intent_step (dj_config j) i r (Some ev) r'"
          "fmlookup (dj_verifier_receipt_owners j) (ev_verifier_receipt_digest ev) = None"
          "fmlookup (dj_reservations j) i = Some (Suc n)" "j' = reconciled j i ev n r'"
          by (rule reconcile_apply_Inr [OF v(2) d refl b(2) [unfolded seen]])
        then show thesis by (rule evidenced [OF ok(2) OpReconcile v(1) r(1)])
      qed
    qed
  qed (rule rejected)
next
  case (OpArchive i d)
  from op [unfolded OpArchive disconnect_exec.simps archive_terminal_def] show thesis
  proof (cases rule: drop_value_cases)
    case (ok y)
    then obtain r digest where r: "fmlookup (dj_records j) i = Some r"
      "terminal_digest i (dr_state r) = Inr digest"
      by (auto simp: disconnect_require_iff split: if_splits)
    then have "is_terminal (dr_state r)"
      by (auto simp: terminal_digest_def is_terminal_def split: DisconnectState.splits)
    with ok r show thesis
      by (intro archived [OF ok(2) r(1)]) (auto simp: disconnect_require_def Let_def split: if_splits)
  qed (rule rejected)
next
  case (OpAdvance epoch d)
  from op [unfolded OpAdvance disconnect_exec.simps advance_epoch_def] show thesis
  proof (cases rule: drop_value_cases)
    case (ok y)
    then show thesis by (intro advanced [OF ok(2) OpAdvance]) (auto split: if_splits)
  qed (rule rejected)
qed

end
