(* ===== verification/Disconnect_Properties.thy ===== *)
theory Disconnect_Properties
  imports Disconnect_Proofs
begin

text \<open>
  The two promises of the disconnect journal: an intent that was dispatched is not dispatched
  again without verified evidence that the first dispatch had no effect (\<open>held\<close> is what each
  operation keeps of it), and the receipts reserved for the admitted intents are always enough
  (\<open>needs\<close> is what a record may still use up, \<open>disconnect_inv\<close> says that this is reserved and
  within the capacity).
\<close>

subsection \<open>No second dispatch\<close>

definition held :: "u64 \<Rightarrow> DisconnectDispatchBinding \<Rightarrow> DisconnectJournal \<Rightarrow> bool" where
  "held i b j \<longleftrightarrow> (case fmlookup (dj_records j) i of
       Some r \<Rightarrow> dispatch_of (dr_state r) = Some b \<or> is_terminal (dr_state r)
     | None \<Rightarrow> i |\<in>| fmdom (dj_tombstones j))"

definition clears :: "(DisconnectOutcomeEvidence \<Rightarrow> bool) \<Rightarrow> u64 \<Rightarrow> DisconnectDispatchBinding \<Rightarrow> DisconnectOp \<Rightarrow> bool" where
  "clears verify i b x \<longleftrightarrow> (case x of
       OpReconcile k ev \<Rightarrow> k = i \<and> verify ev \<and> ev_kind ev = KDefinitelyNotApplied \<and> ev_binding ev = b
     | _ \<Rightarrow> False)"

lemma held_step:
  assumes "held i b j" and "\<not> clears verify i b x"
    and op: "disconnect_exec verify x j = (j', res)"
  shows "dc_epoch (dj_config j) < dc_epoch (dj_config j') \<or>
    dj_config j' = dj_config j \<and> held i b j'"
  using op
proof (cases rule: disconnect_exec_cases)
  case (inserted k operation n)
  with assms(1) show ?thesis by (auto simp: held_def split: option.splits)
next
  case (stepped k r r')
  show ?thesis
  proof (cases "k = i")
    case True
    with stepped assms(1) have "dispatch_of (dr_state r) = Some b"
      using terminal_no_step [of r] by (auto simp: held_def)
    from dispatched_step [OF stepped(3) this] True stepped show ?thesis by (auto simp: held_def)
  next
    case False
    with stepped assms(1) show ?thesis by (auto simp: held_def split: option.splits)
  qed
next
  case (evidenced k ev r r' n)
  show ?thesis
  proof (cases "k = i")
    case True
    with evidenced assms(1) have "dispatch_of (dr_state r) = Some b"
      using terminal_no_step [of r] by (auto simp: held_def)
    with dispatched_step [OF evidenced(5)] assms(2) evidenced(2,3) True
    have "dispatch_of (dr_state r') = Some b \<or> is_terminal (dr_state r')"
      by (auto simp: clears_def)
    with True evidenced show ?thesis by (auto simp: held_def reconciled_def)
  next
    case False
    with evidenced assms(1) show ?thesis by (auto simp: held_def reconciled_def split: option.splits)
  qed
next
  case (archived k r t)
  with assms(1) show ?thesis by (auto simp: held_def split: option.splits)
qed (use assms(1) in auto)

lemma epoch_step:
  assumes "disconnect_exec verify x j = (j', res)"
  shows "dc_epoch (dj_config j) \<le> dc_epoch (dj_config j')"
  using assms by (cases rule: disconnect_exec_cases) (auto simp: reconciled_def)

lemma disconnect_stepI: "disconnect_exec verify x j = (j', res) \<Longrightarrow> disconnect_step verify x j = j'"
  by (simp add: disconnect_step_def)

lemma held_run:
  assumes "held i b j" and "\<And>x. x \<in> set xs \<Longrightarrow> \<not> clears verify i b x"
    and "dc_epoch (dj_config (fold (disconnect_step verify) xs j)) = dc_epoch (dj_config j)"
  shows "held i b (fold (disconnect_step verify) xs j)"
  using assms
proof (induction xs arbitrary: j)
  case (Cons x xs)
  have mono: "dc_epoch (dj_config j) \<le> dc_epoch (dj_config (fold (disconnect_step verify) ys j))" for ys j
  proof (induction ys arbitrary: j)
    case (Cons y ys)
    have "dc_epoch (dj_config j) \<le> dc_epoch (dj_config (disconnect_step verify y j))"
      by (cases "disconnect_exec verify y j") (auto simp: disconnect_stepI dest: epoch_step)
    with Cons show ?case by (auto intro: order_trans)
  qed simp
  obtain j' res where op: "disconnect_exec verify x j = (j', res)" by (cases "disconnect_exec verify x j")
  have "\<not> clears verify i b x" using Cons.prems(2) by simp
  from held_step [OF Cons.prems(1) this op] mono [of j' xs] Cons.prems(3)
  have "held i b j'" "dj_config j' = dj_config j"
    by (auto simp: disconnect_stepI [OF op])
  with Cons.prems Cons.IH [of j'] show ?case by (simp add: disconnect_stepI [OF op])
qed simp

lemma held_refuses:
  assumes "held i b j"
  shows "\<exists>err. mark_dispatched i worker token endpoint j = (j, Inl err)"
proof (cases "mark_dispatched i worker token endpoint j")
  case (Pair j' res)
  show ?thesis
  proof (cases res)
    case (Inl e)
    with Pair show ?thesis by (auto simp: mark_dispatched_def)
  next
    case (Inr y)
    with Pair obtain r where "fmlookup (dj_records j) i = Some r" "dr_state r = DLeased worker token"
      by (auto simp: mark_dispatched_def require_fence_iff Let_def)
    with assms show ?thesis by (auto simp: held_def dispatch_of_def is_terminal_def)
  qed
qed

text \<open>
  C26: A socket is told to disconnect at most once per answer: after an intent was dispatched, and
  for as long as the journal stays in its epoch, every further dispatch of it, by any worker
  under any lease, is refused unless verified evidence was presented in between that exactly
  this dispatch was definitely not applied. Losing the transport, retries, other leases,
  rejected or unknown outcomes and archiving do not reopen it.
\<close>

theorem no_second_dispatch:
  assumes "mark_dispatched i worker token endpoint j = (j1, Inr r)"
    and "dr_state r = DDispatched b"
    and "\<And>ev. OpReconcile i ev \<in> set xs \<Longrightarrow> verify ev \<Longrightarrow> ev_binding ev = b \<Longrightarrow>
      ev_kind ev \<noteq> KDefinitelyNotApplied"
    and "dc_epoch (dj_config (fold (disconnect_step verify) xs j1)) = dc_epoch (dj_config j1)"
  shows "\<exists>err. mark_dispatched i worker' token' endpoint' (fold (disconnect_step verify) xs j1) =
    (fold (disconnect_step verify) xs j1, Inl err)"
proof (rule held_refuses)
  have "held i b j1"
    using assms(1,2) by (auto simp: mark_dispatched_def held_def require_fence_iff Let_def dispatch_of_def)
  moreover have "\<not> clears verify i b x" if "x \<in> set xs" for x
    using assms(3) that by (auto simp: clears_def split: DisconnectOp.splits)
  ultimately show "held i b (fold (disconnect_step verify) xs j1)"
    using assms(4) by (rule held_run)
qed

subsection \<open>The budget of verifier receipts\<close>

definition reserved_sum :: "(u64, usize) fmap \<Rightarrow> nat" where
  "reserved_sum m = (\<Sum>k \<in> fset (fmdom m). the (fmlookup m k))"

lemma sum_list_entries: "sum_list (map snd (entries_in_order m)) = reserved_sum m"
proof -
  have "distinct (keys_in_order m)" by (simp add: keys_in_order_def sorted_list_of_fset.rep_eq)
  then have "sum_list (map (\<lambda>k. the (fmlookup m k)) (keys_in_order m)) =
      (\<Sum>k \<in> set (keys_in_order m). the (fmlookup m k))"
    by (rule sum_list_distinct_conv_sum_set)
  then show ?thesis by (simp add: reserved_sum_def entries_in_order_map comp_def)
qed

lemma reserved_sum_drop:
  assumes "fmlookup m k = Some n"
  shows "reserved_sum m = n + reserved_sum (fmdrop k m)"
proof -
  have k: "k \<in> fset (fmdom m)" using assms by (rule fmdomI)
  have "reserved_sum m = the (fmlookup m k) + (\<Sum>x \<in> fset (fmdom m) - {k}. the (fmlookup m x))"
    unfolding reserved_sum_def using k by (intro sum.remove) simp_all
  also have "(\<Sum>x \<in> fset (fmdom m) - {k}. the (fmlookup m x)) = reserved_sum (fmdrop k m)"
    unfolding reserved_sum_def by (rule sum.cong) auto
  finally show ?thesis using assms by simp
qed

lemma reserved_sum_upd: "reserved_sum (fmupd k n m) = n + reserved_sum (fmdrop k m)"
proof -
  have "fmdrop k (fmupd k n m) = fmdrop k m" by (intro fmap_ext) auto
  with reserved_sum_drop [of "fmupd k n m" k n] show ?thesis by simp
qed

lemma fmdrop_absent: "fmlookup m k = None \<Longrightarrow> fmdrop k m = m"
  by (intro fmap_ext) auto

lemma reserved_sum_empty [simp]: "reserved_sum fmempty = 0"
  by (simp add: reserved_sum_def)

lemma sum_values_eq: "sum_list vs < 2 ^ 64 \<Longrightarrow> sum_values vs = Some (sum_list vs)"
proof (induction vs rule: rev_induct)
  case (snoc v vs)
  then show ?case by (simp add: sum_values_def usize_checked_add_def)
qed (simp add: sum_values_def)

text \<open>The receipts a record may still need before its attempts are used up.\<close>

definition needs :: "DisconnectJournalConfig \<Rightarrow> DisconnectRecord \<Rightarrow> nat" where
  "needs cfg r = 2 * (unat (dc_max_attempts cfg) - unat (dr_attempt r)) +
     (case dr_state r of
        DLeased _ _ \<Rightarrow> 2 | DDispatched _ \<Rightarrow> 2 | DIndeterminate _ None \<Rightarrow> 2 | DIndeterminate _ (Some _) \<Rightarrow> 1
      | _ \<Rightarrow> 0)"

definition attempts_ok :: "DisconnectJournalConfig \<Rightarrow> DisconnectRecord \<Rightarrow> bool" where
  "attempts_ok cfg r \<longleftrightarrow> unat (dr_attempt r) \<le> unat (dc_max_attempts cfg) \<and>
     (dr_state r = DPending \<longrightarrow> unat (dr_attempt r) < unat (dc_max_attempts cfg))"

lemma intent_step_needs:
  assumes "intent_step cfg i r lab r'" and "attempts_ok cfg r"
  shows "attempts_ok cfg r'"
    "needs cfg r' + (if lab = None then 0 else 1) \<le> needs cfg r"
  using assms
  by (cases rule: intent_step.cases;
      auto simp: attempts_ok_def needs_def dispatch_of_def checked_add_one_Some word_less_nat_alt
        word_le_nat_alt split: DisconnectState.splits option.splits)+

definition disconnect_inv :: "DisconnectJournal \<Rightarrow> bool" where
  "disconnect_inv j \<longleftrightarrow>
     0 < unat (dc_max_attempts (dj_config j)) \<and>
     unat (dc_max_attempts (dj_config j)) \<le> 1024 \<and>
     dj_verifier_receipt_capacity j \<le> MAX_DISCONNECT_VERIFIER_RECEIPTS \<and>
     fmdom (dj_reservations j) = fmdom (dj_records j) \<and>
     (\<forall>i r. fmlookup (dj_records j) i = Some r \<longrightarrow> attempts_ok (dj_config j) r \<and>
        needs (dj_config j) r \<le> the (fmlookup (dj_reservations j) i)) \<and>
     fmap_len (dj_verifier_receipt_owners j) + reserved_sum (dj_reservations j)
       \<le> dj_verifier_receipt_capacity j"

lemma disconnect_inv_record:
  assumes "disconnect_inv j" and "fmlookup (dj_records j) i = Some r"
  shows "attempts_ok (dj_config j) r" "needs (dj_config j) r \<le> the (fmlookup (dj_reservations j) i)"
  using assms by (auto simp: disconnect_inv_def)

lemma receipts_per_intent:
  assumes "unat (dc_max_attempts c) \<le> 1024"
  shows "verifier_receipts_per_intent c = Inr (2 * unat (dc_max_attempts c))"
  using assms by (simp add: verifier_receipts_per_intent_def usize_checked_mul_def
      DISCONNECT_VERIFIER_RECEIPTS_PER_ATTEMPT_def)

lemma reservation_eq:
  assumes "disconnect_inv j"
  shows "require_new_receipt_reservation j =
    (if fmap_len (dj_verifier_receipt_owners j) + reserved_sum (dj_reservations j) +
        2 * unat (dc_max_attempts (dj_config j)) > dj_verifier_receipt_capacity j
     then Inl (VerifierReceiptCapacityExceeded (dj_verifier_receipt_capacity j))
     else Inr (2 * unat (dc_max_attempts (dj_config j))))"
proof -
  let ?owners = "fmap_len (dj_verifier_receipt_owners j)" and ?sum = "reserved_sum (dj_reservations j)"
    and ?n = "2 * unat (dc_max_attempts (dj_config j))"
  have small: "?owners + ?sum \<le> 262144" "unat (dc_max_attempts (dj_config j)) \<le> 1024"
    using assms by (auto simp: disconnect_inv_def MAX_DISCONNECT_VERIFIER_RECEIPTS_def)
  have "sum_values (map snd (entries_in_order (dj_reservations j))) = Some ?sum"
    using sum_values_eq [of "map snd (entries_in_order (dj_reservations j))"] small
    by (simp add: sum_list_entries)
  moreover have "usize_checked_add ?owners ?sum = Some (?owners + ?sum)"
    "usize_checked_add (?owners + ?sum) ?n = Some (?owners + ?sum + ?n)"
    using small by (simp_all add: usize_checked_add_def)
  ultimately show ?thesis
    using small by (simp add: require_new_receipt_reservation_def receipts_per_intent)
qed

lemma disconnect_inv_step:
  assumes inv: "disconnect_inv j" and op: "disconnect_exec verify x j = (j', res)"
  shows "disconnect_inv j'"
  using op
proof (cases rule: disconnect_exec_cases)
  case (inserted i operation n)
  have none: "fmlookup (dj_reservations j) i = None"
    using inv inserted(3) by (metis disconnect_inv_def fmdom_notD fmdom_notI)
  have n: "n = 2 * unat (dc_max_attempts (dj_config j))"
    "fmap_len (dj_verifier_receipt_owners j) + reserved_sum (dj_reservations j) + n
       \<le> dj_verifier_receipt_capacity j"
    using inserted(5) by (simp_all add: reservation_eq [OF inv] split: if_splits)
  have "reserved_sum (fmupd i n (dj_reservations j)) = n + reserved_sum (dj_reservations j)"
    by (simp add: reserved_sum_upd fmdrop_absent [OF none])
  with inv n show ?thesis
    by (auto simp: disconnect_inv_def inserted(6) attempts_ok_def needs_def)
next
  case (stepped i r r')
  have ok: "attempts_ok (dj_config j) r" "needs (dj_config j) r \<le> the (fmlookup (dj_reservations j) i)"
    using disconnect_inv_record [OF inv stepped(2)] by simp_all
  have dom: "i |\<in>| fmdom (dj_records j)" using stepped(2) by (rule fmdomI)
  from intent_step_needs [OF stepped(3) ok(1)] ok(2) inv dom show ?thesis
    by (auto simp: disconnect_inv_def stepped(4) finsert_absorb)
next
  case (evidenced i ev r r' n)
  have ok: "attempts_ok (dj_config j) r" "needs (dj_config j) r \<le> Suc n"
    using disconnect_inv_record [OF inv evidenced(4)] evidenced(7) by simp_all
  have dom: "i |\<in>| fmdom (dj_records j)" "i |\<in>| fmdom (dj_reservations j)"
    using evidenced(4,7) by (auto intro: fmdomI)
  have "reserved_sum (dj_reservations j) = Suc (reserved_sum (fmupd i n (dj_reservations j)))"
    using reserved_sum_drop [OF evidenced(7)] by (simp add: reserved_sum_upd)
  moreover have "fmap_len (dj_verifier_receipt_owners j') = Suc (fmap_len (dj_verifier_receipt_owners j))"
    using evidenced(6) by (simp add: evidenced(8) reconciled_def fmap_len_upd_new)
  ultimately show ?thesis
    using intent_step_needs [OF evidenced(5) ok(1)] ok(2) inv dom
    by (auto simp: disconnect_inv_def evidenced(8) reconciled_def finsert_absorb)
next
  case (archived i r t)
  then have "reserved_sum (fmdrop i (dj_reservations j)) \<le> reserved_sum (dj_reservations j)"
    by (cases "fmlookup (dj_reservations j) i") (auto simp: fmdrop_absent dest: reserved_sum_drop)
  with inv show ?thesis by (auto simp: disconnect_inv_def archived(4))
next
  case (advanced epoch d)
  with inv show ?thesis by (auto simp: disconnect_inv_def)
qed (use inv in auto)

interpretation disconnect_journal: state_machine "disconnect_step verify" disconnect_inv
proof
  fix j x assume "disconnect_inv j"
  then show "disconnect_inv (disconnect_step verify x j)"
    by (cases "disconnect_exec verify x j") (auto simp: disconnect_stepI dest: disconnect_inv_step)
qed

lemma disconnect_new_inv:
  assumes "disconnect_new cfg = Inr j"
  shows "disconnect_inv j"
proof -
  have "dc_max_attempts cfg \<noteq> 0" "dc_max_attempts cfg \<le> 1024"
    using assms by (auto simp: disconnect_new_def disconnect_config_validate_def
        MAX_DISCONNECT_ATTEMPTS_def split: if_splits)
  then have "0 < unat (dc_max_attempts cfg)" "unat (dc_max_attempts cfg) \<le> 1024"
    by (simp_all add: unat_gt_0 word_le_nat_alt)
  moreover have "dj_verifier_receipt_capacity j \<le> MAX_DISCONNECT_VERIFIER_RECEIPTS" "dj_config j = cfg"
    "dj_records j = fmempty" "dj_reservations j = fmempty" "dj_verifier_receipt_owners j = fmempty"
    using assms by (auto simp: disconnect_new_def disconnect_config_validate_def split: if_splits)
  ultimately show ?thesis by (simp add: disconnect_inv_def)
qed

text \<open>The errors that would mean that the bookkeeping of the journal had gone wrong.\<close>

definition bookkeeping_error :: "DisconnectOp \<Rightarrow> DisconnectJournalError \<Rightarrow> bool" where
  "bookkeeping_error x e \<longleftrightarrow> (case e of
       VerifierReceiptBudgetOverflow \<Rightarrow> True
     | VerifierReceiptReservationMissing _ \<Rightarrow> True
     | DisconnectInvariantViolation _ \<Rightarrow> True
     | AttemptExhausted \<Rightarrow> True
     | VerifierReceiptCapacityExceeded _ \<Rightarrow> (case x of OpInsert _ _ \<Rightarrow> False | _ \<Rightarrow> True)
     | _ \<Rightarrow> False)"


lemma snd_commit_Inl: "snd (commit_candidate j m) = Inl e \<longleftrightarrow> m = Inl e"
  by (cases m) auto

lemma needs_dispatched:
  assumes "dispatch_of (dr_state r) = Some b" shows "0 < needs cfg r"
  using assms by (auto simp: needs_def dispatch_of_def split: DisconnectState.splits option.splits)

lemma require_error:
  "disconnect_require j i = Inl e \<Longrightarrow> \<not> bookkeeping_error x e"
  by (auto simp: bookkeeping_error_def dest!: disconnect_require_Inl)

lemma nonzero_error:
  "disconnect_require_nonzero field v = Inl e \<Longrightarrow> \<not> bookkeeping_error x e"
  by (auto simp: bookkeeping_error_def disconnect_require_nonzero_def split: if_splits)

lemma fence_error:
  "require_fence j i worker token = Inl e \<Longrightarrow> \<not> bookkeeping_error x e"
  unfolding require_fence_def
  by (cases "disconnect_require j i")
    (auto simp: require_error, auto simp: bookkeeping_error_def split: DisconnectState.splits if_splits)

lemma reconcile_apply_error:
  assumes inv: "disconnect_inv j" and r: "fmlookup (dj_records j) i = Some r"
    and d: "dispatch_of (dr_state r) = Some b"
    and e: "reconcile_apply i r b ev j = Inl e"
  shows "\<not> bookkeeping_error x e"
proof -
  have "fmdom (dj_reservations j) = fmdom (dj_records j)" using inv by (simp add: disconnect_inv_def)
  then obtain n where n: "fmlookup (dj_reservations j) i = Some n"
    using fmdomI [OF r] by (metis fmdomE)
  have "0 < n" using disconnect_inv_record(2) [OF inv r] needs_dispatched [OF d, of "dj_config j"] n by simp
  then have "\<exists>j'. consume_receipt_reservation i j = Inr j'"
    using n by (simp add: consume_receipt_reservation_def)
  with e show ?thesis
    by (auto simp: reconcile_apply_def require_unique_verifier_receipt_def reconcile_outcome_def
        require_unique_outcome_receipt_def bookkeeping_error_def Let_def
        split: option.splits if_splits DisconnectOutcomeKind.splits)
qed

lemma reconcile_error:
  assumes inv: "disconnect_inv j" and e: "snd (reconcile i ev verify j) = Inl e"
  shows "\<not> bookkeeping_error x e"
proof (cases "evidence_validate ev")
  case (Inl err)
  with e show ?thesis 
    by (auto simp: reconcile_def evidence_validate_def disconnect_require_nonzero_def
        bookkeeping_error_def split: if_splits)
next
  case (Inr ev')
  then have ev: "evidence_validate ev = Inr ev" by (auto dest: evidence_validate_Inr)
  show ?thesis
  proof (cases "disconnect_require j i")
    case (Inl err)
    with e ev show ?thesis by (auto simp: reconcile_def require_error)
  next
    case (Inr r)
    show ?thesis
    proof (cases "dispatch_of (dr_state r)")
      case None
      with e ev Inr show ?thesis
        by (cases "dr_state r") (auto simp: reconcile_def terminal_replay_def expected_binding_def
            dispatch_of_def bookkeeping_error_def split: if_splits)
    next
      case (Some b)
      then have "terminal_replay r ev = Inr None" "expected_binding i (dr_state r) = Inr b"
        by (auto simp: terminal_replay_def expected_binding_def dispatch_of_def
            split: DisconnectState.splits)
      with e ev Inr show ?thesis
        using reconcile_apply_error [OF inv _ Some, of i ev e x]
        by (auto simp: reconcile_def snd_commit_Inl disconnect_require_iff unknown_replay_def bookkeeping_error_def
            split: if_splits option.splits DisconnectState.splits)
    qed
  qed
qed

lemma exec_no_bookkeeping_error:
  assumes inv: "disconnect_inv j" and op: "snd (disconnect_exec verify x j) = Inl e"
  shows "\<not> bookkeeping_error x e"
proof (cases x)
  case (OpInsert i operation)
  with op show ?thesis
    by (auto simp: disconnect_insert_def drop_value_def operation_validate_def nonzero_error
        reservation_eq [OF inv] bookkeeping_error_def disconnect_require_nonzero_def Let_def
        split: option.splits if_splits sum.splits)
next
  case (OpLease i worker)
  have "checked_add (dr_attempt r) 1 \<noteq> None" if "fmlookup (dj_records j) i = Some r" "dr_state r = DPending" for r
  proof -
    have "unat (dr_attempt r) < 1024"
      using disconnect_inv_record(1) [OF inv that(1)] that(2) inv
      by (simp add: attempts_ok_def disconnect_inv_def)
    then show ?thesis by (simp add: checked_add_def)
  qed
  with op OpLease show ?thesis
    by (cases "disconnect_require j i")
      (auto simp: disconnect_lease_def drop_value_def require_error disconnect_require_iff
        lease_guard_def Let_def bookkeeping_error_def ok_or_def
        split: DisconnectState.splits option.splits dest: require_error)
next
  case (OpDispatch i worker token endpoint)
  with op show ?thesis
    by (cases "require_fence j i worker token")
      (auto simp: mark_dispatched_def drop_value_def disconnect_require_nonzero_def Let_def
        bookkeeping_error_def split: if_splits dest: fence_error)
next
  case (OpLost i worker token)
  with op show ?thesis
    by (cases "disconnect_require j i")
      (auto simp: mark_transport_lost_def drop_value_def Let_def bookkeeping_error_def
        split: if_splits DisconnectState.splits dest: require_error)
next
  case (OpRetry i worker token reason)
  show ?thesis
  proof (cases "disconnect_require j i")
    case (Inl err)
    with op OpRetry show ?thesis
      by (auto simp: retry_before_dispatch_def drop_value_def disconnect_require_nonzero_def
          require_error bookkeeping_error_def split: if_splits dest: require_error)
  next
    case (Inr r)
    with op OpRetry show ?thesis
      by (cases "require_fence j i worker token")
        (auto simp: retry_before_dispatch_def drop_value_def disconnect_require_nonzero_def
          retry_guard_def Let_def bookkeeping_error_def
          split: if_splits DisconnectState.splits dest: fence_error)
  qed
next
  case (OpReconcile i ev)
  with op have "snd (reconcile i ev verify j) = Inl e" by (auto simp: drop_value_def tryE_Inl_iff)
  with inv show ?thesis by (rule reconcile_error)
next
  case (OpArchive i d)
  show ?thesis
  proof (cases "disconnect_require j i")
    case (Inl err)
    with op OpArchive show ?thesis
      by (auto simp: archive_terminal_def drop_value_def disconnect_require_nonzero_def
          bookkeeping_error_def split: if_splits dest: require_error)
  next
    case (Inr r)
    then have "i |\<in>| fmdom (dj_reservations j)"
      using inv by (auto simp: disconnect_inv_def disconnect_require_iff intro: fmdomI)
    with op OpArchive Inr show ?thesis
      by (auto simp: archive_terminal_def drop_value_def disconnect_require_nonzero_def
          terminal_digest_def Let_def bookkeeping_error_def split: if_splits DisconnectState.splits)
  qed
next
  case (OpAdvance epoch d)
  have "dj_reservations j = fmempty" if "dj_records j = fmempty"
    using inv that by (intro fmap_ext) (auto simp: disconnect_inv_def fmdom_notD)
  with op OpAdvance show ?thesis
    by (auto simp: advance_epoch_def drop_value_def disconnect_require_nonzero_def
        bookkeeping_error_def split: if_splits)
qed



subsection \<open>Witnesses\<close>

definition wit_disconnect_config :: DisconnectJournalConfig where
  "wit_disconnect_config = \<lparr>dc_journal_id = 1, dc_epoch = 1, dc_active_capacity = 4,
     dc_tombstone_capacity = 4, dc_max_attempts = 2\<rparr>"

definition wit_journal :: DisconnectJournal where
  "wit_journal = \<lparr>dj_config = wit_disconnect_config, dj_records = fmempty, dj_tombstones = fmempty,
     dj_outcome_receipt_owners = fmempty, dj_verifier_receipt_owners = fmempty,
     dj_reservations = fmempty, dj_verifier_receipt_capacity = 16, dj_last_epoch_checkpoint = None\<rparr>"

lemma wit_disconnect_new: "disconnect_new wit_disconnect_config = Inr wit_journal"
  by (simp add: disconnect_new_def disconnect_config_validate_def wit_disconnect_config_def
      config_receipt_capacity_def verifier_receipts_per_intent_def usize_checked_mul_def
      DISCONNECT_VERIFIER_RECEIPTS_PER_ATTEMPT_def MAX_DISCONNECT_ACTIVE_RECORDS_def
      MAX_DISCONNECT_TOMBSTONES_def MAX_DISCONNECT_ATTEMPTS_def MAX_DISCONNECT_VERIFIER_RECEIPTS_def
      wit_journal_def)


definition wit_leased :: DisconnectRecord where
  "wit_leased = \<lparr>dr_id = 1, dr_operation = \<lparr>do_socket_generation = 1, do_operation_digest = 1\<rparr>,
     dr_attempt = 1, dr_lease_generation = 1, dr_state = DLeased 7 1\<rparr>"

definition wit_binding :: DisconnectDispatchBinding where
  "wit_binding = \<lparr>db_journal_id = 1, db_journal_epoch = 1, db_intent_id = 1,
     db_operation = \<lparr>do_socket_generation = 1, do_operation_digest = 1\<rparr>, db_attempt = 1,
     db_worker = 7, db_lease_token = 1, db_endpoint_digest = 5\<rparr>"

definition wit_leased_journal :: DisconnectJournal where
  "wit_leased_journal = wit_journal\<lparr>dj_records := fmupd 1 wit_leased fmempty,
     dj_reservations := fmupd 1 4 fmempty\<rparr>"

lemma wit_leased_reached:
  "fold (disconnect_step (\<lambda>_. True))
     [OpInsert 1 \<lparr>do_socket_generation = 1, do_operation_digest = 1\<rparr>, OpLease 1 7] wit_journal =
   wit_leased_journal"
proof -
  have "require_new_receipt_reservation wit_journal = Inr 4"
    by (subst reservation_eq [OF disconnect_new_inv [OF wit_disconnect_new]])
      (simp add: wit_journal_def wit_disconnect_config_def Let_def)
  then show ?thesis
    by (simp add: disconnect_step_def drop_value_def disconnect_insert_def disconnect_lease_def
        operation_validate_def disconnect_require_nonzero_def id_is_zero_def Let_def
        disconnect_require_def lease_guard_def checked_add_def
        wit_leased_journal_def wit_leased_def)
      (simp add: wit_journal_def wit_disconnect_config_def Let_def)
qed

theorem no_second_dispatch_witness:
  "\<exists>err. mark_dispatched 1 8 1 6
      (wit_leased_journal\<lparr>dj_records := fmupd 1 (wit_leased\<lparr>dr_state := DIndeterminate wit_binding None\<rparr>) fmempty\<rparr>) =
    (wit_leased_journal\<lparr>dj_records := fmupd 1 (wit_leased\<lparr>dr_state := DIndeterminate wit_binding None\<rparr>) fmempty\<rparr>,
     Inl err)"
proof -
  let ?j1 = "wit_leased_journal\<lparr>dj_records := fmupd 1 (wit_leased\<lparr>dr_state := DDispatched wit_binding\<rparr>) fmempty\<rparr>"
  let ?j2 = "wit_leased_journal\<lparr>dj_records := fmupd 1 (wit_leased\<lparr>dr_state := DIndeterminate wit_binding None\<rparr>) fmempty\<rparr>"
  have a: "mark_dispatched 1 7 1 5 wit_leased_journal =
      (?j1, Inr (wit_leased\<lparr>dr_state := DDispatched wit_binding\<rparr>))"
    by (simp add: mark_dispatched_def disconnect_require_nonzero_def id_is_zero_def require_fence_def
        disconnect_require_def wit_leased_journal_def wit_leased_def wit_binding_def wit_journal_def
        wit_disconnect_config_def Let_def)
  have b: "fold (disconnect_step (\<lambda>_. True)) [OpLost 1 7 1] ?j1 = ?j2"
    by (simp add: disconnect_step_def drop_value_def mark_transport_lost_def disconnect_require_def
        wit_leased_journal_def wit_leased_def wit_binding_def wit_journal_def Let_def)
  have "\<exists>err. mark_dispatched 1 8 1 6 (fold (disconnect_step (\<lambda>_. True)) [OpLost 1 7 1] ?j1) =
      (fold (disconnect_step (\<lambda>_. True)) [OpLost 1 7 1] ?j1, Inl err)"
    by (rule no_second_dispatch [OF a]) (simp, simp, simp only: b, simp)
  then show ?thesis unfolding b .
qed

end
