(* ===== verification/Connection_Actor.thy ===== *)
theory Connection_Actor
  imports Contracts Machine
begin

text \<open>
  The connection actor (\<open>crates/trnm-presence-router-v2/src/connection_actor.rs\<close>): the bounded
  state of one socket. Requests are admitted under a correlation id and a handle that is never
  reissued, responses and control frames are queued for writing under consecutive write
  sequences, and a drain fence lets admitted work finish before the socket is closed.
  \<open>VecDeque\<close> is a list, pushed at its end and popped at its front.
\<close>

subsection \<open>Limits and errors\<close>

definition MAX_CONNECTION_ACTOR_QUEUE_ITEMS :: usize where
  "MAX_CONNECTION_ACTOR_QUEUE_ITEMS = 65536"
definition MAX_CONNECTION_ACTOR_FRAME_BYTES :: usize where
  "MAX_CONNECTION_ACTOR_FRAME_BYTES = 4 * 1024 * 1024"
definition MAX_CONNECTION_ACTOR_BUFFER_BYTES :: usize where
  "MAX_CONNECTION_ACTOR_BUFFER_BYTES = 64 * 1024 * 1024"

datatype ConnectionActorError =
    CInvalidCapacity string
  | CCapacityTooLarge string usize usize
  | BufferBudgetOverflow
  | BufferBudgetExceeded usize usize
  | ZeroCorrelationId
  | CFrameTooLarge usize usize
  | InboundQueueFull usize
  | OutboundQueueFull usize
  | PendingQueueFull usize
  | DuplicateCorrelation u64
  | UnknownCorrelation u64
  | StaleRequestHandle u64 u64 u64
  | ResponseAlreadyQueued u64
  | ResponseNotDequeued u64
  | CannotCancelQueuedResponse u64
  | CDraining
  | CClosed
  | RequestSequenceExhausted
  | WriteSequenceExhausted
  | MustDrainBeforeClose
  | CannotCloseWithPendingWork

definition CorrelationId_new :: "u64 \<Rightarrow> ConnectionActorError + u64" where
  "CorrelationId_new v = (if v = 0 then Inl ZeroCorrelationId else Inr v)"

subsection \<open>Data\<close>

record RequestHandle =
  rh_correlation :: u64
  rh_admitted_at_sequence :: u64

record ConnectionActorConfig =
  cc_inbound_capacity :: usize
  cc_outbound_capacity :: usize
  cc_pending_capacity :: usize
  cc_max_frame_bytes :: usize

definition require_positive :: "string \<times> usize \<Rightarrow> ConnectionActorError + unit" where
  "require_positive = (\<lambda>(field, v). if v = 0 then Inl (CInvalidCapacity field) else Inr ())"

definition require_at_most :: "usize \<Rightarrow> string \<times> usize \<Rightarrow> ConnectionActorError + unit" where
  "require_at_most maximum = (\<lambda>(field, v).
     if v > maximum then Inl (CCapacityTooLarge field v maximum) else Inr ())"

definition actor_config_validate ::
    "ConnectionActorConfig \<Rightarrow> ConnectionActorError + ConnectionActorConfig" where
  "actor_config_validate c =
     tryE (forE require_positive
       [(''inbound_capacity'', cc_inbound_capacity c), (''outbound_capacity'', cc_outbound_capacity c),
        (''pending_capacity'', cc_pending_capacity c), (''max_frame_bytes'', cc_max_frame_bytes c)]) (\<lambda>_.
     tryE (forE (require_at_most MAX_CONNECTION_ACTOR_QUEUE_ITEMS)
       [(''inbound_capacity'', cc_inbound_capacity c), (''outbound_capacity'', cc_outbound_capacity c),
        (''pending_capacity'', cc_pending_capacity c)]) (\<lambda>_.
     if cc_max_frame_bytes c > MAX_CONNECTION_ACTOR_FRAME_BYTES
     then Inl (CCapacityTooLarge ''max_frame_bytes'' (cc_max_frame_bytes c)
       MAX_CONNECTION_ACTOR_FRAME_BYTES)
     else
     tryE (ok_or BufferBudgetOverflow
       (usize_checked_add (cc_inbound_capacity c) (cc_outbound_capacity c))) (\<lambda>queue_slots.
     tryE (ok_or BufferBudgetOverflow (usize_checked_mul queue_slots (cc_max_frame_bytes c))) (\<lambda>retained_bytes.
     if retained_bytes > MAX_CONNECTION_ACTOR_BUFFER_BYTES
     then Inl (BufferBudgetExceeded retained_bytes MAX_CONNECTION_ACTOR_BUFFER_BYTES)
     else Inr c))))"

datatype ConnectionActorState = ActorOpen | ActorDraining | ActorClosed

record InboundFrame =
  if_correlation :: "u64 option"
  if_payload :: "u8 list"

record OutboundFrame =
  of_sequence :: u64
  of_correlation :: "u64 option"
  of_request_handle :: "RequestHandle option"
  of_payload :: "u8 list"

record PendingRequest =
  pr_handle :: RequestHandle
  pr_admitted_at_sequence :: u64
  pr_response_sequence :: "u64 option"
  pr_response_dequeued :: bool

record ConnectionActor =
  ca_config :: ConnectionActorConfig
  ca_state :: ConnectionActorState
  ca_next_request :: u64
  ca_next_write :: u64
  ca_inbound :: "InboundFrame list"
  ca_outbound :: "OutboundFrame list"
  ca_pending :: "(u64, PendingRequest) fmap"

definition actor_new :: "ConnectionActorConfig \<Rightarrow> ConnectionActorError + ConnectionActor" where
  "actor_new config =
     tryE (actor_config_validate config) (\<lambda>config.
     Inr \<lparr>ca_config = config, ca_state = ActorOpen, ca_next_request = 1, ca_next_write = 1,
          ca_inbound = [], ca_outbound = [], ca_pending = fmempty\<rparr>)"

definition drain_converged :: "ConnectionActor \<Rightarrow> bool" where
  "drain_converged a \<longleftrightarrow> ca_state a = ActorDraining \<and> ca_inbound a = [] \<and> ca_outbound a = [] \<and>
     ca_pending a = fmempty"

subsection \<open>Guards\<close>

definition require_open :: "ConnectionActor \<Rightarrow> ConnectionActorError + unit" where
  "require_open a = (case ca_state a of
       ActorOpen \<Rightarrow> Inr () | ActorDraining \<Rightarrow> Inl CDraining | ActorClosed \<Rightarrow> Inl CClosed)"

definition require_not_closed :: "ConnectionActor \<Rightarrow> ConnectionActorError + unit" where
  "require_not_closed a = (if ca_state a = ActorClosed then Inl CClosed else Inr ())"

definition require_frame_size :: "ConnectionActor \<Rightarrow> usize \<Rightarrow> ConnectionActorError + unit" where
  "require_frame_size a actual =
     (if actual > cc_max_frame_bytes (ca_config a)
      then Inl (CFrameTooLarge (cc_max_frame_bytes (ca_config a)) actual) else Inr ())"

definition require_outbound_capacity :: "ConnectionActor \<Rightarrow> ConnectionActorError + unit" where
  "require_outbound_capacity a =
     (if length (ca_outbound a) \<ge> cc_outbound_capacity (ca_config a)
      then Inl (OutboundQueueFull (cc_outbound_capacity (ca_config a))) else Inr ())"

definition require_request_capacity :: "ConnectionActor \<Rightarrow> u64 \<Rightarrow> ConnectionActorError + unit" where
  "require_request_capacity a correlation =
     tryE (require_open a) (\<lambda>_.
     if correlation |\<in>| fmdom (ca_pending a) then Inl (DuplicateCorrelation correlation)
     else if fmap_len (ca_pending a) \<ge> cc_pending_capacity (ca_config a)
     then Inl (PendingQueueFull (cc_pending_capacity (ca_config a))) else Inr ())"

definition require_handle :: "ConnectionActor \<Rightarrow> RequestHandle \<Rightarrow> ConnectionActorError + PendingRequest" where
  "require_handle a handle =
     tryE (ok_or (UnknownCorrelation (rh_correlation handle))
             (fmlookup (ca_pending a) (rh_correlation handle))) (\<lambda>current.
     if pr_handle current \<noteq> handle
     then Inl (StaleRequestHandle (rh_correlation handle)
       (rh_admitted_at_sequence (pr_handle current)) (rh_admitted_at_sequence handle))
     else Inr current)"

subsection \<open>Operations\<close>

definition enqueue_inbound ::
    "InboundFrame \<Rightarrow> ConnectionActor \<Rightarrow> ConnectionActor \<times> (ConnectionActorError + unit)" where
  "enqueue_inbound frame a =
     commit_candidate a
      (tryE (require_open a) (\<lambda>_.
       tryE (require_frame_size a (length (if_payload frame))) (\<lambda>_.
       if length (ca_inbound a) \<ge> cc_inbound_capacity (ca_config a)
       then Inl (InboundQueueFull (cc_inbound_capacity (ca_config a)))
       else Inr (a\<lparr>ca_inbound := ca_inbound a @ [frame]\<rparr>, ()))))"

definition pop_inbound :: "ConnectionActor \<Rightarrow> ConnectionActor \<times> InboundFrame option" where
  "pop_inbound a = (case ca_inbound a of
       [] \<Rightarrow> (a, None) | frame # rest \<Rightarrow> (a\<lparr>ca_inbound := rest\<rparr>, Some frame))"

definition begin_request ::
    "u64 \<Rightarrow> ConnectionActor \<Rightarrow> ConnectionActor \<times> (ConnectionActorError + PendingRequest)" where
  "begin_request correlation a =
     commit_candidate a
      (tryE (require_request_capacity a correlation) (\<lambda>_.
       let admitted_at_sequence = ca_next_request a in
       tryE (ok_or RequestSequenceExhausted (checked_add admitted_at_sequence 1)) (\<lambda>next_request_sequence.
       let handle = \<lparr>rh_correlation = correlation, rh_admitted_at_sequence = admitted_at_sequence\<rparr>;
           request = \<lparr>pr_handle = handle, pr_admitted_at_sequence = admitted_at_sequence,
                      pr_response_sequence = None, pr_response_dequeued = False\<rparr> in
       Inr (a\<lparr>ca_pending := fmupd correlation request (ca_pending a),
              ca_next_request := next_request_sequence\<rparr>, request))))"

definition admit_immediate_response ::
    "u64 \<Rightarrow> u8 list \<Rightarrow> ConnectionActor \<Rightarrow>
     ConnectionActor \<times> (ConnectionActorError + PendingRequest)" where
  "admit_immediate_response correlation payload a =
     commit_candidate a
      (tryE (require_request_capacity a correlation) (\<lambda>_.
       tryE (require_outbound_capacity a) (\<lambda>_.
       tryE (require_frame_size a (length payload)) (\<lambda>_.
       let admitted_at_sequence = ca_next_request a in
       tryE (ok_or RequestSequenceExhausted (checked_add admitted_at_sequence 1)) (\<lambda>next_request_sequence.
       let response_sequence = ca_next_write a in
       tryE (ok_or WriteSequenceExhausted (checked_add response_sequence 1)) (\<lambda>next_write_sequence.
       let handle = \<lparr>rh_correlation = correlation, rh_admitted_at_sequence = admitted_at_sequence\<rparr>;
           request = \<lparr>pr_handle = handle, pr_admitted_at_sequence = admitted_at_sequence,
                      pr_response_sequence = Some response_sequence, pr_response_dequeued = False\<rparr>;
           frame = \<lparr>of_sequence = response_sequence, of_correlation = Some correlation,
                    of_request_handle = Some handle, of_payload = payload\<rparr> in
       Inr (a\<lparr>ca_pending := fmupd correlation request (ca_pending a),
              ca_outbound := ca_outbound a @ [frame],
              ca_next_request := next_request_sequence,
              ca_next_write := next_write_sequence\<rparr>, request)))))))"

definition enqueue_response ::
    "RequestHandle \<Rightarrow> u8 list \<Rightarrow> ConnectionActor \<Rightarrow> ConnectionActor \<times> (ConnectionActorError + u64)" where
  "enqueue_response handle payload a =
     commit_candidate a
      (tryE (require_not_closed a) (\<lambda>_.
       tryE (require_frame_size a (length payload)) (\<lambda>_.
       tryE (require_outbound_capacity a) (\<lambda>_.
       let correlation = rh_correlation handle in
       tryE (require_handle a handle) (\<lambda>current.
       if pr_response_sequence current \<noteq> None then Inl (ResponseAlreadyQueued correlation)
       else let sequence = ca_next_write a in
         tryE (ok_or WriteSequenceExhausted (checked_add sequence 1)) (\<lambda>next_write_sequence.
         let frame = \<lparr>of_sequence = sequence, of_correlation = Some correlation,
                      of_request_handle = Some handle, of_payload = payload\<rparr> in
         Inr (a\<lparr>ca_outbound := ca_outbound a @ [frame],
                ca_pending := fmupd correlation (current\<lparr>pr_response_sequence := Some sequence\<rparr>)
                  (ca_pending a),
                ca_next_write := next_write_sequence\<rparr>, sequence)))))))"

definition enqueue_control ::
    "u8 list \<Rightarrow> ConnectionActor \<Rightarrow> ConnectionActor \<times> (ConnectionActorError + u64)" where
  "enqueue_control payload a =
     commit_candidate a
      (tryE (require_open a) (\<lambda>_.
       tryE (require_frame_size a (length payload)) (\<lambda>_.
       tryE (require_outbound_capacity a) (\<lambda>_.
       let sequence = ca_next_write a in
       tryE (ok_or WriteSequenceExhausted (checked_add sequence 1)) (\<lambda>next_write_sequence.
       let frame = \<lparr>of_sequence = sequence, of_correlation = None, of_request_handle = None,
                    of_payload = payload\<rparr> in
       Inr (a\<lparr>ca_outbound := ca_outbound a @ [frame],
              ca_next_write := next_write_sequence\<rparr>, sequence))))))"

definition enqueue_outbound ::
    "RequestHandle option \<Rightarrow> u8 list \<Rightarrow> ConnectionActor \<Rightarrow>
     ConnectionActor \<times> (ConnectionActorError + u64)" where
  "enqueue_outbound request payload a = (case request of
       Some handle \<Rightarrow> enqueue_response handle payload a
     | None \<Rightarrow> enqueue_control payload a)"

definition note_dequeued :: "OutboundFrame \<Rightarrow> ConnectionActor \<Rightarrow> ConnectionActor" where
  "note_dequeued frame a = (case of_request_handle frame of
       None \<Rightarrow> a
     | Some handle \<Rightarrow>
         (case require_handle a handle of
            Inl e \<Rightarrow> a
          | Inr current \<Rightarrow> a\<lparr>ca_pending := fmupd (rh_correlation handle)
              (current\<lparr>pr_response_dequeued := True\<rparr>) (ca_pending a)\<rparr>))"

definition pop_outbound :: "ConnectionActor \<Rightarrow> ConnectionActor \<times> OutboundFrame option" where
  "pop_outbound a = (case ca_outbound a of
       [] \<Rightarrow> (a, None)
     | frame # rest \<Rightarrow> (note_dequeued frame (a\<lparr>ca_outbound := rest\<rparr>), Some frame))"

definition complete_request ::
    "RequestHandle \<Rightarrow> ConnectionActor \<Rightarrow> ConnectionActor \<times> (ConnectionActorError + PendingRequest)" where
  "complete_request handle a =
     commit_candidate a
      (tryE (require_handle a handle) (\<lambda>current.
       if \<not> pr_response_dequeued current then Inl (ResponseNotDequeued (rh_correlation handle))
       else Inr (a\<lparr>ca_pending := fmdrop (rh_correlation handle) (ca_pending a)\<rparr>, current)))"

definition cancel_request ::
    "RequestHandle \<Rightarrow> ConnectionActor \<Rightarrow> ConnectionActor \<times> (ConnectionActorError + PendingRequest)" where
  "cancel_request handle a =
     commit_candidate a
      (tryE (require_handle a handle) (\<lambda>current.
       if pr_response_sequence current \<noteq> None
       then Inl (CannotCancelQueuedResponse (rh_correlation handle))
       else Inr (a\<lparr>ca_pending := fmdrop (rh_correlation handle) (ca_pending a)\<rparr>, current)))"

definition begin_drain :: "ConnectionActor \<Rightarrow> ConnectionActor \<times> (ConnectionActorError + unit)" where
  "begin_drain a = (case ca_state a of
       ActorOpen \<Rightarrow> (a\<lparr>ca_state := ActorDraining\<rparr>, Inr ())
     | ActorDraining \<Rightarrow> (a, Inr ())
     | ActorClosed \<Rightarrow> (a, Inl CClosed))"

definition actor_close :: "ConnectionActor \<Rightarrow> ConnectionActor \<times> (ConnectionActorError + unit)" where
  "actor_close a = (case ca_state a of
       ActorOpen \<Rightarrow> (a, Inl MustDrainBeforeClose)
     | ActorClosed \<Rightarrow> (a, Inr ())
     | ActorDraining \<Rightarrow>
         if \<not> drain_converged a then (a, Inl CannotCloseWithPendingWork)
         else (a\<lparr>ca_state := ActorClosed\<rparr>, Inr ()))"

end
