(* ===== verification/Connection_Actor_Proofs.thy ===== *)
theory Connection_Actor_Proofs
  imports Connection_Actor
begin

text \<open>
  Correctness of the connection actor over its whole history: the operations are run with a
  log of what they returned, and \<open>trace_inv\<close> relates the state to that log. From it follow the
  order of the writes, one answer per admitted request, the buffer budget, and that closing
  leaves no admitted request behind.
\<close>

subsection \<open>Runs with their log\<close>

datatype ActorOp =
    AInbound InboundFrame
  | APopInbound
  | ABegin u64
  | AImmediate u64 "u8 list"
  | AOutbound "RequestHandle option" "u8 list"
  | APopOutbound
  | AComplete RequestHandle
  | ACancel RequestHandle
  | ADrain
  | AClose

datatype ActorEvent =
    Admitted RequestHandle
  | Written OutboundFrame
  | Cancelled RequestHandle
  | Other

definition event_of :: "('a \<Rightarrow> ActorEvent) \<Rightarrow> 's \<times> ('e + 'a) \<Rightarrow> 's \<times> ActorEvent" where
  "event_of f r = (fst r, case snd r of Inl e \<Rightarrow> Other | Inr x \<Rightarrow> f x)"

fun actor_exec :: "ActorOp \<Rightarrow> ConnectionActor \<Rightarrow> ConnectionActor \<times> ActorEvent" where
  "actor_exec (AInbound frame) a = event_of (\<lambda>_. Other) (enqueue_inbound frame a)"
| "actor_exec APopInbound a = (fst (pop_inbound a), Other)"
| "actor_exec (ABegin c) a = event_of (\<lambda>r. Admitted (pr_handle r)) (begin_request c a)"
| "actor_exec (AImmediate c payload) a =
     event_of (\<lambda>r. Admitted (pr_handle r)) (admit_immediate_response c payload a)"
| "actor_exec (AOutbound h payload) a = event_of (\<lambda>_. Other) (enqueue_outbound h payload a)"
| "actor_exec APopOutbound a = (fst (pop_outbound a),
     case snd (pop_outbound a) of None \<Rightarrow> Other | Some frame \<Rightarrow> Written frame)"
| "actor_exec (AComplete h) a = event_of (\<lambda>_. Other) (complete_request h a)"
| "actor_exec (ACancel h) a = event_of (\<lambda>r. Cancelled (pr_handle r)) (cancel_request h a)"
| "actor_exec ADrain a = event_of (\<lambda>_. Other) (begin_drain a)"
| "actor_exec AClose a = event_of (\<lambda>_. Other) (actor_close a)"

text \<open>The state with the log so far.\<close>

definition actor_step ::
    "ActorOp \<Rightarrow> ActorEvent list \<times> ConnectionActor \<Rightarrow> ActorEvent list \<times> ConnectionActor" where
  "actor_step x s = (fst s @ [snd (actor_exec x (snd s))], fst (actor_exec x (snd s)))"

fun admitted_of :: "ActorEvent \<Rightarrow> RequestHandle list" where
  "admitted_of (Admitted h) = [h]" | "admitted_of _ = []"

fun written_of :: "ActorEvent \<Rightarrow> OutboundFrame list" where
  "written_of (Written f) = [f]" | "written_of _ = []"

fun cancelled_of :: "ActorEvent \<Rightarrow> RequestHandle list" where
  "cancelled_of (Cancelled h) = [h]" | "cancelled_of _ = []"

definition admitted :: "ActorEvent list \<Rightarrow> RequestHandle list" where
  "admitted log = concat (map admitted_of log)"

definition written :: "ActorEvent list \<Rightarrow> OutboundFrame list" where
  "written log = concat (map written_of log)"

definition cancelled :: "ActorEvent list \<Rightarrow> RequestHandle list" where
  "cancelled log = concat (map cancelled_of log)"

lemma log_snoc [simp]:
  "admitted [] = []" "written [] = []" "cancelled [] = []"
  "admitted (log @ [e]) = admitted log @ admitted_of e"
  "written (log @ [e]) = written log @ written_of e"
  "cancelled (log @ [e]) = cancelled log @ cancelled_of e"
  by (simp_all add: admitted_def written_def cancelled_def)

definition answers :: "OutboundFrame list \<Rightarrow> RequestHandle list" where
  "answers fs = List.map_filter of_request_handle fs"

lemma answers_simps [simp]:
  "answers [] = []"
  "answers (f # fs) = (case of_request_handle f of None \<Rightarrow> answers fs | Some h \<Rightarrow> h # answers fs)"
  by (simp_all add: answers_def List.map_filter_simps split: option.splits)

lemma answers_append [simp]: "answers (fs @ gs) = answers fs @ answers gs"
  by (induction fs) (auto split: option.splits)

subsection \<open>The invariant\<close>

definition writes_ok :: "u64 \<Rightarrow> OutboundFrame list \<Rightarrow> bool" where
  "writes_ok nxt fs \<longleftrightarrow> unat nxt = Suc (length fs) \<and>
     map (\<lambda>f. unat (of_sequence f)) fs = [1..<Suc (length fs)]"

lemma writes_ok_snoc:
  assumes "writes_ok nxt fs" and "checked_add nxt 1 = Some nxt'" and "of_sequence f = nxt"
  shows "writes_ok nxt' (fs @ [f])"
  using assms by (simp add: writes_ok_def checked_add_one_Some)

text \<open>The handles under \<open>nxt\<close> are taken.\<close>

definition handles_ok :: "u64 \<Rightarrow> RequestHandle list \<Rightarrow> bool" where
  "handles_ok nxt hs \<longleftrightarrow> distinct hs \<and> (\<forall>h \<in> set hs. rh_admitted_at_sequence h < nxt)"

lemma handles_ok_snoc:
  assumes "handles_ok nxt hs" and "checked_add nxt 1 = Some nxt'" and "rh_admitted_at_sequence h = nxt"
  shows "h \<notin> set hs" "handles_ok nxt' (hs @ [h])"
  using assms checked_add_one_mono [OF assms(2)] by (auto simp: handles_ok_def dest: less_trans)

text \<open>
  A pending request was admitted and not cancelled, its response is on the way exactly when it
  has a write sequence, and it counts as dequeued only when its response was written.
\<close>

definition pending_ok ::
    "RequestHandle list \<Rightarrow> OutboundFrame list \<Rightarrow> OutboundFrame list \<Rightarrow> RequestHandle list \<Rightarrow>
     (u64, PendingRequest) fmap \<Rightarrow> bool" where
  "pending_ok adm wire queue can m \<longleftrightarrow> (\<forall>k r. fmlookup m k = Some r \<longrightarrow>
     rh_correlation (pr_handle r) = k \<and> pr_handle r \<in> set adm \<and> pr_handle r \<notin> set can \<and>
     (pr_response_sequence r \<noteq> None \<longleftrightarrow> pr_handle r \<in> set (answers (wire @ queue))) \<and>
     (pr_response_dequeued r \<longrightarrow> pr_handle r \<in> set (answers wire)))"

lemma pending_okD:
  assumes "pending_ok adm wire queue can m" and "fmlookup m k = Some r"
  shows "rh_correlation (pr_handle r) = k" "pr_handle r \<in> set adm" "pr_handle r \<notin> set can"
    "pr_response_sequence r \<noteq> None \<longleftrightarrow> pr_handle r \<in> set (answers (wire @ queue))"
    "pr_response_dequeued r \<Longrightarrow> pr_handle r \<in> set (answers wire)"
  using assms unfolding pending_ok_def by blast+

definition accounted ::
    "RequestHandle list \<Rightarrow> OutboundFrame list \<Rightarrow> RequestHandle list \<Rightarrow> (u64, PendingRequest) fmap \<Rightarrow> bool" where
  "accounted adm wire can m \<longleftrightarrow> (\<forall>h \<in> set adm.
     h \<in> set (answers wire) \<or> h \<in> set can \<or> (\<exists>r. fmlookup m (rh_correlation h) = Some r \<and> pr_handle r = h))"

lemma accounted_upd:
  assumes "accounted adm wire can m" and "fmlookup m c = Some r" and "pr_handle r' = pr_handle r"
  shows "accounted adm wire can (fmupd c r' m)"
  using assms unfolding accounted_def by (metis fmupd_lookup option.inject)

lemma pending_ok_drop:
  assumes "pending_ok adm wire queue can m"
    and "\<And>h. h \<in> set can' \<Longrightarrow> h \<in> set can \<or> rh_correlation h = c"
  shows "pending_ok adm wire queue can' (fmdrop c m)"
  unfolding pending_ok_def
proof (intro allI impI)
  fix k x assume "fmlookup (fmdrop c m) k = Some x"
  then have "fmlookup m k = Some x" "k \<noteq> c" by (auto split: if_splits)
  with pending_okD [OF assms(1), of k x] assms(2) [of "pr_handle x"]
  show "rh_correlation (pr_handle x) = k \<and> pr_handle x \<in> set adm \<and> pr_handle x \<notin> set can' \<and>
      (pr_response_sequence x \<noteq> None \<longleftrightarrow> pr_handle x \<in> set (answers (wire @ queue))) \<and>
      (pr_response_dequeued x \<longrightarrow> pr_handle x \<in> set (answers wire))"
    by auto
qed

definition bounds_ok :: "ConnectionActor \<Rightarrow> bool" where
  "bounds_ok a \<longleftrightarrow>
     length (ca_inbound a) \<le> cc_inbound_capacity (ca_config a) \<and>
     length (ca_outbound a) \<le> cc_outbound_capacity (ca_config a) \<and>
     fmap_len (ca_pending a) \<le> cc_pending_capacity (ca_config a) \<and>
     (\<forall>f \<in> set (ca_inbound a). length (if_payload f) \<le> cc_max_frame_bytes (ca_config a)) \<and>
     (\<forall>f \<in> set (ca_outbound a). length (of_payload f) \<le> cc_max_frame_bytes (ca_config a))"

definition closed_ok :: "ConnectionActor \<Rightarrow> bool" where
  "closed_ok a \<longleftrightarrow> (ca_state a = ActorClosed \<longrightarrow>
     ca_inbound a = [] \<and> ca_outbound a = [] \<and> ca_pending a = fmempty)"

definition history_ok ::
    "RequestHandle list \<Rightarrow> OutboundFrame list \<Rightarrow> RequestHandle list \<Rightarrow> u64 \<Rightarrow> u64 \<Rightarrow>
     OutboundFrame list \<Rightarrow> (u64, PendingRequest) fmap \<Rightarrow> bool" where
  "history_ok adm wire can nr nw queue m \<longleftrightarrow>
     writes_ok nw (wire @ queue) \<and> handles_ok nr adm \<and>
     distinct (answers (wire @ queue)) \<and> set (answers (wire @ queue)) \<subseteq> set adm \<and>
     set can \<inter> set (answers (wire @ queue)) = {} \<and> set can \<subseteq> set adm \<and>
     pending_ok adm wire queue can m \<and> accounted adm wire can m"

lemma history_admit:
  assumes "history_ok adm wire can nr nw queue m" and "checked_add nr 1 = Some nr'"
    and "fmlookup m c = None" and "h = \<lparr>rh_correlation = c, rh_admitted_at_sequence = nr\<rparr>"
    and "r = \<lparr>pr_handle = h, pr_admitted_at_sequence = nr, pr_response_sequence = None,
               pr_response_dequeued = False\<rparr>"
  shows "history_ok (adm @ [h]) wire can nr' nw queue (fmupd c r m)"
proof -
  have hs: "handles_ok nr adm" "set (answers (wire @ queue)) \<subseteq> set adm" "set can \<subseteq> set adm"
    using assms(1) by (simp_all add: history_ok_def)
  have fresh: "h \<notin> set adm" "handles_ok nr' (adm @ [h])"
    using handles_ok_snoc [OF hs(1) assms(2), of h] assms(4) by simp_all
  then have "h \<notin> set (answers (wire @ queue))" "h \<notin> set can" using hs by auto
  then have "pending_ok (adm @ [h]) wire queue can (fmupd c r m)"
    using assms(1,4,5) by (auto simp: history_ok_def pending_ok_def)
  moreover have "accounted (adm @ [h]) wire can (fmupd c r m)"
    using assms(1,3,4,5) by (fastforce simp: history_ok_def accounted_def)
  ultimately show ?thesis using assms(1) fresh by (auto simp: history_ok_def)
qed

lemma history_respond:
  assumes "history_ok adm wire can nr nw queue m" and "checked_add nw 1 = Some nw'"
    and r: "fmlookup m c = Some r" "pr_handle r = h" "pr_response_sequence r = None"
    and f: "of_sequence f = nw" "of_request_handle f = Some h"
  shows "history_ok adm wire can nr nw' (queue @ [f]) (fmupd c (r\<lparr>pr_response_sequence := Some nw\<rparr>) m)"
proof -
  have P: "pending_ok adm wire queue can m" "accounted adm wire can m"
    using assms(1) by (simp_all add: history_ok_def)
  then have h: "h \<in> set adm" "h \<notin> set can" "h \<notin> set (answers (wire @ queue))" "rh_correlation h = c"
    using r pending_okD [OF P(1) r(1)] by auto
  have "pending_ok adm wire (queue @ [f]) can (fmupd c (r\<lparr>pr_response_sequence := Some nw\<rparr>) m)"
    unfolding pending_ok_def
  proof (intro allI impI)
    fix k x assume x: "fmlookup (fmupd c (r\<lparr>pr_response_sequence := Some nw\<rparr>) m) k = Some x"
    show "rh_correlation (pr_handle x) = k \<and> pr_handle x \<in> set adm \<and> pr_handle x \<notin> set can \<and>
      (pr_response_sequence x \<noteq> None \<longleftrightarrow> pr_handle x \<in> set (answers (wire @ queue @ [f]))) \<and>
      (pr_response_dequeued x \<longrightarrow> pr_handle x \<in> set (answers wire))"
    proof (cases "k = c")
      case True
      with x have "x = r\<lparr>pr_response_sequence := Some nw\<rparr>" by simp
      with True r h f pending_okD(5) [OF P(1) r(1)] show ?thesis by auto
    next
      case False
      with x have y: "fmlookup m k = Some x" by simp
      with P(1) have corr: "rh_correlation (pr_handle x) = k" by (simp add: pending_ok_def)
      with False h have "pr_handle x \<noteq> h" by auto
      with f pending_okD [OF P(1) y] show ?thesis by auto
    qed
  qed
  moreover have "accounted adm wire can (fmupd c (r\<lparr>pr_response_sequence := Some nw\<rparr>) m)"
    by (rule accounted_upd [OF P(2) r(1)]) simp
  moreover have "writes_ok nw' ((wire @ queue) @ [f])"
    using assms(1) by (intro writes_ok_snoc [OF _ assms(2) f(1)]) (simp add: history_ok_def)
  ultimately show ?thesis using assms(1) h f by (auto simp: history_ok_def)
qed

lemma history_control:
  assumes "history_ok adm wire can nr nw queue m" and "checked_add nw 1 = Some nw'"
    and f: "of_sequence f = nw" "of_request_handle f = None"
  shows "history_ok adm wire can nr nw' (queue @ [f]) m"
proof -
  have "writes_ok nw' ((wire @ queue) @ [f])"
    using assms(1) by (intro writes_ok_snoc [OF _ assms(2) f(1)]) (simp add: history_ok_def)
  then show ?thesis using assms(1) f by (simp add: history_ok_def pending_ok_def)
qed

lemma history_write:
  assumes "history_ok adm wire can nr nw (f # queue) m"
  shows "history_ok adm (wire @ [f]) can nr nw queue m"
  using assms by (auto simp: history_ok_def pending_ok_def accounted_def split: option.splits)

lemma history_dequeued:
  assumes "history_ok adm wire can nr nw queue m" and "fmlookup m c = Some r"
    and "pr_handle r \<in> set (answers wire)"
  shows "history_ok adm wire can nr nw queue (fmupd c (r\<lparr>pr_response_dequeued := True\<rparr>) m)"
proof -
  let ?m = "fmupd c (r\<lparr>pr_response_dequeued := True\<rparr>) m"
  have P: "pending_ok adm wire queue can m" "accounted adm wire can m"
    using assms(1) by (simp_all add: history_ok_def)
  have "pending_ok adm wire queue can ?m"
    unfolding pending_ok_def
  proof (intro allI impI)
    fix k x assume x: "fmlookup ?m k = Some x"
    show "rh_correlation (pr_handle x) = k \<and> pr_handle x \<in> set adm \<and> pr_handle x \<notin> set can \<and>
      (pr_response_sequence x \<noteq> None \<longleftrightarrow> pr_handle x \<in> set (answers (wire @ queue))) \<and>
      (pr_response_dequeued x \<longrightarrow> pr_handle x \<in> set (answers wire))"
      using x pending_okD [OF P(1), of k x] pending_okD [OF P(1) assms(2)] assms(3)
      by (cases "k = c") auto
  qed
  moreover have "accounted adm wire can ?m"
    by (rule accounted_upd [OF P(2) assms(2)]) simp
  ultimately show ?thesis using assms(1) by (simp add: history_ok_def)
qed

lemma history_complete:
  assumes "history_ok adm wire can nr nw queue m" and "fmlookup m c = Some r"
    and "pr_response_dequeued r"
  shows "history_ok adm wire can nr nw queue (fmdrop c m)"
proof -
  have "pr_handle r \<in> set (answers wire)"
    using pending_okD(5) [OF _ assms(2,3)] assms(1) by (auto simp: history_ok_def)
  then have "accounted adm wire can (fmdrop c m)"
    using assms(1,2) by (auto simp: history_ok_def accounted_def)
  moreover have "pending_ok adm wire queue can (fmdrop c m)"
    using assms(1) by (intro pending_ok_drop [of _ _ _ can]) (auto simp: history_ok_def)
  ultimately show ?thesis using assms(1) by (simp add: history_ok_def)
qed

lemma history_cancel:
  assumes "history_ok adm wire can nr nw queue m" and "fmlookup m c = Some r"
    and "pr_response_sequence r = None"
  shows "history_ok adm wire (can @ [pr_handle r]) nr nw queue (fmdrop c m)"
proof -
  have r: "pr_handle r \<notin> set (answers (wire @ queue))" "pr_handle r \<in> set adm"
    "rh_correlation (pr_handle r) = c"
    using assms(3) pending_okD [OF _ assms(2)] assms(1) by (auto simp: history_ok_def)
  have "accounted adm wire (can @ [pr_handle r]) (fmdrop c m)"
    using assms(1,2) by (auto simp: history_ok_def accounted_def)
  moreover have "pending_ok adm wire queue (can @ [pr_handle r]) (fmdrop c m)"
    using assms(1) r(3) by (intro pending_ok_drop [of _ _ _ can]) (auto simp: history_ok_def)
  ultimately show ?thesis using assms(1) r by (auto simp: history_ok_def)
qed

subsection \<open>Every operation keeps it\<close>

definition config_ok :: "ConnectionActorConfig \<Rightarrow> bool" where
  "config_ok c \<longleftrightarrow> actor_config_validate c = Inr c"

definition actor_inv :: "ActorEvent list \<times> ConnectionActor \<Rightarrow> bool" where
  "actor_inv s \<longleftrightarrow> (let log = fst s; a = snd s in
     history_ok (admitted log) (written log) (cancelled log) (ca_next_request a) (ca_next_write a)
       (ca_outbound a) (ca_pending a) \<and>
     bounds_ok a \<and> closed_ok a \<and> config_ok (ca_config a))"

lemma require_open_iff: "require_open a = Inr u \<longleftrightarrow> ca_state a = ActorOpen"
  by (auto simp: require_open_def split: ConnectionActorState.splits)

lemma require_request_capacity_iff:
  "require_request_capacity a c = Inr u \<longleftrightarrow>
     ca_state a = ActorOpen \<and> fmlookup (ca_pending a) c = None \<and>
     fmap_len (ca_pending a) < cc_pending_capacity (ca_config a)"
  by (auto simp: require_request_capacity_def require_open_iff fmlookup_dom_iff not_le)

lemma require_handle_iff:
  "require_handle a h = Inr r \<longleftrightarrow>
     fmlookup (ca_pending a) (rh_correlation h) = Some r \<and> pr_handle r = h"
  by (auto simp: require_handle_def)

lemma admitted_fresh_bounds:
  "fmlookup m c = None \<Longrightarrow> fmap_len m < n \<Longrightarrow> fmap_len (fmupd c r m) \<le> n"
  by (simp add: card_simps)

lemma inbound_inv:
  assumes "actor_inv (log, a)" and "enqueue_inbound frame a = (a', Inr u)"
  shows "actor_inv (log @ [Other], a')"
proof -
  have "a' = a\<lparr>ca_inbound := ca_inbound a @ [frame]\<rparr>" "ca_state a = ActorOpen"
    "length (if_payload frame) \<le> cc_max_frame_bytes (ca_config a)"
    "length (ca_inbound a) < cc_inbound_capacity (ca_config a)"
    using assms(2) by (auto simp: enqueue_inbound_def require_open_iff require_frame_size_def split: if_splits)
  with assms(1) show ?thesis by (auto simp: actor_inv_def bounds_ok_def closed_ok_def Let_def)
qed

lemma begin_inv:
  assumes "actor_inv (log, a)" and "begin_request c a = (a', Inr r)"
  shows "actor_inv (log @ [Admitted (pr_handle r)], a')"
proof -
  obtain n where n: "ca_state a = ActorOpen" "fmlookup (ca_pending a) c = None"
    "fmap_len (ca_pending a) < cc_pending_capacity (ca_config a)"
    "checked_add (ca_next_request a) 1 = Some n"
    "r = \<lparr>pr_handle = \<lparr>rh_correlation = c, rh_admitted_at_sequence = ca_next_request a\<rparr>,
          pr_admitted_at_sequence = ca_next_request a, pr_response_sequence = None,
          pr_response_dequeued = False\<rparr>"
    "a' = a\<lparr>ca_pending := fmupd c r (ca_pending a), ca_next_request := n\<rparr>"
    using assms(2) by (auto simp: begin_request_def require_request_capacity_iff Let_def)
  from assms(1) have "history_ok (admitted log @ [pr_handle r]) (written log) (cancelled log) n
      (ca_next_write a) (ca_outbound a) (fmupd c r (ca_pending a))"
    unfolding actor_inv_def Let_def
    by (intro history_admit [OF _ n(4,2)]) (simp_all add: n(5))
  with assms(1) n(1,6) admitted_fresh_bounds [OF n(2,3)] show ?thesis
    by (simp add: actor_inv_def bounds_ok_def closed_ok_def Let_def)
qed

lemma response_inv:
  assumes "actor_inv (log, a)" and "enqueue_response h payload a = (a', Inr sequence)"
  shows "actor_inv (log @ [Other], a')"
proof -
  obtain r n where r: "ca_state a \<noteq> ActorClosed" "length payload \<le> cc_max_frame_bytes (ca_config a)"
    "length (ca_outbound a) < cc_outbound_capacity (ca_config a)"
    "fmlookup (ca_pending a) (rh_correlation h) = Some r" "pr_handle r = h"
    "pr_response_sequence r = None" "checked_add (ca_next_write a) 1 = Some n"
    "a' = a\<lparr>ca_outbound := ca_outbound a @ [\<lparr>of_sequence = ca_next_write a,
              of_correlation = Some (rh_correlation h), of_request_handle = Some h,
              of_payload = payload\<rparr>],
            ca_pending := fmupd (rh_correlation h)
              (r\<lparr>pr_response_sequence := Some (ca_next_write a)\<rparr>) (ca_pending a),
            ca_next_write := n\<rparr>"
    using assms(2) by (auto simp: enqueue_response_def require_not_closed_def require_frame_size_def
        require_outbound_capacity_def require_handle_iff Let_def split: if_splits)
  from assms(1) have "history_ok (admitted log) (written log) (cancelled log) (ca_next_request a) n
      (ca_outbound a @ [\<lparr>of_sequence = ca_next_write a,
              of_correlation = Some (rh_correlation h), of_request_handle = Some h,
              of_payload = payload\<rparr>])
      (fmupd (rh_correlation h) (r\<lparr>pr_response_sequence := Some (ca_next_write a)\<rparr>) (ca_pending a))"
    unfolding actor_inv_def Let_def
    by (intro history_respond [OF _ r(7,4,5,6)]) simp_all
  with assms(1) r(1-3,8) r(4) show ?thesis
    by (auto simp: actor_inv_def bounds_ok_def closed_ok_def Let_def card_simps)
qed

text \<open>Admitting a request with its response is admitting it and then responding.\<close>

lemma admit_immediate_split:
  assumes "admit_immediate_response c payload a = (a', Inr r)"
  obtains b q where "begin_request c a = (b, Inr q)" "pr_handle q = pr_handle r"
    "enqueue_response (pr_handle r) payload b = (a', Inr (ca_next_write a))"
proof -
  obtain n k where n: "ca_state a = ActorOpen" "fmlookup (ca_pending a) c = None"
    "fmap_len (ca_pending a) < cc_pending_capacity (ca_config a)"
    "length payload \<le> cc_max_frame_bytes (ca_config a)"
    "length (ca_outbound a) < cc_outbound_capacity (ca_config a)"
    "checked_add (ca_next_request a) 1 = Some n" "checked_add (ca_next_write a) 1 = Some k"
    "pr_handle r = \<lparr>rh_correlation = c, rh_admitted_at_sequence = ca_next_request a\<rparr>"
    "r = \<lparr>pr_handle = \<lparr>rh_correlation = c, rh_admitted_at_sequence = ca_next_request a\<rparr>,
          pr_admitted_at_sequence = ca_next_request a, pr_response_sequence = Some (ca_next_write a),
          pr_response_dequeued = False\<rparr>"
    "a' = a\<lparr>ca_pending := fmupd c r (ca_pending a),
            ca_outbound := ca_outbound a @ [\<lparr>of_sequence = ca_next_write a,
              of_correlation = Some c, of_request_handle = Some (pr_handle r), of_payload = payload\<rparr>],
            ca_next_request := n, ca_next_write := k\<rparr>"
    using assms by (auto simp: admit_immediate_response_def require_request_capacity_iff
        require_frame_size_def require_outbound_capacity_def Let_def split: if_splits)
  let ?q = "\<lparr>pr_handle = pr_handle r, pr_admitted_at_sequence = ca_next_request a,
      pr_response_sequence = None, pr_response_dequeued = False\<rparr>"
  let ?b = "a\<lparr>ca_pending := fmupd c ?q (ca_pending a), ca_next_request := n\<rparr>"
  have b: "begin_request c a = (?b, Inr ?q)"
    using n(1-3,6,8) by (simp add: begin_request_def require_request_capacity_iff Let_def)
  have e: "enqueue_response (pr_handle r) payload ?b = (a', Inr (ca_next_write a))"
    using n by (simp add: enqueue_response_def require_not_closed_def require_frame_size_def
        require_outbound_capacity_def require_handle_iff Let_def)
  show thesis by (rule that [OF b _ e]) simp
qed

lemma immediate_inv:
  assumes "actor_inv (log, a)" and "admit_immediate_response c payload a = (a', Inr r)"
  shows "actor_inv (log @ [Admitted (pr_handle r)], a')"
proof -
  obtain b q where b: "begin_request c a = (b, Inr q)" "pr_handle q = pr_handle r"
    "enqueue_response (pr_handle r) payload b = (a', Inr (ca_next_write a))"
    by (rule admit_immediate_split [OF assms(2)])
  from response_inv [OF begin_inv [OF assms(1) b(1)] b(3)] b(2) show ?thesis
    by (simp add: actor_inv_def Let_def admitted_def written_def cancelled_def)
qed

lemma control_inv:
  assumes "actor_inv (log, a)" and "enqueue_control payload a = (a', Inr sequence)"
  shows "actor_inv (log @ [Other], a')"
proof -
  obtain n where n: "ca_state a = ActorOpen" "length payload \<le> cc_max_frame_bytes (ca_config a)"
    "length (ca_outbound a) < cc_outbound_capacity (ca_config a)"
    "checked_add (ca_next_write a) 1 = Some n"
    "a' = a\<lparr>ca_outbound := ca_outbound a @ [\<lparr>of_sequence = ca_next_write a,
              of_correlation = None, of_request_handle = None, of_payload = payload\<rparr>],
            ca_next_write := n\<rparr>"
    using assms(2) by (auto simp: enqueue_control_def require_open_iff require_frame_size_def
        require_outbound_capacity_def Let_def split: if_splits)
  from assms(1) have "history_ok (admitted log) (written log) (cancelled log) (ca_next_request a) n
      (ca_outbound a @ [\<lparr>of_sequence = ca_next_write a, of_correlation = None,
              of_request_handle = None, of_payload = payload\<rparr>]) (ca_pending a)"
    unfolding actor_inv_def Let_def
    by (intro history_control [OF _ n(4)]) simp_all
  with assms(1) n(1-3,5) show ?thesis
    by (auto simp: actor_inv_def bounds_ok_def closed_ok_def Let_def)
qed

lemma write_inv:
  assumes "actor_inv (log, a)" and "ca_outbound a = f # rest"
  shows "actor_inv (log @ [Written f], note_dequeued f (a\<lparr>ca_outbound := rest\<rparr>))"
proof -
  let ?b = "a\<lparr>ca_outbound := rest\<rparr>"
  have "history_ok (admitted log) (written log @ [f]) (cancelled log) (ca_next_request a)
      (ca_next_write a) rest (ca_pending a)"
    using assms by (intro history_write) (simp add: actor_inv_def Let_def)
  with assms have b: "actor_inv (log @ [Written f], ?b)"
    by (auto simp: actor_inv_def bounds_ok_def closed_ok_def Let_def)
  show ?thesis
  proof (cases "of_request_handle f")
    case None
    with b show ?thesis by (simp add: note_dequeued_def)
  next
    case (Some h)
    show ?thesis
    proof (cases "require_handle ?b h")
      case (Inl e)
      with b Some show ?thesis by (simp add: note_dequeued_def)
    next
      case (Inr r)
      then have r: "fmlookup (ca_pending a) (rh_correlation h) = Some r" "pr_handle r = h"
        by (simp_all add: require_handle_iff)
      with b Some have "history_ok (admitted log) (written log @ [f]) (cancelled log) (ca_next_request a)
          (ca_next_write a) rest
          (fmupd (rh_correlation h) (r\<lparr>pr_response_dequeued := True\<rparr>) (ca_pending a))"
        by (intro history_dequeued) (simp_all add: actor_inv_def Let_def)
      with b Some Inr r show ?thesis
        by (auto simp: note_dequeued_def actor_inv_def bounds_ok_def closed_ok_def Let_def card_simps)
    qed
  qed
qed

lemma complete_inv:
  assumes "actor_inv (log, a)" and "complete_request h a = (a', Inr r)"
  shows "actor_inv (log @ [Other], a')"
proof -
  have r: "fmlookup (ca_pending a) (rh_correlation h) = Some r" "pr_response_dequeued r"
    "a' = a\<lparr>ca_pending := fmdrop (rh_correlation h) (ca_pending a)\<rparr>"
    using assms(2) by (auto simp: complete_request_def require_handle_iff split: if_splits)
  with assms(1) history_complete [OF _ r(1,2)] fmap_len_drop_le [of "rh_correlation h" "ca_pending a"]
  show ?thesis by (auto simp: actor_inv_def bounds_ok_def closed_ok_def Let_def)
qed

lemma cancel_inv:
  assumes "actor_inv (log, a)" and "cancel_request h a = (a', Inr r)"
  shows "actor_inv (log @ [Cancelled (pr_handle r)], a')"
proof -
  have r: "fmlookup (ca_pending a) (rh_correlation h) = Some r" "pr_response_sequence r = None"
    "a' = a\<lparr>ca_pending := fmdrop (rh_correlation h) (ca_pending a)\<rparr>"
    using assms(2) by (auto simp: cancel_request_def require_handle_iff split: if_splits)
  with assms(1) history_cancel [OF _ r(1,2)] fmap_len_drop_le [of "rh_correlation h" "ca_pending a"]
  show ?thesis by (auto simp: actor_inv_def bounds_ok_def closed_ok_def Let_def)
qed

lemma other_inv: "actor_inv (log, a) \<Longrightarrow> actor_inv (log @ [Other], a)"
  by (simp add: actor_inv_def)

lemma event_of_cases:
  assumes "event_of f r = (a', e)" "\<And>b err. r = (b, Inl err) \<Longrightarrow> b = a"
  obtains "a' = a" "e = Other" | x where "r = (a', Inr x)" "e = f x"
  using assms by (cases r; cases "snd r") (auto simp: event_of_def)

lemma actor_step_inv:
  assumes "actor_inv s"
  shows "actor_inv (actor_step x s)"
proof -
  obtain log a where s: "s = (log, a)" by (cases s)
  have inv: "actor_inv (log, a)" using assms by (simp add: s)
  obtain a' e where x: "actor_exec x a = (a', e)" by (cases "actor_exec x a")
  have "actor_inv (log @ [e], a')"
  proof (cases x)
    case APopInbound
    with x inv show ?thesis
      by (cases "ca_inbound a")
        (auto simp: pop_inbound_def actor_inv_def bounds_ok_def closed_ok_def Let_def)
  next
    case APopOutbound
    with x inv show ?thesis
      by (cases "ca_outbound a") (auto simp: pop_outbound_def write_inv other_inv)
  next
    case (AInbound frame)
    show ?thesis using x [unfolded AInbound actor_exec.simps]
      by (rule event_of_cases [of _ _ _ _ a])
        (use inbound_inv [OF inv] other_inv [OF inv] in \<open>auto simp: enqueue_inbound_def\<close>)
  next
    case (ABegin c)
    show ?thesis using x [unfolded ABegin actor_exec.simps]
      by (rule event_of_cases [of _ _ _ _ a])
        (use begin_inv [OF inv] other_inv [OF inv] in \<open>auto simp: begin_request_def\<close>)
  next
    case (AImmediate c payload)
    show ?thesis using x [unfolded AImmediate actor_exec.simps]
      by (rule event_of_cases [of _ _ _ _ a])
        (use immediate_inv [OF inv] other_inv [OF inv] in \<open>auto simp: admit_immediate_response_def\<close>)
  next
    case (AOutbound h payload)
    show ?thesis using x [unfolded AOutbound actor_exec.simps]
      by (rule event_of_cases [of _ _ _ _ a]; cases h)
        (use response_inv [OF inv] control_inv [OF inv] other_inv [OF inv] in
          \<open>auto simp: enqueue_outbound_def enqueue_response_def enqueue_control_def\<close>)
  next
    case (AComplete h)
    show ?thesis using x [unfolded AComplete actor_exec.simps]
      by (rule event_of_cases [of _ _ _ _ a])
        (use complete_inv [OF inv] other_inv [OF inv] in \<open>auto simp: complete_request_def\<close>)
  next
    case (ACancel h)
    show ?thesis using x [unfolded ACancel actor_exec.simps]
      by (rule event_of_cases [of _ _ _ _ a])
        (use cancel_inv [OF inv] other_inv [OF inv] in \<open>auto simp: cancel_request_def\<close>)
  next
    case ADrain
    with x inv show ?thesis
      by (auto simp: event_of_def begin_drain_def actor_inv_def bounds_ok_def closed_ok_def Let_def
          split: ConnectionActorState.splits)
  next
    case AClose
    with x inv show ?thesis
      by (auto simp: event_of_def actor_close_def drain_converged_def actor_inv_def bounds_ok_def
          closed_ok_def Let_def split: ConnectionActorState.splits if_splits)
  qed
  with x s show ?thesis by (simp add: actor_step_def)
qed

interpretation connection_actor: state_machine actor_step actor_inv
  by unfold_locales (rule actor_step_inv)

lemma actor_new_inv:
  assumes "actor_new cfg = Inr a"
  shows "actor_inv ([], a)"
proof -
  have "a = \<lparr>ca_config = cfg, ca_state = ActorOpen, ca_next_request = 1, ca_next_write = 1,
      ca_inbound = [], ca_outbound = [], ca_pending = fmempty\<rparr>" "actor_config_validate cfg = Inr cfg"
    using assms by (auto simp: actor_new_def actor_config_validate_def split: if_splits)
  then show ?thesis
    by (simp add: actor_inv_def history_ok_def writes_ok_def handles_ok_def pending_ok_def
        accounted_def bounds_ok_def closed_ok_def config_ok_def Let_def)
qed

lemma sum_list_le: "(\<And>x. x \<in> set xs \<Longrightarrow> f x \<le> k) \<Longrightarrow> sum_list (map f xs) \<le> length xs * (k::nat)"
  by (induction xs) (auto simp: add_mono)

lemma config_budget:
  assumes "config_ok c"
  shows "(cc_inbound_capacity c + cc_outbound_capacity c) * cc_max_frame_bytes c
    \<le> MAX_CONNECTION_ACTOR_BUFFER_BYTES"
  using assms by (auto simp: config_ok_def actor_config_validate_def usize_checked_add_def
      usize_checked_mul_def not_less split: if_splits)

subsection \<open>Properties\<close>

text \<open>
  C28: A connection answers each request once and in order: from a new actor and after any
  operations, the frames written to the socket carry the write sequences 1, 2, 3 and so on
  without a gap, no request is answered twice or without having been admitted, a cancelled
  request is never answered, and when the actor reports that it is closed then every request
  it ever admitted was either answered on the socket or cancelled and nothing is left in its
  queues.
\<close>

theorem connection_answers_once:
  assumes "actor_new cfg = Inr a0" and "fold actor_step xs ([], a0) = (log, a)"
  shows "map (\<lambda>f. unat (of_sequence f)) (written log) = [1..<Suc (length (written log))] \<and>
    distinct (admitted log) \<and> distinct (answers (written log)) \<and>
    set (answers (written log)) \<subseteq> set (admitted log) \<and>
    set (cancelled log) \<inter> set (answers (written log)) = {} \<and>
    (ca_state a = ActorClosed \<longrightarrow>
       set (admitted log) = set (answers (written log)) \<union> set (cancelled log) \<and>
       ca_inbound a = [] \<and> ca_outbound a = [] \<and> ca_pending a = fmempty)"
proof -
  have "actor_inv (log, a)"
    using connection_actor.run_inv [OF actor_new_inv [OF assms(1)], of xs] assms(2) by simp
  then have H: "history_ok (admitted log) (written log) (cancelled log) (ca_next_request a)
      (ca_next_write a) (ca_outbound a) (ca_pending a)" and C: "closed_ok a"
    by (simp_all add: actor_inv_def Let_def)
  have "map (\<lambda>f. unat (of_sequence f)) (written log @ ca_outbound a) =
      [1..<Suc (length (written log)) + length (ca_outbound a)]"
    using H by (simp add: history_ok_def writes_ok_def)
  then have "take (length (written log)) (map (\<lambda>f. unat (of_sequence f)) (written log @ ca_outbound a)) =
      take (length (written log)) [1..<Suc (length (written log)) + length (ca_outbound a)]"
    by simp
  then have "map (\<lambda>f. unat (of_sequence f)) (written log) = [1..<Suc (length (written log))]"
    by (simp add: take_map del: upt_Suc)
  moreover have "ca_state a = ActorClosed \<longrightarrow>
       set (admitted log) = set (answers (written log)) \<union> set (cancelled log) \<and>
       ca_inbound a = [] \<and> ca_outbound a = [] \<and> ca_pending a = fmempty"
    using H C by (auto simp: closed_ok_def history_ok_def accounted_def)
  ultimately show ?thesis using H by (auto simp: history_ok_def handles_ok_def)
qed

text \<open>
  The memory a connection retains is bounded: from a new actor and after any operations,
  the queues and the pending table are within the configured capacities, and the payload bytes
  held in the two queues together never exceed 64 MiB, whatever the accepted configuration.
\<close>

theorem connection_buffers_bounded:
  assumes "actor_new cfg = Inr a0" and "fold actor_step xs ([], a0) = (log, a)"
  shows "length (ca_inbound a) \<le> cc_inbound_capacity (ca_config a) \<and>
    length (ca_outbound a) \<le> cc_outbound_capacity (ca_config a) \<and>
    fmap_len (ca_pending a) \<le> cc_pending_capacity (ca_config a) \<and>
    sum_list (map (\<lambda>f. length (if_payload f)) (ca_inbound a)) +
      sum_list (map (\<lambda>f. length (of_payload f)) (ca_outbound a)) \<le> 64 * 1024 * 1024"
proof -
  have "actor_inv (log, a)"
    using connection_actor.run_inv [OF actor_new_inv [OF assms(1)], of xs] assms(2) by simp
  then have B: "bounds_ok a" "config_ok (ca_config a)" by (simp_all add: actor_inv_def Let_def)
  let ?c = "ca_config a"
  have "sum_list (map (\<lambda>f. length (if_payload f)) (ca_inbound a)) \<le>
      cc_inbound_capacity ?c * cc_max_frame_bytes ?c"
    using B(1) by (intro order_trans [OF sum_list_le [where k = "cc_max_frame_bytes ?c"]])
      (auto simp: bounds_ok_def)
  moreover have "sum_list (map (\<lambda>f. length (of_payload f)) (ca_outbound a)) \<le>
      cc_outbound_capacity ?c * cc_max_frame_bytes ?c"
    using B(1) by (intro order_trans [OF sum_list_le [where k = "cc_max_frame_bytes ?c"]])
      (auto simp: bounds_ok_def)
  ultimately show ?thesis
    using B(1) config_budget [OF B(2)]
    by (simp add: bounds_ok_def MAX_CONNECTION_ACTOR_BUFFER_BYTES_def algebra_simps)
qed

subsection \<open>Witnesses\<close>

definition wit_actor_config :: ConnectionActorConfig where
  "wit_actor_config = \<lparr>cc_inbound_capacity = 2, cc_outbound_capacity = 2, cc_pending_capacity = 2,
     cc_max_frame_bytes = 8\<rparr>"

definition wit_actor :: ConnectionActor where
  "wit_actor = \<lparr>ca_config = wit_actor_config, ca_state = ActorOpen, ca_next_request = 1,
     ca_next_write = 1, ca_inbound = [], ca_outbound = [], ca_pending = fmempty\<rparr>"

lemma wit_actor_new: "actor_new wit_actor_config = Inr wit_actor"
  by (simp add: actor_new_def actor_config_validate_def wit_actor_config_def require_positive_def
      require_at_most_def MAX_CONNECTION_ACTOR_QUEUE_ITEMS_def MAX_CONNECTION_ACTOR_FRAME_BYTES_def
      MAX_CONNECTION_ACTOR_BUFFER_BYTES_def usize_checked_add_def usize_checked_mul_def wit_actor_def)

definition wit_handle :: RequestHandle where
  "wit_handle = \<lparr>rh_correlation = 9, rh_admitted_at_sequence = 1\<rparr>"

lemma wit_actor_closes:
  "fold actor_step [AImmediate 9 [65], ADrain, APopOutbound, AComplete wit_handle, AClose]
     ([], wit_actor) =
   ([Admitted wit_handle, Other,
     Written \<lparr>of_sequence = 1, of_correlation = Some 9, of_request_handle = Some wit_handle,
       of_payload = [65]\<rparr>, Other, Other],
    wit_actor\<lparr>ca_state := ActorClosed, ca_next_request := 2, ca_next_write := 2\<rparr>)"
  by (simp add: actor_step_def event_of_def admit_immediate_response_def
      require_request_capacity_def require_open_def require_outbound_capacity_def
      require_frame_size_def Let_def wit_actor_def wit_actor_config_def wit_handle_def
      checked_add_def begin_drain_def pop_outbound_def note_dequeued_def require_handle_def
      complete_request_def actor_close_def drain_converged_def fmdrop_fmupd)

theorem connection_answers_once_witness:
  "\<exists>log a. fold actor_step [AImmediate 9 [65], ADrain, APopOutbound, AComplete wit_handle, AClose]
     ([], wit_actor) = (log, a) \<and> ca_state a = ActorClosed \<and> admitted log = [wit_handle] \<and>
     set (admitted log) = set (answers (written log)) \<union> set (cancelled log)"
proof -
  note closed = connection_answers_once [OF wit_actor_new wit_actor_closes]
  show ?thesis
    unfolding wit_actor_closes
    by (intro exI conjI, rule refl) (use closed in \<open>simp_all add: admitted_def\<close>)
qed

theorem connection_buffers_bounded_witness:
  "\<exists>log a. fold actor_step [AInbound \<lparr>if_correlation = None, if_payload = [1, 2]\<rparr>] ([], wit_actor) =
     (log, a) \<and> length (ca_inbound a) = 1 \<and>
     length (ca_inbound a) \<le> cc_inbound_capacity (ca_config a)"
proof -
  have run: "fold actor_step [AInbound \<lparr>if_correlation = None, if_payload = [1, 2]\<rparr>] ([], wit_actor) =
      ([Other], wit_actor\<lparr>ca_inbound := [\<lparr>if_correlation = None, if_payload = [1, 2]\<rparr>]\<rparr>)"
    by (simp add: actor_step_def event_of_def enqueue_inbound_def require_open_def
        require_frame_size_def wit_actor_def wit_actor_config_def)
  from connection_buffers_bounded [OF wit_actor_new run] run show ?thesis by simp
qed

end
