(* ===== verification/Identity.thy ===== *)
theory Identity
  imports Rust_Text Machine "HOL-Library.List_Lexorder" "HOL-Library.Product_Lexorder"
begin

text \<open>
  The identity registry (\<open>crates/trnm-identity-core/src/lib.rs\<close>): accounts, the provider
  identities and the username each one holds, what deleted accounts leave retired, and the
  receipts that make commands idempotent. Every command works on a copy of the registry, checks
  the copy with \<open>validate_invariants\<close> and only then replaces the registry by it. Strings are
  ordered by scalar values, which is the byte order of their UTF-8 forms.
\<close>

subsection \<open>Limits and errors\<close>

definition ID_MAX_USERNAME_BYTES :: usize where "ID_MAX_USERNAME_BYTES = 128"
definition ID_MAX_DISPLAY_NAME_BYTES :: usize where "ID_MAX_DISPLAY_NAME_BYTES = 256"
definition MAX_PROVIDER_IDENTITY_BYTES :: usize where "MAX_PROVIDER_IDENTITY_BYTES = 512"
definition HARD_MAX_ACCOUNTS :: usize where "HARD_MAX_ACCOUNTS = 1000000"
definition HARD_MAX_IDENTITIES_PER_ACCOUNT :: usize where "HARD_MAX_IDENTITIES_PER_ACCOUNT = 16"
definition ID_HARD_MAX_RECEIPTS :: usize where "ID_HARD_MAX_RECEIPTS = 4000000"

datatype IdentityErrorCode =
    InvalidArgument | Unauthenticated | NotFound | AlreadyExists | FailedPrecondition
  | PermissionDenied | ResourceExhausted | Conflict | OutOfRange

datatype IdentityError = IdentityError (ie_code: IdentityErrorCode) (ie_reason: string)

definition invariant_error :: IdentityError where
  "invariant_error = IdentityError FailedPrecondition ''identity_invariant_violation''"

definition AccountId_new :: "id16 \<Rightarrow> IdentityError + id16" where
  "AccountId_new v = (if v = 0 then Inl (IdentityError InvalidArgument ''zero_account_id'') else Inr v)"

definition CommandId_new :: "id16 \<Rightarrow> IdentityError + id16" where
  "CommandId_new v = (if v = 0 then Inl (IdentityError InvalidArgument ''zero_command_id'') else Inr v)"

definition Fingerprint_new :: "digest32 \<Rightarrow> IdentityError + digest32" where
  "Fingerprint_new v =
     (if v = 0 then Inl (IdentityError InvalidArgument ''zero_command_fingerprint'') else Inr v)"

subsection \<open>Provider identities and names\<close>

datatype IdentityProvider =
    Custom | Device | Email | Facebook | FacebookInstantGame | Apple | Google | GameCenter | Steam

fun provider_rank :: "IdentityProvider \<Rightarrow> nat" where
  "provider_rank Custom = 0"
| "provider_rank Device = 1"
| "provider_rank Email = 2"
| "provider_rank Facebook = 3"
| "provider_rank FacebookInstantGame = 4"
| "provider_rank Apple = 5"
| "provider_rank Google = 6"
| "provider_rank GameCenter = 7"
| "provider_rank Steam = 8"

datatype ProviderIdentity = ProviderIdentity (pi_provider: IdentityProvider) (pi_external_id: rstring)

definition identity_tuple :: "ProviderIdentity \<Rightarrow> nat \<times> rstring" where
  "identity_tuple p = (provider_rank (pi_provider p), pi_external_id p)"

lemma provider_rank_inject: "provider_rank x = provider_rank y \<longleftrightarrow> x = y"
  by (cases x; cases y) simp_all

lemma identity_tuple_inject: "identity_tuple x = identity_tuple y \<longleftrightarrow> x = y"
  by (cases x; cases y) (simp add: identity_tuple_def provider_rank_inject)

instantiation ProviderIdentity :: linorder
begin

definition less_eq_ProviderIdentity :: "ProviderIdentity \<Rightarrow> ProviderIdentity \<Rightarrow> bool" where
  "less_eq_ProviderIdentity p q \<longleftrightarrow> identity_tuple p \<le> identity_tuple q"

definition less_ProviderIdentity :: "ProviderIdentity \<Rightarrow> ProviderIdentity \<Rightarrow> bool" where
  "less_ProviderIdentity p q \<longleftrightarrow> identity_tuple p < identity_tuple q"

instance
  by standard (auto simp: less_eq_ProviderIdentity_def less_ProviderIdentity_def
      identity_tuple_inject intro: order_trans dest: order_antisym)

end

definition ProviderIdentity_new :: "IdentityProvider \<Rightarrow> rstring \<Rightarrow> IdentityError + ProviderIdentity" where
  "ProviderIdentity_new provider external_id =
     (if external_id = [] \<or> str_len external_id > MAX_PROVIDER_IDENTITY_BYTES \<or>
         str_trim external_id \<noteq> external_id \<or> list_ex char_is_control external_id
      then Inl (IdentityError InvalidArgument ''provider_identity_invalid'')
      else Inr (ProviderIdentity provider external_id))"

definition Identity_Username_new :: "rstring \<Rightarrow> IdentityError + rstring" where
  "Identity_Username_new v =
     (if v = [] \<or> str_len v > ID_MAX_USERNAME_BYTES \<or> str_trim v \<noteq> v \<or> list_ex char_is_control v
      then Inl (IdentityError InvalidArgument ''username_invalid'') else Inr v)"

definition DisplayName_new :: "rstring \<Rightarrow> IdentityError + rstring" where
  "DisplayName_new v =
     (if str_len v > ID_MAX_DISPLAY_NAME_BYTES \<or> list_ex char_is_control v
      then Inl (IdentityError InvalidArgument ''display_name_invalid'') else Inr v)"

datatype AccountStatus = Active | Disabled | Banned | Deleted

subsection \<open>Configuration, records, registry\<close>

record IdentityConfig =
  ic_max_accounts :: usize
  ic_max_identities_per_account :: usize
  ic_max_receipts :: usize

definition IdentityConfig_new :: "usize \<Rightarrow> usize \<Rightarrow> usize \<Rightarrow> IdentityError + IdentityConfig" where
  "IdentityConfig_new max_accounts max_identities_per_account max_receipts =
     (if max_accounts = 0 \<or> max_accounts > HARD_MAX_ACCOUNTS
      then Inl (IdentityError InvalidArgument ''account_capacity_invalid'')
      else if max_identities_per_account = 0 \<or> max_identities_per_account > HARD_MAX_IDENTITIES_PER_ACCOUNT
      then Inl (IdentityError InvalidArgument ''provider_identity_capacity_invalid'')
      else if max_receipts = 0 \<or> max_receipts > ID_HARD_MAX_RECEIPTS
      then Inl (IdentityError InvalidArgument ''receipt_capacity_invalid'')
      else Inr \<lparr>ic_max_accounts = max_accounts,
                ic_max_identities_per_account = max_identities_per_account,
                ic_max_receipts = max_receipts\<rparr>)"

datatype ReceiptOutcome =
    Created | Authenticated | Linked | Unlinked | Updated | StatusChanged | DeletedOutcome

record CommandReceipt =
  cr_command :: id16
  cr_fingerprint :: digest32
  cr_account :: id16
  cr_revision :: u64
  cr_outcome :: ReceiptOutcome

record AccountRecord =
  ar_id :: id16
  ar_username :: rstring
  ar_display_name :: rstring
  ar_revision :: u64
  ar_status :: AccountStatus
  ar_providers :: "ProviderIdentity fset"

record IdentityRegistry =
  ir_config :: IdentityConfig
  ir_accounts :: "(id16, AccountRecord) fmap"
  ir_provider_owner :: "(ProviderIdentity, id16) fmap"
  ir_username_owner :: "(rstring, id16) fmap"
  ir_retired_providers :: "ProviderIdentity fset"
  ir_retired_usernames :: "rstring fset"
  ir_receipts :: "(id16, CommandReceipt) fmap"

definition identity_new :: "IdentityConfig \<Rightarrow> IdentityRegistry" where
  "identity_new config = \<lparr>ir_config = config, ir_accounts = fmempty, ir_provider_owner = fmempty,
     ir_username_owner = fmempty, ir_retired_providers = {||}, ir_retired_usernames = {||},
     ir_receipts = fmempty\<rparr>"

definition identity_account :: "IdentityRegistry \<Rightarrow> id16 \<Rightarrow> AccountRecord option" where
  "identity_account s a = fmlookup (ir_accounts s) a"

definition owner_of :: "IdentityRegistry \<Rightarrow> ProviderIdentity \<Rightarrow> id16 option" where
  "owner_of s p = fmlookup (ir_provider_owner s) p"

subsection \<open>Self-check\<close>

definition ensure :: "bool \<Rightarrow> IdentityError + unit" where
  "ensure b = (if b then Inr () else Inl invariant_error)"

definition check_active_provider ::
    "IdentityRegistry \<Rightarrow> id16 \<Rightarrow> ProviderIdentity \<Rightarrow> usize \<Rightarrow> IdentityError + usize" where
  "check_active_provider s a p n =
     tryE (ok_or invariant_error (usize_checked_add n 1)) (\<lambda>n.
     tryE (ensure (fmlookup (ir_provider_owner s) p = Some a \<and> p |\<notin>| ir_retired_providers s)) (\<lambda>_.
     Inr n))"

definition check_account ::
    "IdentityRegistry \<Rightarrow> id16 \<times> AccountRecord \<Rightarrow> usize \<times> usize \<Rightarrow> IdentityError + usize \<times> usize" where
  "check_account s = (\<lambda>(a, r) (usernames, providers).
     tryE (ensure (a = ar_id r \<and> ar_providers r \<noteq> {||} \<and>
             fcard (ar_providers r) \<le> ic_max_identities_per_account (ir_config s))) (\<lambda>_.
     if ar_status r = Deleted
     then tryE (ensure (ar_username r |\<notin>| fmdom (ir_username_owner s) \<and>
                  ar_username r |\<in>| ir_retired_usernames s)) (\<lambda>_.
          tryE (forE (\<lambda>p. ensure (p |\<notin>| fmdom (ir_provider_owner s) \<and> p |\<in>| ir_retired_providers s))
                  (sorted_list_of_fset (ar_providers r))) (\<lambda>_.
          Inr (usernames, providers)))
     else tryE (ok_or invariant_error (usize_checked_add usernames 1)) (\<lambda>usernames.
          tryE (ensure (fmlookup (ir_username_owner s) (ar_username r) = Some a \<and>
                  ar_username r |\<notin>| ir_retired_usernames s)) (\<lambda>_.
          tryE (foldE (check_active_provider s a) (sorted_list_of_fset (ar_providers r)) providers)
            (\<lambda>providers. Inr (usernames, providers))))))"

definition identity_validate :: "IdentityRegistry \<Rightarrow> IdentityError + unit" where
  "identity_validate s =
     tryE (ensure (fmap_len (ir_accounts s) \<le> ic_max_accounts (ir_config s) \<and>
             fmap_len (ir_receipts s) \<le> ic_max_receipts (ir_config s))) (\<lambda>_.
     tryE (foldE (check_account s) (entries_in_order (ir_accounts s)) (0, 0)) (\<lambda>(usernames, providers).
     tryE (ensure (usernames = fmap_len (ir_username_owner s) \<and>
             providers = fmap_len (ir_provider_owner s))) (\<lambda>_.
     forE (\<lambda>(command, receipt).
         ensure (command = cr_command receipt \<and> cr_account receipt |\<in>| fmdom (ir_accounts s)))
       (entries_in_order (ir_receipts s)))))"

subsection \<open>Guards\<close>

definition identity_existing_receipt ::
    "IdentityRegistry \<Rightarrow> id16 \<Rightarrow> digest32 \<Rightarrow> ReceiptOutcome \<Rightarrow> IdentityError + CommandReceipt option" where
  "identity_existing_receipt s command fingerprint expected_outcome =
     (case fmlookup (ir_receipts s) command of
        None \<Rightarrow> Inr None
      | Some receipt \<Rightarrow>
          if cr_fingerprint receipt \<noteq> fingerprint
          then Inl (IdentityError Conflict ''command_fingerprint_conflict'')
          else if cr_outcome receipt \<noteq> expected_outcome
          then Inl (IdentityError Conflict ''command_operation_conflict'')
          else Inr (Some receipt))"

definition ensure_receipt_capacity :: "IdentityRegistry \<Rightarrow> IdentityError + unit" where
  "ensure_receipt_capacity s =
     (if fmap_len (ir_receipts s) \<ge> ic_max_receipts (ir_config s)
      then Inl (IdentityError ResourceExhausted ''receipt_capacity_exhausted'') else Inr ())"

definition account_with_revision ::
    "IdentityRegistry \<Rightarrow> id16 \<Rightarrow> u64 \<Rightarrow> IdentityError + AccountRecord" where
  "account_with_revision s account expected_revision =
     tryE (ok_or (IdentityError NotFound ''account_not_found'') (fmlookup (ir_accounts s) account)) (\<lambda>r.
     if ar_revision r \<noteq> expected_revision
     then Inl (IdentityError Conflict ''account_revision_conflict'') else Inr r)"

definition active_account :: "IdentityRegistry \<Rightarrow> id16 \<Rightarrow> u64 \<Rightarrow> IdentityError + AccountRecord" where
  "active_account s account expected_revision =
     tryE (account_with_revision s account expected_revision) (\<lambda>r.
     if ar_status r \<noteq> Active then Inl (IdentityError PermissionDenied ''account_not_active'') else Inr r)"

definition identity_next_revision :: "u64 \<Rightarrow> IdentityError + u64" where
  "identity_next_revision current =
     ok_or (IdentityError OutOfRange ''account_revision_overflow'') (checked_add current 1)"

text \<open>\<open>candidate.accounts.get_mut(&account).ok_or_else(invariant_error)?\<close>, then a change.\<close>

definition modify_account ::
    "id16 \<Rightarrow> (AccountRecord \<Rightarrow> AccountRecord) \<Rightarrow> IdentityRegistry \<Rightarrow> IdentityError + IdentityRegistry" where
  "modify_account account f s =
     tryE (ok_or invariant_error (fmlookup (ir_accounts s) account)) (\<lambda>r.
     Inr (s\<lparr>ir_accounts := fmupd account (f r) (ir_accounts s)\<rparr>))"

text \<open>The end of every command: the receipt is stored, the copy checked.\<close>

definition identity_finish ::
    "CommandReceipt \<Rightarrow> IdentityRegistry \<Rightarrow> IdentityError + IdentityRegistry \<times> CommandReceipt" where
  "identity_finish receipt candidate =
     (let candidate = candidate\<lparr>ir_receipts := fmupd (cr_command receipt) receipt (ir_receipts candidate)\<rparr> in
      tryE (identity_validate candidate) (\<lambda>_. Inr (candidate, receipt)))"

text \<open>The beginning of every command but \<open>authenticate\<close>: an earlier receipt answers it.\<close>

definition with_identity_receipt ::
    "id16 \<Rightarrow> digest32 \<Rightarrow> ReceiptOutcome \<Rightarrow> IdentityRegistry \<Rightarrow>
     (IdentityError + IdentityRegistry \<times> CommandReceipt) \<Rightarrow>
     IdentityRegistry \<times> (IdentityError + CommandReceipt)" where
  "with_identity_receipt command fingerprint outcome s body =
     commit_candidate s
      (tryE (identity_existing_receipt s command fingerprint outcome) (\<lambda>existing.
       case existing of
         Some receipt \<Rightarrow> Inr (s, receipt)
       | None \<Rightarrow> tryE (ensure_receipt_capacity s) (\<lambda>_. body)))"

subsection \<open>Commands\<close>

definition create_account ::
    "id16 \<Rightarrow> digest32 \<Rightarrow> id16 \<Rightarrow> rstring \<Rightarrow> rstring \<Rightarrow> ProviderIdentity \<Rightarrow> IdentityRegistry \<Rightarrow>
     IdentityRegistry \<times> (IdentityError + CommandReceipt)" where
  "create_account command fingerprint account username display_name provider s =
     with_identity_receipt command fingerprint Created s
      (if fmap_len (ir_accounts s) \<ge> ic_max_accounts (ir_config s)
       then Inl (IdentityError ResourceExhausted ''account_capacity_exhausted'')
       else if account |\<in>| fmdom (ir_accounts s)
       then Inl (IdentityError AlreadyExists ''account_id_exists'')
       else if provider |\<in>| fmdom (ir_provider_owner s) \<or> provider |\<in>| ir_retired_providers s
       then Inl (IdentityError AlreadyExists ''provider_identity_exists_or_retired'')
       else if username |\<in>| fmdom (ir_username_owner s) \<or> username |\<in>| ir_retired_usernames s
       then Inl (IdentityError AlreadyExists ''username_exists_or_retired'')
       else let record = \<lparr>ar_id = account, ar_username = username, ar_display_name = display_name,
                          ar_revision = 1, ar_status = Active, ar_providers = {|provider|}\<rparr>;
                receipt = \<lparr>cr_command = command, cr_fingerprint = fingerprint, cr_account = account,
                           cr_revision = 1, cr_outcome = Created\<rparr> in
         identity_finish receipt
           (s\<lparr>ir_accounts := fmupd account record (ir_accounts s),
              ir_provider_owner := fmupd provider account (ir_provider_owner s),
              ir_username_owner := fmupd username account (ir_username_owner s)\<rparr>))"

definition require_login :: "IdentityRegistry \<Rightarrow> ProviderIdentity \<Rightarrow> IdentityError + id16" where
  "require_login s provider =
     ok_or (IdentityError Unauthenticated ''identity_unknown'') (fmlookup (ir_provider_owner s) provider)"

definition replay_authentication ::
    "IdentityRegistry \<Rightarrow> ProviderIdentity \<Rightarrow> CommandReceipt \<Rightarrow> IdentityError + CommandReceipt" where
  "replay_authentication s provider receipt =
     (if cr_outcome receipt \<noteq> Authenticated
      then Inl (IdentityError Conflict ''command_operation_conflict'')
      else
      tryE (require_login s provider) (\<lambda>account.
      if account \<noteq> cr_account receipt
      then Inl (IdentityError Unauthenticated ''identity_binding_changed'')
      else
      tryE (ok_or invariant_error (fmlookup (ir_accounts s) account)) (\<lambda>record.
      if ar_status record \<noteq> Active
      then Inl (IdentityError PermissionDenied ''account_not_active'')
      else if ar_revision record \<noteq> cr_revision receipt
      then Inl (IdentityError Conflict ''authentication_state_changed'')
      else Inr receipt)))"

definition authenticate ::
    "id16 \<Rightarrow> digest32 \<Rightarrow> ProviderIdentity \<Rightarrow> IdentityRegistry \<Rightarrow>
     IdentityRegistry \<times> (IdentityError + CommandReceipt)" where
  "authenticate command fingerprint provider s =
     commit_candidate s
      (tryE (identity_existing_receipt s command fingerprint Authenticated) (\<lambda>existing.
       case existing of
         Some receipt \<Rightarrow> tryE (replay_authentication s provider receipt) (\<lambda>receipt. Inr (s, receipt))
       | None \<Rightarrow>
           tryE (ensure_receipt_capacity s) (\<lambda>_.
           tryE (require_login s provider) (\<lambda>account.
           tryE (ok_or invariant_error (fmlookup (ir_accounts s) account)) (\<lambda>record.
           if ar_status record \<noteq> Active
           then Inl (IdentityError PermissionDenied ''account_not_active'')
           else identity_finish \<lparr>cr_command = command, cr_fingerprint = fingerprint,
                  cr_account = account, cr_revision = ar_revision record,
                  cr_outcome = Authenticated\<rparr> s)))))"

definition link_provider ::
    "id16 \<Rightarrow> digest32 \<Rightarrow> id16 \<Rightarrow> u64 \<Rightarrow> ProviderIdentity \<Rightarrow> IdentityRegistry \<Rightarrow>
     IdentityRegistry \<times> (IdentityError + CommandReceipt)" where
  "link_provider command fingerprint account expected_revision provider s =
     with_identity_receipt command fingerprint Linked s
      (tryE (active_account s account expected_revision) (\<lambda>current.
       if fcard (ar_providers current) \<ge> ic_max_identities_per_account (ir_config s)
       then Inl (IdentityError ResourceExhausted ''provider_identity_capacity_exhausted'')
       else if provider |\<in>| ir_retired_providers s
       then Inl (IdentityError FailedPrecondition ''provider_identity_retired'')
       else if provider |\<in>| fmdom (ir_provider_owner s)
       then Inl (IdentityError AlreadyExists ''provider_identity_exists'')
       else
       tryE (identity_next_revision (ar_revision current)) (\<lambda>nxt.
       tryE (modify_account account (\<lambda>r. r\<lparr>ar_providers := finsert provider (ar_providers r)\<rparr>) s) (\<lambda>c.
       tryE (modify_account account (\<lambda>r. r\<lparr>ar_revision := nxt\<rparr>) c) (\<lambda>c.
       identity_finish \<lparr>cr_command = command, cr_fingerprint = fingerprint, cr_account = account,
           cr_revision = nxt, cr_outcome = Linked\<rparr>
         (c\<lparr>ir_provider_owner := fmupd provider account (ir_provider_owner c)\<rparr>))))))"

definition unlink_provider ::
    "id16 \<Rightarrow> digest32 \<Rightarrow> id16 \<Rightarrow> u64 \<Rightarrow> ProviderIdentity \<Rightarrow> IdentityRegistry \<Rightarrow>
     IdentityRegistry \<times> (IdentityError + CommandReceipt)" where
  "unlink_provider command fingerprint account expected_revision provider s =
     with_identity_receipt command fingerprint Unlinked s
      (tryE (active_account s account expected_revision) (\<lambda>current.
       if provider |\<notin>| ar_providers current
       then Inl (IdentityError NotFound ''provider_identity_not_linked'')
       else if fcard (ar_providers current) = 1
       then Inl (IdentityError FailedPrecondition ''last_provider_identity_cannot_be_unlinked'')
       else
       tryE (identity_next_revision (ar_revision current)) (\<lambda>nxt.
       tryE (ok_or invariant_error (fmlookup (ir_accounts s) account)) (\<lambda>before.
       tryE (modify_account account (\<lambda>r. r\<lparr>ar_providers := ar_providers r |-| {|provider|}\<rparr>) s) (\<lambda>c.
       if provider |\<notin>| ar_providers before then Inl invariant_error
       else
       tryE (modify_account account (\<lambda>r. r\<lparr>ar_revision := nxt\<rparr>) c) (\<lambda>c.
       identity_finish \<lparr>cr_command = command, cr_fingerprint = fingerprint, cr_account = account,
           cr_revision = nxt, cr_outcome = Unlinked\<rparr>
         (c\<lparr>ir_provider_owner := fmdrop provider (ir_provider_owner c)\<rparr>)))))))"

definition changes :: "'a option \<Rightarrow> 'a \<Rightarrow> bool" where
  "changes v current = (case v of None \<Rightarrow> False | Some x \<Rightarrow> x \<noteq> current)"

definition apply_username ::
    "id16 \<Rightarrow> rstring \<Rightarrow> rstring option \<Rightarrow> IdentityRegistry \<Rightarrow> IdentityError + IdentityRegistry" where
  "apply_username account current_username username c = (case username of
       None \<Rightarrow> Inr c
     | Some next_username \<Rightarrow>
         if next_username \<noteq> current_username
         then modify_account account (\<lambda>r. r\<lparr>ar_username := next_username\<rparr>)
           (c\<lparr>ir_username_owner := fmupd next_username account
               (fmdrop current_username (ir_username_owner c))\<rparr>)
         else Inr c)"

definition apply_display ::
    "id16 \<Rightarrow> rstring option \<Rightarrow> IdentityRegistry \<Rightarrow> IdentityError + IdentityRegistry" where
  "apply_display account display_name c = (case display_name of
       None \<Rightarrow> Inr c
     | Some next_display \<Rightarrow> modify_account account (\<lambda>r. r\<lparr>ar_display_name := next_display\<rparr>) c)"

definition update_profile ::
    "id16 \<Rightarrow> digest32 \<Rightarrow> id16 \<Rightarrow> u64 \<Rightarrow> rstring option \<Rightarrow> rstring option \<Rightarrow> IdentityRegistry \<Rightarrow>
     IdentityRegistry \<times> (IdentityError + CommandReceipt)" where
  "update_profile command fingerprint account expected_revision username display_name s =
     with_identity_receipt command fingerprint Updated s
      (if username = None \<and> display_name = None
       then Inl (IdentityError InvalidArgument ''profile_update_empty'')
       else
       tryE (active_account s account expected_revision) (\<lambda>current.
       if (case username of None \<Rightarrow> False
           | Some u \<Rightarrow> u \<noteq> ar_username current \<and>
               (u |\<in>| fmdom (ir_username_owner s) \<or> u |\<in>| ir_retired_usernames s))
       then Inl (IdentityError AlreadyExists ''username_exists_or_retired'')
       else if \<not> changes username (ar_username current) \<and>
               \<not> changes display_name (ar_display_name current)
       then Inl (IdentityError AlreadyExists ''profile_unchanged'')
       else
       tryE (identity_next_revision (ar_revision current)) (\<lambda>nxt.
       tryE (apply_username account (ar_username current) username s) (\<lambda>c.
       tryE (apply_display account display_name c) (\<lambda>c.
       tryE (modify_account account (\<lambda>r. r\<lparr>ar_revision := nxt\<rparr>) c) (\<lambda>c.
       identity_finish \<lparr>cr_command = command, cr_fingerprint = fingerprint, cr_account = account,
           cr_revision = nxt, cr_outcome = Updated\<rparr> c))))))"

definition set_status ::
    "id16 \<Rightarrow> digest32 \<Rightarrow> id16 \<Rightarrow> u64 \<Rightarrow> AccountStatus \<Rightarrow> IdentityRegistry \<Rightarrow>
     IdentityRegistry \<times> (IdentityError + CommandReceipt)" where
  "set_status command fingerprint account expected_revision target s =
     with_identity_receipt command fingerprint StatusChanged s
      (if target = Deleted then Inl (IdentityError InvalidArgument ''delete_requires_delete_account'')
       else
       tryE (account_with_revision s account expected_revision) (\<lambda>current.
       if ar_status current = Deleted then Inl (IdentityError FailedPrecondition ''account_deleted'')
       else if ar_status current = target
       then Inl (IdentityError AlreadyExists ''account_status_unchanged'')
       else
       tryE (identity_next_revision (ar_revision current)) (\<lambda>nxt.
       tryE (modify_account account (\<lambda>r. r\<lparr>ar_status := target, ar_revision := nxt\<rparr>) s) (\<lambda>c.
       identity_finish \<lparr>cr_command = command, cr_fingerprint = fingerprint, cr_account = account,
           cr_revision = nxt, cr_outcome = StatusChanged\<rparr> c))))"

text \<open>The loop over the identities of a deleted account.\<close>

definition retire_provider :: "ProviderIdentity \<Rightarrow> IdentityRegistry \<Rightarrow> IdentityRegistry" where
  "retire_provider p c =
     c\<lparr>ir_provider_owner := fmdrop p (ir_provider_owner c),
       ir_retired_providers := finsert p (ir_retired_providers c)\<rparr>"

definition delete_account ::
    "id16 \<Rightarrow> digest32 \<Rightarrow> id16 \<Rightarrow> u64 \<Rightarrow> IdentityRegistry \<Rightarrow>
     IdentityRegistry \<times> (IdentityError + CommandReceipt)" where
  "delete_account command fingerprint account expected_revision s =
     with_identity_receipt command fingerprint DeletedOutcome s
      (tryE (account_with_revision s account expected_revision) (\<lambda>current.
       if ar_status current = Deleted then Inl (IdentityError FailedPrecondition ''account_deleted'')
       else
       tryE (identity_next_revision (ar_revision current)) (\<lambda>nxt.
       let c = s\<lparr>ir_username_owner := fmdrop (ar_username current) (ir_username_owner s),
                 ir_retired_usernames := finsert (ar_username current) (ir_retired_usernames s)\<rparr>;
           c = fold retire_provider (sorted_list_of_fset (ar_providers current)) c in
       tryE (modify_account account (\<lambda>r. r\<lparr>ar_status := Deleted, ar_revision := nxt\<rparr>) c) (\<lambda>c.
       identity_finish \<lparr>cr_command = command, cr_fingerprint = fingerprint, cr_account = account,
           cr_revision = nxt, cr_outcome = DeletedOutcome\<rparr> c))))"

text \<open>All commands, as one.\<close>

datatype IdentityOp =
    ICreate id16 digest32 id16 rstring rstring ProviderIdentity
  | IAuthenticate id16 digest32 ProviderIdentity
  | ILink id16 digest32 id16 u64 ProviderIdentity
  | IUnlink id16 digest32 id16 u64 ProviderIdentity
  | IUpdate id16 digest32 id16 u64 "rstring option" "rstring option"
  | IStatus id16 digest32 id16 u64 AccountStatus
  | IDelete id16 digest32 id16 u64

fun identity_exec :: "IdentityOp \<Rightarrow> IdentityRegistry \<Rightarrow> IdentityRegistry \<times> (IdentityError + CommandReceipt)" where
  "identity_exec (ICreate c f a u d p) s = create_account c f a u d p s"
| "identity_exec (IAuthenticate c f p) s = authenticate c f p s"
| "identity_exec (ILink c f a n p) s = link_provider c f a n p s"
| "identity_exec (IUnlink c f a n p) s = unlink_provider c f a n p s"
| "identity_exec (IUpdate c f a n u d) s = update_profile c f a n u d s"
| "identity_exec (IStatus c f a n t) s = set_status c f a n t s"
| "identity_exec (IDelete c f a n) s = delete_account c f a n s"

definition identity_step :: "IdentityOp \<Rightarrow> IdentityRegistry \<Rightarrow> IdentityRegistry" where
  "identity_step x s = fst (identity_exec x s)"

end
