(* ===== verification/Identity_Proofs.thy ===== *)
theory Identity_Proofs
  imports Identity
begin

text \<open>
  Correctness of the identity registry. \<open>identity_ok\<close> is what the registry promises of its
  state, stated over its maps; \<open>validate_ok\<close> shows that the counting self-check of the code
  succeeds on every such state, and each command is shown to keep it (\<open>good\<close>), so that the
  self-check never fails.
\<close>

subsection \<open>The invariant\<close>

definition holds_name :: "AccountRecord \<Rightarrow> rstring \<Rightarrow> bool" where
  "holds_name r u \<longleftrightarrow> ar_status r \<noteq> Deleted \<and> ar_username r = u"

definition holds_identity :: "AccountRecord \<Rightarrow> ProviderIdentity \<Rightarrow> bool" where
  "holds_identity r p \<longleftrightarrow> ar_status r \<noteq> Deleted \<and> p |\<in>| ar_providers r"

definition record_ok ::
    "nat \<Rightarrow> ProviderIdentity fset \<Rightarrow> rstring fset \<Rightarrow> id16 \<Rightarrow> AccountRecord \<Rightarrow> bool" where
  "record_ok n rp ru a r \<longleftrightarrow> ar_id r = a \<and> ar_providers r \<noteq> {||} \<and> fcard (ar_providers r) \<le> n \<and>
     (ar_status r = Deleted \<longrightarrow> ar_username r |\<in>| ru \<and> ar_providers r |\<subseteq>| rp)"

definition owners_ok ::
    "(id16, AccountRecord) fmap \<Rightarrow> (AccountRecord \<Rightarrow> 'k \<Rightarrow> bool) \<Rightarrow> ('k, id16) fmap \<Rightarrow> 'k fset \<Rightarrow> bool" where
  "owners_ok accounts holds owner retired \<longleftrightarrow>
     (\<forall>k a. fmlookup owner k = Some a \<longleftrightarrow> (\<exists>r. fmlookup accounts a = Some r \<and> holds r k)) \<and>
     (\<forall>k. k |\<in>| retired \<longrightarrow> fmlookup owner k = None)"

definition config_limits_ok :: "IdentityConfig \<Rightarrow> bool" where
  "config_limits_ok c \<longleftrightarrow> ic_max_accounts c \<le> HARD_MAX_ACCOUNTS \<and>
     ic_max_identities_per_account c \<le> HARD_MAX_IDENTITIES_PER_ACCOUNT \<and>
     0 < ic_max_identities_per_account c"

definition accounts_ok :: "IdentityRegistry \<Rightarrow> bool" where
  "accounts_ok s \<longleftrightarrow>
     (\<forall>a r. fmlookup (ir_accounts s) a = Some r \<longrightarrow>
        record_ok (ic_max_identities_per_account (ir_config s)) (ir_retired_providers s)
          (ir_retired_usernames s) a r) \<and>
     owners_ok (ir_accounts s) holds_name (ir_username_owner s) (ir_retired_usernames s) \<and>
     owners_ok (ir_accounts s) holds_identity (ir_provider_owner s) (ir_retired_providers s)"

definition identity_ok :: "IdentityRegistry \<Rightarrow> bool" where
  "identity_ok s \<longleftrightarrow> config_limits_ok (ir_config s) \<and>
     fmap_len (ir_accounts s) \<le> ic_max_accounts (ir_config s) \<and>
     fmap_len (ir_receipts s) \<le> ic_max_receipts (ir_config s) \<and>
     accounts_ok s \<and>
     (\<forall>c r. fmlookup (ir_receipts s) c = Some r \<longrightarrow>
        cr_command r = c \<and> cr_account r |\<in>| fmdom (ir_accounts s))"

lemma owners_okD:
  assumes "owners_ok accounts holds owner retired"
  shows "fmlookup owner k = Some a \<longleftrightarrow> (\<exists>r. fmlookup accounts a = Some r \<and> holds r k)"
    and "k |\<in>| retired \<Longrightarrow> fmlookup owner k = None"
  using assms unfolding owners_ok_def by blast+

subsection \<open>The self-check counts right\<close>

definition live_entries :: "(id16, AccountRecord) fmap \<Rightarrow> (id16 \<times> AccountRecord) list" where
  "live_entries m = filter (\<lambda>(a, r). ar_status r \<noteq> Deleted) (entries_in_order m)"

lemma ensure_iff [simp]: "ensure b = Inr u \<longleftrightarrow> b" "ensure b = Inl e \<longleftrightarrow> \<not> b \<and> e = invariant_error"
  by (auto simp: ensure_def)

lemma check_providers_ok:
  assumes "\<And>p. p \<in> set ps \<Longrightarrow> fmlookup (ir_provider_owner s) p = Some a \<and> p |\<notin>| ir_retired_providers s"
    and "n + length ps < 2 ^ 64"
  shows "foldE (check_active_provider s a) ps n = Inr (n + length ps)"
  using assms
proof (induction ps arbitrary: n)
  case (Cons p ps)
  then have "check_active_provider s a p n = Inr (Suc n)"
    by (simp add: check_active_provider_def usize_checked_add_def ensure_def)
  with Cons.IH [of "Suc n"] Cons.prems show ?case by simp
qed simp

lemma length_sorted_fset: "length (sorted_list_of_fset A) = fcard A"
  by (simp add: sorted_list_of_fset.rep_eq fcard.rep_eq)

lemma check_account_ok:
  assumes ok: "accounts_ok s" and r: "fmlookup (ir_accounts s) a = Some r"
    and small: "u + 1 < 2 ^ 64" "p + fcard (ar_providers r) < 2 ^ 64"
  shows "check_account s (a, r) (u, p) =
    Inr (if ar_status r = Deleted then (u, p) else (u + 1, p + fcard (ar_providers r)))"
proof -
  have R: "record_ok (ic_max_identities_per_account (ir_config s)) (ir_retired_providers s)
      (ir_retired_usernames s) a r"
    and U: "owners_ok (ir_accounts s) holds_name (ir_username_owner s) (ir_retired_usernames s)"
    and P: "owners_ok (ir_accounts s) holds_identity (ir_provider_owner s) (ir_retired_providers s)"
    using ok r by (simp_all add: accounts_ok_def)
  show ?thesis
  proof (cases "ar_status r = Deleted")
    case True
    with R have "ar_username r |\<in>| ir_retired_usernames s" "ar_providers r |\<subseteq>| ir_retired_providers s"
      by (simp_all add: record_ok_def)
    with True R owners_okD(2) [OF U] owners_okD(2) [OF P] show ?thesis
      by (auto simp: check_account_def record_ok_def ensure_def fmlookup_dom_iff tryE_def
          split: sum.splits dest!: forE_Inl)
  next
    case False
    then have "fmlookup (ir_username_owner s) (ar_username r) = Some a"
      and own: "\<And>q. q |\<in>| ar_providers r \<Longrightarrow> fmlookup (ir_provider_owner s) q = Some a"
      using owners_okD(1) [OF U] owners_okD(1) [OF P] r by (auto simp: holds_name_def holds_identity_def)
    moreover from this have "ar_username r |\<notin>| ir_retired_usernames s"
      "\<And>q. q |\<in>| ar_providers r \<Longrightarrow> q |\<notin>| ir_retired_providers s"
      using owners_okD(2) [OF U] owners_okD(2) [OF P] by fastforce+
    moreover have "foldE (check_active_provider s a) (sorted_list_of_fset (ar_providers r)) p =
        Inr (p + fcard (ar_providers r))"
      using check_providers_ok [of "sorted_list_of_fset (ar_providers r)" s a p] calculation small(2)
      by (simp add: length_sorted_fset)
    ultimately show ?thesis using False R small(1)
      by (simp add: check_account_def record_ok_def ensure_def usize_checked_add_def)
  qed
qed

lemma check_accounts_ok:
  assumes ok: "accounts_ok s" and "set es \<subseteq> {(a, r). fmlookup (ir_accounts s) a = Some r}"
    and "u + length es < 2 ^ 64" "p + length es * 16 < 2 ^ 64"
    and lim: "config_limits_ok (ir_config s)"
  shows "foldE (check_account s) es (u, p) =
    Inr (u + length (filter (\<lambda>(a, r). ar_status r \<noteq> Deleted) es),
         p + sum_list (map (\<lambda>(a, r). fcard (ar_providers r)) (filter (\<lambda>(a, r). ar_status r \<noteq> Deleted) es)))"
  using assms(2-4)
proof (induction es arbitrary: u p)
  case (Cons e es)
  obtain a r where e: "e = (a, r)" by (cases e)
  have r: "fmlookup (ir_accounts s) a = Some r" using Cons.prems(1) by (simp add: e)
  then have "fcard (ar_providers r) \<le> 16"
    using ok lim by (force simp: accounts_ok_def record_ok_def config_limits_ok_def
        HARD_MAX_IDENTITIES_PER_ACCOUNT_def)
  with check_account_ok [OF ok r, of u p] Cons.prems(2,3)
  have "check_account s e (u, p) =
      Inr (if ar_status r = Deleted then (u, p) else (u + 1, p + fcard (ar_providers r)))"
    and "p + fcard (ar_providers r) + length es * 16 < 2 ^ 64"
    by (simp_all add: e)
  with Cons.IH [of u p] Cons.IH [of "u + 1" "p + fcard (ar_providers r)"] Cons.prems e
  show ?case by simp
qed simp

definition live_set :: "(id16, AccountRecord) fmap \<Rightarrow> (id16 \<times> AccountRecord) set" where
  "live_set m = {(a, r). fmlookup m a = Some r \<and> ar_status r \<noteq> Deleted}"

lemma set_live_entries: "set (live_entries m) = live_set m"
  by (auto simp: live_entries_def live_set_def)

lemma distinct_live_entries: "distinct (live_entries m)"
  by (simp add: live_entries_def)

lemma finite_live_set: "finite (live_set m)"
  using finite_set [of "live_entries m"] by (simp add: set_live_entries)

lemma count_usernames:
  assumes U: "owners_ok m holds_name owner retired"
  shows "length (live_entries m) = fmap_len owner"
proof -
  have "inj_on (\<lambda>(a, r). ar_username r) (live_set m)"
  proof (rule inj_onI, clarify)
    fix a r b q assume "(a, r) \<in> live_set m" "(b, q) \<in> live_set m" "ar_username r = ar_username q"
    moreover from this have "fmlookup owner (ar_username r) = Some a" "fmlookup owner (ar_username r) = Some b"
      using owners_okD(1) [OF U] by (auto simp: live_set_def holds_name_def)
    ultimately show "a = b \<and> r = q" by (simp add: live_set_def)
  qed
  moreover have "(\<lambda>(a, r). ar_username r) ` live_set m = fset (fmdom owner)"
    using owners_okD(1) [OF U] by (force simp: live_set_def holds_name_def fmlookup_dom_iff)
  ultimately have "card (live_set m) = card (fset (fmdom owner))"
    using card_image by fastforce
  then show ?thesis
    by (simp add: fmap_len_def fcard.rep_eq distinct_card [OF distinct_live_entries, symmetric]
        set_live_entries)
qed

lemma count_identities:
  assumes P: "owners_ok m holds_identity owner retired"
  shows "sum_list (map (\<lambda>(a, r). fcard (ar_providers r)) (live_entries m)) = fmap_len owner"
proof -
  let ?f = "\<lambda>(a, r). fset (ar_providers r)"
  have "sum_list (map (\<lambda>(a, r). fcard (ar_providers r)) (live_entries m)) =
      (\<Sum>x \<in> live_set m. card (?f x))"
    using sum_list_distinct_conv_sum_set [OF distinct_live_entries [of m], of "\<lambda>x. card (?f x)"]
    by (simp add: set_live_entries fcard.rep_eq split_def)
  also have "\<dots> = card (\<Union>x \<in> live_set m. ?f x)"
  proof (rule card_UN_disjoint [symmetric])
    show "finite (live_set m)" by (rule finite_live_set)
    show "\<forall>x \<in> live_set m. finite (?f x)" by auto
    show "\<forall>x \<in> live_set m. \<forall>y \<in> live_set m. x \<noteq> y \<longrightarrow> ?f x \<inter> ?f y = {}"
    proof (intro ballI impI equals0I)
      fix x y p assume xy: "x \<in> live_set m" "y \<in> live_set m" "x \<noteq> y" and p: "p \<in> ?f x \<inter> ?f y"
      then have "fmlookup owner p = Some (fst x)" "fmlookup owner p = Some (fst y)"
        using owners_okD(1) [OF P] by (auto simp: live_set_def holds_identity_def)
      with xy show False by (auto simp: live_set_def)
    qed
  qed
  also have "(\<Union>x \<in> live_set m. ?f x) = fset (fmdom owner)"
    using owners_okD(1) [OF P] by (force simp: live_set_def holds_identity_def fmlookup_dom_iff)
  finally show ?thesis by (simp add: fmap_len_def fcard.rep_eq)
qed

lemma length_entries: "length (entries_in_order m) = fmap_len m"
  by (simp add: entries_in_order_map keys_in_order_def length_sorted_fset fmap_len_def)

lemma validate_ok:
  assumes "identity_ok s"
  shows "identity_validate s = Inr ()"
proof -
  have ok: "accounts_ok s" and lim: "config_limits_ok (ir_config s)"
    and len: "fmap_len (ir_accounts s) \<le> 1000000"
    using assms by (auto simp: identity_ok_def config_limits_ok_def HARD_MAX_ACCOUNTS_def)
  have "foldE (check_account s) (entries_in_order (ir_accounts s)) (0, 0) =
      Inr (length (live_entries (ir_accounts s)),
        sum_list (map (\<lambda>(a, r). fcard (ar_providers r)) (live_entries (ir_accounts s))))"
    using check_accounts_ok [OF ok _ _ _ lim, of "entries_in_order (ir_accounts s)" 0 0] len
    by (simp add: length_entries live_entries_def)
  moreover have "length (live_entries (ir_accounts s)) = fmap_len (ir_username_owner s)"
    "sum_list (map (\<lambda>(a, r). fcard (ar_providers r)) (live_entries (ir_accounts s))) =
      fmap_len (ir_provider_owner s)"
    using ok by (auto simp: accounts_ok_def intro: count_usernames count_identities)
  moreover have "forE (\<lambda>(command, receipt).
         ensure (command = cr_command receipt \<and> cr_account receipt |\<in>| fmdom (ir_accounts s)))
       (entries_in_order (ir_receipts s)) = Inr ()"
    using assms by (auto simp: identity_ok_def)
  ultimately show ?thesis
    using assms by (simp add: identity_validate_def ensure_def identity_ok_def)
qed

subsection \<open>Replacing one account\<close>

lemma owners_replace:
  assumes "owners_ok m holds owner retired"
    and "\<And>k b. fmlookup owner' k = Some b \<longleftrightarrow> (if b = a then holds r k else fmlookup owner k = Some b)"
    and "\<And>k. k |\<in>| retired' \<Longrightarrow> fmlookup owner' k = None"
  shows "owners_ok (fmupd a r m) holds owner' retired'"
  using assms by (auto simp: owners_ok_def)

lemma record_ok_mono:
  assumes "record_ok n rp ru a r" and "rp |\<subseteq>| rp'" and "ru |\<subseteq>| ru'"
  shows "record_ok n rp' ru' a r"
  using assms by (auto simp: record_ok_def dest: fsubsetD)

lemma accounts_replace:
  assumes ok: "accounts_ok s"
    and s': "ir_config s' = ir_config s" "ir_accounts s' = fmupd a r (ir_accounts s)"
      "ir_retired_providers s |\<subseteq>| ir_retired_providers s'"
      "ir_retired_usernames s |\<subseteq>| ir_retired_usernames s'"
    and "record_ok (ic_max_identities_per_account (ir_config s)) (ir_retired_providers s')
      (ir_retired_usernames s') a r"
    and "owners_ok (fmupd a r (ir_accounts s)) holds_name (ir_username_owner s') (ir_retired_usernames s')"
    and "owners_ok (fmupd a r (ir_accounts s)) holds_identity (ir_provider_owner s') (ir_retired_providers s')"
  shows "accounts_ok s'"
proof -
  have "record_ok (ic_max_identities_per_account (ir_config s)) (ir_retired_providers s')
      (ir_retired_usernames s') b q" if "fmlookup (ir_accounts s) b = Some q" for b q
    using ok that by (intro record_ok_mono [OF _ s'(3,4)]) (simp add: accounts_ok_def)
  note old = this
  have "record_ok (ic_max_identities_per_account (ir_config s)) (ir_retired_providers s')
      (ir_retired_usernames s') b q" if q: "fmlookup (ir_accounts s') b = Some q" for b q
  proof (cases "b = a")
    case True
    with q have "q = r" by (simp add: s'(2))
    with True assms(6) show ?thesis by simp
  next
    case False
    with q have "fmlookup (ir_accounts s) b = Some q" by (simp add: s'(2))
    then show ?thesis by (rule old)
  qed
  then show ?thesis unfolding accounts_ok_def s'(1,2) using assms(7,8) by blast
qed

subsection \<open>What a command must do\<close>

definition identity_below :: "IdentityRegistry \<Rightarrow> IdentityRegistry \<Rightarrow> bool" where
  "identity_below s t \<longleftrightarrow>
     ir_retired_providers s |\<subseteq>| ir_retired_providers t \<and>
     ir_retired_usernames s |\<subseteq>| ir_retired_usernames t \<and>
     (\<forall>c r. fmlookup (ir_receipts s) c = Some r \<longrightarrow> fmlookup (ir_receipts t) c = Some r) \<and>
     (\<forall>a r. fmlookup (ir_accounts s) a = Some r \<longrightarrow> ar_status r = Deleted \<longrightarrow>
        fmlookup (ir_accounts t) a = Some r)"

definition good ::
    "IdentityRegistry \<Rightarrow> IdentityError + IdentityRegistry \<times> CommandReceipt \<Rightarrow> bool" where
  "good s m \<longleftrightarrow> (case m of Inl e \<Rightarrow> e \<noteq> invariant_error
     | Inr (t, r) \<Rightarrow> identity_ok t \<and> identity_below s t)"

lemma good_if: "(b \<Longrightarrow> e \<noteq> invariant_error) \<Longrightarrow> (\<not> b \<Longrightarrow> good s m) \<Longrightarrow> good s (if b then Inl e else m)"
  by (simp add: good_def)

lemma good_tryE:
  "(\<And>e. m = Inl e \<Longrightarrow> e \<noteq> invariant_error) \<Longrightarrow> (\<And>x. m = Inr x \<Longrightarrow> good s (k x)) \<Longrightarrow> good s (tryE m k)"
  by (cases m) (simp_all add: good_def)

lemma good_finish:
  assumes fresh: "fmlookup (ir_receipts s) (cr_command r) = None"
    and cap: "fmap_len (ir_receipts s) < ic_max_receipts (ir_config s)"
    and s: "identity_ok s" and t: "ir_receipts t = ir_receipts s" "ir_config t = ir_config s"
    and len: "fmap_len (ir_accounts t) \<le> ic_max_accounts (ir_config s)" and acc: "accounts_ok t"
    and dom: "fmdom (ir_accounts s) |\<subseteq>| fmdom (ir_accounts t)" "cr_account r |\<in>| fmdom (ir_accounts t)"
    and below: "identity_below s t"
  shows "good s (identity_finish r t)"
proof -
  let ?t = "t\<lparr>ir_receipts := fmupd (cr_command r) r (ir_receipts t)\<rparr>"
  have A: "accounts_ok ?t" using acc by (simp add: accounts_ok_def)
  have R: "fmap_len (ir_receipts ?t) \<le> ic_max_receipts (ir_config s)"
    using fresh cap t by (simp add: card_simps)
  have C: "\<forall>c x. fmlookup (ir_receipts ?t) c = Some x \<longrightarrow>
      cr_command x = c \<and> cr_account x |\<in>| fmdom (ir_accounts ?t)"
  proof (intro allI impI)
    fix c x assume x: "fmlookup (ir_receipts ?t) c = Some x"
    show "cr_command x = c \<and> cr_account x |\<in>| fmdom (ir_accounts ?t)"
    proof (cases "c = cr_command r")
      case False
      with x t(1) have "fmlookup (ir_receipts s) c = Some x" by simp
      with s have "cr_command x = c \<and> cr_account x |\<in>| fmdom (ir_accounts s)"
        by (simp add: identity_ok_def)
      with dom(1) show ?thesis by (simp add: fsubsetD)
    qed (use x dom(2) in simp)
  qed
  have L: "config_limits_ok (ir_config s)" using s by (simp add: identity_ok_def)
  have ok: "identity_ok ?t"
    unfolding identity_ok_def
  proof (intro conjI A C)
    show "config_limits_ok (ir_config ?t)" using L by (simp add: t(2))
    show "fmap_len (ir_accounts ?t) \<le> ic_max_accounts (ir_config ?t)" using len by (simp add: t(2))
    show "fmap_len (ir_receipts ?t) \<le> ic_max_receipts (ir_config ?t)" using R by (simp add: t(2))
  qed
  have "identity_below s ?t"
    using below fresh t by (auto simp: identity_below_def)
  then show ?thesis using ok by (simp add: identity_finish_def good_def validate_ok [OF ok] Let_def)
qed

lemma identity_below_refl: "identity_below s s"
  by (simp add: identity_below_def)

lemma identity_below_trans: "identity_below s t \<Longrightarrow> identity_below t u \<Longrightarrow> identity_below s u"
  unfolding identity_below_def by (meson order_trans fsubsetD fsubsetI)

definition fresh :: "IdentityRegistry \<Rightarrow> id16 \<Rightarrow> bool" where
  "fresh s c \<longleftrightarrow> fmlookup (ir_receipts s) c = None \<and>
     fmap_len (ir_receipts s) < ic_max_receipts (ir_config s)"

lemma existing_error: "identity_existing_receipt s c f x = Inl e \<Longrightarrow> e \<noteq> invariant_error"
  by (auto simp: identity_existing_receipt_def invariant_error_def split: option.splits if_splits)

lemma existing_None: "identity_existing_receipt s c f x = Inr None \<Longrightarrow> fmlookup (ir_receipts s) c = None"
  by (auto simp: identity_existing_receipt_def split: option.splits if_splits)

definition kept :: "IdentityRegistry \<Rightarrow> IdentityRegistry \<times> (IdentityError + CommandReceipt) \<Rightarrow> bool" where
  "kept s out \<longleftrightarrow> identity_ok (fst out) \<and> identity_below s (fst out) \<and> snd out \<noteq> Inl invariant_error"

lemma kept_commit: "identity_ok s \<Longrightarrow> good s m \<Longrightarrow> kept s (commit_candidate s m)"
  by (cases m) (auto simp: good_def kept_def identity_below_refl)

lemma kept_with_receipt:
  assumes "identity_ok s" and "fresh s c \<Longrightarrow> good s body"
  shows "kept s (with_identity_receipt c f x s body)"
  unfolding with_identity_receipt_def
proof (intro kept_commit assms(1) good_tryE)
  fix existing assume e: "identity_existing_receipt s c f x = Inr existing"
  show "good s (case existing of None \<Rightarrow> tryE (ensure_receipt_capacity s) (\<lambda>_. body)
      | Some receipt \<Rightarrow> Inr (s, receipt))"
    using assms existing_None [of s c f x] e
    by (cases existing)
      (auto simp: good_def identity_below_refl ensure_receipt_capacity_def fresh_def
        invariant_error_def)
qed (rule existing_error)

lemma account_with_revision_iff:
  "account_with_revision s a n = Inr r \<longleftrightarrow> fmlookup (ir_accounts s) a = Some r \<and> ar_revision r = n"
  by (auto simp: account_with_revision_def)

lemma active_account_iff:
  "active_account s a n = Inr r \<longleftrightarrow>
     fmlookup (ir_accounts s) a = Some r \<and> ar_revision r = n \<and> ar_status r = Active"
  by (auto simp: active_account_def account_with_revision_iff)

lemma account_error:
  "account_with_revision s a n = Inl e \<Longrightarrow> e \<noteq> invariant_error"
  "active_account s a n = Inl e \<Longrightarrow> e \<noteq> invariant_error"
  by (auto simp: active_account_def account_with_revision_def tryE_Inl_iff invariant_error_def
      split: if_splits)

lemma next_revision_error: "identity_next_revision n = Inl e \<Longrightarrow> e \<noteq> invariant_error"
  by (auto simp: identity_next_revision_def invariant_error_def)

lemma modify_account_eq:
  "fmlookup (ir_accounts s) a = Some r \<Longrightarrow>
     modify_account a f s = Inr (s\<lparr>ir_accounts := fmupd a (f r) (ir_accounts s)\<rparr>)"
  by (simp add: modify_account_def)

text \<open>A command that replaces the record of one account that is not deleted.\<close>

lemma good_replace:
  assumes s: "identity_ok s" and f: "fresh s (cr_command rc)" and a: "cr_account rc = a"
    and r: "fmlookup (ir_accounts s) a = Some r" "ar_status r \<noteq> Deleted"
    and t: "ir_config t = ir_config s" "ir_receipts t = ir_receipts s"
      "ir_accounts t = fmupd a q (ir_accounts s)"
      "ir_retired_providers s |\<subseteq>| ir_retired_providers t"
      "ir_retired_usernames s |\<subseteq>| ir_retired_usernames t"
    and q: "record_ok (ic_max_identities_per_account (ir_config s)) (ir_retired_providers t)
      (ir_retired_usernames t) a q"
    and U: "\<And>k b. fmlookup (ir_username_owner t) k = Some b \<longleftrightarrow>
      (if b = a then holds_name q k else fmlookup (ir_username_owner s) k = Some b)"
    and P: "\<And>k b. fmlookup (ir_provider_owner t) k = Some b \<longleftrightarrow>
      (if b = a then holds_identity q k else fmlookup (ir_provider_owner s) k = Some b)"
    and RU: "\<And>k. k |\<in>| ir_retired_usernames t \<Longrightarrow> fmlookup (ir_username_owner t) k = None"
    and RP: "\<And>k. k |\<in>| ir_retired_providers t \<Longrightarrow> fmlookup (ir_provider_owner t) k = None"
  shows "good s (identity_finish rc t)"
proof (rule good_finish)
  have acc: "accounts_ok s" using s by (simp add: identity_ok_def)
  show "accounts_ok t"
  proof (rule accounts_replace [OF acc t(1,3-5) q])
    show "owners_ok (fmupd a q (ir_accounts s)) holds_name (ir_username_owner t) (ir_retired_usernames t)"
      by (rule owners_replace [where owner = "ir_username_owner s" and retired = "ir_retired_usernames s"])
        (use acc U RU in \<open>simp_all add: accounts_ok_def\<close>)
    show "owners_ok (fmupd a q (ir_accounts s)) holds_identity (ir_provider_owner t) (ir_retired_providers t)"
      by (rule owners_replace [where owner = "ir_provider_owner s" and retired = "ir_retired_providers s"])
        (use acc P RP in \<open>simp_all add: accounts_ok_def\<close>)
  qed
  show "identity_below s t"
    using r t(2-5) by (auto simp: identity_below_def)
  show "fmap_len (ir_accounts t) \<le> ic_max_accounts (ir_config s)"
    using s r by (simp add: identity_ok_def t(3) card_simps)
qed (use s f a r t in \<open>auto simp: fresh_def\<close>)

subsection \<open>Every command keeps the invariant\<close>

lemma identity_ok_accounts: "identity_ok s \<Longrightarrow> accounts_ok s"
  by (simp add: identity_ok_def)

lemma name_owner:
  assumes "identity_ok s"
  shows "fmlookup (ir_username_owner s) u = Some a \<longleftrightarrow>
      (\<exists>r. fmlookup (ir_accounts s) a = Some r \<and> holds_name r u)"
    and "u |\<in>| ir_retired_usernames s \<Longrightarrow> fmlookup (ir_username_owner s) u = None"
proof -
  have "owners_ok (ir_accounts s) holds_name (ir_username_owner s) (ir_retired_usernames s)"
    using identity_ok_accounts [OF assms] by (simp add: accounts_ok_def)
  note own = owners_okD [OF this]
  show "fmlookup (ir_username_owner s) u = Some a \<longleftrightarrow>
      (\<exists>r. fmlookup (ir_accounts s) a = Some r \<and> holds_name r u)" by (rule own(1))
  show "u |\<in>| ir_retired_usernames s \<Longrightarrow> fmlookup (ir_username_owner s) u = None" by (rule own(2))
qed

lemma identity_owner:
  assumes "identity_ok s"
  shows "fmlookup (ir_provider_owner s) p = Some a \<longleftrightarrow>
      (\<exists>r. fmlookup (ir_accounts s) a = Some r \<and> holds_identity r p)"
    and "p |\<in>| ir_retired_providers s \<Longrightarrow> fmlookup (ir_provider_owner s) p = None"
proof -
  have "owners_ok (ir_accounts s) holds_identity (ir_provider_owner s) (ir_retired_providers s)"
    using identity_ok_accounts [OF assms] by (simp add: accounts_ok_def)
  note own = owners_okD [OF this]
  show "fmlookup (ir_provider_owner s) p = Some a \<longleftrightarrow>
      (\<exists>r. fmlookup (ir_accounts s) a = Some r \<and> holds_identity r p)" by (rule own(1))
  show "p |\<in>| ir_retired_providers s \<Longrightarrow> fmlookup (ir_provider_owner s) p = None" by (rule own(2))
qed

lemma account_record:
  assumes "identity_ok s" and "fmlookup (ir_accounts s) a = Some r"
  shows "record_ok (ic_max_identities_per_account (ir_config s)) (ir_retired_providers s)
    (ir_retired_usernames s) a r"
  using identity_ok_accounts [OF assms(1)] assms(2) by (simp add: accounts_ok_def)

lemma create_kept:
  assumes ok: "identity_ok s"
  shows "kept s (create_account c f a u d p s)"
  unfolding create_account_def
proof (intro kept_with_receipt ok good_if; (simp add: invariant_error_def; fail)?)
  let ?q = "\<lparr>ar_id = a, ar_username = u, ar_display_name = d, ar_revision = 1, ar_status = Active,
    ar_providers = {|p|}\<rparr>"
  let ?rc = "\<lparr>cr_command = c, cr_fingerprint = f, cr_account = a, cr_revision = 1, cr_outcome = Created\<rparr>"
  let ?t = "s\<lparr>ir_accounts := fmupd a ?q (ir_accounts s),
    ir_provider_owner := fmupd p a (ir_provider_owner s),
    ir_username_owner := fmupd u a (ir_username_owner s)\<rparr>"
  assume f: "fresh s c" and cap: "\<not> ic_max_accounts (ir_config s) \<le> fmap_len (ir_accounts s)"
    and a: "a |\<notin>| fmdom (ir_accounts s)"
    and p: "\<not> (p |\<in>| fmdom (ir_provider_owner s) \<or> p |\<in>| ir_retired_providers s)"
    and u: "\<not> (u |\<in>| fmdom (ir_username_owner s) \<or> u |\<in>| ir_retired_usernames s)"
  have none: "fmlookup (ir_accounts s) a = None" using a by (simp add: fmdom_notD)
  have acc: "accounts_ok s" using ok by (rule identity_ok_accounts)
  have lim: "0 < ic_max_identities_per_account (ir_config s)"
    using ok by (simp add: identity_ok_def config_limits_ok_def)
  have no_name: "fmlookup (ir_username_owner s) k \<noteq> Some a" for k
    using name_owner(1) [OF ok, of k a] none by simp
  have no_identity: "fmlookup (ir_provider_owner s) k \<noteq> Some a" for k
    using identity_owner(1) [OF ok, of k a] none by simp
  have "good s (identity_finish ?rc ?t)"
  proof (rule good_finish)
    show "accounts_ok ?t"
    proof (rule accounts_replace [OF acc, where a = a and r = ?q])
      show "owners_ok (fmupd a ?q (ir_accounts s)) holds_name (ir_username_owner ?t) (ir_retired_usernames ?t)"
        by (rule owners_replace [where owner = "ir_username_owner s" and retired = "ir_retired_usernames s"])
          (use acc u no_name name_owner(2) [OF ok] in \<open>auto simp: accounts_ok_def holds_name_def\<close>)
      show "owners_ok (fmupd a ?q (ir_accounts s)) holds_identity (ir_provider_owner ?t) (ir_retired_providers ?t)"
        by (rule owners_replace [where owner = "ir_provider_owner s" and retired = "ir_retired_providers s"])
          (use acc p no_identity identity_owner(2) [OF ok] in \<open>auto simp: accounts_ok_def holds_identity_def\<close>)
    qed (use lim in \<open>simp_all add: record_ok_def fcard.rep_eq\<close>)
    show "identity_below s ?t" using none by (auto simp: identity_below_def)
    show "fmap_len (ir_accounts ?t) \<le> ic_max_accounts (ir_config s)"
      using cap none by (simp add: card_simps)
  qed (use ok f in \<open>auto simp: fresh_def\<close>)
  then show "good s (let record = ?q; receipt = ?rc in identity_finish receipt
      (s\<lparr>ir_accounts := fmupd a record (ir_accounts s),
         ir_provider_owner := fmupd p a (ir_provider_owner s),
         ir_username_owner := fmupd u a (ir_username_owner s)\<rparr>))"
    by (simp add: Let_def)
qed

lemma identity_error_eq [simp]: "IdentityError code reason = invariant_error \<longleftrightarrow>
    code = FailedPrecondition \<and> reason = ''identity_invariant_violation''"
  by (simp add: invariant_error_def)

lemma replay_error:
  assumes ok: "identity_ok s" and e: "replay_authentication s p r = Inl e"
  shows "e \<noteq> invariant_error"
proof -
  have "fmlookup (ir_accounts s) a \<noteq> None" if "fmlookup (ir_provider_owner s) p = Some a" for a
    using identity_owner(1) [OF ok, of p a] that by auto
  with e show ?thesis
    by (auto simp: replay_authentication_def require_login_def tryE_Inl_iff split: if_splits)
qed

lemma authenticate_kept:
  assumes ok: "identity_ok s"
  shows "kept s (authenticate c f p s)"
  unfolding authenticate_def
proof (intro kept_commit ok good_tryE)
  fix existing assume ex: "identity_existing_receipt s c f Authenticated = Inr existing"
  show "good s (case existing of None \<Rightarrow>
           tryE (ensure_receipt_capacity s) (\<lambda>_.
           tryE (require_login s p) (\<lambda>account.
           tryE (ok_or invariant_error (fmlookup (ir_accounts s) account)) (\<lambda>record.
           if ar_status record \<noteq> Active
           then Inl (IdentityError PermissionDenied ''account_not_active'')
           else identity_finish \<lparr>cr_command = c, cr_fingerprint = f,
                  cr_account = account, cr_revision = ar_revision record,
                  cr_outcome = Authenticated\<rparr> s)))
      | Some receipt \<Rightarrow> tryE (replay_authentication s p receipt) (\<lambda>receipt. Inr (s, receipt)))"
  proof (cases existing)
    case (Some receipt)
    show ?thesis unfolding Some option.case
      by (rule good_tryE, erule replay_error [OF ok])
        (simp add: good_def ok identity_below_refl)
  next
    case None
    then have c: "fmlookup (ir_receipts s) c = None" using ex by (blast dest: existing_None)
    have body: "good s (identity_finish rc s)"
      if "fmap_len (ir_receipts s) < ic_max_receipts (ir_config s)" "cr_command rc = c"
        "cr_account rc |\<in>| fmdom (ir_accounts s)" for rc
      using ok c that by (intro good_finish)
        (auto simp: identity_below_refl identity_ok_def)
    show ?thesis unfolding None option.case
      using identity_owner(1) [OF ok, of p]
      by (intro good_tryE good_if)
        (auto simp: ensure_receipt_capacity_def require_login_def fmlookup_dom_iff
          split: if_splits intro!: body)
  qed
qed (rule existing_error)

lemma retired_stays:
  assumes ok: "identity_ok s" and r: "fmlookup (ir_accounts s) a = Some r" "ar_status r \<noteq> Deleted"
  shows "fmlookup (ir_username_owner s) k = Some a \<longleftrightarrow> ar_username r = k"
    "fmlookup (ir_provider_owner s) p = Some a \<longleftrightarrow> p |\<in>| ar_providers r"
  using name_owner(1) [OF ok] identity_owner(1) [OF ok] r
  by (auto simp: holds_name_def holds_identity_def)

lemma link_kept:
  assumes ok: "identity_ok s"
  shows "kept s (link_provider c f a n p s)"
  unfolding link_provider_def
proof (intro kept_with_receipt ok good_tryE good_if; (erule account_error next_revision_error)?)
  fix r nxt c1 c2
  assume f: "fresh s c" and "active_account s a n = Inr r"
    and cap: "\<not> ic_max_identities_per_account (ir_config s) \<le> fcard (ar_providers r)"
    and p: "p |\<notin>| ir_retired_providers s" "p |\<notin>| fmdom (ir_provider_owner s)"
    and m: "modify_account a (\<lambda>r. r\<lparr>ar_providers := finsert p (ar_providers r)\<rparr>) s = Inr c1"
      "modify_account a (\<lambda>r. r\<lparr>ar_revision := nxt\<rparr>) c1 = Inr c2"
  then have r: "fmlookup (ir_accounts s) a = Some r" "ar_status r = Active"
    by (simp_all add: active_account_iff)
  let ?q = "r\<lparr>ar_providers := finsert p (ar_providers r), ar_revision := nxt\<rparr>"
  have c2: "c2 = s\<lparr>ir_accounts := fmupd a ?q (ir_accounts s)\<rparr>"
    using m r by (auto simp: modify_account_def)
  have R: "record_ok (ic_max_identities_per_account (ir_config s)) (ir_retired_providers s)
    (ir_retired_usernames s) a r" by (rule account_record [OF ok r(1)])
  have own: "fmlookup (ir_username_owner s) k = Some a \<longleftrightarrow> ar_username r = k"
    "fmlookup (ir_provider_owner s) x = Some a \<longleftrightarrow> x |\<in>| ar_providers r" for k x
    using retired_stays [OF ok r(1)] r(2) by simp_all
  have none: "fmlookup (ir_provider_owner s) p = None" using p(2) by (simp add: fmdom_notD)
  show "good s (identity_finish \<lparr>cr_command = c, cr_fingerprint = f, cr_account = a,
      cr_revision = nxt, cr_outcome = Linked\<rparr>
      (c2\<lparr>ir_provider_owner := fmupd p a (ir_provider_owner c2)\<rparr>))"
  proof (rule good_replace [OF ok _ _ r(1), where q = ?q])
    show "record_ok (ic_max_identities_per_account (ir_config s))
      (ir_retired_providers (c2\<lparr>ir_provider_owner := fmupd p a (ir_provider_owner c2)\<rparr>))
      (ir_retired_usernames (c2\<lparr>ir_provider_owner := fmupd p a (ir_provider_owner c2)\<rparr>)) a ?q"
      using R cap r(2) by (simp add: record_ok_def c2 fcard_finsert_if)
  qed (use f r own none p name_owner(2) [OF ok] identity_owner(2) [OF ok] in
      \<open>auto simp: c2 holds_name_def holds_identity_def\<close>)
qed (auto simp: modify_account_def active_account_iff split: if_splits)

lemma unlink_kept:
  assumes ok: "identity_ok s"
  shows "kept s (unlink_provider c f a n p s)"
  unfolding unlink_provider_def
proof (intro kept_with_receipt ok good_tryE good_if; (erule account_error next_revision_error)?)
  fix r nxt before c1 c2
  assume f: "fresh s c" and "active_account s a n = Inr r"
    and p: "\<not> p |\<notin>| ar_providers r" and many: "fcard (ar_providers r) \<noteq> 1"
    and m: "modify_account a (\<lambda>r. r\<lparr>ar_providers := ar_providers r |-| {|p|}\<rparr>) s = Inr c1"
      "modify_account a (\<lambda>r. r\<lparr>ar_revision := nxt\<rparr>) c1 = Inr c2"
  then have r: "fmlookup (ir_accounts s) a = Some r" "ar_status r = Active"
    by (simp_all add: active_account_iff)
  let ?q = "r\<lparr>ar_providers := ar_providers r |-| {|p|}, ar_revision := nxt\<rparr>"
  have c2: "c2 = s\<lparr>ir_accounts := fmupd a ?q (ir_accounts s)\<rparr>"
    using m r by (auto simp: modify_account_def)
  have R: "record_ok (ic_max_identities_per_account (ir_config s)) (ir_retired_providers s)
    (ir_retired_usernames s) a r" by (rule account_record [OF ok r(1)])
  have own: "fmlookup (ir_username_owner s) k = Some a \<longleftrightarrow> ar_username r = k"
    "fmlookup (ir_provider_owner s) x = Some a \<longleftrightarrow> x |\<in>| ar_providers r" for k x
    using retired_stays [OF ok r(1)] r(2) by simp_all
  have "ar_providers r |-| {|p|} \<noteq> {||}"
  proof
    assume "ar_providers r |-| {|p|} = {||}"
    then have "ar_providers r = {|p|}" using p by auto
    with many show False by (simp add: fcard.rep_eq)
  qed
  moreover have "fcard (ar_providers r |-| {|p|}) \<le> fcard (ar_providers r)"
    by (rule fcard_mono) auto
  ultimately have q: "record_ok (ic_max_identities_per_account (ir_config s)) (ir_retired_providers s)
      (ir_retired_usernames s) a ?q"
    using R r(2) by (simp add: record_ok_def)
  have "fmlookup (ir_provider_owner s) p = Some a" using own(2) p by simp
  then have others: "fmlookup (ir_provider_owner s) k = Some b \<Longrightarrow> b \<noteq> a \<Longrightarrow> k \<noteq> p" for k b by auto
  show "good s (identity_finish \<lparr>cr_command = c, cr_fingerprint = f, cr_account = a,
      cr_revision = nxt, cr_outcome = Unlinked\<rparr>
      (c2\<lparr>ir_provider_owner := fmdrop p (ir_provider_owner c2)\<rparr>))"
    by (rule good_replace [OF ok _ _ r(1), where q = ?q])
      (use f r own others q name_owner(2) [OF ok] identity_owner(2) [OF ok] in
        \<open>auto simp: c2 holds_name_def holds_identity_def\<close>)
qed (auto simp: modify_account_def active_account_iff split: if_splits)

lemma status_kept:
  assumes ok: "identity_ok s"
  shows "kept s (set_status c f a n target s)"
  unfolding set_status_def
proof (intro kept_with_receipt ok good_tryE good_if; (erule account_error next_revision_error)?)
  fix r nxt c1
  assume f: "fresh s c" and "account_with_revision s a n = Inr r"
    and t: "target \<noteq> Deleted" "ar_status r \<noteq> Deleted"
    and m: "modify_account a (\<lambda>r. r\<lparr>ar_status := target, ar_revision := nxt\<rparr>) s = Inr c1"
  then have r: "fmlookup (ir_accounts s) a = Some r" by (simp add: account_with_revision_iff)
  let ?q = "r\<lparr>ar_status := target, ar_revision := nxt\<rparr>"
  have c1: "c1 = s\<lparr>ir_accounts := fmupd a ?q (ir_accounts s)\<rparr>"
    using m r by (auto simp: modify_account_def)
  have q: "record_ok (ic_max_identities_per_account (ir_config s)) (ir_retired_providers s)
      (ir_retired_usernames s) a ?q"
    using account_record [OF ok r] t by (simp add: record_ok_def)
  show "good s (identity_finish \<lparr>cr_command = c, cr_fingerprint = f, cr_account = a,
      cr_revision = nxt, cr_outcome = StatusChanged\<rparr> c1)"
    by (rule good_replace [OF ok _ _ r, where q = ?q])
      (use f t q retired_stays [OF ok r] name_owner(2) [OF ok] identity_owner(2) [OF ok] in
        \<open>auto simp: c1 holds_name_def holds_identity_def\<close>)
qed (auto simp: modify_account_def account_with_revision_iff split: if_splits)

lemma fold_retire_provider:
  "ir_config (fold retire_provider ps c) = ir_config c"
  "ir_accounts (fold retire_provider ps c) = ir_accounts c"
  "ir_receipts (fold retire_provider ps c) = ir_receipts c"
  "ir_username_owner (fold retire_provider ps c) = ir_username_owner c"
  "ir_retired_usernames (fold retire_provider ps c) = ir_retired_usernames c"
  "fmlookup (ir_provider_owner (fold retire_provider ps c)) p =
     (if p \<in> set ps then None else fmlookup (ir_provider_owner c) p)"
  "p |\<in>| ir_retired_providers (fold retire_provider ps c) \<longleftrightarrow>
     p \<in> set ps \<or> p |\<in>| ir_retired_providers c"
  by (induction ps arbitrary: c) (auto simp: retire_provider_def)

lemma delete_kept:
  assumes ok: "identity_ok s"
  shows "kept s (delete_account c f a n s)"
  unfolding delete_account_def Let_def
proof (intro kept_with_receipt ok good_tryE good_if; (erule account_error next_revision_error)?)
  fix r :: AccountRecord and nxt c1
  let ?c = "fold retire_provider (sorted_list_of_fset (ar_providers r))
    (s\<lparr>ir_username_owner := fmdrop (ar_username r) (ir_username_owner s),
       ir_retired_usernames := finsert (ar_username r) (ir_retired_usernames s)\<rparr>)"
  assume f: "fresh s c" and "account_with_revision s a n = Inr r" and t: "ar_status r \<noteq> Deleted"
    and m: "modify_account a (\<lambda>r. r\<lparr>ar_status := Deleted, ar_revision := nxt\<rparr>) ?c = Inr c1"
  then have r: "fmlookup (ir_accounts s) a = Some r" by (simp add: account_with_revision_iff)
  let ?q = "r\<lparr>ar_status := Deleted, ar_revision := nxt\<rparr>"
  have c1: "c1 = ?c\<lparr>ir_accounts := fmupd a ?q (ir_accounts s)\<rparr>"
    using m r by (auto simp: modify_account_def fold_retire_provider)
  have q: "record_ok (ic_max_identities_per_account (ir_config s)) (ir_retired_providers c1)
      (ir_retired_usernames c1) a ?q"
    using account_record [OF ok r] by (auto simp: record_ok_def c1 fold_retire_provider)
  show "good s (identity_finish \<lparr>cr_command = c, cr_fingerprint = f, cr_account = a,
      cr_revision = nxt, cr_outcome = DeletedOutcome\<rparr> c1)"
  proof (rule good_replace [OF ok _ _ r t _ _ _ _ _ q])
    show "fmlookup (ir_username_owner c1) k = Some b \<longleftrightarrow>
        (if b = a then holds_name ?q k else fmlookup (ir_username_owner s) k = Some b)" for k b
      using retired_stays(1) [OF ok r t, of k] by (auto simp: c1 fold_retire_provider holds_name_def)
    show "fmlookup (ir_provider_owner c1) k = Some b \<longleftrightarrow>
        (if b = a then holds_identity ?q k else fmlookup (ir_provider_owner s) k = Some b)" for k b
      using retired_stays(2) [OF ok r t, of k] by (auto simp: c1 fold_retire_provider holds_identity_def)
    show "k |\<in>| ir_retired_usernames c1 \<Longrightarrow> fmlookup (ir_username_owner c1) k = None" for k
      using name_owner(2) [OF ok, of k] by (auto simp: c1 fold_retire_provider)
    show "k |\<in>| ir_retired_providers c1 \<Longrightarrow> fmlookup (ir_provider_owner c1) k = None" for k
      using identity_owner(2) [OF ok, of k] by (auto simp: c1 fold_retire_provider)
  qed (use f in \<open>auto simp: c1 fold_retire_provider\<close>)
qed (auto simp: modify_account_def account_with_revision_iff fold_retire_provider split: if_splits)

definition updated_record :: "rstring option \<Rightarrow> rstring option \<Rightarrow> u64 \<Rightarrow> AccountRecord \<Rightarrow> AccountRecord" where
  "updated_record u d nxt r = r\<lparr>ar_username := (case u of None \<Rightarrow> ar_username r | Some x \<Rightarrow> x),
     ar_display_name := (case d of None \<Rightarrow> ar_display_name r | Some x \<Rightarrow> x), ar_revision := nxt\<rparr>"

lemma updated_record_sel [simp]:
  "ar_id (updated_record u d nxt r) = ar_id r"
  "ar_status (updated_record u d nxt r) = ar_status r"
  "ar_providers (updated_record u d nxt r) = ar_providers r"
  "ar_username (updated_record u d nxt r) = (case u of None \<Rightarrow> ar_username r | Some x \<Rightarrow> x)"
  by (simp_all add: updated_record_def)

lemma update_steps:
  assumes r: "fmlookup (ir_accounts s) a = Some r"
    and "apply_username a (ar_username r) u s = Inr c1"
    and "apply_display a d c1 = Inr c2"
    and "modify_account a (\<lambda>r. r\<lparr>ar_revision := nxt\<rparr>) c2 = Inr c3"
  shows "ir_config c3 = ir_config s" "ir_receipts c3 = ir_receipts s"
    "ir_accounts c3 = fmupd a (updated_record u d nxt r) (ir_accounts s)"
    "ir_provider_owner c3 = ir_provider_owner s"
    "ir_retired_providers c3 = ir_retired_providers s"
    "ir_retired_usernames c3 = ir_retired_usernames s"
    "ir_username_owner c3 = (case u of None \<Rightarrow> ir_username_owner s
       | Some x \<Rightarrow> if x \<noteq> ar_username r
           then fmupd x a (fmdrop (ar_username r) (ir_username_owner s)) else ir_username_owner s)"
  using assms
  by (auto simp: apply_username_def apply_display_def modify_account_def updated_record_def
      split: option.splits if_splits)

lemma update_total:
  assumes r: "fmlookup (ir_accounts s) a = Some r"
  shows "apply_username a x u s \<noteq> Inl e"
    and "apply_username a x u s = Inr c1 \<Longrightarrow> apply_display a d c1 \<noteq> Inl e"
    and "apply_username a x u s = Inr c1 \<Longrightarrow> apply_display a d c1 = Inr c2 \<Longrightarrow>
      modify_account a g c2 \<noteq> Inl e"
  using r by (auto simp: apply_username_def apply_display_def modify_account_def
      split: option.splits if_splits)

lemma update_kept:
  assumes ok: "identity_ok s"
  shows "kept s (update_profile c f a n u d s)"
  unfolding update_profile_def
proof (intro kept_with_receipt ok good_tryE good_if; (erule account_error next_revision_error)?)
  fix r nxt c1 c2 c3
  assume f: "fresh s c" and "active_account s a n = Inr r"
    and u: "\<not> (case u of None \<Rightarrow> False | Some u \<Rightarrow> u \<noteq> ar_username r \<and>
               (u |\<in>| fmdom (ir_username_owner s) \<or> u |\<in>| ir_retired_usernames s))"
    and m: "apply_username a (ar_username r) u s = Inr c1" "apply_display a d c1 = Inr c2"
      "modify_account a (\<lambda>r. r\<lparr>ar_revision := nxt\<rparr>) c2 = Inr c3"
  then have r: "fmlookup (ir_accounts s) a = Some r" "ar_status r = Active"
    by (simp_all add: active_account_iff)
  note c3 = update_steps [OF r(1) m]
  have q: "record_ok (ic_max_identities_per_account (ir_config s)) (ir_retired_providers c3)
      (ir_retired_usernames c3) a (updated_record u d nxt r)"
    using account_record [OF ok r(1)] r(2) by (simp add: record_ok_def c3)
  have own: "fmlookup (ir_username_owner s) k = Some a \<longleftrightarrow> ar_username r = k"
    "fmlookup (ir_provider_owner s) x = Some a \<longleftrightarrow> x |\<in>| ar_providers r" for k x
    using retired_stays [OF ok r(1)] r(2) by simp_all
  show "good s (identity_finish \<lparr>cr_command = c, cr_fingerprint = f, cr_account = a,
      cr_revision = nxt, cr_outcome = Updated\<rparr> c3)"
  proof (rule good_replace [OF ok _ _ r(1) _ _ _ _ _ _ q])
    show "fmlookup (ir_username_owner c3) k = Some b \<longleftrightarrow>
        (if b = a then holds_name (updated_record u d nxt r) k
         else fmlookup (ir_username_owner s) k = Some b)" for k b
      using u own(1) [of k] r(2)
      by (auto simp: c3 holds_name_def fmdom_notD split: option.splits)
    show "k |\<in>| ir_retired_usernames c3 \<Longrightarrow> fmlookup (ir_username_owner c3) k = None" for k
      using name_owner(2) [OF ok, of k] u by (auto simp: c3 split: option.splits)
  qed (use f r own(2) identity_owner(2) [OF ok] in \<open>auto simp: c3 holds_identity_def\<close>)
qed (auto simp: active_account_iff update_total split: if_splits)

end
