(* ===== verification/Identity_Properties.thy ===== *)
theory Identity_Properties
  imports Identity_Proofs
begin

text \<open>
  The identity registry over runs: the invariant as a monotone machine, and the properties of
  sign-in and of deletion.
\<close>

lemma identity_exec_kept: "identity_ok s \<Longrightarrow> kept s (identity_exec x s)"
  by (cases x) (simp_all add: create_kept authenticate_kept link_kept unlink_kept update_kept
      status_kept delete_kept)

interpretation identity: monotone_machine identity_step identity_ok identity_below
proof
  fix s x assume "identity_ok s"
  then show "identity_ok (identity_step x s)" "identity_below s (identity_step x s)"
    using identity_exec_kept [of s x] by (simp_all add: identity_step_def kept_def)
qed (rule identity_below_refl, erule identity_below_trans, assumption)

lemma identity_new_ok:
  assumes "IdentityConfig_new a i r = Inr cfg"
  shows "identity_ok (identity_new cfg)"
  using assms by (auto simp: identity_ok_def identity_new_def accounts_ok_def owners_ok_def
      config_limits_ok_def IdentityConfig_new_def split: if_splits)

lemma reachable_ok:
  "IdentityConfig_new a i r = Inr cfg \<Longrightarrow> identity_ok (fold identity_step xs (identity_new cfg))"
  by (intro identity.run_inv identity_new_ok)

text \<open>
  C29: The registry never trips over its own self-check: from a new registry with an accepted
  configuration and after any commands, the stored state passes the check, and no command is
  refused with the invariant-violation error, whatever its arguments.
\<close>

theorem identity_self_check_holds:
  assumes "IdentityConfig_new max_accounts max_identities max_receipts = Inr cfg"
  shows "let s = fold identity_step xs (identity_new cfg) in
    identity_validate s = Inr () \<and> snd (identity_exec x s) \<noteq> Inl invariant_error"
  using reachable_ok [OF assms] identity_exec_kept [of "fold identity_step xs (identity_new cfg)" x]
  by (simp add: validate_ok kept_def Let_def)

lemma authenticate_current:
  assumes ok: "identity_ok s" and auth: "authenticate c f p s = (s', Inr rc)"
  shows "\<exists>r. fmlookup (ir_accounts s) (cr_account rc) = Some r \<and> ar_status r = Active \<and>
    p |\<in>| ar_providers r \<and> ar_revision r = cr_revision rc"
proof -
  obtain r where r: "fmlookup (ir_provider_owner s) p = Some (cr_account rc)"
    "fmlookup (ir_accounts s) (cr_account rc) = Some r" "ar_status r = Active"
    "ar_revision r = cr_revision rc"
    using auth by (auto simp: authenticate_def replay_authentication_def require_login_def
        identity_finish_def Let_def split: option.splits if_splits)
  with identity_owner(1) [OF ok, of p "cr_account rc"] show ?thesis
    by (auto simp: holds_identity_def)
qed

text \<open>
  C30: Signing in is always current: when a sign-in with a provider identity succeeds, whether
  it is a first execution or the replay of an earlier command, the account in the answer is
  active at this moment, the identity is linked to it at this moment, and the answer carries
  its current revision. A recorded sign-in is not replayed after the account was changed,
  disabled, banned or deleted, or after the identity moved.
\<close>

theorem authentication_is_current:
  assumes "IdentityConfig_new max_accounts max_identities max_receipts = Inr cfg"
    and "authenticate c f p (fold identity_step xs (identity_new cfg)) = (s', Inr rc)"
  shows "\<exists>r. identity_account (fold identity_step xs (identity_new cfg)) (cr_account rc) = Some r \<and>
    ar_status r = Active \<and> p |\<in>| ar_providers r \<and> ar_revision r = cr_revision rc"
  unfolding identity_account_def
  using reachable_ok [OF assms(1)] assms(2) by (rule authenticate_current)

lemma delete_retires:
  assumes "delete_account c f a n s = (s', Inr rc)" and "fmlookup (ir_receipts s) c = None"
    and "fmlookup (ir_accounts s) a = Some r"
  shows "\<exists>q. fmlookup (ir_accounts s') a = Some q \<and> ar_status q = Deleted"
    "ar_providers r |\<subseteq>| ir_retired_providers s'" "ar_username r |\<in>| ir_retired_usernames s'"
  using assms
  by (auto simp: delete_account_def with_identity_receipt_def identity_existing_receipt_def
      account_with_revision_iff identity_finish_def modify_account_def fold_retire_provider Let_def
      split: if_splits)

text \<open>
  C31: Deletion is final: after an account was deleted it stays deleted, and none of the
  provider identities and not the username it held is ever given out again: whatever commands
  follow, they have no owner and every sign-in with one of them is refused.
\<close>

theorem deletion_is_final:
  assumes "IdentityConfig_new max_accounts max_identities max_receipts = Inr cfg"
    and s: "s = fold identity_step xs (identity_new cfg)"
    and "identity_account s a = Some r" and "fmlookup (ir_receipts s) c = None"
    and "delete_account c f a n s = (s', Inr rc)"
    and t_def: "t = fold identity_step ys s'"
  shows "(\<exists>q. identity_account t a = Some q \<and> ar_status q = Deleted) \<and>
    fmlookup (ir_username_owner t) (ar_username r) = None \<and>
    (\<forall>p. p |\<in>| ar_providers r \<longrightarrow> owner_of t p = None \<and>
       (\<forall>c' f'. \<exists>e. authenticate c' f' p t = (t, Inl e)))"
proof -
  have "identity_ok s" using reachable_ok [OF assms(1)] by (simp add: s)
  then have ok': "identity_ok s'"
    using delete_kept [of s c f a n] assms(5) by (simp add: kept_def)
  note ok = identity.run_inv [OF ok', of ys, folded t_def]
    and below = identity.run_below [OF ok', of ys, folded t_def]
  note gone = delete_retires [OF assms(5,4) assms(3) [unfolded identity_account_def]]
  have "\<exists>q. identity_account t a = Some q \<and> ar_status q = Deleted"
    using gone(1) below by (auto simp: identity_below_def identity_account_def)
  moreover have "fmlookup (ir_username_owner t) (ar_username r) = None"
    using gone(3) below name_owner(2) [OF ok] by (auto simp: identity_below_def dest: fsubsetD)
  moreover have none: "fmlookup (ir_provider_owner t) p = None" if "p |\<in>| ar_providers r" for p
    using gone(2) below identity_owner(2) [OF ok, of p] that
    by (auto simp: identity_below_def dest: fsubsetD)
  moreover have "\<exists>e. authenticate c' f' p t = (t, Inl e)" if "p |\<in>| ar_providers r" for p c' f'
  proof (cases "authenticate c' f' p t")
    case (Pair u res)
    show ?thesis
    proof (cases res)
      case (Inl e)
      with Pair show ?thesis by (auto simp: authenticate_def)
    next
      case (Inr rc')
      with Pair authenticate_current [OF ok] obtain q where
        "fmlookup (ir_accounts t) (cr_account rc') = Some q" "ar_status q = Active" "p |\<in>| ar_providers q"
        by blast
      then have "fmlookup (ir_provider_owner t) p = Some (cr_account rc')"
        by (simp add: identity_owner(1) [OF ok] holds_identity_def)
      with none that show ?thesis by simp
    qed
  qed
  ultimately show ?thesis by (simp add: owner_of_def)
qed

subsection \<open>Witnesses\<close>

definition wit_identity_config :: IdentityConfig where
  "wit_identity_config = \<lparr>ic_max_accounts = 4, ic_max_identities_per_account = 2, ic_max_receipts = 8\<rparr>"

definition wit_device :: ProviderIdentity where "wit_device = ProviderIdentity Device [97]"

definition wit_account :: AccountRecord where
  "wit_account = \<lparr>ar_id = 7, ar_username = [117], ar_display_name = [], ar_revision = 1,
     ar_status = Active, ar_providers = {|wit_device|}\<rparr>"

definition wit_created :: CommandReceipt where
  "wit_created = \<lparr>cr_command = 1, cr_fingerprint = 5, cr_account = 7, cr_revision = 1,
     cr_outcome = Created\<rparr>"

definition wit_registry :: IdentityRegistry where
  "wit_registry = (identity_new wit_identity_config)\<lparr>ir_accounts := fmupd 7 wit_account fmempty,
     ir_provider_owner := fmupd wit_device 7 fmempty, ir_username_owner := fmupd [117] 7 fmempty,
     ir_receipts := fmupd 1 wit_created fmempty\<rparr>"

lemma wit_identity_config_new: "IdentityConfig_new 4 2 8 = Inr wit_identity_config"
  by (simp add: IdentityConfig_new_def wit_identity_config_def HARD_MAX_ACCOUNTS_def
      HARD_MAX_IDENTITIES_PER_ACCOUNT_def ID_HARD_MAX_RECEIPTS_def)

lemma foldE_error:
  "foldE g xs s = Inl e \<Longrightarrow> (\<And>x s e. g x s = Inl e \<Longrightarrow> e = err) \<Longrightarrow> e = err"
  by (induction xs arbitrary: s) (auto simp: tryE_Inl_iff)

lemma check_account_error: "check_account s x up = Inl e \<Longrightarrow> e = invariant_error"
  by (auto simp: check_account_def check_active_provider_def tryE_Inl_iff split: prod.splits if_splits
      dest!: forE_Inl dest: foldE_error)

lemma identity_validate_error: "identity_validate s = Inl e \<Longrightarrow> e = invariant_error"
  by (auto simp: identity_validate_def tryE_Inl_iff dest!: forE_Inl dest: foldE_error check_account_error)

lemma finish_success:
  assumes "snd (commit_candidate s (identity_finish r t)) \<noteq> Inl invariant_error"
  shows "commit_candidate s (identity_finish r t) =
    (t\<lparr>ir_receipts := fmupd (cr_command r) r (ir_receipts t)\<rparr>, Inr r)"
  using assms
  by (cases "identity_validate (t\<lparr>ir_receipts := fmupd (cr_command r) r (ir_receipts t)\<rparr>)")
    (auto simp: identity_finish_def Let_def dest: identity_validate_error)

lemma wit_create:
  "create_account 1 5 7 [117] [] wit_device (identity_new wit_identity_config) = (wit_registry, Inr wit_created)"
proof -
  let ?s = "identity_new wit_identity_config"
  let ?t = "?s\<lparr>ir_accounts := fmupd 7 wit_account fmempty,
    ir_provider_owner := fmupd wit_device 7 fmempty, ir_username_owner := fmupd [117] 7 fmempty\<rparr>"
  have eq: "create_account 1 5 7 [117] [] wit_device ?s = commit_candidate ?s (identity_finish wit_created ?t)"
    by (simp add: create_account_def with_identity_receipt_def identity_existing_receipt_def
        ensure_receipt_capacity_def identity_new_def wit_identity_config_def Let_def
        wit_created_def wit_account_def)
  have "snd (create_account 1 5 7 [117] [] wit_device ?s) \<noteq> Inl invariant_error"
    using create_kept [OF identity_new_ok [OF wit_identity_config_new]] by (simp add: kept_def)
  from finish_success [OF this [unfolded eq]] show ?thesis
    unfolding eq by (simp add: wit_registry_def wit_created_def identity_new_def)
qed

lemma wit_created_run:
  "fold identity_step [ICreate 1 5 7 [117] [] wit_device] (identity_new wit_identity_config) = wit_registry"
  by (simp add: identity_step_def wit_create)

theorem identity_self_check_holds_witness:
  "identity_validate wit_registry = Inr () \<and>
   snd (identity_exec (IDelete 2 6 7 1) wit_registry) \<noteq> Inl invariant_error"
  using identity_self_check_holds [OF wit_identity_config_new, of "[ICreate 1 5 7 [117] [] wit_device]"
      "IDelete 2 6 7 1"]
  unfolding wit_created_run by (simp add: Let_def)

lemma wit_registry_ok: "identity_ok wit_registry"
  using reachable_ok [OF wit_identity_config_new, of "[ICreate 1 5 7 [117] [] wit_device]"]
  unfolding wit_created_run .

lemma wit_authenticate: "\<exists>s' rc. authenticate 3 9 wit_device wit_registry = (s', Inr rc) \<and> cr_account rc = 7"
proof -
  let ?rc = "\<lparr>cr_command = 3, cr_fingerprint = 9, cr_account = 7, cr_revision = 1,
    cr_outcome = Authenticated\<rparr>"
  have eq: "authenticate 3 9 wit_device wit_registry =
      commit_candidate wit_registry (identity_finish ?rc wit_registry)"
    by (simp add: authenticate_def identity_existing_receipt_def ensure_receipt_capacity_def
        require_login_def wit_registry_def identity_new_def wit_identity_config_def wit_account_def
        card_simps)
  have "snd (authenticate 3 9 wit_device wit_registry) \<noteq> Inl invariant_error"
    using authenticate_kept [OF wit_registry_ok] by (simp add: kept_def)
  from finish_success [OF this [unfolded eq]] show ?thesis unfolding eq by simp
qed

theorem authentication_is_current_witness:
  "\<exists>r. identity_account wit_registry 7 = Some r \<and> ar_status r = Active \<and> wit_device |\<in>| ar_providers r"
proof -
  obtain s' rc where a: "authenticate 3 9 wit_device wit_registry = (s', Inr rc)" "cr_account rc = 7"
    using wit_authenticate by blast
  then show ?thesis
    using authentication_is_current [OF wit_identity_config_new,
        of 3 9 wit_device "[ICreate 1 5 7 [117] [] wit_device]" s' rc]
    unfolding wit_created_run by auto
qed

lemma wit_delete: "\<exists>s' rc. delete_account 2 6 7 1 wit_registry = (s', Inr rc)"
proof -
  let ?rc = "\<lparr>cr_command = 2, cr_fingerprint = 6, cr_account = 7, cr_revision = 2,
    cr_outcome = DeletedOutcome\<rparr>"
  have "\<exists>t. delete_account 2 6 7 1 wit_registry = commit_candidate wit_registry (identity_finish ?rc t)"
    by (simp add: delete_account_def with_identity_receipt_def identity_existing_receipt_def
        ensure_receipt_capacity_def account_with_revision_def identity_next_revision_def
        checked_add_def modify_account_def fold_retire_provider
        wit_registry_def identity_new_def wit_identity_config_def wit_account_def Let_def card_simps)
      blast
  then obtain t where eq: "delete_account 2 6 7 1 wit_registry =
      commit_candidate wit_registry (identity_finish ?rc t)" by blast
  have "snd (delete_account 2 6 7 1 wit_registry) \<noteq> Inl invariant_error"
    using delete_kept [OF wit_registry_ok] by (simp add: kept_def)
  from finish_success [OF this [unfolded eq]] show ?thesis unfolding eq by simp
qed

theorem deletion_is_final_witness:
  "\<exists>s' rc. delete_account 2 6 7 1 wit_registry = (s', Inr rc) \<and> owner_of s' wit_device = None"
proof -
  obtain s' rc where d: "delete_account 2 6 7 1 wit_registry = (s', Inr rc)" using wit_delete by blast
  have a: "identity_account wit_registry 7 = Some wit_account"
    "fmlookup (ir_receipts wit_registry) 2 = None"
    by (simp_all add: identity_account_def wit_registry_def)
  have "owner_of s' wit_device = None"
    using deletion_is_final [OF wit_identity_config_new wit_created_run [symmetric] a d, of s' "[]"]
    by (simp add: wit_account_def)
  with d show ?thesis by blast
qed

end
