(* ===== verification/Storage.thy ===== *)
theory Storage
  imports Rust_Text Contracts Machine
begin

unbundle bit_operations_syntax

text \<open>
  The storage engine (\<open>crates/trnm-storage-core/src/lib.rs\<close>): objects under a collection, a key
  and an owner, with the public version the Nakama protocol prescribes (the lowercase
  hexadecimal MD5 of the value), an internal integrity digest, permissions, and batches that
  apply all of their operations or none. SHA-256 comes from the \<open>sha2\<close> crate and is an
  argument; MD5 is written out in the source and modelled from it.
\<close>

subsection \<open>MD5\<close>

definition MAX_COLLECTION_BYTES :: usize where "MAX_COLLECTION_BYTES = 128"
definition MAX_KEY_BYTES :: usize where "MAX_KEY_BYTES = 128"
definition MAX_VALUE_BYTES :: usize where "MAX_VALUE_BYTES = 1024 * 1024"
definition MAX_BATCH_OPERATIONS :: usize where "MAX_BATCH_OPERATIONS = 100"
definition HEX :: "u8 list" where "HEX = bytes_of ''0123456789abcdef''"

definition MD5_SHIFTS :: "nat list" where
  "MD5_SHIFTS =
    [7, 12, 17, 22, 7, 12, 17, 22, 7, 12, 17, 22, 7, 12, 17, 22,
     5, 9, 14, 20, 5, 9, 14, 20, 5, 9, 14, 20, 5, 9, 14, 20,
     4, 11, 16, 23, 4, 11, 16, 23, 4, 11, 16, 23, 4, 11, 16, 23,
     6, 10, 15, 21, 6, 10, 15, 21, 6, 10, 15, 21, 6, 10, 15, 21]"

definition MD5_CONSTANTS :: "u32 list" where
  "MD5_CONSTANTS =
    [0xd76aa478, 0xe8c7b756, 0x242070db, 0xc1bdceee, 0xf57c0faf, 0x4787c62a,
     0xa8304613, 0xfd469501, 0x698098d8, 0x8b44f7af, 0xffff5bb1, 0x895cd7be,
     0x6b901122, 0xfd987193, 0xa679438e, 0x49b40821, 0xf61e2562, 0xc040b340,
     0x265e5a51, 0xe9b6c7aa, 0xd62f105d, 0x02441453, 0xd8a1e681, 0xe7d3fbc8,
     0x21e1cde6, 0xc33707d6, 0xf4d50d87, 0x455a14ed, 0xa9e3e905, 0xfcefa3f8,
     0x676f02d9, 0x8d2a4c8a, 0xfffa3942, 0x8771f681, 0x6d9d6122, 0xfde5380c,
     0xa4beea44, 0x4bdecfa9, 0xf6bb4b60, 0xbebfbc70, 0x289b7ec6, 0xeaa127fa,
     0xd4ef3085, 0x04881d05, 0xd9d4d039, 0xe6db99e5, 0x1fa27cf8, 0xc4ac5665,
     0xf4292244, 0x432aff97, 0xab9423a7, 0xfc93a039, 0x655b59c3, 0x8f0ccc92,
     0xffeff47d, 0x85845dd1, 0x6fa87e4f, 0xfe2ce6e0, 0xa3014314, 0x4e0811a1,
     0xf7537e82, 0xbd3af235, 0x2ad7d2bb, 0xeb86d391]"

text \<open>\<open>from_le_bytes\<close> and \<open>to_le_bytes\<close> read and write the bytes from the low end.\<close>

definition from_le_bytes :: "u8 list \<Rightarrow> 'a::len word" where
  "from_le_bytes bs = from_be_bytes (rev bs)"

definition to_le_bytes :: "'a::len word \<Rightarrow> u8 list" where
  "to_le_bytes w = rev (to_be_bytes w)"

text \<open>\<open>while message.len() % 64 != 56 { message.push(0); }\<close>\<close>

function pad_zeros :: "u8 list \<Rightarrow> u8 list" where
  "pad_zeros message = (if length message mod 64 \<noteq> 56 then pad_zeros (message @ [0]) else message)"
  by auto

lemma padding_measure:
  assumes "n mod 64 \<noteq> (56::nat)"
  shows "(120 - Suc n mod 64) mod 64 < (120 - n mod 64) mod 64"
proof -
  have "n mod 64 < 64" by simp
  moreover have "Suc n mod 64 = (if n mod 64 = 63 then 0 else Suc (n mod 64))" by (simp add: mod_Suc)
  moreover have "(120 - r) mod 64 = (if r \<le> 56 then 56 - r else 120 - r)" if "r < 64" for r :: nat
    using that by (auto simp: mod_if)
  ultimately show ?thesis using assms by (auto split: if_splits)
qed

termination pad_zeros
  by (relation "measure (\<lambda>message. (120 - length message mod 64) mod 64)") (auto intro: padding_measure)

declare pad_zeros.simps [simp del]

definition md5_pad :: "u8 list \<Rightarrow> u8 list" where
  "md5_pad input = pad_zeros (input @ [0x80]) @ to_le_bytes (of_nat (length input) * 8 :: u64)"

fun chunks_exact :: "nat \<Rightarrow> 'a list \<Rightarrow> 'a list list" where
  "chunks_exact n xs = (if n = 0 \<or> length xs < n then [] else take n xs # chunks_exact n (drop n xs))"

declare chunks_exact.simps [simp del]

type_synonym md5_state = "u32 \<times> u32 \<times> u32 \<times> u32"

definition md5_words :: "u8 list \<Rightarrow> u32 list" where
  "md5_words block = map (\<lambda>i. from_le_bytes (take 4 (drop (i * 4) block))) [0..<16]"

definition md5_mix :: "nat \<Rightarrow> u32 \<Rightarrow> u32 \<Rightarrow> u32 \<Rightarrow> u32 \<times> nat" where
  "md5_mix index b c d =
     (if index \<le> 15 then ((b AND c) OR ((NOT b) AND d), index)
      else if index \<le> 31 then ((d AND b) OR ((NOT d) AND c), (5 * index + 1) mod 16)
      else if index \<le> 47 then (b XOR c XOR d, (3 * index + 5) mod 16)
      else (c XOR (b OR (NOT d)), (7 * index) mod 16))"

definition md5_step :: "u32 list \<Rightarrow> nat \<times> nat \<times> u32 \<Rightarrow> md5_state \<Rightarrow> md5_state" where
  "md5_step words = (\<lambda>(index, shift, constant) (a, b, c, d).
     let (f, word_index) = md5_mix index b c d;
         nxt = b + word_rotl shift (a + f + constant + words ! word_index) in
     (d, nxt, b, c))"

definition md5_block :: "u8 list \<Rightarrow> md5_state \<Rightarrow> md5_state" where
  "md5_block block = (\<lambda>(s0, s1, s2, s3).
     let words = md5_words block;
         (a, b, c, d) = fold (md5_step words)
           (zip [0..<64] (zip MD5_SHIFTS MD5_CONSTANTS)) (s0, s1, s2, s3) in
     (s0 + a, s1 + b, s2 + c, s3 + d))"

definition md5_init :: md5_state where
  "md5_init = (0x67452301, 0xefcdab89, 0x98badcfe, 0x10325476)"

definition md5_digest :: "u8 list \<Rightarrow> u8 list" where
  "md5_digest input =
     (case fold md5_block (chunks_exact 64 (md5_pad input)) md5_init of
        (s0, s1, s2, s3) \<Rightarrow> to_le_bytes s0 @ to_le_bytes s1 @ to_le_bytes s2 @ to_le_bytes s3)"

subsection \<open>Versions, keys, objects\<close>

datatype Actor = Server | User id16

datatype ReadPermission = ReadNone | ReadOwner | ReadPublic

datatype WritePermission = WriteNone | WriteOwner

text \<open>A content version is its array of 32 characters.\<close>

definition ContentVersion_from_value :: "u8 list \<Rightarrow> u8 list" where
  "ContentVersion_from_value val =
     concat (map (\<lambda>byte. [HEX ! unat (drop_bit 4 byte), HEX ! unat (byte AND 0x0f)]) (md5_digest val))"

definition is_lower_hex :: "u8 \<Rightarrow> bool" where
  "is_lower_hex byte \<longleftrightarrow> 48 \<le> byte \<and> byte \<le> 57 \<or> 97 \<le> byte \<and> byte \<le> 102"

text \<open>The argument is the UTF-8 form of the string, which \<open>len\<close> and \<open>bytes\<close> read.\<close>

definition ContentVersion_parse :: "utf8 \<Rightarrow> DomainError + u8 list" where
  "ContentVersion_parse val =
     (if length val \<noteq> 32 \<or> \<not> list_all is_lower_hex val
      then Inl (domain_error InvalidArgument ''invalid_storage_content_version'' Never) else Inr val)"

definition IntegrityDigest_new :: "digest32 \<Rightarrow> DomainError + digest32" where
  "IntegrityDigest_new v =
     (if id_is_zero v then Inl (domain_error InvalidArgument ''invalid_storage_integrity_digest'' Never)
      else Inr v)"

definition matches_value :: "(u8 list \<Rightarrow> digest32) \<Rightarrow> digest32 \<Rightarrow> u8 list \<Rightarrow> bool" where
  "matches_value sha256 digest val \<longleftrightarrow> digest = sha256 val"

record StorageObjectKey =
  ok_collection :: rstring
  ok_key :: rstring
  ok_user_id :: id16

definition storage_validate_component :: "rstring \<Rightarrow> usize \<Rightarrow> string \<Rightarrow> DomainError + unit" where
  "storage_validate_component val maximum reason =
     (if val = [] \<or> str_len val > maximum \<or> list_ex char_is_control val \<or> hd val = 0x2E
      then Inl (domain_error InvalidArgument reason Never) else Inr ())"

definition StorageObjectKey_new :: "rstring \<Rightarrow> rstring \<Rightarrow> id16 \<Rightarrow> DomainError + StorageObjectKey" where
  "StorageObjectKey_new collection key user_id =
     tryE (storage_validate_component collection MAX_COLLECTION_BYTES ''invalid_storage_collection'') (\<lambda>_.
     tryE (storage_validate_component key MAX_KEY_BYTES ''invalid_storage_key'') (\<lambda>_.
     Inr \<lparr>ok_collection = collection, ok_key = key, ok_user_id = user_id\<rparr>))"

record StorageObject =
  so_key :: StorageObjectKey
  so_value :: "u8 list"
  so_version :: "u8 list"
  so_integrity_digest :: digest32
  so_read_permission :: ReadPermission
  so_write_permission :: WritePermission

datatype VersionCheck = VAny | MustNotExist | Exact "u8 list"

record WriteOperation =
  wo_key :: StorageObjectKey
  wo_value :: "u8 list"
  wo_expected :: VersionCheck
  wo_read_permission :: ReadPermission
  wo_write_permission :: WritePermission

record DeleteOperation =
  do_key :: StorageObjectKey
  do_expected_version :: "u8 list option"

datatype BatchOperation = BWrite WriteOperation | BDelete DeleteOperation

fun batch_key :: "BatchOperation \<Rightarrow> StorageObjectKey" where
  "batch_key (BWrite operation) = wo_key operation"
| "batch_key (BDelete operation) = do_key operation"

record MutationReceipt =
  mr_key :: StorageObjectKey
  mr_previous_version :: "u8 list option"
  mr_current_version :: "u8 list option"

type_synonym storage_objects = "(StorageObjectKey, StorageObject) fmap"

subsection \<open>Checks\<close>

definition storage_permission_error :: DomainError where
  "storage_permission_error = domain_error PermissionDenied ''storage_write_permission_denied'' Never"

definition storage_version_error :: DomainError where
  "storage_version_error = domain_error FailedPrecondition ''storage_version_mismatch'' ResyncRequired"

definition validate_batch :: "BatchOperation list \<Rightarrow> DomainError + unit" where
  "validate_batch operations =
     (if operations = [] \<or> length operations > MAX_BATCH_OPERATIONS
      then Inl (domain_error InvalidArgument ''invalid_storage_batch_size'' Never)
      else tryE (foldE (\<lambda>operation keys.
          if batch_key operation \<in> set keys
          then Inl (domain_error InvalidArgument ''duplicate_storage_key_in_batch'' Never)
          else Inr (batch_key operation # keys)) operations []) (\<lambda>_. Inr ()))"

definition storage_validate_value :: "u8 list \<Rightarrow> DomainError + unit" where
  "storage_validate_value val =
     (if length val > MAX_VALUE_BYTES
      then Inl (domain_error InvalidArgument ''invalid_storage_value'' Never) else Inr ())"

definition validate_write_actor ::
    "Actor \<Rightarrow> StorageObjectKey \<Rightarrow> StorageObject option \<Rightarrow> DomainError + unit" where
  "validate_write_actor actor key existing = (case actor of
       Server \<Rightarrow> Inr ()
     | User user_id \<Rightarrow>
         if id_is_zero user_id \<or> user_id \<noteq> ok_user_id key then Inl storage_permission_error
         else if (case existing of None \<Rightarrow> False | Some object \<Rightarrow> so_write_permission object \<noteq> WriteOwner)
         then Inl storage_permission_error
         else Inr ())"

definition validate_version_check :: "StorageObject option \<Rightarrow> VersionCheck \<Rightarrow> DomainError + unit" where
  "validate_version_check existing check = (case check of
       VAny \<Rightarrow> Inr ()
     | MustNotExist \<Rightarrow>
         if existing = None then Inr ()
         else Inl (domain_error AlreadyExists ''storage_object_already_exists'' Never)
     | Exact expected \<Rightarrow> (case existing of
           Some object \<Rightarrow> if so_version object = expected then Inr () else Inl storage_version_error
         | None \<Rightarrow> Inl storage_version_error))"

definition can_read :: "Actor \<Rightarrow> StorageObject \<Rightarrow> bool" where
  "can_read actor object = (case actor of
       Server \<Rightarrow> True
     | User user_id \<Rightarrow> so_read_permission object = ReadPublic \<or>
         user_id = ok_user_id (so_key object) \<and> so_read_permission object = ReadOwner)"

definition verify_object_integrity :: "(u8 list \<Rightarrow> digest32) \<Rightarrow> StorageObject \<Rightarrow> DomainError + unit" where
  "verify_object_integrity sha256 object =
     (if matches_value sha256 (so_integrity_digest object) (so_value object) then Inr ()
      else Inl (domain_error DataLoss ''storage_integrity_digest_mismatch'' Never))"

subsection \<open>Operations\<close>

definition storage_read ::
    "(u8 list \<Rightarrow> digest32) \<Rightarrow> Actor \<Rightarrow> StorageObjectKey \<Rightarrow> storage_objects \<Rightarrow>
     DomainError + StorageObject" where
  "storage_read sha256 actor key objects =
     tryE (ok_or (domain_error NotFound ''storage_object_not_found'' Never) (fmlookup objects key)) (\<lambda>object.
     if \<not> can_read actor object
     then Inl (domain_error PermissionDenied ''storage_read_permission_denied'' Never)
     else tryE (verify_object_integrity sha256 object) (\<lambda>_. Inr object))"

definition verify_previous ::
    "(u8 list \<Rightarrow> digest32) \<Rightarrow> StorageObject option \<Rightarrow> u8 list \<Rightarrow> u8 list \<Rightarrow> DomainError + unit" where
  "verify_previous sha256 previous version val = (case previous of
       None \<Rightarrow> Inr ()
     | Some object \<Rightarrow>
         tryE (verify_object_integrity sha256 object) (\<lambda>_.
         if so_version object = version \<and> so_value object \<noteq> val
         then Inl (domain_error DataLoss ''storage_public_version_collision_or_integrity_mismatch'' Never)
         else Inr ()))"

definition apply_write ::
    "(u8 list \<Rightarrow> digest32) \<Rightarrow> Actor \<Rightarrow> WriteOperation \<Rightarrow> storage_objects \<Rightarrow>
     DomainError + storage_objects \<times> MutationReceipt" where
  "apply_write sha256 actor operation objects =
     tryE (storage_validate_value (wo_value operation)) (\<lambda>_.
     let version = ContentVersion_from_value (wo_value operation);
         integrity_digest = sha256 (wo_value operation);
         previous = fmlookup objects (wo_key operation) in
     tryE (validate_write_actor actor (wo_key operation) previous) (\<lambda>_.
     tryE (validate_version_check previous (wo_expected operation)) (\<lambda>_.
     tryE (verify_previous sha256 previous version (wo_value operation)) (\<lambda>_.
     let nxt = \<lparr>so_key = wo_key operation, so_value = wo_value operation, so_version = version,
                so_integrity_digest = integrity_digest,
                so_read_permission = wo_read_permission operation,
                so_write_permission = wo_write_permission operation\<rparr> in
     Inr (fmupd (wo_key operation) nxt objects,
          \<lparr>mr_key = wo_key operation, mr_previous_version = map_option so_version previous,
           mr_current_version = Some version\<rparr>)))))"

definition apply_delete ::
    "Actor \<Rightarrow> DeleteOperation \<Rightarrow> storage_objects \<Rightarrow>
     DomainError + storage_objects \<times> MutationReceipt" where
  "apply_delete actor operation objects =
     tryE (ok_or (domain_error NotFound ''storage_object_not_found'' Never)
             (fmlookup objects (do_key operation))) (\<lambda>previous.
     tryE (validate_write_actor actor (do_key operation) (Some previous)) (\<lambda>_.
     if (case do_expected_version operation of
           None \<Rightarrow> False | Some expected \<Rightarrow> so_version previous \<noteq> expected)
     then Inl storage_version_error
     else Inr (fmdrop (do_key operation) objects,
          \<lparr>mr_key = do_key operation, mr_previous_version = Some (so_version previous),
           mr_current_version = None\<rparr>)))"

definition apply_operation ::
    "(u8 list \<Rightarrow> digest32) \<Rightarrow> Actor \<Rightarrow> BatchOperation \<Rightarrow> storage_objects \<times> MutationReceipt list \<Rightarrow>
     DomainError + storage_objects \<times> MutationReceipt list" where
  "apply_operation sha256 actor operation = (\<lambda>(staged, receipts).
     tryE (case operation of
         BWrite w \<Rightarrow> apply_write sha256 actor w staged
       | BDelete d \<Rightarrow> apply_delete actor d staged) (\<lambda>(staged, receipt).
     Inr (staged, receipts @ [receipt])))"

definition apply_batch ::
    "(u8 list \<Rightarrow> digest32) \<Rightarrow> Actor \<Rightarrow> BatchOperation list \<Rightarrow> storage_objects \<Rightarrow>
     storage_objects \<times> (DomainError + MutationReceipt list)" where
  "apply_batch sha256 actor operations objects =
     commit_candidate objects
      (tryE (validate_batch operations) (\<lambda>_.
       foldE (apply_operation sha256 actor) operations (objects, [])))"

end
