(* ===== verification/Storage_Proofs.thy ===== *)
theory Storage_Proofs
  imports Storage
begin

text \<open>
  Correctness of the storage engine: the padding and the rendering of content versions, what
  a batch does to each key (\<open>after\<close>), integrity of the stored objects and permissions.
\<close>

subsection \<open>Padding and versions\<close>

lemma pad_zeros_spec:
  "\<exists>k < 64. pad_zeros m = m @ replicate k 0 \<and> length (pad_zeros m) mod 64 = 56"
proof (induction m rule: pad_zeros.induct)
  case (1 m)
  show ?case
  proof (cases "length m mod 64 = 56")
    case True
    then show ?thesis by (intro exI [of _ 0]) (simp add: pad_zeros.simps [of m])
  next
    case False
    with 1 obtain k where k: "k < 64" "pad_zeros (m @ [0]) = (m @ [0]) @ replicate k 0"
      "length (pad_zeros (m @ [0])) mod 64 = 56" by auto
    have eq: "pad_zeros m = m @ replicate (Suc k) 0"
      using False k(2) by (simp add: pad_zeros.simps [of m] replicate_append_same)
    have "k \<noteq> 63"
    proof
      assume "k = 63"
      with k(2,3) have "(length m + 64) mod 64 = 56" by simp
      with False show False by simp
    qed
    with eq k False show ?thesis
      by (intro exI [of _ "Suc k"]) (simp add: pad_zeros.simps [of m])
  qed
qed

text \<open>
  The padding loop of the version hash ends on every input: it appends fewer than 64 zero
  bytes, keeps the message in front of them, and the padded message is a whole number of
  64-byte blocks whose last eight bytes are the length of the input in bits.
\<close>

theorem md5_padding_ends:
  "\<exists>k < 64. md5_pad input =
      input @ [0x80] @ replicate k 0 @ to_le_bytes (of_nat (length input) * 8 :: u64) \<and>
    length (md5_pad input) mod 64 = 0"
proof -
  obtain k where k: "k < 64" "pad_zeros (input @ [0x80]) = (input @ [0x80]) @ replicate k 0"
    "length (pad_zeros (input @ [0x80])) mod 64 = 56"
    using pad_zeros_spec [of "input @ [0x80]"] by blast
  have "length (md5_pad input) = length (pad_zeros (input @ [0x80])) + 8"
    by (simp add: md5_pad_def to_le_bytes_def)
  then have "length (md5_pad input) mod 64 = 0"
    using mod_add_eq [of "length (pad_zeros (input @ [0x80]))" 64 8] k(3) by simp
  with k show ?thesis by (intro exI [of _ k]) (simp add: md5_pad_def)
qed

lemma length_md5_digest [simp]: "length (md5_digest input) = 16"
  by (simp add: md5_digest_def to_le_bytes_def split: prod.splits)

lemma HEX_lower: "n < 16 \<Longrightarrow> is_lower_hex (HEX ! n)"
proof -
  have "list_all is_lower_hex HEX" "length HEX = 16"
    by (simp_all add: HEX_def bytes_of_def is_lower_hex_def)
  then show "n < 16 \<Longrightarrow> is_lower_hex (HEX ! n)" by (simp add: list_all_length)
qed

lemma nibbles: "unat (drop_bit 4 (b :: u8)) < 16" "unat (b AND 0x0f) < 16"
proof -
  have "list_all (\<lambda>b :: u8. unat (drop_bit 4 b) < 16 \<and> unat (b AND 0x0f) < 16) (map of_nat [0..<256])"
    by code_simp
  from all_u8I [OF this, of b] show "unat (drop_bit 4 b) < 16" "unat (b AND 0x0f) < 16" by simp_all
qed

lemma version_shape:
  "length (ContentVersion_from_value val) = 32"
  "list_all is_lower_hex (ContentVersion_from_value val)"
proof -
  have len: "length (concat (map (\<lambda>byte. [HEX ! unat (drop_bit 4 byte), HEX ! unat (byte AND 0x0f)]) bs)) =
      2 * length bs" for bs by (induction bs) auto
  then show "length (ContentVersion_from_value val) = 32"
    by (simp only: ContentVersion_from_value_def len) simp
  show "list_all is_lower_hex (ContentVersion_from_value val)"
    by (auto simp: ContentVersion_from_value_def list_all_iff HEX_lower nibbles)
qed

lemma hex_pair_inject:
  assumes "HEX ! unat (drop_bit 4 b) = HEX ! unat (drop_bit 4 c)"
    and "HEX ! unat (b AND 0x0f) = HEX ! unat (c AND 0x0f)"
  shows "b = (c :: u8)"
proof -
  have "distinct HEX" "length HEX = 16" by (simp_all add: HEX_def bytes_of_def)
  then have "HEX ! m = HEX ! n \<longleftrightarrow> m = n" if "m < 16" "n < 16" for m n
    using that by (simp add: nth_eq_iff_index_eq)
  with assms nibbles have "unat (drop_bit 4 b) = unat (drop_bit 4 c)" "unat (b AND 0x0f) = unat (c AND 0x0f)"
    by simp_all
  then have "drop_bit 4 b = drop_bit 4 c" "b AND 0x0f = c AND 0x0f" by (simp_all only: word_unat_eq_iff)
  moreover have "list_all (\<lambda>b :: u8. b = push_bit 4 (drop_bit 4 b) OR (b AND 0x0f)) (map of_nat [0..<256])"
    by code_simp
  note all_u8I [OF this]
  ultimately show ?thesis by metis
qed

lemma hex_inject:
  fixes bs :: "u8 list"
  shows "concat (map (\<lambda>b. [HEX ! unat (drop_bit 4 b), HEX ! unat (b AND 0x0f)]) bs) =
   concat (map (\<lambda>b. [HEX ! unat (drop_bit 4 b), HEX ! unat (b AND 0x0f)]) cs) \<Longrightarrow> bs = cs"
proof (induction bs arbitrary: cs)
  case (Cons b bs)
  then obtain c cs' where "cs = c # cs'" by (cases cs) auto
  with Cons hex_pair_inject [of b c] show ?case by auto
qed (cases cs, auto)

text \<open>
  The version the engine gives a value is well formed and survives being sent to a client
  and back: it is 32 lowercase hexadecimal digits that parse back to it unchanged, the parser
  accepts exactly such texts, and two values have the same version only if they have the same
  MD5 digest.
\<close>

theorem content_version_roundtrip:
  "ContentVersion_parse (ContentVersion_from_value val) = Inr (ContentVersion_from_value val) \<and>
   (ContentVersion_parse str = Inr v \<longleftrightarrow> v = str \<and> length str = 32 \<and> list_all is_lower_hex str) \<and>
   (ContentVersion_from_value val = ContentVersion_from_value val' \<longleftrightarrow> md5_digest val = md5_digest val')"
  using version_shape [of val]
  by (auto simp: ContentVersion_parse_def) (auto simp: ContentVersion_from_value_def dest: hex_inject)

subsection \<open>Batches\<close>

definition put :: "'k \<Rightarrow> 'v option \<Rightarrow> ('k, 'v) fmap \<Rightarrow> ('k, 'v) fmap" where
  "put k v m = (case v of None \<Rightarrow> fmdrop k m | Some x \<Rightarrow> fmupd k x m)"

lemma put_lookup [simp]: "fmlookup (put k v m) j = (if j = k then v else fmlookup m j)"
  by (simp add: put_def split: option.splits)

lemma put_same: "put k (fmlookup m k) m = m"
  by (intro fmap_ext) simp

text \<open>One operation alone, on what is stored under its key.\<close>

definition apply_one ::
    "(u8 list \<Rightarrow> digest32) \<Rightarrow> Actor \<Rightarrow> BatchOperation \<Rightarrow> storage_objects \<Rightarrow>
     DomainError + storage_objects \<times> MutationReceipt" where
  "apply_one sha256 actor operation m = (case operation of
       BWrite w \<Rightarrow> apply_write sha256 actor w m | BDelete d \<Rightarrow> apply_delete actor d m)"

definition effect ::
    "(u8 list \<Rightarrow> digest32) \<Rightarrow> Actor \<Rightarrow> BatchOperation \<Rightarrow> StorageObject option \<Rightarrow>
     DomainError + StorageObject option \<times> MutationReceipt" where
  "effect sha256 actor operation previous =
     tryE (apply_one sha256 actor operation (put (batch_key operation) previous fmempty)) (\<lambda>(m, r).
     Inr (fmlookup m (batch_key operation), r))"

lemma apply_one_local:
  "apply_one sha256 actor operation m =
     tryE (effect sha256 actor operation (fmlookup m (batch_key operation))) (\<lambda>(v, r).
     Inr (put (batch_key operation) v m, r))"
  by (cases operation)
    (auto simp: apply_one_def effect_def apply_write_def apply_delete_def Let_def tryE_def put_def
      split: sum.splits option.splits if_splits)

definition effects ::
    "(u8 list \<Rightarrow> digest32) \<Rightarrow> Actor \<Rightarrow> storage_objects \<Rightarrow> BatchOperation list \<Rightarrow>
     DomainError + (StorageObject option \<times> MutationReceipt) list" where
  "effects sha256 actor m ops =
     mapE (\<lambda>operation. effect sha256 actor operation (fmlookup m (batch_key operation))) ops"

definition put_all ::
    "BatchOperation list \<Rightarrow> (StorageObject option \<times> MutationReceipt) list \<Rightarrow> storage_objects \<Rightarrow> storage_objects" where
  "put_all ops vs m = fold (\<lambda>(operation, v, r). put (batch_key operation) v) (zip ops vs) m"

lemma effects_cong:
  "(\<And>x. x \<in> set ops \<Longrightarrow> fmlookup m (batch_key x) = fmlookup n (batch_key x)) \<Longrightarrow>
     effects sha256 actor m ops = effects sha256 actor n ops"
  by (induction ops) (simp_all add: effects_def)

lemma apply_operation_eq:
  "apply_operation sha256 actor x (m, rs) =
     tryE (apply_one sha256 actor x m) (\<lambda>(m', r). Inr (m', rs @ [r]))"
  by (simp add: apply_operation_def apply_one_def)

lemma foldE_apply:
  assumes "distinct (map batch_key ops)"
  shows "foldE (apply_operation sha256 actor) ops (m, rs) =
    tryE (effects sha256 actor m ops) (\<lambda>vs. Inr (put_all ops vs m, rs @ map snd vs))"
  using assms
proof (induction ops arbitrary: m rs)
  case Nil
  then show ?case by (simp add: effects_def put_all_def)
next
  case (Cons x ops)
  let ?k = "batch_key x"
  show ?case
  proof (cases "effect sha256 actor x (fmlookup m ?k)")
    case (Inl e)
    then show ?thesis by (simp add: apply_operation_eq apply_one_local effects_def)
  next
    case (Inr vr)
    obtain v r where vr: "vr = (v, r)" by (cases vr)
    have "effects sha256 actor (put ?k v m) ops = effects sha256 actor m ops"
    proof (rule effects_cong)
      fix y assume "y \<in> set ops"
      with Cons.prems have "batch_key y \<noteq> ?k" by (metis distinct.simps(2) imageI list.set_map list.simps(9))
      then show "fmlookup (put ?k v m) (batch_key y) = fmlookup m (batch_key y)" by simp
    qed
    then have "foldE (apply_operation sha256 actor) ops (put ?k v m, rs @ [r]) =
        tryE (effects sha256 actor m ops) (\<lambda>vs. Inr (put_all ops vs (put ?k v m), (rs @ [r]) @ map snd vs))"
      using Cons.IH [of "put ?k v m" "rs @ [r]"] Cons.prems by simp
    with Inr vr show ?thesis
      by (cases "effects sha256 actor m ops")
        (auto simp: apply_operation_eq apply_one_local effects_def put_all_def)
  qed
qed

lemma validate_batch_fold:
  "foldE (\<lambda>operation keys. if batch_key operation \<in> set keys
        then Inl (domain_error InvalidArgument ''duplicate_storage_key_in_batch'' Never)
        else Inr (batch_key operation # keys)) ops ks = Inr ks' \<Longrightarrow>
     distinct (map batch_key ops) \<and> set (map batch_key ops) \<inter> set ks = {}"
proof (induction ops arbitrary: ks)
  case (Cons x ops)
  then have "batch_key x \<notin> set ks" by (auto split: if_splits)
  with Cons.IH [of "batch_key x # ks"] Cons.prems show ?case by auto
qed simp

lemma validate_batch_distinct: "validate_batch ops = Inr u \<Longrightarrow> distinct (map batch_key ops)"
  by (auto simp: validate_batch_def dest: validate_batch_fold split: if_splits)

lemma apply_batch_eq:
  "apply_batch sha256 actor ops m =
     (case tryE (validate_batch ops) (\<lambda>_. effects sha256 actor m ops) of
        Inl e \<Rightarrow> (m, Inl e)
      | Inr vs \<Rightarrow> (put_all ops vs m, Inr (map snd vs)))"
proof (cases "validate_batch ops")
  case (Inr u)
  from foldE_apply [OF validate_batch_distinct [OF Inr], of sha256 actor m "[]"] Inr
  show ?thesis
    by (cases "effects sha256 actor m ops") (simp_all add: apply_batch_def)
qed (simp add: apply_batch_def)

lemma put_all_lookup:
  assumes "distinct (map batch_key ops)" and "length vs = length ops"
  shows "fmlookup (put_all ops vs m) k =
    (case map_of (zip (map batch_key ops) (map fst vs)) k of None \<Rightarrow> fmlookup m k | Some v \<Rightarrow> v)"
  using assms(2,1)
proof (induction vs ops arbitrary: m rule: list_induct2)
  case (Cons v vs x ops)
  have step: "put_all (x # ops) (v # vs) m = put_all ops vs (put (batch_key x) (fst v) m)"
    by (cases v) (simp add: put_all_def)
  have "map_of (zip (map batch_key ops) (map fst vs)) (batch_key x) = None"
    using Cons.prems Cons.hyps by (simp add: map_of_zip_is_None)
  with Cons.IH [of "put (batch_key x) (fst v) m"] Cons.prems show ?case
    unfolding step by (cases "k = batch_key x") (simp_all split: option.splits)
qed (simp add: put_all_def)

text \<open>
  C32: A batch is atomic and its operations do not see one another: it is the same as judging
  every operation on its own against what was stored under its key before the batch. If one
  of them is refused the batch fails with the first refusal and nothing changes; otherwise
  the receipts are those of the single operations, every key of the batch holds what its
  operation leaves there, and all other keys are untouched.
\<close>

theorem batch_is_atomic:
  "case tryE (validate_batch ops) (\<lambda>_. mapE (\<lambda>operation.
          effect sha256 actor operation (fmlookup m (batch_key operation))) ops) of
     Inl e \<Rightarrow> apply_batch sha256 actor ops m = (m, Inl e)
   | Inr vs \<Rightarrow> \<exists>m'. apply_batch sha256 actor ops m = (m', Inr (map snd vs)) \<and>
       (\<forall>k. fmlookup m' k = (case map_of (zip (map batch_key ops) (map fst vs)) k of
          None \<Rightarrow> fmlookup m k | Some v \<Rightarrow> v))"
proof (cases "tryE (validate_batch ops) (\<lambda>_. effects sha256 actor m ops)")
  case (Inl e)
  then show ?thesis by (simp add: apply_batch_eq effects_def)
next
  case (Inr vs)
  then have d: "distinct (map batch_key ops)" and "effects sha256 actor m ops = Inr vs"
    by (auto dest: validate_batch_distinct)
  then have "length vs = length ops"
    by (simp add: effects_def mapE_Inr_iff list_all2_lengthD)
  with put_all_lookup [OF d] Inr show ?thesis by (simp add: apply_batch_eq effects_def)
qed

subsection \<open>Integrity\<close>

definition object_ok :: "(u8 list \<Rightarrow> digest32) \<Rightarrow> StorageObjectKey \<Rightarrow> StorageObject \<Rightarrow> bool" where
  "object_ok sha256 k object \<longleftrightarrow> so_key object = k \<and>
     so_version object = ContentVersion_from_value (so_value object) \<and>
     so_integrity_digest object = sha256 (so_value object) \<and>
     length (so_value object) \<le> MAX_VALUE_BYTES"

definition storage_ok :: "(u8 list \<Rightarrow> digest32) \<Rightarrow> storage_objects \<Rightarrow> bool" where
  "storage_ok sha256 m \<longleftrightarrow> (\<forall>k object. fmlookup m k = Some object \<longrightarrow> object_ok sha256 k object)"

definition storage_step ::
    "(u8 list \<Rightarrow> digest32) \<Rightarrow> Actor \<times> BatchOperation list \<Rightarrow> storage_objects \<Rightarrow> storage_objects" where
  "storage_step sha256 = (\<lambda>(actor, ops) m. fst (apply_batch sha256 actor ops m))"

lemma effect_object:
  assumes "effect sha256 actor operation previous = Inr (v, r)"
  shows "case operation of
      BWrite w \<Rightarrow> v = Some \<lparr>so_key = wo_key w, so_value = wo_value w,
          so_version = ContentVersion_from_value (wo_value w),
          so_integrity_digest = sha256 (wo_value w), so_read_permission = wo_read_permission w,
          so_write_permission = wo_write_permission w\<rparr> \<and> length (wo_value w) \<le> MAX_VALUE_BYTES \<and>
        r = \<lparr>mr_key = wo_key w, mr_previous_version = map_option so_version previous,
           mr_current_version = Some (ContentVersion_from_value (wo_value w))\<rparr> \<and>
        validate_version_check previous (wo_expected w) = Inr ()
    | BDelete d \<Rightarrow> v = None \<and> (\<exists>object. previous = Some object \<and>
        r = \<lparr>mr_key = do_key d, mr_previous_version = Some (so_version object),
           mr_current_version = None\<rparr> \<and>
        (\<forall>expected. do_expected_version d = Some expected \<longrightarrow> so_version object = expected))"
    "validate_write_actor actor (batch_key operation) previous = Inr ()"
  using assms
  by (auto simp: effect_def apply_one_def apply_write_def apply_delete_def Let_def
      storage_validate_value_def split: BatchOperation.splits option.splits if_splits)

lemma apply_batch_lookup:
  assumes "apply_batch sha256 actor ops m = (m', Inr rs)"
  shows "fmlookup m' k = fmlookup m k \<or> (\<exists>operation v r. operation \<in> set ops \<and> batch_key operation = k \<and>
    effect sha256 actor operation (fmlookup m k) = Inr (v, r) \<and> fmlookup m' k = v)"
proof -
  obtain vs where vs: "validate_batch ops = Inr ()" "effects sha256 actor m ops = Inr vs"
    "m' = put_all ops vs m"
    using assms by (auto simp: apply_batch_eq split: sum.splits)
  have d: "distinct (map batch_key ops)" using vs(1) by (rule validate_batch_distinct)
  have all: "list_all2 (\<lambda>x y. effect sha256 actor x (fmlookup m (batch_key x)) = Inr y) ops vs"
    using vs(2) by (simp add: effects_def mapE_Inr_iff)
  show ?thesis
  proof (cases "map_of (zip (map batch_key ops) (map fst vs)) k")
    case None
    then show ?thesis using put_all_lookup [OF d list_all2_lengthD [OF all, symmetric], of m k] vs(3) by simp
  next
    case (Some v)
    then have "(k, v) \<in> set (zip (map batch_key ops) (map fst vs))" by (rule map_of_SomeD)
    then obtain i where i: "i < length ops" "i < length vs" "batch_key (ops ! i) = k" "fst (vs ! i) = v"
      by (auto simp: set_zip)
    then have "effect sha256 actor (ops ! i) (fmlookup m k) = Inr (v, snd (vs ! i))"
      using list_all2_nthD [OF all, of i] by auto
    moreover have "fmlookup m' k = v"
      using put_all_lookup [OF d list_all2_lengthD [OF all, symmetric], of m k] vs(3) Some by simp
    ultimately show ?thesis using i by (blast intro: nth_mem)
  qed
qed

lemma storage_step_ok:
  assumes "storage_ok sha256 m"
  shows "storage_ok sha256 (storage_step sha256 x m)"
proof -
  obtain actor ops where x: "x = (actor, ops)" by (cases x)
  obtain m' res where b: "apply_batch sha256 actor ops m = (m', res)"
    by (cases "apply_batch sha256 actor ops m")
  have "storage_ok sha256 m'"
  proof (cases res)
    case (Inl e)
    with b have "m' = m" by (auto simp: apply_batch_def)
    with assms show ?thesis by simp
  next
    case (Inr rs)
    show ?thesis
      unfolding storage_ok_def
    proof (intro allI impI)
      fix k object assume o: "fmlookup m' k = Some object"
      from apply_batch_lookup [OF b [unfolded Inr], of k] show "object_ok sha256 k object"
      proof (elim disjE exE conjE)
        assume "fmlookup m' k = fmlookup m k"
        with o assms show ?thesis by (simp add: storage_ok_def)
      next
        fix operation v r
        assume "batch_key operation = k" "effect sha256 actor operation (fmlookup m k) = Inr (v, r)"
          "fmlookup m' k = v"
        with o effect_object(1) [of sha256 actor operation "fmlookup m k" v r] show ?thesis
          by (cases operation) (auto simp: object_ok_def)
      qed
    qed
  qed
  with b show ?thesis by (simp add: storage_step_def x)
qed

interpretation storage: state_machine "storage_step sha256" "storage_ok sha256"
  by unfold_locales (rule storage_step_ok)

text \<open>
  C33: What the store holds is what was written: in every state reached from the empty store,
  whatever SHA-256 is, each object lies under its own key, is no larger than the limit and
  carries the version and the digest of its value, so that a read is never refused for damaged
  data: the server reads every object as stored, and a user exactly those that are public or
  readable by their owner.
\<close>

theorem stored_objects_intact:
  "let m = fold (storage_step sha256) xs fmempty in
     (\<forall>k object. fmlookup m k = Some object \<longrightarrow> object_ok sha256 k object) \<and>
     storage_read sha256 Server k m =
       ok_or (domain_error NotFound ''storage_object_not_found'' Never) (fmlookup m k) \<and>
     (storage_read sha256 (User u) k m = Inr object \<longleftrightarrow>
       fmlookup m k = Some object \<and> (so_read_permission object = ReadPublic \<or>
         u = ok_user_id k \<and> so_read_permission object = ReadOwner))"
proof -
  let ?m = "fold (storage_step sha256) xs fmempty"
  have ok: "storage_ok sha256 ?m" by (rule storage.run_inv) (simp add: storage_ok_def)
  then have O: "object_ok sha256 k object" if "fmlookup ?m k = Some object" for k object
    using that by (simp add: storage_ok_def)
  then have "verify_object_integrity sha256 object = Inr ()" "so_key object = k"
    if "fmlookup ?m k = Some object" for k object
    using that by (simp_all add: verify_object_integrity_def matches_value_def object_ok_def)
  then show ?thesis
    using O by (cases "fmlookup ?m k") (auto simp: Let_def storage_read_def can_read_def)
qed

text \<open>
  C34: A user changes only what is theirs to change: when a batch of a user leaves any key with
  different contents, the key belongs to this user, and an object stored there before was
  writable by its owner; the zero user changes nothing.
\<close>

theorem users_change_their_own:
  assumes "apply_batch sha256 (User u) ops m = (m', res)" and "fmlookup m' k \<noteq> fmlookup m k"
  shows "u \<noteq> 0 \<and> ok_user_id k = u \<and>
    (\<forall>object. fmlookup m k = Some object \<longrightarrow> so_write_permission object = WriteOwner)"
proof (cases res)
  case (Inl e)
  with assms show ?thesis by (auto simp: apply_batch_def)
next
  case (Inr rs)
  from apply_batch_lookup [OF assms(1) [unfolded Inr], of k] assms(2)
  obtain operation v r where "batch_key operation = k"
    "effect sha256 (User u) operation (fmlookup m k) = Inr (v, r)" by auto
  then have "validate_write_actor (User u) k (fmlookup m k) = Inr ()"
    using effect_object(2) by blast
  then show ?thesis by (auto simp: validate_write_actor_def split: if_splits)
qed

text \<open>The operation insists that the object under the key has a given version.\<close>

definition expects :: "u8 list \<Rightarrow> BatchOperation \<Rightarrow> bool" where
  "expects v operation \<longleftrightarrow> (case operation of
       BWrite w \<Rightarrow> wo_expected w = Exact v | BDelete d \<Rightarrow> do_expected_version d = Some v)"

text \<open>
  No update is lost: when the object under a key does not have version \<open>v\<close> (any more),
  because it was replaced, deleted or never there, a batch of any actor that contains an
  operation on this key conditional on \<open>v\<close> is refused as a whole and changes nothing.
\<close>

theorem conditional_update_refused:
  assumes "map_option so_version (fmlookup m k) \<noteq> Some v"
    and "operation \<in> set ops" and "batch_key operation = k" and "expects v operation"
  shows "\<exists>e. apply_batch sha256 actor ops m = (m, Inl e)"
proof (cases "apply_batch sha256 actor ops m")
  case (Pair m' res)
  show ?thesis
  proof (cases res)
    case (Inl e)
    with Pair show ?thesis by (auto simp: apply_batch_def)
  next
    case (Inr rs)
    with Pair obtain vs where "effects sha256 actor m ops = Inr vs"
      by (auto simp: apply_batch_eq split: sum.splits)
    then obtain v' r where "effect sha256 actor operation (fmlookup m k) = Inr (v', r)"
      using assms(2,3) by (force simp: effects_def mapE_Inr_iff list_all2_conv_all_nth in_set_conv_nth)
    with effect_object(1) [OF this] assms(1,4) show ?thesis
      by (auto simp: expects_def validate_version_check_def split: BatchOperation.splits option.splits if_splits)
  qed
qed

subsection \<open>Witnesses\<close>

definition wit_storage_key :: StorageObjectKey where
  "wit_storage_key = \<lparr>ok_collection = [97], ok_key = [98], ok_user_id = 5\<rparr>"

definition wit_write :: WriteOperation where
  "wit_write = \<lparr>wo_key = wit_storage_key, wo_value = [1], wo_expected = VAny,
     wo_read_permission = ReadOwner, wo_write_permission = WriteOwner\<rparr>"

lemma wit_user_writes:
  "\<exists>m'. apply_batch (\<lambda>_. 0) (User 5) [BWrite wit_write] fmempty = (m', Inr
     [\<lparr>mr_key = wit_storage_key, mr_previous_version = None,
       mr_current_version = Some (ContentVersion_from_value [1])\<rparr>]) \<and>
     fmlookup m' wit_storage_key \<noteq> None"
  by (simp add: apply_batch_def validate_batch_def apply_operation_def apply_write_def
      storage_validate_value_def validate_write_actor_def validate_version_check_def
      verify_previous_def wit_write_def wit_storage_key_def Let_def MAX_BATCH_OPERATIONS_def
      MAX_VALUE_BYTES_def)

theorem stored_objects_intact_witness:
  "\<exists>m object. fmlookup m wit_storage_key = Some object \<and> object_ok (\<lambda>_. 0) wit_storage_key object \<and>
     storage_read (\<lambda>_. 0) Server wit_storage_key m = Inr object"
proof -
  obtain m' object where b: "fst (apply_batch (\<lambda>_. 0) (User 5) [BWrite wit_write] fmempty) = m'"
    "fmlookup m' wit_storage_key = Some object"
    using wit_user_writes by auto
  then have "fold (storage_step (\<lambda>_. 0)) [(User 5, [BWrite wit_write])] fmempty = m'"
    by (simp add: storage_step_def)
  with b(2) stored_objects_intact [of "\<lambda>_. 0" "[(User 5, [BWrite wit_write])]" wit_storage_key]
  show ?thesis by (intro exI [of _ m'] exI [of _ object]) (simp add: Let_def)
qed

theorem users_change_their_own_witness:
  "(5 :: id16) \<noteq> 0 \<and> ok_user_id wit_storage_key = 5"
proof -
  obtain m' rs where "apply_batch (\<lambda>_. 0) (User 5) [BWrite wit_write] fmempty = (m', Inr rs)"
    "fmlookup m' wit_storage_key \<noteq> fmlookup fmempty wit_storage_key"
    using wit_user_writes by auto
  from users_change_their_own [OF this] show ?thesis by simp
qed

theorem conditional_update_refused_witness:
  "\<exists>e. apply_batch (\<lambda>_. 0) Server
     [BDelete \<lparr>do_key = wit_storage_key, do_expected_version = Some (replicate 32 48)\<rparr>] fmempty = (fmempty, Inl e)"
  by (rule conditional_update_refused [of fmempty wit_storage_key "replicate 32 48"
        "BDelete \<lparr>do_key = wit_storage_key, do_expected_version = Some (replicate 32 48)\<rparr>"])
    (simp_all add: expects_def)

end
