(* ===== verification/Token.thy ===== *)
theory Token
  imports Rust_Text Contracts "HOL-Library.List_Lexorder" "HOL-Library.Product_Lexorder"
begin

text \<open>
  Tokens (\<open>crates/trnm-token-core/src/lib.rs\<close>): the ring of signing keys by role and epoch, the
  checks on the claims of a token when it is issued and when it is verified, and the plans
  that name the key to sign or verify with. Signing itself is elsewhere. Times are signed
  64-bit seconds: integers in that range, with the overflow checks of the source.
\<close>

subsection \<open>Keys\<close>

definition MAX_KEYS :: usize where "MAX_KEYS = 32"

datatype TokenKind = AccessToken | RefreshToken

datatype KeyRole = AccessKey | RefreshKey

fun role_of_kind :: "TokenKind \<Rightarrow> KeyRole" where
  "role_of_kind AccessToken = AccessKey"
| "role_of_kind RefreshToken = RefreshKey"

fun role_rank :: "KeyRole \<Rightarrow> nat" where
  "role_rank AccessKey = 0"
| "role_rank RefreshKey = 1"

lemma role_rank_inject: "role_rank x = role_rank y \<longleftrightarrow> x = y"
  by (cases x; cases y) simp_all

instantiation KeyRole :: linorder
begin

definition less_eq_KeyRole :: "KeyRole \<Rightarrow> KeyRole \<Rightarrow> bool" where
  "less_eq_KeyRole p q \<longleftrightarrow> role_rank p \<le> role_rank q"

definition less_KeyRole :: "KeyRole \<Rightarrow> KeyRole \<Rightarrow> bool" where
  "less_KeyRole p q \<longleftrightarrow> role_rank p < role_rank q"

instance
  by standard (auto simp: less_eq_KeyRole_def less_KeyRole_def role_rank_inject dest: order_antisym)

end

datatype TokenProfile = NakamaV340Legacy | TrillionniumFamilyV1

datatype Algorithm = Hs256

datatype KeyStatus = KeyActive | KeyVerifyOnly | KeyRetired

record KeyDescriptor =
  kd_role :: KeyRole
  kd_epoch :: u64
  kd_status :: KeyStatus
  kd_not_before :: int
  kd_not_after :: int
  kd_material_digest :: digest32

type_synonym KeyRing = "(KeyRole \<times> u64, KeyDescriptor) fmap"

definition token_invalid :: "string \<Rightarrow> DomainError" where
  "token_invalid reason = domain_error InvalidArgument reason Never"

definition token_unauthenticated :: "string \<Rightarrow> DomainError" where
  "token_unauthenticated reason = domain_error Unauthenticated reason Never"

text \<open>An insertion replaces the entry before it finds out that there was one.\<close>

definition keyring_insert :: "KeyDescriptor \<Rightarrow> KeyRing \<Rightarrow> KeyRing \<times> (DomainError + unit)" where
  "keyring_insert key keys =
     (if fmap_len keys \<ge> MAX_KEYS
      then (keys, Inl (domain_error ResourceExhausted ''token_key_limit_exceeded'' Never))
      else if kd_epoch key = 0 \<or> kd_not_after key \<le> kd_not_before key \<or> id_is_zero (kd_material_digest key)
      then (keys, Inl (token_invalid ''invalid_token_key''))
      else (fmupd (kd_role key, kd_epoch key) key keys,
        if fmlookup keys (kd_role key, kd_epoch key) \<noteq> None
        then Inl (domain_error AlreadyExists ''token_key_epoch_exists'' Never) else Inr ()))"

definition keyring_get :: "KeyRing \<Rightarrow> KeyRole \<Rightarrow> u64 \<Rightarrow> KeyDescriptor option" where
  "keyring_get keys role epoch = fmlookup keys (role, epoch)"

definition key_valid :: "KeyDescriptor \<Rightarrow> int \<Rightarrow> bool" where
  "key_valid key now \<longleftrightarrow> kd_not_before key \<le> now \<and> now < kd_not_after key"

definition unique_key :: "KeyDescriptor list \<Rightarrow> string \<Rightarrow> string \<Rightarrow> DomainError + KeyDescriptor" where
  "unique_key ks none_reason multiple_reason = (case ks of
       [] \<Rightarrow> Inl (token_unauthenticated none_reason)
     | [k] \<Rightarrow> Inr k
     | _ \<Rightarrow> Inl (domain_error FailedPrecondition multiple_reason Never))"

definition key_values :: "KeyRing \<Rightarrow> KeyDescriptor list" where
  "key_values keys = map snd (entries_in_order keys)"

definition issue_key :: "KeyRing \<Rightarrow> KeyRole \<Rightarrow> int \<Rightarrow> DomainError + KeyDescriptor" where
  "issue_key keys role now =
     unique_key (filter (\<lambda>key. kd_role key = role \<and> kd_status key = KeyActive \<and> key_valid key now)
         (key_values keys))
       ''token_issue_key_unavailable'' ''ambiguous_active_token_key''"

definition may_verify :: "KeyDescriptor \<Rightarrow> bool" where
  "may_verify key \<longleftrightarrow> kd_status key = KeyActive \<or> kd_status key = KeyVerifyOnly"

definition verify_key ::
    "KeyRing \<Rightarrow> KeyRole \<Rightarrow> TokenProfile \<Rightarrow> u64 option \<Rightarrow> int \<Rightarrow> DomainError + KeyDescriptor" where
  "verify_key keys role profile declared_epoch now = (case (profile, declared_epoch) of
       (NakamaV340Legacy, None) \<Rightarrow>
         unique_key (filter (\<lambda>key. kd_role key = role \<and> may_verify key \<and> key_valid key now)
             (key_values keys))
           ''token_verify_key_unavailable'' ''ambiguous_legacy_key_epoch''
     | (NakamaV340Legacy, Some _) \<Rightarrow> Inl (token_invalid ''legacy_token_must_not_declare_key_epoch'')
     | (TrillionniumFamilyV1, None) \<Rightarrow> Inl (token_invalid ''token_key_epoch_required'')
     | (TrillionniumFamilyV1, Some epoch) \<Rightarrow>
         tryE (ok_or (token_unauthenticated ''token_key_not_found'') (keyring_get keys role epoch)) (\<lambda>key.
         if \<not> may_verify key \<or> \<not> key_valid key now
         then Inl (token_unauthenticated ''token_key_unavailable'') else Inr key))"

subsection \<open>Policy and claims\<close>

record TokenPolicy =
  tp_access_lifetime_max_sec :: int
  tp_refresh_lifetime_max_sec :: int
  tp_clock_skew_sec :: int
  tp_max_username_bytes :: usize
  tp_max_vars :: usize
  tp_max_var_key_bytes :: usize
  tp_max_var_value_bytes :: usize

definition TokenPolicy_default :: TokenPolicy where
  "TokenPolicy_default = \<lparr>tp_access_lifetime_max_sec = 24 * 60 * 60,
     tp_refresh_lifetime_max_sec = 90 * 24 * 60 * 60, tp_clock_skew_sec = 30,
     tp_max_username_bytes = 128, tp_max_vars = 64, tp_max_var_key_bytes = 128,
     tp_max_var_value_bytes = 1024\<rparr>"

definition policy_validate :: "TokenPolicy \<Rightarrow> DomainError + unit" where
  "policy_validate p =
     (if tp_access_lifetime_max_sec p \<le> 0 \<or>
         tp_refresh_lifetime_max_sec p < tp_access_lifetime_max_sec p \<or>
         tp_clock_skew_sec p < 0 \<or> tp_max_username_bytes p = 0 \<or> tp_max_vars p = 0 \<or>
         tp_max_var_key_bytes p = 0 \<or> tp_max_var_value_bytes p = 0
      then Inl (token_invalid ''invalid_token_policy'') else Inr ())"

definition policy_lifetime :: "TokenPolicy \<Rightarrow> TokenKind \<Rightarrow> int" where
  "policy_lifetime p kind = (case kind of
       AccessToken \<Rightarrow> tp_access_lifetime_max_sec p | RefreshToken \<Rightarrow> tp_refresh_lifetime_max_sec p)"

record TokenClaims =
  tc_token_id :: id16
  tc_user_id :: id16
  tc_username :: rstring
  tc_vars :: "(rstring, rstring) fmap"
  tc_issued_at :: int
  tc_expires_at :: int
  tc_family_id :: "id16 option"
  tc_family_generation :: "u64 option"
  tc_key_epoch :: "u64 option"

record SigningPlan =
  sp_algorithm :: Algorithm
  sp_role :: KeyRole
  sp_selected_key_epoch :: u64
  sp_emitted_key_epoch :: "u64 option"
  sp_key_material_digest :: digest32
  sp_claims :: TokenClaims

record VerificationPlan =
  vp_algorithm :: Algorithm
  vp_kind :: TokenKind
  vp_profile :: TokenProfile
  vp_selected_key_epoch :: u64
  vp_key_material_digest :: digest32

record VerifiedToken =
  vt_kind :: TokenKind
  vt_profile :: TokenProfile
  vt_selected_key_epoch :: u64
  vt_claims :: TokenClaims

datatype ValidationMode = Issue | Verify

definition invalid_or_unauthenticated :: "ValidationMode \<Rightarrow> string \<Rightarrow> DomainError" where
  "invalid_or_unauthenticated mode reason =
     (case mode of Issue \<Rightarrow> token_invalid reason | Verify \<Rightarrow> token_unauthenticated reason)"

definition check_var :: "TokenPolicy \<Rightarrow> ValidationMode \<Rightarrow> rstring \<times> rstring \<Rightarrow> DomainError + unit" where
  "check_var policy mode = (\<lambda>(key, val).
     if key = [] \<or> str_len key > tp_max_var_key_bytes policy \<or> str_len val > tp_max_var_value_bytes policy
     then Inl (invalid_or_unauthenticated mode ''invalid_token_vars'') else Inr ())"

definition check_times ::
    "TokenClaims \<Rightarrow> TokenKind \<Rightarrow> int \<Rightarrow> TokenPolicy \<Rightarrow> ValidationMode \<Rightarrow> DomainError + unit" where
  "check_times claims kind now policy mode =
     (if tc_expires_at claims \<le> tc_issued_at claims
      then Inl (invalid_or_unauthenticated mode ''invalid_token_lifetime'')
      else
      tryE (ok_or (invalid_or_unauthenticated mode ''invalid_token_lifetime'')
              (i64_checked (tc_expires_at claims - tc_issued_at claims))) (\<lambda>lifetime.
      if lifetime > policy_lifetime policy kind
      then Inl (invalid_or_unauthenticated mode ''token_lifetime_exceeded'')
      else
      tryE (ok_or (invalid_or_unauthenticated mode ''token_time_overflow'')
              (i64_checked (now + tp_clock_skew_sec policy))) (\<lambda>latest_issued_at.
      if tc_issued_at claims > latest_issued_at
      then Inl (invalid_or_unauthenticated mode ''token_issued_in_future'')
      else if mode = Issue
      then tryE (ok_or (token_invalid ''token_time_overflow'')
                  (i64_checked (now - tp_clock_skew_sec policy))) (\<lambda>earliest_issued_at.
           if tc_issued_at claims < earliest_issued_at
           then Inl (token_invalid ''token_issue_time_outside_window'') else Inr ())
      else tryE (ok_or (token_unauthenticated ''token_time_overflow'')
                  (i64_checked (tc_expires_at claims + tp_clock_skew_sec policy))) (\<lambda>latest_valid.
           if now \<ge> latest_valid then Inl (token_unauthenticated ''token_expired'') else Inr ()))))"

definition check_profile :: "TokenClaims \<Rightarrow> TokenProfile \<Rightarrow> ValidationMode \<Rightarrow> DomainError + unit" where
  "check_profile claims profile mode = (case profile of
       NakamaV340Legacy \<Rightarrow>
         if tc_family_id claims \<noteq> None \<or> tc_family_generation claims \<noteq> None \<or> tc_key_epoch claims \<noteq> None
         then Inl (invalid_or_unauthenticated mode ''legacy_token_extension_claim_present'') else Inr ()
     | TrillionniumFamilyV1 \<Rightarrow>
         tryE (ok_or (invalid_or_unauthenticated mode ''token_family_claim_required'')
                 (tc_family_id claims)) (\<lambda>family.
         if id_is_zero family \<or> tc_family_generation claims = None \<or>
            (case tc_key_epoch claims of None \<Rightarrow> 0 | Some e \<Rightarrow> e) = 0
         then Inl (invalid_or_unauthenticated mode ''invalid_token_family_claims'') else Inr ()))"

definition validate_claims ::
    "TokenClaims \<Rightarrow> TokenKind \<Rightarrow> TokenProfile \<Rightarrow> int \<Rightarrow> TokenPolicy \<Rightarrow> ValidationMode \<Rightarrow>
     DomainError + unit" where
  "validate_claims claims kind profile now policy mode =
     (if id_is_zero (tc_token_id claims) \<or> id_is_zero (tc_user_id claims)
      then Inl (invalid_or_unauthenticated mode ''invalid_token_identity'')
      else if tc_username claims = [] \<or> str_len (tc_username claims) > tp_max_username_bytes policy
      then Inl (invalid_or_unauthenticated mode ''invalid_token_username'')
      else if fmap_len (tc_vars claims) > tp_max_vars policy
      then Inl (invalid_or_unauthenticated mode ''token_vars_limit_exceeded'')
      else
      tryE (forE (check_var policy mode) (entries_in_order (tc_vars claims))) (\<lambda>_.
      tryE (check_times claims kind now policy mode) (\<lambda>_.
      check_profile claims profile mode)))"

subsection \<open>Issuing and verifying\<close>

definition prepare_issue ::
    "TokenKind \<Rightarrow> TokenProfile \<Rightarrow> TokenClaims \<Rightarrow> int \<Rightarrow> TokenPolicy \<Rightarrow> KeyRing \<Rightarrow>
     DomainError + SigningPlan" where
  "prepare_issue kind profile claims now policy keys =
     tryE (policy_validate policy) (\<lambda>_.
     tryE (validate_claims claims kind profile now policy Issue) (\<lambda>_.
     let role = role_of_kind kind in
     tryE (issue_key keys role now) (\<lambda>key.
     tryE (case profile of
         NakamaV340Legacy \<Rightarrow>
           if tc_key_epoch claims \<noteq> None
           then Inl (token_invalid ''legacy_token_must_not_declare_key_epoch'') else Inr ()
       | TrillionniumFamilyV1 \<Rightarrow>
           if tc_key_epoch claims \<noteq> Some (kd_epoch key)
           then Inl (token_invalid ''token_claim_key_epoch_mismatch'') else Inr ()) (\<lambda>_.
     Inr \<lparr>sp_algorithm = Hs256, sp_role = role, sp_selected_key_epoch = kd_epoch key,
          sp_emitted_key_epoch = (case profile of
              NakamaV340Legacy \<Rightarrow> None | TrillionniumFamilyV1 \<Rightarrow> Some (kd_epoch key)),
          sp_key_material_digest = kd_material_digest key, sp_claims = claims\<rparr>))))"

definition prepare_verification ::
    "TokenKind \<Rightarrow> TokenProfile \<Rightarrow> u64 option \<Rightarrow> int \<Rightarrow> KeyRing \<Rightarrow> DomainError + VerificationPlan" where
  "prepare_verification kind profile declared_key_epoch now keys =
     tryE (verify_key keys (role_of_kind kind) profile declared_key_epoch now) (\<lambda>key.
     Inr \<lparr>vp_algorithm = Hs256, vp_kind = kind, vp_profile = profile,
          vp_selected_key_epoch = kd_epoch key, vp_key_material_digest = kd_material_digest key\<rparr>)"

definition accept_verified_claims ::
    "VerificationPlan \<Rightarrow> TokenClaims \<Rightarrow> int \<Rightarrow> TokenPolicy \<Rightarrow> DomainError + VerifiedToken" where
  "accept_verified_claims plan claims now policy =
     tryE (policy_validate policy) (\<lambda>_.
     tryE (validate_claims claims (vp_kind plan) (vp_profile plan) now policy Verify) (\<lambda>_.
     tryE (case vp_profile plan of
         NakamaV340Legacy \<Rightarrow>
           if tc_key_epoch claims \<noteq> None
           then Inl (token_unauthenticated ''legacy_token_key_epoch_present'') else Inr ()
       | TrillionniumFamilyV1 \<Rightarrow>
           if tc_key_epoch claims \<noteq> Some (vp_selected_key_epoch plan)
           then Inl (token_unauthenticated ''token_claim_key_epoch_mismatch'') else Inr ()) (\<lambda>_.
     Inr \<lparr>vt_kind = vp_kind plan, vt_profile = vp_profile plan,
          vt_selected_key_epoch = vp_selected_key_epoch plan, vt_claims = claims\<rparr>)))"

end
