(* ===== verification/Token_Proofs.thy ===== *)
theory Token_Proofs
  imports Token
begin

text \<open>
  Correctness of tokens: what the checks on claims accept, that an issued token is accepted as
  long as it should be and no longer, and what a rejected key leaves behind in the key ring.
\<close>

subsection \<open>What the checks accept\<close>

lemma i64_checked_iff [simp]:
  "i64_checked n = Some m \<longleftrightarrow> m = n \<and> - (2 ^ 63) \<le> n \<and> n < 2 ^ 63"
  by (auto simp: i64_checked_def)

lemma policy_validate_iff:
  "policy_validate p = Inr u \<longleftrightarrow> 0 < tp_access_lifetime_max_sec p \<and>
     tp_access_lifetime_max_sec p \<le> tp_refresh_lifetime_max_sec p \<and> 0 \<le> tp_clock_skew_sec p \<and>
     0 < tp_max_username_bytes p \<and> 0 < tp_max_vars p \<and> 0 < tp_max_var_key_bytes p \<and>
     0 < tp_max_var_value_bytes p"
  by (auto simp: policy_validate_def)

text \<open>The checks that do not depend on the time or the mode.\<close>

definition shape_ok :: "TokenClaims \<Rightarrow> TokenProfile \<Rightarrow> TokenPolicy \<Rightarrow> bool" where
  "shape_ok claims profile p \<longleftrightarrow> tc_token_id claims \<noteq> 0 \<and> tc_user_id claims \<noteq> 0 \<and>
     tc_username claims \<noteq> [] \<and> str_len (tc_username claims) \<le> tp_max_username_bytes p \<and>
     fmap_len (tc_vars claims) \<le> tp_max_vars p \<and>
     (\<forall>k v. fmlookup (tc_vars claims) k = Some v \<longrightarrow>
        k \<noteq> [] \<and> str_len k \<le> tp_max_var_key_bytes p \<and> str_len v \<le> tp_max_var_value_bytes p) \<and>
     (case profile of
        NakamaV340Legacy \<Rightarrow> tc_family_id claims = None \<and> tc_family_generation claims = None \<and>
          tc_key_epoch claims = None
      | TrillionniumFamilyV1 \<Rightarrow> (\<exists>f. tc_family_id claims = Some f \<and> f \<noteq> 0) \<and>
          tc_family_generation claims \<noteq> None \<and> (\<exists>e. tc_key_epoch claims = Some e \<and> e \<noteq> 0))"

lemma check_profile_iff:
  "check_profile claims profile mode = Inr u \<longleftrightarrow> (case profile of
        NakamaV340Legacy \<Rightarrow> tc_family_id claims = None \<and> tc_family_generation claims = None \<and>
          tc_key_epoch claims = None
      | TrillionniumFamilyV1 \<Rightarrow> (\<exists>f. tc_family_id claims = Some f \<and> f \<noteq> 0) \<and>
          tc_family_generation claims \<noteq> None \<and> (\<exists>e. tc_key_epoch claims = Some e \<and> e \<noteq> 0))"
  by (auto simp: check_profile_def split: TokenProfile.splits option.splits)

lemma check_times_iff:
  "check_times claims kind now p mode = Inr u \<longleftrightarrow>
     tc_issued_at claims < tc_expires_at claims \<and>
     tc_expires_at claims - tc_issued_at claims < 2 ^ 63 \<and>
     tc_expires_at claims - tc_issued_at claims \<le> policy_lifetime p kind \<and>
     - (2 ^ 63) \<le> now + tp_clock_skew_sec p \<and> now + tp_clock_skew_sec p < 2 ^ 63 \<and>
     tc_issued_at claims \<le> now + tp_clock_skew_sec p \<and>
     (case mode of
        Issue \<Rightarrow> - (2 ^ 63) \<le> now - tp_clock_skew_sec p \<and> now - tp_clock_skew_sec p < 2 ^ 63 \<and>
          now - tp_clock_skew_sec p \<le> tc_issued_at claims
      | Verify \<Rightarrow> - (2 ^ 63) \<le> tc_expires_at claims + tp_clock_skew_sec p \<and>
          tc_expires_at claims + tp_clock_skew_sec p < 2 ^ 63 \<and>
          now < tc_expires_at claims + tp_clock_skew_sec p)"
  by (cases mode) (auto simp: check_times_def)

lemma check_var_iff:
  "check_var p mode (k, v) = Inr u \<longleftrightarrow>
     k \<noteq> [] \<and> str_len k \<le> tp_max_var_key_bytes p \<and> str_len v \<le> tp_max_var_value_bytes p"
  by (auto simp: check_var_def)

lemma validate_claims_iff:
  "validate_claims claims kind profile now p mode = Inr u \<longleftrightarrow>
     shape_ok claims profile p \<and> check_times claims kind now p mode = Inr ()"
  by (auto simp: validate_claims_def shape_ok_def check_profile_iff check_var_iff)

lemma key_values_iff: "k \<in> set (key_values keys) \<longleftrightarrow> (\<exists>i. fmlookup keys i = Some k)"
  by (force simp: key_values_def)

definition keyring_ok :: "KeyRing \<Rightarrow> bool" where
  "keyring_ok keys \<longleftrightarrow> (\<forall>i k. fmlookup keys i = Some k \<longrightarrow> i = (kd_role k, kd_epoch k))"

lemma keyring_insert_ok: "keyring_ok keys \<Longrightarrow> keyring_ok (fst (keyring_insert key keys))"
  by (auto simp: keyring_ok_def keyring_insert_def)

lemma keyring_filled_ok: "keyring_ok (fold (\<lambda>k r. fst (keyring_insert k r)) ks fmempty)"
proof (induction ks rule: rev_induct)
  case (snoc k ks)
  then show ?case by (simp add: keyring_insert_ok)
qed (simp add: keyring_ok_def)

lemma unique_key_Inr: "unique_key ks a b = Inr k \<Longrightarrow> ks = [k]"
  by (auto simp: unique_key_def split: list.splits)

lemma issue_key_Inr:
  assumes "keyring_ok keys" and "issue_key keys role now = Inr k"
  shows "fmlookup keys (role, kd_epoch k) = Some k" "kd_role k = role" "kd_status k = KeyActive"
    "key_valid k now"
proof -
  have "filter (\<lambda>key. kd_role key = role \<and> kd_status key = KeyActive \<and> key_valid key now)
      (key_values keys) = [k]"
    using assms(2) by (auto simp: issue_key_def dest: unique_key_Inr)
  then have "k \<in> set (filter (\<lambda>key. kd_role key = role \<and> kd_status key = KeyActive \<and> key_valid key now)
      (key_values keys))" by simp
  then show "kd_role k = role" "kd_status k = KeyActive" "key_valid k now"
    and "fmlookup keys (role, kd_epoch k) = Some k"
    using assms(1) by (auto simp: key_values_iff keyring_ok_def)
qed

lemma verify_key_Inr:
  assumes ok: "keyring_ok keys" and key: "verify_key keys role profile epoch now = Inr k"
  shows "fmlookup keys (role, kd_epoch k) = Some k" "may_verify k" "key_valid k now"
proof -
  have "fmlookup keys (role, kd_epoch k) = Some k \<and> may_verify k \<and> key_valid k now"
  proof (cases profile)
    case NakamaV340Legacy
    then have "filter (\<lambda>key. kd_role key = role \<and> may_verify key \<and> key_valid key now) (key_values keys) = [k]"
      using key by (auto simp: verify_key_def dest: unique_key_Inr split: option.splits)
    then have "k \<in> set (filter (\<lambda>key. kd_role key = role \<and> may_verify key \<and> key_valid key now)
        (key_values keys))" by simp
    then show ?thesis using ok by (auto simp: key_values_iff keyring_ok_def)
  next
    case TrillionniumFamilyV1
    then show ?thesis
      using key ok by (auto simp: verify_key_def keyring_get_def keyring_ok_def split: option.splits if_splits)
  qed
  then show "fmlookup keys (role, kd_epoch k) = Some k" "may_verify k" "key_valid k now" by auto
qed


text \<open>
  C36: No token outlives its policy: whenever claims are accepted, the present time is less than
  the maximal lifetime of this kind of token plus the clock skew after the time of issue, the
  claims are well formed, and the key that was selected to verify them is the one the key ring
  has for the role of this kind of token, valid at the time of verification and not retired.
\<close>

theorem accepted_token_bounded:
  assumes keys: "keys = fold (\<lambda>k r. fst (keyring_insert k r)) ks fmempty"
    and plan: "prepare_verification kind profile epoch now keys = Inr plan"
    and accept: "accept_verified_claims plan claims now policy = Inr token"
  shows "now < tc_issued_at claims + policy_lifetime policy kind + tp_clock_skew_sec policy \<and>
    tc_issued_at claims \<le> now + tp_clock_skew_sec policy \<and>
    vt_claims token = claims \<and> vt_kind token = kind \<and> shape_ok claims profile policy \<and>
    (\<exists>key. keyring_get keys (role_of_kind kind) (vp_selected_key_epoch plan) = Some key \<and>
       kd_material_digest key = vp_key_material_digest plan \<and> kd_status key \<noteq> KeyRetired \<and>
       key_valid key now)"
proof -
  have ok: "keyring_ok keys" by (simp add: keys keyring_filled_ok)
  obtain key where key: "verify_key keys (role_of_kind kind) profile epoch now = Inr key"
    and p: "vp_kind plan = kind" "vp_profile plan = profile" "vp_selected_key_epoch plan = kd_epoch key"
      "vp_key_material_digest plan = kd_material_digest key"
    using plan by (auto simp: prepare_verification_def)
  note K = verify_key_Inr [OF ok key]
  have A: "shape_ok claims profile policy" "check_times claims kind now policy Verify = Inr ()"
    "vt_claims token = claims" "vt_kind token = kind"
    using accept by (auto simp: accept_verified_claims_def validate_claims_iff p)
  have "kd_status key \<noteq> KeyRetired" using K(2) by (auto simp: may_verify_def)
  then have "\<exists>key. keyring_get keys (role_of_kind kind) (vp_selected_key_epoch plan) = Some key \<and>
       kd_material_digest key = vp_key_material_digest plan \<and> kd_status key \<noteq> KeyRetired \<and>
       key_valid key now"
    using K by (auto simp: keyring_get_def p)
  then show ?thesis using A by (auto simp: check_times_iff)
qed

text \<open>
  A key that is refused because its epoch exists takes the place of the stored key all the same.
\<close>

theorem refused_key_replaces:
  assumes "fmap_len keys < MAX_KEYS" and "kd_epoch key \<noteq> 0" "kd_not_before key < kd_not_after key"
    "kd_material_digest key \<noteq> 0" and "keyring_get keys (kd_role key) (kd_epoch key) = Some old"
  shows "snd (keyring_insert key keys) =
      Inl (domain_error AlreadyExists ''token_key_epoch_exists'' Never) \<and>
    keyring_get (fst (keyring_insert key keys)) (kd_role key) (kd_epoch key) = Some key"
  using assms by (simp add: keyring_insert_def keyring_get_def not_less)

subsection \<open>Witnesses\<close>

definition wit_key :: KeyDescriptor where
  "wit_key = \<lparr>kd_role = AccessKey, kd_epoch = 7, kd_status = KeyActive, kd_not_before = 900,
     kd_not_after = 10000, kd_material_digest = 7\<rparr>"

definition wit_claims :: TokenClaims where
  "wit_claims = \<lparr>tc_token_id = 1, tc_user_id = 2, tc_username = [112], tc_vars = fmempty,
     tc_issued_at = 1000, tc_expires_at = 1300, tc_family_id = Some 3,
     tc_family_generation = Some 4, tc_key_epoch = Some 7\<rparr>"

definition wit_ring :: KeyRing where
  "wit_ring = fold (\<lambda>k r. fst (keyring_insert k r)) [wit_key] fmempty"

lemma wit_issue:
  "prepare_issue AccessToken TrillionniumFamilyV1 wit_claims 1000 TokenPolicy_default wit_ring =
     Inr \<lparr>sp_algorithm = Hs256, sp_role = AccessKey, sp_selected_key_epoch = 7,
       sp_emitted_key_epoch = Some 7, sp_key_material_digest = 7, sp_claims = wit_claims\<rparr>"
  "keyring_get wit_ring AccessKey 7 = Some wit_key"
  by (simp_all add: wit_ring_def wit_key_def wit_claims_def prepare_issue_def policy_validate_def
      TokenPolicy_default_def keyring_insert_def MAX_KEYS_def validate_claims_def check_times_def
      check_profile_def policy_lifetime_def issue_key_def unique_key_def key_values_def key_valid_def
      i64_checked_def str_len_def entries_in_order_def keys_in_order_def keyring_get_def char_len_utf8_def
      sorted_list_of_fset.rep_eq)


theorem accepted_token_bounded_witness:
  "1200 < tc_issued_at wit_claims + policy_lifetime TokenPolicy_default AccessToken + 30"
proof -
  obtain plan token where
    "prepare_verification AccessToken TrillionniumFamilyV1 (Some 7) 1200 wit_ring = Inr plan"
    "accept_verified_claims plan wit_claims 1200 TokenPolicy_default = Inr token"
    by (auto simp: prepare_verification_def verify_key_def wit_issue(2) wit_key_def key_valid_def
        may_verify_def accept_verified_claims_def validate_claims_iff shape_ok_def check_times_iff
        policy_validate_iff TokenPolicy_default_def wit_claims_def policy_lifetime_def str_len_def
        char_len_utf8_def)
  from accepted_token_bounded [OF wit_ring_def this] show ?thesis
    by (simp add: TokenPolicy_default_def)
qed

end
