(* ===== verification/Connection_Ledger.thy ===== *)
theory Connection_Ledger
  imports Rust_Text Contracts "HOL-Library.List_Lexorder" "HOL-Library.Product_Lexorder"
begin

text \<open>
  The connection and presence ledger (\<open>crates/trnm-presence-core/src/lib.rs\<close>): connections with
  their indexes by session and by user, the revocation epochs of users, presences with their
  index by stream, and the accounting of outbound queues. A method that changes the ledger
  returns the ledger together with its result; every check precedes the first change.
  A presence key is the triple of stream, user and session, in the order of its fields.
\<close>

subsection \<open>Limits, connections, presences\<close>

type_synonym LedgerKey = "id16 \<times> id16 \<times> id16"

datatype LedgerConnectionState = ConnConnected | ConnDraining

record LedgerLimits =
  ll_max_connections :: usize
  ll_max_connections_per_session :: usize
  ll_max_presences :: usize
  ll_max_presences_per_stream :: usize
  ll_max_status_bytes :: usize
  ll_max_outbound_messages :: u32
  ll_max_outbound_bytes :: u64

definition LedgerLimits_default :: LedgerLimits where
  "LedgerLimits_default = \<lparr>ll_max_connections = 100000, ll_max_connections_per_session = 4,
     ll_max_presences = 500000, ll_max_presences_per_stream = 10000, ll_max_status_bytes = 2048,
     ll_max_outbound_messages = 256, ll_max_outbound_bytes = 4 * 1024 * 1024\<rparr>"

definition ledger_invalid :: "string \<Rightarrow> DomainError" where
  "ledger_invalid reason = domain_error InvalidArgument reason Never"

definition ledger_unauthenticated :: "string \<Rightarrow> DomainError" where
  "ledger_unauthenticated reason = domain_error Unauthenticated reason Never"

definition ledger_exhausted :: "string \<Rightarrow> DomainError" where
  "ledger_exhausted reason = domain_error ResourceExhausted reason SafeBackoff"

definition ledger_connection_missing :: DomainError where
  "ledger_connection_missing = domain_error NotFound ''connection_not_found'' Never"

definition queue_underflow :: DomainError where
  "queue_underflow = domain_error DataLoss ''outbound_queue_accounting_underflow'' Never"

definition ledger_overflow :: DomainError where
  "ledger_overflow = domain_error OutOfRange ''counter_overflow'' Never"

definition limits_validate :: "LedgerLimits \<Rightarrow> DomainError + unit" where
  "limits_validate l =
     (if ll_max_connections l = 0 \<or> ll_max_connections_per_session l = 0 \<or> ll_max_presences l = 0 \<or>
         ll_max_presences_per_stream l = 0 \<or> ll_max_status_bytes l = 0 \<or>
         ll_max_outbound_messages l = 0 \<or> ll_max_outbound_bytes l = 0
      then Inl (ledger_invalid ''invalid_router_limits'') else Inr ())"

record OpenConnection =
  oc_connection :: id16
  oc_session :: id16
  oc_user :: id16
  oc_node :: id16
  oc_route_generation :: u64
  oc_user_revocation_epoch :: u64
  oc_now_ms :: u64

record LedgerConnection =
  lc_connection :: id16
  lc_session :: id16
  lc_user :: id16
  lc_node :: id16
  lc_route_generation :: u64
  lc_user_revocation_epoch :: u64
  lc_last_seen_ms :: u64
  lc_state :: LedgerConnectionState
  lc_queued_messages :: u32
  lc_queued_bytes :: u64

record LedgerPresence =
  lp_key :: LedgerKey
  lp_connection :: id16
  lp_username :: rstring
  lp_status :: rstring
  lp_hidden :: bool
  lp_persistence :: bool

record LedgerJoin =
  lj_connection :: id16
  lj_node :: id16
  lj_route_generation :: u64
  lj_stream :: id16
  lj_username :: rstring
  lj_status :: rstring
  lj_hidden :: bool
  lj_persistence :: bool

record RouteTarget =
  rt_connection :: id16
  rt_session :: id16
  rt_user :: id16
  rt_node :: id16
  rt_route_generation :: u64

record CloseResult =
  cl_connection :: id16
  cl_removed_presences :: usize

record Ledger =
  lg_limits :: LedgerLimits
  lg_connections :: "(id16, LedgerConnection) fmap"
  lg_sessions :: "(id16, id16 fset) fmap"
  lg_users :: "(id16, id16 fset) fmap"
  lg_user_revocation_epochs :: "(id16, u64) fmap"
  lg_presences :: "(LedgerKey, LedgerPresence) fmap"
  lg_streams :: "(id16, LedgerKey fset) fmap"

definition ledger_new :: "LedgerLimits \<Rightarrow> DomainError + Ledger" where
  "ledger_new limits =
     tryE (limits_validate limits) (\<lambda>_.
     Inr \<lparr>lg_limits = limits, lg_connections = fmempty, lg_sessions = fmempty, lg_users = fmempty,
          lg_user_revocation_epochs = fmempty, lg_presences = fmempty, lg_streams = fmempty\<rparr>)"

definition connection_count :: "Ledger \<Rightarrow> usize" where
  "connection_count s = fmap_len (lg_connections s)"

definition presence_count :: "Ledger \<Rightarrow> usize" where
  "presence_count s = fmap_len (lg_presences s)"

definition ledger_connection :: "Ledger \<Rightarrow> id16 \<Rightarrow> LedgerConnection option" where
  "ledger_connection s c = fmlookup (lg_connections s) c"

subsection \<open>Indexes\<close>

text \<open>
  The set an index has for a key (empty when the key is absent), \<open>entry(k).or_default().insert(x)\<close>,
  and the removal of an element that also removes a set that became empty.
\<close>

definition index_at :: "('k, 'v fset) fmap \<Rightarrow> 'k \<Rightarrow> 'v fset" where
  "index_at m k = (case fmlookup m k of None \<Rightarrow> {||} | Some xs \<Rightarrow> xs)"

definition index_insert :: "'k \<Rightarrow> 'v \<Rightarrow> ('k, 'v fset) fmap \<Rightarrow> ('k, 'v fset) fmap" where
  "index_insert k x m = fmupd k (finsert x (index_at m k)) m"

definition index_remove :: "'k \<Rightarrow> 'v \<Rightarrow> ('k, 'v fset) fmap \<Rightarrow> ('k, 'v fset) fmap" where
  "index_remove k x m = (case fmlookup m k of
       None \<Rightarrow> m
     | Some xs \<Rightarrow> if xs |-| {|x|} = {||} then fmdrop k m else fmupd k (xs |-| {|x|}) m)"

subsection \<open>Opening and routing\<close>

definition validate_open :: "OpenConnection \<Rightarrow> DomainError + unit" where
  "validate_open request =
     (if id_is_zero (oc_connection request) \<or> id_is_zero (oc_session request) \<or>
         id_is_zero (oc_user request) \<or> id_is_zero (oc_node request) \<or> oc_route_generation request = 0
      then Inl (ledger_invalid ''invalid_connection_identity'') else Inr ())"

definition route_fence :: "LedgerConnection \<Rightarrow> id16 \<Rightarrow> u64 \<Rightarrow> DomainError + unit" where
  "route_fence r node generation =
     (if lc_node r \<noteq> node then Inl (domain_error Aborted ''route_owner_mismatch'' ResyncRequired)
      else if lc_route_generation r \<noteq> generation
      then Inl (domain_error Aborted ''route_generation_mismatch'' ResyncRequired) else Inr ())"

definition target :: "LedgerConnection \<Rightarrow> RouteTarget" where
  "target r = \<lparr>rt_connection = lc_connection r, rt_session = lc_session r, rt_user = lc_user r,
     rt_node = lc_node r, rt_route_generation = lc_route_generation r\<rparr>"

definition ledger_open :: "OpenConnection \<Rightarrow> Ledger \<Rightarrow> Ledger \<times> (DomainError + LedgerConnection)" where
  "ledger_open request s = commit_candidate s (
     tryE (validate_open request) (\<lambda>_.
     if fmap_len (lg_connections s) \<ge> ll_max_connections (lg_limits s)
     then Inl (ledger_exhausted ''connection_limit_exceeded'')
     else if fmlookup (lg_connections s) (oc_connection request) \<noteq> None
     then Inl (domain_error AlreadyExists ''connection_id_exists'' Never)
     else
     let current_epoch = (case fmlookup (lg_user_revocation_epochs s) (oc_user request) of
           None \<Rightarrow> oc_user_revocation_epoch request | Some e \<Rightarrow> e) in
     if current_epoch \<noteq> oc_user_revocation_epoch request
     then Inl (ledger_unauthenticated ''user_revocation_epoch_mismatch'')
     else if fcard (index_at (lg_sessions s) (oc_session request)) \<ge>
             ll_max_connections_per_session (lg_limits s)
     then Inl (ledger_exhausted ''session_connection_limit_exceeded'')
     else
     let r = \<lparr>lc_connection = oc_connection request, lc_session = oc_session request,
           lc_user = oc_user request, lc_node = oc_node request,
           lc_route_generation = oc_route_generation request,
           lc_user_revocation_epoch = oc_user_revocation_epoch request,
           lc_last_seen_ms = oc_now_ms request, lc_state = ConnConnected, lc_queued_messages = 0,
           lc_queued_bytes = 0\<rparr> in
     Inr (s\<lparr>lg_user_revocation_epochs :=
              (if fmlookup (lg_user_revocation_epochs s) (oc_user request) = None
               then fmupd (oc_user request) (oc_user_revocation_epoch request) (lg_user_revocation_epochs s)
               else lg_user_revocation_epochs s),
            lg_connections := fmupd (oc_connection request) r (lg_connections s),
            lg_sessions := index_insert (oc_session request) (oc_connection request) (lg_sessions s),
            lg_users := index_insert (oc_user request) (oc_connection request) (lg_users s)\<rparr>, r)))"

definition fenced :: "Ledger \<Rightarrow> id16 \<Rightarrow> id16 \<Rightarrow> u64 \<Rightarrow> DomainError + LedgerConnection" where
  "fenced s connection node generation =
     tryE (ok_or ledger_connection_missing (fmlookup (lg_connections s) connection)) (\<lambda>r.
     tryE (route_fence r node generation) (\<lambda>_. Inr r))"

definition route :: "Ledger \<Rightarrow> id16 \<Rightarrow> id16 \<Rightarrow> u64 \<Rightarrow> DomainError + RouteTarget" where
  "route s connection node generation =
     tryE (fenced s connection node generation) (\<lambda>r. Inr (target r))"

definition put_connection :: "id16 \<Rightarrow> LedgerConnection \<Rightarrow> Ledger \<Rightarrow> Ledger" where
  "put_connection c r s = s\<lparr>lg_connections := fmupd c r (lg_connections s)\<rparr>"

definition rebind ::
    "id16 \<Rightarrow> id16 \<Rightarrow> u64 \<Rightarrow> id16 \<Rightarrow> Ledger \<Rightarrow> Ledger \<times> (DomainError + RouteTarget)" where
  "rebind connection node generation new_node s = commit_candidate s (
     if id_is_zero new_node then Inl (ledger_invalid ''invalid_node_id'')
     else
     tryE (fenced s connection node generation) (\<lambda>current.
     tryE (ok_or ledger_overflow (checked_add (lc_route_generation current) 1)) (\<lambda>next_generation.
     let r = current\<lparr>lc_node := new_node, lc_route_generation := next_generation,
                     lc_state := ConnConnected\<rparr> in
     Inr (put_connection connection r s, target r))))"

definition touch ::
    "id16 \<Rightarrow> id16 \<Rightarrow> u64 \<Rightarrow> u64 \<Rightarrow> Ledger \<Rightarrow> Ledger \<times> (DomainError + LedgerConnection)" where
  "touch connection node generation now_ms s = commit_candidate s (
     tryE (fenced s connection node generation) (\<lambda>current.
     if now_ms < lc_last_seen_ms current then Inl (ledger_invalid ''heartbeat_time_regression'')
     else
     let r = current\<lparr>lc_last_seen_ms := now_ms\<rparr> in
     Inr (put_connection connection r s, r)))"

definition begin_node_drain :: "id16 \<Rightarrow> Ledger \<Rightarrow> Ledger \<times> (DomainError + RouteTarget list)" where
  "begin_node_drain node s =
     (if id_is_zero node then (s, Inl (ledger_invalid ''invalid_node_id''))
      else
      let drained = fmmap (\<lambda>r. if lc_node r = node then r\<lparr>lc_state := ConnDraining\<rparr> else r)
            (lg_connections s) in
      (s\<lparr>lg_connections := drained\<rparr>,
       Inr (map (\<lambda>(_, r). target r) (filter (\<lambda>(_, r). lc_node r = node) (entries_in_order drained)))))"

subsection \<open>Presences\<close>

definition ledger_join :: "LedgerJoin \<Rightarrow> Ledger \<Rightarrow> Ledger \<times> (DomainError + LedgerPresence)" where
  "ledger_join request s = commit_candidate s (
     if id_is_zero (lj_stream request) \<or> lj_username request = [] \<or> str_len (lj_username request) > 128
     then Inl (ledger_invalid ''invalid_presence_identity'')
     else if str_len (lj_status request) > ll_max_status_bytes (lg_limits s)
     then Inl (ledger_exhausted ''presence_status_limit_exceeded'')
     else if fmap_len (lg_presences s) \<ge> ll_max_presences (lg_limits s)
     then Inl (ledger_exhausted ''presence_limit_exceeded'')
     else
     tryE (fenced s (lj_connection request) (lj_node request) (lj_route_generation request)) (\<lambda>r.
     if lc_state r \<noteq> ConnConnected
     then Inl (domain_error FailedPrecondition ''connection_draining'' SafeBackoff)
     else
     let key = (lj_stream request, lc_user r, lc_session r) in
     if fmlookup (lg_presences s) key \<noteq> None
     then Inl (domain_error AlreadyExists ''presence_exists'' Never)
     else if fcard (index_at (lg_streams s) (lj_stream request)) \<ge> ll_max_presences_per_stream (lg_limits s)
     then Inl (ledger_exhausted ''stream_presence_limit_exceeded'')
     else
     let p = \<lparr>lp_key = key, lp_connection = lj_connection request, lp_username = lj_username request,
              lp_status = lj_status request, lp_hidden = lj_hidden request,
              lp_persistence = lj_persistence request\<rparr> in
     Inr (s\<lparr>lg_presences := fmupd key p (lg_presences s),
            lg_streams := index_insert (lj_stream request) key (lg_streams s)\<rparr>, p)))"

definition remove_presence :: "LedgerKey \<Rightarrow> Ledger \<Rightarrow> Ledger \<times> LedgerPresence option" where
  "remove_presence key s = (case fmlookup (lg_presences s) key of
       None \<Rightarrow> (s, None)
     | Some p \<Rightarrow>
         (s\<lparr>lg_presences := fmdrop key (lg_presences s),
            lg_streams := index_remove (fst key) key (lg_streams s)\<rparr>, Some p))"

definition ledger_leave ::
    "id16 \<Rightarrow> id16 \<Rightarrow> u64 \<Rightarrow> id16 \<Rightarrow> Ledger \<Rightarrow> Ledger \<times> (DomainError + LedgerPresence)" where
  "ledger_leave connection node generation stream s =
     (case fenced s connection node generation of
        Inl e \<Rightarrow> (s, Inl e)
      | Inr r \<Rightarrow>
          (case remove_presence (stream, lc_user r, lc_session r) s of
             (s', None) \<Rightarrow> (s', Inl (domain_error NotFound ''presence_not_found'' Never))
           | (s', Some p) \<Rightarrow> (s', Inr p)))"

subsection \<open>Outbound accounting\<close>

definition reserve_outbound ::
    "id16 \<Rightarrow> id16 \<Rightarrow> u64 \<Rightarrow> u64 \<Rightarrow> Ledger \<Rightarrow> Ledger \<times> (DomainError + LedgerConnection)" where
  "reserve_outbound connection node generation bytes s = commit_candidate s (
     if bytes = 0 then Inl (ledger_invalid ''outbound_bytes_must_be_positive'')
     else
     tryE (fenced s connection node generation) (\<lambda>current.
     tryE (ok_or ledger_overflow (checked_add (lc_queued_messages current) 1)) (\<lambda>messages.
     tryE (ok_or ledger_overflow (checked_add (lc_queued_bytes current) bytes)) (\<lambda>queued_bytes.
     if messages > ll_max_outbound_messages (lg_limits s) \<or>
        queued_bytes > ll_max_outbound_bytes (lg_limits s)
     then Inl (ledger_exhausted ''slow_consumer_budget_exceeded'')
     else
     let r = current\<lparr>lc_queued_messages := messages, lc_queued_bytes := queued_bytes\<rparr> in
     Inr (put_connection connection r s, r)))))"

definition release_outbound ::
    "id16 \<Rightarrow> id16 \<Rightarrow> u64 \<Rightarrow> u64 \<Rightarrow> Ledger \<Rightarrow> Ledger \<times> (DomainError + LedgerConnection)" where
  "release_outbound connection node generation bytes s = commit_candidate s (
     if bytes = 0 then Inl (ledger_invalid ''outbound_bytes_must_be_positive'')
     else
     tryE (fenced s connection node generation) (\<lambda>current.
     if lc_queued_messages current < 1 then Inl queue_underflow
     else if lc_queued_bytes current < bytes then Inl queue_underflow
     else
     let r = current\<lparr>lc_queued_messages := lc_queued_messages current - 1,
                     lc_queued_bytes := lc_queued_bytes current - bytes\<rparr> in
     Inr (put_connection connection r s, r)))"

subsection \<open>Closing, revocation, expiry\<close>

definition remove_connection :: "id16 \<Rightarrow> Ledger \<Rightarrow> Ledger \<times> CloseResult option" where
  "remove_connection connection s = (case fmlookup (lg_connections s) connection of
       None \<Rightarrow> (s, None)
     | Some r \<Rightarrow>
         let s1 = s\<lparr>lg_connections := fmdrop connection (lg_connections s),
                    lg_sessions := index_remove (lc_session r) connection (lg_sessions s),
                    lg_users := index_remove (lc_user r) connection (lg_users s)\<rparr>;
             keys = map (\<lambda>(_, p). lp_key p)
               (filter (\<lambda>(_, p). lp_connection p = connection) (entries_in_order (lg_presences s1)))
         in (fold (\<lambda>key t. fst (remove_presence key t)) keys s1,
             Some \<lparr>cl_connection = connection, cl_removed_presences = length keys\<rparr>))"

primrec remove_connections :: "id16 list \<Rightarrow> Ledger \<Rightarrow> Ledger \<times> CloseResult list" where
  "remove_connections [] s = (s, [])"
| "remove_connections (c # cs) s =
     (let (s1, closed) = remove_connection c s; (s2, rest) = remove_connections cs s1
      in (s2, (case closed of None \<Rightarrow> rest | Some x \<Rightarrow> x # rest)))"

definition close_connection ::
    "id16 \<Rightarrow> id16 \<Rightarrow> u64 \<Rightarrow> Ledger \<Rightarrow> Ledger \<times> (DomainError + CloseResult)" where
  "close_connection connection node generation s =
     (case fenced s connection node generation of
        Inl e \<Rightarrow> (s, Inl e)
      | Inr _ \<Rightarrow>
          (case remove_connection connection s of
             (s', None) \<Rightarrow> (s', Inl ledger_connection_missing)
           | (s', Some x) \<Rightarrow> (s', Inr x)))"

definition close_session :: "id16 \<Rightarrow> Ledger \<Rightarrow> Ledger \<times> (DomainError + CloseResult list)" where
  "close_session session s =
     (if id_is_zero session then (s, Inl (ledger_invalid ''invalid_session_id''))
      else
      let (s', closed) = remove_connections (sorted_list_of_fset (index_at (lg_sessions s) session)) s
      in (s', Inr closed))"

definition revoke_user ::
    "id16 \<Rightarrow> u64 \<Rightarrow> u64 \<Rightarrow> Ledger \<Rightarrow> Ledger \<times> (DomainError + CloseResult list)" where
  "revoke_user user expected_epoch new_epoch s =
     (if id_is_zero user \<or> new_epoch \<le> expected_epoch
      then (s, Inl (ledger_invalid ''invalid_user_revocation''))
      else if (case fmlookup (lg_user_revocation_epochs s) user of None \<Rightarrow> 0 | Some e \<Rightarrow> e) \<noteq> expected_epoch
      then (s, Inl (domain_error Aborted ''user_revocation_epoch_mismatch'' ResyncRequired))
      else
      let s1 = s\<lparr>lg_user_revocation_epochs := fmupd user new_epoch (lg_user_revocation_epochs s)\<rparr>;
          (s', closed) = remove_connections (sorted_list_of_fset (index_at (lg_users s1) user)) s1
      in (s', Inr closed))"

definition idle :: "u64 \<Rightarrow> u64 \<Rightarrow> LedgerConnection \<Rightarrow> bool" where
  "idle now_ms idle_timeout_ms r \<longleftrightarrow> (case checked_add (lc_last_seen_ms r) idle_timeout_ms of
       None \<Rightarrow> False | Some deadline \<Rightarrow> now_ms \<ge> deadline)"

definition expire_idle ::
    "u64 \<Rightarrow> u64 \<Rightarrow> usize \<Rightarrow> Ledger \<Rightarrow> Ledger \<times> (DomainError + CloseResult list)" where
  "expire_idle now_ms idle_timeout_ms max_expired s =
     (if idle_timeout_ms = 0 \<or> max_expired = 0
      then (s, Inl (ledger_invalid ''invalid_idle_expiry_policy''))
      else
      let expired = take max_expired (map fst
            (filter (\<lambda>(_, r). idle now_ms idle_timeout_ms r) (entries_in_order (lg_connections s))));
          (s', closed) = remove_connections expired s
      in (s', Inr closed))"

definition recipients :: "Ledger \<Rightarrow> id16 \<Rightarrow> RouteTarget list" where
  "recipients s stream =
     map target (List.map_filter (\<lambda>p. fmlookup (lg_connections s) (lp_connection p))
       (List.map_filter (fmlookup (lg_presences s))
         (sorted_list_of_fset (index_at (lg_streams s) stream))))"

end
