(* ===== verification/Connection_Ledger_Proofs.thy ===== *)
theory Connection_Ledger_Proofs
  imports Connection_Ledger Machine
begin

text \<open>
  Correctness of the connection and presence ledger: the indexes always agree with the
  connections and presences they index, every presence belongs to an open connection, the
  limits hold, messages of a stream reach the members of the stream, and a revoked user is out
  and stays out.
\<close>

declare split_paired_All [simp del] split_paired_Ex [simp del]

subsection \<open>Indexes\<close>

definition tight :: "('k, 'v fset) fmap \<Rightarrow> bool" where
  "tight m \<longleftrightarrow> (\<forall>k. fmlookup m k \<noteq> Some {||})"

lemma index_at_insert [simp]:
  "index_at (index_insert k x m) k' = (if k' = k then finsert x (index_at m k) else index_at m k')"
  by (simp add: index_insert_def index_at_def)

lemma index_at_remove [simp]:
  "index_at (index_remove k x m) k' = (if k' = k then index_at m k |-| {|x|} else index_at m k')"
  by (auto simp: index_remove_def index_at_def split: option.splits)

lemma index_at_empty [simp]: "index_at fmempty k = {||}"
  by (simp add: index_at_def)

lemma tight_simps [simp]:
  "tight fmempty" "tight m \<Longrightarrow> tight (index_insert k x m)" "tight m \<Longrightarrow> tight (index_remove k x m)"
  by (auto simp: tight_def index_insert_def index_remove_def split: option.splits)

subsection \<open>The invariant\<close>

definition connection_ok :: "Ledger \<Rightarrow> id16 \<Rightarrow> LedgerConnection \<Rightarrow> bool" where
  "connection_ok s c r \<longleftrightarrow> lc_connection r = c \<and>
     lc_queued_messages r \<le> ll_max_outbound_messages (lg_limits s) \<and>
     lc_queued_bytes r \<le> ll_max_outbound_bytes (lg_limits s) \<and>
     fmlookup (lg_user_revocation_epochs s) (lc_user r) = Some (lc_user_revocation_epoch r)"

definition connections_ok :: "Ledger \<Rightarrow> bool" where
  "connections_ok s \<longleftrightarrow>
     (\<forall>c r. fmlookup (lg_connections s) c = Some r \<longrightarrow> connection_ok s c r) \<and>
     fmap_len (lg_connections s) \<le> ll_max_connections (lg_limits s)"

definition sessions_ok :: "Ledger \<Rightarrow> bool" where
  "sessions_ok s \<longleftrightarrow> tight (lg_sessions s) \<and> (\<forall>k. \<forall>c.
       c |\<in>| index_at (lg_sessions s) k \<longleftrightarrow>
       (\<exists>r. fmlookup (lg_connections s) c = Some r \<and> lc_session r = k)) \<and>
     (\<forall>k. fcard (index_at (lg_sessions s) k) \<le> ll_max_connections_per_session (lg_limits s))"

definition users_ok :: "Ledger \<Rightarrow> bool" where
  "users_ok s \<longleftrightarrow> tight (lg_users s) \<and> (\<forall>k. \<forall>c.
       c |\<in>| index_at (lg_users s) k \<longleftrightarrow>
       (\<exists>r. fmlookup (lg_connections s) c = Some r \<and> lc_user r = k))"

definition presences_ok :: "Ledger \<Rightarrow> bool" where
  "presences_ok s \<longleftrightarrow> (\<forall>k p. fmlookup (lg_presences s) k = Some p \<longrightarrow> lp_key p = k \<and>
       (\<exists>r. fmlookup (lg_connections s) (lp_connection p) = Some r \<and> snd k = (lc_user r, lc_session r))) \<and>
     fmap_len (lg_presences s) \<le> ll_max_presences (lg_limits s)"

definition streams_ok :: "Ledger \<Rightarrow> bool" where
  "streams_ok s \<longleftrightarrow> tight (lg_streams s) \<and> (\<forall>t. \<forall>k.
       k |\<in>| index_at (lg_streams s) t \<longleftrightarrow> fst k = t \<and> fmlookup (lg_presences s) k \<noteq> None) \<and>
     (\<forall>t. fcard (index_at (lg_streams s) t) \<le> ll_max_presences_per_stream (lg_limits s))"

definition ledger_ok :: "Ledger \<Rightarrow> bool" where
  "ledger_ok s \<longleftrightarrow> connections_ok s \<and> sessions_ok s \<and> users_ok s \<and> presences_ok s \<and> streams_ok s"

lemma ledger_okI:
  "connections_ok s \<Longrightarrow> sessions_ok s \<Longrightarrow> users_ok s \<Longrightarrow> presences_ok s \<Longrightarrow> streams_ok s \<Longrightarrow> ledger_ok s"
  by (simp add: ledger_ok_def)

lemma ledger_okD:
  assumes "ledger_ok s"
  shows "connections_ok s" "sessions_ok s" "users_ok s" "presences_ok s" "streams_ok s"
  using assms by (simp_all add: ledger_ok_def)

lemma connections_okD:
  "connections_ok s \<Longrightarrow> fmlookup (lg_connections s) c = Some r \<Longrightarrow> connection_ok s c r"
  by (simp add: connections_ok_def)

lemma presences_okI:
  assumes "\<And>k p. fmlookup (lg_presences s) k = Some p \<Longrightarrow> lp_key p = k \<and>
      (\<exists>r. fmlookup (lg_connections s) (lp_connection p) = Some r \<and> snd k = (lc_user r, lc_session r))"
    and "fmap_len (lg_presences s) \<le> ll_max_presences (lg_limits s)"
  shows "presences_ok s"
  using assms unfolding presences_ok_def by blast

lemma presences_okD:
  assumes "presences_ok s" and "fmlookup (lg_presences s) k = Some p"
  shows "lp_key p = k"
    and "\<exists>r. fmlookup (lg_connections s) (lp_connection p) = Some r \<and> snd k = (lc_user r, lc_session r)"
  using assms unfolding presences_ok_def by blast+

lemma ledger_new_ok: "ledger_new l = Inr s \<Longrightarrow> ledger_ok s"
  by (auto simp: ledger_new_def ledger_ok_def connections_ok_def sessions_ok_def users_ok_def
      presences_ok_def streams_ok_def fcard.rep_eq)

subsection \<open>Connections that are opened and changed\<close>

lemma fenced_iff:
  "fenced s c node g = Inr r \<longleftrightarrow>
     fmlookup (lg_connections s) c = Some r \<and> lc_node r = node \<and> lc_route_generation r = g"
  by (auto simp: fenced_def route_fence_def)

lemma put_connection_ok:
  assumes ok: "ledger_ok s" and c: "fmlookup (lg_connections s) c = Some r0"
    and r: "connection_ok s c r" "lc_session r = lc_session r0" "lc_user r = lc_user r0"
  shows "ledger_ok (put_connection c r s)"
proof -
  note O = ledger_okD [OF ok]
  let ?s = "put_connection c r s"
  have look: "fmlookup (lg_connections ?s) d = (if d = c then Some r else fmlookup (lg_connections s) d)" for d
    by (simp add: put_connection_def)
  have same: "lg_limits ?s = lg_limits s" "lg_sessions ?s = lg_sessions s" "lg_users ?s = lg_users s"
    "lg_user_revocation_epochs ?s = lg_user_revocation_epochs s" "lg_presences ?s = lg_presences s"
    "lg_streams ?s = lg_streams s"
    by (simp_all add: put_connection_def)
  show ?thesis
  proof (rule ledger_okI)
    show "connections_ok ?s"
      using O(1) r(1) by (simp add: connections_ok_def connection_ok_def look same)
        (simp add: put_connection_def fmap_len_upd_old [OF c])
    show "sessions_ok ?s" using O(2) c r(2) by (auto simp: sessions_ok_def look same)
    show "users_ok ?s" using O(3) c r(3) by (auto simp: users_ok_def look same)
    have "\<exists>x. fmlookup (lg_connections ?s) (lp_connection p) = Some x \<and> snd k = (lc_user x, lc_session x)"
      if kp: "fmlookup (lg_presences s) k = Some p" for k p
    proof -
      obtain x where "fmlookup (lg_connections s) (lp_connection p) = Some x"
        "snd k = (lc_user x, lc_session x)"
        using presences_okD(2) [OF O(4) kp] by blast
      then show ?thesis using c r(2,3) by (cases "lp_connection p = c") (auto simp: look)
    qed
    then show "presences_ok ?s" using O(4) by (auto simp: presences_ok_def same)
    show "streams_ok ?s" using O(5) by (simp add: streams_ok_def same)
  qed
qed

lemma ledger_open_ok:
  assumes ok: "ledger_ok s" and run: "ledger_open request s = (s', Inr r)"
  shows "ledger_ok s'"
proof -
  note O = ledger_okD [OF ok]
  let ?c = "oc_connection request" and ?es = "lg_user_revocation_epochs s"
  have new: "fmlookup (lg_connections s) ?c = None"
    and room: "fmap_len (lg_connections s) < ll_max_connections (lg_limits s)"
      "fcard (index_at (lg_sessions s) (oc_session request)) < ll_max_connections_per_session (lg_limits s)"
    and epoch: "fmlookup ?es (oc_user request) = None \<or>
      fmlookup ?es (oc_user request) = Some (oc_user_revocation_epoch request)"
    and r: "lc_connection r = ?c" "lc_session r = oc_session request" "lc_user r = oc_user request"
      "lc_user_revocation_epoch r = oc_user_revocation_epoch request" "lc_queued_messages r = 0"
      "lc_queued_bytes r = 0"
    and s': "s' = s\<lparr>lg_user_revocation_epochs := (if fmlookup ?es (oc_user request) = None
          then fmupd (oc_user request) (oc_user_revocation_epoch request) ?es else ?es),
        lg_connections := fmupd ?c r (lg_connections s),
        lg_sessions := index_insert (oc_session request) ?c (lg_sessions s),
        lg_users := index_insert (oc_user request) ?c (lg_users s)\<rparr>"
    using run by (auto simp: ledger_open_def Let_def split: if_splits option.splits)
  have epochs: "fmlookup (lg_user_revocation_epochs s') u = Some e"
    if "fmlookup ?es u = Some e \<or> u = oc_user request \<and> e = oc_user_revocation_epoch request" for u e
    using that epoch by (auto simp: s')
  have absent: "?c |\<notin>| index_at (lg_sessions s) k" "?c |\<notin>| index_at (lg_users s) k" for k
    using O(2,3) new by (auto simp: sessions_ok_def users_ok_def)
  show ?thesis
  proof (rule ledger_okI)
    have "connection_ok s' d x" if d: "fmlookup (lg_connections s') d = Some x" for d x
    proof (cases "d = ?c")
      case True
      then have "x = r" using d by (simp add: s')
      moreover have "fmlookup (lg_user_revocation_epochs s') (lc_user r) = Some (lc_user_revocation_epoch r)"
        by (rule epochs) (simp add: r)
      ultimately show ?thesis using True by (simp add: connection_ok_def r)
    next
      case False
      then have "connection_ok s d x" using connections_okD [OF O(1)] d by (simp add: s')
      then have *: "lc_connection x = d" "lc_queued_messages x \<le> ll_max_outbound_messages (lg_limits s)"
        "lc_queued_bytes x \<le> ll_max_outbound_bytes (lg_limits s)"
        "fmlookup ?es (lc_user x) = Some (lc_user_revocation_epoch x)"
        by (simp_all add: connection_ok_def)
      have "fmlookup (lg_user_revocation_epochs s') (lc_user x) = Some (lc_user_revocation_epoch x)"
        by (rule epochs) (simp add: *(4))
      then show ?thesis using * by (simp add: connection_ok_def) (simp add: s')
    qed
    then show "connections_ok s'"
      using room by (simp add: connections_ok_def) (simp add: s' fmap_len_upd_new [OF new])
    show "sessions_ok s'"
      using O(2) room(2) new absent by (auto simp: sessions_ok_def s' r fcard_finsert_new)
    show "users_ok s'" using O(3) new absent by (auto simp: users_ok_def s' r)
    show "presences_ok s'" using O(4) new by (fastforce simp: presences_ok_def s')
    show "streams_ok s'" using O(5) by (simp add: streams_ok_def s')
  qed
qed

lemma rebind_ok: "ledger_ok s \<Longrightarrow> rebind c n g n' s = (s', Inr t) \<Longrightarrow> ledger_ok s'"
  by (auto simp: rebind_def Let_def fenced_iff connection_ok_def intro!: put_connection_ok
      dest: connections_okD [OF ledger_okD(1)])

lemma touch_ok: "ledger_ok s \<Longrightarrow> touch c n g now s = (s', Inr t) \<Longrightarrow> ledger_ok s'"
  by (auto simp: touch_def Let_def fenced_iff connection_ok_def intro!: put_connection_ok
      dest: connections_okD [OF ledger_okD(1)])

lemma reserve_outbound_ok: "ledger_ok s \<Longrightarrow> reserve_outbound c n g b s = (s', Inr t) \<Longrightarrow> ledger_ok s'"
  by (auto simp: reserve_outbound_def Let_def fenced_iff connection_ok_def not_less
      intro!: put_connection_ok dest: connections_okD [OF ledger_okD(1)])

lemma word_sub_bound: "b \<le> q \<Longrightarrow> q \<le> m \<Longrightarrow> q - b \<le> (m :: 'a::len word)"
  by (meson order_trans word_sub_le)

lemma word_nonzero_ge: "q \<noteq> 0 \<Longrightarrow> 1 \<le> (q :: 'a::len word)"
  by (simp add: word_le_nat_alt Suc_le_eq unat_gt_0)

lemma release_outbound_ok: "ledger_ok s \<Longrightarrow> release_outbound c n g b s = (s', Inr t) \<Longrightarrow> ledger_ok s'"
  by (auto simp: release_outbound_def Let_def fenced_iff connection_ok_def not_less
      intro!: put_connection_ok word_sub_bound word_nonzero_ge dest: connections_okD [OF ledger_okD(1)])

lemma begin_node_drain_ok:
  assumes ok: "ledger_ok s"
  shows "ledger_ok (fst (begin_node_drain node s))"
proof (cases "id_is_zero node")
  case False
  define f :: "LedgerConnection \<Rightarrow> LedgerConnection"
    where "f = (\<lambda>r. if lc_node r = node then r\<lparr>lc_state := ConnDraining\<rparr> else r)"
  have s': "fst (begin_node_drain node s) = s\<lparr>lg_connections := fmmap f (lg_connections s)\<rparr>"
    using False by (simp add: begin_node_drain_def f_def Let_def)
  have f: "lc_connection (f r) = lc_connection r" "lc_session (f r) = lc_session r"
    "lc_user (f r) = lc_user r" "lc_queued_messages (f r) = lc_queued_messages r"
    "lc_queued_bytes (f r) = lc_queued_bytes r"
    "lc_user_revocation_epoch (f r) = lc_user_revocation_epoch r" for r
    by (simp_all add: f_def)
  note O = ledger_okD [OF ok]
  show ?thesis unfolding s'
  proof (rule ledger_okI)
    show "connections_ok (s\<lparr>lg_connections := fmmap f (lg_connections s)\<rparr>)"
      using O(1) by (auto simp: connections_ok_def connection_ok_def f fmap_len_def)
    show "sessions_ok (s\<lparr>lg_connections := fmmap f (lg_connections s)\<rparr>)"
      using O(2) by (auto simp: sessions_ok_def f)
    show "users_ok (s\<lparr>lg_connections := fmmap f (lg_connections s)\<rparr>)"
      using O(3) by (auto simp: users_ok_def f)
    show "presences_ok (s\<lparr>lg_connections := fmmap f (lg_connections s)\<rparr>)"
      using O(4) by (fastforce simp: presences_ok_def f)
    show "streams_ok (s\<lparr>lg_connections := fmmap f (lg_connections s)\<rparr>)"
      using O(5) by (simp add: streams_ok_def)
  qed
qed (simp add: begin_node_drain_def ok)

subsection \<open>Presences that come and go\<close>

lemma ledger_join_ok:
  assumes ok: "ledger_ok s" and run: "ledger_join request s = (s', Inr p)"
  shows "ledger_ok s'"
proof -
  note O = ledger_okD [OF ok]
  obtain r where r: "fmlookup (lg_connections s) (lj_connection request) = Some r"
    and new: "fmlookup (lg_presences s) (lp_key p) = None"
    and key: "lp_key p = (lj_stream request, lc_user r, lc_session r)"
    and room: "fmap_len (lg_presences s) < ll_max_presences (lg_limits s)"
      "fcard (index_at (lg_streams s) (lj_stream request)) < ll_max_presences_per_stream (lg_limits s)"
    and p: "lp_connection p = lj_connection request"
    and s': "s' = s\<lparr>lg_presences := fmupd (lp_key p) p (lg_presences s),
        lg_streams := index_insert (lj_stream request) (lp_key p) (lg_streams s)\<rparr>"
    using run by (auto simp: ledger_join_def Let_def fenced_iff split: if_splits)
  have absent: "lp_key p |\<notin>| index_at (lg_streams s) t" for t
    using O(5) new by (auto simp: streams_ok_def)
  show ?thesis
  proof (rule ledger_okI)
    show "connections_ok s'" using O(1) by (simp add: connections_ok_def connection_ok_def s')
    show "sessions_ok s'" using O(2) by (simp add: sessions_ok_def s')
    show "users_ok s'" using O(3) by (simp add: users_ok_def s')
    have "lp_key x = k \<and> (\<exists>r. fmlookup (lg_connections s') (lp_connection x) = Some r \<and>
        snd k = (lc_user r, lc_session r))"
      if x: "fmlookup (lg_presences s') k = Some x" for k x
    proof (cases "k = lp_key p")
      case True
      then have "x = p" using x by (simp add: s')
      then show ?thesis using r p True by (simp add: key) (simp add: s')
    next
      case False
      then have "fmlookup (lg_presences s) k = Some x" using x by (simp add: s')
      then show ?thesis using presences_okD [OF O(4), of k x] by (simp add: s')
    qed
    then show "presences_ok s'"
      by (rule presences_okI) (use room(1) new in \<open>simp_all add: s' fmap_len_upd_new\<close>)
    have "k |\<in>| index_at (lg_streams s') t \<longleftrightarrow> fst k = t \<and> fmlookup (lg_presences s') k \<noteq> None" for k t
      using O(5) key by (auto simp: streams_ok_def s')
    then show "streams_ok s'"
      using O(5) room(2) absent by (simp add: streams_ok_def) (simp add: s' fcard_finsert_new)
  qed
qed

lemma remove_presence_frame:
  "lg_limits (fst (remove_presence k s)) = lg_limits s"
  "lg_connections (fst (remove_presence k s)) = lg_connections s"
  "lg_sessions (fst (remove_presence k s)) = lg_sessions s"
  "lg_users (fst (remove_presence k s)) = lg_users s"
  "lg_user_revocation_epochs (fst (remove_presence k s)) = lg_user_revocation_epochs s"
  "lg_presences (fst (remove_presence k s)) = fmdrop k (lg_presences s)"
  by (auto simp: remove_presence_def fmdrop_idle fmdom_notI split: option.splits)

lemma remove_presence_streams: "streams_ok s \<Longrightarrow> streams_ok (fst (remove_presence k s))"
proof (cases "fmlookup (lg_presences s) k")
  case (Some p)
  assume ok: "streams_ok s"
  have "fcard (index_at (lg_streams s) (fst k) |-| {|k|}) \<le> fcard (index_at (lg_streams s) (fst k))"
    by (rule fcard_mono) auto
  also have "\<dots> \<le> ll_max_presences_per_stream (lg_limits s)" using ok by (simp add: streams_ok_def)
  finally show ?thesis
    using ok Some by (auto simp: remove_presence_def streams_ok_def)
qed (simp add: remove_presence_def)

lemma remove_presences_frame:
  "lg_limits (fold (\<lambda>k t. fst (remove_presence k t)) ks s) = lg_limits s"
  "lg_connections (fold (\<lambda>k t. fst (remove_presence k t)) ks s) = lg_connections s"
  "lg_sessions (fold (\<lambda>k t. fst (remove_presence k t)) ks s) = lg_sessions s"
  "lg_users (fold (\<lambda>k t. fst (remove_presence k t)) ks s) = lg_users s"
  "lg_user_revocation_epochs (fold (\<lambda>k t. fst (remove_presence k t)) ks s) = lg_user_revocation_epochs s"
  "fmlookup (lg_presences (fold (\<lambda>k t. fst (remove_presence k t)) ks s)) j =
     (if j \<in> set ks then None else fmlookup (lg_presences s) j)"
  by (induction ks arbitrary: s) (auto simp: remove_presence_frame)

lemma remove_presences_len:
  "fmap_len (lg_presences (fold (\<lambda>k t. fst (remove_presence k t)) ks s)) \<le> fmap_len (lg_presences s)"
proof (induction ks arbitrary: s)
  case (Cons k ks)
  have "fmap_len (lg_presences (fst (remove_presence k s))) \<le> fmap_len (lg_presences s)"
    by (simp add: remove_presence_frame fmap_len_drop_le)
  with Cons [of "fst (remove_presence k s)"] show ?case by simp
qed simp

lemma remove_presences_streams:
  "streams_ok s \<Longrightarrow> streams_ok (fold (\<lambda>k t. fst (remove_presence k t)) ks s)"
  by (induction ks arbitrary: s) (simp_all add: remove_presence_streams)

lemma remove_presence_ok:
  assumes ok: "ledger_ok s" shows "ledger_ok (fst (remove_presence k s))"
proof -
  note O = ledger_okD [OF ok] and F = remove_presence_frame [of k s]
  show ?thesis
  proof (rule ledger_okI)
    show "connections_ok (fst (remove_presence k s))" using O(1) by (simp add: connections_ok_def connection_ok_def F)
    show "sessions_ok (fst (remove_presence k s))" using O(2) by (simp add: sessions_ok_def F)
    show "users_ok (fst (remove_presence k s))" using O(3) by (simp add: users_ok_def F)
    show "presences_ok (fst (remove_presence k s))"
      using O(4) order_trans [OF fmap_len_drop_le [of k "lg_presences s"]] by (simp add: presences_ok_def F)
    show "streams_ok (fst (remove_presence k s))" by (rule remove_presence_streams [OF O(5)])
  qed
qed

lemma remove_presence_old: "remove_presence k s = (s', None) \<Longrightarrow> s' = s"
  by (auto simp: remove_presence_def split: option.splits)

text \<open>
  Closing a connection takes it out of the connections and its presences out of the presences;
  nothing else is touched.
\<close>

definition closes :: "id16 \<Rightarrow> Ledger \<Rightarrow> Ledger \<Rightarrow> bool" where
  "closes c s t \<longleftrightarrow> lg_connections t = fmdrop c (lg_connections s) \<and>
     (\<forall>k. fmlookup (lg_presences t) k = (case fmlookup (lg_presences s) k of
        None \<Rightarrow> None | Some p \<Rightarrow> if lp_connection p = c then None else Some p)) \<and>
     lg_user_revocation_epochs t = lg_user_revocation_epochs s \<and> lg_limits t = lg_limits s \<and>
     ledger_ok t"

lemma remove_connection_closes:
  assumes ok: "ledger_ok s"
  shows "closes c s (fst (remove_connection c s))"
proof (cases "fmlookup (lg_connections s) c")
  case None
  have "lp_connection p \<noteq> c" if "fmlookup (lg_presences s) j = Some p" for j p
    using presences_okD(2) [OF ledger_okD(4) [OF ok] that] None by auto
  moreover have "fst (remove_connection c s) = s" using None by (simp add: remove_connection_def)
  ultimately show ?thesis
    using ok None by (auto simp: closes_def fmdrop_idle fmdom_notI split: option.splits)
next
  case (Some r)
  note O = ledger_okD [OF ok]
  define s1 where "s1 = s\<lparr>lg_connections := fmdrop c (lg_connections s),
      lg_sessions := index_remove (lc_session r) c (lg_sessions s),
      lg_users := index_remove (lc_user r) c (lg_users s)\<rparr>"
  define ks where "ks = map (\<lambda>(_, p). lp_key p)
      (filter (\<lambda>(_, p). lp_connection p = c) (entries_in_order (lg_presences s)))"
  define t where "t = fst (remove_connection c s)"
  have t: "t = fold (\<lambda>k t. fst (remove_presence k t)) ks s1"
    using Some by (simp add: t_def remove_connection_def Let_def ks_def s1_def)
  have ks: "j \<in> set ks \<longleftrightarrow> (\<exists>p. fmlookup (lg_presences s) j = Some p \<and> lp_connection p = c)" for j
  proof
    assume "j \<in> set ks"
    then obtain i p where "fmlookup (lg_presences s) i = Some p" "lp_connection p = c" "j = lp_key p"
      by (auto simp: ks_def)
    then show "\<exists>p. fmlookup (lg_presences s) j = Some p \<and> lp_connection p = c"
      using presences_okD(1) [OF O(4)] by auto
  next
    assume "\<exists>p. fmlookup (lg_presences s) j = Some p \<and> lp_connection p = c"
    then obtain p where "fmlookup (lg_presences s) j = Some p" "lp_connection p = c" by blast
    then show "j \<in> set ks"
      using presences_okD(1) [OF O(4), of j p] by (simp add: ks_def image_iff) (rule exI [of _ "(j, p)"], simp)
  qed
  note F = remove_presences_frame [of ks s1, folded t]
  have look: "fmlookup (lg_presences t) j = (case fmlookup (lg_presences s) j of None \<Rightarrow> None
       | Some p \<Rightarrow> if lp_connection p = c then None else Some p)" for j
    using F(6) ks by (auto simp: s1_def split: option.splits)
  have "ledger_ok t"
  proof (rule ledger_okI)
    show "connections_ok t"
      using O(1) order_trans [OF fmap_len_drop_le [of c "lg_connections s"]]
      by (auto simp: connections_ok_def connection_ok_def F s1_def)
    have "fcard (index_at (lg_sessions t) k) \<le> ll_max_connections_per_session (lg_limits t)" for k
    proof -
      have "fcard (index_at (lg_sessions t) k) \<le> fcard (index_at (lg_sessions s) k)"
        by (rule fcard_mono) (auto simp: F s1_def)
      also have "\<dots> \<le> ll_max_connections_per_session (lg_limits t)"
        using O(2) by (simp add: sessions_ok_def F s1_def)
      finally show ?thesis .
    qed
    moreover have "d |\<in>| index_at (lg_sessions t) k \<longleftrightarrow>
        (\<exists>x. fmlookup (lg_connections t) d = Some x \<and> lc_session x = k)" for d k
      using O(2) Some by (auto simp: sessions_ok_def F s1_def)
    moreover have "tight (lg_sessions t)" using O(2) by (simp add: sessions_ok_def F s1_def)
    ultimately show "sessions_ok t" unfolding sessions_ok_def by blast
    show "users_ok t" using O(3) Some by (auto simp: users_ok_def F s1_def)
    have "lp_key p = j \<and> (\<exists>r. fmlookup (lg_connections t) (lp_connection p) = Some r \<and>
        snd j = (lc_user r, lc_session r))"
      if "fmlookup (lg_presences t) j = Some p" for j p
    proof -
      have "fmlookup (lg_presences s) j = Some p" "lp_connection p \<noteq> c"
        using that by (auto simp: look split: option.splits if_splits)
      then show ?thesis using presences_okD [OF O(4), of j p] by (simp add: F s1_def)
    qed
    moreover have "fmap_len (lg_presences s) \<le> ll_max_presences (lg_limits s)"
      using O(4) unfolding presences_ok_def by blast
    ultimately show "presences_ok t"
      by (rule_tac presences_okI)
        (use remove_presences_len [of ks s1, folded t] in \<open>simp_all add: F, simp_all add: s1_def\<close>)
    show "streams_ok t"
      unfolding t by (rule remove_presences_streams) (use O(5) in \<open>simp add: streams_ok_def s1_def\<close>)
  qed
  then show ?thesis
    using look F by (simp add: t_def [symmetric] closes_def) (simp add: s1_def)
qed

lemma closesD:
  assumes "closes c s t"
  shows "lg_connections t = fmdrop c (lg_connections s)"
    "fmlookup (lg_presences t) k = (case fmlookup (lg_presences s) k of
        None \<Rightarrow> None | Some p \<Rightarrow> if lp_connection p = c then None else Some p)"
    "lg_user_revocation_epochs t = lg_user_revocation_epochs s" "lg_limits t = lg_limits s" "ledger_ok t"
  using assms unfolding closes_def by blast+

lemma remove_connection_ok: "ledger_ok s \<Longrightarrow> ledger_ok (fst (remove_connection c s))"
  by (rule closesD(5) [OF remove_connection_closes])

lemma remove_connections_frame:
  assumes "ledger_ok s"
  shows "ledger_ok (fst (remove_connections cs s))"
    and "fmlookup (lg_connections (fst (remove_connections cs s))) c =
      (if c \<in> set cs then None else fmlookup (lg_connections s) c)"
    and "lg_user_revocation_epochs (fst (remove_connections cs s)) = lg_user_revocation_epochs s"
    and "lg_limits (fst (remove_connections cs s)) = lg_limits s"
proof -
  have "ledger_ok (fst (remove_connections cs s)) \<and>
    fmlookup (lg_connections (fst (remove_connections cs s))) c =
      (if c \<in> set cs then None else fmlookup (lg_connections s) c) \<and>
    lg_user_revocation_epochs (fst (remove_connections cs s)) = lg_user_revocation_epochs s \<and>
    lg_limits (fst (remove_connections cs s)) = lg_limits s"
    using assms
  proof (induction cs arbitrary: s)
    case (Cons d cs)
    note C = closesD [OF remove_connection_closes [OF Cons.prems, of d]]
    show ?case using Cons.IH [OF C(5)] C(1,3,4) by (auto simp: split_beta Let_def)
  qed simp
  then show "ledger_ok (fst (remove_connections cs s))"
    and "fmlookup (lg_connections (fst (remove_connections cs s))) c =
      (if c \<in> set cs then None else fmlookup (lg_connections s) c)"
    and "lg_user_revocation_epochs (fst (remove_connections cs s)) = lg_user_revocation_epochs s"
    and "lg_limits (fst (remove_connections cs s)) = lg_limits s"
    by simp_all
qed

subsection \<open>Revocation\<close>

text \<open>Removals do not look at the revocation epochs.\<close>

lemma remove_presence_epochs:
  "remove_presence k (s\<lparr>lg_user_revocation_epochs := e\<rparr>) =
     ((fst (remove_presence k s))\<lparr>lg_user_revocation_epochs := e\<rparr>, snd (remove_presence k s))"
  by (simp add: remove_presence_def split: option.splits)

lemma remove_presences_epochs:
  "fold (\<lambda>k t. fst (remove_presence k t)) ks (s\<lparr>lg_user_revocation_epochs := e\<rparr>) =
     (fold (\<lambda>k t. fst (remove_presence k t)) ks s)\<lparr>lg_user_revocation_epochs := e\<rparr>"
  by (induction ks arbitrary: s) (simp_all add: remove_presence_epochs)

lemma remove_connection_epochs:
  "remove_connection c (s\<lparr>lg_user_revocation_epochs := e\<rparr>) =
     ((fst (remove_connection c s))\<lparr>lg_user_revocation_epochs := e\<rparr>, snd (remove_connection c s))"
proof -
  have "fold (\<lambda>k t. fst (remove_presence k t)) ks
      (s\<lparr>lg_user_revocation_epochs := e, lg_connections := cs, lg_sessions := ss, lg_users := us\<rparr>) =
    (fold (\<lambda>k t. fst (remove_presence k t)) ks
      (s\<lparr>lg_connections := cs, lg_sessions := ss, lg_users := us\<rparr>))\<lparr>lg_user_revocation_epochs := e\<rparr>"
    for ks cs ss us
  proof -
    have "s\<lparr>lg_user_revocation_epochs := e, lg_connections := cs, lg_sessions := ss, lg_users := us\<rparr> =
        s\<lparr>lg_connections := cs, lg_sessions := ss, lg_users := us, lg_user_revocation_epochs := e\<rparr>"
      by simp
    then show ?thesis by (simp only: remove_presences_epochs)
  qed
  then show ?thesis by (simp add: remove_connection_def Let_def split: option.splits)
qed

lemma remove_connections_epochs:
  "remove_connections cs (s\<lparr>lg_user_revocation_epochs := e\<rparr>) =
     ((fst (remove_connections cs s))\<lparr>lg_user_revocation_epochs := e\<rparr>, snd (remove_connections cs s))"
  by (induction cs arbitrary: s) (simp_all add: remove_connection_epochs split_beta Let_def split: option.splits)

lemma revoke_user_run:
  assumes ok: "ledger_ok s" and run: "revoke_user user e e' s = (s', Inr closed)"
  shows "ledger_ok s'" and "lg_limits s' = lg_limits s"
    and "lg_user_revocation_epochs s' = fmupd user e' (lg_user_revocation_epochs s)"
    and "e < e'" "fmlookup (lg_user_revocation_epochs s) user = Some e \<or>
      fmlookup (lg_user_revocation_epochs s) user = None"
    and "fmlookup (lg_connections s') c = Some r \<Longrightarrow> lc_user r \<noteq> user"
proof -
  define cs where "cs = sorted_list_of_fset (index_at (lg_users s) user)"
  define t where "t = fst (remove_connections cs s)"
  have s': "s' = t\<lparr>lg_user_revocation_epochs := fmupd user e' (lg_user_revocation_epochs s)\<rparr>"
    and e: "e < e'" "fmlookup (lg_user_revocation_epochs s) user = Some e \<or>
      fmlookup (lg_user_revocation_epochs s) user = None"
    using run by (auto simp: revoke_user_def Let_def remove_connections_epochs t_def cs_def
        split_beta not_le split: if_splits option.splits)
  note F = remove_connections_frame [OF ok, of cs, folded t_def] and O = ledger_okD [OF ok]
  have gone: "lc_user r \<noteq> user" if "fmlookup (lg_connections t) c = Some r" for c r
    using that O(3) by (auto simp: F(2) cs_def users_ok_def split: if_splits)
  note T = ledger_okD [OF F(1)]
  show "ledger_ok s'"
  proof (rule ledger_okI)
    show "connections_ok s'"
      using T(1) gone by (auto simp: connections_ok_def connection_ok_def s' F(3))
    show "sessions_ok s'" using T(2) by (simp add: sessions_ok_def s')
    show "users_ok s'" using T(3) by (simp add: users_ok_def s')
    show "presences_ok s'" using T(4) by (simp add: presences_ok_def s')
    show "streams_ok s'" using T(5) by (simp add: streams_ok_def s')
  qed
  show "lg_limits s' = lg_limits s"
    "lg_user_revocation_epochs s' = fmupd user e' (lg_user_revocation_epochs s)" by (simp_all add: s' F)
  show "fmlookup (lg_connections s') c = Some r \<Longrightarrow> lc_user r \<noteq> user" using gone by (simp add: s')
qed (use assms in \<open>auto simp: revoke_user_def not_le split: if_splits option.splits\<close>)

subsection \<open>Runs\<close>

datatype LedgerOp =
    OOpen OpenConnection
  | ORebind id16 id16 u64 id16
  | OTouch id16 id16 u64 u64
  | ODrain id16
  | OJoin LedgerJoin
  | OLeave id16 id16 u64 id16
  | OReserve id16 id16 u64 u64
  | ORelease id16 id16 u64 u64
  | OClose id16 id16 u64
  | OCloseSession id16
  | ORevoke id16 u64 u64
  | OExpire u64 u64 usize

fun ledger_step :: "LedgerOp \<Rightarrow> Ledger \<Rightarrow> Ledger" where
  "ledger_step (OOpen request) s = fst (ledger_open request s)"
| "ledger_step (ORebind c n g n') s = fst (rebind c n g n' s)"
| "ledger_step (OTouch c n g now) s = fst (touch c n g now s)"
| "ledger_step (ODrain n) s = fst (begin_node_drain n s)"
| "ledger_step (OJoin request) s = fst (ledger_join request s)"
| "ledger_step (OLeave c n g stream) s = fst (ledger_leave c n g stream s)"
| "ledger_step (OReserve c n g b) s = fst (reserve_outbound c n g b s)"
| "ledger_step (ORelease c n g b) s = fst (release_outbound c n g b s)"
| "ledger_step (OClose c n g) s = fst (close_connection c n g s)"
| "ledger_step (OCloseSession x) s = fst (close_session x s)"
| "ledger_step (ORevoke u e e') s = fst (revoke_user u e e' s)"
| "ledger_step (OExpire now timeout n) s = fst (expire_idle now timeout n s)"

text \<open>The revocation epoch of a user never goes back.\<close>

definition ledger_below :: "Ledger \<Rightarrow> Ledger \<Rightarrow> bool" where
  "ledger_below s t \<longleftrightarrow> (\<forall>u e. fmlookup (lg_user_revocation_epochs s) u = Some e \<longrightarrow>
     (\<exists>e' \<ge> e. fmlookup (lg_user_revocation_epochs t) u = Some e'))"

lemma ledger_below_refl: "ledger_below s s" by (auto simp: ledger_below_def)

lemma ledger_below_trans: "ledger_below s t \<Longrightarrow> ledger_below t u \<Longrightarrow> ledger_below s u"
  unfolding ledger_below_def by (meson order_trans)

lemma ledger_below_same:
  "lg_user_revocation_epochs t = lg_user_revocation_epochs s \<Longrightarrow> ledger_below s t"
  by (auto simp: ledger_below_def)

definition advances :: "Ledger \<Rightarrow> Ledger \<Rightarrow> bool" where
  "advances s t \<longleftrightarrow> ledger_ok t \<and> ledger_below s t"

lemma quiet_advances:
  assumes "ledger_ok s" and "\<And>s' x. f = (s', Inr x) \<Longrightarrow> ledger_ok s'"
    and "\<And>s' x. f = (s', Inr x) \<Longrightarrow> ledger_below s s'"
    and "\<And>s' e. f = (s', Inl e) \<Longrightarrow> s' = s"
  shows "advances s (fst f)"
  using assms by (cases f; cases "snd f") (auto simp: advances_def ledger_below_refl)

lemma put_epochs [simp]: "lg_user_revocation_epochs (put_connection c r s) = lg_user_revocation_epochs s"
  by (simp add: put_connection_def)

lemma rebind_advances: "ledger_ok s \<Longrightarrow> advances s (fst (rebind c n g n' s))"
  by (rule quiet_advances, assumption, erule (1) rebind_ok)
    (auto simp: rebind_def Let_def intro: ledger_below_same)

lemma touch_advances: "ledger_ok s \<Longrightarrow> advances s (fst (touch c n g now s))"
  by (rule quiet_advances, assumption, erule (1) touch_ok)
    (auto simp: touch_def Let_def intro: ledger_below_same)

lemma reserve_advances: "ledger_ok s \<Longrightarrow> advances s (fst (reserve_outbound c n g b s))"
  by (rule quiet_advances, assumption, erule (1) reserve_outbound_ok)
    (auto simp: reserve_outbound_def Let_def intro: ledger_below_same)

lemma release_advances: "ledger_ok s \<Longrightarrow> advances s (fst (release_outbound c n g b s))"
  by (rule quiet_advances, assumption, erule (1) release_outbound_ok)
    (auto simp: release_outbound_def Let_def intro: ledger_below_same)

lemma open_advances: "ledger_ok s \<Longrightarrow> advances s (fst (ledger_open request s))"
  by (rule quiet_advances, assumption, erule (1) ledger_open_ok)
    (auto simp: ledger_open_def Let_def ledger_below_def split: if_splits option.splits)

lemma join_advances: "ledger_ok s \<Longrightarrow> advances s (fst (ledger_join request s))"
  by (rule quiet_advances, assumption, erule (1) ledger_join_ok)
    (auto simp: ledger_join_def Let_def intro: ledger_below_same split: if_splits)

lemma leave_advances: "ledger_ok s \<Longrightarrow> advances s (fst (ledger_leave c n g stream s))"
  using remove_presence_ok [of s] remove_presence_frame(5) [of _ s]
  by (auto simp: ledger_leave_def advances_def ledger_below_refl split: sum.splits prod.splits option.splits
      intro: ledger_below_same) (metis fst_conv ledger_below_same)+

lemma removals_advance:
  assumes ok: "ledger_ok s"
  shows "advances s (fst (remove_connection c s))" "advances s (fst (remove_connections cs s))"
  using closesD(3,5) [OF remove_connection_closes [OF ok]] remove_connections_frame [OF ok]
  by (simp_all add: advances_def ledger_below_same)

lemma close_advances: "ledger_ok s \<Longrightarrow> advances s (fst (close_connection c n g s))"
  using removals_advance(1) [of s c]
  by (auto simp: close_connection_def advances_def ledger_below_refl split: sum.splits prod.splits option.splits)

lemma close_many_advance:
  "ledger_ok s \<Longrightarrow> advances s (fst (close_session x s))"
  "ledger_ok s \<Longrightarrow> advances s (fst (expire_idle now timeout n s))"
  using removals_advance(2) [of s]
  by (auto simp: close_session_def expire_idle_def Let_def split_beta advances_def ledger_below_refl)

lemma revoke_advances: "ledger_ok s \<Longrightarrow> advances s (fst (revoke_user u e e' s))"
proof (cases "revoke_user u e e' s")
  case (Pair s' x)
  assume ok: "ledger_ok s"
  show ?thesis
  proof (cases x)
    case (Inl e)
    then have "s' = s" using Pair by (auto simp: revoke_user_def Let_def split_beta split: if_splits)
    then show ?thesis using Pair ok by (simp add: advances_def ledger_below_refl)
  next
    case (Inr r)
    note R = revoke_user_run [OF ok Pair [unfolded Inr]]
    then have "ledger_below s s'" by (auto simp: ledger_below_def intro: less_imp_le)
    then show ?thesis using Pair R(1) by (simp add: advances_def)
  qed
qed

lemma drain_advances: "ledger_ok s \<Longrightarrow> advances s (fst (begin_node_drain n s))"
  using begin_node_drain_ok [of s n]
  by (auto simp: advances_def begin_node_drain_def Let_def intro!: ledger_below_same)

lemma ledger_step_advances: "ledger_ok s \<Longrightarrow> advances s (ledger_step x s)"
  by (cases x) (simp_all add: open_advances rebind_advances touch_advances reserve_advances release_advances
      drain_advances join_advances
      leave_advances close_advances close_many_advance revoke_advances)

interpretation ledger: monotone_machine ledger_step ledger_ok ledger_below
  by unfold_locales
    (use ledger_step_advances ledger_below_refl ledger_below_trans in \<open>auto simp: advances_def\<close>)

end
