(* ===== verification/Connection_Ledger_Properties.thy ===== *)
theory Connection_Ledger_Properties
  imports Connection_Ledger_Proofs
begin

text \<open>
  The properties of the connection and presence ledger that follow from its invariant, with
  witnesses: a ledger with one connection that has joined a stream.
\<close>

lemma ledger_run_ok: "ledger_new limits = Inr s0 \<Longrightarrow> ledger_ok (fold ledger_step ops s0)"
  by (intro ledger.run_inv ledger_new_ok)

text \<open>
  C37: The ledger is well formed after any operations, failed ones included: every index set is
  exactly the set of entries it indexes and is never empty, every presence belongs to an open
  connection of its user and session and is stored under its own key, every connection carries
  the current revocation epoch of its user, no queue is over its budget, and the numbers of
  connections, of connections per session, of presences and of presences per stream keep to
  their limits.
\<close>

theorem ledger_well_formed:
  assumes "ledger_new limits = Inr s0"
  shows "ledger_ok (fold ledger_step ops s0)"
  using assms by (rule ledger_run_ok)

lemma recipients_keys:
  assumes ok: "ledger_ok s" and ks_def: "ks = sorted_list_of_fset (index_at (lg_streams s) stream)"
  shows "recipients s stream =
    map (\<lambda>k. target (the (fmlookup (lg_connections s) (lp_connection (the (fmlookup (lg_presences s) k)))))) ks"
proof -
  note O = ledger_okD [OF ok]
  have "\<exists>p r. fmlookup (lg_presences s) k = Some p \<and> fmlookup (lg_connections s) (lp_connection p) = Some r"
    if "k \<in> set ks" for k
  proof -
    from that O(5) obtain p where "fmlookup (lg_presences s) k = Some p"
      by (auto simp: ks_def streams_ok_def)
    with presences_okD(2) [OF O(4) this] show ?thesis by blast
  qed
  then have "map target (List.map_filter (\<lambda>p. fmlookup (lg_connections s) (lp_connection p))
      (List.map_filter (fmlookup (lg_presences s)) ks)) =
    map (\<lambda>k. target (the (fmlookup (lg_connections s) (lp_connection (the (fmlookup (lg_presences s) k)))))) ks"
    by (induction ks) (force simp: List.map_filter_simps)+
  then show ?thesis by (simp add: recipients_def ks_def)
qed

text \<open>
  C38: The messages of a stream go to its members: after any operations, the recipients of a
  stream are exactly the routes of the open connections that hold a presence of the stream, and
  no connection is listed twice.
\<close>

theorem messages_reach_members:
  assumes new: "ledger_new limits = Inr s0" and s: "s = fold ledger_step ops s0"
  shows "set (recipients s stream) = {target r | c r p. fmlookup (lg_connections s) c = Some r \<and>
      fmlookup (lg_presences s) (stream, lc_user r, lc_session r) = Some p \<and> lp_connection p = c} \<and>
    distinct (map rt_connection (recipients s stream))"
proof -
  have ok: "ledger_ok s" using ledger_run_ok [OF new] s by simp
  note O = ledger_okD [OF ok]
  define ks where "ks = sorted_list_of_fset (index_at (lg_streams s) stream)"
  define conn where "conn = (\<lambda>k. lp_connection (the (fmlookup (lg_presences s) k)))"
  have rec: "recipients s stream = map (\<lambda>k. target (the (fmlookup (lg_connections s) (conn k)))) ks"
    using recipients_keys [OF ok ks_def] by (simp add: conn_def)
  have ks: "k \<in> set ks \<longleftrightarrow> fst k = stream \<and> fmlookup (lg_presences s) k \<noteq> None" for k
    using O(5) by (simp add: ks_def streams_ok_def)
  have member: "\<exists>p r. fmlookup (lg_presences s) k = Some p \<and> conn k = lp_connection p \<and>
      fmlookup (lg_connections s) (conn k) = Some r \<and> k = (stream, lc_user r, lc_session r) \<and>
      lc_connection r = conn k"
    if k: "k \<in> set ks" for k
  proof -
    obtain p where p: "fmlookup (lg_presences s) k = Some p" "fst k = stream" using k ks by auto
    obtain r where r: "fmlookup (lg_connections s) (lp_connection p) = Some r"
      "snd k = (lc_user r, lc_session r)"
      using presences_okD(2) [OF O(4) p(1)] by blast
    have "k = (stream, lc_user r, lc_session r)" using p(2) r(2) by (simp add: prod_eq_iff)
    moreover have "lc_connection r = lp_connection p"
      using connections_okD [OF O(1) r(1)] by (simp add: connection_ok_def)
    ultimately show ?thesis using p r by (auto simp: conn_def)
  qed
  have "inj_on conn (set ks)"
  proof (rule inj_onI)
    fix j k assume "j \<in> set ks" "k \<in> set ks" "conn j = conn k"
    then show "j = k" using member [of j] member [of k] by auto
  qed
  moreover have "distinct ks" by (simp add: ks_def sorted_list_of_fset.rep_eq)
  moreover have "map rt_connection (recipients s stream) = map conn ks"
  proof -
    have "rt_connection (target (the (fmlookup (lg_connections s) (conn k)))) = conn k"
      if "k \<in> set ks" for k
      using member [OF that] by (auto simp: target_def)
    then show ?thesis by (simp add: rec)
  qed
  ultimately have "distinct (map rt_connection (recipients s stream))" by (simp add: distinct_map)
  moreover have "set (recipients s stream) = {target r | c r p. fmlookup (lg_connections s) c = Some r \<and>
      fmlookup (lg_presences s) (stream, lc_user r, lc_session r) = Some p \<and> lp_connection p = c}"
  proof (intro equalityI subsetI)
    fix x assume "x \<in> set (recipients s stream)"
    then obtain k where "k \<in> set ks" "x = target (the (fmlookup (lg_connections s) (conn k)))"
      by (auto simp: rec)
    moreover obtain p r where "fmlookup (lg_presences s) k = Some p" "conn k = lp_connection p"
      "fmlookup (lg_connections s) (conn k) = Some r" "k = (stream, lc_user r, lc_session r)"
      using member [OF \<open>k \<in> set ks\<close>] by blast
    ultimately show "x \<in> {target r | c r p. fmlookup (lg_connections s) c = Some r \<and>
      fmlookup (lg_presences s) (stream, lc_user r, lc_session r) = Some p \<and> lp_connection p = c}" by auto
  next
    fix x assume "x \<in> {target r | c r p. fmlookup (lg_connections s) c = Some r \<and>
      fmlookup (lg_presences s) (stream, lc_user r, lc_session r) = Some p \<and> lp_connection p = c}"
    then obtain r p where "fmlookup (lg_connections s) (lp_connection p) = Some r" "x = target r"
      "fmlookup (lg_presences s) (stream, lc_user r, lc_session r) = Some p" by auto
    then show "x \<in> set (recipients s stream)"
      by (auto simp: rec ks conn_def image_iff intro!: bexI [of _ "(stream, lc_user r, lc_session r)"])
  qed
  ultimately show ?thesis by blast
qed

text \<open>
  C39: A revoked user is out and stays out: a revocation closes every connection of the user and
  removes every presence; after any further operations every connection of the user was opened
  with the new revocation epoch or a later one, and opening a connection with an older epoch is
  refused and changes nothing.
\<close>

theorem revoked_user_stays_out:
  assumes new: "ledger_new limits = Inr s0" and s: "s = fold ledger_step ops s0"
    and revoke: "revoke_user user e e' s = (s', Inr closed)"
    and t: "t = fold ledger_step later s'"
  shows "(\<forall>c r. fmlookup (lg_connections s') c = Some r \<longrightarrow> lc_user r \<noteq> user) \<and>
    (\<forall>stream x. fmlookup (lg_presences s') (stream, user, x) = None) \<and>
    (\<forall>c r. fmlookup (lg_connections t) c = Some r \<and> lc_user r = user \<longrightarrow> e' \<le> lc_user_revocation_epoch r) \<and>
    (\<forall>request. oc_user request = user \<and> oc_user_revocation_epoch request < e' \<longrightarrow>
       (\<exists>err. ledger_open request t = (t, Inl err)))"
proof -
  have ok: "ledger_ok s" using ledger_run_ok [OF new] s by simp
  note R = revoke_user_run [OF ok revoke]
  have tok: "ledger_ok t" using ledger.run_inv [OF R(1)] by (simp add: t)
  have "ledger_below s' t" using ledger.run_below [OF R(1)] by (simp add: t)
  then obtain f where f: "fmlookup (lg_user_revocation_epochs t) user = Some f" "e' \<le> f"
    using R(3) unfolding ledger_below_def by (metis fmupd_lookup)
  have gone: "fmlookup (lg_presences s') (stream, user, x) = None" for stream x
  proof (rule ccontr)
    assume "fmlookup (lg_presences s') (stream, user, x) \<noteq> None"
    then obtain p where "fmlookup (lg_presences s') (stream, user, x) = Some p" by auto
    then obtain r where "fmlookup (lg_connections s') (lp_connection p) = Some r" "lc_user r = user"
      using presences_okD(2) [OF ledger_okD(4) [OF R(1)]] by fastforce
    with R(6) show False by blast
  qed
  have later_conn: "e' \<le> lc_user_revocation_epoch r"
    if "fmlookup (lg_connections t) c = Some r" "lc_user r = user" for c r
    using connections_okD [OF ledger_okD(1) [OF tok] that(1)] f that(2) by (simp add: connection_ok_def)
  have refused: "\<exists>err. ledger_open request t = (t, Inl err)"
    if "oc_user request = user" "oc_user_revocation_epoch request < e'" for request
    using that f by (cases "validate_open request") (auto simp: ledger_open_def Let_def)
  show ?thesis
    by (intro conjI allI impI) (use R(6) gone later_conn refused in blast)+
qed

subsection \<open>Witnesses\<close>

definition wit_open :: OpenConnection where
  "wit_open = \<lparr>oc_connection = 1, oc_session = 2, oc_user = 3, oc_node = 4, oc_route_generation = 1,
     oc_user_revocation_epoch = 0, oc_now_ms = 0\<rparr>"

definition wit_join :: LedgerJoin where
  "wit_join = \<lparr>lj_connection = 1, lj_node = 4, lj_route_generation = 1, lj_stream = 5,
     lj_username = [97], lj_status = [], lj_hidden = False, lj_persistence = False\<rparr>"

definition wit_ledger :: Ledger where
  "wit_ledger = \<lparr>lg_limits = LedgerLimits_default, lg_connections = fmempty, lg_sessions = fmempty,
     lg_users = fmempty, lg_user_revocation_epochs = fmempty, lg_presences = fmempty,
     lg_streams = fmempty\<rparr>"

lemma wit_ledger_new: "ledger_new LedgerLimits_default = Inr wit_ledger"
  by (simp add: ledger_new_def limits_validate_def LedgerLimits_default_def wit_ledger_def)

lemma wit_ledger_run:
  "\<exists>r. fmlookup (lg_connections (fold ledger_step [OOpen wit_open, OJoin wit_join] wit_ledger)) 1 = Some r \<and>
     lc_user r = 3 \<and> lc_session r = 2 \<and>
   fmlookup (lg_user_revocation_epochs (fold ledger_step [OOpen wit_open, OJoin wit_join] wit_ledger)) 3 = Some 0 \<and>
   (\<exists>p. fmlookup (lg_presences (fold ledger_step [OOpen wit_open, OJoin wit_join] wit_ledger)) (5, 3, 2) = Some p \<and>
     lp_connection p = 1)"
  by (simp add: ledger_open_def ledger_join_def wit_open_def wit_join_def wit_ledger_def validate_open_def
      LedgerLimits_default_def Let_def fenced_def route_fence_def str_len_def char_len_utf8_def fcard.rep_eq)

theorem ledger_well_formed_witness:
  "ledger_ok (fold ledger_step [OOpen wit_open, OJoin wit_join] wit_ledger) \<and>
   fmlookup (lg_presences (fold ledger_step [OOpen wit_open, OJoin wit_join] wit_ledger)) (5, 3, 2) \<noteq> None"
  using ledger_well_formed [OF wit_ledger_new, of "[OOpen wit_open, OJoin wit_join]"] wit_ledger_run by auto

theorem messages_reach_members_witness:
  "recipients (fold ledger_step [OOpen wit_open, OJoin wit_join] wit_ledger) 5 \<noteq> []"
proof -
  let ?s = "fold ledger_step [OOpen wit_open, OJoin wit_join] wit_ledger"
  obtain r p where "fmlookup (lg_connections ?s) 1 = Some r" "lc_user r = 3" "lc_session r = 2"
    "fmlookup (lg_presences ?s) (5, 3, 2) = Some p" "lp_connection p = 1"
    using wit_ledger_run by blast
  then have "target r \<in> set (recipients ?s 5)"
    unfolding messages_reach_members [OF wit_ledger_new refl, THEN conjunct1] mem_Collect_eq
    by (intro exI [of _ r] exI [of _ 1] exI [of _ p]) (simp del: fold.simps)
  then show ?thesis by auto
qed

theorem revoked_user_stays_out_witness:
  "\<exists>t err. ledger_open wit_open t = (t, Inl err)"
proof -
  let ?s = "fold ledger_step [OOpen wit_open, OJoin wit_join] wit_ledger"
  obtain s' closed where "revoke_user 3 0 1 ?s = (s', Inr closed)"
    using wit_ledger_run by (auto simp: revoke_user_def Let_def split_beta)
  from revoked_user_stays_out [OF wit_ledger_new refl this refl, of "[]"]
  show ?thesis by (intro exI [of _ s']) (auto simp: wit_open_def)
qed

end
