(* ===== verification/Migration_Fence.thy ===== *)
theory Migration_Fence
  imports Contracts
begin

text \<open>
  The migration fence (\<open>crates/trnm-persistence-core/src/migration_fence.rs\<close>): the stages of a
  migration from a source to a target store, from the snapshot over catch-up, the comparison of
  both sides, the write fence and the canary to the retirement of the source, with rollback and
  re-entry. A method that changes the fence returns it with its result.
\<close>

subsection \<open>Values\<close>

datatype MigrationPhase =
    SourcePrimary | SnapshotSealed | CatchingUp | ShadowVerified | WriteFenced
  | PhaseCanary u16
  | TargetPrimary | SourceReadOnly | PhaseRetired | RolledBack

datatype AuthorityMode = SourceOnly | ModeFenced | ModeCanary u16 | TargetOnly | ModeRetired

datatype MigrationFenceError =
    ZeroDigest
  | ZeroFenceEpoch
  | InvalidIdentity
  | InvalidPhase string MigrationPhase
  | CursorRegression string u64 u64
  | TargetAheadOfSource u64 u64
  | CatchUpIncomplete u64 u64
  | SemanticMismatch
  | NonIncreasingFenceEpoch "u64 option" u64
  | InvalidCanaryBasisPoints u16
  | CanaryRegression u16 u16
  | CanaryIncomplete u16
  | ReceiptMissing string
  | RetirementIsTerminal

definition MigrationDigest_new :: "digest32 \<Rightarrow> MigrationFenceError + digest32" where
  "MigrationDigest_new d = (if id_is_zero d then Inl ZeroDigest else Inr d)"

definition FenceEpoch_new :: "u64 \<Rightarrow> MigrationFenceError + u64" where
  "FenceEpoch_new n = (if n = 0 then Inl ZeroFenceEpoch else Inr n)"

record MigrationIdentity =
  mi_source_schema :: digest32
  mi_target_schema :: digest32
  mi_mapping :: digest32

record MigrationFence =
  mf_identity :: MigrationIdentity
  mf_phase :: MigrationPhase
  mf_source_cursor :: u64
  mf_target_cursor :: u64
  mf_snapshot_digest :: "digest32 option"
  mf_semantic_digest :: "digest32 option"
  mf_fence_epoch :: "u64 option"
  mf_cutover_receipt :: "digest32 option"
  mf_source_read_only_receipt :: "digest32 option"
  mf_rollback_receipt :: "digest32 option"
  mf_retirement_receipt :: "digest32 option"
  mf_verified_cursor :: "u64 option"

definition fence_new :: "MigrationIdentity \<Rightarrow> MigrationFenceError + MigrationFence" where
  "fence_new identity =
     (if mi_source_schema identity = mi_target_schema identity then Inl InvalidIdentity
      else Inr \<lparr>mf_identity = identity, mf_phase = SourcePrimary, mf_source_cursor = 0,
        mf_target_cursor = 0, mf_snapshot_digest = None, mf_semantic_digest = None,
        mf_fence_epoch = None, mf_cutover_receipt = None, mf_source_read_only_receipt = None,
        mf_rollback_receipt = None, mf_retirement_receipt = None, mf_verified_cursor = None\<rparr>)"

fun phase_mode :: "MigrationPhase \<Rightarrow> AuthorityMode" where
  "phase_mode SourcePrimary = SourceOnly"
| "phase_mode SnapshotSealed = SourceOnly"
| "phase_mode CatchingUp = SourceOnly"
| "phase_mode ShadowVerified = SourceOnly"
| "phase_mode RolledBack = SourceOnly"
| "phase_mode WriteFenced = ModeFenced"
| "phase_mode (PhaseCanary points) = ModeCanary points"
| "phase_mode TargetPrimary = TargetOnly"
| "phase_mode SourceReadOnly = TargetOnly"
| "phase_mode PhaseRetired = ModeRetired"

definition authority_mode :: "MigrationFence \<Rightarrow> AuthorityMode" where
  "authority_mode s = phase_mode (mf_phase s)"

subsection \<open>Checks\<close>

definition require_phase ::
    "string \<Rightarrow> MigrationPhase set \<Rightarrow> MigrationFence \<Rightarrow> MigrationFenceError + unit" where
  "require_phase expected phases s =
     (if mf_phase s \<in> phases then Inr () else Inl (InvalidPhase expected (mf_phase s)))"

definition require_current_shadow_verification :: "MigrationFence \<Rightarrow> MigrationFenceError + unit" where
  "require_current_shadow_verification s =
     (if mf_source_cursor s \<noteq> mf_target_cursor s
      then Inl (CatchUpIncomplete (mf_source_cursor s) (mf_target_cursor s))
      else if mf_semantic_digest s = None \<or> mf_verified_cursor s \<noteq> Some (mf_source_cursor s)
      then Inl (InvalidPhase ''current-cut shadow verification'' (mf_phase s)) else Inr ())"

definition epoch_not_after :: "u64 \<Rightarrow> MigrationFence \<Rightarrow> bool" where
  "epoch_not_after epoch s \<longleftrightarrow> (case mf_fence_epoch s of None \<Rightarrow> False | Some current \<Rightarrow> epoch \<le> current)"

subsection \<open>Cursors and comparison\<close>

definition advance_source :: "u64 \<Rightarrow> MigrationFence \<Rightarrow> MigrationFence \<times> (MigrationFenceError + unit)" where
  "advance_source cursor s =
     (if mf_phase s = PhaseRetired then (s, Inl RetirementIsTerminal)
      else if cursor < mf_source_cursor s
      then (s, Inl (CursorRegression ''source'' (mf_source_cursor s) cursor))
      else if cursor = mf_source_cursor s then (s, Inr ())
      else if mf_phase s \<in> {SourcePrimary, SnapshotSealed, CatchingUp, RolledBack}
      then (s\<lparr>mf_source_cursor := cursor\<rparr>, Inr ())
      else if mf_phase s = ShadowVerified
      then (s\<lparr>mf_source_cursor := cursor, mf_semantic_digest := None, mf_verified_cursor := None,
              mf_phase := CatchingUp\<rparr>, Inr ())
      else (s, Inl (InvalidPhase ''source-authoritative unfenced phase'' (mf_phase s))))"

definition seal_snapshot ::
    "u64 \<Rightarrow> digest32 \<Rightarrow> MigrationFence \<Rightarrow> MigrationFence \<times> (MigrationFenceError + unit)" where
  "seal_snapshot cursor digest s =
     (case require_phase ''SourcePrimary'' {SourcePrimary} s of
        Inl e \<Rightarrow> (s, Inl e)
      | Inr _ \<Rightarrow>
          (case advance_source cursor s of
             (s', Inl e) \<Rightarrow> (s', Inl e)
           | (s', Inr _) \<Rightarrow>
               (s'\<lparr>mf_snapshot_digest := Some digest, mf_semantic_digest := None,
                   mf_verified_cursor := None, mf_phase := SnapshotSealed\<rparr>, Inr ())))"

definition advance_target :: "u64 \<Rightarrow> MigrationFence \<Rightarrow> MigrationFence \<times> (MigrationFenceError + unit)" where
  "advance_target cursor s = commit_candidate s (
     tryE (require_phase ''SnapshotSealed or CatchingUp'' {SnapshotSealed, CatchingUp} s) (\<lambda>_.
     if cursor < mf_target_cursor s
     then Inl (CursorRegression ''target'' (mf_target_cursor s) cursor)
     else if cursor > mf_source_cursor s
     then Inl (TargetAheadOfSource (mf_source_cursor s) cursor)
     else Inr (s\<lparr>mf_target_cursor := cursor, mf_semantic_digest := None, mf_verified_cursor := None,
                mf_phase := CatchingUp\<rparr>, ())))"

definition verify_shadow ::
    "digest32 \<Rightarrow> digest32 \<Rightarrow> MigrationFence \<Rightarrow> MigrationFence \<times> (MigrationFenceError + unit)" where
  "verify_shadow source_semantic_digest target_semantic_digest s = commit_candidate s (
     tryE (require_phase ''CatchingUp'' {CatchingUp} s) (\<lambda>_.
     if mf_source_cursor s \<noteq> mf_target_cursor s
     then Inl (CatchUpIncomplete (mf_source_cursor s) (mf_target_cursor s))
     else if source_semantic_digest \<noteq> target_semantic_digest then Inl SemanticMismatch
     else Inr (s\<lparr>mf_semantic_digest := Some source_semantic_digest,
                mf_verified_cursor := Some (mf_source_cursor s), mf_phase := ShadowVerified\<rparr>, ())))"

subsection \<open>Cutover\<close>

definition activate_write_fence ::
    "u64 \<Rightarrow> digest32 \<Rightarrow> MigrationFence \<Rightarrow> MigrationFence \<times> (MigrationFenceError + unit)" where
  "activate_write_fence epoch fence_receipt s = commit_candidate s (
     tryE (require_phase ''ShadowVerified'' {ShadowVerified} s) (\<lambda>_.
     tryE (require_current_shadow_verification s) (\<lambda>_.
     if epoch_not_after epoch s then Inl (NonIncreasingFenceEpoch (mf_fence_epoch s) epoch)
     else if id_is_zero fence_receipt then Inl (ReceiptMissing ''write-fence'')
     else Inr (s\<lparr>mf_fence_epoch := Some epoch, mf_phase := WriteFenced\<rparr>, ()))))"

definition set_canary :: "u16 \<Rightarrow> MigrationFence \<Rightarrow> MigrationFence \<times> (MigrationFenceError + unit)" where
  "set_canary target_basis_points s = commit_candidate s (
     if \<not> (1 \<le> target_basis_points \<and> target_basis_points \<le> 10000)
     then Inl (InvalidCanaryBasisPoints target_basis_points)
     else
     tryE (case mf_phase s of WriteFenced \<Rightarrow> Inr 0 | PhaseCanary points \<Rightarrow> Inr points
           | observed \<Rightarrow> Inl (InvalidPhase ''WriteFenced or Canary'' observed)) (\<lambda>current.
     tryE (require_current_shadow_verification s) (\<lambda>_.
     if target_basis_points < current then Inl (CanaryRegression current target_basis_points)
     else Inr (s\<lparr>mf_phase := PhaseCanary target_basis_points\<rparr>, ()))))"

definition promote_target :: "digest32 \<Rightarrow> MigrationFence \<Rightarrow> MigrationFence \<times> (MigrationFenceError + unit)" where
  "promote_target cutover_receipt s = commit_candidate s (
     tryE (case mf_phase s of PhaseCanary points \<Rightarrow> Inr points
           | observed \<Rightarrow> Inl (InvalidPhase ''Canary at 10000 basis points'' observed)) (\<lambda>points.
     tryE (require_current_shadow_verification s) (\<lambda>_.
     if points \<noteq> 10000 then Inl (CanaryIncomplete points)
     else Inr (s\<lparr>mf_cutover_receipt := Some cutover_receipt, mf_phase := TargetPrimary\<rparr>, ()))))"

definition mark_source_read_only ::
    "digest32 \<Rightarrow> MigrationFence \<Rightarrow> MigrationFence \<times> (MigrationFenceError + unit)" where
  "mark_source_read_only receipt s = commit_candidate s (
     tryE (require_phase ''TargetPrimary'' {TargetPrimary} s) (\<lambda>_.
     Inr (s\<lparr>mf_source_read_only_receipt := Some receipt, mf_phase := SourceReadOnly\<rparr>, ())))"

definition retire_source ::
    "digest32 \<Rightarrow> MigrationFence \<Rightarrow> MigrationFence \<times> (MigrationFenceError + unit)" where
  "retire_source retirement_receipt s = commit_candidate s (
     tryE (require_phase ''SourceReadOnly'' {SourceReadOnly} s) (\<lambda>_.
     Inr (s\<lparr>mf_retirement_receipt := Some retirement_receipt, mf_phase := PhaseRetired\<rparr>, ())))"

subsection \<open>Rollback and re-entry\<close>

definition resume_after_rollback ::
    "u64 \<Rightarrow> MigrationFence \<Rightarrow> MigrationFence \<times> (MigrationFenceError + unit)" where
  "resume_after_rollback source_cursor s = commit_candidate s (
     tryE (require_phase ''RolledBack'' {RolledBack} s) (\<lambda>_.
     if source_cursor < mf_source_cursor s
     then Inl (CursorRegression ''source'' (mf_source_cursor s) source_cursor)
     else Inr (s\<lparr>mf_source_cursor := source_cursor, mf_target_cursor := 0, mf_semantic_digest := None,
                mf_verified_cursor := None, mf_cutover_receipt := None,
                mf_source_read_only_receipt := None, mf_retirement_receipt := None,
                mf_phase := CatchingUp\<rparr>, ())))"

fun phase_fenced :: "MigrationPhase \<Rightarrow> bool" where
  "phase_fenced WriteFenced = True"
| "phase_fenced (PhaseCanary _) = True"
| "phase_fenced TargetPrimary = True"
| "phase_fenced SourceReadOnly = True"
| "phase_fenced _ = False"

definition rollback ::
    "u64 \<Rightarrow> digest32 \<Rightarrow> MigrationFence \<Rightarrow> MigrationFence \<times> (MigrationFenceError + unit)" where
  "rollback rollback_epoch rollback_receipt s = commit_candidate s (
     if mf_phase s = PhaseRetired then Inl RetirementIsTerminal
     else if \<not> phase_fenced (mf_phase s)
     then Inl (InvalidPhase ''fenced, canary, target-primary or source-read-only'' (mf_phase s))
     else if epoch_not_after rollback_epoch s
     then Inl (NonIncreasingFenceEpoch (mf_fence_epoch s) rollback_epoch)
     else Inr (s\<lparr>mf_fence_epoch := Some rollback_epoch, mf_rollback_receipt := Some rollback_receipt,
                mf_semantic_digest := None, mf_verified_cursor := None, mf_phase := RolledBack\<rparr>, ()))"

end
