(* ===== verification/Migration_Fence_Proofs.thy ===== *)
theory Migration_Fence_Proofs
  imports Migration_Fence Machine
begin

text \<open>
  Correctness of the migration fence: the phases follow the protocol and none is skipped, the
  target has authority only over a cut at which both sides were compared, and the fence epochs
  that are accepted strictly increase across rollbacks.
\<close>

subsection \<open>Runs\<close>

datatype FenceOp =
    AdvanceSource u64
  | SealSnapshot u64 digest32
  | AdvanceTarget u64
  | VerifyShadow digest32 digest32
  | ActivateWriteFence u64 digest32
  | SetCanary u16
  | PromoteTarget digest32
  | MarkSourceReadOnly digest32
  | RetireSource digest32
  | Rollback u64 digest32
  | ResumeAfterRollback u64

fun fence_exec :: "FenceOp \<Rightarrow> MigrationFence \<Rightarrow> MigrationFence \<times> (MigrationFenceError + unit)" where
  "fence_exec (AdvanceSource c) s = advance_source c s"
| "fence_exec (SealSnapshot c d) s = seal_snapshot c d s"
| "fence_exec (AdvanceTarget c) s = advance_target c s"
| "fence_exec (VerifyShadow a b) s = verify_shadow a b s"
| "fence_exec (ActivateWriteFence e r) s = activate_write_fence e r s"
| "fence_exec (SetCanary n) s = set_canary n s"
| "fence_exec (PromoteTarget r) s = promote_target r s"
| "fence_exec (MarkSourceReadOnly r) s = mark_source_read_only r s"
| "fence_exec (RetireSource r) s = retire_source r s"
| "fence_exec (Rollback e r) s = rollback e r s"
| "fence_exec (ResumeAfterRollback c) s = resume_after_rollback c s"

definition fence_step :: "FenceOp \<Rightarrow> MigrationFence \<Rightarrow> MigrationFence" where
  "fence_step x s = fst (fence_exec x s)"

lemmas fence_defs = advance_source_def seal_snapshot_def advance_target_def verify_shadow_def
  activate_write_fence_def set_canary_def promote_target_def mark_source_read_only_def
  retire_source_def rollback_def resume_after_rollback_def require_phase_def
  require_current_shadow_verification_def epoch_not_after_def commit_candidate_def tryE_def

lemma fence_failed: "fence_exec x s = (s', Inl e) \<Longrightarrow> s' = s"
  by (cases x) (auto simp: fence_defs split: if_splits option.splits sum.splits MigrationPhase.splits)

subsection \<open>The protocol\<close>

text \<open>The phases that may follow each other.\<close>

inductive phase_edge :: "MigrationPhase \<Rightarrow> MigrationPhase \<Rightarrow> bool" where
  Seal: "phase_edge SourcePrimary SnapshotSealed"
| CatchUp: "phase_edge SnapshotSealed CatchingUp"
| Compare: "phase_edge CatchingUp ShadowVerified"
| Outdated: "phase_edge ShadowVerified CatchingUp"
| Fence: "phase_edge ShadowVerified WriteFenced"
| FirstCanary: "n \<noteq> 0 \<Longrightarrow> n \<le> 10000 \<Longrightarrow> phase_edge WriteFenced (PhaseCanary n)"
| MoreCanary: "m < n \<Longrightarrow> n \<le> 10000 \<Longrightarrow> phase_edge (PhaseCanary m) (PhaseCanary n)"
| Promote: "phase_edge (PhaseCanary 10000) TargetPrimary"
| ReadOnly: "phase_edge TargetPrimary SourceReadOnly"
| Retire: "phase_edge SourceReadOnly PhaseRetired"
| RollBack: "phase_fenced p \<Longrightarrow> phase_edge p RolledBack"
| Resume: "phase_edge RolledBack CatchingUp"

inductive_cases phase_edgeE: "phase_edge p q"
inductive_simps phase_edge_simps: "phase_edge p PhaseRetired" "phase_edge PhaseRetired q"
  "phase_edge p TargetPrimary" "phase_edge p WriteFenced"

lemma step_edge: "mf_phase (fence_step x s) = mf_phase s \<or> phase_edge (mf_phase s) (mf_phase (fence_step x s))"
  by (cases x) (auto simp: fence_step_def fence_defs not_less order.order_iff_strict
      intro: phase_edge.intros split: if_splits option.splits sum.splits MigrationPhase.splits)

subsection \<open>The comparison certificate\<close>

definition fence_ok :: "MigrationFence \<Rightarrow> bool" where
  "fence_ok s \<longleftrightarrow> mf_target_cursor s \<le> mf_source_cursor s \<and>
     (mf_phase s = ShadowVerified \<or> phase_fenced (mf_phase s) \<or> mf_phase s = PhaseRetired \<longrightarrow>
        mf_source_cursor s = mf_target_cursor s) \<and>
     (phase_fenced (mf_phase s) \<or> mf_phase s = PhaseRetired \<longrightarrow> mf_fence_epoch s \<noteq> None)"

lemma fence_new_ok: "fence_new identity = Inr s \<Longrightarrow> fence_ok s"
  by (auto simp: fence_new_def fence_ok_def split: if_splits)

lemma fence_step_ok: "fence_ok s \<Longrightarrow> fence_ok (fence_step x s)"
  by (cases x) (auto simp: fence_step_def fence_defs fence_ok_def
      split: if_splits option.splits sum.splits MigrationPhase.splits)

text \<open>The fence epoch never goes back, and a retired source stays retired.\<close>

definition fence_below :: "MigrationFence \<Rightarrow> MigrationFence \<Rightarrow> bool" where
  "fence_below s t \<longleftrightarrow>
     (\<forall>e. mf_fence_epoch s = Some e \<longrightarrow> (\<exists>e' \<ge> e. mf_fence_epoch t = Some e')) \<and>
     (mf_phase s = PhaseRetired \<longrightarrow> t = s)"

lemma phase_retired_stays: "mf_phase s = PhaseRetired \<Longrightarrow> fence_step x s = s"
  by (cases x) (auto simp: fence_step_def fence_defs)

fun accepted_epoch :: "FenceOp \<Rightarrow> u64 option" where
  "accepted_epoch (ActivateWriteFence e r) = Some e"
| "accepted_epoch (Rollback e r) = Some e"
| "accepted_epoch _ = None"

lemma step_epoch:
  "mf_fence_epoch (fence_step x s) =
     (case accepted_epoch x of None \<Rightarrow> mf_fence_epoch s
      | Some e \<Rightarrow> if snd (fence_exec x s) = Inr () then Some e else mf_fence_epoch s)"
  by (cases x) (auto simp: fence_step_def fence_defs split: if_splits option.splits sum.splits MigrationPhase.splits)

lemma accepted_epoch_new:
  "accepted_epoch x = Some e \<Longrightarrow> snd (fence_exec x s) = Inr () \<Longrightarrow> mf_fence_epoch s = Some f \<Longrightarrow> f < e"
  by (cases x) (auto simp: fence_defs not_le split: if_splits)

lemma fence_step_below: "fence_below s (fence_step x s)"
proof -
  have "\<exists>e' \<ge> e. mf_fence_epoch (fence_step x s) = Some e'" if "mf_fence_epoch s = Some e" for e
    using that accepted_epoch_new [of x _ s e]
    by (auto simp: step_epoch intro: less_imp_le split: option.splits)
  then show ?thesis by (simp add: fence_below_def phase_retired_stays)
qed

lemma fence_below_refl: "fence_below s s"
  by (simp add: fence_below_def)

lemma fence_below_trans:
  assumes st: "fence_below s t" and tu: "fence_below t u"
  shows "fence_below s u"
proof -
  have "\<exists>e' \<ge> e. mf_fence_epoch u = Some e'" if e: "mf_fence_epoch s = Some e" for e
  proof -
    obtain f where "e \<le> f" "mf_fence_epoch t = Some f" using st e unfolding fence_below_def by blast
    moreover obtain g where "f \<le> g" "mf_fence_epoch u = Some g"
      using tu \<open>mf_fence_epoch t = Some f\<close> unfolding fence_below_def by blast
    ultimately show ?thesis by (auto intro: order_trans)
  qed
  moreover have "u = s" if "mf_phase s = PhaseRetired"
  proof -
    have "t = s" using st that by (simp add: fence_below_def)
    then show ?thesis using tu that by (simp add: fence_below_def)
  qed
  ultimately show ?thesis by (simp add: fence_below_def)
qed

interpretation migration: monotone_machine fence_step fence_ok fence_below
proof
  fix s t u assume "fence_below s t" "fence_below t u"
  then show "fence_below s u" by (rule fence_below_trans)
qed (simp_all add: fence_step_ok fence_step_below fence_below_refl)

subsection \<open>Properties\<close>

text \<open>The epochs of the write fences and rollbacks of a run that were accepted, in order.\<close>

fun accepted_epochs :: "FenceOp list \<Rightarrow> MigrationFence \<Rightarrow> u64 list" where
  "accepted_epochs [] s = []"
| "accepted_epochs (x # xs) s =
     (case accepted_epoch x of
        Some e \<Rightarrow> (if snd (fence_exec x s) = Inr () then [e] else [])
      | None \<Rightarrow> []) @ accepted_epochs xs (fence_step x s)"

lemma accepted_epochs_above:
  "(case mf_fence_epoch s of None \<Rightarrow> True | Some f \<Rightarrow> \<forall>e \<in> set (accepted_epochs xs s). f < e) \<and>
   sorted_wrt (<) (accepted_epochs xs s)"
proof (induction xs arbitrary: s)
  case (Cons x xs)
  show ?case
    using Cons [of "fence_step x s"] accepted_epoch_new [of x _ s]
    by (auto simp: step_epoch sorted_wrt_append split: option.splits if_splits intro: less_trans)
qed (simp split: option.splits)

text \<open>
  Every fencing epoch that is accepted is greater than all accepted before, over any number
  of cutovers, rollbacks and re-entries; an operation that fails changes nothing.
\<close>

theorem fence_epochs_increase:
  "sorted_wrt (<) (accepted_epochs ops s) \<and>
   (\<forall>x e s'. fence_exec x s = (s', Inl e) \<longrightarrow> s' = s)"
  using accepted_epochs_above [of ops s] fence_failed by blast

text \<open>The comparison and the fence that a phase rests on.\<close>

definition compared :: "MigrationFence \<Rightarrow> FenceOp list \<Rightarrow> bool" where
  "compared s0 ops \<longleftrightarrow> (\<exists>pre d post. ops = pre @ VerifyShadow d d # post \<and>
     mf_phase (fold fence_step pre s0) = CatchingUp \<and>
     mf_source_cursor (fold fence_step pre s0) = mf_source_cursor (fold fence_step ops s0) \<and>
     mf_target_cursor (fold fence_step pre s0) = mf_source_cursor (fold fence_step ops s0))"

definition cut_over :: "MigrationFence \<Rightarrow> FenceOp list \<Rightarrow> bool" where
  "cut_over s0 ops \<longleftrightarrow> (\<exists>pre d mid e r post. ops = pre @ VerifyShadow d d # mid @ ActivateWriteFence e r # post \<and>
     r \<noteq> 0 \<and> mf_fence_epoch (fold fence_step ops s0) = Some e \<and>
     mf_phase (fold fence_step pre s0) = CatchingUp \<and>
     mf_source_cursor (fold fence_step pre s0) = mf_source_cursor (fold fence_step ops s0) \<and>
     mf_target_cursor (fold fence_step pre s0) = mf_source_cursor (fold fence_step ops s0))"

lemma compared_step:
  assumes "compared s0 ops"
    and "mf_source_cursor (fence_step x (fold fence_step ops s0)) = mf_source_cursor (fold fence_step ops s0)"
  shows "compared s0 (ops @ [x])"
  using assms unfolding compared_def by fastforce

lemma cut_over_step:
  assumes "cut_over s0 ops"
    and "mf_source_cursor (fence_step x (fold fence_step ops s0)) = mf_source_cursor (fold fence_step ops s0)"
    and "mf_fence_epoch (fence_step x (fold fence_step ops s0)) = mf_fence_epoch (fold fence_step ops s0)"
  shows "cut_over s0 (ops @ [x])"
  using assms unfolding cut_over_def by fastforce

lemma step_to_verified:
  assumes "mf_phase (fence_step x s) = ShadowVerified"
  shows "mf_phase s = ShadowVerified \<and> mf_source_cursor (fence_step x s) = mf_source_cursor s \<or>
    (\<exists>d. x = VerifyShadow d d \<and> mf_phase s = CatchingUp \<and> mf_target_cursor s = mf_source_cursor s \<and>
      mf_source_cursor (fence_step x s) = mf_source_cursor s)"
  using assms
  by (cases x) (auto simp: fence_step_def fence_defs split: if_splits option.splits sum.splits MigrationPhase.splits)

lemma step_to_fenced:
  assumes "phase_fenced (mf_phase (fence_step x s)) \<or> mf_phase (fence_step x s) = PhaseRetired"
  shows "mf_source_cursor (fence_step x s) = mf_source_cursor s \<and>
    ((phase_fenced (mf_phase s) \<or> mf_phase s = PhaseRetired) \<and>
       mf_fence_epoch (fence_step x s) = mf_fence_epoch s \<or>
     (\<exists>e r. x = ActivateWriteFence e r \<and> r \<noteq> 0 \<and> mf_phase s = ShadowVerified \<and>
       mf_fence_epoch (fence_step x s) = Some e))"
  using assms
  by (cases x) (auto simp: fence_step_def fence_defs split: if_splits option.splits sum.splits MigrationPhase.splits)

lemma run_compared:
  assumes new: "fence_new identity = Inr s0"
  shows "(mf_phase (fold fence_step ops s0) = ShadowVerified \<longrightarrow> compared s0 ops) \<and>
    (phase_fenced (mf_phase (fold fence_step ops s0)) \<or> mf_phase (fold fence_step ops s0) = PhaseRetired \<longrightarrow>
       cut_over s0 ops)"
proof (induction ops rule: rev_induct)
  case Nil
  then show ?case using new by (auto simp: fence_new_def split: if_splits)
next
  case (snoc x ops)
  let ?s = "fold fence_step ops s0"
  have "compared s0 (ops @ [x])" if v: "mf_phase (fence_step x ?s) = ShadowVerified"
    using step_to_verified [OF v]
  proof
    assume "mf_phase ?s = ShadowVerified \<and> mf_source_cursor (fence_step x ?s) = mf_source_cursor ?s"
    then show ?thesis using snoc by (auto intro: compared_step)
  next
    assume "\<exists>d. x = VerifyShadow d d \<and> mf_phase ?s = CatchingUp \<and> mf_target_cursor ?s = mf_source_cursor ?s \<and>
      mf_source_cursor (fence_step x ?s) = mf_source_cursor ?s"
    then show ?thesis unfolding compared_def by (auto intro: exI [of _ ops])
  qed
  moreover have "cut_over s0 (ops @ [x])"
    if f: "phase_fenced (mf_phase (fence_step x ?s)) \<or> mf_phase (fence_step x ?s) = PhaseRetired"
  proof -
    note F = step_to_fenced [OF f]
    then consider
        "phase_fenced (mf_phase ?s) \<or> mf_phase ?s = PhaseRetired"
        "mf_fence_epoch (fence_step x ?s) = mf_fence_epoch ?s"
      | e r where "x = ActivateWriteFence e r" "r \<noteq> 0" "mf_phase ?s = ShadowVerified"
        "mf_fence_epoch (fence_step x ?s) = Some e" by blast
    then show ?thesis
    proof cases
      case 1
      then show ?thesis using snoc F by (intro cut_over_step) auto
    next
      case 2
      then have "compared s0 ops" using snoc by simp
      then obtain pre d post where "ops = pre @ VerifyShadow d d # post"
        "mf_phase (fold fence_step pre s0) = CatchingUp"
        "mf_source_cursor (fold fence_step pre s0) = mf_source_cursor ?s"
        "mf_target_cursor (fold fence_step pre s0) = mf_source_cursor ?s"
        unfolding compared_def by blast
      with 2 F show ?thesis unfolding cut_over_def
        by (intro exI [of _ pre] exI [of _ d] exI [of _ post] exI [of _ e] exI [of _ r] exI [of _ "[]"]) simp
    qed
  qed
  ultimately show ?case by simp
qed

text \<open>
  C40: The target gets authority only over what was compared: whenever writes are fenced, or go
  to the target in part or in whole, or the source is retired, then source and target are at the
  same cursor, both sides were compared with equal digests while they were at this very cursor,
  and a write fence was accepted after the comparison with a receipt, whose epoch is the current
  one. Every change of the phase is one the protocol has.
\<close>

theorem target_authority_earned:
  assumes new: "fence_new identity = Inr s0" and s: "s = fold fence_step ops s0"
    and mode: "authority_mode s \<noteq> SourceOnly"
  shows "mf_source_cursor s = mf_target_cursor s \<and>
    (\<exists>pre d mid e r post. ops = pre @ VerifyShadow d d # mid @ ActivateWriteFence e r # post \<and> r \<noteq> 0 \<and>
       mf_fence_epoch s = Some e \<and> mf_phase (fold fence_step pre s0) = CatchingUp \<and>
       mf_source_cursor (fold fence_step pre s0) = mf_source_cursor s \<and>
       mf_target_cursor (fold fence_step pre s0) = mf_source_cursor s) \<and>
    (\<forall>x. mf_phase (fence_step x s) = mf_phase s \<or> phase_edge (mf_phase s) (mf_phase (fence_step x s)))"
proof -
  have phase: "phase_fenced (mf_phase s) \<or> mf_phase s = PhaseRetired"
    using mode by (cases "mf_phase s") (simp_all add: authority_mode_def)
  then have "cut_over s0 ops" using run_compared [OF new, of ops] by (simp add: s)
  moreover have "fence_ok s" unfolding s by (intro migration.run_inv fence_new_ok [OF new])
  ultimately show ?thesis
    using phase step_edge [of _ s] unfolding cut_over_def s [symmetric] fence_ok_def by blast
qed

subsection \<open>Witness\<close>

definition wit_cutover :: "FenceOp list" where
  "wit_cutover = [AdvanceSource 10, SealSnapshot 10 4, AdvanceTarget 10, VerifyShadow 5 5,
     ActivateWriteFence 1 6]"

theorem target_authority_earned_witness:
  "\<exists>s0 s. fence_new \<lparr>mi_source_schema = 1, mi_target_schema = 2, mi_mapping = 3\<rparr> = Inr s0 \<and>
     s = fold fence_step wit_cutover s0 \<and> authority_mode s = ModeFenced \<and>
     mf_source_cursor s = mf_target_cursor s"
proof -
  define identity where "identity = \<lparr>mi_source_schema = 1, mi_target_schema = 2 :: digest32, mi_mapping = 3\<rparr>"
  obtain s0 where s0: "fence_new identity = Inr s0" by (simp add: fence_new_def identity_def)
  let ?s = "fold fence_step wit_cutover s0"
  have "fence_step (AdvanceSource 10) s0 = s0\<lparr>mf_source_cursor := 10\<rparr>"
    using s0 by (auto simp: fence_new_def identity_def fence_step_def advance_source_def)
  moreover have "fence_step (SealSnapshot 10 4) (s0\<lparr>mf_source_cursor := 10\<rparr>) = s0\<lparr>mf_source_cursor := 10,
      mf_snapshot_digest := Some 4, mf_phase := SnapshotSealed\<rparr>"
    using s0 by (auto simp: fence_new_def identity_def fence_step_def seal_snapshot_def require_phase_def
        advance_source_def)
  moreover have "fence_step (AdvanceTarget 10) (s0\<lparr>mf_source_cursor := 10, mf_snapshot_digest := Some 4,
      mf_phase := SnapshotSealed\<rparr>) = s0\<lparr>mf_source_cursor := 10, mf_snapshot_digest := Some 4,
      mf_phase := CatchingUp, mf_target_cursor := 10\<rparr>"
    using s0 by (auto simp: fence_new_def identity_def fence_step_def advance_target_def require_phase_def)
  moreover have "fence_step (VerifyShadow 5 5) (s0\<lparr>mf_source_cursor := 10, mf_snapshot_digest := Some 4,
      mf_phase := CatchingUp, mf_target_cursor := 10\<rparr>) = s0\<lparr>mf_source_cursor := 10, mf_snapshot_digest := Some 4,
      mf_phase := ShadowVerified, mf_target_cursor := 10, mf_semantic_digest := Some 5,
      mf_verified_cursor := Some 10\<rparr>"
    using s0 by (auto simp: fence_new_def identity_def fence_step_def verify_shadow_def require_phase_def)
  moreover have "authority_mode (fence_step (ActivateWriteFence 1 6) (s0\<lparr>mf_source_cursor := 10,
      mf_snapshot_digest := Some 4, mf_phase := ShadowVerified, mf_target_cursor := 10,
      mf_semantic_digest := Some 5, mf_verified_cursor := Some 10\<rparr>)) = ModeFenced"
    using s0 by (auto simp: fence_new_def identity_def fence_step_def activate_write_fence_def require_phase_def
        require_current_shadow_verification_def epoch_not_after_def authority_mode_def)
  ultimately have mode: "authority_mode ?s = ModeFenced" by (simp add: wit_cutover_def)
  have "mf_source_cursor ?s = mf_target_cursor ?s"
    using target_authority_earned [OF s0 refl, of wit_cutover] mode by simp
  then show ?thesis using s0 mode unfolding identity_def by blast
qed

end
