(* ===== verification/Runtime_Policy.thy ===== *)
theory Runtime_Policy
  imports Rust_Text Contracts
begin

text \<open>
  The runtime policy of database clients (\<open>crates/trnm-persistence-runtime-policy/src/lib.rs\<close>):
  validation of the TLS, pool, statement and retry settings, and the decision whether a failed
  operation is tried again. Names and handles are byte strings. The proofs show that a client
  that follows the decisions stops after the attempts of its budget and before its deadline, and
  repeats only what may be repeated.
\<close>

subsection \<open>Settings\<close>

datatype DatabaseProfile = PostgreSql | CockroachDb

fun profile_as_str :: "DatabaseProfile \<Rightarrow> string" where
  "profile_as_str PostgreSql = ''postgresql''"
| "profile_as_str CockroachDb = ''cockroachdb''"

datatype DeploymentClass = Developer | Compatibility | Production

datatype PolicyError =
    TlsRequired | InvalidSecretHandle | InvalidServerName | InvalidPoolSize | InvalidPoolTimeout
  | InvalidStatementTimeout | InvalidRetryBudget | RetryDeadlineExceedsTransactionTimeout
  | InvalidCompletedAttempts

datatype TlsMode =
    DisabledDeveloperOnly
  | RequireFull (root_ca_handle: utf8) (client_identity_handle: "utf8 option") (server_name: utf8)

definition is_ascii_alphanumeric :: "u8 \<Rightarrow> bool" where
  "is_ascii_alphanumeric b \<longleftrightarrow> 48 \<le> b \<and> b \<le> 57 \<or> 65 \<le> b \<and> b \<le> 90 \<or> 97 \<le> b \<and> b \<le> 122"

definition validate_handle :: "utf8 \<Rightarrow> PolicyError + unit" where
  "validate_handle text =
     (if text = [] \<or> length text > 512 \<or>
         \<not> list_all (\<lambda>b. is_ascii_alphanumeric b \<or> b \<in> {46, 95, 58, 45, 47, 64}) text
      then Inl InvalidSecretHandle else Inr ())"

definition tls_validate :: "TlsMode \<Rightarrow> DeploymentClass \<Rightarrow> PolicyError + unit" where
  "tls_validate mode deployment = (case mode of
       DisabledDeveloperOnly \<Rightarrow> if deployment = Developer then Inr () else Inl TlsRequired
     | RequireFull root client server \<Rightarrow>
         tryE (validate_handle root) (\<lambda>_.
         tryE (case client of None \<Rightarrow> Inr () | Some handle \<Rightarrow> validate_handle handle) (\<lambda>_.
         if server = [] \<or> length server > 253 \<or>
            \<not> list_all (\<lambda>b. is_ascii_alphanumeric b \<or> b \<in> {46, 45}) server
         then Inl InvalidServerName else Inr ())))"

record PoolPolicy =
  pp_minimum_idle :: u16
  pp_maximum_size :: u16
  pp_acquire_timeout_ms :: u64
  pp_idle_timeout_ms :: u64
  pp_maximum_lifetime_ms :: u64

definition pool_validate :: "PoolPolicy \<Rightarrow> PolicyError + unit" where
  "pool_validate p =
     (if pp_maximum_size p = 0 \<or> pp_minimum_idle p > pp_maximum_size p then Inl InvalidPoolSize
      else if pp_acquire_timeout_ms p = 0 \<or> pp_idle_timeout_ms p = 0 \<or> pp_maximum_lifetime_ms p = 0 \<or>
        pp_acquire_timeout_ms p > pp_idle_timeout_ms p \<or> pp_idle_timeout_ms p > pp_maximum_lifetime_ms p
      then Inl InvalidPoolTimeout else Inr ())"

record StatementPolicy =
  st_statement_timeout_ms :: u64
  st_lock_timeout_ms :: u64
  st_transaction_timeout_ms :: u64

definition statement_validate :: "StatementPolicy \<Rightarrow> PolicyError + unit" where
  "statement_validate p =
     (if st_statement_timeout_ms p = 0 \<or> st_lock_timeout_ms p = 0 \<or> st_transaction_timeout_ms p = 0 \<or>
         st_lock_timeout_ms p > st_statement_timeout_ms p \<or>
         st_statement_timeout_ms p > st_transaction_timeout_ms p
      then Inl InvalidStatementTimeout else Inr ())"

record RetryBudget =
  rb_maximum_attempts :: u8
  rb_base_backoff_ms :: u64
  rb_maximum_backoff_ms :: u64
  rb_total_deadline_ms :: u64

definition budget_validate :: "RetryBudget \<Rightarrow> PolicyError + unit" where
  "budget_validate b =
     (if rb_maximum_attempts b = 0 \<or> rb_maximum_attempts b > 16 \<or> rb_base_backoff_ms b = 0 \<or>
         rb_maximum_backoff_ms b < rb_base_backoff_ms b \<or> rb_total_deadline_ms b = 0 \<or>
         rb_maximum_backoff_ms b \<ge> rb_total_deadline_ms b
      then Inl InvalidRetryBudget else Inr ())"

definition saturating_mul :: "u64 \<Rightarrow> u64 \<Rightarrow> u64" where
  "saturating_mul a b = (if unat a * unat b < 2 ^ 64 then a * b else - 1)"

definition saturating_add :: "u64 \<Rightarrow> u64 \<Rightarrow> u64" where
  "saturating_add a b = (if unat a + unat b < 2 ^ 64 then a + b else - 1)"

definition backoff_ms :: "RetryBudget \<Rightarrow> u8 \<Rightarrow> u64" where
  "backoff_ms b completed_attempts =
     (let exponent = min (unat completed_attempts - 1) 20
      in min (saturating_mul (rb_base_backoff_ms b) (push_bit exponent 1)) (rb_maximum_backoff_ms b))"

datatype OperationClass = ReadOnly | IdempotentCommand | OutboxReceiptApply | NonIdempotentExternalEffect

fun automatic_retry_allowed :: "OperationClass \<Rightarrow> bool" where
  "automatic_retry_allowed ReadOnly = True"
| "automatic_retry_allowed IdempotentCommand = True"
| "automatic_retry_allowed OutboxReceiptApply = True"
| "automatic_retry_allowed NonIdempotentExternalEffect = False"

record DatabaseRuntimePolicy =
  rp_profile :: DatabaseProfile
  rp_deployment :: DeploymentClass
  rp_tls :: TlsMode
  rp_pool :: PoolPolicy
  rp_statements :: StatementPolicy
  rp_retry :: RetryBudget

definition runtime_validate :: "DatabaseRuntimePolicy \<Rightarrow> PolicyError + unit" where
  "runtime_validate p =
     tryE (tls_validate (rp_tls p) (rp_deployment p)) (\<lambda>_.
     tryE (pool_validate (rp_pool p)) (\<lambda>_.
     tryE (statement_validate (rp_statements p)) (\<lambda>_.
     tryE (budget_validate (rp_retry p)) (\<lambda>_.
     if rb_total_deadline_ms (rp_retry p) > st_transaction_timeout_ms (rp_statements p)
     then Inl RetryDeadlineExceedsTransactionTimeout else Inr ()))))"

subsection \<open>The decision\<close>

record RetryContext =
  rc_completed_attempts :: u8
  rc_elapsed_ms :: u64
  rc_cancelled :: bool
  rc_operation :: OperationClass

datatype RetryStopReason =
    Cancelled | OperationNotIdempotent | ErrorNotRetryable | StopResyncRequired | AttemptLimit | Deadline

datatype RetryDecision = Retry (next_attempt: u8) (delay_ms: u64) | Stop RetryStopReason

definition decide_retry :: "RetryBudget \<Rightarrow> DomainError \<Rightarrow> RetryContext \<Rightarrow> PolicyError + RetryDecision" where
  "decide_retry budget error ctx =
     tryE (budget_validate budget) (\<lambda>_.
     if rc_completed_attempts ctx = 0 then Inl InvalidCompletedAttempts
     else if rc_cancelled ctx then Inr (Stop Cancelled)
     else if \<not> automatic_retry_allowed (rc_operation ctx) then Inr (Stop OperationNotIdempotent)
     else (case (case de_retry error of
             Never \<Rightarrow> Inl ErrorNotRetryable
           | ResyncRequired \<Rightarrow> Inl StopResyncRequired
           | SafeImmediate \<Rightarrow> Inr 0
           | SafeBackoff \<Rightarrow> Inr (backoff_ms budget (rc_completed_attempts ctx))) of
         Inl reason \<Rightarrow> Inr (Stop reason)
       | Inr delay \<Rightarrow>
           if rc_completed_attempts ctx \<ge> rb_maximum_attempts budget then Inr (Stop AttemptLimit)
           else if saturating_add (rc_elapsed_ms ctx) delay \<ge> rb_total_deadline_ms budget
           then Inr (Stop Deadline)
           else Inr (Retry (rc_completed_attempts ctx + 1) delay)))"

subsection \<open>Correctness\<close>

lemma budget_validate_iff:
  "budget_validate b = Inr u \<longleftrightarrow> rb_maximum_attempts b \<noteq> 0 \<and> rb_maximum_attempts b \<le> 16 \<and>
     rb_base_backoff_ms b \<noteq> 0 \<and> rb_base_backoff_ms b \<le> rb_maximum_backoff_ms b \<and>
     rb_total_deadline_ms b \<noteq> 0 \<and> rb_maximum_backoff_ms b < rb_total_deadline_ms b"
  by (auto simp: budget_validate_def)

lemma decide_retry_iff:
  "decide_retry budget error ctx = Inr (Retry n d) \<longleftrightarrow>
     budget_validate budget = Inr () \<and> rc_completed_attempts ctx \<noteq> 0 \<and> \<not> rc_cancelled ctx \<and>
     automatic_retry_allowed (rc_operation ctx) \<and>
     (de_retry error = SafeImmediate \<and> d = 0 \<or>
      de_retry error = SafeBackoff \<and> d = backoff_ms budget (rc_completed_attempts ctx)) \<and>
     rc_completed_attempts ctx < rb_maximum_attempts budget \<and>
     saturating_add (rc_elapsed_ms ctx) d < rb_total_deadline_ms budget \<and>
     n = rc_completed_attempts ctx + 1"
  by (cases "de_retry error") (auto simp: decide_retry_def not_le)

lemma saturating_add_less:
  assumes "saturating_add a b < (t :: u64)"
  shows "unat a + unat b < unat t"
proof (cases "unat a + unat b < 2 ^ 64")
  case True
  then have "unat (a + b) = unat a + unat b" by (simp add: unat_word_ariths)
  then show ?thesis using assms True by (simp add: saturating_add_def word_less_nat_alt)
next
  case False
  then have "- 1 < t" using assms by (simp add: saturating_add_def)
  moreover have "unat t < 18446744073709551616" using unat_u64_less [of t] by simp
  ultimately show ?thesis by (simp add: word_less_nat_alt unat_max_word)
qed

lemma backoff_le: "backoff_ms b n \<le> rb_maximum_backoff_ms b"
  by (simp add: backoff_ms_def Let_def)

text \<open>
  A client that follows the decisions: each retry waits its delay, so that the next failure comes
  with the next attempt completed and at least the delay elapsed.
\<close>

inductive retries :: "RetryBudget \<Rightarrow> RetryContext \<Rightarrow> nat \<Rightarrow> nat \<Rightarrow> RetryContext \<Rightarrow> bool" for budget where
  Begin: "retries budget ctx 0 0 ctx"
| Again: "retries budget ctx n waited ctx' \<Longrightarrow>
    decide_retry budget error ctx' = Inr (Retry (rc_completed_attempts ctx'') d) \<Longrightarrow>
    unat (rc_elapsed_ms ctx') + unat d \<le> unat (rc_elapsed_ms ctx'') \<Longrightarrow>
    retries budget ctx (Suc n) (waited + unat d) ctx''"

lemma unat_next_attempt:
  "(n :: u8) < m \<Longrightarrow> unat (n + 1) = unat n + 1"
proof -
  assume "n < m"
  then have "unat n < unat m" by (simp add: word_less_nat_alt)
  moreover have "unat m < 2 ^ 8" using unsigned_less [of m, where ?'a = nat] by simp
  ultimately have "unat n + 1 < 2 ^ 8" by linarith
  then show ?thesis by (simp add: unat_word_ariths)
qed

lemma retries_count:
  assumes "retries budget ctx n waited ctx'"
  shows "unat (rc_completed_attempts ctx') = unat (rc_completed_attempts ctx) + n \<and>
    (n = 0 \<and> waited = 0 \<or>
     budget_validate budget = Inr () \<and> rc_completed_attempts ctx \<noteq> 0 \<and>
     unat (rc_completed_attempts ctx') \<le> unat (rb_maximum_attempts budget) \<and>
     waited < unat (rb_total_deadline_ms budget)) \<and>
    unat (rc_elapsed_ms ctx) + waited \<le> unat (rc_elapsed_ms ctx')"
  using assms
proof (induction rule: retries.induct)
  case (Again ctx n waited ctx' error ctx'' d)
  note D = Again.hyps(2) [unfolded decide_retry_iff]
  have "unat (rc_completed_attempts ctx'') = unat (rc_completed_attempts ctx') + 1"
    using D unat_next_attempt by metis
  moreover have "unat (rc_completed_attempts ctx') < unat (rb_maximum_attempts budget)"
    using D by (simp add: word_less_nat_alt)
  moreover have "unat (rc_elapsed_ms ctx') + unat d < unat (rb_total_deadline_ms budget)"
    using D saturating_add_less by blast
  moreover have "n = 0 \<longrightarrow> rc_completed_attempts ctx \<noteq> 0"
    using D Again.IH by (metis add_0_right unat_eq_zero word_unat_eq_iff)
  ultimately show ?case using Again.IH Again.hyps(3) D by auto
qed simp

text \<open>
  Retries end: a client that follows the decisions makes fewer retries than the attempts of
  its budget, at most 15, waits less than the deadline in all, and once it has made as many
  attempts as the budget allows, every further decision is to stop. Only operations that are
  idempotent and errors that may be repeated are retried at all, with a delay of at most the
  maximal backoff.
\<close>

theorem retries_end:
  assumes run: "retries budget ctx n waited ctx'" and "0 < n"
  shows "n < unat (rb_maximum_attempts budget) \<and> n \<le> 15 \<and> waited < unat (rb_total_deadline_ms budget) \<and>
    (rb_maximum_attempts budget \<le> rc_completed_attempts ctx' \<longrightarrow>
       (\<forall>error. \<exists>reason. decide_retry budget error ctx' = Inr (Stop reason))) \<and>
    (\<forall>error ctx'' k d. decide_retry budget error ctx'' = Inr (Retry k d) \<longrightarrow>
       automatic_retry_allowed (rc_operation ctx'') \<and> de_retry error \<in> {SafeImmediate, SafeBackoff} \<and>
       d \<le> rb_maximum_backoff_ms budget)"
proof -
  note C = retries_count [OF run]
  have valid: "budget_validate budget = Inr ()" and start: "rc_completed_attempts ctx \<noteq> 0"
    and le: "unat (rc_completed_attempts ctx') \<le> unat (rb_maximum_attempts budget)"
    "waited < unat (rb_total_deadline_ms budget)"
    using C assms(2) by auto
  have "0 < unat (rc_completed_attempts ctx)" using start by (simp add: unat_gt_0)
  then have n: "n < unat (rb_maximum_attempts budget)" using C le by linarith
  moreover have "unat (rb_maximum_attempts budget) \<le> 16"
    using valid by (simp add: budget_validate_iff word_le_nat_alt)
  moreover have "\<exists>reason. decide_retry budget error ctx' = Inr (Stop reason)"
    if "rb_maximum_attempts budget \<le> rc_completed_attempts ctx'" for error
  proof -
    have "rc_completed_attempts ctx' \<noteq> 0" using C start by (metis add_is_0 unat_eq_zero)
    then show ?thesis using that valid by (cases "de_retry error") (auto simp: decide_retry_def)
  qed
  ultimately show ?thesis using le by (auto simp: decide_retry_iff backoff_le)
qed

text \<open>
  A valid runtime policy uses TLS outside developer mode and keeps its timeouts nested: lock
  within statement within transaction, and the retries within the transaction.
\<close>

theorem valid_policy_is_nested:
  assumes "runtime_validate p = Inr ()"
  shows "(rp_deployment p \<noteq> Developer \<longrightarrow> rp_tls p \<noteq> DisabledDeveloperOnly) \<and>
    st_lock_timeout_ms (rp_statements p) \<le> st_statement_timeout_ms (rp_statements p) \<and>
    st_statement_timeout_ms (rp_statements p) \<le> st_transaction_timeout_ms (rp_statements p) \<and>
    rb_maximum_backoff_ms (rp_retry p) < st_transaction_timeout_ms (rp_statements p)"
  using assms
  by (auto simp: runtime_validate_def tls_validate_def statement_validate_def budget_validate_iff
      split: if_splits)

definition wit_budget :: RetryBudget where
  "wit_budget = \<lparr>rb_maximum_attempts = 3, rb_base_backoff_ms = 10, rb_maximum_backoff_ms = 100,
     rb_total_deadline_ms = 1000\<rparr>"

theorem retries_end_witness: "(1 :: nat) < unat (rb_maximum_attempts wit_budget)"
proof -
  let ?ctx = "\<lparr>rc_completed_attempts = 1, rc_elapsed_ms = 5, rc_cancelled = False, rc_operation = ReadOnly\<rparr>"
  let ?next = "\<lparr>rc_completed_attempts = 2, rc_elapsed_ms = 20, rc_cancelled = False, rc_operation = ReadOnly\<rparr>"
  have "decide_retry wit_budget (domain_error Unavailable [] SafeBackoff) ?ctx = Inr (Retry 2 10)"
    by (simp add: decide_retry_def wit_budget_def budget_validate_def backoff_ms_def saturating_mul_def
        saturating_add_def word_le_nat_alt)
  then have "retries wit_budget ?ctx (Suc 0) (0 + unat (10 :: u64)) ?next"
    by (intro retries.Again [OF retries.Begin]) simp_all
  from retries_end [OF this] show ?thesis by simp
qed

end
