(* ===== verification/Transport.thy ===== *)
theory Transport
  imports Contracts
begin

text \<open>
  The mapping of domain errors to transports (\<open>crates/trnm-transport-core/src/lib.rs\<close>): HTTP
  statuses, gRPC codes, realtime error codes, actions on a WebSocket and public messages. The
  internal reason of an error never appears in a mapping.
\<close>

datatype TransportPhase = RequestResponse | WebSocketHandshake | WebSocketEstablished

datatype RealtimeContext =
    GenericContext | UnrecognizedPayload | MissingPayload | MatchNotFound | MatchJoinRejected
  | RuntimeFunctionNotFound | RuntimeFunctionException

datatype RealtimeErrorCode =
    CodeRuntimeException | CodeUnrecognizedPayload | CodeMissingPayload | CodeBadInput
  | CodeMatchNotFound | CodeMatchJoinRejected | CodeRuntimeFunctionNotFound
  | CodeRuntimeFunctionException

fun RealtimeErrorCode_repr :: "RealtimeErrorCode \<Rightarrow> u32" where
  "RealtimeErrorCode_repr CodeRuntimeException = 0"
| "RealtimeErrorCode_repr CodeUnrecognizedPayload = 1"
| "RealtimeErrorCode_repr CodeMissingPayload = 2"
| "RealtimeErrorCode_repr CodeBadInput = 3"
| "RealtimeErrorCode_repr CodeMatchNotFound = 4"
| "RealtimeErrorCode_repr CodeMatchJoinRejected = 5"
| "RealtimeErrorCode_repr CodeRuntimeFunctionNotFound = 6"
| "RealtimeErrorCode_repr CodeRuntimeFunctionException = 7"

datatype RetryAdvice = AdviseNone | AdviseImmediate | AdviseBackoff | AdviseResync

fun retry_advice :: "RetryClass \<Rightarrow> RetryAdvice" where
  "retry_advice Never = AdviseNone"
| "retry_advice SafeImmediate = AdviseImmediate"
| "retry_advice SafeBackoff = AdviseBackoff"
| "retry_advice ResyncRequired = AdviseResync"

datatype WebSocketAction = NoAction | RejectUpgrade u16 | CloseSocket u16

record TransportMapping =
  tm_stable_code :: StableCode
  tm_http_status :: u16
  tm_grpc_code :: u16
  tm_realtime_code :: RealtimeErrorCode
  tm_websocket_action :: WebSocketAction
  tm_retry :: RetryAdvice
  tm_public_message :: string
  tm_expose_internal_reason :: bool

fun http_status :: "StableCode \<Rightarrow> u16" where
  "http_status InvalidArgument = 400"
| "http_status OutOfRange = 400"
| "http_status Unauthenticated = 401"
| "http_status PermissionDenied = 403"
| "http_status NotFound = 404"
| "http_status AlreadyExists = 409"
| "http_status Aborted = 409"
| "http_status FailedPrecondition = 412"
| "http_status ResourceExhausted = 429"
| "http_status Unimplemented = 501"
| "http_status Internal = 500"
| "http_status DataLoss = 500"
| "http_status Unavailable = 503"

definition grpc_code :: "StableCode \<Rightarrow> u16" where
  "grpc_code code = StableCode_repr code"

fun realtime_code :: "StableCode \<Rightarrow> RealtimeContext \<Rightarrow> RealtimeErrorCode" where
  "realtime_code code UnrecognizedPayload = CodeUnrecognizedPayload"
| "realtime_code code MissingPayload = CodeMissingPayload"
| "realtime_code code MatchNotFound = CodeMatchNotFound"
| "realtime_code code MatchJoinRejected = CodeMatchJoinRejected"
| "realtime_code code RuntimeFunctionNotFound = CodeRuntimeFunctionNotFound"
| "realtime_code code RuntimeFunctionException = CodeRuntimeFunctionException"
| "realtime_code code GenericContext =
     (if code \<in> {Internal, Unavailable, DataLoss} then CodeRuntimeException else CodeBadInput)"

definition websocket_action ::
    "StableCode \<Rightarrow> RealtimeContext \<Rightarrow> TransportPhase \<Rightarrow> u16 \<Rightarrow> WebSocketAction" where
  "websocket_action code ctx phase status = (case phase of
       RequestResponse \<Rightarrow> NoAction
     | WebSocketHandshake \<Rightarrow> RejectUpgrade status
     | WebSocketEstablished \<Rightarrow>
         if ctx \<in> {UnrecognizedPayload, MissingPayload} then CloseSocket 1002
         else if code \<in> {Unauthenticated, PermissionDenied} then CloseSocket 1008
         else if code \<in> {ResourceExhausted, Unavailable} then CloseSocket 1013
         else if code \<in> {Internal, DataLoss} then CloseSocket 1011
         else NoAction)"

fun generic_message :: "StableCode \<Rightarrow> string" where
  "generic_message InvalidArgument = ''Request is invalid.''"
| "generic_message NotFound = ''Requested resource was not found.''"
| "generic_message AlreadyExists = ''Requested resource already exists.''"
| "generic_message PermissionDenied = ''Permission denied.''"
| "generic_message ResourceExhausted = ''Resource limit exceeded.''"
| "generic_message FailedPrecondition = ''Request precondition failed.''"
| "generic_message Aborted = ''Request was aborted.''"
| "generic_message OutOfRange = ''Request value is out of range.''"
| "generic_message Unimplemented = ''Operation is not implemented.''"
| "generic_message Internal = ''Internal server error.''"
| "generic_message Unavailable = ''Service is unavailable.''"
| "generic_message DataLoss = ''Internal data integrity error.''"
| "generic_message Unauthenticated = ''Authentication required.''"

fun public_message :: "StableCode \<Rightarrow> RealtimeContext \<Rightarrow> string" where
  "public_message code UnrecognizedPayload = ''Unrecognized realtime payload.''"
| "public_message code MissingPayload = ''Realtime payload is required.''"
| "public_message code MatchNotFound = ''Match was not found.''"
| "public_message code MatchJoinRejected = ''Match join was rejected.''"
| "public_message code RuntimeFunctionNotFound = ''Runtime function was not found.''"
| "public_message code RuntimeFunctionException = ''Runtime function failed.''"
| "public_message code GenericContext = generic_message code"

fun context_valid :: "StableCode \<Rightarrow> RealtimeContext \<Rightarrow> bool" where
  "context_valid code GenericContext = True"
| "context_valid code UnrecognizedPayload = (code = InvalidArgument)"
| "context_valid code MissingPayload = (code = InvalidArgument)"
| "context_valid code MatchNotFound = (code = NotFound)"
| "context_valid code MatchJoinRejected = (code \<in> {PermissionDenied, FailedPrecondition})"
| "context_valid code RuntimeFunctionNotFound = (code \<in> {NotFound, Unimplemented})"
| "context_valid code RuntimeFunctionException = (code = Internal)"

definition validate_context :: "StableCode \<Rightarrow> RealtimeContext \<Rightarrow> DomainError + unit" where
  "validate_context code ctx =
     (if context_valid code ctx then Inr ()
      else Inl (domain_error InvalidArgument ''transport_context_mismatch'' Never))"

definition map_domain_error ::
    "DomainError \<Rightarrow> RealtimeContext \<Rightarrow> TransportPhase \<Rightarrow> DomainError + TransportMapping" where
  "map_domain_error error ctx phase =
     tryE (validate_context (de_code error) ctx) (\<lambda>_.
     let status = http_status (de_code error) in
     Inr \<lparr>tm_stable_code = de_code error, tm_http_status = status,
          tm_grpc_code = StableCode_repr (de_code error),
          tm_realtime_code = realtime_code (de_code error) ctx,
          tm_websocket_action = websocket_action (de_code error) ctx phase status,
          tm_retry = retry_advice (de_retry error),
          tm_public_message = public_message (de_code error) ctx,
          tm_expose_internal_reason = False\<rparr>)"

text \<open>
  The reason of an error does not reach the client: two errors with the same code and retry class
  are mapped alike in every context and phase.
\<close>

theorem reasons_stay_internal:
  assumes "de_code e = de_code e'" and "de_retry e = de_retry e'"
  shows "map_domain_error e ctx phase = map_domain_error e' ctx phase"
  using assms by (simp add: map_domain_error_def)

text \<open>
  A request that is at fault gets a 4xx status, a fault of the server a 5xx status, and an
  established socket that is closed gets a close code of the protocol.
\<close>

lemma http_status_class:
  "(400 \<le> http_status code \<and> http_status code < 500) \<longleftrightarrow>
     code \<notin> {Unimplemented, Internal, DataLoss, Unavailable}"
  "http_status code \<ge> 400 \<and> http_status code < 600"
  by (cases code; simp)+

lemma close_codes:
  "websocket_action code ctx WebSocketEstablished status = CloseSocket n \<Longrightarrow> n \<in> {1002, 1008, 1011, 1013}"
  by (auto simp: websocket_action_def split: if_splits)

end
