(* ===== verification/Public_Version.thy ===== *)
theory Public_Version
  imports Storage_Proofs
begin

text \<open>
  The public storage version of the Nakama protocol
  (\<open>crates/trnm-storage-nakama-version/src/lib.rs\<close>): an implementation of MD5 of its own, the
  hexadecimal form of a version and the write conditions clients send. The proofs show that it
  gives every value the version the storage engine gives it.
\<close>

unbundle bit_operations_syntax

subsection \<open>MD5\<close>

definition ROTATIONS :: "nat list" where
  "ROTATIONS =
    [7, 12, 17, 22, 7, 12, 17, 22, 7, 12, 17, 22, 7, 12, 17, 22, 5, 9, 14, 20, 5, 9, 14, 20, 5, 9,
     14, 20, 5, 9, 14, 20, 4, 11, 16, 23, 4, 11, 16, 23, 4, 11, 16, 23, 4, 11, 16, 23, 6, 10, 15,
     21, 6, 10, 15, 21, 6, 10, 15, 21, 6, 10, 15, 21]"

definition ROUND_CONSTANTS :: "u32 list" where
  "ROUND_CONSTANTS =
    [0xd76aa478, 0xe8c7b756, 0x242070db, 0xc1bdceee, 0xf57c0faf, 0x4787c62a,
     0xa8304613, 0xfd469501, 0x698098d8, 0x8b44f7af, 0xffff5bb1, 0x895cd7be,
     0x6b901122, 0xfd987193, 0xa679438e, 0x49b40821, 0xf61e2562, 0xc040b340,
     0x265e5a51, 0xe9b6c7aa, 0xd62f105d, 0x02441453, 0xd8a1e681, 0xe7d3fbc8,
     0x21e1cde6, 0xc33707d6, 0xf4d50d87, 0x455a14ed, 0xa9e3e905, 0xfcefa3f8,
     0x676f02d9, 0x8d2a4c8a, 0xfffa3942, 0x8771f681, 0x6d9d6122, 0xfde5380c,
     0xa4beea44, 0x4bdecfa9, 0xf6bb4b60, 0xbebfbc70, 0x289b7ec6, 0xeaa127fa,
     0xd4ef3085, 0x04881d05, 0xd9d4d039, 0xe6db99e5, 0x1fa27cf8, 0xc4ac5665,
     0xf4292244, 0x432aff97, 0xab9423a7, 0xfc93a039, 0x655b59c3, 0x8f0ccc92,
     0xffeff47d, 0x85845dd1, 0x6fa87e4f, 0xfe2ce6e0, 0xa3014314, 0x4e0811a1,
     0xf7537e82, 0xbd3af235, 0x2ad7d2bb, 0xeb86d391]"

function pad_block :: "u8 list \<Rightarrow> u8 list" where
  "pad_block padded = (if length padded mod 64 \<noteq> 56 then pad_block (padded @ [0]) else padded)"
  by auto

termination pad_block
  by (relation "measure (\<lambda>padded. (120 - length padded mod 64) mod 64)") (auto intro: padding_measure)

declare pad_block.simps [simp del]

definition round_function :: "nat \<Rightarrow> u32 \<Rightarrow> u32 \<Rightarrow> u32 \<Rightarrow> u32 \<times> nat" where
  "round_function index b c d =
     (if index \<le> 15 then ((b AND c) OR ((NOT b) AND d), index)
      else if index \<le> 31 then ((d AND b) OR ((NOT d) AND c), (5 * index + 1) mod 16)
      else if index \<le> 47 then (b XOR c XOR d, (3 * index + 5) mod 16)
      else (c XOR (b OR (NOT d)), (7 * index) mod 16))"

definition version_round :: "u32 list \<Rightarrow> nat \<Rightarrow> md5_state \<Rightarrow> md5_state" where
  "version_round words index = (\<lambda>(a, b, c, d).
     let (f, word_index) = round_function index b c d;
         next_d = c;
         new_c = b;
         new_b = b + word_rotl (ROTATIONS ! index) (a + f + ROUND_CONSTANTS ! index + words ! word_index);
         new_a = d in
     (new_a, new_b, new_c, next_d))"

definition version_block :: "u8 list \<Rightarrow> md5_state \<Rightarrow> md5_state" where
  "version_block block = (\<lambda>(a0, b0, c0, d0).
     let words = map from_le_bytes (chunks_exact 4 block);
         (a, b, c, d) = fold (version_round words) [0..<64] (a0, b0, c0, d0) in
     (a0 + a, b0 + b, c0 + c, d0 + d))"

definition version_md5 :: "u8 list \<Rightarrow> u8 list" where
  "version_md5 input =
     (let bit_length = of_nat (length input) * 8 :: u64;
          padded = pad_block (input @ [0x80]) @ to_le_bytes bit_length in
      case fold version_block (chunks_exact 64 padded) (0x67452301, 0xefcdab89, 0x98badcfe, 0x10325476) of
        (a0, b0, c0, d0) \<Rightarrow> to_le_bytes a0 @ to_le_bytes b0 @ to_le_bytes c0 @ to_le_bytes d0)"

subsection \<open>Versions and conditions\<close>

datatype VersionError = InvalidLength nat | InvalidLowerHex

definition version_from_value :: "u8 list \<Rightarrow> u8 list" where
  "version_from_value val = version_md5 val"

definition decode_lower_hex :: "u8 \<Rightarrow> u8 option" where
  "decode_lower_hex x =
     (if 48 \<le> x \<and> x \<le> 57 then Some (x - 48)
      else if 97 \<le> x \<and> x \<le> 102 then Some (x - 97 + 10) else None)"

definition decode_pair :: "u8 list \<Rightarrow> VersionError + u8" where
  "decode_pair pair =
     tryE (ok_or InvalidLowerHex (decode_lower_hex (pair ! 0))) (\<lambda>high.
     tryE (ok_or InvalidLowerHex (decode_lower_hex (pair ! 1))) (\<lambda>low.
     Inr (push_bit 4 high OR low)))"

definition parse_hex :: "utf8 \<Rightarrow> VersionError + u8 list" where
  "parse_hex val =
     (if length val \<noteq> 32 then Inl (InvalidLength (length val))
      else mapE decode_pair (chunks_exact 2 val))"

definition LOWER_HEX :: "u8 list" where "LOWER_HEX = bytes_of ''0123456789abcdef''"

definition to_hex :: "u8 list \<Rightarrow> utf8" where
  "to_hex v = concat (map (\<lambda>byte.
     [LOWER_HEX ! unat (drop_bit 4 byte), LOWER_HEX ! unat (byte AND 0x0f)]) v)"

datatype WriteCondition = Blind | CreateOnly | ExactVersion "u8 list"

definition parse_client_version :: "utf8 \<Rightarrow> VersionError + WriteCondition" where
  "parse_client_version val =
     (if val = [] then Inr Blind
      else if val = [42] then Inr CreateOnly
      else tryE (parse_hex val) (\<lambda>v. Inr (ExactVersion v)))"

definition condition_allows :: "WriteCondition \<Rightarrow> u8 list option \<Rightarrow> bool" where
  "condition_allows condition current = (case condition of
       Blind \<Rightarrow> True | CreateOnly \<Rightarrow> current = None | ExactVersion expected \<Rightarrow> current = Some expected)"

subsection \<open>The two hashes agree\<close>

lemma pad_block_eq: "pad_block m = pad_zeros m"
  by (induction m rule: pad_block.induct) (simp add: pad_block.simps pad_zeros.simps)

lemma tables_eq: "ROTATIONS = MD5_SHIFTS" "ROUND_CONSTANTS = MD5_CONSTANTS" "LOWER_HEX = HEX"
  by (simp_all only: ROTATIONS_def MD5_SHIFTS_def ROUND_CONSTANTS_def MD5_CONSTANTS_def
      LOWER_HEX_def HEX_def)

lemma table_lengths: "length MD5_SHIFTS = 64" "length MD5_CONSTANTS = 64"
  by (simp_all add: MD5_SHIFTS_def MD5_CONSTANTS_def)

lemma zip_tables:
  "zip [0..<64] (zip MD5_SHIFTS MD5_CONSTANTS) =
     map (\<lambda>i. (i, MD5_SHIFTS ! i, MD5_CONSTANTS ! i)) [0..<64]"
  by (rule nth_equalityI) (simp_all add: table_lengths)

lemma version_round_eq:
  "version_round words index = md5_step words (index, MD5_SHIFTS ! index, MD5_CONSTANTS ! index)"
  by (simp add: version_round_def md5_step_def round_function_def md5_mix_def tables_eq Let_def fun_eq_iff)

lemma rounds_eq:
  "fold (version_round words) [0..<64] s = fold (md5_step words) (zip [0..<64] (zip MD5_SHIFTS MD5_CONSTANTS)) s"
proof -
  have "version_round words = (\<lambda>i. md5_step words (i, MD5_SHIFTS ! i, MD5_CONSTANTS ! i))"
    by (rule ext) (rule version_round_eq)
  then show ?thesis by (simp add: zip_tables fold_map comp_def del: upt_Suc)
qed

lemma chunks_exact_nth:
  "0 < n \<Longrightarrow> chunks_exact n xs = map (\<lambda>i. take n (drop (i * n) xs)) [0..<length xs div n]"
proof (induction n xs rule: chunks_exact.induct)
  case (1 n xs)
  show ?case
  proof (cases "length xs < n")
    case True
    then show ?thesis by (simp add: chunks_exact.simps [of n xs])
  next
    case False
    then have len: "length xs div n = Suc ((length xs - n) div n)"
      using 1(2) by (simp add: le_div_geq)
    have "chunks_exact n xs = take n xs # map (\<lambda>i. take n (drop (i * n) (drop n xs))) [0..<length (drop n xs) div n]"
      using 1 False by (simp add: chunks_exact.simps [of n xs])
    also have "\<dots> = map (\<lambda>i. take n (drop (i * n) xs)) (0 # map Suc [0..<(length xs - n) div n])"
      by (simp add: add.commute)
    also have "0 # map Suc [0..<(length xs - n) div n] = [0..<length xs div n]"
      by (simp only: len map_Suc_upt upt_conv_Cons [of 0] zero_less_Suc)
    finally show ?thesis .
  qed
qed

lemma words_eq: "length block = 64 \<Longrightarrow> map from_le_bytes (chunks_exact 4 block) = md5_words block"
  by (simp add: chunks_exact_nth md5_words_def)

lemma version_block_eq: "length block = 64 \<Longrightarrow> version_block block s = md5_block block s"
  by (cases s) (simp add: version_block_def md5_block_def words_eq rounds_eq Let_def)

lemma blocks_length: "b \<in> set (chunks_exact 64 xs) \<Longrightarrow> length b = 64"
  by (auto simp: chunks_exact_nth)

lemma version_md5_eq: "version_md5 val = md5_digest val"
proof -
  have "fold version_block (chunks_exact 64 xs) s = fold md5_block (chunks_exact 64 xs) s" for xs s
    by (rule fold_cong) (auto simp: fun_eq_iff intro!: version_block_eq dest: blocks_length)
  then show ?thesis
    by (simp add: version_md5_def md5_digest_def md5_pad_def pad_block_eq md5_init_def Let_def)
qed

subsection \<open>Parsing\<close>

lemma decode_digit: "n < 16 \<Longrightarrow> decode_lower_hex (HEX ! n) = Some (of_nat n)"
proof -
  have "list_all2 (\<lambda>d n. decode_lower_hex d = Some (of_nat n)) HEX [0..<16]"
    by (simp add: HEX_def bytes_of_def decode_lower_hex_def upt_rec)
  then show "n < 16 \<Longrightarrow> decode_lower_hex (HEX ! n) = Some (of_nat n)"
    by (simp add: list_all2_conv_all_nth)
qed

lemma decode_nibbles:
  "decode_lower_hex (HEX ! unat (drop_bit 4 b)) = Some (drop_bit 4 b)"
  "decode_lower_hex (HEX ! unat (b AND 0x0f)) = Some (b AND 0x0f)"
  "push_bit 4 (drop_bit 4 b) OR (b AND 0x0f) = (b :: u8)"
proof -
  have "list_all (\<lambda>b :: u8. push_bit 4 (drop_bit 4 b) OR (b AND 0x0f) = b) (map of_nat [0..<256])"
    by code_simp
  from all_u8I [OF this, of b] show "push_bit 4 (drop_bit 4 b) OR (b AND 0x0f) = b" .
qed (simp_all add: decode_digit nibbles)

lemma decode_to_hex: "mapE decode_pair (chunks_exact 2 (to_hex v)) = Inr v"
proof (induction v)
  case Nil
  show ?case by (simp add: to_hex_def chunks_exact.simps [of 2 "[]"])
next
  case (Cons b v)
  have "chunks_exact 2 (to_hex (b # v)) =
      [HEX ! unat (drop_bit 4 b), HEX ! unat (b AND 0x0f)] # chunks_exact 2 (to_hex v)"
    by (simp add: to_hex_def tables_eq chunks_exact.simps [of 2 "_ # _"])
  then show ?case using Cons decode_nibbles [of b] by (simp add: decode_pair_def)
qed

lemma length_to_hex: "length (to_hex v) = 2 * length v"
  by (induction v) (simp_all add: to_hex_def)

text \<open>
  The two implementations of storage versions agree: the public version of a value, written
  as text, is the content version the storage engine gives the value, and a client that sends
  this text back gets the condition that exactly this version allows the write.
\<close>

theorem storage_versions_agree:
  "to_hex (version_from_value val) = ContentVersion_from_value val \<and>
   parse_client_version (ContentVersion_from_value val) = Inr (ExactVersion (version_from_value val)) \<and>
   (condition_allows (ExactVersion (version_from_value val)) (Some (version_from_value val')) \<longleftrightarrow>
      ContentVersion_from_value val' = ContentVersion_from_value val)"
proof -
  have agree: "to_hex (version_from_value v) = ContentVersion_from_value v" for v
    by (simp add: to_hex_def ContentVersion_from_value_def version_from_value_def version_md5_eq tables_eq)
  have len: "length (ContentVersion_from_value val) = 32" by (rule version_shape)
  have "parse_hex (ContentVersion_from_value val) = Inr (version_from_value val)"
    using len decode_to_hex [of "version_from_value val"] by (simp add: parse_hex_def agree)
  then have "parse_client_version (ContentVersion_from_value val) = Inr (ExactVersion (version_from_value val))"
    using len by (auto simp: parse_client_version_def)
  moreover have "version_from_value val' = version_from_value val \<longleftrightarrow>
      ContentVersion_from_value val' = ContentVersion_from_value val"
    by (metis agree decode_to_hex sum.inject(2))
  ultimately show ?thesis using agree by (auto simp: condition_allows_def)
qed

end
