(* ===== verification/Key_Epoch.thy ===== *)
theory Key_Epoch
  imports Contracts
begin

text \<open>
  The registry of operational key epochs
  (\<open>crates/trnm-token-crypto-provider/src/key_epoch.rs\<close>): installation, rotation, expiry and
  revocation of signing keys, and their archival behind checkpoints. The archive verifier is a
  trait without an implementation in the repository's library code: a record of functions here.
  Times are signed 64-bit seconds that are only compared: integers. Epochs and key identities
  are nonzero, as their constructors check.
\<close>

subsection \<open>Records and errors\<close>

definition MAX_OPERATIONAL_KEY_EPOCHS :: usize where "MAX_OPERATIONAL_KEY_EPOCHS = 8"

datatype KeyEpochState = EpochActive | EpochVerifyOnly int | EpochRetired int | EpochRevoked int

record KeyEpochRecord =
  ke_epoch :: u64
  ke_key_id :: id16
  ke_state :: KeyEpochState
  ke_activated_at :: int

record KeyEpochArchiveCheckpoint =
  kc_sequence :: u64
  kc_previous_archive_digest :: "digest32 option"
  kc_archive_digest :: digest32
  kc_highest_epoch :: u64
  kc_last_lifecycle_time :: int
  kc_authority_lost_epoch :: "u64 option"
  kc_active :: "u64 option"
  kc_retained_records :: "KeyEpochRecord list"
  kc_archived_records :: "KeyEpochRecord list"

record KeyEpochArchiveVerifier =
  verify_checkpoint :: "KeyEpochArchiveCheckpoint \<Rightarrow> bool"
  key_id_is_absent :: "KeyEpochArchiveCheckpoint \<Rightarrow> id16 \<Rightarrow> bool"

datatype KeyEpochError =
    ZeroEpoch | ZeroKeyId | ZeroCapacity
  | CapacityTooLarge usize usize
  | CapacityExceeded usize
  | AlreadyInitialized | NotInitialized
  | EpochNotFound u64
  | EpochArchived u64 digest32
  | NonContiguousRotation u64 u64
  | KeyIdReused id16
  | ActivationTimeRegression int int
  | InvalidOverlap | NoActiveSigner
  | SignerNotYetActive u64 int int
  | EpochNotUsableForVerification u64
  | EpochIsRevoked u64
  | RevocationBeforeActivation u64 int int
  | ReplacementRequiresRevokedEpoch u64
  | EpochTerminal u64
  | ZeroArchiveDigest | NoTerminalEpochs | ArchiveVerificationRequired | ArchiveVerificationFailed
  | CheckpointInvalid string
  | CheckpointVerificationFailed | ArchiveSequenceExhausted

definition KeyEpoch_new :: "u64 \<Rightarrow> KeyEpochError + u64" where
  "KeyEpoch_new n = (if n = 0 then Inl ZeroEpoch else Inr n)"

definition KeyId_new :: "id16 \<Rightarrow> KeyEpochError + id16" where
  "KeyId_new k = (if id_is_zero k then Inl ZeroKeyId else Inr k)"

record KeyEpochRegistry =
  kr_capacity :: usize
  kr_active :: "u64 option"
  kr_records :: "(u64, KeyEpochRecord) fmap"
  kr_used_key_ids :: "id16 fset"
  kr_highest_epoch :: "u64 option"
  kr_last_lifecycle_time :: "int option"
  kr_authority_lost_epoch :: "u64 option"
  kr_checkpoint :: "KeyEpochArchiveCheckpoint option"
  kr_next_archive_sequence :: u64

definition KeyEpochRegistry_default :: KeyEpochRegistry where
  "KeyEpochRegistry_default = \<lparr>kr_capacity = MAX_OPERATIONAL_KEY_EPOCHS, kr_active = None,
     kr_records = fmempty, kr_used_key_ids = {||}, kr_highest_epoch = None,
     kr_last_lifecycle_time = None, kr_authority_lost_epoch = None, kr_checkpoint = None,
     kr_next_archive_sequence = 1\<rparr>"

definition validate_capacity :: "usize \<Rightarrow> KeyEpochError + unit" where
  "validate_capacity capacity =
     (if capacity = 0 then Inl ZeroCapacity
      else if capacity > MAX_OPERATIONAL_KEY_EPOCHS
      then Inl (CapacityTooLarge capacity MAX_OPERATIONAL_KEY_EPOCHS) else Inr ())"

definition with_capacity :: "usize \<Rightarrow> KeyEpochError + KeyEpochRegistry" where
  "with_capacity capacity =
     tryE (validate_capacity capacity) (\<lambda>_.
     Inr (KeyEpochRegistry_default\<lparr>kr_capacity := capacity\<rparr>))"

subsection \<open>The shape of a checkpoint\<close>

definition check_archived ::
    "KeyEpochArchiveCheckpoint \<Rightarrow> KeyEpochRecord \<Rightarrow> u64 fset \<times> id16 fset \<Rightarrow>
     KeyEpochError + u64 fset \<times> id16 fset" where
  "check_archived checkpoint r = (\<lambda>(epochs, key_ids).
     tryE (case ke_state r of
         EpochRetired t \<Rightarrow> Inr t
       | EpochRevoked t \<Rightarrow> Inr t
       | _ \<Rightarrow> Inl (CheckpointInvalid ''archive contains nonterminal record'')) (\<lambda>terminal_time.
     if terminal_time < ke_activated_at r
     then Inl (CheckpointInvalid ''terminal lifecycle time precedes activation'')
     else if terminal_time > kc_last_lifecycle_time checkpoint
     then Inl (CheckpointInvalid ''terminal lifecycle time exceeds the checkpoint high-water'')
     else if ke_epoch r |\<in>| epochs \<or> ke_key_id r |\<in>| key_ids
     then Inl (CheckpointInvalid ''duplicate archived epoch or key id'')
     else Inr (finsert (ke_epoch r) epochs, finsert (ke_key_id r) key_ids)))"

definition check_retained ::
    "KeyEpochRecord \<Rightarrow> u64 fset \<times> id16 fset \<times> usize \<Rightarrow> KeyEpochError + u64 fset \<times> id16 fset \<times> usize" where
  "check_retained r = (\<lambda>(epochs, key_ids, active_count).
     tryE (case ke_state r of
         EpochActive \<Rightarrow>
           ok_or (CheckpointInvalid ''active record count overflow'') (usize_checked_add active_count 1)
       | EpochVerifyOnly t \<Rightarrow>
           if t \<le> ke_activated_at r
           then Inl (CheckpointInvalid ''verify-only retirement does not follow activation'')
           else Inr active_count
       | _ \<Rightarrow> Inl (CheckpointInvalid ''retained set contains terminal record'')) (\<lambda>count.
     if ke_epoch r |\<in>| epochs \<or> ke_key_id r |\<in>| key_ids
     then Inl (CheckpointInvalid ''duplicate retained epoch or key id'')
     else Inr (finsert (ke_epoch r) epochs, finsert (ke_key_id r) key_ids, count)))"

definition check_predecessor :: "KeyEpochArchiveCheckpoint \<Rightarrow> KeyEpochError + bool" where
  "check_predecessor checkpoint =
     (if kc_sequence checkpoint = 1
      then (case kc_previous_archive_digest checkpoint of
          None \<Rightarrow> Inr False
        | Some _ \<Rightarrow> Inl (CheckpointInvalid ''first checkpoint cannot name a predecessor''))
      else (case kc_previous_archive_digest checkpoint of
          Some digest \<Rightarrow>
            if \<not> id_is_zero digest then Inr True
            else Inl (CheckpointInvalid ''predecessor archive digest must not be zero'')
        | None \<Rightarrow> Inl (CheckpointInvalid ''chained checkpoint requires a predecessor digest'')))"

definition state_revoked :: "KeyEpochState \<Rightarrow> bool" where
  "state_revoked st = (case st of EpochRevoked _ \<Rightarrow> True | _ \<Rightarrow> False)"

definition check_binding ::
    "KeyEpochArchiveCheckpoint \<Rightarrow> usize \<Rightarrow> bool \<Rightarrow> KeyEpochError + unit" where
  "check_binding checkpoint active_count predecessor_authenticated = (case kc_active checkpoint of
       Some active \<Rightarrow>
         if active_count \<noteq> 1
         then Inl (CheckpointInvalid ''active checkpoint must retain exactly one active record'')
         else if active \<noteq> kc_highest_epoch checkpoint \<or> kc_authority_lost_epoch checkpoint \<noteq> None \<or>
           \<not> list_ex (\<lambda>r. ke_epoch r = active \<and> ke_state r = EpochActive) (kc_retained_records checkpoint)
         then Inl (CheckpointInvalid ''active epoch binding is inconsistent'') else Inr ()
     | None \<Rightarrow>
         if active_count \<noteq> 0
         then Inl (CheckpointInvalid ''authority-loss checkpoint cannot retain an active record'')
         else if kc_authority_lost_epoch checkpoint \<noteq> Some (kc_highest_epoch checkpoint) \<or>
           \<not> list_ex (\<lambda>r. ke_epoch r = kc_highest_epoch checkpoint \<and> state_revoked (ke_state r))
               (kc_archived_records checkpoint) \<and> \<not> predecessor_authenticated
         then Inl (CheckpointInvalid ''authority-loss checkpoint is inconsistent'') else Inr ())"

definition validate_checkpoint_shape :: "KeyEpochArchiveCheckpoint \<Rightarrow> usize \<Rightarrow> KeyEpochError + unit" where
  "validate_checkpoint_shape checkpoint capacity =
     (if kc_sequence checkpoint = 0 then Inl (CheckpointInvalid ''zero archive sequence'')
      else if id_is_zero (kc_archive_digest checkpoint) then Inl ZeroArchiveDigest
      else if kc_archived_records checkpoint = [] then Inl NoTerminalEpochs
      else if length (kc_retained_records checkpoint) > capacity
      then Inl (CheckpointInvalid ''retained records exceed operational capacity'')
      else
      tryE (foldE (check_archived checkpoint) (kc_archived_records checkpoint) ({||}, {||})) (\<lambda>(epochs, key_ids).
      tryE (foldE check_retained (kc_retained_records checkpoint) (epochs, key_ids, 0))
        (\<lambda>(epochs, key_ids, active_count).
      if epochs = {||} then Inl (CheckpointInvalid ''empty checkpoint'')
      else
      let highest_in_batch = fMax epochs in
      if highest_in_batch > kc_highest_epoch checkpoint
      then Inl (CheckpointInvalid ''checkpoint record exceeds the monotonic high-water'')
      else
      tryE (check_predecessor checkpoint) (\<lambda>predecessor_authenticated.
      if highest_in_batch < kc_highest_epoch checkpoint \<and> \<not> predecessor_authenticated
      then Inl (CheckpointInvalid ''historical high-water requires an authenticated predecessor'')
      else if list_ex (\<lambda>r. ke_activated_at r > kc_last_lifecycle_time checkpoint)
          (kc_retained_records checkpoint @ kc_archived_records checkpoint)
      then Inl (CheckpointInvalid ''lifecycle time precedes an activation'')
      else check_binding checkpoint active_count predecessor_authenticated))))"

definition key_registry_from_checkpoint ::
    "usize \<Rightarrow> KeyEpochArchiveCheckpoint \<Rightarrow> KeyEpochArchiveVerifier \<Rightarrow> KeyEpochError + KeyEpochRegistry" where
  "key_registry_from_checkpoint capacity checkpoint verifier =
     tryE (validate_capacity capacity) (\<lambda>_.
     tryE (validate_checkpoint_shape checkpoint capacity) (\<lambda>_.
     if \<not> verify_checkpoint verifier checkpoint then Inl CheckpointVerificationFailed
     else
     tryE (ok_or ArchiveSequenceExhausted (checked_add (kc_sequence checkpoint) 1)) (\<lambda>next_archive_sequence.
     Inr \<lparr>kr_capacity = capacity, kr_active = kc_active checkpoint,
          kr_records = fold (\<lambda>r m. fmupd (ke_epoch r) r m) (kc_retained_records checkpoint) fmempty,
          kr_used_key_ids = fold (\<lambda>r s. finsert (ke_key_id r) s) (kc_retained_records checkpoint) {||},
          kr_highest_epoch = Some (kc_highest_epoch checkpoint),
          kr_last_lifecycle_time = Some (kc_last_lifecycle_time checkpoint),
          kr_authority_lost_epoch = kc_authority_lost_epoch checkpoint,
          kr_checkpoint = Some checkpoint, kr_next_archive_sequence = next_archive_sequence\<rparr>)))"

subsection \<open>Installing keys\<close>

definition key_require_capacity :: "KeyEpochRegistry \<Rightarrow> KeyEpochError + unit" where
  "key_require_capacity s =
     (if fmap_len (kr_records s) \<ge> kr_capacity s then Inl (CapacityExceeded (kr_capacity s)) else Inr ())"

definition install :: "KeyEpochRecord \<Rightarrow> KeyEpochRegistry \<Rightarrow> KeyEpochRegistry" where
  "install r s = s\<lparr>kr_records := fmupd (ke_epoch r) r (kr_records s),
     kr_used_key_ids := finsert (ke_key_id r) (kr_used_key_ids s), kr_active := Some (ke_epoch r),
     kr_highest_epoch := Some (ke_epoch r), kr_last_lifecycle_time := Some (ke_activated_at r),
     kr_authority_lost_epoch := None\<rparr>"

definition key_initialize ::
    "u64 \<Rightarrow> id16 \<Rightarrow> int \<Rightarrow> KeyEpochRegistry \<Rightarrow> KeyEpochRegistry \<times> (KeyEpochError + KeyEpochRecord)" where
  "key_initialize epoch key_id activated_at s = commit_candidate s (
     if kr_highest_epoch s \<noteq> None \<or> kr_active s \<noteq> None \<or> kr_records s \<noteq> fmempty
     then Inl AlreadyInitialized
     else
     tryE (key_require_capacity s) (\<lambda>_.
     let r = \<lparr>ke_epoch = epoch, ke_key_id = key_id, ke_state = EpochActive,
              ke_activated_at = activated_at\<rparr> in
     Inr (install r s, r)))"

definition active_record :: "KeyEpochRegistry \<Rightarrow> KeyEpochError + KeyEpochRecord" where
  "active_record s =
     tryE (ok_or NoActiveSigner (kr_active s)) (\<lambda>epoch.
     tryE (ok_or (EpochNotFound epoch) (fmlookup (kr_records s) epoch)) (\<lambda>r.
     if ke_state r \<noteq> EpochActive then Inl NoActiveSigner else Inr r))"

definition active_signer_at :: "KeyEpochRegistry \<Rightarrow> int \<Rightarrow> KeyEpochError + KeyEpochRecord" where
  "active_signer_at s now =
     tryE (active_record s) (\<lambda>r.
     if now < ke_activated_at r then Inl (SignerNotYetActive (ke_epoch r) (ke_activated_at r) now)
     else Inr r)"

definition validate_next_epoch ::
    "KeyEpochRegistry \<Rightarrow> u64 \<Rightarrow> int \<Rightarrow> u64 \<Rightarrow> id16 \<Rightarrow> int \<Rightarrow> KeyEpochArchiveVerifier option \<Rightarrow>
     KeyEpochError + unit" where
  "validate_next_epoch s current_epoch previous_time next_epoch next_key_id activated_at verifier =
     tryE (ok_or (NonContiguousRotation current_epoch next_epoch) (checked_add current_epoch 1)) (\<lambda>expected.
     if next_epoch \<noteq> expected then Inl (NonContiguousRotation current_epoch next_epoch)
     else if next_key_id |\<in>| kr_used_key_ids s then Inl (KeyIdReused next_key_id)
     else
     tryE (case kr_checkpoint s of
         None \<Rightarrow> Inr ()
       | Some checkpoint \<Rightarrow>
           tryE (ok_or ArchiveVerificationRequired verifier) (\<lambda>v.
           if \<not> verify_checkpoint v checkpoint then Inl ArchiveVerificationFailed
           else if \<not> key_id_is_absent v checkpoint next_key_id then Inl (KeyIdReused next_key_id)
           else Inr ())) (\<lambda>_.
     if activated_at \<le> previous_time then Inl (ActivationTimeRegression previous_time activated_at)
     else key_require_capacity s))"

definition rotate_inner ::
    "u64 \<Rightarrow> id16 \<Rightarrow> int \<Rightarrow> int \<Rightarrow> KeyEpochArchiveVerifier option \<Rightarrow> KeyEpochRegistry \<Rightarrow>
     KeyEpochRegistry \<times> (KeyEpochError + KeyEpochRecord)" where
  "rotate_inner next_epoch next_key_id activated_at previous_retire_after verifier s = commit_candidate s (
     tryE (active_record s) (\<lambda>current.
     tryE (ok_or NotInitialized (kr_highest_epoch s)) (\<lambda>highest.
     if ke_epoch current \<noteq> highest
     then Inl (CheckpointInvalid ''active epoch is not the monotonic high-water'')
     else
     tryE (ok_or NotInitialized (kr_last_lifecycle_time s)) (\<lambda>previous_time.
     tryE (validate_next_epoch s highest previous_time next_epoch next_key_id activated_at verifier) (\<lambda>_.
     if previous_retire_after \<le> activated_at then Inl InvalidOverlap
     else
     let previous = current\<lparr>ke_state := EpochVerifyOnly previous_retire_after\<rparr>;
         nxt = \<lparr>ke_epoch = next_epoch, ke_key_id = next_key_id, ke_state = EpochActive,
                ke_activated_at = activated_at\<rparr>;
         s1 = s\<lparr>kr_records := fmupd (ke_epoch current) previous (kr_records s)\<rparr>
     in Inr (install nxt s1, nxt))))))"

definition rotate_key ::
    "u64 \<Rightarrow> id16 \<Rightarrow> int \<Rightarrow> int \<Rightarrow> KeyEpochRegistry \<Rightarrow> KeyEpochRegistry \<times> (KeyEpochError + KeyEpochRecord)" where
  "rotate_key next_epoch next_key_id activated_at previous_retire_after s =
     rotate_inner next_epoch next_key_id activated_at previous_retire_after None s"

definition rotate_with_archive_verifier ::
    "u64 \<Rightarrow> id16 \<Rightarrow> int \<Rightarrow> int \<Rightarrow> KeyEpochArchiveVerifier \<Rightarrow> KeyEpochRegistry \<Rightarrow>
     KeyEpochRegistry \<times> (KeyEpochError + KeyEpochRecord)" where
  "rotate_with_archive_verifier next_epoch next_key_id activated_at previous_retire_after verifier s =
     rotate_inner next_epoch next_key_id activated_at previous_retire_after (Some verifier) s"

definition install_after_revocation_inner ::
    "u64 \<Rightarrow> id16 \<Rightarrow> int \<Rightarrow> KeyEpochArchiveVerifier option \<Rightarrow> KeyEpochRegistry \<Rightarrow>
     KeyEpochRegistry \<times> (KeyEpochError + KeyEpochRecord)" where
  "install_after_revocation_inner next_epoch next_key_id activated_at verifier s = commit_candidate s (
     if kr_active s \<noteq> None then Inl AlreadyInitialized
     else
     tryE (ok_or NotInitialized (kr_highest_epoch s)) (\<lambda>highest.
     if kr_authority_lost_epoch s \<noteq> Some highest then Inl (ReplacementRequiresRevokedEpoch highest)
     else
     tryE (ok_or NotInitialized (kr_last_lifecycle_time s)) (\<lambda>previous_time.
     tryE (validate_next_epoch s highest previous_time next_epoch next_key_id activated_at verifier) (\<lambda>_.
     let nxt = \<lparr>ke_epoch = next_epoch, ke_key_id = next_key_id, ke_state = EpochActive,
                ke_activated_at = activated_at\<rparr>
     in Inr (install nxt s, nxt)))))"

definition install_after_revocation ::
    "u64 \<Rightarrow> id16 \<Rightarrow> int \<Rightarrow> KeyEpochRegistry \<Rightarrow> KeyEpochRegistry \<times> (KeyEpochError + KeyEpochRecord)" where
  "install_after_revocation next_epoch next_key_id activated_at s =
     install_after_revocation_inner next_epoch next_key_id activated_at None s"

definition install_after_revocation_with_archive_verifier ::
    "u64 \<Rightarrow> id16 \<Rightarrow> int \<Rightarrow> KeyEpochArchiveVerifier \<Rightarrow> KeyEpochRegistry \<Rightarrow>
     KeyEpochRegistry \<times> (KeyEpochError + KeyEpochRecord)" where
  "install_after_revocation_with_archive_verifier next_epoch next_key_id activated_at verifier s =
     install_after_revocation_inner next_epoch next_key_id activated_at (Some verifier) s"

subsection \<open>Verification, expiry, revocation\<close>

definition verification_key :: "KeyEpochRegistry \<Rightarrow> u64 \<Rightarrow> int \<Rightarrow> KeyEpochError + KeyEpochRecord" where
  "verification_key s epoch now = (case fmlookup (kr_records s) epoch of
       None \<Rightarrow>
         (case (kr_checkpoint s, kr_highest_epoch s) of
            (Some checkpoint, Some highest) \<Rightarrow>
              if epoch \<le> highest then Inl (EpochArchived epoch (kc_archive_digest checkpoint))
              else Inl (EpochNotFound epoch)
          | _ \<Rightarrow> Inl (EpochNotFound epoch))
     | Some r \<Rightarrow>
         if now < ke_activated_at r then Inl (SignerNotYetActive epoch (ke_activated_at r) now)
         else (case ke_state r of
             EpochActive \<Rightarrow> Inr r
           | EpochVerifyOnly retire_after \<Rightarrow>
               if now \<le> retire_after then Inr r else Inl (EpochNotUsableForVerification epoch)
           | EpochRetired _ \<Rightarrow> Inl (EpochNotUsableForVerification epoch)
           | EpochRevoked _ \<Rightarrow> Inl (EpochIsRevoked epoch)))"

definition expired_at :: "int \<Rightarrow> KeyEpochRecord \<Rightarrow> int option" where
  "expired_at now r = (case ke_state r of
       EpochVerifyOnly retire_after \<Rightarrow> if now > retire_after then Some retire_after else None
     | _ \<Rightarrow> None)"

definition retire_record :: "int \<Rightarrow> KeyEpochRecord \<Rightarrow> KeyEpochRecord" where
  "retire_record now r = (case expired_at now r of None \<Rightarrow> r | Some t \<Rightarrow> r\<lparr>ke_state := EpochRetired t\<rparr>)"

definition max_time :: "int \<Rightarrow> int option \<Rightarrow> int option" where
  "max_time t latest = (case latest of None \<Rightarrow> Some t | Some v \<Rightarrow> Some (max v t))"

definition retire_expired :: "int \<Rightarrow> KeyEpochRegistry \<Rightarrow> KeyEpochRegistry \<times> usize" where
  "retire_expired now s =
     (let times = List.map_filter (\<lambda>(_, r). expired_at now r) (entries_in_order (kr_records s))
      in (s\<lparr>kr_records := fmmap (retire_record now) (kr_records s),
            kr_last_lifecycle_time := fold max_time times (kr_last_lifecycle_time s)\<rparr>, length times))"

definition revoke_key ::
    "u64 \<Rightarrow> int \<Rightarrow> KeyEpochRegistry \<Rightarrow> KeyEpochRegistry \<times> (KeyEpochError + KeyEpochRecord)" where
  "revoke_key epoch revoked_at s = commit_candidate s (
     tryE (ok_or (EpochNotFound epoch) (fmlookup (kr_records s) epoch)) (\<lambda>current.
     if revoked_at < ke_activated_at current
     then Inl (RevocationBeforeActivation epoch (ke_activated_at current) revoked_at)
     else (case ke_state current of
         EpochRetired _ \<Rightarrow> Inl (EpochTerminal epoch)
       | EpochRevoked _ \<Rightarrow> Inr (s, current)
       | _ \<Rightarrow>
           let nxt = current\<lparr>ke_state := EpochRevoked revoked_at\<rparr>;
               s1 = s\<lparr>kr_records := fmupd epoch nxt (kr_records s),
                      kr_last_lifecycle_time := max_time revoked_at (kr_last_lifecycle_time s)\<rparr>;
               s2 = (if kr_active s1 = Some epoch
                     then s1\<lparr>kr_active := None, kr_authority_lost_epoch := Some epoch\<rparr> else s1)
           in Inr (s2, nxt))))"

subsection \<open>Archival\<close>

definition state_terminal :: "KeyEpochState \<Rightarrow> bool" where
  "state_terminal st = (case st of EpochRetired _ \<Rightarrow> True | EpochRevoked _ \<Rightarrow> True | _ \<Rightarrow> False)"

definition key_archive_terminal ::
    "digest32 \<Rightarrow> KeyEpochArchiveVerifier \<Rightarrow> KeyEpochRegistry \<Rightarrow>
     KeyEpochRegistry \<times> (KeyEpochError + KeyEpochArchiveCheckpoint)" where
  "key_archive_terminal archive_digest verifier s = commit_candidate s (
     if id_is_zero archive_digest then Inl ZeroArchiveDigest
     else
     let records = map snd (entries_in_order (kr_records s));
         archived = filter (\<lambda>r. state_terminal (ke_state r)) records;
         retained = filter (\<lambda>r. \<not> state_terminal (ke_state r)) records in
     if archived = [] then Inl NoTerminalEpochs
     else
     tryE (ok_or NotInitialized (kr_highest_epoch s)) (\<lambda>highest.
     tryE (ok_or NotInitialized (kr_last_lifecycle_time s)) (\<lambda>last_time.
     let checkpoint = \<lparr>kc_sequence = kr_next_archive_sequence s,
           kc_previous_archive_digest = map_option kc_archive_digest (kr_checkpoint s),
           kc_archive_digest = archive_digest, kc_highest_epoch = highest,
           kc_last_lifecycle_time = last_time, kc_authority_lost_epoch = kr_authority_lost_epoch s,
           kc_active = kr_active s, kc_retained_records = retained, kc_archived_records = archived\<rparr> in
     tryE (validate_checkpoint_shape checkpoint (kr_capacity s)) (\<lambda>_.
     if \<not> verify_checkpoint verifier checkpoint then Inl ArchiveVerificationFailed
     else
     tryE (ok_or ArchiveSequenceExhausted (checked_add (kr_next_archive_sequence s) 1)) (\<lambda>next_archive_sequence.
     Inr (s\<lparr>kr_records := fold (\<lambda>r m. fmdrop (ke_epoch r) m) archived (kr_records s),
            kr_used_key_ids := fold (\<lambda>r ids. ids |-| {|ke_key_id r|}) archived (kr_used_key_ids s),
            kr_checkpoint := Some checkpoint, kr_next_archive_sequence := next_archive_sequence\<rparr>,
          checkpoint))))))"

definition key_record :: "KeyEpochRegistry \<Rightarrow> u64 \<Rightarrow> KeyEpochRecord option" where
  "key_record s epoch = fmlookup (kr_records s) epoch"

end
