(* ===== verification/Key_Epoch_Proofs.thy ===== *)
theory Key_Epoch_Proofs
  imports Key_Epoch Machine
begin

text \<open>
  Correctness of the key epochs: the checks a registry makes on its own checkpoints succeed and a
  checkpoint restores the registry it was taken from; a revoked or retired key is out for good;
  epochs and activation times only go up and, with a verifier that answers truthfully for the
  archive, no key identity is used twice.
\<close>

subsection \<open>The shape of a checkpoint\<close>

definition archived_ok :: "int \<Rightarrow> KeyEpochRecord \<Rightarrow> bool" where
  "archived_ok last_time r \<longleftrightarrow> (case ke_state r of
       EpochRetired t \<Rightarrow> ke_activated_at r \<le> t \<and> t \<le> last_time
     | EpochRevoked t \<Rightarrow> ke_activated_at r \<le> t \<and> t \<le> last_time
     | _ \<Rightarrow> False)"

definition retained_ok :: "KeyEpochRecord \<Rightarrow> bool" where
  "retained_ok r \<longleftrightarrow> (case ke_state r of
       EpochActive \<Rightarrow> True | EpochVerifyOnly t \<Rightarrow> ke_activated_at r < t | _ \<Rightarrow> False)"

definition fresh_records :: "u64 fset \<Rightarrow> id16 fset \<Rightarrow> KeyEpochRecord list \<Rightarrow> bool" where
  "fresh_records E K rs \<longleftrightarrow> distinct (map ke_epoch rs) \<and> distinct (map ke_key_id rs) \<and>
     ke_epoch ` set rs \<inter> fset E = {} \<and> ke_key_id ` set rs \<inter> fset K = {}"

lemma fresh_records_Cons:
  "fresh_records E K (r # rs) \<longleftrightarrow> ke_epoch r |\<notin>| E \<and> ke_key_id r |\<notin>| K \<and>
     fresh_records (finsert (ke_epoch r) E) (finsert (ke_key_id r) K) rs"
  by (auto simp: fresh_records_def)

lemma check_archived_iff:
  "check_archived cp r (E, K) = Inr x \<longleftrightarrow> archived_ok (kc_last_lifecycle_time cp) r \<and>
     ke_epoch r |\<notin>| E \<and> ke_key_id r |\<notin>| K \<and> x = (finsert (ke_epoch r) E, finsert (ke_key_id r) K)"
  by (cases "ke_state r") (auto simp: check_archived_def archived_ok_def)

lemma archived_loop:
  "foldE (check_archived cp) rs (E, K) = Inr x \<longleftrightarrow>
     (\<forall>r \<in> set rs. archived_ok (kc_last_lifecycle_time cp) r) \<and> fresh_records E K rs \<and>
     x = (fset_of_list (map ke_epoch rs) |\<union>| E, fset_of_list (map ke_key_id rs) |\<union>| K)"
proof (induction rs arbitrary: E K)
  case Nil
  then show ?case by (auto simp: fresh_records_def)
next
  case (Cons r rs)
  have "foldE (check_archived cp) (r # rs) (E, K) = Inr x \<longleftrightarrow>
      archived_ok (kc_last_lifecycle_time cp) r \<and> ke_epoch r |\<notin>| E \<and> ke_key_id r |\<notin>| K \<and>
      foldE (check_archived cp) rs (finsert (ke_epoch r) E, finsert (ke_key_id r) K) = Inr x"
    by (auto simp: check_archived_iff)
  then show ?case unfolding Cons fresh_records_Cons by auto
qed

definition active_number :: "KeyEpochRecord list \<Rightarrow> nat" where
  "active_number rs = length (filter (\<lambda>r. ke_state r = EpochActive) rs)"

lemma check_retained_iff:
  "n + 1 < 2 ^ 64 \<Longrightarrow> check_retained r (E, K, n) = Inr x \<longleftrightarrow> retained_ok r \<and>
     ke_epoch r |\<notin>| E \<and> ke_key_id r |\<notin>| K \<and>
     x = (finsert (ke_epoch r) E, finsert (ke_key_id r) K, n + active_number [r])"
  by (cases "ke_state r") (auto simp: check_retained_def retained_ok_def active_number_def usize_checked_add_def)

lemma retained_loop:
  "n + length rs < 2 ^ 64 \<Longrightarrow> foldE check_retained rs (E, K, n) = Inr x \<longleftrightarrow>
     (\<forall>r \<in> set rs. retained_ok r) \<and> fresh_records E K rs \<and>
     x = (fset_of_list (map ke_epoch rs) |\<union>| E, fset_of_list (map ke_key_id rs) |\<union>| K, n + active_number rs)"
proof (induction rs arbitrary: E K n)
  case Nil
  then show ?case by (auto simp: fresh_records_def active_number_def)
next
  case (Cons r rs)
  have "foldE check_retained (r # rs) (E, K, n) = Inr x \<longleftrightarrow>
      retained_ok r \<and> ke_epoch r |\<notin>| E \<and> ke_key_id r |\<notin>| K \<and>
      foldE check_retained rs (finsert (ke_epoch r) E, finsert (ke_key_id r) K, n + active_number [r]) = Inr x"
    using check_retained_iff [of n r E K] Cons.prems by auto
  moreover have "n + active_number [r] + length rs < 2 ^ 64"
    using Cons.prems by (simp add: active_number_def split: if_splits)
  ultimately show ?case unfolding fresh_records_Cons
    using Cons.IH [of "n + active_number [r]"] by (auto simp: active_number_def)
qed

text \<open>What a valid checkpoint is, without the loops.\<close>

definition binding_ok :: "KeyEpochArchiveCheckpoint \<Rightarrow> bool" where
  "binding_ok cp \<longleftrightarrow> (case kc_active cp of
       Some a \<Rightarrow> active_number (kc_retained_records cp) = 1 \<and> a = kc_highest_epoch cp \<and>
         kc_authority_lost_epoch cp = None \<and>
         (\<exists>r \<in> set (kc_retained_records cp). ke_epoch r = a \<and> ke_state r = EpochActive)
     | None \<Rightarrow> active_number (kc_retained_records cp) = 0 \<and>
         kc_authority_lost_epoch cp = Some (kc_highest_epoch cp) \<and>
         ((\<exists>r \<in> set (kc_archived_records cp). ke_epoch r = kc_highest_epoch cp \<and> state_revoked (ke_state r)) \<or>
          kc_sequence cp \<noteq> 1))"

definition checkpoint_ok :: "KeyEpochArchiveCheckpoint \<Rightarrow> usize \<Rightarrow> bool" where
  "checkpoint_ok cp capacity \<longleftrightarrow> kc_sequence cp \<noteq> 0 \<and> kc_archive_digest cp \<noteq> 0 \<and>
     kc_archived_records cp \<noteq> [] \<and> length (kc_retained_records cp) \<le> capacity \<and>
     (\<forall>r \<in> set (kc_archived_records cp). archived_ok (kc_last_lifecycle_time cp) r) \<and>
     (\<forall>r \<in> set (kc_retained_records cp). retained_ok r) \<and>
     fresh_records {||} {||} (kc_archived_records cp @ kc_retained_records cp) \<and>
     (\<forall>r \<in> set (kc_archived_records cp @ kc_retained_records cp).
        ke_epoch r \<le> kc_highest_epoch cp \<and> ke_activated_at r \<le> kc_last_lifecycle_time cp) \<and>
     (if kc_sequence cp = 1
      then kc_previous_archive_digest cp = None \<and>
        (\<exists>r \<in> set (kc_archived_records cp @ kc_retained_records cp). ke_epoch r = kc_highest_epoch cp)
      else \<exists>d. kc_previous_archive_digest cp = Some d \<and> d \<noteq> 0) \<and>
     binding_ok cp"

lemma fresh_records_append:
  "fresh_records E K (rs @ qs) \<longleftrightarrow> fresh_records E K rs \<and>
     fresh_records (fset_of_list (map ke_epoch rs) |\<union>| E) (fset_of_list (map ke_key_id rs) |\<union>| K) qs"
  by (simp add: fresh_records_def fset_of_list.rep_eq Int_Un_distrib Int_Un_distrib2 image_Un
      Int_commute conj_ac)

lemma check_predecessor_iff:
  "check_predecessor cp = Inr b \<longleftrightarrow>
     (if kc_sequence cp = 1 then kc_previous_archive_digest cp = None \<and> \<not> b
      else (\<exists>d. kc_previous_archive_digest cp = Some d \<and> d \<noteq> 0) \<and> b)"
  by (auto simp: check_predecessor_def split: option.splits)

lemma check_binding_iff:
  "check_binding cp (active_number (kc_retained_records cp)) b = Inr u \<longleftrightarrow> (case kc_active cp of
       Some a \<Rightarrow> active_number (kc_retained_records cp) = 1 \<and> a = kc_highest_epoch cp \<and>
         kc_authority_lost_epoch cp = None \<and>
         (\<exists>r \<in> set (kc_retained_records cp). ke_epoch r = a \<and> ke_state r = EpochActive)
     | None \<Rightarrow> active_number (kc_retained_records cp) = 0 \<and>
         kc_authority_lost_epoch cp = Some (kc_highest_epoch cp) \<and>
         ((\<exists>r \<in> set (kc_archived_records cp). ke_epoch r = kc_highest_epoch cp \<and> state_revoked (ke_state r)) \<or> b))"
  by (auto simp: check_binding_def list_ex_iff split: option.splits if_splits)

lemma fMax_bound:
  "A \<noteq> {||} \<Longrightarrow> fMax A \<le> (h :: u64) \<longleftrightarrow> (\<forall>x. x |\<in>| A \<longrightarrow> x \<le> h)"
  "A \<noteq> {||} \<Longrightarrow> fMax A \<le> (h :: u64) \<Longrightarrow> h \<le> fMax A \<longleftrightarrow> h |\<in>| A"
  by (meson fMax_ge fMax_in order_trans) (metis fMax_ge fMax_in order_antisym)

lemma validate_checkpoint_shape_iff:
  assumes small: "capacity < 2 ^ 64"
  shows "validate_checkpoint_shape cp capacity = Inr () \<longleftrightarrow> checkpoint_ok cp capacity"
proof -
  let ?a = "kc_archived_records cp" and ?r = "kc_retained_records cp"
  define EA KA where "EA = fset_of_list (map ke_epoch ?a)" and "KA = fset_of_list (map ke_key_id ?a)"
  define E where "E = fset_of_list (map ke_epoch ?r) |\<union>| EA"
  define A where "A \<longleftrightarrow> (\<forall>r \<in> set ?a. archived_ok (kc_last_lifecycle_time cp) r) \<and> fresh_records {||} {||} ?a"
  define R where "R \<longleftrightarrow> (\<forall>r \<in> set ?r. retained_ok r) \<and> fresh_records EA KA ?r"
  have fold1: "foldE (check_archived cp) ?a ({||}, {||}) = Inr x \<longleftrightarrow> A \<and> x = (EA, KA)" for x
    by (simp add: archived_loop A_def EA_def KA_def)
  have fold2: "foldE check_retained ?r (EA, KA, 0) = Inr x \<longleftrightarrow>
      R \<and> x = (E, fset_of_list (map ke_key_id ?r) |\<union>| KA, active_number ?r)"
    if "length ?r \<le> capacity" for x
    using that small by (subst retained_loop) (simp_all add: E_def R_def)
  have fresh: "fresh_records {||} {||} (?a @ ?r) \<longleftrightarrow> fresh_records {||} {||} ?a \<and>
      fresh_records EA KA ?r"
    by (simp add: fresh_records_append EA_def KA_def)
  have E: "E \<noteq> {||}" if "?a \<noteq> []" using that by (cases ?a) (auto simp: E_def EA_def)
  have inE: "x |\<in>| E \<longleftrightarrow> (\<exists>r \<in> set (?a @ ?r). ke_epoch r = x)" for x
    by (auto simp: E_def EA_def fset_of_list_elem)
  have le: "fMax E \<le> h \<longleftrightarrow> (\<forall>r \<in> set (?a @ ?r). ke_epoch r \<le> h)" if "?a \<noteq> []" for h
    using fMax_bound(1) [OF E [OF that]] inE by auto
  define P where "P \<longleftrightarrow> (if kc_sequence cp = 1 then kc_previous_archive_digest cp = None
      else \<exists>d. kc_previous_archive_digest cp = Some d \<and> d \<noteq> 0)"
  define L where "L \<longleftrightarrow> (\<forall>r \<in> set (?r @ ?a). ke_activated_at r \<le> kc_last_lifecycle_time cp)"
  define H where "H \<longleftrightarrow> (\<forall>r \<in> set (?a @ ?r). ke_epoch r \<le> kc_highest_epoch cp)"
  define T where "T \<longleftrightarrow> (\<exists>r \<in> set (?a @ ?r). ke_epoch r = kc_highest_epoch cp)"
  have pred: "tryE (check_predecessor cp) f = Inr () \<longleftrightarrow> P \<and> f (kc_sequence cp \<noteq> 1) = Inr ()" for f
  proof (cases P)
    case True
    then have "check_predecessor cp = Inr (kc_sequence cp \<noteq> 1)" by (auto simp: check_predecessor_iff P_def)
    with True show ?thesis by simp
  next
    case False
    then show ?thesis by (auto simp: check_predecessor_iff P_def)
  qed
  have bind: "check_binding cp (active_number ?r) (kc_sequence cp \<noteq> 1) = Inr () \<longleftrightarrow> binding_ok cp"
    unfolding check_binding_iff binding_ok_def ..
  have L: "list_ex (\<lambda>r. kc_last_lifecycle_time cp < ke_activated_at r) (?r @ ?a) \<longleftrightarrow> \<not> L"
    by (auto simp: L_def list_ex_iff not_le)
  have shape: "validate_checkpoint_shape cp capacity = Inr () \<longleftrightarrow>
      kc_sequence cp \<noteq> 0 \<and> kc_archive_digest cp \<noteq> 0 \<and> ?a \<noteq> [] \<and> length ?r \<le> capacity \<and> A \<and> R \<and>
      E \<noteq> {||} \<and> fMax E \<le> kc_highest_epoch cp \<and> P \<and>
      (kc_sequence cp \<noteq> 1 \<or> kc_highest_epoch cp \<le> fMax E) \<and> L \<and> binding_ok cp"
  proof (cases "length ?r \<le> capacity")
    case True
    then show ?thesis
      by (simp add: validate_checkpoint_shape_def fold1 fold2 conj_ac)
        (simp add: Let_def not_less pred bind L conj_ac del: tryE_Inr_iff set_append list_ex_append)
  qed (simp add: validate_checkpoint_shape_def)
  have ok: "checkpoint_ok cp capacity \<longleftrightarrow>
      kc_sequence cp \<noteq> 0 \<and> kc_archive_digest cp \<noteq> 0 \<and> ?a \<noteq> [] \<and> length ?r \<le> capacity \<and> A \<and> R \<and>
      H \<and> L \<and> P \<and> (kc_sequence cp \<noteq> 1 \<or> T) \<and> binding_ok cp"
  proof -
    have "(\<forall>r \<in> set (?a @ ?r). ke_epoch r \<le> kc_highest_epoch cp \<and>
        ke_activated_at r \<le> kc_last_lifecycle_time cp) \<longleftrightarrow> H \<and> L"
      by (auto simp: H_def L_def)
    then show ?thesis unfolding checkpoint_ok_def fresh A_def R_def P_def T_def by (simp only: split: if_split) blast
  qed
  show ?thesis
  proof (cases "?a = []")
    case False
    have "fMax E \<le> kc_highest_epoch cp \<longleftrightarrow> H" using le [OF False] by (simp only: H_def)
    moreover have "kc_highest_epoch cp \<le> fMax E \<longleftrightarrow> T" if H
      using that fMax_bound(2) [OF E [OF False], of "kc_highest_epoch cp"] le [OF False] inE
      by (simp only: H_def T_def)
    ultimately show ?thesis using E [OF False] unfolding shape ok by blast
  qed (simp add: shape ok)
qed

subsection \<open>The invariant\<close>

definition epoch_record_ok :: "u64 option \<Rightarrow> u64 \<Rightarrow> int \<Rightarrow> u64 \<Rightarrow> KeyEpochRecord \<Rightarrow> bool" where
  "epoch_record_ok act high last_time e r \<longleftrightarrow> ke_epoch r = e \<and> e \<le> high \<and> ke_activated_at r \<le> last_time \<and>
     (case ke_state r of
        EpochActive \<Rightarrow> act = Some e
      | EpochVerifyOnly t \<Rightarrow> ke_activated_at r < t
      | EpochRetired t \<Rightarrow> ke_activated_at r \<le> t \<and> t \<le> last_time
      | EpochRevoked t \<Rightarrow> ke_activated_at r \<le> t \<and> t \<le> last_time)"

definition records_ok :: "u64 option \<Rightarrow> u64 \<Rightarrow> int \<Rightarrow> (u64, KeyEpochRecord) fmap \<Rightarrow> bool" where
  "records_ok act high last_time m \<longleftrightarrow>
     (\<forall>e r. fmlookup m e = Some r \<longrightarrow> epoch_record_ok act high last_time e r)"

definition ids_ok :: "(u64, KeyEpochRecord) fmap \<Rightarrow> id16 fset \<Rightarrow> bool" where
  "ids_ok m used \<longleftrightarrow> (\<forall>k. k |\<in>| used \<longleftrightarrow> (\<exists>e r. fmlookup m e = Some r \<and> ke_key_id r = k)) \<and>
     (\<forall>e e' r r'. fmlookup m e = Some r \<longrightarrow> fmlookup m e' = Some r' \<longrightarrow> ke_key_id r = ke_key_id r' \<longrightarrow> e = e')"

definition chain_ok :: "KeyEpochRegistry \<Rightarrow> bool" where
  "chain_ok s \<longleftrightarrow> kr_next_archive_sequence s \<noteq> 0 \<and> (case kr_checkpoint s of
       None \<Rightarrow> kr_next_archive_sequence s = 1
     | Some cp \<Rightarrow> kr_next_archive_sequence s \<noteq> 1 \<and> kc_archive_digest cp \<noteq> 0)"

definition signer_ok :: "KeyEpochRegistry \<Rightarrow> u64 \<Rightarrow> bool" where
  "signer_ok s high \<longleftrightarrow> (case kr_active s of
       Some a \<Rightarrow> a = high \<and> kr_authority_lost_epoch s = None \<and>
         (\<exists>r. fmlookup (kr_records s) high = Some r \<and> ke_state r = EpochActive)
     | None \<Rightarrow> kr_authority_lost_epoch s = Some high \<and>
         (kr_checkpoint s = None \<longrightarrow>
            (\<exists>r. fmlookup (kr_records s) high = Some r \<and> state_revoked (ke_state r))))"

definition live_ok :: "KeyEpochRegistry \<Rightarrow> u64 \<Rightarrow> int \<Rightarrow> bool" where
  "live_ok s high last_time \<longleftrightarrow> kr_highest_epoch s = Some high \<and> kr_last_lifecycle_time s = Some last_time \<and>
     records_ok (kr_active s) high last_time (kr_records s) \<and> ids_ok (kr_records s) (kr_used_key_ids s) \<and>
     fmap_len (kr_records s) \<le> kr_capacity s \<and> chain_ok s \<and> signer_ok s high"

definition empty_ok :: "KeyEpochRegistry \<Rightarrow> bool" where
  "empty_ok s \<longleftrightarrow> kr_highest_epoch s = None \<and> kr_last_lifecycle_time s = None \<and> kr_active s = None \<and>
     kr_records s = fmempty \<and> kr_used_key_ids s = {||} \<and> kr_checkpoint s = None \<and>
     kr_next_archive_sequence s = 1"

definition key_ok :: "KeyEpochRegistry \<Rightarrow> bool" where
  "key_ok s \<longleftrightarrow> 0 < kr_capacity s \<and> kr_capacity s \<le> 8 \<and>
     (empty_ok s \<or> (\<exists>high last_time. live_ok s high last_time))"

lemma with_capacity_ok: "with_capacity c = Inr s \<Longrightarrow> key_ok s"
  by (auto simp: with_capacity_def validate_capacity_def key_ok_def empty_ok_def KeyEpochRegistry_default_def
      MAX_OPERATIONAL_KEY_EPOCHS_def split: if_splits)

lemma epoch_record_ok_mono:
  "epoch_record_ok None high last_time e r \<Longrightarrow> high \<le> high' \<Longrightarrow> last_time \<le> last_time' \<Longrightarrow>
     epoch_record_ok act high' last_time' e r"
  by (auto simp: epoch_record_ok_def split: KeyEpochState.splits intro: order_trans)

lemma records_okD: "records_ok a h l m \<Longrightarrow> fmlookup m e = Some r \<Longrightarrow> epoch_record_ok a h l e r"
  by (simp add: records_ok_def)

lemma ids_okI:
  assumes "\<And>k. k |\<in>| used \<Longrightarrow> \<exists>e r. fmlookup m e = Some r \<and> ke_key_id r = k"
    and "\<And>e r. fmlookup m e = Some r \<Longrightarrow> ke_key_id r |\<in>| used"
    and "\<And>e e' r r'. fmlookup m e = Some r \<Longrightarrow> fmlookup m e' = Some r' \<Longrightarrow> ke_key_id r = ke_key_id r' \<Longrightarrow> e = e'"
  shows "ids_ok m used"
  using assms unfolding ids_ok_def by blast

lemma ids_okD:
  assumes "ids_ok m used"
  shows "k |\<in>| used \<Longrightarrow> \<exists>e r. fmlookup m e = Some r \<and> ke_key_id r = k"
    and "fmlookup m e = Some r \<Longrightarrow> ke_key_id r |\<in>| used"
    and "fmlookup m e = Some r \<Longrightarrow> fmlookup m e' = Some r' \<Longrightarrow> ke_key_id r = ke_key_id r' \<Longrightarrow> e = e'"
  using assms unfolding ids_ok_def by blast+

lemma ids_ok_insert:
  assumes ids: "ids_ok m used" and new: "ke_key_id r |\<notin>| used" and e: "fmlookup m e = None"
  shows "ids_ok (fmupd e r m) (finsert (ke_key_id r) used)"
proof (rule ids_okI)
  fix k assume "k |\<in>| finsert (ke_key_id r) used"
  then show "\<exists>d x. fmlookup (fmupd e r m) d = Some x \<and> ke_key_id x = k"
  proof (cases "k = ke_key_id r")
    case True
    then show ?thesis by (intro exI [of _ e] exI [of _ r]) simp
  next
    case False
    then have "k |\<in>| used" using \<open>k |\<in>| finsert (ke_key_id r) used\<close> by simp
    then obtain d x where "fmlookup m d = Some x" "ke_key_id x = k" using ids_okD(1) [OF ids] by blast
    then show ?thesis using e by (intro exI [of _ d] exI [of _ x]) auto
  qed
next
  fix d x assume "fmlookup (fmupd e r m) d = Some x"
  then show "ke_key_id x |\<in>| finsert (ke_key_id r) used"
    using ids_okD(2) [OF ids, of d x] by (cases "d = e") auto
next
  fix d d' x x'
  assume x: "fmlookup (fmupd e r m) d = Some x" "fmlookup (fmupd e r m) d' = Some x'" "ke_key_id x = ke_key_id x'"
  have other: "ke_key_id y \<noteq> ke_key_id r" if "fmlookup m c = Some y" for c y
    using ids_okD(2) [OF ids that] new by auto
  show "d = d'"
    using x other [of d x] other [of d' x'] ids_okD(3) [OF ids, of d x d' x']
    by (cases "d = e"; cases "d' = e") auto
qed

lemma ids_ok_update:
  assumes ids: "ids_ok m used" and e: "fmlookup m e = Some r0" and same: "ke_key_id r = ke_key_id r0"
  shows "ids_ok (fmupd e r m) used"
proof (rule ids_okI)
  fix k assume "k |\<in>| used"
  then obtain d x where "fmlookup m d = Some x" "ke_key_id x = k" using ids_okD(1) [OF ids] by blast
  then show "\<exists>d x. fmlookup (fmupd e r m) d = Some x \<and> ke_key_id x = k"
    using e same by (intro exI [of _ d] exI [of _ "if d = e then r else x"]) auto
next
  fix d x assume "fmlookup (fmupd e r m) d = Some x"
  then show "ke_key_id x |\<in>| used"
    using ids_okD(2) [OF ids, of d x] ids_okD(2) [OF ids e] same by (cases "d = e") auto
next
  fix d d' x x'
  assume x: "fmlookup (fmupd e r m) d = Some x" "fmlookup (fmupd e r m) d' = Some x'" "ke_key_id x = ke_key_id x'"
  have old: "\<exists>y. fmlookup m c = Some y \<and> ke_key_id y = ke_key_id z"
    if "fmlookup (fmupd e r m) c = Some z" for c z
    using that e same by (cases "c = e") auto
  obtain y y' where "fmlookup m d = Some y" "ke_key_id y = ke_key_id x" "fmlookup m d' = Some y'"
    "ke_key_id y' = ke_key_id x'"
    using old [OF x(1)] old [OF x(2)] by blast
  then show "d = d'" using ids_okD(3) [OF ids] x(3) by metis
qed

lemma chain_ok_cong:
  "kr_checkpoint t = kr_checkpoint s \<Longrightarrow> kr_next_archive_sequence t = kr_next_archive_sequence s \<Longrightarrow>
     chain_ok t \<longleftrightarrow> chain_ok s"
  by (simp add: chain_ok_def split: option.splits)

lemma install_ok:
  assumes cap: "0 < kr_capacity s" "kr_capacity s \<le> 8" and room: "fmap_len (kr_records s) < kr_capacity s"
    and recs: "records_ok None high last_time (kr_records s)" and ids: "ids_ok (kr_records s) (kr_used_key_ids s)"
    and chain: "chain_ok s"
    and n: "high < ke_epoch n" "last_time < ke_activated_at n" "ke_key_id n |\<notin>| kr_used_key_ids s"
      "ke_state n = EpochActive"
  shows "key_ok (install n s)"
proof -
  have new: "fmlookup (kr_records s) (ke_epoch n) = None"
  proof (rule ccontr)
    assume "fmlookup (kr_records s) (ke_epoch n) \<noteq> None"
    then obtain r where "fmlookup (kr_records s) (ke_epoch n) = Some r" by auto
    then have "ke_epoch n \<le> high" using records_okD [OF recs] by (simp add: epoch_record_ok_def)
    then show False using n(1) by simp
  qed
  have "epoch_record_ok (Some (ke_epoch n)) (ke_epoch n) (ke_activated_at n) e r"
    if "fmlookup (fmupd (ke_epoch n) n (kr_records s)) e = Some r" for e r
  proof (cases "e = ke_epoch n")
    case True
    then show ?thesis using that n(4) by (simp add: epoch_record_ok_def)
  next
    case False
    then have "epoch_record_ok None high last_time e r" using that records_okD [OF recs] by simp
    then show ?thesis by (rule epoch_record_ok_mono) (use n(1,2) in simp_all)
  qed
  then have "records_ok (Some (ke_epoch n)) (ke_epoch n) (ke_activated_at n)
      (fmupd (ke_epoch n) n (kr_records s))"
    unfolding records_ok_def by blast
  moreover have "chain_ok (install n s)" using chain by (subst chain_ok_cong) (simp_all add: install_def)
  moreover have "signer_ok (install n s) (ke_epoch n)" using n(4) by (simp add: signer_ok_def install_def)
  moreover have "fmap_len (kr_records (install n s)) \<le> kr_capacity (install n s)"
    using room by (simp add: install_def fmap_len_upd_new [OF new])
  ultimately have "live_ok (install n s) (ke_epoch n) (ke_activated_at n)"
    using ids_ok_insert [OF ids n(3) new] unfolding live_ok_def by (simp add: install_def)
  then show ?thesis using cap unfolding key_ok_def by (auto simp: install_def)
qed

lemma validate_next_epoch_Inr:
  assumes "validate_next_epoch s h t e k at v = Inr u"
  shows "unat e = Suc (unat h)" "h < e" "k |\<notin>| kr_used_key_ids s" "t < at"
    "fmap_len (kr_records s) < kr_capacity s"
    "kr_checkpoint s = Some cp \<Longrightarrow> \<exists>w. v = Some w \<and> verify_checkpoint w cp \<and> key_id_is_absent w cp k"
  using assms checked_add_one_mono [of h e] checked_add_one_Some [of h e]
  by (auto simp: validate_next_epoch_def key_require_capacity_def split: if_splits option.splits)

lemma key_initialize_ok:
  assumes ok: "key_ok s" and run: "key_initialize e k t s = (s', Inr r)"
  shows "key_ok s'"
proof -
  have "empty_ok s" using ok run by (auto simp: key_ok_def live_ok_def key_initialize_def split: if_splits)
  moreover have "s' = install r s" "ke_epoch r = e" "ke_state r = EpochActive"
    using run by (auto simp: key_initialize_def Let_def split: if_splits)
  moreover have "0 < kr_capacity s" "kr_capacity s \<le> 8" using ok by (simp_all add: key_ok_def)
  moreover have "ids_ok (fmupd e r fmempty) {|ke_key_id r|}" by (rule ids_okI) (auto split: if_splits)
  ultimately have "live_ok s' e (ke_activated_at r)"
    by (simp add: live_ok_def install_def empty_ok_def records_ok_def epoch_record_ok_def chain_ok_def
        signer_ok_def fmap_len_upd_new)
  then show ?thesis
    using ok \<open>s' = install r s\<close> unfolding key_ok_def by (auto simp: install_def)
qed

lemma live_cases:
  assumes "key_ok s" and "kr_highest_epoch s = Some h"
  obtains l where "live_ok s h l" "kr_last_lifecycle_time s = Some l"
  using assms by (auto simp: key_ok_def empty_ok_def live_ok_def)

lemma rotate_inner_run:
  assumes ok: "key_ok s" and run: "rotate_inner e k t rt v s = (s', Inr r)"
  obtains current h l where "live_ok s h l" "kr_highest_epoch s = Some h" "kr_active s = Some h"
    "fmlookup (kr_records s) h = Some current" "ke_state current = EpochActive"
    "validate_next_epoch s h l e k t v = Inr ()" "t < rt"
    "r = \<lparr>ke_epoch = e, ke_key_id = k, ke_state = EpochActive, ke_activated_at = t\<rparr>"
    "s' = install r (s\<lparr>kr_records := fmupd h (current\<lparr>ke_state := EpochVerifyOnly rt\<rparr>) (kr_records s)\<rparr>)"
proof -
  obtain current h l where c: "active_record s = Inr current" "kr_highest_epoch s = Some h"
    "ke_epoch current = h" "kr_last_lifecycle_time s = Some l"
    and v: "validate_next_epoch s h l e k t v = Inr ()" and rt: "t < rt"
    and r: "r = \<lparr>ke_epoch = e, ke_key_id = k, ke_state = EpochActive, ke_activated_at = t\<rparr>"
    and s': "s' = install r (s\<lparr>kr_records := fmupd h (current\<lparr>ke_state := EpochVerifyOnly rt\<rparr>) (kr_records s)\<rparr>)"
    using run by (auto simp: rotate_inner_def Let_def not_le)
  obtain a where a: "kr_active s = Some a" "fmlookup (kr_records s) a = Some current" "ke_state current = EpochActive"
    using c(1) by (auto simp: active_record_def split: if_splits)
  obtain l' where "live_ok s h l'" "kr_last_lifecycle_time s = Some l'" by (rule live_cases [OF ok c(2)])
  then have "live_ok s h l" using c(4) by simp
  then have "a = h" using a by (simp add: live_ok_def signer_ok_def)
  note * = \<open>live_ok s h l\<close> this
  with a c v rt r s' * show thesis by (intro that [of h l current]) simp_all
qed

lemma rotate_inner_ok:
  assumes ok: "key_ok s" and run: "rotate_inner e k t rt v s = (s', Inr r)"
  shows "key_ok s'"
proof -
  obtain current h l where live: "live_ok s h l"
    and current: "kr_active s = Some h" "fmlookup (kr_records s) h = Some current" "ke_state current = EpochActive"
    and v: "validate_next_epoch s h l e k t v = Inr ()" and rt: "t < rt"
    and r: "r = \<lparr>ke_epoch = e, ke_key_id = k, ke_state = EpochActive, ke_activated_at = t\<rparr>"
    and s': "s' = install r (s\<lparr>kr_records := fmupd h (current\<lparr>ke_state := EpochVerifyOnly rt\<rparr>) (kr_records s)\<rparr>)"
    by (rule rotate_inner_run [OF ok run])
  note V = validate_next_epoch_Inr [OF v]
  have "epoch_record_ok None h l d x"
    if x: "fmlookup (fmupd h (current\<lparr>ke_state := EpochVerifyOnly rt\<rparr>) (kr_records s)) d = Some x" for d x
  proof (cases "d = h")
    case True
    have "epoch_record_ok (Some h) h l h current"
      using live current by (auto simp: live_ok_def intro: records_okD)
    then show ?thesis using x True rt V(4) by (auto simp: epoch_record_ok_def)
  next
    case False
    then have "epoch_record_ok (Some h) h l d x" using live current x by (auto simp: live_ok_def intro: records_okD)
    then show ?thesis using False by (auto simp: epoch_record_ok_def split: KeyEpochState.splits)
  qed
  then have "records_ok None h l (fmupd h (current\<lparr>ke_state := EpochVerifyOnly rt\<rparr>) (kr_records s))"
    by (simp add: records_ok_def)
  moreover have "ids_ok (fmupd h (current\<lparr>ke_state := EpochVerifyOnly rt\<rparr>) (kr_records s)) (kr_used_key_ids s)"
    using live current(2) by (intro ids_ok_update) (auto simp: live_ok_def)
  moreover have "chain_ok (s\<lparr>kr_records := fmupd h (current\<lparr>ke_state := EpochVerifyOnly rt\<rparr>) (kr_records s)\<rparr>)"
    using live by (subst chain_ok_cong [of _ s]) (simp_all add: live_ok_def)
  ultimately show ?thesis
    unfolding s' using live ok V current(2)
    by (intro install_ok [of _ h l]) (simp_all add: r live_ok_def key_ok_def fmap_len_upd_old)
qed

lemma install_after_revocation_inner_ok:
  assumes ok: "key_ok s" and run: "install_after_revocation_inner e k t v s = (s', Inr r)"
  shows "key_ok s'"
proof -
  obtain h l where c: "kr_active s = None" "kr_highest_epoch s = Some h" "kr_last_lifecycle_time s = Some l"
    and v: "validate_next_epoch s h l e k t v = Inr ()"
    and r: "r = \<lparr>ke_epoch = e, ke_key_id = k, ke_state = EpochActive, ke_activated_at = t\<rparr>"
    and s': "s' = install r s"
    using run by (auto simp: install_after_revocation_inner_def Let_def)
  have "live_ok s h l" using live_cases [OF ok c(2)] c(3) by (metis option.inject)
  then show ?thesis
    unfolding s' using ok c(1) validate_next_epoch_Inr [OF v]
    by (intro install_ok [of _ h l]) (simp_all add: r live_ok_def key_ok_def)
qed

subsection \<open>Expiry and revocation\<close>

lemma max_time_fold:
  "\<exists>l'. fold max_time ts (Some l) = Some l' \<and> l \<le> l' \<and> (\<forall>t \<in> set ts. t \<le> l')"
proof (induction ts arbitrary: l)
  case (Cons t ts)
  from Cons [of "max l t"] show ?case by (auto simp: max_time_def)
qed simp

lemma live_key_ok:
  assumes "key_ok s" and "kr_capacity s' = kr_capacity s" and "live_ok s' h l"
  shows "key_ok s'"
  using assms unfolding key_ok_def by metis

lemma retire_record_same [simp]:
  "ke_epoch (retire_record now r) = ke_epoch r" "ke_key_id (retire_record now r) = ke_key_id r"
  "ke_activated_at (retire_record now r) = ke_activated_at r"
  by (simp_all add: retire_record_def split: option.splits)

lemma ids_ok_map:
  assumes ids: "ids_ok m used" and same: "\<And>r. ke_key_id (f r) = ke_key_id r"
  shows "ids_ok (fmmap f m) used"
proof (rule ids_okI)
  fix k assume "k |\<in>| used"
  then obtain e r where "fmlookup m e = Some r" "ke_key_id r = k" using ids_okD(1) [OF ids] by blast
  then show "\<exists>e r. fmlookup (fmmap f m) e = Some r \<and> ke_key_id r = k"
    by (intro exI [of _ e] exI [of _ "f r"]) (simp add: same)
next
  fix e r assume "fmlookup (fmmap f m) e = Some r"
  then show "ke_key_id r |\<in>| used" using ids_okD(2) [OF ids] by (auto simp: same)
next
  fix e e' r r'
  assume x: "fmlookup (fmmap f m) e = Some r" "fmlookup (fmmap f m) e' = Some r'" "ke_key_id r = ke_key_id r'"
  then obtain q q' where "fmlookup m e = Some q" "fmlookup m e' = Some q'" "ke_key_id q = ke_key_id q'"
    by (auto simp: same)
  then show "e = e'" by (rule ids_okD(3) [OF ids])
qed

lemma retire_expired_ok:
  assumes ok: "key_ok s"
  shows "key_ok (fst (retire_expired now s))"
proof (cases "kr_highest_epoch s")
  case None
  then have "empty_ok s" using ok by (auto simp: key_ok_def live_ok_def)
  then have "fst (retire_expired now s) = s"
    by (simp add: retire_expired_def empty_ok_def entries_in_order_def keys_in_order_def List.map_filter_def
        sorted_list_of_fset.rep_eq Let_def)
  then show ?thesis using ok by simp
next
  case (Some h)
  obtain l where live: "live_ok s h l" "kr_last_lifecycle_time s = Some l" by (rule live_cases [OF ok Some])
  define ts where "ts = List.map_filter (\<lambda>(_, r). expired_at now r) (entries_in_order (kr_records s))"
  obtain l' where l': "fold max_time ts (Some l) = Some l'" "l \<le> l'" "\<forall>t \<in> set ts. t \<le> l'"
    using max_time_fold by blast
  have ts: "t \<le> l'" if "fmlookup (kr_records s) e = Some r" "expired_at now r = Some t" for e r t
  proof -
    have "t \<in> set ts"
      unfolding ts_def List.map_filter_def using that by (auto intro!: image_eqI [of _ _ "(e, r)"])
    then show ?thesis using l'(3) by blast
  qed
  have s': "fst (retire_expired now s) =
      s\<lparr>kr_records := fmmap (retire_record now) (kr_records s), kr_last_lifecycle_time := Some l'\<rparr>"
    using l'(1) live(2) by (simp add: retire_expired_def Let_def ts_def)
  have rec: "epoch_record_ok (kr_active s) h l' e (retire_record now r)"
    if r: "fmlookup (kr_records s) e = Some r" for e r
  proof -
    have ok: "epoch_record_ok (kr_active s) h l e r" using live(1) r by (auto simp: live_ok_def intro: records_okD)
    show ?thesis
    proof (cases "expired_at now r")
      case None
      then show ?thesis using ok l'(2)
        by (auto simp: retire_record_def epoch_record_ok_def split: KeyEpochState.splits)
    next
      case (Some t)
      then have "ke_state r = EpochVerifyOnly t" by (auto simp: expired_at_def split: KeyEpochState.splits if_splits)
      then show ?thesis using ok l'(2) Some ts [OF r Some]
        by (auto simp: retire_record_def epoch_record_ok_def)
    qed
  qed
  have signer: "signer_ok (fst (retire_expired now s)) h"
  proof -
    have keep: "retire_record now r = r" if "ke_state r = EpochActive \<or> state_revoked (ke_state r)" for r
      using that by (auto simp: retire_record_def expired_at_def state_revoked_def split: KeyEpochState.splits)
    have "signer_ok s h" using live(1) by (simp add: live_ok_def)
    then show ?thesis unfolding s' by (cases "kr_active s") (auto simp: signer_ok_def keep)
  qed
  have chain: "chain_ok (fst (retire_expired now s))"
    using live(1) by (subst chain_ok_cong [of _ s]) (simp_all add: s' live_ok_def)
  have "records_ok (kr_active s) h l' (fmmap (retire_record now) (kr_records s))"
    using rec by (auto simp: records_ok_def)
  then have "live_ok (fst (retire_expired now s)) h l'"
    using live(1) signer chain ids_ok_map [of "kr_records s" "kr_used_key_ids s" "retire_record now"]
    unfolding live_ok_def s' by (simp add: fmap_len_def)
  then show ?thesis by (rule live_key_ok [OF ok, rotated]) (simp add: s')
qed

lemma revoke_key_cases:
  assumes "revoke_key e t s = (s', Inr r)"
  obtains r0 where "fmlookup (kr_records s) e = Some r0" "state_revoked (ke_state r0)" "s' = s" "r = r0"
  | r0 where "fmlookup (kr_records s) e = Some r0" "\<not> state_terminal (ke_state r0)" "ke_activated_at r0 \<le> t"
      "r = r0\<lparr>ke_state := EpochRevoked t\<rparr>"
      "s' = s\<lparr>kr_records := fmupd e r (kr_records s),
             kr_last_lifecycle_time := max_time t (kr_last_lifecycle_time s),
             kr_active := (if kr_active s = Some e then None else kr_active s),
             kr_authority_lost_epoch := (if kr_active s = Some e then Some e else kr_authority_lost_epoch s)\<rparr>"
proof -
  obtain r0 where r0: "fmlookup (kr_records s) e = Some r0" "ke_activated_at r0 \<le> t"
    using assms by (auto simp: revoke_key_def not_less)
  show thesis
  proof (cases "state_terminal (ke_state r0)")
    case True
    then have "state_revoked (ke_state r0)" "s' = s" "r = r0"
      using assms r0 by (cases "ke_state r0"; simp add: revoke_key_def state_terminal_def state_revoked_def)+
    then show ?thesis by (rule that(1) [OF r0(1)])
  next
    case False
    then have "revoke_key e t s = (s\<lparr>kr_records := fmupd e (r0\<lparr>ke_state := EpochRevoked t\<rparr>) (kr_records s),
             kr_last_lifecycle_time := max_time t (kr_last_lifecycle_time s),
             kr_active := (if kr_active s = Some e then None else kr_active s),
             kr_authority_lost_epoch := (if kr_active s = Some e then Some e else kr_authority_lost_epoch s)\<rparr>,
             Inr (r0\<lparr>ke_state := EpochRevoked t\<rparr>))"
      using r0 by (cases "ke_state r0") (simp_all add: revoke_key_def state_terminal_def Let_def)
    then show ?thesis using assms False r0 by (intro that(2)) simp_all
  qed
qed

lemma revoke_key_ok:
  assumes ok: "key_ok s" and run: "revoke_key e t s = (s', Inr r)"
  shows "key_ok s'"
  using run
proof (cases rule: revoke_key_cases)
  case 1
  then show ?thesis using ok by simp
next
  case (2 r0)
  then obtain h where h: "kr_highest_epoch s = Some h"
    using ok by (auto simp: key_ok_def empty_ok_def live_ok_def)
  obtain l where live: "live_ok s h l" "kr_last_lifecycle_time s = Some l" by (rule live_cases [OF ok h])
  have recs: "records_ok (kr_active s) h l (kr_records s)" and signer: "signer_ok s h"
    using live(1) by (simp_all add: live_ok_def)
  have "epoch_record_ok (kr_active s') h (max l t) d x" if x: "fmlookup (kr_records s') d = Some x" for d x
  proof (cases "d = e")
    case True
    then have "x = r" using x 2 by simp
    then show ?thesis using records_okD [OF recs 2(1)] 2(3,4) True
      by (auto simp: epoch_record_ok_def)
  next
    case False
    then have "fmlookup (kr_records s) d = Some x" using x 2 by simp
    then show ?thesis using records_okD [OF recs, of d x] 2 False
      by (auto simp: epoch_record_ok_def split: KeyEpochState.splits)
  qed
  then have "records_ok (kr_active s') h (max l t) (kr_records s')" by (simp add: records_ok_def)
  moreover have "signer_ok s' h"
  proof (cases "kr_active s = Some e")
    case True
    then have "e = h" using signer by (simp add: signer_ok_def)
    then show ?thesis using True 2 by (simp add: signer_ok_def state_revoked_def)
  next
    case False
    then show ?thesis using signer 2
      by (cases "kr_active s") (auto simp: signer_ok_def state_revoked_def)
  qed
  moreover have "ids_ok (kr_records s') (kr_used_key_ids s')"
    using live(1) ids_ok_update [OF _ 2(1), of _ r] 2(4,5) by (simp add: live_ok_def)
  moreover have "chain_ok s'" using live(1) 2 by (subst chain_ok_cong [of _ s]) (simp_all add: live_ok_def)
  ultimately have "live_ok s' h (max l t)"
    using live h 2 by (simp add: live_ok_def fmap_len_upd_old [OF 2(1)] max_time_def)
  then show ?thesis by (rule live_key_ok [OF ok, rotated]) (simp add: 2)
qed

subsection \<open>Archival\<close>

definition key_records :: "KeyEpochRegistry \<Rightarrow> KeyEpochRecord list" where
  "key_records s = map snd (entries_in_order (kr_records s))"

lemma split_distinct:
  assumes "distinct (map f xs)"
  shows "distinct (map f (filter P xs @ filter (\<lambda>x. \<not> P x) xs))"
  using assms by (auto simp: distinct_map inj_on_def)

lemma key_records_facts:
  assumes live: "live_ok s h l"
  shows "r \<in> set (key_records s) \<longleftrightarrow> fmlookup (kr_records s) (ke_epoch r) = Some r"
    and "distinct (map ke_epoch (key_records s))" and "distinct (map ke_key_id (key_records s))"
    and "length (key_records s) = fmap_len (kr_records s)"
proof -
  have recs: "records_ok (kr_active s) h l (kr_records s)" and ids: "ids_ok (kr_records s) (kr_used_key_ids s)"
    using live by (simp_all add: live_ok_def)
  have ep: "ke_epoch x = e" if "fmlookup (kr_records s) e = Some x" for e x
    using records_okD [OF recs that] by (simp add: epoch_record_ok_def)
  show mem: "r \<in> set (key_records s) \<longleftrightarrow> fmlookup (kr_records s) (ke_epoch r) = Some r" for r
    using ep by (auto simp: key_records_def image_iff)
  have "map ke_epoch (key_records s) = keys_in_order (kr_records s)"
  proof -
    have "map ke_epoch (key_records s) = map (\<lambda>k. ke_epoch (the (fmlookup (kr_records s) k))) (keys_in_order (kr_records s))"
      by (simp add: key_records_def entries_in_order_map)
    also have "\<dots> = map (\<lambda>k. k) (keys_in_order (kr_records s))"
      by (rule map_cong [OF refl]) (auto simp: fmlookup_dom_iff ep)
    finally show ?thesis by simp
  qed
  then show d: "distinct (map ke_epoch (key_records s))"
    by (simp add: keys_in_order_def sorted_list_of_fset.rep_eq)
  then have "distinct (key_records s)" by (simp add: distinct_map)
  moreover have "inj_on ke_key_id (set (key_records s))"
  proof (rule inj_onI)
    fix x y assume xy: "x \<in> set (key_records s)" "y \<in> set (key_records s)" "ke_key_id x = ke_key_id y"
    have x: "fmlookup (kr_records s) (ke_epoch x) = Some x" using xy(1) by (rule mem [THEN iffD1])
    have y: "fmlookup (kr_records s) (ke_epoch y) = Some y" using xy(2) by (rule mem [THEN iffD1])
    have "ke_epoch x = ke_epoch y" by (rule ids_okD(3) [OF ids x y xy(3)])
    then show "x = y" using x y by (metis option.inject)
  qed
  ultimately show "distinct (map ke_key_id (key_records s))" by (simp add: distinct_map)
  show "length (key_records s) = fmap_len (kr_records s)"
    by (simp add: key_records_def entries_in_order_map keys_in_order_def fmap_len_def
        sorted_list_of_fset.rep_eq fcard.rep_eq)
qed

definition own_checkpoint :: "digest32 \<Rightarrow> KeyEpochRegistry \<Rightarrow> u64 \<Rightarrow> int \<Rightarrow> KeyEpochArchiveCheckpoint" where
  "own_checkpoint d s h l = \<lparr>kc_sequence = kr_next_archive_sequence s,
     kc_previous_archive_digest = map_option kc_archive_digest (kr_checkpoint s),
     kc_archive_digest = d, kc_highest_epoch = h, kc_last_lifecycle_time = l,
     kc_authority_lost_epoch = kr_authority_lost_epoch s, kc_active = kr_active s,
     kc_retained_records = filter (\<lambda>r. \<not> state_terminal (ke_state r)) (key_records s),
     kc_archived_records = filter (\<lambda>r. state_terminal (ke_state r)) (key_records s)\<rparr>"

lemma own_checkpoint_binding:
  assumes live: "live_ok s h l"
  shows "binding_ok (own_checkpoint d s h l)"
proof -
  have recs: "records_ok (kr_active s) h l (kr_records s)" and signer: "signer_ok s h" and chain: "chain_ok s"
    using live by (simp_all add: live_ok_def)
  note K = key_records_facts [OF live]
  have act: "kr_active s = Some (ke_epoch r)" if "r \<in> set (key_records s)" "ke_state r = EpochActive" for r
  proof -
    have "epoch_record_ok (kr_active s) h l (ke_epoch r) r"
      by (rule records_okD [OF recs]) (rule K(1) [THEN iffD1, OF that(1)])
    then show ?thesis using that(2) by (simp add: epoch_record_ok_def)
  qed
  have filter_eq: "filter (\<lambda>r. \<not> state_terminal (ke_state r) \<and> ke_state r = EpochActive) (key_records s) =
      filter (\<lambda>r. ke_state r = EpochActive) (key_records s)"
    by (rule filter_cong [OF refl]) (auto simp: state_terminal_def)
  show ?thesis
  proof (cases "kr_active s")
    case None
    then have "filter (\<lambda>r. ke_state r = EpochActive) (key_records s) = []"
      using act by (auto simp: filter_empty_conv)
    then have "active_number (kc_retained_records (own_checkpoint d s h l)) = 0"
      by (simp add: active_number_def own_checkpoint_def filter_eq)
    moreover have "(\<exists>r \<in> set (kc_archived_records (own_checkpoint d s h l)). ke_epoch r = h \<and> state_revoked (ke_state r)) \<or>
        kr_next_archive_sequence s \<noteq> 1"
    proof (cases "kr_checkpoint s")
      case None': None
      then obtain r where r: "fmlookup (kr_records s) h = Some r" "state_revoked (ke_state r)"
        using signer None by (auto simp: signer_ok_def)
      have "ke_epoch r = h" using records_okD [OF recs r(1)] by (simp add: epoch_record_ok_def)
      then have "r \<in> set (kc_archived_records (own_checkpoint d s h l))"
        using r K(1) [of r] by (auto simp: own_checkpoint_def state_revoked_def state_terminal_def split: KeyEpochState.splits)
      then show ?thesis using r \<open>ke_epoch r = h\<close> by blast
    next
      case (Some cp)
      then show ?thesis using chain by (simp add: chain_ok_def)
    qed
    ultimately show ?thesis using None signer by (simp add: binding_ok_def own_checkpoint_def signer_ok_def)
  next
    case (Some a)
    then obtain r where r: "a = h" "kr_authority_lost_epoch s = None" "fmlookup (kr_records s) h = Some r"
      "ke_state r = EpochActive"
      using signer by (auto simp: signer_ok_def)
    have e: "ke_epoch r = h" using records_okD [OF recs r(3)] by (simp add: epoch_record_ok_def)
    then have mem: "r \<in> set (key_records s)" using K(1) r(3) by simp
    have "set (filter (\<lambda>r. ke_state r = EpochActive) (key_records s)) = {r}"
    proof -
      have uniq: "x = r" if x: "x \<in> set (key_records s)" "ke_state x = EpochActive" for x
      proof -
        have "fmlookup (kr_records s) (ke_epoch x) = Some x" by (rule K(1) [THEN iffD1, OF x(1)])
        moreover have "ke_epoch x = h" using act [OF x] Some r(1) by simp
        ultimately show ?thesis using r(3) by (metis option.inject)
      qed
      show ?thesis by (rule set_eqI) (metis (mono_tags, lifting) uniq mem r(4) mem_Collect_eq set_filter singleton_iff)
    qed
    moreover have "distinct (filter (\<lambda>r. ke_state r = EpochActive) (key_records s))"
      using K(2) by (simp add: distinct_map)
    ultimately have "length (filter (\<lambda>r. ke_state r = EpochActive) (key_records s)) = card {r}"
      using distinct_card by metis
    then have "active_number (kc_retained_records (own_checkpoint d s h l)) = 1"
      by (simp add: active_number_def own_checkpoint_def filter_eq)
    moreover have "r \<in> set (kc_retained_records (own_checkpoint d s h l))"
      using mem r(4) by (simp add: own_checkpoint_def state_terminal_def)
    moreover have "kc_active (own_checkpoint d s h l) = Some h" "kc_highest_epoch (own_checkpoint d s h l) = h"
      "kc_authority_lost_epoch (own_checkpoint d s h l) = None"
      using Some r(1,2) by (simp_all add: own_checkpoint_def)
    ultimately show ?thesis using r(4) e unfolding binding_ok_def by (simp only: option.case) blast
  qed
qed

lemma own_checkpoint_ok:
  assumes live: "live_ok s h l" and d: "d \<noteq> 0"
    and some: "filter (\<lambda>r. state_terminal (ke_state r)) (key_records s) \<noteq> []"
  shows "checkpoint_ok (own_checkpoint d s h l) (kr_capacity s)"
proof -
  let ?cp = "own_checkpoint d s h l"
  have recs: "records_ok (kr_active s) h l (kr_records s)" and signer: "signer_ok s h" and chain: "chain_ok s"
    and cap: "fmap_len (kr_records s) \<le> kr_capacity s"
    using live by (simp_all add: live_ok_def)
  note K = key_records_facts [OF live]
  have rec: "epoch_record_ok (kr_active s) h l (ke_epoch r) r" if "r \<in> set (key_records s)" for r
    using that K(1) records_okD [OF recs] by blast
  have sets: "set (kc_archived_records ?cp @ kc_retained_records ?cp) = set (key_records s)"
    by (auto simp: own_checkpoint_def)
  have "archived_ok l r" if "r \<in> set (kc_archived_records ?cp)" for r
    using that rec [of r]
    by (auto simp: own_checkpoint_def state_terminal_def archived_ok_def epoch_record_ok_def split: KeyEpochState.splits)
  moreover have "retained_ok r" if "r \<in> set (kc_retained_records ?cp)" for r
    using that rec [of r]
    by (auto simp: own_checkpoint_def state_terminal_def retained_ok_def epoch_record_ok_def split: KeyEpochState.splits)
  moreover have "fresh_records {||} {||} (kc_archived_records ?cp @ kc_retained_records ?cp)"
    using split_distinct [OF K(2), of "\<lambda>r. state_terminal (ke_state r)"]
      split_distinct [OF K(3), of "\<lambda>r. state_terminal (ke_state r)"]
    by (simp add: fresh_records_def own_checkpoint_def)
  moreover have "ke_epoch r \<le> h \<and> ke_activated_at r \<le> l"
    if "r \<in> set (kc_archived_records ?cp @ kc_retained_records ?cp)" for r
    using rec [of r] that unfolding sets by (simp add: epoch_record_ok_def)
  moreover have "length (kc_retained_records ?cp) \<le> kr_capacity s"
    using K(4) cap length_filter_le [of "\<lambda>r. \<not> state_terminal (ke_state r)" "key_records s"]
    by (simp add: own_checkpoint_def)
  moreover have "if kr_next_archive_sequence s = 1
      then kc_previous_archive_digest ?cp = None \<and>
        (\<exists>r \<in> set (kc_archived_records ?cp @ kc_retained_records ?cp). ke_epoch r = h)
      else \<exists>d. kc_previous_archive_digest ?cp = Some d \<and> d \<noteq> 0"
  proof (cases "kr_checkpoint s")
    case None
    then obtain r where "fmlookup (kr_records s) h = Some r"
      using signer by (auto simp: signer_ok_def split: option.splits)
    then have "r \<in> set (key_records s)" "ke_epoch r = h"
      using K(1) [of r] records_okD [OF recs] by (auto simp: epoch_record_ok_def)
    then show ?thesis using None chain unfolding sets by (auto simp: own_checkpoint_def chain_ok_def)
  next
    case (Some cp)
    then show ?thesis using chain by (auto simp: own_checkpoint_def chain_ok_def)
  qed
  moreover have "kc_sequence ?cp = kr_next_archive_sequence s" "kc_archive_digest ?cp = d"
    "kc_last_lifecycle_time ?cp = l" "kc_highest_epoch ?cp = h" "kr_next_archive_sequence s \<noteq> 0"
    "kc_archived_records ?cp \<noteq> []"
    using chain some by (simp_all add: own_checkpoint_def chain_ok_def)
  ultimately show ?thesis
    unfolding checkpoint_ok_def using d own_checkpoint_binding [OF live, of d] by (simp del: set_append)
qed

text \<open>What a successful archival does.\<close>

lemma archive_run:
  assumes ok: "key_ok s" and run: "key_archive_terminal d v s = (s', Inr cp)"
  obtains h l next_sequence where "live_ok s h l" "cp = own_checkpoint d s h l" "d \<noteq> 0" "verify_checkpoint v cp"
    "checked_add (kr_next_archive_sequence s) 1 = Some next_sequence"
    "checkpoint_ok cp (kr_capacity s)"
    "s' = s\<lparr>kr_records := fold (\<lambda>r m. fmdrop (ke_epoch r) m) (kc_archived_records cp) (kr_records s),
            kr_used_key_ids := fold (\<lambda>r ids. ids |-| {|ke_key_id r|}) (kc_archived_records cp) (kr_used_key_ids s),
            kr_checkpoint := Some cp, kr_next_archive_sequence := next_sequence\<rparr>"
proof -
  obtain h l' n where *: "kr_highest_epoch s = Some h" "kr_last_lifecycle_time s = Some l'" "d \<noteq> 0"
    "cp = own_checkpoint d s h l'" "validate_checkpoint_shape cp (kr_capacity s) = Inr ()" "verify_checkpoint v cp"
    "checked_add (kr_next_archive_sequence s) 1 = Some n"
    "s' = s\<lparr>kr_records := fold (\<lambda>r m. fmdrop (ke_epoch r) m) (kc_archived_records cp) (kr_records s),
            kr_used_key_ids := fold (\<lambda>r ids. ids |-| {|ke_key_id r|}) (kc_archived_records cp) (kr_used_key_ids s),
            kr_checkpoint := Some cp, kr_next_archive_sequence := n\<rparr>"
    using run by (auto simp: key_archive_terminal_def Let_def own_checkpoint_def key_records_def split: if_splits)
  obtain l where "live_ok s h l" "kr_last_lifecycle_time s = Some l" by (rule live_cases [OF ok *(1)])
  moreover have "kr_capacity s < 2 ^ 64" using ok by (simp add: key_ok_def)
  ultimately show thesis
    using * validate_checkpoint_shape_iff [of "kr_capacity s" cp] by (intro that [of h l n]) simp_all
qed

lemma fold_fmdrop_lookup:
  "fmlookup (fold (\<lambda>r m. fmdrop (f r) m) rs m) e = (if e \<in> f ` set rs then None else fmlookup m e)"
  by (induction rs arbitrary: m) auto

lemma fold_fmdrop_len: "fmap_len (fold (\<lambda>r m. fmdrop (f r) m) rs m) \<le> fmap_len m"
proof (induction rs arbitrary: m)
  case (Cons r rs)
  from Cons [of "fmdrop (f r) m"] show ?case using fmap_len_drop_le [of "f r" m] by simp
qed simp

lemma fold_fminus: "k |\<in>| fold (\<lambda>r A. A |-| {|f r|}) rs A \<longleftrightarrow> k |\<in>| A \<and> k \<notin> f ` set rs"
  by (induction rs arbitrary: A) auto

lemma archived_lookup:
  assumes live: "live_ok s h l" and cp: "cp = own_checkpoint d s h l"
  shows "fmlookup (fold (\<lambda>r m. fmdrop (ke_epoch r) m) (kc_archived_records cp) (kr_records s)) e =
    (case fmlookup (kr_records s) e of None \<Rightarrow> None
     | Some r \<Rightarrow> if state_terminal (ke_state r) then None else Some r)"
proof -
  note K = key_records_facts [OF live]
  have recs: "records_ok (kr_active s) h l (kr_records s)" using live by (simp add: live_ok_def)
  have "e \<in> ke_epoch ` set (kc_archived_records cp) \<longleftrightarrow>
      (\<exists>r. fmlookup (kr_records s) e = Some r \<and> state_terminal (ke_state r))"
  proof
    assume "e \<in> ke_epoch ` set (kc_archived_records cp)"
    then obtain r where "r \<in> set (key_records s)" "state_terminal (ke_state r)" "e = ke_epoch r"
      by (auto simp: cp own_checkpoint_def)
    then show "\<exists>r. fmlookup (kr_records s) e = Some r \<and> state_terminal (ke_state r)"
      using K(1) [of r] by blast
  next
    assume "\<exists>r. fmlookup (kr_records s) e = Some r \<and> state_terminal (ke_state r)"
    then obtain r where r: "fmlookup (kr_records s) e = Some r" "state_terminal (ke_state r)" by blast
    then have "ke_epoch r = e" using records_okD [OF recs] by (simp add: epoch_record_ok_def)
    then have "r \<in> set (kc_archived_records cp)" using r K(1) [of r] by (simp add: cp own_checkpoint_def)
    then show "e \<in> ke_epoch ` set (kc_archived_records cp)" using \<open>ke_epoch r = e\<close> by blast
  qed
  then show ?thesis by (auto simp: fold_fmdrop_lookup split: option.splits)
qed

lemma archive_ok:
  assumes ok: "key_ok s" and run: "key_archive_terminal d v s = (s', Inr cp)"
  shows "key_ok s'"
proof -
  obtain h l n where live: "live_ok s h l" and cp: "cp = own_checkpoint d s h l" "d \<noteq> 0"
    and n: "checked_add (kr_next_archive_sequence s) 1 = Some n"
    and s': "s' = s\<lparr>kr_records := fold (\<lambda>r m. fmdrop (ke_epoch r) m) (kc_archived_records cp) (kr_records s),
            kr_used_key_ids := fold (\<lambda>r ids. ids |-| {|ke_key_id r|}) (kc_archived_records cp) (kr_used_key_ids s),
            kr_checkpoint := Some cp, kr_next_archive_sequence := n\<rparr>"
    by (rule archive_run [OF ok run])
  note K = key_records_facts [OF live]
  have recs: "records_ok (kr_active s) h l (kr_records s)" and ids: "ids_ok (kr_records s) (kr_used_key_ids s)"
    and signer: "signer_ok s h" and chain: "chain_ok s" and len: "fmap_len (kr_records s) \<le> kr_capacity s"
    using live by (simp_all add: live_ok_def)
  have look: "fmlookup (kr_records s') e = Some r \<longleftrightarrow>
      fmlookup (kr_records s) e = Some r \<and> \<not> state_terminal (ke_state r)" for e r
    using archived_lookup [OF live cp(1), of e] by (auto simp: s' split: option.splits)
  have "records_ok (kr_active s') h l (kr_records s')"
    using recs unfolding records_ok_def look by (simp add: s')
  moreover have "ids_ok (kr_records s') (kr_used_key_ids s')"
  proof (rule ids_okI)
    fix k assume "k |\<in>| kr_used_key_ids s'"
    then have "k |\<in>| kr_used_key_ids s" "k \<notin> ke_key_id ` set (kc_archived_records cp)"
      by (simp_all add: s' fold_fminus)
    moreover then obtain e r where r: "fmlookup (kr_records s) e = Some r" "ke_key_id r = k"
      using ids_okD(1) [OF ids] by blast
    moreover have "ke_epoch r = e" using records_okD [OF recs r(1)] by (simp add: epoch_record_ok_def)
    ultimately have "\<not> state_terminal (ke_state r)" using K(1) [of r] by (auto simp: cp(1) own_checkpoint_def)
    then show "\<exists>e r. fmlookup (kr_records s') e = Some r \<and> ke_key_id r = k" using look r by blast
  next
    fix e r assume r: "fmlookup (kr_records s') e = Some r"
    then have old: "fmlookup (kr_records s) e = Some r" "\<not> state_terminal (ke_state r)" using look by blast+
    have "ke_key_id r \<noteq> ke_key_id q" if q: "q \<in> set (kc_archived_records cp)" for q
    proof
      assume same: "ke_key_id r = ke_key_id q"
      have q: "fmlookup (kr_records s) (ke_epoch q) = Some q" "state_terminal (ke_state q)"
        using q K(1) [of q] by (simp_all add: cp(1) own_checkpoint_def)
      have "e = ke_epoch q" by (rule ids_okD(3) [OF ids old(1) q(1) same])
      then show False using old q by simp
    qed
    then show "ke_key_id r |\<in>| kr_used_key_ids s'"
      using ids_okD(2) [OF ids old(1)] by (auto simp: s' fold_fminus)
  next
    fix e e' r r'
    assume "fmlookup (kr_records s') e = Some r" "fmlookup (kr_records s') e' = Some r'" "ke_key_id r = ke_key_id r'"
    then show "e = e'" using look ids_okD(3) [OF ids] by blast
  qed
  moreover have "fmap_len (kr_records s') \<le> kr_capacity s'"
    using len order_trans [OF fold_fmdrop_len [of ke_epoch "kc_archived_records cp" "kr_records s"]]
    by (simp add: s')
  moreover have "chain_ok s'"
  proof -
    have "unat n = Suc (unat (kr_next_archive_sequence s))" using n by (simp add: checked_add_one_Some)
    moreover have "kr_next_archive_sequence s \<noteq> 0" using chain by (simp add: chain_ok_def)
    ultimately have "n \<noteq> 0 \<and> n \<noteq> 1" by (auto simp: unat_eq_zero)
    then show ?thesis using cp by (simp add: chain_ok_def s' own_checkpoint_def)
  qed
  moreover have "signer_ok s' h"
  proof (cases "kr_active s")
    case None
    then show ?thesis using signer by (simp add: signer_ok_def s')
  next
    case (Some a)
    then obtain r where "fmlookup (kr_records s) h = Some r" "ke_state r = EpochActive"
      using signer by (auto simp: signer_ok_def)
    then have "fmlookup (kr_records s') h = Some r" using look by (simp add: state_terminal_def)
    then show ?thesis using Some signer \<open>ke_state r = EpochActive\<close> by (auto simp: signer_ok_def s')
  qed
  ultimately have "live_ok s' h l" using live by (simp add: live_ok_def s')
  then show ?thesis by (rule live_key_ok [OF ok, rotated]) (simp add: s')
qed

end
