(* ===== verification/Key_Epoch_Properties.thy ===== *)
theory Key_Epoch_Properties
  imports Key_Epoch_Proofs Machine
begin

text \<open>
  Runs of the key-epoch registry: what a revocation or a retirement means for the rest of the
  run, and what an archived registry restores to.
\<close>

subsection \<open>Starting from a checkpoint\<close>

lemma fold_fmupd_lookup:
  assumes "distinct (map f rs)"
  shows "fmlookup (fold (\<lambda>r m. fmupd (f r) r m) rs m) e = Some r \<longleftrightarrow>
    r \<in> set rs \<and> f r = e \<or> e \<notin> f ` set rs \<and> fmlookup m e = Some r"
  using assms
proof (induction rs arbitrary: m)
  case (Cons q rs)
  have "fmlookup (fold (\<lambda>r m. fmupd (f r) r m) rs (fmupd (f q) q m)) e = Some r \<longleftrightarrow>
      r \<in> set rs \<and> f r = e \<or> e \<notin> f ` set rs \<and> fmlookup (fmupd (f q) q m) e = Some r"
    by (rule Cons.IH) (use Cons.prems in simp)
  then show ?case using Cons.prems by (cases "f q = e") auto
qed simp

lemma fold_fmupd_len: "fmap_len (fold (\<lambda>r m. fmupd (f r) r m) rs m) \<le> length rs + fmap_len m"
proof (induction rs arbitrary: m)
  case (Cons q rs)
  from Cons [of "fmupd (f q) q m"] show ?case using fmap_len_upd_le [of "f q" q m] by simp
qed simp

lemma fold_finsert: "k |\<in>| fold (\<lambda>r A. finsert (f r) A) rs A \<longleftrightarrow> k \<in> f ` set rs \<or> k |\<in>| A"
  by (induction rs arbitrary: A) auto

lemma active_number_one:
  assumes "active_number rs = 1" "r \<in> set rs" "ke_state r = EpochActive" "q \<in> set rs" "ke_state q = EpochActive"
  shows "q = r"
proof -
  obtain x where "filter (\<lambda>r. ke_state r = EpochActive) rs = [x]"
    using assms(1) by (auto simp: active_number_def length_Suc_conv)
  moreover have "r \<in> set (filter (\<lambda>r. ke_state r = EpochActive) rs)"
    "q \<in> set (filter (\<lambda>r. ke_state r = EpochActive) rs)" using assms by simp_all
  ultimately show ?thesis by simp
qed

lemma active_number_zero: "active_number rs = 0 \<Longrightarrow> r \<in> set rs \<Longrightarrow> ke_state r \<noteq> EpochActive"
  by (auto simp: active_number_def filter_empty_conv)

lemma from_checkpoint_run:
  assumes "key_registry_from_checkpoint c cp v = Inr s"
  obtains n where "0 < c" "c \<le> 8" "checkpoint_ok cp c" "verify_checkpoint v cp" "checked_add (kc_sequence cp) 1 = Some n"
    "s = \<lparr>kr_capacity = c, kr_active = kc_active cp,
          kr_records = fold (\<lambda>r m. fmupd (ke_epoch r) r m) (kc_retained_records cp) fmempty,
          kr_used_key_ids = fold (\<lambda>r s. finsert (ke_key_id r) s) (kc_retained_records cp) {||},
          kr_highest_epoch = Some (kc_highest_epoch cp),
          kr_last_lifecycle_time = Some (kc_last_lifecycle_time cp),
          kr_authority_lost_epoch = kc_authority_lost_epoch cp,
          kr_checkpoint = Some cp, kr_next_archive_sequence = n\<rparr>"
proof -
  have cap: "validate_capacity c = Inr ()" and shape: "validate_checkpoint_shape cp c = Inr ()"
    using assms by (auto simp: key_registry_from_checkpoint_def)
  have c: "0 < c" "c \<le> 8"
    using cap by (simp_all add: validate_capacity_def MAX_OPERATIONAL_KEY_EPOCHS_def split: if_splits)
  then have "checkpoint_ok cp c" using shape validate_checkpoint_shape_iff [of c cp] by simp
  then show thesis
    using assms c that by (auto simp: key_registry_from_checkpoint_def split: if_splits)
qed

lemma from_checkpoint_ok:
  assumes run: "key_registry_from_checkpoint c cp v = Inr s"
  shows "key_ok s"
proof -
  obtain n where c: "0 < c" "c \<le> 8" and cp: "checkpoint_ok cp c"
    and n: "checked_add (kc_sequence cp) 1 = Some n"
    and s: "s = \<lparr>kr_capacity = c, kr_active = kc_active cp,
          kr_records = fold (\<lambda>r m. fmupd (ke_epoch r) r m) (kc_retained_records cp) fmempty,
          kr_used_key_ids = fold (\<lambda>r s. finsert (ke_key_id r) s) (kc_retained_records cp) {||},
          kr_highest_epoch = Some (kc_highest_epoch cp),
          kr_last_lifecycle_time = Some (kc_last_lifecycle_time cp),
          kr_authority_lost_epoch = kc_authority_lost_epoch cp,
          kr_checkpoint = Some cp, kr_next_archive_sequence = n\<rparr>"
    by (rule from_checkpoint_run [OF run])
  let ?h = "kc_highest_epoch cp" and ?l = "kc_last_lifecycle_time cp" and ?rs = "kc_retained_records cp"
  have fresh: "distinct (map ke_epoch ?rs)" "distinct (map ke_key_id ?rs)" and bind: "binding_ok cp"
    and len: "length ?rs \<le> c" and ret: "\<And>r. r \<in> set ?rs \<Longrightarrow> retained_ok r"
    and low: "\<And>r. r \<in> set ?rs \<Longrightarrow> ke_epoch r \<le> ?h \<and> ke_activated_at r \<le> ?l"
    and dig: "kc_archive_digest cp \<noteq> 0" "kc_sequence cp \<noteq> 0"
    using cp by (simp_all add: checkpoint_ok_def fresh_records_def)
  have look: "fmlookup (kr_records s) e = Some r \<longleftrightarrow> r \<in> set ?rs \<and> ke_epoch r = e" for e r
    using fold_fmupd_lookup [OF fresh(1), of fmempty e r] by (simp add: s)
  have act: "kr_active s = Some (ke_epoch r)" if r: "r \<in> set ?rs" "ke_state r = EpochActive" for r
  proof (cases "kc_active cp")
    case None
    then show ?thesis using bind active_number_zero [OF _ r(1)] r(2) by (simp add: binding_ok_def)
  next
    case (Some a)
    then obtain q where q: "q \<in> set ?rs" "ke_epoch q = a" "ke_state q = EpochActive" "active_number ?rs = 1"
      using bind by (auto simp: binding_ok_def)
    have "r = q" by (rule active_number_one [OF q(4) q(1) q(3) r])
    then show ?thesis using q(2) Some by (simp add: s)
  qed
  have "epoch_record_ok (kr_active s) ?h ?l e r" if "fmlookup (kr_records s) e = Some r" for e r
    using that [unfolded look] ret [of r] low [of r] act [of r]
    by (auto simp: epoch_record_ok_def retained_ok_def split: KeyEpochState.splits)
  then have "records_ok (kr_active s) ?h ?l (kr_records s)" unfolding records_ok_def by blast
  moreover have "ids_ok (kr_records s) (kr_used_key_ids s)"
  proof (rule ids_okI)
    fix k assume "k |\<in>| kr_used_key_ids s"
    then show "\<exists>e r. fmlookup (kr_records s) e = Some r \<and> ke_key_id r = k"
      unfolding look by (auto simp: s fold_finsert)
  next
    fix e r assume "fmlookup (kr_records s) e = Some r"
    then show "ke_key_id r |\<in>| kr_used_key_ids s" unfolding look by (auto simp: s fold_finsert)
  next
    fix e e' r r'
    assume "fmlookup (kr_records s) e = Some r" "fmlookup (kr_records s) e' = Some r'" "ke_key_id r = ke_key_id r'"
    then show "e = e'" unfolding look using fresh(2) by (metis distinct_map inj_onD)
  qed
  moreover have "fmap_len (kr_records s) \<le> kr_capacity s"
    using len fold_fmupd_len [of ke_epoch ?rs fmempty] by (simp add: s)
  moreover have "chain_ok s"
  proof -
    have "unat n = Suc (unat (kc_sequence cp))" using n by (simp add: checked_add_one_Some)
    then have "n \<noteq> 0 \<and> n \<noteq> 1" using dig(2) by (auto simp: unat_eq_zero)
    then show ?thesis using dig(1) by (simp add: chain_ok_def s)
  qed
  moreover have "signer_ok s ?h"
  proof (cases "kc_active cp")
    case None
    then show ?thesis using bind by (simp add: signer_ok_def binding_ok_def s)
  next
    case (Some a)
    then have "a = ?h" "kc_authority_lost_epoch cp = None" "kr_active s = Some a"
      "\<exists>r \<in> set ?rs. ke_epoch r = a \<and> ke_state r = EpochActive"
      using bind by (auto simp: binding_ok_def s)
    then have "\<exists>r. fmlookup (kr_records s) ?h = Some r \<and> ke_state r = EpochActive"
      unfolding look by blast
    then show ?thesis using Some bind by (simp add: signer_ok_def binding_ok_def s)
  qed
  ultimately have "live_ok s ?h ?l" by (simp add: live_ok_def s)
  then show ?thesis using c unfolding key_ok_def by (auto simp: s)
qed

subsection \<open>Runs\<close>

datatype KeyOp =
    KeyInitialize u64 id16 int
  | KeyRotate u64 id16 int int "KeyEpochArchiveVerifier option"
  | KeyInstall u64 id16 int "KeyEpochArchiveVerifier option"
  | KeyRetireExpired int
  | KeyRevoke u64 int
  | KeyArchive digest32 KeyEpochArchiveVerifier

fun key_step :: "KeyOp \<Rightarrow> KeyEpochRegistry \<Rightarrow> KeyEpochRegistry" where
  "key_step (KeyInitialize e k t) s = fst (key_initialize e k t s)"
| "key_step (KeyRotate e k t until v) s = fst (rotate_inner e k t until v s)"
| "key_step (KeyInstall e k t v) s = fst (install_after_revocation_inner e k t v s)"
| "key_step (KeyRetireExpired now) s = fst (retire_expired now s)"
| "key_step (KeyRevoke e t) s = fst (revoke_key e t s)"
| "key_step (KeyArchive d v) s = fst (key_archive_terminal d v s)"

text \<open>A failed operation leaves the registry as it was.\<close>

lemma key_failed:
  "snd (key_initialize e k t s) = Inl err \<Longrightarrow> fst (key_initialize e k t s) = s"
  "snd (rotate_inner e k t until v s) = Inl err \<Longrightarrow> fst (rotate_inner e k t until v s) = s"
  "snd (install_after_revocation_inner e k t v s) = Inl err \<Longrightarrow> fst (install_after_revocation_inner e k t v s) = s"
  "snd (revoke_key e t s) = Inl err \<Longrightarrow> fst (revoke_key e t s) = s"
  "snd (key_archive_terminal d w s) = Inl err \<Longrightarrow> fst (key_archive_terminal d w s) = s"
  unfolding key_initialize_def rotate_inner_def install_after_revocation_inner_def revoke_key_def
    key_archive_terminal_def commit_candidate_def
  by (auto split: sum.splits)

lemma run_result:
  fixes f :: "'s \<times> ('e + 'r)"
  assumes "\<And>err. snd f = Inl err \<Longrightarrow> P (fst f)" and "\<And>s' r. f = (s', Inr r) \<Longrightarrow> P s'"
  shows "P (fst f)"
  using assms by (cases f; cases "snd f") auto

lemma key_step_ok:
  assumes ok: "key_ok s"
  shows "key_ok (key_step x s)"
proof (cases x)
  case (KeyInitialize e k t)
  show ?thesis unfolding KeyInitialize key_step.simps
    by (rule run_result) (simp add: key_failed ok, rule key_initialize_ok [OF ok])
next
  case (KeyRotate e k t rt v)
  show ?thesis unfolding KeyRotate key_step.simps
    by (rule run_result) (simp add: key_failed ok, rule rotate_inner_ok [OF ok])
next
  case (KeyInstall e k t v)
  show ?thesis unfolding KeyInstall key_step.simps
    by (rule run_result) (simp add: key_failed ok, rule install_after_revocation_inner_ok [OF ok])
next
  case (KeyRetireExpired now)
  show ?thesis unfolding KeyRetireExpired key_step.simps by (rule retire_expired_ok [OF ok])
next
  case (KeyRevoke e t)
  show ?thesis unfolding KeyRevoke key_step.simps
    by (rule run_result) (simp add: key_failed ok, rule revoke_key_ok [OF ok])
next
  case (KeyArchive d v)
  show ?thesis unfolding KeyArchive key_step.simps
    by (rule run_result) (simp add: key_failed ok, rule archive_ok [OF ok])
qed

subsection \<open>Dead epochs\<close>

text \<open>
  An epoch is dead when it is not above the high-water mark and its record, if the operational
  window still has it, is terminal.
\<close>

definition key_dead :: "KeyEpochRegistry \<Rightarrow> u64 \<Rightarrow> bool" where
  "key_dead s e \<longleftrightarrow> (\<exists>h. kr_highest_epoch s = Some h \<and> e \<le> h) \<and>
     (\<forall>r. fmlookup (kr_records s) e = Some r \<longrightarrow> state_terminal (ke_state r))"

definition key_below :: "KeyEpochRegistry \<Rightarrow> KeyEpochRegistry \<Rightarrow> bool" where
  "key_below s t \<longleftrightarrow> (\<forall>e. key_dead s e \<longrightarrow> key_dead t e)"

lemma key_deadI:
  assumes "kr_highest_epoch s = Some h" "e \<le> h"
    and "\<And>r. fmlookup (kr_records s) e = Some r \<Longrightarrow> state_terminal (ke_state r)"
  shows "key_dead s e"
  using assms unfolding key_dead_def by blast

lemma key_deadD:
  assumes "key_dead s e"
  shows "fmlookup (kr_records s) e = Some r \<Longrightarrow> state_terminal (ke_state r)"
    and "kr_highest_epoch s = Some h \<Longrightarrow> e \<le> h" and "kr_highest_epoch s \<noteq> None"
  using assms unfolding key_dead_def by auto

lemma install_dead:
  assumes "kr_highest_epoch s = Some h" "h < ke_epoch n" and dead: "key_dead s e"
  shows "key_dead (install n s) e"
proof (rule key_deadI [of _ "ke_epoch n"])
  have "e \<le> h" using key_deadD(2) [OF dead assms(1)] .
  then show "e \<le> ke_epoch n" using assms(2) by simp
  fix r assume "fmlookup (kr_records (install n s)) e = Some r"
  then show "state_terminal (ke_state r)"
    using key_deadD(1) [OF dead] \<open>e \<le> h\<close> assms(2) by (auto simp: install_def split: if_splits)
qed (simp add: install_def)

lemma key_step_below:
  assumes ok: "key_ok s"
  shows "key_below s (key_step x s)"
  unfolding key_below_def
proof (intro allI impI)
  fix d assume dead: "key_dead s d"
  show "key_dead (key_step x s) d"
  proof (cases x)
    case (KeyInitialize e k t)
    show ?thesis unfolding KeyInitialize key_step.simps
    proof (rule run_result)
      fix s' r assume "key_initialize e k t s = (s', Inr r)"
      then show "key_dead s' d" using key_deadD(3) [OF dead] by (auto simp: key_initialize_def split: if_splits)
    qed (simp add: key_failed dead)
  next
    case (KeyRotate e k t rt v)
    show ?thesis unfolding KeyRotate key_step.simps
    proof (rule run_result)
      fix s' r assume run: "rotate_inner e k t rt v s = (s', Inr r)"
      show "key_dead s' d"
      proof (rule rotate_inner_run [OF ok run])
        fix c h l
        assume h: "kr_highest_epoch s = Some h" "fmlookup (kr_records s) h = Some c" "ke_state c = EpochActive"
          and v: "validate_next_epoch s h l e k t v = Inr ()"
          and r: "r = \<lparr>ke_epoch = e, ke_key_id = k, ke_state = EpochActive, ke_activated_at = t\<rparr>"
          and s': "s' = install r (s\<lparr>kr_records := fmupd h (c\<lparr>ke_state := EpochVerifyOnly rt\<rparr>) (kr_records s)\<rparr>)"
        have "d \<noteq> h" using key_deadD(1) [OF dead] h by (auto simp: state_terminal_def)
        then have "key_dead (s\<lparr>kr_records := fmupd h (c\<lparr>ke_state := EpochVerifyOnly rt\<rparr>) (kr_records s)\<rparr>) d"
          using dead unfolding key_dead_def by simp
        then show ?thesis unfolding s'
          using validate_next_epoch_Inr(2) [OF v] h(1) by (intro install_dead [of _ h]) (simp_all add: r)
      qed
    qed (simp add: key_failed dead)
  next
    case (KeyInstall e k t v)
    show ?thesis unfolding KeyInstall key_step.simps
    proof (rule run_result)
      fix s' r assume "install_after_revocation_inner e k t v s = (s', Inr r)"
      then obtain h l where h: "kr_highest_epoch s = Some h" and v: "validate_next_epoch s h l e k t v = Inr ()"
        and r: "s' = install r s" "ke_epoch r = e"
        by (auto simp: install_after_revocation_inner_def Let_def)
      show "key_dead s' d" unfolding r(1)
        using validate_next_epoch_Inr(2) [OF v] h dead by (intro install_dead [of _ h]) (simp_all add: r)
    qed (simp add: key_failed dead)
  next
    case (KeyRetireExpired now)
    have same: "retire_record now r = r" if "state_terminal (ke_state r)" for r
      using that by (auto simp: retire_record_def expired_at_def state_terminal_def split: KeyEpochState.splits)
    show ?thesis unfolding KeyRetireExpired key_step.simps
      using dead by (auto simp: key_dead_def retire_expired_def Let_def same)
  next
    case (KeyRevoke e t)
    show ?thesis unfolding KeyRevoke key_step.simps
    proof (rule run_result)
      fix s' r assume "revoke_key e t s = (s', Inr r)"
      then show "key_dead s' d"
        by (cases rule: revoke_key_cases)
          (use dead in \<open>auto simp: key_dead_def state_terminal_def split: if_splits\<close>)
    qed (simp add: key_failed dead)
  next
    case (KeyArchive g v)
    show ?thesis unfolding KeyArchive key_step.simps
    proof (rule run_result)
      fix s' cp assume "key_archive_terminal g v s = (s', Inr cp)"
      then show "key_dead s' d"
        by (rule archive_run [OF ok]) (use dead in \<open>simp add: key_dead_def fold_fmdrop_lookup\<close>)
    qed (simp add: key_failed dead)
  qed
qed

interpretation keys: monotone_machine key_step key_ok key_below
  by unfold_locales (auto simp: key_below_def key_step_ok key_step_below [unfolded key_below_def])

lemma dead_unusable:
  assumes ok: "key_ok s" and dead: "key_dead s e"
  shows "\<exists>err. verification_key s e now = Inl err" and "active_signer_at s now = Inr r \<Longrightarrow> e < ke_epoch r"
proof -
  show "\<exists>err. verification_key s e now = Inl err"
  proof (cases "fmlookup (kr_records s) e")
    case None
    then show ?thesis by (auto simp: verification_key_def split: option.splits)
  next
    case (Some r)
    have "state_terminal (ke_state r)" by (rule key_deadD(1) [OF dead Some])
    then show ?thesis using Some
      by (cases "ke_state r") (simp_all add: verification_key_def state_terminal_def)
  qed
  assume "active_signer_at s now = Inr r"
  then obtain a where a: "kr_active s = Some a" "fmlookup (kr_records s) a = Some r" "ke_state r = EpochActive"
    by (auto simp: active_signer_at_def active_record_def split: if_splits)
  obtain h where h: "kr_highest_epoch s = Some h" using key_deadD(3) [OF dead] by blast
  obtain l where live: "live_ok s h l" by (rule live_cases [OF ok h])
  then have recs: "records_ok (kr_active s) h l (kr_records s)" and signer: "signer_ok s h"
    by (simp_all add: live_ok_def)
  have "a = h" using signer a(1) by (simp add: signer_ok_def)
  moreover have "ke_epoch r = a" using records_okD [OF recs a(2)] by (simp add: epoch_record_ok_def)
  moreover have "a \<noteq> e" using a key_deadD(1) [OF dead] by (auto simp: state_terminal_def)
  ultimately show "e < ke_epoch r" using key_deadD(2) [OF dead h] by simp
qed

lemma revoked_dead:
  assumes ok: "key_ok s" and run: "revoke_key e t s = (s', Inr r)"
  shows "key_dead s' e"
proof -
  obtain r0 where "fmlookup (kr_records s) e = Some r0"
    using run by (cases rule: revoke_key_cases) auto
  then obtain h l where h: "kr_highest_epoch s = Some h" "epoch_record_ok (kr_active s) h l e r0"
    using ok by (auto simp: key_ok_def empty_ok_def live_ok_def intro: records_okD)
  have "\<exists>h. kr_highest_epoch s' = Some h \<and> e \<le> h"
    using run by (cases rule: revoke_key_cases) (use h in \<open>auto simp: epoch_record_ok_def\<close>)
  moreover have "state_terminal (ke_state x)" if "fmlookup (kr_records s') e = Some x" for x
    using run that by (cases rule: revoke_key_cases) (auto simp: state_terminal_def state_revoked_def split: KeyEpochState.splits)
  ultimately show ?thesis unfolding key_dead_def by blast
qed

subsection \<open>Restoring an archived registry\<close>

lemma archive_restores:
  assumes ok: "key_ok s" and run: "key_archive_terminal d v s = (s', Inr cp)"
  shows "key_registry_from_checkpoint (kr_capacity s) cp v = Inr s'"
proof -
  obtain h l n where live: "live_ok s h l" and cp: "cp = own_checkpoint d s h l"
    and v: "verify_checkpoint v cp" and n: "checked_add (kr_next_archive_sequence s) 1 = Some n"
    and shape: "checkpoint_ok cp (kr_capacity s)"
    and s': "s' = s\<lparr>kr_records := fold (\<lambda>r m. fmdrop (ke_epoch r) m) (kc_archived_records cp) (kr_records s),
            kr_used_key_ids := fold (\<lambda>r ids. ids |-| {|ke_key_id r|}) (kc_archived_records cp) (kr_used_key_ids s),
            kr_checkpoint := Some cp, kr_next_archive_sequence := n\<rparr>"
    by (rule archive_run [OF ok run])
  note K = key_records_facts [OF live]
  have "key_ok s'" by (rule archive_ok [OF ok run])
  moreover have "kr_highest_epoch s' = Some h" using live by (simp add: s' live_ok_def)
  ultimately obtain l' where live': "live_ok s' h l'" by (rule live_cases)
  have mem: "fmlookup (kr_records s') e = Some r \<longleftrightarrow> r \<in> set (kc_retained_records cp) \<and> ke_epoch r = e" for e r
  proof -
    have "fmlookup (kr_records s') e = Some r \<longleftrightarrow>
        fmlookup (kr_records s) e = Some r \<and> \<not> state_terminal (ke_state r)"
      using archived_lookup [OF live cp, of e] by (auto simp: s' split: option.splits)
    moreover have "ke_epoch r = e" if "fmlookup (kr_records s) e = Some r"
      using live that by (auto simp: live_ok_def epoch_record_ok_def dest: records_okD)
    ultimately show ?thesis using K(1) [of r] by (auto simp: cp own_checkpoint_def)
  qed
  have distinct: "distinct (map ke_epoch (kc_retained_records cp))"
    using shape by (simp add: checkpoint_ok_def fresh_records_def)
  have "fold (\<lambda>r m. fmupd (ke_epoch r) r m) (kc_retained_records cp) fmempty = kr_records s'"
  proof (rule fmap_ext)
    fix e
    show "fmlookup (fold (\<lambda>r m. fmupd (ke_epoch r) r m) (kc_retained_records cp) fmempty) e =
        fmlookup (kr_records s') e"
      by (rule option_eqI) (unfold fold_fmupd_lookup [OF distinct] mem, simp)
  qed
  moreover have "fold (\<lambda>r A. finsert (ke_key_id r) A) (kc_retained_records cp) {||} = kr_used_key_ids s'"
  proof (rule fset_eqI)
    fix k
    have "ids_ok (kr_records s') (kr_used_key_ids s')" using live' by (simp add: live_ok_def)
    then have "k |\<in>| kr_used_key_ids s' \<longleftrightarrow> (\<exists>e r. fmlookup (kr_records s') e = Some r \<and> ke_key_id r = k)"
      by (simp add: ids_ok_def)
    then show "k |\<in>| fold (\<lambda>r A. finsert (ke_key_id r) A) (kc_retained_records cp) {||} \<longleftrightarrow>
        k |\<in>| kr_used_key_ids s'"
      unfolding mem fold_finsert by auto
  qed
  moreover have "validate_checkpoint_shape cp (kr_capacity s) = Inr ()"
    using shape ok validate_checkpoint_shape_iff [of "kr_capacity s" cp] by (simp add: key_ok_def)
  moreover have "validate_capacity (kr_capacity s) = Inr ()"
    using ok by (simp add: key_ok_def validate_capacity_def MAX_OPERATIONAL_KEY_EPOCHS_def)
  moreover have "kc_sequence cp = kr_next_archive_sequence s" "kc_active cp = kr_active s"
    "kc_highest_epoch cp = h" "kc_last_lifecycle_time cp = l"
    "kc_authority_lost_epoch cp = kr_authority_lost_epoch s"
    "kr_highest_epoch s = Some h" "kr_last_lifecycle_time s = Some l"
    using live by (simp_all add: cp own_checkpoint_def live_ok_def)
  ultimately show ?thesis
    using v n by (simp add: key_registry_from_checkpoint_def s')
qed

lemma archive_errors:
  assumes ok: "key_ok s" and run: "key_archive_terminal d v s = (s', Inl err)"
  shows "err \<in> {ZeroArchiveDigest, NoTerminalEpochs, ArchiveVerificationFailed, ArchiveSequenceExhausted}"
proof (cases "kr_highest_epoch s")
  case None
  then have "kr_records s = fmempty" using ok by (auto simp: key_ok_def empty_ok_def live_ok_def)
  then have "key_archive_terminal d v s =
      (s, Inl (if d = 0 then ZeroArchiveDigest else NoTerminalEpochs))"
    by (simp add: key_archive_terminal_def entries_in_order_def keys_in_order_def sorted_list_of_fset.rep_eq Let_def)
  then show ?thesis using run by (simp split: if_splits)
next
  case (Some h)
  obtain l where live: "live_ok s h l" "kr_last_lifecycle_time s = Some l" by (rule live_cases [OF ok Some])
  show ?thesis
  proof (cases "d = 0 \<or> filter (\<lambda>r. state_terminal (ke_state r)) (key_records s) = []")
    case True
    then show ?thesis using run by (auto simp: key_archive_terminal_def key_records_def Let_def split: if_splits)
  next
    case False
    then have "checkpoint_ok (own_checkpoint d s h l) (kr_capacity s)"
      by (intro own_checkpoint_ok [OF live(1)]) simp_all
    then have "validate_checkpoint_shape (own_checkpoint d s h l) (kr_capacity s) = Inr ()"
      using ok validate_checkpoint_shape_iff [of "kr_capacity s"] by (simp add: key_ok_def)
    then show ?thesis
      using run Some live(2) False
      by (cases "verify_checkpoint v (own_checkpoint d s h l)"; cases "checked_add (kr_next_archive_sequence s) 1")
        (auto simp: key_archive_terminal_def key_records_def own_checkpoint_def Let_def split: if_splits)
  qed
qed

subsection \<open>Properties\<close>

text \<open>A registry starts empty or from a checkpoint.\<close>

definition key_start :: "KeyEpochRegistry \<Rightarrow> bool" where
  "key_start s \<longleftrightarrow> (\<exists>c. with_capacity c = Inr s) \<or> (\<exists>c cp v. key_registry_from_checkpoint c cp v = Inr s)"

lemma key_start_ok: "key_start s \<Longrightarrow> key_ok s"
  by (auto simp: key_start_def intro: with_capacity_ok from_checkpoint_ok)

text \<open>
  C8: A registry never refuses its own archival as malformed: whatever was installed, rotated,
  expired, revoked and archived before, archiving the terminal epochs fails only for a zero
  digest, for want of a terminal epoch, because the archive verifier refuses, or because the
  64-bit sequence is used up, and then changes nothing; and the checkpoint it publishes restores
  exactly the registry that published it.
\<close>

theorem archive_restores_registry:
  assumes start: "key_start s0" and s: "s = fold key_step ops s0"
    and run: "key_archive_terminal d v s = (s', out)"
  shows "case out of
      Inr cp \<Rightarrow> key_registry_from_checkpoint (kr_capacity s) cp v = Inr s'
    | Inl err \<Rightarrow> s' = s \<and>
        err \<in> {ZeroArchiveDigest, NoTerminalEpochs, ArchiveVerificationFailed, ArchiveSequenceExhausted}"
proof -
  have ok: "key_ok s" unfolding s by (rule keys.run_inv [OF key_start_ok [OF start]])
  show ?thesis
  proof (cases out)
    case (Inl err)
    then show ?thesis using archive_errors [OF ok] key_failed(5) [of d v s err] run by simp
  next
    case (Inr cp)
    then show ?thesis using archive_restores [OF ok] run by simp
  qed
qed

text \<open>
  C9: A revoked key never comes back: once \<open>revoke\<close> has succeeded for an epoch, then after any
  further installations, rotations, expiries, revocations and archivals no token of this epoch
  verifies at any time, and whoever signs has a later epoch. When it was the signing key, nobody
  signs until a replacement is installed.
\<close>

theorem revoked_key_stays_out:
  assumes start: "key_start s0" and s: "s = fold key_step ops s0"
    and run: "revoke_key e t s = (s', Inr r)" and later: "s'' = fold key_step ops' s'"
  shows "(\<exists>err. verification_key s'' e now = Inl err) \<and>
    (\<forall>signer. active_signer_at s'' now = Inr signer \<longrightarrow> e < ke_epoch signer) \<and>
    (kr_active s = Some e \<longrightarrow> active_signer_at s' now = Inl NoActiveSigner)"
proof -
  have ok: "key_ok s" unfolding s by (rule keys.run_inv [OF key_start_ok [OF start]])
  have ok': "key_ok s'" by (rule revoke_key_ok [OF ok run])
  have dead: "key_dead s'' e"
    using keys.run_below [OF ok', of ops'] revoked_dead [OF ok run] unfolding later key_below_def by blast
  have "key_ok s''" unfolding later by (rule keys.run_inv [OF ok'])
  note dead_unusable [OF this dead, of now]
  moreover have "active_signer_at s' now = Inl NoActiveSigner" if active: "kr_active s = Some e"
    using run
  proof (cases rule: revoke_key_cases)
    case (1 r0)
    then show ?thesis using active ok
      by (auto simp: key_ok_def empty_ok_def live_ok_def signer_ok_def state_revoked_def)
  next
    case (2 r0)
    then show ?thesis using active by (simp add: active_signer_at_def active_record_def)
  qed
  ultimately show ?thesis by blast
qed

subsection \<open>Witnesses\<close>

definition wit_keys :: KeyEpochRegistry where
  "wit_keys = KeyEpochRegistry_default\<lparr>kr_capacity := 2\<rparr>"

definition wit_trusting :: KeyEpochArchiveVerifier where
  "wit_trusting = \<lparr>verify_checkpoint = (\<lambda>_. True), key_id_is_absent = (\<lambda>_ k. k \<noteq> 7)\<rparr>"

lemma wit_keys_start: "key_start wit_keys"
proof -
  have "with_capacity 2 = Inr wit_keys"
    by (simp add: with_capacity_def validate_capacity_def MAX_OPERATIONAL_KEY_EPOCHS_def wit_keys_def)
  then show ?thesis unfolding key_start_def by blast
qed

text \<open>The registry after its first key, and after this key's revocation.\<close>

definition wit_first :: KeyEpochRecord where
  "wit_first = \<lparr>ke_epoch = 1, ke_key_id = 7, ke_state = EpochActive, ke_activated_at = 10\<rparr>"

definition wit_revoked :: KeyEpochRecord where
  "wit_revoked = wit_first\<lparr>ke_state := EpochRevoked 20\<rparr>"

definition wit_keys_lost :: KeyEpochRegistry where
  "wit_keys_lost = wit_keys\<lparr>kr_records := fmupd 1 wit_revoked fmempty,
     kr_used_key_ids := {|7|}, kr_highest_epoch := Some 1, kr_last_lifecycle_time := Some 20,
     kr_authority_lost_epoch := Some 1\<rparr>"

lemma wit_initialize: "key_step (KeyInitialize 1 7 10) wit_keys = install wit_first wit_keys"
  by (simp add: key_initialize_def wit_keys_def wit_first_def KeyEpochRegistry_default_def key_require_capacity_def Let_def)

lemma wit_revoke: "revoke_key 1 20 (install wit_first wit_keys) = (wit_keys_lost, Inr wit_revoked)"
  by (simp add: revoke_key_def install_def wit_first_def wit_revoked_def wit_keys_lost_def wit_keys_def
      KeyEpochRegistry_default_def max_time_def Let_def)

theorem revoked_key_stays_out_witness:
  "\<exists>s r. s = fold key_step [KeyInitialize 1 7 10] wit_keys \<and> revoke_key 1 20 s = (wit_keys_lost, Inr r) \<and>
     (\<exists>err. verification_key (fold key_step [KeyInstall 2 8 30 None] wit_keys_lost) 1 40 = Inl err) \<and>
     active_signer_at wit_keys_lost 40 = Inl NoActiveSigner"
proof -
  have s: "install wit_first wit_keys = fold key_step [KeyInitialize 1 7 10] wit_keys"
    by (simp add: wit_initialize del: key_step.simps)
  have "kr_active (install wit_first wit_keys) = Some 1" by (simp add: install_def wit_first_def)
  with s revoked_key_stays_out [OF wit_keys_start s wit_revoke refl, of "[KeyInstall 2 8 30 None]" 40] wit_revoke
  show ?thesis by auto
qed

definition wit_checkpoint :: KeyEpochArchiveCheckpoint where
  "wit_checkpoint = \<lparr>kc_sequence = 1, kc_previous_archive_digest = None, kc_archive_digest = 5,
     kc_highest_epoch = 1, kc_last_lifecycle_time = 20, kc_authority_lost_epoch = Some 1,
     kc_active = None, kc_retained_records = [], kc_archived_records = [wit_revoked]\<rparr>"

theorem archive_restores_registry_witness:
  "\<exists>s s' cp. s = fold key_step [KeyInitialize 1 7 10, KeyRevoke 1 20] wit_keys \<and>
     key_archive_terminal 5 wit_trusting s = (s', Inr cp) \<and>
     key_registry_from_checkpoint 2 cp wit_trusting = Inr s'"
proof -
  have s: "wit_keys_lost = fold key_step [KeyInitialize 1 7 10, KeyRevoke 1 20] wit_keys"
    using wit_initialize wit_revoke by (simp del: key_step.simps(1))
  obtain s' out where run: "key_archive_terminal 5 wit_trusting wit_keys_lost = (s', out)" by fastforce
  note A = archive_restores_registry [OF wit_keys_start s run]
  have "validate_checkpoint_shape wit_checkpoint 2 = Inr ()"
    by (simp add: validate_checkpoint_shape_def wit_checkpoint_def check_archived_def wit_revoked_def wit_first_def
        check_predecessor_def check_binding_def state_revoked_def)
  moreover have "kr_highest_epoch wit_keys_lost = Some 1" "kr_last_lifecycle_time wit_keys_lost = Some 20"
    "kr_next_archive_sequence wit_keys_lost = 1" "kr_checkpoint wit_keys_lost = None"
    "kr_authority_lost_epoch wit_keys_lost = Some 1" "kr_active wit_keys_lost = None"
    "kr_capacity wit_keys_lost = 2"
    by (simp_all add: wit_keys_lost_def wit_keys_def KeyEpochRegistry_default_def)
  moreover have "entries_in_order (kr_records wit_keys_lost) = [(1, wit_revoked)]"
    by (simp add: wit_keys_lost_def entries_in_order_def keys_in_order_def sorted_list_of_fset.rep_eq)
  moreover have "state_terminal (ke_state wit_revoked)" by (simp add: wit_revoked_def state_terminal_def)
  moreover have "checked_add (1 :: u64) 1 = Some 2" by (simp add: checked_add_def)
  ultimately obtain cp where "out = Inr cp"
    using run by (auto simp: key_archive_terminal_def wit_trusting_def wit_checkpoint_def Let_def)
  moreover have "kr_capacity wit_keys_lost = 2" by (simp add: wit_keys_lost_def wit_keys_def)
  ultimately show ?thesis using A run s by auto
qed

end
