(* ===== verification/Key_Provider.thy ===== *)
theory Key_Provider
  imports Key_Epoch Rust_Text
begin

text \<open>
  The contract of signing providers (\<open>crates/trnm-token-crypto-provider/src/lib.rs\<close>), the software
  provider (\<open>software.rs\<close>) and the separation of key domains (\<open>key_domain.rs\<close>). HMAC-SHA256 comes
  from the \<open>hmac\<close> and \<open>sha2\<close> crates: an argument \<open>mac\<close>, which gives no tag for a key it refuses.
  A provider is a record of functions; the software provider's lock guards a finite map and is
  never poisoned, since nothing panics while it is held.
\<close>

subsection \<open>Keys and requests\<close>

definition MAX_SIGNING_INPUT_BYTES :: usize where "MAX_SIGNING_INPUT_BYTES = 32 * 1024"
definition SIGNATURE_BYTES :: usize where "SIGNATURE_BYTES = 32"

datatype KeyDomain =
    DomainAccessToken | DomainRefreshToken | DomainConsole | DomainRuntimeHttp | DomainSocket | DomainAuthority

datatype ProviderError =
    InvalidKeyHandle | InvalidKeyEpoch | InvalidKeyMaterial | SigningInputEmpty
  | SigningInputTooLarge usize
  | KeyUnavailable | PermissionDenied | RateLimited | DeadlineExceeded | Cancelled | Internal

datatype VerificationDecision = Accepted | Rejected

definition handle_byte :: "u8 \<Rightarrow> bool" where
  "handle_byte b \<longleftrightarrow> is_ascii_alphanumeric b \<or> b \<in> set (bytes_of ''._:-/'')"

definition KeyHandle_new :: "utf8 \<Rightarrow> ProviderError + utf8" where
  "KeyHandle_new value =
     (if value = [] \<or> length value > 256 then Inl InvalidKeyHandle
      else if \<not> list_all handle_byte value then Inl InvalidKeyHandle
      else Inr value)"

record KeyReference =
  kf_domain :: KeyDomain
  kf_handle :: utf8
  kf_epoch :: "u32 option"

definition KeyReference_new :: "KeyDomain \<Rightarrow> utf8 \<Rightarrow> u32 option \<Rightarrow> ProviderError + KeyReference" where
  "KeyReference_new domain handle epoch =
     (if epoch = Some 0 then Inl InvalidKeyEpoch
      else Inr \<lparr>kf_domain = domain, kf_handle = handle, kf_epoch = epoch\<rparr>)"

record Hs256Provider =
  provider_sign :: "KeyReference \<Rightarrow> u8 list \<Rightarrow> ProviderError + u8 list"
  provider_verify :: "KeyReference \<Rightarrow> u8 list \<Rightarrow> u8 list \<Rightarrow> ProviderError + VerificationDecision"

definition validate_signing_input :: "u8 list \<Rightarrow> ProviderError + unit" where
  "validate_signing_input value =
     (if value = [] then Inl SigningInputEmpty
      else if length value > MAX_SIGNING_INPUT_BYTES then Inl (SigningInputTooLarge (length value))
      else Inr ())"

definition sign_exact :: "Hs256Provider \<Rightarrow> KeyReference \<Rightarrow> u8 list \<Rightarrow> ProviderError + u8 list" where
  "sign_exact provider key exact_signing_input =
     tryE (validate_signing_input exact_signing_input) (\<lambda>_.
     provider_sign provider key exact_signing_input)"

definition verify_exact ::
    "Hs256Provider \<Rightarrow> KeyReference \<Rightarrow> u8 list \<Rightarrow> u8 list \<Rightarrow> ProviderError + VerificationDecision" where
  "verify_exact provider key exact_signing_input signature =
     tryE (validate_signing_input exact_signing_input) (\<lambda>_.
     if length signature \<noteq> SIGNATURE_BYTES then Inl Internal
     else provider_verify provider key exact_signing_input signature)"

subsection \<open>The software provider\<close>

definition MINIMUM_KEY_BYTES :: usize where "MINIMUM_KEY_BYTES = 32"
definition MAXIMUM_KEY_BYTES :: usize where "MAXIMUM_KEY_BYTES = 4096"

definition SecretKeyMaterial_new :: "u8 list \<Rightarrow> ProviderError + u8 list" where
  "SecretKeyMaterial_new value =
     (if \<not> (MINIMUM_KEY_BYTES \<le> length value \<and> length value \<le> MAXIMUM_KEY_BYTES)
      then Inl InvalidKeyMaterial else Inr value)"

record SoftwareKeyId =
  si_domain :: KeyDomain
  si_handle :: utf8
  si_epoch :: "u32 option"

definition software_key_id :: "KeyReference \<Rightarrow> SoftwareKeyId" where
  "software_key_id k = \<lparr>si_domain = kf_domain k, si_handle = kf_handle k, si_epoch = kf_epoch k\<rparr>"

type_synonym SoftwareKeys = "(SoftwareKeyId, u8 list) fmap"

definition insert_key ::
    "KeyReference \<Rightarrow> u8 list \<Rightarrow> SoftwareKeys \<Rightarrow> SoftwareKeys \<times> (ProviderError + unit)" where
  "insert_key key material keys = commit_candidate keys (
     tryE (SecretKeyMaterial_new material) (\<lambda>material.
     Inr (fmupd (software_key_id key) material keys, ())))"

definition remove_key :: "KeyReference \<Rightarrow> SoftwareKeys \<Rightarrow> SoftwareKeys \<times> (ProviderError + bool)" where
  "remove_key key keys =
     (fmdrop (software_key_id key) keys, Inr (fmlookup keys (software_key_id key) \<noteq> None))"

definition key_count :: "SoftwareKeys \<Rightarrow> usize" where
  "key_count keys = fmap_len keys"

definition software_tag ::
    "(u8 list \<Rightarrow> u8 list \<Rightarrow> u8 list option) \<Rightarrow> SoftwareKeys \<Rightarrow> KeyReference \<Rightarrow> u8 list \<Rightarrow> ProviderError + u8 list" where
  "software_tag mac keys key exact_signing_input =
     tryE (validate_signing_input exact_signing_input) (\<lambda>_.
     tryE (ok_or KeyUnavailable (fmlookup keys (software_key_id key))) (\<lambda>material.
     ok_or InvalidKeyMaterial (mac material exact_signing_input)))"

definition software_sign ::
    "(u8 list \<Rightarrow> u8 list \<Rightarrow> u8 list option) \<Rightarrow> SoftwareKeys \<Rightarrow> KeyReference \<Rightarrow> u8 list \<Rightarrow> ProviderError + u8 list" where
  "software_sign mac keys key exact_signing_input = software_tag mac keys key exact_signing_input"

definition software_verify ::
    "(u8 list \<Rightarrow> u8 list \<Rightarrow> u8 list option) \<Rightarrow> SoftwareKeys \<Rightarrow> KeyReference \<Rightarrow> u8 list \<Rightarrow> u8 list \<Rightarrow>
     ProviderError + VerificationDecision" where
  "software_verify mac keys key exact_signing_input signature =
     tryE (software_tag mac keys key exact_signing_input) (\<lambda>expected.
     Inr (if expected = signature then Accepted else Rejected))"

definition software_provider ::
    "(u8 list \<Rightarrow> u8 list \<Rightarrow> u8 list option) \<Rightarrow> SoftwareKeys \<Rightarrow> Hs256Provider" where
  "software_provider mac keys =
     \<lparr>provider_sign = software_sign mac keys, provider_verify = software_verify mac keys\<rparr>"

subsection \<open>Key domains\<close>

record DomainBoundKeyId =
  db_domain :: KeyDomain
  db_key_id :: id16

datatype KeyDomainError = DomainMismatch KeyDomain KeyDomain | Lifecycle KeyEpochError

record DomainKeyEpochRegistry =
  dk_domain :: KeyDomain
  dk_inner :: KeyEpochRegistry

definition domain_registry_new :: "KeyDomain \<Rightarrow> DomainKeyEpochRegistry" where
  "domain_registry_new domain = \<lparr>dk_domain = domain, dk_inner = KeyEpochRegistry_default\<rparr>"

definition domain_registry_with_capacity :: "KeyDomain \<Rightarrow> usize \<Rightarrow> KeyDomainError + DomainKeyEpochRegistry" where
  "domain_registry_with_capacity domain capacity =
     tryE (map_err Lifecycle (with_capacity capacity)) (\<lambda>inner.
     Inr \<lparr>dk_domain = domain, dk_inner = inner\<rparr>)"

definition require_domain :: "DomainKeyEpochRegistry \<Rightarrow> DomainBoundKeyId \<Rightarrow> KeyDomainError + unit" where
  "require_domain s key =
     (if db_domain key = dk_domain s then Inr () else Inl (DomainMismatch (dk_domain s) (db_domain key)))"

text \<open>A call of the inner registry, whose error becomes a \<open>Lifecycle\<close> error.\<close>

definition delegate ::
    "DomainKeyEpochRegistry \<Rightarrow> (KeyEpochRegistry \<Rightarrow> KeyEpochRegistry \<times> (KeyEpochError + 'a)) \<Rightarrow>
     DomainKeyEpochRegistry \<times> (KeyDomainError + 'a)" where
  "delegate s f = (let (inner, out) = f (dk_inner s) in (s\<lparr>dk_inner := inner\<rparr>, map_err Lifecycle out))"

definition domain_initialize ::
    "u64 \<Rightarrow> DomainBoundKeyId \<Rightarrow> int \<Rightarrow> DomainKeyEpochRegistry \<Rightarrow>
     DomainKeyEpochRegistry \<times> (KeyDomainError + KeyEpochRecord)" where
  "domain_initialize epoch key activated_at s = (case require_domain s key of
       Inl e \<Rightarrow> (s, Inl e)
     | Inr _ \<Rightarrow> delegate s (key_initialize epoch (db_key_id key) activated_at))"

definition domain_rotate ::
    "u64 \<Rightarrow> DomainBoundKeyId \<Rightarrow> int \<Rightarrow> int \<Rightarrow> DomainKeyEpochRegistry \<Rightarrow>
     DomainKeyEpochRegistry \<times> (KeyDomainError + KeyEpochRecord)" where
  "domain_rotate next_epoch next_key activated_at previous_retire_after s = (case require_domain s next_key of
       Inl e \<Rightarrow> (s, Inl e)
     | Inr _ \<Rightarrow> delegate s (rotate_key next_epoch (db_key_id next_key) activated_at previous_retire_after))"

definition domain_install_after_revocation ::
    "u64 \<Rightarrow> DomainBoundKeyId \<Rightarrow> int \<Rightarrow> DomainKeyEpochRegistry \<Rightarrow>
     DomainKeyEpochRegistry \<times> (KeyDomainError + KeyEpochRecord)" where
  "domain_install_after_revocation next_epoch next_key activated_at s = (case require_domain s next_key of
       Inl e \<Rightarrow> (s, Inl e)
     | Inr _ \<Rightarrow> delegate s (install_after_revocation next_epoch (db_key_id next_key) activated_at))"

definition domain_active_signer_at :: "DomainKeyEpochRegistry \<Rightarrow> int \<Rightarrow> KeyDomainError + KeyEpochRecord" where
  "domain_active_signer_at s now = map_err Lifecycle (active_signer_at (dk_inner s) now)"

definition domain_verification_key ::
    "DomainKeyEpochRegistry \<Rightarrow> u64 \<Rightarrow> int \<Rightarrow> KeyDomainError + KeyEpochRecord" where
  "domain_verification_key s epoch now = map_err Lifecycle (verification_key (dk_inner s) epoch now)"

definition domain_retire_expired :: "int \<Rightarrow> DomainKeyEpochRegistry \<Rightarrow> DomainKeyEpochRegistry \<times> usize" where
  "domain_retire_expired now s =
     (let (inner, n) = retire_expired now (dk_inner s) in (s\<lparr>dk_inner := inner\<rparr>, n))"

definition domain_revoke ::
    "u64 \<Rightarrow> int \<Rightarrow> DomainKeyEpochRegistry \<Rightarrow> DomainKeyEpochRegistry \<times> (KeyDomainError + KeyEpochRecord)" where
  "domain_revoke epoch revoked_at s = delegate s (revoke_key epoch revoked_at)"

subsection \<open>What the software provider promises\<close>

datatype KeyChange = InsertKey KeyReference "u8 list" | RemoveKey KeyReference

fun changed_key :: "KeyChange \<Rightarrow> KeyReference" where
  "changed_key (InsertKey k _) = k"
| "changed_key (RemoveKey k) = k"

fun key_change :: "KeyChange \<Rightarrow> SoftwareKeys \<Rightarrow> SoftwareKeys" where
  "key_change (InsertKey k m) keys = fst (insert_key k m keys)"
| "key_change (RemoveKey k) keys = fst (remove_key k keys)"

lemma software_key_id_inject: "software_key_id a = software_key_id b \<longleftrightarrow> a = b"
  by (cases a; cases b) (simp add: software_key_id_def)

lemma key_change_other:
  assumes "changed_key x \<noteq> key"
  shows "fmlookup (key_change x keys) (software_key_id key) = fmlookup keys (software_key_id key)"
  using assms
  by (cases x) (auto simp: insert_key_def remove_key_def software_key_id_inject SecretKeyMaterial_new_def)

lemma key_changes_other:
  "\<forall>x \<in> set changes. changed_key x \<noteq> key \<Longrightarrow>
     fmlookup (fold key_change changes keys) (software_key_id key) = fmlookup keys (software_key_id key)"
  by (induction changes arbitrary: keys) (simp_all add: key_change_other)

text \<open>
  The software provider accepts, for the input that was signed, exactly the signature it issued,
  whatever keys of other domains, handles and epochs are inserted and removed meanwhile; once the
  key itself is removed, nothing verifies.
\<close>

theorem software_signature_exact:
  assumes mac: "\<forall>m i t. mac m i = Some t \<longrightarrow> length t = SIGNATURE_BYTES"
    and signed: "sign_exact (software_provider mac keys) key input = Inr tag"
    and others: "\<forall>x \<in> set changes. changed_key x \<noteq> key"
    and later: "keys' = fold key_change changes keys"
  shows "verify_exact (software_provider mac keys') key input signature =
      (if length signature \<noteq> SIGNATURE_BYTES then Inl Internal
       else Inr (if signature = tag then Accepted else Rejected)) \<and>
    verify_exact (software_provider mac keys') key input tag = Inr Accepted \<and>
    verify_exact (software_provider mac (fst (remove_key key keys'))) key input tag = Inl KeyUnavailable"
proof -
  have tag: "software_tag mac keys key input = Inr tag" and input: "validate_signing_input input = Inr ()"
    using signed by (simp_all add: sign_exact_def software_provider_def software_sign_def)
  then have "length tag = SIGNATURE_BYTES" using mac by (auto simp: software_tag_def)
  moreover have "software_tag mac keys' key input = Inr tag"
    using tag key_changes_other [OF others, of keys] by (simp add: software_tag_def later)
  ultimately show ?thesis
    using input by (auto simp: verify_exact_def software_provider_def software_verify_def software_tag_def remove_key_def)
qed

text \<open>
  A registry of one key domain never takes a key of another one: a call with such a key is
  refused and changes nothing.
\<close>

lemma domain_separation:
  assumes "db_domain key \<noteq> dk_domain s"
  shows "domain_initialize e key t s = (s, Inl (DomainMismatch (dk_domain s) (db_domain key)))"
    and "domain_rotate e key t until s = (s, Inl (DomainMismatch (dk_domain s) (db_domain key)))"
    and "domain_install_after_revocation e key t s = (s, Inl (DomainMismatch (dk_domain s) (db_domain key)))"
  using assms
  by (simp_all add: domain_initialize_def domain_rotate_def domain_install_after_revocation_def require_domain_def)

text \<open>A witness for the provider's promise, with a constant authenticator.\<close>

definition wit_access_key :: KeyReference where
  "wit_access_key = \<lparr>kf_domain = DomainAccessToken, kf_handle = [107], kf_epoch = Some 7\<rparr>"

definition wit_socket_key :: KeyReference where
  "wit_socket_key = \<lparr>kf_domain = DomainSocket, kf_handle = [107], kf_epoch = Some 7\<rparr>"

definition wit_mac :: "u8 list \<Rightarrow> u8 list \<Rightarrow> u8 list option" where
  "wit_mac key input = Some (replicate 32 (if key = [] then 0 else List.hd key))"

theorem software_signature_exact_witness:
  "\<exists>keys tag. sign_exact (software_provider wit_mac keys) wit_access_key [1] = Inr tag \<and>
     verify_exact (software_provider wit_mac (fst (insert_key wit_socket_key (replicate 40 9) keys))) wit_access_key [1] tag =
       Inr Accepted"
proof -
  define keys where "keys = fst (insert_key wit_access_key (replicate 32 5) fmempty)"
  have keys: "fmlookup keys (software_key_id wit_access_key) = Some (replicate 32 5)"
    by (simp add: keys_def insert_key_def SecretKeyMaterial_new_def MINIMUM_KEY_BYTES_def MAXIMUM_KEY_BYTES_def)
  then have signed: "sign_exact (software_provider wit_mac keys) wit_access_key [1] =
      Inr (replicate 32 (List.hd (replicate 32 5)))"
    by (simp add: sign_exact_def software_provider_def software_sign_def software_tag_def wit_mac_def
        validate_signing_input_def MAX_SIGNING_INPUT_BYTES_def)
  have mac: "\<forall>m i t. wit_mac m i = Some t \<longrightarrow> length t = SIGNATURE_BYTES"
    by (auto simp: wit_mac_def SIGNATURE_BYTES_def)
  have other: "\<forall>x \<in> set [InsertKey wit_socket_key (replicate 40 9)]. changed_key x \<noteq> wit_access_key"
    by (simp add: wit_socket_key_def wit_access_key_def)
  show ?thesis
    using signed software_signature_exact [OF mac signed other refl] by auto
qed

end
