(* ===== verification/Key_Lifecycle.thy ===== *)
theory Key_Lifecycle
  imports Key_Provider
begin

text \<open>
  The schedule of signing and verification windows per key domain
  (\<open>crates/trnm-token-crypto-provider/src/lifecycle.rs\<close>): installation, revocation and retirement
  of epochs under an expected revision, a clock that does not go back and a bounded audit trail;
  the choice of the signing key and of verification keys; status and health.
\<close>

definition ALL_KEY_DOMAINS :: "KeyDomain list" where
  "ALL_KEY_DOMAINS =
     [DomainAccessToken, DomainRefreshToken, DomainConsole, DomainRuntimeHttp, DomainSocket, DomainAuthority]"

definition MAX_EPOCHS_PER_DOMAIN :: usize where "MAX_EPOCHS_PER_DOMAIN = 8"
definition MAX_VERIFICATION_EPOCHS_AT_ONCE :: usize where "MAX_VERIFICATION_EPOCHS_AT_ONCE = 2"
definition MAX_LIFECYCLE_AUDIT_EVENTS :: usize where "MAX_LIFECYCLE_AUDIT_EVENTS = 256"

record EpochWindow =
  ew_key :: KeyReference
  ew_not_before :: u64
  ew_sign_until :: u64
  ew_verify_until :: u64

datatype LifecycleAction = ActionInstalled | ActionRevoked | ActionRetired

record LifecycleAuditEvent =
  la_revision :: u64
  la_action :: LifecycleAction
  la_domain :: KeyDomain
  la_epoch :: u32
  la_at :: u64

record LifecycleMutation =
  lm_revision :: u64
  lm_applied :: bool

record DomainLifecycleStatus =
  dl_revision :: u64
  dl_domain :: KeyDomain
  dl_highest_epoch_ever :: "u32 option"
  dl_signing_epoch :: "u32 option"
  dl_verification_epochs :: "u32 list"
  dl_configured_epoch_count :: usize
  dl_revoked_epoch_count :: usize

record LifecycleHealth =
  lh_revision :: u64
  lh_configured_domains :: usize
  lh_signing_ready_domains :: usize
  lh_verifiable_epoch_count :: usize
  lh_revoked_epoch_count :: usize
  lh_audit_event_count :: usize
  lh_audit_capacity_remaining :: usize

datatype LifecycleError =
    EpochRequired | InvalidWindow | WindowAlreadySigningExpired
  | RevisionMismatch u64 u64
  | RevisionExhausted
  | ClockRegression u64 u64
  | EpochNotMonotonic u32 u32
  | EpochAlreadyExists KeyDomain u32
  | ScheduleCapacityExceeded KeyDomain usize
  | SigningWindowOverlap KeyDomain
  | VerificationWindowLimitExceeded KeyDomain usize
  | AuditCapacityExceeded usize
  | EpochUnknown KeyDomain u32
  | EpochNotYetActive KeyDomain u32
  | EpochSigningExpired KeyDomain u32
  | EpochVerificationExpired KeyDomain u32
  | LifecycleEpochRevoked KeyDomain u32
  | EpochRetirementNotAllowed KeyDomain u32
  | NoSigningEpoch KeyDomain
  | InternalInvariant

subsection \<open>Windows\<close>

definition EpochWindow_new :: "KeyReference \<Rightarrow> u64 \<Rightarrow> u64 \<Rightarrow> u64 \<Rightarrow> LifecycleError + EpochWindow" where
  "EpochWindow_new key not_before sign_until verify_until =
     (if (case kf_epoch key of None \<Rightarrow> True | Some epoch \<Rightarrow> epoch = 0) then Inl EpochRequired
      else if \<not> (not_before < sign_until \<and> sign_until < verify_until) then Inl InvalidWindow
      else Inr \<lparr>ew_key = key, ew_not_before = not_before, ew_sign_until = sign_until,
                ew_verify_until = verify_until\<rparr>)"

text \<open>The epoch is present in every window that the constructor makes; the source expects it.\<close>

definition window_epoch :: "EpochWindow \<Rightarrow> u32" where
  "window_epoch w = the (kf_epoch (ew_key w))"

definition window_domain :: "EpochWindow \<Rightarrow> KeyDomain" where
  "window_domain w = kf_domain (ew_key w)"

definition can_sign_at :: "EpochWindow \<Rightarrow> u64 \<Rightarrow> bool" where
  "can_sign_at w at_unix \<longleftrightarrow> ew_not_before w \<le> at_unix \<and> at_unix < ew_sign_until w"

definition can_verify_at :: "EpochWindow \<Rightarrow> u64 \<Rightarrow> bool" where
  "can_verify_at w at_unix \<longleftrightarrow> ew_not_before w \<le> at_unix \<and> at_unix < ew_verify_until w"

record EpochRecord =
  er_window :: EpochWindow
  er_revoked_at :: "u64 option"

definition is_revoked :: "EpochRecord \<Rightarrow> bool" where
  "is_revoked r \<longleftrightarrow> er_revoked_at r \<noteq> None"

record DomainSchedule =
  sch_highest_epoch_ever :: "u32 option"
  sch_epochs :: "(u32, EpochRecord) fmap"

definition DomainSchedule_default :: DomainSchedule where
  "DomainSchedule_default = \<lparr>sch_highest_epoch_ever = None, sch_epochs = fmempty\<rparr>"

record LifecycleRegistry =
  lr_revision :: u64
  lr_last_mutation :: u64
  lr_schedules :: "(KeyDomain, DomainSchedule) fmap"
  lr_audit :: "LifecycleAuditEvent list"

definition LifecycleRegistry_default :: LifecycleRegistry where
  "LifecycleRegistry_default = \<lparr>lr_revision = 0, lr_last_mutation = 0, lr_schedules = fmempty, lr_audit = []\<rparr>"

subsection \<open>Checks\<close>

definition validate_revision :: "LifecycleRegistry \<Rightarrow> u64 \<Rightarrow> LifecycleError + unit" where
  "validate_revision s expected_revision =
     (if expected_revision \<noteq> lr_revision s then Inl (RevisionMismatch expected_revision (lr_revision s))
      else Inr ())"

definition validate_clock :: "LifecycleRegistry \<Rightarrow> u64 \<Rightarrow> LifecycleError + unit" where
  "validate_clock s at_unix =
     (if at_unix < lr_last_mutation s then Inl (ClockRegression (lr_last_mutation s) at_unix) else Inr ())"

definition ensure_audit_capacity :: "LifecycleRegistry \<Rightarrow> LifecycleError + unit" where
  "ensure_audit_capacity s =
     (if length (lr_audit s) \<ge> MAX_LIFECYCLE_AUDIT_EVENTS
      then Inl (AuditCapacityExceeded MAX_LIFECYCLE_AUDIT_EVENTS) else Inr ())"

definition preflight_mutation :: "LifecycleRegistry \<Rightarrow> u64 \<Rightarrow> u64 \<Rightarrow> LifecycleError + u64" where
  "preflight_mutation s expected_revision at_unix =
     tryE (validate_revision s expected_revision) (\<lambda>_.
     tryE (validate_clock s at_unix) (\<lambda>_.
     tryE (ensure_audit_capacity s) (\<lambda>_.
     ok_or RevisionExhausted (checked_add (lr_revision s) 1))))"

definition commit_mutation ::
    "u64 \<Rightarrow> u64 \<Rightarrow> LifecycleAction \<Rightarrow> KeyDomain \<Rightarrow> u32 \<Rightarrow> LifecycleRegistry \<Rightarrow> LifecycleRegistry" where
  "commit_mutation revision at_unix action domain epoch s =
     s\<lparr>lr_revision := revision, lr_last_mutation := at_unix,
       lr_audit := lr_audit s @ [\<lparr>la_revision = revision, la_action = action, la_domain = domain,
                                  la_epoch = epoch, la_at = at_unix\<rparr>]\<rparr>"

definition intervals_overlap :: "u64 \<Rightarrow> u64 \<Rightarrow> u64 \<Rightarrow> u64 \<Rightarrow> bool" where
  "intervals_overlap left_start left_end right_start right_end \<longleftrightarrow>
     left_start < right_end \<and> right_start < left_end"

definition schedule_records :: "DomainSchedule \<Rightarrow> EpochRecord list" where
  "schedule_records schedule = map snd (entries_in_order (sch_epochs schedule))"

definition verification_overlap_exceeds :: "DomainSchedule \<Rightarrow> EpochWindow \<Rightarrow> bool" where
  "verification_overlap_exceeds schedule candidate =
     (let windows = map (\<lambda>r. (ew_not_before (er_window r), ew_verify_until (er_window r)))
              (filter (\<lambda>r. \<not> is_revoked r) (schedule_records schedule)) @
            [(ew_not_before candidate, ew_verify_until candidate)]
      in list_ex (\<lambda>(sample, _).
           length (filter (\<lambda>(start, until). start \<le> sample \<and> sample < until) windows) >
             MAX_VERIFICATION_EPOCHS_AT_ONCE) windows)"

definition check_schedule :: "EpochWindow \<Rightarrow> DomainSchedule \<Rightarrow> LifecycleError + unit" where
  "check_schedule window schedule =
     (let domain = window_domain window; epoch = window_epoch window in
      if fmlookup (sch_epochs schedule) epoch \<noteq> None then Inl (EpochAlreadyExists domain epoch)
      else
      tryE (case sch_highest_epoch_ever schedule of
          Some previous \<Rightarrow> if epoch \<le> previous then Inl (EpochNotMonotonic previous epoch) else Inr ()
        | None \<Rightarrow> Inr ()) (\<lambda>_.
      if fmap_len (sch_epochs schedule) \<ge> MAX_EPOCHS_PER_DOMAIN
      then Inl (ScheduleCapacityExceeded domain MAX_EPOCHS_PER_DOMAIN)
      else if list_ex (\<lambda>existing. \<not> is_revoked existing \<and>
          intervals_overlap (ew_not_before window) (ew_sign_until window)
            (ew_not_before (er_window existing)) (ew_sign_until (er_window existing)))
          (schedule_records schedule)
      then Inl (SigningWindowOverlap domain)
      else if verification_overlap_exceeds schedule window
      then Inl (VerificationWindowLimitExceeded domain MAX_VERIFICATION_EPOCHS_AT_ONCE)
      else Inr ()))"

subsection \<open>Mutations\<close>

definition lifecycle_install ::
    "u64 \<Rightarrow> EpochWindow \<Rightarrow> u64 \<Rightarrow> LifecycleRegistry \<Rightarrow> LifecycleRegistry \<times> (LifecycleError + LifecycleMutation)" where
  "lifecycle_install expected_revision window installed_at s = commit_candidate s (
     tryE (preflight_mutation s expected_revision installed_at) (\<lambda>next_revision.
     if installed_at \<ge> ew_sign_until window then Inl WindowAlreadySigningExpired
     else
     let domain = window_domain window; epoch = window_epoch window in
     tryE (case fmlookup (lr_schedules s) domain of
         Some schedule \<Rightarrow> check_schedule window schedule
       | None \<Rightarrow> Inr ()) (\<lambda>_.
     let schedule = (case fmlookup (lr_schedules s) domain of Some x \<Rightarrow> x | None \<Rightarrow> DomainSchedule_default);
         schedule' = schedule\<lparr>sch_highest_epoch_ever := Some epoch,
           sch_epochs := fmupd epoch \<lparr>er_window = window, er_revoked_at = None\<rparr> (sch_epochs schedule)\<rparr>;
         s1 = s\<lparr>lr_schedules := fmupd domain schedule' (lr_schedules s)\<rparr>
     in Inr (commit_mutation next_revision installed_at ActionInstalled domain epoch s1,
             \<lparr>lm_revision = next_revision, lm_applied = True\<rparr>))))"

definition find_epoch :: "LifecycleRegistry \<Rightarrow> KeyDomain \<Rightarrow> u32 \<Rightarrow> EpochRecord option" where
  "find_epoch s domain epoch =
     Option.bind (fmlookup (lr_schedules s) domain) (\<lambda>schedule. fmlookup (sch_epochs schedule) epoch)"

text \<open>The schedule of a domain with its epochs rewritten; a domain without schedule stays so.\<close>

definition update_epochs ::
    "KeyDomain \<Rightarrow> ((u32, EpochRecord) fmap \<Rightarrow> (u32, EpochRecord) fmap) \<Rightarrow> LifecycleRegistry \<Rightarrow> LifecycleRegistry" where
  "update_epochs domain f s = (case fmlookup (lr_schedules s) domain of
       None \<Rightarrow> s
     | Some schedule \<Rightarrow>
         s\<lparr>lr_schedules := fmupd domain (schedule\<lparr>sch_epochs := f (sch_epochs schedule)\<rparr>) (lr_schedules s)\<rparr>)"

definition lifecycle_revoke ::
    "u64 \<Rightarrow> KeyDomain \<Rightarrow> u32 \<Rightarrow> u64 \<Rightarrow> LifecycleRegistry \<Rightarrow>
     LifecycleRegistry \<times> (LifecycleError + LifecycleMutation)" where
  "lifecycle_revoke expected_revision domain epoch revoked_at s = commit_candidate s (
     tryE (validate_revision s expected_revision) (\<lambda>_.
     tryE (validate_clock s revoked_at) (\<lambda>_.
     tryE (ok_or (EpochUnknown domain epoch) (find_epoch s domain epoch)) (\<lambda>r.
     if is_revoked r then Inr (s, \<lparr>lm_revision = lr_revision s, lm_applied = False\<rparr>)
     else
     tryE (ensure_audit_capacity s) (\<lambda>_.
     tryE (ok_or RevisionExhausted (checked_add (lr_revision s) 1)) (\<lambda>next_revision.
     tryE (ok_or InternalInvariant (find_epoch s domain epoch)) (\<lambda>r.
     let s1 = update_epochs domain (fmupd epoch (r\<lparr>er_revoked_at := Some revoked_at\<rparr>)) s
     in Inr (commit_mutation next_revision revoked_at ActionRevoked domain epoch s1,
             \<lparr>lm_revision = next_revision, lm_applied = True\<rparr>))))))))"

definition lifecycle_retire ::
    "u64 \<Rightarrow> KeyDomain \<Rightarrow> u32 \<Rightarrow> u64 \<Rightarrow> LifecycleRegistry \<Rightarrow>
     LifecycleRegistry \<times> (LifecycleError + LifecycleMutation)" where
  "lifecycle_retire expected_revision domain epoch retired_at s = commit_candidate s (
     tryE (preflight_mutation s expected_revision retired_at) (\<lambda>next_revision.
     tryE (ok_or (EpochUnknown domain epoch) (find_epoch s domain epoch)) (\<lambda>r.
     if \<not> is_revoked r \<and> retired_at < ew_verify_until (er_window r)
     then Inl (EpochRetirementNotAllowed domain epoch)
     else
     let removed = find_epoch s domain epoch; s1 = update_epochs domain (fmdrop epoch) s in
     if removed = None then Inl InternalInvariant
     else Inr (commit_mutation next_revision retired_at ActionRetired domain epoch s1,
               \<lparr>lm_revision = next_revision, lm_applied = True\<rparr>))))"

subsection \<open>Routing\<close>

definition domain_records :: "LifecycleRegistry \<Rightarrow> KeyDomain \<Rightarrow> EpochRecord list" where
  "domain_records s domain =
     (case fmlookup (lr_schedules s) domain of None \<Rightarrow> [] | Some schedule \<Rightarrow> schedule_records schedule)"

definition lifecycle_signing_key :: "LifecycleRegistry \<Rightarrow> KeyDomain \<Rightarrow> u64 \<Rightarrow> LifecycleError + KeyReference" where
  "lifecycle_signing_key s domain at_unix =
     (case filter (\<lambda>r. \<not> is_revoked r \<and> can_sign_at (er_window r) at_unix) (domain_records s domain) of
        [] \<Rightarrow> Inl (NoSigningEpoch domain)
      | [selected] \<Rightarrow> Inr (ew_key (er_window selected))
      | _ \<Rightarrow> Inl InternalInvariant)"

definition lifecycle_verification_key ::
    "LifecycleRegistry \<Rightarrow> KeyDomain \<Rightarrow> u32 \<Rightarrow> u64 \<Rightarrow> LifecycleError + KeyReference" where
  "lifecycle_verification_key s domain epoch at_unix =
     tryE (ok_or (EpochUnknown domain epoch) (find_epoch s domain epoch)) (\<lambda>r.
     if is_revoked r then Inl (LifecycleEpochRevoked domain epoch)
     else if at_unix < ew_not_before (er_window r) then Inl (EpochNotYetActive domain epoch)
     else if at_unix \<ge> ew_verify_until (er_window r) then Inl (EpochVerificationExpired domain epoch)
     else Inr (ew_key (er_window r)))"

definition assert_signing_allowed ::
    "LifecycleRegistry \<Rightarrow> KeyDomain \<Rightarrow> u32 \<Rightarrow> u64 \<Rightarrow> LifecycleError + unit" where
  "assert_signing_allowed s domain epoch at_unix =
     tryE (ok_or (EpochUnknown domain epoch) (find_epoch s domain epoch)) (\<lambda>r.
     if is_revoked r then Inl (LifecycleEpochRevoked domain epoch)
     else if at_unix < ew_not_before (er_window r) then Inl (EpochNotYetActive domain epoch)
     else if at_unix \<ge> ew_sign_until (er_window r) then Inl (EpochSigningExpired domain epoch)
     else Inr ())"

definition lifecycle_status :: "LifecycleRegistry \<Rightarrow> KeyDomain \<Rightarrow> u64 \<Rightarrow> DomainLifecycleStatus" where
  "lifecycle_status s domain at_unix =
     (let schedule = fmlookup (lr_schedules s) domain;
          entries = (case schedule of None \<Rightarrow> [] | Some x \<Rightarrow> entries_in_order (sch_epochs x))
      in \<lparr>dl_revision = lr_revision s, dl_domain = domain,
          dl_highest_epoch_ever = Option.bind schedule sch_highest_epoch_ever,
          dl_signing_epoch = map_option fst
            (List.find (\<lambda>(_, r). \<not> is_revoked r \<and> can_sign_at (er_window r) at_unix) entries),
          dl_verification_epochs = rev (sort (map fst
            (filter (\<lambda>(_, r). \<not> is_revoked r \<and> can_verify_at (er_window r) at_unix) entries))),
          dl_configured_epoch_count = (case schedule of None \<Rightarrow> 0 | Some x \<Rightarrow> fmap_len (sch_epochs x)),
          dl_revoked_epoch_count = length (filter (\<lambda>(_, r). is_revoked r) entries)\<rparr>)"

definition lifecycle_health :: "LifecycleRegistry \<Rightarrow> u64 \<Rightarrow> LifecycleHealth" where
  "lifecycle_health s at_unix =
     (let (ready, verifiable, revoked) = fold (\<lambda>domain (ready, verifiable, revoked).
            let status = lifecycle_status s domain at_unix
            in (ready + (if dl_signing_epoch status \<noteq> None then 1 else 0),
                verifiable + length (dl_verification_epochs status),
                revoked + dl_revoked_epoch_count status)) ALL_KEY_DOMAINS (0, 0, 0)
      in \<lparr>lh_revision = lr_revision s, lh_configured_domains = fmap_len (lr_schedules s),
          lh_signing_ready_domains = ready, lh_verifiable_epoch_count = verifiable,
          lh_revoked_epoch_count = revoked, lh_audit_event_count = length (lr_audit s),
          lh_audit_capacity_remaining = MAX_LIFECYCLE_AUDIT_EVENTS - length (lr_audit s)\<rparr>)"

end
