(* ===== verification/Key_Lifecycle_Proofs.thy ===== *)
theory Key_Lifecycle_Proofs
  imports Key_Lifecycle Machine
begin

text \<open>
  The schedule of key windows over any run: its invariant (one signer at a time, at most two
  verification epochs at once, an audit trail that has every mutation), and the finality of
  revocation and retirement.
\<close>

subsection \<open>The invariant\<close>

definition window_ok :: "KeyDomain \<Rightarrow> u32 \<Rightarrow> EpochWindow \<Rightarrow> bool" where
  "window_ok d e w \<longleftrightarrow> kf_domain (ew_key w) = d \<and> kf_epoch (ew_key w) = Some e \<and>
     ew_not_before w < ew_sign_until w \<and> ew_sign_until w < ew_verify_until w"

definition disjoint_signing :: "EpochWindow \<Rightarrow> EpochWindow \<Rightarrow> bool" where
  "disjoint_signing v w \<longleftrightarrow>
     \<not> intervals_overlap (ew_not_before v) (ew_sign_until v) (ew_not_before w) (ew_sign_until w)"

text \<open>The epochs that verify at a time.\<close>

definition verifying :: "(u32, EpochRecord) fmap \<Rightarrow> u64 \<Rightarrow> u32 set" where
  "verifying m t = {e. \<exists>r. fmlookup m e = Some r \<and> \<not> is_revoked r \<and> can_verify_at (er_window r) t}"

definition epochs_ok :: "KeyDomain \<Rightarrow> u32 option \<Rightarrow> (u32, EpochRecord) fmap \<Rightarrow> bool" where
  "epochs_ok d high m \<longleftrightarrow>
     (\<forall>e r. fmlookup m e = Some r \<longrightarrow> window_ok d e (er_window r) \<and> (\<exists>h. high = Some h \<and> e \<le> h)) \<and>
     (\<forall>e e' r r'. fmlookup m e = Some r \<longrightarrow> fmlookup m e' = Some r' \<longrightarrow> e \<noteq> e' \<longrightarrow> \<not> is_revoked r \<longrightarrow>
        \<not> is_revoked r' \<longrightarrow> disjoint_signing (er_window r) (er_window r')) \<and>
     (\<forall>t. card (verifying m t) \<le> 2) \<and> fmap_len m \<le> 8"

definition audit_ok :: "LifecycleRegistry \<Rightarrow> bool" where
  "audit_ok s \<longleftrightarrow> map (\<lambda>a. unat (la_revision a)) (lr_audit s) = [1..<Suc (length (lr_audit s))] \<and>
     unat (lr_revision s) = length (lr_audit s) \<and> length (lr_audit s) \<le> 256 \<and>
     sorted (map la_at (lr_audit s)) \<and> (\<forall>a \<in> set (lr_audit s). la_at a \<le> lr_last_mutation s)"

definition lifecycle_ok :: "LifecycleRegistry \<Rightarrow> bool" where
  "lifecycle_ok s \<longleftrightarrow> audit_ok s \<and>
     (\<forall>d x. fmlookup (lr_schedules s) d = Some x \<longrightarrow> epochs_ok d (sch_highest_epoch_ever x) (sch_epochs x))"

lemma lifecycle_default_ok: "lifecycle_ok LifecycleRegistry_default"
  by (simp add: lifecycle_ok_def audit_ok_def LifecycleRegistry_default_def)

lemma epochs_okD:
  assumes "epochs_ok d high m"
  shows "fmlookup m e = Some r \<Longrightarrow> window_ok d e (er_window r)"
    and "fmlookup m e = Some r \<Longrightarrow> \<exists>h. high = Some h \<and> e \<le> h"
    and "fmlookup m e = Some r \<Longrightarrow> fmlookup m e' = Some r' \<Longrightarrow> e \<noteq> e' \<Longrightarrow> \<not> is_revoked r \<Longrightarrow>
      \<not> is_revoked r' \<Longrightarrow> disjoint_signing (er_window r) (er_window r')"
    and "card (verifying m t) \<le> 2" and "fmap_len m \<le> 8"
  using assms unfolding epochs_ok_def by blast+

lemma finite_verifying [simp]: "finite (verifying m t)"
  by (rule finite_subset [of _ "fset (fmdom m)"]) (auto simp: verifying_def intro: fmdomI)

text \<open>Revoking and removing epochs keeps the invariant.\<close>

lemma epochs_ok_shrink:
  assumes ok: "epochs_ok d high m" and len: "fmap_len m' \<le> fmap_len m"
    and sub: "\<And>e r'. fmlookup m' e = Some r' \<Longrightarrow>
      \<exists>r. fmlookup m e = Some r \<and> er_window r' = er_window r \<and> (is_revoked r \<longrightarrow> is_revoked r')"
  shows "epochs_ok d high m'"
  unfolding epochs_ok_def
proof (intro conjI allI impI)
  fix e r' assume "fmlookup m' e = Some r'"
  then obtain r where "fmlookup m e = Some r" "er_window r' = er_window r" using sub by blast
  then show "window_ok d e (er_window r')" "\<exists>h. high = Some h \<and> e \<le> h"
    using epochs_okD(1,2) [OF ok] by auto
next
  fix e e' r r' assume "fmlookup m' e = Some r" "fmlookup m' e' = Some r'" "e \<noteq> e'" "\<not> is_revoked r" "\<not> is_revoked r'"
  then show "disjoint_signing (er_window r) (er_window r')"
    using sub [of e r] sub [of e' r'] epochs_okD(3) [OF ok, of e _ e'] by auto
next
  fix t
  have "verifying m' t \<subseteq> verifying m t" using sub by (fastforce simp: verifying_def)
  then show "card (verifying m' t) \<le> 2"
    using card_mono [OF finite_verifying [of m t]] epochs_okD(4) [OF ok, of t] by (meson order_trans)
next
  show "fmap_len m' \<le> 8" using len epochs_okD(5) [OF ok] by simp
qed

subsection \<open>Installing a window\<close>

text \<open>
  The source samples the verification windows at their starts. That is enough: among the windows
  that cover a time, all cover the latest of their starts.
\<close>

lemma card_by_key:
  "card {(k, v). fmlookup m k = Some v \<and> P v} = card {k. \<exists>v. fmlookup m k = Some v \<and> P v}"
proof (rule bij_betw_same_card [of fst])
  show "bij_betw fst {(k, v). fmlookup m k = Some v \<and> P v} {k. \<exists>v. fmlookup m k = Some v \<and> P v}"
    by (force simp: bij_betw_def inj_on_def image_iff)
qed

lemma records_count:
  "length (filter P (schedule_records x)) = card {e. \<exists>r. fmlookup (sch_epochs x) e = Some r \<and> P r}"
proof -
  have "length (filter P (schedule_records x)) = length (filter (P \<circ> snd) (entries_in_order (sch_epochs x)))"
    by (simp add: schedule_records_def filter_map)
  then show ?thesis by (simp add: length_filter_entries card_by_key)
qed

lemma verifying_insert:
  assumes "fmlookup m e = None"
  shows "card (verifying (fmupd e \<lparr>er_window = w, er_revoked_at = None\<rparr> m) t) =
    card (verifying m t) + (if can_verify_at w t then 1 else 0)"
proof -
  have "e \<notin> verifying m t" using assms by (simp add: verifying_def)
  moreover have "verifying (fmupd e \<lparr>er_window = w, er_revoked_at = None\<rparr> m) t =
      (if can_verify_at w t then insert e (verifying m t) else verifying m t)"
    using assms by (auto simp: verifying_def is_revoked_def)
  ultimately show ?thesis by simp
qed

lemma sampled_count:
  assumes new: "fmlookup (sch_epochs x) e = None"
  shows "length (filter (\<lambda>(start, until). start \<le> sample \<and> sample < until)
      (map (\<lambda>r. (ew_not_before (er_window r), ew_verify_until (er_window r)))
         (filter (\<lambda>r. \<not> is_revoked r) (schedule_records x)) @ [(ew_not_before w, ew_verify_until w)])) =
    card (verifying (fmupd e \<lparr>er_window = w, er_revoked_at = None\<rparr> (sch_epochs x)) sample)"
proof -
  have "card (verifying (sch_epochs x) sample) =
      length (filter (\<lambda>r. \<not> is_revoked r \<and> can_verify_at (er_window r) sample) (schedule_records x))"
    by (simp add: records_count verifying_def)
  then show ?thesis
    by (simp add: verifying_insert [OF new] filter_map o_def can_verify_at_def conj_ac)
qed

lemma max_overlap:
  assumes samples: "\<And>e r. fmlookup m e = Some r \<Longrightarrow> \<not> is_revoked r \<Longrightarrow>
    card (verifying m (ew_not_before (er_window r))) \<le> n"
  shows "card (verifying m t) \<le> n"
proof (cases "verifying m t = {}")
  case False
  define start where "start e = ew_not_before (er_window (the (fmlookup m e)))" for e
  define latest where "latest = Max (start ` verifying m t)"
  have "latest \<in> start ` verifying m t" using False unfolding latest_def by (intro Max_in) auto
  then obtain e where e: "e \<in> verifying m t" "latest = start e" by blast
  then obtain r where r: "fmlookup m e = Some r" "\<not> is_revoked r" "can_verify_at (er_window r) t"
    by (auto simp: verifying_def)
  then have latest: "latest = ew_not_before (er_window r)" "latest \<le> t"
    using e(2) by (simp_all add: start_def can_verify_at_def)
  have "verifying m t \<subseteq> verifying m latest"
  proof
    fix d assume d: "d \<in> verifying m t"
    then have "start d \<le> latest" unfolding latest_def by (intro Max_ge) auto
    then show "d \<in> verifying m latest"
      using d latest(2) by (auto simp: verifying_def start_def can_verify_at_def)
  qed
  then have "card (verifying m t) \<le> card (verifying m latest)" by (rule card_mono [OF finite_verifying])
  also have "\<dots> \<le> n" unfolding latest(1) by (rule samples [OF r(1,2)])
  finally show ?thesis .
qed simp

lemma disjoint_signing_commute: "disjoint_signing v w \<longleftrightarrow> disjoint_signing w v"
  by (auto simp: disjoint_signing_def intervals_overlap_def)

lemma in_schedule_records: "r \<in> set (schedule_records x) \<longleftrightarrow> (\<exists>e. fmlookup (sch_epochs x) e = Some r)"
  by (auto simp: schedule_records_def image_iff)

lemma check_scheduleD:
  assumes "check_schedule w x = Inr u"
  shows "fmlookup (sch_epochs x) (window_epoch w) = None"
    and "sch_highest_epoch_ever x = Some h \<Longrightarrow> h < window_epoch w"
    and "fmap_len (sch_epochs x) < 8"
    and "fmlookup (sch_epochs x) e = Some r \<Longrightarrow> \<not> is_revoked r \<Longrightarrow> disjoint_signing w (er_window r)"
    and "\<not> verification_overlap_exceeds x w"
  using assms
  by (auto simp: check_schedule_def Let_def MAX_EPOCHS_PER_DOMAIN_def list_ex_iff in_schedule_records
      disjoint_signing_def not_le split: if_splits option.splits)

lemma epochs_ok_insert:
  assumes ok: "epochs_ok d (sch_highest_epoch_ever x) (sch_epochs x)" and check: "check_schedule w x = Inr u"
    and w: "window_ok d e w"
  shows "epochs_ok d (Some e) (fmupd e \<lparr>er_window = w, er_revoked_at = None\<rparr> (sch_epochs x))"
proof -
  let ?r = "\<lparr>er_window = w, er_revoked_at = None\<rparr>"
  let ?m = "fmupd e ?r (sch_epochs x)"
  have e: "window_epoch w = e" using w by (simp add: window_ok_def window_epoch_def)
  note C = check_scheduleD [OF check, unfolded e]
  have new: "fmlookup (sch_epochs x) e = None" by (rule C(1))
  have "card (verifying ?m t) \<le> 2" for t
  proof (rule max_overlap)
    fix k r assume r: "fmlookup ?m k = Some r" "\<not> is_revoked r"
    have "(ew_not_before (er_window r), ew_verify_until (er_window r)) \<in>
        set (map (\<lambda>r. (ew_not_before (er_window r), ew_verify_until (er_window r)))
         (filter (\<lambda>r. \<not> is_revoked r) (schedule_records x)) @ [(ew_not_before w, ew_verify_until w)])"
      using r by (cases "k = e") (auto simp: image_iff in_schedule_records)
    then show "card (verifying ?m (ew_not_before (er_window r))) \<le> 2"
      using C(5) unfolding sampled_count [OF new, symmetric] verification_overlap_exceeds_def Let_def list_ex_iff
        MAX_VERIFICATION_EPOCHS_AT_ONCE_def by fastforce
  qed
  moreover have "window_ok d k (er_window r) \<and> k \<le> e" if "fmlookup ?m k = Some r" for k r
  proof (cases "k = e")
    case True
    then show ?thesis using that w by auto
  next
    case False
    then have k: "fmlookup (sch_epochs x) k = Some r" using that by simp
    then obtain h where "sch_highest_epoch_ever x = Some h" "k \<le> h" using epochs_okD(2) [OF ok] by blast
    then show ?thesis using C(2) epochs_okD(1) [OF ok k] by fastforce
  qed
  moreover have "disjoint_signing (er_window r) (er_window r')"
    if "fmlookup ?m k = Some r" "fmlookup ?m k' = Some r'" "k \<noteq> k'" "\<not> is_revoked r" "\<not> is_revoked r'" for k k' r r'
    using that C(4) [of k r] C(4) [of k' r'] epochs_okD(3) [OF ok, of k r k' r']
    by (cases "k = e"; cases "k' = e") (auto simp: disjoint_signing_commute)
  moreover have "fmap_len ?m \<le> 8" using C(3) by (simp add: fmap_len_upd_new [OF new])
  ultimately show ?thesis unfolding epochs_ok_def by blast
qed

subsection \<open>Runs\<close>

text \<open>An operation as a caller makes it; a window that its constructor refuses is not installed.\<close>

datatype LifecycleOp =
    LifecycleInstall u64 KeyReference u64 u64 u64 u64
  | LifecycleRevoke u64 KeyDomain u32 u64
  | LifecycleRetire u64 KeyDomain u32 u64

definition lifecycle_exec :: "LifecycleOp \<Rightarrow> LifecycleRegistry \<Rightarrow> LifecycleRegistry \<times> (LifecycleError + LifecycleMutation)" where
  "lifecycle_exec x s = (case x of
       LifecycleInstall revision key not_before sign_until verify_until at_unix \<Rightarrow>
         (case EpochWindow_new key not_before sign_until verify_until of
            Inl e \<Rightarrow> (s, Inl e)
          | Inr window \<Rightarrow> lifecycle_install revision window at_unix s)
     | LifecycleRevoke revision domain epoch at_unix \<Rightarrow> lifecycle_revoke revision domain epoch at_unix s
     | LifecycleRetire revision domain epoch at_unix \<Rightarrow> lifecycle_retire revision domain epoch at_unix s)"

definition lifecycle_step :: "LifecycleOp \<Rightarrow> LifecycleRegistry \<Rightarrow> LifecycleRegistry" where
  "lifecycle_step x s = fst (lifecycle_exec x s)"

lemma lifecycle_failed: "lifecycle_exec x s = (s', Inl e) \<Longrightarrow> s' = s"
  by (auto simp: lifecycle_exec_def lifecycle_install_def lifecycle_revoke_def lifecycle_retire_def
      split: LifecycleOp.splits sum.splits)

lemma window_new_ok:
  assumes "EpochWindow_new key a b c = Inr w"
  shows "window_ok (window_domain w) (window_epoch w) w" "window_epoch w \<noteq> 0"
  using assms
  by (auto simp: EpochWindow_new_def window_ok_def window_domain_def window_epoch_def split: if_splits option.splits)

lemma preflight_Inr [simp]:
  "preflight_mutation s rv t = Inr n \<longleftrightarrow> rv = lr_revision s \<and> lr_last_mutation s \<le> t \<and>
     length (lr_audit s) < 256 \<and> checked_add (lr_revision s) 1 = Some n"
  by (auto simp: preflight_mutation_def validate_revision_def validate_clock_def ensure_audit_capacity_def
      MAX_LIFECYCLE_AUDIT_EVENTS_def)

lemma commit_mutation_same [simp]:
  "lr_schedules (commit_mutation n t a d e s) = lr_schedules s"
  by (simp add: commit_mutation_def)

lemma update_epochs_same [simp]:
  "lr_revision (update_epochs d f s) = lr_revision s" "lr_last_mutation (update_epochs d f s) = lr_last_mutation s"
  "lr_audit (update_epochs d f s) = lr_audit s"
  by (simp_all add: update_epochs_def split: option.splits)

lemma update_epochs_lookup:
  "fmlookup (lr_schedules (update_epochs d f s)) d' =
     (if d' = d then map_option (\<lambda>x. x\<lparr>sch_epochs := f (sch_epochs x)\<rparr>) (fmlookup (lr_schedules s) d)
      else fmlookup (lr_schedules s) d')"
  by (simp add: update_epochs_def split: option.splits)

lemma audit_ok_commit:
  assumes "audit_ok s" "lr_last_mutation s \<le> t" "length (lr_audit s) < 256"
    "checked_add (lr_revision s) 1 = Some n"
    and same: "lr_audit s' = lr_audit s" "lr_revision s' = lr_revision s"
  shows "audit_ok (commit_mutation n t a d e s')"
proof -
  have "unat n = Suc (length (lr_audit s))"
    using assms(1,4) by (simp add: audit_ok_def checked_add_one_Some)
  moreover have "la_at x \<le> t" if "x \<in> set (lr_audit s)" for x
    using assms(1,2) that by (auto simp: audit_ok_def intro: order_trans)
  ultimately show ?thesis
    using assms(1,3) same by (simp add: audit_ok_def commit_mutation_def sorted_append)
qed

text \<open>What a mutation that is applied does.\<close>

lemma install_run:
  assumes "lifecycle_install rv w t s = (s', Inr out)"
  obtains n x where "lr_last_mutation s \<le> t" "length (lr_audit s) < 256" "checked_add (lr_revision s) 1 = Some n"
    "x = (case fmlookup (lr_schedules s) (window_domain w) of Some x \<Rightarrow> x | None \<Rightarrow> DomainSchedule_default)"
    "check_schedule w x = Inr ()"
    "s' = commit_mutation n t ActionInstalled (window_domain w) (window_epoch w)
       (s\<lparr>lr_schedules := fmupd (window_domain w) (x\<lparr>sch_highest_epoch_ever := Some (window_epoch w),
           sch_epochs := fmupd (window_epoch w) \<lparr>er_window = w, er_revoked_at = None\<rparr> (sch_epochs x)\<rparr>)
         (lr_schedules s)\<rparr>)"
proof -
  have "check_schedule w DomainSchedule_default = Inr ()"
    by (simp add: check_schedule_def DomainSchedule_default_def schedule_records_def entries_in_order_def keys_in_order_def
        sorted_list_of_fset.rep_eq MAX_EPOCHS_PER_DOMAIN_def verification_overlap_exceeds_def
        MAX_VERIFICATION_EPOCHS_AT_ONCE_def Let_def)
  then show thesis
    using assms that by (auto simp: lifecycle_install_def Let_def split: if_splits option.splits)
qed

lemma revoke_run:
  assumes "lifecycle_revoke rv d e t s = (s', Inr out)"
  obtains r where "find_epoch s d e = Some r" "is_revoked r" "s' = s"
  | r n where "find_epoch s d e = Some r" "\<not> is_revoked r" "lr_last_mutation s \<le> t" "length (lr_audit s) < 256"
      "checked_add (lr_revision s) 1 = Some n"
      "s' = commit_mutation n t ActionRevoked d e
         (update_epochs d (fmupd e (r\<lparr>er_revoked_at := Some t\<rparr>)) s)"
  using assms
  by (auto simp: lifecycle_revoke_def Let_def validate_revision_def validate_clock_def ensure_audit_capacity_def
      MAX_LIFECYCLE_AUDIT_EVENTS_def not_less not_le split: if_splits)

lemma retire_run:
  assumes "lifecycle_retire rv d e t s = (s', Inr out)"
  obtains r n where "find_epoch s d e = Some r" "is_revoked r \<or> ew_verify_until (er_window r) \<le> t"
    "lr_last_mutation s \<le> t" "length (lr_audit s) < 256" "checked_add (lr_revision s) 1 = Some n"
    "s' = commit_mutation n t ActionRetired d e (update_epochs d (fmdrop e) s)"
  using assms by (auto simp: lifecycle_retire_def Let_def not_less split: if_splits)

lemma find_epoch_Some:
  "find_epoch s d e = Some r \<longleftrightarrow> (\<exists>x. fmlookup (lr_schedules s) d = Some x \<and> fmlookup (sch_epochs x) e = Some r)"
  by (auto simp: find_epoch_def bind_eq_Some_conv)

lemma lifecycle_install_ok:
  assumes ok: "lifecycle_ok s" and w: "window_ok (window_domain w) (window_epoch w) w"
    and run: "lifecycle_install rv w t s = (s', Inr out)"
  shows "lifecycle_ok s'"
proof (rule install_run [OF run])
  fix n x
  assume pre: "lr_last_mutation s \<le> t" "length (lr_audit s) < 256" "checked_add (lr_revision s) 1 = Some n"
    and x: "x = (case fmlookup (lr_schedules s) (window_domain w) of Some x \<Rightarrow> x | None \<Rightarrow> DomainSchedule_default)"
    and check: "check_schedule w x = Inr ()"
    and s': "s' = commit_mutation n t ActionInstalled (window_domain w) (window_epoch w)
       (s\<lparr>lr_schedules := fmupd (window_domain w) (x\<lparr>sch_highest_epoch_ever := Some (window_epoch w),
           sch_epochs := fmupd (window_epoch w) \<lparr>er_window = w, er_revoked_at = None\<rparr> (sch_epochs x)\<rparr>)
         (lr_schedules s)\<rparr>)"
  have "epochs_ok (window_domain w) (sch_highest_epoch_ever x) (sch_epochs x)"
    using ok by (auto simp: x lifecycle_ok_def DomainSchedule_default_def epochs_ok_def verifying_def split: option.splits)
  then have "epochs_ok (window_domain w) (Some (window_epoch w))
      (fmupd (window_epoch w) \<lparr>er_window = w, er_revoked_at = None\<rparr> (sch_epochs x))"
    by (rule epochs_ok_insert [OF _ check w])
  moreover have "audit_ok s'" unfolding s' using ok pre by (intro audit_ok_commit) (simp_all add: lifecycle_ok_def)
  ultimately show ?thesis using ok by (auto simp: lifecycle_ok_def s')
qed

lemma lifecycle_revoke_ok:
  assumes ok: "lifecycle_ok s" and run: "lifecycle_revoke rv d e t s = (s', Inr out)"
  shows "lifecycle_ok s'"
  using run
proof (cases rule: revoke_run)
  case 1
  then show ?thesis using ok by simp
next
  case (2 r n)
  then obtain x where x: "fmlookup (lr_schedules s) d = Some x" "fmlookup (sch_epochs x) e = Some r"
    by (auto simp: find_epoch_Some)
  have "epochs_ok d (sch_highest_epoch_ever x) (fmupd e (r\<lparr>er_revoked_at := Some t\<rparr>) (sch_epochs x))"
  proof (rule epochs_ok_shrink)
    show "epochs_ok d (sch_highest_epoch_ever x) (sch_epochs x)" using ok x(1) by (simp add: lifecycle_ok_def)
    show "fmap_len (fmupd e (r\<lparr>er_revoked_at := Some t\<rparr>) (sch_epochs x)) \<le> fmap_len (sch_epochs x)"
      by (simp add: fmap_len_upd_old [OF x(2)])
  qed (use x(2) in \<open>auto simp: is_revoked_def split: if_splits\<close>)
  moreover have "audit_ok s'"
    unfolding 2(6) using ok 2 by (intro audit_ok_commit [of s]) (simp_all add: lifecycle_ok_def)
  ultimately show ?thesis using ok x(1) by (auto simp: lifecycle_ok_def 2(6) update_epochs_lookup split: if_splits)
qed

lemma lifecycle_retire_ok:
  assumes ok: "lifecycle_ok s" and run: "lifecycle_retire rv d e t s = (s', Inr out)"
  shows "lifecycle_ok s'"
  using run
proof (cases rule: retire_run)
  case (1 r n)
  have "epochs_ok d (sch_highest_epoch_ever x) (fmdrop e (sch_epochs x))"
    if x: "fmlookup (lr_schedules s) d = Some x" for x
  proof (rule epochs_ok_shrink)
    show "epochs_ok d (sch_highest_epoch_ever x) (sch_epochs x)" using ok x by (simp add: lifecycle_ok_def)
  qed (auto simp: fmap_len_drop_le split: if_splits)
  moreover have "audit_ok s'"
    unfolding 1(6) using ok 1 by (intro audit_ok_commit [of s]) (simp_all add: lifecycle_ok_def)
  ultimately show ?thesis using ok by (auto simp: lifecycle_ok_def 1(6) update_epochs_lookup split: if_splits)
qed

lemma lifecycle_step_cases [case_names failed install revoke retire]:
  assumes "\<And>err. lifecycle_exec x s = (s, Inl err) \<Longrightarrow> P s"
    and "\<And>rv w t s' out. lifecycle_install rv w t s = (s', Inr out) \<Longrightarrow>
      window_ok (window_domain w) (window_epoch w) w \<Longrightarrow> P s'"
    and "\<And>rv d e t s' out. lifecycle_revoke rv d e t s = (s', Inr out) \<Longrightarrow> P s'"
    and "\<And>rv d e t s' out. lifecycle_retire rv d e t s = (s', Inr out) \<Longrightarrow> P s'"
  shows "P (lifecycle_step x s)"
proof -
  obtain s' out where run: "lifecycle_exec x s = (s', out)" by fastforce
  show ?thesis
  proof (cases out)
    case (Inl err)
    then have "s' = s" using lifecycle_failed run by blast
    then show ?thesis using assms(1) run Inl by (simp add: lifecycle_step_def)
  next
    case (Inr m)
    then show ?thesis
      using run assms(2-4) window_new_ok
      by (fastforce simp: lifecycle_step_def lifecycle_exec_def split: LifecycleOp.splits sum.splits)
  qed
qed

lemma lifecycle_step_ok: "lifecycle_ok s \<Longrightarrow> lifecycle_ok (lifecycle_step x s)"
  by (rule lifecycle_step_cases)
    (auto intro: lifecycle_install_ok lifecycle_revoke_ok lifecycle_retire_ok)

subsection \<open>Dead epochs\<close>

definition lifecycle_dead :: "LifecycleRegistry \<Rightarrow> KeyDomain \<Rightarrow> u32 \<Rightarrow> bool" where
  "lifecycle_dead s d e \<longleftrightarrow> (\<exists>x h. fmlookup (lr_schedules s) d = Some x \<and> sch_highest_epoch_ever x = Some h \<and> e \<le> h) \<and>
     (\<forall>r. find_epoch s d e = Some r \<longrightarrow> is_revoked r)"

definition lifecycle_below :: "LifecycleRegistry \<Rightarrow> LifecycleRegistry \<Rightarrow> bool" where
  "lifecycle_below s t \<longleftrightarrow> (\<forall>d e. lifecycle_dead s d e \<longrightarrow> lifecycle_dead t d e)"

lemma lifecycle_deadI:
  assumes "fmlookup (lr_schedules s) d = Some x" "sch_highest_epoch_ever x = Some h" "e \<le> h"
    and "\<And>r. fmlookup (sch_epochs x) e = Some r \<Longrightarrow> is_revoked r"
  shows "lifecycle_dead s d e"
  using assms by (auto simp: lifecycle_dead_def find_epoch_Some)

lemma lifecycle_deadE:
  assumes "lifecycle_dead s d e"
  obtains x h where "fmlookup (lr_schedules s) d = Some x" "sch_highest_epoch_ever x = Some h" "e \<le> h"
    "\<And>r. fmlookup (sch_epochs x) e = Some r \<Longrightarrow> is_revoked r"
  using assms by (auto simp: lifecycle_dead_def find_epoch_Some)

lemma lifecycle_step_below: "lifecycle_below s (lifecycle_step x s)"
  unfolding lifecycle_below_def
proof (intro allI impI)
  fix d e assume "lifecycle_dead s d e"
  then obtain x h where x: "fmlookup (lr_schedules s) d = Some x" "sch_highest_epoch_ever x = Some h" "e \<le> h"
    "\<And>r. fmlookup (sch_epochs x) e = Some r \<Longrightarrow> is_revoked r"
    by (rule lifecycle_deadE) blast
  show "lifecycle_dead (lifecycle_step y s) d e" for y
  proof (rule lifecycle_step_cases)
    show "lifecycle_dead s d e" by (rule lifecycle_deadI [OF x])
  next
    fix rv w t s' out assume "lifecycle_install rv w t s = (s', Inr out)"
    then show "lifecycle_dead s' d e"
    proof (rule install_run)
      fix n z
      assume z: "z = (case fmlookup (lr_schedules s) (window_domain w) of Some x \<Rightarrow> x | None \<Rightarrow> DomainSchedule_default)"
        and check: "check_schedule w z = Inr ()"
        and s': "s' = commit_mutation n t ActionInstalled (window_domain w) (window_epoch w)
          (s\<lparr>lr_schedules := fmupd (window_domain w) (z\<lparr>sch_highest_epoch_ever := Some (window_epoch w),
              sch_epochs := fmupd (window_epoch w) \<lparr>er_window = w, er_revoked_at = None\<rparr> (sch_epochs z)\<rparr>)
            (lr_schedules s)\<rparr>)"
      show ?thesis
      proof (cases "window_domain w = d")
        case True
        then have "z = x" using z x(1) by simp
        then have "h < window_epoch w" using check_scheduleD(2) [OF check] x(2) by simp
        then show ?thesis using x True \<open>z = x\<close>
          by (intro lifecycle_deadI [of s' d "z\<lparr>sch_highest_epoch_ever := Some (window_epoch w),
              sch_epochs := fmupd (window_epoch w) \<lparr>er_window = w, er_revoked_at = None\<rparr> (sch_epochs z)\<rparr>" "window_epoch w"])
            (auto simp: s' split: if_splits)
      next
        case False
        then show ?thesis using x by (intro lifecycle_deadI [of s' d x h]) (simp_all add: s')
      qed
    qed
  next
    fix rv d' e' t s' out assume "lifecycle_revoke rv d' e' t s = (s', Inr out)"
    then show "lifecycle_dead s' d e"
    proof (cases rule: revoke_run)
      case 1
      then show ?thesis using lifecycle_deadI [OF x] by simp
    next
      case (2 r n)
      then show ?thesis using x
        by (cases "d' = d")
          (auto simp: lifecycle_dead_def find_epoch_Some update_epochs_lookup is_revoked_def split: if_splits)
    qed
  next
    fix rv d' e' t s' out assume "lifecycle_retire rv d' e' t s = (s', Inr out)"
    then show "lifecycle_dead s' d e"
    proof (cases rule: retire_run)
      case (1 r n)
      then show ?thesis using x
        by (cases "d' = d") (auto simp: lifecycle_dead_def find_epoch_Some update_epochs_lookup split: if_splits)
    qed
  qed
qed

interpretation windows: monotone_machine lifecycle_step lifecycle_ok lifecycle_below
  by unfold_locales (auto simp: lifecycle_below_def lifecycle_step_ok lifecycle_step_below [unfolded lifecycle_below_def])

subsection \<open>Routing\<close>

lemma find_filter: "List.find P xs = (case filter P xs of [] \<Rightarrow> None | x # _ \<Rightarrow> Some x)"
  by (induction xs) auto

definition signs_at :: "u64 \<Rightarrow> u32 \<times> EpochRecord \<Rightarrow> bool" where
  "signs_at t = (\<lambda>(_, r). \<not> is_revoked r \<and> can_sign_at (er_window r) t)"

definition domain_entries :: "LifecycleRegistry \<Rightarrow> KeyDomain \<Rightarrow> (u32 \<times> EpochRecord) list" where
  "domain_entries s d = (case fmlookup (lr_schedules s) d of None \<Rightarrow> [] | Some x \<Rightarrow> entries_in_order (sch_epochs x))"

lemma domain_entries_iff: "(e, r) \<in> set (domain_entries s d) \<longleftrightarrow> find_epoch s d e = Some r"
  by (cases "fmlookup (lr_schedules s) d") (auto simp: domain_entries_def find_epoch_def)

lemma one_signer:
  assumes ok: "lifecycle_ok s" and a: "find_epoch s d e = Some r" "signs_at t (e, r)"
    and b: "find_epoch s d e' = Some r'" "signs_at t (e', r')"
  shows "e = e' \<and> r = r'"
proof -
  obtain x where x: "fmlookup (lr_schedules s) d = Some x" "fmlookup (sch_epochs x) e = Some r"
    "fmlookup (sch_epochs x) e' = Some r'" using a(1) b(1) by (auto simp: find_epoch_Some)
  have ep: "epochs_ok d (sch_highest_epoch_ever x) (sch_epochs x)" using ok x(1) by (simp add: lifecycle_ok_def)
  have "\<not> disjoint_signing (er_window r) (er_window r')"
    using a(2) b(2) by (auto simp: signs_at_def can_sign_at_def disjoint_signing_def intervals_overlap_def)
  then have "e = e'" using epochs_okD(3) [OF ep x(2,3)] a(2) b(2) by (auto simp: signs_at_def)
  then show ?thesis using x(2,3) by simp
qed

lemma signer_entries:
  assumes ok: "lifecycle_ok s"
  obtains "filter (signs_at t) (domain_entries s d) = []"
  | e r where "filter (signs_at t) (domain_entries s d) = [(e, r)]" "find_epoch s d e = Some r" "signs_at t (e, r)"
proof (cases "filter (signs_at t) (domain_entries s d)")
  case (Cons p ps)
  obtain e r where p: "p = (e, r)" by (cases p)
  have mem: "q \<in> set (domain_entries s d) \<and> signs_at t q" if "q \<in> set (p # ps)" for q
    using that unfolding Cons [symmetric] by simp
  have first: "find_epoch s d e = Some r" "signs_at t (e, r)" using mem [of p] by (simp_all add: p domain_entries_iff)
  have "ps = []"
  proof (cases ps)
    case (Cons q qs)
    obtain e' r' where q: "q = (e', r')" by (cases q)
    have "find_epoch s d e' = Some r'" "signs_at t (e', r')" using mem [of q] by (simp_all add: Cons q domain_entries_iff)
    then have "p = q" using one_signer [OF ok first] by (simp add: p q)
    moreover have "distinct (p # ps)"
    proof -
      have "distinct (domain_entries s d)" by (simp add: domain_entries_def split: option.splits)
      then show ?thesis unfolding \<open>filter (signs_at t) (domain_entries s d) = p # ps\<close> [symmetric]
        by (rule distinct_filter)
    qed
    ultimately show ?thesis using Cons by simp
  qed
  then show thesis using that(2) first Cons p by simp
qed (rule that(1))

lemma signing_key_entries:
  "lifecycle_signing_key s d t = (case filter (signs_at t) (domain_entries s d) of
      [] \<Rightarrow> Inl (NoSigningEpoch d) | [(_, r)] \<Rightarrow> Inr (ew_key (er_window r)) | _ \<Rightarrow> Inl InternalInvariant)"
proof -
  have "filter (\<lambda>r. \<not> is_revoked r \<and> can_sign_at (er_window r) t) (domain_records s d) =
      map snd (filter (signs_at t) (domain_entries s d))"
    by (simp add: domain_records_def domain_entries_def schedule_records_def filter_map signs_at_def o_def
        split_def split: option.splits)
  then show ?thesis by (auto simp: lifecycle_signing_key_def split: list.splits)
qed

lemma status_signing:
  "dl_signing_epoch (lifecycle_status s d t) =
     (case filter (signs_at t) (domain_entries s d) of [] \<Rightarrow> None | x # _ \<Rightarrow> Some (fst x))"
  by (simp add: lifecycle_status_def Let_def find_filter signs_at_def domain_entries_def split: list.splits option.splits)

lemma signing_allowed_iff:
  assumes ok: "lifecycle_ok s"
  shows "assert_signing_allowed s d e t = Inr () \<longleftrightarrow> (\<exists>r. find_epoch s d e = Some r \<and> signs_at t (e, r))"
  by (auto simp: assert_signing_allowed_def signs_at_def can_sign_at_def not_less not_le split: if_splits)

lemma signer_routed:
  assumes ok: "lifecycle_ok s"
  shows "assert_signing_allowed s d e t = Inr () \<longleftrightarrow>
      dl_signing_epoch (lifecycle_status s d t) = Some e"
    and "lifecycle_signing_key s d t = Inr k \<Longrightarrow> kf_domain k = d \<and>
      (\<exists>e. kf_epoch k = Some e \<and> assert_signing_allowed s d e t = Inr () \<and> lifecycle_verification_key s d e t = Inr k)"
    and "lifecycle_signing_key s d t \<noteq> Inl InternalInvariant"
proof -
  show "assert_signing_allowed s d e t = Inr () \<longleftrightarrow> dl_signing_epoch (lifecycle_status s d t) = Some e"
    using ok unfolding signing_allowed_iff [OF ok] status_signing
  proof (cases rule: signer_entries [of s t d])
    case 1
    then have "\<not> signs_at t (e, r)" if "find_epoch s d e = Some r" for r
      using that by (auto simp: filter_empty_conv domain_entries_iff)
    then show "(\<exists>r. find_epoch s d e = Some r \<and> signs_at t (e, r)) \<longleftrightarrow>
      (case filter (signs_at t) (domain_entries s d) of [] \<Rightarrow> None | x # _ \<Rightarrow> Some (fst x)) = Some e"
      using 1 by auto
  next
    case (2 e' r')
    then show "(\<exists>r. find_epoch s d e = Some r \<and> signs_at t (e, r)) \<longleftrightarrow>
      (case filter (signs_at t) (domain_entries s d) of [] \<Rightarrow> None | x # _ \<Rightarrow> Some (fst x)) = Some e"
    proof -
      have "e' = e" if "find_epoch s d e = Some r" "signs_at t (e, r)" for r
        using one_signer [OF ok 2(2,3) that] by blast
      then have "(\<exists>r. find_epoch s d e = Some r \<and> signs_at t (e, r)) \<longleftrightarrow> e' = e" using 2(2,3) by blast
      then show ?thesis using 2(1) by simp
    qed
  qed
  show "lifecycle_signing_key s d t \<noteq> Inl InternalInvariant"
    using ok by (cases rule: signer_entries [of s t d]) (simp_all add: signing_key_entries)
  assume k: "lifecycle_signing_key s d t = Inr k"
  show "kf_domain k = d \<and>
      (\<exists>e. kf_epoch k = Some e \<and> assert_signing_allowed s d e t = Inr () \<and> lifecycle_verification_key s d e t = Inr k)"
    using ok
  proof (cases rule: signer_entries [of s t d])
    case 1
    then show ?thesis using k by (simp add: signing_key_entries)
  next
    case (2 e r)
    then have "k = ew_key (er_window r)" using k by (simp add: signing_key_entries)
    moreover have w: "window_ok d e (er_window r)"
      using ok 2(2) by (auto simp: find_epoch_Some lifecycle_ok_def dest: epochs_okD(1))
    moreover have "t < ew_verify_until (er_window r)"
      using w 2(3) by (auto simp: window_ok_def signs_at_def can_sign_at_def)
    moreover have "assert_signing_allowed s d e t = Inr ()" using 2 unfolding signing_allowed_iff [OF ok] by blast
    ultimately show ?thesis using 2
      by (auto simp: window_ok_def lifecycle_verification_key_def signs_at_def can_sign_at_def not_le not_less)
  qed
qed

lemma verification_list:
  "set (dl_verification_epochs (lifecycle_status s d t)) = {e. \<exists>k. lifecycle_verification_key s d e t = Inr k}"
  (is ?set)
  and verification_count: "lifecycle_ok s \<Longrightarrow> length (dl_verification_epochs (lifecycle_status s d t)) \<le> 2"
proof -
  let ?P = "\<lambda>(_, r). \<not> is_revoked r \<and> can_verify_at (er_window r) t"
  have list: "dl_verification_epochs (lifecycle_status s d t) = rev (sort (map fst (filter ?P (domain_entries s d))))"
    by (simp add: lifecycle_status_def Let_def domain_entries_def)
  have "e \<in> set (dl_verification_epochs (lifecycle_status s d t)) \<longleftrightarrow>
      (\<exists>r. find_epoch s d e = Some r \<and> \<not> is_revoked r \<and> can_verify_at (er_window r) t)" for e
    unfolding list by (force simp: image_iff domain_entries_iff)
  then show ?set
    by (auto simp: lifecycle_verification_key_def can_verify_at_def not_less not_le split: if_splits)
  assume ok: "lifecycle_ok s"
  show "length (dl_verification_epochs (lifecycle_status s d t)) \<le> 2"
  proof (cases "fmlookup (lr_schedules s) d")
    case None
    then show ?thesis by (simp add: list domain_entries_def)
  next
    case (Some x)
    then have "length (dl_verification_epochs (lifecycle_status s d t)) = card (verifying (sch_epochs x) t)"
      by (simp add: list domain_entries_def length_filter_entries card_by_key verifying_def)
    then show ?thesis using ok Some by (auto simp: lifecycle_ok_def dest: epochs_okD(4))
  qed
qed

lemma lifecycle_dead_unusable:
  assumes ok: "lifecycle_ok s" and dead: "lifecycle_dead s d e"
  shows "\<exists>err. lifecycle_verification_key s d e t = Inl err" and "\<exists>err. assert_signing_allowed s d e t = Inl err"
    and "lifecycle_signing_key s d t = Inr k \<Longrightarrow> kf_epoch k \<noteq> Some e"
proof -
  have revoked: "is_revoked r" if "find_epoch s d e = Some r" for r
    using dead that by (auto simp: lifecycle_dead_def)
  show "\<exists>err. lifecycle_verification_key s d e t = Inl err" and no: "\<exists>err. assert_signing_allowed s d e t = Inl err"
    using revoked by (cases "find_epoch s d e"; simp add: lifecycle_verification_key_def assert_signing_allowed_def)+
  assume "lifecycle_signing_key s d t = Inr k"
  then show "kf_epoch k \<noteq> Some e" using signer_routed(2) [OF ok] no by fastforce
qed

subsection \<open>Properties\<close>

text \<open>
  C15: At every moment of every run a key domain has at most one signer, and the registry's answers
  agree: the internal-invariant error never appears, the key it hands out for signing is the one of
  the epoch that its status reports and that \<open>assert_signing_allowed\<close> admits, and it verifies at
  that moment; the status lists exactly the epochs that verify, which are at most two; and the
  revision counts the audit trail, which has at most 256 events.
\<close>

theorem lifecycle_one_signer:
  assumes s: "s = fold lifecycle_step ops LifecycleRegistry_default"
  shows "lifecycle_signing_key s d t \<noteq> Inl InternalInvariant \<and>
    (\<forall>k. lifecycle_signing_key s d t = Inr k \<longrightarrow> kf_domain k = d \<and>
      (\<exists>e. kf_epoch k = Some e \<and> assert_signing_allowed s d e t = Inr () \<and> lifecycle_verification_key s d e t = Inr k)) \<and>
    (\<forall>e. assert_signing_allowed s d e t = Inr () \<longleftrightarrow> dl_signing_epoch (lifecycle_status s d t) = Some e) \<and>
    set (dl_verification_epochs (lifecycle_status s d t)) = {e. \<exists>k. lifecycle_verification_key s d e t = Inr k} \<and>
    length (dl_verification_epochs (lifecycle_status s d t)) \<le> 2 \<and>
    unat (lr_revision s) = length (lr_audit s) \<and> length (lr_audit s) \<le> 256"
proof -
  have ok: "lifecycle_ok s" unfolding s by (rule windows.run_inv [OF lifecycle_default_ok])
  show ?thesis
    using signer_routed [OF ok] verification_list [of s d t] verification_count [OF ok] ok
    unfolding lifecycle_ok_def audit_ok_def by blast
qed

text \<open>
  Revocation and retirement are final: once either has succeeded for an epoch, then whatever is
  installed, revoked and retired later, this epoch of this domain neither verifies nor signs, at
  any time.
\<close>

theorem lifecycle_revocation_final:
  assumes s: "s = fold lifecycle_step ops LifecycleRegistry_default"
    and x: "x = LifecycleRevoke rv d e at_unix \<or> x = LifecycleRetire rv d e at_unix"
    and run: "lifecycle_exec x s = (s', Inr out)" and later: "s'' = fold lifecycle_step ops' s'"
  shows "(\<exists>err. lifecycle_verification_key s'' d e t = Inl err) \<and>
    (\<exists>err. assert_signing_allowed s'' d e t = Inl err) \<and>
    (\<forall>k. lifecycle_signing_key s'' d t = Inr k \<longrightarrow> kf_epoch k \<noteq> Some e)"
proof -
  have ok: "lifecycle_ok s" unfolding s by (rule windows.run_inv [OF lifecycle_default_ok])
  then have ok': "lifecycle_ok s'" using lifecycle_step_ok [OF ok, of x] run by (simp add: lifecycle_step_def)
  have known: "\<exists>y h. fmlookup (lr_schedules s) d = Some y \<and> sch_highest_epoch_ever y = Some h \<and> e \<le> h"
    if "find_epoch s d e = Some r" for r
    using ok that epochs_okD(2) by (fastforce simp: find_epoch_Some lifecycle_ok_def)
  have "lifecycle_dead s' d e"
    using x
  proof
    assume "x = LifecycleRevoke rv d e at_unix"
    then have "lifecycle_revoke rv d e at_unix s = (s', Inr out)" using run by (simp add: lifecycle_exec_def)
    then show ?thesis
      by (cases rule: revoke_run)
        (use known in \<open>fastforce simp: lifecycle_dead_def find_epoch_Some update_epochs_lookup is_revoked_def\<close>)+
  next
    assume "x = LifecycleRetire rv d e at_unix"
    then have "lifecycle_retire rv d e at_unix s = (s', Inr out)" using run by (simp add: lifecycle_exec_def)
    then show ?thesis
      by (cases rule: retire_run)
        (use known in \<open>fastforce simp: lifecycle_dead_def find_epoch_Some update_epochs_lookup\<close>)
  qed
  then have "lifecycle_dead s'' d e"
    using windows.run_below [OF ok', of ops'] by (simp add: later lifecycle_below_def)
  moreover have "lifecycle_ok s''" unfolding later by (rule windows.run_inv [OF ok'])
  ultimately show ?thesis using lifecycle_dead_unusable by blast
qed

subsection \<open>Witnesses\<close>

definition wit_schedule :: "LifecycleOp list" where
  "wit_schedule = [LifecycleInstall 0 wit_access_key 10 20 30 5]"

definition wit_window :: EpochWindow where
  "wit_window = \<lparr>ew_key = wit_access_key, ew_not_before = 10, ew_sign_until = 20, ew_verify_until = 30\<rparr>"

definition wit_scheduled :: LifecycleRegistry where
  "wit_scheduled = \<lparr>lr_revision = 1, lr_last_mutation = 5,
     lr_schedules = fmupd DomainAccessToken \<lparr>sch_highest_epoch_ever = Some 7,
       sch_epochs = fmupd 7 \<lparr>er_window = wit_window, er_revoked_at = None\<rparr> fmempty\<rparr> fmempty,
     lr_audit = [\<lparr>la_revision = 1, la_action = ActionInstalled, la_domain = DomainAccessToken,
       la_epoch = 7, la_at = 5\<rparr>]\<rparr>"

lemma wit_scheduled: "wit_scheduled = fold lifecycle_step wit_schedule LifecycleRegistry_default"
proof -
  have "EpochWindow_new wit_access_key 10 20 30 = Inr wit_window"
    by (simp add: EpochWindow_new_def wit_window_def wit_access_key_def)
  moreover have "checked_add (0 :: u64) 1 = Some 1" by (simp add: checked_add_def)
  moreover have "window_domain wit_window = DomainAccessToken" "window_epoch wit_window = 7"
    by (simp_all add: window_domain_def window_epoch_def wit_window_def wit_access_key_def)
  moreover have "ew_sign_until wit_window = 20" by (simp add: wit_window_def)
  ultimately show ?thesis
    by (simp add: wit_scheduled_def wit_schedule_def lifecycle_step_def lifecycle_exec_def lifecycle_install_def
        preflight_mutation_def validate_revision_def validate_clock_def ensure_audit_capacity_def
        LifecycleRegistry_default_def DomainSchedule_default_def commit_mutation_def MAX_LIFECYCLE_AUDIT_EVENTS_def Let_def)
qed

lemma wit_scheduled_find: "find_epoch wit_scheduled DomainAccessToken 7 = Some \<lparr>er_window = wit_window, er_revoked_at = None\<rparr>"
  by (simp add: find_epoch_def wit_scheduled_def)

theorem lifecycle_one_signer_witness:
  "\<exists>s. s = fold lifecycle_step wit_schedule LifecycleRegistry_default \<and>
     dl_signing_epoch (lifecycle_status s DomainAccessToken 15) = Some 7 \<and> unat (lr_revision s) = 1"
proof -
  have "assert_signing_allowed wit_scheduled DomainAccessToken 7 15 = Inr ()"
    by (simp add: assert_signing_allowed_def wit_scheduled_find is_revoked_def wit_window_def)
  then have "dl_signing_epoch (lifecycle_status wit_scheduled DomainAccessToken 15) = Some 7"
    using lifecycle_one_signer [OF wit_scheduled, of DomainAccessToken 15] by blast
  moreover have "unat (lr_revision wit_scheduled) = 1" by (simp add: wit_scheduled_def)
  ultimately show ?thesis using wit_scheduled by blast
qed

theorem lifecycle_revocation_final_witness:
  "\<exists>s s' out. s = fold lifecycle_step wit_schedule LifecycleRegistry_default \<and>
     lifecycle_exec (LifecycleRevoke 1 DomainAccessToken 7 6) s = (s', Inr out) \<and> lm_applied out \<and>
     (\<exists>err. lifecycle_verification_key (fold lifecycle_step [LifecycleInstall 2 wit_access_key 10 20 30 7] s')
       DomainAccessToken 7 15 = Inl err)"
proof -
  have add: "checked_add (1 :: u64) 1 = Some 2" by (simp add: checked_add_def)
  have sel: "lr_revision wit_scheduled = 1" "lr_last_mutation wit_scheduled = 5" "length (lr_audit wit_scheduled) = 1"
    by (simp_all add: wit_scheduled_def)
  obtain s' where run: "lifecycle_exec (LifecycleRevoke 1 DomainAccessToken 7 6) wit_scheduled =
      (s', Inr \<lparr>lm_revision = 2, lm_applied = True\<rparr>)"
    by (simp add: lifecycle_exec_def lifecycle_revoke_def sel add wit_scheduled_find is_revoked_def
        validate_revision_def validate_clock_def ensure_audit_capacity_def MAX_LIFECYCLE_AUDIT_EVENTS_def)
  show ?thesis
    using wit_scheduled run lifecycle_revocation_final [OF wit_scheduled disjI1 [OF refl] run refl,
        of "[LifecycleInstall 2 wit_access_key 10 20 30 7]" 15]
    by auto
qed

end
