(* ===== verification/Signer_Journal.thy ===== *)
theory Signer_Journal
  imports Key_Provider
begin

text \<open>
  The journal of operations of an external signer
  (\<open>crates/trnm-token-crypto-provider/src/signer_journal.rs\<close>): an operation is prepared, dispatched
  to one provider, perhaps left indeterminate when the transport is lost, confirmed by
  authenticated evidence or rejected, archived as a tombstone, and retired with its epoch behind a
  checkpoint. The verifiers of outcomes and of archives are traits without an implementation in
  the library code: arguments here. The nonzero journal epochs and operation identities are those
  their constructors accept.
\<close>

definition MAX_SIGNER_JOURNAL_CAPACITY :: usize where "MAX_SIGNER_JOURNAL_CAPACITY = 4096"

subsection \<open>Requests, dispatches and outcomes\<close>

record SigningOperationHandle =
  sh_journal_epoch :: u64
  sh_operation_id :: id16

record SigningRequest =
  sq_journal_epoch :: u64
  sq_operation_id :: id16
  sq_key_domain :: KeyDomain
  sq_key_epoch :: u64
  sq_payload_digest :: digest32

record SignerDispatchIdentity =
  sd_request :: SigningRequest
  sd_provider_identity_digest :: digest32
  sd_provider_endpoint_digest :: digest32
  sd_attempt :: u32

record SignerOutcomeEvidence =
  se_request :: SigningRequest
  se_dispatch :: SignerDispatchIdentity
  se_receipt_digest :: digest32
  se_signature :: "u8 list"
  se_signature_digest :: digest32
  se_provider_evidence_digest :: digest32

datatype SignerOutcomeVerificationError =
  Unauthenticated | BindingMismatch | SignatureRejected | ProviderUnavailable

type_synonym SignerOutcomeVerifier = "SignerOutcomeEvidence \<Rightarrow> SignerOutcomeVerificationError + unit"

datatype SigningOperationState =
    Prepared | Dispatched | Indeterminate
  | Confirmed digest32 "u8 list" digest32 digest32
  | SigningRejected digest32

record SigningOperationRecord =
  sr_request :: SigningRequest
  sr_dispatch :: "SignerDispatchIdentity option"
  sr_state :: SigningOperationState

record SigningOperationTombstone =
  st_request :: SigningRequest
  st_dispatch :: "SignerDispatchIdentity option"
  st_state :: SigningOperationState
  st_archive_digest :: digest32

record SignerReceiptBinding =
  sb_receipt_digest :: digest32
  sb_operation_id :: id16

record SignerJournalCheckpoint =
  sc_sequence :: u64
  sc_previous_checkpoint_digest :: "digest32 option"
  sc_checkpoint_digest :: digest32
  sc_retired_epoch :: u64
  sc_active_epoch :: u64
  sc_tombstones :: "SigningOperationTombstone list"
  sc_receipt_bindings :: "SignerReceiptBinding list"

record SignerJournalArchiveVerifier =
  verify_journal_checkpoint :: "SignerJournalCheckpoint \<Rightarrow> bool"
  receipt_is_absent :: "SignerJournalCheckpoint \<Rightarrow> digest32 \<Rightarrow> bool"

datatype SignerJournalError =
    ZeroEpoch | ZeroCapacity
  | CapacityTooLarge string usize usize
  | InvalidCapacityRelationship
  | ZeroOperationId | ZeroKeyEpoch | ZeroDispatchAttempt
  | ZeroDigest string
  | CapacityExceeded usize
  | EpochCapacityExceeded usize
  | EpochMismatch u64 u64
  | EpochNotAdvanced u64 u64
  | UnknownOperation id16
  | ConflictingOperation id16
  | DispatchMismatch id16
  | AlreadyDispatched id16
  | NotDispatched id16
  | IndeterminateRequiresReconciliation id16
  | OutcomeBindingMismatch string
  | OutcomeVerificationFailed SignerOutcomeVerificationError
  | ReceiptMismatch id16
  | ReceiptReused id16 id16
  | ArchivedReceiptReused id16
  | ArchiveVerificationRequired
  | ArchiveVerificationFailed
  | Terminal id16
  | ArchiveRequiresTerminal id16
  | ArchiveDigestMismatch id16
  | ActiveRecordsPreventEpochAdvance
  | NoTerminalOperations
  | CheckpointVerificationFailed
  | CheckpointInvalid string
  | CheckpointSequenceExhausted
  | InvariantViolation string

definition SignerJournalEpoch_new :: "u64 \<Rightarrow> SignerJournalError + u64" where
  "SignerJournalEpoch_new value = (if value = 0 then Inl ZeroEpoch else Inr value)"

definition SigningOperationId_new :: "id16 \<Rightarrow> SignerJournalError + id16" where
  "SigningOperationId_new value = (if id_is_zero value then Inl ZeroOperationId else Inr value)"

definition require_nonzero_digest :: "string \<Rightarrow> digest32 \<Rightarrow> SignerJournalError + unit" where
  "require_nonzero_digest field digest = (if id_is_zero digest then Inl (ZeroDigest field) else Inr ())"

definition request_validate :: "SigningRequest \<Rightarrow> SignerJournalError + SigningRequest" where
  "request_validate q =
     (if sq_key_epoch q = 0 then Inl ZeroKeyEpoch
      else tryE (require_nonzero_digest ''payload_digest'' (sq_payload_digest q)) (\<lambda>_. Inr q))"

definition request_handle :: "SigningRequest \<Rightarrow> SigningOperationHandle" where
  "request_handle q = \<lparr>sh_journal_epoch = sq_journal_epoch q, sh_operation_id = sq_operation_id q\<rparr>"

definition dispatch_validate :: "SignerDispatchIdentity \<Rightarrow> SignerJournalError + SignerDispatchIdentity" where
  "dispatch_validate d =
     tryE (request_validate (sd_request d)) (\<lambda>_.
     tryE (require_nonzero_digest ''provider_identity_digest'' (sd_provider_identity_digest d)) (\<lambda>_.
     tryE (require_nonzero_digest ''provider_endpoint_digest'' (sd_provider_endpoint_digest d)) (\<lambda>_.
     if sd_attempt d = 0 then Inl ZeroDispatchAttempt else Inr d)))"

definition dispatch_handle :: "SignerDispatchIdentity \<Rightarrow> SigningOperationHandle" where
  "dispatch_handle d = request_handle (sd_request d)"

definition signer_evidence_validate :: "SignerOutcomeEvidence \<Rightarrow> SignerJournalError + SignerOutcomeEvidence" where
  "signer_evidence_validate e =
     tryE (request_validate (se_request e)) (\<lambda>_.
     tryE (dispatch_validate (se_dispatch e)) (\<lambda>_.
     if sd_request (se_dispatch e) \<noteq> se_request e
     then Inl (OutcomeBindingMismatch ''dispatch request differs from outcome request'')
     else
     tryE (require_nonzero_digest ''receipt_digest'' (se_receipt_digest e)) (\<lambda>_.
     tryE (require_nonzero_digest ''signature_digest'' (se_signature_digest e)) (\<lambda>_.
     tryE (require_nonzero_digest ''provider_evidence_digest'' (se_provider_evidence_digest e)) (\<lambda>_.
     Inr e)))))"

fun signing_is_terminal :: "SigningOperationState \<Rightarrow> bool" where
  "signing_is_terminal (Confirmed _ _ _ _) = True"
| "signing_is_terminal (SigningRejected _) = True"
| "signing_is_terminal _ = False"

fun requires_dispatch :: "SigningOperationState \<Rightarrow> bool" where
  "requires_dispatch Dispatched = True"
| "requires_dispatch Indeterminate = True"
| "requires_dispatch (Confirmed _ _ _ _) = True"
| "requires_dispatch _ = False"

definition operation_shape_valid ::
    "SigningRequest \<Rightarrow> SignerDispatchIdentity option \<Rightarrow> SigningOperationState \<Rightarrow> bool" where
  "operation_shape_valid request dispatch state =
     (if request_validate request \<noteq> Inr request then False
      else if (case dispatch of None \<Rightarrow> False
          | Some d \<Rightarrow> dispatch_validate d \<noteq> Inr d \<or> sd_request d \<noteq> request) then False
      else if requires_dispatch state \<noteq> (dispatch \<noteq> None) then False
      else (case state of
          Confirmed receipt_digest _ signature_digest provider_evidence_digest \<Rightarrow>
            \<not> id_is_zero receipt_digest \<and> \<not> id_is_zero signature_digest \<and> \<not> id_is_zero provider_evidence_digest
        | SigningRejected reason_digest \<Rightarrow> \<not> id_is_zero reason_digest
        | _ \<Rightarrow> True))"

definition record_shape_valid :: "SigningOperationRecord \<Rightarrow> bool" where
  "record_shape_valid r = operation_shape_valid (sr_request r) (sr_dispatch r) (sr_state r)"

definition collect_receipt ::
    "SigningRequest \<times> SigningOperationState \<Rightarrow> (digest32, id16) fmap \<Rightarrow> SignerJournalError + (digest32, id16) fmap" where
  "collect_receipt = (\<lambda>(request, state) receipts. case state of
       Confirmed receipt_digest _ _ _ \<Rightarrow>
         if fmlookup receipts receipt_digest \<noteq> None
         then Inl (InvariantViolation ''provider receipt has multiple owners'')
         else Inr (fmupd receipt_digest (sq_operation_id request) receipts)
     | _ \<Rightarrow> Inr receipts)"

subsection \<open>Checkpoints\<close>

definition journal_validate_capacity :: "string \<times> usize \<Rightarrow> SignerJournalError + unit" where
  "journal_validate_capacity = (\<lambda>(field, received).
     if received = 0 then Inl ZeroCapacity
     else if received > MAX_SIGNER_JOURNAL_CAPACITY
     then Inl (CapacityTooLarge field received MAX_SIGNER_JOURNAL_CAPACITY) else Inr ())"

definition validate_capacities :: "usize \<Rightarrow> usize \<Rightarrow> SignerJournalError + unit" where
  "validate_capacities active_capacity epoch_capacity =
     tryE (forE journal_validate_capacity
       [(''active_capacity'', active_capacity), (''epoch_capacity'', epoch_capacity)]) (\<lambda>_.
     if active_capacity > epoch_capacity then Inl InvalidCapacityRelationship else Inr ())"

definition collect_tombstone ::
    "u64 \<Rightarrow> SigningOperationTombstone \<Rightarrow> id16 fset \<times> (digest32, id16) fmap \<Rightarrow>
     SignerJournalError + id16 fset \<times> (digest32, id16) fmap" where
  "collect_tombstone retired_epoch t = (\<lambda>(seen, receipts).
     if sq_journal_epoch (st_request t) \<noteq> retired_epoch \<or> \<not> signing_is_terminal (st_state t) \<or>
        id_is_zero (st_archive_digest t) \<or>
        \<not> operation_shape_valid (st_request t) (st_dispatch t) (st_state t) \<or>
        sq_operation_id (st_request t) |\<in>| seen
     then Inl (CheckpointInvalid ''malformed or duplicate tombstone'')
     else
     tryE (collect_receipt (st_request t, st_state t) receipts) (\<lambda>receipts.
     Inr (finsert (sq_operation_id (st_request t)) seen, receipts)))"

definition collect_binding ::
    "SignerReceiptBinding \<Rightarrow> (digest32, id16) fmap \<Rightarrow> SignerJournalError + (digest32, id16) fmap" where
  "collect_binding b receipts =
     tryE (require_nonzero_digest ''receipt_digest'' (sb_receipt_digest b)) (\<lambda>_.
     if fmlookup receipts (sb_receipt_digest b) \<noteq> None then Inl (CheckpointInvalid ''duplicate receipt binding'')
     else Inr (fmupd (sb_receipt_digest b) (sb_operation_id b) receipts))"

definition check_previous :: "SignerJournalCheckpoint \<Rightarrow> SignerJournalError + unit" where
  "check_previous checkpoint = (case sc_previous_checkpoint_digest checkpoint of
       None \<Rightarrow>
         if sc_sequence checkpoint = 1 then Inr ()
         else Inl (CheckpointInvalid ''successor checkpoint requires a predecessor'')
     | Some previous \<Rightarrow>
         if sc_sequence checkpoint = 1
         then Inl (CheckpointInvalid ''first checkpoint must not name a predecessor'')
         else require_nonzero_digest ''previous_checkpoint_digest'' previous)"

definition journal_checkpoint_shape :: "SignerJournalCheckpoint \<Rightarrow> usize \<Rightarrow> SignerJournalError + unit" where
  "journal_checkpoint_shape checkpoint epoch_capacity =
     (if sc_sequence checkpoint = 0 then Inl (CheckpointInvalid ''zero checkpoint sequence'')
      else
      tryE (check_previous checkpoint) (\<lambda>_.
      if sc_sequence checkpoint \<noteq> sc_retired_epoch checkpoint
      then Inl (CheckpointInvalid ''checkpoint sequence does not match retired epoch'')
      else
      tryE (require_nonzero_digest ''checkpoint_digest'' (sc_checkpoint_digest checkpoint)) (\<lambda>_.
      tryE (ok_or (CheckpointInvalid ''retired epoch overflow'') (checked_add (sc_retired_epoch checkpoint) 1))
        (\<lambda>expected_epoch.
      if sc_active_epoch checkpoint \<noteq> expected_epoch
      then Inl (CheckpointInvalid ''active epoch is not the next epoch'')
      else if sc_tombstones checkpoint = [] then Inl NoTerminalOperations
      else if length (sc_tombstones checkpoint) > epoch_capacity
      then Inl (CheckpointInvalid ''tombstones exceed epoch capacity'')
      else
      tryE (foldE (collect_tombstone (sc_retired_epoch checkpoint)) (sc_tombstones checkpoint) ({||}, fmempty))
        (\<lambda>(_, expected_receipts).
      tryE (foldE collect_binding (sc_receipt_bindings checkpoint) fmempty) (\<lambda>actual_receipts.
      if actual_receipts \<noteq> expected_receipts
      then Inl (CheckpointInvalid ''receipt bindings do not match confirmed tombstones'')
      else Inr ()))))))"

subsection \<open>The journal and its self-check\<close>

record SignerJournal =
  sj_active_capacity :: usize
  sj_epoch_capacity :: usize
  sj_epoch :: u64
  sj_records :: "(id16, SigningOperationRecord) fmap"
  sj_tombstones :: "(id16, SigningOperationTombstone) fmap"
  sj_receipt_owners :: "(digest32, id16) fmap"
  sj_checkpoint :: "SignerJournalCheckpoint option"
  sj_next_checkpoint_sequence :: u64

definition journal_with_limits :: "usize \<Rightarrow> usize \<Rightarrow> SignerJournalError + SignerJournal" where
  "journal_with_limits active_capacity epoch_capacity =
     tryE (validate_capacities active_capacity epoch_capacity) (\<lambda>_.
     Inr \<lparr>sj_active_capacity = active_capacity, sj_epoch_capacity = epoch_capacity, sj_epoch = 1,
          sj_records = fmempty, sj_tombstones = fmempty, sj_receipt_owners = fmempty,
          sj_checkpoint = None, sj_next_checkpoint_sequence = 1\<rparr>)"

definition signer_journal_new :: "usize \<Rightarrow> SignerJournalError + SignerJournal" where
  "signer_journal_new capacity = journal_with_limits capacity capacity"

definition check_record :: "SignerJournal \<Rightarrow> id16 \<times> SigningOperationRecord \<Rightarrow> SignerJournalError + unit" where
  "check_record s = (\<lambda>(operation_id, r).
     if sq_operation_id (sr_request r) \<noteq> operation_id \<or> sq_journal_epoch (sr_request r) \<noteq> sj_epoch s \<or>
        fmlookup (sj_tombstones s) operation_id \<noteq> None \<or> \<not> record_shape_valid r
     then Inl (InvariantViolation ''active operation identity or state is malformed'') else Inr ())"

definition check_tombstone :: "SignerJournal \<Rightarrow> id16 \<times> SigningOperationTombstone \<Rightarrow> SignerJournalError + unit" where
  "check_tombstone s = (\<lambda>(operation_id, t).
     if sq_operation_id (st_request t) \<noteq> operation_id \<or> sq_journal_epoch (st_request t) \<noteq> sj_epoch s \<or>
        \<not> signing_is_terminal (st_state t) \<or> id_is_zero (st_archive_digest t) \<or>
        \<not> operation_shape_valid (st_request t) (st_dispatch t) (st_state t)
     then Inl (InvariantViolation ''terminal tombstone is malformed'') else Inr ())"

definition journal_verify_invariants :: "SignerJournal \<Rightarrow> SignerJournalError + unit" where
  "journal_verify_invariants s =
     (if fmap_len (sj_records s) > sj_active_capacity s
      then Inl (InvariantViolation ''active records exceed capacity'')
      else
      tryE (ok_or (InvariantViolation ''epoch occupancy overflow'')
        (usize_checked_add (fmap_len (sj_records s)) (fmap_len (sj_tombstones s)))) (\<lambda>epoch_occupancy.
      if epoch_occupancy > sj_epoch_capacity s
      then Inl (InvariantViolation ''epoch occupancy exceeds terminal capacity'')
      else
      tryE (forE (check_record s) (entries_in_order (sj_records s))) (\<lambda>_.
      tryE (forE (check_tombstone s) (entries_in_order (sj_tombstones s))) (\<lambda>_.
      tryE (foldE collect_receipt
          (map (\<lambda>(_, r). (sr_request r, sr_state r)) (entries_in_order (sj_records s))) fmempty) (\<lambda>expected.
      tryE (foldE collect_receipt
          (map (\<lambda>(_, t). (st_request t, st_state t)) (entries_in_order (sj_tombstones s))) expected) (\<lambda>expected.
      if expected \<noteq> sj_receipt_owners s
      then Inl (InvariantViolation ''receipt ownership differs from terminal state'')
      else (case sj_checkpoint s of
          None \<Rightarrow> Inr ()
        | Some checkpoint \<Rightarrow>
            if sc_active_epoch checkpoint \<noteq> sj_epoch s
            then Inl (InvariantViolation ''checkpoint does not bind active epoch'')
            else journal_checkpoint_shape checkpoint (sj_epoch_capacity s))))))))"

definition journal_from_checkpoint ::
    "usize \<Rightarrow> usize \<Rightarrow> SignerJournalCheckpoint \<Rightarrow> SignerJournalArchiveVerifier \<Rightarrow>
     SignerJournalError + SignerJournal" where
  "journal_from_checkpoint active_capacity epoch_capacity checkpoint verifier =
     tryE (validate_capacities active_capacity epoch_capacity) (\<lambda>_.
     tryE (journal_checkpoint_shape checkpoint epoch_capacity) (\<lambda>_.
     if \<not> verify_journal_checkpoint verifier checkpoint then Inl CheckpointVerificationFailed
     else
     tryE (ok_or CheckpointSequenceExhausted (checked_add (sc_sequence checkpoint) 1)) (\<lambda>next_checkpoint_sequence.
     let value = \<lparr>sj_active_capacity = active_capacity, sj_epoch_capacity = epoch_capacity,
          sj_epoch = sc_active_epoch checkpoint, sj_records = fmempty, sj_tombstones = fmempty,
          sj_receipt_owners = fmempty, sj_checkpoint = Some checkpoint,
          sj_next_checkpoint_sequence = next_checkpoint_sequence\<rparr>
     in tryE (journal_verify_invariants value) (\<lambda>_. Inr value))))"

text \<open>
  An operation computes what it writes, if anything, and its answer; after a write it runs the
  self-check, whose failure would be reported after the fact.
\<close>

definition journal_commit ::
    "SignerJournal \<Rightarrow> SignerJournalError + SignerJournal option \<times> 'a \<Rightarrow> SignerJournal \<times> (SignerJournalError + 'a)" where
  "journal_commit s r = (case r of
       Inl e \<Rightarrow> (s, Inl e)
     | Inr (None, x) \<Rightarrow> (s, Inr x)
     | Inr (Some s', x) \<Rightarrow> (s', tryE (journal_verify_invariants s') (\<lambda>_. Inr x)))"

definition require_epoch :: "SignerJournal \<Rightarrow> u64 \<Rightarrow> SignerJournalError + unit" where
  "require_epoch s received =
     (if received \<noteq> sj_epoch s then Inl (EpochMismatch (sj_epoch s) received) else Inr ())"

definition require_operation :: "SignerJournal \<Rightarrow> SigningOperationHandle \<Rightarrow> SignerJournalError + SigningOperationRecord" where
  "require_operation s handle =
     tryE (require_epoch s (sh_journal_epoch handle)) (\<lambda>_.
     ok_or (UnknownOperation (sh_operation_id handle)) (fmlookup (sj_records s) (sh_operation_id handle)))"

definition require_next_epoch :: "SignerJournal \<Rightarrow> u64 \<Rightarrow> SignerJournalError + unit" where
  "require_next_epoch s received =
     tryE (ok_or (EpochNotAdvanced (sj_epoch s) received) (checked_add (sj_epoch s) 1)) (\<lambda>expected.
     if received \<noteq> expected then Inl (EpochNotAdvanced (sj_epoch s) received) else Inr ())"

definition signer_put_record :: "id16 \<Rightarrow> SigningOperationRecord \<Rightarrow> SignerJournal \<Rightarrow> SignerJournal" where
  "signer_put_record operation_id r s = s\<lparr>sj_records := fmupd operation_id r (sj_records s)\<rparr>"

subsection \<open>Operations\<close>

definition signer_prepare ::
    "SigningRequest \<Rightarrow> SignerJournal \<Rightarrow> SignerJournal \<times> (SignerJournalError + SigningOperationRecord)" where
  "signer_prepare request s = journal_commit s (
     tryE (journal_verify_invariants s) (\<lambda>_.
     tryE (request_validate request) (\<lambda>request.
     tryE (require_epoch s (sq_journal_epoch request)) (\<lambda>_.
     case fmlookup (sj_records s) (sq_operation_id request) of
       Some existing \<Rightarrow>
         if sr_request existing = request then Inr (None, existing)
         else Inl (ConflictingOperation (sq_operation_id request))
     | None \<Rightarrow>
     case fmlookup (sj_tombstones s) (sq_operation_id request) of
       Some existing \<Rightarrow>
         Inl (if st_request existing = request then Terminal (sq_operation_id request)
              else ConflictingOperation (sq_operation_id request))
     | None \<Rightarrow>
     tryE (ok_or (InvariantViolation ''epoch occupancy overflow'')
       (usize_checked_add (fmap_len (sj_records s)) (fmap_len (sj_tombstones s)))) (\<lambda>epoch_occupancy.
     if epoch_occupancy \<ge> sj_epoch_capacity s then Inl (EpochCapacityExceeded (sj_epoch_capacity s))
     else if fmap_len (sj_records s) \<ge> sj_active_capacity s then Inl (CapacityExceeded (sj_active_capacity s))
     else
     let r = \<lparr>sr_request = request, sr_dispatch = None, sr_state = Prepared\<rparr>
     in Inr (Some (signer_put_record (sq_operation_id request) r s), r))))))"

definition signer_dispatch ::
    "SignerDispatchIdentity \<Rightarrow> SignerJournal \<Rightarrow> SignerJournal \<times> (SignerJournalError + SigningOperationRecord)" where
  "signer_dispatch dispatch s = journal_commit s (
     tryE (dispatch_validate dispatch) (\<lambda>dispatch.
     let handle = dispatch_handle dispatch in
     tryE (require_operation s handle) (\<lambda>current.
     if sr_request current \<noteq> sd_request dispatch then Inl (DispatchMismatch (sh_operation_id handle))
     else
     tryE (case sr_state current of
         Prepared \<Rightarrow> Inr ()
       | Dispatched \<Rightarrow> Inl (AlreadyDispatched (sh_operation_id handle))
       | Indeterminate \<Rightarrow> Inl (IndeterminateRequiresReconciliation (sh_operation_id handle))
       | _ \<Rightarrow> Inl (Terminal (sh_operation_id handle))) (\<lambda>_.
     let nxt = \<lparr>sr_request = sr_request current, sr_dispatch = Some dispatch, sr_state = Dispatched\<rparr>
     in Inr (Some (signer_put_record (sh_operation_id handle) nxt s), nxt)))))"

definition signer_mark_transport_lost ::
    "SigningOperationHandle \<Rightarrow> SignerJournal \<Rightarrow> SignerJournal \<times> (SignerJournalError + SigningOperationRecord)" where
  "signer_mark_transport_lost handle s = journal_commit s (
     tryE (require_operation s handle) (\<lambda>current.
     case sr_state current of
       Dispatched \<Rightarrow>
         let nxt = current\<lparr>sr_state := Indeterminate\<rparr>
         in Inr (Some (signer_put_record (sh_operation_id handle) nxt s), nxt)
     | Indeterminate \<Rightarrow> Inr (None, current)
     | Prepared \<Rightarrow> Inl (NotDispatched (sh_operation_id handle))
     | _ \<Rightarrow> Inl (Terminal (sh_operation_id handle))))"

definition check_receipt_free ::
    "SignerOutcomeEvidence \<Rightarrow> SignerJournalArchiveVerifier option \<Rightarrow> SignerJournal \<Rightarrow> SignerJournalError + unit" where
  "check_receipt_free evidence archive_verifier s =
     (case fmlookup (sj_receipt_owners s) (se_receipt_digest evidence) of
        Some receipt_owner \<Rightarrow>
          if receipt_owner \<noteq> sq_operation_id (se_request evidence)
          then Inl (ReceiptReused receipt_owner (sq_operation_id (se_request evidence))) else Inr ()
      | None \<Rightarrow> (case sj_checkpoint s of
            None \<Rightarrow> Inr ()
          | Some checkpoint \<Rightarrow>
              tryE (ok_or ArchiveVerificationRequired archive_verifier) (\<lambda>verifier.
              if \<not> verify_journal_checkpoint verifier checkpoint then Inl ArchiveVerificationFailed
              else if \<not> receipt_is_absent verifier checkpoint (se_receipt_digest evidence)
              then Inl (ArchivedReceiptReused (sq_operation_id (se_request evidence)))
              else Inr ())))"

definition reconcile_inner ::
    "SignerOutcomeEvidence \<Rightarrow> SignerOutcomeVerifier \<Rightarrow> SignerJournalArchiveVerifier option \<Rightarrow>
     SignerJournal \<Rightarrow> SignerJournal \<times> (SignerJournalError + SigningOperationRecord)" where
  "reconcile_inner evidence outcome_verifier archive_verifier s = journal_commit s (
     tryE (signer_evidence_validate evidence) (\<lambda>evidence.
     tryE (require_epoch s (sq_journal_epoch (se_request evidence))) (\<lambda>_.
     tryE (require_operation s (request_handle (se_request evidence))) (\<lambda>current.
     let operation_id = sq_operation_id (se_request evidence) in
     if sr_request current \<noteq> se_request evidence then Inl (ConflictingOperation operation_id)
     else if sr_dispatch current \<noteq> Some (se_dispatch evidence) then Inl (DispatchMismatch operation_id)
     else
     tryE (case sr_state current of
         Prepared \<Rightarrow> Inl (NotDispatched operation_id)
       | SigningRejected _ \<Rightarrow> Inl (Terminal operation_id)
       | _ \<Rightarrow> Inr ()) (\<lambda>_.
     tryE (map_err OutcomeVerificationFailed (outcome_verifier evidence)) (\<lambda>_.
     case sr_state current of
       Confirmed receipt_digest signature signature_digest provider_evidence_digest \<Rightarrow>
         if receipt_digest = se_receipt_digest evidence \<and> signature = se_signature evidence \<and>
            signature_digest = se_signature_digest evidence \<and>
            provider_evidence_digest = se_provider_evidence_digest evidence
         then Inr (None, current)
         else Inl (ReceiptMismatch operation_id)
     | _ \<Rightarrow>
         tryE (check_receipt_free evidence archive_verifier s) (\<lambda>_.
         let nxt = current\<lparr>sr_state := Confirmed (se_receipt_digest evidence) (se_signature evidence)
               (se_signature_digest evidence) (se_provider_evidence_digest evidence)\<rparr>;
             s1 = signer_put_record operation_id nxt s
         in Inr (Some (s1\<lparr>sj_receipt_owners :=
              fmupd (se_receipt_digest evidence) operation_id (sj_receipt_owners s1)\<rparr>), nxt))))))))"

definition signer_reconcile ::
    "SignerOutcomeEvidence \<Rightarrow> SignerOutcomeVerifier \<Rightarrow> SignerJournal \<Rightarrow>
     SignerJournal \<times> (SignerJournalError + SigningOperationRecord)" where
  "signer_reconcile evidence verifier s = reconcile_inner evidence verifier None s"

definition reconcile_with_archive_verifier ::
    "SignerOutcomeEvidence \<Rightarrow> SignerOutcomeVerifier \<Rightarrow> SignerJournalArchiveVerifier \<Rightarrow> SignerJournal \<Rightarrow>
     SignerJournal \<times> (SignerJournalError + SigningOperationRecord)" where
  "reconcile_with_archive_verifier evidence outcome_verifier archive_verifier s =
     reconcile_inner evidence outcome_verifier (Some archive_verifier) s"

definition reject_before_dispatch ::
    "SigningOperationHandle \<Rightarrow> digest32 \<Rightarrow> SignerJournal \<Rightarrow> SignerJournal \<times> (SignerJournalError + SigningOperationRecord)" where
  "reject_before_dispatch handle reason_digest s = journal_commit s (
     tryE (require_nonzero_digest ''reason_digest'' reason_digest) (\<lambda>_.
     tryE (require_operation s handle) (\<lambda>current.
     case sr_state current of
       Prepared \<Rightarrow>
         let nxt = current\<lparr>sr_state := SigningRejected reason_digest\<rparr>
         in Inr (Some (signer_put_record (sh_operation_id handle) nxt s), nxt)
     | Dispatched \<Rightarrow> Inl (IndeterminateRequiresReconciliation (sh_operation_id handle))
     | Indeterminate \<Rightarrow> Inl (IndeterminateRequiresReconciliation (sh_operation_id handle))
     | _ \<Rightarrow> Inl (Terminal (sh_operation_id handle)))))"

definition signer_archive_terminal ::
    "SigningOperationHandle \<Rightarrow> digest32 \<Rightarrow> SignerJournal \<Rightarrow>
     SignerJournal \<times> (SignerJournalError + SigningOperationTombstone)" where
  "signer_archive_terminal handle archive_digest s = journal_commit s (
     tryE (require_epoch s (sh_journal_epoch handle)) (\<lambda>_.
     tryE (require_nonzero_digest ''archive_digest'' archive_digest) (\<lambda>_.
     case fmlookup (sj_tombstones s) (sh_operation_id handle) of
       Some existing \<Rightarrow>
         if st_archive_digest existing = archive_digest then Inr (None, existing)
         else Inl (ArchiveDigestMismatch (sh_operation_id handle))
     | None \<Rightarrow>
     tryE (require_operation s handle) (\<lambda>current.
     if \<not> signing_is_terminal (sr_state current) then Inl (ArchiveRequiresTerminal (sh_operation_id handle))
     else if fmap_len (sj_tombstones s) \<ge> sj_epoch_capacity s
     then Inl (InvariantViolation ''reserved tombstone capacity was lost'')
     else
     let t = \<lparr>st_request = sr_request current, st_dispatch = sr_dispatch current,
              st_state = sr_state current, st_archive_digest = archive_digest\<rparr>
     in Inr (Some (s\<lparr>sj_records := fmdrop (sh_operation_id handle) (sj_records s),
                     sj_tombstones := fmupd (sh_operation_id handle) t (sj_tombstones s)\<rparr>), t)))))"

definition propose_checkpoint ::
    "u64 \<Rightarrow> digest32 \<Rightarrow> SignerJournal \<Rightarrow> SignerJournalError + SignerJournalCheckpoint" where
  "propose_checkpoint next_epoch checkpoint_digest s =
     tryE (journal_verify_invariants s) (\<lambda>_.
     if sj_records s \<noteq> fmempty then Inl ActiveRecordsPreventEpochAdvance
     else if sj_tombstones s = fmempty then Inl NoTerminalOperations
     else
     tryE (require_next_epoch s next_epoch) (\<lambda>_.
     tryE (require_nonzero_digest ''checkpoint_digest'' checkpoint_digest) (\<lambda>_.
     let checkpoint = \<lparr>sc_sequence = sj_next_checkpoint_sequence s,
           sc_previous_checkpoint_digest = map_option sc_checkpoint_digest (sj_checkpoint s),
           sc_checkpoint_digest = checkpoint_digest, sc_retired_epoch = sj_epoch s,
           sc_active_epoch = next_epoch, sc_tombstones = map snd (entries_in_order (sj_tombstones s)),
           sc_receipt_bindings = map (\<lambda>(receipt_digest, operation_id).
             \<lparr>sb_receipt_digest = receipt_digest, sb_operation_id = operation_id\<rparr>)
             (entries_in_order (sj_receipt_owners s))\<rparr>
     in tryE (journal_checkpoint_shape checkpoint (sj_epoch_capacity s)) (\<lambda>_. Inr checkpoint))))"

definition signer_advance_epoch ::
    "u64 \<Rightarrow> digest32 \<Rightarrow> SignerJournalArchiveVerifier \<Rightarrow> SignerJournal \<Rightarrow>
     SignerJournal \<times> (SignerJournalError + SignerJournalCheckpoint)" where
  "signer_advance_epoch next_epoch checkpoint_digest verifier s = journal_commit s (
     tryE (propose_checkpoint next_epoch checkpoint_digest s) (\<lambda>checkpoint.
     if \<not> verify_journal_checkpoint verifier checkpoint then Inl CheckpointVerificationFailed
     else
     tryE (ok_or CheckpointSequenceExhausted (checked_add (sj_next_checkpoint_sequence s) 1)) (\<lambda>next_sequence.
     Inr (Some (s\<lparr>sj_epoch := next_epoch, sj_records := fmempty, sj_tombstones := fmempty,
             sj_receipt_owners := fmempty, sj_checkpoint := Some checkpoint,
             sj_next_checkpoint_sequence := next_sequence\<rparr>), checkpoint))))"

definition signer_record ::
    "SignerJournal \<Rightarrow> SigningOperationHandle \<Rightarrow> SignerJournalError + SigningOperationRecord option" where
  "signer_record s handle =
     tryE (require_epoch s (sh_journal_epoch handle)) (\<lambda>_.
     Inr (fmlookup (sj_records s) (sh_operation_id handle)))"

definition signer_tombstone ::
    "SignerJournal \<Rightarrow> SigningOperationHandle \<Rightarrow> SignerJournalError + SigningOperationTombstone option" where
  "signer_tombstone s handle =
     tryE (require_epoch s (sh_journal_epoch handle)) (\<lambda>_.
     Inr (fmlookup (sj_tombstones s) (sh_operation_id handle)))"

end
