(* ===== verification/Signer_Journal_Proofs.thy ===== *)
theory Signer_Journal_Proofs
  imports Signer_Journal Machine
begin

text \<open>
  The invariant of the signer journal, which makes its own self-check succeed, and what a run
  guarantees about dispatches, outcomes and receipts.
\<close>

subsection \<open>Receipts\<close>

fun receipt_of :: "SigningOperationState \<Rightarrow> digest32 option" where
  "receipt_of (Confirmed receipt_digest _ _ _) = Some receipt_digest"
| "receipt_of _ = None"

fun receipt_pairs :: "(SigningRequest \<times> SigningOperationState) list \<Rightarrow> (digest32 \<times> id16) list" where
  "receipt_pairs [] = []"
| "receipt_pairs ((q, st) # xs) =
     (case receipt_of st of None \<Rightarrow> receipt_pairs xs | Some d \<Rightarrow> (d, sq_operation_id q) # receipt_pairs xs)"

lemma receipt_pairs_append [simp]: "receipt_pairs (xs @ ys) = receipt_pairs xs @ receipt_pairs ys"
  by (induction xs rule: receipt_pairs.induct) (simp_all split: option.splits)

lemma receipt_pairs_iff:
  "(d, i) \<in> set (receipt_pairs xs) \<longleftrightarrow> (\<exists>q st. (q, st) \<in> set xs \<and> receipt_of st = Some d \<and> sq_operation_id q = i)"
  by (induction xs rule: receipt_pairs.induct) (auto split: option.splits)

lemma receipt_pairs_distinct:
  assumes "distinct (map (sq_operation_id \<circ> fst) xs)"
    and "\<And>d i j. (d, i) \<in> set (receipt_pairs xs) \<Longrightarrow> (d, j) \<in> set (receipt_pairs xs) \<Longrightarrow> i = j"
  shows "distinct (map fst (receipt_pairs xs))"
proof -
  have sub: "snd ` set (receipt_pairs xs) \<subseteq> set (map (sq_operation_id \<circ> fst) xs)" for xs
    by (force simp: receipt_pairs_iff)
  have "distinct (map snd (receipt_pairs xs))"
    using assms(1)
  proof (induction xs rule: receipt_pairs.induct)
    case (2 q st xs)
    then have "sq_operation_id q \<notin> snd ` set (receipt_pairs xs)" using sub [of xs] by auto
    then show ?case using 2 by (auto split: option.splits)
  qed simp
  then have "distinct (receipt_pairs xs)" by (simp add: distinct_map)
  moreover have "inj_on fst (set (receipt_pairs xs))" using assms(2) by (force simp: inj_on_def)
  ultimately show ?thesis by (simp add: distinct_map)
qed

lemma collect_receipts:
  assumes "distinct (map fst (receipt_pairs xs))"
    and "fst ` set (receipt_pairs xs) \<inter> fset (fmdom m) = {}"
  shows "\<exists>m'. foldE collect_receipt xs m = Inr m' \<and>
    (\<forall>d i. fmlookup m' d = Some i \<longleftrightarrow> fmlookup m d = Some i \<or> (d, i) \<in> set (receipt_pairs xs))"
  using assms
proof (induction xs arbitrary: m rule: receipt_pairs.induct)
  case (2 q st xs)
  show ?case
  proof (cases "receipt_of st")
    case None
    then have "collect_receipt (q, st) m = Inr m" by (cases st) (simp_all add: collect_receipt_def)
    then show ?thesis using 2(1) [OF None, of m] 2(3,4) None by simp
  next
    case (Some d)
    let ?m = "fmupd d (sq_operation_id q) m"
    have d: "d \<notin> fst ` set (receipt_pairs xs)" "fmlookup m d = None"
      using 2(3,4) Some by (auto simp: fmdom_notD)
    then have "collect_receipt (q, st) m = Inr ?m" using Some by (cases st) (simp_all add: collect_receipt_def)
    moreover have "\<exists>m'. foldE collect_receipt xs ?m = Inr m' \<and>
        (\<forall>d i. fmlookup m' d = Some i \<longleftrightarrow> fmlookup ?m d = Some i \<or> (d, i) \<in> set (receipt_pairs xs))"
      using 2(3,4) Some d by (intro 2(2) [OF Some]) auto
    then obtain m' where m': "foldE collect_receipt xs ?m = Inr m'"
      "\<And>e i. fmlookup m' e = Some i \<longleftrightarrow> fmlookup ?m e = Some i \<or> (e, i) \<in> set (receipt_pairs xs)" by blast
    have "fmlookup m' e = Some i \<longleftrightarrow> fmlookup m e = Some i \<or> (e, i) \<in> set (receipt_pairs ((q, st) # xs))" for e i
      unfolding m'(2) using Some d by (cases "e = d") auto
    ultimately show ?thesis using m'(1) by simp
  qed
qed simp

subsection \<open>The invariant\<close>

definition entry_receipt :: "SignerJournal \<Rightarrow> id16 \<Rightarrow> digest32 option" where
  "entry_receipt s i = (case fmlookup (sj_records s) i of
       Some r \<Rightarrow> receipt_of (sr_state r)
     | None \<Rightarrow> Option.bind (fmlookup (sj_tombstones s) i) (\<lambda>t. receipt_of (st_state t)))"

definition record_entry_ok :: "SignerJournal \<Rightarrow> id16 \<Rightarrow> SigningOperationRecord \<Rightarrow> bool" where
  "record_entry_ok s i r \<longleftrightarrow> sq_operation_id (sr_request r) = i \<and> sq_journal_epoch (sr_request r) = sj_epoch s \<and>
     fmlookup (sj_tombstones s) i = None \<and> record_shape_valid r"

definition tombstone_entry_ok :: "SignerJournal \<Rightarrow> id16 \<Rightarrow> SigningOperationTombstone \<Rightarrow> bool" where
  "tombstone_entry_ok s i t \<longleftrightarrow> sq_operation_id (st_request t) = i \<and> sq_journal_epoch (st_request t) = sj_epoch s \<and>
     signing_is_terminal (st_state t) \<and> st_archive_digest t \<noteq> 0 \<and>
     operation_shape_valid (st_request t) (st_dispatch t) (st_state t)"

definition entries_ok :: "SignerJournal \<Rightarrow> bool" where
  "entries_ok s \<longleftrightarrow> (\<forall>i r. fmlookup (sj_records s) i = Some r \<longrightarrow> record_entry_ok s i r) \<and>
     (\<forall>i t. fmlookup (sj_tombstones s) i = Some t \<longrightarrow> tombstone_entry_ok s i t)"

definition receipt_owners_ok :: "SignerJournal \<Rightarrow> bool" where
  "receipt_owners_ok s \<longleftrightarrow> (\<forall>d i. fmlookup (sj_receipt_owners s) d = Some i \<longleftrightarrow> entry_receipt s i = Some d)"

definition room_ok :: "SignerJournal \<Rightarrow> bool" where
  "room_ok s \<longleftrightarrow> sj_active_capacity s \<le> sj_epoch_capacity s \<and> sj_epoch_capacity s \<le> 4096 \<and>
     0 < sj_active_capacity s \<and> fmap_len (sj_records s) \<le> sj_active_capacity s \<and>
     fmap_len (sj_records s) + fmap_len (sj_tombstones s) \<le> sj_epoch_capacity s"

definition epoch_chain_ok :: "SignerJournal \<Rightarrow> bool" where
  "epoch_chain_ok s \<longleftrightarrow> sj_next_checkpoint_sequence s = sj_epoch s \<and> sj_epoch s \<noteq> 0 \<and>
     (case sj_checkpoint s of
        None \<Rightarrow> sj_epoch s = 1
      | Some cp \<Rightarrow> sc_active_epoch cp = sj_epoch s \<and> sj_epoch s \<noteq> 1 \<and> sc_checkpoint_digest cp \<noteq> 0 \<and>
          journal_checkpoint_shape cp (sj_epoch_capacity s) = Inr ())"

definition journal_ok :: "SignerJournal \<Rightarrow> bool" where
  "journal_ok s \<longleftrightarrow> room_ok s \<and> entries_ok s \<and> receipt_owners_ok s \<and> epoch_chain_ok s"

lemma entries_okD:
  assumes "entries_ok s"
  shows "fmlookup (sj_records s) i = Some r \<Longrightarrow> record_entry_ok s i r"
    and "fmlookup (sj_tombstones s) i = Some t \<Longrightarrow> tombstone_entry_ok s i t"
  using assms unfolding entries_ok_def by blast+

lemma receipt_owners_okD:
  "receipt_owners_ok s \<Longrightarrow> fmlookup (sj_receipt_owners s) d = Some i \<longleftrightarrow> entry_receipt s i = Some d"
  by (simp add: receipt_owners_ok_def)

lemma journal_with_limits_ok: "journal_with_limits a e = Inr s \<Longrightarrow> journal_ok s"
  by (auto simp: journal_with_limits_def validate_capacities_def journal_validate_capacity_def
      MAX_SIGNER_JOURNAL_CAPACITY_def journal_ok_def room_ok_def entries_ok_def receipt_owners_ok_def entry_receipt_def
      epoch_chain_ok_def split: if_splits)

subsection \<open>The self-check succeeds\<close>

definition all_entries :: "SignerJournal \<Rightarrow> (SigningRequest \<times> SigningOperationState) list" where
  "all_entries s = map (\<lambda>(_, r). (sr_request r, sr_state r)) (entries_in_order (sj_records s)) @
     map (\<lambda>(_, t). (st_request t, st_state t)) (entries_in_order (sj_tombstones s))"

lemma distinct_fst_entries: "distinct (map fst (entries_in_order m))"
  by (simp add: entries_in_order_map keys_in_order_def sorted_list_of_fset.rep_eq o_def)

lemma all_entries_pairs:
  assumes entries: "entries_ok s"
  shows "(d, i) \<in> set (receipt_pairs (all_entries s)) \<longleftrightarrow> entry_receipt s i = Some d"
    and "distinct (map (sq_operation_id \<circ> fst) (all_entries s))"
proof -
  have rec: "sq_operation_id (sr_request r) = k \<and> fmlookup (sj_tombstones s) k = None"
    if "fmlookup (sj_records s) k = Some r" for k r
    using entries_okD(1) [OF entries that] by (simp add: record_entry_ok_def)
  have tom: "sq_operation_id (st_request t) = k" if "fmlookup (sj_tombstones s) k = Some t" for k t
    using entries_okD(2) [OF entries that] by (simp add: tombstone_entry_ok_def)
  have "(d, i) \<in> set (receipt_pairs (all_entries s)) \<longleftrightarrow>
      (\<exists>r. fmlookup (sj_records s) i = Some r \<and> receipt_of (sr_state r) = Some d) \<or>
      (\<exists>t. fmlookup (sj_tombstones s) i = Some t \<and> receipt_of (st_state t) = Some d)"
    unfolding receipt_pairs_iff all_entries_def using rec tom by (auto simp: image_iff) blast+
  also have "\<dots> \<longleftrightarrow> entry_receipt s i = Some d"
    using rec [of i] by (cases "fmlookup (sj_records s) i"; cases "fmlookup (sj_tombstones s) i")
      (auto simp: entry_receipt_def)
  finally show "(d, i) \<in> set (receipt_pairs (all_entries s)) \<longleftrightarrow> entry_receipt s i = Some d" .
  have "map (sq_operation_id \<circ> fst) (all_entries s) =
      map fst (entries_in_order (sj_records s)) @ map fst (entries_in_order (sj_tombstones s))"
    using rec tom by (auto simp: all_entries_def)
  moreover have "fst ` set (entries_in_order (sj_records s)) \<inter> fst ` set (entries_in_order (sj_tombstones s)) = {}"
    using rec by force
  ultimately show "distinct (map (sq_operation_id \<circ> fst) (all_entries s))"
    by (simp add: distinct_fst_entries)
qed

lemma collect_all_entries:
  assumes entries: "entries_ok s" and owners: "receipt_owners_ok s"
  shows "foldE collect_receipt (all_entries s) fmempty = Inr (sj_receipt_owners s)"
proof -
  note P = all_entries_pairs [OF entries]
  have "distinct (map fst (receipt_pairs (all_entries s)))"
  proof (rule receipt_pairs_distinct [OF P(2)])
    fix d i j assume "(d, i) \<in> set (receipt_pairs (all_entries s))" "(d, j) \<in> set (receipt_pairs (all_entries s))"
    then have "fmlookup (sj_receipt_owners s) d = Some i" "fmlookup (sj_receipt_owners s) d = Some j"
      using receipt_owners_okD [OF owners] unfolding P(1) by blast+
    then show "i = j" by simp
  qed
  then obtain m where m: "foldE collect_receipt (all_entries s) fmempty = Inr m"
    "\<And>d i. fmlookup m d = Some i \<longleftrightarrow> (d, i) \<in> set (receipt_pairs (all_entries s))"
    using collect_receipts [of "all_entries s" fmempty] by auto
  have "m = sj_receipt_owners s"
    by (rule fmap_eqI) (simp add: m(2) P(1) receipt_owners_okD [OF owners])
  then show ?thesis using m(1) by simp
qed

lemma journal_verifies:
  assumes ok: "journal_ok s"
  shows "journal_verify_invariants s = Inr ()"
proof -
  have room: "room_ok s" and entries: "entries_ok s" and owners: "receipt_owners_ok s" and chain: "epoch_chain_ok s"
    using ok by (simp_all add: journal_ok_def)
  have "usize_checked_add (fmap_len (sj_records s)) (fmap_len (sj_tombstones s)) =
      Some (fmap_len (sj_records s) + fmap_len (sj_tombstones s))"
    using room by (simp add: room_ok_def usize_checked_add_def)
  moreover have "forE (check_record s) (entries_in_order (sj_records s)) = Inr ()"
    using entries_okD(1) [OF entries] by (auto simp: check_record_def record_entry_ok_def)
  moreover have "forE (check_tombstone s) (entries_in_order (sj_tombstones s)) = Inr ()"
    using entries_okD(2) [OF entries] by (auto simp: check_tombstone_def tombstone_entry_ok_def)
  moreover obtain m where "foldE collect_receipt
        (map (\<lambda>(_, r). (sr_request r, sr_state r)) (entries_in_order (sj_records s))) fmempty = Inr m"
      "foldE collect_receipt
        (map (\<lambda>(_, t). (st_request t, st_state t)) (entries_in_order (sj_tombstones s))) m = Inr (sj_receipt_owners s)"
    using collect_all_entries [OF entries owners] by (auto simp: all_entries_def foldE_append)
  ultimately show ?thesis
    using room chain by (auto simp: journal_verify_invariants_def room_ok_def epoch_chain_ok_def split: option.splits)
qed

subsection \<open>The checkpoint of a journal is well shaped\<close>

lemma collect_tombstones:
  assumes "\<And>t. t \<in> set ts \<Longrightarrow> sq_journal_epoch (st_request t) = e \<and> signing_is_terminal (st_state t) \<and>
      st_archive_digest t \<noteq> 0 \<and> operation_shape_valid (st_request t) (st_dispatch t) (st_state t)"
    and "distinct (map (sq_operation_id \<circ> st_request) ts)"
    and "(sq_operation_id \<circ> st_request) ` set ts \<inter> fset seen = {}"
    and "foldE collect_receipt (map (\<lambda>t. (st_request t, st_state t)) ts) m = Inr m'"
  shows "\<exists>seen'. foldE (collect_tombstone e) ts (seen, m) = Inr (seen', m')"
  using assms
proof (induction ts arbitrary: seen m)
  case (Cons t ts)
  obtain m1 where m1: "collect_receipt (st_request t, st_state t) m = Inr m1"
    "foldE collect_receipt (map (\<lambda>t. (st_request t, st_state t)) ts) m1 = Inr m'"
    using Cons.prems(4) by auto
  have "\<exists>seen'. foldE (collect_tombstone e) ts (finsert (sq_operation_id (st_request t)) seen, m1) = Inr (seen', m')"
    using Cons.prems m1(2) by (intro Cons.IH) auto
  moreover have "collect_tombstone e t (seen, m) = Inr (finsert (sq_operation_id (st_request t)) seen, m1)"
    using Cons.prems(1) [of t] Cons.prems(3) m1(1) by (auto simp: collect_tombstone_def)
  ultimately show ?case by simp
qed simp

lemma collect_bindings:
  assumes "distinct (map fst ps)" and "\<And>d i. (d, i) \<in> set ps \<Longrightarrow> d \<noteq> 0 \<and> fmlookup m d = None"
  shows "\<exists>m'. foldE collect_binding
      (map (\<lambda>(d, i). \<lparr>sb_receipt_digest = d, sb_operation_id = i\<rparr>) ps) m = Inr m' \<and>
    (\<forall>d i. fmlookup m' d = Some i \<longleftrightarrow> fmlookup m d = Some i \<or> (d, i) \<in> set ps)"
  using assms
proof (induction ps arbitrary: m)
  case (Cons p ps)
  obtain d i where p: "p = (d, i)" by (cases p)
  have step: "collect_binding \<lparr>sb_receipt_digest = d, sb_operation_id = i\<rparr> m = Inr (fmupd d i m)"
    using Cons.prems(2) [of d i] by (simp add: p collect_binding_def require_nonzero_digest_def)
  have fresh: "d \<notin> fst ` set ps" using Cons.prems(1) by (simp add: p)
  then have "\<exists>m'. foldE collect_binding
      (map (\<lambda>(d, i). \<lparr>sb_receipt_digest = d, sb_operation_id = i\<rparr>) ps) (fmupd d i m) = Inr m' \<and>
    (\<forall>e j. fmlookup m' e = Some j \<longleftrightarrow> fmlookup (fmupd d i m) e = Some j \<or> (e, j) \<in> set ps)"
    using Cons.prems by (intro Cons.IH) (force simp: p)+
  then obtain m' where m': "foldE collect_binding
      (map (\<lambda>(d, i). \<lparr>sb_receipt_digest = d, sb_operation_id = i\<rparr>) ps) (fmupd d i m) = Inr m'"
    "\<And>e j. fmlookup m' e = Some j \<longleftrightarrow> fmlookup (fmupd d i m) e = Some j \<or> (e, j) \<in> set ps" by blast
  have "fmlookup m' e = Some j \<longleftrightarrow> fmlookup m e = Some j \<or> (e, j) \<in> set (p # ps)" for e j
    unfolding m'(2) using Cons.prems(2) [of d i] fresh by (cases "e = d") (auto simp: p)
  then show ?case using m'(1) step p by simp
qed simp

definition own_journal_checkpoint :: "u64 \<Rightarrow> digest32 \<Rightarrow> SignerJournal \<Rightarrow> SignerJournalCheckpoint" where
  "own_journal_checkpoint next_epoch checkpoint_digest s =
     \<lparr>sc_sequence = sj_next_checkpoint_sequence s,
      sc_previous_checkpoint_digest = map_option sc_checkpoint_digest (sj_checkpoint s),
      sc_checkpoint_digest = checkpoint_digest, sc_retired_epoch = sj_epoch s,
      sc_active_epoch = next_epoch, sc_tombstones = map snd (entries_in_order (sj_tombstones s)),
      sc_receipt_bindings = map (\<lambda>(receipt_digest, operation_id).
        \<lparr>sb_receipt_digest = receipt_digest, sb_operation_id = operation_id\<rparr>)
        (entries_in_order (sj_receipt_owners s))\<rparr>"

lemma receipt_nonzero: "operation_shape_valid q d st \<Longrightarrow> receipt_of st = Some x \<Longrightarrow> x \<noteq> 0"
  by (cases st) (auto simp: operation_shape_valid_def split: if_splits)

lemma entry_receipt_nonzero:
  assumes "entries_ok s" and "entry_receipt s i = Some d"
  shows "d \<noteq> 0"
  using assms entries_okD [OF assms(1)] receipt_nonzero
  by (fastforce simp: entry_receipt_def record_entry_ok_def tombstone_entry_ok_def record_shape_valid_def bind_eq_Some_conv
      split: option.splits)

lemma own_checkpoint_shape:
  assumes ok: "journal_ok s" and no_records: "sj_records s = fmempty" and some: "sj_tombstones s \<noteq> fmempty"
    and n: "checked_add (sj_epoch s) 1 = Some n" and d: "d \<noteq> 0"
  shows "journal_checkpoint_shape (own_journal_checkpoint n d s) (sj_epoch_capacity s) = Inr ()"
proof -
  let ?ts = "map snd (entries_in_order (sj_tombstones s))"
  have room: "room_ok s" and entries: "entries_ok s" and owners: "receipt_owners_ok s" and chain: "epoch_chain_ok s"
    using ok by (simp_all add: journal_ok_def)
  have tom: "tombstone_entry_ok s i t" if "fmlookup (sj_tombstones s) i = Some t" for i t
    by (rule entries_okD(2) [OF entries that])
  obtain i t where "fmlookup (sj_tombstones s) i = Some t"
  proof (rule ccontr)
    assume "\<not> thesis"
    then have "sj_tombstones s = fmempty" using that by (intro fmap_eqI) auto
    then show False using some by simp
  qed
  then have "(i, t) \<in> set (entries_in_order (sj_tombstones s))" by simp
  then have "?ts \<noteq> []" by (auto simp del: set_entries_in_order)
  have len: "length ?ts = fmap_len (sj_tombstones s)"
    by (simp add: entries_in_order_map keys_in_order_def fmap_len_def sorted_list_of_fset.rep_eq fcard.rep_eq)
  have "map (\<lambda>t. (st_request t, st_state t)) ?ts = all_entries s"
    by (simp add: all_entries_def no_records entries_in_order_def keys_in_order_def sorted_list_of_fset.rep_eq
        split_def o_def)
  then have receipts: "foldE collect_receipt (map (\<lambda>t. (st_request t, st_state t)) ?ts) fmempty =
      Inr (sj_receipt_owners s)"
    using collect_all_entries [OF entries owners] by simp
  have ids: "map (sq_operation_id \<circ> st_request) ?ts = map fst (entries_in_order (sj_tombstones s))"
    using tom by (auto simp: tombstone_entry_ok_def)
  have "distinct (map (sq_operation_id \<circ> st_request) ?ts)" unfolding ids by (rule distinct_fst_entries)
  then have "\<exists>seen. foldE (collect_tombstone (sj_epoch s)) ?ts ({||}, fmempty) = Inr (seen, sj_receipt_owners s)"
    by (rule collect_tombstones [rotated, OF _ _ receipts]) (use tom in \<open>auto simp: tombstone_entry_ok_def\<close>)
  moreover obtain m where m: "foldE collect_binding (map (\<lambda>(receipt_digest, operation_id).
        \<lparr>sb_receipt_digest = receipt_digest, sb_operation_id = operation_id\<rparr>)
        (entries_in_order (sj_receipt_owners s))) fmempty = Inr m"
      "\<And>x i. fmlookup m x = Some i \<longleftrightarrow> (x, i) \<in> set (entries_in_order (sj_receipt_owners s))"
    using collect_bindings [of "entries_in_order (sj_receipt_owners s)" fmempty]
      entry_receipt_nonzero [OF entries] receipt_owners_okD [OF owners] distinct_fst_entries [of "sj_receipt_owners s"]
    by auto
  moreover have "m = sj_receipt_owners s" by (rule fmap_eqI) (simp add: m(2))
  moreover have "check_previous (own_journal_checkpoint n d s) = Inr ()"
    using chain by (auto simp: check_previous_def own_journal_checkpoint_def epoch_chain_ok_def
        require_nonzero_digest_def split: option.splits)
  ultimately show ?thesis
    using room chain n d len \<open>?ts \<noteq> []\<close> no_records
    by (auto simp: journal_checkpoint_shape_def own_journal_checkpoint_def epoch_chain_ok_def room_ok_def
        require_nonzero_digest_def)
qed

subsection \<open>Every operation keeps the invariant and passes the self-check\<close>

text \<open>The errors that would mean that the journal itself is broken.\<close>

definition self_error :: "SignerJournalError \<Rightarrow> bool" where
  "self_error e \<longleftrightarrow> (\<exists>m. e = InvariantViolation m \<or> e = CheckpointInvalid m)"

definition sound :: "SignerJournal \<Rightarrow> SignerJournal \<times> (SignerJournalError + 'a) \<Rightarrow> bool" where
  "sound s r \<longleftrightarrow> journal_ok (fst r) \<and> (\<forall>e. snd r = Inl e \<longrightarrow> fst r = s \<and> \<not> self_error e)"

lemma journal_commit_sound:
  assumes ok: "journal_ok s" and written: "\<And>s' x. r = Inr (Some s', x) \<Longrightarrow> journal_ok s'"
    and failed: "\<And>e. r = Inl e \<Longrightarrow> \<not> self_error e"
  shows "sound s (journal_commit s r)"
proof (cases r)
  case (Inl e)
  then show ?thesis using ok failed by (simp add: sound_def journal_commit_def)
next
  case (Inr p)
  then obtain w x where p: "p = (w, x)" by (cases p)
  show ?thesis
  proof (cases w)
    case None
    then show ?thesis using ok Inr p by (simp add: sound_def journal_commit_def)
  next
    case (Some s')
    then have "journal_ok s'" using written Inr p by simp
    then show ?thesis using Inr p Some by (simp add: sound_def journal_commit_def journal_verifies)
  qed
qed

lemma journal_commit_Inr:
  assumes "journal_commit s r = (s', Inr x)"
  shows "r = Inr (None, x) \<and> s' = s \<or> r = Inr (Some s', x)"
  using assms by (auto simp: journal_commit_def split: sum.splits option.splits)

lemma validation_errors [simp]:
  "request_validate q = Inl e \<Longrightarrow> \<not> self_error e" "dispatch_validate d = Inl e \<Longrightarrow> \<not> self_error e"
  "signer_evidence_validate v = Inl e \<Longrightarrow> \<not> self_error e" "require_nonzero_digest f x = Inl e \<Longrightarrow> \<not> self_error e"
  "require_epoch s n = Inl e \<Longrightarrow> \<not> self_error e" "require_operation s h = Inl e \<Longrightarrow> \<not> self_error e"
  "require_next_epoch s n = Inl e \<Longrightarrow> \<not> self_error e" "check_receipt_free v a s = Inl e \<Longrightarrow> \<not> self_error e"
  by (auto simp: request_validate_def dispatch_validate_def signer_evidence_validate_def require_nonzero_digest_def
      require_epoch_def require_operation_def require_next_epoch_def check_receipt_free_def self_error_def
      tryE_Inl_iff split: if_splits option.splits)

text \<open>A validation gives back what it was given.\<close>

definition request_valid :: "SigningRequest \<Rightarrow> bool" where
  "request_valid q \<longleftrightarrow> request_validate q = Inr q"

definition dispatch_valid :: "SignerDispatchIdentity \<Rightarrow> bool" where
  "dispatch_valid d \<longleftrightarrow> dispatch_validate d = Inr d"

definition evidence_valid :: "SignerOutcomeEvidence \<Rightarrow> bool" where
  "evidence_valid v \<longleftrightarrow> signer_evidence_validate v = Inr v"

lemma validate_Inr_iff [simp]:
  "request_validate q = Inr q' \<longleftrightarrow> q' = q \<and> request_valid q"
  "dispatch_validate d = Inr d' \<longleftrightarrow> d' = d \<and> dispatch_valid d"
  "signer_evidence_validate v = Inr v' \<longleftrightarrow> v' = v \<and> evidence_valid v"
  by (auto simp: request_valid_def dispatch_valid_def evidence_valid_def request_validate_def dispatch_validate_def
      signer_evidence_validate_def)

lemma evidence_validD:
  assumes "evidence_valid v"
  shows "sd_request (se_dispatch v) = se_request v" "se_receipt_digest v \<noteq> 0" "se_signature_digest v \<noteq> 0"
    "se_provider_evidence_digest v \<noteq> 0"
proof -
  have "signer_evidence_validate v = Inr v" using assms by simp
  then show "sd_request (se_dispatch v) = se_request v" "se_receipt_digest v \<noteq> 0" "se_signature_digest v \<noteq> 0"
    "se_provider_evidence_digest v \<noteq> 0"
    unfolding signer_evidence_validate_def require_nonzero_digest_def by (auto split: if_splits)
qed

lemma require_operation_Inr:
  "require_operation s h = Inr r \<longleftrightarrow> sh_journal_epoch h = sj_epoch s \<and> fmlookup (sj_records s) (sh_operation_id h) = Some r"
  by (auto simp: require_operation_def require_epoch_def)

lemma signer_put_record_same [simp]:
  "sj_tombstones (signer_put_record i r s) = sj_tombstones s" "sj_receipt_owners (signer_put_record i r s) = sj_receipt_owners s"
  "sj_epoch (signer_put_record i r s) = sj_epoch s" "sj_checkpoint (signer_put_record i r s) = sj_checkpoint s"
  "sj_next_checkpoint_sequence (signer_put_record i r s) = sj_next_checkpoint_sequence s"
  "sj_active_capacity (signer_put_record i r s) = sj_active_capacity s" "sj_epoch_capacity (signer_put_record i r s) = sj_epoch_capacity s"
  "sj_records (signer_put_record i r s) = fmupd i r (sj_records s)"
  by (simp_all add: signer_put_record_def)

lemma epoch_chain_ok_same:
  "sj_epoch s' = sj_epoch s \<Longrightarrow> sj_checkpoint s' = sj_checkpoint s \<Longrightarrow>
     sj_next_checkpoint_sequence s' = sj_next_checkpoint_sequence s \<Longrightarrow>
     sj_epoch_capacity s' = sj_epoch_capacity s \<Longrightarrow> epoch_chain_ok s \<Longrightarrow> epoch_chain_ok s'"
  by (cases "sj_checkpoint s") (simp_all add: epoch_chain_ok_def)

text \<open>
  A new or changed record: it claims no receipt, or one that has no owner and is recorded with it.
\<close>

lemma signer_put_record_ok:
  assumes ok: "journal_ok s"
    and r: "sq_operation_id (sr_request r) = i" "sq_journal_epoch (sr_request r) = sj_epoch s" "record_shape_valid r"
      "fmlookup (sj_tombstones s) i = None" "entry_receipt s i = None"
    and room: "fmap_len (fmupd i r (sj_records s)) \<le> sj_active_capacity s"
      "fmap_len (fmupd i r (sj_records s)) + fmap_len (sj_tombstones s) \<le> sj_epoch_capacity s"
    and owners: "case receipt_of (sr_state r) of None \<Rightarrow> owners' = sj_receipt_owners s
      | Some d \<Rightarrow> fmlookup (sj_receipt_owners s) d = None \<and> owners' = fmupd d i (sj_receipt_owners s)"
  shows "journal_ok (signer_put_record i r s\<lparr>sj_receipt_owners := owners'\<rparr>)"
proof -
  let ?s = "signer_put_record i r s\<lparr>sj_receipt_owners := owners'\<rparr>"
  have old: "room_ok s" "entries_ok s" "receipt_owners_ok s" "epoch_chain_ok s" using ok by (simp_all add: journal_ok_def)
  have receipt: "entry_receipt ?s j = (if j = i then receipt_of (sr_state r) else entry_receipt s j)" for j
    by (cases "fmlookup (sj_records s) j") (simp_all add: entry_receipt_def)
  have "fmlookup owners' d = Some j \<longleftrightarrow> entry_receipt ?s j = Some d" for d j
  proof (cases "receipt_of (sr_state r)")
    case None
    then show ?thesis unfolding receipt using owners receipt_owners_okD [OF old(3), of d j] r(5) by auto
  next
    case (Some x)
    then show ?thesis
      unfolding receipt using owners receipt_owners_okD [OF old(3), of d j] receipt_owners_okD [OF old(3), of x j] r(5)
      by (cases "d = x") auto
  qed
  then have "receipt_owners_ok ?s" by (simp add: receipt_owners_ok_def)
  moreover have "entries_ok ?s"
    using old(2) r by (auto simp: entries_ok_def record_entry_ok_def tombstone_entry_ok_def)
  moreover have "room_ok ?s" using old(1) room by (simp add: room_ok_def)
  moreover have "epoch_chain_ok ?s" by (rule epoch_chain_ok_same [OF _ _ _ _ old(4)]) simp_all
  ultimately show ?thesis by (simp add: journal_ok_def)
qed

lemma signer_put_record_plain:
  assumes ok: "journal_ok s" and old: "fmlookup (sj_records s) i = Some r0" "receipt_of (sr_state r0) = None"
    and r: "sr_request r = sr_request r0" "record_shape_valid r" "receipt_of (sr_state r) = None"
  shows "journal_ok (signer_put_record i r s)"
proof -
  have "record_entry_ok s i r0" using ok old(1) by (auto simp: journal_ok_def dest: entries_okD)
  moreover have "fmap_len (fmupd i r (sj_records s)) = fmap_len (sj_records s)" by (rule fmap_len_upd_old [OF old(1)])
  ultimately have "journal_ok (signer_put_record i r s\<lparr>sj_receipt_owners := sj_receipt_owners s\<rparr>)"
    using ok old r
    by (intro signer_put_record_ok) (simp_all add: record_entry_ok_def entry_receipt_def journal_ok_def room_ok_def)
  then show ?thesis by (simp add: signer_put_record_def)
qed

text \<open>The changes of a record that the operations make are well shaped.\<close>

lemma shape_dispatched:
  "record_shape_valid r \<Longrightarrow> dispatch_valid d \<Longrightarrow> sd_request d = sr_request r \<Longrightarrow>
     record_shape_valid \<lparr>sr_request = sr_request r, sr_dispatch = Some d, sr_state = Dispatched\<rparr>"
  by (auto simp: record_shape_valid_def operation_shape_valid_def split: if_splits)

lemma shape_indeterminate:
  "record_shape_valid r \<Longrightarrow> sr_state r = Dispatched \<Longrightarrow> record_shape_valid (r\<lparr>sr_state := Indeterminate\<rparr>)"
  by (auto simp: record_shape_valid_def operation_shape_valid_def split: if_splits)

lemma shape_rejected:
  "record_shape_valid r \<Longrightarrow> sr_state r = Prepared \<Longrightarrow> x \<noteq> 0 \<Longrightarrow> record_shape_valid (r\<lparr>sr_state := SigningRejected x\<rparr>)"
  by (auto simp: record_shape_valid_def operation_shape_valid_def split: if_splits)

lemma shape_confirmed:
  "record_shape_valid r \<Longrightarrow> requires_dispatch (sr_state r) \<Longrightarrow> a \<noteq> 0 \<Longrightarrow> b \<noteq> 0 \<Longrightarrow> c \<noteq> 0 \<Longrightarrow>
     record_shape_valid (r\<lparr>sr_state := Confirmed a sig b c\<rparr>)"
  by (auto simp: record_shape_valid_def operation_shape_valid_def split: if_splits)

lemma state_case_eq:
  "(case st of Prepared \<Rightarrow> p | Dispatched \<Rightarrow> q | Indeterminate \<Rightarrow> x | Confirmed a b c d \<Rightarrow> f a b c d
      | SigningRejected y \<Rightarrow> g y) = z \<longleftrightarrow>
   st = Prepared \<and> p = z \<or> st = Dispatched \<and> q = z \<or> st = Indeterminate \<and> x = z \<or>
   (\<exists>a b c d. st = Confirmed a b c d \<and> f a b c d = z) \<or> (\<exists>y. st = SigningRejected y \<and> g y = z)"
  by (cases st) auto

lemma record_entry:
  assumes "journal_ok s" and "fmlookup (sj_records s) i = Some r"
  shows "record_entry_ok s i r" and "record_shape_valid r"
  using assms entries_okD(1) [of s i r] by (simp_all add: journal_ok_def record_entry_ok_def)

lemma signer_prepare_sound:
  assumes ok: "journal_ok s"
  shows "sound s (signer_prepare q s)"
  unfolding signer_prepare_def
proof (rule journal_commit_sound [OF ok], goal_cases)
  case (1 s' x)
  have room: "room_ok s" using ok by (simp add: journal_ok_def)
  from 1 have q: "request_valid q" "sq_journal_epoch q = sj_epoch s"
    and free: "fmlookup (sj_records s) (sq_operation_id q) = None" "fmlookup (sj_tombstones s) (sq_operation_id q) = None"
    and len: "fmap_len (sj_records s) + fmap_len (sj_tombstones s) < sj_epoch_capacity s"
      "fmap_len (sj_records s) < sj_active_capacity s"
    and s': "s' = signer_put_record (sq_operation_id q) \<lparr>sr_request = q, sr_dispatch = None, sr_state = Prepared\<rparr> s"
    by (auto simp: require_epoch_def usize_checked_add_def Let_def not_le split: if_splits option.splits)
  have "record_shape_valid \<lparr>sr_request = q, sr_dispatch = None, sr_state = Prepared\<rparr>"
    using q(1) by (simp add: record_shape_valid_def operation_shape_valid_def)
  then have "journal_ok (signer_put_record (sq_operation_id q) \<lparr>sr_request = q, sr_dispatch = None, sr_state = Prepared\<rparr> s
      \<lparr>sj_receipt_owners := sj_receipt_owners s\<rparr>)"
    using ok q free len
    by (intro signer_put_record_ok) (simp_all add: entry_receipt_def fmap_len_upd_new)
  then show ?case by (simp add: s' signer_put_record_def)
next
  case (2 e)
  have "fmap_len (sj_records s) + fmap_len (sj_tombstones s) < 2 ^ 64"
    using ok by (simp add: journal_ok_def room_ok_def)
  with 2 show ?case
    by (auto simp: tryE_Inl_iff journal_verifies [OF ok] usize_checked_add_def Let_def self_error_def
        split: if_splits option.splits dest: validation_errors)
qed

lemma signer_dispatch_sound:
  assumes ok: "journal_ok s"
  shows "sound s (signer_dispatch d s)"
  unfolding signer_dispatch_def
proof (rule journal_commit_sound [OF ok], goal_cases)
  case (1 s' x)
  then obtain r where r: "fmlookup (sj_records s) (sh_operation_id (dispatch_handle d)) = Some r"
    "sr_request r = sd_request d" "sr_state r = Prepared" "dispatch_valid d"
    "s' = signer_put_record (sh_operation_id (dispatch_handle d))
       \<lparr>sr_request = sr_request r, sr_dispatch = Some d, sr_state = Dispatched\<rparr> s"
    by (auto simp: Let_def require_operation_Inr state_case_eq split: if_splits)
  then show ?case unfolding r(5)
    using record_entry [OF ok r(1)] by (intro signer_put_record_plain [OF ok r(1)])
      (simp_all add: r(2-4) shape_dispatched [of r d, unfolded r(2)])
next
  case (2 e)
  then show ?case
    by (auto simp: tryE_Inl_iff Let_def self_error_def state_case_eq split: if_splits
        dest: validation_errors)
qed

lemma signer_mark_transport_lost_sound:
  assumes ok: "journal_ok s"
  shows "sound s (signer_mark_transport_lost h s)"
  unfolding signer_mark_transport_lost_def
proof (rule journal_commit_sound [OF ok], goal_cases)
  case (1 s' x)
  then obtain r where r: "fmlookup (sj_records s) (sh_operation_id h) = Some r" "sr_state r = Dispatched"
    "s' = signer_put_record (sh_operation_id h) (r\<lparr>sr_state := Indeterminate\<rparr>) s"
    by (auto simp: Let_def require_operation_Inr state_case_eq)
     
  then show ?case unfolding r(3)
    using record_entry [OF ok r(1)] by (intro signer_put_record_plain [OF ok r(1)]) (simp_all add: shape_indeterminate)
next
  case (2 e)
  then show ?case
    by (auto simp: tryE_Inl_iff Let_def self_error_def state_case_eq dest: validation_errors)
qed

lemma reject_before_dispatch_sound:
  assumes ok: "journal_ok s"
  shows "sound s (reject_before_dispatch h x s)"
  unfolding reject_before_dispatch_def
proof (rule journal_commit_sound [OF ok], goal_cases)
  case (1 s' y)
  then obtain r where r: "fmlookup (sj_records s) (sh_operation_id h) = Some r" "sr_state r = Prepared" "x \<noteq> 0"
    "s' = signer_put_record (sh_operation_id h) (r\<lparr>sr_state := SigningRejected x\<rparr>) s"
    by (auto simp: Let_def require_operation_Inr require_nonzero_digest_def state_case_eq
        split: if_splits)
  then show ?case unfolding r(4)
    using record_entry [OF ok r(1)] by (intro signer_put_record_plain [OF ok r(1)]) (simp_all add: shape_rejected)
next
  case (2 e)
  then show ?case
    by (auto simp: tryE_Inl_iff Let_def self_error_def state_case_eq dest: validation_errors)
qed

lemma receipt_free_no_owner:
  assumes ok: "journal_ok s" and free: "check_receipt_free v a s = Inr ()"
    and r: "fmlookup (sj_records s) (sq_operation_id (se_request v)) = Some r" "receipt_of (sr_state r) = None"
  shows "fmlookup (sj_receipt_owners s) (se_receipt_digest v) = None"
proof (rule ccontr)
  assume "fmlookup (sj_receipt_owners s) (se_receipt_digest v) \<noteq> None"
  then obtain i where i: "fmlookup (sj_receipt_owners s) (se_receipt_digest v) = Some i" by blast
  then have "i = sq_operation_id (se_request v)" using free by (simp add: check_receipt_free_def split: if_splits)
  moreover have "entry_receipt s i = Some (se_receipt_digest v)"
    using ok i by (simp add: journal_ok_def receipt_owners_okD)
  ultimately show False using r by (simp add: entry_receipt_def)
qed

text \<open>What a reconciliation that writes does.\<close>

definition confirmed :: "SignerOutcomeEvidence \<Rightarrow> SigningOperationState" where
  "confirmed v = Confirmed (se_receipt_digest v) (se_signature v) (se_signature_digest v) (se_provider_evidence_digest v)"

definition confirm_operation :: "SignerOutcomeEvidence \<Rightarrow> SigningOperationRecord \<Rightarrow> SignerJournal \<Rightarrow> SignerJournal" where
  "confirm_operation v r s = signer_put_record (sq_operation_id (se_request v)) (r\<lparr>sr_state := confirmed v\<rparr>) s
     \<lparr>sj_receipt_owners := fmupd (se_receipt_digest v) (sq_operation_id (se_request v)) (sj_receipt_owners s)\<rparr>"

lemma confirm_operation_ok:
  assumes ok: "journal_ok s" and v: "evidence_valid v" and free: "check_receipt_free v a s = Inr ()"
    and r: "fmlookup (sj_records s) (sq_operation_id (se_request v)) = Some r"
      "sr_state r = Dispatched \<or> sr_state r = Indeterminate"
  shows "journal_ok (confirm_operation v r s)"
  unfolding confirm_operation_def
proof (rule signer_put_record_ok [OF ok])
  let ?i = "sq_operation_id (se_request v)" and ?r = "r\<lparr>sr_state := confirmed v\<rparr>"
  have entry: "record_entry_ok s ?i r" and shape: "record_shape_valid r" using record_entry [OF ok r(1)] by simp_all
  have none: "receipt_of (sr_state r) = None" and disp: "requires_dispatch (sr_state r)" using r(2) by auto
  show "sq_operation_id (sr_request ?r) = ?i" "sq_journal_epoch (sr_request ?r) = sj_epoch s"
    "fmlookup (sj_tombstones s) ?i = None"
    using entry by (simp_all add: record_entry_ok_def)
  show "record_shape_valid ?r"
    unfolding confirmed_def using shape disp evidence_validD [OF v] by (intro shape_confirmed) simp_all
  show "entry_receipt s ?i = None" using r(1) none by (simp add: entry_receipt_def)
  have "fmap_len (fmupd ?i ?r (sj_records s)) = fmap_len (sj_records s)" by (rule fmap_len_upd_old [OF r(1)])
  then show "fmap_len (fmupd ?i ?r (sj_records s)) \<le> sj_active_capacity s"
    "fmap_len (fmupd ?i ?r (sj_records s)) + fmap_len (sj_tombstones s) \<le> sj_epoch_capacity s"
    using ok by (simp_all add: journal_ok_def room_ok_def)
  show "case receipt_of (sr_state ?r) of None \<Rightarrow>
        fmupd (se_receipt_digest v) ?i (sj_receipt_owners s) = sj_receipt_owners s
      | Some d \<Rightarrow> fmlookup (sj_receipt_owners s) d = None \<and>
          fmupd (se_receipt_digest v) ?i (sj_receipt_owners s) = fmupd d ?i (sj_receipt_owners s)"
    using receipt_free_no_owner [OF ok free r(1) none] by (simp add: confirmed_def)
qed

definition reconcile_candidate ::
    "SignerOutcomeEvidence \<Rightarrow> SignerOutcomeVerifier \<Rightarrow> SignerJournalArchiveVerifier option \<Rightarrow> SignerJournal \<Rightarrow>
     SignerJournalError + SignerJournal option \<times> SigningOperationRecord" where
  "reconcile_candidate evidence outcome_verifier archive_verifier s =
     tryE (signer_evidence_validate evidence) (\<lambda>evidence.
     tryE (require_epoch s (sq_journal_epoch (se_request evidence))) (\<lambda>_.
     tryE (require_operation s (request_handle (se_request evidence))) (\<lambda>current.
     let operation_id = sq_operation_id (se_request evidence) in
     if sr_request current \<noteq> se_request evidence then Inl (ConflictingOperation operation_id)
     else if sr_dispatch current \<noteq> Some (se_dispatch evidence) then Inl (DispatchMismatch operation_id)
     else
     tryE (case sr_state current of
         Prepared \<Rightarrow> Inl (NotDispatched operation_id)
       | SigningRejected _ \<Rightarrow> Inl (Terminal operation_id)
       | _ \<Rightarrow> Inr ()) (\<lambda>_.
     tryE (map_err OutcomeVerificationFailed (outcome_verifier evidence)) (\<lambda>_.
     case sr_state current of
       Confirmed receipt_digest signature signature_digest provider_evidence_digest \<Rightarrow>
         if receipt_digest = se_receipt_digest evidence \<and> signature = se_signature evidence \<and>
            signature_digest = se_signature_digest evidence \<and>
            provider_evidence_digest = se_provider_evidence_digest evidence
         then Inr (None, current)
         else Inl (ReceiptMismatch operation_id)
     | _ \<Rightarrow>
         tryE (check_receipt_free evidence archive_verifier s) (\<lambda>_.
         Inr (Some (confirm_operation evidence current s), current\<lparr>sr_state := confirmed evidence\<rparr>)))))))"

lemma reconcile_inner_candidate:
  "reconcile_inner v w a s = journal_commit s (reconcile_candidate v w a s)"
  unfolding reconcile_inner_def reconcile_candidate_def confirm_operation_def confirmed_def Let_def signer_put_record_same
  by (rule refl)

lemma reconcile_candidate_Inr:
  assumes "reconcile_candidate v w a s = Inr (out, x)"
  obtains r where "evidence_valid v" "sq_journal_epoch (se_request v) = sj_epoch s"
    "fmlookup (sj_records s) (sq_operation_id (se_request v)) = Some r" "sr_request r = se_request v"
    "sr_dispatch r = Some (se_dispatch v)" "w v = Inr ()"
    "sr_state r = confirmed v \<and> out = None \<and> x = r \<or>
     (sr_state r = Dispatched \<or> sr_state r = Indeterminate) \<and> check_receipt_free v a s = Inr () \<and>
       out = Some (confirm_operation v r s) \<and> x = r\<lparr>sr_state := confirmed v\<rparr>"
  using assms
  by (auto simp: reconcile_candidate_def Let_def require_operation_Inr require_epoch_def request_handle_def
      state_case_eq confirmed_def split: if_splits)

lemma reconcile_inner_sound:
  assumes ok: "journal_ok s"
  shows "sound s (reconcile_inner v w a s)"
  unfolding reconcile_inner_candidate
proof (rule journal_commit_sound [OF ok], goal_cases)
  case (1 s' x)
  then show ?case
    by (rule reconcile_candidate_Inr) (use confirm_operation_ok [OF ok] in auto)
next
  case (2 e)
  then show ?case
    by (auto simp: reconcile_candidate_def tryE_Inl_iff Let_def self_error_def state_case_eq split: if_splits
        dest: validation_errors)
qed

definition tombstone_of :: "SigningOperationRecord \<Rightarrow> digest32 \<Rightarrow> SigningOperationTombstone" where
  "tombstone_of r archive_digest = \<lparr>st_request = sr_request r, st_dispatch = sr_dispatch r,
     st_state = sr_state r, st_archive_digest = archive_digest\<rparr>"

definition bury :: "id16 \<Rightarrow> SigningOperationTombstone \<Rightarrow> SignerJournal \<Rightarrow> SignerJournal" where
  "bury i t s = s\<lparr>sj_records := fmdrop i (sj_records s), sj_tombstones := fmupd i t (sj_tombstones s)\<rparr>"

lemma fmap_len_drop_old: "fmlookup m k = Some v \<Longrightarrow> Suc (fmap_len (fmdrop k m)) = fmap_len m"
  using card_Suc_Diff1 [of "fset (fmdom m)" k] by (simp add: fmap_len_def fcard.rep_eq fmdomI del: card_Diff_insert)

lemma bury_ok:
  assumes ok: "journal_ok s" and r: "fmlookup (sj_records s) i = Some r" "signing_is_terminal (sr_state r)" and d: "d \<noteq> 0"
  shows "journal_ok (bury i (tombstone_of r d) s)"
proof -
  let ?s = "bury i (tombstone_of r d) s"
  have old: "room_ok s" "entries_ok s" "receipt_owners_ok s" "epoch_chain_ok s" using ok by (simp_all add: journal_ok_def)
  have entry: "record_entry_ok s i r" by (rule entries_okD(1) [OF old(2) r(1)])
  have none: "fmlookup (sj_tombstones s) i = None" using entry by (simp add: record_entry_ok_def)
  have "entry_receipt ?s j = entry_receipt s j" for j
    using r(1) by (cases "j = i") (simp_all add: entry_receipt_def bury_def tombstone_of_def split: option.splits)
  then have "receipt_owners_ok ?s" using old(3) by (simp add: receipt_owners_ok_def bury_def)
  moreover have "entries_ok ?s"
    using old(2) entry r(2) d
    by (auto simp: entries_ok_def record_entry_ok_def tombstone_entry_ok_def bury_def tombstone_of_def record_shape_valid_def
        split: if_splits)
  moreover have "room_ok ?s"
    using old(1) fmap_len_drop_old [OF r(1)] fmap_len_upd_new [OF none] by (simp add: room_ok_def bury_def)
  moreover have "epoch_chain_ok ?s" by (rule epoch_chain_ok_same [OF _ _ _ _ old(4)]) (simp_all add: bury_def)
  ultimately show ?thesis by (simp add: journal_ok_def)
qed

lemma archive_room:
  assumes ok: "journal_ok s" and r: "fmlookup (sj_records s) i = Some r"
  shows "fmap_len (sj_tombstones s) < sj_epoch_capacity s"
  using ok fmap_len_drop_old [OF r] by (simp add: journal_ok_def room_ok_def)

lemma signer_archive_terminal_sound:
  assumes ok: "journal_ok s"
  shows "sound s (signer_archive_terminal h d s)"
  unfolding signer_archive_terminal_def
proof (rule journal_commit_sound [OF ok], goal_cases)
  case (1 s' x)
  then obtain r where r: "fmlookup (sj_records s) (sh_operation_id h) = Some r" "signing_is_terminal (sr_state r)" "d \<noteq> 0"
    "s' = bury (sh_operation_id h) (tombstone_of r d) s"
    by (auto simp: Let_def require_operation_Inr require_nonzero_digest_def bury_def tombstone_of_def
        split: option.splits if_splits)
  then show ?case using bury_ok [OF ok] by simp
next
  case (2 e)
  then show ?case
    using archive_room [OF ok, of "sh_operation_id h"]
    by (auto simp: tryE_Inl_iff Let_def self_error_def require_operation_Inr split: option.splits if_splits
        dest: validation_errors)
qed

definition renewed :: "u64 \<Rightarrow> SignerJournalCheckpoint \<Rightarrow> SignerJournal \<Rightarrow> SignerJournal" where
  "renewed n cp s = s\<lparr>sj_epoch := n, sj_records := fmempty, sj_tombstones := fmempty,
     sj_receipt_owners := fmempty, sj_checkpoint := Some cp, sj_next_checkpoint_sequence := n\<rparr>"

lemma propose_Inr:
  assumes ok: "journal_ok s" and run: "propose_checkpoint n d s = Inr cp"
  shows "cp = own_journal_checkpoint n d s" "checked_add (sj_epoch s) 1 = Some n" "d \<noteq> 0"
    "sj_records s = fmempty" "sj_tombstones s \<noteq> fmempty"
    "journal_checkpoint_shape cp (sj_epoch_capacity s) = Inr ()"
  using run
  by (auto simp: propose_checkpoint_def Let_def require_next_epoch_def require_nonzero_digest_def own_journal_checkpoint_def
      split: if_splits)

lemma propose_errors:
  assumes ok: "journal_ok s" and run: "propose_checkpoint n d s = Inl e"
  shows "\<not> self_error e"
proof -
  have "journal_checkpoint_shape (own_journal_checkpoint n d s) (sj_epoch_capacity s) = Inr ()"
    if "sj_records s = fmempty" "sj_tombstones s \<noteq> fmempty" "require_next_epoch s n = Inr ()"
      "require_nonzero_digest ''checkpoint_digest'' d = Inr ()"
    using that by (intro own_checkpoint_shape [OF ok]) (auto simp: require_next_epoch_def require_nonzero_digest_def split: if_splits)
  then show ?thesis
    using run by (auto simp: propose_checkpoint_def tryE_Inl_iff Let_def journal_verifies [OF ok] own_journal_checkpoint_def
        self_error_def split: if_splits dest: validation_errors)
qed

lemma renewed_ok:
  assumes ok: "journal_ok s" and cp: "cp = own_journal_checkpoint n d s" "d \<noteq> 0" "checked_add (sj_epoch s) 1 = Some n"
    "journal_checkpoint_shape cp (sj_epoch_capacity s) = Inr ()"
  shows "journal_ok (renewed n cp s)"
proof -
  have "unat n = Suc (unat (sj_epoch s))" "sj_epoch s \<noteq> 0"
    using cp(3) ok by (simp_all add: checked_add_one_Some journal_ok_def epoch_chain_ok_def)
  then have "n \<noteq> 0" "n \<noteq> 1" by (auto simp: unat_eq_zero)
  then show ?thesis
    using ok cp by (simp add: journal_ok_def renewed_def room_ok_def entries_ok_def receipt_owners_ok_def entry_receipt_def
        epoch_chain_ok_def own_journal_checkpoint_def)
qed

lemma advance_candidate:
  assumes ok: "journal_ok s"
  shows "signer_advance_epoch n d w s = journal_commit s (
     tryE (propose_checkpoint n d s) (\<lambda>cp.
     if \<not> verify_journal_checkpoint w cp then Inl CheckpointVerificationFailed
     else Inr (Some (renewed n cp s), cp)))"
proof -
  have seq: "sj_next_checkpoint_sequence s = sj_epoch s" using ok by (simp add: journal_ok_def epoch_chain_ok_def)
  show ?thesis
  proof (cases "propose_checkpoint n d s")
    case (Inr cp)
    then have "checked_add (sj_epoch s) 1 = Some n" using propose_Inr [OF ok] by blast
    then show ?thesis using Inr by (simp add: signer_advance_epoch_def seq renewed_def)
  qed (simp add: signer_advance_epoch_def)
qed

lemma signer_advance_epoch_sound:
  assumes ok: "journal_ok s"
  shows "sound s (signer_advance_epoch n d w s)"
  unfolding advance_candidate [OF ok]
proof (rule journal_commit_sound [OF ok], goal_cases)
  case (1 s' x)
  then have x: "propose_checkpoint n d s = Inr x" "s' = renewed n x s" by (auto split: if_splits)
  note P = propose_Inr [OF ok x(1)]
  show ?case unfolding x(2) by (rule renewed_ok [OF ok P(1,3,2,6)])
next
  case (2 e)
  then consider "propose_checkpoint n d s = Inl e" | "e = CheckpointVerificationFailed"
    by (auto simp: tryE_Inl_iff split: if_splits)
  then show ?case
  proof cases
    case 1
    then show ?thesis by (rule propose_errors [OF ok])
  qed (simp add: self_error_def)
qed

lemma journal_from_checkpoint_ok:
  assumes "journal_from_checkpoint a c cp w = Inr s"
  shows "journal_ok s"
proof -
  obtain n where cap: "validate_capacities a c = Inr ()" and shape: "journal_checkpoint_shape cp c = Inr ()"
    and n: "checked_add (sc_sequence cp) 1 = Some n"
    and s: "s = \<lparr>sj_active_capacity = a, sj_epoch_capacity = c,
          sj_epoch = sc_active_epoch cp, sj_records = fmempty, sj_tombstones = fmempty,
          sj_receipt_owners = fmempty, sj_checkpoint = Some cp, sj_next_checkpoint_sequence = n\<rparr>"
    using assms by (auto simp: journal_from_checkpoint_def Let_def split: if_splits)
  have "sc_sequence cp \<noteq> 0" "sc_active_epoch cp = n" "sc_checkpoint_digest cp \<noteq> 0"
    using shape n by (auto simp: journal_checkpoint_shape_def require_nonzero_digest_def split: if_splits)
  moreover have "unat n = Suc (unat (sc_sequence cp))" using n by (simp add: checked_add_one_Some)
  ultimately have "n \<noteq> 0" "n \<noteq> 1" by (auto simp: unat_eq_zero)
  then show ?thesis
    using cap shape \<open>sc_active_epoch cp = n\<close> \<open>sc_checkpoint_digest cp \<noteq> 0\<close>
    by (auto simp: s journal_ok_def room_ok_def entries_ok_def receipt_owners_ok_def entry_receipt_def epoch_chain_ok_def
        validate_capacities_def journal_validate_capacity_def MAX_SIGNER_JOURNAL_CAPACITY_def split: if_splits)
qed

end
