(* ===== verification/Signer_Journal_Properties.thy ===== *)
theory Signer_Journal_Properties
  imports Signer_Journal_Proofs
begin

text \<open>
  Runs of the signer journal: the self-check never fails, an operation is dispatched once, and
  what is confirmed was authenticated for the provider it was dispatched to.
\<close>

subsection \<open>Runs\<close>

datatype SignerOp =
    SignerPrepare SigningRequest
  | SignerDispatch SignerDispatchIdentity
  | SignerLost SigningOperationHandle
  | SignerReconcile SignerOutcomeEvidence SignerOutcomeVerifier "SignerJournalArchiveVerifier option"
  | SignerReject SigningOperationHandle digest32
  | SignerArchive SigningOperationHandle digest32
  | SignerAdvance u64 digest32 SignerJournalArchiveVerifier

definition without_value :: "'s \<times> ('e + 'a) \<Rightarrow> 's \<times> ('e + unit)" where
  "without_value r = (fst r, map_sum id (\<lambda>_. ()) (snd r))"

definition signer_exec :: "SignerOp \<Rightarrow> SignerJournal \<Rightarrow> SignerJournal \<times> (SignerJournalError + unit)" where
  "signer_exec x s = (case x of
       SignerPrepare q \<Rightarrow> without_value (signer_prepare q s)
     | SignerDispatch d \<Rightarrow> without_value (signer_dispatch d s)
     | SignerLost h \<Rightarrow> without_value (signer_mark_transport_lost h s)
     | SignerReconcile v w a \<Rightarrow> without_value (reconcile_inner v w a s)
     | SignerReject h x \<Rightarrow> without_value (reject_before_dispatch h x s)
     | SignerArchive h d \<Rightarrow> without_value (signer_archive_terminal h d s)
     | SignerAdvance n d w \<Rightarrow> without_value (signer_advance_epoch n d w s))"

definition signer_step :: "SignerOp \<Rightarrow> SignerJournal \<Rightarrow> SignerJournal" where
  "signer_step x s = fst (signer_exec x s)"

lemma without_value_simps [simp]:
  "fst (without_value r) = fst r"
  "snd (without_value r) = Inl e \<longleftrightarrow> snd r = Inl e"
  "snd (without_value r) = Inr () \<longleftrightarrow> (\<exists>x. snd r = Inr x)"
  by (cases "snd r"; auto simp: without_value_def)+

lemma sound_without_value [simp]: "sound s (without_value r) \<longleftrightarrow> sound s r"
  by (simp add: sound_def)

lemma signer_exec_sound: "journal_ok s \<Longrightarrow> sound s (signer_exec x s)"
  by (cases x) (simp_all add: signer_exec_def signer_prepare_sound signer_dispatch_sound
      signer_mark_transport_lost_sound reconcile_inner_sound reject_before_dispatch_sound
      signer_archive_terminal_sound signer_advance_epoch_sound)

lemma signer_step_ok: "journal_ok s \<Longrightarrow> journal_ok (signer_step x s)"
  using signer_exec_sound [of s x] by (simp add: sound_def signer_step_def)

lemma signer_failed:
  assumes "journal_ok s" and "signer_exec x s = (s', Inl e)"
  shows "s' = s" "\<not> self_error e"
  using signer_exec_sound [OF assms(1), of x] assms(2) by (simp_all add: sound_def)

subsection \<open>What a step changes\<close>

text \<open>
  The changes of the journal, as a relation: a new record, a new state of a record, an archived
  record, a new epoch.
\<close>

inductive journal_change :: "SignerOp \<Rightarrow> SignerJournal \<Rightarrow> SignerJournal \<Rightarrow> bool" where
  stays: "journal_change x s s"
| prepared: "fmlookup (sj_records s) (sq_operation_id q) = None \<Longrightarrow> fmlookup (sj_tombstones s) (sq_operation_id q) = None \<Longrightarrow>
    journal_change (SignerPrepare q) s
      (signer_put_record (sq_operation_id q) \<lparr>sr_request = q, sr_dispatch = None, sr_state = Prepared\<rparr> s)"
| dispatched: "fmlookup (sj_records s) (sq_operation_id (sd_request d)) = Some r \<Longrightarrow> sr_state r = Prepared \<Longrightarrow>
    sr_request r = sd_request d \<Longrightarrow> sq_journal_epoch (sd_request d) = sj_epoch s \<Longrightarrow>
    journal_change (SignerDispatch d) s (signer_put_record (sq_operation_id (sd_request d))
      \<lparr>sr_request = sr_request r, sr_dispatch = Some d, sr_state = Dispatched\<rparr> s)"
| lost: "fmlookup (sj_records s) i = Some r \<Longrightarrow> sr_state r = Dispatched \<Longrightarrow>
    journal_change (SignerLost h) s (signer_put_record i (r\<lparr>sr_state := Indeterminate\<rparr>) s)"
| confirmed: "fmlookup (sj_records s) (sq_operation_id (se_request v)) = Some r \<Longrightarrow> sr_dispatch r = Some (se_dispatch v) \<Longrightarrow>
    sr_request r = se_request v \<Longrightarrow> w v = Inr () \<Longrightarrow>
    journal_change (SignerReconcile v w a) s (confirm_operation v r s)"
| rejected: "fmlookup (sj_records s) i = Some r \<Longrightarrow> sr_state r = Prepared \<Longrightarrow>
    journal_change (SignerReject h x) s (signer_put_record i (r\<lparr>sr_state := SigningRejected x\<rparr>) s)"
| archived: "fmlookup (sj_records s) i = Some r \<Longrightarrow> signing_is_terminal (sr_state r) \<Longrightarrow>
    journal_change (SignerArchive h d) s (bury i (tombstone_of r d) s)"
| advanced: "checked_add (sj_epoch s) 1 = Some n \<Longrightarrow> journal_change (SignerAdvance n d w) s (renewed n cp s)"

lemma commit_change:
  assumes ok: "journal_ok s" and written: "\<And>s' x. r = Inr (Some s', x) \<Longrightarrow> journal_change y s s'"
  shows "journal_change y s (fst (journal_commit s r))"
  using written by (auto simp: journal_commit_def intro: stays split: sum.splits option.splits)

lemma signer_step_change:
  assumes ok: "journal_ok s"
  shows "journal_change x s (signer_step x s)"
proof (cases x)
  case (SignerPrepare q)
  show ?thesis unfolding SignerPrepare signer_step_def signer_exec_def SignerOp.case without_value_simps signer_prepare_def
  proof (rule commit_change [OF ok], goal_cases)
    case (1 s' y)
    then show ?case by (auto simp: Let_def intro: journal_change.prepared split: if_splits option.splits)
  qed
next
  case (SignerDispatch d)
  show ?thesis unfolding SignerDispatch signer_step_def signer_exec_def SignerOp.case without_value_simps signer_dispatch_def
  proof (rule commit_change [OF ok], goal_cases)
    case (1 s' y)
    then show ?case
      by (auto simp: Let_def dispatch_handle_def request_handle_def require_operation_Inr state_case_eq
          intro!: journal_change.dispatched split: if_splits)
  qed
next
  case (SignerLost h)
  show ?thesis unfolding SignerLost signer_step_def signer_exec_def SignerOp.case without_value_simps signer_mark_transport_lost_def
  proof (rule commit_change [OF ok], goal_cases)
    case (1 s' y)
    then show ?case by (auto simp: Let_def require_operation_Inr state_case_eq intro!: journal_change.lost)
  qed
next
  case (SignerReconcile v w a)
  show ?thesis unfolding SignerReconcile signer_step_def signer_exec_def SignerOp.case without_value_simps reconcile_inner_candidate
  proof (rule commit_change [OF ok], goal_cases)
    case (1 s' y)
    then show ?case by (rule reconcile_candidate_Inr) (auto intro: journal_change.confirmed)
  qed
next
  case (SignerReject h z)
  show ?thesis unfolding SignerReject signer_step_def signer_exec_def SignerOp.case without_value_simps reject_before_dispatch_def
  proof (rule commit_change [OF ok], goal_cases)
    case (1 s' y)
    then show ?case by (auto simp: Let_def require_operation_Inr state_case_eq intro!: journal_change.rejected)
  qed
next
  case (SignerArchive h d)
  show ?thesis unfolding SignerArchive signer_step_def signer_exec_def SignerOp.case without_value_simps signer_archive_terminal_def
  proof (rule commit_change [OF ok], goal_cases)
    case (1 s' y)
    then obtain r where "fmlookup (sj_records s) (sh_operation_id h) = Some r" "signing_is_terminal (sr_state r)"
      "s' = bury (sh_operation_id h) (tombstone_of r d) s"
      by (auto simp: Let_def require_operation_Inr bury_def tombstone_of_def split: option.splits if_splits)
    then show ?case by (auto intro: journal_change.archived)
  qed
next
  case (SignerAdvance n d w)
  show ?thesis unfolding SignerAdvance signer_step_def signer_exec_def SignerOp.case without_value_simps advance_candidate [OF ok]
  proof (rule commit_change [OF ok], goal_cases)
    case (1 s' y)
    then have "propose_checkpoint n d s = Inr y" "s' = renewed n y s" by (auto split: if_splits)
    then show ?case using propose_Inr(2) [OF ok] by (auto intro: journal_change.advanced)
  qed
qed

subsection \<open>Entries\<close>

text \<open>What the journal knows of an operation of the current epoch, active or archived.\<close>

definition entry_of ::
    "SignerJournal \<Rightarrow> id16 \<Rightarrow> (SigningRequest \<times> SignerDispatchIdentity option \<times> SigningOperationState) option" where
  "entry_of s i = (case fmlookup (sj_records s) i of
       Some r \<Rightarrow> Some (sr_request r, sr_dispatch r, sr_state r)
     | None \<Rightarrow> map_option (\<lambda>t. (st_request t, st_dispatch t, st_state t)) (fmlookup (sj_tombstones s) i))"

lemma entry_of_record: "fmlookup (sj_records s) i = Some r \<Longrightarrow> entry_of s i = Some (sr_request r, sr_dispatch r, sr_state r)"
  by (simp add: entry_of_def)

lemma entry_of_changes [simp]:
  "entry_of (signer_put_record i r s) j = (if j = i then Some (sr_request r, sr_dispatch r, sr_state r) else entry_of s j)"
  "entry_of (confirm_operation v r s) j =
     (if j = sq_operation_id (se_request v) then Some (sr_request r, sr_dispatch r, confirmed v) else entry_of s j)"
  "entry_of (renewed n cp s) j = None"
  by (simp_all add: entry_of_def confirm_operation_def renewed_def split: option.splits)

lemma entry_of_bury: "fmlookup (sj_records s) i = Some r \<Longrightarrow> entry_of (bury i (tombstone_of r d) s) j = entry_of s j"
  by (cases "j = i") (simp_all add: entry_of_def bury_def tombstone_of_def split: option.splits)

lemma entry_receipt_of:
  "entry_receipt s i = Some x \<longleftrightarrow> (\<exists>q d st. entry_of s i = Some (q, d, st) \<and> receipt_of st = Some x)"
  by (cases "fmlookup (sj_records s) i"; cases "fmlookup (sj_tombstones s) i") (auto simp: entry_receipt_def entry_of_def)

lemma change_epoch [simp]:
  "sj_epoch (confirm_operation v r s) = sj_epoch s" "sj_epoch (bury i t s) = sj_epoch s" "sj_epoch (renewed n cp s) = n"
  by (simp_all add: confirm_operation_def bury_def renewed_def)

lemma prepared_undispatched:
  assumes "journal_ok s" and "fmlookup (sj_records s) i = Some r" and "sr_state r = Prepared"
  shows "sr_dispatch r = None"
  using record_entry(2) [OF assms(1,2)] assms(3)
  by (auto simp: record_shape_valid_def operation_shape_valid_def split: if_splits)

subsection \<open>Dispatched operations\<close>

text \<open>
  A dispatch is settled when its epoch is over, or the journal still has its operation with
  exactly this dispatch.
\<close>

definition settled :: "SignerJournal \<Rightarrow> SignerDispatchIdentity \<Rightarrow> bool" where
  "settled s d \<longleftrightarrow> sq_journal_epoch (sd_request d) < sj_epoch s \<or>
     sq_journal_epoch (sd_request d) = sj_epoch s \<and>
     (\<exists>q st. entry_of s (sq_operation_id (sd_request d)) = Some (q, Some d, st))"

definition signer_below :: "SignerJournal \<Rightarrow> SignerJournal \<Rightarrow> bool" where
  "signer_below s t \<longleftrightarrow> (\<forall>d. settled s d \<longrightarrow> settled t d)"

lemma settled_same_epoch:
  assumes "settled s d" and "sj_epoch s' = sj_epoch s"
    and "\<And>q st. entry_of s (sq_operation_id (sd_request d)) = Some (q, Some d, st) \<Longrightarrow>
      \<exists>q st. entry_of s' (sq_operation_id (sd_request d)) = Some (q, Some d, st)"
  shows "settled s' d"
  using assms unfolding settled_def by auto

lemma signer_step_below:
  assumes ok: "journal_ok s"
  shows "signer_below s (signer_step x s)"
  unfolding signer_below_def
proof (intro allI impI)
  fix d assume d: "settled s d"
  from signer_step_change [OF ok, of x] show "settled (signer_step x s) d"
  proof cases
    case stays
    then show ?thesis using d by simp
  next
    case (prepared q)
    then have "entry_of s (sq_operation_id q) = None" by (simp add: entry_of_def)
    then show ?thesis using prepared(2) by (auto intro!: settled_same_epoch [OF d])
  next
    case (dispatched e r)
    then show ?thesis
      using prepared_undispatched [OF ok dispatched(3,4)] by (auto intro!: settled_same_epoch [OF d] simp: entry_of_record)
  next
    case (lost i r h)
    then show ?thesis by (auto intro!: settled_same_epoch [OF d] simp: entry_of_record)
  next
    case (confirmed v r w a)
    then show ?thesis by (auto intro!: settled_same_epoch [OF d] simp: entry_of_record)
  next
    case (rejected i r h y)
    then show ?thesis by (auto intro!: settled_same_epoch [OF d] simp: entry_of_record)
  next
    case (archived i r h y)
    then show ?thesis by (auto intro!: settled_same_epoch [OF d] simp: entry_of_bury)
  next
    case (advanced n y w cp)
    then have "sj_epoch s < n" by (simp add: checked_add_one_mono)
    then show ?thesis using d advanced(2) by (auto simp: settled_def)
  qed
qed

interpretation signer: monotone_machine signer_step journal_ok signer_below
  by unfold_locales (auto simp: signer_below_def signer_step_ok signer_step_below [unfolded signer_below_def])

lemma settled_not_dispatched:
  assumes ok: "journal_ok s" and d: "settled s d" and same: "dispatch_handle d' = dispatch_handle d"
  shows "snd (signer_dispatch d' s) \<noteq> Inr r" and "snd (reject_before_dispatch (dispatch_handle d) x s) \<noteq> Inr r"
proof -
  have handle: "sq_journal_epoch (sd_request d') = sq_journal_epoch (sd_request d)"
    "sq_operation_id (sd_request d') = sq_operation_id (sd_request d)"
    using same by (simp_all add: dispatch_handle_def request_handle_def)
  have no: "sr_state c \<noteq> Prepared"
    if c: "fmlookup (sj_records s) (sq_operation_id (sd_request d)) = Some c"
      "sq_journal_epoch (sd_request d) = sj_epoch s" for c
    using d c prepared_undispatched [OF ok c(1)] by (auto simp: settled_def entry_of_record)
  show "snd (signer_dispatch d' s) \<noteq> Inr r"
  proof
    assume "snd (signer_dispatch d' s) = Inr r"
    then have "signer_dispatch d' s = (fst (signer_dispatch d' s), Inr r)" by (simp add: prod_eq_iff)
    then show False unfolding signer_dispatch_def
      by (rule journal_commit_Inr [THEN disjE])
        (use no handle in \<open>auto simp: Let_def dispatch_handle_def request_handle_def require_operation_Inr state_case_eq
          split: if_splits\<close>)
  qed
  show "snd (reject_before_dispatch (dispatch_handle d) x s) \<noteq> Inr r"
  proof
    assume "snd (reject_before_dispatch (dispatch_handle d) x s) = Inr r"
    then have "reject_before_dispatch (dispatch_handle d) x s = (fst (reject_before_dispatch (dispatch_handle d) x s), Inr r)"
      by (simp add: prod_eq_iff)
    then show False unfolding reject_before_dispatch_def
      by (rule journal_commit_Inr [THEN disjE])
        (use no in \<open>auto simp: Let_def dispatch_handle_def request_handle_def require_operation_Inr state_case_eq\<close>)
  qed
qed

lemma dispatch_settles:
  assumes ok: "journal_ok s" and run: "signer_dispatch d s = (s', Inr r)"
  shows "settled s' d"
proof -
  have "journal_change (SignerDispatch d) s s'"
    using signer_step_change [OF ok, of "SignerDispatch d"] run by (simp add: signer_step_def signer_exec_def)
  moreover have "s' \<noteq> s"
  proof
    assume same: "s' = s"
    obtain c where c: "fmlookup (sj_records s) (sq_operation_id (sd_request d)) = Some c" "sr_state c = Prepared"
      "s' = signer_put_record (sq_operation_id (sd_request d))
         \<lparr>sr_request = sr_request c, sr_dispatch = Some d, sr_state = Dispatched\<rparr> s"
      using journal_commit_Inr [OF run [unfolded signer_dispatch_def]]
      by (auto simp: Let_def dispatch_handle_def request_handle_def require_operation_Inr state_case_eq split: if_splits)
    then have "fmlookup (sj_records s) (sq_operation_id (sd_request d)) =
        Some \<lparr>sr_request = sr_request c, sr_dispatch = Some d, sr_state = Dispatched\<rparr>"
      using same by (metis fmupd_lookup signer_put_record_same(8))
    then have "sr_state c = Dispatched" using c(1) by (metis SigningOperationRecord.select_convs(3) option.inject)
    then show False using c(2) by simp
  qed
  ultimately show ?thesis by cases (simp_all add: settled_def)
qed

subsection \<open>Authenticated outcomes\<close>

text \<open>Where the dispatch and the confirmed state of an entry come from in a run.\<close>

definition accounted ::
    "SignerOp list \<Rightarrow> SigningRequest \<Rightarrow> SignerDispatchIdentity option \<Rightarrow> SigningOperationState \<Rightarrow> bool" where
  "accounted ops q d st \<longleftrightarrow> (\<forall>e. d = Some e \<longrightarrow> SignerDispatch e \<in> set ops \<and> sd_request e = q) \<and>
     (\<forall>x. receipt_of st = Some x \<longrightarrow> (\<exists>v w a. SignerReconcile v w a \<in> set ops \<and> w v = Inr () \<and>
        se_request v = q \<and> d = Some (se_dispatch v) \<and> st = confirmed v))"

lemma accounted_more: "accounted ops q d st \<Longrightarrow> accounted (ops @ [x]) q d st"
  unfolding accounted_def by fastforce

lemma entries_accounted:
  assumes ok: "journal_ok s0" and new: "\<And>i. entry_of s0 i = None"
    and "entry_of (fold signer_step ops s0) i = Some (q, d, st)"
  shows "accounted ops q d st"
  using assms(3)
proof (induction ops arbitrary: i q d st rule: rev_induct)
  case Nil
  then show ?case using new by simp
next
  case (snoc x ops)
  let ?s = "fold signer_step ops s0"
  have ok': "journal_ok ?s" by (rule signer.run_inv [OF ok])
  have IH: "accounted (ops @ [x]) q d st" if "entry_of ?s i = Some (q, d, st)" for i q d st
    by (rule accounted_more [OF snoc.IH [OF that]])
  note rec = IH [OF entry_of_record]
  have entry: "entry_of (signer_step x ?s) i = Some (q, d, st)" using snoc.prems by simp
  from signer_step_change [OF ok', of x] show ?case
  proof cases
    case stays
    then show ?thesis using entry IH by simp
  next
    case (prepared q')
    show ?thesis
    proof (cases "i = sq_operation_id q'")
      case True
      then show ?thesis using entry prepared(2) by (auto simp: accounted_def)
    next
      case False
      then show ?thesis using entry prepared(2) by (intro IH) simp
    qed
  next
    case (dispatched e r)
    show ?thesis
    proof (cases "i = sq_operation_id (sd_request e)")
      case True
      then show ?thesis using entry dispatched by (auto simp: accounted_def)
    next
      case False
      then show ?thesis using entry dispatched(2) by (intro IH) simp
    qed
  next
    case (lost j r h)
    show ?thesis
    proof (cases "i = j")
      case True
      then show ?thesis using entry lost(2) rec [OF lost(3)] by (auto simp: accounted_def)
    next
      case False
      then show ?thesis using entry lost(2) by (intro IH) simp
    qed
  next
    case (confirmed v r w a)
    have "accounted (ops @ [x]) (sr_request r) (sr_dispatch r) (Signer_Journal_Proofs.confirmed v)"
      using rec [OF confirmed(3)] confirmed unfolding accounted_def by auto
    then show ?thesis using entry confirmed(2) IH [of i q d st]
      by (cases "i = sq_operation_id (se_request v)") simp_all
  next
    case (rejected j r h y)
    show ?thesis
    proof (cases "i = j")
      case True
      then show ?thesis using entry rejected(2) rec [OF rejected(3)] by (auto simp: accounted_def)
    next
      case False
      then show ?thesis using entry rejected(2) by (intro IH) simp
    qed
  next
    case (archived j r h y)
    then show ?thesis using entry IH by (simp add: entry_of_bury)
  next
    case (advanced n y w cp)
    then show ?thesis using entry by simp
  qed
qed

lemma one_receipt_owner:
  assumes ok: "journal_ok s" and "entry_of s i = Some (q, d, st)" "entry_of s j = Some (q', d', st')"
    and "receipt_of st = Some x" "receipt_of st' = Some x"
  shows "i = j"
proof -
  have "entry_receipt s i = Some x" "entry_receipt s j = Some x" using assms(2-) by (auto simp: entry_receipt_of)
  then have "fmlookup (sj_receipt_owners s) x = Some i" "fmlookup (sj_receipt_owners s) x = Some j"
    using ok by (simp_all add: journal_ok_def receipt_owners_okD)
  then show ?thesis by simp
qed

subsection \<open>Properties\<close>

text \<open>A journal starts empty, or from a checkpoint.\<close>

definition journal_start :: "SignerJournal \<Rightarrow> bool" where
  "journal_start s \<longleftrightarrow> (\<exists>a c. journal_with_limits a c = Inr s) \<or> (\<exists>a c cp w. journal_from_checkpoint a c cp w = Inr s)"

lemma journal_start_ok: "journal_start s \<Longrightarrow> journal_ok s"
  by (auto simp: journal_start_def intro: journal_with_limits_ok journal_from_checkpoint_ok)

lemma journal_start_empty: "journal_start s \<Longrightarrow> entry_of s i = None"
  by (auto simp: journal_start_def journal_with_limits_def journal_from_checkpoint_def Let_def entry_of_def split: if_splits)

text \<open>
  The journal never finds itself broken: on every run its self-check succeeds, and an operation
  that fails leaves the journal as it was and does not fail for a violated invariant or a malformed
  checkpoint of its own.
\<close>

theorem signer_self_check_holds:
  assumes start: "journal_start s0" and s: "s = fold signer_step ops s0"
  shows "journal_verify_invariants s = Inr () \<and>
    (\<forall>x s' e. signer_exec x s = (s', Inl e) \<longrightarrow>
       s' = s \<and> (\<forall>m. e \<noteq> InvariantViolation m \<and> e \<noteq> CheckpointInvalid m))"
proof -
  have ok: "journal_ok s" unfolding s by (rule signer.run_inv [OF journal_start_ok [OF start]])
  then show ?thesis using journal_verifies [OF ok] signer_failed [OF ok] unfolding self_error_def by blast
qed

text \<open>
  C6: At most one dispatch: once an operation has been dispatched, then whatever happens later, lost
  transports, reconciliations, archival and new epochs included, the same operation can neither be
  dispatched again, to the same or to another provider, nor rejected as if it had not been sent.
\<close>

theorem signer_dispatched_once:
  assumes start: "journal_start s0" and s: "s = fold signer_step ops s0"
    and run: "signer_dispatch d s = (s', Inr r)" and later: "s'' = fold signer_step ops' s'"
    and same: "dispatch_handle d' = dispatch_handle d"
  shows "(\<exists>e. signer_dispatch d' s'' = (s'', Inl e)) \<and>
    (\<exists>e. reject_before_dispatch (dispatch_handle d) x s'' = (s'', Inl e))"
proof -
  have ok: "journal_ok s" unfolding s by (rule signer.run_inv [OF journal_start_ok [OF start]])
  have ok': "journal_ok s'" using signer_dispatch_sound [OF ok, of d] run by (simp add: sound_def)
  then have "settled s'' d"
    using signer.run_below [OF ok', of ops'] dispatch_settles [OF ok run] by (simp add: later signer_below_def)
  moreover have ok'': "journal_ok s''" unfolding later by (rule signer.run_inv [OF ok'])
  ultimately have "snd (signer_dispatch d' s'') \<noteq> Inr y" "snd (reject_before_dispatch (dispatch_handle d) x s'') \<noteq> Inr y" for y
    using settled_not_dispatched same by blast+
  then obtain e e' where "snd (signer_dispatch d' s'') = Inl e" "snd (reject_before_dispatch (dispatch_handle d) x s'') = Inl e'"
    by (metis sum.exhaust)
  then show ?thesis
    using signer_dispatch_sound [OF ok'', of d'] reject_before_dispatch_sound [OF ok'', of "dispatch_handle d" x]
    by (metis sound_def prod.collapse)
qed

text \<open>
  C7: A confirmed signature was authenticated: an operation that the journal knows as confirmed was
  dispatched in this run, and a trusted verifier accepted evidence for exactly this request, this
  dispatch and this receipt, signature and digests; no other operation of the epoch has the same
  receipt.
\<close>

theorem signer_outcome_authenticated:
  assumes start: "journal_start s0" and s: "s = fold signer_step ops s0"
    and entry: "entry_of s i = Some (q, d, Confirmed receipt signature digest evidence)"
  shows "(\<exists>v w a. SignerReconcile v w a \<in> set ops \<and> w v = Inr () \<and> SignerDispatch (se_dispatch v) \<in> set ops \<and>
      d = Some (se_dispatch v) \<and> se_request v = q \<and> sd_request (se_dispatch v) = q \<and>
      se_receipt_digest v = receipt \<and> se_signature v = signature \<and> se_signature_digest v = digest \<and>
      se_provider_evidence_digest v = evidence) \<and>
    (\<forall>j q' d' signature' digest' evidence'.
       entry_of s j = Some (q', d', Confirmed receipt signature' digest' evidence') \<longrightarrow> j = i)"
proof -
  have ok: "journal_ok s" unfolding s by (rule signer.run_inv [OF journal_start_ok [OF start]])
  have "accounted ops q d (Confirmed receipt signature digest evidence)"
    using entry unfolding s by (rule entries_accounted [OF journal_start_ok [OF start] journal_start_empty [OF start]])
  then obtain v w a where v: "SignerReconcile v w a \<in> set ops" "w v = Inr ()" "se_request v = q" "d = Some (se_dispatch v)"
    "Confirmed receipt signature digest evidence = confirmed v"
    and d: "SignerDispatch (se_dispatch v) \<in> set ops" "sd_request (se_dispatch v) = q"
    unfolding accounted_def by auto
  have "\<exists>v w a. SignerReconcile v w a \<in> set ops \<and> w v = Inr () \<and> SignerDispatch (se_dispatch v) \<in> set ops \<and>
      d = Some (se_dispatch v) \<and> se_request v = q \<and> sd_request (se_dispatch v) = q \<and>
      se_receipt_digest v = receipt \<and> se_signature v = signature \<and> se_signature_digest v = digest \<and>
      se_provider_evidence_digest v = evidence"
    using v d by (intro exI [of _ v] exI [of _ w] exI [of _ a]) (simp add: confirmed_def)
  moreover have "j = i" if "entry_of s j = Some (q', d', Confirmed receipt signature' digest' evidence')"
    for j q' d' signature' digest' evidence'
    by (rule one_receipt_owner [OF ok that entry]) simp_all
  ultimately show ?thesis by blast
qed

subsection \<open>Witnesses\<close>

definition wit_request :: SigningRequest where
  "wit_request = \<lparr>sq_journal_epoch = 1, sq_operation_id = 9, sq_key_domain = DomainAuthority,
     sq_key_epoch = 3, sq_payload_digest = 5\<rparr>"

definition wit_dispatch :: SignerDispatchIdentity where
  "wit_dispatch = \<lparr>sd_request = wit_request, sd_provider_identity_digest = 6, sd_provider_endpoint_digest = 7,
     sd_attempt = 1\<rparr>"

definition wit_evidence :: SignerOutcomeEvidence where
  "wit_evidence = \<lparr>se_request = wit_request, se_dispatch = wit_dispatch, se_receipt_digest = 11,
     se_signature = [1, 2], se_signature_digest = 12, se_provider_evidence_digest = 13\<rparr>"

definition wit_journal :: SignerJournal where
  "wit_journal = \<lparr>sj_active_capacity = 2, sj_epoch_capacity = 4, sj_epoch = 1, sj_records = fmempty,
     sj_tombstones = fmempty, sj_receipt_owners = fmempty, sj_checkpoint = None, sj_next_checkpoint_sequence = 1\<rparr>"

definition wit_prepared :: SignerJournal where
  "wit_prepared = signer_put_record 9 \<lparr>sr_request = wit_request, sr_dispatch = None, sr_state = Prepared\<rparr> wit_journal"

definition wit_sent :: SigningOperationRecord where
  "wit_sent = \<lparr>sr_request = wit_request, sr_dispatch = Some wit_dispatch, sr_state = Dispatched\<rparr>"

definition wit_dispatched :: SignerJournal where
  "wit_dispatched = signer_put_record 9 wit_sent wit_prepared"

lemma wit_journal_start: "journal_start wit_journal"
proof -
  have "journal_with_limits 2 4 = Inr wit_journal"
    by (simp add: journal_with_limits_def validate_capacities_def journal_validate_capacity_def
        MAX_SIGNER_JOURNAL_CAPACITY_def wit_journal_def)
  then show ?thesis unfolding journal_start_def by blast
qed

lemma wit_valid [simp]: "request_validate wit_request = Inr wit_request" "dispatch_validate wit_dispatch = Inr wit_dispatch"
  "signer_evidence_validate wit_evidence = Inr wit_evidence"
  by (simp_all add: request_validate_def dispatch_validate_def signer_evidence_validate_def require_nonzero_digest_def
      wit_request_def wit_dispatch_def wit_evidence_def del: validate_Inr_iff)

lemma wit_evidence_sel [simp]: "sd_request wit_dispatch = wit_request" "se_request wit_evidence = wit_request"
  "se_dispatch wit_evidence = wit_dispatch" "se_receipt_digest wit_evidence = 11" "se_signature wit_evidence = [1, 2]"
  "se_signature_digest wit_evidence = 12" "se_provider_evidence_digest wit_evidence = 13"
  by (simp_all add: wit_dispatch_def wit_evidence_def)

lemma wit_journal_sel [simp]: "sj_epoch wit_journal = 1" "sj_records wit_journal = fmempty" "sj_tombstones wit_journal = fmempty"
  "sj_active_capacity wit_journal = 2" "sj_epoch_capacity wit_journal = 4" "sj_receipt_owners wit_journal = fmempty"
  "sj_checkpoint wit_journal = None"
  by (simp_all add: wit_journal_def)

lemma wit_request_sel [simp]: "sq_operation_id wit_request = 9" "sq_journal_epoch wit_request = 1"
  by (simp_all add: wit_request_def)

lemma wit_prepare_step: "signer_step (SignerPrepare wit_request) wit_journal = wit_prepared"
  by (simp add: signer_step_def signer_exec_def signer_prepare_def journal_commit_def wit_prepared_def
      journal_verifies [OF journal_start_ok [OF wit_journal_start]] require_epoch_def usize_checked_add_def Let_def)

lemma wit_prepared_ok: "journal_ok wit_prepared"
  using signer_step_ok [OF journal_start_ok [OF wit_journal_start], of "SignerPrepare wit_request"]
  by (simp add: wit_prepare_step)

lemma wit_dispatch_run: "signer_dispatch wit_dispatch wit_prepared = (wit_dispatched, Inr wit_sent)"
proof -
  have "signer_dispatch wit_dispatch wit_prepared = journal_commit wit_prepared (Inr (Some wit_dispatched, wit_sent))"
    by (simp add: signer_dispatch_def dispatch_handle_def request_handle_def require_operation_def require_epoch_def
        wit_prepared_def wit_dispatched_def wit_sent_def Let_def)
  moreover have "journal_ok wit_dispatched"
    using signer_dispatch_sound [OF wit_prepared_ok, of wit_dispatch] calculation
    by (simp add: sound_def journal_commit_def)
  ultimately show ?thesis by (simp add: journal_commit_def journal_verifies)
qed

lemma wit_dispatched_run:
  "fold signer_step [SignerPrepare wit_request, SignerDispatch wit_dispatch] wit_journal = wit_dispatched"
  by (simp add: wit_prepare_step) (simp add: signer_step_def signer_exec_def wit_dispatch_run)

theorem signer_self_check_holds_witness:
  "\<exists>s. s = fold signer_step [SignerPrepare wit_request, SignerDispatch wit_dispatch] wit_journal \<and>
     fmlookup (sj_records s) 9 = Some wit_sent \<and> journal_verify_invariants s = Inr ()"
  using signer_self_check_holds [OF wit_journal_start refl, of "[SignerPrepare wit_request, SignerDispatch wit_dispatch]"]
  by (simp only: wit_dispatched_run) (simp add: wit_dispatched_def)

theorem signer_dispatched_once_witness:
  "\<exists>s s' r. s = fold signer_step [SignerPrepare wit_request] wit_journal \<and>
     signer_dispatch wit_dispatch s = (s', Inr r) \<and>
     (\<exists>e. signer_dispatch (wit_dispatch\<lparr>sd_attempt := 2\<rparr>) (fold signer_step [SignerLost (dispatch_handle wit_dispatch)] s') =
       (fold signer_step [SignerLost (dispatch_handle wit_dispatch)] s', Inl e))"
proof -
  have s: "wit_prepared = fold signer_step [SignerPrepare wit_request] wit_journal" by (simp add: wit_prepare_step)
  have "dispatch_handle (wit_dispatch\<lparr>sd_attempt := 2\<rparr>) = dispatch_handle wit_dispatch" by (simp add: dispatch_handle_def)
  from signer_dispatched_once [OF wit_journal_start s wit_dispatch_run refl this,
      of "[SignerLost (dispatch_handle wit_dispatch)]"]
  show ?thesis using s wit_dispatch_run by blast
qed

theorem signer_outcome_authenticated_witness:
  "\<exists>ops s d. s = fold signer_step ops wit_journal \<and> entry_of s 9 = Some (wit_request, d, Confirmed 11 [1, 2] 12 13) \<and>
     SignerDispatch wit_dispatch \<in> set ops \<and> d = Some wit_dispatch"
proof -
  let ?w = "\<lambda>_ :: SignerOutcomeEvidence. Inr () :: SignerOutcomeVerificationError + unit"
  let ?ops = "[SignerPrepare wit_request, SignerDispatch wit_dispatch, SignerReconcile wit_evidence ?w None]"
  let ?s = "fold signer_step ?ops wit_journal"
  have "?s = signer_step (SignerReconcile wit_evidence ?w None) wit_dispatched"
    using wit_dispatched_run by simp
  also have "\<dots> = confirm_operation wit_evidence wit_sent wit_dispatched"
    by (simp add: signer_step_def signer_exec_def reconcile_inner_candidate reconcile_candidate_def journal_commit_def
        require_epoch_def require_operation_def request_handle_def check_receipt_free_def wit_dispatched_def wit_prepared_def
        wit_sent_def Let_def map_err_def)
  finally have entry: "entry_of ?s 9 = Some (wit_request, Some wit_dispatch, Confirmed 11 [1, 2] 12 13)"
    by (simp add: confirmed_def wit_sent_def)
  from signer_outcome_authenticated [OF wit_journal_start refl entry] have "SignerDispatch wit_dispatch \<in> set ?ops"
    by auto
  then show ?thesis using entry by blast
qed

end
