(* ===== verification/Json.thy ===== *)
theory Json
  imports Utf8 "HOL-Library.List_Lexorder"
begin

unbundle bit_operations_syntax

text \<open>
  The bounded JSON codec of the token adapter (\<open>crates/trnm-token-jwt-adapter/src/json.rs\<close>). A
  \<open>String\<close> is its UTF-8 bytes, an \<open>i64\<close> an integer of that range, and a \<open>BTreeMap\<close> the list of
  its entries in the order of their keys, which is the lexicographic order of bytes. The parser's
  input is what is left of it from the offset on, the only part of it the parser looks at; its
  limits are an argument. A function of the parser that fails leaves no state, since \<open>parse\<close>
  then drops the parser.
\<close>

subsection \<open>Values, limits and errors\<close>

datatype JsonValue =
    JsonNull
  | JsonBool bool
  | JsonInteger int
  | JsonUnsigned u64
  | JsonString utf8
  | JsonArray "JsonValue list"
  | JsonObject "(utf8 \<times> JsonValue) list"

type_synonym JsonEntries = "(utf8 \<times> JsonValue) list"

fun object_insert :: "utf8 \<Rightarrow> 'v \<Rightarrow> (utf8 \<times> 'v) list \<Rightarrow> (utf8 \<times> 'v) list" where
  "object_insert k v [] = [(k, v)]"
| "object_insert k v ((k', v') # entries) =
     (if k < k' then (k, v) # (k', v') # entries
      else if k = k' then (k, v) # entries
      else (k', v') # object_insert k v entries)"

fun as_object :: "JsonValue \<Rightarrow> JsonEntries option" where
  "as_object (JsonObject entries) = Some entries"
| "as_object _ = None"

fun as_array :: "JsonValue \<Rightarrow> JsonValue list option" where
  "as_array (JsonArray values) = Some values"
| "as_array _ = None"

fun as_str :: "JsonValue \<Rightarrow> utf8 option" where
  "as_str (JsonString s) = Some s"
| "as_str _ = None"

fun as_u64 :: "JsonValue \<Rightarrow> u64 option" where
  "as_u64 (JsonUnsigned n) = Some n"
| "as_u64 (JsonInteger n) = (if n \<ge> 0 then Some (of_int n) else None)"
| "as_u64 _ = None"

fun as_i64 :: "JsonValue \<Rightarrow> int option" where
  "as_i64 (JsonInteger n) = Some n"
| "as_i64 (JsonUnsigned n) = i64_checked (uint n)"
| "as_i64 _ = None"

record JsonLimits =
  jl_max_depth :: usize
  jl_max_nodes :: usize
  jl_max_string_bytes :: usize
  jl_max_collection_len :: usize

definition JsonLimits_default :: JsonLimits where
  "JsonLimits_default = \<lparr>jl_max_depth = 16, jl_max_nodes = 2048, jl_max_string_bytes = 16 * 1024,
     jl_max_collection_len = 256\<rparr>"

datatype JsonErrorKind =
    InvalidUtf8 | UnexpectedEnd
  | UnexpectedByte u8
  | InvalidLiteral | InvalidEscape | InvalidUnicodeEscape | LoneSurrogate
  | DuplicateKey utf8
  | LeadingZero | FloatForbidden | NumberOutOfRange
  | DepthExceeded usize
  | NodeCountExceeded usize
  | StringLengthExceeded usize
  | CollectionLengthExceeded usize
  | TrailingData

record JsonError =
  je_offset :: usize
  je_kind :: JsonErrorKind

datatype JsonEncodeError = OutputLengthExceeded usize

subsection \<open>The parser's state and its small steps\<close>

record JsonParser =
  jp_rest :: "u8 list"
  jp_offset :: usize
  jp_nodes :: usize

definition parser_error :: "JsonParser \<Rightarrow> JsonErrorKind \<Rightarrow> JsonError" where
  "parser_error p kind = \<lparr>je_offset = jp_offset p, je_kind = kind\<rparr>"

definition skip_bytes :: "usize \<Rightarrow> JsonParser \<Rightarrow> JsonParser" where
  "skip_bytes n p = p\<lparr>jp_rest := drop n (jp_rest p), jp_offset := jp_offset p + n\<rparr>"

definition json_space :: "u8 \<Rightarrow> bool" where
  "json_space b \<longleftrightarrow> b = 32 \<or> b = 10 \<or> b = 13 \<or> b = 9"

definition skip_whitespace :: "JsonParser \<Rightarrow> JsonParser" where
  "skip_whitespace p = skip_bytes (length (takeWhile json_space (jp_rest p))) p"

definition consume_if :: "u8 \<Rightarrow> JsonParser \<Rightarrow> JsonParser option" where
  "consume_if expected p = (case jp_rest p of
       b # _ \<Rightarrow> if b = expected then Some (skip_bytes 1 p) else None
     | [] \<Rightarrow> None)"

definition expect_byte :: "u8 \<Rightarrow> JsonParser \<Rightarrow> JsonError + JsonParser" where
  "expect_byte expected p = (case jp_rest p of
       b # _ \<Rightarrow> if b = expected then Inr (skip_bytes 1 p) else Inl (parser_error p (UnexpectedByte b))
     | [] \<Rightarrow> Inl (parser_error p UnexpectedEnd))"

definition consume_literal :: "u8 list \<Rightarrow> JsonParser \<Rightarrow> JsonError + JsonParser" where
  "consume_literal expected p =
     (if take (length expected) (jp_rest p) \<noteq> expected then Inl (parser_error p InvalidLiteral)
      else Inr (skip_bytes (length expected) p))"

subsection \<open>Numbers\<close>

definition digits_value :: "u8 list \<Rightarrow> nat" where
  "digits_value digits = foldl (\<lambda>n b. n * 10 + unat (b - 48)) 0 digits"

definition starts_float :: "u8 list \<Rightarrow> bool" where
  "starts_float bytes = (case bytes of b # _ \<Rightarrow> b = 46 \<or> b = 101 \<or> b = 69 | [] \<Rightarrow> False)"

definition number_digits :: "JsonParser \<Rightarrow> JsonError + u8 list" where
  "number_digits p = (case jp_rest p of
       [] \<Rightarrow> Inl (parser_error p UnexpectedEnd)
     | first # rest \<Rightarrow>
         if first = 48
         then (if takeWhile is_ascii_digit rest \<noteq> [] then Inl (parser_error (skip_bytes 1 p) LeadingZero)
               else Inr [48])
         else if 49 \<le> first \<and> first \<le> 57 then Inr (first # takeWhile is_ascii_digit rest)
         else Inl (parser_error p (UnexpectedByte first)))"

definition parse_number :: "JsonParser \<Rightarrow> JsonError + JsonValue \<times> JsonParser" where
  "parse_number p =
     (let (negative, p) = (case consume_if 45 p of Some p' \<Rightarrow> (True, p') | None \<Rightarrow> (False, p)) in
      tryE (number_digits p) (\<lambda>digits.
      let p = skip_bytes (length digits) p in
      if starts_float (jp_rest p) then Inl (parser_error p FloatForbidden)
      else if negative
      then (if digits_value digits \<le> 2 ^ 63 then Inr (JsonInteger (- int (digits_value digits)), p)
            else Inl (parser_error p NumberOutOfRange))
      else (if digits_value digits < 2 ^ 64 then Inr (JsonUnsigned (of_nat (digits_value digits)), p)
            else Inl (parser_error p NumberOutOfRange))))"

subsection \<open>Strings\<close>

definition hex_value :: "u8 \<Rightarrow> u16 option" where
  "hex_value b =
     (if 48 \<le> b \<and> b \<le> 57 then Some (ucast (b - 48))
      else if 97 \<le> b \<and> b \<le> 102 then Some (ucast (b - 97 + 10))
      else if 65 \<le> b \<and> b \<le> 70 then Some (ucast (b - 65 + 10))
      else None)"

definition parse_hex_u16 :: "JsonParser \<Rightarrow> JsonError + u16 \<times> JsonParser" where
  "parse_hex_u16 p =
     (if length (jp_rest p) < 4 then Inl (parser_error p UnexpectedEnd)
      else
      tryE (foldE (\<lambda>b n. tryE (ok_or (parser_error p InvalidUnicodeEscape) (hex_value b)) (\<lambda>digit.
              Inr (push_bit 4 n OR digit))) (take 4 (jp_rest p)) 0) (\<lambda>n.
      Inr (n, skip_bytes 4 p)))"

definition parse_unicode_escape :: "JsonParser \<Rightarrow> JsonError + rchar \<times> JsonParser" where
  "parse_unicode_escape p =
     tryE (parse_hex_u16 p) (\<lambda>(first, p).
     tryE (if 0xd800 \<le> first \<and> first \<le> 0xdbff
           then (if take 2 (jp_rest p) \<noteq> [92, 117] then Inl (parser_error p LoneSurrogate)
                 else
                 let p = skip_bytes 2 p in
                 tryE (parse_hex_u16 p) (\<lambda>(second, p).
                 if \<not> (0xdc00 \<le> second \<and> second \<le> 0xdfff) then Inl (parser_error p LoneSurrogate)
                 else Inr (0x10000 + push_bit 10 (ucast first - 0xd800) + (ucast second - 0xdc00), p)))
           else if 0xdc00 \<le> first \<and> first \<le> 0xdfff then Inl (parser_error p LoneSurrogate)
           else Inr (ucast first, p)) (\<lambda>(scalar, p).
     if is_scalar scalar then Inr (scalar, p) else Inl (parser_error p InvalidUnicodeEscape)))"

text \<open>The bytes of the character that starts with the byte \<open>b\<close> of a well-formed text.\<close>

definition char_width :: "u8 \<Rightarrow> usize" where
  "char_width b = (if b < 0x80 then 1 else if b < 0xE0 then 2 else if b < 0xF0 then 3 else 4)"

definition parse_escape :: "JsonParser \<Rightarrow> JsonError + utf8 \<times> JsonParser" where
  "parse_escape p = (case jp_rest p of
       [] \<Rightarrow> Inl (parser_error p UnexpectedEnd)
     | escaped # _ \<Rightarrow>
         let p = skip_bytes 1 p in
         if escaped = 34 \<or> escaped = 92 \<or> escaped = 47 then Inr ([escaped], p)
         else if escaped = 98 then Inr ([8], p)
         else if escaped = 102 then Inr ([12], p)
         else if escaped = 110 then Inr ([10], p)
         else if escaped = 114 then Inr ([13], p)
         else if escaped = 116 then Inr ([9], p)
         else if escaped = 117
         then tryE (parse_unicode_escape p) (\<lambda>(c, p). Inr (char_bytes c, p))
         else Inl (parser_error p InvalidEscape))"

text \<open>One round of the loop of \<open>parse_string\<close>: the bytes it pushes.\<close>

definition parse_char :: "JsonParser \<Rightarrow> JsonError + utf8 \<times> JsonParser" where
  "parse_char p = (case jp_rest p of
       [] \<Rightarrow> Inl (parser_error p UnexpectedEnd)
     | b # _ \<Rightarrow>
         if b = 92 then parse_escape (skip_bytes 1 p)
         else if b \<le> 0x1f then Inl (parser_error p (UnexpectedByte b))
         else Inr (take (char_width b) (jp_rest p), skip_bytes (char_width b) p))"

lemma skip_bytes_rest [simp]: "jp_rest (skip_bytes n p) = drop n (jp_rest p)"
  by (simp add: skip_bytes_def)

lemma parse_hex_shorter: "parse_hex_u16 p = Inr (n, p') \<Longrightarrow> length (jp_rest p') < length (jp_rest p)"
  by (auto simp: parse_hex_u16_def split: if_splits)

lemma parse_escape_shorter: "parse_escape p = Inr (cs, p') \<Longrightarrow> length (jp_rest p') < length (jp_rest p)"
proof (cases "jp_rest p")
  case (Cons b rest)
  assume "parse_escape p = Inr (cs, p')"
  then show ?thesis
    using Cons by (auto simp: parse_escape_def parse_unicode_escape_def Let_def split: if_splits dest!: parse_hex_shorter)
qed (simp add: parse_escape_def)

lemma parse_char_shorter: "parse_char p = Inr (cs, p') \<Longrightarrow> length (jp_rest p') < length (jp_rest p)"
  by (auto simp: parse_char_def char_width_def split: list.splits if_splits dest!: parse_escape_shorter)

function parse_string_loop :: "JsonLimits \<Rightarrow> utf8 \<Rightarrow> JsonParser \<Rightarrow> JsonError + utf8 \<times> JsonParser" where
  "parse_string_loop limits output p = (case consume_if 34 p of
       Some p \<Rightarrow> Inr (output, p)
     | None \<Rightarrow>
         tryE (parse_char p) (\<lambda>(cs, p).
         let output = output @ cs in
         if length output > jl_max_string_bytes limits
         then Inl (parser_error p (StringLengthExceeded (jl_max_string_bytes limits)))
         else parse_string_loop limits output p))"
  by pat_completeness auto
termination
  by (relation "measure (\<lambda>(_, _, p). length (jp_rest p))") (auto dest: parse_char_shorter)

declare parse_string_loop.simps [simp del]

definition parse_string :: "JsonLimits \<Rightarrow> JsonParser \<Rightarrow> JsonError + utf8 \<times> JsonParser" where
  "parse_string limits p = tryE (expect_byte 34 p) (parse_string_loop limits [])"

subsection \<open>Values\<close>

text \<open>
  The loops of arrays and objects stop after \<open>jl_max_collection_len\<close> rounds, and the nesting at
  \<open>jl_max_depth\<close>: this, and not the input, bounds the recursion. The measure
  is first the depth that is left, then the room in the collection.
\<close>

lemma object_insert_new: "map_of entries k = None \<Longrightarrow> length (object_insert k v entries) = Suc (length entries)"
  by (induction entries) (auto split: if_splits)

definition parser_measure where
  "parser_measure = case_sum
     (case_sum (\<lambda>(limits, depth, _). (4 * (Suc (jl_max_depth limits) - depth), 0))
               (\<lambda>(limits, depth, _). (4 * (jl_max_depth limits - depth) + 2, 0)))
     (case_sum (\<lambda>(limits, depth, values, _). (4 * (jl_max_depth limits - depth) + 1, jl_max_collection_len limits - length values))
       (case_sum (\<lambda>(limits, depth, _). (4 * (jl_max_depth limits - depth) + 2, 0))
               (\<lambda>(limits, depth, entries, _). (4 * (jl_max_depth limits - depth) + 1, jl_max_collection_len limits - length entries))))"

function (sequential) parse_value :: "JsonLimits \<Rightarrow> usize \<Rightarrow> JsonParser \<Rightarrow> JsonError + JsonValue \<times> JsonParser"
  and parse_array :: "JsonLimits \<Rightarrow> usize \<Rightarrow> JsonParser \<Rightarrow> JsonError + JsonValue \<times> JsonParser"
  and parse_elements ::
    "JsonLimits \<Rightarrow> usize \<Rightarrow> JsonValue list \<Rightarrow> JsonParser \<Rightarrow> JsonError + JsonValue list \<times> JsonParser"
  and parse_object :: "JsonLimits \<Rightarrow> usize \<Rightarrow> JsonParser \<Rightarrow> JsonError + JsonValue \<times> JsonParser"
  and parse_members ::
    "JsonLimits \<Rightarrow> usize \<Rightarrow> JsonEntries \<Rightarrow> JsonParser \<Rightarrow> JsonError + JsonEntries \<times> JsonParser"
where
  "parse_value limits depth p =
     (if depth > jl_max_depth limits then Inl (parser_error p (DepthExceeded (jl_max_depth limits)))
      else
      let p = p\<lparr>jp_nodes := min (Suc (jp_nodes p)) (2 ^ 64 - 1)\<rparr> in
      if jp_nodes p > jl_max_nodes limits then Inl (parser_error p (NodeCountExceeded (jl_max_nodes limits)))
      else
      let p = skip_whitespace p in
      case jp_rest p of
        [] \<Rightarrow> Inl (parser_error p UnexpectedEnd)
      | b # _ \<Rightarrow>
          if b = 110 then tryE (consume_literal (bytes_of ''null'') p) (\<lambda>p. Inr (JsonNull, p))
          else if b = 116 then tryE (consume_literal (bytes_of ''true'') p) (\<lambda>p. Inr (JsonBool True, p))
          else if b = 102 then tryE (consume_literal (bytes_of ''false'') p) (\<lambda>p. Inr (JsonBool False, p))
          else if b = 34 then tryE (parse_string limits p) (\<lambda>(s, p). Inr (JsonString s, p))
          else if b = 91 then parse_array limits depth p
          else if b = 123 then parse_object limits depth p
          else if b = 45 \<or> is_ascii_digit b then parse_number p
          else Inl (parser_error p (UnexpectedByte b)))"
| "parse_array limits depth p =
     (let p = skip_whitespace (skip_bytes 1 p) in
      case consume_if 93 p of
        Some p \<Rightarrow> Inr (JsonArray [], p)
      | None \<Rightarrow> tryE (parse_elements limits depth [] p) (\<lambda>(values, p). Inr (JsonArray values, p)))"
| "parse_elements limits depth values p =
     (if length values \<ge> jl_max_collection_len limits
      then Inl (parser_error p (CollectionLengthExceeded (jl_max_collection_len limits)))
      else
      tryE (parse_value limits (Suc depth) p) (\<lambda>(v, p).
      let values = values @ [v]; p = skip_whitespace p in
      case consume_if 93 p of
        Some p \<Rightarrow> Inr (values, p)
      | None \<Rightarrow> tryE (expect_byte 44 p) (\<lambda>p. parse_elements limits depth values (skip_whitespace p))))"
| "parse_object limits depth p =
     (let p = skip_whitespace (skip_bytes 1 p) in
      case consume_if 125 p of
        Some p \<Rightarrow> Inr (JsonObject [], p)
      | None \<Rightarrow> tryE (parse_members limits depth [] p) (\<lambda>(entries, p). Inr (JsonObject entries, p)))"
| "parse_members limits depth entries p =
     (if length entries \<ge> jl_max_collection_len limits
      then Inl (parser_error p (CollectionLengthExceeded (jl_max_collection_len limits)))
      else
      case jp_rest p of
        [] \<Rightarrow> Inl (parser_error p UnexpectedEnd)
      | b # _ \<Rightarrow>
      if b \<noteq> 34 then Inl (parser_error p (UnexpectedByte b))
      else
      let key_offset = jp_offset p in
      tryE (parse_string limits p) (\<lambda>(key, p).
      tryE (expect_byte 58 (skip_whitespace p)) (\<lambda>p.
      tryE (parse_value limits (Suc depth) (skip_whitespace p)) (\<lambda>(v, p).
      if map_of entries key \<noteq> None then Inl \<lparr>je_offset = key_offset, je_kind = DuplicateKey key\<rparr>
      else
      let entries' = object_insert key v entries; p = skip_whitespace p in
      case consume_if 125 p of
        Some p \<Rightarrow> Inr (entries', p)
      | None \<Rightarrow> tryE (expect_byte 44 p) (\<lambda>p. parse_members limits depth entries' (skip_whitespace p))))))"
  by pat_completeness auto
termination
  by (relation "inv_image (less_than <*lex*> less_than) parser_measure") (auto simp: parser_measure_def object_insert_new)

declare parse_value.simps [simp del] parse_array.simps [simp del] parse_elements.simps [simp del]
  parse_object.simps [simp del] parse_members.simps [simp del]

definition json_parse :: "u8 list \<Rightarrow> JsonLimits \<Rightarrow> JsonError + JsonValue" where
  "json_parse input limits =
     (if \<not> valid_utf8 input then Inl \<lparr>je_offset = 0, je_kind = InvalidUtf8\<rparr>
      else
      let p = skip_whitespace \<lparr>jp_rest = input, jp_offset = 0, jp_nodes = 0\<rparr> in
      tryE (parse_value limits 0 p) (\<lambda>(v, p).
      let p = skip_whitespace p in
      if jp_rest p \<noteq> [] then Inl (parser_error p TrailingData) else Inr v))"

subsection \<open>The canonical encoder\<close>

text \<open>A vector holds less than \<open>2 ^ 63\<close> bytes, so that the saturating sum of two lengths is their sum.\<close>

definition push_byte :: "usize \<Rightarrow> u8 \<Rightarrow> u8 list \<Rightarrow> JsonEncodeError + u8 list" where
  "push_byte limit b output =
     (if length output \<ge> limit then Inl (OutputLengthExceeded limit) else Inr (output @ [b]))"

definition push_bytes :: "usize \<Rightarrow> u8 list \<Rightarrow> u8 list \<Rightarrow> JsonEncodeError + u8 list" where
  "push_bytes limit bytes output =
     (if length output + length bytes > limit then Inl (OutputLengthExceeded limit) else Inr (output @ bytes))"

definition hex_digit :: "u8 \<Rightarrow> u8" where
  "hex_digit n = (if n \<le> 9 then 48 + n else 97 + n - 10)"

fun decimal_digits :: "nat \<Rightarrow> u8 list" where
  "decimal_digits n =
     (if n < 10 then [48 + of_nat n] else decimal_digits (n div 10) @ [48 + of_nat (n mod 10)])"

declare decimal_digits.simps [simp del]

text \<open>\<open>i64::to_string\<close>\<close>

definition integer_digits :: "int \<Rightarrow> u8 list" where
  "integer_digits n = (if n < 0 then 45 # decimal_digits (nat (- n)) else decimal_digits (nat n))"

text \<open>What the encoder writes for a character, given by its bytes.\<close>

definition escape_char :: "utf8 \<Rightarrow> u8 list" where
  "escape_char cs = (case cs of
       [b] \<Rightarrow>
         if b = 34 then [92, 34]
         else if b = 92 then [92, 92]
         else if b = 8 then [92, 98]
         else if b = 12 then [92, 102]
         else if b = 10 then [92, 110]
         else if b = 13 then [92, 114]
         else if b = 9 then [92, 116]
         else if b \<le> 0x1f then [92, 117, 48, 48, hex_digit (drop_bit 4 b AND 0x0f), hex_digit (b AND 0x0f)]
         else [b]
     | _ \<Rightarrow> cs)"

function encode_chars :: "usize \<Rightarrow> utf8 \<Rightarrow> u8 list \<Rightarrow> JsonEncodeError + u8 list" where
  "encode_chars limit s output = (case s of
       [] \<Rightarrow> Inr output
     | b # _ \<Rightarrow>
         tryE (push_bytes limit (escape_char (take (char_width b) s)) output)
           (encode_chars limit (drop (char_width b) s)))"
  by pat_completeness auto
termination
  by (relation "measure (\<lambda>(_, s, _). length s)") (auto simp: char_width_def)

declare encode_chars.simps [simp del]

definition encode_string :: "usize \<Rightarrow> utf8 \<Rightarrow> u8 list \<Rightarrow> JsonEncodeError + u8 list" where
  "encode_string limit s output =
     tryE (push_byte limit 34 output) (\<lambda>output.
     tryE (encode_chars limit s output) (push_byte limit 34))"

fun encode_value :: "usize \<Rightarrow> JsonValue \<Rightarrow> u8 list \<Rightarrow> JsonEncodeError + u8 list"
  and encode_elements :: "usize \<Rightarrow> usize \<Rightarrow> JsonValue list \<Rightarrow> u8 list \<Rightarrow> JsonEncodeError + u8 list"
  and encode_members :: "usize \<Rightarrow> usize \<Rightarrow> JsonEntries \<Rightarrow> u8 list \<Rightarrow> JsonEncodeError + u8 list"
where
  "encode_value limit JsonNull output = push_bytes limit (bytes_of ''null'') output"
| "encode_value limit (JsonBool b) output = push_bytes limit (bytes_of (if b then ''true'' else ''false'')) output"
| "encode_value limit (JsonInteger n) output = push_bytes limit (integer_digits n) output"
| "encode_value limit (JsonUnsigned n) output = push_bytes limit (decimal_digits (unat n)) output"
| "encode_value limit (JsonString s) output = encode_string limit s output"
| "encode_value limit (JsonArray values) output =
     tryE (push_byte limit 91 output) (\<lambda>output.
     tryE (encode_elements limit 0 values output) (push_byte limit 93))"
| "encode_value limit (JsonObject entries) output =
     tryE (push_byte limit 123 output) (\<lambda>output.
     tryE (encode_members limit 0 entries output) (push_byte limit 125))"
| "encode_elements limit index [] output = Inr output"
| "encode_elements limit index (v # values) output =
     tryE (if index \<noteq> 0 then push_byte limit 44 output else Inr output) (\<lambda>output.
     tryE (encode_value limit v output) (encode_elements limit (Suc index) values))"
| "encode_members limit index [] output = Inr output"
| "encode_members limit index ((key, v) # entries) output =
     tryE (if index \<noteq> 0 then push_byte limit 44 output else Inr output) (\<lambda>output.
     tryE (encode_string limit key output) (\<lambda>output.
     tryE (push_byte limit 58 output) (\<lambda>output.
     tryE (encode_value limit v output) (encode_members limit (Suc index) entries))))"

definition to_canonical_bytes :: "JsonValue \<Rightarrow> usize \<Rightarrow> JsonEncodeError + u8 list" where
  "to_canonical_bytes v max_output_bytes = encode_value max_output_bytes v []"

end
