(* ===== verification/Jwt.thy ===== *)
theory Jwt
  imports Base64url Json "HOL-Library.Finite_Map"
begin

text \<open>
  The strict HS256 token codec (\<open>crates/trnm-token-jwt-adapter/src/jwt\<close>, \<open>sha256.rs\<close>): key ring,
  verification profile, issue and verification of tokens and the validation of their claims. A
  token is its bytes. The HMAC of the \<open>hmac\<close> crate is the argument \<open>mac\<close>, of a key and a message;
  claims are the ordered entries of a JSON object, times are signed 64-bit seconds: integers, as
  the sums with the clock skew are computed in 128 bits and cannot overflow.
\<close>

subsection \<open>Keys\<close>

definition EPOCH_KEY_ID_PREFIX :: utf8 where "EPOCH_KEY_ID_PREFIX = bytes_of ''trnm-kep-v1:''"
definition JWT_SIGNATURE_BYTES :: usize where "JWT_SIGNATURE_BYTES = 32"
definition JWT_MINIMUM_KEY_BYTES :: usize where "JWT_MINIMUM_KEY_BYTES = 16"
definition JWT_MAXIMUM_KEY_BYTES :: usize where "JWT_MAXIMUM_KEY_BYTES = 4096"

datatype TokenRoute = RouteLegacy | RouteEpoch u32

datatype JwtError =
    InvalidProfile
  | InvalidKeyLength usize usize usize
  | InvalidKeyEpoch | ActiveEpochUnavailable
  | TokenTooLarge usize usize
  | SegmentCount | EmptySegment
  | HeaderBase64 Base64UrlError
  | PayloadBase64 Base64UrlError
  | SignatureBase64 Base64UrlError
  | HeaderJson JsonError
  | PayloadJson JsonError
  | HeaderEncode JsonEncodeError
  | PayloadEncode JsonEncodeError
  | HeaderNotObject | PayloadNotObject
  | UnknownHeaderField utf8
  | CriticalHeaderForbidden | AlgorithmMissing
  | UnsupportedAlgorithm utf8
  | InvalidTypeHeader | InvalidKeyId
  | UnknownKeyEpoch u32
  | LegacyRouteForbidden | LegacyKeyUnavailable
  | SignatureLength usize
  | SignatureMismatch | EpochClaimMissing
  | EpochClaimMismatch u32 u64
  | EpochClaimOnLegacyRoute
  | MissingClaim utf8
  | InvalidClaimType utf8
  | EmptyClaim utf8
  | ClaimLengthExceeded utf8 usize
  | InvalidNumericDate utf8
  | TokenExpired int int
  | NotYetValid int int
  | IssuedInFuture int int
  | InvalidLifetime
  | LifetimeExceeded u64 u64
  | IssuerMismatch | AudienceMismatch | InvalidAudience
  | VariableCountExceeded usize
  | InvalidVariableValue utf8

type_synonym SecretKey = "u8 list"

definition SecretKey_new :: "u8 list \<Rightarrow> JwtError + SecretKey" where
  "SecretKey_new bytes =
     (if \<not> (JWT_MINIMUM_KEY_BYTES \<le> length bytes \<and> length bytes \<le> JWT_MAXIMUM_KEY_BYTES)
      then Inl (InvalidKeyLength JWT_MINIMUM_KEY_BYTES JWT_MAXIMUM_KEY_BYTES (length bytes))
      else Inr bytes)"

record JwtKeyRing =
  jk_legacy :: "SecretKey option"
  jk_epoch_keys :: "(u32, SecretKey) fmap"
  jk_active_epoch :: "u32 option"

definition JwtKeyRing_default :: JwtKeyRing where
  "JwtKeyRing_default = \<lparr>jk_legacy = None, jk_epoch_keys = fmempty, jk_active_epoch = None\<rparr>"

definition set_legacy_key :: "SecretKey \<Rightarrow> JwtKeyRing \<Rightarrow> JwtKeyRing" where
  "set_legacy_key key ring = ring\<lparr>jk_legacy := Some key\<rparr>"

definition clear_legacy_key :: "JwtKeyRing \<Rightarrow> JwtKeyRing" where
  "clear_legacy_key ring = ring\<lparr>jk_legacy := None\<rparr>"

definition insert_epoch_key :: "u32 \<Rightarrow> SecretKey \<Rightarrow> JwtKeyRing \<Rightarrow> JwtKeyRing \<times> (JwtError + unit)" where
  "insert_epoch_key epoch key ring =
     (if epoch = 0 then (ring, Inl InvalidKeyEpoch)
      else (ring\<lparr>jk_epoch_keys := fmupd epoch key (jk_epoch_keys ring)\<rparr>, Inr ()))"

definition remove_epoch_key :: "u32 \<Rightarrow> JwtKeyRing \<Rightarrow> JwtKeyRing" where
  "remove_epoch_key epoch ring =
     (let ring = ring\<lparr>jk_epoch_keys := fmdrop epoch (jk_epoch_keys ring)\<rparr>
      in if jk_active_epoch ring = Some epoch then ring\<lparr>jk_active_epoch := None\<rparr> else ring)"

definition set_active_epoch :: "u32 \<Rightarrow> JwtKeyRing \<Rightarrow> JwtKeyRing \<times> (JwtError + unit)" where
  "set_active_epoch epoch ring =
     (if fmlookup (jk_epoch_keys ring) epoch = None then (ring, Inl (UnknownKeyEpoch epoch))
      else (ring\<lparr>jk_active_epoch := Some epoch\<rparr>, Inr ()))"

definition key_for_route :: "JwtKeyRing \<Rightarrow> TokenRoute \<Rightarrow> JwtError + SecretKey" where
  "key_for_route ring route = (case route of
       RouteLegacy \<Rightarrow> ok_or LegacyKeyUnavailable (jk_legacy ring)
     | RouteEpoch epoch \<Rightarrow> ok_or (UnknownKeyEpoch epoch) (fmlookup (jk_epoch_keys ring) epoch))"

subsection \<open>Profiles\<close>

record ClaimMapping =
  cm_subject :: utf8
  cm_username :: "utf8 option"
  cm_variables :: "utf8 option"
  cm_token_id :: "utf8 option"
  cm_key_epoch :: utf8

definition ClaimMapping_standard :: ClaimMapping where
  "ClaimMapping_standard = \<lparr>cm_subject = bytes_of ''sub'', cm_username = Some (bytes_of ''preferred_username''),
     cm_variables = Some (bytes_of ''vrs''), cm_token_id = Some (bytes_of ''jti''), cm_key_epoch = bytes_of ''trnm_kep''\<rparr>"

definition ClaimMapping_uid_legacy :: ClaimMapping where
  "ClaimMapping_uid_legacy = \<lparr>cm_subject = bytes_of ''uid'', cm_username = Some (bytes_of ''usn''),
     cm_variables = Some (bytes_of ''vrs''), cm_token_id = Some (bytes_of ''tid''), cm_key_epoch = bytes_of ''trnm_kep''\<rparr>"

record VerificationProfile =
  vf_max_token_bytes :: usize
  vf_max_header_bytes :: usize
  vf_max_payload_bytes :: usize
  vf_json_limits :: JsonLimits
  vf_clock_skew_seconds :: int
  vf_max_lifetime_seconds :: "u64 option"
  vf_require_expiration :: bool
  vf_require_issued_at :: bool
  vf_require_username :: bool
  vf_required_issuer :: "utf8 option"
  vf_required_audience :: "utf8 option"
  vf_allow_legacy_without_key_id :: bool
  vf_reject_unknown_header_fields :: bool
  vf_require_epoch_claim :: bool
  vf_max_subject_bytes :: usize
  vf_max_username_bytes :: usize
  vf_max_token_id_bytes :: usize
  vf_max_variables :: usize
  vf_max_variable_key_bytes :: usize
  vf_max_variable_value_bytes :: usize
  vf_claims :: ClaimMapping

definition VerificationProfile_default :: VerificationProfile where
  "VerificationProfile_default = \<lparr>vf_max_token_bytes = 32 * 1024, vf_max_header_bytes = 1024,
     vf_max_payload_bytes = 16 * 1024, vf_json_limits = JsonLimits_default, vf_clock_skew_seconds = 30,
     vf_max_lifetime_seconds = Some (30 * 24 * 60 * 60), vf_require_expiration = True,
     vf_require_issued_at = True, vf_require_username = False, vf_required_issuer = None,
     vf_required_audience = None, vf_allow_legacy_without_key_id = True,
     vf_reject_unknown_header_fields = True, vf_require_epoch_claim = True,
     vf_max_subject_bytes = 256, vf_max_username_bytes = 256, vf_max_token_id_bytes = 256,
     vf_max_variables = 64, vf_max_variable_key_bytes = 128, vf_max_variable_value_bytes = 4096,
     vf_claims = ClaimMapping_standard\<rparr>"

definition check_claim_name :: "utf8 \<Rightarrow> utf8 fset \<Rightarrow> JwtError + utf8 fset" where
  "check_claim_name name names =
     (if name = [] \<or> name |\<in>| names then Inl InvalidProfile else Inr (finsert name names))"

definition claim_names :: "ClaimMapping \<Rightarrow> utf8 list" where
  "claim_names m = List.map_filter id
     [Some (cm_subject m), cm_username m, cm_variables m, cm_token_id m, Some (cm_key_epoch m)]"

definition profile_validate :: "VerificationProfile \<Rightarrow> JwtError + unit" where
  "profile_validate p =
     (if vf_max_token_bytes p = 0 \<or> vf_max_header_bytes p = 0 \<or> vf_max_payload_bytes p = 0 \<or>
         vf_max_subject_bytes p = 0 \<or> vf_max_username_bytes p = 0 \<or> vf_max_token_id_bytes p = 0 \<or>
         vf_max_variable_key_bytes p = 0 \<or> vf_max_variable_value_bytes p = 0 \<or> vf_clock_skew_seconds p < 0
      then Inl InvalidProfile
      else tryE (foldE check_claim_name (claim_names (vf_claims p)) {||}) (\<lambda>_. Inr ()))"

subsection \<open>Claims\<close>

record VerifiedPrincipal =
  pn_subject :: utf8
  pn_username :: "utf8 option"
  pn_variables :: "(utf8 \<times> utf8) list"
  pn_token_id :: "utf8 option"

record ValidatedClaims =
  vc_principal :: VerifiedPrincipal
  vc_issued_at :: "int option"
  vc_not_before :: "int option"
  vc_expires_at :: "int option"
  vc_issuer :: "utf8 option"
  vc_audiences :: "utf8 list"

definition required_string :: "JsonEntries \<Rightarrow> utf8 \<Rightarrow> usize \<Rightarrow> JwtError + utf8" where
  "required_string object name limit =
     tryE (ok_or (MissingClaim name) (map_of object name)) (\<lambda>v.
     tryE (ok_or (InvalidClaimType name) (as_str v)) (\<lambda>s.
     if length s > limit then Inl (ClaimLengthExceeded name limit) else Inr s))"

definition optional_string :: "JsonEntries \<Rightarrow> utf8 \<Rightarrow> JwtError + utf8 option" where
  "optional_string object name = (case map_of object name of
       None \<Rightarrow> Inr None
     | Some v \<Rightarrow> ok_or (InvalidClaimType name) (map_option Some (as_str v)))"

definition bounded_required_string :: "JsonEntries \<Rightarrow> utf8 \<Rightarrow> usize \<Rightarrow> JwtError + utf8" where
  "bounded_required_string object name limit =
     tryE (required_string object name limit) (\<lambda>s. if s = [] then Inl (EmptyClaim name) else Inr s)"

definition bounded_optional_string :: "JsonEntries \<Rightarrow> utf8 \<Rightarrow> usize \<Rightarrow> JwtError + utf8 option" where
  "bounded_optional_string object name limit = (case map_of object name of
       None \<Rightarrow> Inr None
     | Some v \<Rightarrow>
         tryE (ok_or (InvalidClaimType name) (as_str v)) (\<lambda>s.
         if s = [] then Inl (EmptyClaim name)
         else if length s > limit then Inl (ClaimLengthExceeded name limit)
         else Inr (Some s)))"

definition numeric_date :: "JsonEntries \<Rightarrow> utf8 \<Rightarrow> bool \<Rightarrow> JwtError + int option" where
  "numeric_date claims name required = (case map_of claims name of
       None \<Rightarrow> if required then Inl (MissingClaim name) else Inr None
     | Some v \<Rightarrow> (case as_i64 v of
           Some n \<Rightarrow> if n \<ge> 0 then Inr (Some n) else Inl (InvalidNumericDate name)
         | None \<Rightarrow> Inl (InvalidNumericDate name)))"

definition validate_audience :: "JsonValue option \<Rightarrow> JwtError + utf8 list" where
  "validate_audience v = (case v of
       None \<Rightarrow> Inr []
     | Some v \<Rightarrow>
         tryE (case v of
             JsonString s \<Rightarrow> Inr [s]
           | JsonArray vs \<Rightarrow> ok_or InvalidAudience (those (map as_str vs))
           | _ \<Rightarrow> Inl InvalidAudience) (\<lambda>values.
         if list_ex (\<lambda>s. s = []) values then Inl InvalidAudience
         else if \<not> distinct values then Inl InvalidAudience
         else Inr values))"

definition check_variable :: "VerificationProfile \<Rightarrow> utf8 \<times> JsonValue \<Rightarrow> JwtError + utf8 \<times> utf8" where
  "check_variable profile = (\<lambda>(key, v).
     if key = [] \<or> length key > vf_max_variable_key_bytes profile \<or> as_str v = None
     then Inl (InvalidVariableValue key)
     else
     let s = the (as_str v) in
     if length s > vf_max_variable_value_bytes profile then Inl (InvalidVariableValue key) else Inr (key, s))"

text \<open>The variables come in the order of their keys, so that the map that collects them is their list.\<close>

definition validate_variables :: "JsonEntries \<Rightarrow> VerificationProfile \<Rightarrow> JwtError + (utf8 \<times> utf8) list" where
  "validate_variables claims profile = (case cm_variables (vf_claims profile) of
       None \<Rightarrow> Inr []
     | Some name \<Rightarrow> (case map_of claims name of
         None \<Rightarrow> Inr []
       | Some v \<Rightarrow>
           tryE (ok_or (InvalidClaimType name) (as_object v)) (\<lambda>object.
           if length object > vf_max_variables profile
           then Inl (VariableCountExceeded (vf_max_variables profile))
           else mapE (check_variable profile) object)))"

definition validate_epoch_claim :: "JsonEntries \<Rightarrow> TokenRoute \<Rightarrow> VerificationProfile \<Rightarrow> JwtError + unit" where
  "validate_epoch_claim claims route profile =
     (let name = cm_key_epoch (vf_claims profile) in
      case (route, map_of claims name) of
        (RouteLegacy, Some _) \<Rightarrow> Inl EpochClaimOnLegacyRoute
      | (RouteLegacy, None) \<Rightarrow> Inr ()
      | (RouteEpoch header, None) \<Rightarrow> if vf_require_epoch_claim profile then Inl EpochClaimMissing else Inr ()
      | (RouteEpoch header, Some v) \<Rightarrow>
          tryE (ok_or (InvalidClaimType name) (as_u64 v)) (\<lambda>payload.
          if payload \<noteq> ucast header then Inl (EpochClaimMismatch header payload) else Inr ()))"

definition validate_username :: "JsonEntries \<Rightarrow> VerificationProfile \<Rightarrow> JwtError + utf8 option" where
  "validate_username claims profile = (case cm_username (vf_claims profile) of
       Some name \<Rightarrow>
         if vf_require_username profile
         then tryE (bounded_required_string claims name (vf_max_username_bytes profile)) (\<lambda>s. Inr (Some s))
         else bounded_optional_string claims name (vf_max_username_bytes profile)
     | None \<Rightarrow> if vf_require_username profile then Inl InvalidProfile else Inr None)"

definition validate_times ::
    "VerificationProfile \<Rightarrow> int \<Rightarrow> int option \<Rightarrow> int option \<Rightarrow> int option \<Rightarrow> JwtError + unit" where
  "validate_times profile now expires_at issued_at not_before =
     (let skew = vf_clock_skew_seconds profile in
      tryE (case expires_at of
          Some t \<Rightarrow> if now \<ge> t + skew then Inl (TokenExpired t now) else Inr ()
        | None \<Rightarrow> Inr ()) (\<lambda>_.
      tryE (case not_before of
          Some t \<Rightarrow> if now + skew < t then Inl (NotYetValid t now) else Inr ()
        | None \<Rightarrow> Inr ()) (\<lambda>_.
      tryE (case issued_at of
          Some t \<Rightarrow> if now + skew < t then Inl (IssuedInFuture t now) else Inr ()
        | None \<Rightarrow> Inr ()) (\<lambda>_.
      case (issued_at, expires_at, vf_max_lifetime_seconds profile) of
        (Some issued, Some expires, Some limit) \<Rightarrow>
          if expires \<le> issued then Inl InvalidLifetime
          else
          let lifetime = (of_int (expires - issued) :: u64) in
          if lifetime > limit then Inl (LifetimeExceeded limit lifetime) else Inr ()
      | _ \<Rightarrow> Inr ()))))"

definition jwt_validate_claims ::
    "JsonEntries \<Rightarrow> TokenRoute \<Rightarrow> VerificationProfile \<Rightarrow> int \<Rightarrow> JwtError + ValidatedClaims" where
  "jwt_validate_claims claims route profile now =
     tryE (validate_epoch_claim claims route profile) (\<lambda>_.
     tryE (bounded_required_string claims (cm_subject (vf_claims profile)) (vf_max_subject_bytes profile)) (\<lambda>subject.
     tryE (validate_username claims profile) (\<lambda>username.
     tryE (case cm_token_id (vf_claims profile) of
         Some name \<Rightarrow> bounded_optional_string claims name (vf_max_token_id_bytes profile)
       | None \<Rightarrow> Inr None) (\<lambda>token_id.
     tryE (validate_variables claims profile) (\<lambda>variables.
     tryE (numeric_date claims (bytes_of ''exp'') (vf_require_expiration profile)) (\<lambda>expires_at.
     tryE (numeric_date claims (bytes_of ''iat'') (vf_require_issued_at profile)) (\<lambda>issued_at.
     tryE (numeric_date claims (bytes_of ''nbf'') False) (\<lambda>not_before.
     tryE (validate_times profile now expires_at issued_at not_before) (\<lambda>_.
     tryE (optional_string claims (bytes_of ''iss'')) (\<lambda>issuer.
     if vf_required_issuer profile \<noteq> None \<and> issuer \<noteq> vf_required_issuer profile then Inl IssuerMismatch
     else
     tryE (validate_audience (map_of claims (bytes_of ''aud''))) (\<lambda>audiences.
     if (case vf_required_audience profile of Some required \<Rightarrow> required \<notin> set audiences | None \<Rightarrow> False)
     then Inl AudienceMismatch
     else
     Inr \<lparr>vc_principal = \<lparr>pn_subject = subject, pn_username = username, pn_variables = variables, pn_token_id = token_id\<rparr>,
          vc_issued_at = issued_at, vc_not_before = not_before, vc_expires_at = expires_at,
          vc_issuer = issuer, vc_audiences = audiences\<rparr>)))))))))))"

subsection \<open>Headers\<close>

definition known_header_field :: "utf8 \<Rightarrow> bool" where
  "known_header_field key \<longleftrightarrow> key = bytes_of ''alg'' \<or> key = bytes_of ''typ'' \<or> key = bytes_of ''kid''"

definition validate_header_fields :: "JsonEntries \<Rightarrow> VerificationProfile \<Rightarrow> JwtError + unit" where
  "validate_header_fields header profile =
     (if map_of header (bytes_of ''crit'') \<noteq> None \<or> map_of header (bytes_of ''b64'') \<noteq> None
      then Inl CriticalHeaderForbidden
      else
      tryE (if vf_reject_unknown_header_fields profile
            then forE (\<lambda>(key, _). if known_header_field key then Inr () else Inl (UnknownHeaderField key)) header
            else Inr ()) (\<lambda>_.
      if map_of header (bytes_of ''alg'') = None then Inl AlgorithmMissing else Inr ()))"

definition strip_prefix :: "utf8 \<Rightarrow> utf8 \<Rightarrow> utf8 option" where
  "strip_prefix prefix s = (if take (length prefix) s = prefix then Some (drop (length prefix) s) else None)"

text \<open>The epoch of a key identity: canonical decimal digits of a nonzero \<open>u32\<close>.\<close>

definition key_id_epoch :: "utf8 \<Rightarrow> u32 option" where
  "key_id_epoch key_id = Option.bind (strip_prefix EPOCH_KEY_ID_PREFIX key_id) (\<lambda>digits.
     if digits = [] \<or> length digits > 1 \<and> take 1 digits = [48] \<or> \<not> list_all is_ascii_digit digits then None
     else if digits_value digits < 2 ^ 32 \<and> digits_value digits \<noteq> 0 then Some (of_nat (digits_value digits))
     else None)"

definition parse_route :: "JsonEntries \<Rightarrow> VerificationProfile \<Rightarrow> JwtError + TokenRoute" where
  "parse_route header profile = (case map_of header (bytes_of ''kid'') of
       None \<Rightarrow> if vf_allow_legacy_without_key_id profile then Inr RouteLegacy else Inl LegacyRouteForbidden
     | Some (JsonString key_id) \<Rightarrow> ok_or InvalidKeyId (map_option RouteEpoch (key_id_epoch key_id))
     | Some _ \<Rightarrow> Inl InvalidKeyId)"

definition check_header :: "JsonEntries \<Rightarrow> VerificationProfile \<Rightarrow> JwtError + TokenRoute" where
  "check_header header profile =
     tryE (validate_header_fields header profile) (\<lambda>_.
     tryE (required_string header (bytes_of ''alg'') (vf_max_header_bytes profile)) (\<lambda>algorithm.
     if algorithm \<noteq> bytes_of ''HS256'' then Inl (UnsupportedAlgorithm algorithm)
     else if (case map_of header (bytes_of ''typ'') of
         Some v \<Rightarrow> as_str v \<noteq> Some (bytes_of ''JWT'') | None \<Rightarrow> False) then Inl InvalidTypeHeader
     else parse_route header profile))"

subsection \<open>Verification\<close>

record VerifiedJwt =
  vj_route :: TokenRoute
  vj_principal :: VerifiedPrincipal
  vj_issued_at :: "int option"
  vj_not_before :: "int option"
  vj_expires_at :: "int option"
  vj_issuer :: "utf8 option"
  vj_audiences :: "utf8 list"
  vj_claims :: JsonValue

definition hmac_sha256 :: "(u8 list \<Rightarrow> u8 list \<Rightarrow> u8 list) \<Rightarrow> u8 list \<Rightarrow> u8 list list \<Rightarrow> u8 list" where
  "hmac_sha256 mac key chunks = mac key (concat chunks)"

definition jwt_constant_time_eq :: "u8 list \<Rightarrow> u8 list \<Rightarrow> bool" where
  "jwt_constant_time_eq left right \<longleftrightarrow> length left = length right \<and> left = right"

text \<open>\<open>str::split\<close> at a separator.\<close>

fun split_at :: "u8 \<Rightarrow> u8 list \<Rightarrow> u8 list list" where
  "split_at sep [] = [[]]"
| "split_at sep (b # bs) =
     (if b = sep then [] # split_at sep bs
      else (case split_at sep bs of s # ss \<Rightarrow> (b # s) # ss | [] \<Rightarrow> [[b]]))"

definition token_segments :: "u8 list \<Rightarrow> JwtError + u8 list \<times> u8 list \<times> u8 list" where
  "token_segments token = (case split_at 46 token of
       [header, payload, signature] \<Rightarrow>
         if header = [] \<or> payload = [] \<or> signature = [] then Inl EmptySegment
         else Inr (header, payload, signature)
     | _ \<Rightarrow> Inl SegmentCount)"

definition verify_signature ::
    "(u8 list \<Rightarrow> u8 list \<Rightarrow> u8 list) \<Rightarrow> SecretKey \<Rightarrow> u8 list \<Rightarrow> u8 list \<Rightarrow> u8 list \<Rightarrow> JwtError + unit" where
  "verify_signature mac key header_segment payload_segment signature_segment =
     tryE (map_err SignatureBase64 (base64url_decode signature_segment JWT_SIGNATURE_BYTES)) (\<lambda>signature.
     if length signature \<noteq> JWT_SIGNATURE_BYTES then Inl (SignatureLength (length signature))
     else if \<not> jwt_constant_time_eq signature (hmac_sha256 mac key [header_segment, [46], payload_segment])
     then Inl SignatureMismatch else Inr ())"

definition jwt_verify ::
    "(u8 list \<Rightarrow> u8 list \<Rightarrow> u8 list) \<Rightarrow> u8 list \<Rightarrow> JwtKeyRing \<Rightarrow> VerificationProfile \<Rightarrow> int \<Rightarrow> JwtError + VerifiedJwt" where
  "jwt_verify mac token keys profile now =
     tryE (profile_validate profile) (\<lambda>_.
     if length token > vf_max_token_bytes profile
     then Inl (TokenTooLarge (vf_max_token_bytes profile) (length token))
     else
     tryE (token_segments token) (\<lambda>(header_segment, payload_segment, signature_segment).
     tryE (map_err HeaderBase64 (base64url_decode header_segment (vf_max_header_bytes profile))) (\<lambda>header_bytes.
     tryE (map_err HeaderJson (json_parse header_bytes (vf_json_limits profile))) (\<lambda>header.
     tryE (ok_or HeaderNotObject (as_object header)) (\<lambda>header_object.
     tryE (check_header header_object profile) (\<lambda>route.
     tryE (key_for_route keys route) (\<lambda>key.
     tryE (verify_signature mac key header_segment payload_segment signature_segment) (\<lambda>_.
     tryE (map_err PayloadBase64 (base64url_decode payload_segment (vf_max_payload_bytes profile))) (\<lambda>payload_bytes.
     tryE (map_err PayloadJson (json_parse payload_bytes (vf_json_limits profile))) (\<lambda>claims.
     tryE (ok_or PayloadNotObject (as_object claims)) (\<lambda>claims_object.
     tryE (jwt_validate_claims claims_object route profile now) (\<lambda>validated.
     Inr \<lparr>vj_route = route, vj_principal = vc_principal validated, vj_issued_at = vc_issued_at validated,
          vj_not_before = vc_not_before validated, vj_expires_at = vc_expires_at validated,
          vj_issuer = vc_issuer validated, vj_audiences = vc_audiences validated, vj_claims = claims\<rparr>))))))))))))"

subsection \<open>Issue\<close>

definition token_header :: "TokenRoute \<Rightarrow> JsonEntries" where
  "token_header route =
     (let header = object_insert (bytes_of ''typ'') (JsonString (bytes_of ''JWT''))
                     (object_insert (bytes_of ''alg'') (JsonString (bytes_of ''HS256'')) [])
      in case route of
        RouteLegacy \<Rightarrow> header
      | RouteEpoch epoch \<Rightarrow>
          object_insert (bytes_of ''kid'') (JsonString (EPOCH_KEY_ID_PREFIX @ decimal_digits (unat epoch))) header)"

definition issue_with_route ::
    "(u8 list \<Rightarrow> u8 list \<Rightarrow> u8 list) \<Rightarrow> JsonValue \<Rightarrow> TokenRoute \<Rightarrow> SecretKey \<Rightarrow> VerificationProfile \<Rightarrow> JwtError + u8 list" where
  "issue_with_route mac claims route key profile =
     tryE (map_err HeaderEncode (to_canonical_bytes (JsonObject (token_header route)) (vf_max_header_bytes profile)))
       (\<lambda>header_bytes.
     tryE (map_err PayloadEncode (to_canonical_bytes claims (vf_max_payload_bytes profile))) (\<lambda>payload_bytes.
     let header_segment = base64url_encode header_bytes;
         payload_segment = base64url_encode payload_bytes;
         signature = hmac_sha256 mac key [header_segment, [46], payload_segment];
         token = header_segment @ 46 # payload_segment @ 46 # base64url_encode signature
     in if length token > vf_max_token_bytes profile
        then Inl (TokenTooLarge (vf_max_token_bytes profile) (length token)) else Inr token))"

definition issue_legacy ::
    "(u8 list \<Rightarrow> u8 list \<Rightarrow> u8 list) \<Rightarrow> JsonValue \<Rightarrow> SecretKey \<Rightarrow> VerificationProfile \<Rightarrow> JwtError + u8 list" where
  "issue_legacy mac claims key profile =
     tryE (profile_validate profile) (\<lambda>_.
     tryE (ok_or PayloadNotObject (as_object claims)) (\<lambda>object.
     if map_of object (cm_key_epoch (vf_claims profile)) \<noteq> None then Inl EpochClaimOnLegacyRoute
     else issue_with_route mac claims RouteLegacy key profile))"

definition with_epoch_claim :: "u32 \<Rightarrow> VerificationProfile \<Rightarrow> JsonEntries \<Rightarrow> JwtError + JsonEntries" where
  "with_epoch_claim epoch profile object =
     (let name = cm_key_epoch (vf_claims profile) in
      case map_of object name of
        Some existing \<Rightarrow>
          tryE (ok_or (InvalidClaimType name) (as_u64 existing)) (\<lambda>payload.
          if payload \<noteq> ucast epoch then Inl (EpochClaimMismatch epoch payload) else Inr object)
      | None \<Rightarrow> Inr (object_insert name (JsonUnsigned (ucast epoch)) object))"

definition issue_epoch ::
    "(u8 list \<Rightarrow> u8 list \<Rightarrow> u8 list) \<Rightarrow> JsonValue \<Rightarrow> u32 \<Rightarrow> SecretKey \<Rightarrow> VerificationProfile \<Rightarrow> JwtError + u8 list" where
  "issue_epoch mac claims epoch key profile =
     tryE (profile_validate profile) (\<lambda>_.
     if epoch = 0 then Inl InvalidKeyEpoch
     else
     tryE (ok_or PayloadNotObject (as_object claims)) (\<lambda>object.
     tryE (with_epoch_claim epoch profile object) (\<lambda>object.
     issue_with_route mac (JsonObject object) (RouteEpoch epoch) key profile)))"

definition ring_issue_legacy ::
    "(u8 list \<Rightarrow> u8 list \<Rightarrow> u8 list) \<Rightarrow> JwtKeyRing \<Rightarrow> JsonValue \<Rightarrow> VerificationProfile \<Rightarrow> JwtError + u8 list" where
  "ring_issue_legacy mac ring claims profile =
     tryE (ok_or LegacyKeyUnavailable (jk_legacy ring)) (\<lambda>key. issue_legacy mac claims key profile)"

definition issue_active_epoch ::
    "(u8 list \<Rightarrow> u8 list \<Rightarrow> u8 list) \<Rightarrow> JwtKeyRing \<Rightarrow> JsonValue \<Rightarrow> VerificationProfile \<Rightarrow> JwtError + u8 list" where
  "issue_active_epoch mac ring claims profile =
     tryE (ok_or ActiveEpochUnavailable (jk_active_epoch ring)) (\<lambda>epoch.
     tryE (ok_or (UnknownKeyEpoch epoch) (fmlookup (jk_epoch_keys ring) epoch)) (\<lambda>key.
     issue_epoch mac claims epoch key profile))"

end
