(* ===== verification/Json_Proofs.thy ===== *)
theory Json_Proofs
  imports Json
begin

unbundle bit_operations_syntax

text \<open>
  The JSON codec: what the encoder writes under its limit, what the parser accepts, and that it
  reads back what the encoder wrote.
\<close>

subsection \<open>What the encoder writes\<close>

function escaped_bytes :: "utf8 \<Rightarrow> u8 list" where
  "escaped_bytes s = (case s of
       [] \<Rightarrow> []
     | b # _ \<Rightarrow> escape_char (take (char_width b) s) @ escaped_bytes (drop (char_width b) s))"
  by pat_completeness auto
termination
  by (relation "measure length") (auto simp: char_width_def)

declare escaped_bytes.simps [simp del]

definition string_bytes :: "utf8 \<Rightarrow> u8 list" where
  "string_bytes s = 34 # escaped_bytes s @ [34]"

fun json_bytes :: "JsonValue \<Rightarrow> u8 list"
  and elements_bytes :: "bool \<Rightarrow> JsonValue list \<Rightarrow> u8 list"
  and members_bytes :: "bool \<Rightarrow> JsonEntries \<Rightarrow> u8 list"
where
  "json_bytes JsonNull = bytes_of ''null''"
| "json_bytes (JsonBool b) = bytes_of (if b then ''true'' else ''false'')"
| "json_bytes (JsonInteger n) = integer_digits n"
| "json_bytes (JsonUnsigned n) = decimal_digits (unat n)"
| "json_bytes (JsonString s) = string_bytes s"
| "json_bytes (JsonArray vs) = 91 # elements_bytes True vs @ [93]"
| "json_bytes (JsonObject es) = 123 # members_bytes True es @ [125]"
| "elements_bytes start [] = []"
| "elements_bytes start (v # vs) = (if start then [] else [44]) @ json_bytes v @ elements_bytes False vs"
| "members_bytes start [] = []"
| "members_bytes start ((k, v) # es) =
     (if start then [] else [44]) @ string_bytes k @ 58 # json_bytes v @ members_bytes False es"

text \<open>\<open>f\<close> appends \<open>bytes\<close> to its output, or finds that they exceed the limit.\<close>

definition writes :: "usize \<Rightarrow> (u8 list \<Rightarrow> JsonEncodeError + u8 list) \<Rightarrow> u8 list \<Rightarrow> bool" where
  "writes limit f bytes \<longleftrightarrow> (\<forall>output. length output \<le> limit \<longrightarrow>
     f output = (if length output + length bytes \<le> limit then Inr (output @ bytes) else Inl (OutputLengthExceeded limit)))"

named_theorems writes_intros

lemma writes_push_bytes [writes_intros]: "writes limit (push_bytes limit bytes) bytes"
  by (simp add: writes_def push_bytes_def)

lemma writes_push_byte [writes_intros]: "writes limit (push_byte limit b) [b]"
  by (simp add: writes_def push_byte_def)

lemma writes_nothing [writes_intros]: "writes limit Inr []"
  by (simp add: writes_def)

lemma writes_seq:
  "writes limit f xs \<Longrightarrow> writes limit g ys \<Longrightarrow> writes limit (\<lambda>output. tryE (f output) g) (xs @ ys)"
  by (auto simp: writes_def)

lemma writes_cong: "writes limit f xs \<Longrightarrow> f = g \<Longrightarrow> xs = ys \<Longrightarrow> writes limit g ys"
  by simp

lemma writes_chars [writes_intros]: "writes limit (encode_chars limit s) (escaped_bytes s)"
proof (induction s rule: escaped_bytes.induct)
  case (1 s)
  show ?case
  proof (cases s)
    case Nil
    then show ?thesis by (simp add: writes_def encode_chars.simps escaped_bytes.simps)
  next
    case (Cons b rest)
    have "writes limit (\<lambda>output. tryE (push_bytes limit (escape_char (take (char_width b) s)) output)
        (encode_chars limit (drop (char_width b) s))) (escape_char (take (char_width b) s) @ escaped_bytes (drop (char_width b) s))"
      using 1 [OF Cons] by (intro writes_seq writes_intros)
    then show ?thesis
      by (rule writes_cong) (simp_all add: fun_eq_iff Cons encode_chars.simps [of _ "b # rest"] escaped_bytes.simps [of "b # rest"])
  qed
qed

lemma writes_string [writes_intros]: "writes limit (encode_string limit s) (string_bytes s)"
  using writes_seq [OF writes_push_byte writes_seq [OF writes_chars writes_push_byte], of limit 34 s 34]
  by (simp add: encode_string_def [abs_def] string_bytes_def)

lemma writes_comma: "writes limit (\<lambda>output. if c then push_byte limit 44 output else Inr output) (if c then [44] else [])"
  by (cases c) (auto intro: writes_push_byte writes_nothing [unfolded id_def])

lemma writes_no_elements [writes_intros]:
  "writes limit (encode_elements limit index []) []" "writes limit (encode_members limit index []) []"
  by (simp_all add: writes_def)

lemma encode_writes:
  "writes limit (encode_value limit v) (json_bytes v)"
  "start = (index = 0) \<Longrightarrow> writes limit (encode_elements limit index vs) (elements_bytes start vs)"
  "start = (index = 0) \<Longrightarrow> writes limit (encode_members limit index es) (members_bytes start es)"
proof (induction v and start vs and start es arbitrary: and index and index
    rule: json_bytes_elements_bytes_members_bytes.induct)
  case (6 vs)
  have "writes limit (encode_elements limit 0 vs) (elements_bytes True vs)" by (rule 6) simp
  from writes_seq [OF writes_push_byte writes_seq [OF this writes_push_byte], of 91 93]
  show ?case by (rule writes_cong) (simp_all add: fun_eq_iff)
next
  case (7 es)
  have "writes limit (encode_members limit 0 es) (members_bytes True es)" by (rule 7) simp
  from writes_seq [OF writes_push_byte writes_seq [OF this writes_push_byte], of 123 125]
  show ?case by (rule writes_cong) (simp_all add: fun_eq_iff)
next
  case (9 start v vs)
  have "writes limit (encode_elements limit (Suc index) vs) (elements_bytes False vs)" by (rule 9) simp
  from writes_seq [OF writes_comma writes_seq [OF 9(1) this], of "index \<noteq> 0"]
  show ?case by (rule writes_cong) (use 9(3) in \<open>simp_all add: fun_eq_iff\<close>)
next
  case (11 start k v es)
  have "writes limit (encode_members limit (Suc index) es) (members_bytes False es)" by (rule 11) simp
  from writes_seq [OF writes_comma writes_seq [OF writes_string writes_seq [OF writes_push_byte writes_seq [OF 11(1) this]]],
      of "index \<noteq> 0" k 58]
  show ?case by (rule writes_cong) (use 11(3) in \<open>simp_all add: fun_eq_iff\<close>)
qed (auto intro: writes_intros)

text \<open>The canonical encoder is the rendering, with its limit on the output.\<close>

lemma to_canonical_bytes_eq:
  "to_canonical_bytes v limit =
     (if length (json_bytes v) \<le> limit then Inr (json_bytes v) else Inl (OutputLengthExceeded limit))"
  using encode_writes(1) [of limit v] by (simp add: to_canonical_bytes_def writes_def)

subsection \<open>Numbers\<close>

lemma digit_byte:
  assumes "n < 10"
  shows "is_ascii_digit (48 + of_nat n :: u8)" "unat (48 + of_nat n - 48 :: u8) = n"
    "n \<noteq> 0 \<Longrightarrow> 49 \<le> (48 + of_nat n :: u8)"
proof -
  have "list_all (\<lambda>n. is_ascii_digit (48 + of_nat n :: u8) \<and> unat (48 + of_nat n - 48 :: u8) = n \<and>
      (n \<noteq> 0 \<longrightarrow> 49 \<le> (48 + of_nat n :: u8))) [0..<10]" by code_simp
  then show "is_ascii_digit (48 + of_nat n :: u8)" "unat (48 + of_nat n - 48 :: u8) = n"
    "n \<noteq> 0 \<Longrightarrow> 49 \<le> (48 + of_nat n :: u8)"
    using assms by (simp_all add: list_all_iff)
qed

lemma digits_value_snoc: "digits_value (ds @ [b]) = digits_value ds * 10 + unat (b - 48)"
  by (simp add: digits_value_def)

lemma decimal_digits_value: "digits_value (decimal_digits n) = n"
proof (induction n rule: less_induct)
  case (less n)
  show ?case
  proof (cases "n < 10")
    case True
    then show ?thesis
      using digit_byte(2) [OF True] by (simp add: decimal_digits.simps [of n] digits_value_def)
  next
    case False
    then have "digits_value (decimal_digits (n div 10)) = n div 10" by (intro less) simp
    then show ?thesis
      using False digit_byte(2) [of "n mod 10"] by (simp add: decimal_digits.simps [of n] digits_value_snoc)
  qed
qed

lemma decimal_digits_all: "list_all is_ascii_digit (decimal_digits n)"
  by (induction n rule: decimal_digits.induct) (simp add: decimal_digits.simps digit_byte(1))

lemma decimal_digits_first:
  "\<exists>d ds. decimal_digits n = d # ds \<and> (if n = 0 then d = 48 \<and> ds = [] else 49 \<le> d)"
proof (induction n rule: less_induct)
  case (less n)
  show ?case
  proof (cases "n < 10")
    case True
    then show ?thesis using digit_byte(3) [OF True] by (simp add: decimal_digits.simps [of n])
  next
    case False
    then obtain d ds where "decimal_digits (n div 10) = d # ds" "49 \<le> d"
      using less [of "n div 10"] by auto
    then show ?thesis using False by (simp add: decimal_digits.simps [of n])
  qed
qed

definition number_end :: "u8 list \<Rightarrow> bool" where
  "number_end tail \<longleftrightarrow> takeWhile is_ascii_digit tail = [] \<and> \<not> starts_float tail"

lemma number_digits_decimal:
  assumes rest: "jp_rest p = decimal_digits n @ tail" and tail: "number_end tail"
  shows "number_digits p = Inr (decimal_digits n)"
proof -
  obtain d ds where d: "decimal_digits n = d # ds" "if n = 0 then d = 48 \<and> ds = [] else 49 \<le> d"
    using decimal_digits_first by blast
  then have "is_ascii_digit d" "list_all is_ascii_digit ds" using decimal_digits_all [of n] by simp_all
  then have "takeWhile is_ascii_digit (ds @ tail) = ds"
    using tail by (simp add: number_end_def takeWhile_append list_all_iff)
  moreover have "d \<noteq> 48" if "49 \<le> d" using that by auto
  ultimately show ?thesis
    using d rest \<open>is_ascii_digit d\<close> by (auto simp: number_digits_def is_ascii_digit_def split: if_splits)
qed

lemma skip_skip [simp]: "skip_bytes m (skip_bytes n p) = skip_bytes (n + m) p"
  by (simp add: skip_bytes_def add.commute)

lemma digit_not_minus: "is_ascii_digit b \<Longrightarrow> b \<noteq> (45 :: u8)"
  by (auto simp: is_ascii_digit_def)

lemma parse_decimal:
  assumes rest: "jp_rest p = decimal_digits n @ tail" and tail: "number_end tail" and n: "n < 2 ^ 64"
  shows "parse_number p = Inr (JsonUnsigned (of_nat n), skip_bytes (length (decimal_digits n)) p)"
proof -
  obtain d ds where d: "decimal_digits n = d # ds" "is_ascii_digit d"
    using decimal_digits_first [of n] decimal_digits_all [of n] by auto
  then have "consume_if 45 p = None" using rest digit_not_minus [OF d(2)] by (simp add: consume_if_def)
  then show ?thesis
    using number_digits_decimal [OF rest tail] rest tail n
    by (simp add: parse_number_def decimal_digits_value number_end_def)
qed

lemma parse_negative:
  assumes rest: "jp_rest p = 45 # decimal_digits n @ tail" and tail: "number_end tail" and n: "n \<le> 2 ^ 63"
  shows "parse_number p = Inr (JsonInteger (- int n), skip_bytes (Suc (length (decimal_digits n))) p)"
proof -
  have "consume_if 45 p = Some (skip_bytes 1 p)" using rest by (simp add: consume_if_def)
  moreover have "number_digits (skip_bytes 1 p) = Inr (decimal_digits n)"
    using rest by (intro number_digits_decimal [OF _ tail]) simp
  ultimately show ?thesis
    using rest tail n by (simp add: parse_number_def decimal_digits_value number_end_def)
qed

subsection \<open>Characters and strings\<close>

lemma valid_utf8_char:
  assumes "valid_utf8 (b # rest)"
  shows "char_width b \<le> Suc (length rest) \<and> valid_utf8 (drop (char_width b) (b # rest)) \<and>
    (\<forall>zs. valid_utf8 (take (char_width b) (b # rest) @ zs) \<longleftrightarrow> valid_utf8 zs)"
proof -
  have order: "0xE0 \<le> b \<Longrightarrow> \<not> b \<le> 0xDF" "0xF0 \<le> b \<Longrightarrow> \<not> b \<le> 0xDF \<and> \<not> b \<le> 0xEF" by unat_arith+
  consider "b < 0x80" | "\<not> b < 0x80" "0xC2 \<le> b" "b \<le> 0xDF" | "\<not> b < 0x80" "0xE0 \<le> b" "b \<le> 0xEF" "\<not> b \<le> 0xDF"
    | "\<not> b < 0x80" "0xF0 \<le> b" "b \<le> 0xF4" "\<not> b \<le> 0xDF" "\<not> b \<le> 0xEF"
    using assms order by (auto split: if_splits)
  then show ?thesis
  proof cases
    case 1
    then show ?thesis using assms by (simp add: char_width_def)
  next
    case 2
    then have "b < 0xE0" by unat_arith
    then have "char_width b = 2" using 2 by (simp add: char_width_def)
    then show ?thesis using assms 2 by (cases rest) simp_all
  next
    case 3
    then have "b < 0xF0" "\<not> b < 0xE0" by unat_arith+
    then have "char_width b = 3" using 3 by (simp add: char_width_def)
    then show ?thesis using assms 3 by (cases rest; cases "tl rest") simp_all
  next
    case 4
    then have "\<not> b < 0xF0" "\<not> b < 0xE0" by unat_arith+
    then have "char_width b = 4" using 4 by (simp add: char_width_def)
    then show ?thesis using assms 4 by (cases rest; cases "tl rest"; cases "tl (tl rest)") simp_all
  qed
qed

lemma escape_hex:
  assumes "b \<le> (0x1f :: u8)"
  shows "foldE (\<lambda>b n. tryE (ok_or e (hex_value b)) (\<lambda>digit. Inr (push_bit 4 n OR digit)))
      [48, 48, hex_digit (drop_bit 4 b AND 0x0f), hex_digit (b AND 0x0f)] 0 = Inr (ucast b :: u16)" (is ?hex)
    and "ucast (ucast b :: u16) = (ucast b :: u32)" "is_scalar (ucast b)" "char_bytes (ucast b) = [b]"
    "\<not> 0xd800 \<le> (ucast b :: u16)" "\<not> 0xdc00 \<le> (ucast b :: u16)"
proof -
  let ?P = "\<lambda>b :: u8.
       (case hex_value 48 of Some z \<Rightarrow> (case hex_value (hex_digit (drop_bit 4 b AND 0x0f)) of Some h \<Rightarrow>
         (case hex_value (hex_digit (b AND 0x0f)) of Some l \<Rightarrow>
            push_bit 4 (push_bit 4 (push_bit 4 (push_bit 4 0 OR z) OR z) OR h) OR l = (ucast b :: u16)
          | None \<Rightarrow> False) | None \<Rightarrow> False) | None \<Rightarrow> False) \<and>
       ucast (ucast b :: u16) = (ucast b :: u32) \<and> is_scalar (ucast b) \<and> char_bytes (ucast b) = [b] \<and>
       \<not> 0xd800 \<le> (ucast b :: u16) \<and> \<not> 0xdc00 \<le> (ucast b :: u16)"
  have "list_all (\<lambda>n. ?P (of_nat n)) [0..<32]" by code_simp
  then have all: "\<forall>n \<in> set [0..<32]. ?P (of_nat n)" by (simp only: list_all_iff)
  have b: "of_nat (unat b) = b" by simp
  have "unat b < 32" using assms by (simp add: word_le_nat_alt)
  then have "unat b \<in> set [0..<32]" by simp
  from bspec [OF all this] have P: "?P b" unfolding b .
  then show "ucast (ucast b :: u16) = (ucast b :: u32)" "is_scalar (ucast b)" "char_bytes (ucast b) = [b]"
    "\<not> 0xd800 \<le> (ucast b :: u16)" "\<not> 0xdc00 \<le> (ucast b :: u16)" by blast+
  obtain z h l where "hex_value 48 = Some z" "hex_value (hex_digit (drop_bit 4 b AND 0x0f)) = Some h"
    "hex_value (hex_digit (b AND 0x0f)) = Some l"
    "push_bit 4 (push_bit 4 (push_bit 4 (push_bit 4 0 OR z) OR z) OR h) OR l = (ucast b :: u16)"
    using conjunct1 [OF P] by (auto split: option.splits)
  then show ?hex by (simp only: foldE.simps tryE_simps ok_or_simps)
qed

lemma parse_hex_escape:
  assumes b: "b \<le> 0x1f" and rest: "jp_rest p = [48, 48, hex_digit (drop_bit 4 b AND 0x0f), hex_digit (b AND 0x0f)] @ tail"
  shows "parse_unicode_escape p = Inr (ucast b, skip_bytes 4 p)"
proof -
  have "take 4 (jp_rest p) = [48, 48, hex_digit (drop_bit 4 b AND 0x0f), hex_digit (b AND 0x0f)]" "\<not> length (jp_rest p) < 4"
    using rest by simp_all
  then have "parse_hex_u16 p = Inr (ucast b, skip_bytes 4 p)"
    unfolding parse_hex_u16_def by (simp only: escape_hex(1) [OF b] if_False tryE_simps)
  then show ?thesis
    using escape_hex(2-6) [OF b] by (simp add: parse_unicode_escape_def)
qed

lemma escape_long: "2 \<le> length cs \<Longrightarrow> escape_char cs = cs"
  by (auto simp: escape_char_def split: list.split)

lemma parse_char_escaped:
  assumes valid: "valid_utf8 (b # s)" and rest: "jp_rest p = escape_char (take (char_width b) (b # s)) @ tail"
  shows "parse_char p = Inr (take (char_width b) (b # s), skip_bytes (length (escape_char (take (char_width b) (b # s)))) p) \<and>
    consume_if 34 p = None"
proof (cases "b < 0x80")
  case True
  then have take: "take (char_width b) (b # s) = [b]" by (simp add: char_width_def)
  show ?thesis
  proof (cases "b \<le> 0x1f")
    case ctrl: True
    show ?thesis
    proof (cases "b = 8 \<or> b = 9 \<or> b = 10 \<or> b = 12 \<or> b = 13")
      case True
      then show ?thesis
        using rest unfolding take
        by (elim disjE) (simp_all add: escape_char_def parse_char_def parse_escape_def consume_if_def Let_def)
    next
      case False
      have "b \<noteq> 34" "b \<noteq> 92" using ctrl by auto
      then have esc: "escape_char [b] = [92, 117, 48, 48, hex_digit (drop_bit 4 b AND 0x0f), hex_digit (b AND 0x0f)]"
        using False ctrl by (simp add: escape_char_def)
      then have "parse_unicode_escape (skip_bytes 2 p) = Inr (ucast b, skip_bytes 4 (skip_bytes 2 p))"
        using rest unfolding take by (intro parse_hex_escape [OF ctrl]) simp
      then have unicode: "parse_unicode_escape (skip_bytes (Suc (Suc 0)) p) = Inr (ucast b, skip_bytes (Suc (Suc (Suc (Suc (Suc (Suc 0)))))) p)"
        by (simp add: eval_nat_numeral)
      then show ?thesis
        using rest escape_hex(4) [OF ctrl] unicode unfolding take esc
        by (simp add: parse_char_def parse_escape_def consume_if_def Let_def)
    qed
  next
    case False
    then show ?thesis
      using rest True unfolding take
      by (auto simp: escape_char_def parse_char_def parse_escape_def consume_if_def char_width_def Let_def)
  qed
next
  case False
  then have "2 \<le> char_width b" by (simp add: char_width_def)
  then have "2 \<le> length (take (char_width b) (b # s))" using valid_utf8_char [OF valid] by auto
  then have esc: "escape_char (take (char_width b) (b # s)) = take (char_width b) (b # s)"
    by (rule escape_long)
  obtain r where r: "take (char_width b) (b # s) = b # r" using \<open>2 \<le> char_width b\<close> by (cases "char_width b") simp_all
  have len: "length (b # r) = char_width b" using valid_utf8_char [OF valid] r [symmetric] by simp
  have "\<not> b \<le> 0x1f" "b \<noteq> 92" "b \<noteq> 34" using False by (auto, unat_arith)
  then show ?thesis
    using rest unfolding r by (simp add: esc [unfolded r] parse_char_def consume_if_def flip: len)
qed

lemma parse_string_loop_escaped:
  assumes "valid_utf8 s" "jp_rest p = escaped_bytes s @ 34 # tail" "length output + length s \<le> jl_max_string_bytes limits"
  shows "parse_string_loop limits output p = Inr (output @ s, skip_bytes (Suc (length (escaped_bytes s))) p)"
  using assms
proof (induction s arbitrary: "output" p rule: escaped_bytes.induct)
  case (1 s)
  show ?case
  proof (cases s)
    case Nil
    then show ?thesis
      using 1(3) by (simp add: parse_string_loop.simps consume_if_def escaped_bytes.simps [of "[]"])
  next
    case (Cons b rest)
    let ?c = "take (char_width b) s" and ?s = "drop (char_width b) s"
    let ?p = "skip_bytes (length (escape_char ?c)) p"
    have bytes: "escaped_bytes s = escape_char ?c @ escaped_bytes ?s"
      using Cons by (subst escaped_bytes.simps) simp
    have char: "parse_char p = Inr (?c, ?p) \<and> consume_if 34 p = None"
      unfolding Cons by (rule parse_char_escaped) (use 1(2,3) Cons bytes in simp_all)
    have len: "length ?c + length ?s = length s" by (simp only: append_take_drop_id flip: length_append)
    have "parse_string_loop limits (output @ ?c) ?p =
        Inr ((output @ ?c) @ ?s, skip_bytes (Suc (length (escaped_bytes ?s))) ?p)"
      using 1(3,4) len bytes valid_utf8_char [of b rest] 1(2) Cons by (intro 1(1) [OF Cons]) simp_all
    then show ?thesis
      using char 1(4) len by (subst parse_string_loop.simps) (simp add: bytes Let_def)
  qed
qed

lemma parse_string_bytes:
  assumes "valid_utf8 s" "jp_rest p = string_bytes s @ tail" "length s \<le> jl_max_string_bytes limits"
  shows "parse_string limits p = Inr (s, skip_bytes (length (string_bytes s)) p)"
proof -
  have "parse_string_loop limits [] (skip_bytes 1 p) = Inr ([] @ s, skip_bytes (Suc (length (escaped_bytes s))) (skip_bytes 1 p))"
    using assms by (intro parse_string_loop_escaped [where tail = tail]) (simp_all add: string_bytes_def)
  then show ?thesis using assms by (simp add: parse_string_def expect_byte_def string_bytes_def)
qed

subsection \<open>Values\<close>

text \<open>The invariant of the values of Rust's type: texts are UTF-8, an \<open>i64\<close> is in its range, keys ascend.\<close>

fun json_ok :: "JsonValue \<Rightarrow> bool" where
  "json_ok (JsonInteger n) \<longleftrightarrow> - (2 ^ 63) \<le> n \<and> n < 2 ^ 63"
| "json_ok (JsonString s) \<longleftrightarrow> valid_utf8 s"
| "json_ok (JsonArray vs) \<longleftrightarrow> (\<forall>v \<in> set vs. json_ok v)"
| "json_ok (JsonObject es) \<longleftrightarrow> sorted_wrt (<) (map fst es) \<and> (\<forall>e \<in> set es. valid_utf8 (fst e) \<and> json_ok (snd e))"
| "json_ok _ \<longleftrightarrow> True"

text \<open>The limits of a parser, and the number of values it counts.\<close>

fun json_within :: "JsonLimits \<Rightarrow> usize \<Rightarrow> JsonValue \<Rightarrow> bool" where
  "json_within limits depth (JsonString s) \<longleftrightarrow> depth \<le> jl_max_depth limits \<and> length s \<le> jl_max_string_bytes limits"
| "json_within limits depth (JsonArray vs) \<longleftrightarrow> depth \<le> jl_max_depth limits \<and> length vs \<le> jl_max_collection_len limits \<and>
     (\<forall>v \<in> set vs. json_within limits (Suc depth) v)"
| "json_within limits depth (JsonObject es) \<longleftrightarrow> depth \<le> jl_max_depth limits \<and> length es \<le> jl_max_collection_len limits \<and>
     (\<forall>e \<in> set es. length (fst e) \<le> jl_max_string_bytes limits \<and> json_within limits (Suc depth) (snd e))"
| "json_within limits depth _ \<longleftrightarrow> depth \<le> jl_max_depth limits"

fun json_nodes :: "JsonValue \<Rightarrow> nat" where
  "json_nodes (JsonArray vs) = Suc (sum_list (map json_nodes vs))"
| "json_nodes (JsonObject es) = Suc (sum_list (map (\<lambda>e. json_nodes (snd e)) es))"
| "json_nodes _ = 1"

text \<open>A nonnegative integer is read back as an unsigned one; everything else is read back as it was.\<close>

fun parsed_form :: "JsonValue \<Rightarrow> JsonValue" where
  "parsed_form (JsonInteger n) = (if n \<ge> 0 then JsonUnsigned (of_int n) else JsonInteger n)"
| "parsed_form (JsonArray vs) = JsonArray (map parsed_form vs)"
| "parsed_form (JsonObject es) = JsonObject (map (\<lambda>e. (fst e, parsed_form (snd e))) es)"
| "parsed_form v = v"

definition parsed :: "usize \<Rightarrow> nat \<Rightarrow> JsonParser \<Rightarrow> JsonParser" where
  "parsed n nodes p = skip_bytes n (p\<lparr>jp_nodes := jp_nodes p + nodes\<rparr>)"

definition parses :: "JsonLimits \<Rightarrow> usize \<Rightarrow> JsonValue \<Rightarrow> bool" where
  "parses limits depth v \<longleftrightarrow> (\<forall>p tail. jp_rest p = json_bytes v @ tail \<longrightarrow> number_end tail \<longrightarrow>
     jp_nodes p + json_nodes v \<le> jl_max_nodes limits \<longrightarrow>
     parse_value limits depth p = Inr (parsed_form v, parsed (length (json_bytes v)) (json_nodes v) p))"

lemma parsed_simps [simp]:
  "jp_rest (parsed n k p) = drop n (jp_rest p)"
  "jp_nodes (parsed n k p) = jp_nodes p + k"
  "parsed n k (parsed m l p) = parsed (m + n) (l + k) p"
  "skip_bytes n (parsed m l p) = parsed (m + n) l p"
  "parsed n k (skip_bytes m p) = parsed (m + n) k p"
  by (simp_all add: parsed_def skip_bytes_def add_ac)

lemma parsed_node: "parsed n k (p\<lparr>jp_nodes := Suc (jp_nodes p)\<rparr>) = parsed n (Suc k) p"
  by (simp add: parsed_def skip_bytes_def)

lemma skip_parsed: "skip_bytes n (p\<lparr>jp_nodes := Suc (jp_nodes p)\<rparr>) = parsed n 1 p"
  by (simp add: parsed_def skip_bytes_def)

lemma skip_whitespace_idle: "jp_rest p = b # r \<Longrightarrow> \<not> json_space b \<Longrightarrow> skip_whitespace p = p"
  by (simp add: skip_whitespace_def skip_bytes_def)

lemma json_spaces: "\<not> json_space 93" "\<not> json_space 125" "\<not> json_space 44" "\<not> json_space 58" "\<not> json_space 34"
  by (simp_all add: json_space_def)

lemma number_ends: "number_end []" "number_end (93 # tail)" "number_end (125 # tail)" "number_end (44 # tail)"
  by (simp_all add: number_end_def starts_float_def is_ascii_digit_def)

lemma digit_bytes:
  assumes "is_ascii_digit (b :: u8)"
  shows "\<not> json_space b \<and> b \<noteq> 93 \<and> b \<noteq> 125 \<and> b \<noteq> 110 \<and> b \<noteq> 116 \<and> b \<noteq> 102 \<and> b \<noteq> 34 \<and> b \<noteq> 91 \<and> b \<noteq> 123"
  using assms by (auto simp: is_ascii_digit_def json_space_def)

lemma json_bytes_first: "\<exists>b r. json_bytes v = b # r \<and> \<not> json_space b \<and> b \<noteq> 93 \<and> b \<noteq> 125"
proof -
  have digits: "\<exists>b r. decimal_digits n = b # r \<and> \<not> json_space b \<and> b \<noteq> 93 \<and> b \<noteq> 125" for n
    using decimal_digits_first [of n] decimal_digits_all [of n] digit_bytes by (metis list.pred_inject(2))
  show ?thesis
    by (cases v) (use digits in \<open>simp_all add: integer_digits_def string_bytes_def bytes_of_def json_space_def\<close>)
qed

text \<open>The dispatch of \<open>parse_value\<close> on the first byte.\<close>

definition parse_byte :: "JsonLimits \<Rightarrow> usize \<Rightarrow> u8 \<Rightarrow> JsonParser \<Rightarrow> JsonError + JsonValue \<times> JsonParser" where
  "parse_byte limits depth b q =
    (if b = 110 then tryE (consume_literal (bytes_of ''null'') q) (\<lambda>p. Inr (JsonNull, p))
     else if b = 116 then tryE (consume_literal (bytes_of ''true'') q) (\<lambda>p. Inr (JsonBool True, p))
     else if b = 102 then tryE (consume_literal (bytes_of ''false'') q) (\<lambda>p. Inr (JsonBool False, p))
     else if b = 34 then tryE (parse_string limits q) (\<lambda>(s, p). Inr (JsonString s, p))
     else if b = 91 then parse_array limits depth q
     else if b = 123 then parse_object limits depth q
     else if b = 45 \<or> is_ascii_digit b then parse_number q
     else Inl (parser_error q (UnexpectedByte b)))"

lemma parse_value_start:
  assumes "depth \<le> jl_max_depth limits" "jp_nodes p < jl_max_nodes limits" "jl_max_nodes limits < 2 ^ 64"
    "jp_rest p = b # r" "\<not> json_space b"
  shows "parse_value limits depth p = parse_byte limits depth b (p\<lparr>jp_nodes := Suc (jp_nodes p)\<rparr>)"
proof -
  let ?q = "p\<lparr>jp_nodes := Suc (jp_nodes p)\<rparr>"
  have "min (Suc (jp_nodes p)) (2 ^ 64 - 1) = Suc (jp_nodes p)" using assms(2,3) by simp
  moreover have "skip_whitespace ?q = ?q" using assms(4,5) by (simp add: skip_whitespace_idle)
  ultimately show ?thesis
    using assms by (simp add: parse_value.simps [of limits depth p] parse_byte_def Let_def del: power_numeral)
qed

lemma parses_number:
  assumes "depth \<le> jl_max_depth limits" "jl_max_nodes limits < 2 ^ 64" "json_ok v" "v = JsonInteger n \<or> v = JsonUnsigned w"
  shows "parses limits depth v"
  unfolding parses_def
proof (intro allI impI)
  fix p :: JsonParser and tail
  assume p: "jp_rest p = json_bytes v @ tail" and tail: "number_end tail"
    and nodes: "jp_nodes p + json_nodes v \<le> jl_max_nodes limits"
  let ?q = "p\<lparr>jp_nodes := Suc (jp_nodes p)\<rparr>"
  obtain b r where b: "json_bytes v = b # r" "\<not> json_space b" using json_bytes_first [of v] by blast
  have digit: "\<exists>d ds. decimal_digits m = d # ds \<and> is_ascii_digit d" for m
    using decimal_digits_first [of m] decimal_digits_all [of m] by auto
  have first: "b = 45 \<or> is_ascii_digit b"
    using assms(4) b(1) digit [of "nat n"] digit [of "unat w"] by (auto simp: integer_digits_def split: if_splits)
  have "json_nodes v = 1" using assms(4) by auto
  moreover have "parse_value limits depth p = parse_number ?q"
    using first digit_bytes [of b] b p nodes assms(1,2) calculation
    by (subst parse_value_start [of depth limits p b "r @ tail"]) (auto simp: parse_byte_def)
  moreover have "parse_number ?q = Inr (parsed_form v, skip_bytes (length (json_bytes v)) ?q)"
  proof (cases "\<exists>n < 0. v = JsonInteger n")
    case True
    then obtain n where n: "v = JsonInteger n" "n < 0" by blast
    then show ?thesis
      using p tail assms(3) parse_negative [of ?q "nat (- n)" tail] by (simp add: integer_digits_def nat_le_iff)
  next
    case False
    obtain m where m: "json_bytes v = decimal_digits m" "parsed_form v = JsonUnsigned (of_nat m)" "m < 2 ^ 64"
    proof (cases "v = JsonUnsigned w")
      case True
      then show ?thesis using unat_u64_less [of w] that [of "unat w"] by simp
    next
      case False
      then have v: "v = JsonInteger n" using assms(4) by simp
      moreover have n: "0 \<le> n" using v \<open>\<not> (\<exists>n < 0. v = JsonInteger n)\<close> by (cases "n < 0") auto
      moreover have "nat n < 2 ^ 64" using assms(3) v n by (simp add: nat_less_iff)
      ultimately show ?thesis using that [of "nat n"] by (simp add: integer_digits_def)
    qed
    then show ?thesis using p tail parse_decimal [of ?q m tail] by simp
  qed
  ultimately show "parse_value limits depth p = Inr (parsed_form v, parsed (length (json_bytes v)) (json_nodes v) p)"
    by (simp add: skip_parsed)
qed

lemma elements_False: "vs \<noteq> [] \<Longrightarrow> elements_bytes False vs = 44 # elements_bytes True vs"
  by (cases vs) simp_all

lemma members_False: "es \<noteq> [] \<Longrightarrow> members_bytes False es = 44 # members_bytes True es"
  by (cases es; cases "hd es") auto

lemma parse_elements_bytes:
  assumes "\<forall>v \<in> set vs. parses limits (Suc depth) v" "vs \<noteq> []" "jp_rest p = elements_bytes True vs @ 93 # tail"
    "length acc + length vs \<le> jl_max_collection_len limits"
    "jp_nodes p + sum_list (map json_nodes vs) \<le> jl_max_nodes limits"
  shows "parse_elements limits depth acc p = Inr (acc @ map parsed_form vs,
      parsed (Suc (length (elements_bytes True vs))) (sum_list (map json_nodes vs)) p)"
  using assms
proof (induction vs arbitrary: acc p)
  case (Cons v vs)
  let ?p = "parsed (length (json_bytes v)) (json_nodes v) p"
  let ?rest = "elements_bytes False vs @ 93 # tail"
  have rest: "jp_rest p = json_bytes v @ ?rest" using Cons.prems(3) by simp
  have "number_end ?rest" by (cases "vs = []") (simp_all add: elements_False number_ends)
  moreover have "parses limits (Suc depth) v" "jp_nodes p + json_nodes v \<le> jl_max_nodes limits"
    using Cons.prems(1,5) by simp_all
  ultimately have v: "parse_value limits (Suc depth) p = Inr (parsed_form v, ?p)"
    using rest unfolding parses_def by blast
  show ?case
  proof (cases "vs = []")
    case True
    then have "skip_whitespace ?p = ?p" "consume_if 93 ?p = Some (skip_bytes 1 ?p)"
      using rest by (simp_all add: skip_whitespace_idle json_spaces consume_if_def)
    then show ?thesis
      using v Cons.prems(4) True by (subst parse_elements.simps) (simp add: Let_def)
  next
    case False
    let ?q = "skip_bytes 1 ?p"
    obtain b r where first: "elements_bytes True vs = b # r" "\<not> json_space b"
      using False json_bytes_first [of "hd vs"] by (cases vs) auto
    have "parse_elements limits depth (acc @ [parsed_form v]) ?q = Inr ((acc @ [parsed_form v]) @ map parsed_form vs,
        parsed (Suc (length (elements_bytes True vs))) (sum_list (map json_nodes vs)) ?q)"
      using Cons.prems rest False by (intro Cons.IH) (simp_all add: elements_False)
    moreover have "skip_whitespace ?p = ?p" "consume_if 93 ?p = None" "expect_byte 44 ?p = Inr ?q" "skip_whitespace ?q = ?q"
      using rest False first
      by (simp_all add: skip_whitespace_idle json_spaces consume_if_def expect_byte_def elements_False)
    ultimately show ?thesis
      using v Cons.prems(4) False by (subst parse_elements.simps) (simp add: Let_def elements_False add_ac)
  qed
qed simp

lemma object_insert_last:
  "\<forall>k' \<in> set (map fst acc). k' < k \<Longrightarrow> object_insert k v acc = acc @ [(k, v)] \<and> map_of acc k = None"
  by (induction acc) auto

lemma parse_members_bytes:
  assumes "\<forall>e \<in> set es. parses limits (Suc depth) (snd e) \<and> valid_utf8 (fst e) \<and> length (fst e) \<le> jl_max_string_bytes limits"
    "es \<noteq> []" "jp_rest p = members_bytes True es @ 125 # tail"
    "sorted_wrt (<) (map fst acc @ map fst es)"
    "length acc + length es \<le> jl_max_collection_len limits"
    "jp_nodes p + sum_list (map (\<lambda>e. json_nodes (snd e)) es) \<le> jl_max_nodes limits"
  shows "parse_members limits depth acc p = Inr (acc @ map (\<lambda>e. (fst e, parsed_form (snd e))) es,
      parsed (Suc (length (members_bytes True es))) (sum_list (map (\<lambda>e. json_nodes (snd e)) es)) p)"
  using assms
proof (induction es arbitrary: acc p)
  case (Cons e es)
  obtain k v where e: "e = (k, v)" by fastforce
  let ?pk = "skip_bytes (length (string_bytes k)) p"
  let ?pc = "skip_bytes 1 ?pk"
  let ?p = "parsed (length (json_bytes v)) (json_nodes v) ?pc"
  let ?rest = "members_bytes False es @ 125 # tail"
  have rest: "jp_rest p = string_bytes k @ 58 # json_bytes v @ ?rest" using Cons.prems(3) e by simp
  then obtain r where quote: "jp_rest p = 34 # r" by (simp add: string_bytes_def)
  have key: "parse_string limits p = Inr (k, ?pk)"
    using Cons.prems(1) e rest by (intro parse_string_bytes) simp_all
  obtain b r' where "json_bytes v = b # r'" "\<not> json_space b" using json_bytes_first by blast
  then have colon: "skip_whitespace ?pk = ?pk" "expect_byte 58 ?pk = Inr ?pc" "skip_whitespace ?pc = ?pc"
    using rest by (simp_all add: skip_whitespace_idle json_spaces expect_byte_def)
  have "number_end ?rest" by (cases "es = []") (simp_all add: members_False number_ends)
  moreover have "parses limits (Suc depth) v" "jp_nodes ?pc + json_nodes v \<le> jl_max_nodes limits"
    using Cons.prems(1,6) e by (simp_all add: skip_bytes_def)
  moreover have "jp_rest ?pc = json_bytes v @ ?rest" using rest by simp
  ultimately have v: "parse_value limits (Suc depth) ?pc = Inr (parsed_form v, ?p)"
    unfolding parses_def by blast
  have new: "object_insert k (parsed_form v) acc = acc @ [(k, parsed_form v)]" "map_of acc k = None"
    using Cons.prems(4) e object_insert_last [of acc k] by (auto simp: sorted_wrt_append)
  note step = quote key colon v new Cons.prems(5)
  show ?case
  proof (cases "es = []")
    case True
    then have "skip_whitespace ?p = ?p" "consume_if 125 ?p = Some (skip_bytes 1 ?p)"
      using rest by (simp_all add: skip_whitespace_idle json_spaces consume_if_def)
    then show ?thesis
      using step True e by (subst parse_members.simps) (simp add: Let_def add_ac)
  next
    case False
    let ?q = "skip_bytes 1 ?p"
    obtain r2 where first: "members_bytes True es = 34 # r2"
      using False by (cases es; cases "hd es") (simp_all add: string_bytes_def)
    have "parse_members limits depth (acc @ [(k, parsed_form v)]) ?q =
        Inr ((acc @ [(k, parsed_form v)]) @ map (\<lambda>e. (fst e, parsed_form (snd e))) es,
        parsed (Suc (length (members_bytes True es))) (sum_list (map (\<lambda>e. json_nodes (snd e)) es)) ?q)"
      using Cons.prems rest False e by (intro Cons.IH) (simp_all add: members_False skip_bytes_def)
    moreover have "skip_whitespace ?p = ?p" "consume_if 125 ?p = None" "expect_byte 44 ?p = Inr ?q" "skip_whitespace ?q = ?q"
      using rest False first
      by (simp_all add: skip_whitespace_idle json_spaces consume_if_def expect_byte_def members_False)
    ultimately show ?thesis
      using step False e by (subst parse_members.simps) (simp add: Let_def members_False add_ac)
  qed
qed simp

lemma parses_compound:
  assumes "depth \<le> jl_max_depth limits" "jl_max_nodes limits < 2 ^ 64"
    and first: "json_bytes v = b # r" "\<not> json_space b"
    and inner: "\<And>q tail. jp_rest q = json_bytes v @ tail \<Longrightarrow> jp_nodes q + (json_nodes v - 1) \<le> jl_max_nodes limits \<Longrightarrow>
      parse_byte limits depth b q =
      Inr (parsed_form v, parsed (length (json_bytes v)) (json_nodes v - 1) q)"
  shows "parses limits depth v"
  unfolding parses_def
proof (intro allI impI)
  fix p :: JsonParser and tail
  assume p: "jp_rest p = json_bytes v @ tail" and nodes: "jp_nodes p + json_nodes v \<le> jl_max_nodes limits"
  have pos: "json_nodes v = Suc (json_nodes v - 1)" by (cases v) simp_all
  let ?q = "p\<lparr>jp_nodes := Suc (jp_nodes p)\<rparr>"
  have "parse_value limits depth p =
      Inr (parsed_form v, parsed (length (json_bytes v)) (json_nodes v - 1) ?q)"
    using first p nodes pos inner [of ?q tail] assms(1,2)
    by (subst parse_value_start [of depth limits p b "r @ tail"]) auto
  then show "parse_value limits depth p = Inr (parsed_form v, parsed (length (json_bytes v)) (json_nodes v) p)"
    using pos by (simp add: parsed_node)
qed

lemma parse_array_bytes:
  assumes "\<forall>v \<in> set vs. parses limits (Suc depth) v" "jp_rest p = json_bytes (JsonArray vs) @ tail"
    "length vs \<le> jl_max_collection_len limits" "jp_nodes p + sum_list (map json_nodes vs) \<le> jl_max_nodes limits"
  shows "parse_array limits depth p = Inr (parsed_form (JsonArray vs),
      parsed (length (json_bytes (JsonArray vs))) (sum_list (map json_nodes vs)) p)"
proof (cases "vs = []")
  case True
  then show ?thesis
    using assms(2) by (simp add: parse_array.simps skip_whitespace_idle json_spaces consume_if_def Let_def parsed_def)
next
  case False
  obtain b r where first: "elements_bytes True vs = b # r" "\<not> json_space b" "b \<noteq> 93"
    using False json_bytes_first [of "hd vs"] by (cases vs) auto
  then have "skip_whitespace (skip_bytes 1 p) = skip_bytes 1 p" "consume_if 93 (skip_bytes 1 p) = None"
    using assms(2) by (simp_all add: skip_whitespace_idle consume_if_def)
  moreover have "parse_elements limits depth [] (skip_bytes 1 p) = Inr ([] @ map parsed_form vs,
      parsed (Suc (length (elements_bytes True vs))) (sum_list (map json_nodes vs)) (skip_bytes 1 p))"
    using assms False by (intro parse_elements_bytes) (simp_all add: skip_bytes_def)
  ultimately show ?thesis by (simp add: parse_array.simps Let_def)
qed

lemma parse_object_bytes:
  assumes "\<forall>e \<in> set es. parses limits (Suc depth) (snd e) \<and> valid_utf8 (fst e) \<and> length (fst e) \<le> jl_max_string_bytes limits"
    "sorted_wrt (<) (map fst es)" "jp_rest p = json_bytes (JsonObject es) @ tail"
    "length es \<le> jl_max_collection_len limits"
    "jp_nodes p + sum_list (map (\<lambda>e. json_nodes (snd e)) es) \<le> jl_max_nodes limits"
  shows "parse_object limits depth p = Inr (parsed_form (JsonObject es),
      parsed (length (json_bytes (JsonObject es))) (sum_list (map (\<lambda>e. json_nodes (snd e)) es)) p)"
proof (cases "es = []")
  case True
  then show ?thesis
    using assms(3) by (simp add: parse_object.simps skip_whitespace_idle json_spaces consume_if_def Let_def parsed_def)
next
  case False
  obtain r where first: "members_bytes True es = 34 # r"
    using False by (cases es; cases "hd es") (simp_all add: string_bytes_def)
  then have "skip_whitespace (skip_bytes 1 p) = skip_bytes 1 p" "consume_if 125 (skip_bytes 1 p) = None"
    using assms(3) by (simp_all add: skip_whitespace_idle json_spaces consume_if_def)
  moreover have "parse_members limits depth [] (skip_bytes 1 p) = Inr ([] @ map (\<lambda>e. (fst e, parsed_form (snd e))) es,
      parsed (Suc (length (members_bytes True es))) (sum_list (map (\<lambda>e. json_nodes (snd e)) es)) (skip_bytes 1 p))"
    using assms False by (intro parse_members_bytes) (simp_all add: skip_bytes_def)
  ultimately show ?thesis by (simp add: parse_object.simps Let_def)
qed

lemma parses_value:
  assumes "json_ok v" "json_within limits depth v" "jl_max_nodes limits < 2 ^ 64"
  shows "parses limits depth v"
  using assms(1,2)
proof (induction v arbitrary: depth)
  case JsonNull
  then show ?case
    by (intro parses_compound [OF _ assms(3)])
      (auto simp: bytes_of_def consume_literal_def parsed_def parse_byte_def json_space_def)
next
  case (JsonBool b)
  then show ?case
    by (cases b; intro parses_compound [OF _ assms(3)])
      (auto simp: bytes_of_def consume_literal_def parsed_def parse_byte_def json_space_def)
next
  case (JsonInteger n)
  then show ?case using parses_number [OF _ assms(3)] by simp
next
  case (JsonUnsigned w)
  then show ?case using parses_number [OF _ assms(3)] by simp
next
  case (JsonString s)
  then show ?case
    by (intro parses_compound [OF _ assms(3), where b = 34])
      (auto simp: string_bytes_def parsed_def parse_string_bytes [unfolded string_bytes_def] parse_byte_def json_space_def)
next
  case (JsonArray vs)
  show ?case
  proof (rule parses_compound [OF _ assms(3), where b = 91])
    fix q :: JsonParser and tail
    assume "jp_rest q = json_bytes (JsonArray vs) @ tail" "jp_nodes q + (json_nodes (JsonArray vs) - 1) \<le> jl_max_nodes limits"
    then have "parse_array limits depth q = Inr (parsed_form (JsonArray vs),
        parsed (length (json_bytes (JsonArray vs))) (sum_list (map json_nodes vs)) q)"
      using JsonArray by (intro parse_array_bytes [where tail = tail]) simp_all
    then show "parse_byte limits depth 91 q =
      Inr (parsed_form (JsonArray vs), parsed (length (json_bytes (JsonArray vs))) (json_nodes (JsonArray vs) - 1) q)"
      by (simp add: parse_byte_def)
  qed (use JsonArray.prems in \<open>simp_all add: json_space_def\<close>)
next
  case (JsonObject es)
  show ?case
  proof (rule parses_compound [OF _ assms(3), where b = 123])
    fix q :: JsonParser and tail
    assume "jp_rest q = json_bytes (JsonObject es) @ tail" "jp_nodes q + (json_nodes (JsonObject es) - 1) \<le> jl_max_nodes limits"
    then have "parse_object limits depth q = Inr (parsed_form (JsonObject es),
        parsed (length (json_bytes (JsonObject es))) (sum_list (map (\<lambda>e. json_nodes (snd e)) es)) q)"
      using JsonObject.prems JsonObject.IH [OF _ snds.intros]
      by (intro parse_object_bytes [where tail = tail]) auto
    then show "parse_byte limits depth 123 q =
      Inr (parsed_form (JsonObject es), parsed (length (json_bytes (JsonObject es))) (json_nodes (JsonObject es) - 1) q)"
      by (simp add: parse_byte_def)
  qed (use JsonObject.prems in \<open>simp_all add: json_space_def\<close>)
qed

subsection \<open>Round trip\<close>

lemma valid_utf8_append: "valid_utf8 xs \<Longrightarrow> valid_utf8 (xs @ ys) \<longleftrightarrow> valid_utf8 ys"
proof (induction xs rule: length_induct)
  case (1 xs)
  show ?case
  proof (cases xs)
    case (Cons b rest)
    let ?w = "char_width b"
    have char: "valid_utf8 (drop ?w xs)" "valid_utf8 (take ?w xs @ zs) \<longleftrightarrow> valid_utf8 zs" for zs
      using valid_utf8_char [of b rest] 1(2) Cons by simp_all
    have "valid_utf8 (drop ?w xs @ ys) \<longleftrightarrow> valid_utf8 ys"
      using 1(1) char(1) Cons by (auto simp: char_width_def)
    then show ?thesis using char(2) [of "drop ?w xs @ ys"] by (simp flip: append_assoc)
  qed simp
qed

lemma valid_utf8_concat: "valid_utf8 xs \<Longrightarrow> valid_utf8 ys \<Longrightarrow> valid_utf8 (xs @ ys)"
  by (simp add: valid_utf8_append)

lemma hex_digit_ascii: "hex_digit (drop_bit 4 b AND 0x0f) < 0x80 \<and> hex_digit (b AND 0x0f) < 0x80"
proof -
  have "list_all (\<lambda>b. hex_digit (drop_bit 4 b AND 0x0f) < 0x80 \<and> hex_digit (b AND 0x0f) < 0x80) (map of_nat [0..<256])"
    by code_simp
  from all_u8I [OF this] show ?thesis .
qed

lemma valid_escaped_bytes: "valid_utf8 s \<Longrightarrow> valid_utf8 (escaped_bytes s)"
proof (induction s rule: escaped_bytes.induct)
  case (1 s)
  show ?case
  proof (cases s)
    case (Cons b rest)
    let ?c = "take (char_width b) s"
    note char = valid_utf8_char [OF 1(2) [unfolded Cons], folded Cons]
    then have "valid_utf8 (?c @ [])" by (simp only: valid_utf8.simps)
    then have valid: "valid_utf8 (drop (char_width b) s)" "valid_utf8 ?c" and len: "length ?c = char_width b"
      using char Cons by simp_all
    have "valid_utf8 (escape_char ?c)"
    proof (cases "char_width b = 1")
      case True
      then have "?c = [b]" "b < 0x80" using Cons by (auto simp: char_width_def split: if_splits)
      then show ?thesis using hex_digit_ascii [of b] by (simp add: escape_char_def)
    next
      case False
      then have "2 \<le> length ?c" using len by (simp add: char_width_def split: if_splits)
      then show ?thesis using valid(2) escape_long by simp
    qed
    then show ?thesis using 1(1) [OF Cons valid(1)] Cons by (subst escaped_bytes.simps) (simp add: valid_utf8_concat)
  qed (simp add: escaped_bytes.simps)
qed

lemma valid_string_bytes: "valid_utf8 s \<Longrightarrow> valid_utf8 (string_bytes s)"
  by (simp add: string_bytes_def valid_utf8_concat valid_escaped_bytes)

lemma valid_decimal_digits: "valid_utf8 (decimal_digits n)"
  using decimal_digits_all [of n]
  by (intro valid_utf8_ascii) (auto simp: list_all_iff is_ascii_digit_def intro: le_less_trans)

lemma valid_json_bytes:
  "json_ok v \<Longrightarrow> valid_utf8 (json_bytes v)"
  "\<forall>v \<in> set vs. json_ok v \<Longrightarrow> valid_utf8 (elements_bytes start vs)"
  "\<forall>e \<in> set es. valid_utf8 (fst e) \<and> json_ok (snd e) \<Longrightarrow> valid_utf8 (members_bytes start es)"
  by (induction v and start vs and start es rule: json_bytes_elements_bytes_members_bytes.induct)
    (simp_all add: bytes_of_def integer_digits_def valid_decimal_digits valid_string_bytes valid_utf8_concat)

lemma unat_nonnegative: "0 \<le> n \<Longrightarrow> n < 2 ^ 63 \<Longrightarrow> unat (of_int n :: u64) = nat n"
  using unat_of_nat_eq [of "nat n", where 'a = 64] by (simp add: nat_less_iff flip: of_nat_nat)

lemma json_bytes_parsed_form:
  "json_ok v \<Longrightarrow> json_bytes (parsed_form v) = json_bytes v"
  "\<forall>v \<in> set vs. json_ok v \<Longrightarrow> elements_bytes start (map parsed_form vs) = elements_bytes start vs"
  "\<forall>e \<in> set es. json_ok (snd e) \<Longrightarrow> members_bytes start (map (\<lambda>e. (fst e, parsed_form (snd e))) es) = members_bytes start es"
  by (induction v and start vs and start es rule: json_bytes_elements_bytes_members_bytes.induct)
    (simp_all add: integer_digits_def unat_nonnegative)

lemma parse_json_bytes:
  assumes v: "json_ok v" "json_within limits 0 v" and nodes: "json_nodes v \<le> jl_max_nodes limits" "jl_max_nodes limits < 2 ^ 64"
  shows "json_parse (json_bytes v) limits = Inr (parsed_form v)"
proof -
  obtain b r where first: "json_bytes v = b # r" "\<not> json_space b" using json_bytes_first by blast
  let ?p = "\<lparr>jp_rest = json_bytes v, jp_offset = 0, jp_nodes = 0\<rparr>"
  have "parse_value limits 0 ?p = Inr (parsed_form v, parsed (length (json_bytes v)) (json_nodes v) ?p)"
    using parses_value [OF v nodes(2)] nodes(1) number_ends(1) unfolding parses_def by simp
  moreover have "valid_utf8 (json_bytes v)" by (rule valid_json_bytes(1) [OF v(1)])
  moreover have "skip_whitespace ?p = ?p" using first by (simp add: skip_whitespace_idle)
  ultimately show ?thesis by (simp add: json_parse_def Let_def skip_whitespace_def)
qed

text \<open>
  C14: What the encoder wrote, the parser reads back: for every value within the parser's limits the
  canonical bytes parse, without an error, to this value, with its nonnegative integers as
  unsigned ones; and that value has the same canonical bytes.
\<close>

theorem json_roundtrip:
  assumes v: "json_ok v" "json_within limits 0 v" and nodes: "json_nodes v \<le> jl_max_nodes limits" "jl_max_nodes limits < 2 ^ 64"
    and run: "to_canonical_bytes v max_bytes = Inr bytes"
  shows "json_parse bytes limits = Inr (parsed_form v) \<and> to_canonical_bytes (parsed_form v) max_bytes = Inr bytes"
  using run parse_json_bytes [OF v nodes] json_bytes_parsed_form(1) [OF v(1)]
  by (auto simp: to_canonical_bytes_eq split: if_splits)

end
