(* ===== verification/Json_Sound.thy ===== *)
theory Json_Sound
  imports Json_Proofs
begin

unbundle bit_operations_syntax

text \<open>
  What the JSON parser accepts: a value of Rust's type within the limits, whatever the input.
\<close>

subsection \<open>The UTF-8 form of a scalar value\<close>

lemma continuation_bytes:
  "\<forall>x \<in> set [0..<64]. is_continuation (0x80 OR of_nat x) \<and> (16 \<le> x \<longrightarrow> 0x90 \<le> (0x80 OR of_nat x :: u8)) \<and>
    (32 \<le> x \<longrightarrow> 0xA0 \<le> (0x80 OR of_nat x :: u8)) \<and> (x < 32 \<longrightarrow> 0x80 OR of_nat x \<le> (0x9F :: u8)) \<and>
    (x < 16 \<longrightarrow> 0x80 OR of_nat x \<le> (0x8F :: u8))"
  by code_simp

lemma lead_bytes_two: "\<forall>x \<in> set [2..<32]. \<not> 0xC0 OR of_nat x < (0x80 :: u8) \<and> 0xC2 \<le> (0xC0 OR of_nat x :: u8) \<and> 0xC0 OR of_nat x \<le> (0xDF :: u8)"
  by code_simp

lemma lead_bytes_three:
  "\<forall>x \<in> set [0..<16]. \<not> 0xE0 OR of_nat x < (0x80 :: u8) \<and> \<not> 0xE0 OR of_nat x \<le> (0xDF :: u8) \<and> 0xE0 \<le> (0xE0 OR of_nat x :: u8) \<and>
    0xE0 OR of_nat x \<le> (0xEF :: u8) \<and> (0xE0 OR of_nat x = (0xE0 :: u8) \<longleftrightarrow> x = 0) \<and> (0xE0 OR of_nat x = (0xED :: u8) \<longleftrightarrow> x = 13)"
  by code_simp

lemma lead_bytes_four:
  "\<forall>x \<in> set [0..<5]. \<not> 0xF0 OR of_nat x < (0x80 :: u8) \<and> \<not> 0xF0 OR of_nat x \<le> (0xDF :: u8) \<and> \<not> 0xF0 OR of_nat x \<le> (0xEF :: u8) \<and>
    0xF0 \<le> (0xF0 OR of_nat x :: u8) \<and> 0xF0 OR of_nat x \<le> (0xF4 :: u8) \<and> (0xF0 OR of_nat x = (0xF0 :: u8) \<longleftrightarrow> x = 0) \<and>
    (0xF0 OR of_nat x = (0xF4 :: u8) \<longleftrightarrow> x = 4)"
  by code_simp

lemma ucast_bytes:
  "(ucast (drop_bit n c) :: u8) = of_nat (unat c div 2 ^ n)"
  "unat (drop_bit n c) = unat c div 2 ^ n"
  "(ucast (c AND 0x3F) :: u8) = of_nat (unat c mod 64)"
  for c :: rchar
proof -
  have byte: "(ucast x :: u8) = of_nat m" if "unat x = m" for x :: u32 and m unfolding that [symmetric] by simp
  have mask: "(0x3F :: u32) = mask 6" by (simp add: mask_eq_exp_minus_1)
  have div: "unat (drop_bit n c) = unat c div 2 ^ n" by (subst unat_drop_bit_eq) (rule drop_bit_eq_div)
  show "(ucast (drop_bit n c) :: u8) = of_nat (unat c div 2 ^ n)" by (rule byte [OF div])
  have low: "unat (x AND 0x3F) = unat x mod 64" for x :: u32
    unfolding mask take_bit_eq_mask [symmetric] unsigned_take_bit_eq by (simp add: take_bit_eq_mod)
  show "unat (drop_bit n c) = unat c div 2 ^ n" by (rule div)
  show "(ucast (c AND 0x3F) :: u8) = of_nat (unat c mod 64)" by (rule byte [OF low])
qed

lemma valid_char_bytes:
  assumes "is_scalar c" shows "valid_utf8 (char_bytes c)"
proof -
  define n where "n = unat c"
  have c: "c < 0x80 \<longleftrightarrow> n < 0x80" "c < 0x800 \<longleftrightarrow> n < 0x800" "c < 0x10000 \<longleftrightarrow> n < 0x10000"
    by (simp_all add: n_def word_less_nat_alt)
  have scalar: "n < 0xD800 \<or> 0xE000 \<le> n \<and> n \<le> 0x10FFFF"
    using assms by (simp add: is_scalar_def n_def word_less_nat_alt word_le_nat_alt)
  consider "n < 0x80" | "0x80 \<le> n" "n < 0x800" | "0x800 \<le> n" "n < 0x10000" | "0x10000 \<le> n" by linarith
  then show ?thesis
  proof cases
    case 1
    then have "unat (ucast c :: u8) < 0x80" by (simp add: n_def unsigned_ucast_eq take_bit_eq_mod)
    then show ?thesis using 1 c by (simp add: char_bytes_def word_less_nat_alt)
  next
    case 2
    then have "n div 64 \<in> set [2..<32]" "n mod 64 \<in> set [0..<64]" unfolding set_upt atLeastLessThan_iff by arith+
    from bspec [OF lead_bytes_two this(1)] bspec [OF continuation_bytes this(2)] show ?thesis
      using 2 c by (simp add: char_bytes_def ucast_bytes flip: n_def)
  next
    case 3
    define m q r where "m = n div 64" and "q = m div 64" and "r = m mod 64"
    have split: "m = q * 64 + r" "r < 64" by (simp_all add: q_def r_def)
    have q: "n div 4096 = q" by (simp add: m_def q_def flip: div_mult2_eq)
    have bounds: "32 \<le> m" "m < 1024" "m < 864 \<or> 896 \<le> m" using 3 scalar unfolding m_def by arith+
    then have "q = 0 \<longrightarrow> 32 \<le> r" "q = 13 \<longrightarrow> r < 32" "q < 16" using split by linarith+
    moreover have "q \<in> set [0..<16]" "r \<in> set [0..<64]" "n mod 64 \<in> set [0..<64]"
      using calculation(3) split(2) by (simp_all only: set_upt atLeastLessThan_iff) simp_all
    note bspec [OF lead_bytes_three this(1)] bspec [OF continuation_bytes this(2)] bspec [OF continuation_bytes this(3)]
    ultimately show ?thesis unfolding char_bytes_def ucast_bytes n_def [symmetric] using 3 c by (simp add: q flip: m_def r_def)
  next
    case 4
    define m q r where "m = n div 4096" and "q = m div 64" and "r = m mod 64"
    have split: "m = q * 64 + r" "r < 64" by (simp_all add: q_def r_def)
    have q: "n div 262144 = q" by (simp add: m_def q_def flip: div_mult2_eq)
    have bounds: "16 \<le> m" "m < 272" using 4 scalar unfolding m_def by arith+
    then have "q = 0 \<longrightarrow> 16 \<le> r" "q = 4 \<longrightarrow> r < 16" "q < 5" using split by linarith+
    moreover have "q \<in> set [0..<5]" using calculation(3) by (simp only: set_upt atLeastLessThan_iff) simp
    note bspec [OF lead_bytes_four this]
    moreover have "r \<in> set [0..<64]" "n div 64 mod 64 \<in> set [0..<64]" "n mod 64 \<in> set [0..<64]"
      using split(2) by (simp_all only: set_upt atLeastLessThan_iff) simp_all
    note bspec [OF continuation_bytes this(1)] bspec [OF continuation_bytes this(2)] bspec [OF continuation_bytes this(3)]
    ultimately show ?thesis unfolding char_bytes_def ucast_bytes n_def [symmetric] using 4 c by (simp add: q flip: m_def r_def)
  qed
qed

subsection \<open>Every step leaves well-formed text\<close>

text \<open>\<open>q\<close> is reached from \<open>p\<close> by taking whole characters off the input.\<close>

definition parser_advances :: "JsonParser \<Rightarrow> JsonParser \<Rightarrow> bool" where
  "parser_advances p q \<longleftrightarrow> (valid_utf8 (jp_rest p) \<longrightarrow> valid_utf8 (jp_rest q)) \<and> jp_nodes q = jp_nodes p"

lemma parser_advances_refl [simp]: "parser_advances p p"
  by (simp add: parser_advances_def)

lemma parser_advances_trans [trans]: "parser_advances p q \<Longrightarrow> parser_advances q r \<Longrightarrow> parser_advances p r"
  by (simp add: parser_advances_def)

lemma jp_nodes_skip [simp]: "jp_nodes (skip_bytes n p) = jp_nodes p"
  by (simp add: skip_bytes_def)

lemma valid_utf8_drop_ascii: "valid_utf8 (xs @ ys) \<Longrightarrow> list_all (\<lambda>b. b < 0x80) xs \<Longrightarrow> valid_utf8 ys"
  using valid_utf8_append [OF valid_utf8_ascii] by blast

lemma parser_advances_ascii: "jp_rest p = xs @ ys \<Longrightarrow> list_all (\<lambda>b. b < 0x80) xs \<Longrightarrow> n = length xs \<Longrightarrow> parser_advances p (skip_bytes n p)"
  using valid_utf8_drop_ascii [of xs ys] by (simp add: parser_advances_def)

lemma parser_advances_ascii1: "jp_rest p = b # ys \<Longrightarrow> b < 0x80 \<Longrightarrow> parser_advances p (skip_bytes (Suc 0) p)"
  using parser_advances_ascii [of p "[b]" ys "Suc 0"] by simp

lemma ascii_bytes: "json_space b \<Longrightarrow> b < 0x80" "is_ascii_digit b \<Longrightarrow> b < (0x80 :: u8)" "b \<le> 57 \<Longrightarrow> b < (0x80 :: u8)"
  by (auto simp: json_space_def is_ascii_digit_def intro: le_less_trans [of _ 57])

lemma parser_advances_whitespace: "parser_advances p (skip_whitespace p)"
  unfolding skip_whitespace_def
  by (rule parser_advances_ascii [OF takeWhile_dropWhile_id [symmetric]])
    (auto simp: list_all_iff dest!: set_takeWhileD intro: ascii_bytes)

lemma parser_advances_consume: "consume_if b p = Some q \<Longrightarrow> b < 0x80 \<Longrightarrow> parser_advances p q"
  by (auto simp: consume_if_def split: list.splits if_splits intro: parser_advances_ascii1)

lemma parser_advances_expect: "expect_byte b p = Inr q \<Longrightarrow> b < 0x80 \<Longrightarrow> parser_advances p q"
  by (auto simp: expect_byte_def split: list.splits if_splits intro: parser_advances_ascii1)

lemma parser_advances_literal: "consume_literal lit p = Inr q \<Longrightarrow> list_all (\<lambda>b. b < 0x80) lit \<Longrightarrow> parser_advances p q"
  using append_take_drop_id [of "length lit" "jp_rest p"]
  by (auto simp: consume_literal_def split: if_splits intro!: parser_advances_ascii [of p lit "drop (length lit) (jp_rest p)"])

lemma digits_ascii: "list_all (\<lambda>b. b < (0x80 :: u8)) (takeWhile is_ascii_digit xs)"
  by (auto simp: list_all_iff dest!: set_takeWhileD intro: ascii_bytes)

lemma number_digits_ascii:
  assumes "number_digits p = Inr ds"
  shows "\<exists>ys. jp_rest p = ds @ ys" "list_all (\<lambda>b. b < 0x80) ds"
proof -
  obtain b rest where rest: "jp_rest p = b # rest" and ds: "ds = [b] \<or> ds = b # takeWhile is_ascii_digit rest" "b \<le> 57"
    using assms by (auto simp: number_digits_def split: list.splits if_splits)
  then show "\<exists>ys. jp_rest p = ds @ ys" using takeWhile_dropWhile_id [of is_ascii_digit rest] by (metis append_Cons append_Nil)
  show "list_all (\<lambda>b. b < 0x80) ds" using ds digits_ascii ascii_bytes(3) by auto
qed

lemma parse_number_sound:
  assumes "parse_number p = Inr (v, q)"
  shows "parser_advances p q" "json_ok v" "json_nodes v = 1" "json_within limits depth v \<longleftrightarrow> depth \<le> jl_max_depth limits"
proof -
  obtain p0 ds where p0: "parser_advances p p0" "number_digits p0 = Inr ds" and q: "q = skip_bytes (length ds) p0"
    and v: "v = JsonInteger (- int (digits_value ds)) \<and> digits_value ds \<le> 2 ^ 63 \<or> v = JsonUnsigned (of_nat (digits_value ds))"
  proof (cases "consume_if 45 p")
    case None
    then show ?thesis
      using assms that [of p] by (auto simp: parse_number_def Let_def split: if_splits)
  next
    case (Some r)
    then show ?thesis
      using assms that [of r] parser_advances_consume [OF Some] by (auto simp: parse_number_def Let_def split: if_splits)
  qed
  obtain ys where ys: "jp_rest p0 = ds @ ys" "list_all (\<lambda>b. b < 0x80) ds" using number_digits_ascii [OF p0(2)] by blast
  from p0(1) parser_advances_ascii [OF this refl] show "parser_advances p q" unfolding q by (rule parser_advances_trans)
  show "json_ok v" "json_nodes v = 1" "json_within limits depth v \<longleftrightarrow> depth \<le> jl_max_depth limits" using v by auto
qed

lemma hex_value_ascii: "hex_value b \<noteq> None \<Longrightarrow> b < 0x80"
  by (auto simp: hex_value_def split: if_splits intro: le_less_trans)

lemma hex_loop_ascii:
  "foldE (\<lambda>b n. tryE (ok_or e (hex_value b)) (\<lambda>digit. Inr (push_bit 4 n OR digit))) bs n = Inr m \<Longrightarrow>
     list_all (\<lambda>b. b < 0x80) bs"
  by (induction bs arbitrary: n) (auto intro: hex_value_ascii)

lemma parser_advances_hex:
  assumes "parse_hex_u16 p = Inr (n, q)" shows "parser_advances p q"
proof -
  have "list_all (\<lambda>b. b < 0x80) (take 4 (jp_rest p))" "4 \<le> length (jp_rest p)" "q = skip_bytes 4 p"
    using assms by (auto simp: parse_hex_u16_def split: if_splits dest!: hex_loop_ascii)
  then show ?thesis
    using parser_advances_ascii [of p "take 4 (jp_rest p)" "drop 4 (jp_rest p)" 4] by simp
qed

lemma parse_unicode_escape_sound:
  assumes "parse_unicode_escape p = Inr (c, q)" shows "parser_advances p q" "is_scalar c"
proof -
  obtain first p1 where first: "parse_hex_u16 p = Inr (first, p1)" using assms by (auto simp: parse_unicode_escape_def)
  show "is_scalar c" using assms by (auto simp: parse_unicode_escape_def split: if_splits)
  have "q = p1 \<or> (\<exists>second. take 2 (jp_rest p1) = [92, 117] \<and> parse_hex_u16 (skip_bytes 2 p1) = Inr (second, q))"
    using assms first by (auto simp: parse_unicode_escape_def Let_def split: if_splits)
  then show "parser_advances p q"
  proof
    assume "\<exists>second. take 2 (jp_rest p1) = [92, 117] \<and> parse_hex_u16 (skip_bytes 2 p1) = Inr (second, q)"
    then have mark: "take 2 (jp_rest p1) = [92, 117]" and second: "parser_advances (skip_bytes 2 p1) q" using parser_advances_hex by blast+
    have "jp_rest p1 = [92, 117] @ drop 2 (jp_rest p1)" using mark by (metis append_take_drop_id)
    then have "parser_advances p1 (skip_bytes 2 p1)" by (rule parser_advances_ascii) simp_all
    with parser_advances_hex [OF first] second show ?thesis by (blast intro: parser_advances_trans)
  qed (use parser_advances_hex [OF first] in simp)
qed

lemma parse_escape_sound:
  assumes "parse_escape p = Inr (cs, q)" shows "parser_advances p q" "valid_utf8 cs"
proof -
  obtain b rest where rest: "jp_rest p = b # rest" using assms by (auto simp: parse_escape_def split: list.splits)
  consider c where "b = 117" "parse_unicode_escape (skip_bytes 1 p) = Inr (c, q)" "cs = char_bytes c"
    | x where "b < 0x80" "q = skip_bytes 1 p" "cs = [x]" "x < 0x80"
    using assms rest by (auto simp: parse_escape_def Let_def split: if_splits)
  then have "parser_advances p q \<and> valid_utf8 cs"
  proof cases
    case 1
    have "parser_advances p (skip_bytes 1 p)" using parser_advances_ascii1 [OF rest] 1(1) by simp
    then show ?thesis
      using parse_unicode_escape_sound [OF 1(2)] valid_char_bytes 1(3) by (auto intro: parser_advances_trans)
  next
    case 2
    then show ?thesis using parser_advances_ascii1 [OF rest] by simp
  qed
  then show "parser_advances p q" "valid_utf8 cs" by blast+
qed

lemma parse_char_sound:
  assumes run: "parse_char p = Inr (cs, q)" and valid: "valid_utf8 (jp_rest p)"
  shows "parser_advances p q" "valid_utf8 cs"
proof -
  obtain b rest where rest: "jp_rest p = b # rest" using run by (auto simp: parse_char_def split: list.splits)
  note char = valid_utf8_char [OF valid [unfolded rest], folded rest]
  then have "valid_utf8 (take (char_width b) (jp_rest p) @ [])" by (simp only: valid_utf8.simps)
  then have taken: "valid_utf8 (take (char_width b) (jp_rest p))" by (simp only: append_Nil2)
  consider "b = 92" "parse_escape (skip_bytes 1 p) = Inr (cs, q)"
    | "cs = take (char_width b) (jp_rest p)" "q = skip_bytes (char_width b) p"
    using run rest by (auto simp: parse_char_def split: if_splits)
  then have "parser_advances p q \<and> valid_utf8 cs"
  proof cases
    case 1
    have "parser_advances p (skip_bytes 1 p)" using parser_advances_ascii1 [OF rest] 1(1) by simp
    then show ?thesis using parse_escape_sound [OF 1(2)] parser_advances_trans by blast
  next
    case 2
    then show ?thesis using char taken by (simp add: parser_advances_def)
  qed
  then show "parser_advances p q" "valid_utf8 cs" by blast+
qed

lemma parse_string_loop_sound:
  "parse_string_loop limits output p = Inr (s, q) \<Longrightarrow> valid_utf8 (jp_rest p) \<Longrightarrow> valid_utf8 output \<Longrightarrow>
     length output \<le> jl_max_string_bytes limits \<Longrightarrow> parser_advances p q \<and> valid_utf8 s \<and> length s \<le> jl_max_string_bytes limits"
proof (induction limits "output" p rule: parse_string_loop.induct)
  case (1 limits "output" p)
  show ?case
  proof (cases "consume_if 34 p")
    case (Some r)
    then show ?thesis
      using 1(2-5) parser_advances_consume [OF Some] by (simp add: parse_string_loop.simps [of limits "output" p])
  next
    case None
    then obtain cs r where char: "parse_char p = Inr (cs, r)"
      and small: "\<not> jl_max_string_bytes limits < length (output @ cs)"
      and loop: "parse_string_loop limits (output @ cs) r = Inr (s, q)"
      using 1(2) by (auto simp: parse_string_loop.simps [of limits "output" p] Let_def split: if_splits)
    note sound = parse_char_sound [OF char 1(3)]
    have "parser_advances r q \<and> valid_utf8 s \<and> length s \<le> jl_max_string_bytes limits"
      using small sound 1(3,4) loop by (intro 1(1) [OF None char refl refl]) (simp_all add: valid_utf8_concat parser_advances_def)
    then show ?thesis using sound(1) parser_advances_trans by blast
  qed
qed

lemma parse_string_sound:
  assumes "parse_string limits p = Inr (s, q)" "valid_utf8 (jp_rest p)"
  shows "parser_advances p q" "valid_utf8 s" "length s \<le> jl_max_string_bytes limits"
proof -
  obtain r where r: "expect_byte 34 p = Inr r" "parse_string_loop limits [] r = Inr (s, q)"
    using assms(1) by (auto simp: parse_string_def)
  note quote = parser_advances_expect [OF r(1)]
  have "parser_advances r q \<and> valid_utf8 s \<and> length s \<le> jl_max_string_bytes limits"
    using assms(2) quote by (intro parse_string_loop_sound [OF r(2)]) (simp_all add: parser_advances_def)
  then show "parser_advances p q" "valid_utf8 s" "length s \<le> jl_max_string_bytes limits"
    using quote parser_advances_trans by auto
qed

subsection \<open>Values\<close>

definition value_sound :: "JsonLimits \<Rightarrow> usize \<Rightarrow> bool" where
  "value_sound limits depth \<longleftrightarrow> (\<forall>p v q. valid_utf8 (jp_rest p) \<longrightarrow> parse_value limits depth p = Inr (v, q) \<longrightarrow>
     valid_utf8 (jp_rest q) \<and> json_ok v \<and> json_within limits depth v \<and>
     jp_nodes q = jp_nodes p + json_nodes v \<and> jp_nodes q \<le> jl_max_nodes limits)"

lemma parser_advances_more:
  "parser_advances q (skip_whitespace q)"
  "consume_if 93 (skip_whitespace q) = Some r \<Longrightarrow> parser_advances q r"
  "consume_if 125 (skip_whitespace q) = Some r \<Longrightarrow> parser_advances q r"
  "expect_byte 44 (skip_whitespace q) = Inr r \<Longrightarrow> parser_advances q (skip_whitespace r)"
  "expect_byte 58 (skip_whitespace q) = Inr r \<Longrightarrow> parser_advances q (skip_whitespace r)"
  by (rule parser_advances_whitespace,
      erule parser_advances_trans [OF parser_advances_whitespace parser_advances_consume], simp,
      erule parser_advances_trans [OF parser_advances_whitespace parser_advances_consume], simp,
      erule parser_advances_trans [OF parser_advances_whitespace parser_advances_trans [OF parser_advances_expect parser_advances_whitespace]], simp,
      erule parser_advances_trans [OF parser_advances_whitespace parser_advances_trans [OF parser_advances_expect parser_advances_whitespace]], simp)

lemma parse_elements_step:
  assumes "parse_elements limits depth acc p = Inr (vs, q)"
  shows "length acc < jl_max_collection_len limits"
    "\<exists>v r. parse_value limits (Suc depth) p = Inr (v, r) \<and>
      (consume_if 93 (skip_whitespace r) = Some q \<and> vs = acc @ [v] \<or>
       (\<exists>t. expect_byte 44 (skip_whitespace r) = Inr t \<and>
          parse_elements limits depth (acc @ [v]) (skip_whitespace t) = Inr (vs, q)))"
  using assms by (auto simp: parse_elements.simps [of limits depth acc p] Let_def split: if_splits option.splits)

lemma parse_elements_sound:
  assumes "value_sound limits (Suc depth)" "parse_elements limits depth acc p = Inr (vs, q)" "valid_utf8 (jp_rest p)"
    "\<forall>v \<in> set acc. json_ok v \<and> json_within limits (Suc depth) v"
  shows "valid_utf8 (jp_rest q) \<and> (\<forall>v \<in> set vs. json_ok v \<and> json_within limits (Suc depth) v) \<and>
    length vs \<le> jl_max_collection_len limits \<and>
    jp_nodes q + sum_list (map json_nodes acc) = jp_nodes p + sum_list (map json_nodes vs) \<and> jp_nodes q \<le> jl_max_nodes limits"
  using assms(2-4)
proof (induction "jl_max_collection_len limits - length acc" arbitrary: acc p rule: less_induct)
  case less
  obtain v r where v: "parse_value limits (Suc depth) p = Inr (v, r)"
    and more: "consume_if 93 (skip_whitespace r) = Some q \<and> vs = acc @ [v] \<or>
       (\<exists>t. expect_byte 44 (skip_whitespace r) = Inr t \<and>
          parse_elements limits depth (acc @ [v]) (skip_whitespace t) = Inr (vs, q))"
    using parse_elements_step(2) [OF less(2)] by blast
  have r: "valid_utf8 (jp_rest r)" "json_ok v" "json_within limits (Suc depth) v"
    "jp_nodes r = jp_nodes p + json_nodes v" "jp_nodes r \<le> jl_max_nodes limits"
    using assms(1) v less(3) unfolding value_sound_def by blast+
  note len = parse_elements_step(1) [OF less(2)]
  from more show ?case
  proof (elim disjE exE conjE)
    assume "consume_if 93 (skip_whitespace r) = Some q" "vs = acc @ [v]"
    then show ?thesis using r len less(4) parser_advances_more(2) [of r q] by (auto simp: parser_advances_def)
  next
    fix t
    assume t: "expect_byte 44 (skip_whitespace r) = Inr t" "parse_elements limits depth (acc @ [v]) (skip_whitespace t) = Inr (vs, q)"
    note adv = parser_advances_more(4) [OF t(1)]
    then have "valid_utf8 (jp_rest (skip_whitespace t))" "jp_nodes (skip_whitespace t) = jp_nodes r"
      using r(1) by (simp_all add: parser_advances_def)
    then show ?thesis using less(1) [OF _ t(2)] len less(4) r by auto
  qed
qed

lemma parse_members_step:
  assumes "parse_members limits depth acc p = Inr (es, q)"
  shows "length acc < jl_max_collection_len limits"
    "\<exists>k s t v r. parse_string limits p = Inr (k, s) \<and> expect_byte 58 (skip_whitespace s) = Inr t \<and>
      parse_value limits (Suc depth) (skip_whitespace t) = Inr (v, r) \<and> map_of acc k = None \<and>
      (consume_if 125 (skip_whitespace r) = Some q \<and> es = object_insert k v acc \<or>
       (\<exists>t. expect_byte 44 (skip_whitespace r) = Inr t \<and>
          parse_members limits depth (object_insert k v acc) (skip_whitespace t) = Inr (es, q)))"
  using assms
  by (auto simp: parse_members.simps [of limits depth acc p] Let_def split: if_splits option.splits list.splits)

lemma set_object_insert: "map_of acc k = None \<Longrightarrow> set (object_insert k v acc) = insert (k, v) (set acc)"
  by (induction acc) (auto split: if_splits)

lemma sorted_object_insert:
  "sorted_wrt (<) (map fst acc) \<Longrightarrow> map_of acc k = None \<Longrightarrow> sorted_wrt (<) (map fst (object_insert k v acc))"
proof (induction acc)
  case (Cons e acc)
  then show ?case
    by (cases e) (auto simp: set_object_insert split: if_splits intro: less_trans)
qed simp

lemma sum_object_insert:
  "map_of acc k = None \<Longrightarrow>
     sum_list (map (\<lambda>e. json_nodes (snd e)) (object_insert k v acc)) = json_nodes v + sum_list (map (\<lambda>e. json_nodes (snd e)) acc)"
  by (induction acc) (auto split: if_splits)

definition member_ok :: "JsonLimits \<Rightarrow> usize \<Rightarrow> utf8 \<times> JsonValue \<Rightarrow> bool" where
  "member_ok limits depth e \<longleftrightarrow> valid_utf8 (fst e) \<and> length (fst e) \<le> jl_max_string_bytes limits \<and>
     json_ok (snd e) \<and> json_within limits depth (snd e)"

lemma parse_members_sound:
  assumes "value_sound limits (Suc depth)" "parse_members limits depth acc p = Inr (es, q)" "valid_utf8 (jp_rest p)"
    "\<forall>e \<in> set acc. member_ok limits (Suc depth) e" "sorted_wrt (<) (map fst acc)"
  shows "valid_utf8 (jp_rest q) \<and> (\<forall>e \<in> set es. member_ok limits (Suc depth) e) \<and> sorted_wrt (<) (map fst es) \<and>
    length es \<le> jl_max_collection_len limits \<and>
    jp_nodes q + sum_list (map (\<lambda>e. json_nodes (snd e)) acc) = jp_nodes p + sum_list (map (\<lambda>e. json_nodes (snd e)) es) \<and>
    jp_nodes q \<le> jl_max_nodes limits"
  using assms(2-5)
proof (induction "jl_max_collection_len limits - length acc" arbitrary: acc p rule: less_induct)
  case less
  obtain k s t v r where key: "parse_string limits p = Inr (k, s)" and colon: "expect_byte 58 (skip_whitespace s) = Inr t"
    and v: "parse_value limits (Suc depth) (skip_whitespace t) = Inr (v, r)" and new: "map_of acc k = None"
    and more: "consume_if 125 (skip_whitespace r) = Some q \<and> es = object_insert k v acc \<or>
       (\<exists>t. expect_byte 44 (skip_whitespace r) = Inr t \<and>
          parse_members limits depth (object_insert k v acc) (skip_whitespace t) = Inr (es, q))"
    using parse_members_step(2) [OF less(2)] by blast
  note key_sound = parse_string_sound [OF key less(3)]
  from key_sound(1) parser_advances_more(5) [OF colon] have "parser_advances p (skip_whitespace t)" by (rule parser_advances_trans)
  then have at: "valid_utf8 (jp_rest (skip_whitespace t))" "jp_nodes (skip_whitespace t) = jp_nodes p"
    using less(3) by (simp_all add: parser_advances_def)
  have r: "valid_utf8 (jp_rest r)" "json_ok v" "json_within limits (Suc depth) v"
    "jp_nodes r = jp_nodes (skip_whitespace t) + json_nodes v" "jp_nodes r \<le> jl_max_nodes limits"
    using assms(1) v at(1) unfolding value_sound_def by blast+
  let ?acc = "object_insert k v acc"
  have acc: "\<forall>e \<in> set ?acc. member_ok limits (Suc depth) e" "sorted_wrt (<) (map fst ?acc)"
    using less(4,5) new key_sound(2,3) r(2,3) by (simp_all add: set_object_insert sorted_object_insert member_ok_def)
  note len = parse_members_step(1) [OF less(2)] object_insert_new [OF new, of v] sum_object_insert [OF new, of v]
  from more show ?case
  proof (elim disjE exE conjE)
    assume "consume_if 125 (skip_whitespace r) = Some q" "es = ?acc"
    then show ?thesis using r at(2) len acc parser_advances_more(3) [of r q] by (auto simp: parser_advances_def)
  next
    fix t'
    assume t': "expect_byte 44 (skip_whitespace r) = Inr t'" "parse_members limits depth ?acc (skip_whitespace t') = Inr (es, q)"
    note adv = parser_advances_more(4) [OF t'(1)]
    then have "valid_utf8 (jp_rest (skip_whitespace t'))" "jp_nodes (skip_whitespace t') = jp_nodes r"
      using r(1) by (simp_all add: parser_advances_def)
    then show ?thesis using less(1) [OF _ t'(2) _ acc] len r at(2) by auto
  qed
qed

lemma parse_array_sound:
  assumes sound: "value_sound limits (Suc depth)" and run: "parse_array limits depth p = Inr (v, q)"
    and p: "valid_utf8 (jp_rest p)" "jp_rest p = 91 # rest" "jp_nodes p \<le> jl_max_nodes limits" "depth \<le> jl_max_depth limits"
  shows "valid_utf8 (jp_rest q) \<and> json_ok v \<and> json_within limits depth v \<and>
    Suc (jp_nodes q) = jp_nodes p + json_nodes v \<and> jp_nodes q \<le> jl_max_nodes limits"
proof -
  let ?p = "skip_whitespace (skip_bytes 1 p)"
  have "parser_advances p (skip_bytes (Suc 0) p)" by (rule parser_advances_ascii1 [OF p(2)]) simp
  then have adv: "parser_advances p ?p" using parser_advances_trans [OF _ parser_advances_whitespace] by simp
  show ?thesis
  proof (cases "consume_if 93 ?p")
    case None
    then obtain vs where vs: "parse_elements limits depth [] ?p = Inr (vs, q)" "v = JsonArray vs"
      using run by (auto simp: parse_array.simps Let_def)
    show ?thesis
      using parse_elements_sound [OF sound vs(1)] adv p vs(2) by (simp add: parser_advances_def)
  next
    case (Some r)
    then show ?thesis
      using run adv p parser_advances_consume [OF Some] by (auto simp: parse_array.simps Let_def parser_advances_def)
  qed
qed

lemma parse_object_sound:
  assumes sound: "value_sound limits (Suc depth)" and run: "parse_object limits depth p = Inr (v, q)"
    and p: "valid_utf8 (jp_rest p)" "jp_rest p = 123 # rest" "jp_nodes p \<le> jl_max_nodes limits" "depth \<le> jl_max_depth limits"
  shows "valid_utf8 (jp_rest q) \<and> json_ok v \<and> json_within limits depth v \<and>
    Suc (jp_nodes q) = jp_nodes p + json_nodes v \<and> jp_nodes q \<le> jl_max_nodes limits"
proof -
  let ?p = "skip_whitespace (skip_bytes 1 p)"
  have "parser_advances p (skip_bytes (Suc 0) p)" by (rule parser_advances_ascii1 [OF p(2)]) simp
  then have adv: "parser_advances p ?p" using parser_advances_trans [OF _ parser_advances_whitespace] by simp
  show ?thesis
  proof (cases "consume_if 125 ?p")
    case None
    then obtain es where es: "parse_members limits depth [] ?p = Inr (es, q)" "v = JsonObject es"
      using run by (auto simp: parse_object.simps Let_def)
    show ?thesis
      using parse_members_sound [OF sound es(1)] adv p es(2) by (simp add: parser_advances_def member_ok_def)
  next
    case (Some r)
    then show ?thesis
      using run adv p parser_advances_consume [OF Some] by (auto simp: parse_object.simps Let_def parser_advances_def)
  qed
qed

lemma parse_byte_sound:
  assumes sound: "value_sound limits (Suc depth)" and run: "parse_byte limits depth b p = Inr (v, q)"
    and p: "valid_utf8 (jp_rest p)" "jp_rest p = b # rest" "jp_nodes p \<le> jl_max_nodes limits" "depth \<le> jl_max_depth limits"
  shows "valid_utf8 (jp_rest q) \<and> json_ok v \<and> json_within limits depth v \<and>
    Suc (jp_nodes q) = jp_nodes p + json_nodes v \<and> jp_nodes q \<le> jl_max_nodes limits"
proof -
  have leaf: ?thesis if "parser_advances p q" "json_ok v" "json_nodes v = 1" "json_within limits depth v"
    using that p by (simp add: parser_advances_def)
  consider (literal) lit where "consume_literal lit p = Inr q" "list_all (\<lambda>b. b < 0x80) lit" "v \<in> {JsonNull, JsonBool True, JsonBool False}"
    | (string) s where "parse_string limits p = Inr (s, q)" "v = JsonString s"
    | (array) "b = 91" "parse_array limits depth p = Inr (v, q)"
    | (object) "b = 123" "parse_object limits depth p = Inr (v, q)"
    | (number) "parse_number p = Inr (v, q)"
    using run by (auto simp: parse_byte_def bytes_of_def split: if_splits)
  then show ?thesis
  proof cases
    case literal
    then show ?thesis using parser_advances_literal p(4) by (intro leaf) auto
  next
    case string
    then show ?thesis using parse_string_sound [OF string(1) p(1)] p(4) by (intro leaf) simp_all
  next
    case array
    then show ?thesis using parse_array_sound [OF sound array(2) p(1)] p by simp
  next
    case object
    then show ?thesis using parse_object_sound [OF sound object(2) p(1)] p by simp
  next
    case number
    then show ?thesis using parse_number_sound [OF number] p(4) by (intro leaf) simp_all
  qed
qed

lemma parse_value_byte:
  assumes "parse_value limits depth p = Inr (v, q)" "jl_max_nodes limits < 2 ^ 64 - 1"
  obtains b rest r where "depth \<le> jl_max_depth limits" "r = skip_whitespace (p\<lparr>jp_nodes := Suc (jp_nodes p)\<rparr>)"
    "jp_rest r = b # rest" "Suc (jp_nodes p) \<le> jl_max_nodes limits" "parse_byte limits depth b r = Inr (v, q)"
proof -
  let ?r = "skip_whitespace (p\<lparr>jp_nodes := Suc (jp_nodes p)\<rparr>)"
  have run: "depth \<le> jl_max_depth limits" "min (Suc (jp_nodes p)) (2 ^ 64 - 1) \<le> jl_max_nodes limits"
    using assms(1) by (auto simp: parse_value.simps [of limits depth p] Let_def split: if_splits)
  then have min: "min (Suc (jp_nodes p)) (2 ^ 64 - 1) = Suc (jp_nodes p)" using assms(2) by linarith
  have "(case jp_rest ?r of [] \<Rightarrow> Inl (parser_error ?r UnexpectedEnd) | b # _ \<Rightarrow> parse_byte limits depth b ?r) = Inr (v, q)"
    using assms(1) run unfolding parse_value.simps [of limits depth p] min Let_def parse_byte_def
    by (simp add: not_less [symmetric])
  then show thesis using that [OF run(1) refl] run(2) min by (cases "jp_rest ?r") simp_all
qed

lemma value_soundness: "jl_max_nodes limits < 2 ^ 64 - 1 \<Longrightarrow> value_sound limits depth"
proof (induction "Suc (jl_max_depth limits) - depth" arbitrary: depth)
  case 0
  then show ?case
    unfolding value_sound_def by (auto elim!: parse_value_byte)
next
  case (Suc n)
  then have sound: "value_sound limits (Suc depth)" by simp
  show ?case
    unfolding value_sound_def
  proof (intro allI impI)
    fix p v q
    assume valid: "valid_utf8 (jp_rest p)" and run: "parse_value limits depth p = Inr (v, q)"
    obtain b rest r where r: "depth \<le> jl_max_depth limits" "r = skip_whitespace (p\<lparr>jp_nodes := Suc (jp_nodes p)\<rparr>)"
      "jp_rest r = b # rest" "Suc (jp_nodes p) \<le> jl_max_nodes limits" "parse_byte limits depth b r = Inr (v, q)"
      using parse_value_byte [OF run Suc.prems] .
    have "valid_utf8 (jp_rest r)" "jp_nodes r = Suc (jp_nodes p)"
      using parser_advances_whitespace [of "p\<lparr>jp_nodes := Suc (jp_nodes p)\<rparr>"] valid r(2) by (simp_all add: parser_advances_def)
    with parse_byte_sound [OF sound r(5) this(1) r(3)] r(1,4)
    show "valid_utf8 (jp_rest q) \<and> json_ok v \<and> json_within limits depth v \<and>
        jp_nodes q = jp_nodes p + json_nodes v \<and> jp_nodes q \<le> jl_max_nodes limits" by simp
  qed
qed

text \<open>
  Whatever bytes arrive, a value that the parser accepts is one of Rust's type (UTF-8 texts, 64-bit
  integers, objects whose keys ascend and do not repeat) and within all four limits: its depth, its
  number of values, the bytes of its strings and keys, and the length of its arrays and objects.
\<close>

theorem json_parse_bounded:
  assumes "json_parse input limits = Inr v" "jl_max_nodes limits < 2 ^ 64 - 1"
  shows "valid_utf8 input \<and> json_ok v \<and> json_within limits 0 v \<and> json_nodes v \<le> jl_max_nodes limits"
proof -
  let ?p = "\<lparr>jp_rest = input, jp_offset = 0, jp_nodes = 0\<rparr>"
  obtain q where valid: "valid_utf8 input" and run: "parse_value limits 0 (skip_whitespace ?p) = Inr (v, q)"
    using assms(1) by (auto simp: json_parse_def Let_def split: if_splits)
  have "valid_utf8 (jp_rest (skip_whitespace ?p))" "jp_nodes (skip_whitespace ?p) = 0"
    using parser_advances_whitespace [of ?p] valid by (simp_all add: parser_advances_def)
  moreover have "valid_utf8 (jp_rest q) \<and> json_ok v \<and> json_within limits 0 v \<and>
      jp_nodes q = jp_nodes (skip_whitespace ?p) + json_nodes v \<and> jp_nodes q \<le> jl_max_nodes limits"
    using value_soundness [OF assms(2), of 0] run calculation(1) unfolding value_sound_def by blast
  ultimately show ?thesis using valid by simp
qed

end
