(* ===== verification/Jwt_Proofs.thy ===== *)
theory Jwt_Proofs
  imports Jwt Json_Sound
begin

text \<open>
  Tokens: what the verifier accepts, and that it accepts what was issued.
\<close>

subsection \<open>Segments\<close>

lemma split_at_join: "\<exists>s ss. split_at sep bs = s # ss \<and> bs = s @ concat (map ((#) sep) ss)"
proof (induction bs)
  case (Cons b bs)
  then obtain s ss where "split_at sep bs = s # ss" "bs = s @ concat (map ((#) sep) ss)" by blast
  then show ?case by (cases "b = sep") simp_all
qed simp

lemma split_at_none: "sep \<notin> set bs \<Longrightarrow> split_at sep bs = [bs]"
  by (induction bs) auto

lemma split_at_first: "sep \<notin> set s \<Longrightarrow> split_at sep (s @ sep # bs) = s # split_at sep bs"
  by (induction s) auto

lemma token_segments_Inr:
  "token_segments token = Inr (h, p, s) \<longleftrightarrow> token = h @ 46 # p @ 46 # s \<and> h \<noteq> [] \<and> p \<noteq> [] \<and> s \<noteq> [] \<and>
     46 \<notin> set h \<and> 46 \<notin> set p \<and> 46 \<notin> set s" (is "?L \<longleftrightarrow> ?R")
proof
  assume ?L
  then have split: "split_at 46 token = [h, p, s]" and full: "h \<noteq> [] \<and> p \<noteq> [] \<and> s \<noteq> []"
    by (auto simp: token_segments_def split: list.splits if_splits)
  then have "token = h @ 46 # p @ 46 # s" using split_at_join [of 46 token] by auto
  moreover have "46 \<notin> set t" if "t \<in> set (split_at 46 bs)" for t bs
    using that
  proof (induction bs arbitrary: t)
    case (Cons b bs)
    then show ?case by (auto split: if_splits list.splits)
  qed simp
  ultimately show ?R using split full by (metis list.set_intros)
next
  assume ?R
  then show ?L by (simp add: token_segments_def split_at_first split_at_none)
qed

lemma no_dot_encoded: "46 \<notin> set (base64url_encode bs)"
proof -
  have "list_all (\<lambda>b. b \<noteq> 46) ALPHABET" by (simp add: ALPHABET_def bytes_of_def)
  then have "ALPHABET ! unat v \<noteq> 46" if "v < 64" for v :: "8 word"
    using that by (simp add: list_all_length length_ALPHABET word_less_nat_alt)
  then show ?thesis using encode_values_less [of bs] by (auto simp: encode_render list_all_iff)
qed

lemma encoded_empty: "base64url_encode bs = [] \<longleftrightarrow> bs = []"
  by (cases bs rule: base64url_encode.cases) (simp_all add: Let_def)

subsection \<open>Headers\<close>

lemma token_header_eq:
  "token_header RouteLegacy = [(bytes_of ''alg'', JsonString (bytes_of ''HS256'')), (bytes_of ''typ'', JsonString (bytes_of ''JWT''))]"
  "token_header (RouteEpoch e) = [(bytes_of ''alg'', JsonString (bytes_of ''HS256'')),
     (bytes_of ''kid'', JsonString (EPOCH_KEY_ID_PREFIX @ decimal_digits (unat e))), (bytes_of ''typ'', JsonString (bytes_of ''JWT''))]"
  by (simp_all add: token_header_def bytes_of_def)

lemma key_id_epoch_digits:
  assumes "e \<noteq> 0" shows "key_id_epoch (EPOCH_KEY_ID_PREFIX @ decimal_digits (unat e)) = Some e"
proof -
  obtain d ds where d: "decimal_digits (unat e) = d # ds" "if unat e = 0 then d = 48 \<and> ds = [] else 49 \<le> d"
    using decimal_digits_first by blast
  then have "d \<noteq> 48" using assms by (auto simp: unat_eq_zero)
  moreover have "unat e < 2 ^ 32" using unsigned_less [of e, where 'a = nat] by simp
  ultimately show ?thesis
    using d decimal_digits_value [of "unat e"] decimal_digits_all [of "unat e"] assms
    by (simp add: key_id_epoch_def strip_prefix_def unat_eq_zero)
qed

lemma header_accepted:
  assumes "route \<noteq> RouteEpoch 0" "route = RouteLegacy \<longrightarrow> vf_allow_legacy_without_key_id profile"
    "5 \<le> vf_max_header_bytes profile"
  shows "check_header (token_header route) profile = Inr route"
  using assms key_id_epoch_digits
  by (cases route)
    (auto simp: check_header_def token_header_eq validate_header_fields_def known_header_field_def
      required_string_def parse_route_def bytes_of_def)

lemma header_texts:
  "valid_utf8 (bytes_of ''alg'')" "valid_utf8 (bytes_of ''typ'')" "valid_utf8 (bytes_of ''kid'')"
  "valid_utf8 (bytes_of ''HS256'')" "valid_utf8 (bytes_of ''JWT'')" "valid_utf8 EPOCH_KEY_ID_PREFIX"
  "bytes_of ''alg'' < bytes_of ''kid''" "bytes_of ''kid'' < bytes_of ''typ''" "bytes_of ''alg'' < bytes_of ''typ''"
  by (simp_all add: bytes_of_def EPOCH_KEY_ID_PREFIX_def)

lemma token_header_ok: "json_ok (JsonObject (token_header route))"
  by (cases route) (simp_all add: token_header_eq header_texts valid_utf8_concat valid_decimal_digits)

lemma token_header_form: "parsed_form (JsonObject (token_header route)) = JsonObject (token_header route)"
  by (cases route) (simp_all add: token_header_eq)

subsection \<open>Claims read back\<close>

abbreviation parsed_entries :: "JsonEntries \<Rightarrow> JsonEntries" where
  "parsed_entries es \<equiv> map (\<lambda>e. (fst e, parsed_form (snd e))) es"

lemma map_of_parsed: "map_of (parsed_entries es) k = map_option parsed_form (map_of es k)"
  by (induction es) auto

lemma as_str_parsed [simp]: "as_str (parsed_form v) = as_str v"
  by (cases v) simp_all

lemma as_object_parsed [simp]: "as_object (parsed_form v) = map_option parsed_entries (as_object v)"
  by (cases v) simp_all

lemma as_number_parsed:
  assumes "json_ok v" shows "as_u64 (parsed_form v) = as_u64 v" "as_i64 (parsed_form v) = as_i64 v"
proof -
  have "uint (of_int n :: u64) = n" if "0 \<le> n" "n < 2 ^ 63" for n
    using that by (simp add: uint_word_of_int)
  then show "as_u64 (parsed_form v) = as_u64 v" "as_i64 (parsed_form v) = as_i64 v"
    using assms by (cases v; simp add: i64_checked_def)+
qed

lemma string_claims_parsed:
  "required_string (parsed_entries es) name limit = required_string es name limit"
  "optional_string (parsed_entries es) name = optional_string es name"
  "bounded_required_string (parsed_entries es) name limit = bounded_required_string es name limit"
  "bounded_optional_string (parsed_entries es) name limit = bounded_optional_string es name limit"
  by (cases "map_of es name"; simp add: required_string_def optional_string_def bounded_required_string_def
      bounded_optional_string_def map_of_parsed)+

lemma json_ok_entry: "json_ok (JsonObject es) \<Longrightarrow> map_of es k = Some v \<Longrightarrow> json_ok v"
  by (fastforce dest: map_of_SomeD)

lemma numeric_date_parsed:
  "json_ok (JsonObject es) \<Longrightarrow> numeric_date (parsed_entries es) name required = numeric_date es name required"
  by (cases "map_of es name") (simp_all add: numeric_date_def map_of_parsed as_number_parsed [OF json_ok_entry] del: json_ok.simps)

lemma validate_epoch_claim_parsed:
  "json_ok (JsonObject es) \<Longrightarrow> validate_epoch_claim (parsed_entries es) route profile = validate_epoch_claim es route profile"
  by (cases "map_of es (cm_key_epoch (vf_claims profile))"; cases route)
    (simp_all add: validate_epoch_claim_def map_of_parsed as_number_parsed [OF json_ok_entry] Let_def del: json_ok.simps)

lemma validate_variables_parsed: "validate_variables (parsed_entries es) profile = validate_variables es profile"
proof -
  have "check_variable profile (fst e, parsed_form (snd e)) = check_variable profile e" for e
    by (cases e) (simp add: check_variable_def)
  then have "mapE (check_variable profile) (parsed_entries vs) = mapE (check_variable profile) vs" for vs
    by (induction vs) simp_all
  note variables = this
  show ?thesis
  proof (cases "cm_variables (vf_claims profile)")
    case (Some name)
    then show ?thesis
    proof (cases "map_of es name")
      case found: (Some v)
      then show ?thesis
        using Some variables by (cases "as_object v") (simp_all add: validate_variables_def map_of_parsed)
    qed (simp add: validate_variables_def map_of_parsed)
  qed (simp add: validate_variables_def)
qed

lemma validate_audience_parsed: "validate_audience (map_option parsed_form v) = validate_audience v"
proof (cases v)
  case (Some v)
  then show ?thesis by (cases v) (simp_all add: validate_audience_def comp_def)
qed (simp add: validate_audience_def)

lemma validate_claims_parsed:
  "json_ok (JsonObject es) \<Longrightarrow> jwt_validate_claims (parsed_entries es) route profile now = jwt_validate_claims es route profile now"
  unfolding jwt_validate_claims_def validate_username_def
  by (simp only: string_claims_parsed validate_variables_parsed validate_audience_parsed map_of_parsed
      numeric_date_parsed validate_epoch_claim_parsed)

subsection \<open>What was issued verifies\<close>

text \<open>A profile whose JSON limits admit a value.\<close>

definition limits_admit :: "JsonLimits \<Rightarrow> JsonValue \<Rightarrow> bool" where
  "limits_admit limits v \<longleftrightarrow> json_within limits 0 v \<and> json_nodes v \<le> jl_max_nodes limits \<and> jl_max_nodes limits < 2 ^ 64"

definition verified :: "TokenRoute \<Rightarrow> JsonValue \<Rightarrow> ValidatedClaims \<Rightarrow> VerifiedJwt" where
  "verified route claims validated = \<lparr>vj_route = route, vj_principal = vc_principal validated,
     vj_issued_at = vc_issued_at validated, vj_not_before = vc_not_before validated,
     vj_expires_at = vc_expires_at validated, vj_issuer = vc_issuer validated,
     vj_audiences = vc_audiences validated, vj_claims = claims\<rparr>"

lemma base64url_decode_encode: "length bs \<le> limit \<Longrightarrow> base64url_decode (base64url_encode bs) limit = Inr bs"
  by (simp add: base64url_roundtrip)

lemma issue_with_route_run:
  assumes "issue_with_route mac claims route key profile = Inr token"
  obtains h p where "to_canonical_bytes (JsonObject (token_header route)) (vf_max_header_bytes profile) = Inr h"
    "to_canonical_bytes claims (vf_max_payload_bytes profile) = Inr p"
    "token = base64url_encode h @ 46 # base64url_encode p @ 46 #
       base64url_encode (hmac_sha256 mac key [base64url_encode h, [46], base64url_encode p])"
    "length token \<le> vf_max_token_bytes profile" "length h \<le> vf_max_header_bytes profile" "length p \<le> vf_max_payload_bytes profile"
  using assms that
  by (auto simp: issue_with_route_def Let_def to_canonical_bytes_eq not_less split: if_splits)

lemma json_bytes_nonempty: "json_bytes v \<noteq> []"
  using json_bytes_first [of v] by auto

lemma verifies_issued:
  assumes issue: "issue_with_route mac (JsonObject claims) route key profile = Inr token"
    and profile: "profile_validate profile = Inr ()" and key: "key_for_route ring route = Inr key"
    and mac: "\<forall>k m. length (mac k m) = 32"
    and route: "route \<noteq> RouteEpoch 0" "route = RouteLegacy \<longrightarrow> vf_allow_legacy_without_key_id profile"
    and ok: "json_ok (JsonObject claims)"
    and admit: "limits_admit (vf_json_limits profile) (JsonObject claims)"
      "limits_admit (vf_json_limits profile) (JsonObject (token_header route))"
  shows "jwt_verify mac token ring profile now =
    tryE (jwt_validate_claims claims route profile now) (\<lambda>c. Inr (verified route (JsonObject (parsed_entries claims)) c))"
proof -
  let ?h = "json_bytes (JsonObject (token_header route))" and ?p = "json_bytes (JsonObject claims)"
  let ?s = "hmac_sha256 mac key [base64url_encode ?h, [46], base64url_encode ?p]"
  have token: "token = base64url_encode ?h @ 46 # base64url_encode ?p @ 46 # base64url_encode ?s"
    and len: "length token \<le> vf_max_token_bytes profile" "length ?h \<le> vf_max_header_bytes profile"
      "length ?p \<le> vf_max_payload_bytes profile"
    using issue by (auto simp: issue_with_route_def Let_def to_canonical_bytes_eq not_less split: if_splits)
  have s: "length ?s = 32" using mac by (simp add: hmac_sha256_def)
  then have "?s \<noteq> []" by auto
  then have segments: "token_segments token = Inr (base64url_encode ?h, base64url_encode ?p, base64url_encode ?s)"
    by (simp add: token_segments_Inr token no_dot_encoded encoded_empty json_bytes_nonempty del: json_bytes.simps)
  have header: "json_parse ?h (vf_json_limits profile) = Inr (JsonObject (token_header route))"
    using parse_json_bytes [OF token_header_ok, of "vf_json_limits profile"] admit(2) token_header_form
    by (simp add: limits_admit_def del: json_bytes.simps parsed_form.simps)
  have payload: "json_parse ?p (vf_json_limits profile) = Inr (JsonObject (parsed_entries claims))"
    using parse_json_bytes [OF ok, of "vf_json_limits profile"] admit(1) by (simp add: limits_admit_def del: json_bytes.simps)
  have alg: "length (bytes_of ''HS256'') \<le> vf_max_header_bytes profile"
    using len(2) by (cases route) (auto simp: token_header_eq string_bytes_def bytes_of_def)
  then have "check_header (token_header route) profile = Inr route"
    using header_accepted [OF route] by (simp add: bytes_of_def)
  moreover have "verify_signature mac key (base64url_encode ?h) (base64url_encode ?p) (base64url_encode ?s) = Inr ()"
    using s by (simp add: verify_signature_def base64url_decode_encode JWT_SIGNATURE_BYTES_def jwt_constant_time_eq_def del: json_bytes.simps)
  ultimately show ?thesis
    using profile len key segments header payload
    by (simp add: jwt_verify_def base64url_decode_encode validate_claims_parsed [OF ok] verified_def map_err_def del: json_bytes.simps json_ok.simps)
qed

lemma with_epoch_claim_ok:
  assumes "with_epoch_claim e profile claims = Inr claims'" "json_ok (JsonObject claims)" "valid_utf8 (cm_key_epoch (vf_claims profile))"
  shows "json_ok (JsonObject claims')"
proof (cases "map_of claims (cm_key_epoch (vf_claims profile))")
  case None
  then show ?thesis
    using assms by (auto simp: with_epoch_claim_def set_object_insert sorted_object_insert)
next
  case (Some v)
  then show ?thesis using assms by (auto simp: with_epoch_claim_def Let_def split: if_splits)
qed


subsection \<open>What the verifier accepts\<close>

lemma jwt_verify_run:
  assumes "jwt_verify mac token ring profile now = Inr vt"
  obtains h p s header claims key c where
    "token = base64url_encode h @ 46 # base64url_encode p @ 46 # base64url_encode s"
    "json_parse h (vf_json_limits profile) = Inr (JsonObject header)" "check_header header profile = Inr (vj_route vt)"
    "key_for_route ring (vj_route vt) = Inr key" "s = mac key (base64url_encode h @ 46 # base64url_encode p)" "length s = 32"
    "json_parse p (vf_json_limits profile) = Inr (JsonObject claims)"
    "jwt_validate_claims claims (vj_route vt) profile now = Inr c" "vt = verified (vj_route vt) (JsonObject claims) c"
    "length token \<le> vf_max_token_bytes profile" "length h \<le> vf_max_header_bytes profile" "length p \<le> vf_max_payload_bytes profile"
    "h \<noteq> []" "p \<noteq> []" "profile_validate profile = Inr ()"
proof -
  have object: "as_object v = Some es \<longleftrightarrow> v = JsonObject es" for v es by (cases v) auto
  obtain hs ps ss where token: "token = hs @ 46 # ps @ 46 # ss" "length token \<le> vf_max_token_bytes profile"
      and full: "hs \<noteq> []" "ps \<noteq> []" and segments: "token_segments token = Inr (hs, ps, ss)"
      and profile: "profile_validate profile = Inr ()"
    using assms by (auto simp: jwt_verify_def token_segments_Inr not_less split: if_splits)
  with assms obtain h header key p claims c where
      header: "base64url_decode hs (vf_max_header_bytes profile) = Inr h"
        "json_parse h (vf_json_limits profile) = Inr (JsonObject header)" "check_header header profile = Inr (vj_route vt)"
      and key: "key_for_route ring (vj_route vt) = Inr key" "verify_signature mac key hs ps ss = Inr ()"
      and payload: "base64url_decode ps (vf_max_payload_bytes profile) = Inr p"
        "json_parse p (vf_json_limits profile) = Inr (JsonObject claims)"
      and claims: "jwt_validate_claims claims (vj_route vt) profile now = Inr c" "vt = verified (vj_route vt) (JsonObject claims) c"
    by (auto simp: jwt_verify_def object verified_def split: if_splits)
  obtain s where s: "base64url_decode ss 32 = Inr s" "length s = 32" "s = mac key (hs @ 46 # ps)"
    using key(2) by (auto simp: verify_signature_def JWT_SIGNATURE_BYTES_def jwt_constant_time_eq_def hmac_sha256_def split: if_splits)
  have read: "hs = base64url_encode h" "ps = base64url_encode p" "ss = base64url_encode s"
    "length h \<le> vf_max_header_bytes profile" "length p \<le> vf_max_payload_bytes profile"
    using header(1) payload(1) s(1) by (simp_all add: base64url_roundtrip)
  show thesis
    by (rule that [of h p s header key claims c])
      (use token full profile header(2,3) key(1) payload(2) claims s(2,3) read in \<open>auto simp: encoded_empty\<close>)
qed

lemma check_header_route:
  "check_header header profile = Inr route \<Longrightarrow> route = RouteLegacy \<longleftrightarrow> map_of header (bytes_of ''kid'') = None"
  by (auto simp: check_header_def parse_route_def split: if_splits option.splits JsonValue.splits)

lemma numeric_date_Inr: "numeric_date claims name required = Inr t \<Longrightarrow>
    t = Option.bind (map_of claims name) as_i64 \<and> (required \<longrightarrow> t \<noteq> None)"
proof (cases "map_of claims name")
  case (Some v)
  assume "numeric_date claims name required = Inr t"
  with Some show ?thesis by (auto simp: numeric_date_def dest!: sym [of "Some _" "as_i64 _"] split: option.splits if_splits)
qed (auto simp: numeric_date_def split: if_splits)

lemma validate_times_Inr:
  assumes "validate_times profile now expires issued before = Inr ()"
  shows "expires = Some t \<Longrightarrow> now < t + vf_clock_skew_seconds profile"
    "before = Some t \<Longrightarrow> t \<le> now + vf_clock_skew_seconds profile"
    "issued = Some t \<Longrightarrow> t \<le> now + vf_clock_skew_seconds profile"
    "expires = Some t \<Longrightarrow> issued = Some t' \<Longrightarrow> vf_max_lifetime_seconds profile = Some l \<Longrightarrow>
       t' < t \<and> (of_int (t - t') :: u64) \<le> l"
  using assms by (simp_all add: validate_times_def Let_def linorder_not_le linorder_not_less split: if_splits)

text \<open>Digits without a leading zero are those of the number they denote.\<close>

lemma digits_value_pos: "list_all is_ascii_digit ds \<Longrightarrow> ds \<noteq> [] \<Longrightarrow> hd ds \<noteq> 48 \<Longrightarrow> 0 < digits_value ds"
proof (induction ds rule: rev_induct)
  case (snoc b ds)
  show ?case
  proof (cases "ds = []")
    case True
    then have "b \<noteq> 48" "48 \<le> b" using snoc.prems by (auto simp: is_ascii_digit_def)
    then have "unat (b - 48) \<noteq> 0" by (simp add: unat_eq_zero)
    then show ?thesis using True by (simp add: digits_value_def)
  next
    case False
    then show ?thesis using snoc by (simp add: digits_value_snoc)
  qed
qed simp

lemma decimal_digits_canonical:
  "list_all is_ascii_digit ds \<Longrightarrow> ds \<noteq> [] \<Longrightarrow> length ds = 1 \<or> hd ds \<noteq> 48 \<Longrightarrow> decimal_digits (digits_value ds) = ds"
proof (induction ds rule: rev_induct)
  case (snoc b ds)
  have b: "unat (b - 48) < 10" "b = 48 + of_nat (unat (b - 48))"
    using snoc.prems(1) by (auto simp: is_ascii_digit_def word_le_nat_alt unat_sub)
  show ?case
  proof (cases "ds = []")
    case True
    then show ?thesis using b(1) by (simp add: digits_value_def decimal_digits.simps [of "unat (b - 48)"])
  next
    case False
    then have "0 < digits_value ds" "decimal_digits (digits_value ds) = ds"
      using snoc digits_value_pos [of ds] by (auto simp: neq_Nil_conv)
    then show ?thesis
      using b(1) by (simp add: digits_value_snoc decimal_digits.simps [of "digits_value ds * 10 + unat (b - 48)"])
  qed
qed simp

lemma strip_prefix_Some: "strip_prefix prefix s = Some rest \<Longrightarrow> s = prefix @ rest"
  unfolding strip_prefix_def by (metis append_take_drop_id option.distinct(1) option.inject)

lemma key_id_epoch_Some:
  assumes "key_id_epoch key_id = Some e"
  shows "e \<noteq> 0 \<and> key_id = EPOCH_KEY_ID_PREFIX @ decimal_digits (unat e)"
proof -
  obtain ds where ds: "key_id = EPOCH_KEY_ID_PREFIX @ ds" "ds \<noteq> []" "\<not> (length ds > 1 \<and> take 1 ds = [48])"
      "list_all is_ascii_digit ds" "digits_value ds < 2 ^ 32" "digits_value ds \<noteq> 0" "e = of_nat (digits_value ds)"
    using assms unfolding key_id_epoch_def
    by (cases "strip_prefix EPOCH_KEY_ID_PREFIX key_id") (auto dest: strip_prefix_Some split: if_splits)
  then have "unat e = digits_value ds" by (simp add: unat_of_nat take_bit_nat_eq_self)
  moreover have "length ds = 1 \<or> hd ds \<noteq> 48" using ds(2,3) by (cases ds) auto
  ultimately show ?thesis using decimal_digits_canonical [OF ds(4,2)] ds by auto
qed


lemma check_header_Inr:
  assumes "check_header header profile = Inr route"
  shows "map_of header (bytes_of ''alg'') = Some (JsonString (bytes_of ''HS256''))"
    "map_of header (bytes_of ''crit'') = None" "map_of header (bytes_of ''b64'') = None"
    "route = RouteLegacy \<Longrightarrow> vf_allow_legacy_without_key_id profile \<and> map_of header (bytes_of ''kid'') = None"
    "route = RouteEpoch e \<Longrightarrow> e \<noteq> 0 \<and>
       map_of header (bytes_of ''kid'') = Some (JsonString (EPOCH_KEY_ID_PREFIX @ decimal_digits (unat e)))"
proof -
  have str: "as_str v = Some t \<longleftrightarrow> v = JsonString t" for v t by (cases v) auto
  have fields: "validate_header_fields header profile = Inr ()" and route: "parse_route header profile = Inr route"
    and alg: "required_string header (bytes_of ''alg'') (vf_max_header_bytes profile) = Inr (bytes_of ''HS256'')"
    using assms by (auto simp: check_header_def split: if_splits)
  show "map_of header (bytes_of ''alg'') = Some (JsonString (bytes_of ''HS256''))"
    using alg by (auto simp: required_string_def str split: if_splits)
  show "map_of header (bytes_of ''crit'') = None" "map_of header (bytes_of ''b64'') = None"
    using fields by (auto simp: validate_header_fields_def split: if_splits)
  show "vf_allow_legacy_without_key_id profile \<and> map_of header (bytes_of ''kid'') = None" if "route = RouteLegacy"
    using route that by (auto simp: parse_route_def split: if_splits option.splits JsonValue.splits)
  show "e \<noteq> 0 \<and> map_of header (bytes_of ''kid'') = Some (JsonString (EPOCH_KEY_ID_PREFIX @ decimal_digits (unat e)))"
    if "route = RouteEpoch e"
    using route that by (auto simp: parse_route_def dest: key_id_epoch_Some split: if_splits option.splits JsonValue.splits)
qed

text \<open>
  C10: An accepted token is authentic: it is the encoding of a header and a payload, joined by dots,
  and ends with the HMAC of exactly these bytes under a key that the ring holds; which key is the
  decision of the signed header alone, which names HS256 and no critical extension: the epoch
  of its key identity, or the legacy key when it has none and the profile admits that. The claims
  returned are the JSON object of the payload.
\<close>

theorem verified_jwt_authentic:
  assumes "jwt_verify mac token ring profile now = Inr vt"
  shows "\<exists>h p header key. token = base64url_encode h @ 46 # base64url_encode p @ 46 #
        base64url_encode (mac key (base64url_encode h @ 46 # base64url_encode p)) \<and>
      length token \<le> vf_max_token_bytes profile \<and>
      json_parse h (vf_json_limits profile) = Inr (JsonObject header) \<and>
      map_of header (bytes_of ''alg'') = Some (JsonString (bytes_of ''HS256'')) \<and>
      map_of header (bytes_of ''crit'') = None \<and> map_of header (bytes_of ''b64'') = None \<and>
      (case vj_route vt of
         RouteLegacy \<Rightarrow> vf_allow_legacy_without_key_id profile \<and> map_of header (bytes_of ''kid'') = None \<and>
           jk_legacy ring = Some key
       | RouteEpoch e \<Rightarrow> e \<noteq> 0 \<and> fmlookup (jk_epoch_keys ring) e = Some key \<and>
           map_of header (bytes_of ''kid'') = Some (JsonString (EPOCH_KEY_ID_PREFIX @ decimal_digits (unat e)))) \<and>
      json_parse p (vf_json_limits profile) = Inr (vj_claims vt)"
proof -
  obtain h p s header claims key c where
      token: "token = base64url_encode h @ 46 # base64url_encode p @ 46 # base64url_encode s"
        "s = mac key (base64url_encode h @ 46 # base64url_encode p)" "length token \<le> vf_max_token_bytes profile"
      and header: "json_parse h (vf_json_limits profile) = Inr (JsonObject header)" "check_header header profile = Inr (vj_route vt)"
      and key: "key_for_route ring (vj_route vt) = Inr key"
      and payload: "json_parse p (vf_json_limits profile) = Inr (JsonObject claims)" "vt = verified (vj_route vt) (JsonObject claims) c"
    using jwt_verify_run [OF assms] by metis
  have "vj_claims vt = JsonObject claims" by (subst payload(2)) (simp add: verified_def)
  then show ?thesis
    using token header(1) payload(1) check_header_Inr [OF header(2)] key
    by (intro exI [of _ h] exI [of _ p] exI [of _ header] exI [of _ key])
      (auto simp: key_for_route_def split: TokenRoute.split)
qed

text \<open>The validation of the claims, step by step.\<close>

lemma validate_claims_Inr:
  assumes "jwt_validate_claims claims route profile now = Inr c"
  shows "validate_epoch_claim claims route profile = Inr ()"
    "bounded_required_string claims (cm_subject (vf_claims profile)) (vf_max_subject_bytes profile) = Inr (pn_subject (vc_principal c))"
    "numeric_date claims (bytes_of ''exp'') (vf_require_expiration profile) = Inr (vc_expires_at c)"
    "numeric_date claims (bytes_of ''iat'') (vf_require_issued_at profile) = Inr (vc_issued_at c)"
    "numeric_date claims (bytes_of ''nbf'') False = Inr (vc_not_before c)"
    "validate_times profile now (vc_expires_at c) (vc_issued_at c) (vc_not_before c) = Inr ()"
    "vf_required_issuer profile \<noteq> None \<Longrightarrow> vc_issuer c = vf_required_issuer profile"
    "vf_required_audience profile = Some a \<Longrightarrow> a \<in> set (vc_audiences c)"
  using assms unfolding jwt_validate_claims_def by (auto split: if_splits)


text \<open>A date read from a payload is a nonnegative 64-bit integer, and the one the payload has.\<close>

lemma numeric_date_read:
  assumes "numeric_date claims name required = Inr (Some t)" "json_ok (JsonObject claims)"
  shows "0 \<le> t \<and> t < 2 ^ 63"
proof -
  obtain v where v: "map_of claims name = Some v" "as_i64 v = Some t" "0 \<le> t"
    using assms(1) by (auto simp: numeric_date_def split: option.splits if_splits)
  then show ?thesis
    using json_ok_entry [OF assms(2) v(1)] by (cases v) (auto simp: i64_checked_def split: if_splits)
qed

lemma lifetime_seconds:
  assumes "numeric_date claims n r = Inr (Some t)" "numeric_date claims n' r' = Inr (Some t')" "json_ok (JsonObject claims)" "t' < t"
  shows "uint (of_int (t - t') :: u64) = t - t'"
proof -
  have "uint (of_int n :: u64) = n" if "0 \<le> n" "n < 2 ^ 63" for n
    using that by (simp add: uint_word_of_int)
  from this [of "t - t'"] show ?thesis
    using numeric_date_read [OF assms(1,3)] numeric_date_read [OF assms(2,3)] assms(4) by linarith
qed

lemma validate_epoch_claim_Inr:
  assumes "validate_epoch_claim claims route profile = Inr ()"
  shows "route = RouteLegacy \<Longrightarrow> map_of claims (cm_key_epoch (vf_claims profile)) = None"
    "route = RouteEpoch e \<Longrightarrow> map_of claims (cm_key_epoch (vf_claims profile)) = Some v \<Longrightarrow> as_u64 v = Some (ucast e)"
    "route = RouteEpoch e \<Longrightarrow> vf_require_epoch_claim profile \<Longrightarrow> map_of claims (cm_key_epoch (vf_claims profile)) \<noteq> None"
  using assms by (auto simp: validate_epoch_claim_def Let_def split: option.splits if_splits TokenRoute.splits)

lemma bounded_required_Inr:
  "bounded_required_string claims name limit = Inr s \<Longrightarrow>
     map_of claims name = Some (JsonString s) \<and> s \<noteq> [] \<and> length s \<le> limit"
proof -
  have str: "as_str v = Some t \<longleftrightarrow> v = JsonString t" for v t by (cases v) auto
  show "bounded_required_string claims name limit = Inr s \<Longrightarrow> ?thesis"
    by (auto simp: bounded_required_string_def required_string_def str split: if_splits)
qed

text \<open>
  C12: An accepted token is current and complete: its subject is the nonempty text the payload
  has, its dates are those of the payload, required ones present, and up to the clock skew it is
  not expired, not from the future and, with both dates, not longer lived than the profile
  allows; the key epoch in the signed claims is the epoch of the key that was used, and there is none under
  the legacy key; issuer and audience are the required ones.
\<close>

theorem verified_jwt_current:
  assumes run: "jwt_verify mac token ring profile now = Inr vt"
    and nodes: "jl_max_nodes (vf_json_limits profile) < 2 ^ 64 - 1"
  shows "\<exists>claims. vj_claims vt = JsonObject claims \<and>
      map_of claims (cm_subject (vf_claims profile)) = Some (JsonString (pn_subject (vj_principal vt))) \<and>
      pn_subject (vj_principal vt) \<noteq> [] \<and> length (pn_subject (vj_principal vt)) \<le> vf_max_subject_bytes profile \<and>
      (case vj_route vt of
         RouteLegacy \<Rightarrow> map_of claims (cm_key_epoch (vf_claims profile)) = None
       | RouteEpoch e \<Rightarrow> (case map_of claims (cm_key_epoch (vf_claims profile)) of
             None \<Rightarrow> \<not> vf_require_epoch_claim profile
           | Some v \<Rightarrow> as_u64 v = Some (ucast e))) \<and>
      vj_expires_at vt = Option.bind (map_of claims (bytes_of ''exp'')) as_i64 \<and>
      vj_issued_at vt = Option.bind (map_of claims (bytes_of ''iat'')) as_i64 \<and>
      vj_not_before vt = Option.bind (map_of claims (bytes_of ''nbf'')) as_i64 \<and>
      (case vj_expires_at vt of None \<Rightarrow> \<not> vf_require_expiration profile | Some t \<Rightarrow> now < t + vf_clock_skew_seconds profile) \<and>
      (case vj_issued_at vt of None \<Rightarrow> \<not> vf_require_issued_at profile | Some t \<Rightarrow> t \<le> now + vf_clock_skew_seconds profile) \<and>
      (case vj_not_before vt of None \<Rightarrow> True | Some t \<Rightarrow> t \<le> now + vf_clock_skew_seconds profile) \<and>
      (case (vj_expires_at vt, vj_issued_at vt, vf_max_lifetime_seconds profile) of
         (Some expires, Some issued, Some limit) \<Rightarrow> issued < expires \<and> expires - issued \<le> uint limit | _ \<Rightarrow> True) \<and>
      (case vf_required_issuer profile of None \<Rightarrow> True | Some issuer \<Rightarrow> vj_issuer vt = Some issuer) \<and>
      (case vf_required_audience profile of None \<Rightarrow> True | Some audience \<Rightarrow> audience \<in> set (vj_audiences vt))"
proof -
  obtain p claims c where payload: "json_parse p (vf_json_limits profile) = Inr (JsonObject claims)"
      and validated: "jwt_validate_claims claims (vj_route vt) profile now = Inr c"
      and vt: "vt = verified (vj_route vt) (JsonObject claims) c"
    using jwt_verify_run [OF run] by metis
  have fields: "vj_claims vt = JsonObject claims" "vj_principal vt = vc_principal c" "vj_issued_at vt = vc_issued_at c"
      "vj_not_before vt = vc_not_before c" "vj_expires_at vt = vc_expires_at c" "vj_issuer vt = vc_issuer c"
      "vj_audiences vt = vc_audiences c"
    by (subst vt, simp add: verified_def)+
  note checks = validate_claims_Inr [OF validated]
  note times = validate_times_Inr [OF checks(6)]
  have "json_ok (JsonObject claims)" using json_parse_bounded [OF payload nodes] by blast
  then have lifetime: "issued < expires \<and> expires - issued \<le> uint limit"
    if "vc_expires_at c = Some expires" "vc_issued_at c = Some issued" "vf_max_lifetime_seconds profile = Some limit"
    for expires issued limit
    using times(4) [OF that] lifetime_seconds checks(3,4) that by (metis word_le_def)
  show ?thesis
    unfolding fields
  proof (intro exI [of _ claims] conjI)
    show "case vj_route vt of
         RouteLegacy \<Rightarrow> map_of claims (cm_key_epoch (vf_claims profile)) = None
       | RouteEpoch e \<Rightarrow> (case map_of claims (cm_key_epoch (vf_claims profile)) of
             None \<Rightarrow> \<not> vf_require_epoch_claim profile
           | Some v \<Rightarrow> as_u64 v = Some (ucast e))"
      using validate_epoch_claim_Inr [OF checks(1)] by (auto split: TokenRoute.split option.split)
  qed (use bounded_required_Inr [OF checks(2)] checks(3-5) [THEN numeric_date_Inr] times(1-3) lifetime checks(7,8)
      in \<open>auto split: option.split\<close>)
qed

end
