(* ===== verification/Jwt_Provider.thy ===== *)
theory Jwt_Provider
  imports Jwt_Proofs Key_Provider
begin

text \<open>
  Authentication of a token by an opaque provider
  (\<open>crates/trnm-token-jwt-provider-adapter/src/lib.rs\<close>), and its agreement with the codec. The crate
  repeats the codec's routes and its reading of key identities, which are therefore those of the
  theory \<open>Jwt\<close>; a resolver is a function of domain and route.
\<close>

subsection \<open>The provider's view of a token\<close>

record AuthenticationProfile =
  ap_domain :: KeyDomain
  ap_max_token_bytes :: usize
  ap_max_header_bytes :: usize
  ap_max_payload_bytes :: usize
  ap_allow_legacy_without_key_id :: bool
  ap_reject_unknown_header_fields :: bool
  ap_json_limits :: JsonLimits

definition AuthenticationProfile_default :: AuthenticationProfile where
  "AuthenticationProfile_default = \<lparr>ap_domain = DomainAccessToken, ap_max_token_bytes = 32 * 1024,
     ap_max_header_bytes = 1024, ap_max_payload_bytes = 16 * 1024, ap_allow_legacy_without_key_id = True,
     ap_reject_unknown_header_fields = True, ap_json_limits = JsonLimits_default\<rparr>"

datatype AuthenticationError =
    AuInvalidProfile
  | AuTokenTooLarge usize
  | AuSegmentCount | AuEmptySegment | AuHeaderDecode | AuHeaderJson | AuHeaderNotObject
  | AuAlgorithmMissing | AuUnsupportedAlgorithm | AuInvalidType | AuUnknownHeaderField
  | AuLegacyRouteForbidden | AuInvalidKeyId | AuUnknownKey | AuSignatureDecode
  | AuSignatureLength usize
  | AuProvider ProviderError
  | AuSignatureRejected | AuPayloadDecode | AuPayloadJson

type_synonym KeyResolver = "KeyDomain \<Rightarrow> TokenRoute \<Rightarrow> AuthenticationError + KeyReference"

definition auth_profile_validate :: "AuthenticationProfile \<Rightarrow> AuthenticationError + unit" where
  "auth_profile_validate p =
     (if ap_max_token_bytes p = 0 \<or> ap_max_header_bytes p = 0 \<or> ap_max_payload_bytes p = 0 \<or>
         ap_max_header_bytes p \<ge> ap_max_token_bytes p \<or> ap_max_payload_bytes p \<ge> ap_max_token_bytes p
      then Inl AuInvalidProfile else Inr ())"

record AuthenticatedJwt =
  aj_route :: TokenRoute
  aj_key :: KeyReference
  aj_payload_bytes :: "u8 list"

definition parse_claims :: "AuthenticatedJwt \<Rightarrow> JsonLimits \<Rightarrow> AuthenticationError + JsonValue" where
  "parse_claims a limits = map_err (\<lambda>_. AuPayloadJson) (json_parse (aj_payload_bytes a) limits)"

definition auth_validate_header :: "JsonEntries \<Rightarrow> AuthenticationProfile \<Rightarrow> AuthenticationError + unit" where
  "auth_validate_header header profile =
     tryE (if ap_reject_unknown_header_fields profile
           then forE (\<lambda>(key, _). if known_header_field key then Inr () else Inl AuUnknownHeaderField) header
           else Inr ()) (\<lambda>_.
     tryE (ok_or AuAlgorithmMissing (Option.bind (map_of header (bytes_of ''alg'')) as_str)) (\<lambda>algorithm.
     if algorithm \<noteq> bytes_of ''HS256'' then Inl AuUnsupportedAlgorithm
     else if (case map_of header (bytes_of ''typ'') of
         Some v \<Rightarrow> as_str v \<noteq> Some (bytes_of ''JWT'') | None \<Rightarrow> False) then Inl AuInvalidType
     else Inr ()))"

definition auth_route :: "JsonEntries \<Rightarrow> AuthenticationProfile \<Rightarrow> AuthenticationError + TokenRoute" where
  "auth_route header profile = (case map_of header (bytes_of ''kid'') of
       None \<Rightarrow> if ap_allow_legacy_without_key_id profile then Inr RouteLegacy else Inl AuLegacyRouteForbidden
     | Some (JsonString key_id) \<Rightarrow> ok_or AuInvalidKeyId (map_option RouteEpoch (key_id_epoch key_id))
     | Some _ \<Rightarrow> Inl AuInvalidKeyId)"

definition auth_segments :: "u8 list \<Rightarrow> AuthenticationError + u8 list \<times> u8 list \<times> u8 list" where
  "auth_segments token = (case split_at 46 token of
       [header, payload, signature] \<Rightarrow>
         if header = [] \<or> payload = [] \<or> signature = [] then Inl AuEmptySegment
         else Inr (header, payload, signature)
     | _ \<Rightarrow> Inl AuSegmentCount)"

definition auth_signature ::
    "Hs256Provider \<Rightarrow> KeyReference \<Rightarrow> u8 list \<Rightarrow> u8 list \<Rightarrow> u8 list \<Rightarrow> AuthenticationError + unit" where
  "auth_signature provider key header_segment payload_segment signature_segment =
     tryE (map_err (\<lambda>_. AuSignatureDecode) (base64url_decode signature_segment SIGNATURE_BYTES)) (\<lambda>signature.
     if length signature \<noteq> SIGNATURE_BYTES then Inl (AuSignatureLength (length signature))
     else
     tryE (map_err AuProvider (verify_exact provider key (header_segment @ 46 # payload_segment) signature)) (\<lambda>decision.
     if decision \<noteq> Accepted then Inl AuSignatureRejected else Inr ()))"

definition jwt_authenticate ::
    "u8 list \<Rightarrow> AuthenticationProfile \<Rightarrow> KeyResolver \<Rightarrow> Hs256Provider \<Rightarrow> AuthenticationError + AuthenticatedJwt" where
  "jwt_authenticate token profile resolver provider =
     tryE (auth_profile_validate profile) (\<lambda>_.
     if length token > ap_max_token_bytes profile then Inl (AuTokenTooLarge (length token))
     else
     tryE (auth_segments token) (\<lambda>(header_segment, payload_segment, signature_segment).
     tryE (map_err (\<lambda>_. AuHeaderDecode) (base64url_decode header_segment (ap_max_header_bytes profile))) (\<lambda>header_bytes.
     tryE (map_err (\<lambda>_. AuHeaderJson) (json_parse header_bytes (ap_json_limits profile))) (\<lambda>header.
     tryE (ok_or AuHeaderNotObject (as_object header)) (\<lambda>header.
     tryE (auth_validate_header header profile) (\<lambda>_.
     tryE (auth_route header profile) (\<lambda>route.
     tryE (resolver (ap_domain profile) route) (\<lambda>key.
     tryE (auth_signature provider key header_segment payload_segment signature_segment) (\<lambda>_.
     tryE (map_err (\<lambda>_. AuPayloadDecode) (base64url_decode payload_segment (ap_max_payload_bytes profile))) (\<lambda>payload_bytes.
     Inr \<lparr>aj_route = route, aj_key = key, aj_payload_bytes = payload_bytes\<rparr>))))))))))"

subsection \<open>What the provider authenticates\<close>

lemma auth_segments_Inr: "auth_segments token = Inr t \<longleftrightarrow> token_segments token = Inr t"
  by (simp add: auth_segments_def token_segments_def split: list.split)

lemma map_err_Inr: "map_err f r = Inr x \<longleftrightarrow> r = Inr x"
  by (cases r) (simp_all add: map_err_def)

lemma auth_header_agrees:
  assumes "check_header header profile = Inr route"
    "ap_reject_unknown_header_fields ap = vf_reject_unknown_header_fields profile"
    "ap_allow_legacy_without_key_id ap = vf_allow_legacy_without_key_id profile"
  shows "auth_validate_header header ap = Inr ()" "auth_route header ap = Inr route"
proof -
  have fields: "forE (\<lambda>(key, _). if known_header_field key then Inr () else Inl AuUnknownHeaderField) es = Inr ()"
    if "forE (\<lambda>(key, _). if known_header_field key then Inr () else Inl (UnknownHeaderField key)) es = Inr ()" for es :: JsonEntries
    using that by (induction es) (auto split: if_splits)
  show "auth_validate_header header ap = Inr ()"
    using assms check_header_Inr(1) [OF assms(1)]
    by (auto simp: auth_validate_header_def check_header_def validate_header_fields_def intro: fields split: if_splits)
  show "auth_route header ap = Inr route"
    using assms by (auto simp: auth_route_def check_header_def parse_route_def split: if_splits option.splits JsonValue.splits)
qed


text \<open>
  What was authenticated is what was signed: the provider accepted exactly the bytes before the
  second dot, under the reference that was resolved for the route in the header.
\<close>

lemma authenticated_exact_input:
  assumes "jwt_authenticate token profile resolver provider = Inr a"
  shows "\<exists>hs ps s. token = hs @ 46 # ps @ 46 # base64url_encode s \<and> length s = SIGNATURE_BYTES \<and>
      resolver (ap_domain profile) (aj_route a) = Inr (aj_key a) \<and>
      provider_verify provider (aj_key a) (hs @ 46 # ps) s = Inr Accepted \<and>
      ps = base64url_encode (aj_payload_bytes a) \<and> length (aj_payload_bytes a) \<le> ap_max_payload_bytes profile"
proof -
  obtain hs ps ss where segments: "token_segments token = Inr (hs, ps, ss)"
    using assms by (auto simp: jwt_authenticate_def auth_segments_Inr split: if_splits)
  with assms have run: "resolver (ap_domain profile) (aj_route a) = Inr (aj_key a)"
      "auth_signature provider (aj_key a) hs ps ss = Inr ()"
      "base64url_decode ps (ap_max_payload_bytes profile) = Inr (aj_payload_bytes a)"
    by (auto simp: jwt_authenticate_def auth_segments_Inr map_err_Inr split: if_splits)
  then obtain s where "base64url_decode ss SIGNATURE_BYTES = Inr s" "length s = SIGNATURE_BYTES"
      "provider_verify provider (aj_key a) (hs @ 46 # ps) s = Inr Accepted"
    by (auto simp: auth_signature_def map_err_Inr verify_exact_def split: if_splits)
  then show ?thesis
    using run segments by (auto simp: token_segments_Inr base64url_roundtrip)
qed

end
