(* ===== verification/Jwt_Witnesses.thy ===== *)
theory Jwt_Witnesses
  imports Jwt_Provider
begin

text \<open>
  One token, issued and verified: the default profile, a ring with a key at epoch 1 and, in
  place of HMAC-SHA256, a function with 32 bytes of output.
\<close>

definition sample_mac :: "u8 list \<Rightarrow> u8 list \<Rightarrow> u8 list" where
  "sample_mac key message = replicate 32 (of_nat (length key + length message))"

definition sample_ring :: JwtKeyRing where
  "sample_ring = \<lparr>jk_legacy = None, jk_epoch_keys = fmupd 1 (replicate 16 7) fmempty, jk_active_epoch = Some 1\<rparr>"

definition sample_claims :: JsonEntries where
  "sample_claims = [(bytes_of ''exp'', JsonUnsigned 2000), (bytes_of ''iat'', JsonUnsigned 1000), (bytes_of ''sub'', JsonString (bytes_of ''u''))]"

definition sample_payload :: JsonEntries where
  "sample_payload = [(bytes_of ''exp'', JsonUnsigned 2000), (bytes_of ''iat'', JsonUnsigned 1000),
     (bytes_of ''sub'', JsonString (bytes_of ''u'')), (bytes_of ''trnm_kep'', JsonUnsigned 1)]"

definition sample_token :: "u8 list" where
  "sample_token = (case issue_active_epoch sample_mac sample_ring (JsonObject sample_claims) VerificationProfile_default of
     Inr token \<Rightarrow> token | Inl _ \<Rightarrow> [])"

lemma sample_mac_length: "\<forall>k m. length (sample_mac k m) = 32"
  by (simp add: sample_mac_def)

lemma sample_lookup: "fmlookup (jk_epoch_keys sample_ring) 1 = Some (replicate 16 7)" "jk_active_epoch sample_ring = Some 1"
  by (simp_all add: sample_ring_def)

lemma sample_profile: "profile_validate VerificationProfile_default = Inr ()"
  by (simp add: profile_validate_def VerificationProfile_default_def ClaimMapping_standard_def claim_names_def
      check_claim_name_def List.map_filter_def bytes_of_def)

lemma sample_epoch_claim: "with_epoch_claim 1 VerificationProfile_default sample_claims = Inr sample_payload"
  by (simp add: with_epoch_claim_def VerificationProfile_default_def ClaimMapping_standard_def sample_claims_def
      sample_payload_def bytes_of_def)

lemma sample_header_bytes: "length (json_bytes (JsonObject (token_header (RouteEpoch 1)))) = 49"
  by code_simp

lemma sample_payload_bytes: "length (json_bytes (JsonObject sample_payload)) = 46"
  by code_simp

lemma length_base64url_encode_le: "length (base64url_encode bs) \<le> 2 * length bs"
  by (induction bs rule: base64url_encode.induct) (simp_all add: Let_def)

lemma sample_issued:
  "issue_with_route sample_mac (JsonObject sample_payload) (RouteEpoch 1) (replicate 16 7) VerificationProfile_default = Inr sample_token"
proof -
  have claims: "issue_active_epoch sample_mac sample_ring (JsonObject sample_claims) VerificationProfile_default =
      issue_with_route sample_mac (JsonObject sample_payload) (RouteEpoch 1) (replicate 16 7) VerificationProfile_default"
    by (simp add: issue_active_epoch_def sample_lookup issue_epoch_def sample_profile sample_epoch_claim)
  have "length (base64url_encode (json_bytes (JsonObject (token_header (RouteEpoch 1)))))
      + length (base64url_encode (json_bytes (JsonObject sample_payload))) + length (base64url_encode (sample_mac k m)) \<le> 300" for k m
    using length_base64url_encode_le [of "json_bytes (JsonObject (token_header (RouteEpoch 1)))"]
      length_base64url_encode_le [of "json_bytes (JsonObject sample_payload)"] length_base64url_encode_le [of "sample_mac k m"]
    by (simp add: sample_header_bytes sample_payload_bytes sample_mac_length del: json_bytes.simps)
  then have "\<exists>token. issue_with_route sample_mac (JsonObject sample_payload) (RouteEpoch 1) (replicate 16 7) VerificationProfile_default = Inr token"
    by (simp add: issue_with_route_def to_canonical_bytes_eq sample_header_bytes sample_payload_bytes Let_def hmac_sha256_def
        VerificationProfile_default_def not_less add.assoc order.trans [of _ 300] del: json_bytes.simps)
  then show ?thesis using claims by (auto simp: sample_token_def)
qed

lemma sample_issue: "issue_active_epoch sample_mac sample_ring (JsonObject sample_claims) VerificationProfile_default = Inr sample_token"
  using sample_issued by (simp add: issue_active_epoch_def sample_lookup issue_epoch_def sample_profile sample_epoch_claim)

lemma sample_texts:
  "valid_utf8 (bytes_of ''exp'')" "valid_utf8 (bytes_of ''iat'')" "valid_utf8 (bytes_of ''sub'')" "valid_utf8 (bytes_of ''trnm_kep'')"
  "valid_utf8 (bytes_of ''u'')"
  "bytes_of ''exp'' < bytes_of ''iat''" "bytes_of ''exp'' < bytes_of ''sub''" "bytes_of ''exp'' < bytes_of ''trnm_kep''"
  "bytes_of ''iat'' < bytes_of ''sub''" "bytes_of ''iat'' < bytes_of ''trnm_kep''" "bytes_of ''sub'' < bytes_of ''trnm_kep''"
  by (simp_all add: bytes_of_def)

lemma sample_ok: "json_ok (JsonObject sample_claims)" "json_ok (JsonObject sample_payload)"
  by (simp_all add: sample_claims_def sample_payload_def sample_texts)

lemma sample_admitted:
  "limits_admit (vf_json_limits VerificationProfile_default) (JsonObject sample_payload)"
  "limits_admit (vf_json_limits VerificationProfile_default) (JsonObject (token_header (RouteEpoch 1)))"
  by (simp_all add: limits_admit_def VerificationProfile_default_def JsonLimits_default_def sample_payload_def token_header_eq
      bytes_of_def EPOCH_KEY_ID_PREFIX_def decimal_digits.simps [of "Suc 0"])

definition sample_validated :: ValidatedClaims where
  "sample_validated = \<lparr>vc_principal = \<lparr>pn_subject = bytes_of ''u'', pn_username = None, pn_variables = [], pn_token_id = None\<rparr>,
     vc_issued_at = Some 1000, vc_not_before = None, vc_expires_at = Some 2000, vc_issuer = None, vc_audiences = []\<rparr>"

lemma sample_validates: "jwt_validate_claims sample_payload (RouteEpoch 1) VerificationProfile_default 1500 = Inr sample_validated"
  by (simp add: jwt_validate_claims_def validate_epoch_claim_def bounded_required_string_def required_string_def
      validate_username_def bounded_optional_string_def validate_variables_def numeric_date_def validate_times_def
      optional_string_def validate_audience_def VerificationProfile_default_def ClaimMapping_standard_def sample_payload_def
      sample_validated_def i64_checked_def bytes_of_def Let_def)

lemma sample_verifies:
  "jwt_verify sample_mac sample_token sample_ring VerificationProfile_default 1500 =
     Inr (verified (RouteEpoch 1) (JsonObject (parsed_entries sample_payload)) sample_validated)"
proof -
  have "key_for_route sample_ring (RouteEpoch 1) = Inr (replicate 16 7)" by (simp add: key_for_route_def sample_lookup)
  from verifies_issued [OF sample_issued sample_profile this sample_mac_length _ _ sample_ok(2) sample_admitted, of 1500]
  show ?thesis by (simp add: sample_validates)
qed


lemma verified_jwt_authentic_witness:
  "\<exists>h p key. sample_token = base64url_encode h @ 46 # base64url_encode p @ 46 #
      base64url_encode (sample_mac key (base64url_encode h @ 46 # base64url_encode p)) \<and>
    fmlookup (jk_epoch_keys sample_ring) 1 = Some key"
  using verified_jwt_authentic [OF sample_verifies] by (auto simp: verified_def)

lemma verified_jwt_current_witness:
  "map_of (parsed_entries sample_payload) (bytes_of ''sub'') = Some (JsonString (pn_subject (vc_principal sample_validated))) \<and>
   vc_expires_at sample_validated = Some 2000 \<and> (1500::int) < 2000 + vf_clock_skew_seconds VerificationProfile_default"
  using verified_jwt_current [OF sample_verifies]
  by (simp add: VerificationProfile_default_def ClaimMapping_standard_def JsonLimits_default_def verified_def sample_validated_def)

lemma json_roundtrip_witness:
  "json_parse (json_bytes (JsonObject sample_payload)) JsonLimits_default = Inr (JsonObject sample_payload)"
proof -
  have "json_within JsonLimits_default 0 (JsonObject sample_payload)" "json_nodes (JsonObject sample_payload) \<le> jl_max_nodes JsonLimits_default"
    "jl_max_nodes JsonLimits_default < 2 ^ 64"
    using sample_admitted(1) by (simp_all add: limits_admit_def VerificationProfile_default_def del: json_within.simps json_nodes.simps)
  moreover have "to_canonical_bytes (JsonObject sample_payload) 46 = Inr (json_bytes (JsonObject sample_payload))"
    by (simp add: to_canonical_bytes_eq sample_payload_bytes del: json_bytes.simps)
  ultimately show ?thesis
    using json_roundtrip [OF sample_ok(2)] by (simp add: sample_payload_def del: json_bytes.simps)
qed

definition sample_reference :: KeyReference where
  "sample_reference = \<lparr>kf_domain = DomainAccessToken, kf_handle = bytes_of ''kms://jwt/access'', kf_epoch = Some 1\<rparr>"

definition sample_resolver :: KeyResolver where
  "sample_resolver domain route =
     (if domain = DomainAccessToken \<and> route = RouteEpoch 1 then Inr sample_reference else Inl AuUnknownKey)"

definition sample_keys :: SoftwareKeys where
  "sample_keys = fmupd (software_key_id sample_reference) (replicate 16 7) fmempty"

lemma sample_resolves:
  "\<forall>route key. key_for_route sample_ring route = Inr key \<longrightarrow>
     (\<exists>ref. sample_resolver (ap_domain AuthenticationProfile_default) route = Inr ref \<and> fmlookup sample_keys (software_key_id ref) = Some key)"
proof (intro allI impI)
  fix route key assume "key_for_route sample_ring route = Inr key"
  then have "route = RouteEpoch 1" "key = replicate 16 7"
    by (cases route; auto simp: key_for_route_def sample_ring_def ok_or_def split: if_splits option.splits)+
  then show "\<exists>ref. sample_resolver (ap_domain AuthenticationProfile_default) route = Inr ref \<and> fmlookup sample_keys (software_key_id ref) = Some key"
    by (simp add: sample_resolver_def AuthenticationProfile_default_def sample_keys_def)
qed


end
