(* ===== verification/Spec2Isabelle.thy ===== *)
theory Spec2Isabelle
  imports Session_Family Authority_Match Persistence_Proofs Social_Witnesses Base64url Canonical Wire_Proofs Query_Proofs Session_Routes_Properties Reconnect_Journal Disconnect_Properties Connection_Actor_Proofs
    Identity_Properties Storage_Proofs Token_Proofs Connection_Ledger_Properties Migration_Fence_Proofs Runtime_Policy Transport Public_Version
    Key_Epoch_Properties Key_Lifecycle_Proofs Signer_Journal_Properties Jwt_Witnesses
begin

text \<open>
  Verification library of the domain cores of the Rust game backend under \<open>src/crates\<close>.

  \<^bold>\<open>The program.\<close> The backend reimplements the Nakama game server in Rust. It is split into pure
  domain crates, which own the state machines and the rules, and the shells around them: an
  asynchronous server (\<open>trnm-server\<close>) that speaks HTTP, gRPC and WebSocket, and a database layer
  (\<open>trnm-persistence-pg\<close>). Every request that changes something is a command with an identity and
  a fingerprint; a domain crate checks it against its state, changes the state or refuses with a
  \<open>DomainError\<close>, and leaves a receipt, so that a command that is delivered twice is answered from
  the receipt. What must reach the outside is recorded in an outbox with leases and retries. The
  library models the domain crates; the shells only move their values.

  \<^bold>\<open>Conventions.\<close> \<open>Prelude\<close> has the machine integers (a Rust integer is the word of its width, a
  \<open>usize\<close> a natural number whose 64-bit bound is written out where the code checks it, a signed
  time an integer in its range), \<open>checked_add\<close> and its relatives, \<open>Result\<close> as a sum with \<open>tryE\<close>
  for the \<open>?\<close> operator, and the ordered iteration over \<open>BTreeMap\<close>s (finite maps). A method with
  \<open>&mut self\<close> takes the state and returns it with the result; \<open>commit_candidate\<close> is a method that
  writes the state only as its last action. \<open>Contracts\<close> is \<open>trnm-contracts\<close>: error codes, retry
  classes, identifiers. \<open>Rust_Text\<close> and \<open>Utf8\<close> are the strings of Rust and their encoding.

  \<^bold>\<open>Interfaces.\<close> \<open>Machine\<close> has the contracts as locales: \<open>state_machine\<close> (every operation keeps an
  invariant), \<open>monotone_machine\<close> (every operation moves the state up a preorder: what is revoked,
  retired or acknowledged stays so), \<open>receipt_machine\<close> (commands are answered exactly once);
  \<open>Paging\<close> has \<open>keyed_pages\<close> (a client that follows cursors sees every item once). Every component
  interprets the contracts it provides, and its properties rest on the facts of the interpretation.

  \<^bold>\<open>Components.\<close>
  \<^item> \<open>Session_Family\<close>: refresh-token families (\<open>trnm-session-core\<close>). A token is rotated at most once,
    reuse of a consumed token compromises the family, revocation is final.
  \<^item> \<open>Authority_Match\<close>: the authoritative match (\<open>trnm-authority-core\<close>) with \<open>prepare\<close>, \<open>commit\<close> and
    \<open>takeover\<close>; it refines an append-only log of commands, fences former owners and answers every
    command once.
  \<^item> \<open>Persistence_Outbox\<close>, \<open>Persistence_Proofs\<close>: durable entities with their event log and the
    transactional outbox (\<open>trnm-persistence-core\<close>): contiguous versions and events, exactly one
    application of a command, the lease life cycle of an intent and its end after the last attempt.
  \<^item> \<open>Migration_Fence\<close>, \<open>Migration_Fence_Proofs\<close>: the cutover from a source to a target store in the
    same crate: no stage is skipped and the target has authority only over a compared cut.
  \<^item> \<open>Social_Types\<close>, \<open>Social_Registry\<close>, \<open>Social_Commands\<close> (model), \<open>Social_Invariant\<close>, \<open>Social_Frame\<close>,
    \<open>Social_Proofs\<close>, \<open>Social_Effects\<close>, \<open>Social_Properties\<close>, \<open>Social_Witnesses\<close>: friends, blocks,
    groups, chat and notifications (\<open>trnm-social-core\<close>). Every command keeps the invariant, so that
    the check the source runs after each command never fails; friendships need consent; a block
    holds; pages of friends, messages and notifications are complete.
  \<^item> \<open>Canonical\<close>, \<open>Wire\<close>, \<open>Wire_Proofs\<close>, \<open>Query\<close>, \<open>Query_Proofs\<close>: the codecs of
    \<open>trnm-canonical-core\<close>, \<open>trnm-realtime-wire\<close> and \<open>trnm-query-core\<close>:
    round trips, injectivity of the canonical form, limits of what a parser accepts.
  \<^item> \<open>Base64url\<close>, \<open>Json\<close>, \<open>Jwt\<close> (model), \<open>Json_Proofs\<close>, \<open>Json_Sound\<close>, \<open>Jwt_Proofs\<close>, \<open>Jwt_Witnesses\<close>:
    the token codec of \<open>trnm-token-jwt-adapter\<close>: \<open>base64url.rs\<close>, \<open>json.rs\<close> (the encoder renders a
    value, the parser reads it back, and accepts only values within its limits) and
    \<open>jwt/part1.rs\<close> to \<open>part4.rs\<close> (a token that verifies was signed with a key of the ring, chosen by its
    signed header, and its claims are current; what a ring issues, it verifies).
    \<open>Jwt_Provider\<close>: authentication through a provider
    (\<open>trnm-token-jwt-provider-adapter\<close>), which agrees with the codec.
  \<^item> \<open>Presence_Types\<close>, \<open>Presence_Router\<close>, \<open>Session_Routes\<close>, \<open>Reconnect_Journal\<close>, \<open>Disconnect_Journal\<close>,
    \<open>Connection_Actor\<close> with their proofs: \<open>trnm-presence-router-v2\<close>. The deltas the router emits
    track the view of a client, the registry's self-check always succeeds, a revoked generation
    stays out, a reconnecting client is replayed exactly what it missed, a disconnect is dispatched
    at most once and its receipt budget holds, a connection answers each request once within its
    buffers.
  \<^item> \<open>Connection_Ledger\<close>, \<open>Connection_Ledger_Proofs\<close>, \<open>Connection_Ledger_Properties\<close>:
    \<open>trnm-presence-core\<close>: connections and presences with their indexes and revocation epochs.
  \<^item> \<open>Identity\<close>, \<open>Identity_Proofs\<close>, \<open>Identity_Properties\<close>: accounts and their credentials
    (\<open>trnm-identity-core\<close>): the registry's self-check holds, authentication reflects the present
    account, a deleted account and its names stay deleted.
  \<^item> \<open>Storage\<close>, \<open>Storage_Proofs\<close>, \<open>Public_Version\<close>: the storage engine and the public versions
    (\<open>trnm-storage-core\<close>, \<open>trnm-storage-nakama-version\<close>): batches are atomic, objects stay intact,
    users change only their own, and the two implementations of MD5 give the same versions.
  \<^item> \<open>Token\<close>, \<open>Token_Proofs\<close>: claims and key ring of \<open>trnm-token-core\<close>: an issued token is accepted
    as long as it should be and no longer.
  \<^item> \<open>Key_Epoch\<close>, \<open>Key_Lifecycle\<close>, \<open>Signer_Journal\<close>, \<open>Key_Provider\<close> with their proofs: the signing keys
    (\<open>trnm-token-crypto-provider\<close>): \<open>key_epoch.rs\<close> (rotation, revocation and archival of epochs: a
    registry always archives, its checkpoint restores it, a revoked key never comes back),
    \<open>lifecycle.rs\<close> (signing and verification windows of each key domain: at most one signer at any
    moment), \<open>signer_journal.rs\<close> (operations of an external signer: dispatched at most once,
    confirmed only on authenticated evidence), and \<open>lib.rs\<close>, \<open>software.rs\<close>, \<open>key_domain.rs\<close> (the
    provider contract, the software provider and the registries of one domain).
  \<^item> \<open>Runtime_Policy\<close>: pool, timeout and retry settings (\<open>trnm-persistence-runtime-policy\<close>); a client
    that follows the retry decisions stops. \<open>Transport\<close>: the mapping of errors to HTTP, gRPC and
    WebSocket (\<open>trnm-transport-core\<close>).

  \<^bold>\<open>Interaction.\<close> A session of \<open>Session_Family\<close> names the family and generation that \<open>Token\<close> puts into
  the claims of a token and that \<open>Session_Routes\<close> fences; \<open>Jwt\<close> renders the claims with \<open>Json\<close> and the segments of the token
  with \<open>Base64url\<close>, and \<open>Jwt_Provider\<close> asks the providers of \<open>Key_Provider\<close>. Commands reach \<open>Authority_Match\<close> in the envelopes of \<open>Wire\<close>; its events become the durable
  records and outbox intents of \<open>Persistence_Outbox\<close>. The connection actor and the journals sit
  between a WebSocket and the presence router; \<open>Transport\<close> maps the \<open>DomainError\<close>s of all of them.

  \<^bold>\<open>Termination, bounds and fuel.\<close> All definitions are total. Loops over input that shrinks are
  structural or have a termination proof (the padding of MD5 by the distance to the next block
  boundary, the lexer and the decoders by the length of the rest, the JSON parser by the depth
  that is left and the room in the collection). The only fuel is that of
  \<open>drain\<close> in \<open>Paging\<close>, the client that follows cursors; its theorems take more fuel than there are
  items, and every page but the last has an item.

  \<^bold>\<open>Parameters.\<close> Code that is not in the repository is an argument: SHA-256 (the \<open>sha2\<close> crate) in
  \<open>Storage\<close>, the authenticator of cursors in \<open>Reconnect_Journal\<close>, the verifier of outcome receipts in
  \<open>Disconnect_Journal\<close>, the verifiers of revocations in \<open>Session_Routes\<close>, the verifiers of archives in
  \<open>Key_Epoch\<close> and \<open>Signer_Journal\<close>, that of signing outcomes in \<open>Signer_Journal\<close>, HMAC (the \<open>hmac\<close>
  crate) in \<open>Key_Provider\<close> and \<open>Jwt\<close>, the resolver of key references in \<open>Jwt_Provider\<close>. No property assumes more
  of them than its statement says.

  \<^bold>\<open>Not modelled.\<close> \<open>trnm-server\<close> and \<open>trnm-persistence-pg\<close> (asynchronous input and output over third
  party crates and SQL whose meaning is PostgreSQL's), the adapter gates (test
  harnesses), the Go module and the scripts (not Rust), and in every crate the texts of error
  messages, the zeroing of memory and the constant-time comparison of secrets, which a functional
  model does not observe.
\<close>

end
